(* ===== verification/Prelude.thy ===== *)
theory Prelude
  imports Main "HOL-Library.Word" "HOL-Library.Char_ord"
begin

text \<open>
  Shared types, memory primitives and generic facts.  C integers are words of their C width;
  \<open>int\<close> stands for a C \<open>int\<close> whose values the code keeps in range.  Memory regions are
  lists; \<open>memcpy_at\<close> is the C library's \<open>memcpy\<close> into a region at an offset.
\<close>

named_theorems model_simps \<open>characteristic equations of the model's operations\<close>
named_theorems inv_intros \<open>preservation of the components' invariants\<close>

unbundle bit_operations_syntax

type_synonym u8 = "8 word"
type_synonym u16 = "16 word"
type_synonym u32 = "32 word"

subsection \<open>Memory\<close>

definition memcpy_at :: "'a list \<Rightarrow> nat \<Rightarrow> 'a list \<Rightarrow> 'a list" where
  "memcpy_at dst off src = take off dst @ src @ drop (off + length src) dst"

lemma length_memcpy_at [simp]:
  "off + length src \<le> length dst \<Longrightarrow> length (memcpy_at dst off src) = length dst"
  by (simp add: memcpy_at_def)

lemma memcpy_at_Nil [simp]: "memcpy_at dst off [] = dst"
  by (simp add: memcpy_at_def)

lemma nth_memcpy_at:
  assumes "off + length src \<le> length dst" and "i < length dst"
  shows "memcpy_at dst off src ! i =
    (if off \<le> i \<and> i < off + length src then src ! (i - off) else dst ! i)"
  using assms by (auto simp: memcpy_at_def nth_append min_def)

subsection \<open>Lists\<close>

lemma take_drop_conv_map:
  "off + n \<le> length xs \<Longrightarrow> take n (drop off xs) = map (\<lambda>k. xs ! (off + k)) [0..<n]"
  by (rule nth_equalityI) simp_all

lemma take_add_drop: "take (m + n) xs = take m xs @ take n (drop m xs)"
  by (rule take_add)

lemma map_upt_split:
  "m \<le> n \<Longrightarrow> map f [0..<n] = map f [0..<m] @ map (\<lambda>k. f (m + k)) [0..<n - m]"
  by (rule nth_equalityI) (auto simp: nth_append)

subsection \<open>Words\<close>

text \<open>
  Index arithmetic modulo a size that divides the word's range is not disturbed by the
  wrap-around of the 32-bit index.
\<close>

lemma mod_mod_dvd_nat:
  fixes m :: nat
  assumes "s dvd m"
  shows "(a mod m) mod s = a mod s"
  using assms by (rule mod_mod_cancel)

lemma unat_add_mod_dvd:
  fixes p q :: u32
  assumes "s dvd 2 ^ 32"
  shows "unat (p + q) mod s = (unat p + unat q) mod s"
  using mod_mod_dvd_nat [OF assms] by (simp add: unat_word_ariths)

lemma unat_of_nat_mod_dvd:
  assumes "s dvd 2 ^ 32"
  shows "unat (of_nat k :: u32) mod s = k mod s"
  using mod_mod_dvd_nat [OF assms] by (simp add: unat_of_nat)

lemma unat_add_of_nat_mod_dvd:
  fixes p :: u32
  assumes "s dvd 2 ^ 32"
  shows "unat (p + of_nat k) mod s = (unat p + k) mod s"
proof -
  have "(unat p + unat (of_nat k :: u32)) mod s = (unat p + k) mod s"
    using unat_of_nat_mod_dvd [OF assms, of k] by (metis mod_add_right_eq)
  then show ?thesis using unat_add_mod_dvd [OF assms] by simp
qed

lemma unat_less_u32: "unat (x :: u32) < 4294967296"
  using unsigned_less [of x] by simp

lemma unat_of_nat_u32 [simp]: "k < 4294967296 \<Longrightarrow> unat (of_nat k :: u32) = k"
  by (simp add: unat_of_nat take_bit_nat_eq_self)

lemma sint_small_u32:
  assumes "unat (x :: u32) < 2 ^ 31"
  shows "sint x = int (unat x)"
proof -
  have "int (unat x) < 2 ^ 31" using assms by (simp del: of_nat_unat)
  then have "uint x < 2 ^ 31" by simp
  moreover have "- (2 ^ 31) \<le> uint x" by (rule order_trans [of _ 0]) simp_all
  ultimately have "signed_take_bit 31 (uint x) = uint x"
    by (intro signed_take_bit_int_eq_self)
  then show ?thesis by (simp add: sint_uint)
qed

end
