(* ===== verification/HostHspi.thy ===== *)
theory HostHspi
  imports Prelude
begin

text \<open>
  The host side of the SPI link, \<open>atcmd/host/raspi-atcmd-cli/nrc-hspi.c\<close>: the command protocol
  with its CRC and retries, the register reads, and slot-wise reading and writing.  The SPI bus is
  the caller's \<open>spi_transfer\<close>, a parameter over its own state.
\<close>

subsection \<open>Checksum and byte order\<close>

definition crc7_bit :: "u8 \<Rightarrow> u8" where
  "crc7_bit crc = push_bit 1 (if crc AND 0x80 \<noteq> 0 then crc XOR 0x89 else crc)"

definition crc7_byte :: "u8 \<Rightarrow> u8 \<Rightarrow> u8" where
  "crc7_byte crc b = (crc7_bit ^^ 8) (crc XOR b)"

definition hspi_crc7 :: "u8 list \<Rightarrow> u8" where
  "hspi_crc7 data = drop_bit 1 (foldl crc7_byte 0 data)"

text \<open>Little-endian memory images of the C integers.\<close>

definition le16 :: "u16 \<Rightarrow> u8 list" where
  "le16 v = [ucast v, ucast (drop_bit 8 v)]"

definition le32 :: "u32 \<Rightarrow> u8 list" where
  "le32 v = [ucast v, ucast (drop_bit 8 v), ucast (drop_bit 16 v), ucast (drop_bit 24 v)]"

definition of_le16 :: "u8 list \<Rightarrow> u16" where
  "of_le16 b = ucast (b ! 0) OR push_bit 8 (ucast (b ! 1))"

definition of_le32 :: "u8 list \<Rightarrow> u32" where
  "of_le32 b = ucast (b ! 0) OR push_bit 8 (ucast (b ! 1)) OR push_bit 16 (ucast (b ! 2)) OR
     push_bit 24 (ucast (b ! 3))"

text \<open>The unions swap the bytes of the image.\<close>

definition hspi_convert_byteorder_16bit :: "u16 \<Rightarrow> u16" where
  "hspi_convert_byteorder_16bit val = of_le16 (rev (le16 val))"

definition hspi_convert_byteorder_32bit :: "u32 \<Rightarrow> u32" where
  "hspi_convert_byteorder_32bit val = of_le32 (rev (le32 val))"

subsection \<open>Operation codes\<close>

definition opcode_read_reg :: "u32 \<Rightarrow> nat \<Rightarrow> u32" where
  "opcode_read_reg addr len = push_bit 24 0x50 OR push_bit 13 addr OR
     (if len > 1 then push_bit 23 1 OR of_nat len else push_bit 21 1)"

definition opcode_write_reg :: "u32 \<Rightarrow> u32 \<Rightarrow> u32" where
  "opcode_write_reg addr data = push_bit 24 0x50 OR push_bit 22 1 OR push_bit 21 1 OR
     push_bit 13 addr OR data"

definition opcode_read_data :: "u32 \<Rightarrow> nat \<Rightarrow> u32" where
  "opcode_read_data addr len = push_bit 24 0x50 OR push_bit 23 1 OR push_bit 21 1 OR
     push_bit 13 addr OR of_nat len"

definition opcode_write_data :: "u32 \<Rightarrow> nat \<Rightarrow> u32" where
  "opcode_write_data addr len = push_bit 24 0x50 OR push_bit 23 1 OR push_bit 21 1 OR
     push_bit 22 1 OR push_bit 13 addr OR of_nat len"

text \<open>The bit-fields of \<open>hspi_opcode_t\<close>.\<close>

definition op_burst :: "u32 \<Rightarrow> bool" where "op_burst v = bit v 23"
definition op_write :: "u32 \<Rightarrow> bool" where "op_write v = bit v 22"
definition op_fixed :: "u32 \<Rightarrow> bool" where "op_fixed v = bit v 21"
definition op_address :: "u32 \<Rightarrow> nat" where "op_address v = unat (drop_bit 13 v AND 0xFF)"
definition op_length :: "u32 \<Rightarrow> nat" where "op_length v = unat (v AND 0x1FFF)"

definition HSPI_REG_DEVICE_STATUS :: u32 where "HSPI_REG_DEVICE_STATUS = 0x01"
definition HSPI_REG_SYS :: u32 where "HSPI_REG_SYS = 0x00"
definition HSPI_REG_EIRQ_MODE :: u32 where "HSPI_REG_EIRQ_MODE = 0x10"
definition HSPI_REG_EIRQ_ENABLE :: u32 where "HSPI_REG_EIRQ_ENABLE = 0x11"
definition HSPI_REG_STATUS :: u32 where "HSPI_REG_STATUS = 0x12"
definition HSPI_REG_MSG :: u32 where "HSPI_REG_MSG = 0x20"
definition HSPI_REG_RXQ_WINDOW :: u32 where "HSPI_REG_RXQ_WINDOW = 0x31"
definition HSPI_REG_TXQ_WINDOW :: u32 where "HSPI_REG_TXQ_WINDOW = 0x41"

subsection \<open>State\<close>

record q_status =
  q_error :: nat
  slot_cnt :: nat
  slot_size :: nat
  total_slot_size :: nat

record hspi_status =
  eirq_flags :: u8
  s_txq :: q_status
  s_rxq :: q_status

record hspi_slot_info =
  sl_num :: nat
  sl_size :: nat

text \<open>
  \<open>g_hspi_info\<close> with the two function-static sequence numbers.  \<open>spi tx rx len\<close> sends \<open>tx\<close> and
  receives \<open>len\<close> bytes when \<open>rx\<close> holds; it returns the status, the received bytes and its state.
  \<open>rsv\<close> is the content of the uninitialised reserved bytes of a command.
\<close>

type_synonym 's spi = "u8 list option \<Rightarrow> bool \<Rightarrow> nat \<Rightarrow> 's \<Rightarrow> int \<times> u8 list \<times> 's"

record hspi_info =
  active :: bool
  txq_slot :: hspi_slot_info
  rxq_slot :: hspi_slot_info
  status :: hspi_status
  rd_seq :: nat
  wr_seq :: nat

definition no_status :: q_status where
  "no_status = \<lparr>q_error = 0, slot_cnt = 0, slot_size = 0, total_slot_size = 0\<rparr>"

subsection \<open>Transfers\<close>

datatype xfer = XTx "u8 list" | XRx nat | XCrcTx | XCrcRx

fun chop :: "nat \<Rightarrow> u8 list \<Rightarrow> u8 list list" where
  "chop n xs = (if n = 0 \<or> xs = [] then [] else take n xs # chop n (drop n xs))"

fun chop_len :: "nat \<Rightarrow> nat \<Rightarrow> nat list" where
  "chop_len n len = (if n = 0 \<or> len = 0 then [] else min n len # chop_len n (len - n))"

declare chop.simps [simp del] chop_len.simps [simp del]

text \<open>
  The transfers after the command: the data in pieces of at most \<open>HSPI_XFER_LEN_MAX\<close> bytes, then
  four bytes of burst CRC.
\<close>

definition burst_xfers :: "u32 \<Rightarrow> u8 list \<Rightarrow> nat \<Rightarrow> xfer list" where
  "burst_xfers opcode buf len =
    (if op_write opcode then map XTx (chop 2048 (take len buf)) @ [XCrcTx]
     else map XRx (chop_len 2048 len) @ [XCrcRx])"

fun run_xfers :: "'s spi \<Rightarrow> xfer list \<Rightarrow> u8 list \<Rightarrow> 's \<Rightarrow> int \<times> u8 list \<times> 's" where
  "run_xfers spi [] got s = (0, got, s)"
| "run_xfers spi (x # xs) got s =
    (case (case x of
             XTx b \<Rightarrow> spi (Some b) False (length b) s
           | XRx n \<Rightarrow> spi None True n s
           | XCrcTx \<Rightarrow> spi (Some [0xFF, 0xFF, 0xFF, 0xFF]) False 4 s
           | XCrcRx \<Rightarrow> spi None True 4 s) of
       (ret, rx, s') \<Rightarrow>
         if ret \<noteq> 0 then (ret, (case x of XRx _ \<Rightarrow> got @ rx | _ \<Rightarrow> got), s')
         else run_xfers spi xs (case x of XRx _ \<Rightarrow> got @ rx | _ \<Rightarrow> got) s')"

definition hspi_transfer_dummy :: "'s spi \<Rightarrow> 's \<Rightarrow> int \<times> 's" where
  "hspi_transfer_dummy spi s =
    (case spi (Some (replicate 8 0xFF)) False 8 s of (ret, _, s') \<Rightarrow> (ret, s'))"

definition cmd_bytes :: "u32 \<Rightarrow> u8 list \<Rightarrow> u8 list" where
  "cmd_bytes opcode rsv =
    (let op = le32 (hspi_convert_byteorder_32bit opcode)
     in op @ [push_bit 1 (hspi_crc7 op) OR 0x01] @ rsv)"

text \<open>
  The retry loop: at most \<open>HSPI_XFER_RETRY_MAX\<close> commands, each without an acknowledgement followed
  by a dummy transfer.  The result is the status, the received bytes and the bus.
\<close>

fun hspi_retry :: "'s spi \<Rightarrow> u32 \<Rightarrow> u8 list \<Rightarrow> u8 list \<Rightarrow> nat \<Rightarrow> nat \<Rightarrow> 's \<Rightarrow> int \<times> u8 list \<times> 's"
where
  "hspi_retry spi opcode rsv buf len 0 s = (-1, [], s)"
| "hspi_retry spi opcode rsv buf len (Suc n) s =
    (case spi (Some (cmd_bytes opcode rsv)) True 8 s of
       (ret, resp, s1) \<Rightarrow>
         if ret \<noteq> 0 then (-1, [], s1)
         else if resp ! 7 = 0x47 then
           (if op_burst opcode then
              (case run_xfers spi (burst_xfers opcode buf len) [] s1 of
                 (ret, got, s2) \<Rightarrow> ((if ret \<noteq> 0 then -1 else 0), got, s2))
            else if op_fixed opcode \<and> \<not> op_write opcode then (0, [resp ! 6], s1)
            else (0, [], s1))
         else hspi_retry spi opcode rsv buf len n (snd (hspi_transfer_dummy spi s1)))"

definition hspi_transfer ::
  "'s spi \<Rightarrow> u8 list \<Rightarrow> hspi_info \<Rightarrow> u32 \<Rightarrow> u8 list \<Rightarrow> nat \<Rightarrow> 's \<Rightarrow> int \<times> u8 list \<times> 's" where
  "hspi_transfer spi rsv info opcode buf len s =
    (if \<not> active info then (-1, [], s) else hspi_retry spi opcode rsv buf len 5 s)"

subsection \<open>Registers\<close>

definition hspi_reg_read ::
  "'s spi \<Rightarrow> u8 list \<Rightarrow> hspi_info \<Rightarrow> u32 \<Rightarrow> nat \<Rightarrow> 's \<Rightarrow> int \<times> u8 list \<times> 's" where
  "hspi_reg_read spi rsv info addr len s =
    (if len = 0 then (-1, [], s)
     else if active info then hspi_transfer spi rsv info (opcode_read_reg addr len) [] len s
     else (-1, [], s))"

definition hspi_reg_write ::
  "'s spi \<Rightarrow> u8 list \<Rightarrow> hspi_info \<Rightarrow> u32 \<Rightarrow> u8 \<Rightarrow> 's \<Rightarrow> int \<times> 's" where
  "hspi_reg_write spi rsv info addr data s =
    (if active info then
       (case hspi_transfer spi rsv info (opcode_write_reg addr (ucast data)) [] 0 s of
          (ret, _, s') \<Rightarrow> (ret, s'))
     else (-1, s))"

record hspi_sys =
  h_ready :: bool
  h_sleep :: bool
  h_chip_id :: u16
  h_modem_id :: u32
  h_sw_id :: u32
  h_board_id :: u32

definition be16_at :: "u8 list \<Rightarrow> nat \<Rightarrow> u16" where
  "be16_at b i = hspi_convert_byteorder_16bit (of_le16 (take 2 (drop i b)))"

definition be32_at :: "u8 list \<Rightarrow> nat \<Rightarrow> u32" where
  "be32_at b i = hspi_convert_byteorder_32bit (of_le32 (take 4 (drop i b)))"

definition hspi_regs_read_sys ::
  "'s spi \<Rightarrow> u8 list \<Rightarrow> hspi_info \<Rightarrow> 's \<Rightarrow> (int + hspi_sys) \<times> 's" where
  "hspi_regs_read_sys spi rsv info s =
    (case hspi_reg_read spi rsv info HSPI_REG_SYS 16 s of
       (err, b, s') \<Rightarrow>
         if err \<noteq> 0 then (Inl err, s')
         else (Inr \<lparr>h_ready = bit (b ! 1) 0, h_sleep = bit (b ! 1) 1, h_chip_id = be16_at b 2,
                    h_modem_id = be32_at b 4, h_sw_id = be32_at b 8, h_board_id = be32_at b 12\<rparr>, s'))"

definition hspi_regs_read_eirq ::
  "'s spi \<Rightarrow> u8 list \<Rightarrow> hspi_info \<Rightarrow> 's \<Rightarrow> (int + u8 list) \<times> 's" where
  "hspi_regs_read_eirq spi rsv info s =
    (case hspi_reg_read spi rsv info HSPI_REG_EIRQ_MODE 2 s of
       (err, b, s') \<Rightarrow> ((if err \<noteq> 0 then Inl err else Inr b), s'))"

definition q_status_at :: "u8 list \<Rightarrow> nat \<Rightarrow> q_status" where
  "q_status_at b i = \<lparr>q_error = unat (b ! i), slot_cnt = unat (b ! (i + 1)),
     slot_size = unat (be16_at b (i + 2)), total_slot_size = unat (be16_at b (i + 4))\<rparr>"

definition hspi_regs_read_status ::
  "'s spi \<Rightarrow> u8 list \<Rightarrow> hspi_info \<Rightarrow> 's \<Rightarrow> (int + hspi_status) \<times> 's" where
  "hspi_regs_read_status spi rsv info s =
    (case hspi_reg_read spi rsv info HSPI_REG_STATUS 14 s of
       (err, b, s') \<Rightarrow>
         if err \<noteq> 0 then (Inl err, s')
         else (Inr \<lparr>eirq_flags = b ! 1, s_txq = q_status_at b 2, s_rxq = q_status_at b 8\<rparr>, s'))"

definition hspi_regs_read_message ::
  "'s spi \<Rightarrow> u8 list \<Rightarrow> hspi_info \<Rightarrow> 's \<Rightarrow> (int + u32 list) \<times> 's" where
  "hspi_regs_read_message spi rsv info s =
    (case hspi_reg_read spi rsv info HSPI_REG_MSG 16 s of
       (err, b, s') \<Rightarrow>
         if err \<noteq> 0 then (Inl err, s')
         else (Inr [be32_at b 0, be32_at b 4, be32_at b 8, be32_at b 12], s'))"

text \<open>
  \<open>hspi_regs_read_all\<close> adds up the four results; only the message words are used afterwards.
\<close>

definition err_of :: "int + 'a \<Rightarrow> int" where
  "err_of r = (case r of Inl e \<Rightarrow> e | Inr _ \<Rightarrow> 0)"

definition hspi_regs_read_all ::
  "'s spi \<Rightarrow> u8 list \<Rightarrow> hspi_info \<Rightarrow> 's \<Rightarrow> (int + u32 list) \<times> 's" where
  "hspi_regs_read_all spi rsv info s =
    (case hspi_regs_read_sys spi rsv info s of (sys, s1) \<Rightarrow>
     case hspi_regs_read_eirq spi rsv info s1 of (eirq, s2) \<Rightarrow>
     case hspi_regs_read_status spi rsv info s2 of (st, s3) \<Rightarrow>
     case hspi_regs_read_message spi rsv info s3 of (msg, s4) \<Rightarrow>
       (let err = err_of sys + err_of eirq + err_of st + err_of msg
        in ((if err \<noteq> 0 then Inl err else msg), s4)))"

subsection \<open>Queue status and interrupts\<close>

datatype host_queue = H_TXQ | H_RXQ | H_QUE_ALL

definition hspi_status_init :: "host_queue \<Rightarrow> hspi_info \<Rightarrow> hspi_info" where
  "hspi_status_init que info =
    info\<lparr>status := (status info)\<lparr>
      s_txq := (if que = H_TXQ \<or> que = H_QUE_ALL then no_status else s_txq (status info)),
      s_rxq := (if que = H_RXQ \<or> que = H_QUE_ALL then no_status else s_rxq (status info))\<rparr>\<rparr>"

text \<open>A queue status is taken over only if it is plausible for the queue's geometry.\<close>

definition q_plausible :: "hspi_slot_info \<Rightarrow> q_status \<Rightarrow> bool" where
  "q_plausible sl q \<longleftrightarrow> slot_cnt q > 0 \<and> slot_cnt q \<le> sl_num sl \<and>
     slot_size q * 4 = sl_size sl \<and> slot_cnt q * slot_size q = total_slot_size q"

definition hspi_status_update :: "'s spi \<Rightarrow> u8 list \<Rightarrow> hspi_info \<Rightarrow> 's \<Rightarrow> int \<times> hspi_info \<times> 's" where
  "hspi_status_update spi rsv info s =
    (case hspi_regs_read_status spi rsv info s of
       (Inl ret, s') \<Rightarrow> (ret, info, s')
     | (Inr new, s') \<Rightarrow>
         (0, info\<lparr>status := \<lparr>eirq_flags = eirq_flags new,
              s_txq = (if q_plausible (txq_slot info) (s_txq new) then s_txq new
                       else s_txq (status info)),
              s_rxq = (if q_plausible (rxq_slot info) (s_rxq new) then s_rxq new
                       else s_rxq (status info))\<rparr>\<rparr>, s'))"

datatype eirq_mode = EIRQ_NONE | EIRQ_LOW | EIRQ_HIGH | EIRQ_FALLING | EIRQ_RISING

definition eirq_mode_val :: "eirq_mode \<Rightarrow> u8" where
  "eirq_mode_val m = (case m of EIRQ_NONE \<Rightarrow> -1 | EIRQ_LOW \<Rightarrow> 0 | EIRQ_HIGH \<Rightarrow> 1
     | EIRQ_FALLING \<Rightarrow> 2 | EIRQ_RISING \<Rightarrow> 3)"

text \<open>
  \<open>hspi_eirq_t\<close> is a local variable of which only the named bits are assigned: \<open>junk\<close> is what the
  two bytes held before.
\<close>

definition hspi_eirq_enable ::
  "'s spi \<Rightarrow> u8 list \<Rightarrow> u8 \<times> u8 \<Rightarrow> hspi_info \<Rightarrow> u8 \<Rightarrow> u8 \<Rightarrow> 's \<Rightarrow> int \<times> 's" where
  "hspi_eirq_enable spi rsv junk info mode en s =
    (let val0 = (fst junk AND 0xF8) OR (if mode AND 1 \<noteq> 0 then 1 else 0) OR
                (if mode AND 2 \<noteq> 0 then 2 else 0) OR 4;
         val1 = (snd junk AND 0xF0) OR (if en AND 1 \<noteq> 0 then 1 else 0) OR
                (if en AND 2 \<noteq> 0 then 2 else 0) OR (if en AND 4 \<noteq> 0 then 4 else 0) OR
                (if en AND 8 \<noteq> 0 then 8 else 0)
     in (case hspi_reg_write spi rsv info HSPI_REG_EIRQ_MODE val0 s of (r, s1) \<Rightarrow>
           if r \<noteq> 0 then (-1, s1)
           else (case hspi_reg_write spi rsv info HSPI_REG_EIRQ_ENABLE val1 s1 of (r, s2) \<Rightarrow>
             if r \<noteq> 0 then (-1, s2) else (0, s2))))"

definition hspi_eirq_disable ::
  "'s spi \<Rightarrow> u8 list \<Rightarrow> u8 \<times> u8 \<Rightarrow> hspi_info \<Rightarrow> 's \<Rightarrow> int \<times> 's" where
  "hspi_eirq_disable spi rsv junk info s =
    (case hspi_reg_write spi rsv info HSPI_REG_EIRQ_MODE (fst junk AND 0xFC) s of (r, s1) \<Rightarrow>
       if r \<noteq> 0 then (-1, s1)
       else (case hspi_reg_write spi rsv info HSPI_REG_EIRQ_ENABLE (snd junk AND 0xF0) s1 of
         (r, s2) \<Rightarrow> if r \<noteq> 0 then (-1, s2) else (0, s2)))"

definition hspi_eirq_status ::
  "'s spi \<Rightarrow> u8 list \<Rightarrow> hspi_info \<Rightarrow> 's \<Rightarrow> u8 \<times> hspi_info \<times> 's" where
  "hspi_eirq_status spi rsv info s =
    (case hspi_status_update spi rsv info s of (ret, info1, s1) \<Rightarrow>
       if ret \<noteq> 0 then (0, info1, s1)
       else
         (let eirq_status = eirq_flags (status info1) AND 0x0C;
              info2 = info1\<lparr>status := (status info1)\<lparr>eirq_flags := 0\<rparr>\<rparr>
          in ((if eirq_status = 0x0C then 0
               else if eirq_status = 0 \<and> slot_cnt (s_txq (status info1)) > 0 then 0xFF
               else eirq_status), info2, s1)))"

subsection \<open>Slots\<close>

text \<open>\<open>hspi_slot_t\<close>: the bit-fields \<open>len\<close> and \<open>seq\<close> of the halfword after the start bytes.\<close>

definition slot_start :: "u8 list \<Rightarrow> u8 list" where
  "slot_start b = take 2 b"

definition slot_len :: "u8 list \<Rightarrow> nat" where
  "slot_len b = unat (of_le16 (drop 2 b) AND 0x3FF)"

definition slot_seq :: "u8 list \<Rightarrow> nat" where
  "slot_seq b = unat (drop_bit 10 (of_le16 (drop 2 b)))"

definition slot_hdr :: "nat \<Rightarrow> nat \<Rightarrow> u8 list" where
  "slot_hdr len seq =
    [0x48, 0x53] @ le16 ((of_nat len AND 0x3FF) OR push_bit 10 (of_nat seq AND 0x3F))"

text \<open>
  \<open>hspi_read_slot\<close> with its loop variables \<open>i\<close> and the delivered bytes \<open>out\<close> (\<open>j\<close> is their
  number): the result is the slot count or \<open>-1\<close>, the bytes, the static sequence number, the bus.
\<close>

fun hspi_read_slot ::
  "'s spi \<Rightarrow> u8 list \<Rightarrow> hspi_info \<Rightarrow> nat \<Rightarrow> nat \<Rightarrow> nat \<Rightarrow> u8 list \<Rightarrow> nat \<Rightarrow> 's \<Rightarrow>
   int \<times> u8 list \<times> nat \<times> 's" where
  "hspi_read_slot spi rsv info sz 0 i out seq s = (int i, out, seq, s)"
| "hspi_read_slot spi rsv info sz (Suc n) i out seq s =
    (case hspi_transfer spi rsv info (opcode_read_data HSPI_REG_TXQ_WINDOW sz) [] sz s of
       (ret, slot, s1) \<Rightarrow>
         if ret \<noteq> 0 then (-1, out, seq, s1)
         else if slot_start slot \<noteq> [0x48, 0x53] \<or> slot_len slot > sz - 4
           then hspi_read_slot spi rsv info sz n (Suc i) out seq s1
         else
           (let seq1 = (if slot_seq slot \<noteq> seq then slot_seq slot else seq);
                seq2 = (if seq1 + 1 > 0x3F then 0 else seq1 + 1)
            in hspi_read_slot spi rsv info sz n (Suc i)
                 (out @ take (slot_len slot) (drop 4 slot)) seq2 s1))"

text \<open>
  \<open>hspi_read\<close>: the returned count and the bytes stored to the caller's buffer of \<open>len\<close> bytes.  The
  counts are \<open>uint16_t\<close> and \<open>uint8_t\<close>.
\<close>

definition hspi_read ::
  "'s spi \<Rightarrow> u8 list \<Rightarrow> hspi_info \<Rightarrow> nat \<Rightarrow> 's \<Rightarrow> int \<times> u8 list \<times> hspi_info \<times> 's" where
  "hspi_read spi rsv info len s =
    (if len = 0 \<or> \<not> active info then (-1, [], info, s)
     else
       (let sz = sl_size (txq_slot info);
            num0 = (len div (sz - 4)) mod 65536;
            num1 = min num0 (sl_num (txq_slot info));
            (failed, num, info1, s1) =
              (if num1 > slot_cnt (s_txq (status info)) then
                 (case hspi_status_update spi rsv info s of (ret, info1, s1) \<Rightarrow>
                    (ret \<noteq> 0, min num1 (slot_cnt (s_txq (status info1))), info1, s1))
               else (False, num1, info, s))
        in if failed then (-1, [], info1, s1)
           else if num = 0 then (0, [], info1, s1)
           else (case hspi_read_slot spi rsv info1 sz num 0 [] (rd_seq info1) s1 of
             (ret, out, seq, s2) \<Rightarrow>
               (let info2 = info1\<lparr>rd_seq := seq\<rparr>
                in if ret < 0 then (ret, out, hspi_status_init H_TXQ info2, s2)
                   else (int (length out), out,
                     info2\<lparr>status := (status info2)\<lparr>s_txq := (s_txq (status info2))
                       \<lparr>slot_cnt := slot_cnt (s_txq (status info2)) - num\<rparr>\<rparr>\<rparr>, s2)))))"

text \<open>
  \<open>hspi_write_slot\<close>: \<open>hl\<close> is \<open>slot->len\<close>, \<open>j\<close> the bytes sent.  The slot buffer always holds the
  header, the data and zeros up to the slot size.  A failed transfer ends the loop early.
\<close>

fun hspi_write_slot ::
  "'s spi \<Rightarrow> u8 list \<Rightarrow> hspi_info \<Rightarrow> nat \<Rightarrow> u8 list \<Rightarrow> nat \<Rightarrow> nat \<Rightarrow> nat \<Rightarrow> nat \<Rightarrow> nat \<Rightarrow> nat \<Rightarrow> 's \<Rightarrow>
   nat \<times> nat \<times> nat \<times> 's" where
  "hspi_write_slot spi rsv info sz buf len 0 i j hl seq s = (i, j, seq, s)"
| "hspi_write_slot spi rsv info sz buf len (Suc n) i j hl seq s =
    (let hl1 = (if len - j < hl then len - j else hl);
         slot = slot_hdr hl1 seq @ take hl1 (drop j buf) @ replicate (sz - 4 - hl1) 0
     in (case hspi_transfer spi rsv info (opcode_write_data HSPI_REG_RXQ_WINDOW sz) slot sz s of
           (ret, _, s1) \<Rightarrow>
             if ret \<noteq> 0 then (i, j, seq, s1)
             else hspi_write_slot spi rsv info sz buf len n (Suc i) (j + hl1) hl1
                    (if seq + 1 > 0x3F then 0 else seq + 1) s1))"

definition hspi_write ::
  "'s spi \<Rightarrow> u8 list \<Rightarrow> hspi_info \<Rightarrow> u8 list \<Rightarrow> 's \<Rightarrow> int \<times> hspi_info \<times> 's" where
  "hspi_write spi rsv info buf s =
    (if buf = [] \<or> \<not> active info then (-1, info, s)
     else
       (let sz = sl_size (rxq_slot info);
            num0 = ((length buf + (sz - 4 - 1)) div (sz - 4)) mod 65536;
            (failed, info1, s1) =
              (if num0 > slot_cnt (s_rxq (status info)) then
                 (case hspi_status_update spi rsv info s of (ret, info1, s1) \<Rightarrow>
                    (ret \<noteq> 0, info1, s1))
               else (False, info, s));
            cnt = slot_cnt (s_rxq (status info1));
            num = (if num0 \<le> cnt then num0 else cnt);
            len = (if num0 \<le> cnt then length buf else cnt * (sz - 4))
        in if failed then (-1, info1, s1)
           else (case hspi_write_slot spi rsv info1 sz buf len num 0 0 (sz - 4) (wr_seq info1) s1 of
             (sent, j, seq, s2) \<Rightarrow>
               (let info2 = info1\<lparr>wr_seq := seq\<rparr>
                in (int j,
                    (if sent < num then hspi_status_init H_RXQ info2
                     else info2\<lparr>status := (status info2)\<lparr>s_rxq := (s_rxq (status info2))
                       \<lparr>slot_cnt := cnt - num\<rparr>\<rparr>\<rparr>), s2)))))"

subsection \<open>Opening the link\<close>

definition hspi_reset :: "'s spi \<Rightarrow> u8 list \<Rightarrow> hspi_info \<Rightarrow> 's \<Rightarrow> int \<times> 's" where
  "hspi_reset spi rsv info s = hspi_reg_write spi rsv info HSPI_REG_DEVICE_STATUS 0xC8 s"

text \<open>
  The identification \<open>"NRC-HSPI"\<close> is compared with the memory image of the first two message words;
  the other two give number and size of the slots.
\<close>

definition hspi_ident :: "u8 list" where
  "hspi_ident = [0x4E, 0x52, 0x43, 0x2D, 0x48, 0x53, 0x50, 0x49]"

definition msg_slot :: "u32 \<Rightarrow> hspi_slot_info" where
  "msg_slot m = \<lparr>sl_num = unat (drop_bit 16 m AND 0xFFFF), sl_size = unat (m AND 0xFFFF)\<rparr>"

definition slot_info_ok :: "hspi_slot_info \<Rightarrow> bool" where
  "slot_info_ok sl \<longleftrightarrow> sl_num sl \<noteq> 0 \<and> sl_size sl \<noteq> 0 \<and> sl_size sl \<le> 512"

fun hspi_ready_loop ::
  "'s spi \<Rightarrow> u8 list \<Rightarrow> ('s \<Rightarrow> 's) \<Rightarrow> nat \<Rightarrow> u32 list \<Rightarrow> hspi_info \<Rightarrow> 's \<Rightarrow> int \<times> hspi_info \<times> 's" where
  "hspi_ready_loop spi rsv delay 0 msg info s = (-1, info, s)"
| "hspi_ready_loop spi rsv delay (Suc n) msg info s =
    (if le32 (msg ! 0) @ le32 (msg ! 1) = hspi_ident then
       (if \<not> slot_info_ok (msg_slot (msg ! 2)) then (-1, info, s)
        else if \<not> slot_info_ok (msg_slot (msg ! 3))
          then (-1, info\<lparr>txq_slot := msg_slot (msg ! 2)\<rparr>, s)
        else (0, info\<lparr>txq_slot := msg_slot (msg ! 2), rxq_slot := msg_slot (msg ! 3)\<rparr>, s))
     else (case hspi_regs_read_message spi rsv info (delay s) of
         (Inl _, s1) \<Rightarrow> (-1, info, s1)
       | (Inr msg', s1) \<Rightarrow> hspi_ready_loop spi rsv delay n msg' info s1))"

definition hspi_ready ::
  "'s spi \<Rightarrow> u8 list \<Rightarrow> ('s \<Rightarrow> 's) \<Rightarrow> hspi_info \<Rightarrow> 's \<Rightarrow> int \<times> hspi_info \<times> 's" where
  "hspi_ready spi rsv delay info s =
    (if \<not> active info then (-1, info, s)
     else (case hspi_regs_read_all spi rsv info s of
         (Inl _, s1) \<Rightarrow> (-1, info, s1)
       | (Inr msg, s1) \<Rightarrow> hspi_ready_loop spi rsv delay 10 msg info s1))"

text \<open>The cleared \<open>g_hspi_info\<close>; the static sequence numbers are not part of it and stay.\<close>

definition hspi_cleared :: "hspi_info \<Rightarrow> hspi_info" where
  "hspi_cleared info =
    \<lparr>active = False, txq_slot = \<lparr>sl_num = 0, sl_size = 0\<rparr>, rxq_slot = \<lparr>sl_num = 0, sl_size = 0\<rparr>,
     status = \<lparr>eirq_flags = 0, s_txq = no_status, s_rxq = no_status\<rparr>,
     rd_seq = rd_seq info, wr_seq = wr_seq info\<rparr>"

definition hspi_eirq_setup ::
  "'s spi \<Rightarrow> u8 list \<Rightarrow> u8 \<times> u8 \<Rightarrow> hspi_info \<Rightarrow> eirq_mode \<Rightarrow> 's \<Rightarrow> int \<times> 's" where
  "hspi_eirq_setup spi rsv junk info mode s =
    (if mode = EIRQ_NONE then hspi_eirq_disable spi rsv junk info s
     else hspi_eirq_enable spi rsv junk info (eirq_mode_val mode) 0x0C s)"

definition hspi_open ::
  "'s spi \<Rightarrow> u8 list \<Rightarrow> u8 \<times> u8 \<Rightarrow> ('s \<Rightarrow> 's) \<Rightarrow> eirq_mode \<Rightarrow> hspi_info \<Rightarrow> 's \<Rightarrow>
   int \<times> hspi_info \<times> 's" where
  "hspi_open spi rsv junk delay mode info s =
    (let info0 = (hspi_cleared info)\<lparr>active := True\<rparr>
     in (case hspi_ready spi rsv delay info0 s of (r, info1, s1) \<Rightarrow>
           if r \<noteq> 0 then (-1, hspi_cleared info1, s1)
           else (case hspi_status_update spi rsv info1 s1 of (r, info2, s2) \<Rightarrow>
             if r \<noteq> 0 then (-1, hspi_cleared info2, s2)
             else (case hspi_eirq_setup spi rsv junk info2 mode s2 of (ret, s3) \<Rightarrow> (ret, info2, s3)))))"

definition hspi_reopen ::
  "'s spi \<Rightarrow> u8 list \<Rightarrow> u8 \<times> u8 \<Rightarrow> eirq_mode \<Rightarrow> hspi_info \<Rightarrow> 's \<Rightarrow> int \<times> hspi_info \<times> 's" where
  "hspi_reopen spi rsv junk mode info s =
    (if \<not> active info then (-1, info, s)
     else (case hspi_status_update spi rsv info s of (r, info1, s1) \<Rightarrow>
       if r \<noteq> 0 then (-1, info1, s1)
       else (case hspi_eirq_setup spi rsv junk info1 mode s1 of (ret, s2) \<Rightarrow> (ret, info1, s2))))"

definition hspi_close :: "hspi_info \<Rightarrow> hspi_info" where
  "hspi_close info = hspi_cleared info"

datatype eirq_status = ES_NONE | ES_BOOT_DONE | ES_READ_READY | ES_DEEP_SLEEP

definition nrc_hspi_eirq_status ::
  "'s spi \<Rightarrow> u8 list \<Rightarrow> u8 \<times> u8 \<Rightarrow> hspi_info \<Rightarrow> 's \<Rightarrow> eirq_status \<times> hspi_info \<times> 's" where
  "nrc_hspi_eirq_status spi rsv junk info s =
    (case hspi_eirq_status spi rsv info s of (st, info1, s1) \<Rightarrow>
       if st = 0xFF then (ES_BOOT_DONE, info1, s1)
       else if st AND 4 \<noteq> 0 then (ES_READ_READY, info1, s1)
       else if st AND 8 \<noteq> 0
         then (ES_DEEP_SLEEP, info1, snd (hspi_eirq_disable spi rsv junk info1 s1))
       else (ES_NONE, info1, s1))"

subsection \<open>The command checksum\<close>

lemma crc7_bit_alt: "crc7_bit c = push_bit 1 (c XOR (if bit c 7 then 0x89 else 0))"
proof -
  have "c AND 0x80 = 0 \<longleftrightarrow> \<not> bit c 7" using and_exp_eq_0_iff_not_bit [of c 7] by simp
  then show ?thesis by (cases "bit c 7") (simp_all only: crc7_bit_def if_True if_False not_True_eq_False
    not_False_eq_True xor.right_neutral simp_thms)
qed

lemma crc7_bit_xor: "crc7_bit (a XOR b) = crc7_bit a XOR crc7_bit b"
  unfolding crc7_bit_alt push_bit_xor [symmetric]
  by (rule arg_cong [where f = "push_bit 1"])
    (cases "bit a 7"; cases "bit b 7"; simp add: bit_xor_iff ac_simps)

lemma crc7_bits_xor: "(crc7_bit ^^ n) (a XOR b) = (crc7_bit ^^ n) a XOR (crc7_bit ^^ n) b"
  by (induction n) (simp_all add: crc7_bit_xor)

lemma crc7_byte_xor: "crc7_byte (a XOR b) (c XOR d) = crc7_byte a c XOR crc7_byte b d"
proof -
  have "(a XOR b) XOR (c XOR d) = (a XOR c) XOR (b XOR d)"
    by (simp add: ac_simps)
  then show ?thesis by (simp only: crc7_byte_def crc7_bits_xor)
qed

lemma crc7_fold_xor:
  "length xs = length ys \<Longrightarrow> foldl crc7_byte (a XOR b) (map2 (XOR) xs ys) =
   foldl crc7_byte a xs XOR foldl crc7_byte b ys"
  by (induction xs ys arbitrary: a b rule: list_induct2) (simp_all add: crc7_byte_xor)

lemma hspi_crc7_xor:
  assumes "length xs = length ys"
  shows "hspi_crc7 (map2 (XOR) xs ys) = hspi_crc7 xs XOR hspi_crc7 ys"
  using crc7_fold_xor [OF assms, of 0 0] by (simp add: hspi_crc7_def)

lemma le32_xor: "le32 (a XOR b) = map2 (XOR) (le32 a) (le32 b)"
  by (simp add: le32_def unsigned_xor_eq)

lemma hspi_crc7_le32_xor: "hspi_crc7 (le32 (a XOR b)) = hspi_crc7 (le32 a) XOR hspi_crc7 (le32 b)"
  unfolding le32_xor by (rule hspi_crc7_xor) (simp add: le32_def)


lemma funpow8: "(f ^^ 8) x = f (f (f (f (f (f (f (f x)))))))"
  by (simp add: numeral_eq_Suc)



definition crc_syndrome :: "nat \<Rightarrow> u8" where
  "crc_syndrome i = hspi_crc7 (le32 (push_bit i 1))"

lemma crc7_bit_numeral: "crc7_bit (numeral n) =
   push_bit 1 (if numeral n AND (0x80::u8) \<noteq> 0 then numeral n XOR 0x89 else numeral n)"
  "crc7_bit 1 = 2" "crc7_bit 0 = 0"
  by (simp_all add: crc7_bit_def)


lemma crc_syndrome_exp: "hspi_crc7 (le32 (2 ^ i)) = crc_syndrome i"
  by (simp add: crc_syndrome_def)

lemma upt_32: "[0..<32] = [0,1,2,3,4,5,6,7,8,9,10,11,12,13,14,15,16,17,18,19,20,21,22,23,24,25,26,27,28,29,30,31::nat]"
  by (simp add: upt_rec)

lemma syndromes: "distinct (0 # map crc_syndrome [0..<32])"
  unfolding upt_32 list.map crc_syndrome_def
  by (simp add: hspi_crc7_def le32_def crc7_byte_def crc7_bit_numeral funpow8) 

lemma syndrome_distinct:
  assumes "i < 32"
  shows "crc_syndrome i \<noteq> 0" and "j < 32 \<Longrightarrow> i \<noteq> j \<Longrightarrow> crc_syndrome i \<noteq> crc_syndrome j"
proof -
  have inj: "inj_on crc_syndrome {0..<32}" and nz: "0 \<notin> crc_syndrome ` {0..<32}"
    using syndromes unfolding distinct.simps distinct_map set_map set_upt by blast+
  have i: "i \<in> {0..<32}" using assms by simp
  show "crc_syndrome i \<noteq> 0"
    using nz imageI [OF i, of crc_syndrome] by (auto simp only:)
  show "crc_syndrome i \<noteq> crc_syndrome j" if j: "j < 32" and ij: "i \<noteq> j"
  proof
    assume eq: "crc_syndrome i = crc_syndrome j"
    have "j \<in> {0..<32}" using j by simp
    from inj_onD [OF inj eq i this] ij show False by simp
  qed
qed

lemma xor_eq_left_iff: "a XOR b = a \<longleftrightarrow> b = (0 :: u8)"
proof
  assume "a XOR b = a"
  then have "a XOR (a XOR b) = a XOR a" by (rule arg_cong)
  then show "b = 0" by (simp flip: xor.assoc)
qed simp

lemma crc7_detects:
  assumes "i < 32" and "j < 32"
  shows "hspi_crc7 (le32 (op XOR push_bit i 1)) \<noteq> hspi_crc7 (le32 op) \<and>
   (i \<noteq> j \<longrightarrow> hspi_crc7 (le32 (op XOR push_bit i 1 XOR push_bit j 1)) \<noteq> hspi_crc7 (le32 op))"
proof -
  have "crc_syndrome i XOR crc_syndrome j \<noteq> 0" if "i \<noteq> j"
    proof
    assume "crc_syndrome i XOR crc_syndrome j = 0"
    then have "crc_syndrome i XOR (crc_syndrome i XOR crc_syndrome j) = crc_syndrome i" by simp
    then show False using syndrome_distinct(2) [OF assms that] by (simp flip: xor.assoc)
  qed
  then show ?thesis using syndrome_distinct(1) [OF assms(1)]
    by (auto simp: hspi_crc7_le32_xor crc_syndrome_exp xor.assoc xor_eq_left_iff)
qed

subsection \<open>Byte order and operation codes\<close>

lemma of_le32_le32 [simp]: "of_le32 (le32 v) = v"
proof (rule bit_word_eqI)
  fix n assume "n < LENGTH(32)"
  then consider "n < 8" | "8 \<le> n" "n < 16" | "16 \<le> n" "n < 24" | "24 \<le> n" "n < 32" by fastforce
  then show "bit (of_le32 (le32 v)) n = bit v n"
    by cases (auto simp: of_le32_def le32_def bit_simps)
qed

lemma le32_of_le32: "le32 (of_le32 [a, b, c, d]) = [a, b, c, d]"
proof -
  have "ucast (of_le32 [a, b, c, d]) = a" "ucast (drop_bit 8 (of_le32 [a, b, c, d])) = b"
     "ucast (drop_bit 16 (of_le32 [a, b, c, d])) = c" "ucast (drop_bit 24 (of_le32 [a, b, c, d])) = d"
    by (rule bit_word_eqI, auto simp: of_le32_def bit_simps dest: bit_imp_le_length)+
  then show ?thesis by (simp add: le32_def)
qed

lemma of_le16_le16 [simp]: "of_le16 (le16 v) = v"
  by (rule bit_word_eqI) (auto simp: of_le16_def le16_def bit_simps)

lemma le16_of_le16: "le16 (of_le16 [a, b]) = [a, b]"
proof -
  have "ucast (of_le16 [a, b]) = a" "ucast (drop_bit 8 (of_le16 [a, b])) = b"
    by (rule bit_word_eqI, auto simp: of_le16_def bit_simps dest: bit_imp_le_length)+
  then show ?thesis by (simp add: le16_def)
qed

lemma le32_byteorder: "le32 (hspi_convert_byteorder_32bit v) = rev (le32 v)"
  by (simp add: hspi_convert_byteorder_32bit_def le32_def [of v] le32_of_le32)

lemma le16_byteorder: "le16 (hspi_convert_byteorder_16bit v) = rev (le16 v)"
  by (simp add: hspi_convert_byteorder_16bit_def le16_def [of v] le16_of_le16)

lemma byteorder_invol:
  "hspi_convert_byteorder_32bit (hspi_convert_byteorder_32bit v) = v"
  "hspi_convert_byteorder_16bit (hspi_convert_byteorder_16bit w) = w"
  by (simp_all add: hspi_convert_byteorder_32bit_def [of "hspi_convert_byteorder_32bit v"] le32_byteorder
    hspi_convert_byteorder_16bit_def [of "hspi_convert_byteorder_16bit w"] le16_byteorder)

lemma small_bits:
  assumes "unat (v :: u32) < 2 ^ n" and "n \<le> k"
  shows "\<not> bit v k"
proof
  assume "bit v k"
  then have "bit (unat v) k" by (simp add: bit_unsigned_iff)
  moreover have "take_bit n (unat v) = unat v" using assms(1) by (simp add: take_bit_nat_eq_self)
  ultimately have "bit (take_bit n (unat v)) k" by simp
  then show False using assms(2) by (simp add: bit_take_bit_iff)
qed

lemma opcode_addr_len:
  assumes "unat addr < 256" and "len < 8192" and "\<And>k. k < 21 \<Longrightarrow> \<not> bit hi k"
  shows "op_address (hi OR push_bit 13 addr OR of_nat len) = unat addr"
    and "op_length (hi OR push_bit 13 addr OR of_nat len) = len"
proof -
  have a: "k < 8" if "bit addr k" for k
    using small_bits [of addr 8 k] assms(1) that by fastforce
  have l: "\<not> bit (of_nat len :: u32) k" if "13 \<le> k" for k
    by (rule small_bits [OF _ that]) (use assms in simp)
  have m: "(w :: u32) AND 0xFF = take_bit 8 w" "w AND 0x1FFF = take_bit 13 w" for w
    by (simp_all add: take_bit_eq_mask mask_eq_exp_minus_1)
  let ?v = "hi OR push_bit 13 addr OR of_nat len"
  have "take_bit 8 (drop_bit 13 ?v) = addr"
    by (rule bit_word_eqI) (use l assms(3) in \<open>auto simp: bit_simps dest: a\<close>)
  then show "op_address ?v = unat addr" by (simp only: op_address_def m)
  have "take_bit 13 ?v = of_nat len"
    by (rule bit_word_eqI) (use a l assms(3) in \<open>auto simp: bit_simps\<close>)
  then show "op_length ?v = len" using assms(2) by (simp only: op_length_def m) simp
qed


lemma op_bits:
  assumes "unat (addr :: u32) < 256" and "len < 8192"
  shows "\<And>k. 21 \<le> k \<Longrightarrow> bit (hi OR push_bit 13 addr OR of_nat len) k = bit hi k"
proof -
  fix k :: nat assume k: "21 \<le> k"
  have "\<not> bit addr (k - 13)" using small_bits [of addr 8 "k - 13"] assms(1) k by simp
  moreover have "\<not> bit (of_nat len :: u32) k" using small_bits [of "of_nat len" 13 k] assms(2) k by simp
  ultimately show "bit (hi OR push_bit 13 addr OR of_nat len) k = bit hi k"
    using k by (auto simp: bit_simps)
qed

lemma opcode_fields:
  assumes "unat addr < 256" and "len < 8192"
  shows "op_address (opcode_write_data addr len) = unat addr"
    "op_length (opcode_write_data addr len) = len"
    "op_write (opcode_write_data addr len)" "op_burst (opcode_write_data addr len)" 
    "op_address (opcode_read_data addr len) = unat addr" "op_length (opcode_read_data addr len) = len"
    "\<not> op_write (opcode_read_data addr len)" "op_burst (opcode_read_data addr len)"
    "op_fixed (opcode_read_data addr len)" "op_fixed (opcode_write_data addr len)"
proof -
  have hi: "\<not> bit (0x50E00000 :: u32) k" "\<not> bit (0x50A00000 :: u32) k"
    if "k < 21" for k 
    using that bit_push_bit_iff [of 21 "0x287 :: u32" k] bit_push_bit_iff [of 21 "0x285 :: u32" k]
    by simp_all
  have w: "opcode_write_data addr len = 0x50E00000 OR push_bit 13 addr OR of_nat len"
    "opcode_read_data addr len = 0x50A00000 OR push_bit 13 addr OR of_nat len"
    by (simp_all add: opcode_write_data_def opcode_read_data_def flip: or.assoc)
  show "op_address (opcode_write_data addr len) = unat addr"
    "op_length (opcode_write_data addr len) = len"
    "op_address (opcode_read_data addr len) = unat addr" "op_length (opcode_read_data addr len) = len"
    unfolding w by (intro opcode_addr_len assms hi; assumption)+
  show "op_write (opcode_write_data addr len)" "op_burst (opcode_write_data addr len)" 
    "\<not> op_write (opcode_read_data addr len)" "op_burst (opcode_read_data addr len)"
    "op_fixed (opcode_read_data addr len)" "op_fixed (opcode_write_data addr len)"
    unfolding w op_write_def op_burst_def op_fixed_def by (simp_all add: op_bits [OF assms])
qed

end
