(* ===== verification/HifFifo.thy ===== *)
theory HifFifo
  imports Prelude
begin

text \<open>
  The ring buffer of \<open>sdk/apps/atcmd/hif_fifo.c\<close>.  The record has the fields of
  \<open>_hif_fifo_t\<close>; a pointer into the buffer is its offset, so \<open>buffer_end\<close> is the offset one
  past the last byte.  The element type is arbitrary.  \<open>None\<close> is a failed \<open>ASSERT\<close> or a
  copy loop that never ends; an untraced build compiles the \<open>ASSERT\<close> away, and the
  invariant below excludes the case.
\<close>

subsection \<open>State\<close>

record 'a hif_fifo =
  fsize :: u32
  cnt :: u32
  push_idx :: u32
  pop_idx :: u32
  static_buffer :: bool
  buffer :: "'a list"
  buffer_end :: nat

subsection \<open>Creation, reset and addresses\<close>

text \<open>
  The allocator is not under \<open>src/\<close>: \<open>fifo_mem\<close> says whether the first
  allocation succeeds, \<open>buf_mem\<close> is the second one's fresh memory, if it succeeds.
\<close>

definition hif_fifo_create ::
  "'a list option \<Rightarrow> int \<Rightarrow> bool \<Rightarrow> 'a list option \<Rightarrow> 'a hif_fifo option" where
  "hif_fifo_create buf sz fifo_mem buf_mem =
    (if sz \<le> 0 then None
     else if \<not> fifo_mem then None
     else (case (case buf of Some b \<Rightarrow> Some b | None \<Rightarrow> buf_mem) of
             None \<Rightarrow> None
           | Some mem \<Rightarrow>
               Some \<lparr>fsize = of_int sz, cnt = 0, push_idx = 0, pop_idx = 0,
                     static_buffer = (buf \<noteq> None), buffer = take (nat sz) mem,
                     buffer_end = nat sz\<rparr>))"

text \<open>
  \<open>_hif_fifo_delete\<close> frees the buffer only when it allocated it; the result lists the
  allocations handed back, \<open>True\<close> for the buffer and \<open>False\<close> for the record.
\<close>

definition hif_fifo_delete :: "'a hif_fifo option \<Rightarrow> bool list" where
  "hif_fifo_delete fifo = (case fifo of
       None \<Rightarrow> []
     | Some f \<Rightarrow> (if \<not> static_buffer f then [True] else []) @ [False])"

definition hif_fifo_reset :: "'a hif_fifo \<Rightarrow> 'a hif_fifo" where
  "hif_fifo_reset f = f\<lparr>cnt := 0, push_idx := 0, pop_idx := 0\<rparr>"

definition hif_fifo_push_addr :: "'a hif_fifo \<Rightarrow> int \<Rightarrow> nat" where
  "hif_fifo_push_addr f off = unat ((push_idx f + of_int off) mod fsize f)"

definition hif_fifo_pop_addr :: "'a hif_fifo \<Rightarrow> int \<Rightarrow> nat" where
  "hif_fifo_pop_addr f off = unat ((pop_idx f + of_int off) mod fsize f)"

subsection \<open>Sizes\<close>

definition hif_fifo_size :: "'a hif_fifo \<Rightarrow> u32" where
  "hif_fifo_size f = fsize f"

definition hif_fifo_free_size :: "'a hif_fifo \<Rightarrow> u32 option" where
  "hif_fifo_free_size f = (if cnt f \<le> fsize f then Some (fsize f - cnt f) else None)"

definition hif_fifo_fill_size :: "'a hif_fifo \<Rightarrow> u32" where
  "hif_fifo_fill_size f = cnt f"

definition hif_fifo_empty :: "'a hif_fifo \<Rightarrow> bool option" where
  "hif_fifo_empty f = map_option (\<lambda>n. n = fsize f) (hif_fifo_free_size f)"

definition hif_fifo_full :: "'a hif_fifo \<Rightarrow> bool option" where
  "hif_fifo_full f = map_option (\<lambda>n. n = 0) (hif_fifo_free_size f)"

subsection \<open>Single characters\<close>

definition hif_fifo_getc :: "'a hif_fifo \<Rightarrow> 'a \<times> 'a hif_fifo" where
  "hif_fifo_getc f =
    (buffer f ! unat (pop_idx f mod fsize f), f\<lparr>pop_idx := pop_idx f + 1, cnt := cnt f - 1\<rparr>)"

definition hif_fifo_putc :: "'a hif_fifo \<Rightarrow> 'a \<Rightarrow> 'a hif_fifo" where
  "hif_fifo_putc f c =
    f\<lparr>buffer := (buffer f)[unat (push_idx f mod fsize f) := c],
      push_idx := push_idx f + 1, cnt := cnt f + 1\<rparr>"

subsection \<open>Block transfers\<close>

text \<open>
  The inner loop of \<open>_hif_fifo_read\<close>: from \<open>i\<close> bytes copied on, copy contiguous chunks
  up to \<open>buffer_end\<close>.  The result is the bytes stored to the caller's buffer and the record.
\<close>

partial_function (option) hif_fifo_read_loop ::
  "nat \<Rightarrow> nat \<Rightarrow> 'a hif_fifo \<Rightarrow> 'a list \<Rightarrow> ('a list \<times> 'a hif_fifo) option" where
  "hif_fifo_read_loop len i f out =
    (if i < len then
       (let addr = unat (pop_idx f mod fsize f);
            pop_len = (if buffer_end f - addr > len - i then len - i else buffer_end f - addr)
        in hif_fifo_read_loop len (i + pop_len) (f\<lparr>pop_idx := pop_idx f + of_nat pop_len\<rparr>)
             (out @ take pop_len (drop addr (buffer f))))
     else Some (out, f))"

text \<open>
  \<open>_hif_fifo_read\<close> on a non-NULL FIFO; \<open>has_buf\<close> is \<open>buf != NULL\<close>.  The result is
  the returned length, the bytes stored to \<open>buf\<close> and the new record.
\<close>

definition hif_fifo_read :: "'a hif_fifo \<Rightarrow> bool \<Rightarrow> int \<Rightarrow> (int \<times> 'a list \<times> 'a hif_fifo) option"
where
  "hif_fifo_read f has_buf len =
    (if len > 0 then
       (let fill = sint (hif_fifo_fill_size f);
            len = (if len > fill then fill else len)
        in (if \<not> has_buf then
              Some (len, [], f\<lparr>pop_idx := pop_idx f + of_int len, cnt := cnt f - of_int len\<rparr>)
            else
              map_option (\<lambda>(out, f'). (len, out, f'\<lparr>cnt := cnt f' - of_int len\<rparr>))
                (hif_fifo_read_loop (nat len) 0 f [])))
     else Some (0, [], f))"

partial_function (option) hif_fifo_write_loop ::
  "'a list \<Rightarrow> nat \<Rightarrow> nat \<Rightarrow> 'a hif_fifo \<Rightarrow> 'a hif_fifo option" where
  "hif_fifo_write_loop buf len i f =
    (if i < len then
       (let addr = unat (push_idx f mod fsize f);
            push_len = (if buffer_end f - addr > len - i then len - i else buffer_end f - addr)
        in hif_fifo_write_loop buf len (i + push_len)
             (f\<lparr>buffer := memcpy_at (buffer f) addr (take push_len (drop i buf)),
                push_idx := push_idx f + of_nat push_len\<rparr>))
     else Some f)"

text \<open>\<open>_hif_fifo_write\<close>: \<open>buf = None\<close> only advances the index (the data is put by DMA).\<close>

definition hif_fifo_write :: "'a hif_fifo \<Rightarrow> 'a list option \<Rightarrow> int \<Rightarrow> (int \<times> 'a hif_fifo) option"
where
  "hif_fifo_write f buf len =
    (if len > 0 then
       (case hif_fifo_free_size f of
          None \<Rightarrow> None
        | Some free \<Rightarrow>
           (let free_size = sint free;
                len = (if len > free_size then free_size else len)
            in (case buf of
                  None \<Rightarrow> Some (len, f\<lparr>push_idx := push_idx f + of_int len,
                                      cnt := cnt f + of_int len\<rparr>)
                | Some b \<Rightarrow>
                    map_option (\<lambda>f'. (len, f'\<lparr>cnt := cnt f' + of_int len\<rparr>))
                      (hif_fifo_write_loop b (nat len) 0 f))))
     else Some (0, f))"


subsection \<open>Circular reads and writes of a list\<close>

definition ring :: "'a list \<Rightarrow> nat \<Rightarrow> nat \<Rightarrow> nat \<Rightarrow> 'a list" where
  "ring b s p n = map (\<lambda>k. b ! ((p + k) mod s)) [0..<n]"

fun ring_put :: "'a list \<Rightarrow> nat \<Rightarrow> nat \<Rightarrow> 'a list \<Rightarrow> 'a list" where
  "ring_put b s p [] = b"
| "ring_put b s p (x # xs) = ring_put (b[p mod s := x]) s (Suc p) xs"

lemma ring_0 [simp]: "ring b s p 0 = []"
  by (simp add: ring_def)

lemma length_ring [simp]: "length (ring b s p n) = n"
  by (simp add: ring_def)

lemma ring_add: "ring b s p (m + n) = ring b s p m @ ring b s (p + m) n"
  by (rule nth_equalityI) (auto simp: ring_def nth_append add.assoc)

lemma ring_Suc: "ring b s p (Suc n) = ring b s p n @ [b ! ((p + n) mod s)]"
  by (simp add: ring_def)

lemma ring_Suc_left: "ring b s p (Suc n) = b ! (p mod s) # ring b s (Suc p) n"
  using ring_add [of b s p 1 n] by (simp add: ring_def)

lemma ring_mod [simp]: "ring b s (p mod s) n = ring b s p n"
  by (simp add: ring_def mod_add_left_eq)

lemma ring_cong_mod: "p mod s = q mod s \<Longrightarrow> ring b s p n = ring b s q n"
  by (metis ring_mod)

lemma mod_add_no_wrap: "p mod s + k < s \<Longrightarrow> (p + k) mod s = p mod s + (k :: nat)"
  by (metis mod_add_left_eq mod_less)

lemma ring_contiguous:
  assumes "p mod s + n \<le> s" and "s = length b"
  shows "ring b s p n = take n (drop (p mod s) b)"
  using assms by (intro nth_equalityI) (auto simp: ring_def mod_add_no_wrap)

lemma length_ring_put [simp]: "length (ring_put b s p xs) = length b"
  by (induction xs arbitrary: b p) auto

lemma ring_put_append: "ring_put b s p (xs @ ys) = ring_put (ring_put b s p xs) s (p + length xs) ys"
  by (induction xs arbitrary: b p) auto

lemma ring_put_mod [simp]: "ring_put b s (p mod s) xs = ring_put b s p xs"
proof (induction xs arbitrary: b p)
  case (Cons x xs)
  have "ring_put c s (Suc (p mod s)) xs = ring_put c s (Suc p) xs" for c
    using Cons.IH [of c "Suc (p mod s)"] Cons.IH [of c "Suc p"] by (simp add: mod_Suc_eq)
  then show ?case by simp
qed simp

lemma ring_put_cong_mod: "p mod s = q mod s \<Longrightarrow> ring_put b s p xs = ring_put b s q xs"
  by (metis ring_put_mod)

lemma memcpy_at_Cons:
  "off < length b \<Longrightarrow> memcpy_at b off (x # xs) = memcpy_at (b[off := x]) (Suc off) xs"
  by (simp add: memcpy_at_def take_Suc_conv_app_nth)

lemma ring_put_contiguous:
  "p + length xs \<le> s \<Longrightarrow> s = length b \<Longrightarrow> ring_put b s p xs = memcpy_at b p xs"
proof (induction xs arbitrary: b p)
  case (Cons x xs)
  then have "ring_put (b[p := x]) s (Suc p) xs = memcpy_at (b[p := x]) (Suc p) xs"
    by (intro Cons.IH) auto
  with Cons.prems show ?case by (simp add: memcpy_at_Cons)
qed simp

lemma add_mod_inj:
  fixes p :: nat
  assumes "(p + i) mod s = (p + j) mod s" and "i < s" and "j < s"
  shows "i = j"
proof (rule ccontr)
  assume "i \<noteq> j"
  then consider "i < j" | "j < i" by linarith
  then show False
  proof cases
    case 1
    then have "s dvd (p + j) - (p + i)" using assms(1) by (metis mod_eq_dvd_iff_nat add_le_cancel_left less_imp_le)
    with 1 assms(3) show False by (auto dest: dvd_imp_le)
  next
    case 2
    then have "s dvd (p + i) - (p + j)" using assms(1) by (metis mod_eq_dvd_iff_nat add_le_cancel_left less_imp_le)
    with 2 assms(2) show False by (auto dest: dvd_imp_le)
  qed
qed

lemma ring_update_out:
  assumes "n \<le> m" and "m < s" and "s = length b"
  shows "ring (b[(p + m) mod s := x]) s p n = ring b s p n"
proof (rule nth_equalityI)
  fix i assume "i < length (ring (b[(p + m) mod s := x]) s p n)"
  then have "i < n" by simp
  then have "(p + m) mod s \<noteq> (p + i) mod s" using assms add_mod_inj [of p m s i] by auto
  with \<open>i < n\<close> show "ring (b[(p + m) mod s := x]) s p n ! i = ring b s p n ! i"
    by (simp add: ring_def)
qed simp

lemma ring_ring_put:
  "n + length xs \<le> s \<Longrightarrow> s = length b \<Longrightarrow>
   ring (ring_put b s (p + n) xs) s p (n + length xs) = ring b s p n @ xs"
proof (induction xs arbitrary: b n)
  case (Cons x xs)
  let ?b = "b[(p + n) mod s := x]"
  have s: "0 < s" using Cons.prems by (cases s) auto
  then have "(p + n) mod s < length b" using Cons.prems(2) mod_less_divisor by metis
  have "ring (ring_put ?b s (p + Suc n) xs) s p (Suc n + length xs) = ring ?b s p (Suc n) @ xs"
    using Cons.prems by (intro Cons.IH) auto
  also have "ring ?b s p (Suc n) = ring b s p n @ [x]"
    using Cons.prems \<open>(p + n) mod s < length b\<close> by (simp add: ring_Suc ring_update_out)
  finally show ?case by simp
qed simp

lemma ring_put_same:
  "n \<le> s \<Longrightarrow> s = length b \<Longrightarrow> ring_put b s p (ring b s p n) = b"
proof (induction n arbitrary: p)
  case (Suc n)
  then have "b[p mod s := b ! (p mod s)] = b" by simp
  then show ?case using Suc by (simp add: ring_Suc_left)
qed simp

lemma ring_put_frame:
  "length xs \<le> m \<Longrightarrow> m + n \<le> s \<Longrightarrow> s = length b \<Longrightarrow>
   ring (ring_put b s p xs) s (p + m) n = ring b s (p + m) n"
proof (induction xs arbitrary: b p m)
  case (Cons x xs)
  obtain m' where m: "m = Suc m'" using Cons.prems by (cases m) auto
  let ?b = "b[p mod s := x]"
  have "ring (ring_put ?b s (Suc p) xs) s (Suc p + m') n = ring ?b s (Suc p + m') n"
    using Cons.prems m by (intro Cons.IH) auto
  moreover have "ring ?b s (p + m) n = ring b s (p + m) n"
  proof (rule nth_equalityI)
    fix i assume "i < length (ring ?b s (p + m) n)"
    then have "m + i < s" using Cons.prems by simp
    then have "p mod s \<noteq> (p + (m + i)) mod s"
      using m add_mod_inj [of p 0 s "m + i"] by auto
    with \<open>i < length _\<close> show "ring ?b s (p + m) n ! i = ring b s (p + m) n ! i"
      by (simp add: ring_def add.assoc)
  qed simp
  ultimately show ?case by (simp add: m)
qed simp


subsection \<open>Invariant and abstraction\<close>

text \<open>
  The indices run freely over 32 bits and are reduced by the size on use, so the buffer keeps
  its order across the wrap only when the size divides \<open>2 ^ 32\<close>, as the configured sizes do.
\<close>

definition fifo_geom :: "'a hif_fifo \<Rightarrow> bool" where
  "fifo_geom f \<longleftrightarrow> 0 < unat (fsize f) \<and> unat (fsize f) < 2 ^ 31 \<and> unat (fsize f) dvd 2 ^ 32 \<and>
     length (buffer f) = unat (fsize f) \<and> buffer_end f = unat (fsize f)"

definition fifo_wf :: "'a hif_fifo \<Rightarrow> bool" where
  "fifo_wf f \<longleftrightarrow> fifo_geom f \<and> cnt f \<le> fsize f \<and> push_idx f = pop_idx f + cnt f"

definition fifo_list :: "'a hif_fifo \<Rightarrow> 'a list" where
  "fifo_list f = ring (buffer f) (unat (fsize f)) (unat (pop_idx f)) (unat (cnt f))"

definition fifo_cap :: "'a hif_fifo \<Rightarrow> nat" where
  "fifo_cap f = unat (fsize f)"

lemma length_fifo_list [simp]: "length (fifo_list f) = unat (cnt f)"
  by (simp add: fifo_list_def)

lemma fifo_wf_le: "fifo_wf f \<Longrightarrow> unat (cnt f) \<le> unat (fsize f)"
  by (simp add: fifo_wf_def word_le_nat_alt)

lemma fifo_read_loop:
  assumes "fifo_geom f" and "i \<le> len"
  shows "hif_fifo_read_loop len i f out =
    Some (out @ ring (buffer f) (unat (fsize f)) (unat (pop_idx f)) (len - i),
          f\<lparr>pop_idx := pop_idx f + of_nat (len - i)\<rparr>)"
  using assms
proof (induction "len - i" arbitrary: i f out rule: less_induct)
  case less
  let ?s = "unat (fsize f)" and ?a = "unat (pop_idx f) mod unat (fsize f)"
  show ?case
  proof (cases "i < len")
    case False
    then show ?thesis using less.prems by (simp add: hif_fifo_read_loop.simps)
  next
    case True
    define n where "n = (if ?s - ?a > len - i then len - i else ?s - ?a)"
    have geom: "0 < ?s" "length (buffer f) = ?s" "buffer_end f = ?s" "?s dvd 2 ^ 32"
      using less.prems by (auto simp: fifo_geom_def)
    have n: "0 < n" "n \<le> len - i" "?a + n \<le> ?s"
      using True geom mod_less_divisor [OF geom(1), of "unat (pop_idx f)"]
      by (auto simp: n_def simp del: mod_less_divisor)
    let ?f = "f\<lparr>pop_idx := pop_idx f + of_nat n\<rparr>"
    let ?c = "take n (drop ?a (buffer f))"
    have c: "?c = ring (buffer f) ?s (unat (pop_idx f)) n"
      using n geom by (simp add: ring_contiguous)
    have "hif_fifo_read_loop len i f out = hif_fifo_read_loop len (i + n) ?f (out @ ?c)"
      using True geom by (subst hif_fifo_read_loop.simps) (simp add: n_def unat_mod_distrib Let_def)
    also have "\<dots> = Some ((out @ ?c) @ ring (buffer f) ?s (unat (pop_idx ?f)) (len - (i + n)),
        ?f\<lparr>pop_idx := pop_idx ?f + of_nat (len - (i + n))\<rparr>)"
      using less.hyps [of "i + n" ?f "out @ ?c"] less.prems n True by (simp add: fifo_geom_def)
    also have "ring (buffer f) ?s (unat (pop_idx ?f)) (len - (i + n)) =
        ring (buffer f) ?s (unat (pop_idx f) + n) (len - (i + n))"
      using ring_mod unat_add_of_nat_mod_dvd [OF geom(4)] by (metis hif_fifo.select_convs(4) hif_fifo.update_convs(4) hif_fifo.surjective)
    finally have *: "hif_fifo_read_loop len i f out = Some ((out @ ?c) @
        ring (buffer f) ?s (unat (pop_idx f) + n) (len - (i + n)),
        ?f\<lparr>pop_idx := pop_idx ?f + of_nat (len - (i + n))\<rparr>)" .
    obtain m where m: "len - i = n + m" "len - (i + n) = m"
      using n by (metis diff_diff_left le_add_diff_inverse)
    show ?thesis
      unfolding * m c by (simp add: ring_add add.assoc)
  qed
qed

lemma fifo_write_loop:
  assumes "fifo_geom f" and "i \<le> len" and "len \<le> length buf"
  shows "hif_fifo_write_loop buf len i f =
    Some (f\<lparr>buffer := ring_put (buffer f) (unat (fsize f)) (unat (push_idx f))
                       (take (len - i) (drop i buf)),
            push_idx := push_idx f + of_nat (len - i)\<rparr>)"
  using assms
proof (induction "len - i" arbitrary: i f rule: less_induct)
  case less
  let ?s = "unat (fsize f)" and ?p = "unat (push_idx f)"
  let ?a = "?p mod ?s"
  show ?case
  proof (cases "i < len")
    case False
    then show ?thesis using less.prems by (simp add: hif_fifo_write_loop.simps)
  next
    case True
    define n where "n = (if ?s - ?a > len - i then len - i else ?s - ?a)"
    have geom: "0 < ?s" "length (buffer f) = ?s" "buffer_end f = ?s" "?s dvd 2 ^ 32"
      using less.prems by (auto simp: fifo_geom_def)
    have n: "0 < n" "n \<le> len - i" "?a + n \<le> ?s"
      using True geom mod_less_divisor [OF geom(1), of ?p]
      by (auto simp: n_def simp del: mod_less_divisor)
    let ?c = "take n (drop i buf)"
    let ?b = "ring_put (buffer f) ?s ?p ?c"
    let ?f = "f\<lparr>buffer := ?b, push_idx := push_idx f + of_nat n\<rparr>"
    have "ring_put (buffer f) ?s ?a ?c = memcpy_at (buffer f) ?a ?c"
      using n geom(2) by (intro ring_put_contiguous) auto
    then have b: "memcpy_at (buffer f) ?a ?c = ?b" by simp
    have "hif_fifo_write_loop buf len i f = hif_fifo_write_loop buf len (i + n)
        (f\<lparr>buffer := memcpy_at (buffer f) ?a ?c, push_idx := push_idx f + of_nat n\<rparr>)"
      using True geom
      by (subst hif_fifo_write_loop.simps) (simp add: n_def unat_mod_distrib Let_def)
    also have "\<dots> = hif_fifo_write_loop buf len (i + n) ?f" by (simp only: b)
    also have "\<dots> = Some (?f\<lparr>buffer := ring_put (buffer ?f) (unat (fsize ?f)) (unat (push_idx ?f))
                       (take (len - (i + n)) (drop (i + n) buf)),
            push_idx := push_idx ?f + of_nat (len - (i + n))\<rparr>)"
      using less.prems n True geom by (intro less.hyps) (auto simp: fifo_geom_def)
    also have "ring_put (buffer ?f) (unat (fsize ?f)) (unat (push_idx ?f))
          (take (len - (i + n)) (drop (i + n) buf)) =
        ring_put ?b ?s (?p + n) (take (len - (i + n)) (drop (i + n) buf))"
      using ring_put_mod [of ?b ?s "unat (push_idx f + of_nat n)"]
        ring_put_mod [of ?b ?s "?p + n"] unat_add_of_nat_mod_dvd [OF geom(4), of "push_idx f" n]
      by simp
    finally have *: "hif_fifo_write_loop buf len i f =
      Some (?f\<lparr>buffer := ring_put ?b ?s (?p + n) (take (len - (i + n)) (drop (i + n) buf)),
              push_idx := push_idx ?f + of_nat (len - (i + n))\<rparr>)" .
    obtain m where m: "len - i = n + m" "len - (i + n) = m"
      using n by (metis diff_diff_left le_add_diff_inverse)
    have split: "take (n + m) (drop i buf) = ?c @ take m (drop (i + n) buf)"
      by (simp add: take_add [of n m] add.commute [of n i])
    have "length ?c = n" using n less.prems by simp
    then have put: "ring_put ?b ?s (?p + n) (take m (drop (i + n) buf)) =
        ring_put (buffer f) ?s ?p (take (n + m) (drop i buf))"
      unfolding split ring_put_append by simp
    show ?thesis
      unfolding * m put by (simp add: add.assoc)
  qed
qed

text \<open>The two block transfers on a well-formed FIFO, without the loops.\<close>

lemma fifo_read_eq:
  assumes "fifo_wf f" and "0 \<le> len"
  shows "hif_fifo_read f has_buf len =
    (let n = min (nat len) (unat (cnt f))
     in Some (int n, if has_buf then take n (fifo_list f) else [],
              f\<lparr>pop_idx := pop_idx f + of_nat n, cnt := cnt f - of_nat n\<rparr>))"
proof -
  have cnt: "unat (cnt f) < 2 ^ 31"
    using assms fifo_wf_le [OF assms(1)] by (auto simp: fifo_wf_def fifo_geom_def)
  define n where "n = min (nat len) (unat (cnt f))"
  have len: "(if len > sint (cnt f) then sint (cnt f) else len) = int n"
    using assms(2) sint_small_u32 [OF cnt]
    by (auto simp: n_def min_def simp del: of_nat_unat)
  have tk: "take n (fifo_list f) = ring (buffer f) (unat (fsize f)) (unat (pop_idx f)) n"
    by (simp add: fifo_list_def ring_def n_def take_map min_def)
  have geom: "fifo_geom f" using assms(1) by (simp add: fifo_wf_def)
  show ?thesis
  proof (cases "len > 0")
    case True
    then show ?thesis
      using len fifo_read_loop [OF geom, of 0 n "[]"]
      by (simp add: hif_fifo_read_def hif_fifo_fill_size_def Let_def tk flip: n_def)
  next
    case False
    then show ?thesis using assms(2) by (simp add: hif_fifo_read_def)
  qed
qed

lemma fifo_write_eq:
  assumes "fifo_wf f" and "0 \<le> len" and "\<And>b. buf = Some b \<Longrightarrow> nat len \<le> length b"
  shows "hif_fifo_write f buf len =
    (let n = min (nat len) (unat (fsize f) - unat (cnt f))
     in Some (int n, f\<lparr>buffer := (case buf of None \<Rightarrow> buffer f
           | Some b \<Rightarrow> ring_put (buffer f) (unat (fsize f)) (unat (push_idx f)) (take n b)),
         push_idx := push_idx f + of_nat n, cnt := cnt f + of_nat n\<rparr>))"
proof -
  have le: "cnt f \<le> fsize f" and small: "unat (fsize f) < 2 ^ 31" and geom: "fifo_geom f"
    using assms by (auto simp: fifo_wf_def fifo_geom_def)
  have free: "unat (fsize f - cnt f) = unat (fsize f) - unat (cnt f)"
    using le by (rule unat_sub)
  define n where "n = min (nat len) (unat (fsize f) - unat (cnt f))"
  have len: "(if len > sint (fsize f - cnt f) then sint (fsize f - cnt f) else len) = int n"
    using assms(2) small sint_small_u32 [of "fsize f - cnt f"]
    by (auto simp: n_def min_def free simp del: of_nat_unat)
  have n: "n \<le> nat len" by (simp add: n_def)
  show ?thesis
  proof (cases "len > 0")
    case True
    show ?thesis
    proof (cases buf)
      case None
      then show ?thesis using True len le
        by (simp add: hif_fifo_write_def hif_fifo_free_size_def Let_def flip: n_def)
    next
      case (Some b)
      then have "n \<le> length b" using assms(3) [OF Some] n by simp
      then show ?thesis using Some True len le fifo_write_loop [OF geom, of 0 n b]
        by (simp add: hif_fifo_write_def hif_fifo_free_size_def Let_def flip: n_def)
    qed
  next
    case False
    then show ?thesis using assms(2) by (simp add: hif_fifo_write_def split: option.split)
  qed
qed


lemma fifo_wf_create [inv_intros]:
  assumes "hif_fifo_create buf sz fifo_mem buf_mem = Some f"
    and "sz < 2 ^ 31" and "nat sz dvd 2 ^ 32"
    and "\<And>b. buf = Some b \<or> buf_mem = Some b \<Longrightarrow> nat sz \<le> length b"
  shows "fifo_wf f" and "fifo_list f = []" and "fifo_cap f = nat sz"
proof -
  have sz: "0 < sz" using assms(1) by (auto simp: hif_fifo_create_def split: if_splits)
  then have u: "unat (word_of_int sz :: u32) = nat sz"
    using assms(2) by (simp add: unat_eq_nat_uint uint_word_of_int_eq take_bit_int_eq_self)
  show "fifo_wf f" "fifo_list f = []" "fifo_cap f = nat sz"
    using assms sz u
    by (auto simp: hif_fifo_create_def fifo_wf_def fifo_geom_def fifo_list_def fifo_cap_def
        split: if_splits option.splits)
qed

lemma fifo_wf_reset [inv_intros]: "fifo_wf f \<Longrightarrow> fifo_wf (hif_fifo_reset f)"
  by (simp add: fifo_wf_def fifo_geom_def hif_fifo_reset_def)

lemma fifo_list_reset [model_simps]: "fifo_list (hif_fifo_reset f) = []"
  by (simp add: fifo_list_def hif_fifo_reset_def)

lemma fifo_wf_cap_u32: "fifo_wf f \<Longrightarrow> unat (fsize f) < 4294967296"
  using unat_less_u32 by blast

text \<open>What a completed read or write does to the record.\<close>

lemma fifo_after_read:
  assumes wf: "fifo_wf f" and n: "n \<le> unat (cnt f)"
  defines "g \<equiv> f\<lparr>pop_idx := pop_idx f + of_nat n, cnt := cnt f - of_nat n\<rparr>"
  shows "fifo_wf g" and "fifo_list g = drop n (fifo_list f)" and "fifo_cap g = fifo_cap f"
proof -
  have "unat (of_nat n :: u32) = n" using n unat_less_u32 [of "cnt f"] by simp
  then have c: "unat (cnt f - of_nat n) = unat (cnt f) - n" and le: "cnt f - of_nat n \<le> cnt f"
    using n unat_sub [of "of_nat n" "cnt f"] by (simp_all add: word_le_nat_alt)
  show "fifo_wf g" using wf le by (auto simp: g_def fifo_wf_def fifo_geom_def)
  have dvd: "unat (fsize f) dvd 2 ^ 32" using wf by (simp add: fifo_wf_def fifo_geom_def)
  have "fifo_list g = ring (buffer f) (unat (fsize f)) (unat (pop_idx f) + n) (unat (cnt f) - n)"
    using ring_cong_mod [OF unat_add_of_nat_mod_dvd [OF dvd, of "pop_idx f" n]]
    by (simp add: fifo_list_def g_def c)
  also have "\<dots> = drop n (fifo_list f)"
    using ring_add [of "buffer f" "unat (fsize f)" "unat (pop_idx f)" n "unat (cnt f) - n"] n
    by (simp add: fifo_list_def)
  finally show "fifo_list g = drop n (fifo_list f)" .
  show "fifo_cap g = fifo_cap f" by (simp add: g_def fifo_cap_def)
qed

lemma fifo_after_write:
  assumes wf: "fifo_wf f" and n: "length xs \<le> unat (fsize f) - unat (cnt f)"
  defines "g \<equiv> f\<lparr>buffer := ring_put (buffer f) (unat (fsize f)) (unat (push_idx f)) xs,
                 push_idx := push_idx f + of_nat (length xs), cnt := cnt f + of_nat (length xs)\<rparr>"
  shows "fifo_wf g" and "fifo_list g = fifo_list f @ xs" and "fifo_cap g = fifo_cap f"
proof -
  let ?s = "unat (fsize f)"
  have le: "unat (cnt f) + length xs \<le> ?s" using n fifo_wf_le [OF wf] by simp
  have "unat (of_nat (length xs) :: u32) = length xs" using le unat_less_u32 [of "fsize f"] by simp
  then have c: "unat (cnt f + of_nat (length xs)) = unat (cnt f) + length xs"
    using le unat_less_u32 [of "fsize f"] by (simp add: unat_word_ariths)
  have geom: "?s dvd 2 ^ 32" "length (buffer f) = ?s" using wf by (auto simp: fifo_wf_def fifo_geom_def)
  show "fifo_wf g" using wf c le by (auto simp: g_def fifo_wf_def fifo_geom_def word_le_nat_alt)
  have "unat (push_idx f) mod ?s = (unat (pop_idx f) + unat (cnt f)) mod ?s"
    using wf unat_add_mod_dvd [OF geom(1)] by (simp add: fifo_wf_def)
  then have "buffer g = ring_put (buffer f) ?s (unat (pop_idx f) + unat (cnt f)) xs"
    using ring_put_cong_mod by (simp add: g_def)
  then have b: "buffer g = ring_put (buffer f) ?s (unat (pop_idx f) + unat (cnt f)) xs"
      "fsize g = fsize f" "pop_idx g = pop_idx f" "unat (cnt g) = unat (cnt f) + length xs"
    by (simp_all add: g_def c)
  show "fifo_list g = fifo_list f @ xs"
    unfolding fifo_list_def b by (rule ring_ring_put [OF le geom(2) [symmetric]])
  show "fifo_cap g = fifo_cap f" by (simp add: g_def fifo_cap_def)
qed


text \<open>Writes leave the read index alone, reads leave the write index and the buffer alone.\<close>

lemma fifo_write_frame:
  assumes "fifo_wf f" and "0 \<le> len" and "\<And>b. buf = Some b \<Longrightarrow> nat len \<le> length b"
    and "hif_fifo_write f buf len = Some (r, f')"
  shows "pop_idx f' = pop_idx f" and "fsize f' = fsize f" and "push_idx f' = push_idx f + of_int r"
  using fifo_write_eq [OF assms(1,2,3)] assms(4) by (auto simp: Let_def)

lemma fifo_read_frame:
  assumes "fifo_wf f" and "0 \<le> len" and "hif_fifo_read f has_buf len = Some (r, out, f')"
  shows "push_idx f' = push_idx f" and "fsize f' = fsize f" and "buffer f' = buffer f"
    and "pop_idx f' = pop_idx f + of_int r"
  using fifo_read_eq [OF assms(1,2), of has_buf] assms(3) by (auto simp: Let_def)

subsection \<open>The byte-queue interface\<close>

text \<open>
  What the host-interface drivers rely on: a bounded first-in first-out queue whose block
  operations transfer as much as fits and never fail.
\<close>

locale byte_queue =
  fixes rd :: "'q \<Rightarrow> bool \<Rightarrow> int \<Rightarrow> (int \<times> 'a list \<times> 'q) option"
    and wr :: "'q \<Rightarrow> 'a list option \<Rightarrow> int \<Rightarrow> (int \<times> 'q) option"
    and contents :: "'q \<Rightarrow> 'a list"
    and cap :: "'q \<Rightarrow> nat"
    and invar :: "'q \<Rightarrow> bool"
  assumes contents_le: "invar q \<Longrightarrow> length (contents q) \<le> cap q"
    and rd_law: "invar q \<Longrightarrow> 0 \<le> len \<Longrightarrow> n = min (nat len) (length (contents q)) \<Longrightarrow>
      \<exists>q'. rd q has_buf len = Some (int n, if has_buf then take n (contents q) else [], q') \<and>
        invar q' \<and> cap q' = cap q \<and> contents q' = drop n (contents q)"
    and wr_law: "invar q \<Longrightarrow> 0 \<le> len \<Longrightarrow> nat len \<le> length b \<Longrightarrow>
      n = min (nat len) (cap q - length (contents q)) \<Longrightarrow>
      \<exists>q'. wr q (Some b) len = Some (int n, q') \<and>
        invar q' \<and> cap q' = cap q \<and> contents q' = contents q @ take n b"
    and wr_none_law: "invar q \<Longrightarrow> 0 \<le> len \<Longrightarrow> n = min (nat len) (cap q - length (contents q)) \<Longrightarrow>
      \<exists>q' xs. wr q None len = Some (int n, q') \<and>
        invar q' \<and> cap q' = cap q \<and> contents q' = contents q @ xs \<and> length xs = n"
begin

lemma wr_fits:
  assumes "invar q" and "length (contents q) + length b \<le> cap q"
  obtains q' where "wr q (Some b) (int (length b)) = Some (int (length b), q')"
    and "invar q'" and "cap q' = cap q" and "contents q' = contents q @ b"
proof -
  have "length b = min (nat (int (length b))) (cap q - length (contents q))" using assms(2) by simp
  from wr_law [OF assms(1) _ _ this, of b] that show thesis by auto
qed

lemma wr_none_fits:
  assumes "invar q" and "length (contents q) + n \<le> cap q"
  obtains q' xs where "wr q None (int n) = Some (int n, q')" and "invar q'"
    and "cap q' = cap q" and "contents q' = contents q @ xs" and "length xs = n"
proof -
  have "n = min (nat (int n)) (cap q - length (contents q))" using assms(2) by simp
  from wr_none_law [OF assms(1) _ this] that show thesis by auto
qed

lemma rd_available:
  assumes "invar q" and "n \<le> length (contents q)"
  obtains q' where "rd q has_buf (int n) =
      Some (int n, if has_buf then take n (contents q) else [], q')"
    and "invar q'" and "cap q' = cap q" and "contents q' = drop n (contents q)"
proof -
  have "n = min (nat (int n)) (length (contents q))" using assms(2) by simp
  from rd_law [OF assms(1) _ this, of has_buf] that show thesis by auto
qed

lemma rd_empty:
  assumes "invar q" and "contents q = []" and "0 \<le> len"
  obtains q' where "rd q has_buf len = Some (0, [], q')"
    and "invar q'" and "cap q' = cap q" and "contents q' = []"
  using rd_law [OF assms(1,3), of 0 has_buf] assms(2) by auto

lemma wr_then_rd:
  assumes "invar q" and "contents q = []" and "length b \<le> cap q"
  shows "\<exists>q1 q2. wr q (Some b) (int (length b)) = Some (int (length b), q1) \<and>
    rd q1 True (int (length b)) = Some (int (length b), b, q2) \<and> invar q2 \<and> contents q2 = []"
proof -
  obtain q1 where 1: "wr q (Some b) (int (length b)) = Some (int (length b), q1)"
      "invar q1" "contents q1 = b"
    using wr_fits [OF assms(1), of b] assms by auto
  obtain q2 where "rd q1 True (int (length b)) = Some (int (length b), b, q2)"
      "invar q2" "contents q2 = []"
    using rd_available [OF 1(2), of "length b" True] 1(3) by auto
  with 1 show ?thesis by blast
qed

end

lemma fifo_read_law:
  assumes wf: "fifo_wf f" and "0 \<le> len" and n: "n = min (nat len) (length (fifo_list f))"
  shows "\<exists>q'. hif_fifo_read f has_buf len =
      Some (int n, if has_buf then take n (fifo_list f) else [], q') \<and>
      fifo_wf q' \<and> fifo_cap q' = fifo_cap f \<and> fifo_list q' = drop n (fifo_list f)"
proof -
  have "n \<le> unat (cnt f)" by (simp add: n)
  from fifo_after_read [OF wf this] show ?thesis
    using fifo_read_eq [OF wf assms(2), of has_buf] n by (simp add: Let_def)
qed

lemma fifo_write_law:
  fixes f :: "'a hif_fifo"
  assumes wf: "fifo_wf f" and len: "0 \<le> len" "nat len \<le> length b"
    and n: "n = min (nat len) (fifo_cap f - length (fifo_list f))"
  shows "\<exists>q'. hif_fifo_write f (Some b) len = Some (int n, q') \<and>
      fifo_wf q' \<and> fifo_cap q' = fifo_cap f \<and> fifo_list q' = fifo_list f @ take n b"
proof -
  have "length (take n b) = n" and "n \<le> unat (fsize f) - unat (cnt f)"
    using n len by (simp_all add: fifo_cap_def)
  with fifo_after_write [OF wf, of "take n b"] show ?thesis
    using fifo_write_eq [OF wf len(1), of "Some b"] n len(2) by (simp add: Let_def fifo_cap_def)
qed

text \<open>
  Advancing the write index without copying commits what the memory behind it holds: the bytes
  the DMA put there.
\<close>

definition fifo_ahead :: "'a hif_fifo \<Rightarrow> nat \<Rightarrow> 'a list" where
  "fifo_ahead f n = ring (buffer f) (unat (fsize f)) (unat (push_idx f)) n"

lemma length_fifo_ahead [simp]: "length (fifo_ahead f n) = n"
  by (simp add: fifo_ahead_def)

lemma fifo_write_none_exact:
  fixes f :: "'a hif_fifo"
  assumes wf: "fifo_wf f" and len: "0 \<le> len"
    and n: "n = min (nat len) (fifo_cap f - length (fifo_list f))"
  shows "\<exists>q'. hif_fifo_write f None len = Some (int n, q') \<and> fifo_wf q' \<and>
      fifo_cap q' = fifo_cap f \<and> fifo_list q' = fifo_list f @ fifo_ahead f n"
proof -
  have xs: "length (fifo_ahead f n) = n" and "n \<le> unat (fsize f) - unat (cnt f)"
    using n by (simp_all add: fifo_cap_def)
  moreover have "ring_put (buffer f) (unat (fsize f)) (unat (push_idx f)) (fifo_ahead f n) = buffer f"
    unfolding fifo_ahead_def
    by (rule ring_put_same) (use wf n in \<open>auto simp: fifo_wf_def fifo_geom_def fifo_cap_def\<close>)
  moreover have "f\<lparr>buffer := buffer f, push_idx := x, cnt := y\<rparr> = f\<lparr>push_idx := x, cnt := y\<rparr>"
    for x y by simp
  ultimately show ?thesis
    using fifo_write_eq [OF wf len, of None] fifo_after_write [OF wf, of "fifo_ahead f n"] n
    by (intro exI [of _ "f\<lparr>push_idx := push_idx f + of_nat n, cnt := cnt f + of_nat n\<rparr>"])
      (simp add: Let_def fifo_cap_def)
qed

lemma fifo_write_none_law:
  fixes f :: "'a hif_fifo"
  assumes "fifo_wf f" and "0 \<le> len"
    and "n = min (nat len) (fifo_cap f - length (fifo_list f))"
  shows "\<exists>q' xs. hif_fifo_write f None len = Some (int n, q') \<and> fifo_wf q' \<and>
      fifo_cap q' = fifo_cap f \<and> fifo_list q' = fifo_list f @ xs \<and> length xs = n"
  using fifo_write_none_exact [OF assms] length_fifo_ahead by blast

lemma fifo_list_le_cap: "fifo_wf f \<Longrightarrow> length (fifo_list f) \<le> fifo_cap f"
  by (simp add: fifo_cap_def fifo_wf_le)

interpretation fq: byte_queue hif_fifo_read hif_fifo_write fifo_list fifo_cap fifo_wf
  by unfold_locales
    (rule fifo_list_le_cap fifo_read_law fifo_write_law fifo_write_none_law; assumption)+

end
