(* ===== verification/HifHspi.thy ===== *)
theory HifHspi
  imports HifFifo
begin

text \<open>
  The target side of the host SPI link, \<open>sdk/apps/atcmd/hif_hspi.c\<close>: registers, slot headers,
  the receive and transmit paths over the FIFOs and the queue bookkeeping, and the sleep
  hand-shake.  The hardware is not in the repository: its queue counts are register fields the
  code reads, and what it stored in posted slots is the content of the FIFO's memory.
\<close>

subsection \<open>Configuration and registers\<close>

definition HSPI_SLOT_SIZE :: nat where "HSPI_SLOT_SIZE = 512"
definition HSPI_SLOT_NUM :: nat where "HSPI_SLOT_NUM = (32 * 1024 div 512) div 2"
definition HSPI_SLOT_CNT_MAX :: nat where "HSPI_SLOT_CNT_MAX = 63"
definition HSPI_SLOT_HDR_SIZE :: nat where "HSPI_SLOT_HDR_SIZE = 4"
definition HSPI_SLOT_DATA_LEN_MAX :: nat where
  "HSPI_SLOT_DATA_LEN_MAX = HSPI_SLOT_SIZE - HSPI_SLOT_HDR_SIZE"
definition HSPI_SLOT_SEQ_MAX :: nat where "HSPI_SLOT_SEQ_MAX = 63"
definition HSPI_FIFO_SIZE :: nat where "HSPI_FIFO_SIZE = HSPI_SLOT_SIZE * HSPI_SLOT_NUM"

lemmas hspi_consts = HSPI_SLOT_SIZE_def HSPI_SLOT_NUM_def HSPI_SLOT_CNT_MAX_def
  HSPI_SLOT_HDR_SIZE_def HSPI_SLOT_DATA_LEN_MAX_def HSPI_SLOT_SEQ_MAX_def HSPI_FIFO_SIZE_def

datatype hspi_queue_index = HSPI_TXQ | HSPI_RXQ

record hspi_sys_reg =
  device_ready :: u32
  device_sleep :: u32
  device_message :: "u32 list"
  sw_id :: u32
  board_id :: u32

record hspi_que_reg =
  q_reset :: bool
  bit_msb :: bool
  byte_msb :: bool
  header_on :: bool
  q_enable :: bool
  irq_active :: bool
  irq_trigger :: bool
  irq_enable :: bool
  target_address :: u32
  target_size :: u16
  target_intmask :: bool
  eirq_event :: bool
  que_update :: bool
  st_total :: nat
  st_count :: nat
  st_error :: bool
  st_irq :: bool

text \<open>What the code reports: log lines and the effects on the rest of the system.\<close>

datatype hspi_event =
    BadSlotHdr int
  | BadSlot "u8 list"
  | BadSeq nat nat
  | BadSlotData int
  | BadAddr u32
  | SystemReset
  | RxResume
  | RegisterIsr hspi_queue_index bool
  | IrqUnmask hspi_queue_index
  | Posted hspi_queue_index u32
  | SleepTimeout nat nat
  | DelayMs nat

record hspi_dev =
  sys_reg :: hspi_sys_reg
  txq_reg :: hspi_que_reg
  rxq_reg :: hspi_que_reg
  rx_fifo :: "u8 hif_fifo option"
  tx_fifo :: "u8 hif_fifo option"
  rx_base :: u32
  tx_base :: u32
  rx_seq :: nat
  tx_seq :: nat
  rxq_total_cnt :: int
  txq_total_cnt :: int
  events :: "hspi_event list"

definition que_reg :: "hspi_queue_index \<Rightarrow> hspi_dev \<Rightarrow> hspi_que_reg" where
  "que_reg idx d = (case idx of HSPI_TXQ \<Rightarrow> txq_reg d | HSPI_RXQ \<Rightarrow> rxq_reg d)"

definition upd_que_reg ::
  "hspi_queue_index \<Rightarrow> (hspi_que_reg \<Rightarrow> hspi_que_reg) \<Rightarrow> hspi_dev \<Rightarrow> hspi_dev" where
  "upd_que_reg idx g d = (case idx of
      HSPI_TXQ \<Rightarrow> d\<lparr>txq_reg := g (txq_reg d)\<rparr>
    | HSPI_RXQ \<Rightarrow> d\<lparr>rxq_reg := g (rxq_reg d)\<rparr>)"

definition emit :: "hspi_event \<Rightarrow> hspi_dev \<Rightarrow> hspi_dev" where
  "emit e d = d\<lparr>events := events d @ [e]\<rparr>"

subsection \<open>Register access\<close>

definition hif_hspi_ready :: "hspi_dev \<Rightarrow> hspi_dev" where
  "hif_hspi_ready d = d\<lparr>sys_reg := (sys_reg d)\<lparr>device_ready := 0x1ACCE551\<rparr>\<rparr>"

definition hif_hspi_sleep :: "hspi_dev \<Rightarrow> hspi_dev" where
  "hif_hspi_sleep d = d\<lparr>sys_reg := (sys_reg d)\<lparr>device_sleep := 0x1ACCE551\<rparr>\<rparr>"

definition hif_hspi_set_sw_id :: "u32 \<Rightarrow> hspi_dev \<Rightarrow> hspi_dev" where
  "hif_hspi_set_sw_id i d = d\<lparr>sys_reg := (sys_reg d)\<lparr>sw_id := i\<rparr>\<rparr>"

definition hif_hspi_get_sw_id :: "hspi_dev \<Rightarrow> u32" where
  "hif_hspi_get_sw_id d = sw_id (sys_reg d)"

definition hif_hspi_set_board_id :: "u32 \<Rightarrow> hspi_dev \<Rightarrow> hspi_dev" where
  "hif_hspi_set_board_id i d = d\<lparr>sys_reg := (sys_reg d)\<lparr>board_id := i\<rparr>\<rparr>"

definition hif_hspi_get_board_id :: "hspi_dev \<Rightarrow> u32" where
  "hif_hspi_get_board_id d = board_id (sys_reg d)"

definition hif_hspi_set_message :: "nat \<Rightarrow> u32 \<Rightarrow> hspi_dev \<Rightarrow> hspi_dev" where
  "hif_hspi_set_message i m d =
    d\<lparr>sys_reg := (sys_reg d)\<lparr>device_message := (device_message (sys_reg d))[i := m]\<rparr>\<rparr>"

definition hif_hspi_get_message :: "nat \<Rightarrow> hspi_dev \<Rightarrow> u32" where
  "hif_hspi_get_message i d = device_message (sys_reg d) ! i"

definition hif_hspi_queue_reset :: "hspi_queue_index \<Rightarrow> hspi_dev \<Rightarrow> hspi_dev" where
  "hif_hspi_queue_reset idx = upd_que_reg idx (\<lambda>r. r\<lparr>q_reset := True\<rparr>)"

text \<open>The one-bit fields store the low bit of the \<open>int\<close> they are assigned.\<close>

definition hif_hspi_queue_enable :: "hspi_queue_index \<Rightarrow> int \<Rightarrow> int \<Rightarrow> int \<Rightarrow> hspi_dev \<Rightarrow> hspi_dev"
where
  "hif_hspi_queue_enable idx hdr bytem bitm = upd_que_reg idx
     (\<lambda>r. r\<lparr>header_on := odd hdr, byte_msb := odd bytem, bit_msb := odd bitm, q_enable := True\<rparr>)"

definition hif_hspi_queue_disable :: "hspi_queue_index \<Rightarrow> hspi_dev \<Rightarrow> hspi_dev" where
  "hif_hspi_queue_disable idx = upd_que_reg idx
     (\<lambda>r. r\<lparr>header_on := False, byte_msb := False, bit_msb := False, q_enable := False\<rparr>)"

definition hif_hspi_queue_enable_irq :: "hspi_queue_index \<Rightarrow> int \<Rightarrow> int \<Rightarrow> hspi_dev \<Rightarrow> hspi_dev"
where
  "hif_hspi_queue_enable_irq idx trigger active = upd_que_reg idx
     (\<lambda>r. r\<lparr>irq_trigger := odd trigger, irq_active := odd active, irq_enable := True\<rparr>)"

definition hif_hspi_queue_disable_irq :: "hspi_queue_index \<Rightarrow> hspi_dev \<Rightarrow> hspi_dev" where
  "hif_hspi_queue_disable_irq idx = upd_que_reg idx
     (\<lambda>r. r\<lparr>irq_trigger := False, irq_active := False, irq_enable := False\<rparr>)"

definition hif_hspi_queue_clear_irq :: "hspi_queue_index \<Rightarrow> hspi_dev \<Rightarrow> hspi_dev" where
  "hif_hspi_queue_clear_irq idx = upd_que_reg idx (\<lambda>r. r\<lparr>st_irq := True\<rparr>)"

definition hif_hspi_queue_setup :: "hspi_queue_index \<Rightarrow> nat \<Rightarrow> bool \<Rightarrow> hspi_dev \<Rightarrow> hspi_dev" where
  "hif_hspi_queue_setup idx sz irq = upd_que_reg idx
     (\<lambda>r. r\<lparr>target_size := of_nat (sz div 4), target_intmask := \<not> irq\<rparr>)"

text \<open>
  \<open>_hif_hspi_queue_update\<close> posts a slot: the address must be word aligned and on a slot
  boundary of its FIFO.  The pointer dereference of a missing FIFO is \<open>None\<close>.
\<close>

definition hif_hspi_queue_update ::
  "hspi_queue_index \<Rightarrow> u32 \<Rightarrow> hspi_dev \<Rightarrow> (int \<times> hspi_dev) option" where
  "hif_hspi_queue_update idx addr d =
    (if addr = 0 \<or> addr AND 3 \<noteq> 0 then Some (-1, emit (BadAddr addr) d)
     else (case (case idx of HSPI_TXQ \<Rightarrow> map_option (\<lambda>_. tx_base d) (tx_fifo d)
                           | HSPI_RXQ \<Rightarrow> map_option (\<lambda>_. rx_base d) (rx_fifo d)) of
       None \<Rightarrow> None
     | Some slot_base \<Rightarrow>
         (let slot_offset = addr - slot_base
          in if unat slot_offset mod HSPI_SLOT_SIZE \<noteq> 0 then Some (-1, emit (BadAddr addr) d)
             else Some (0, emit (Posted idx addr)
               (upd_que_reg idx (\<lambda>r. r\<lparr>target_address := addr, que_update := True\<rparr>) d)))))"

definition hif_hspi_queue_event_to_host :: "hspi_queue_index \<Rightarrow> hspi_dev \<Rightarrow> hspi_dev" where
  "hif_hspi_queue_event_to_host idx d = hif_hspi_ready d"

definition hif_hspi_queue_is_error :: "hspi_queue_index \<Rightarrow> hspi_dev \<Rightarrow> bool" where
  "hif_hspi_queue_is_error idx d = st_error (que_reg idx d)"

definition hif_hspi_queue_count :: "hspi_queue_index \<Rightarrow> hspi_dev \<Rightarrow> nat" where
  "hif_hspi_queue_count idx d = st_count (que_reg idx d)"

definition hif_hspi_queue_total :: "hspi_queue_index \<Rightarrow> hspi_dev \<Rightarrow> nat" where
  "hif_hspi_queue_total idx d = st_total (que_reg idx d)"

definition hif_hspi_rxq_isr :: "hspi_dev \<Rightarrow> hspi_dev" where
  "hif_hspi_rxq_isr d = emit RxResume (hif_hspi_queue_clear_irq HSPI_RXQ d)"

definition hif_hspi_txq_isr :: "hspi_dev \<Rightarrow> hspi_dev" where
  "hif_hspi_txq_isr d = hif_hspi_queue_clear_irq HSPI_TXQ d"

subsection \<open>Slot headers\<close>

text \<open>
  \<open>_hspi_hdr_t\<close> in memory: the two start characters \<open>"HS"\<close>, then the little-endian halfword
  with the 10-bit length in its low bits and the 6-bit sequence number above.
\<close>

definition hspi_hdr :: "nat \<Rightarrow> nat \<Rightarrow> u8 list" where
  "hspi_hdr len seq =
    (let v = len mod 1024 + 1024 * (seq mod 64)
     in [0x48, 0x53, of_nat (v mod 256), of_nat (v div 256)])"

definition hdr_start :: "u8 list \<Rightarrow> u8 list" where
  "hdr_start h = take 2 h"

definition hdr_half :: "u8 list \<Rightarrow> nat" where
  "hdr_half h = unat (h ! 2) + 256 * unat (h ! 3)"

definition hdr_len :: "u8 list \<Rightarrow> nat" where
  "hdr_len h = hdr_half h mod 1024"

definition hdr_seq :: "u8 list \<Rightarrow> nat" where
  "hdr_seq h = hdr_half h div 1024"

text \<open>The wrap of the sequence counters, \<open>if (++seq > _HSPI_SLOT_SEQ_MAX) seq = 0\<close>.\<close>

definition next_seq :: "nat \<Rightarrow> nat" where
  "next_seq seq = (if Suc seq > HSPI_SLOT_SEQ_MAX then 0 else Suc seq)"

subsection \<open>Receive path\<close>

text \<open>
  \<open>__hif_hspi_read\<close>: \<open>buf\<close> is the caller's region of \<open>len\<close> bytes, \<open>i\<close> the bytes delivered so
  far.  A bad header dumps the slot, asks for a system reset and continues.  The result is \<open>i\<close>,
  the region, the FIFO, the expected sequence number and the reports.
\<close>

partial_function (option) hif_hspi_read_loop ::
  "int \<Rightarrow> int \<Rightarrow> u8 list \<Rightarrow> u8 hif_fifo \<Rightarrow> nat \<Rightarrow> hspi_event list \<Rightarrow>
   (int \<times> u8 list \<times> u8 hif_fifo \<times> nat \<times> hspi_event list) option" where
  "hif_hspi_read_loop len i buf fifo seq evs =
    (if len - i \<ge> int HSPI_SLOT_DATA_LEN_MAX then
       (case hif_fifo_read fifo True (int HSPI_SLOT_HDR_SIZE) of
          None \<Rightarrow> None
        | Some (ret, hdr, fifo1) \<Rightarrow>
            if ret = 0 then Some (i, buf, fifo1, seq, evs)
            else if ret \<noteq> int HSPI_SLOT_HDR_SIZE
              then Some (i, buf, fifo1, seq, evs @ [BadSlotHdr ret])
            else if hdr_start hdr \<noteq> [0x48, 0x53] \<or> hdr_len hdr > HSPI_SLOT_DATA_LEN_MAX then
              (case hif_fifo_read fifo1 True (int HSPI_SLOT_DATA_LEN_MAX) of
                 None \<Rightarrow> None
               | Some (ret, dump, fifo2) \<Rightarrow>
                   hif_hspi_read_loop len i buf fifo2 seq
                     (evs @ [BadSlot hdr] @
                      (if ret \<noteq> int HSPI_SLOT_DATA_LEN_MAX then [BadSlotData ret] else []) @
                      [DelayMs 100, SystemReset]))
            else
              (let seq0 = (if hdr_seq hdr \<noteq> seq then hdr_seq hdr else seq);
                   evs1 = evs @ (if hdr_seq hdr \<noteq> seq \<and> hdr_seq hdr > 0 \<and> seq > 0
                                 then [BadSeq seq (hdr_seq hdr)] else []);
                   seq1 = next_seq seq0
               in (case hif_fifo_read fifo1 (hdr_len hdr > 0) (int HSPI_SLOT_DATA_LEN_MAX) of
                     None \<Rightarrow> None
                   | Some (ret, data, fifo2) \<Rightarrow>
                       (let buf1 = memcpy_at buf (nat i) data
                        in if ret \<noteq> int HSPI_SLOT_DATA_LEN_MAX
                           then Some (i, buf1, fifo2, seq1, evs1 @ [BadSlotData ret])
                           else hif_hspi_read_loop len (i + int (hdr_len hdr)) buf1 fifo2 seq1
                                  evs1))))
     else Some (i, buf, fifo, seq, evs))"

text \<open>The posting loops of both directions: \<open>n\<close> slots from \<open>addr k\<close> on.\<close>

fun hspi_post_slots ::
  "hspi_queue_index \<Rightarrow> (nat \<Rightarrow> u32) \<Rightarrow> nat \<Rightarrow> nat \<Rightarrow> hspi_dev \<Rightarrow> hspi_dev option" where
  "hspi_post_slots idx addr k 0 d = Some d"
| "hspi_post_slots idx addr k (Suc n) d =
    (case hif_hspi_queue_update idx (addr k) d of
       None \<Rightarrow> None
     | Some (_, d') \<Rightarrow> hspi_post_slots idx addr (Suc k) n d')"

definition hif_hspi_read :: "u8 list \<Rightarrow> hspi_dev \<Rightarrow> (int \<times> u8 list \<times> hspi_dev) option" where
  "hif_hspi_read buf d =
    (if buf = [] then Some (0, buf, d)
     else (case rx_fifo d of None \<Rightarrow> None | Some f \<Rightarrow>
       (let done_cnt = rxq_total_cnt d - int (hif_hspi_queue_count HSPI_RXQ d);
            total1 = (if done_cnt > 0 then rxq_total_cnt d - done_cnt else rxq_total_cnt d)
        in (case (if done_cnt > 0
                  then map_option snd (hif_fifo_write f None (done_cnt * int HSPI_SLOT_SIZE))
                  else Some f) of
              None \<Rightarrow> None
            | Some f1 \<Rightarrow>
              (case hif_hspi_read_loop (int (length buf)) 0 buf f1 (rx_seq d) [] of
                 None \<Rightarrow> None
               | Some (ret, buf', f2, seq', evs) \<Rightarrow>
                 (case hif_fifo_free_size f2 of
                    None \<Rightarrow> None
                  | Some free \<Rightarrow>
                    (let free_cnt = int (unat free div HSPI_SLOT_SIZE);
                         upd0 = free_cnt - total1;
                         update_cnt = (if HSPI_SLOT_NUM > HSPI_SLOT_CNT_MAX
                                       then upd0 - int (HSPI_SLOT_NUM - HSPI_SLOT_CNT_MAX)
                                       else upd0);
                         d1 = d\<lparr>rx_fifo := Some f2, rx_seq := seq', events := events d @ evs\<rparr>
                     in (case hspi_post_slots HSPI_RXQ
                            (\<lambda>i. rx_base d + of_nat (hif_fifo_push_addr f2
                                   ((total1 + int i) * int HSPI_SLOT_SIZE)))
                            0 (nat update_cnt) d1 of
                           None \<Rightarrow> None
                         | Some d2 \<Rightarrow>
                             Some (ret, buf', d2\<lparr>rxq_total_cnt := total1 + update_cnt\<rparr>)))))))))"

subsection \<open>Transmit path\<close>

text \<open>
  The loop of \<open>__hif_hspi_write\<close>: header length \<open>hl\<close>, sequence number and FIFO are its state;
  the counts returned by the FIFO writes are ignored by the code.
\<close>

partial_function (option) hif_hspi_write_loop ::
  "u8 list \<Rightarrow> nat \<Rightarrow> nat \<Rightarrow> nat \<Rightarrow> nat \<Rightarrow> u8 hif_fifo \<Rightarrow>
   (nat \<times> nat \<times> nat \<times> u8 hif_fifo) option" where
  "hif_hspi_write_loop buf len i hl seq fifo =
    (if i < len then
       (let hl1 = (if len - i < HSPI_SLOT_DATA_LEN_MAX then len - i else hl)
        in (case hif_fifo_write fifo (Some (hspi_hdr hl1 seq)) (int HSPI_SLOT_HDR_SIZE) of
              None \<Rightarrow> None
            | Some (_, fifo1) \<Rightarrow>
              (case hif_fifo_write fifo1 (Some (drop i buf)) (int hl1) of
                 None \<Rightarrow> None
               | Some (_, fifo2) \<Rightarrow>
                   hif_hspi_write_loop buf len (i + hl1) hl1 (next_seq seq) fifo2)))
     else Some (i, hl, seq, fifo))"

definition hif_hspi_write_slots ::
  "u8 list \<Rightarrow> nat \<Rightarrow> nat \<Rightarrow> u8 hif_fifo \<Rightarrow> (nat \<times> nat \<times> u8 hif_fifo) option" where
  "hif_hspi_write_slots buf len seq fifo =
    (case hif_hspi_write_loop buf len 0 HSPI_SLOT_DATA_LEN_MAX seq fifo of
       None \<Rightarrow> None
     | Some (i, hl, seq', fifo1) \<Rightarrow>
         (if hl < HSPI_SLOT_DATA_LEN_MAX then
            map_option (\<lambda>(_, fifo2). (i, seq', fifo2))
              (hif_fifo_write fifo1 None (int (HSPI_SLOT_DATA_LEN_MAX - hl)))
          else Some (i, seq', fifo1)))"

text \<open>
  How many slots \<open>_hif_hspi_write\<close> posts for \<open>len\<close> bytes when \<open>total\<close> are outstanding: one per
  started 508 bytes, limited by the slots of the FIFO and by the hardware's slot counter.
\<close>

definition hspi_tx_update_cnt :: "int \<Rightarrow> int \<Rightarrow> int" where
  "hspi_tx_update_cnt len outstanding =
    (let max = int HSPI_SLOT_DATA_LEN_MAX;
         upd0 = len div max + (if len mod max \<noteq> 0 then 1 else 0);
         upd1 = (if upd0 + outstanding > int HSPI_SLOT_NUM then int HSPI_SLOT_NUM - outstanding else upd0)
     in if upd1 + outstanding > int HSPI_SLOT_CNT_MAX then int HSPI_SLOT_CNT_MAX - outstanding else upd1)"

definition hif_hspi_write :: "u8 list \<Rightarrow> hspi_dev \<Rightarrow> (int \<times> hspi_dev) option" where
  "hif_hspi_write buf d =
    (if buf = [] then Some (0, d)
     else (case tx_fifo d of None \<Rightarrow> None | Some f \<Rightarrow>
       (let len = int (length buf);
            done_cnt = txq_total_cnt d - int (hif_hspi_queue_count HSPI_TXQ d);
            total1 = (if done_cnt > 0 then txq_total_cnt d - done_cnt else txq_total_cnt d)
        in (case (if done_cnt > 0
                  then map_option (\<lambda>(_, _, f). f)
                         (hif_fifo_read f False (done_cnt * int HSPI_SLOT_SIZE))
                  else Some f) of
              None \<Rightarrow> None
            | Some f1 \<Rightarrow>
              (let upd = hspi_tx_update_cnt len total1;
                   len1 = (if upd * int HSPI_SLOT_DATA_LEN_MAX < len
                           then upd * int HSPI_SLOT_DATA_LEN_MAX else len);
                   d1 = d\<lparr>tx_fifo := Some f1, txq_total_cnt := total1\<rparr>
               in (if upd > 0 then
                     (case hif_hspi_write_slots buf (nat len1) (tx_seq d) f1 of
                        None \<Rightarrow> None
                      | Some (ret, seq', f2) \<Rightarrow>
                        (case hspi_post_slots HSPI_TXQ
                            (\<lambda>i. tx_base d + of_nat (hif_fifo_push_addr f2
                                   ((int i - upd) * int HSPI_SLOT_SIZE)))
                            0 (nat upd) (d1\<lparr>tx_fifo := Some f2, tx_seq := seq'\<rparr>) of
                           None \<Rightarrow> None
                         | Some d2 \<Rightarrow>
                             Some (int ret, hif_hspi_queue_event_to_host HSPI_TXQ
                               (d2\<lparr>txq_total_cnt := total1 + upd\<rparr>))))
                   else Some (0, d1)))))))"

subsection \<open>Slot headers round-trip\<close>

lemma length_hspi_hdr [simp]: "length (hspi_hdr l s) = 4"
  by (simp add: hspi_hdr_def Let_def)

lemma hdr_half_hspi_hdr: "hdr_half (hspi_hdr l s) = l mod 1024 + 1024 * (s mod 64)"
proof -
  define v where "v = l mod 1024 + 1024 * (s mod 64)"
  have "l mod 1024 < 1024" "s mod 64 < 64" by simp_all
  then have "v < 65536" unfolding v_def by linarith
  then have "v div 256 < 256" by (simp add: less_mult_imp_div_less)
  then have "unat (of_nat (v mod 256) :: u8) + 256 * unat (of_nat (v div 256) :: u8) = v"
    by (simp add: unat_of_nat take_bit_nat_eq_self take_bit_eq_mod)
  then show ?thesis
    by (simp add: hdr_half_def hspi_hdr_def Let_def v_def numeral_2_eq_2 numeral_3_eq_3)
qed

lemma hdr_hspi_hdr [simp]:
  "l < 1024 \<Longrightarrow> hdr_len (hspi_hdr l s) = l"
  "s < 64 \<Longrightarrow> hdr_seq (hspi_hdr l s) = s"
  "hdr_start (hspi_hdr l s) = [0x48, 0x53]"
  by (simp_all add: hdr_len_def hdr_seq_def hdr_half_hspi_hdr hdr_start_def)
    (simp add: hspi_hdr_def Let_def)

lemma hdr_len_append [simp]:
  "hdr_len (take 4 (hspi_hdr l s @ xs)) = hdr_len (hspi_hdr l s)"
  by simp

lemma next_seq_le: "next_seq s \<le> HSPI_SLOT_SEQ_MAX"
  by (simp add: next_seq_def)

lemma next_seq_mod: "s \<le> HSPI_SLOT_SEQ_MAX \<Longrightarrow> next_seq s = Suc s mod 64"
  by (cases "s = 63") (auto simp: next_seq_def hspi_consts)

subsection \<open>The framing specification\<close>

text \<open>
  A message is cut into chunks of at most 508 bytes, each sent as a slot: header, chunk, and
  padding up to 512 bytes.  A slot stream is a list of payloads with their padding.
\<close>

function hspi_chunks :: "u8 list \<Rightarrow> u8 list list" where
  "hspi_chunks xs = (if xs = [] then []
     else take HSPI_SLOT_DATA_LEN_MAX xs # hspi_chunks (drop HSPI_SLOT_DATA_LEN_MAX xs))"
  by pat_completeness auto
termination
  by (relation "measure length") (auto simp: hspi_consts)

declare hspi_chunks.simps [simp del]

fun hspi_stream :: "nat \<Rightarrow> (u8 list \<times> u8 list) list \<Rightarrow> u8 list" where
  "hspi_stream seq [] = []"
| "hspi_stream seq ((c, pad) # ms) = hspi_hdr (length c) seq @ c @ pad @ hspi_stream (next_seq seq) ms"

text \<open>The slots of a chunked message: only the last one is padded.\<close>

definition pad_last :: "u8 list list \<Rightarrow> u8 list \<Rightarrow> (u8 list \<times> u8 list) list" where
  "pad_last cs pad = map (\<lambda>c. (c, [])) (butlast cs) @ [(last cs, pad)]"

definition slot_fits :: "u8 list \<times> u8 list \<Rightarrow> bool" where
  "slot_fits m \<longleftrightarrow> length (fst m) + length (snd m) = HSPI_SLOT_DATA_LEN_MAX"

fun seq_after :: "nat \<Rightarrow> nat \<Rightarrow> nat" where
  "seq_after 0 seq = seq"
| "seq_after (Suc n) seq = seq_after n (next_seq seq)"

lemma hspi_chunks_Nil [simp]: "hspi_chunks [] = []"
  by (subst hspi_chunks.simps) simp

lemma hspi_chunks_Cons:
  "xs \<noteq> [] \<Longrightarrow> hspi_chunks xs =
     take HSPI_SLOT_DATA_LEN_MAX xs # hspi_chunks (drop HSPI_SLOT_DATA_LEN_MAX xs)"
  by (subst hspi_chunks.simps) simp

lemma concat_hspi_chunks [simp]: "concat (hspi_chunks xs) = xs"
proof (induction xs rule: hspi_chunks.induct)
  case (1 xs)
  then show ?case by (cases "xs = []") (simp_all add: hspi_chunks_Cons [of xs])
qed

lemma hspi_chunks_eq_Nil [simp]: "hspi_chunks xs = [] \<longleftrightarrow> xs = []"
  by (cases "xs = []") (simp_all add: hspi_chunks_Cons [of xs])

lemma hspi_chunks_le:
  "c \<in> set (hspi_chunks xs) \<Longrightarrow> 0 < length c \<and> length c \<le> HSPI_SLOT_DATA_LEN_MAX"
proof (induction xs rule: hspi_chunks.induct)
  case (1 xs)
  then show ?case by (cases "xs = []") (auto simp: hspi_chunks_Cons [of xs] hspi_consts)
qed

lemma length_hspi_chunks:
  "length (hspi_chunks xs) = (length xs + (HSPI_SLOT_DATA_LEN_MAX - 1)) div HSPI_SLOT_DATA_LEN_MAX"
proof (induction xs rule: hspi_chunks.induct)
  case (1 xs)
  show ?case
  proof (cases "xs = []")
    case False
    show ?thesis
    proof (cases "length xs < 508")
      case True
      moreover have "1 \<le> length xs" using False by (cases xs) auto
      ultimately have "(length xs + 507) div 508 = 1" by (intro div_nat_eqI) simp_all
      with False True show ?thesis by (simp add: hspi_chunks_Cons [of xs] hspi_consts)
    next
      case l: False
      then have "length xs + 507 = (length xs - 508 + 507) + 508" by simp
      then have "(length xs + 507) div 508 = Suc ((length xs - 508 + 507) div 508)"
        by (metis div_add_self2 Suc_eq_plus1 zero_neq_numeral)
      with 1 [OF False] False show ?thesis
        by (simp add: hspi_chunks_Cons [of xs] hspi_consts)
    qed
  qed (simp add: hspi_consts)
qed

text \<open>Only the last chunk can be short.\<close>

lemma hspi_chunks_full:
  "c \<in> set (butlast (hspi_chunks xs)) \<Longrightarrow> length c = HSPI_SLOT_DATA_LEN_MAX"
proof (induction xs rule: hspi_chunks.induct)
  case (1 xs)
  show ?case
  proof (cases "length xs \<le> HSPI_SLOT_DATA_LEN_MAX")
    case True
    then show ?thesis using 1 by (cases "xs = []") (simp_all add: hspi_chunks_Cons [of xs])
  next
    case False
    then have "xs \<noteq> []" by auto
    then show ?thesis using 1 False by (auto simp: hspi_chunks_Cons [of xs])
  qed
qed


subsection \<open>What the transmit path writes\<close>

lemma drop_chunk:
  assumes "i < len" and "len \<le> length buf"
  defines "c \<equiv> take (min (len - i) HSPI_SLOT_DATA_LEN_MAX) (drop i buf)"
  shows "hspi_chunks (take (len - i) (drop i buf)) =
    c # hspi_chunks (take (len - (i + length c)) (drop (i + length c) buf))"
proof -
  have ne: "take (len - i) (drop i buf) \<noteq> []" using assms by simp
  have c: "c = take HSPI_SLOT_DATA_LEN_MAX (take (len - i) (drop i buf))"
    by (simp add: c_def min.commute)
  have l: "length c = min (len - i) HSPI_SLOT_DATA_LEN_MAX" using assms by simp
  have "drop HSPI_SLOT_DATA_LEN_MAX (take (len - i) (drop i buf)) =
      take (len - (i + length c)) (drop (i + length c) buf)"
  proof (cases "len - i \<le> HSPI_SLOT_DATA_LEN_MAX")
    case True
    then show ?thesis using l assms by simp
  next
    case False
    then have "length c = HSPI_SLOT_DATA_LEN_MAX" using l by simp
    then show ?thesis by (simp add: drop_take add.commute)
  qed
  with hspi_chunks_Cons [OF ne] c show ?thesis by simp
qed

definition hspi_room :: "nat \<Rightarrow> nat" where
  "hspi_room n = n + HSPI_SLOT_HDR_SIZE *
     ((n + (HSPI_SLOT_DATA_LEN_MAX - 1)) div HSPI_SLOT_DATA_LEN_MAX)"

lemma hspi_room_chunks: "hspi_room (length xs) = length xs + 4 * length (hspi_chunks xs)"
  by (simp add: hspi_room_def length_hspi_chunks hspi_consts)

lemma hspi_write_loop:
  assumes "fifo_wf f" and "i \<le> len" and "len \<le> length buf"
    and "length (fifo_list f) + hspi_room (len - i) \<le> fifo_cap f"
  shows "\<exists>hl' f'. hif_hspi_write_loop buf len i HSPI_SLOT_DATA_LEN_MAX seq f =
      Some (len, hl', seq_after (length (hspi_chunks (take (len - i) (drop i buf)))) seq, f') \<and>
    fifo_wf f' \<and> fifo_cap f' = fifo_cap f \<and> pop_idx f' = pop_idx f \<and>
    fifo_list f' = fifo_list f @
      hspi_stream seq (map (\<lambda>c. (c, [])) (hspi_chunks (take (len - i) (drop i buf)))) \<and>
    hl' = (if i = len then HSPI_SLOT_DATA_LEN_MAX
           else length (last (hspi_chunks (take (len - i) (drop i buf)))))"
  using assms
proof (induction "len - i" arbitrary: i f seq rule: less_induct)
  case less
  show ?case
  proof (cases "i < len")
    case False
    then show ?thesis using less.prems by (simp add: hif_hspi_write_loop.simps)
  next
    case True
    let ?d = "take (len - i) (drop i buf)"
    define c where "c = take (min (len - i) HSPI_SLOT_DATA_LEN_MAX) (drop i buf)"
    define r where "r = take (len - (i + length c)) (drop (i + length c) buf)"
    have lc: "length c = min (len - i) HSPI_SLOT_DATA_LEN_MAX"
      using less.prems by (simp add: c_def)
    then have pos: "0 < length c" using True by (simp add: hspi_consts)
    have hl: "(if len - i < HSPI_SLOT_DATA_LEN_MAX then len - i else HSPI_SLOT_DATA_LEN_MAX) = length c"
      using lc by simp
    have ch: "hspi_chunks ?d = c # hspi_chunks r"
      using drop_chunk [OF True less.prems(3)] by (simp add: c_def r_def)
    have lr: "length r = len - (i + length c)" using less.prems by (simp add: r_def)
    have room: "hspi_room (len - i) = 4 + length c + hspi_room (length r)"
    proof -
      have "hspi_room (length ?d) = length ?d + 4 * length (hspi_chunks ?d)"
        by (rule hspi_room_chunks)
      moreover have "length ?d = length c + length r"
        using lr lc less.prems by auto
      ultimately show ?thesis using less.prems by (simp add: ch hspi_room_chunks [of r])
    qed
    obtain f1 where f1: "hif_fifo_write f (Some (hspi_hdr (length c) seq)) 4 = Some (4, f1)"
        "fifo_wf f1" "fifo_cap f1 = fifo_cap f"
        "fifo_list f1 = fifo_list f @ hspi_hdr (length c) seq"
      using fq.wr_fits [OF less.prems(1), of "hspi_hdr (length c) seq"] less.prems(4) room by auto
    have t: "take (length c) (drop i buf) = c" using lc by (simp add: c_def)
    have "nat (int (length c)) \<le> length (drop i buf)" using lc less.prems by simp
    from fq.wr_law [OF f1(2) _ this, of "length c"] obtain f2 where
      f2: "hif_fifo_write f1 (Some (drop i buf)) (int (length c)) = Some (int (length c), f2)"
        "fifo_wf f2" "fifo_cap f2 = fifo_cap f"
        "fifo_list f2 = fifo_list f @ hspi_hdr (length c) seq @ c"
      using less.prems(4) room f1 t by (auto simp del: length_fifo_list)
    have p: "pop_idx f2 = pop_idx f"
      using fifo_write_frame(1) [OF less.prems(1) _ _ f1(1)]
        fifo_write_frame(1) [OF f1(2) _ _ f2(1)] lc less.prems by simp
    have step: "hif_hspi_write_loop buf len i HSPI_SLOT_DATA_LEN_MAX seq f =
        hif_hspi_write_loop buf len (i + length c) (length c) (next_seq seq) f2"
      using True f1(1) f2(1) hl
      by (subst hif_hspi_write_loop.simps) (simp add: Let_def HSPI_SLOT_HDR_SIZE_def)
    show ?thesis
    proof (cases "i + length c < len")
      case False
      then have e: "i + length c = len" "r = []" using lc lr True by auto
      then have "hif_hspi_write_loop buf len (i + length c) (length c) (next_seq seq) f2 =
          Some (len, length c, next_seq seq, f2)"
        by (simp add: hif_hspi_write_loop.simps)
      with step f2 p True ch e show ?thesis by simp
    next
      case more: True
      then have full: "length c = HSPI_SLOT_DATA_LEN_MAX" using lc by (auto simp: min_def)
      have "r \<noteq> []" using more lr by auto
      moreover have "len - (i + length c) < len - i" using pos True by linarith
      moreover have "length (fifo_list f2) + hspi_room (len - (i + length c)) \<le> fifo_cap f2"
        using less.prems(4) room f2 lr by simp
      ultimately show ?thesis
        using less.hyps [of "i + length c" f2 "next_seq seq"] less.prems more step f2 p ch True full
        by (auto simp: r_def)
    qed
  qed
qed


lemma hspi_stream_append:
  "hspi_stream s (xs @ ys) = hspi_stream s xs @ hspi_stream (seq_after (length xs) s) ys"
  by (induction xs arbitrary: s) auto

lemma hspi_stream_pad_last:
  "cs \<noteq> [] \<Longrightarrow> hspi_stream s (pad_last cs pad) = hspi_stream s (map (\<lambda>c. (c, [])) cs) @ pad"
  by (cases cs rule: rev_cases) (auto simp: pad_last_def hspi_stream_append)

lemma length_hspi_stream:
  "\<forall>m \<in> set ms. slot_fits m \<Longrightarrow> length (hspi_stream s ms) = HSPI_SLOT_SIZE * length ms"
  by (induction s ms rule: hspi_stream.induct) (auto simp: slot_fits_def hspi_consts)

lemma pad_last_facts:
  assumes "xs \<noteq> []" and "cs = hspi_chunks xs"
    and "length pad = HSPI_SLOT_DATA_LEN_MAX - length (last cs)"
  shows "\<forall>m \<in> set (pad_last cs pad). slot_fits m"
    and "concat (map fst (pad_last cs pad)) = xs" and "length (pad_last cs pad) = length cs"
proof -
  have cs: "cs \<noteq> []" "last cs \<in> set cs" using assms by auto
  then have "length (last cs) \<le> HSPI_SLOT_DATA_LEN_MAX" using assms hspi_chunks_le by blast
  then show "\<forall>m \<in> set (pad_last cs pad). slot_fits m"
    using assms hspi_chunks_full by (auto simp: pad_last_def slot_fits_def)
  have "concat (map fst (pad_last cs pad)) = concat (butlast cs @ [last cs])"
    by (simp add: pad_last_def comp_def)
  also have "\<dots> = xs" using cs assms(2) by simp
  finally show "concat (map fst (pad_last cs pad)) = xs" .
  show "length (pad_last cs pad) = length cs" using cs by (simp add: pad_last_def)
qed

lemma seq_after_le: "s \<le> HSPI_SLOT_SEQ_MAX \<Longrightarrow> seq_after n s \<le> HSPI_SLOT_SEQ_MAX"
  by (induction n arbitrary: s) (auto simp: next_seq_le)

lemma hspi_write_slots:
  assumes wf: "fifo_wf f" and len: "0 < len" "len \<le> length buf"
    and cs: "cs = hspi_chunks (take len buf)"
    and room: "length (fifo_list f) + HSPI_SLOT_SIZE * length cs \<le> fifo_cap f"
  shows "\<exists>pad f'. hif_hspi_write_slots buf len seq f = Some (len, seq_after (length cs) seq, f') \<and>
    fifo_wf f' \<and> fifo_cap f' = fifo_cap f \<and> pop_idx f' = pop_idx f \<and>
    fifo_list f' = fifo_list f @ hspi_stream seq (pad_last cs pad) \<and>
    length pad = HSPI_SLOT_DATA_LEN_MAX - length (last cs)"
proof -
  have ne: "cs \<noteq> []" using len cs by auto
  have "last cs \<in> set cs" using ne by simp
  then have last: "0 < length (last cs)" "length (last cs) \<le> HSPI_SLOT_DATA_LEN_MAX"
    using hspi_chunks_le cs by blast+
  let ?ms = "pad_last cs (replicate (HSPI_SLOT_DATA_LEN_MAX - length (last cs)) 0)"
  have tl: "length (take len buf) = len" "take len buf \<noteq> []" using len by auto
  have "length (hspi_stream seq ?ms) = HSPI_SLOT_SIZE * length ?ms"
    using tl(2) cs by (intro length_hspi_stream pad_last_facts(1)) simp_all
  then have used: "length (hspi_stream seq (map (\<lambda>c. (c, [])) cs)) +
      (HSPI_SLOT_DATA_LEN_MAX - length (last cs)) = HSPI_SLOT_SIZE * length cs"
    using ne pad_last_facts(3) [OF tl(2) cs] by (simp add: hspi_stream_pad_last)
  have "length (hspi_stream s (map (\<lambda>c. (c, [])) ds)) = length (concat ds) + 4 * length ds" for s ds
    by (induction ds arbitrary: s) auto
  then have "length (hspi_stream seq (map (\<lambda>c. (c, [])) cs)) = len + 4 * length cs"
    using tl cs by simp
  also have "\<dots> = hspi_room len" using hspi_room_chunks [of "take len buf"] tl cs by simp
  finally have "length (fifo_list f) + hspi_room (len - 0) \<le> fifo_cap f" using room used by simp
  from hspi_write_loop [OF wf _ len(2) this, of seq] obtain hl f1 where
    f1: "hif_hspi_write_loop buf len 0 HSPI_SLOT_DATA_LEN_MAX seq f =
        Some (len, hl, seq_after (length cs) seq, f1)"
      "fifo_wf f1" "fifo_cap f1 = fifo_cap f" "pop_idx f1 = pop_idx f"
      "fifo_list f1 = fifo_list f @ hspi_stream seq (map (\<lambda>c. (c, [])) cs)"
      "hl = length (last cs)"
    using len cs by auto
  show ?thesis
  proof (cases "hl < HSPI_SLOT_DATA_LEN_MAX")
    case False
    then have "length (last cs) = HSPI_SLOT_DATA_LEN_MAX" using f1 last by simp
    then show ?thesis using f1 False ne
      by (intro exI [of _ "[]"] exI [of _ f1])
        (simp add: hif_hspi_write_slots_def hspi_stream_pad_last)
  next
    case True
    have "length (fifo_list f1) + (HSPI_SLOT_DATA_LEN_MAX - hl) \<le> fifo_cap f1"
      using f1 room used by simp
    from fq.wr_none_fits [OF f1(2) this] obtain f2 pad where
      f2: "hif_fifo_write f1 None (int (HSPI_SLOT_DATA_LEN_MAX - hl)) =
          Some (int (HSPI_SLOT_DATA_LEN_MAX - hl), f2)" "fifo_wf f2"
        "fifo_cap f2 = fifo_cap f1" "fifo_list f2 = fifo_list f1 @ pad"
        "length pad = HSPI_SLOT_DATA_LEN_MAX - hl" by metis
    have "pop_idx f2 = pop_idx f1" using fifo_write_frame(1) [OF f1(2) _ _ f2(1)] by simp
    then show ?thesis using f1 f2 True ne
      by (intro exI [of _ pad] exI [of _ f2])
        (simp add: hif_hspi_write_slots_def hspi_stream_pad_last)
  qed
qed


subsection \<open>Posting slots\<close>

text \<open>The part of the device the posting loops leave alone, and the registers the hardware reads.\<close>

definition same_queues :: "hspi_dev \<Rightarrow> hspi_dev \<Rightarrow> bool" where
  "same_queues d d' \<longleftrightarrow> rx_fifo d' = rx_fifo d \<and> tx_fifo d' = tx_fifo d \<and>
     rx_base d' = rx_base d \<and> tx_base d' = tx_base d \<and> rx_seq d' = rx_seq d \<and>
     tx_seq d' = tx_seq d \<and> rxq_total_cnt d' = rxq_total_cnt d \<and>
     txq_total_cnt d' = txq_total_cnt d \<and> sys_reg d' = sys_reg d \<and>
     hif_hspi_queue_count HSPI_RXQ d' = hif_hspi_queue_count HSPI_RXQ d \<and>
     hif_hspi_queue_count HSPI_TXQ d' = hif_hspi_queue_count HSPI_TXQ d"

definition fifo_of :: "hspi_queue_index \<Rightarrow> hspi_dev \<Rightarrow> u8 hif_fifo option" where
  "fifo_of idx d = (case idx of HSPI_TXQ \<Rightarrow> tx_fifo d | HSPI_RXQ \<Rightarrow> rx_fifo d)"

definition base_of :: "hspi_queue_index \<Rightarrow> hspi_dev \<Rightarrow> u32" where
  "base_of idx d = (case idx of HSPI_TXQ \<Rightarrow> tx_base d | HSPI_RXQ \<Rightarrow> rx_base d)"

definition slot_addr_ok :: "hspi_queue_index \<Rightarrow> hspi_dev \<Rightarrow> u32 \<Rightarrow> bool" where
  "slot_addr_ok idx d a \<longleftrightarrow> a \<noteq> 0 \<and> a AND 3 = 0 \<and> unat (a - base_of idx d) mod HSPI_SLOT_SIZE = 0"

lemma queue_update_ok:
  assumes "fifo_of idx d \<noteq> None" and "slot_addr_ok idx d a"
  shows "\<exists>d'. hif_hspi_queue_update idx a d = Some (0, d') \<and> same_queues d d' \<and>
    events d' = events d @ [Posted idx a]"
  using assms
  by (cases idx)
    (auto simp: hif_hspi_queue_update_def slot_addr_ok_def fifo_of_def base_of_def Let_def
      same_queues_def emit_def upd_que_reg_def hif_hspi_queue_count_def que_reg_def)

lemma same_queues_trans [trans]: "same_queues a b \<Longrightarrow> same_queues b c \<Longrightarrow> same_queues a c"
  by (simp add: same_queues_def)

lemma same_queues_of:
  "same_queues d d' \<Longrightarrow> fifo_of idx d' = fifo_of idx d"
  "same_queues d d' \<Longrightarrow> slot_addr_ok idx d' a = slot_addr_ok idx d a"
  by (cases idx; simp add: same_queues_def fifo_of_def slot_addr_ok_def base_of_def)+

lemma post_slots_ok:
  assumes "fifo_of idx d \<noteq> None" and "\<And>i. i < n \<Longrightarrow> slot_addr_ok idx d (addr (k + i))"
  shows "\<exists>d'. hspi_post_slots idx addr k n d = Some d' \<and> same_queues d d' \<and>
    events d' = events d @ map (\<lambda>i. Posted idx (addr (k + i))) [0..<n]"
  using assms
proof (induction n arbitrary: k d)
  case 0
  then show ?case by (simp add: same_queues_def)
next
  case (Suc n)
  from queue_update_ok [OF Suc.prems(1), of "addr k"] Suc.prems(2) [of 0] obtain d1 where
    d1: "hif_hspi_queue_update idx (addr k) d = Some (0, d1)" "same_queues d d1"
      "events d1 = events d @ [Posted idx (addr k)]" by auto
  have "\<exists>d'. hspi_post_slots idx addr (Suc k) n d1 = Some d' \<and> same_queues d1 d' \<and>
      events d' = events d1 @ map (\<lambda>i. Posted idx (addr (Suc k + i))) [0..<n]"
    using Suc.prems d1(2) Suc.prems(2) [of "Suc _"]
    by (intro Suc.IH) (auto simp: same_queues_of)
  then obtain d' where d': "hspi_post_slots idx addr (Suc k) n d1 = Some d'" "same_queues d1 d'"
      "events d' = events d1 @ map (\<lambda>i. Posted idx (addr (Suc k + i))) [0..<n]" by blast
  have "map (\<lambda>i. Posted idx (addr (k + i))) [0..<Suc n] =
      Posted idx (addr k) # map (\<lambda>i. Posted idx (addr (Suc k + i))) [0..<n]"
    by (simp add: upt_conv_Cons map_Suc_upt [symmetric] del: upt_Suc)
  with d1 d' same_queues_trans [OF d1(2) d'(2)] show ?case by simp
qed

text \<open>A base address is usable when the FIFO it starts lies word-aligned inside the address space.\<close>

definition base_ok :: "u32 \<Rightarrow> bool" where
  "base_ok b \<longleftrightarrow> b \<noteq> 0 \<and> unat b mod 4 = 0 \<and> unat b + HSPI_FIFO_SIZE \<le> 2 ^ 32"

lemma and_3_eq_0: "(x :: u32) AND 3 = 0 \<longleftrightarrow> unat x mod 4 = 0"
proof -
  have "x AND 3 = take_bit 2 x" by (simp add: take_bit_eq_mask mask_eq_exp_minus_1)
  then have "unat (x AND 3) = unat x mod 4" by (simp add: unat_mod_distrib take_bit_eq_mod)
  then show ?thesis by (metis unat_eq_zero)
qed

lemma slot_addr_ok_offset:
  assumes "base_ok (base_of idx d)" and "off < HSPI_FIFO_SIZE" and "off mod HSPI_SLOT_SIZE = 0"
  shows "slot_addr_ok idx d (base_of idx d + of_nat off)"
proof -
  let ?b = "base_of idx d"
  have off: "unat (of_nat off :: u32) = off" using assms(2) by (simp add: hspi_consts)
  have u: "unat (?b + of_nat off) = unat ?b + off"
    using assms(1,2) off by (simp add: base_ok_def unat_word_ariths hspi_consts)
  have "off mod 4 = 0" using assms(3) by (auto simp: hspi_consts mod_eq_0_iff_dvd intro: dvd_trans)
  then have "(unat ?b + off) mod 4 = 0" using assms(1) by (simp add: base_ok_def mod_eq_0_iff_dvd)
  moreover have "(?b + of_nat off) AND 3 = 0 \<longleftrightarrow> unat (?b + of_nat off) mod 4 = 0"
    by (rule and_3_eq_0)
  moreover have "0 < unat ?b" using assms(1) by (simp add: base_ok_def unat_gt_0)
  then have "?b + of_nat off \<noteq> 0" using u by (metis add_gr_0 unat_0 less_irrefl)
  moreover have "unat (of_nat off :: u32) mod HSPI_SLOT_SIZE = 0" using assms(3) off by simp
  ultimately show ?thesis using u by (simp add: slot_addr_ok_def)
qed


subsection \<open>The transmit side as a whole\<close>

text \<open>
  The invariant of the transmit side: the FIFO holds exactly the posted slots, no more than the
  FIFO and the hardware queue have room for, and its read index is on a slot boundary.
\<close>

definition tx_ok :: "hspi_dev \<Rightarrow> bool" where
  "tx_ok d \<longleftrightarrow> (\<exists>f. tx_fifo d = Some f \<and> fifo_wf f \<and> fifo_cap f = HSPI_FIFO_SIZE \<and>
     unat (pop_idx f) mod HSPI_SLOT_SIZE = 0 \<and>
     int (length (fifo_list f)) = int HSPI_SLOT_SIZE * txq_total_cnt d \<and>
     txq_total_cnt d \<le> int HSPI_SLOT_NUM) \<and>
   base_ok (tx_base d) \<and> tx_seq d \<le> HSPI_SLOT_SEQ_MAX"

text \<open>Slots the hardware has sent, slots a message needs, slots that can be posted.\<close>

definition tx_done :: "hspi_dev \<Rightarrow> nat" where
  "tx_done d = nat (txq_total_cnt d - int (hif_hspi_queue_count HSPI_TXQ d))"

definition tx_slots :: "u8 list \<Rightarrow> hspi_dev \<Rightarrow> nat" where
  "tx_slots buf d = min (length (hspi_chunks buf))
     (HSPI_SLOT_NUM - (nat (txq_total_cnt d) - tx_done d))"

definition tx_len :: "u8 list \<Rightarrow> hspi_dev \<Rightarrow> nat" where
  "tx_len buf d = min (length buf) (tx_slots buf d * HSPI_SLOT_DATA_LEN_MAX)"

lemma hspi_chunks_take:
  "hspi_chunks (take (n * HSPI_SLOT_DATA_LEN_MAX) xs) = take n (hspi_chunks xs)"
proof (induction n arbitrary: xs)
  case (Suc n)
  let ?M = "HSPI_SLOT_DATA_LEN_MAX"
  let ?t = "take (Suc n * ?M) xs"
  show ?case
  proof (cases "xs = []")
    case False
    then have "?t \<noteq> []" by (simp add: hspi_consts)
    then have "hspi_chunks ?t = take ?M ?t # hspi_chunks (drop ?M ?t)" by (rule hspi_chunks_Cons)
    moreover have "drop ?M ?t = take (n * ?M) (drop ?M xs)" by (simp add: drop_take)
    ultimately show ?thesis using Suc.IH [of "drop ?M xs"] hspi_chunks_Cons [OF False] by simp
  qed simp
qed simp

lemma take_tx_len: "take (tx_len buf d) buf = take (tx_slots buf d * HSPI_SLOT_DATA_LEN_MAX) buf"
  by (simp add: tx_len_def min_def)

lemma length_hspi_chunks_int:
  "int (length xs) div int HSPI_SLOT_DATA_LEN_MAX +
     (if int (length xs) mod int HSPI_SLOT_DATA_LEN_MAX \<noteq> 0 then 1 else 0) =
   int (length (hspi_chunks xs))"
proof -
  have "(n + 507) div 508 = n div 508 + (if n mod 508 \<noteq> 0 then 1 else 0)" for n :: nat
  proof -
    obtain q r where n: "n = 508 * q + r" "r < 508"
      by (metis mod_less_divisor mult_div_mod_eq zero_less_numeral)
    then have "(n + 507) div 508 = q + (r + 507) div 508" by simp
    moreover have "(r + 507) div 508 = (if r \<noteq> 0 then 1 else 0)"
      using n(2) by (auto intro: div_nat_eqI)
    moreover have "n div 508 = q" "n mod 508 = r" using n by simp_all
    ultimately show ?thesis by simp
  qed
  then show ?thesis
    by (simp add: length_hspi_chunks hspi_consts zmod_int [of _ 508, simplified, symmetric]
        zdiv_int [of _ 508, simplified, symmetric])
qed

lemma tx_ok_bounds:
  assumes "tx_ok d"
  shows "0 \<le> txq_total_cnt d" and "txq_total_cnt d \<le> int HSPI_SLOT_NUM"
proof -
  obtain f :: "u8 hif_fifo" where "int (length (fifo_list f)) = int HSPI_SLOT_SIZE * txq_total_cnt d"
    using assms by (auto simp: tx_ok_def)
  then have "0 \<le> int HSPI_SLOT_SIZE * txq_total_cnt d" by (metis of_nat_0_le_iff)
  then show "0 \<le> txq_total_cnt d" by (simp add: hspi_consts zero_le_mult_iff)
  show "txq_total_cnt d \<le> int HSPI_SLOT_NUM" using assms by (auto simp: tx_ok_def)
qed

lemma mod_slot_add: "a mod HSPI_SLOT_SIZE = 0 \<Longrightarrow> b mod HSPI_SLOT_SIZE = 0 \<Longrightarrow> (a + b) mod HSPI_SLOT_SIZE = 0"
  by (simp add: mod_eq_0_iff_dvd)

lemma unat_add_mod_slot:
  fixes p q :: u32
  assumes "unat p mod HSPI_SLOT_SIZE = 0" and "unat q mod HSPI_SLOT_SIZE = 0"
  shows "unat (p + q) mod HSPI_SLOT_SIZE = 0"
proof -
  have "HSPI_SLOT_SIZE dvd 2 ^ 32" by (simp add: hspi_consts)
  from unat_add_mod_dvd [OF this] show ?thesis using mod_slot_add [OF assms] by simp
qed

lemma push_addr_slot:
  assumes "fifo_wf f" and "fifo_cap f = HSPI_FIFO_SIZE" and "unat (push_idx f) mod HSPI_SLOT_SIZE = 0"
  shows "hif_fifo_push_addr f (k * int HSPI_SLOT_SIZE) < HSPI_FIFO_SIZE \<and>
    hif_fifo_push_addr f (k * int HSPI_SLOT_SIZE) mod HSPI_SLOT_SIZE = 0"
proof -
  let ?a = "push_idx f + of_int (k * int HSPI_SLOT_SIZE)"
  have s: "unat (fsize f) = HSPI_FIFO_SIZE" using assms(2) by (simp add: fifo_cap_def)
  have e: "hif_fifo_push_addr f (k * int HSPI_SLOT_SIZE) = unat ?a mod HSPI_FIFO_SIZE"
    by (simp add: hif_fifo_push_addr_def unat_mod_distrib s)
  have "unat (of_int (k * int HSPI_SLOT_SIZE) :: u32) mod HSPI_SLOT_SIZE = 0"
  proof -
    have "unat (of_int (k * 512) :: u32) = nat (k * 512 mod 2 ^ 32)"
      by (simp only: unsigned_of_int take_bit_eq_mod) simp
    moreover have "512 dvd k * 512 mod 2 ^ 32" by (rule dvd_mod) simp_all
    then have "int 512 dvd int (nat (k * 512 mod 2 ^ 32))" by simp
    then have "512 dvd nat (k * 512 mod 2 ^ 32)" by (simp only: int_dvd_int_iff)
    ultimately show ?thesis by (simp add: HSPI_SLOT_SIZE_def)
  qed
  then have "unat ?a mod HSPI_SLOT_SIZE = 0" by (rule unat_add_mod_slot [OF assms(3)])
  then show ?thesis unfolding e by (simp add: hspi_consts mod_mod_cancel)
qed


lemma tx_release:
  assumes ok: "tx_ok d" and f: "tx_fifo d = Some f"
  defines "t1 \<equiv> txq_total_cnt d - int (tx_done d)"
  shows "\<exists>f1. (if txq_total_cnt d - int (hif_hspi_queue_count HSPI_TXQ d) > 0
      then map_option (\<lambda>(_, _, f). f) (hif_fifo_read f False
        ((txq_total_cnt d - int (hif_hspi_queue_count HSPI_TXQ d)) * int HSPI_SLOT_SIZE))
      else Some f) = Some f1 \<and>
    tx_ok (d\<lparr>tx_fifo := Some f1, txq_total_cnt := t1\<rparr>) \<and>
    fifo_list f1 = drop (HSPI_SLOT_SIZE * tx_done d) (fifo_list f)"
proof (cases "txq_total_cnt d - int (hif_hspi_queue_count HSPI_TXQ d) > 0")
  case False
  then have "tx_done d = 0" by (simp add: tx_done_def)
  moreover from this have "d\<lparr>tx_fifo := Some f, txq_total_cnt := t1\<rparr> = d" using f by (simp add: t1_def)
  ultimately show ?thesis using False ok by simp
next
  case True
  let ?n = "HSPI_SLOT_SIZE * tx_done d"
  have dn: "txq_total_cnt d - int (hif_hspi_queue_count HSPI_TXQ d) = int (tx_done d)"
    using True by (simp add: tx_done_def)
  have wf: "fifo_wf f" "fifo_cap f = HSPI_FIFO_SIZE" "unat (pop_idx f) mod HSPI_SLOT_SIZE = 0"
    "int (length (fifo_list f)) = int HSPI_SLOT_SIZE * txq_total_cnt d"
    using ok f by (auto simp: tx_ok_def)
  have t: "int (tx_done d) \<le> txq_total_cnt d" using dn by linarith
  then have "int ?n \<le> int (length (fifo_list f))" using wf(4) by (simp add: hspi_consts)
  then have n: "?n \<le> length (fifo_list f)" by (simp only: of_nat_le_iff)
  obtain f1 where f1: "hif_fifo_read f False (int ?n) = Some (int ?n, [], f1)" "fifo_wf f1"
      "fifo_cap f1 = fifo_cap f" "fifo_list f1 = drop ?n (fifo_list f)"
    using fq.rd_available [OF wf(1) n, of False] by auto
  have "pop_idx f1 = pop_idx f + of_int (int ?n)"
    using fifo_read_frame(4) [OF wf(1) _ f1(1)] by simp
  moreover have "unat (of_int (int ?n) :: u32) mod HSPI_SLOT_SIZE = 0"
  proof -
    have "?n \<le> HSPI_FIFO_SIZE" using n fifo_list_le_cap [OF wf(1)] wf(2) by simp
    then have "unat (of_nat ?n :: u32) = ?n" by (intro unat_of_nat_u32) (simp add: hspi_consts)
    then show ?thesis by (simp del: of_nat_mult)
  qed
  ultimately have "unat (pop_idx f1) mod HSPI_SLOT_SIZE = 0" using unat_add_mod_slot [OF wf(3)] by simp
  moreover have "int (length (fifo_list f1)) = int HSPI_SLOT_SIZE * t1"
    using f1(4) wf(4) n by (simp add: t1_def of_nat_diff right_diff_distrib del: length_fifo_list)
  ultimately have "tx_ok (d\<lparr>tx_fifo := Some f1, txq_total_cnt := t1\<rparr>)"
    using ok f1(2,3) wf t by (auto simp: tx_ok_def t1_def)
  then show ?thesis using f1 True dn by (simp add: mult.commute)
qed


text \<open>
  \<open>_hif_hspi_write\<close> never fails: it releases the slots the hardware has sent, appends one
  framed slot per chunk of the accepted prefix, posts exactly those slots and keeps the invariant.
\<close>

lemma hspi_write_correct:
  assumes ok: "tx_ok d" and f: "tx_fifo d = Some f" and ne: "buf \<noteq> []"
  shows "\<exists>d' f' ms. hif_hspi_write buf d = Some (int (tx_len buf d), d') \<and> tx_ok d' \<and>
    tx_fifo d' = Some f' \<and>
    fifo_list f' = drop (HSPI_SLOT_SIZE * tx_done d) (fifo_list f) @ hspi_stream (tx_seq d) ms \<and>
    concat (map fst ms) = take (tx_len buf d) buf \<and> (\<forall>m \<in> set ms. slot_fits m) \<and>
    length ms = tx_slots buf d \<and>
    length (events d') = length (events d) + tx_slots buf d \<and>
    txq_total_cnt d' = txq_total_cnt d - int (tx_done d) + int (tx_slots buf d) \<and>
    tx_seq d' = seq_after (tx_slots buf d) (tx_seq d)"
proof -
  let ?n = "tx_slots buf d" and ?M = "int HSPI_SLOT_DATA_LEN_MAX" and ?len = "int (length buf)"
  define t1 where "t1 = txq_total_cnt d - int (tx_done d)"
  define dn where "dn = txq_total_cnt d - int (hif_hspi_queue_count HSPI_TXQ d)"
  from tx_release [OF ok f, folded dn_def t1_def] obtain f1 where
    f1: "(if dn > 0 then map_option (\<lambda>(_, _, f). f) (hif_fifo_read f False (dn * int HSPI_SLOT_SIZE))
      else Some f) = Some f1" "tx_ok (d\<lparr>tx_fifo := Some f1, txq_total_cnt := t1\<rparr>)"
      "fifo_list f1 = drop (HSPI_SLOT_SIZE * tx_done d) (fifo_list f)"
    by blast
  let ?d1 = "d\<lparr>tx_fifo := Some f1, txq_total_cnt := t1\<rparr>"
  have t: "0 \<le> t1" "t1 \<le> 32" using tx_ok_bounds [OF f1(2)] by (simp_all add: hspi_consts)
  have t1: "(if dn > 0 then txq_total_cnt d - dn else txq_total_cnt d) = t1"
    by (simp add: dn_def t1_def tx_done_def)
  have n: "int ?n = min (int (length (hspi_chunks buf))) (32 - t1)"
    using t tx_ok_bounds [OF ok] by (simp add: tx_slots_def t1_def hspi_consts)
  have upd: "hspi_tx_update_cnt ?len t1 = int ?n"
    unfolding hspi_tx_update_cnt_def length_hspi_chunks_int n Let_def
    using t by (auto simp: hspi_consts)
  have len1: "(if int ?n * ?M < ?len then int ?n * ?M else ?len) = int (tx_len buf d)"
    by (simp add: tx_len_def min_def flip: of_nat_mult)
  define wr where "wr = (if int ?n > 0 then
       (case hif_hspi_write_slots buf (tx_len buf d) (tx_seq d) f1 of
          None \<Rightarrow> None
        | Some (ret, seq', f2) \<Rightarrow>
          (case hspi_post_slots HSPI_TXQ
              (\<lambda>i. tx_base d + of_nat (hif_fifo_push_addr f2 ((int i - int ?n) * int HSPI_SLOT_SIZE)))
              0 ?n (?d1\<lparr>tx_fifo := Some f2, tx_seq := seq'\<rparr>) of
             None \<Rightarrow> None
           | Some d2 \<Rightarrow> Some (int ret, hif_hspi_queue_event_to_host HSPI_TXQ
               (d2\<lparr>txq_total_cnt := t1 + int ?n\<rparr>))))
     else Some (0, ?d1))"
  have body: "hif_hspi_write buf d = wr"
    unfolding hif_hspi_write_def Let_def dn_def [symmetric] f option.case t1 f1(1) upd len1 nat_int
    using ne by (simp add: wr_def)
  show ?thesis
  proof (cases "?n = 0")
    case True
    then have "tx_len buf d = 0" by (simp add: tx_len_def)
    then show ?thesis using True f1 body
      by (intro exI [of _ ?d1] exI [of _ f1] exI [of _ "[]"]) (simp add: wr_def t1_def)
  next
    case False
    let ?cs = "hspi_chunks (take (tx_len buf d) buf)"
    have wf: "fifo_wf f1" "fifo_cap f1 = HSPI_FIFO_SIZE" "unat (pop_idx f1) mod HSPI_SLOT_SIZE = 0"
      "int (length (fifo_list f1)) = int HSPI_SLOT_SIZE * t1" "base_ok (tx_base d)"
      "tx_seq d \<le> HSPI_SLOT_SEQ_MAX"
      using f1(2) by (auto simp: tx_ok_def)
    have cs: "length ?cs = ?n" unfolding take_tx_len hspi_chunks_take by (simp add: tx_slots_def)
    have len: "0 < tx_len buf d" "tx_len buf d \<le> length buf"
      using False ne by (simp_all add: tx_len_def hspi_consts)
    have "int (length (fifo_list f1) + HSPI_SLOT_SIZE * ?n) \<le> int HSPI_FIFO_SIZE"
    proof -
      have "int ?n \<le> 32 - t1" using n by simp
      with wf(4) show ?thesis by (simp add: hspi_consts)
    qed
    then have room: "length (fifo_list f1) + HSPI_SLOT_SIZE * length ?cs \<le> fifo_cap f1"
      unfolding cs wf(2) by (simp only: of_nat_le_iff)
    from hspi_write_slots [OF wf(1) len refl room, of "tx_seq d"] obtain pad f2 where
      f2: "hif_hspi_write_slots buf (tx_len buf d) (tx_seq d) f1 =
            Some (tx_len buf d, seq_after ?n (tx_seq d), f2)"
        "fifo_wf f2" "fifo_cap f2 = HSPI_FIFO_SIZE" "pop_idx f2 = pop_idx f1"
        "fifo_list f2 = fifo_list f1 @ hspi_stream (tx_seq d) (pad_last ?cs pad)"
        "length pad = HSPI_SLOT_DATA_LEN_MAX - length (last ?cs)"
      unfolding cs wf(2) by blast
    have tne: "take (tx_len buf d) buf \<noteq> []" using len ne by simp
    note ms = pad_last_facts [OF tne refl f2(6)]
    have "length (hspi_stream (tx_seq d) (pad_last ?cs pad)) = HSPI_SLOT_SIZE * ?n"
      using length_hspi_stream [OF ms(1)] ms(3) cs by simp
    then have l2: "int (length (fifo_list f2)) = int HSPI_SLOT_SIZE * (t1 + int ?n)"
      using wf(4) f2(5) by (simp add: distrib_left del: length_fifo_list)
    let ?d2 = "?d1\<lparr>tx_fifo := Some f2, tx_seq := seq_after ?n (tx_seq d)\<rparr>"
    have "length (fifo_list f2) mod HSPI_SLOT_SIZE = 0"
    proof -
      have "int HSPI_SLOT_SIZE dvd int (length (fifo_list f2))" unfolding l2 by simp
      then have "HSPI_SLOT_SIZE dvd length (fifo_list f2)" by (simp only: int_dvd_int_iff)
      then show ?thesis by (rule dvd_imp_mod_0)
    qed
    then have "unat (push_idx f2) mod HSPI_SLOT_SIZE = 0"
      using unat_add_mod_slot [of "pop_idx f2" "cnt f2"] f2(2,4) wf(3) by (simp add: fifo_wf_def)
    then have "slot_addr_ok HSPI_TXQ ?d2
        (tx_base d + of_nat (hif_fifo_push_addr f2 (k * int HSPI_SLOT_SIZE)))" for k
      using slot_addr_ok_offset [of HSPI_TXQ ?d2] push_addr_slot [OF f2(2,3)] wf(5)
      by (simp add: base_of_def)
    note addr_ok = this
    have "\<exists>d3. hspi_post_slots HSPI_TXQ
        (\<lambda>i. tx_base d + of_nat (hif_fifo_push_addr f2 ((int i - int ?n) * int HSPI_SLOT_SIZE)))
        0 ?n ?d2 = Some d3 \<and> same_queues ?d2 d3 \<and>
      events d3 = events ?d2 @ map (\<lambda>i. Posted HSPI_TXQ (tx_base d +
        of_nat (hif_fifo_push_addr f2 ((int (0 + i) - int ?n) * int HSPI_SLOT_SIZE)))) [0..<?n]"
      by (rule post_slots_ok) (simp add: fifo_of_def, rule addr_ok)
    then obtain d3 where d3: "hspi_post_slots HSPI_TXQ
        (\<lambda>i. tx_base d + of_nat (hif_fifo_push_addr f2 ((int i - int ?n) * int HSPI_SLOT_SIZE)))
        0 ?n ?d2 = Some d3" "same_queues ?d2 d3" "length (events d3) = length (events d) + ?n"
      by auto
    have tn: "t1 + int ?n \<le> 32" using n by simp
    let ?d' = "hif_hspi_queue_event_to_host HSPI_TXQ (d3\<lparr>txq_total_cnt := t1 + int ?n\<rparr>)"
    have "wr = Some (int (tx_len buf d), ?d')"
      using False f2(1) d3(1) by (simp add: wr_def)
    moreover have "tx_ok ?d'"
      using d3(2) f2(2-4) l2 tn wf(3,5,6) seq_after_le [of "tx_seq d" ?n]
      by (auto simp: tx_ok_def same_queues_def hif_hspi_queue_event_to_host_def hif_hspi_ready_def
          hspi_consts)
    moreover have "tx_fifo ?d' = Some f2" "tx_seq ?d' = seq_after ?n (tx_seq d)"
        "txq_total_cnt ?d' = t1 + int ?n" "events ?d' = events d3"
      using d3(2) by (simp_all add: same_queues_def hif_hspi_queue_event_to_host_def hif_hspi_ready_def)
    ultimately show ?thesis
      using body f1(3) f2(5) ms cs d3(3)
      by (intro exI [of _ ?d'] exI [of _ f2] exI [of _ "pad_last ?cs pad"]) (simp add: t1_def)
  qed
qed


subsection \<open>What the receive path delivers\<close>

text \<open>
  How many slots of a stream a read into \<open>room\<close> bytes consumes: it takes another slot as long as
  a full payload fits, whatever the slot's real length.
\<close>

fun hspi_deliver :: "int \<Rightarrow> (u8 list \<times> u8 list) list \<Rightarrow> nat" where
  "hspi_deliver room [] = 0"
| "hspi_deliver room (m # ms) =
    (if room \<ge> int HSPI_SLOT_DATA_LEN_MAX
     then Suc (hspi_deliver (room - int (length (fst m))) ms) else 0)"

lemma hspi_deliver_le: "hspi_deliver room ms \<le> length ms"
  by (induction room ms rule: hspi_deliver.induct) auto

lemma hspi_read_loop:
  assumes "fifo_wf f" and "fifo_list f = hspi_stream seq ms" and "\<forall>m \<in> set ms. slot_fits m"
    and "seq \<le> HSPI_SLOT_SEQ_MAX" and "int (length buf) = len" and "0 \<le> i" and "i \<le> len"
  shows "\<exists>buf' f'. hif_hspi_read_loop len i buf f seq evs =
      (let k = hspi_deliver (len - i) ms; out = concat (map fst (take k ms))
       in Some (i + int (length out), buf', f', seq_after k seq, evs)) \<and>
    fifo_wf f' \<and> fifo_cap f' = fifo_cap f \<and> push_idx f' = push_idx f \<and>
    fifo_list f' = hspi_stream (seq_after (hspi_deliver (len - i) ms) seq)
      (drop (hspi_deliver (len - i) ms) ms) \<and> length buf' = length buf \<and>
    take (nat i + length (concat (map fst (take (hspi_deliver (len - i) ms) ms)))) buf' =
      take (nat i) buf @ concat (map fst (take (hspi_deliver (len - i) ms) ms))"
  using assms
proof (induction ms arbitrary: f seq i buf)
  case Nil
  show ?case
  proof (cases "len - i \<ge> int HSPI_SLOT_DATA_LEN_MAX")
    case False
    then show ?thesis using Nil.prems by (simp add: hif_hspi_read_loop.simps)
  next
    case True
    from Nil.prems(2) have "fifo_list f = []" by simp
    then obtain f1 where f1: "hif_fifo_read f True (int HSPI_SLOT_HDR_SIZE) = Some (0, [], f1)"
        "fifo_wf f1" "fifo_cap f1 = fifo_cap f" "fifo_list f1 = []"
      using fq.rd_empty [OF Nil.prems(1), of "int HSPI_SLOT_HDR_SIZE" True] by auto
    have "push_idx f1 = push_idx f" using fifo_read_frame(1) [OF Nil.prems(1) _ f1(1)] by simp
    with f1 True show ?thesis by (subst hif_hspi_read_loop.simps) simp
  qed
next
  case (Cons m ms)
  obtain c pad where m: "m = (c, pad)" by (cases m)
  show ?case
  proof (cases "len - i \<ge> int HSPI_SLOT_DATA_LEN_MAX")
    case False
    then show ?thesis using Cons.prems by (simp add: hif_hspi_read_loop.simps)
  next
    case True
    let ?h = "hspi_hdr (length c) seq" and ?M = "HSPI_SLOT_DATA_LEN_MAX"
    have lc: "length c + length pad = ?M" using Cons.prems(3) m by (simp add: slot_fits_def)
    have fl: "fifo_list f = ?h @ (c @ pad) @ hspi_stream (next_seq seq) ms"
      using Cons.prems(2) m by simp
    have "4 \<le> length (fifo_list f)" unfolding fl by simp
    then obtain f1 where f1: "hif_fifo_read f True 4 = Some (4, ?h, f1)" "fifo_wf f1"
        "fifo_cap f1 = fifo_cap f" "fifo_list f1 = (c @ pad) @ hspi_stream (next_seq seq) ms"
      using fq.rd_available [OF Cons.prems(1), of 4 True] fl by auto
    have l: "length (c @ pad) = ?M" using lc by simp
    have "?M \<le> length (fifo_list f1)" unfolding f1(4) using l by simp
    note avail = fq.rd_available [OF f1(2) this, of "length c > 0"]
    have "take ?M (fifo_list f1) = c @ pad" "drop ?M (fifo_list f1) = hspi_stream (next_seq seq) ms"
      unfolding f1(4) using l by (metis append_eq_conv_conj)+
    with avail f1(3) obtain f2 where f2: "hif_fifo_read f1 (length c > 0) (int ?M) =
          Some (int ?M, if length c > 0 then c @ pad else [], f2)" "fifo_wf f2"
        "fifo_cap f2 = fifo_cap f" "fifo_list f2 = hspi_stream (next_seq seq) ms"
      by metis
    have push: "push_idx f2 = push_idx f"
      using fifo_read_frame(1) [OF Cons.prems(1) _ f1(1)] fifo_read_frame(1) [OF f1(2) _ f2(1)]
      by simp
    let ?b = "memcpy_at buf (nat i) (if length c > 0 then c @ pad else [])"
    have hdr: "hdr_len ?h = length c" "hdr_seq ?h = seq" "length c \<le> ?M"
      using lc Cons.prems(4) by (simp_all add: hspi_consts)
    have step: "hif_hspi_read_loop len i buf f seq evs =
        hif_hspi_read_loop len (i + int (length c)) ?b f2 (next_seq seq) evs"
    proof -
      have f1': "hif_fifo_read f True (int HSPI_SLOT_HDR_SIZE) = Some (int HSPI_SLOT_HDR_SIZE, ?h, f1)"
        using f1(1) by (simp add: HSPI_SLOT_HDR_SIZE_def)
      have "int HSPI_SLOT_HDR_SIZE \<noteq> 0" "\<not> length c > ?M" using hdr(3) by (simp_all add: HSPI_SLOT_HDR_SIZE_def)
      then show ?thesis
        unfolding hif_hspi_read_loop.simps [of len i buf f seq evs] f1' Let_def
        using True f2(1) hdr(1,2) by simp
    qed
    have bl: "nat i + ?M \<le> length buf" using True Cons.prems(5,6) by linarith
    then have lb: "length ?b = length buf" using lc by simp
    have tk: "take (nat (i + int (length c))) ?b = take (nat i) buf @ c"
      using bl Cons.prems(6) by (auto simp: memcpy_at_def nat_add_distrib min_def)
    have "\<exists>buf' f'. hif_hspi_read_loop len (i + int (length c)) ?b f2 (next_seq seq) evs =
      (let k = hspi_deliver (len - (i + int (length c))) ms; out = concat (map fst (take k ms))
       in Some (i + int (length c) + int (length out), buf', f', seq_after k (next_seq seq), evs)) \<and>
      fifo_wf f' \<and> fifo_cap f' = fifo_cap f2 \<and> push_idx f' = push_idx f2 \<and>
      fifo_list f' = hspi_stream (seq_after (hspi_deliver (len - (i + int (length c))) ms) (next_seq seq))
        (drop (hspi_deliver (len - (i + int (length c))) ms) ms) \<and> length buf' = length ?b \<and>
      take (nat (i + int (length c)) +
          length (concat (map fst (take (hspi_deliver (len - (i + int (length c))) ms) ms)))) buf' =
        take (nat (i + int (length c))) ?b @
          concat (map fst (take (hspi_deliver (len - (i + int (length c))) ms) ms))"
      using Cons.prems f2 lb True hdr(3) next_seq_le by (intro Cons.IH) auto
    then show ?thesis
      unfolding step tk using True f2(3) push lb Cons.prems(6) m
      by (auto simp: Let_def nat_add_distrib algebra_simps)
  qed
qed


subsection \<open>The receive side as a whole\<close>

text \<open>
  The invariant of the receive side: whole slots in the FIFO, the posted slots after them, both
  within its capacity, and the write index on a slot boundary.
\<close>

definition rx_ok :: "hspi_dev \<Rightarrow> bool" where
  "rx_ok d \<longleftrightarrow> (\<exists>f q. rx_fifo d = Some f \<and> fifo_wf f \<and> fifo_cap f = HSPI_FIFO_SIZE \<and>
     unat (push_idx f) mod HSPI_SLOT_SIZE = 0 \<and>
     length (fifo_list f) = HSPI_SLOT_SIZE * q \<and>
     int q + rxq_total_cnt d \<le> int HSPI_SLOT_NUM) \<and>
   0 \<le> rxq_total_cnt d \<and> base_ok (rx_base d) \<and> rx_seq d \<le> HSPI_SLOT_SEQ_MAX"

text \<open>The slots the hardware has filled since the last call.\<close>

definition rx_done :: "hspi_dev \<Rightarrow> nat" where
  "rx_done d = nat (rxq_total_cnt d - int (hif_hspi_queue_count HSPI_RXQ d))"

lemma rx_commit:
  assumes ok: "rx_ok d" and f: "rx_fifo d = Some f"
  defines "dn \<equiv> rxq_total_cnt d - int (hif_hspi_queue_count HSPI_RXQ d)"
  shows "\<exists>f1. (if dn > 0 then map_option snd (hif_fifo_write f None (dn * int HSPI_SLOT_SIZE))
      else Some f) = Some f1 \<and> fifo_wf f1 \<and> fifo_cap f1 = HSPI_FIFO_SIZE \<and>
    unat (push_idx f1) mod HSPI_SLOT_SIZE = 0 \<and>
    fifo_list f1 = fifo_list f @ fifo_ahead f (HSPI_SLOT_SIZE * rx_done d)"
proof -
  obtain q where wf: "fifo_wf f" "fifo_cap f = HSPI_FIFO_SIZE"
    "unat (push_idx f) mod HSPI_SLOT_SIZE = 0" "length (fifo_list f) = HSPI_SLOT_SIZE * q"
    "int q + rxq_total_cnt d \<le> int HSPI_SLOT_NUM" "0 \<le> rxq_total_cnt d"
    using ok f by (auto simp: rx_ok_def)
  show ?thesis
  proof (cases "dn > 0")
    case False
    then have "rx_done d = 0" by (simp add: rx_done_def dn_def)
    then show ?thesis using False wf by (simp add: fifo_ahead_def)
  next
    case True
    let ?n = "HSPI_SLOT_SIZE * rx_done d"
    have dn: "dn * int HSPI_SLOT_SIZE = int ?n" using True by (simp add: rx_done_def dn_def)
    have "int (rx_done d) \<le> rxq_total_cnt d" using True by (simp add: rx_done_def dn_def)
    then have "int q + int (rx_done d) \<le> 32" using wf(5) by (simp add: hspi_consts)
    then have le: "q + rx_done d \<le> 32" by linarith
    then have n: "?n = min (nat (int ?n)) (fifo_cap f - length (fifo_list f))"
      unfolding wf(2,4) by (simp add: hspi_consts)
    obtain f1 where f1: "hif_fifo_write f None (int ?n) = Some (int ?n, f1)" "fifo_wf f1"
        "fifo_cap f1 = fifo_cap f" "fifo_list f1 = fifo_list f @ fifo_ahead f ?n"
      using fifo_write_none_exact [OF wf(1) _ n] by auto
    have "unat (of_nat ?n :: u32) = ?n" using le by (intro unat_of_nat_u32) (simp add: hspi_consts)
    then have "unat (push_idx f + of_nat ?n) mod HSPI_SLOT_SIZE = 0"
      by (intro unat_add_mod_slot [OF wf(3)]) simp
    moreover have "push_idx f1 = push_idx f + of_nat ?n"
      using fifo_write_frame(3) [OF wf(1) _ _ f1(1)] by simp
    ultimately have "unat (push_idx f1) mod HSPI_SLOT_SIZE = 0" by simp
    then show ?thesis unfolding dn using True f1 wf(2) by (intro exI [of _ f1]) simp
  qed
qed

lemma free_slots:
  assumes "fifo_wf f" and "fifo_cap f = HSPI_FIFO_SIZE"
    and "length (fifo_list f) = HSPI_SLOT_SIZE * q"
  shows "\<exists>free. hif_fifo_free_size f = Some free \<and> unat free div HSPI_SLOT_SIZE = HSPI_SLOT_NUM - q"
proof -
  have le: "cnt f \<le> fsize f" using assms(1) by (simp add: fifo_wf_def)
  have "unat (fsize f - cnt f) = HSPI_FIFO_SIZE - HSPI_SLOT_SIZE * q"
    using unat_sub [OF le] assms(2,3) by (simp add: fifo_cap_def)
  moreover have "\<dots> = HSPI_SLOT_SIZE * (HSPI_SLOT_NUM - q)"
    by (simp add: hspi_consts diff_mult_distrib2)
  ultimately show ?thesis using le by (simp add: hif_fifo_free_size_def hspi_consts)
qed

text \<open>
  \<open>_hif_hspi_read\<close> on a stream of well-formed slots, old and new: it delivers the payloads of the
  slots that fit, keeps the rest, reports nothing but postings, and posts every free slot.
\<close>

lemma hspi_read_correct:
  assumes ok: "rx_ok d" and f: "rx_fifo d = Some f" and ne: "buf \<noteq> []"
    and ms: "fifo_list f @ fifo_ahead f (HSPI_SLOT_SIZE * rx_done d) = hspi_stream (rx_seq d) ms"
      "\<forall>m \<in> set ms. slot_fits m"
  defines "k \<equiv> hspi_deliver (int (length buf)) ms"
  defines "out \<equiv> concat (map fst (take k ms))"
  shows "\<exists>d' f' buf'. hif_hspi_read buf d = Some (int (length out), buf', d') \<and> rx_ok d' \<and>
    length buf' = length buf \<and> take (length out) buf' = out \<and> rx_fifo d' = Some f' \<and>
    fifo_list f' = hspi_stream (rx_seq d') (drop k ms) \<and> rx_seq d' = seq_after k (rx_seq d) \<and>
    rxq_total_cnt d' = int (HSPI_SLOT_NUM - (length ms - k)) \<and>
    (\<exists>as. events d' = events d @ map (Posted HSPI_RXQ) as)"
proof -
  define dn where "dn = rxq_total_cnt d - int (hif_hspi_queue_count HSPI_RXQ d)"
  define t1 where "t1 = (if dn > 0 then rxq_total_cnt d - dn else rxq_total_cnt d)"
  have t1: "0 \<le> t1" "t1 = rxq_total_cnt d - int (rx_done d)"
    using ok by (auto simp: t1_def dn_def rx_done_def rx_ok_def)
  obtain f1 where
    f1: "(if dn > 0 then map_option snd (hif_fifo_write f None (dn * int HSPI_SLOT_SIZE))
      else Some f) = Some f1" "fifo_wf f1" "fifo_cap f1 = HSPI_FIFO_SIZE"
    "unat (push_idx f1) mod HSPI_SLOT_SIZE = 0" "fifo_list f1 = hspi_stream (rx_seq d) ms"
    using rx_commit [OF ok f, folded dn_def] ms(1) by auto
  have seq: "rx_seq d \<le> HSPI_SLOT_SEQ_MAX" and base: "base_ok (rx_base d)"
    using ok by (simp_all add: rx_ok_def)
  from hspi_read_loop [OF f1(2,5) ms(2) seq, of buf "int (length buf)" 0 "[]"]
  obtain buf' f2 where
    f2: "hif_hspi_read_loop (int (length buf)) 0 buf f1 (rx_seq d) [] =
          Some (int (length out), buf', f2, seq_after k (rx_seq d), [])"
      "fifo_wf f2" "fifo_cap f2 = HSPI_FIFO_SIZE" "push_idx f2 = push_idx f1"
      "fifo_list f2 = hspi_stream (seq_after k (rx_seq d)) (drop k ms)"
      "length buf' = length buf" "take (length out) buf' = out"
    using f1(3) unfolding k_def out_def by (auto simp: Let_def)
  let ?q = "length ms - k"
  have "length (hspi_stream (rx_seq d) ms) = HSPI_SLOT_SIZE * length ms"
    by (rule length_hspi_stream [OF ms(2)])
  moreover obtain q0 where "length (fifo_list f) = HSPI_SLOT_SIZE * q0"
      "int q0 + rxq_total_cnt d \<le> int HSPI_SLOT_NUM"
    using ok f by (auto simp: rx_ok_def)
  ultimately have "length ms = q0 + rx_done d" "int q0 + rxq_total_cnt d \<le> int HSPI_SLOT_NUM"
    using arg_cong [OF ms(1), of length] by (auto simp: hspi_consts)
  then have lms: "int (length ms) + t1 \<le> 32" using t1 by (simp add: hspi_consts)
  have l2: "length (fifo_list f2) = HSPI_SLOT_SIZE * ?q"
    unfolding f2(5) using ms(2) by (subst length_hspi_stream) (auto dest: in_set_dropD)
  obtain free where free: "hif_fifo_free_size f2 = Some free"
      "unat free div HSPI_SLOT_SIZE = HSPI_SLOT_NUM - ?q"
    using free_slots [OF f2(2,3) l2] by blast
  let ?u = "int (HSPI_SLOT_NUM - ?q) - t1"
  let ?d1 = "d\<lparr>rx_fifo := Some f2, rx_seq := seq_after k (rx_seq d), events := events d @ []\<rparr>"
  have "slot_addr_ok HSPI_RXQ ?d1
      (rx_base d + of_nat (hif_fifo_push_addr f2 (j * int HSPI_SLOT_SIZE)))" for j
    using slot_addr_ok_offset [of HSPI_RXQ ?d1] push_addr_slot [OF f2(2,3)] f1(4) f2(4) base
    by (simp add: base_of_def)
  note addr_ok = this
  let ?addr = "\<lambda>i. rx_base d + of_nat (hif_fifo_push_addr f2 ((t1 + int i) * int HSPI_SLOT_SIZE))"
  have "\<exists>d2. hspi_post_slots HSPI_RXQ ?addr 0 (nat ?u) ?d1 = Some d2 \<and> same_queues ?d1 d2 \<and>
      events d2 = events ?d1 @ map (\<lambda>i. Posted HSPI_RXQ (?addr (0 + i))) [0..<nat ?u]"
    by (rule post_slots_ok) (simp add: fifo_of_def, rule addr_ok)
  then obtain d2 where d2: "hspi_post_slots HSPI_RXQ ?addr 0 (nat ?u) ?d1 = Some d2"
      "same_queues ?d1 d2" "events d2 = events d @ map (Posted HSPI_RXQ) (map ?addr [0..<nat ?u])"
    by (auto simp: comp_def)
  let ?d' = "d2\<lparr>rxq_total_cnt := t1 + ?u\<rparr>"
  have cntmax: "(if HSPI_SLOT_NUM > HSPI_SLOT_CNT_MAX
      then ?u - int (HSPI_SLOT_NUM - HSPI_SLOT_CNT_MAX) else ?u) = ?u" by (simp add: hspi_consts)
  have "hif_hspi_read buf d = Some (int (length out), buf', ?d')"
    unfolding hif_hspi_read_def Let_def dn_def [symmetric] f option.case t1_def [symmetric] f1(1) f2(1)
      prod.case free cntmax d2(1) using ne by simp
  moreover have "rx_ok ?d'"
  proof -
    have "int ?q + int (HSPI_SLOT_NUM - ?q) \<le> int HSPI_SLOT_NUM"
      using lms t1(1) hspi_deliver_le [of _ ms] by (auto simp: hspi_consts k_def)
    then show ?thesis
      using d2(2) f2(2-4) f1(4) l2 base seq_after_le [OF seq, of k]
      by (auto simp: rx_ok_def same_queues_def)
  qed
  moreover have "rx_fifo ?d' = Some f2" "rx_seq ?d' = seq_after k (rx_seq d)"
      "rxq_total_cnt ?d' = int (HSPI_SLOT_NUM - ?q)"
    using d2(2) by (simp_all add: same_queues_def)
  ultimately show ?thesis
    using f2(5-7) d2(3) by (intro exI [of _ ?d'] exI [of _ f2] exI [of _ buf'])
      (auto intro: exI [of _ "map ?addr [0..<nat ?u]"])
qed


subsection \<open>The receive loop always ends\<close>

text \<open>
  Whatever bytes the FIFO holds, the loop ends within the caller's region: every round consumes
  at least a header.  A slot whose header is not a slot header asks for a system reset.
\<close>

lemma hspi_read_loop_total:
  assumes "fifo_wf f" and "int (length buf) = len" and "0 \<le> i" and "i \<le> len"
  shows "\<exists>r buf' f' seq' es. hif_hspi_read_loop len i buf f seq evs = Some (r, buf', f', seq', evs @ es) \<and>
    i \<le> r \<and> r \<le> len \<and> length buf' = length buf \<and> fifo_wf f' \<and> fifo_cap f' = fifo_cap f \<and>
    push_idx f' = push_idx f \<and>
    (4 \<le> length (fifo_list f) \<and> int HSPI_SLOT_DATA_LEN_MAX \<le> len - i \<and>
       hdr_start (take 4 (fifo_list f)) \<noteq> [0x48, 0x53] \<longrightarrow> SystemReset \<in> set es)"
  using assms
proof (induction "length (fifo_list f)" arbitrary: f seq i buf evs rule: less_induct)
  case less
  let ?M = "HSPI_SLOT_DATA_LEN_MAX"
  show ?case
  proof (cases "len - i \<ge> int ?M")
    case False
    then show ?thesis using less.prems by (simp add: hif_hspi_read_loop.simps)
  next
    case True
    define n where "n = min 4 (length (fifo_list f))"
    have H: "int HSPI_SLOT_HDR_SIZE = 4" by (simp add: hspi_consts)
    obtain f1 where f1: "hif_fifo_read f True 4 = Some (int n, take n (fifo_list f), f1)"
        "fifo_wf f1" "fifo_cap f1 = fifo_cap f" "fifo_list f1 = drop n (fifo_list f)"
      using fifo_read_law [OF less.prems(1), of 4 n True] by (auto simp: n_def)
    have p1: "push_idx f1 = push_idx f" using fifo_read_frame(1) [OF less.prems(1) _ f1(1)] by simp
    show ?thesis
    proof (cases "n = 4")
      case False
      then have "n < 4" by (simp add: n_def)
      then have "\<not> 4 \<le> length (fifo_list f)" by (simp add: n_def)
      then show ?thesis
        unfolding hif_hspi_read_loop.simps [of len i buf f seq evs] H f1(1)
        using f1(2,3) p1 True less.prems \<open>n < 4\<close> by (cases "n = 0") auto
    next
      case n4: True
      let ?h = "take 4 (fifo_list f)"
      have len1: "length (fifo_list f1) < length (fifo_list f)"
        using f1(4) n4 by (simp add: n_def del: length_fifo_list)
      have rd: "\<exists>ret data f2. hif_fifo_read f1 b (int ?M) = Some (ret, data, f2) \<and>
          fifo_wf f2 \<and> fifo_cap f2 = fifo_cap f \<and> push_idx f2 = push_idx f \<and>
          length (fifo_list f2) \<le> length (fifo_list f1) \<and> length data \<le> ?M" for b
      proof -
        define n2 where "n2 = min (nat (int ?M)) (length (fifo_list f1))"
        obtain f2 where f2: "hif_fifo_read f1 b (int ?M) =
            Some (int n2, if b then take n2 (fifo_list f1) else [], f2)"
            "fifo_wf f2" "fifo_cap f2 = fifo_cap f1" "fifo_list f2 = drop n2 (fifo_list f1)"
          using fifo_read_law [OF f1(2) _ n2_def, of b] by auto
        have "push_idx f2 = push_idx f1" using fifo_read_frame(1) [OF f1(2) _ f2(1)] by simp
        moreover have "length (fifo_list f2) \<le> length (fifo_list f1)" unfolding f2(4) by simp
        moreover have "length (if b then take n2 (fifo_list f1) else []) \<le> ?M"
          by (simp add: n2_def)
        ultimately show ?thesis using f2(1-3) f1(3) p1 by auto
      qed
      show ?thesis
      proof (cases "hdr_start ?h \<noteq> [0x48, 0x53] \<or> hdr_len ?h > ?M")
        case bad: True
        obtain ret dump f2 where f2: "hif_fifo_read f1 True (int ?M) = Some (ret, dump, f2)"
            "fifo_wf f2" "fifo_cap f2 = fifo_cap f" "push_idx f2 = push_idx f"
            "length (fifo_list f2) \<le> length (fifo_list f1)" using rd [of True] by blast
        let ?e = "[BadSlot ?h] @ (if ret \<noteq> int ?M then [BadSlotData ret] else []) @ [DelayMs 100, SystemReset]"
        have "hif_hspi_read_loop len i buf f seq evs = hif_hspi_read_loop len i buf f2 seq (evs @ ?e)"
          unfolding hif_hspi_read_loop.simps [of len i buf f seq evs] H f1(1) n4 option.case prod.case
            f2(1) using True bad by simp
        moreover have "length (fifo_list f2) < length (fifo_list f)" using f2(5) len1 by linarith
        from less.hyps [OF this f2(2) less.prems(2-4), of seq "evs @ ?e"]
        obtain r buf' f' seq' es where
          "hif_hspi_read_loop len i buf f2 seq (evs @ ?e) = Some (r, buf', f', seq', (evs @ ?e) @ es)"
          "i \<le> r" "r \<le> len" "length buf' = length buf" "fifo_wf f'" "fifo_cap f' = fifo_cap f2"
          "push_idx f' = push_idx f2"
          by blast
        ultimately show ?thesis using f2(3,4)
          by (intro exI [of _ r] exI [of _ buf'] exI [of _ f'] exI [of _ seq'] exI [of _ "?e @ es"]) auto
      next
        case good: False
        let ?seq1 = "next_seq (if hdr_seq ?h \<noteq> seq then hdr_seq ?h else seq)"
        let ?e = "if hdr_seq ?h \<noteq> seq \<and> hdr_seq ?h > 0 \<and> seq > 0 then [BadSeq seq (hdr_seq ?h)] else []"
        obtain ret data f2 where f2: "hif_fifo_read f1 (hdr_len ?h > 0) (int ?M) = Some (ret, data, f2)"
            "fifo_wf f2" "fifo_cap f2 = fifo_cap f" "push_idx f2 = push_idx f"
            "length (fifo_list f2) \<le> length (fifo_list f1)" "length data \<le> ?M"
          using rd [of "hdr_len ?h > 0"] by blast
        let ?b = "memcpy_at buf (nat i) data"
        have lb: "length ?b = length buf" using f2(6) True less.prems by (intro length_memcpy_at) linarith
        have step: "hif_hspi_read_loop len i buf f seq evs =
            (if ret \<noteq> int ?M then Some (i, ?b, f2, ?seq1, (evs @ ?e) @ [BadSlotData ret])
             else hif_hspi_read_loop len (i + int (hdr_len ?h)) ?b f2 ?seq1 (evs @ ?e))"
          unfolding hif_hspi_read_loop.simps [of len i buf f seq evs] H f1(1) n4 option.case prod.case
            f2(1) Let_def using True good by simp
        show ?thesis
        proof (cases "ret = int ?M")
          case False
          then show ?thesis unfolding step using f2 lb good less.prems by auto
        next
          case ok: True
          have l2: "length (fifo_list f2) < length (fifo_list f)" using f2(5) len1 by linarith
          have "\<exists>r buf' f' seq' es. hif_hspi_read_loop len (i + int (hdr_len ?h)) ?b f2 ?seq1 (evs @ ?e)
                = Some (r, buf', f', seq', (evs @ ?e) @ es) \<and>
              i + int (hdr_len ?h) \<le> r \<and> r \<le> len \<and> length buf' = length ?b \<and> fifo_wf f' \<and>
              fifo_cap f' = fifo_cap f2 \<and> push_idx f' = push_idx f2"
            using less.hyps [OF l2 f2(2), of ?b "i + int (hdr_len ?h)" ?seq1 "evs @ ?e"]
              less.prems lb True good by fastforce
          then obtain r buf' f' seq' es where
            "hif_hspi_read_loop len (i + int (hdr_len ?h)) ?b f2 ?seq1 (evs @ ?e)
                = Some (r, buf', f', seq', (evs @ ?e) @ es)"
              "i + int (hdr_len ?h) \<le> r" "r \<le> len" "length buf' = length ?b" "fifo_wf f'"
              "fifo_cap f' = fifo_cap f2" "push_idx f' = push_idx f2" by blast
          then show ?thesis unfolding step using ok lb good f2(3,4)
            by (intro exI [of _ r] exI [of _ buf'] exI [of _ f'] exI [of _ seq'] exI [of _ "?e @ es"]) auto
        qed
      qed
    qed
  qed
qed


lemma queue_update_total:
  "fifo_of idx d \<noteq> None \<Longrightarrow> \<exists>r d1 es. hif_hspi_queue_update idx a d = Some (r, d1) \<and>
     rx_fifo d1 = rx_fifo d \<and> tx_fifo d1 = tx_fifo d \<and> events d1 = events d @ es"
  by (cases idx) (auto simp: hif_hspi_queue_update_def fifo_of_def Let_def emit_def upd_que_reg_def)

lemma post_slots_total:
  "fifo_of idx d \<noteq> None \<Longrightarrow>
   \<exists>d' es. hspi_post_slots idx addr k n d = Some d' \<and> rx_fifo d' = rx_fifo d \<and>
     tx_fifo d' = tx_fifo d \<and> events d' = events d @ es"
proof (induction n arbitrary: k d)
  case (Suc n)
  obtain r d1 es where d1: "hif_hspi_queue_update idx (addr k) d = Some (r, d1)"
      "rx_fifo d1 = rx_fifo d" "tx_fifo d1 = tx_fifo d" "events d1 = events d @ es"
    using queue_update_total [OF Suc.prems] by blast
  have "fifo_of idx d1 \<noteq> None" using Suc.prems d1 by (cases idx) (simp_all add: fifo_of_def)
  from Suc.IH [OF this, of "Suc k"] d1 show ?case by auto
qed simp

text \<open>
  A read with a receive FIFO always returns, with a count within the region, and only adds to the
  reports; if the first slot committed is not a slot, a system reset is among them.
\<close>

lemma hspi_read_total:
  assumes f: "rx_fifo d = Some f" and wf: "fifo_wf f" and ne: "buf \<noteq> []"
  shows "\<exists>ret buf' d' es. hif_hspi_read buf d = Some (ret, buf', d') \<and> 0 \<le> ret \<and>
    ret \<le> int (length buf) \<and> length buf' = length buf \<and> events d' = events d @ es \<and>
    (\<exists>f'. rx_fifo d' = Some f' \<and> fifo_wf f') \<and> tx_fifo d' = tx_fifo d \<and>
    (HSPI_SLOT_DATA_LEN_MAX \<le> length buf \<and> fifo_list f = [] \<and> 0 < rx_done d \<and> 4 \<le> fifo_cap f \<and>
       take 2 (fifo_ahead f 4) \<noteq> [0x48, 0x53] \<longrightarrow> SystemReset \<in> set es)"
proof -
  define dn where "dn = rxq_total_cnt d - int (hif_hspi_queue_count HSPI_RXQ d)"
  define t1 where "t1 = (if dn > 0 then rxq_total_cnt d - dn else rxq_total_cnt d)"
  obtain f1 where f1: "(if dn > 0 then map_option snd (hif_fifo_write f None (dn * int HSPI_SLOT_SIZE))
      else Some f) = Some f1" "fifo_wf f1" "dn > 0 \<Longrightarrow> fifo_list f1 = fifo_list f @
        fifo_ahead f (min (nat (dn * int HSPI_SLOT_SIZE)) (fifo_cap f - length (fifo_list f)))"
  proof (cases "dn > 0")
    case True
    then have "0 \<le> dn * int HSPI_SLOT_SIZE" by simp
    from fifo_write_none_exact [OF wf this refl] obtain f1 where
      "hif_fifo_write f None (dn * int HSPI_SLOT_SIZE) = Some (int (min (nat (dn * int HSPI_SLOT_SIZE))
        (fifo_cap f - length (fifo_list f))), f1)" "fifo_wf f1"
      "fifo_list f1 = fifo_list f @
        fifo_ahead f (min (nat (dn * int HSPI_SLOT_SIZE)) (fifo_cap f - length (fifo_list f)))"
      by blast
    with that [of f1] True show thesis by simp
  next
    case False
    with that [of f] wf show thesis by simp
  qed
  have "(0 :: int) \<le> 0" "0 \<le> int (length buf)" by simp_all
  from hspi_read_loop_total [OF f1(2) refl this, of "rx_seq d" "[]", unfolded append_Nil diff_0_right]
  obtain r buf' f2 seq' es where
    f2: "hif_hspi_read_loop (int (length buf)) 0 buf f1 (rx_seq d) [] = Some (r, buf', f2, seq', es)"
      "0 \<le> r" "r \<le> int (length buf)" "length buf' = length buf" "fifo_wf f2"
      "4 \<le> length (fifo_list f1) \<and> int HSPI_SLOT_DATA_LEN_MAX \<le> int (length buf) \<and>
        hdr_start (take 4 (fifo_list f1)) \<noteq> [0x48, 0x53] \<longrightarrow> SystemReset \<in> set es"
    by blast
  obtain free where free: "hif_fifo_free_size f2 = Some free"
    using f2(5) by (auto simp: hif_fifo_free_size_def fifo_wf_def)
  define u where "u = (let upd0 = int (unat free div HSPI_SLOT_SIZE) - t1
    in if HSPI_SLOT_NUM > HSPI_SLOT_CNT_MAX then upd0 - int (HSPI_SLOT_NUM - HSPI_SLOT_CNT_MAX) else upd0)"
  let ?d1 = "d\<lparr>rx_fifo := Some f2, rx_seq := seq', events := events d @ es\<rparr>"
  have "fifo_of HSPI_RXQ ?d1 \<noteq> None" by (simp add: fifo_of_def)
  from post_slots_total [OF this, of "\<lambda>i. rx_base d + of_nat (hif_fifo_push_addr f2
      ((t1 + int i) * int HSPI_SLOT_SIZE))" 0 "nat u"] obtain d2 es2 where
    d2: "hspi_post_slots HSPI_RXQ (\<lambda>i. rx_base d + of_nat (hif_fifo_push_addr f2
      ((t1 + int i) * int HSPI_SLOT_SIZE))) 0 (nat u) ?d1 = Some d2" "events d2 = events d @ es @ es2"
      "rx_fifo d2 = Some f2" "tx_fifo d2 = tx_fifo d"
    by auto
  have "hif_hspi_read buf d = Some (r, buf', d2\<lparr>rxq_total_cnt := t1 + u\<rparr>)"
    unfolding hif_hspi_read_def Let_def dn_def [symmetric] f option.case t1_def [symmetric] f1(1) f2(1)
      prod.case free u_def [unfolded Let_def, symmetric] d2(1) using ne by simp
  moreover have "SystemReset \<in> set es"
    if h: "HSPI_SLOT_DATA_LEN_MAX \<le> length buf" "fifo_list f = []" "0 < rx_done d" "4 \<le> fifo_cap f"
      "take 2 (fifo_ahead f 4) \<noteq> [0x48, 0x53]"
  proof -
    have dn: "dn = int (rx_done d)" "0 < dn" using h(3) by (auto simp: rx_done_def dn_def)
    define m where "m = min (nat (dn * int HSPI_SLOT_SIZE)) (fifo_cap f - length (fifo_list f))"
    have "4 \<le> m" using h dn unfolding m_def by (simp add: hspi_consts)
    moreover have l1: "fifo_list f1 = fifo_ahead f m" using f1(3) [OF dn(2)] h(2) by (simp add: m_def)
    ultimately have "take 4 (fifo_list f1) = fifo_ahead f 4" "4 \<le> length (fifo_list f1)"
      unfolding l1 by (simp_all add: fifo_ahead_def ring_def take_map min_def)
    then show ?thesis using f2(6) h(1,5) by (simp add: hdr_start_def)
  qed
  ultimately show ?thesis using f2(2-5) d2(2-4)
    by (intro exI [of _ r] exI [of _ buf'] exI [of _ "d2\<lparr>rxq_total_cnt := t1 + u\<rparr>"]
        exI [of _ "es @ es2"]) auto
qed

end
