(* ===== verification/HifInfo.thy ===== *)
theory HifInfo
  imports Prelude
begin

text \<open>
  The types of \<open>sdk/apps/atcmd/hif.h\<close> the drivers share, with the enumerations of
  \<open>hal_uart.h\<close> they use.  The members of the union in \<open>_hif_info_t\<close> are separate fields.
\<close>

subsection \<open>UART settings\<close>

datatype uart_data_bit = UART_DB5 | UART_DB6 | UART_DB7 | UART_DB8
datatype uart_stop_bit = UART_SB1 | UART_SB2
datatype uart_parity_bit = UART_PB_NONE | UART_PB_ODD | UART_PB_EVEN
datatype uart_hfc = UART_HFC_DISABLE | UART_HFC_CTS_ENABLE | UART_HFC_RTS_ENABLE | UART_HFC_ENABLE

text \<open>The flow control modes are flags, bit 0 for CTS and bit 1 for RTS.\<close>

definition hfc_flags :: "uart_hfc \<Rightarrow> u32" where
  "hfc_flags h = (case h of UART_HFC_DISABLE \<Rightarrow> 0 | UART_HFC_CTS_ENABLE \<Rightarrow> 1
     | UART_HFC_RTS_ENABLE \<Rightarrow> 2 | UART_HFC_ENABLE \<Rightarrow> 1 OR 2)"

record hif_uart =
  channel :: int
  baudrate :: int
  data_bits :: uart_data_bit
  stop_bits :: uart_stop_bit
  parity :: uart_parity_bit
  hfc :: uart_hfc
  hfc_rx_irq :: bool

subsection \<open>Interface types and parameters\<close>

datatype hif_type = HIF_TYPE_NONE | HIF_TYPE_HSPI | HIF_TYPE_UART | HIF_TYPE_UART_HFC

text \<open>The receive task's parameters: is there a buffer, its size, is there a callback.\<close>

record rx_params =
  rp_addr :: bool
  rp_size :: nat
  rp_cb :: bool

record hif_info =
  i_type :: hif_type
  i_uart :: hif_uart
  i_sw_id :: u32
  i_bd_id :: u32
  rx_fifo_addr :: "u8 list option"
  rx_fifo_size :: int
  tx_fifo_addr :: "u8 list option"
  tx_fifo_size :: int
  i_rx_params :: rx_params

text \<open>What the allocator gives for one FIFO: the record, the buffer and the buffer's address.\<close>

record alloc_env =
  a_fifo :: bool
  a_buf :: "u8 list option"
  a_addr :: u32

end
