(* ===== verification/HifHspiCtl.thy ===== *)
theory HifHspiCtl
  imports HifHspi HifInfo
begin

text \<open>
  The control side of \<open>hif_hspi.c\<close>: creating and deleting the FIFOs, advertising the slot
  geometry to the host, opening, closing and putting the link to sleep.  The pin multiplexing of
  \<open>_hif_hspi_pin_enable\<close> and \<open>_hif_hspi_pin_disable\<close> only programs GPIO registers through
  the SDK's binary library and is left out.
\<close>

subsection \<open>Opening and closing\<close>

definition hif_hspi_fifo_delete :: "hspi_dev \<Rightarrow> hspi_dev" where
  "hif_hspi_fifo_delete d = d\<lparr>rx_fifo := None, tx_fifo := None\<rparr>"

definition hif_hspi_fifo_create ::
  "hif_info \<Rightarrow> alloc_env \<Rightarrow> alloc_env \<Rightarrow> hspi_dev \<Rightarrow> int \<times> hspi_dev" where
  "hif_hspi_fifo_create info rxe txe d =
    (let d1 = (if rx_fifo_size info > 0
               then d\<lparr>rx_fifo := hif_fifo_create (rx_fifo_addr info) (rx_fifo_size info)
                        (a_fifo rxe) (a_buf rxe), rx_base := a_addr rxe\<rparr>
               else d);
         d2 = (if tx_fifo_size info > 0
               then d1\<lparr>tx_fifo := hif_fifo_create (tx_fifo_addr info) (tx_fifo_size info)
                        (a_fifo txe) (a_buf txe), tx_base := a_addr txe\<rparr>
               else d1)
     in if rx_fifo d2 = None \<or> tx_fifo d2 = None then (-1, hif_hspi_fifo_delete d2) else (0, d2))"

text \<open>
  The four message words: the identification \<open>"NRC-HSPI"\<close> in two little-endian words, then size
  and number of the slots of each queue as the low and high halfword.
\<close>

definition slot_info_word :: "nat \<Rightarrow> nat \<Rightarrow> u32" where
  "slot_info_word sz num = of_nat (sz mod 65536 + 65536 * (num mod 65536))"

definition hspi_slot_msg :: "u32 list" where
  "hspi_slot_msg = [0x2D43524E, 0x49505348,
     slot_info_word HSPI_SLOT_SIZE HSPI_SLOT_NUM, slot_info_word HSPI_SLOT_SIZE HSPI_SLOT_NUM]"

definition hif_hspi_slot_setup :: "hspi_dev \<Rightarrow> int \<times> hspi_dev" where
  "hif_hspi_slot_setup d =
    (0, fold (\<lambda>i. hif_hspi_set_message i (hspi_slot_msg ! i)) [0..<4] d)"

definition hspi_open_queue :: "hspi_queue_index \<Rightarrow> bool \<Rightarrow> hspi_dev \<Rightarrow> hspi_dev" where
  "hspi_open_queue idx irq d =
    (let d1 = hif_hspi_queue_reset idx d;
         d2 = hif_hspi_queue_setup idx HSPI_SLOT_SIZE irq d1;
         d3 = hif_hspi_queue_enable idx 0 0 0 d2
     in if irq then emit (IrqUnmask idx) (emit (RegisterIsr idx True)
                      (hif_hspi_queue_enable_irq idx 0 1 d3))
        else d3)"

definition hif_hspi_open ::
  "hif_info option \<Rightarrow> alloc_env \<Rightarrow> alloc_env \<Rightarrow> hspi_dev \<Rightarrow> int \<times> hspi_dev" where
  "hif_hspi_open info rxe txe d = (case info of None \<Rightarrow> (-1, d) | Some nfo \<Rightarrow>
    (if i_type nfo \<noteq> HIF_TYPE_HSPI then (-1, d)
     else (case hif_hspi_fifo_create nfo rxe txe d of (r, d1) \<Rightarrow>
       if r \<noteq> 0 then (-1, d1)
       else
         (let d2 = hif_hspi_set_sw_id (i_sw_id nfo) d1;
              d3 = hif_hspi_set_board_id (i_bd_id nfo) d2
          in (case hif_hspi_slot_setup d3 of (r, d4) \<Rightarrow>
               if r \<noteq> 0 then (-1, d4)
               else (0, hspi_open_queue HSPI_RXQ True (hspi_open_queue HSPI_TXQ False d4)))))))"

definition hspi_close_queue :: "hspi_queue_index \<Rightarrow> hspi_dev \<Rightarrow> hspi_dev" where
  "hspi_close_queue idx d =
    emit (RegisterIsr idx False) (hif_hspi_queue_setup idx 0 False (hif_hspi_queue_disable idx
      (hif_hspi_queue_disable_irq idx (hif_hspi_queue_clear_irq idx d))))"

definition hif_hspi_close :: "hspi_dev \<Rightarrow> hspi_dev" where
  "hif_hspi_close d =
    hif_hspi_fifo_delete (hspi_close_queue HSPI_RXQ (hspi_close_queue HSPI_TXQ d))"

subsection \<open>Entering sleep\<close>

text \<open>
  The polling loop waits a millisecond between polls; \<open>polls t\<close> is the pair of queue counts the
  hardware shows at poll \<open>t\<close>.  With \<open>timeout = 0\<close> it waits for the queues for ever.  The result
  is the number of polls without success and the last counts.
\<close>

partial_function (option) hspi_sleep_loop ::
  "(nat \<Rightarrow> nat \<times> nat) \<Rightarrow> bool \<Rightarrow> bool \<Rightarrow> nat \<Rightarrow> nat \<Rightarrow> nat \<times> nat \<Rightarrow> (nat \<times> nat \<times> nat) option"
where
  "hspi_sleep_loop polls check_txq check_rxq timeout t prev =
    (if timeout = 0 \<or> t < timeout then
       (let txq = (if check_txq then fst (polls t) else 0);
            rxq = (if check_rxq then snd (polls t) else 0)
        in if txq = 0 \<and> rxq = 0 then Some (t, txq, rxq)
           else hspi_sleep_loop polls check_txq check_rxq timeout (Suc t) (txq, rxq))
     else Some (t, prev))"

definition hif_hspi_enter_sleep ::
  "(nat \<Rightarrow> nat \<times> nat) \<Rightarrow> bool \<Rightarrow> bool \<Rightarrow> nat \<Rightarrow> hspi_dev \<Rightarrow> hspi_dev option" where
  "hif_hspi_enter_sleep polls check_txq check_rxq timeout d =
    map_option (\<lambda>d. emit (DelayMs 10) (hif_hspi_sleep d))
      (if check_txq \<or> check_rxq then
         map_option (\<lambda>(t, txq, rxq).
             if (txq > 0 \<or> rxq > 0) \<and> t = timeout then emit (SleepTimeout txq rxq) d else d)
           (hspi_sleep_loop polls check_txq check_rxq timeout 0
              (hif_hspi_queue_count HSPI_TXQ d, hif_hspi_queue_count HSPI_RXQ d))
       else Some d)"

subsection \<open>Facts about opening\<close>

lemma fold_upt4: "fold g [0..<4] d = g 3 (g 2 (g 1 (g (0::nat) d)))"
  by (simp add: upt_rec numeral_2_eq_2 numeral_3_eq_3)

lemma hspi_open_ok:
  assumes "i_type nfo = HIF_TYPE_HSPI" and "rx_fifo_size nfo = int HSPI_FIFO_SIZE"
    and "tx_fifo_size nfo = int HSPI_FIFO_SIZE"
    and "rx_fifo_addr nfo = None" and "tx_fifo_addr nfo = None"
    and "a_fifo rxe" and "a_fifo txe"
    and "a_buf rxe = Some rxm" and "length rxm = HSPI_FIFO_SIZE"
    and "a_buf txe = Some txm" and "length txm = HSPI_FIFO_SIZE"
    and "length (device_message (sys_reg d)) = 4"
  shows "\<exists>d' rf tf. hif_hspi_open (Some nfo) rxe txe d = (0, d') \<and>
    rx_fifo d' = Some rf \<and> tx_fifo d' = Some tf \<and>
    fifo_wf rf \<and> fifo_list rf = [] \<and> fifo_cap rf = HSPI_FIFO_SIZE \<and> push_idx rf = 0 \<and>
    buffer rf = rxm \<and>
    fifo_wf tf \<and> fifo_list tf = [] \<and> fifo_cap tf = HSPI_FIFO_SIZE \<and> pop_idx tf = 0 \<and>
    rx_base d' = a_addr rxe \<and> tx_base d' = a_addr txe \<and>
    device_message (sys_reg d') = hspi_slot_msg \<and>
    q_enable (rxq_reg d') \<and> q_enable (txq_reg d') \<and> irq_enable (rxq_reg d') \<and>
    rx_seq d' = rx_seq d \<and> tx_seq d' = tx_seq d \<and> rxq_total_cnt d' = rxq_total_cnt d \<and>
    txq_total_cnt d' = txq_total_cnt d \<and>
    hif_hspi_queue_count HSPI_RXQ d' = hif_hspi_queue_count HSPI_RXQ d"
proof -
  have mk: "\<exists>f. hif_fifo_create None (int HSPI_FIFO_SIZE) True (Some mem) = Some f \<and>
      fifo_wf f \<and> fifo_list f = [] \<and> fifo_cap f = HSPI_FIFO_SIZE \<and> push_idx f = 0 \<and>
      pop_idx f = 0 \<and> buffer f = mem"
    if m: "length mem = HSPI_FIFO_SIZE" for mem :: "u8 list"
  proof -
    obtain f where f: "hif_fifo_create None (int HSPI_FIFO_SIZE) True (Some mem) = Some f"
        "push_idx f = 0" "pop_idx f = 0" "buffer f = mem"
      using m by (simp add: hif_fifo_create_def hspi_consts)
    have "fifo_wf f \<and> fifo_list f = [] \<and> fifo_cap f = nat (int HSPI_FIFO_SIZE)"
      by (intro conjI fifo_wf_create [OF f(1)]) (use m in \<open>auto simp: hspi_consts\<close>)
    with f show ?thesis by simp
  qed
  obtain rf where rf: "hif_fifo_create None (int HSPI_FIFO_SIZE) True (Some rxm) = Some rf"
      "fifo_wf rf" "fifo_list rf = []" "fifo_cap rf = HSPI_FIFO_SIZE" "push_idx rf = 0" "buffer rf = rxm"
    using mk [OF assms(9)] by blast
  obtain tf where tf: "hif_fifo_create None (int HSPI_FIFO_SIZE) True (Some txm) = Some tf"
      "fifo_wf tf" "fifo_list tf = []" "fifo_cap tf = HSPI_FIFO_SIZE" "pop_idx tf = 0"
    using mk [OF assms(11)] by blast
  have pos: "0 < int HSPI_FIFO_SIZE" by (simp add: hspi_consts)
  obtain a b c e where msg: "device_message (sys_reg d) = [a, b, c, e]"
    using assms(12) by (auto simp: length_Suc_conv numeral_eq_Suc)
  let ?d' = "snd (hif_hspi_open (Some nfo) rxe txe d)"
  show ?thesis
    by (intro exI [of _ ?d'] exI [of _ rf] exI [of _ tf])
      (use assms rf tf pos msg in \<open>simp add: hif_hspi_open_def hif_hspi_fifo_create_def
        hif_hspi_slot_setup_def fold_upt4 hif_hspi_set_message_def hif_hspi_set_sw_id_def
        hif_hspi_set_board_id_def hspi_open_queue_def hif_hspi_queue_reset_def
        hif_hspi_queue_setup_def hif_hspi_queue_enable_def hif_hspi_queue_enable_irq_def
        upd_que_reg_def emit_def Let_def hif_hspi_queue_count_def que_reg_def hspi_slot_msg_def
        numeral_2_eq_2 numeral_3_eq_3\<close>)
qed


subsection \<open>The sleep loop\<close>

text \<open>The counts a poll looks at, and a poll that finds the checked queues drained.\<close>

definition drained :: "(nat \<Rightarrow> nat \<times> nat) \<Rightarrow> bool \<Rightarrow> bool \<Rightarrow> nat \<Rightarrow> bool" where
  "drained polls ctx crx t \<longleftrightarrow> (ctx \<longrightarrow> fst (polls t) = 0) \<and> (crx \<longrightarrow> snd (polls t) = 0)"

lemma sleep_loop_stop:
  "timeout = 0 \<or> t < timeout \<Longrightarrow> drained polls ctx crx t \<Longrightarrow>
   hspi_sleep_loop polls ctx crx timeout t prev = Some (t, 0, 0)"
  by (subst hspi_sleep_loop.simps) (auto simp: drained_def Let_def)

lemma sleep_loop_step:
  "timeout = 0 \<or> t < timeout \<Longrightarrow> \<not> drained polls ctx crx t \<Longrightarrow>
   hspi_sleep_loop polls ctx crx timeout t prev =
     hspi_sleep_loop polls ctx crx timeout (Suc t)
       (if ctx then fst (polls t) else 0, if crx then snd (polls t) else 0)"
  by (subst hspi_sleep_loop.simps) (auto simp: drained_def Let_def)

lemma sleep_loop_drained:
  assumes "drained polls ctx crx t'" and "t \<le> t'" and "timeout = 0 \<or> t' < timeout"
    and "\<And>u. t \<le> u \<Longrightarrow> u < t' \<Longrightarrow> \<not> drained polls ctx crx u"
  shows "hspi_sleep_loop polls ctx crx timeout t prev = Some (t', 0, 0)"
  using assms
proof (induction "t' - t" arbitrary: t prev)
  case 0
  then have "t = t'" by simp
  with 0 show ?case using sleep_loop_stop [of timeout t' polls ctx crx prev] by simp
next
  case (Suc n)
  then have "t < t'" by simp
  then have "hspi_sleep_loop polls ctx crx timeout t prev = hspi_sleep_loop polls ctx crx timeout (Suc t)
       (if ctx then fst (polls t) else 0, if crx then snd (polls t) else 0)"
    using Suc.prems by (intro sleep_loop_step) auto
  also have "\<dots> = Some (t', 0, 0)" using Suc \<open>t < t'\<close> by (intro Suc.hyps(1)) auto
  finally show ?case .
qed

lemma sleep_loop_timeout:
  assumes "0 < timeout" and "t \<le> timeout" and "\<And>u. t \<le> u \<Longrightarrow> u < timeout \<Longrightarrow> \<not> drained polls ctx crx u"
    and "t < timeout \<or> 0 < fst prev \<or> 0 < snd prev"
  shows "\<exists>x y. hspi_sleep_loop polls ctx crx timeout t prev = Some (timeout, x, y) \<and> (0 < x \<or> 0 < y)"
  using assms
proof (induction "timeout - t" arbitrary: t prev)
  case 0
  then show ?case by (subst hspi_sleep_loop.simps) (cases prev, auto)
next
  case (Suc n)
  then have t: "t < timeout" by simp
  let ?p = "(if ctx then fst (polls t) else 0, if crx then snd (polls t) else 0)"
  have nd: "\<not> drained polls ctx crx t" using Suc.prems(3) t by simp
  then have "0 < fst ?p \<or> 0 < snd ?p" by (auto simp: drained_def)
  then have "\<exists>x y. hspi_sleep_loop polls ctx crx timeout (Suc t) ?p = Some (timeout, x, y) \<and> (0 < x \<or> 0 < y)"
    using Suc t by (intro Suc.hyps(1)) auto
  then show ?case using sleep_loop_step [OF _ nd] t by simp
qed

lemma sleep_loop_result:
  assumes ret: "hspi_sleep_loop polls ctx crx 0 t prev = Some r"
  shows "\<exists>t' \<ge> t. drained polls ctx crx t'"
proof (rule hspi_sleep_loop.raw_induct [where P = "\<lambda>p a b tm t l r. tm = 0 \<longrightarrow> (\<exists>t' \<ge> t. drained p a b t')",
      OF _ ret, THEN mp, OF _ refl])
  fix loop p a b tm t l r
  assume IH: "\<And>p a b tm t l r. loop p a b tm t l = Some r \<Longrightarrow> tm = 0 \<longrightarrow> (\<exists>t' \<ge> t. drained p a b t')"
    and eq: "(if tm = 0 \<or> t < tm then
       let txq = if a then fst (p t) else 0; rxq = if b then snd (p t) else 0
       in if txq = 0 \<and> rxq = 0 then Some (t, txq, rxq) else loop p a b tm (Suc t) (txq, rxq)
     else Some (t, l)) = Some (r :: nat \<times> nat \<times> nat)"
  show "tm = 0 \<longrightarrow> (\<exists>t' \<ge> t. drained p a b t')"
  proof
    assume tm: "tm = 0"
    show "\<exists>t' \<ge> t. drained p a b t'"
    proof (cases "drained p a b t")
      case False
      then have "loop p a b tm (Suc t) (if a then fst (p t) else 0, if b then snd (p t) else 0) = Some r"
        using eq tm by (auto simp: drained_def Let_def split: if_splits)
      from IH [OF this] tm show ?thesis by (meson Suc_leD)
    qed auto
  qed
qed


text \<open>The least drained poll, when there is one.\<close>

lemma sleep_loop_total:
  assumes "0 < timeout \<or> (\<exists>t. drained polls ctx crx t)"
  shows "\<exists>t x y. hspi_sleep_loop polls ctx crx timeout 0 prev = Some (t, x, y) \<and>
    (0 < timeout \<longrightarrow> t \<le> timeout) \<and> (x = 0 \<and> y = 0 \<and> drained polls ctx crx t \<or>
      t = timeout \<and> (0 < x \<or> 0 < y) \<and> (\<forall>u < timeout. \<not> drained polls ctx crx u))"
proof (cases "\<exists>t. drained polls ctx crx t \<and> (timeout = 0 \<or> t < timeout)")
  case True
  define t where "t = (LEAST t. drained polls ctx crx t)"
  have t: "drained polls ctx crx t" "\<And>u. u < t \<Longrightarrow> \<not> drained polls ctx crx u"
    using True unfolding t_def by (auto intro: LeastI dest: not_less_Least)
  have "timeout = 0 \<or> t < timeout"
    using True t(2) by (metis linorder_neqE_nat order.strict_trans)
  then show ?thesis using sleep_loop_drained [OF t(1) _ _ t(2), of 0 timeout prev] t(1) by auto
next
  case False
  then have "0 < timeout" using assms by auto
  then show ?thesis using sleep_loop_timeout [of timeout 0 polls ctx crx prev] False by auto
qed

end
