(* ===== verification/HspiLink.thy ===== *)
theory HspiLink
  imports HostHspi HifHspiCtl
begin

text \<open>
  The two ends of the host SPI link together: the slot format, the slot geometry the target
  advertises, and messages carried from one end to the other.
\<close>

subsection \<open>Both sides agree on the slot header\<close>

lemma unat_of_le16:
  "unat (of_le16 b) = unat (b ! 0) + 256 * unat (b ! 1)"
proof -
  have "(ucast (b ! 0) :: u16) OR push_bit 8 (ucast (b ! 1)) = ucast (b ! 0) + push_bit 8 (ucast (b ! 1))"
    by (rule disjunctive_add [symmetric]) (auto simp: bit_simps dest: bit_imp_le_length)
  then have "of_le16 b = ucast (b ! 0) + push_bit 8 (ucast (b ! 1))" by (simp add: of_le16_def)
  also have "\<dots> = of_nat (unat (b ! 0) + 256 * unat (b ! 1))"
    by (simp add: push_bit_eq_mult)
  finally have e: "of_le16 b = of_nat (unat (b ! 0) + 256 * unat (b ! 1))" .
  have "unat (b ! 0) < 256" "unat (b ! 1) < 256"
    using unsigned_less [of "b ! 0"] unsigned_less [of "b ! 1"] by simp_all
  then have "unat (b ! 0) + 256 * unat (b ! 1) < 2 ^ 16" by simp
  then show ?thesis unfolding e unat_of_nat by simp
qed

lemma slot_fields:
  assumes "4 \<le> length b"
  shows "slot_start b = hdr_start b" and "slot_len b = hdr_len b" and "slot_seq b = hdr_seq b"
proof -
  have h: "unat (of_le16 (drop 2 b)) = hdr_half b"
    using assms by (simp add: unat_of_le16 hdr_half_def)
  have "unat (of_le16 (drop 2 b)) < 65536" using unsigned_less [of "of_le16 (drop 2 b)"] by simp
  then have lt: "hdr_half b < 65536" by (simp only: h)
  have m: "(w :: u16) AND 0x3FF = take_bit 10 w" for w by (simp add: take_bit_eq_mask mask_eq_exp_minus_1)
  show "slot_len b = hdr_len b"
    by (simp only: slot_len_def m unsigned_take_bit_eq h hdr_len_def) (simp add: take_bit_eq_mod)
  show "slot_seq b = hdr_seq b"
    by (simp only: slot_seq_def hdr_seq_def unsigned_drop_bit_eq h) (use lt in \<open>simp add: drop_bit_eq_div take_bit_eq_mod\<close>)
qed (simp add: slot_start_def hdr_start_def)

lemma slot_hdr_eq: "slot_hdr l s = hspi_hdr l s"
proof -
  define v where "v = l mod 1024 + 1024 * (s mod 64)"
  have m: "(w :: u16) AND 0x3FF = take_bit 10 w" "(w :: u16) AND 0x3F = take_bit 6 w" for w
    by (simp_all add: take_bit_eq_mask mask_eq_exp_minus_1)
  have "take_bit 10 (of_nat l :: u16) OR push_bit 10 (take_bit 6 (of_nat s)) =
      take_bit 10 (of_nat l) + push_bit 10 (take_bit 6 (of_nat s))"
    by (rule disjunctive_add [symmetric]) (auto simp: bit_simps dest: bit_imp_le_length)
  also have "\<dots> = of_nat v"
    unfolding take_bit_of_nat take_bit_eq_mod [where 'a = nat] by (simp add: v_def push_bit_eq_mult)
  finally have w: "(of_nat l AND 0x3FF) OR push_bit 10 (of_nat s AND 0x3F) = (of_nat v :: u16)"
    by (simp only: m)
  have v: "v < 65536"
  proof -
    have "l mod 1024 < 1024" "s mod 64 < 64" by simp_all
    then show ?thesis unfolding v_def by linarith
  qed
  have "unat (of_nat (v div 256) :: u8) = v div 256" "unat (of_nat (v mod 256) :: u8) = v mod 256"
    using v by (simp_all add: unat_of_nat take_bit_nat_eq_self less_mult_imp_div_less)
  then have "unat (of_le16 [of_nat (v mod 256), of_nat (v div 256)]) = v"
    by (simp add: unat_of_le16)
  then have "of_le16 [of_nat (v mod 256), of_nat (v div 256)] = of_nat v"
    using v by (simp add: word_unat_eq_iff unat_of_nat take_bit_nat_eq_self)
  then have "le16 (of_nat v) = [of_nat (v mod 256), of_nat (v div 256)]"
    using le16_of_le16 by metis
  then show ?thesis unfolding slot_hdr_def w by (simp add: hspi_hdr_def Let_def flip: v_def)
qed

subsection \<open>Transfers\<close>

text \<open>One unacknowledged attempt: the command, another answer than the acknowledgement, a dummy.\<close>

definition nack_round :: "'s spi \<Rightarrow> u32 \<Rightarrow> u8 list \<Rightarrow> 's \<Rightarrow> 's \<Rightarrow> bool" where
  "nack_round spi opcode rsv s s' \<longleftrightarrow> (\<exists>resp s1. spi (Some (cmd_bytes opcode rsv)) True 8 s = (0, resp, s1) \<and>
     resp ! 7 \<noteq> 0x47 \<and> s' = snd (hspi_transfer_dummy spi s1))"

lemma retry_nack:
  "nack_round spi opcode rsv s s' \<Longrightarrow>
   hspi_retry spi opcode rsv buf len (Suc n) s = hspi_retry spi opcode rsv buf len n s'"
  by (auto simp: nack_round_def)

lemma retry_nacks:
  "(nack_round spi opcode rsv ^^ k) s s' \<Longrightarrow> 
   hspi_retry spi opcode rsv buf len (n + k) s = hspi_retry spi opcode rsv buf len n s'"
proof (induction k arbitrary: s)
  case (Suc k)
  then obtain s1 where s1: "nack_round spi opcode rsv s s1" "(nack_round spi opcode rsv ^^ k) s1 s'"
    by (metis relpowp_Suc_D2)
  show ?case using retry_nack [OF s1(1), of buf len "n + k"] Suc.IH [OF s1(2)] by simp
qed simp

lemma transfer_acked:
  assumes "active info" and "spi (Some (cmd_bytes opcode rsv)) True 8 s = (0, resp, s1)"
    and "resp ! 7 = 0x47" and "op_burst opcode"
  shows "hspi_transfer spi rsv info opcode buf len s =
    (case run_xfers spi (burst_xfers opcode buf len) [] s1 of
       (ret, got, s2) \<Rightarrow> ((if ret \<noteq> 0 then -1 else 0), got, s2))"
proof -
  have five: "(5 :: nat) = Suc 4" by simp
  show ?thesis unfolding hspi_transfer_def five hspi_retry.simps using assms
    by (auto split: prod.splits)
qed

subsection \<open>Slots from the host to the target\<close>

text \<open>
  A bus that carries every slot the host writes: \<open>sent\<close> reads off the slot bytes that went out.
\<close>

definition slot_sink :: "'s spi \<Rightarrow> u8 list \<Rightarrow> hspi_info \<Rightarrow> ('s \<Rightarrow> u8 list) \<Rightarrow> bool" where
  "slot_sink spi rsv info sent \<longleftrightarrow> (\<forall>slot s. length slot = HSPI_SLOT_SIZE \<longrightarrow>
     (\<exists>s'. hspi_transfer spi rsv info (opcode_write_data HSPI_REG_RXQ_WINDOW HSPI_SLOT_SIZE) slot
        HSPI_SLOT_SIZE s = (0, [], s') \<and> sent s' = sent s @ slot))"

definition zero_padded :: "u8 list list \<Rightarrow> (u8 list \<times> u8 list) list" where
  "zero_padded cs = map (\<lambda>c. (c, replicate (HSPI_SLOT_DATA_LEN_MAX - length c) 0)) cs"

lemma host_write_slots:
  assumes sink: "slot_sink spi rsv info sent" and "j \<le> len" and "len \<le> length buf"
    and "n = length (hspi_chunks (take (len - j) (drop j buf)))" and "seq \<le> 63"
  shows "\<exists>s'. hspi_write_slot spi rsv info HSPI_SLOT_SIZE buf len n i j HSPI_SLOT_DATA_LEN_MAX seq s =
      (i + n, len, seq_after n seq, s') \<and>
    sent s' = sent s @ hspi_stream seq (zero_padded (hspi_chunks (take (len - j) (drop j buf))))"
  using assms(2-)
proof (induction n arbitrary: i j seq s)
  case 0
  then show ?case by (auto simp: zero_padded_def)
next
  case (Suc n)
  let ?d = "take (len - j) (drop j buf)"
  define c where "c = take (min (len - j) HSPI_SLOT_DATA_LEN_MAX) (drop j buf)"
  have jl: "j < len" using Suc.prems by (cases "j = len") auto
  have ch: "hspi_chunks ?d = c # hspi_chunks (take (len - (j + length c)) (drop (j + length c) buf))"
    using drop_chunk [OF jl Suc.prems(2)] by (simp add: c_def)
  have lc: "length c = min (len - j) HSPI_SLOT_DATA_LEN_MAX" using Suc.prems by (simp add: c_def)
  have hl: "(if len - j < HSPI_SLOT_DATA_LEN_MAX then len - j else HSPI_SLOT_DATA_LEN_MAX) = length c"
    using lc by simp
  have tk: "take (length c) (drop j buf) = c" using lc by (simp add: c_def)
  let ?pad = "replicate (HSPI_SLOT_DATA_LEN_MAX - length c) 0"
  let ?slot = "hspi_hdr (length c) seq @ c @ ?pad"
  have "length ?slot = HSPI_SLOT_SIZE" using lc by (simp add: hspi_consts)
  then obtain s1 where s1: "hspi_transfer spi rsv info
      (opcode_write_data HSPI_REG_RXQ_WINDOW HSPI_SLOT_SIZE) ?slot HSPI_SLOT_SIZE s = (0, [], s1)"
      "sent s1 = sent s @ ?slot"
    using sink by (metis slot_sink_def)
  have p: "HSPI_SLOT_SIZE - 4 - length c = HSPI_SLOT_DATA_LEN_MAX - length c" by (simp add: hspi_consts)
  have ns: "(if seq + 1 > 0x3F then 0 else seq + 1) = next_seq seq" by (simp add: next_seq_def hspi_consts)
  have step: "hspi_write_slot spi rsv info HSPI_SLOT_SIZE buf len (Suc n) i j HSPI_SLOT_DATA_LEN_MAX seq s =
      hspi_write_slot spi rsv info HSPI_SLOT_SIZE buf len n (Suc i) (j + length c) (length c) (next_seq seq) s1"
    unfolding hspi_write_slot.simps Let_def hl tk slot_hdr_eq p s1(1) ns by simp
  have n: "n = length (hspi_chunks (take (len - (j + length c)) (drop (j + length c) buf)))"
    using Suc.prems(3) ch by simp
  have le: "j + length c \<le> len" using lc jl by simp
  show ?case
  proof (cases n)
    case 0
    then have "take (len - (j + length c)) (drop (j + length c) buf) = []" using n by simp
    then have "j + length c = len" using le Suc.prems(2) jl by auto
    then show ?thesis using step 0 s1 ch by (auto simp: zero_padded_def)
  next
    case (Suc m)
    then have "j + length c \<noteq> len" using n by auto
    then have full: "length c = HSPI_SLOT_DATA_LEN_MAX" using lc le by (auto simp: min_def)
    have "next_seq seq \<le> 63" using next_seq_le by (simp add: hspi_consts)
    from Suc.IH [OF le Suc.prems(2) n this, of "Suc i" s1] show ?thesis
      using step full s1 ch by (auto simp: zero_padded_def)
  qed
qed


lemma zero_padded_facts:
  assumes "cs = hspi_chunks xs"
  shows "\<forall>m \<in> set (zero_padded cs). slot_fits m" and "concat (map fst (zero_padded cs)) = xs"
    and "length (zero_padded cs) = length cs"
  using assms hspi_chunks_le by (auto simp: zero_padded_def slot_fits_def comp_def)

text \<open>
  \<open>hspi_write\<close> with enough free slots known sends the whole message and takes the slots off the
  count.
\<close>

lemma host_write:
  assumes sink: "slot_sink spi rsv info sent" and act: "active info" and ne: "buf \<noteq> []"
    and sz: "sl_size (rxq_slot info) = HSPI_SLOT_SIZE"
    and room: "length (hspi_chunks buf) \<le> slot_cnt (s_rxq (status info))"
    and short: "length (hspi_chunks buf) < 65536" and seq: "wr_seq info \<le> 63"
  shows "\<exists>s' info'. hspi_write spi rsv info buf s = (int (length buf), info', s') \<and>
    sent s' = sent s @ hspi_stream (wr_seq info) (zero_padded (hspi_chunks buf)) \<and>
    wr_seq info' = seq_after (length (hspi_chunks buf)) (wr_seq info) \<and>
    slot_cnt (s_rxq (status info')) = slot_cnt (s_rxq (status info)) - length (hspi_chunks buf)"
proof -
  let ?n = "length (hspi_chunks buf)"
  have "?n = (length buf + 507) div 508" by (simp add: length_hspi_chunks hspi_consts)
  then have n: "((length buf + (HSPI_SLOT_SIZE - 4 - 1)) div (HSPI_SLOT_SIZE - 4)) mod 65536 = ?n"
    using short by (simp add: hspi_consts)
  have "?n = length (hspi_chunks (take (length buf - 0) (drop 0 buf)))" by simp
  from host_write_slots [OF sink _ _ this seq, of 0 s] obtain s' where
    s': "hspi_write_slot spi rsv info HSPI_SLOT_SIZE buf (length buf) ?n 0 0 HSPI_SLOT_DATA_LEN_MAX (wr_seq info) s =
        (?n, length buf, seq_after ?n (wr_seq info), s')"
      "sent s' = sent s @ hspi_stream (wr_seq info) (zero_padded (hspi_chunks buf))"
    by auto
  have d: "HSPI_SLOT_SIZE - 4 = HSPI_SLOT_DATA_LEN_MAX" by (simp add: hspi_consts)
  show ?thesis
    unfolding hspi_write_def Let_def sz n using act ne room s'
    by (simp add: d)
qed

subsection \<open>Slots from the target to the host\<close>

lemma hdr_append:
  "hdr_start (hspi_hdr l s @ xs) = hdr_start (hspi_hdr l s)"
  "hdr_len (hspi_hdr l s @ xs) = hdr_len (hspi_hdr l s)"
  "hdr_seq (hspi_hdr l s @ xs) = hdr_seq (hspi_hdr l s)"
  by (simp_all add: hdr_start_def hdr_len_def hdr_seq_def hdr_half_def nth_append)

text \<open>A bus whose reads of the transmit window fetch the next bytes of the slot stream.\<close>

definition slot_source :: "'s spi \<Rightarrow> u8 list \<Rightarrow> hspi_info \<Rightarrow> ('s \<Rightarrow> u8 list) \<Rightarrow> bool" where
  "slot_source spi rsv info src \<longleftrightarrow> (\<forall>s. HSPI_SLOT_SIZE \<le> length (src s) \<longrightarrow>
     (\<exists>s'. hspi_transfer spi rsv info (opcode_read_data HSPI_REG_TXQ_WINDOW HSPI_SLOT_SIZE) []
        HSPI_SLOT_SIZE s = (0, take HSPI_SLOT_SIZE (src s), s') \<and> src s' = drop HSPI_SLOT_SIZE (src s)))"

lemma host_read_slots:
  assumes source: "slot_source spi rsv info src" and "src s = hspi_stream seq0 ms @ rest"
    and "\<forall>m \<in> set ms. slot_fits m" and "seq0 \<le> 63"
  shows "\<exists>s' seq'. hspi_read_slot spi rsv info HSPI_SLOT_SIZE (length ms) i out seq s =
      (int (i + length ms), out @ concat (map fst ms), seq', s') \<and> src s' = rest \<and>
      (ms \<noteq> [] \<longrightarrow> seq' = seq_after (length ms) seq0)"
  using assms(2-)
proof (induction ms arbitrary: s seq0 i out seq)
  case (Cons m ms)
  obtain c pad where m: "m = (c, pad)" by (cases m)
  let ?slot = "hspi_hdr (length c) seq0 @ c @ pad"
  have lc: "length c \<le> 508" "length c + length pad = 508" 
    using Cons.prems m by (auto simp: slot_fits_def hspi_consts)
  have src: "src s = ?slot @ hspi_stream (next_seq seq0) ms @ rest" using Cons.prems m by simp
  have ls: "length ?slot = HSPI_SLOT_SIZE" using lc by (simp add: hspi_consts)
  then have ts: "take HSPI_SLOT_SIZE (src s) = ?slot" "HSPI_SLOT_SIZE \<le> length (src s)"
    "drop HSPI_SLOT_SIZE (src s) = hspi_stream (next_seq seq0) ms @ rest"
    by (simp_all add: src)
  then obtain s1 where s1: "hspi_transfer spi rsv info
      (opcode_read_data HSPI_REG_TXQ_WINDOW HSPI_SLOT_SIZE) [] HSPI_SLOT_SIZE s = (0, ?slot, s1)"
      "src s1 = hspi_stream (next_seq seq0) ms @ rest"
    using source by (metis slot_source_def)
  have f: "slot_start ?slot = [0x48, 0x53]" "slot_len ?slot = length c" "slot_seq ?slot = seq0"
    using lc Cons.prems(3) by (simp_all add: slot_fields hdr_append)
  have ns: "(if seq0 + 1 > 0x3F then 0 else seq0 + 1) = next_seq seq0" by (simp add: next_seq_def hspi_consts)
  have "next_seq seq0 \<le> 63" using next_seq_le by (simp add: hspi_consts)
  moreover have "\<forall>m \<in> set ms. slot_fits m" using Cons.prems by simp
  ultimately obtain s' seq' where
    "hspi_read_slot spi rsv info HSPI_SLOT_SIZE (length ms) (Suc i) (out @ c) (next_seq seq0) s1 =
      (int (Suc i + length ms), (out @ c) @ concat (map fst ms), seq', s')" "src s' = rest"
      "ms \<noteq> [] \<longrightarrow> seq' = seq_after (length ms) (next_seq seq0)"
    using Cons.IH [OF s1(2)] by blast
  moreover have "hspi_read_slot spi rsv info HSPI_SLOT_SIZE (length (m # ms)) i out seq s =
      hspi_read_slot spi rsv info HSPI_SLOT_SIZE (length ms) (Suc i) (out @ c) (next_seq seq0) s1"
    using s1(1) f lc by (auto simp: Let_def hspi_consts next_seq_def)
  ultimately show ?case using m by auto
qed auto


lemma host_read:
  assumes source: "slot_source spi rsv info src" and act: "active info"
    and sz: "sl_size (txq_slot info) = HSPI_SLOT_SIZE"
    and src: "src s = hspi_stream seq0 ms @ rest" "\<forall>m \<in> set ms. slot_fits m" "seq0 \<le> 63" "ms \<noteq> []"
    and cnt: "length ms \<le> slot_cnt (s_txq (status info))" "length ms \<le> sl_num (txq_slot info)"
    and len: "len div HSPI_SLOT_DATA_LEN_MAX = length ms" "length ms < 65536"
  shows "\<exists>s' info'. hspi_read spi rsv info len s =
      (int (length (concat (map fst ms))), concat (map fst ms), info', s') \<and> src s' = rest \<and>
    rd_seq info' = seq_after (length ms) seq0 \<and>
    slot_cnt (s_txq (status info')) = slot_cnt (s_txq (status info)) - length ms"
proof -
  let ?n = "length ms"
  have d: "HSPI_SLOT_SIZE - 4 = HSPI_SLOT_DATA_LEN_MAX" by (simp add: hspi_consts)
  have n: "(len div (HSPI_SLOT_SIZE - 4)) mod 65536 = ?n" using len d by simp
  have l0: "len \<noteq> 0" using len(1) src(4) by (cases "len = 0") auto
  from host_read_slots [OF source src(1,2,3), of 0 "[]" "rd_seq info"] src(4) obtain s' where
    s': "hspi_read_slot spi rsv info HSPI_SLOT_SIZE ?n 0 [] (rd_seq info) s =
        (int ?n, concat (map fst ms), seq_after ?n seq0, s')" "src s' = rest"
    by auto
  have m: "min ?n (sl_num (txq_slot info)) = ?n" "\<not> ?n > slot_cnt (s_txq (status info))" "?n \<noteq> 0"
    using cnt src(4) by auto
  show ?thesis
    unfolding hspi_read_def Let_def sz n m(1) using act l0 m s' by simp
qed


subsection \<open>End to end\<close>

lemma hspi_deliver_all:
  "\<forall>m \<in> set ms. slot_fits m \<Longrightarrow> int (HSPI_SLOT_DATA_LEN_MAX * length ms) \<le> room \<Longrightarrow>
   hspi_deliver room ms = length ms"
proof (induction room ms rule: hspi_deliver.induct)
  case (2 room m ms)
  have "length (fst m) \<le> HSPI_SLOT_DATA_LEN_MAX" using 2 by (simp add: slot_fits_def)
  then have "int (HSPI_SLOT_DATA_LEN_MAX * length ms) \<le> room - int (length (fst m))"
    using 2(3) by (simp add: algebra_simps)
  moreover have "int HSPI_SLOT_DATA_LEN_MAX \<le> room"
    by (rule order_trans [OF _ 2(3)]) (simp flip: of_nat_mult)
  ultimately show ?case using 2 by simp
qed simp

text \<open>C2: A message the host writes arrives at the target.  On a bus that carries the slots, the
  target reads back exactly the host's message once its hardware has stored the sent slots in the
  posted receive memory, provided the two ends agree on the sequence number and the reader's buffer
  has room for a full payload per slot; both sequence numbers agree again afterwards.\<close>
theorem link_host_to_target:
  assumes "slot_sink spi rsv info sent" and "active info" and "buf \<noteq> []"
    and "sl_size (rxq_slot info) = HSPI_SLOT_SIZE"
    and "length (hspi_chunks buf) \<le> slot_cnt (s_rxq (status info))"
    and "length (hspi_chunks buf) < 65536"
    and "hspi_write spi rsv info buf s = (r, info', s')"
    and "rx_ok d" and "rx_fifo d = Some f" and "fifo_list f = []" and "wr_seq info = rx_seq d"
    and "sent s' = sent s @ fifo_ahead f (HSPI_SLOT_SIZE * rx_done d)"
    and "HSPI_SLOT_DATA_LEN_MAX * length (hspi_chunks buf) \<le> length tbuf"
  shows "\<exists>d' tbuf'. hif_hspi_read tbuf d = Some (r, tbuf', d') \<and> r = int (length buf) \<and>
    take (length buf) tbuf' = buf \<and> rx_ok d' \<and> rx_seq d' = wr_seq info'"
proof -
  let ?ms = "zero_padded (hspi_chunks buf)"
  have seq: "wr_seq info \<le> 63" using assms(8,11) by (simp add: rx_ok_def hspi_consts)
  from host_write [OF assms(1-6) seq, of s] assms(7) have w: "r = int (length buf)"
      "sent s' = sent s @ hspi_stream (wr_seq info) ?ms"
      "wr_seq info' = seq_after (length ?ms) (wr_seq info)"
    using zero_padded_facts(3) by auto
  have st: "fifo_list f @ fifo_ahead f (HSPI_SLOT_SIZE * rx_done d) = hspi_stream (rx_seq d) ?ms"
    using w(2) assms(10-12) by simp
  have "length ?ms = length (hspi_chunks buf)" by (rule zero_padded_facts) (rule refl)
  then have k: "hspi_deliver (int (length tbuf)) ?ms = length ?ms"
    using assms(13) by (intro hspi_deliver_all zero_padded_facts(1)) (simp_all flip: of_nat_mult)
  have "tbuf \<noteq> []" using assms(3,13) by (auto simp: hspi_consts)
  from hspi_read_correct [OF assms(8,9) this st zero_padded_facts(1) [OF refl], unfolded k]
  obtain d' tbuf' where "hif_hspi_read tbuf d = Some (int (length buf), tbuf', d')" "rx_ok d'"
      "take (length buf) tbuf' = buf" "rx_seq d' = seq_after (length ?ms) (rx_seq d)"
    using zero_padded_facts(2) [OF refl, of buf] by auto
  then show ?thesis using w assms(11) by auto
qed

text \<open>C3: A message the target writes arrives at the host.  Whatever prefix of the message
  \<open>_hif_hspi_write\<close> accepts is what \<open>hspi_read\<close> delivers from the slots the target posted,
  padding removed and nothing left over.\<close>
theorem link_target_to_host:
  assumes "slot_source spi rsv info src" and "active info" and "buf \<noteq> []"
    and "sl_size (txq_slot info) = HSPI_SLOT_SIZE"
    and "tx_ok d" and "tx_fifo d = Some f" and "length (fifo_list f) = HSPI_SLOT_SIZE * tx_done d"
    and "hif_hspi_write buf d = Some (r, d')" and "0 < r"
    and "src s = fifo_list (the (tx_fifo d'))"
    and "tx_slots buf d \<le> slot_cnt (s_txq (status info))" and "tx_slots buf d \<le> sl_num (txq_slot info)"
  shows "\<exists>info' s'. hspi_read spi rsv info (HSPI_SLOT_DATA_LEN_MAX * tx_slots buf d) s =
      (r, take (nat r) buf, info', s') \<and> src s' = [] \<and> rd_seq info' = tx_seq d'"
proof -
  from hspi_write_correct [OF assms(5,6,3)] assms(7,8) obtain f' ms where
    w: "r = int (tx_len buf d)" "tx_fifo d' = Some f'" "fifo_list f' = hspi_stream (tx_seq d) ms"
      "concat (map fst ms) = take (tx_len buf d) buf" "\<forall>m \<in> set ms. slot_fits m"
      "length ms = tx_slots buf d" "tx_seq d' = seq_after (tx_slots buf d) (tx_seq d)"
    by auto
  have seq: "tx_seq d \<le> 63" using assms(5) by (simp add: tx_ok_def hspi_consts)
  have le: "tx_slots buf d \<le> HSPI_SLOT_NUM" by (auto simp: tx_slots_def)
  have ms: "ms \<noteq> []" using assms(9) w(1,6) by (auto simp: tx_len_def)
  have "src s = hspi_stream (tx_seq d) ms @ []" using assms(10) w by simp
  from host_read [OF assms(1,2,4) this w(5) seq ms, of "HSPI_SLOT_DATA_LEN_MAX * tx_slots buf d"]
  have "\<exists>s' info'. hspi_read spi rsv info (HSPI_SLOT_DATA_LEN_MAX * tx_slots buf d) s =
      (int (length (concat (map fst ms))), concat (map fst ms), info', s') \<and> src s' = [] \<and>
    rd_seq info' = seq_after (length ms) (tx_seq d)"
    using assms(11,12) w(6) le by (auto simp: hspi_consts)
  moreover have "length (take (tx_len buf d) buf) = tx_len buf d" by (simp add: tx_len_def)
  ultimately show ?thesis using w by auto
qed

text \<open>The host takes over the geometry the target's open advertises.\<close>

lemma ready_accepts_advert [simp]:
  "hspi_ready_loop spi rsv delay (Suc n) hspi_slot_msg info s =
    (0, info\<lparr>txq_slot := \<lparr>sl_num = HSPI_SLOT_NUM, sl_size = HSPI_SLOT_SIZE\<rparr>,
             rxq_slot := \<lparr>sl_num = HSPI_SLOT_NUM, sl_size = HSPI_SLOT_SIZE\<rparr>\<rparr>, s)"
proof -
  have i: "le32 (hspi_slot_msg ! 0) @ le32 (hspi_slot_msg ! 1) = hspi_ident"
    by (simp add: hspi_slot_msg_def le32_def hspi_ident_def)
  have m: "msg_slot (hspi_slot_msg ! 2) = \<lparr>sl_num = HSPI_SLOT_NUM, sl_size = HSPI_SLOT_SIZE\<rparr>"
     "msg_slot (hspi_slot_msg ! 3) = \<lparr>sl_num = HSPI_SLOT_NUM, sl_size = HSPI_SLOT_SIZE\<rparr>"
    by (simp_all add: hspi_slot_msg_def msg_slot_def slot_info_word_def hspi_consts)
  show ?thesis unfolding hspi_ready_loop.simps i m by (simp add: slot_info_ok_def hspi_consts)
qed


subsection \<open>An example bus and an example device\<close>

text \<open>
  The example bus acknowledges every command, appends what it is sent (the 4-byte CRC apart) to
  its queue and serves reads from the front of the queue.
\<close>

definition demo_spi :: "u8 list spi" where
  "demo_spi tx rx n s = (case tx of
      Some b \<Rightarrow> (if rx then (0, [0, 0, 0, 0, 0, 0, 0, 0x47], s)
               else if n = 4 then (0, [], s) else (0, [], s @ b))
    | None \<Rightarrow> (if n = 4 then (0, replicate 4 0, s) else (0, take n s, drop n s)))"

definition demo_info :: hspi_info where
  "demo_info = \<lparr>active = True, txq_slot = \<lparr>sl_num = 32, sl_size = 512\<rparr>,
     rxq_slot = \<lparr>sl_num = 32, sl_size = 512\<rparr>,
     status = \<lparr>eirq_flags = 0,
       s_txq = \<lparr>q_error = 0, slot_cnt = 1, slot_size = 128, total_slot_size = 128\<rparr>,
       s_rxq = \<lparr>q_error = 0, slot_cnt = 32, slot_size = 128, total_slot_size = 4096\<rparr>\<rparr>,
     rd_seq = 0, wr_seq = 0\<rparr>"

lemma chop_single: "xs \<noteq> [] \<Longrightarrow> length xs \<le> 2048 \<Longrightarrow> chop 2048 xs = [xs]"
  by (subst chop.simps) (simp add: chop.simps)

lemma demo_active: "active demo_info"
  by (simp add: demo_info_def)

lemma demo_ack: "demo_spi (Some b) True n s = (0, [0, 0, 0, 0, 0, 0, 0, 0x47], s)"
  by (simp add: demo_spi_def)

lemma demo_sink: "slot_sink demo_spi rsv demo_info (\<lambda>s. s)"
  unfolding slot_sink_def
proof (intro allI impI)
  fix slot s :: "u8 list" assume l: "length slot = HSPI_SLOT_SIZE"
  let ?op = "opcode_write_data HSPI_REG_RXQ_WINDOW HSPI_SLOT_SIZE"
  have op: "op_write ?op" "op_burst ?op"
    by (intro opcode_fields; simp add: HSPI_REG_RXQ_WINDOW_def hspi_consts)+
  have ne: "slot \<noteq> []" "length slot \<le> 2048" "length slot \<noteq> 4" using l by (auto simp: hspi_consts)
  have "hspi_transfer demo_spi rsv demo_info ?op slot HSPI_SLOT_SIZE s = (0, [], s @ slot)"
    using l ne op
    by (subst transfer_acked [where spi = demo_spi, OF demo_active demo_ack _ op(2)])
      (simp_all add: burst_xfers_def chop_single demo_spi_def)
  then show "\<exists>s'. hspi_transfer demo_spi rsv demo_info ?op slot HSPI_SLOT_SIZE s = (0, [], s') \<and> s' = s @ slot"
    by blast
qed


lemma chop_len_single: "0 < n \<Longrightarrow> n \<le> 2048 \<Longrightarrow> chop_len 2048 n = [n]"
  by (subst chop_len.simps) (simp add: chop_len.simps)

lemma demo_source: "slot_source demo_spi rsv demo_info (\<lambda>s. s)"
  unfolding slot_source_def
proof (intro allI impI)
  fix s :: "u8 list" assume l: "HSPI_SLOT_SIZE \<le> length s"
  let ?op = "opcode_read_data HSPI_REG_TXQ_WINDOW HSPI_SLOT_SIZE"
  have op: "\<not> op_write ?op" "op_burst ?op"
    by (intro opcode_fields; simp add: HSPI_REG_TXQ_WINDOW_def hspi_consts)+
  have ne: "HSPI_SLOT_SIZE \<le> 2048" "0 < HSPI_SLOT_SIZE" "HSPI_SLOT_SIZE \<noteq> 4" by (simp_all add: hspi_consts)
  have "hspi_transfer demo_spi rsv demo_info ?op [] HSPI_SLOT_SIZE s =
      (0, take HSPI_SLOT_SIZE s, drop HSPI_SLOT_SIZE s)"
    using l ne op
    by (subst transfer_acked [where spi = demo_spi, OF demo_active demo_ack _ op(2)])
      (simp_all add: burst_xfers_def chop_len_single demo_spi_def)
  then show "\<exists>s'. hspi_transfer demo_spi rsv demo_info ?op [] HSPI_SLOT_SIZE s = (0, take HSPI_SLOT_SIZE s, s') \<and>
      s' = drop HSPI_SLOT_SIZE s" by blast
qed

text \<open>A device whose FIFOs hold nothing, with the given receive memory.\<close>

definition demo_fifo :: "u8 list \<Rightarrow> u8 hif_fifo" where
  "demo_fifo mem = \<lparr>fsize = of_nat HSPI_FIFO_SIZE, cnt = 0, push_idx = 0, pop_idx = 0,
     static_buffer = False, buffer = mem, buffer_end = HSPI_FIFO_SIZE\<rparr>"

definition demo_que :: hspi_que_reg where
  "demo_que = \<lparr>q_reset = False, bit_msb = False, byte_msb = False, header_on = False, q_enable = True,
     irq_active = False, irq_trigger = False, irq_enable = False, target_address = 0,
     target_size = 128, target_intmask = False, eirq_event = False, que_update = False,
     st_total = 0, st_count = 0, st_error = False, st_irq = False\<rparr>"

definition demo_dev :: "u8 list \<Rightarrow> int \<Rightarrow> hspi_dev" where
  "demo_dev mem posted = \<lparr>sys_reg = \<lparr>device_ready = 0, device_sleep = 0, device_message = hspi_slot_msg,
       sw_id = 0, board_id = 0\<rparr>, txq_reg = demo_que, rxq_reg = demo_que,
     rx_fifo = Some (demo_fifo mem), tx_fifo = Some (demo_fifo (replicate HSPI_FIFO_SIZE 0)),
     rx_base = 0x20000000, tx_base = 0x20004000, rx_seq = 0, tx_seq = 0,
     rxq_total_cnt = posted, txq_total_cnt = 0, events = []\<rparr>"

lemma demo_fifo_facts:
  assumes "length mem = HSPI_FIFO_SIZE"
  shows "fifo_wf (demo_fifo mem)" and "fifo_list (demo_fifo mem) = []"
    and "fifo_cap (demo_fifo mem) = HSPI_FIFO_SIZE"
    and "n \<le> HSPI_FIFO_SIZE \<Longrightarrow> fifo_ahead (demo_fifo mem) n = take n mem"
proof -
  show "n \<le> HSPI_FIFO_SIZE \<Longrightarrow> fifo_ahead (demo_fifo mem) n = take n mem"
    using ring_contiguous [of 0 HSPI_FIFO_SIZE n mem] assms
    by (simp add: fifo_ahead_def demo_fifo_def hspi_consts)
qed (use assms in \<open>simp_all add: demo_fifo_def fifo_wf_def fifo_geom_def fifo_list_def fifo_cap_def hspi_consts\<close>)

lemma demo_dev_ok:
  assumes "length mem = HSPI_FIFO_SIZE" and "0 \<le> posted" and "posted \<le> 32"
  shows "rx_ok (demo_dev mem posted)" and "tx_ok (demo_dev mem posted)"
    and "rx_done (demo_dev mem posted) = nat posted" and "tx_done (demo_dev mem posted) = 0"
  using demo_fifo_facts [OF assms(1)] demo_fifo_facts [of "replicate HSPI_FIFO_SIZE 0"] assms
  by (auto simp: rx_ok_def tx_ok_def rx_done_def tx_done_def demo_dev_def hif_hspi_queue_count_def
      que_reg_def demo_que_def base_ok_def hspi_consts demo_fifo_def)

lemma chunks_123: "hspi_chunks [1, 2, 3] = [[1, 2, 3]]"
  by (simp add: hspi_chunks_Cons hspi_consts)

lemma link_host_to_target_witness:
  "\<exists>mem tbuf' d'. length mem = HSPI_FIFO_SIZE \<and>
     hif_hspi_read (replicate 600 0) (demo_dev mem 1) = Some (3, tbuf', d') \<and> take 3 tbuf' = [1, 2, 3]"
proof -
  define st where "st = hspi_stream 0 (zero_padded [[1, 2, 3]])"
  define mem where "mem = st @ replicate (HSPI_FIFO_SIZE - HSPI_SLOT_SIZE) 0"
  have st: "length st = HSPI_SLOT_SIZE" by (simp add: st_def zero_padded_def hspi_consts)
  then have mem: "length mem = HSPI_FIFO_SIZE" "take HSPI_SLOT_SIZE mem = st"
    by (simp_all add: mem_def hspi_consts)
  obtain info' s' where w: "hspi_write demo_spi [] demo_info [1, 2, 3] [] = (3, info', s')" "s' = st"
    using host_write [OF demo_sink demo_active, of "[1, 2, 3]" "[]" "[]"]
    by (auto simp: chunks_123 demo_info_def hspi_consts st_def)
  have "fifo_ahead (demo_fifo mem) (HSPI_SLOT_SIZE * rx_done (demo_dev mem 1)) = st"
    using demo_fifo_facts(4) [OF mem(1), of HSPI_SLOT_SIZE] demo_dev_ok(3) [OF mem(1), of 1] mem(2)
    by (simp add: hspi_consts)
  then have "\<exists>d' tbuf'. hif_hspi_read (replicate 600 0) (demo_dev mem 1) = Some (3, tbuf', d') \<and>
      3 = int (length [1, 2, 3 :: u8]) \<and> take (length [1, 2, 3 :: u8]) tbuf' = [1, 2, 3] \<and> rx_ok d' \<and>
      rx_seq d' = wr_seq info'"
    using w demo_dev_ok(1) [OF mem(1), of 1] demo_fifo_facts(2) [OF mem(1)]
    by (intro link_host_to_target [OF demo_sink demo_active, where rsv = "[]" and s = "[]"
          and s' = s' and f = "demo_fifo mem"])
      (simp_all add: chunks_123 demo_info_def demo_dev_def hspi_consts)
  then show ?thesis using mem(1) by (auto simp: numeral_3_eq_3)
qed

lemma link_target_to_host_witness:
  "\<exists>d' info' s'. hif_hspi_write [1, 2, 3] (demo_dev (replicate HSPI_FIFO_SIZE 0) 0) = Some (3, d') \<and>
     hspi_read demo_spi [] demo_info 508 (fifo_list (the (tx_fifo d'))) = (3, [1, 2, 3], info', s')"
proof -
  define mem :: "u8 list" where "mem = replicate HSPI_FIFO_SIZE 0"
  let ?b = "[1, 2, 3]" and ?d = "demo_dev mem 0"
  have m: "length mem = HSPI_FIFO_SIZE" by (simp add: mem_def)
  have ok: "tx_ok ?d" "tx_done ?d = 0" using demo_dev_ok [OF m, of 0] by simp_all
  have f: "tx_fifo ?d = Some (demo_fifo (replicate HSPI_FIFO_SIZE 0))" by (simp add: demo_dev_def)
  have n: "tx_slots ?b ?d = 1" "tx_len ?b ?d = 3"
    using ok by (simp_all add: tx_slots_def tx_len_def chunks_123 demo_dev_def hspi_consts)
  obtain d' where d': "hif_hspi_write ?b ?d = Some (3, d')"
    using hspi_write_correct [OF ok(1) f, of ?b] n by auto
  have "\<exists>info' s'. hspi_read demo_spi [] demo_info (HSPI_SLOT_DATA_LEN_MAX * tx_slots ?b ?d)
      (fifo_list (the (tx_fifo d'))) = (3, take (nat 3) ?b, info', s') \<and> s' = [] \<and> rd_seq info' = tx_seq d'"
    by (rule link_target_to_host [OF demo_source demo_active _ _ ok(1) f _ d'])
      (simp_all add: n ok demo_fifo_facts(2) demo_info_def HSPI_SLOT_SIZE_def)
  then show ?thesis unfolding mem_def [symmetric] using d' n by (auto simp: hspi_consts)
qed

lemma hspi_open_msg:
  assumes "hif_hspi_open info rxe txe d = (0, d')" and "length (device_message (sys_reg d)) = 4"
  shows "device_message (sys_reg d') = hspi_slot_msg"
proof -
  obtain a b c e where msg: "device_message (sys_reg d) = [a, b, c, e]"
    using assms(2) by (auto simp: length_Suc_conv numeral_eq_Suc)
  have keep: "sys_reg (snd (hif_hspi_fifo_create nfo rxe txe d)) = sys_reg d" for nfo
    by (simp add: hif_hspi_fifo_create_def hif_hspi_fifo_delete_def Let_def)
  obtain nfo d1 where "info = Some nfo" "hif_hspi_fifo_create nfo rxe txe d = (0, d1)"
    using assms(1) by (auto simp: hif_hspi_open_def split: option.splits prod.splits if_splits)
  with keep [of nfo] assms(1) msg show ?thesis
    by (auto simp: hif_hspi_open_def hif_hspi_slot_setup_def fold_upt4 hif_hspi_set_message_def
        hif_hspi_set_sw_id_def hif_hspi_set_board_id_def hspi_open_queue_def hif_hspi_queue_reset_def
        hif_hspi_queue_setup_def hif_hspi_queue_enable_def hif_hspi_queue_enable_irq_def
        upd_que_reg_def emit_def Let_def hspi_slot_msg_def numeral_2_eq_2 numeral_3_eq_3
        split: if_splits)
qed

text \<open>The host accepts the advertisement of the target's open: the message registers a
  successful \<open>_hif_hspi_open\<close> leaves behind make \<open>hspi_ready\<close> succeed at its first look and record
  32 slots of 512 bytes for both queues, the geometry the target's FIFOs have.\<close>
theorem hspi_ready_accepts_open:
  assumes "hif_hspi_open nfo rxe txe d = (0, d')" and "length (device_message (sys_reg d)) = 4"
  shows "hspi_ready_loop spi rsv delay 10 (device_message (sys_reg d')) info s =
    (0, info\<lparr>txq_slot := \<lparr>sl_num = HSPI_SLOT_NUM, sl_size = HSPI_SLOT_SIZE\<rparr>,
             rxq_slot := \<lparr>sl_num = HSPI_SLOT_NUM, sl_size = HSPI_SLOT_SIZE\<rparr>\<rparr>, s)"
proof -
  have "hspi_ready_loop spi rsv delay (Suc 9) hspi_slot_msg info s =
    (0, info\<lparr>txq_slot := \<lparr>sl_num = HSPI_SLOT_NUM, sl_size = HSPI_SLOT_SIZE\<rparr>,
             rxq_slot := \<lparr>sl_num = HSPI_SLOT_NUM, sl_size = HSPI_SLOT_SIZE\<rparr>\<rparr>, s)"
    by (rule ready_accepts_advert)
  then show ?thesis using hspi_open_msg [OF assms] by simp
qed

definition demo_hif_uart :: hif_uart where
  "demo_hif_uart = \<lparr>channel = 1, baudrate = 115200, data_bits = UART_DB8, stop_bits = UART_SB1,
     parity = UART_PB_NONE, hfc = UART_HFC_DISABLE, hfc_rx_irq = False\<rparr>"

definition demo_hif_info :: hif_info where
  "demo_hif_info = \<lparr>i_type = HIF_TYPE_HSPI, i_uart = demo_hif_uart, i_sw_id = 1, i_bd_id = 2, rx_fifo_addr = None,
     rx_fifo_size = int HSPI_FIFO_SIZE, tx_fifo_addr = None, tx_fifo_size = int HSPI_FIFO_SIZE,
     i_rx_params = \<lparr>rp_addr = True, rp_size = 1024, rp_cb = True\<rparr>\<rparr>"

definition demo_alloc :: "u8 list \<Rightarrow> alloc_env" where
  "demo_alloc mem = \<lparr>a_fifo = True, a_buf = Some mem, a_addr = 0x20000000\<rparr>"

lemma demo_open:
  assumes "length mem = HSPI_FIFO_SIZE"
  obtains d' where "hif_hspi_open (Some demo_hif_info) (demo_alloc mem) (demo_alloc mem) (demo_dev mem n) = (0, d')"
  using hspi_open_ok [of demo_hif_info "demo_alloc mem" "demo_alloc mem" mem mem "demo_dev mem n"] assms
  by (auto simp: demo_hif_info_def demo_alloc_def demo_dev_def hspi_slot_msg_def)

lemma hspi_ready_accepts_open_witness:
  "\<exists>mem d'. hif_hspi_open (Some demo_hif_info) (demo_alloc mem) (demo_alloc mem) (demo_dev mem 0) = (0, d') \<and>
     hspi_ready_loop demo_spi [] (\<lambda>s. s) 10 (device_message (sys_reg d')) demo_info [] =
     (0, demo_info\<lparr>txq_slot := \<lparr>sl_num = HSPI_SLOT_NUM, sl_size = HSPI_SLOT_SIZE\<rparr>,
                   rxq_slot := \<lparr>sl_num = HSPI_SLOT_NUM, sl_size = HSPI_SLOT_SIZE\<rparr>\<rparr>, [])"
proof -
  define mem :: "u8 list" where "mem = replicate HSPI_FIFO_SIZE 0"
  have m: "length mem = HSPI_FIFO_SIZE" by (simp add: mem_def)
  then obtain d' where "hif_hspi_open (Some demo_hif_info) (demo_alloc mem) (demo_alloc mem) (demo_dev mem 0) = (0, d')"
    by (rule demo_open)
  moreover have "length (device_message (sys_reg (demo_dev mem 0))) = 4"
    by (simp add: demo_dev_def hspi_slot_msg_def)
  ultimately show ?thesis by (intro exI conjI hspi_ready_accepts_open)
qed

text \<open>The two sides lay out and read slot headers alike: what the host's bit-fields extract
  from a header the target writes is the length and sequence number put in, and the host writes the
  very bytes the target would.\<close>
theorem slot_headers_agree:
  assumes "len < 1024" and "seq < 64"
  shows "slot_start (hspi_hdr len seq @ data) = [0x48, 0x53] \<and> slot_len (hspi_hdr len seq @ data) = len \<and>
    slot_seq (hspi_hdr len seq @ data) = seq \<and> slot_hdr len seq = hspi_hdr len seq \<and>
    hdr_len (slot_hdr len seq) = len \<and> hdr_seq (slot_hdr len seq) = seq"
  using assms by (simp add: slot_fields hdr_append slot_hdr_eq)

lemma slot_headers_agree_witness: "slot_len (hspi_hdr 508 63 @ []) = 508 \<and> slot_seq (hspi_hdr 508 63 @ []) = 63"
  using slot_headers_agree [of 508 63 "[]"] by simp

text \<open>A transfer retries at most five times: after \<open>k < 5\<close> unacknowledged commands an
  acknowledged burst command runs the burst once, and five unacknowledged commands give up with
  \<open>-1\<close> and touch the bus no further.\<close>
theorem hspi_transfer_retries:
  assumes "active info" and "(nack_round spi opcode rsv ^^ k) s s'"
  shows "(k = 5 \<longrightarrow> hspi_transfer spi rsv info opcode buf len s = (-1, [], s')) \<and>
    (k < 5 \<and> spi (Some (cmd_bytes opcode rsv)) True 8 s' = (0, resp, s1) \<and> resp ! 7 = 0x47 \<and>
       op_burst opcode \<longrightarrow>
     hspi_transfer spi rsv info opcode buf len s =
       (case run_xfers spi (burst_xfers opcode buf len) [] s1 of
          (ret, got, s2) \<Rightarrow> ((if ret \<noteq> 0 then -1 else 0), got, s2)))"
proof (intro conjI impI)
  assume "k = 5"
  then show "hspi_transfer spi rsv info opcode buf len s = (-1, [], s')"
    using assms retry_nacks [OF assms(2), of buf len 0] by (simp add: hspi_transfer_def)
next
  assume a: "k < 5 \<and> spi (Some (cmd_bytes opcode rsv)) True 8 s' = (0, resp, s1) \<and> resp ! 7 = 0x47 \<and>
       op_burst opcode"
  then obtain n where n: "5 = Suc n + k" by (metis add.commute add_Suc_right less_iff_Suc_add)
  show "hspi_transfer spi rsv info opcode buf len s =
       (case run_xfers spi (burst_xfers opcode buf len) [] s1 of
          (ret, got, s2) \<Rightarrow> ((if ret \<noteq> 0 then -1 else 0), got, s2))"
    unfolding hspi_transfer_def n retry_nacks [OF assms(2)] hspi_retry.simps
    using assms(1) a by (auto split: prod.splits)
qed

text \<open>A bus that acknowledges the third command: the state counts the commands and dummies.\<close>
definition shy_spi :: "nat spi" where
  "shy_spi tx rx n s = (0, (if s < 4 then replicate 8 0 else [0, 0, 0, 0, 0, 0, 0, 0x47]), Suc s)"

lemma hspi_transfer_retries_witness:
  "hspi_transfer shy_spi [0, 0, 0] demo_info (opcode_write_data HSPI_REG_RXQ_WINDOW 512) [1] 1 0 = (0, [], 7)"
proof -
  let ?op = "opcode_write_data HSPI_REG_RXQ_WINDOW 512"
  have "nack_round shy_spi ?op [0, 0, 0] 0 2" "nack_round shy_spi ?op [0, 0, 0] 2 4"
    by (simp_all add: nack_round_def shy_spi_def hspi_transfer_dummy_def)
  then have "(nack_round shy_spi ?op [0, 0, 0] ^^ Suc (Suc 0)) 0 4"
    by (intro relpowp_Suc_I2 [where y = 2] relpowp_Suc_I2 [where y = 4]) simp_all
  then have "(nack_round shy_spi ?op [0, 0, 0] ^^ 2) 0 4" by (simp only: numeral_2_eq_2)
  moreover have "op_burst ?op" "op_write ?op"
    by (intro opcode_fields; simp add: HSPI_REG_RXQ_WINDOW_def)+
  moreover have "chop 2048 (take 1 [1]) = [[1 :: u8]]" using chop_single [of "[1]"] by simp
  ultimately show ?thesis
    using hspi_transfer_retries [OF demo_active, where spi = shy_spi and opcode = ?op
        and rsv = "[0, 0, 0]" and k = 2 and s = 0 and s' = 4 and buf = "[1]" and len = 1
        and resp = "[0, 0, 0, 0, 0, 0, 0, 0x47]" and ?s1.0 = 5]
    by (simp add: burst_xfers_def shy_spi_def)
qed

end
