(* ===== verification/HspiProps.thy ===== *)
theory HspiProps
  imports HspiLink
begin

text \<open>
  The properties of the target's side of the SPI link (\<open>hif_hspi.c\<close>) and of the host's command
  layer (\<open>nrc-hspi.c\<close>), each with an example that meets its hypotheses.
\<close>

subsection \<open>The target's data path\<close>

text \<open>\<open>_hif_hspi_write\<close> never fails in a reachable state: it releases the slots the hardware has
  sent, appends one framed 512-byte slot per 508-byte chunk of the accepted prefix of the message,
  posts exactly those slots, reports the prefix's length and keeps the transmit invariant.\<close>
theorem hspi_write_frames_message:
  assumes "tx_ok d" and "tx_fifo d = Some f" and "buf \<noteq> []"
  shows "\<exists>d' f' ms. hif_hspi_write buf d = Some (int (tx_len buf d), d') \<and> tx_ok d' \<and>
    tx_fifo d' = Some f' \<and>
    fifo_list f' = drop (HSPI_SLOT_SIZE * tx_done d) (fifo_list f) @ hspi_stream (tx_seq d) ms \<and>
    concat (map fst ms) = take (tx_len buf d) buf \<and> (\<forall>m \<in> set ms. slot_fits m) \<and>
    length ms = tx_slots buf d \<and>
    length (events d') = length (events d) + tx_slots buf d \<and>
    txq_total_cnt d' = txq_total_cnt d - int (tx_done d) + int (tx_slots buf d) \<and>
    tx_seq d' = seq_after (tx_slots buf d) (tx_seq d)"
  by (rule hspi_write_correct [OF assms])

lemma demo_tx:
  assumes "length mem = HSPI_FIFO_SIZE"
  shows "tx_ok (demo_dev mem 0)" and "tx_slots [1, 2, 3] (demo_dev mem 0) = 1"
    and "tx_len [1, 2, 3] (demo_dev mem 0) = 3"
  using demo_dev_ok [OF assms, of 0]
  by (simp_all add: tx_slots_def tx_len_def chunks_123 demo_dev_def HSPI_SLOT_NUM_def
      HSPI_SLOT_DATA_LEN_MAX_def HSPI_SLOT_SIZE_def HSPI_SLOT_HDR_SIZE_def)

lemma hspi_write_frames_message_witness:
  "\<exists>mem d'. length mem = HSPI_FIFO_SIZE \<and> hif_hspi_write [1, 2, 3] (demo_dev mem 0) = Some (3, d') \<and> tx_ok d'"
proof -
  define mem :: "u8 list" where "mem = replicate HSPI_FIFO_SIZE 0"
  have m: "length mem = HSPI_FIFO_SIZE" by (simp add: mem_def)
  have "tx_fifo (demo_dev mem 0) = Some (demo_fifo (replicate HSPI_FIFO_SIZE 0))"
    by (simp add: demo_dev_def)
  from hspi_write_frames_message [OF demo_tx(1) [OF m] this, of "[1, 2, 3]"] demo_tx(3) [OF m] m
  show ?thesis by auto
qed

text \<open>\<open>_hif_hspi_read\<close> on a stream of well-formed slots, those already queued and those the
  hardware has just stored: it delivers, in order, the payloads of the slots that fit the caller's
  buffer, keeps the others queued with the right next sequence number, posts every free slot to the
  hardware and reports nothing but those postings.\<close>
theorem hspi_read_delivers_payloads:
  assumes "rx_ok d" and "rx_fifo d = Some f" and "buf \<noteq> []"
    and "fifo_list f @ fifo_ahead f (HSPI_SLOT_SIZE * rx_done d) = hspi_stream (rx_seq d) ms"
    and "\<forall>m \<in> set ms. slot_fits m"
  shows "\<exists>d' f' buf' k out. k = hspi_deliver (int (length buf)) ms \<and> out = concat (map fst (take k ms)) \<and>
    hif_hspi_read buf d = Some (int (length out), buf', d') \<and> rx_ok d' \<and>
    length buf' = length buf \<and> take (length out) buf' = out \<and> rx_fifo d' = Some f' \<and>
    fifo_list f' = hspi_stream (rx_seq d') (drop k ms) \<and> rx_seq d' = seq_after k (rx_seq d) \<and>
    rxq_total_cnt d' = int (HSPI_SLOT_NUM - (length ms - k)) \<and>
    (\<exists>as. events d' = events d @ map (Posted HSPI_RXQ) as)"
  using hspi_read_correct [OF assms] by blast

lemma hspi_read_delivers_payloads_witness:
  "\<exists>mem buf' d'. length mem = HSPI_FIFO_SIZE \<and>
     hif_hspi_read (replicate 508 0) (demo_dev mem 1) = Some (3, buf', d') \<and> take 3 buf' = [1, 2, 3] \<and>
     rx_seq d' = 1"
proof -
  define ms where "ms = zero_padded [[1, 2, 3 :: u8]]"
  define st where "st = hspi_stream 0 ms"
  define mem where "mem = st @ replicate (HSPI_FIFO_SIZE - HSPI_SLOT_SIZE) 0"
  have st: "length st = HSPI_SLOT_SIZE" by (simp add: st_def ms_def zero_padded_def hspi_consts)
  then have mem: "length mem = HSPI_FIFO_SIZE" "take HSPI_SLOT_SIZE mem = st"
    by (simp_all add: mem_def hspi_consts)
  have "fifo_list (demo_fifo mem) @ fifo_ahead (demo_fifo mem) (HSPI_SLOT_SIZE * rx_done (demo_dev mem 1)) =
      hspi_stream (rx_seq (demo_dev mem 1)) ms"
    using demo_fifo_facts(2) [OF mem(1)] demo_fifo_facts(4) [OF mem(1), of HSPI_SLOT_SIZE] demo_dev_ok(3) [OF mem(1), of 1] mem(2)
    by (simp add: hspi_consts demo_dev_def st_def)
  moreover have "\<forall>m \<in> set ms. slot_fits m" by (simp add: ms_def zero_padded_def slot_fits_def hspi_consts)
  moreover have "rx_ok (demo_dev mem 1)" using demo_dev_ok(1) [OF mem(1), of 1] by simp
  moreover have "rx_fifo (demo_dev mem 1) = Some (demo_fifo mem)" "rx_seq (demo_dev mem 1) = 0"
    by (simp_all add: demo_dev_def)
  moreover have "hspi_deliver 508 ms = 1" "concat (map fst ms) = [1, 2, 3]" "length ms = 1"
    by (simp_all add: ms_def zero_padded_def hspi_consts)
  ultimately show ?thesis
    using hspi_read_delivers_payloads [of "demo_dev mem 1" "demo_fifo mem" "replicate 508 0" ms] mem(1)
    by (auto simp: next_seq_def HSPI_SLOT_SEQ_MAX_def numeral_3_eq_3)
qed

text \<open>C29: \<open>_hif_hspi_read\<close> always returns, whatever bytes the hardware stored: the count is within
  the caller's buffer, whose length is kept, and reports are only appended.\<close>
theorem hspi_read_always_returns:
  assumes "rx_fifo d = Some f" and "fifo_wf f" and "buf \<noteq> []"
  shows "\<exists>ret buf' d' es. hif_hspi_read buf d = Some (ret, buf', d') \<and> 0 \<le> ret \<and>
    ret \<le> int (length buf) \<and> length buf' = length buf \<and> events d' = events d @ es"
  using hspi_read_total [OF assms] by blast

lemma hspi_read_always_returns_witness:
  "\<exists>mem ret buf' d'. mem = replicate HSPI_FIFO_SIZE 0xAA \<and>
     hif_hspi_read (replicate 600 0) (demo_dev mem 5) = Some (ret, buf', d') \<and> 0 \<le> ret \<and> ret \<le> 600"
proof -
  define mem :: "u8 list" where "mem = replicate HSPI_FIFO_SIZE 0xAA"
  have "length mem = HSPI_FIFO_SIZE" by (simp add: mem_def)
  then have "fifo_wf (demo_fifo mem)" by (rule demo_fifo_facts)
  moreover have "rx_fifo (demo_dev mem 5) = Some (demo_fifo mem)" by (simp add: demo_dev_def)
  ultimately show ?thesis
    using hspi_read_always_returns [of "demo_dev mem 5" "demo_fifo mem" "replicate 600 0"] mem_def by auto
qed

subsection \<open>Opening, reopening and sleeping\<close>

text \<open>Opening again after a session that left slots posted breaks the receive side: the static
  count of posted slots survives \<open>_hif_hspi_close\<close>, so with an empty hardware queue the first read
  commits slots that were never received, takes the fresh memory for a slot header and asks for a
  system reset.\<close>
theorem hspi_reopen_resets_system:
  assumes "hif_hspi_open (Some nfo) rxe txe (hif_hspi_close d) = (0, d')"
    and "i_type nfo = HIF_TYPE_HSPI" and "rx_fifo_size nfo = int HSPI_FIFO_SIZE"
    and "tx_fifo_size nfo = int HSPI_FIFO_SIZE" and "rx_fifo_addr nfo = None" and "tx_fifo_addr nfo = None"
    and "a_fifo rxe" and "a_fifo txe" and "a_buf rxe = Some rxm" and "length rxm = HSPI_FIFO_SIZE"
    and "a_buf txe = Some txm" and "length txm = HSPI_FIFO_SIZE"
    and "length (device_message (sys_reg d)) = 4"
    and "0 < rxq_total_cnt d" and "hif_hspi_queue_count HSPI_RXQ d' = 0"
    and "take 2 rxm \<noteq> [0x48, 0x53]" and "HSPI_SLOT_DATA_LEN_MAX \<le> length buf"
  shows "\<exists>ret buf' d''. hif_hspi_read buf d' = Some (ret, buf', d'') \<and> SystemReset \<in> set (events d'')"
proof -
  let ?c = "hif_hspi_close d"
  have c: "rxq_total_cnt ?c = rxq_total_cnt d" "length (device_message (sys_reg ?c)) = 4"
    using assms(13) by (simp_all add: hif_hspi_close_def hif_hspi_fifo_delete_def hspi_close_queue_def emit_def
        hif_hspi_queue_setup_def hif_hspi_queue_disable_def hif_hspi_queue_disable_irq_def
        hif_hspi_queue_clear_irq_def upd_que_reg_def)
  obtain rf where d': "rx_fifo d' = Some rf" "fifo_wf rf" "fifo_list rf = []"
      "fifo_cap rf = HSPI_FIFO_SIZE" "push_idx rf = 0" "buffer rf = rxm" "rxq_total_cnt d' = rxq_total_cnt d"
    using hspi_open_ok [OF assms(2-12) c(2)] assms(1) c(1) by auto
  have "fifo_ahead rf 4 = take 4 rxm"
    using ring_contiguous [of 0 "unat (fsize rf)" 4 rxm] d' assms(10)
    by (simp add: fifo_ahead_def fifo_cap_def hspi_consts)
  then have "take 2 (fifo_ahead rf 4) \<noteq> [0x48, 0x53]" using assms(16) by simp
  moreover have "0 < rx_done d'" using assms(14,15) d' by (simp add: rx_done_def)
  moreover have "buf \<noteq> []" using assms(17) by (auto simp: hspi_consts)
  ultimately show ?thesis
    using hspi_read_total [OF d'(1,2), of buf] d' assms(17) by (auto simp: hspi_consts)
qed

lemma hspi_reopen_resets_system_witness:
  "\<exists>mem d' ret buf' d''. hif_hspi_open (Some demo_hif_info) (demo_alloc mem) (demo_alloc mem)
       (hif_hspi_close (demo_dev mem 32)) = (0, d') \<and>
     hif_hspi_read (replicate 508 0) d' = Some (ret, buf', d'') \<and> SystemReset \<in> set (events d'')"
proof -
  define mem :: "u8 list" where "mem = replicate HSPI_FIFO_SIZE 0"
  have "replicate 2 (0 :: u8) = [0, 0]" by (simp add: numeral_2_eq_2)
  then have mem: "length mem = HSPI_FIFO_SIZE" "take 2 mem = [0, 0]"
    by (simp_all add: mem_def hspi_consts)
  let ?c = "hif_hspi_close (demo_dev mem 32)"
  have "device_message (sys_reg ?c) = hspi_slot_msg" "hif_hspi_queue_count HSPI_RXQ ?c = 0"
    by (simp_all add: demo_dev_def demo_que_def que_reg_def hif_hspi_queue_count_def hif_hspi_close_def
        hif_hspi_fifo_delete_def hspi_close_queue_def emit_def hif_hspi_queue_setup_def
        hif_hspi_queue_disable_def hif_hspi_queue_disable_irq_def hif_hspi_queue_clear_irq_def upd_que_reg_def)
  then obtain d' where d': "hif_hspi_open (Some demo_hif_info) (demo_alloc mem) (demo_alloc mem) ?c = (0, d')"
      "hif_hspi_queue_count HSPI_RXQ d' = 0"
    using hspi_open_ok [of demo_hif_info "demo_alloc mem" "demo_alloc mem" mem mem ?c] mem
    by (auto simp: demo_hif_info_def demo_alloc_def hspi_slot_msg_def)
  have "\<exists>ret buf' d''. hif_hspi_read (replicate 508 0) d' = Some (ret, buf', d'') \<and>
      SystemReset \<in> set (events d'')"
    by (rule hspi_reopen_resets_system [OF d'(1), of mem mem])
      (use d' mem in \<open>simp_all add: demo_hif_info_def demo_alloc_def demo_dev_def hspi_slot_msg_def
        HSPI_SLOT_DATA_LEN_MAX_def HSPI_SLOT_SIZE_def HSPI_SLOT_HDR_SIZE_def\<close>)
  with d'(1) show ?thesis by blast
qed

text \<open>Opening after boot establishes both invariants: with the counters at their initial zero
  and buffers at usable addresses, a successful open leaves the receive and the transmit side in a
  state from which every read and write above is correct.\<close>
theorem hspi_open_establishes_invariants:
  assumes "i_type nfo = HIF_TYPE_HSPI" and "rx_fifo_size nfo = int HSPI_FIFO_SIZE"
    and "tx_fifo_size nfo = int HSPI_FIFO_SIZE" and "rx_fifo_addr nfo = None" and "tx_fifo_addr nfo = None"
    and "a_fifo rxe" and "a_fifo txe" and "a_buf rxe = Some rxm" and "length rxm = HSPI_FIFO_SIZE"
    and "a_buf txe = Some txm" and "length txm = HSPI_FIFO_SIZE"
    and "length (device_message (sys_reg d)) = 4" and "base_ok (a_addr rxe)" and "base_ok (a_addr txe)"
    and "rx_seq d = 0" and "tx_seq d = 0" and "rxq_total_cnt d = 0" and "txq_total_cnt d = 0"
  shows "\<exists>d'. hif_hspi_open (Some nfo) rxe txe d = (0, d') \<and> rx_ok d' \<and> tx_ok d' \<and>
    q_enable (rxq_reg d') \<and> q_enable (txq_reg d') \<and> irq_enable (rxq_reg d')"
proof -
  obtain d' rf tf where d': "hif_hspi_open (Some nfo) rxe txe d = (0, d')"
    "rx_fifo d' = Some rf" "tx_fifo d' = Some tf" "fifo_wf rf" "fifo_list rf = []"
    "fifo_cap rf = HSPI_FIFO_SIZE" "push_idx rf = 0" "fifo_wf tf" "fifo_list tf = []"
    "fifo_cap tf = HSPI_FIFO_SIZE" "pop_idx tf = 0" "rx_base d' = a_addr rxe" "tx_base d' = a_addr txe"
    "q_enable (rxq_reg d')" "q_enable (txq_reg d')" "irq_enable (rxq_reg d')"
    "rx_seq d' = 0" "tx_seq d' = 0" "rxq_total_cnt d' = 0" "txq_total_cnt d' = 0"
    using hspi_open_ok [OF assms(1-12)] assms(15-18) by auto
  then have "rx_ok d'" "tx_ok d'" using assms(13,14)
    by (auto simp: rx_ok_def tx_ok_def hspi_consts simp del: length_fifo_list intro!: exI [of _ "0 :: nat"])
  with d' show ?thesis by blast
qed

lemma hspi_open_establishes_invariants_witness:
  "\<exists>mem d'. hif_hspi_open (Some demo_hif_info) (demo_alloc mem) (demo_alloc mem) (demo_dev mem 0) = (0, d') \<and>
     rx_ok d' \<and> tx_ok d'"
proof -
  define mem :: "u8 list" where "mem = replicate HSPI_FIFO_SIZE 0"
  have mem: "length mem = HSPI_FIFO_SIZE" by (simp add: mem_def)
  have "base_ok 0x20000000" by (simp add: base_ok_def hspi_consts)
  with hspi_open_establishes_invariants [of demo_hif_info "demo_alloc mem" "demo_alloc mem" mem mem "demo_dev mem 0"] mem
  show ?thesis by (auto simp: demo_hif_info_def demo_alloc_def demo_dev_def hspi_slot_msg_def)
qed

text \<open>Waiting before sleep ends exactly as intended: with a timeout, or when the checked queues
  drain at some poll, the loop of \<open>_hif_hspi_enter_sleep\<close> returns, either at a poll that found the
  checked queues empty or at the timeout when no earlier poll did; without a timeout it returns only
  if they do drain.\<close>
theorem hspi_sleep_wait_result:
  shows "(0 < timeout \<or> (\<exists>t. drained polls ctx crx t) \<longrightarrow>
     (\<exists>t x y. hspi_sleep_loop polls ctx crx timeout 0 prev = Some (t, x, y) \<and>
       (0 < timeout \<longrightarrow> t \<le> timeout) \<and> (x = 0 \<and> y = 0 \<and> drained polls ctx crx t \<or>
         t = timeout \<and> (0 < x \<or> 0 < y) \<and> (\<forall>u < timeout. \<not> drained polls ctx crx u)))) \<and>
    (hspi_sleep_loop polls ctx crx 0 0 prev \<noteq> None \<longrightarrow> (\<exists>t. drained polls ctx crx t))"
  using sleep_loop_total [of timeout polls ctx crx prev] sleep_loop_result [of polls ctx crx 0 prev]
  by blast

lemma hspi_sleep_wait_result_witness:
  "\<exists>x y. hspi_sleep_loop (\<lambda>t. (if t < 5 then 2 else 0, 1)) True False 3 0 (9, 9) = Some (3, x, y) \<and> (0 < x \<or> 0 < y)"
proof -
  have nd: "\<not> drained (\<lambda>t. (if t < 5 then 2 else 0, 1)) True False u" if "u \<le> 3" for u
    using that by (simp add: drained_def)
  show ?thesis
    using hspi_sleep_wait_result [of 3 "\<lambda>t. (if t < 5 then 2 else 0, 1)" True False "(9, 9)"] nd by auto
qed

subsection \<open>The host's command layer\<close>

text \<open>The command checksum detects every error of one or two bits in a command word.\<close>
theorem hspi_crc7_detects_two_bit_errors:
  assumes "i < 32" and "j < 32"
  shows "hspi_crc7 (le32 (opcode XOR push_bit i 1)) \<noteq> hspi_crc7 (le32 opcode) \<and>
    (i \<noteq> j \<longrightarrow> hspi_crc7 (le32 (opcode XOR push_bit i 1 XOR push_bit j 1)) \<noteq> hspi_crc7 (le32 opcode))"
  by (rule crc7_detects [OF assms])

lemma hspi_crc7_detects_two_bit_errors_witness:
  "hspi_crc7 (le32 (0 XOR push_bit 3 1 XOR push_bit 30 1)) \<noteq> hspi_crc7 (le32 0)"
  using hspi_crc7_detects_two_bit_errors [of 3 30 0] by simp

text \<open>Commands go out big-endian with all fields intact: the bytes of a converted word are the
  reversed bytes of the word, converting twice gives the word back, and the slot commands carry
  address, length and the direction, burst and fixed-address bits they are built from.\<close>
theorem hspi_opcode_fields:
  assumes "unat addr < 256" and "len < 8192"
  shows "le32 (hspi_convert_byteorder_32bit v) = rev (le32 v) \<and>
    hspi_convert_byteorder_32bit (hspi_convert_byteorder_32bit v) = v \<and>
    (\<forall>c \<in> {opcode_write_data addr len, opcode_read_data addr len}.
       op_address c = unat addr \<and> op_length c = len \<and> op_burst c \<and> op_fixed c \<and>
       (op_write c \<longleftrightarrow> c = opcode_write_data addr len))"
  using opcode_fields [OF assms] le32_byteorder byteorder_invol by auto

lemma hspi_opcode_fields_witness:
  "op_address (opcode_write_data 0x31 512) = 0x31 \<and> op_length (opcode_write_data 0x31 512) = 512"
  using hspi_opcode_fields [where addr = "0x31" and len = 512] by simp

end
