(* ===== verification/FifoSpec.thy ===== *)
theory FifoSpec
  imports HifFifo
begin

text \<open>
  An abstract queue and the runs of FIFO operations that refine it.
\<close>

subsection \<open>Runs of operations\<close>

datatype 'a fifo_op = Write "'a list" | Read int | Skip int | Putc 'a | Getc | Reset

text \<open>One operation of the code: the bytes it hands out and the new record.\<close>

definition fifo_step :: "'a hif_fifo \<Rightarrow> 'a fifo_op \<Rightarrow> (int \<times> 'a list \<times> 'a hif_fifo) option" where
  "fifo_step f oper = (case oper of
      Write b \<Rightarrow> map_option (\<lambda>(r, f'). (r, [], f')) (hif_fifo_write f (Some b) (int (length b)))
    | Read n \<Rightarrow> hif_fifo_read f True n
    | Skip n \<Rightarrow> hif_fifo_read f False n
    | Putc c \<Rightarrow> Some (1, [], hif_fifo_putc f c)
    | Getc \<Rightarrow> (case hif_fifo_getc f of (c, f') \<Rightarrow> Some (1, [c], f'))
    | Reset \<Rightarrow> Some (0, [], hif_fifo_reset f))"

text \<open>The bounded queue; putting to a full and taking from an empty queue are excluded.\<close>

definition queue_step :: "nat \<Rightarrow> 'a list \<Rightarrow> 'a fifo_op \<Rightarrow> (int \<times> 'a list \<times> 'a list) option" where
  "queue_step cap q oper = (case oper of
      Write b \<Rightarrow> (let n = min (length b) (cap - length q) in Some (int n, [], q @ take n b))
    | Read n \<Rightarrow> (if n < 0 then None else
        (let k = min (nat n) (length q) in Some (int k, take k q, drop k q)))
    | Skip n \<Rightarrow> (if n < 0 then None else
        (let k = min (nat n) (length q) in Some (int k, [], drop k q)))
    | Putc c \<Rightarrow> (if length q < cap then Some (1, [], q @ [c]) else None)
    | Getc \<Rightarrow> (case q of [] \<Rightarrow> None | c # cs \<Rightarrow> Some (1, [c], cs))
    | Reset \<Rightarrow> Some (0, [], []))"

fun run_ops :: "('s \<Rightarrow> 'op \<Rightarrow> (int \<times> 'a list \<times> 's) option) \<Rightarrow> 's \<Rightarrow> 'op list \<Rightarrow>
   ((int \<times> 'a list) list \<times> 's) option" where
  "run_ops step s [] = Some ([], s)"
| "run_ops step s (x # xs) = (case step s x of
     None \<Rightarrow> None
   | Some (r, out, s') \<Rightarrow> map_option (\<lambda>(rs, s''). ((r, out) # rs, s'')) (run_ops step s' xs))"

lemma putc_as_write:
  assumes "fifo_wf f" and "length (fifo_list f) < fifo_cap f"
  shows "hif_fifo_write f (Some [c]) 1 = Some (1, hif_fifo_putc f c)"
proof -
  have "hif_fifo_write f (Some [c]) 1 =
    (let n = min (nat 1) (unat (fsize f) - unat (cnt f))
     in Some (int n, f\<lparr>buffer := ring_put (buffer f) (unat (fsize f)) (unat (push_idx f)) (take n [c]),
         push_idx := push_idx f + of_nat n, cnt := cnt f + of_nat n\<rparr>))"
    using fifo_write_eq [OF assms(1), of 1 "Some [c]"] by simp
  moreover have "min (nat 1) (unat (fsize f) - unat (cnt f)) = 1"
    using assms(2) by (simp add: fifo_cap_def)
  ultimately show ?thesis by (simp add: hif_fifo_putc_def Let_def unat_mod_distrib)
qed

lemma getc_as_read:
  assumes "fifo_wf f" and "fifo_list f \<noteq> []"
  shows "hif_fifo_read f True 1 = Some (1, [fst (hif_fifo_getc f)], snd (hif_fifo_getc f))"
proof -
  have c: "0 < unat (cnt f)" using assms(2) by (simp add: fifo_list_def ring_def)
  then have m: "min (nat 1) (unat (cnt f)) = 1" by simp
  obtain k where k: "unat (cnt f) = Suc k" using c by (cases "unat (cnt f)") auto
  have "take 1 (fifo_list f) = [buffer f ! unat (pop_idx f mod fsize f)]"
    by (simp add: fifo_list_def k ring_Suc_left unat_mod_distrib)
  then show ?thesis
    using fifo_read_eq [OF assms(1), of 1 True] m by (simp add: Let_def hif_fifo_getc_def)
qed

lemma step_refines:
  assumes wf: "fifo_wf f" and "queue_step (fifo_cap f) (fifo_list f) oper = Some (r, out, q)"
  shows "\<exists>f'. fifo_step f oper = Some (r, out, f') \<and> fifo_wf f' \<and> fifo_cap f' = fifo_cap f \<and>
    fifo_list f' = q"
proof (cases oper)
  case (Write b)
  then show ?thesis using assms(2) fifo_write_law [OF wf, of "int (length b)" b]
    by (auto simp: queue_step_def fifo_step_def Let_def)
next
  case (Read n)
  then show ?thesis using assms(2) fifo_read_law [OF wf, of n, of _ True]
    by (auto simp: queue_step_def fifo_step_def Let_def split: if_splits)
next
  case (Skip n)
  then show ?thesis using assms(2) fifo_read_law [OF wf, of n, of _ False]
    by (auto simp: queue_step_def fifo_step_def Let_def split: if_splits)
next
  case (Putc c)
  then have l: "length (fifo_list f) < fifo_cap f"
    using assms(2) by (auto simp: queue_step_def split: if_splits)
  then have "1 = min (nat 1) (fifo_cap f - length (fifo_list f))" by simp
  from fifo_write_law [OF wf _ _ this, of "[c]"] putc_as_write [OF wf l, of c] show ?thesis
    using assms(2) Putc l by (auto simp: queue_step_def fifo_step_def)
next
  case Getc
  then have ne: "fifo_list f \<noteq> []"
    using assms(2) by (auto simp: queue_step_def split: list.splits)
  then have "1 = min (nat 1) (length (fifo_list f))" by (cases "fifo_list f") auto
  from fifo_read_law [OF wf _ this, of True] getc_as_read [OF wf ne] show ?thesis
    using assms(2) Getc ne by (auto simp: queue_step_def fifo_step_def split: list.splits prod.splits)
next
  case Reset
  then show ?thesis using assms(2) fifo_wf_reset [OF wf]
    by (auto simp: queue_step_def fifo_step_def fifo_list_def fifo_cap_def hif_fifo_reset_def)
qed

subsection \<open>Block transfers byte by byte\<close>

lemma foldl_putc:
  assumes "fifo_wf f" and "length (fifo_list f) + length b \<le> fifo_cap f"
  shows "foldl hif_fifo_putc f b =
    f\<lparr>buffer := ring_put (buffer f) (unat (fsize f)) (unat (push_idx f)) b,
      push_idx := push_idx f + of_nat (length b), cnt := cnt f + of_nat (length b)\<rparr>"
  using assms
proof (induction b arbitrary: f)
  case (Cons c b)
  let ?s = "unat (fsize f)"
  have l: "length (fifo_list f) < fifo_cap f" using Cons.prems(2) by (simp del: length_fifo_list)
  then have "1 = min (nat 1) (fifo_cap f - length (fifo_list f))" by simp
  from fifo_write_law [OF Cons.prems(1) _ _ this, of "[c]"] putc_as_write [OF Cons.prems(1) l, of c]
  have f1: "fifo_wf (hif_fifo_putc f c)" "fifo_cap (hif_fifo_putc f c) = fifo_cap f"
      "length (fifo_list (hif_fifo_putc f c)) = length (fifo_list f) + 1"
    by auto
  have "?s dvd 2 ^ 32" using Cons.prems(1) by (simp add: fifo_wf_def fifo_geom_def)
  then have "Suc (unat (push_idx f)) mod ?s = unat (push_idx f + 1) mod ?s"
    using unat_add_of_nat_mod_dvd [of ?s "push_idx f" 1] by simp
  then have rp: "ring_put x ?s (unat (push_idx f + 1)) b = ring_put x ?s (Suc (unat (push_idx f))) b" for x
    by (rule ring_put_cong_mod [OF sym])
  have "length (fifo_list (hif_fifo_putc f c)) + length b \<le> fifo_cap (hif_fifo_putc f c)"
    using Cons.prems(2) f1 by simp
  from Cons.IH [OF f1(1) this] show ?case
    by (simp add: rp [simplified] hif_fifo_putc_def unat_mod_distrib add.assoc)
qed simp

fun getcs :: "nat \<Rightarrow> 'a hif_fifo \<Rightarrow> 'a list \<times> 'a hif_fifo" where
  "getcs 0 f = ([], f)"
| "getcs (Suc n) f = (let (c, f1) = hif_fifo_getc f; (cs, f2) = getcs n f1 in (c # cs, f2))"

lemma getcs_eq:
  assumes "fifo_wf f" and "n \<le> length (fifo_list f)"
  shows "getcs n f = (take n (fifo_list f), f\<lparr>pop_idx := pop_idx f + of_nat n, cnt := cnt f - of_nat n\<rparr>)"
  using assms
proof (induction n arbitrary: f)
  case (Suc n)
  then have ne: "fifo_list f \<noteq> []" by (auto simp del: length_fifo_list)
  then have "1 = min (nat 1) (length (fifo_list f))" by (cases "fifo_list f") auto
  from fifo_read_law [OF Suc.prems(1) _ this, of True] getc_as_read [OF Suc.prems(1) ne]
  have f1: "[fst (hif_fifo_getc f)] = take 1 (fifo_list f)" "fifo_wf (snd (hif_fifo_getc f))"
      "fifo_list (snd (hif_fifo_getc f)) = drop 1 (fifo_list f)"
    by auto
  have "n \<le> length (fifo_list (snd (hif_fifo_getc f)))" using Suc.prems(2) f1(3) by simp
  from Suc.IH [OF f1(2) this] f1(1,3) ne show ?case
    by (cases "fifo_list f") (simp_all add: hif_fifo_getc_def Let_def algebra_simps)
qed simp

lemma fifo_write_putcs:
  assumes "fifo_wf f" and "length (fifo_list f) + length b \<le> fifo_cap f"
  shows "hif_fifo_write f (Some b) (int (length b)) = Some (int (length b), foldl hif_fifo_putc f b)"
proof -
  have "min (nat (int (length b))) (unat (fsize f) - unat (cnt f)) = length b"
    using assms(2) by (simp add: fifo_cap_def)
  then show ?thesis
    using fifo_write_eq [OF assms(1), of "int (length b)" "Some b"] foldl_putc [OF assms]
    by (simp add: Let_def)
qed

lemma fifo_read_getcs:
  assumes "fifo_wf f" and "n \<le> length (fifo_list f)"
  shows "hif_fifo_read f True (int n) = Some (int n, fst (getcs n f), snd (getcs n f))"
  using fifo_read_eq [OF assms(1), of "int n" True] getcs_eq [OF assms] assms(2)
  by (simp add: Let_def min_def)

definition fifo3 :: "nat hif_fifo" where
  "fifo3 = \<lparr>fsize = 3, cnt = 0, push_idx = 0xFFFFFFFE, pop_idx = 0xFFFFFFFE,
      static_buffer = True, buffer = [0, 0, 0], buffer_end = 3\<rparr>"

lemma fifo_loops_eval:
  "i < len \<Longrightarrow> hif_fifo_write_loop b len i f =
     (let addr = unat (push_idx f mod fsize f);
          push_len = (if buffer_end f - addr > len - i then len - i else buffer_end f - addr)
      in hif_fifo_write_loop b len (i + push_len)
           (f\<lparr>buffer := memcpy_at (buffer f) addr (take push_len (drop i b)),
              push_idx := push_idx f + of_nat push_len\<rparr>))"
  "\<not> i < len \<Longrightarrow> hif_fifo_write_loop b len i f = Some f"
  "i < len \<Longrightarrow> hif_fifo_read_loop len i f out =
     (let addr = unat (pop_idx f mod fsize f);
          pop_len = (if buffer_end f - addr > len - i then len - i else buffer_end f - addr)
      in hif_fifo_read_loop len (i + pop_len) (f\<lparr>pop_idx := pop_idx f + of_nat pop_len\<rparr>)
           (out @ take pop_len (drop addr (buffer f))))"
  "\<not> i < len \<Longrightarrow> hif_fifo_read_loop len i f out = Some (out, f)"
  by (simp_all add: hif_fifo_write_loop.simps hif_fifo_read_loop.simps)

subsection \<open>Properties\<close>

definition fifo4 :: "nat hif_fifo" where
  "fifo4 = \<lparr>fsize = 4, cnt = 0, push_idx = 0xFFFFFFFE, pop_idx = 0xFFFFFFFE,
      static_buffer = True, buffer = [0, 0, 0, 0], buffer_end = 4\<rparr>"

lemma fifo4_facts: "fifo_wf fifo4" "fifo_list fifo4 = []" "fifo_cap fifo4 = 4"
  by (simp_all add: fifo4_def fifo_wf_def fifo_geom_def fifo_list_def fifo_cap_def)

text \<open>C1: Every run of FIFO operations refines the bounded queue.  If the abstract queue can
  perform a sequence of block writes, block reads, skips, single puts and gets and resets, the ring
  buffer performs it too, hands out the same bytes and counts at every step, keeps its invariant and
  ends up holding the queue's contents, also when the 32-bit indices wrap around.\<close>
theorem fifo_refines_queue:
  assumes "fifo_wf f" and "run_ops (queue_step (fifo_cap f)) (fifo_list f) opers = Some (rs, q)"
  shows "\<exists>f'. run_ops fifo_step f opers = Some (rs, f') \<and> fifo_wf f' \<and> fifo_list f' = q"
  using assms
proof (induction opers arbitrary: f rs)
  case (Cons x xs)
  then obtain r out q1 rs1 where q1: "queue_step (fifo_cap f) (fifo_list f) x = Some (r, out, q1)"
      "run_ops (queue_step (fifo_cap f)) q1 xs = Some (rs1, q)" "rs = (r, out) # rs1"
    by (auto split: option.splits)
  from step_refines [OF Cons.prems(1) q1(1)] obtain f1 where
    f1: "fifo_step f x = Some (r, out, f1)" "fifo_wf f1" "fifo_cap f1 = fifo_cap f" "fifo_list f1 = q1"
    by blast
  from Cons.IH [OF f1(2), of rs1] f1 q1 show ?case by auto
qed simp

text \<open>The indices of the example wrap around within the first write.\<close>
lemma fifo_refines_queue_witness:
  "\<exists>f'. run_ops fifo_step fifo4 [Write [10, 11, 12], Getc, Write [13, 14], Read 3] =
     Some ([(3, []), (1, [10]), (2, []), (3, [11, 12, 13])], f') \<and> fifo_wf f' \<and> fifo_list f' = [14]"
  using fifo_refines_queue [OF fifo4_facts(1), of "[Write [10, 11, 12], Getc, Write [13, 14], Read 3]"]
  by (simp add: fifo4_facts queue_step_def)

text \<open>The block operations move bytes exactly as repeated single-byte operations would: a
  block write that fits leaves the very record that putting the bytes one by one leaves, and a
  block read of available bytes returns the bytes and the record of as many single gets.\<close>
theorem fifo_blocks_bytewise:
  assumes "fifo_wf f" and "length (fifo_list f) + length b \<le> fifo_cap f"
    and "n \<le> length (fifo_list f)"
  shows "hif_fifo_write f (Some b) (int (length b)) = Some (int (length b), foldl hif_fifo_putc f b) \<and>
    hif_fifo_read f True (int n) = Some (int n, fst (getcs n f), snd (getcs n f))"
  using fifo_write_putcs [OF assms(1,2)] fifo_read_getcs [OF assms(1,3)] by simp

lemma fifo_blocks_bytewise_witness:
  "hif_fifo_write fifo4 (Some [7, 8, 9]) 3 = Some (3, foldl hif_fifo_putc fifo4 [7, 8, 9])"
  using fifo_blocks_bytewise [OF fifo4_facts(1), of "[7, 8, 9]" 0] by (simp add: fifo4_facts)

text \<open>Committing data the DMA has already stored behind the write index (a write with a NULL
  buffer) gives the same record as copying that data with an ordinary write.\<close>
theorem fifo_dma_commit:
  assumes "fifo_wf f" and "length (fifo_list f) + length b \<le> fifo_cap f"
  shows "hif_fifo_write (f\<lparr>buffer := ring_put (buffer f) (unat (fsize f)) (unat (push_idx f)) b\<rparr>) None
      (int (length b)) = hif_fifo_write f (Some b) (int (length b))"
proof -
  let ?g = "f\<lparr>buffer := ring_put (buffer f) (unat (fsize f)) (unat (push_idx f)) b\<rparr>"
  have "fifo_wf ?g" using assms(1) by (simp add: fifo_wf_def fifo_geom_def)
  from fifo_write_eq [OF this, of "int (length b)" None]
    fifo_write_eq [OF assms(1), of "int (length b)" "Some b"] assms(2)
  show ?thesis by (simp add: Let_def fifo_cap_def)
qed

lemma fifo_dma_commit_witness:
  "hif_fifo_write (fifo4\<lparr>buffer := [9, 0, 7, 8]\<rparr>) None 3 = hif_fifo_write fifo4 (Some [7, 8, 9]) 3"
  using fifo_dma_commit [OF fifo4_facts(1), of "[7, 8, 9]"]
  by (simp add: fifo4_facts) (simp add: fifo4_def)

text \<open>The free-running indices need a size that divides \<open>2 ^ 32\<close>: with a size of 3, which
  \<open>_hif_fifo_create\<close> accepts, three bytes written across the wrap of the indices come out as
  10, 12 and a byte that was never written, where the queue gives 10, 11, 12.\<close>
theorem fifo_size3_loses_order:
  "map_option fst (run_ops fifo_step fifo3 [Write [10, 11], Write [12], Read 3]) =
     Some [(2, []), (1, []), (3, [10, 12, 0])] \<and>
   map_option fst (run_ops (queue_step 3) [] [Write [10, 11], Write [12], Read 3]) =
     Some [(2, []), (1, []), (3, [10, 11, 12 :: nat])]"
  by (simp add: fifo3_def fifo_step_def hif_fifo_write_def hif_fifo_read_def hif_fifo_free_size_def
    hif_fifo_fill_size_def fifo_loops_eval memcpy_at_def queue_step_def)

end
