(* ===== verification/Hif.thy ===== *)
theory Hif
  imports HspiLink
begin

text \<open>
  The host interface layer, \<open>sdk/apps/atcmd/hif.c\<close>: the driver chosen at open, the receive task and
  the dispatch of reads and writes.  The drivers compiled in are a table, \<open>None\<close> for a type left out
  of the build: its entry in the arrays of \<open>_hif_open\<close> and \<open>_hif_close\<close> is a NULL function
  pointer, and calling it is \<open>None\<close> here.  Whether FreeRTOS creates the task is an argument.  The HSPI driver's
  instance is here, the UART driver's in \<open>UartHif\<close>; the sizes of the FIFOs depend on the build.
\<close>

subsection \<open>State\<close>

record 'd hif_driver =
  d_open :: "hif_info \<Rightarrow> 'd \<Rightarrow> int \<times> 'd"
  d_close :: "'d \<Rightarrow> 'd"
  d_read :: "u8 list \<Rightarrow> 'd \<Rightarrow> (int \<times> u8 list \<times> 'd) option"
  d_write :: "u8 list \<Rightarrow> 'd \<Rightarrow> (int \<times> 'd) option"

type_synonym 'd driver_table = "hif_type \<Rightarrow> 'd hif_driver option"

record 'd hif =
  g_hif_type :: hif_type
  g_hif_rx_task :: "rx_params option"
  rx_notified :: nat
  driver_state :: 'd

definition hif_valid_type :: "hif_type \<Rightarrow> bool" where
  "hif_valid_type t = (case t of HIF_TYPE_NONE \<Rightarrow> False | _ \<Rightarrow> True)"

definition hif_set_type :: "hif_type \<Rightarrow> 'd hif \<Rightarrow> 'd hif" where
  "hif_set_type t st = st\<lparr>g_hif_type := t\<rparr>"

definition hif_get_type :: "'d hif \<Rightarrow> hif_type" where
  "hif_get_type st = g_hif_type st"

subsection \<open>Reading and writing\<close>

text \<open>Reads and writes of either UART type use the one UART driver, whichever of the two is built.\<close>

definition rw_driver :: "'d driver_table \<Rightarrow> hif_type \<Rightarrow> 'd hif_driver option" where
  "rw_driver T t = (case t of
      HIF_TYPE_NONE \<Rightarrow> None
    | HIF_TYPE_HSPI \<Rightarrow> T HIF_TYPE_HSPI
    | _ \<Rightarrow> (case T HIF_TYPE_UART of Some d \<Rightarrow> Some d | None \<Rightarrow> T HIF_TYPE_UART_HFC))"

definition hif_read :: "'d driver_table \<Rightarrow> u8 list \<Rightarrow> 'd hif \<Rightarrow> (int \<times> u8 list \<times> 'd hif) option" where
  "hif_read T buf st = (case rw_driver T (hif_get_type st) of
      None \<Rightarrow> Some (0, buf, st)
    | Some drv \<Rightarrow> map_option (\<lambda>(r, buf', d). (r, buf', st\<lparr>driver_state := d\<rparr>))
        (d_read drv buf (driver_state st)))"

definition hif_write :: "'d driver_table \<Rightarrow> u8 list \<Rightarrow> 'd hif \<Rightarrow> (int \<times> 'd hif) option" where
  "hif_write T buf st = (case rw_driver T (hif_get_type st) of
      None \<Rightarrow> Some (0, st)
    | Some drv \<Rightarrow> map_option (\<lambda>(r, d). (r, st\<lparr>driver_state := d\<rparr>))
        (d_write drv buf (driver_state st)))"

subsection \<open>The receive task\<close>

definition hif_rx_task_create :: "bool \<Rightarrow> rx_params \<Rightarrow> 'd hif \<Rightarrow> int \<times> 'd hif" where
  "hif_rx_task_create task_ok params st =
    (if \<not> rp_addr params \<or> rp_size params = 0 \<or> \<not> rp_cb params then (-1, st)
     else if g_hif_rx_task st = None \<and> task_ok then (0, st\<lparr>g_hif_rx_task := Some params\<rparr>)
     else (-1, st))"

definition hif_rx_task_delete :: "'d hif \<Rightarrow> 'd hif" where
  "hif_rx_task_delete st = (case g_hif_rx_task st of
      None \<Rightarrow> st
    | Some _ \<Rightarrow> st\<lparr>g_hif_rx_task := None\<rparr>)"

text \<open>
  \<open>_hif_rx_suspend\<close> takes the task's pending notifications, \<open>given\<close> of which arrive while it waits.
\<close>

definition hif_rx_suspend :: "int \<Rightarrow> nat \<Rightarrow> 'd hif \<Rightarrow> int \<times> 'd hif" where
  "hif_rx_suspend time given st =
    (if g_hif_rx_task st \<noteq> None then
       (if time \<le> 0 then (-1, st)
        else (int (rx_notified st + given), st\<lparr>rx_notified := 0\<rparr>))
     else (-1, st))"

definition hif_rx_resume :: "'d hif \<Rightarrow> 'd hif" where
  "hif_rx_resume st =
    (if g_hif_rx_task st \<noteq> None then st\<lparr>rx_notified := rx_notified st + 1\<rparr> else st)"

definition hif_rx_resume_isr :: "'d hif \<Rightarrow> 'd hif" where
  "hif_rx_resume_isr st =
    (if g_hif_rx_task st \<noteq> None then st\<lparr>rx_notified := rx_notified st + 1\<rparr> else st)"

text \<open>
  \<open>n\<close> rounds of the task's endless loop.  \<open>env k\<close> is what the rest of the system does to the state
  before round \<open>k\<close>; the result is the data handed to the callback, call by call.
\<close>

fun hif_rx_task ::
  "(u8 list \<Rightarrow> 's \<Rightarrow> (int \<times> u8 list \<times> 's) option) \<Rightarrow> ('s \<Rightarrow> 's) \<Rightarrow> (nat \<Rightarrow> 's \<Rightarrow> 's) \<Rightarrow> bool \<Rightarrow>
   nat \<Rightarrow> nat \<Rightarrow> u8 list \<Rightarrow> 's \<Rightarrow> (u8 list list \<times> 's) option" where
  "hif_rx_task rd suspend env cb k 0 buf st = Some ([], st)"
| "hif_rx_task rd suspend env cb k (Suc n) buf st =
    (case rd buf (env k st) of
       None \<Rightarrow> None
     | Some (ret, buf', st') \<Rightarrow>
         if ret > 0 \<and> cb then
           map_option (\<lambda>(ds, s). (take (nat ret) buf' # ds, s))
             (hif_rx_task rd suspend env cb (Suc k) n buf' st')
         else hif_rx_task rd suspend env cb (Suc k) n buf' (suspend st'))"

subsection \<open>Opening and closing\<close>

definition hif_close :: "'d driver_table \<Rightarrow> 'd hif \<Rightarrow> 'd hif option" where
  "hif_close T st =
    (if hif_get_type st = HIF_TYPE_NONE then Some st
     else (let st1 = hif_rx_task_delete st
           in (case T (hif_get_type st1) of
                 None \<Rightarrow> None
               | Some drv \<Rightarrow> Some (hif_set_type HIF_TYPE_NONE
                   (st1\<lparr>driver_state := d_close drv (driver_state st1)\<rparr>)))))"

text \<open>The FIFO sizes of the build: slots of 512 bytes with the SPI driver, of 128 bytes without.\<close>

definition CONFIG_HIF_RX_FIFO_SIZE :: "'d driver_table \<Rightarrow> int" where
  "CONFIG_HIF_RX_FIFO_SIZE T = (if T HIF_TYPE_HSPI \<noteq> None then 512 * ((32 * 1024 div 512) div 2)
     else 128 * ((32 * 1024 div 128) * 2))"

definition CONFIG_HIF_TX_FIFO_SIZE :: "'d driver_table \<Rightarrow> int" where
  "CONFIG_HIF_TX_FIFO_SIZE T = (if T HIF_TYPE_HSPI \<noteq> None then 512 * ((32 * 1024 div 512) div 2)
     else 128 * 0)"

definition hif_open ::
  "'d driver_table \<Rightarrow> bool \<Rightarrow> hif_info option \<Rightarrow> 'd hif \<Rightarrow> (int \<times> 'd hif) option" where
  "hif_open T task_ok info st = (case info of None \<Rightarrow> Some (-1, st) | Some nfo \<Rightarrow>
    (if \<not> hif_valid_type (i_type nfo) then Some (-1, st)
     else if hif_get_type st \<noteq> HIF_TYPE_NONE then Some (-1, st)
     else
       (let nfo1 = nfo\<lparr>rx_fifo_addr := None, rx_fifo_size := CONFIG_HIF_RX_FIFO_SIZE T,
                      tx_fifo_addr := None, tx_fifo_size := CONFIG_HIF_TX_FIFO_SIZE T\<rparr>
        in (case T (i_type nfo) of
              None \<Rightarrow> None
            | Some drv \<Rightarrow>
                (case d_open drv nfo1 (driver_state st) of (r, d) \<Rightarrow>
                   (let st1 = st\<lparr>driver_state := d\<rparr>
                    in if r \<noteq> 0 then map_option (\<lambda>s. (-1, s)) (hif_close T st1)
                       else (case hif_rx_task_create task_ok (i_rx_params nfo1) st1 of (r, st2) \<Rightarrow>
                         if r \<noteq> 0 then Some (-1, st2)
                         else Some (0, hif_set_type (i_type nfo) st2))))))))"

subsection \<open>The interface of a driver's read\<close>

text \<open>What the receive task needs of a read: it returns, within the buffer, and keeps its invariant.\<close>

locale packet_reader =
  fixes rd :: "u8 list \<Rightarrow> 's \<Rightarrow> (int \<times> u8 list \<times> 's) option"
    and invar :: "'s \<Rightarrow> bool"
  assumes rd_returns: "invar s \<Longrightarrow> \<exists>r buf' s'. rd buf s = Some (r, buf', s') \<and> 0 \<le> r \<and>
    r \<le> int (length buf) \<and> length buf' = length buf \<and> invar s'"
begin

lemma task_returns:
  assumes "\<And>s. invar s \<Longrightarrow> invar (suspend s)" and "\<And>k s. invar s \<Longrightarrow> invar (env k s)" and "invar s"
  shows "\<exists>ds s'. hif_rx_task rd suspend env cb k n buf s = Some (ds, s') \<and> invar s' \<and>
    (\<forall>c \<in> set ds. c \<noteq> [] \<and> length c \<le> length buf) \<and> length ds \<le> n"
  using assms(3)
proof (induction n arbitrary: k buf s)
  case (Suc n)
  obtain r buf' s1 where r: "rd buf (env k s) = Some (r, buf', s1)" "0 \<le> r" "r \<le> int (length buf)"
      "length buf' = length buf" "invar s1"
    using rd_returns [OF assms(2) [OF Suc.prems]] by blast
  show ?case
  proof (cases "r > 0 \<and> cb")
    case True
    obtain ds s' where ih: "hif_rx_task rd suspend env cb (Suc k) n buf' s1 = Some (ds, s')" "invar s'"
        "\<forall>c \<in> set ds. c \<noteq> [] \<and> length c \<le> length buf'" "length ds \<le> n"
      using Suc.IH [OF r(5)] by blast
    have "take (nat r) buf' \<noteq> []" using True r by (cases buf') auto
    then show ?thesis using True r ih by auto
  next
    case False
    obtain ds s' where "hif_rx_task rd suspend env cb (Suc k) n buf' (suspend s1) = Some (ds, s')" "invar s'"
        "\<forall>c \<in> set ds. c \<noteq> [] \<and> length c \<le> length buf'" "length ds \<le> n"
      using Suc.IH [OF assms(1) [OF r(5)]] by blast
    with False r show ?thesis by auto
  qed
qed auto

end

text \<open>The SPI driver of this build.\<close>

definition hspi_table :: "alloc_env \<Rightarrow> alloc_env \<Rightarrow> hspi_dev driver_table" where
  "hspi_table rxe txe t = (if t = HIF_TYPE_HSPI then
     Some \<lparr>d_open = (\<lambda>nfo. hif_hspi_open (Some nfo) rxe txe), d_close = hif_hspi_close,
           d_read = hif_hspi_read, d_write = hif_hspi_write\<rparr> else None)"

definition rx_usable :: "hspi_dev hif \<Rightarrow> bool" where
  "rx_usable st \<longleftrightarrow> (g_hif_type st = HIF_TYPE_HSPI \<longrightarrow>
     (\<exists>f. rx_fifo (driver_state st) = Some f \<and> fifo_wf f))"

lemma hspi_read_returns:
  assumes "rx_fifo d = Some f" and "fifo_wf f"
  shows "\<exists>r buf' d' f'. hif_hspi_read buf d = Some (r, buf', d') \<and> 0 \<le> r \<and> r \<le> int (length buf) \<and>
    length buf' = length buf \<and> rx_fifo d' = Some f' \<and> fifo_wf f'"
proof (cases "buf = []")
  case True
  then show ?thesis using assms by (auto simp: hif_hspi_read_def)
next
  case False
  from hspi_read_total [OF assms this] show ?thesis by blast
qed

lemma hif_read_returns:
  assumes "rx_usable st"
  shows "\<exists>r buf' st'. hif_read (hspi_table rxe txe) buf st = Some (r, buf', st') \<and> 0 \<le> r \<and>
    r \<le> int (length buf) \<and> length buf' = length buf \<and> rx_usable st'"
proof (cases "g_hif_type st = HIF_TYPE_HSPI")
  case True
  then obtain f where "rx_fifo (driver_state st) = Some f" "fifo_wf f" using assms by (auto simp: rx_usable_def)
  from hspi_read_returns [OF this, of buf] True show ?thesis
    by (auto simp: hif_read_def hif_get_type_def rw_driver_def hspi_table_def rx_usable_def)
next
  case False
  then have "hif_read (hspi_table rxe txe) buf st = Some (0, buf, st)"
    by (cases "g_hif_type st") (simp_all add: hif_read_def hif_get_type_def rw_driver_def hspi_table_def)
  then show ?thesis using assms by simp
qed

interpretation hspi_rd: packet_reader "hif_read (hspi_table rxe txe)" rx_usable for rxe txe
  by unfold_locales (rule hif_read_returns)


subsection \<open>The life cycle as a state machine\<close>

inductive hif_step :: "'d driver_table \<Rightarrow> 'd hif \<Rightarrow> 'd hif \<Rightarrow> bool" for T where
  step_open: "hif_open T ok info st = Some (r, st') \<Longrightarrow> hif_step T st st'"
| step_close: "hif_close T st = Some st' \<Longrightarrow> hif_step T st st'"
| step_read: "hif_read T buf st = Some (r, buf', st') \<Longrightarrow> hif_step T st st'"
| step_write: "hif_write T buf st = Some (r, st') \<Longrightarrow> hif_step T st st'"
| step_resume: "hif_step T st (hif_rx_resume st)"
| step_resume_isr: "hif_step T st (hif_rx_resume_isr st)"
| step_suspend: "hif_rx_suspend time given st = (r, st') \<Longrightarrow> hif_step T st st'"

inductive_cases hif_stepE: "hif_step T st st'"

definition hif_init :: "'d \<Rightarrow> 'd hif" where
  "hif_init d = \<lparr>g_hif_type = HIF_TYPE_NONE, g_hif_rx_task = None, rx_notified = 0, driver_state = d\<rparr>"

text \<open>A driver is selected exactly while the task exists, and only one that is built in.\<close>

definition hif_inv :: "'d driver_table \<Rightarrow> 'd hif \<Rightarrow> bool" where
  "hif_inv T st \<longleftrightarrow> (g_hif_type st = HIF_TYPE_NONE \<longleftrightarrow> g_hif_rx_task st = None) \<and>
     (g_hif_type st \<noteq> HIF_TYPE_NONE \<longrightarrow> T (g_hif_type st) \<noteq> None)"

lemma hif_inv_init [inv_intros]: "hif_inv T (hif_init d)"
  by (simp add: hif_inv_def hif_init_def)






subsection \<open>Properties\<close>


definition nop_table :: "nat driver_table" where
  "nop_table t = (if t = HIF_TYPE_HSPI then Some \<lparr>d_open = (\<lambda>nfo d. (0, d + 1)), d_close = (\<lambda>d. d - 1),
     d_read = (\<lambda>b d. Some (0, b, d)), d_write = (\<lambda>b d. Some (int (length b), d))\<rparr> else None)"



text \<open>A failing open does not clean up: when the driver's open fails, or it succeeds and the
  receive task cannot be created, \<open>_hif_open\<close> returns \<open>-1\<close> with the type still unset, so the
  driver keeps what it allocated, its close is not called, and a later \<open>_hif_close\<close> does nothing.\<close>
theorem hif_open_failure_leaks:
  assumes "i_type nfo \<noteq> HIF_TYPE_NONE" and "hif_get_type st = HIF_TYPE_NONE" and "T (i_type nfo) = Some drv"
    and "d_open drv (nfo\<lparr>rx_fifo_addr := None, rx_fifo_size := CONFIG_HIF_RX_FIFO_SIZE T,
           tx_fifo_addr := None, tx_fifo_size := CONFIG_HIF_TX_FIFO_SIZE T\<rparr>) (driver_state st) = (r, d)"
    and "r \<noteq> 0 \<or> \<not> ok"
  shows "hif_open T ok (Some nfo) st = Some (-1, st\<lparr>driver_state := d\<rparr>) \<and>
    hif_close T (st\<lparr>driver_state := d\<rparr>) = Some (st\<lparr>driver_state := d\<rparr>)"
  using assms
  by (auto simp: hif_open_def hif_valid_type_def hif_get_type_def hif_close_def hif_rx_task_create_def Let_def
      split: hif_type.splits)

lemma hif_open_failure_leaks_witness:
  "hif_open nop_table False (Some demo_hif_info) (hif_init 0) = Some (-1, hif_init 1) \<and>
   hif_close nop_table (hif_init 1) = Some (hif_init 1)"
  using hif_open_failure_leaks [of demo_hif_info "hif_init 0" nop_table _ 0 1 False]
  by (simp add: demo_hif_info_def hif_init_def hif_get_type_def nop_table_def)

text \<open>The receive task survives any input: over the SPI driver every round of its loop returns,
  whatever the hardware stored in between, and everything handed to the callback is a non-empty piece
  that fits the task's buffer.\<close>
theorem hif_rx_task_never_fails:
  assumes "rx_usable st" and "\<And>k s. rx_usable s \<Longrightarrow> rx_usable (env k s)"
  shows "\<exists>ds st'. hif_rx_task (hif_read (hspi_table rxe txe)) (\<lambda>s. snd (hif_rx_suspend 100 0 s)) env cb 0 n buf st =
      Some (ds, st') \<and> rx_usable st' \<and> (\<forall>c \<in> set ds. c \<noteq> [] \<and> length c \<le> length buf) \<and> length ds \<le> n"
proof (rule hspi_rd.task_returns [OF _ assms(2,1)])
  fix s :: "hspi_dev hif" assume "rx_usable s"
  then show "rx_usable (snd (hif_rx_suspend 100 0 s))" by (simp add: hif_rx_suspend_def rx_usable_def)
qed

lemma hif_rx_task_never_fails_witness:
  "\<exists>st ds st'. rx_usable st \<and> g_hif_type st = HIF_TYPE_HSPI \<and>
     hif_rx_task (hif_read (hspi_table undefined undefined)) (\<lambda>s. snd (hif_rx_suspend 100 0 s)) (\<lambda>k s. s) True 0 5
       (replicate 600 0) st = Some (ds, st')"
proof -
  define mem :: "u8 list" where "mem = replicate HSPI_FIFO_SIZE 0xAA"
  let ?st = "\<lparr>g_hif_type = HIF_TYPE_HSPI, g_hif_rx_task = None, rx_notified = 0, driver_state = demo_dev mem 7\<rparr>"
  have "length mem = HSPI_FIFO_SIZE" by (simp add: mem_def)
  then have u: "rx_usable ?st" using demo_fifo_facts(1) by (auto simp: rx_usable_def demo_dev_def)
  obtain ds st' where "hif_rx_task (hif_read (hspi_table undefined undefined))
      (\<lambda>s. snd (hif_rx_suspend 100 0 s)) (\<lambda>k s. s) True 0 5 (replicate 600 0) ?st = Some (ds, st')"
    using hif_rx_task_never_fails [OF u, where env = "\<lambda>k s. s" and rxe = undefined and txe = undefined
        and cb = True and n = 5 and buf = "replicate 600 0"] by auto
  with u show ?thesis by (intro exI [of _ ?st] exI [of _ ds] exI [of _ st']) simp
qed

end
