(* ===== verification/HifDma.thy ===== *)
theory HifDma
  imports Prelude
begin

text \<open>
  The DMA controller driver, \<open>sdk/apps/atcmd/hif_dma.c\<close>.  The controller's registers are a
  record, a bit field is a word of its width or a \<open>bool\<close>; the status register
  \<open>EnabledChannels\<close> shows the channels' enable bits.  An interrupt handler is a value of the type
  \<open>'h\<close>, so that the handler tables can be compared.  The printing functions are left out.
\<close>

subsection \<open>Descriptors and registers\<close>

definition HIF_DMA_CHANNEL_MAX :: int where "HIF_DMA_CHANNEL_MAX = 8"
definition HIF_DMA_XFER_SIZE_MAX :: nat where "HIF_DMA_XFER_SIZE_MAX = 4096"
definition HIF_DMA_EPERM :: int where "HIF_DMA_EPERM = -1"
definition HIF_DMA_EINVAL :: int where "HIF_DMA_EINVAL = -2"
definition HIF_DMA_EBUSY :: int where "HIF_DMA_EBUSY = -3"
definition HIF_DMA_BSIZE_1 :: u8 where "HIF_DMA_BSIZE_1 = 0"
definition HIF_DMA_BSIZE_128 :: u8 where "HIF_DMA_BSIZE_128 = 6"
definition HIF_DMA_BSIZE_MAX :: u8 where "HIF_DMA_BSIZE_MAX = 8"
definition HIF_DMA_WIDTH_8 :: u8 where "HIF_DMA_WIDTH_8 = 0"
definition HIF_DMA_WIDTH_MAX :: u8 where "HIF_DMA_WIDTH_MAX = 3"
definition HIF_DMA_AHB_M1 :: int where "HIF_DMA_AHB_M1 = 0"
definition HIF_DMA_AHB_M2 :: int where "HIF_DMA_AHB_M2 = 1"
definition HIF_DMA_AHB_MAX :: int where "HIF_DMA_AHB_MAX = 2"
definition HIF_DMA_PERI_ID_MAX :: int where "HIF_DMA_PERI_ID_MAX = 16"

lemmas dma_consts = HIF_DMA_CHANNEL_MAX_def HIF_DMA_XFER_SIZE_MAX_def HIF_DMA_EPERM_def
  HIF_DMA_EINVAL_def HIF_DMA_EBUSY_def HIF_DMA_BSIZE_1_def HIF_DMA_BSIZE_128_def
  HIF_DMA_BSIZE_MAX_def HIF_DMA_WIDTH_8_def HIF_DMA_WIDTH_MAX_def HIF_DMA_AHB_M1_def
  HIF_DMA_AHB_M2_def HIF_DMA_AHB_MAX_def HIF_DMA_PERI_ID_MAX_def

text \<open>\<open>dma_desc_t\<close>; the pointer \<open>Next\<close> is its address, 0 for NULL.\<close>

record dma_desc =
  SrcAddr :: u32
  DestAddr :: u32
  NextDesc :: u32
  XferSize :: "12 word"
  SBSize :: "3 word"
  DBSize :: "3 word"
  SWidth :: "3 word"
  DWidth :: "3 word"
  SAHBM :: bool
  DAHBM :: bool
  SAInc :: bool
  DAInc :: bool
  Privileged :: bool
  Bufferable :: bool
  Cacheable :: bool
  IntTC :: bool

record dma_peri =
  peri_Addr :: u32
  peri_ID :: "5 word"
  peri_AddrInc :: bool
  peri_FlowCtrl :: bool

text \<open>A channel's registers begin with a copy of the descriptor it works on.\<close>

record dma_chan =
  ch_desc :: dma_desc
  ch_Enable :: bool
  ch_SrcPeri :: "4 word"
  ch_DestPeri :: "4 word"
  ch_FlowCntrl :: "3 word"
  ch_IntErr :: bool
  ch_IntTC :: bool
  ch_Lock :: bool
  ch_Active :: bool
  ch_Halt :: bool

record 'h dmac =
  dma_Enable :: bool
  AHBM1_Endian :: bool
  AHBM2_Endian :: bool
  dma_Sync :: u16
  IntTCStatus :: u8
  IntErrorStatus :: u8
  Channel :: "dma_chan list"
  inttc_isr :: "'h option list"
  interr_isr :: "'h option list"
  dma_isr_on :: bool
  dma_irq_unmasked :: bool

definition dma_chan_at :: "int \<Rightarrow> 'h dmac \<Rightarrow> dma_chan" where
  "dma_chan_at ch d = Channel d ! nat ch"

definition dma_put_chan :: "int \<Rightarrow> dma_chan \<Rightarrow> 'h dmac \<Rightarrow> 'h dmac" where
  "dma_put_chan ch c d = d\<lparr>Channel := (Channel d)[nat ch := c]\<rparr>"

definition dma_channel_enabled :: "'h dmac \<Rightarrow> int \<Rightarrow> bool" where
  "dma_channel_enabled d ch = ch_Enable (dma_chan_at ch d)"

definition hif_dma_valid_channel :: "int \<Rightarrow> bool" where
  "hif_dma_valid_channel ch = (if ch < 0 \<or> ch \<ge> HIF_DMA_CHANNEL_MAX then False else True)"

definition hif_dma_is_enabled :: "'h dmac \<Rightarrow> bool" where
  "hif_dma_is_enabled d = dma_Enable d"

subsection \<open>Interrupts\<close>

text \<open>Writing a 1 to a bit of a clear register resets the status bit.\<close>

definition hif_dma_inttc_clear :: "int \<Rightarrow> 'h dmac \<Rightarrow> 'h dmac" where
  "hif_dma_inttc_clear ch d =
    (if hif_dma_valid_channel ch then d\<lparr>IntTCStatus := IntTCStatus d AND NOT (push_bit (nat ch) 1)\<rparr>
     else if ch = HIF_DMA_CHANNEL_MAX then d\<lparr>IntTCStatus := 0\<rparr>
     else d)"

definition hif_dma_interr_clear :: "int \<Rightarrow> 'h dmac \<Rightarrow> 'h dmac" where
  "hif_dma_interr_clear ch d =
    (if hif_dma_valid_channel ch then d\<lparr>IntErrorStatus := IntErrorStatus d AND NOT (push_bit (nat ch) 1)\<rparr>
     else if ch = HIF_DMA_CHANNEL_MAX then d\<lparr>IntErrorStatus := 0\<rparr>
     else d)"

definition hif_dma_interrupt_enable :: "'h dmac \<Rightarrow> 'h dmac" where
  "hif_dma_interrupt_enable d =
    (hif_dma_interr_clear HIF_DMA_CHANNEL_MAX (hif_dma_inttc_clear HIF_DMA_CHANNEL_MAX d))
      \<lparr>dma_isr_on := True, dma_irq_unmasked := True\<rparr>"

definition hif_dma_interrupt_disable :: "'h dmac \<Rightarrow> 'h dmac" where
  "hif_dma_interrupt_disable d =
    (hif_dma_interr_clear HIF_DMA_CHANNEL_MAX (hif_dma_inttc_clear HIF_DMA_CHANNEL_MAX d))
      \<lparr>dma_isr_on := False\<rparr>"

text \<open>
  The two service routines share their body: read the status until it is 0 and call the handler of
  every channel that is set, the lowest first.  \<open>statuses\<close> are the values successive reads return;
  \<open>None\<close> stands for a status that never becomes 0.
\<close>

definition dma_dispatch ::
  "('h \<Rightarrow> int \<Rightarrow> 's \<Rightarrow> 's) \<Rightarrow> 'h option list \<Rightarrow> u8 \<Rightarrow> 's \<Rightarrow> 's" where
  "dma_dispatch call isrs status st =
    fold (\<lambda>ch s. if bit status ch then (case isrs ! ch of None \<Rightarrow> s | Some h \<Rightarrow> call h (int ch) s) else s)
      [0..<nat HIF_DMA_CHANNEL_MAX] st"

fun hif_dma_isr ::
  "('h \<Rightarrow> int \<Rightarrow> 's \<Rightarrow> 's) \<Rightarrow> 'h option list \<Rightarrow> u8 list \<Rightarrow> 's \<Rightarrow> 's option" where
  "hif_dma_isr call isrs [] st = None"
| "hif_dma_isr call isrs (s # ss) st =
    (if s = 0 then Some st else hif_dma_isr call isrs ss (dma_dispatch call isrs s st))"

subsection \<open>Enabling and stopping\<close>

definition hif_dma_enable :: "'h dmac \<Rightarrow> 'h dmac" where
  "hif_dma_enable d =
    (if \<not> dma_Enable d then
       (hif_dma_interrupt_enable d)
         \<lparr>dma_Enable := True, AHBM1_Endian := False, AHBM2_Endian := False, dma_Sync := 0\<rparr>
     else d)"

text \<open>
  Stopping an active channel halts it and polls until the hardware has drained it; \<open>drains\<close> says
  whether it ever does, and waiting for ever is \<open>None\<close>.
\<close>

definition hif_dma_stop :: "(int \<Rightarrow> bool) \<Rightarrow> int \<Rightarrow> 'h dmac \<Rightarrow> (int \<times> 'h dmac) option" where
  "hif_dma_stop drains ch d =
    (if \<not> hif_dma_is_enabled d then Some (HIF_DMA_EPERM, d)
     else if \<not> hif_dma_valid_channel ch then Some (HIF_DMA_EINVAL, d)
     else (let c = dma_chan_at ch d
           in if ch_Enable c then
                (if ch_Active c \<and> \<not> drains ch then None
                 else Some (0, hif_dma_interr_clear ch (hif_dma_inttc_clear ch (dma_put_chan ch
                        ((if ch_Active c then c\<lparr>ch_Active := False, ch_Halt := False\<rparr> else c)
                          \<lparr>ch_Enable := False\<rparr>) d))))
              else Some (0, d)))"

fun hif_dma_stop_all :: "(int \<Rightarrow> bool) \<Rightarrow> int list \<Rightarrow> 'h dmac \<Rightarrow> 'h dmac option" where
  "hif_dma_stop_all drains [] d = Some d"
| "hif_dma_stop_all drains (ch # chs) d =
    (if dma_channel_enabled d ch then
       (case hif_dma_stop drains ch d of None \<Rightarrow> None | Some (r, d1) \<Rightarrow> hif_dma_stop_all drains chs d1)
     else hif_dma_stop_all drains chs d)"

definition hif_dma_disable :: "(int \<Rightarrow> bool) \<Rightarrow> 'h dmac \<Rightarrow> 'h dmac option" where
  "hif_dma_disable drains d =
    (if dma_Enable d then
       map_option (\<lambda>d1. hif_dma_interrupt_disable (d1\<lparr>dma_Enable := False\<rparr>))
         (hif_dma_stop_all drains [0..HIF_DMA_CHANNEL_MAX - 1] d)
     else Some d)"

definition hif_dma_get_channel :: "bool \<Rightarrow> 'h dmac \<Rightarrow> int" where
  "hif_dma_get_channel highest d =
    (case find (\<lambda>ch. \<not> dma_channel_enabled d ch)
       (if highest then [0..HIF_DMA_CHANNEL_MAX - 1] else rev [0..HIF_DMA_CHANNEL_MAX - 1]) of
       Some ch \<Rightarrow> ch
     | None \<Rightarrow> -1)"

subsection \<open>Configuring and starting a channel\<close>

text \<open>
  The two halves of \<open>_hif_dma_config\<close>, source and destination; an invalid argument is found
  after some of the fields have been written.
\<close>

definition dma_config_src :: "dma_peri option \<Rightarrow> dma_peri option \<Rightarrow> dma_chan \<Rightarrow> int \<times> dma_chan" where
  "dma_config_src src dst c = (case src of
      None \<Rightarrow> (0, c\<lparr>ch_SrcPeri := 0\<rparr>)
    | Some p \<Rightarrow>
        if uint (peri_ID p) \<ge> HIF_DMA_PERI_ID_MAX then (HIF_DMA_EINVAL, c)
        else (let c1 = c\<lparr>ch_SrcPeri := ucast (peri_ID p), ch_FlowCntrl := ch_FlowCntrl c OR 2\<rparr>
              in if peri_FlowCtrl p then
                   (if (case dst of Some q \<Rightarrow> peri_FlowCtrl q | None \<Rightarrow> False) then (HIF_DMA_EINVAL, c1)
                    else (0, c1\<lparr>ch_FlowCntrl := ch_FlowCntrl c1 OR 4\<rparr>))
                 else (0, c1)))"

definition dma_config_dest :: "dma_peri option \<Rightarrow> dma_peri option \<Rightarrow> dma_chan \<Rightarrow> int \<times> dma_chan" where
  "dma_config_dest src dst c = (case dst of
      None \<Rightarrow> (0, c\<lparr>ch_DestPeri := 0\<rparr>)
    | Some q \<Rightarrow>
        if uint (peri_ID q) \<ge> HIF_DMA_PERI_ID_MAX then (HIF_DMA_EINVAL, c)
        else (let c1 = c\<lparr>ch_DestPeri := ucast (peri_ID q), ch_FlowCntrl := ch_FlowCntrl c OR 1\<rparr>
              in if peri_FlowCtrl q then
                   (if (case src of Some p \<Rightarrow> peri_FlowCtrl p | None \<Rightarrow> False) then (HIF_DMA_EINVAL, c1)
                    else (let c2 = c1\<lparr>ch_FlowCntrl := ch_FlowCntrl c1 OR 4\<rparr>
                          in (0, if ch_FlowCntrl c2 = 7 then c2\<lparr>ch_FlowCntrl := 4\<rparr> else c2)))
                 else (0, c1)))"

definition hif_dma_config ::
  "int \<Rightarrow> dma_peri option \<Rightarrow> dma_peri option \<Rightarrow> 'h option \<Rightarrow> 'h option \<Rightarrow> bool \<Rightarrow> 'h dmac \<Rightarrow> int \<times> 'h dmac"
where
  "hif_dma_config ch src dst tc err locked d =
    (if \<not> hif_dma_is_enabled d then (HIF_DMA_EPERM, d)
     else if \<not> hif_dma_valid_channel ch then (HIF_DMA_EINVAL, d)
     else if ch_Enable (dma_chan_at ch d) then (HIF_DMA_EBUSY, d)
     else (case dma_config_src src dst ((dma_chan_at ch d)\<lparr>ch_FlowCntrl := 0\<rparr>) of (r, c) \<Rightarrow>
       if r \<noteq> 0 then (r, dma_put_chan ch c d)
       else (case dma_config_dest src dst c of (r, c) \<Rightarrow>
         if r \<noteq> 0 then (r, dma_put_chan ch c d)
         else
           (let d1 = dma_put_chan ch
                  (c\<lparr>ch_IntTC := (tc \<noteq> None), ch_IntErr := (err \<noteq> None), ch_Lock := locked\<rparr>) d;
                d2 = (if tc \<noteq> None then d1\<lparr>inttc_isr := (inttc_isr d1)[nat ch := tc]\<rparr> else d1);
                d3 = (if err \<noteq> None then d2\<lparr>interr_isr := (interr_isr d2)[nat ch := err]\<rparr> else d2)
            in (0, d3)))))"

definition hif_dma_config_m2m :: "int \<Rightarrow> 'h option \<Rightarrow> 'h option \<Rightarrow> 'h dmac \<Rightarrow> int \<times> 'h dmac" where
  "hif_dma_config_m2m ch tc err = hif_dma_config ch None None tc err False"

definition hif_dma_config_m2p ::
  "int \<Rightarrow> dma_peri option \<Rightarrow> 'h option \<Rightarrow> 'h option \<Rightarrow> 'h dmac \<Rightarrow> int \<times> 'h dmac" where
  "hif_dma_config_m2p ch dst tc err = hif_dma_config ch None dst tc err False"

definition hif_dma_config_p2m ::
  "int \<Rightarrow> dma_peri option \<Rightarrow> 'h option \<Rightarrow> 'h option \<Rightarrow> 'h dmac \<Rightarrow> int \<times> 'h dmac" where
  "hif_dma_config_p2m ch src tc err = hif_dma_config ch src None tc err False"

definition hif_dma_config_p2p ::
  "int \<Rightarrow> dma_peri option \<Rightarrow> dma_peri option \<Rightarrow> 'h option \<Rightarrow> 'h option \<Rightarrow> 'h dmac \<Rightarrow> int \<times> 'h dmac" where
  "hif_dma_config_p2p ch src dst tc err = hif_dma_config ch src dst tc err False"

text \<open>The 16 bytes of the descriptor are copied over the start of the channel's registers.\<close>

definition hif_dma_start :: "int \<Rightarrow> dma_desc option \<Rightarrow> 'h dmac \<Rightarrow> int \<times> 'h dmac" where
  "hif_dma_start ch desc d =
    (if \<not> hif_dma_is_enabled d then (HIF_DMA_EPERM, d)
     else if \<not> hif_dma_valid_channel ch \<or> desc = None then (HIF_DMA_EINVAL, d)
     else if ch_Enable (dma_chan_at ch d) then (HIF_DMA_EBUSY, d)
     else (let d1 = hif_dma_interr_clear ch (hif_dma_inttc_clear ch d)
           in (0, dma_put_chan ch
                 ((dma_chan_at ch d1)\<lparr>ch_desc := the desc, ch_Enable := True\<rparr>) d1)))"

text \<open>The error codes are returned as a \<open>bool\<close>.\<close>

definition hif_dma_busy :: "int \<Rightarrow> 'h dmac \<Rightarrow> bool" where
  "hif_dma_busy ch d =
    (if \<not> hif_dma_is_enabled d then HIF_DMA_EPERM \<noteq> 0
     else if \<not> hif_dma_valid_channel ch then HIF_DMA_EINVAL \<noteq> 0
     else ch_Enable (dma_chan_at ch d))"

definition hif_dma_src_addr :: "int \<Rightarrow> 'h dmac \<Rightarrow> u32" where
  "hif_dma_src_addr ch d = SrcAddr (ch_desc (dma_chan_at ch d))"

definition hif_dma_dest_addr :: "int \<Rightarrow> 'h dmac \<Rightarrow> u32" where
  "hif_dma_dest_addr ch d = DestAddr (ch_desc (dma_chan_at ch d))"

definition hif_dma_peri_init ::
  "dma_peri option \<Rightarrow> int \<Rightarrow> u32 \<Rightarrow> bool \<Rightarrow> bool \<Rightarrow> int \<times> dma_peri option" where
  "hif_dma_peri_init peri ident addr addr_inc flow_ctrl =
    (if peri = None then (HIF_DMA_EINVAL, peri)
     else if ident < 0 \<or> ident \<ge> HIF_DMA_PERI_ID_MAX then (HIF_DMA_EINVAL, peri)
     else (0, Some ((the peri)\<lparr>peri_ID := of_int ident, peri_Addr := addr, peri_AddrInc := addr_inc,
             peri_FlowCtrl := flow_ctrl\<rparr>)))"

subsection \<open>Building descriptors\<close>

definition hif_dma_desc_init ::
  "u32 \<Rightarrow> u32 \<Rightarrow> u16 \<Rightarrow> dma_desc option \<Rightarrow> int \<times> dma_desc option" where
  "hif_dma_desc_init src_addr dest_addr sz desc =
    (if desc = None \<or> src_addr = 0 \<or> dest_addr = 0 then (HIF_DMA_EINVAL, desc)
     else if unat sz \<ge> HIF_DMA_XFER_SIZE_MAX then (HIF_DMA_EINVAL, desc)
     else (0, Some \<lparr>SrcAddr = src_addr, DestAddr = dest_addr, NextDesc = 0, XferSize = ucast sz,
             SBSize = ucast HIF_DMA_BSIZE_1, DBSize = ucast HIF_DMA_BSIZE_1,
             SWidth = ucast HIF_DMA_WIDTH_8, DWidth = ucast HIF_DMA_WIDTH_8,
             SAHBM = odd HIF_DMA_AHB_M1, DAHBM = odd HIF_DMA_AHB_M1, SAInc = False, DAInc = False,
             Privileged = False, Bufferable = False, Cacheable = False, IntTC = False\<rparr>))"

definition hif_dma_desc_link :: "dma_desc option \<Rightarrow> u32 \<Rightarrow> int \<times> dma_desc option" where
  "hif_dma_desc_link desc nxt =
    (if desc = None \<or> nxt = 0 then (HIF_DMA_EINVAL, desc)
     else if nxt AND 3 \<noteq> 0 then (HIF_DMA_EINVAL, desc)
     else (0, map_option (\<lambda>d. d\<lparr>NextDesc := nxt\<rparr>) desc))"

definition hif_dma_desc_set_addr :: "u32 \<Rightarrow> u32 \<Rightarrow> dma_desc option \<Rightarrow> int \<times> dma_desc option" where
  "hif_dma_desc_set_addr src_addr dest_addr desc =
    (if desc = None \<or> (src_addr = 0 \<or> dest_addr = 0) then (HIF_DMA_EINVAL, desc)
     else (0, map_option (\<lambda>d. d\<lparr>SrcAddr := src_addr, DestAddr := dest_addr\<rparr>) desc))"

definition hif_dma_desc_set_addr_inc :: "bool \<Rightarrow> bool \<Rightarrow> dma_desc option \<Rightarrow> int \<times> dma_desc option" where
  "hif_dma_desc_set_addr_inc src_inc dest_inc desc =
    (if desc = None then (HIF_DMA_EINVAL, desc)
     else (0, map_option (\<lambda>d. d\<lparr>SAInc := src_inc, DAInc := dest_inc\<rparr>) desc))"

text \<open>The stored size counts transfers of the source width, \<open>2 ^ SWidth\<close> bytes each.\<close>

definition hif_dma_desc_set_size :: "u16 \<Rightarrow> dma_desc option \<Rightarrow> int \<times> dma_desc option" where
  "hif_dma_desc_set_size sz desc =
    (if desc = None then (HIF_DMA_EINVAL, desc)
     else if unat sz \<ge> HIF_DMA_XFER_SIZE_MAX then (HIF_DMA_EINVAL, desc)
     else (0, map_option (\<lambda>d. d\<lparr>XferSize := ucast (drop_bit (unat (SWidth d)) sz)\<rparr>) desc))"

definition hif_dma_desc_set_width :: "u8 \<Rightarrow> u8 \<Rightarrow> dma_desc option \<Rightarrow> int \<times> dma_desc option" where
  "hif_dma_desc_set_width src_width dest_width desc =
    (if desc = None then (HIF_DMA_EINVAL, desc)
     else if src_width \<ge> HIF_DMA_WIDTH_MAX \<or> dest_width \<ge> HIF_DMA_WIDTH_MAX then (HIF_DMA_EINVAL, desc)
     else (0, map_option (\<lambda>d.
         (if src_width \<noteq> ucast (SWidth d)
          then d\<lparr>XferSize := drop_bit (unat src_width) (push_bit (unat (SWidth d)) (XferSize d))\<rparr>
          else d)\<lparr>SWidth := ucast src_width, DWidth := ucast dest_width\<rparr>) desc))"

definition hif_dma_desc_set_bsize :: "u8 \<Rightarrow> u8 \<Rightarrow> dma_desc option \<Rightarrow> int \<times> dma_desc option" where
  "hif_dma_desc_set_bsize src_bsize dest_bsize desc =
    (if desc = None then (HIF_DMA_EINVAL, desc)
     else if src_bsize \<ge> HIF_DMA_BSIZE_MAX \<or> dest_bsize \<ge> HIF_DMA_BSIZE_MAX then (HIF_DMA_EINVAL, desc)
     else (0, map_option (\<lambda>d. d\<lparr>SBSize := ucast src_bsize, DBSize := ucast dest_bsize\<rparr>) desc))"

definition hif_dma_desc_set_inttc :: "bool \<Rightarrow> dma_desc option \<Rightarrow> int \<times> dma_desc option" where
  "hif_dma_desc_set_inttc inttc desc =
    (if desc = None then (HIF_DMA_EINVAL, desc)
     else (0, map_option (\<lambda>d. d\<lparr>IntTC := inttc\<rparr>) desc))"

text \<open>The arguments are signed and only bounded from above; the one-bit fields keep the low bit.\<close>

definition hif_dma_desc_set_ahb_master :: "int \<Rightarrow> int \<Rightarrow> dma_desc option \<Rightarrow> int \<times> dma_desc option" where
  "hif_dma_desc_set_ahb_master src_ahbm dest_ahbm desc =
    (if desc = None then (HIF_DMA_EINVAL, desc)
     else if src_ahbm \<ge> HIF_DMA_AHB_MAX \<or> dest_ahbm \<ge> HIF_DMA_AHB_MAX then (HIF_DMA_EINVAL, desc)
     else (0, map_option (\<lambda>d. d\<lparr>SAHBM := odd src_ahbm, DAHBM := odd dest_ahbm\<rparr>) desc))"

definition hif_dma_desc_set_protection ::
  "bool \<Rightarrow> bool \<Rightarrow> bool \<Rightarrow> dma_desc option \<Rightarrow> int \<times> dma_desc option" where
  "hif_dma_desc_set_protection privileged bufferable cacheable desc =
    (if desc = None then (HIF_DMA_EINVAL, desc)
     else (0, map_option (\<lambda>d. d\<lparr>Privileged := privileged, Bufferable := bufferable,
             Cacheable := cacheable\<rparr>) desc))"

end
