(* ===== verification/HifUart.thy ===== *)
theory HifUart
  imports HifFifo HifInfo HifDma
begin

text \<open>
  The UART driver, \<open>sdk/apps/atcmd/hif_uart.c\<close>, in its NRC7394 build.  The state holds the file's
  variables, the DMA controller and the UART and pin registers.  \<open>None\<close> is a failed \<open>ASSERT\<close>, a
  NULL or dangling pointer, or a wait that never ends.  The \<open>nrc_hsuart_\<close>, \<open>nrc_gpio_\<close> and
  \<open>system_\<close> functions are binary code; only the values they are given are kept.
\<close>

subsection \<open>State\<close>

definition HIF_UART_CHANNEL :: int where "HIF_UART_CHANNEL = 1"
definition HIF_UART_SLOT_SIZE :: nat where "HIF_UART_SLOT_SIZE = 128"
definition HIF_UART_HFC_DMA_RX_SW_FIFO_LIMIT :: nat where
  "HIF_UART_HFC_DMA_RX_SW_FIFO_LIMIT = 8 * 1024"

text \<open>
  \<open>_hif_uart_dma_t\<close>; \<open>ud_addr\<close> is the address the allocator gave it, the descriptors follow its six
  words.
\<close>

record uart_dma =
  ud_addr :: u32
  ud_channel :: int
  ud_mem_addr :: u32
  ud_mem_size :: u32
  ud_slot_addr :: u32
  ud_slot_size :: u32
  ud_n_desc :: nat
  ud_desc :: "dma_desc list"

definition uart_desc_addr :: "u32 \<Rightarrow> nat \<Rightarrow> u32" where
  "uart_desc_addr a i = a + 24 + of_nat (16 * i)"

datatype uart_isr = RX_DMA_INTTC | RX_DMA_INTERR

datatype uart_event = UartRxResume | UartSetType hif_type

record uio_sel =
  sel7_0 :: u8
  sel15_8 :: u8
  sel23_16 :: u8
  sel31_24 :: u8

record uart_pin =
  pin_tx :: int
  pin_rx :: int
  pin_rts :: int
  pin_cts :: int

record uart_hw =
  hs_rx :: "u8 list"
  hs_tx :: "u8 list"
  hs_txfe :: bool
  hs_txff :: "nat \<Rightarrow> bool"
  hs_cfg :: "hif_uart option"
  hs_dmacr_rx :: bool
  hs_imsc_rx :: bool
  hs_imsc_tx :: bool
  hs_rts :: bool
  hs_isr_on :: bool
  hs_irq_unmasked :: bool
  gpio_alt :: u32
  gpio_pullup :: u32
  gpio_uio :: "uio_sel list"
  pkg_opt :: u32

record uart_dev =
  g_hif_uart :: hif_uart
  g_rx_fifo :: "u8 hif_fifo option"
  g_tx_fifo :: "u8 hif_fifo option"
  g_rx_mem :: u32
  g_rx_dma :: "uart_dma option"
  rx_dma_live :: bool
  dma :: "uart_isr dmac"
  cmd_tx :: u32
  cmd_rx :: u32
  cmd_rx_isr :: u32
  hw :: uart_hw
  uart_events :: "uart_event list"

definition uart_emit :: "uart_event \<Rightarrow> uart_dev \<Rightarrow> uart_dev" where
  "uart_emit e d = d\<lparr>uart_events := uart_events d @ [e]\<rparr>"

definition hif_uart_init_info :: "hif_uart \<Rightarrow> hif_uart" where
  "hif_uart_init_info u = u\<lparr>channel := -1, baudrate := -1, data_bits := UART_DB8,
     stop_bits := UART_SB1, parity := UART_PB_NONE, hfc := UART_HFC_DISABLE\<rparr>"

definition hif_uart_set_info :: "hif_uart option \<Rightarrow> uart_dev \<Rightarrow> uart_dev" where
  "hif_uart_set_info info d = (case info of None \<Rightarrow> d | Some u \<Rightarrow> d\<lparr>g_hif_uart := u\<rparr>)"

definition hif_uart_get_info :: "uart_dev \<Rightarrow> hif_uart" where
  "hif_uart_get_info d = g_hif_uart d"

definition hif_uart_channel_valid :: "int \<Rightarrow> bool" where
  "hif_uart_channel_valid ch = (if ch \<noteq> HIF_UART_CHANNEL then False else True)"

definition hif_uart_baudrate_valid :: "int \<Rightarrow> bool" where
  "hif_uart_baudrate_valid br \<longleftrightarrow> br \<in> set [9600, 19200, 38400, 57600, 115200, 230400, 460800,
     500000, 576000, 921600, 1000000, 1152000, 1500000, 2000000]"

subsection \<open>FIFOs\<close>

definition hif_uart_fifo_delete :: "uart_dev \<Rightarrow> uart_dev" where
  "hif_uart_fifo_delete d = d\<lparr>g_rx_fifo := None, g_tx_fifo := None\<rparr>"

text \<open>A FIFO whose size is 0 is not created, and an older one stays.\<close>

definition hif_uart_fifo_create ::
  "hif_info \<Rightarrow> alloc_env \<Rightarrow> alloc_env \<Rightarrow> uart_dev \<Rightarrow> int \<times> uart_dev" where
  "hif_uart_fifo_create info rxe txe d =
    (let d1 = (if rx_fifo_size info > 0
               then d\<lparr>g_rx_fifo := hif_fifo_create (rx_fifo_addr info) (rx_fifo_size info)
                        (a_fifo rxe) (a_buf rxe), g_rx_mem := a_addr rxe\<rparr>
               else d)
     in if rx_fifo_size info > 0 \<and> g_rx_fifo d1 = None then (-1, d1)
        else
          (let d2 = (if tx_fifo_size info > 0
                     then d1\<lparr>g_tx_fifo := hif_fifo_create (tx_fifo_addr info) (tx_fifo_size info)
                              (a_fifo txe) (a_buf txe)\<rparr>
                     else d1)
           in if tx_fifo_size info > 0 \<and> g_tx_fifo d2 = None then (-1, hif_uart_fifo_delete d2)
              else (0, d2)))"

subsection \<open>The receive ring\<close>

definition hif_uart_rx_dma_done_size :: "uart_dma \<Rightarrow> uart_isr dmac \<Rightarrow> u32" where
  "hif_uart_rx_dma_done_size ud dm =
    (let start_addr = ud_slot_addr ud;
         end_addr = hif_dma_dest_addr (ud_channel ud) dm
     in if end_addr \<ge> start_addr then end_addr - start_addr
        else (let mem_start_addr = ud_mem_addr ud;
                  mem_end_addr = ud_mem_addr ud + ud_mem_size ud
              in (mem_end_addr - start_addr) + (end_addr - mem_start_addr)))"

text \<open>Software flow control is on in DMA mode with any of the two flags.\<close>

definition uart_sw_rts :: "uart_dev \<Rightarrow> bool" where
  "uart_sw_rts d \<longleftrightarrow> hfc_flags (hfc (g_hif_uart d)) AND hfc_flags UART_HFC_ENABLE \<noteq> 0 \<and>
     \<not> hfc_rx_irq (g_hif_uart d)"

definition hsuart_set_rts :: "bool \<Rightarrow> uart_dev \<Rightarrow> uart_dev" where
  "hsuart_set_rts b d = d\<lparr>hw := (hw d)\<lparr>hs_rts := b\<rparr>\<rparr>"

definition live_rx_dma :: "uart_dev \<Rightarrow> uart_dma option" where
  "live_rx_dma d = (if rx_dma_live d then g_rx_dma d else None)"

definition hif_uart_rx_dma_update_fifo :: "uart_dev \<Rightarrow> (int \<times> uart_dev) option" where
  "hif_uart_rx_dma_update_fifo d =
    (case g_rx_fifo d of None \<Rightarrow> None | Some f \<Rightarrow>
     (case hif_fifo_free_size f of None \<Rightarrow> None | Some free_size \<Rightarrow>
     (case live_rx_dma d of None \<Rightarrow> None | Some ud \<Rightarrow>
       (let done_size = hif_uart_rx_dma_done_size ud (dma d)
        in if \<not> done_size \<le> free_size then None
           else
             (let d1 = (if uart_sw_rts d
                        then hsuart_set_rts
                          (\<not> unat (free_size - done_size) < HIF_UART_HFC_DMA_RX_SW_FIFO_LIMIT) d
                        else d)
              in if done_size > 0 then
                   (let next = ud_slot_addr ud + done_size;
                        next_slot_addr = (if next - ud_mem_addr ud \<ge> ud_mem_size ud
                                          then next - ud_mem_size ud else next)
                    in map_option (\<lambda>(_, f'). (sint done_size,
                           d1\<lparr>g_rx_fifo := Some f', g_rx_dma := Some (ud\<lparr>ud_slot_addr := next_slot_addr\<rparr>)\<rparr>))
                         (hif_fifo_write f None (sint done_size)))
                 else Some (sint done_size, d1))))))"

definition hif_uart_rx_dma_inttc_isr :: "uart_dev \<Rightarrow> uart_dev option" where
  "hif_uart_rx_dma_inttc_isr d =
    (case g_rx_fifo d of None \<Rightarrow> None | Some f \<Rightarrow>
     (case hif_fifo_free_size f of None \<Rightarrow> None | Some free_size \<Rightarrow>
     (case live_rx_dma d of None \<Rightarrow> None | Some ud \<Rightarrow>
       (let done_size = hif_uart_rx_dma_done_size ud (dma d)
        in if \<not> done_size \<le> free_size then None
           else
             (let d1 = (if uart_sw_rts d \<and>
                          unat (free_size - done_size) < HIF_UART_HFC_DMA_RX_SW_FIFO_LIMIT
                        then hsuart_set_rts False d else d)
              in Some (uart_emit UartRxResume (d1\<lparr>cmd_rx_isr := cmd_rx_isr d1 + done_size\<rparr>)))))))"

subsection \<open>Setting up the ring\<close>

definition hif_uart_reg_base :: "u32 list" where
  "hif_uart_reg_base = [0x40009000, 0x4000A000, 0, 0]"

definition hsuart_peri_id :: "int list" where "hsuart_peri_id = [4, 6]"

text \<open>The calls that fill descriptor \<open>i\<close>; their results are ignored.\<close>

definition uart_rx_desc :: "u32 \<Rightarrow> u32 \<Rightarrow> nat \<Rightarrow> dma_desc option \<Rightarrow> dma_desc option" where
  "uart_rx_desc peri_addr mem_addr i desc =
    (let d1 = snd (hif_dma_desc_init peri_addr (mem_addr + of_nat (i * HIF_UART_SLOT_SIZE))
                     (of_nat HIF_UART_SLOT_SIZE) desc);
         d2 = snd (hif_dma_desc_set_addr_inc False True d1);
         d3 = snd (hif_dma_desc_set_width HIF_DMA_WIDTH_8 HIF_DMA_WIDTH_8 d2);
         d4 = snd (hif_dma_desc_set_bsize HIF_DMA_BSIZE_1 HIF_DMA_BSIZE_128 d3);
         d5 = snd (hif_dma_desc_set_inttc True d4);
         d6 = snd (hif_dma_desc_set_ahb_master HIF_DMA_AHB_M1 HIF_DMA_AHB_M2 d5)
     in snd (hif_dma_desc_set_protection False True True d6))"

definition uart_link :: "nat \<Rightarrow> u32 \<Rightarrow> dma_desc list \<Rightarrow> dma_desc list" where
  "uart_link i addr ds = ds[i := the (snd (hif_dma_desc_link (Some (ds ! i)) addr))]"

text \<open>Round \<open>i\<close> of the loop, for the array at \<open>a\<close>: fill a descriptor and link its predecessor.\<close>

definition uart_rx_desc_step ::
  "u32 \<Rightarrow> u32 \<Rightarrow> u32 \<Rightarrow> nat \<Rightarrow> dma_desc list \<Rightarrow> dma_desc list" where
  "uart_rx_desc_step a peri_addr mem_addr i ds =
    (let ds1 = ds[i := the (uart_rx_desc peri_addr mem_addr i (Some (ds ! i)))]
     in if i \<ge> 1 then uart_link (i - 1) (uart_desc_addr a i) ds1 else ds1)"

definition uart_rx_descs :: "u32 \<Rightarrow> u32 \<Rightarrow> u32 \<Rightarrow> nat \<Rightarrow> dma_desc list \<Rightarrow> dma_desc list" where
  "uart_rx_descs a peri_addr mem_addr n ds =
    uart_link (n - 1) (uart_desc_addr a 0)
      (fold (uart_rx_desc_step a peri_addr mem_addr) [0..<n] ds)"

definition dma_desc_zero :: dma_desc where
  "dma_desc_zero = \<lparr>SrcAddr = 0, DestAddr = 0, NextDesc = 0, XferSize = 0, SBSize = 0, DBSize = 0,
     SWidth = 0, DWidth = 0, SAHBM = False, DAHBM = False, SAInc = False, DAInc = False,
     Privileged = False, Bufferable = False, Cacheable = False, IntTC = False\<rparr>"

text \<open>
  \<open>mem\<close> is what the allocator returns.  With no room for a single slot the last link would be
  written in front of the array.  Every failure frees the block.
\<close>

definition hif_uart_rx_dma_register ::
  "u32 option \<Rightarrow> int \<Rightarrow> u32 \<Rightarrow> u32 \<Rightarrow> uart_dev \<Rightarrow> (int \<times> uart_dev) option" where
  "hif_uart_rx_dma_register mem uart_channel mem_addr mem_size d =
    (let n_desc = unat mem_size div HIF_UART_SLOT_SIZE
     in (case mem of None \<Rightarrow> Some (-1, d) | Some a \<Rightarrow>
       (case hif_dma_peri_init (Some \<lparr>peri_Addr = 0, peri_ID = 0, peri_AddrInc = False, peri_FlowCtrl = False\<rparr>)
               (hsuart_peri_id ! nat uart_channel) (hif_uart_reg_base ! nat uart_channel) False False of (r, peri) \<Rightarrow>
        if r \<noteq> 0 then Some (-1, d)
        else if n_desc = 0 then None
        else
          (let descs = uart_rx_descs a (peri_Addr (the peri)) mem_addr n_desc (replicate n_desc dma_desc_zero);
               ch = hif_dma_get_channel True (dma d)
           in if ch < 0 then Some (-1, d)
              else (case hif_dma_config_p2m ch peri (Some RX_DMA_INTTC) (Some RX_DMA_INTERR) (dma d) of (r, dm) \<Rightarrow>
                if r \<noteq> 0 then Some (-1, d\<lparr>dma := dm\<rparr>)
                else (case hif_dma_start ch (Some (descs ! 0)) dm of (r, dm) \<Rightarrow>
                  if r \<noteq> 0 then Some (-1, d\<lparr>dma := dm\<rparr>)
                  else Some (0, d\<lparr>dma := dm, rx_dma_live := True,
                         g_rx_dma := Some \<lparr>ud_addr = a, ud_channel = ch, ud_mem_addr = mem_addr,
                           ud_mem_size = mem_size, ud_slot_addr = mem_addr,
                           ud_slot_size = of_nat HIF_UART_SLOT_SIZE, ud_n_desc = n_desc,
                           ud_desc = descs\<rparr>\<rparr>)))))))"

text \<open>The block is freed and the pointer to it stays.\<close>

definition hif_uart_rx_dma_unregister :: "(int \<Rightarrow> bool) \<Rightarrow> uart_dev \<Rightarrow> uart_dev option" where
  "hif_uart_rx_dma_unregister drains d =
    (case g_rx_dma d of None \<Rightarrow> Some d | Some ud \<Rightarrow>
       if \<not> rx_dma_live d then None
       else map_option (\<lambda>(_, dm). d\<lparr>dma := dm, rx_dma_live := False\<rparr>)
              (hif_dma_stop drains (ud_channel ud) (dma d)))"

text \<open>The register block is found through the channel, so there is none while it is unset.\<close>

definition uart_rx_dma_set :: "bool \<Rightarrow> uart_dev \<Rightarrow> uart_dev option" where
  "uart_rx_dma_set b d =
    (if 0 \<le> channel (g_hif_uart d) \<and> channel (g_hif_uart d) < 4
     then Some (d\<lparr>hw := (hw d)\<lparr>hs_dmacr_rx := b\<rparr>\<rparr>) else None)"

definition hif_uart_dma_register :: "u32 option \<Rightarrow> int \<Rightarrow> uart_dev \<Rightarrow> (int \<times> uart_dev) option" where
  "hif_uart_dma_register mem uart_channel d =
    (let d1 = d\<lparr>dma := hif_dma_enable (dma d)\<rparr>
     in (case (case g_rx_fifo d1 of None \<Rightarrow> Some (0, d1) | Some f \<Rightarrow>
            if uart_sw_rts d1 \<and> \<not> unat (fsize f) \<ge> 2 * HIF_UART_HFC_DMA_RX_SW_FIFO_LIMIT then None
            else hif_uart_rx_dma_register mem uart_channel (g_rx_mem d1) (fsize f) d1) of
          None \<Rightarrow> None
        | Some (r, d2) \<Rightarrow>
            if r \<noteq> 0 then Some (-1, d2)
            else map_option (\<lambda>d3. (0, d3)) (uart_rx_dma_set True d2)))"

definition hif_uart_dma_unregister :: "(int \<Rightarrow> bool) \<Rightarrow> uart_dev \<Rightarrow> uart_dev option" where
  "hif_uart_dma_unregister drains d =
    (case uart_rx_dma_set False d of None \<Rightarrow> None | Some d1 \<Rightarrow>
     (case hif_uart_rx_dma_unregister drains d1 of None \<Rightarrow> None | Some d2 \<Rightarrow>
       map_option (\<lambda>dm. d2\<lparr>dma := dm\<rparr>) (hif_dma_disable drains (dma d2))))"

subsection \<open>Reading, writing and the receive interrupt\<close>

definition uart_imsc_rx :: "bool \<Rightarrow> uart_dev \<Rightarrow> uart_dev" where
  "uart_imsc_rx b d = d\<lparr>hw := (hw d)\<lparr>hs_imsc_rx := b\<rparr>\<rparr>"

definition uart_imsc_tx :: "bool \<Rightarrow> uart_dev \<Rightarrow> uart_dev" where
  "uart_imsc_tx b d = d\<lparr>hw := (hw d)\<lparr>hs_imsc_tx := b\<rparr>\<rparr>"

text \<open>
  Without a FIFO the bytes come from the hardware's queue \<open>hs_rx\<close>, which ends when the flag
  register says empty.
\<close>

definition hif_uart_read :: "u8 list \<Rightarrow> uart_dev \<Rightarrow> (int \<times> u8 list \<times> uart_dev) option" where
  "hif_uart_read buf d =
    (if channel (g_hif_uart d) < 0 then Some (0, buf, d)
     else
       (let read_fifo = (\<lambda>d. case g_rx_fifo d of None \<Rightarrow> None | Some f \<Rightarrow>
              map_option (\<lambda>(n, out, f'). (n, memcpy_at buf 0 out, d\<lparr>g_rx_fifo := Some f'\<rparr>))
                (hif_fifo_read f True (int (length buf))))
        in map_option (\<lambda>(n, buf', d'). (n, buf', d'\<lparr>cmd_rx := cmd_rx d' + of_int n\<rparr>))
          (case g_rx_fifo d of
             Some _ \<Rightarrow>
               if hfc (g_hif_uart d) = UART_HFC_ENABLE \<and> hfc_rx_irq (g_hif_uart d) then
                 map_option (\<lambda>(n, buf', d'). (n, buf', uart_imsc_rx True d'))
                   (read_fifo (uart_imsc_rx False d))
               else (case hif_uart_rx_dma_update_fifo d of None \<Rightarrow> None | Some (_, d1) \<Rightarrow> read_fifo d1)
           | None \<Rightarrow>
               (let got = take (length buf) (hs_rx (hw d))
                in Some (int (length got), memcpy_at buf 0 got,
                     d\<lparr>hw := (hw d)\<lparr>hs_rx := drop (length buf) (hs_rx (hw d))\<rparr>\<rparr>)))))"

text \<open>The bytes put into the data register, \<open>full i\<close> being the full flag before byte \<open>i\<close>.\<close>

function uart_tx_loop :: "(nat \<Rightarrow> bool) \<Rightarrow> u8 list \<Rightarrow> nat \<Rightarrow> u8 list" where
  "uart_tx_loop full buf tx_cnt =
    (if tx_cnt < 16 \<and> tx_cnt < length buf then
       (if full tx_cnt then [] else buf ! tx_cnt # uart_tx_loop full buf (Suc tx_cnt))
     else [])"
  by pat_completeness auto
termination by (relation "measure (\<lambda>(full, buf, tx_cnt). 16 - tx_cnt)") auto

definition hif_uart_write :: "u8 list \<Rightarrow> uart_dev \<Rightarrow> (int \<times> uart_dev) option" where
  "hif_uart_write buf d =
    (if channel (g_hif_uart d) < 0 then Some (0, d)
     else map_option (\<lambda>(n, d'). (n, d'\<lparr>cmd_tx := cmd_tx d' + of_int n\<rparr>))
       (case g_tx_fifo d of
          Some f \<Rightarrow>
            map_option (\<lambda>(n, f'). (n, if n > 0 then uart_imsc_tx True (d\<lparr>g_tx_fifo := Some f'\<rparr>)
                                      else d\<lparr>g_tx_fifo := Some f'\<rparr>))
              (hif_fifo_write f (Some buf) (int (length buf)))
        | None \<Rightarrow>
            if hs_txfe (hw d) then
              (let out = uart_tx_loop (hs_txff (hw d)) buf 0
               in Some (int (length out), d\<lparr>hw := (hw d)\<lparr>hs_tx := hs_tx (hw d) @ out\<rparr>\<rparr>))
            else Some (0, d)))"

text \<open>The receive interrupt moves bytes while there is room; the result counts them.\<close>

fun uart_rx_isr_loop :: "nat \<Rightarrow> u8 list \<Rightarrow> u8 hif_fifo \<Rightarrow> nat \<times> u8 list \<times> u8 hif_fifo" where
  "uart_rx_isr_loop 0 rx f = (0, rx, f)"
| "uart_rx_isr_loop (Suc n) [] f = (0, [], f)"
| "uart_rx_isr_loop (Suc n) (b # rx) f =
    (case uart_rx_isr_loop n rx (hif_fifo_putc f b) of (i, rx', f') \<Rightarrow> (Suc i, rx', f'))"

definition hif_uart_rx_isr :: "uart_dev \<Rightarrow> uart_dev option" where
  "hif_uart_rx_isr d =
    (case g_rx_fifo d of None \<Rightarrow> None | Some f \<Rightarrow>
     (case hif_fifo_free_size f of None \<Rightarrow> None | Some free \<Rightarrow>
       (case uart_rx_isr_loop (nat (sint free)) (hs_rx (hw d)) f of (i, rx', f') \<Rightarrow>
         Some (uart_emit UartRxResume
           (d\<lparr>g_rx_fifo := Some f', hw := (hw d)\<lparr>hs_rx := rx'\<rparr>,
              cmd_rx_isr := cmd_rx_isr d + of_nat i\<rparr>)))))"

definition hif_uart_isr :: "bool \<Rightarrow> uart_dev \<Rightarrow> uart_dev option" where
  "hif_uart_isr rx_or_timeout d =
    (if channel (g_hif_uart d) > 0 then (if rx_or_timeout then hif_uart_rx_isr d else Some d)
     else Some d)"

subsection \<open>Pins\<close>

definition g_hif_uart_pin :: "uart_pin list" where
  "g_hif_uart_pin =
    [\<lparr>pin_tx = 8, pin_rx = 9, pin_rts = -1, pin_cts = -1\<rparr>,
     \<lparr>pin_tx = 12, pin_rx = 13, pin_rts = 20, pin_cts = 14\<rparr>]"

definition UIO_SEL_UART0 :: nat where "UIO_SEL_UART0 = 8"

definition pin_bit :: "int \<Rightarrow> u32" where
  "pin_bit p = push_bit (nat p) 1"

definition hif_uart_pin_enable :: "int \<Rightarrow> uart_hfc \<Rightarrow> uart_dev \<Rightarrow> int \<times> uart_dev" where
  "hif_uart_pin_enable ch flow d =
    (let p = g_hif_uart_pin ! nat ch;
         tx = pin_tx p; rx = pin_rx p; rts = pin_rts p; cts = pin_cts p;
         i = UIO_SEL_UART0 + nat ch
     in if tx = -1 \<or> rx = -1 then (-1, d)
        else
          (let h = hw d;
               h1 = (if pkg_opt h AND 1 = 0 then h\<lparr>pkg_opt := push_bit 16 0xCA78 OR 1\<rparr> else h);
               gpio = gpio_alt h1 OR (pin_bit tx OR pin_bit rx);
               uio = (gpio_uio h1 ! i)\<lparr>sel7_0 := of_int tx, sel15_8 := of_int rx\<rparr>;
               d1 = d\<lparr>hw := h1\<rparr>
           in if flow \<noteq> UART_HFC_DISABLE \<and> (rts = -1 \<or> cts = -1) then (-1, d1)
              else
                (let gpio' = (if flow \<noteq> UART_HFC_DISABLE then gpio OR (pin_bit rts OR pin_bit cts) else gpio);
                     uio' = (if flow \<noteq> UART_HFC_DISABLE then uio\<lparr>sel23_16 := of_int rts, sel31_24 := of_int cts\<rparr>
                             else uio\<lparr>sel23_16 := 0xFF, sel31_24 := 0xFF\<rparr>)
                 in (0, d1\<lparr>hw := h1\<lparr>gpio_alt := gpio', gpio_uio := (gpio_uio h1)[i := uio'],
                                     gpio_pullup := gpio_pullup h1 OR pin_bit rx\<rparr>\<rparr>))))"

text \<open>The selections are copied to a local array, and \<open>uio\<close> is written back as it was read.\<close>

definition hif_uart_pin_disable :: "int \<Rightarrow> uart_dev \<Rightarrow> uart_dev" where
  "hif_uart_pin_disable ch d =
    (let i = UIO_SEL_UART0 + nat ch;
         uio = gpio_uio (hw d) ! i;
         gpio = fold (\<lambda>s g. if s \<noteq> (0xFF :: u8) then g AND NOT (push_bit (unat s) 1) else g)
                  [sel7_0 uio, sel15_8 uio, sel23_16 uio, sel31_24 uio] (gpio_alt (hw d))
     in d\<lparr>hw := (hw d)\<lparr>gpio_alt := gpio, gpio_uio := (gpio_uio (hw d))[i := uio]\<rparr>\<rparr>)"

subsection \<open>Switching the UART on and off\<close>

definition uart_dma_mode :: "hif_uart \<Rightarrow> bool" where
  "uart_dma_mode u \<longleftrightarrow> hfc u = UART_HFC_DISABLE \<or> \<not> hfc_rx_irq u"

text \<open>
  With software flow control the caller's record is changed as well: only CTS is left to the hardware.
  The result holds it.
\<close>

definition hif_uart_enable :: "hif_uart \<Rightarrow> uart_dev \<Rightarrow> int \<times> hif_uart \<times> uart_dev" where
  "hif_uart_enable uart d =
    (let u = (if hfc uart = UART_HFC_ENABLE \<and> \<not> hfc_rx_irq uart
              then uart\<lparr>hfc := UART_HFC_CTS_ENABLE\<rparr> else uart);
         rx_irq = (if hfc u = UART_HFC_DISABLE \<or> \<not> hfc_rx_irq u then False else True);
         h1 = (hw d)\<lparr>hs_cfg := Some u, hs_imsc_tx := False, hs_imsc_rx := rx_irq\<rparr>;
         h2 = (if rx_irq then h1\<lparr>hs_isr_on := True, hs_irq_unmasked := True\<rparr> else h1)
     in (case hif_uart_pin_enable (channel u) (hfc u) (d\<lparr>hw := h2\<rparr>) of (r, d1) \<Rightarrow>
          if r < 0 then (-1, u, d1)
          else (0, u, hif_uart_set_info (Some u) d1)))"

definition hif_uart_disable :: "uart_dev \<Rightarrow> uart_dev" where
  "hif_uart_disable d =
    (if hif_uart_channel_valid (channel (g_hif_uart d)) then
       (let ch = channel (g_hif_uart d);
            d1 = d\<lparr>hw := (hw d)\<lparr>hs_imsc_tx := False, hs_imsc_rx := False, hs_isr_on := False\<rparr>\<rparr>;
            d2 = hif_uart_pin_disable ch d1
        in d2\<lparr>g_hif_uart := hif_uart_init_info (g_hif_uart d2)\<rparr>)
     else d)"

subsection \<open>Opening, closing and changing the settings\<close>

text \<open>What the environment decides: the allocations, and whether a halted channel drains.\<close>

record uart_env =
  ue_rx :: alloc_env
  ue_tx :: alloc_env
  ue_dma :: "u32 option"
  ue_drains :: "int \<Rightarrow> bool"

definition hif_uart_open :: "hif_info option \<Rightarrow> uart_env \<Rightarrow> uart_dev \<Rightarrow> (int \<times> uart_dev) option" where
  "hif_uart_open info env d =
    (case info of None \<Rightarrow> Some (-1, d) | Some nfo \<Rightarrow>
      (if \<not> (i_type nfo = HIF_TYPE_UART \<or> i_type nfo = HIF_TYPE_UART_HFC) then Some (-1, d)
       else if \<not> hif_uart_channel_valid (channel (i_uart nfo)) then Some (-1, d)
       else if \<not> hif_uart_baudrate_valid (baudrate (i_uart nfo)) then Some (-1, d)
       else (case hif_uart_fifo_create nfo (ue_rx env) (ue_tx env) d of (r, d1) \<Rightarrow>
         if r \<noteq> 0 then Some (-1, d1)
         else (case hif_uart_enable (i_uart nfo) d1 of (r, u, d2) \<Rightarrow>
           if r \<noteq> 0 then Some (-1, d2)
           else if uart_dma_mode u then
             map_option (\<lambda>(r, d3). (if r \<noteq> 0 then -1 else 0, d3))
               (hif_uart_dma_register (ue_dma env) (channel u) d2)
           else Some (0, d2)))))"

definition hif_uart_close :: "(int \<Rightarrow> bool) \<Rightarrow> uart_dev \<Rightarrow> uart_dev option" where
  "hif_uart_close drains d =
    (if hif_uart_channel_valid (channel (g_hif_uart d)) then
       map_option (\<lambda>d1. (let d2 = hif_uart_fifo_delete (hif_uart_disable d1)
                         in d2\<lparr>g_hif_uart := hif_uart_init_info (g_hif_uart d2)\<rparr>))
         (hif_uart_dma_unregister drains d)
     else Some d)"

definition uart_fifo_resets :: "uart_dev \<Rightarrow> uart_dev" where
  "uart_fifo_resets d = d\<lparr>g_rx_fifo := map_option hif_fifo_reset (g_rx_fifo d),
     g_tx_fifo := map_option hif_fifo_reset (g_tx_fifo d)\<rparr>"

text \<open>\<open>mem1\<close> and \<open>mem2\<close> are the allocations for the new settings and for going back to the old.\<close>

definition uart_change_apply ::
  "u32 option \<Rightarrow> hif_uart \<Rightarrow> uart_dev \<Rightarrow> (int \<times> hif_uart \<times> uart_dev) option" where
  "uart_change_apply mem u d =
    (case hif_uart_enable u d of (r, u', d1) \<Rightarrow>
      if r \<noteq> 0 then Some (1, u', d1)
      else (case (if uart_dma_mode u'
                  then hif_uart_dma_register mem (channel u') (uart_fifo_resets d1)
                  else Some (0, d1)) of
              None \<Rightarrow> None
            | Some (ret, d2) \<Rightarrow>
                if ret = 0 then Some (0, u', d2) else Some (1, u', hif_uart_disable d2)))"

definition hif_uart_change ::
  "(int \<Rightarrow> bool) \<Rightarrow> u32 option \<Rightarrow> u32 option \<Rightarrow> hif_uart option \<Rightarrow> uart_dev \<Rightarrow> (int \<times> uart_dev) option"
where
  "hif_uart_change drains mem1 mem2 new d =
    (case new of None \<Rightarrow> Some (-2, d) | Some u \<Rightarrow>
      if \<not> hif_uart_channel_valid (channel u) then Some (-2, d)
      else if \<not> hif_uart_baudrate_valid (baudrate u) then Some (-2, d)
      else
        (let old = hif_uart_get_info d
         in (case (if uart_dma_mode old then hif_uart_dma_unregister drains d else Some d) of
               None \<Rightarrow> None
             | Some d1 \<Rightarrow>
               (case uart_change_apply mem1 u (hif_uart_disable d1) of
                  None \<Rightarrow> None
                | Some (r, u', d2) \<Rightarrow>
                    if r = 0 then
                      Some (0, uart_emit (UartSetType
                        (if hfc u' = UART_HFC_ENABLE then HIF_TYPE_UART_HFC else HIF_TYPE_UART)) d2)
                    else
                      (case hif_uart_enable old d2 of (_, old', d3) \<Rightarrow>
                        if uart_dma_mode old' then
                          map_option (\<lambda>(_, d4). (-1, d4)) (hif_uart_dma_register mem2 (channel old') d3)
                        else Some (-1, d3))))))"

end
