(* ===== verification/UartRing.thy ===== *)
theory UartRing
  imports HifUart
begin

text \<open>
  The ring of descriptors that the UART driver builds, and the hardware that follows it.  The DMA
  controller is a parameter: \<open>dma_engine_ok\<close> is the behaviour its registers document, one byte per
  request of the UART and the next descriptor when the current one is used up.
\<close>

subsection \<open>The descriptors\<close>

definition ring_desc :: "u32 \<Rightarrow> u32 \<Rightarrow> u32 \<Rightarrow> nat \<Rightarrow> nat \<Rightarrow> dma_desc" where
  "ring_desc a peri mem nxt i = \<lparr>SrcAddr = peri, DestAddr = mem + of_nat (i * HIF_UART_SLOT_SIZE),
     NextDesc = uart_desc_addr a nxt, XferSize = 128, SBSize = 0, DBSize = 6, SWidth = 0, DWidth = 0,
     SAHBM = False, DAHBM = True, SAInc = False, DAInc = True, Privileged = False, Bufferable = True,
     Cacheable = True, IntTC = True\<rparr>"

text \<open>The block of the descriptors is word aligned and does not wrap around, nor does the buffer.\<close>

definition block_ok :: "u32 \<Rightarrow> nat \<Rightarrow> bool" where
  "block_ok a n \<longleftrightarrow> a AND 3 = 0 \<and> unat a + 24 + 16 * n < 2 ^ 32"

definition region_ok :: "u32 \<Rightarrow> nat \<Rightarrow> bool" where
  "region_ok mem s \<longleftrightarrow> 0 < unat mem \<and> unat mem + s < 2 ^ 32"

lemma and_3_conv: "(x :: u32) AND 3 = 0 \<longleftrightarrow> unat x mod 4 = 0"
proof -
  have "x AND 3 = take_bit 2 x" by (simp add: take_bit_eq_mask mask_numeral)
  then have "unat (x AND 3) = take_bit 2 (unat x)" by (simp only: unsigned_take_bit_eq)
  then have "unat (x AND 3) = unat x mod 4" by (simp add: take_bit_nat_def)
  then show ?thesis by (metis unsigned_0 unsigned_word_eqI unat_eq_zero)
qed

lemma unat_add_small: "unat (x :: u32) + k < 2 ^ 32 \<Longrightarrow> unat (x + of_nat k) = unat x + k"
  by (simp add: unat_word_ariths unat_of_nat take_bit_nat_eq_self)

lemma unat_desc_addr:
  assumes "block_ok a n" and "i < n"
  shows "unat (uart_desc_addr a i) = unat a + 24 + 16 * i"
proof -
  have "uart_desc_addr a i = a + of_nat (24 + 16 * i)" by (simp add: uart_desc_addr_def)
  then show ?thesis using assms unat_add_small [of a "24 + 16 * i"] by (simp add: block_ok_def)
qed

lemma desc_addr_ok:
  assumes "block_ok a n" and "i < n"
  shows "uart_desc_addr a i \<noteq> 0" "uart_desc_addr a i AND 3 = 0"
proof -
  have u: "unat (uart_desc_addr a i) = unat a + 24 + 16 * i" by (rule unat_desc_addr [OF assms])
  then have "unat (uart_desc_addr a i) \<noteq> 0" by linarith
  then show "uart_desc_addr a i \<noteq> 0" unfolding unat_eq_zero by blast
  have "unat a mod 4 = 0" using assms(1) by (simp add: block_ok_def and_3_conv)
  then show "uart_desc_addr a i AND 3 = 0" unfolding and_3_conv u by presburger
qed

lemma desc_addr_inj:
  assumes "block_ok a n" and "i < n" and "j < n" and "uart_desc_addr a i = uart_desc_addr a j"
  shows "i = j"
proof -
  have "unat (uart_desc_addr a i) = unat (uart_desc_addr a j)" using assms(4) by (rule arg_cong)
  then show ?thesis unfolding unat_desc_addr [OF assms(1,2)] unat_desc_addr [OF assms(1,3)] by simp
qed

lemma desc_init_eq:
  assumes "src \<noteq> 0" and "dst \<noteq> 0"
  shows "snd (hif_dma_desc_init src dst 128 (Some x)) = Some \<lparr>SrcAddr = src, DestAddr = dst,
     NextDesc = 0, XferSize = 128, SBSize = 0, DBSize = 0, SWidth = 0, DWidth = 0, SAHBM = False,
     DAHBM = False, SAInc = False, DAInc = False, Privileged = False, Bufferable = False,
     Cacheable = False, IntTC = False\<rparr>"
  using assms unfolding hif_dma_desc_init_def dma_consts by simp

lemma desc_width_eq:
  "SWidth x = 0 \<Longrightarrow> DWidth x = 0 \<Longrightarrow>
    snd (hif_dma_desc_set_width HIF_DMA_WIDTH_8 HIF_DMA_WIDTH_8 (Some x)) = Some x"
  unfolding hif_dma_desc_set_width_def dma_consts by simp

lemma uart_rx_desc_eq:
  assumes "peri \<noteq> 0" and "mem + of_nat (i * HIF_UART_SLOT_SIZE) \<noteq> 0"
  shows "uart_rx_desc peri mem i (Some x) = Some ((ring_desc a peri mem nxt i)\<lparr>NextDesc := 0\<rparr>)"
proof -
  define m where "m = mem + of_nat (i * HIF_UART_SLOT_SIZE)"
  have sz: "(of_nat HIF_UART_SLOT_SIZE :: u16) = 128" by (simp add: HIF_UART_SLOT_SIZE_def)
  have m: "m \<noteq> 0" using assms(2) by (simp add: m_def)
  show ?thesis
    unfolding uart_rx_desc_def ring_desc_def sz m_def [symmetric] Let_def desc_init_eq [OF assms(1) m]
    by (simp add: hif_dma_desc_set_addr_inc_def desc_width_eq hif_dma_desc_set_bsize_def
      hif_dma_desc_set_inttc_def hif_dma_desc_set_ahb_master_def hif_dma_desc_set_protection_def
      HIF_DMA_BSIZE_1_def HIF_DMA_BSIZE_128_def HIF_DMA_BSIZE_MAX_def HIF_DMA_AHB_M1_def
      HIF_DMA_AHB_M2_def HIF_DMA_AHB_MAX_def)
qed

text \<open>After \<open>k\<close> rounds the first \<open>k\<close> descriptors are filled and linked up to the last one.\<close>

definition built :: "u32 \<Rightarrow> u32 \<Rightarrow> u32 \<Rightarrow> nat \<Rightarrow> nat \<Rightarrow> dma_desc" where
  "built a peri mem k i = (if Suc i < k then ring_desc a peri mem (Suc i) i
     else (ring_desc a peri mem 0 i)\<lparr>NextDesc := 0\<rparr>)"

lemma ring_desc_link: "d\<lparr>NextDesc := 0\<rparr>\<lparr>NextDesc := x\<rparr> = (d :: dma_desc)\<lparr>NextDesc := x\<rparr>"
  by simp

lemma uart_link_eq:
  assumes "ds ! i = (ring_desc a peri mem m i)\<lparr>NextDesc := 0\<rparr>" and "block_ok a n" and "k < n"
  shows "uart_link i (uart_desc_addr a k) ds = ds[i := ring_desc a peri mem k i]"
  using desc_addr_ok [OF assms(2,3)] assms(1)
  by (simp add: uart_link_def hif_dma_desc_link_def ring_desc_def)

lemma uart_rx_descs_fold:
  assumes "block_ok a n" and "peri \<noteq> 0" and "length ds = n" and "k \<le> n"
    and "\<And>i. i < n \<Longrightarrow> mem + of_nat (i * HIF_UART_SLOT_SIZE) \<noteq> 0"
  shows "length (fold (uart_rx_desc_step a peri mem) [0..<k] ds) = n \<and>
    (\<forall>i < k. fold (uart_rx_desc_step a peri mem) [0..<k] ds ! i = built a peri mem k i)"
  using assms(4)
proof (induction k)
  case (Suc k)
  let ?ds = "fold (uart_rx_desc_step a peri mem) [0..<k] ds"
  have ih: "length ?ds = n" "\<And>i. i < k \<Longrightarrow> ?ds ! i = built a peri mem k i" using Suc by auto
  have k: "k < n" using Suc.prems by simp
  let ?ds1 = "?ds[k := (ring_desc a peri mem 0 k)\<lparr>NextDesc := 0\<rparr>]"
  have st: "uart_rx_desc_step a peri mem k ?ds =
      (if k \<ge> 1 then uart_link (k - 1) (uart_desc_addr a k) ?ds1 else ?ds1)"
    using uart_rx_desc_eq [OF assms(2) assms(5) [OF k], where nxt = 0 and a = a]
    by (simp add: uart_rx_desc_step_def Let_def)
  have "uart_link (k - 1) (uart_desc_addr a k) ?ds1 = ?ds1[k - 1 := ring_desc a peri mem k (k - 1)]"
    if "k \<ge> 1"
  proof (rule uart_link_eq [OF _ assms(1) k])
    show "?ds1 ! (k - 1) = (ring_desc a peri mem 0 (k - 1))\<lparr>NextDesc := 0\<rparr>"
      using that ih(2) [of "k - 1"] by (simp add: built_def)
  qed
  with st have st': "uart_rx_desc_step a peri mem k ?ds =
      (if k \<ge> 1 then ?ds1[k - 1 := ring_desc a peri mem k (k - 1)] else ?ds1)" by simp
  have "uart_rx_desc_step a peri mem k ?ds ! i = built a peri mem (Suc k) i" if "i < Suc k" for i
    unfolding st' using that ih k by (auto simp: nth_list_update built_def less_Suc_eq)
  moreover have "length (uart_rx_desc_step a peri mem k ?ds) = n" unfolding st' using ih(1) assms(3) by simp
  ultimately show ?case by simp
qed (use assms(3) in simp)

definition ring_next :: "nat \<Rightarrow> nat \<Rightarrow> nat" where
  "ring_next n i = (if Suc i = n then 0 else Suc i)"

lemma uart_rx_descs_ring:
  assumes "block_ok a n" and "peri \<noteq> 0" and "length ds = n" and "0 < n"
    and "\<And>i. i < n \<Longrightarrow> mem + of_nat (i * HIF_UART_SLOT_SIZE) \<noteq> 0"
  shows "uart_rx_descs a peri mem n ds = map (\<lambda>i. ring_desc a peri mem (ring_next n i) i) [0..<n]"
proof (rule nth_equalityI)
  let ?ds = "fold (uart_rx_desc_step a peri mem) [0..<n] ds"
  have f: "length ?ds = n" "\<And>i. i < n \<Longrightarrow> ?ds ! i = built a peri mem n i"
    using uart_rx_descs_fold [OF assms(1-3) order.refl assms(5)] by auto
  have e: "uart_rx_descs a peri mem n ds = ?ds[n - 1 := ring_desc a peri mem 0 (n - 1)]"
    unfolding uart_rx_descs_def
    by (rule uart_link_eq [OF _ assms(1,4)]) (use f(2) [of "n - 1"] assms(4) in \<open>simp add: built_def\<close>)
  show "length (uart_rx_descs a peri mem n ds) = length (map (\<lambda>i. ring_desc a peri mem (ring_next n i) i) [0..<n])"
    by (simp add: e f)
  fix i assume "i < length (uart_rx_descs a peri mem n ds)"
  then show "uart_rx_descs a peri mem n ds ! i = map (\<lambda>i. ring_desc a peri mem (ring_next n i) i) [0..<n] ! i"
    using f by (auto simp: e nth_list_update built_def ring_next_def)
qed

subsection \<open>The hardware following the ring\<close>

text \<open>
  One request: from the descriptors in memory and the channel's registers to the address the byte is
  stored at and the new registers.
\<close>

type_synonym dma_engine = "(u32 \<Rightarrow> dma_desc option) \<Rightarrow> dma_chan \<Rightarrow> u32 \<times> dma_chan"

definition byte_xfer :: "dma_chan \<Rightarrow> bool" where
  "byte_xfer c \<longleftrightarrow> ch_Enable c \<and> SWidth (ch_desc c) = 0 \<and> DWidth (ch_desc c) = 0 \<and>
     DAInc (ch_desc c) \<and> \<not> SAInc (ch_desc c)"

definition dma_engine_ok :: "dma_engine \<Rightarrow> bool" where
  "dma_engine_ok eng \<longleftrightarrow> (\<forall>fetch c. byte_xfer c \<longrightarrow>
     (1 < unat (XferSize (ch_desc c)) \<longrightarrow> eng fetch c =
        (DestAddr (ch_desc c), c\<lparr>ch_desc := (ch_desc c)
           \<lparr>DestAddr := DestAddr (ch_desc c) + 1, XferSize := XferSize (ch_desc c) - 1\<rparr>\<rparr>)) \<and>
     (\<forall>d. XferSize (ch_desc c) = 1 \<and> NextDesc (ch_desc c) \<noteq> 0 \<and> fetch (NextDesc (ch_desc c)) = Some d \<longrightarrow>
        eng fetch c = (DestAddr (ch_desc c), c\<lparr>ch_desc := d\<rparr>)))"

lemma engine_within:
  assumes "dma_engine_ok eng" and "byte_xfer c" and "1 < unat (XferSize (ch_desc c))"
  shows "eng fetch c = (DestAddr (ch_desc c), c\<lparr>ch_desc := (ch_desc c)
           \<lparr>DestAddr := DestAddr (ch_desc c) + 1, XferSize := XferSize (ch_desc c) - 1\<rparr>\<rparr>)"
  using assms unfolding dma_engine_ok_def by blast

lemma engine_link:
  assumes "dma_engine_ok eng" and "byte_xfer c" and "XferSize (ch_desc c) = 1"
    and "NextDesc (ch_desc c) \<noteq> 0" and "fetch (NextDesc (ch_desc c)) = Some d"
  shows "eng fetch c = (DestAddr (ch_desc c), c\<lparr>ch_desc := d\<rparr>)"
  using assms unfolding dma_engine_ok_def by blast

definition uart_fetch :: "uart_dma \<Rightarrow> u32 \<Rightarrow> dma_desc option" where
  "uart_fetch ud addr =
    map_of (map (\<lambda>i. (uart_desc_addr (ud_addr ud) i, ud_desc ud ! i)) [0..<ud_n_desc ud]) addr"

lemma uart_fetch_eq:
  assumes "block_ok (ud_addr ud) (ud_n_desc ud)" and "i < ud_n_desc ud"
  shows "uart_fetch ud (uart_desc_addr (ud_addr ud) i) = Some (ud_desc ud ! i)"
proof -
  have "distinct (map fst (map (\<lambda>i. (uart_desc_addr (ud_addr ud) i, ud_desc ud ! i)) [0..<ud_n_desc ud]))"
    by (auto simp: distinct_map inj_on_def intro: desc_addr_inj [OF assms(1)])
  then show ?thesis unfolding uart_fetch_def using assms(2) by (intro map_of_is_SomeI) auto
qed

text \<open>The driver's record describes a ring of \<open>s\<close> bytes.\<close>

definition ring_ok :: "u32 \<Rightarrow> nat \<Rightarrow> uart_dma \<Rightarrow> bool" where
  "ring_ok peri s ud \<longleftrightarrow> s = ud_n_desc ud * HIF_UART_SLOT_SIZE \<and> 0 < ud_n_desc ud \<and>
     block_ok (ud_addr ud) (ud_n_desc ud) \<and> region_ok (ud_mem_addr ud) s \<and> unat (ud_mem_size ud) = s \<and>
     ud_desc ud = map (\<lambda>i. ring_desc (ud_addr ud) peri (ud_mem_addr ud) (ring_next (ud_n_desc ud) i) i)
       [0..<ud_n_desc ud]"

text \<open>The channel is about to store to offset \<open>p\<close> of the buffer.\<close>

definition ring_pos :: "u32 \<Rightarrow> uart_dma \<Rightarrow> nat \<Rightarrow> dma_chan \<Rightarrow> bool" where
  "ring_pos peri ud p c \<longleftrightarrow> ch_Enable c \<and> ch_desc c =
     (ring_desc (ud_addr ud) peri (ud_mem_addr ud) (ring_next (ud_n_desc ud) (p div HIF_UART_SLOT_SIZE))
        (p div HIF_UART_SLOT_SIZE))
       \<lparr>DestAddr := ud_mem_addr ud + of_nat p, XferSize := of_nat (HIF_UART_SLOT_SIZE - p mod HIF_UART_SLOT_SIZE)\<rparr>"

lemma ring_pos_byte: "ring_pos peri ud p c \<Longrightarrow> byte_xfer c"
  by (simp add: ring_pos_def byte_xfer_def ring_desc_def)

lemma unat_12 [simp]: "k < 4096 \<Longrightarrow> unat (of_nat k :: 12 word) = k"
  by (simp add: unat_of_nat take_bit_nat_eq_self)

lemma slot_start:
  "i < n \<Longrightarrow> ring_pos peri ud (i * HIF_UART_SLOT_SIZE)
     (c\<lparr>ch_desc := ring_desc (ud_addr ud) peri (ud_mem_addr ud) (ring_next (ud_n_desc ud) i) i\<rparr>) = ch_Enable c"
  by (simp add: ring_pos_def HIF_UART_SLOT_SIZE_def ring_desc_def)

lemma ring_step:
  assumes eng: "dma_engine_ok eng" and r: "ring_ok peri s ud" and p: "p < s" and c: "ring_pos peri ud p c"
  shows "\<exists>c'. eng (uart_fetch ud) c = (ud_mem_addr ud + of_nat p, c') \<and>
    ring_pos peri ud (Suc p mod s) c'"
proof -
  let ?z = "HIF_UART_SLOT_SIZE" let ?n = "ud_n_desc ud" let ?q = "p div HIF_UART_SLOT_SIZE"
  have z: "?z = 128" by (simp add: HIF_UART_SLOT_SIZE_def)
  have s: "s = ?n * ?z" "block_ok (ud_addr ud) ?n" "0 < ?n" using r by (simp_all add: ring_ok_def)
  have q: "?q < ?n" using p s by (simp add: less_mult_imp_div_less)
  note b = ring_pos_byte [OF c]
  have d: "DestAddr (ch_desc c) = ud_mem_addr ud + of_nat p" "XferSize (ch_desc c) = of_nat (?z - p mod ?z)"
      "NextDesc (ch_desc c) = uart_desc_addr (ud_addr ud) (ring_next ?n ?q)" "ch_Enable c"
    using c by (simp_all add: ring_pos_def ring_desc_def)
  show ?thesis
  proof (cases "p mod ?z < ?z - 1")
    case True
    have "unat (XferSize (ch_desc c)) = ?z - p mod ?z" unfolding d(2) by (rule unat_12) (simp add: z)
    then have "1 < unat (XferSize (ch_desc c))" using True by linarith
    moreover have "XferSize (ch_desc c) - 1 = of_nat (?z - Suc p mod ?z)"
    proof -
      have m: "Suc p mod ?z = Suc (p mod ?z)" using True by (simp add: mod_Suc)
      have "?z - p mod ?z = Suc (?z - Suc p mod ?z)" unfolding m using True by simp
      then show ?thesis unfolding d(2) by (simp del: of_nat_diff)
    qed
    moreover have "Suc p div ?z = ?q" using True z by (simp add: div_Suc mod_Suc)
    moreover have "Suc p < s"
    proof (rule ccontr)
      assume "\<not> Suc p < s"
      then have "Suc p = ?n * ?z" using p s(1) by simp
      then have "Suc p mod ?z = 0" by simp
      then show False using True by (simp add: mod_Suc split: if_splits)
    qed
    ultimately show ?thesis
      using engine_within [OF eng b, of "uart_fetch ud"] c d(1)
      by (simp add: ring_pos_def add.assoc add.commute del: of_nat_diff)
  next
    case False
    then have m: "p mod ?z = ?z - 1" using mod_less_divisor [of ?z p] z by linarith
    then have "XferSize (ch_desc c) = 1" unfolding d(2) z by simp
    moreover have nx: "ring_next ?n ?q < ?n" using q by (auto simp: ring_next_def)
    moreover have "NextDesc (ch_desc c) \<noteq> 0" using d(3) desc_addr_ok(1) [OF s(2) nx] by simp
    moreover have "uart_fetch ud (NextDesc (ch_desc c)) = Some (ud_desc ud ! ring_next ?n ?q)"
      unfolding d(3) by (rule uart_fetch_eq [OF s(2) nx])
    ultimately have e: "eng (uart_fetch ud) c =
        (ud_mem_addr ud + of_nat p, c\<lparr>ch_desc := ud_desc ud ! ring_next ?n ?q\<rparr>)"
      using engine_link [OF eng b] d(1) by simp
    have "Suc p = Suc ?q * ?z" using m z div_mult_mod_eq [of p ?z] by simp
    then have "Suc p mod s = (Suc ?q mod ?n) * ?z" unfolding s(1) by (simp only: mod_mult_mult2)
    also have "Suc ?q mod ?n = ring_next ?n ?q" using q by (simp add: ring_next_def)
    finally have "Suc p mod s = ring_next ?n ?q * ?z" .
    moreover have "ud_desc ud ! ring_next ?n ?q =
        ring_desc (ud_addr ud) peri (ud_mem_addr ud) (ring_next ?n (ring_next ?n ?q)) (ring_next ?n ?q)"
      using r nx by (simp add: ring_ok_def)
    ultimately show ?thesis using e slot_start [OF nx, of peri ud c] d(4) by simp
  qed
qed

end
