(* ===== verification/UartStream.thy ===== *)
theory UartStream
  imports UartRing
begin

text \<open>
  The UART driver in DMA mode as a queue of bytes: what arrives on the line is stored by the hardware
  behind the write index of the receive FIFO and handed out, in order, by \<open>_hif_uart_read\<close>.
\<close>

subsection \<open>Bytes stored behind the write index\<close>

definition fifo_poke :: "'a hif_fifo \<Rightarrow> nat \<Rightarrow> 'a \<Rightarrow> 'a hif_fifo" where
  "fifo_poke f i b = f\<lparr>buffer := (buffer f)[i := b]\<rparr>"

lemma fifo_poke_sel [simp]:
  "fsize (fifo_poke f i b) = fsize f" "push_idx (fifo_poke f i b) = push_idx f"
  "cnt (fifo_poke f i b) = cnt f" "fifo_cap (fifo_poke f i b) = fifo_cap f"
  by (simp_all add: fifo_poke_def fifo_cap_def)

lemma fifo_wf_poke [simp]: "fifo_wf (fifo_poke f i b) = fifo_wf f"
  by (simp add: fifo_poke_def fifo_wf_def fifo_geom_def)

lemma push_mod:
  assumes "fifo_wf f"
  shows "(unat (push_idx f) + p) mod fifo_cap f = (unat (pop_idx f) + (unat (cnt f) + p)) mod fifo_cap f"
proof -
  have "fifo_cap f dvd 2 ^ 32" "push_idx f = pop_idx f + cnt f"
    using assms by (simp_all add: fifo_wf_def fifo_geom_def fifo_cap_def)
  then have "unat (push_idx f) mod fifo_cap f = (unat (pop_idx f) + unat (cnt f)) mod fifo_cap f"
    using unat_add_mod_dvd by metis
  then show ?thesis by (metis add.assoc mod_add_left_eq)
qed

lemma fifo_cap_length: "fifo_wf f \<Longrightarrow> fifo_cap f = length (buffer f)"
  by (simp add: fifo_wf_def fifo_geom_def fifo_cap_def)

lemma fifo_list_poke:
  assumes "fifo_wf f" and "unat (cnt f) + p < fifo_cap f"
  shows "fifo_list (fifo_poke f ((unat (push_idx f) + p) mod fifo_cap f) b) = fifo_list f"
proof -
  have "ring ((buffer f)[(unat (pop_idx f) + (unat (cnt f) + p)) mod fifo_cap f := b]) (fifo_cap f)
      (unat (pop_idx f)) (unat (cnt f)) = ring (buffer f) (fifo_cap f) (unat (pop_idx f)) (unat (cnt f))"
    by (rule ring_update_out [OF _ assms(2) fifo_cap_length [OF assms(1)]]) simp
  then show ?thesis unfolding push_mod [OF assms(1)]
    unfolding fifo_list_def fifo_poke_def fifo_cap_def by simp
qed

lemma fifo_ahead_poke:
  assumes "fifo_wf f" and "p < fifo_cap f"
  shows "fifo_ahead (fifo_poke f ((unat (push_idx f) + p) mod fifo_cap f) b) (Suc p) = fifo_ahead f p @ [b]"
proof -
  let ?o = "(unat (push_idx f) + p) mod fifo_cap f"
  have "0 < fifo_cap f" using assms(2) by simp
  then have "?o < length (buffer f)" unfolding fifo_cap_length [OF assms(1), symmetric] by simp
  moreover have "ring ((buffer f)[?o := b]) (fifo_cap f) (unat (push_idx f)) p =
      ring (buffer f) (fifo_cap f) (unat (push_idx f)) p"
    by (rule ring_update_out [OF order.refl assms(2) fifo_cap_length [OF assms(1)]])
  ultimately show ?thesis
    unfolding fifo_ahead_def fifo_poke_def fifo_cap_def by (simp add: ring_Suc)
qed

subsection \<open>The hardware stores what arrives\<close>

definition uart_dma_store :: "dma_engine \<Rightarrow> u8 \<Rightarrow> uart_dev \<Rightarrow> uart_dev option" where
  "uart_dma_store eng b d =
    (case g_rx_fifo d of None \<Rightarrow> None | Some f \<Rightarrow>
     (case live_rx_dma d of None \<Rightarrow> None | Some ud \<Rightarrow>
       (case eng (uart_fetch ud) (dma_chan_at (ud_channel ud) (dma d)) of (addr, c) \<Rightarrow>
         Some (d\<lparr>g_rx_fifo := Some (fifo_poke f (unat (addr - g_rx_mem d)) b),
                 dma := dma_put_chan (ud_channel ud) c (dma d)\<rparr>))))"

fun uart_arrive :: "dma_engine \<Rightarrow> u8 list \<Rightarrow> uart_dev \<Rightarrow> uart_dev option" where
  "uart_arrive eng [] d = Some d"
| "uart_arrive eng (b # bs) d = Option.bind (uart_dma_store eng b d) (uart_arrive eng bs)"

lemma uart_arrive_append:
  "uart_arrive eng (bs @ cs) d = Option.bind (uart_arrive eng bs d) (uart_arrive eng cs)"
  by (induction bs arbitrary: d) (simp_all add: bind_assoc split: bind_split)

subsection \<open>The invariant\<close>

text \<open>The driver is ready to receive: \<open>p\<close> bytes are stored and not yet seen by the driver.\<close>

definition uart_rx_state :: "uart_dev \<Rightarrow> u8 hif_fifo \<Rightarrow> uart_dma \<Rightarrow> nat \<Rightarrow> bool" where
  "uart_rx_state d f ud p \<longleftrightarrow> g_rx_fifo d = Some f \<and> fifo_wf f \<and> live_rx_dma d = Some ud \<and>
     0 \<le> channel (g_hif_uart d) \<and>
     \<not> (hfc (g_hif_uart d) = UART_HFC_ENABLE \<and> hfc_rx_irq (g_hif_uart d)) \<and>
     g_rx_mem d = ud_mem_addr ud \<and> 0 \<le> ud_channel ud \<and> nat (ud_channel ud) < length (Channel (dma d)) \<and>
     ud_slot_addr ud = ud_mem_addr ud + of_nat (unat (push_idx f) mod fifo_cap f) \<and>
     p < fifo_cap f \<and> unat (cnt f) + p \<le> fifo_cap f \<and>
     (\<exists>peri. ring_ok peri (fifo_cap f) ud \<and>
        ring_pos peri ud ((unat (push_idx f) + p) mod fifo_cap f) (dma_chan_at (ud_channel ud) (dma d)))"

definition uart_rx_queue :: "uart_dev \<Rightarrow> nat \<Rightarrow> u8 list \<Rightarrow> bool" where
  "uart_rx_queue d cap q \<longleftrightarrow>
    (\<exists>f ud p. uart_rx_state d f ud p \<and> fifo_cap f = cap \<and> q = fifo_list f @ fifo_ahead f p)"

lemma live_rx_dma_Some: "live_rx_dma d = Some ud \<longleftrightarrow> rx_dma_live d \<and> g_rx_dma d = Some ud"
  by (simp add: live_rx_dma_def)

lemma ring_region: "ring_ok peri s ud \<Longrightarrow> k \<le> s \<Longrightarrow> unat (ud_mem_addr ud + of_nat k) = unat (ud_mem_addr ud) + k"
  by (rule unat_add_small) (simp add: ring_ok_def region_ok_def)

lemma dma_put_chan_sel:
  "nat ch < length (Channel dm) \<Longrightarrow> dma_chan_at ch (dma_put_chan ch c dm) = c"
  "length (Channel (dma_put_chan ch c dm)) = length (Channel dm)"
  by (simp_all add: dma_put_chan_def dma_chan_at_def)

lemma store_step:
  assumes "dma_engine_ok eng" and st: "uart_rx_state d f ud p"
    and "Suc p < fifo_cap f" and "unat (cnt f) + Suc p \<le> fifo_cap f"
  shows "\<exists>d'. uart_dma_store eng b d = Some d' \<and>
    uart_rx_state d' (fifo_poke f ((unat (push_idx f) + p) mod fifo_cap f) b) ud (Suc p)"
proof -
  let ?s = "fifo_cap f" let ?o = "(unat (push_idx f) + p) mod fifo_cap f"
  obtain peri where r: "ring_ok peri ?s ud" "ring_pos peri ud ?o (dma_chan_at (ud_channel ud) (dma d))"
    using st by (auto simp: uart_rx_state_def)
  have o: "?o < ?s" using assms(3) by simp
  from ring_step [OF assms(1) r(1) o r(2)] obtain c where
    c: "eng (uart_fetch ud) (dma_chan_at (ud_channel ud) (dma d)) = (ud_mem_addr ud + of_nat ?o, c)"
       "ring_pos peri ud (Suc ?o mod ?s) c" by blast
  have "unat (ud_mem_addr ud + of_nat ?o - g_rx_mem d) = ?o"
  proof -
    have "ud_mem_addr ud + of_nat ?o - g_rx_mem d = of_nat ?o" using st by (simp add: uart_rx_state_def)
    moreover have "?o < 2 ^ 32" using o r(1) by (simp add: ring_ok_def region_ok_def)
    ultimately show ?thesis by simp
  qed
  moreover have "Suc ?o mod ?s = (unat (push_idx f) + Suc p) mod ?s" by (simp add: mod_Suc_eq)
  ultimately show ?thesis
    using st c r(1) assms(3,4)
    by (auto simp: uart_dma_store_def uart_rx_state_def live_rx_dma_def dma_put_chan_sel split: if_splits)
qed

lemma arrive_state:
  assumes "dma_engine_ok eng"
  shows "uart_rx_state d f ud p \<Longrightarrow> p + length bs < fifo_cap f \<Longrightarrow> unat (cnt f) + p + length bs \<le> fifo_cap f \<Longrightarrow>
    \<exists>d' f'. uart_arrive eng bs d = Some d' \<and> uart_rx_state d' f' ud (p + length bs) \<and> cnt f' = cnt f \<and>
      fifo_cap f' = fifo_cap f \<and> fifo_list f' = fifo_list f \<and> fifo_ahead f' (p + length bs) = fifo_ahead f p @ bs"
proof (induction bs arbitrary: d f p)
  case (Cons b bs)
  have wf: "fifo_wf f" using Cons.prems(1) by (simp add: uart_rx_state_def)
  have b: "Suc p < fifo_cap f" "unat (cnt f) + Suc p \<le> fifo_cap f" using Cons.prems(2,3) by auto
  let ?f = "fifo_poke f ((unat (push_idx f) + p) mod fifo_cap f) b"
  from store_step [OF assms Cons.prems(1) b] obtain d1 where
    d1: "uart_dma_store eng b d = Some d1" "uart_rx_state d1 ?f ud (Suc p)" by blast
  have l: "fifo_list ?f = fifo_list f" "fifo_ahead ?f (Suc p) = fifo_ahead f p @ [b]"
    using fifo_list_poke [OF wf] fifo_ahead_poke [OF wf] b by simp_all
  from Cons.IH [OF d1(2)] Cons.prems(2,3) d1(1) l show ?case by simp
qed auto

lemma arrive_queue:
  assumes "dma_engine_ok eng" and "uart_rx_queue d cap q" and "length q + length bs < cap"
  shows "\<exists>d'. uart_arrive eng bs d = Some d' \<and> uart_rx_queue d' cap (q @ bs)"
proof -
  obtain f ud p where f: "uart_rx_state d f ud p" "fifo_cap f = cap" "q = fifo_list f @ fifo_ahead f p"
    using assms(2) by (auto simp: uart_rx_queue_def)
  then have "p + length bs < fifo_cap f" "unat (cnt f) + p + length bs \<le> fifo_cap f" using assms(3) by auto
  from arrive_state [OF assms(1) f(1) this] f(2,3) show ?thesis
    unfolding uart_rx_queue_def by (metis append.assoc)
qed

text \<open>One byte more than the ring can show: the positions coincide again.\<close>

lemma store_wraps:
  assumes "dma_engine_ok eng" and st: "uart_rx_state d f ud p" and p: "Suc p = fifo_cap f"
  shows "\<exists>d' f'. uart_dma_store eng b d = Some d' \<and> uart_rx_state d' f' ud 0 \<and> cnt f' = cnt f \<and> fifo_cap f' = fifo_cap f"
proof -
  let ?s = "fifo_cap f" let ?o = "(unat (push_idx f) + p) mod fifo_cap f"
  obtain peri where r: "ring_ok peri ?s ud" "ring_pos peri ud ?o (dma_chan_at (ud_channel ud) (dma d))"
    using st by (auto simp: uart_rx_state_def)
  have o: "?o < ?s" using p by (metis mod_less_divisor zero_less_Suc)
  from ring_step [OF assms(1) r(1) o r(2)] obtain c where
    c: "eng (uart_fetch ud) (dma_chan_at (ud_channel ud) (dma d)) = (ud_mem_addr ud + of_nat ?o, c)"
       "ring_pos peri ud (Suc ?o mod ?s) c" by blast
  have "Suc ?o mod ?s = (unat (push_idx f) + ?s) mod ?s" by (simp add: mod_Suc_eq flip: p)
  then have "ring_pos peri ud (unat (push_idx f) mod ?s) c" using c(2) by simp
  let ?f = "fifo_poke f (unat (ud_mem_addr ud + of_nat ?o - g_rx_mem d)) b"
  let ?d = "d\<lparr>g_rx_fifo := Some ?f, dma := dma_put_chan (ud_channel ud) c (dma d)\<rparr>"
  have "g_rx_fifo d = Some f" "live_rx_dma d = Some ud" using st by (simp_all add: uart_rx_state_def)
  then have "uart_dma_store eng b d = Some ?d" using c(1) by (simp add: uart_dma_store_def)
  moreover have "uart_rx_state ?d ?f ud 0"
    using st r(1) \<open>ring_pos peri ud (unat (push_idx f) mod ?s) c\<close>
    by (auto simp: uart_rx_state_def live_rx_dma_Some dma_put_chan_sel)
  ultimately show ?thesis by (intro exI [of _ ?d] exI [of _ ?f]) simp
qed

subsection \<open>The driver reads the ring\<close>

lemma mod_gap:
  fixes x p s :: nat
  assumes "p < s"
  shows "(if x mod s \<le> (x + p) mod s then (x + p) mod s - x mod s
     else (s - x mod s) + (x + p) mod s) = p"
proof -
  have b: "x mod s < s" using assms by simp
  have e: "(x + p) mod s = (x mod s + p) mod s" by (simp add: mod_add_left_eq)
  show ?thesis
  proof (cases "x mod s + p < s")
    case True
    then show ?thesis unfolding e by simp
  next
    case False
    define m where "m = x mod s"
    have "(x + p) mod s = m + p - s" using False assms b unfolding e m_def [symmetric] by (simp add: mod_if)
    then show ?thesis using False assms b unfolding m_def [symmetric] by auto
  qed
qed

lemma unat_eq_of_nat: "unat (x :: u32) = k \<Longrightarrow> x = of_nat k"
  by auto

lemma ring_size: "ring_ok peri s ud \<Longrightarrow> ud_mem_size ud = of_nat s \<and> s < 2 ^ 32"
  unfolding ring_ok_def region_ok_def by (intro conjI unat_eq_of_nat) auto

text \<open>\<open>_hif_uart_rx_dma_done_size\<close> counts the bytes between two positions of the ring.\<close>

lemma done_size_gap:
  assumes r: "ring_ok peri s ud" and e: "hif_dma_dest_addr (ud_channel ud) dm = ud_mem_addr ud + of_nat e'"
    and b: "ud_slot_addr ud = ud_mem_addr ud + of_nat b'" and le: "b' < s" "e' < s"
  shows "unat (hif_uart_rx_dma_done_size ud dm) = (if b' \<le> e' then e' - b' else (s - b') + e')"
proof -
  let ?m = "ud_mem_addr ud"
  note u = ring_region [OF r]
  have s: "ud_mem_size ud = of_nat s" "s < 2 ^ 32" using ring_size [OF r] by auto
  have c: "?m + of_nat b' \<le> ?m + of_nat e' \<longleftrightarrow> b' \<le> e'"
    using u [of b'] u [of e'] le by (simp add: word_le_nat_alt)
  show ?thesis
  proof (cases "b' \<le> e'")
    case True
    have "(?m + of_nat e') - (?m + of_nat b') = of_nat (e' - b')" using True by (simp add: of_nat_diff)
    then have "hif_uart_rx_dma_done_size ud dm = of_nat (e' - b')"
      unfolding hif_uart_rx_dma_done_size_def e b Let_def c using True by (simp only: if_True)
    moreover have "e' - b' < 4294967296" using le s(2) by simp
    ultimately show ?thesis using True by (simp only: unat_of_nat_u32 if_True)
  next
    case False
    have "(?m + of_nat s - (?m + of_nat b')) + (?m + of_nat e' - ?m) = of_nat ((s - b') + e')"
      using le by (simp add: of_nat_diff)
    then have "hif_uart_rx_dma_done_size ud dm = of_nat ((s - b') + e')"
      unfolding hif_uart_rx_dma_done_size_def e b Let_def c s(1) using False by (simp only: if_False)
    moreover have "(s - b') + e' < 4294967296" using False le s(2) by simp
    ultimately show ?thesis using False by (simp only: unat_of_nat_u32 if_False)
  qed
qed

lemma done_size_eq:
  assumes "uart_rx_state d f ud p"
  shows "hif_uart_rx_dma_done_size ud (dma d) = of_nat p"
proof -
  let ?s = "fifo_cap f" let ?x = "unat (push_idx f)"
  obtain peri where r: "ring_ok peri ?s ud" "ring_pos peri ud ((?x + p) mod ?s) (dma_chan_at (ud_channel ud) (dma d))"
      "ud_slot_addr ud = ud_mem_addr ud + of_nat (?x mod ?s)" "p < ?s"
    using assms by (auto simp: uart_rx_state_def)
  have e: "hif_dma_dest_addr (ud_channel ud) (dma d) = ud_mem_addr ud + of_nat ((?x + p) mod ?s)"
    using r(2) by (simp add: hif_dma_dest_addr_def ring_pos_def)
  have s: "0 < ?s" using r(4) by simp
  have "unat (hif_uart_rx_dma_done_size ud (dma d)) = p"
    unfolding done_size_gap [OF r(1) e r(3) mod_less_divisor [OF s] mod_less_divisor [OF s]]
    by (rule mod_gap [OF r(4)])
  then show ?thesis by (rule unat_eq_of_nat)
qed

lemma next_slot:
  assumes r: "ring_ok peri s ud" and b: "ud_slot_addr ud = ud_mem_addr ud + of_nat b'"
    and le: "b' < s" "p < s" "s < 2 ^ 31"
  shows "(if ud_slot_addr ud + of_nat p - ud_mem_addr ud \<ge> ud_mem_size ud
      then ud_slot_addr ud + of_nat p - ud_mem_size ud else ud_slot_addr ud + of_nat p) =
    ud_mem_addr ud + of_nat ((b' + p) mod s)"
proof -
  have s: "ud_mem_size ud = of_nat s" using ring_size [OF r] by simp
  have o: "ud_slot_addr ud + of_nat p - ud_mem_addr ud = of_nat (b' + p)" by (simp add: b)
  have c: "(of_nat s :: u32) \<le> of_nat (b' + p) \<longleftrightarrow> s \<le> b' + p"
    using le unat_of_nat_u32 [of s] unat_of_nat_u32 [of "b' + p"] by (simp only: word_le_nat_alt) simp
  show ?thesis
  proof (cases "s \<le> b' + p")
    case True
    then have "(b' + p) mod s = b' + p - s" using le by (simp add: mod_if)
    then show ?thesis using True unfolding o s c by (simp add: b of_nat_diff)
  next
    case False
    then show ?thesis unfolding o s c by (simp add: b add.assoc)
  qed
qed

lemma uart_rx_state_rts [simp]: "uart_rx_state (hsuart_set_rts b d) f ud p = uart_rx_state d f ud p"
  by (simp add: uart_rx_state_def hsuart_set_rts_def live_rx_dma_def)

lemma g_hif_uart_rts [simp]: "g_hif_uart (hsuart_set_rts b d) = g_hif_uart d"
  by (simp add: hsuart_set_rts_def)

lemma free_size_eq:
  assumes "uart_rx_state d f ud p"
  shows "hif_fifo_free_size f = Some (fsize f - cnt f)"
    and "hif_uart_rx_dma_done_size ud (dma d) \<le> fsize f - cnt f"
proof -
  have w: "cnt f \<le> fsize f" "p < fifo_cap f" "unat (cnt f) + p \<le> fifo_cap f" "fifo_cap f < 4294967296"
    using assms by (auto simp: uart_rx_state_def fifo_wf_def fifo_geom_def fifo_cap_def)
  then show "hif_fifo_free_size f = Some (fsize f - cnt f)" by (simp add: hif_fifo_free_size_def)
  have "unat (fsize f - cnt f) = fifo_cap f - unat (cnt f)"
    using w(1) by (simp add: fifo_cap_def unat_sub_if' word_le_nat_alt)
  moreover have "unat (of_nat p :: u32) = p" by (rule unat_of_nat_u32) (use w in linarith)
  ultimately show "hif_uart_rx_dma_done_size ud (dma d) \<le> fsize f - cnt f"
    unfolding done_size_eq [OF assms] word_le_nat_alt using w by linarith
qed

lemma commit_state:
  assumes st: "uart_rx_state d f ud p" and d1: "d1 = d \<or> d1 = hsuart_set_rts b d"
    and w: "hif_fifo_write f None (int p) = Some (int p, f')" and wf: "fifo_wf f'" and cap: "fifo_cap f' = fifo_cap f"
    and len: "unat (cnt f') \<le> fifo_cap f"
  shows "uart_rx_state (d1\<lparr>g_rx_fifo := Some f', g_rx_dma := Some (ud\<lparr>ud_slot_addr :=
      ud_mem_addr ud + of_nat ((unat (push_idx f) mod fifo_cap f + p) mod fifo_cap f)\<rparr>)\<rparr>) f'
    (ud\<lparr>ud_slot_addr := ud_mem_addr ud + of_nat ((unat (push_idx f) mod fifo_cap f + p) mod fifo_cap f)\<rparr>) 0"
proof -
  have wf0: "fifo_wf f" using st by (simp add: uart_rx_state_def)
  have "push_idx f' = push_idx f + of_nat p" using fifo_write_frame(3) [OF wf0 _ _ w] by simp
  moreover have "fifo_cap f dvd 2 ^ 32" using wf0 by (simp add: fifo_wf_def fifo_geom_def fifo_cap_def)
  ultimately have "unat (push_idx f') mod fifo_cap f = (unat (push_idx f) + p) mod fifo_cap f"
    using unat_add_of_nat_mod_dvd by metis
  moreover have "(unat (push_idx f) mod fifo_cap f + p) mod fifo_cap f = (unat (push_idx f) + p) mod fifo_cap f"
    by (simp add: mod_add_left_eq)
  moreover have "ring_ok peri s (ud\<lparr>ud_slot_addr := x\<rparr>) = ring_ok peri s ud"
    "ring_pos peri (ud\<lparr>ud_slot_addr := x\<rparr>) k c = ring_pos peri ud k c" for peri s x k c
    by (simp_all add: ring_ok_def ring_pos_def)
  ultimately show ?thesis using st wf cap len d1
    by (auto simp: uart_rx_state_def live_rx_dma_Some hsuart_set_rts_def)
qed

lemma update_fifo:
  assumes st: "uart_rx_state d f ud p"
  shows "\<exists>d' f' ud'. hif_uart_rx_dma_update_fifo d = Some (int p, d') \<and> uart_rx_state d' f' ud' 0 \<and>
    fifo_cap f' = fifo_cap f \<and> fifo_list f' = fifo_list f @ fifo_ahead f p \<and> g_hif_uart d' = g_hif_uart d"
proof -
  let ?b = "\<not> unat (fsize f - cnt f - hif_uart_rx_dma_done_size ud (dma d)) < HIF_UART_HFC_DMA_RX_SW_FIFO_LIMIT"
  let ?d1 = "if uart_sw_rts d then hsuart_set_rts ?b d else d"
  have f: "g_rx_fifo d = Some f" "live_rx_dma d = Some ud" "fifo_wf f" using st by (simp_all add: uart_rx_state_def)
  have g: "fifo_cap f < 2 ^ 31" "p < fifo_cap f" "unat (cnt f) + p \<le> fifo_cap f"
    using st by (auto simp: uart_rx_state_def fifo_wf_def fifo_geom_def fifo_cap_def)
  then have "p < 4294967296" by simp
  then have up: "unat (of_nat p :: u32) = p" by (rule unat_of_nat_u32)
  then have sp: "sint (of_nat p :: u32) = int p" using g sint_small_u32 [of "of_nat p"] by simp
  have p0: "(0 < (of_nat p :: u32)) = (0 < p)" using up by (simp add: word_less_nat_alt)
  have s: "d1 = ?d1 \<Longrightarrow> d1 = d \<or> d1 = hsuart_set_rts ?b d" for d1 by simp
  note e = hif_uart_rx_dma_update_fifo_def f(1,2) free_size_eq(1) [OF st] option.case
  show ?thesis
  proof (cases "p = 0")
    case True
    have "hif_uart_rx_dma_update_fifo d = Some (int p, ?d1)"
      unfolding e Let_def using free_size_eq(2) [OF st] True done_size_eq [OF st] by simp
    moreover have "uart_rx_state ?d1 f ud 0" "g_hif_uart ?d1 = g_hif_uart d"
      using st True by simp_all
    moreover have "fifo_list f = fifo_list f @ fifo_ahead f p" using True by (simp add: fifo_ahead_def)
    ultimately show ?thesis by blast
  next
    case False
    have "p = min (nat (int p)) (fifo_cap f - length (fifo_list f))" using g by simp
    from fifo_write_none_exact [OF f(3) _ this] obtain f' where
      w: "hif_fifo_write f None (int p) = Some (int p, f')" "fifo_wf f'" "fifo_cap f' = fifo_cap f"
         "fifo_list f' = fifo_list f @ fifo_ahead f p" by auto
    have l: "unat (cnt f') \<le> fifo_cap f" using w(4) g(3) by (metis length_append length_fifo_ahead length_fifo_list)
    obtain peri where r: "ring_ok peri (fifo_cap f) ud" using st by (auto simp: uart_rx_state_def)
    have sl: "ud_slot_addr ud = ud_mem_addr ud + of_nat (unat (push_idx f) mod fifo_cap f)"
      using st by (simp add: uart_rx_state_def)
    have lt: "unat (push_idx f) mod fifo_cap f < fifo_cap f" using g(2) by simp
    have "hif_uart_rx_dma_update_fifo d = Some (int p, ?d1\<lparr>g_rx_fifo := Some f', g_rx_dma :=
        Some (ud\<lparr>ud_slot_addr := ud_mem_addr ud + of_nat ((unat (push_idx f) mod fifo_cap f + p) mod fifo_cap f)\<rparr>)\<rparr>)"
      using free_size_eq(2) [OF st] False w(1) next_slot [OF r sl lt g(2,1)]
      unfolding e Let_def done_size_eq [OF st] sp p0 by simp
    moreover have "g_hif_uart ?d1 = g_hif_uart d" by simp
    ultimately show ?thesis
      using commit_state [OF st s [OF refl] w(1-3) l] w(3,4)
      by (intro exI [where x = "?d1\<lparr>g_rx_fifo := Some f', g_rx_dma := Some (ud\<lparr>ud_slot_addr :=
            ud_mem_addr ud + of_nat ((unat (push_idx f) mod fifo_cap f + p) mod fifo_cap f)\<rparr>)\<rparr>"]
          exI [where x = f'] exI conjI) (assumption | simp)+
  qed
qed

lemma uart_rx_queue_len: "uart_rx_queue d cap q \<Longrightarrow> length q \<le> cap"
  by (auto simp: uart_rx_queue_def uart_rx_state_def)

lemma fifo_only_read:
  assumes st: "uart_rx_state d f ud 0"
  shows "\<exists>f'. hif_fifo_read f True (int m) = Some (int (min m (length (fifo_list f))),
      take (min m (length (fifo_list f))) (fifo_list f), f') \<and>
    uart_rx_state (d\<lparr>g_rx_fifo := Some f', cmd_rx := x\<rparr>) f' ud 0 \<and> fifo_cap f' = fifo_cap f \<and>
    fifo_list f' = drop (min m (length (fifo_list f))) (fifo_list f)"
proof -
  have wf: "fifo_wf f" using st by (simp add: uart_rx_state_def)
  obtain f' where f': "hif_fifo_read f True (int m) = Some (int (min m (length (fifo_list f))),
      take (min m (length (fifo_list f))) (fifo_list f), f')" "fifo_wf f'" "fifo_cap f' = fifo_cap f"
      "fifo_list f' = drop (min m (length (fifo_list f))) (fifo_list f)"
    using fifo_read_law [OF wf, of "int m" _ True] by auto
  have "push_idx f' = push_idx f" using fifo_read_frame(1) [OF wf _ f'(1)] by simp
  moreover have "unat (cnt f') \<le> fifo_cap f" using fifo_wf_le [OF f'(2)] f'(3) by (simp add: fifo_cap_def)
  ultimately show ?thesis using f' st by (auto simp: uart_rx_state_def live_rx_dma_Some)
qed

lemma read_queue:
  assumes "uart_rx_queue d cap q" and n: "n = min (length buf) (length q)"
  shows "\<exists>d'. hif_uart_read buf d = Some (int n, take n q @ drop n buf, d') \<and> uart_rx_queue d' cap (drop n q)"
proof -
  obtain f ud p where f: "uart_rx_state d f ud p" "fifo_cap f = cap" "q = fifo_list f @ fifo_ahead f p"
    using assms(1) by (auto simp: uart_rx_queue_def)
  from update_fifo [OF f(1)] obtain d1 f1 ud1 where
    u: "hif_uart_rx_dma_update_fifo d = Some (int p, d1)" "uart_rx_state d1 f1 ud1 0" "fifo_cap f1 = cap"
       "fifo_list f1 = q" using f by auto
  from fifo_only_read [OF u(2), of "length buf" "cmd_rx d1 + of_int (int n)"] obtain f2 where
    r: "hif_fifo_read f1 True (int (length buf)) = Some (int n, take n q, f2)"
       "uart_rx_state (d1\<lparr>g_rx_fifo := Some f2, cmd_rx := cmd_rx d1 + of_int (int n)\<rparr>) f2 ud1 0"
       "fifo_cap f2 = cap" "fifo_list f2 = drop n q" using u(3,4) n by auto
  have s: "g_rx_fifo d = Some f" "g_rx_fifo d1 = Some f1" "\<not> channel (g_hif_uart d) < 0"
      "\<not> (hfc (g_hif_uart d) = UART_HFC_ENABLE \<and> hfc_rx_irq (g_hif_uart d))"
    using f(1) u(2) by (simp_all add: uart_rx_state_def)
  have "memcpy_at buf 0 (take n q) = take n q @ drop n buf" using n by (simp add: memcpy_at_def)
  then have "hif_uart_read buf d = Some (int n, take n q @ drop n buf,
      d1\<lparr>g_rx_fifo := Some f2, cmd_rx := cmd_rx d1 + of_int (int n)\<rparr>)"
    unfolding hif_uart_read_def Let_def if_not_P [OF s(3)] s(1) option.case if_not_P [OF s(4)]
    using s(2) r(1) u(1) by simp
  moreover have "uart_rx_queue (d1\<lparr>g_rx_fifo := Some f2, cmd_rx := cmd_rx d1 + of_int (int n)\<rparr>) cap (drop n q)"
    unfolding uart_rx_queue_def using r(2-4) by (intro exI [of _ f2] exI [of _ ud1] exI [of _ 0])
      (simp add: fifo_ahead_def)
  ultimately show ?thesis by blast
qed

lemma inttc_queue:
  assumes "uart_rx_queue d cap q"
  shows "\<exists>d'. hif_uart_rx_dma_inttc_isr d = Some d' \<and> uart_rx_queue d' cap q \<and>
    uart_events d' = uart_events d @ [UartRxResume]"
proof -
  obtain f ud p where f: "uart_rx_state d f ud p" "fifo_cap f = cap" "q = fifo_list f @ fifo_ahead f p"
    using assms by (auto simp: uart_rx_queue_def)
  have s: "g_rx_fifo d = Some f" "live_rx_dma d = Some ud" using f(1) by (simp_all add: uart_rx_state_def)
  let ?d = "\<lambda>d1. uart_emit UartRxResume (d1\<lparr>cmd_rx_isr := cmd_rx_isr d1 + hif_uart_rx_dma_done_size ud (dma d)\<rparr>)"
  have k: "uart_rx_state (?d d1) f ud p" "uart_events (?d d1) = uart_events d @ [UartRxResume]"
    if "d1 = d \<or> d1 = hsuart_set_rts False d" for d1
    using f(1) that by (auto simp: uart_rx_state_def uart_emit_def hsuart_set_rts_def live_rx_dma_Some)
  let ?d1 = "if uart_sw_rts d \<and>
      unat (fsize f - cnt f - hif_uart_rx_dma_done_size ud (dma d)) < HIF_UART_HFC_DMA_RX_SW_FIFO_LIMIT
      then hsuart_set_rts False d else d"
  have e: "hif_uart_rx_dma_inttc_isr d = Some (?d ?d1)"
    unfolding hif_uart_rx_dma_inttc_isr_def s option.case free_size_eq(1) [OF f(1)] Let_def
    using free_size_eq(2) [OF f(1)] by (simp only: not_True_eq_False if_False)
  have d1: "?d1 = d \<or> ?d1 = hsuart_set_rts False d" by simp
  have "uart_rx_queue (?d ?d1) cap q" unfolding uart_rx_queue_def using k(1) [OF d1] f(2,3) by blast
  with e k(2) [OF d1] show ?thesis by blast
qed

subsection \<open>Runs\<close>

text \<open>What happens on the receive side: bytes arrive, the slot interrupt fires, the task reads.\<close>

datatype uart_op = Arrive "u8 list" | SlotIsr | ReadInto "u8 list"

definition uart_step :: "dma_engine \<Rightarrow> uart_dev \<Rightarrow> uart_op \<Rightarrow> (u8 list \<times> uart_dev) option" where
  "uart_step eng d oper = (case oper of
      Arrive bs \<Rightarrow> map_option (Pair []) (uart_arrive eng bs d)
    | SlotIsr \<Rightarrow> map_option (Pair []) (hif_uart_rx_dma_inttc_isr d)
    | ReadInto buf \<Rightarrow> map_option (\<lambda>(n, buf', d'). (take (nat n) buf', d')) (hif_uart_read buf d))"

text \<open>The line as a queue that may hold fewer than \<open>cap\<close> bytes.\<close>

definition line_step :: "nat \<Rightarrow> u8 list \<Rightarrow> uart_op \<Rightarrow> (u8 list \<times> u8 list) option" where
  "line_step cap q oper = (case oper of
      Arrive bs \<Rightarrow> if length q + length bs < cap then Some ([], q @ bs) else None
    | SlotIsr \<Rightarrow> Some ([], q)
    | ReadInto buf \<Rightarrow> Some (take (length buf) q, drop (length buf) q))"

fun run_uart :: "('s \<Rightarrow> uart_op \<Rightarrow> (u8 list \<times> 's) option) \<Rightarrow> 's \<Rightarrow> uart_op list \<Rightarrow> (u8 list \<times> 's) option"
where
  "run_uart step s [] = Some ([], s)"
| "run_uart step s (x # xs) = (case step s x of None \<Rightarrow> None
    | Some (out, s') \<Rightarrow> map_option (\<lambda>(outs, s''). (out @ outs, s'')) (run_uart step s' xs))"

lemma uart_step_refines:
  assumes "dma_engine_ok eng" and q: "uart_rx_queue d cap q" and "line_step cap q oper = Some (out, q')"
  shows "\<exists>d'. uart_step eng d oper = Some (out, d') \<and> uart_rx_queue d' cap q'"
proof (cases oper)
  case (Arrive bs)
  then show ?thesis using assms(3) arrive_queue [OF assms(1) q, of bs]
    by (auto simp: line_step_def uart_step_def split: if_splits)
next
  case SlotIsr
  then show ?thesis using assms(3) inttc_queue [OF q] by (auto simp: line_step_def uart_step_def)
next
  case (ReadInto buf)
  have d: "drop (min (length buf) (length q)) q = drop (length buf) q" by (cases "length buf \<le> length q") auto
  from read_queue [OF q refl, of buf] obtain d' where
    "hif_uart_read buf d = Some (int (min (length buf) (length q)),
       take (min (length buf) (length q)) q @ drop (min (length buf) (length q)) buf, d')"
    "uart_rx_queue d' cap (drop (length buf) q)" unfolding d by blast
  then show ?thesis using ReadInto assms(3) by (auto simp: line_step_def uart_step_def min_def)
qed

lemma run_uart_refines:
  assumes "dma_engine_ok eng"
  shows "uart_rx_queue d cap q \<Longrightarrow> run_uart (line_step cap) q opers = Some (outs, q') \<Longrightarrow>
    \<exists>d'. run_uart (uart_step eng) d opers = Some (outs, d') \<and> uart_rx_queue d' cap q'"
proof (induction opers arbitrary: d q outs)
  case (Cons x xs)
  then obtain out q1 outs1 where s: "line_step cap q x = Some (out, q1)"
      "run_uart (line_step cap) q1 xs = Some (outs1, q')" "outs = out @ outs1"
    by (auto split: option.splits)
  from uart_step_refines [OF assms Cons.prems(1) s(1)] obtain d1 where
    d1: "uart_step eng d x = Some (out, d1)" "uart_rx_queue d1 cap q1" by blast
  from Cons.IH [OF d1(2) s(2)] d1(1) s(3) show ?case by auto
qed auto

text \<open>Nothing is lost or reordered: what was handed out and what is left is what arrived.\<close>

fun arrived :: "uart_op list \<Rightarrow> u8 list" where
  "arrived [] = []"
| "arrived (Arrive bs # xs) = bs @ arrived xs"
| "arrived (x # xs) = arrived xs"

lemma line_keeps: "run_uart (line_step cap) q opers = Some (outs, q') \<Longrightarrow> outs @ q' = q @ arrived opers"
proof (induction opers arbitrary: q outs)
  case (Cons x xs)
  then show ?case by (cases x) (auto simp: line_step_def split: option.splits if_splits)
qed simp

end
