(* ===== verification/UartOpen.thy ===== *)
theory UartOpen
  imports UartStream
begin

text \<open>
  Opening the UART driver in DMA mode: the calls of \<open>_hif_uart_open\<close> one by one, down to the channel
  that starts at the first descriptor of the ring.
\<close>

subsection \<open>The DMA calls\<close>

lemma dma_clear_frame [simp]:
  "Channel (hif_dma_inttc_clear ch dm) = Channel dm" "Channel (hif_dma_interr_clear ch dm) = Channel dm"
  "Channel (hif_dma_enable dm) = Channel dm" "dma_Enable (hif_dma_enable dm)"
  by (simp_all add: hif_dma_inttc_clear_def hif_dma_interr_clear_def hif_dma_enable_def
      hif_dma_interrupt_enable_def)

lemma config_length: "hif_dma_config ch src dst tc err l dm = (r, dm') \<Longrightarrow> length (Channel dm') = length (Channel dm)"
  by (auto simp: hif_dma_config_def Let_def dma_put_chan_sel split: if_splits prod.splits)

lemma start_ok:
  assumes "hif_dma_start ch (Some x) dm = (0, dm')" and "length (Channel dm) = 8"
  shows "0 \<le> ch \<and> nat ch < length (Channel dm') \<and> ch_Enable (dma_chan_at ch dm') \<and>
    ch_desc (dma_chan_at ch dm') = x"
  using assms
  by (auto simp: hif_dma_start_def dma_consts hif_dma_valid_channel_def Let_def dma_put_chan_sel
      split: if_splits)

lemma peri_ok: "hif_dma_peri_init (Some p) 6 addr False False = (0, Some (p\<lparr>peri_ID := 6, peri_Addr := addr,
    peri_AddrInc := False, peri_FlowCtrl := False\<rparr>))"
  by (simp add: hif_dma_peri_init_def dma_consts)

lemma register_ring:
  assumes r: "hif_uart_rx_dma_register (Some a) 1 mem sz d = Some (0, d')"
    and n: "n = unat sz div HIF_UART_SLOT_SIZE" "HIF_UART_SLOT_SIZE dvd unat sz" "0 < n"
    and "block_ok a n" and m: "region_ok mem (unat sz)" and "length (Channel (dma d)) = 8"
  shows "\<exists>ud dm. d' = d\<lparr>dma := dm, rx_dma_live := True, g_rx_dma := Some ud\<rparr> \<and> ud_mem_addr ud = mem \<and>
    ud_slot_addr ud = mem \<and> 0 \<le> ud_channel ud \<and> nat (ud_channel ud) < length (Channel dm) \<and>
    ring_ok 0x4000A000 (unat sz) ud \<and> ring_pos 0x4000A000 ud 0 (dma_chan_at (ud_channel ud) dm)"
proof -
  let ?descs = "map (\<lambda>i. ring_desc a 0x4000A000 mem (ring_next n i) i) [0..<n]"
  have "mem + of_nat (i * HIF_UART_SLOT_SIZE) \<noteq> 0" if "i < n" for i
  proof -
    have "i * HIF_UART_SLOT_SIZE \<le> unat sz" using that n(1,2) by (metis dvd_div_mult_self less_imp_le mult_le_mono1)
    then have "unat (mem + of_nat (i * HIF_UART_SLOT_SIZE)) = unat mem + i * HIF_UART_SLOT_SIZE"
      by (intro unat_add_small) (use m in \<open>simp add: region_ok_def\<close>)
    then have "unat (mem + of_nat (i * HIF_UART_SLOT_SIZE)) \<noteq> 0" using m by (simp add: region_ok_def)
    then show ?thesis unfolding unat_eq_zero .
  qed
  then have ds: "uart_rx_descs a 0x4000A000 mem n (replicate n dma_desc_zero) = ?descs"
    by (intro uart_rx_descs_ring assms(5)) (use n(3) in auto)
  have idx: "hsuart_peri_id ! nat 1 = 6" "hif_uart_reg_base ! nat 1 = 0x4000A000"
    by (simp_all add: hsuart_peri_id_def hif_uart_reg_base_def)
  obtain ch dm1 dm2 where s: "hif_dma_start ch (Some (?descs ! 0)) dm1 = (0, dm2)"
      "length (Channel dm1) = 8" and d': "d' = d\<lparr>dma := dm2, rx_dma_live := True,
         g_rx_dma := Some \<lparr>ud_addr = a, ud_channel = ch, ud_mem_addr = mem, ud_mem_size = sz, ud_slot_addr = mem,
           ud_slot_size = of_nat HIF_UART_SLOT_SIZE, ud_n_desc = n, ud_desc = ?descs\<rparr>\<rparr>"
  proof -
    obtain r1 dm1 where c: "hif_dma_config_p2m (hif_dma_get_channel True (dma d)) (Some \<lparr>peri_Addr = 0x4000A000,
        peri_ID = 6, peri_AddrInc = False, peri_FlowCtrl = False\<rparr>) (Some RX_DMA_INTTC) (Some RX_DMA_INTERR)
        (dma d) = (r1, dm1)" by fastforce
    obtain r2 dm2 where t: "hif_dma_start (hif_dma_get_channel True (dma d)) (Some (?descs ! 0)) dm1 = (r2, dm2)"
      by fastforce
    have "length (Channel dm1) = 8"
      using config_length [OF c [unfolded hif_dma_config_p2m_def]] assms(7) by simp
    with that t show thesis
      using r n(3) c unfolding hif_uart_rx_dma_register_def Let_def option.case idx peri_ok n(1) [symmetric]
      by (simp add: ds split: if_splits)
  qed
  let ?ud = "\<lparr>ud_addr = a, ud_channel = ch, ud_mem_addr = mem, ud_mem_size = sz, ud_slot_addr = mem,
           ud_slot_size = of_nat HIF_UART_SLOT_SIZE, ud_n_desc = n, ud_desc = ?descs\<rparr>"
  have "ring_ok 0x4000A000 (unat sz) ?ud" using n assms(5) m by (simp add: ring_ok_def)
  moreover have "?descs ! 0 = ring_desc a 0x4000A000 mem (ring_next n 0) 0" using n(3) by simp
  ultimately show ?thesis
    using start_ok [OF s] by (intro exI [of _ ?ud] exI [of _ dm2])
      (simp add: d' ring_pos_def ring_desc_def HIF_UART_SLOT_SIZE_def)
qed

subsection \<open>Opening\<close>

lemma hw_self: "\<exists>h. (d :: uart_dev) = d\<lparr>hw := h\<rparr>"
  by (rule exI [of _ "hw d"]) simp

lemma pin_enable_frame:
  assumes "hif_uart_pin_enable ch flow d = (r, d')"
  shows "r \<le> 0" and "\<exists>h. d' = d\<lparr>hw := h\<rparr>"
  using assms by (auto simp: hif_uart_pin_enable_def Let_def intro: hw_self split: if_splits)

definition uart_applied :: "hif_uart \<Rightarrow> hif_uart" where
  "uart_applied u = (if hfc u = UART_HFC_ENABLE \<and> \<not> hfc_rx_irq u then u\<lparr>hfc := UART_HFC_CTS_ENABLE\<rparr> else u)"

lemma uart_applied_sel [simp]:
  "channel (uart_applied u) = channel u" "baudrate (uart_applied u) = baudrate u"
  "hfc_rx_irq (uart_applied u) = hfc_rx_irq u" "uart_dma_mode (uart_applied u) = uart_dma_mode u"
  "(hfc (uart_applied u) = UART_HFC_ENABLE) = (hfc u = UART_HFC_ENABLE \<and> hfc_rx_irq u)"
  by (auto simp: uart_applied_def uart_dma_mode_def)

lemma enable_eq:
  "\<exists>h. hif_uart_enable u d = (case hif_uart_pin_enable (channel (uart_applied u)) (hfc (uart_applied u))
      (d\<lparr>hw := h\<rparr>) of (r, d1) \<Rightarrow> if r < 0 then (-1, uart_applied u, d1)
        else (0, uart_applied u, hif_uart_set_info (Some (uart_applied u)) d1))"
  unfolding hif_uart_enable_def uart_applied_def [symmetric] Let_def by (rule exI) (rule refl)

lemma enable_result:
  assumes "hif_uart_enable u d = (r, u', d')"
  shows "u' = uart_applied u" and "r = 0 \<Longrightarrow> \<exists>h. d' = d\<lparr>hw := h, g_hif_uart := u'\<rparr>"
    and "r \<noteq> 0 \<Longrightarrow> r = -1 \<and> (\<exists>h. d' = d\<lparr>hw := h\<rparr>)"
proof -
  from enable_eq [of u d] obtain h where h: "hif_uart_enable u d = (case hif_uart_pin_enable (channel (uart_applied u))
      (hfc (uart_applied u)) (d\<lparr>hw := h\<rparr>) of (r, d1) \<Rightarrow> if r < 0 then (-1, uart_applied u, d1)
        else (0, uart_applied u, hif_uart_set_info (Some (uart_applied u)) d1))" ..
  obtain r1 d1 where p: "hif_uart_pin_enable (channel (uart_applied u)) (hfc (uart_applied u)) (d\<lparr>hw := h\<rparr>) = (r1, d1)"
    by (rule prod.exhaust)
  have e2: "(r, u', d') = (if r1 < 0 then (-1, uart_applied u, d1)
         else (0, uart_applied u, hif_uart_set_info (Some (uart_applied u)) d1))"
    using h unfolding assms p case_prod_conv .
  obtain h' where d1: "d1 = d\<lparr>hw := h'\<rparr>" using pin_enable_frame(2) [OF p] by auto
  have e3: "u' = uart_applied u \<and> (r = 0 \<and> d' = d\<lparr>hw := h', g_hif_uart := uart_applied u\<rparr> \<or> r = -1 \<and> d' = d1)"
  proof (cases "r1 < 0")
    case True
    with e2 show ?thesis by simp
  next
    case False
    with e2 show ?thesis by (simp add: hif_uart_set_info_def d1)
  qed
  then show "u' = uart_applied u" by blast
  show "\<exists>h. d' = d\<lparr>hw := h, g_hif_uart := u'\<rparr>" if "r = 0" using e3 that by auto
  show "r = -1 \<and> (\<exists>h. d' = d\<lparr>hw := h\<rparr>)" if "r \<noteq> 0" using e3 that d1 by blast
qed

text \<open>A successful open in DMA mode, taken apart.\<close>

lemma open_ok:
  assumes "hif_uart_open (Some nfo) env d = Some (0, d')" and "uart_dma_mode (i_uart nfo)"
  obtains d1 h where "hif_uart_channel_valid (channel (i_uart nfo))"
    and "hif_uart_fifo_create nfo (ue_rx env) (ue_tx env) d = (0, d1)"
    and "hif_uart_dma_register (ue_dma env) (channel (i_uart nfo))
           (d1\<lparr>hw := h, g_hif_uart := uart_applied (i_uart nfo)\<rparr>) = Some (0, d')"
proof -
  obtain d1 r u d2 where s: "hif_uart_channel_valid (channel (i_uart nfo))"
      "hif_uart_fifo_create nfo (ue_rx env) (ue_tx env) d = (0, d1)" "hif_uart_enable (i_uart nfo) d1 = (0, u, d2)"
      "(if uart_dma_mode u then map_option (\<lambda>(r, d3). (if r \<noteq> 0 then -1 else 0 :: int, d3))
               (hif_uart_dma_register (ue_dma env) (channel u) d2) else Some (0, d2)) = Some (0, d')"
    using assms(1) by (auto simp: hif_uart_open_def split: if_splits prod.splits)
  from enable_result [OF s(3)] obtain h where
    "u = uart_applied (i_uart nfo)" "d2 = d1\<lparr>hw := h, g_hif_uart := uart_applied (i_uart nfo)\<rparr>" by auto
  with s(4) assms(2) obtain r3 where r3: "hif_uart_dma_register (ue_dma env) (channel (i_uart nfo))
       (d1\<lparr>hw := h, g_hif_uart := uart_applied (i_uart nfo)\<rparr>) = Some (r3, d')" "(if r3 \<noteq> 0 then -1 else 0 :: int) = 0"
    by auto
  then have "r3 = 0" by (cases "r3 = 0") simp_all
  with r3(1) s(1,2) show thesis by (intro that) simp_all
qed

lemma fifo_create_ok:
  assumes "hif_uart_fifo_create nfo rxe txe d = (0, d1)" and "rx_fifo_size nfo = int s" and "0 < s"
    and "rx_fifo_addr nfo = None"
  obtains f t where "hif_fifo_create None (int s) (a_fifo rxe) (a_buf rxe) = Some f"
    and "d1 = d\<lparr>g_rx_fifo := Some f, g_rx_mem := a_addr rxe, g_tx_fifo := t\<rparr>"
proof -
  obtain f where f: "hif_fifo_create None (int s) (a_fifo rxe) (a_buf rxe) = Some f"
    using assms by (auto simp: hif_uart_fifo_create_def Let_def split: if_splits)
  with assms have "d1 = d\<lparr>g_rx_fifo := Some f, g_rx_mem := a_addr rxe, g_tx_fifo := g_tx_fifo d1\<rparr>"
    by (auto simp: hif_uart_fifo_create_def Let_def split: if_splits)
  with f that show thesis by blast
qed

lemma dma_register_ok:
  assumes "hif_uart_dma_register mem ch d = Some (0, d')" and "g_rx_fifo d = Some f"
  obtains a d2 h where "mem = Some a" and "hif_uart_rx_dma_register mem ch (g_rx_mem d) (fsize f)
      (d\<lparr>dma := hif_dma_enable (dma d)\<rparr>) = Some (0, d2)" and "d' = d2\<lparr>hw := h\<rparr>"
proof -
  obtain d2 h where s: "hif_uart_rx_dma_register mem ch (g_rx_mem d) (fsize f)
      (d\<lparr>dma := hif_dma_enable (dma d)\<rparr>) = Some (0, d2)" "d' = d2\<lparr>hw := h\<rparr>"
    using assms by (auto simp: hif_uart_dma_register_def uart_rx_dma_set_def Let_def split: if_splits option.splits)
  then obtain a where "mem = Some a" by (cases mem) (simp_all add: hif_uart_rx_dma_register_def Let_def)
  with s that show thesis by blast
qed

text \<open>
  The memory the FIFO and the descriptors live in: a ring of \<open>s\<close> bytes, a power of two and whole
  slots, in blocks that do not wrap around the address space.
\<close>

definition uart_open_env :: "hif_info \<Rightarrow> uart_env \<Rightarrow> uart_dev \<Rightarrow> nat \<Rightarrow> bool" where
  "uart_open_env nfo env d s \<longleftrightarrow> rx_fifo_size nfo = int s \<and> rx_fifo_addr nfo = None \<and> 0 < s \<and> s < 2 ^ 31 \<and>
     s dvd 2 ^ 32 \<and> HIF_UART_SLOT_SIZE dvd s \<and> (\<forall>m. a_buf (ue_rx env) = Some m \<longrightarrow> s \<le> length m) \<and>
     region_ok (a_addr (ue_rx env)) s \<and> (\<forall>a. ue_dma env = Some a \<longrightarrow> block_ok a (s div HIF_UART_SLOT_SIZE)) \<and>
     length (Channel (dma d)) = 8"

lemma fifo_create_fresh:
  assumes "hif_fifo_create None (int s) b m = Some f"
  shows "push_idx f = 0" "cnt f = 0" "fsize f = of_nat s"
  using assms by (auto simp: hif_fifo_create_def split: if_splits option.splits)

lemma open_state:
  assumes o: "hif_uart_open (Some nfo) env d = Some (0, d')" and mode: "uart_dma_mode (i_uart nfo)"
    and env: "uart_open_env nfo env d s"
  shows "\<exists>f ud. uart_rx_state d' f ud 0 \<and> fifo_cap f = s \<and> cnt f = 0 \<and> channel (g_hif_uart d') = HIF_UART_CHANNEL \<and>
    g_hif_uart d' = uart_applied (i_uart nfo)"
proof -
  note e = env [unfolded uart_open_env_def]
  obtain d1 h where 1: "hif_uart_channel_valid (channel (i_uart nfo))"
      "hif_uart_fifo_create nfo (ue_rx env) (ue_tx env) d = (0, d1)"
      "hif_uart_dma_register (ue_dma env) (channel (i_uart nfo))
           (d1\<lparr>hw := h, g_hif_uart := uart_applied (i_uart nfo)\<rparr>) = Some (0, d')" (is "hif_uart_dma_register _ _ ?d = _")
    using open_ok [OF o mode] by blast
  have ch: "channel (i_uart nfo) = 1" using 1(1) by (simp add: hif_uart_channel_valid_def HIF_UART_CHANNEL_def split: if_splits)
  obtain f t where f: "hif_fifo_create None (int s) (a_fifo (ue_rx env)) (a_buf (ue_rx env)) = Some f"
      "d1 = d\<lparr>g_rx_fifo := Some f, g_rx_mem := a_addr (ue_rx env), g_tx_fifo := t\<rparr>"
    using fifo_create_ok [OF 1(2), of s] e by blast
  have g: "g_rx_fifo ?d = Some f" "g_rx_mem ?d = a_addr (ue_rx env)" using f(2) by simp_all
  obtain a d2 h2 where 2: "ue_dma env = Some a" "hif_uart_rx_dma_register (Some a) 1 (a_addr (ue_rx env)) (fsize f)
      (?d\<lparr>dma := hif_dma_enable (dma ?d)\<rparr>) = Some (0, d2)" "d' = d2\<lparr>hw := h2\<rparr>"
    using dma_register_ok [OF 1(3) g(1)] ch g(2) by metis
  have s: "unat (fsize f) = s" using fifo_create_fresh(3) [OF f(1)] e by simp
  have wf: "fifo_wf f" "fifo_list f = []" "fifo_cap f = s"
    using fifo_wf_create [OF f(1)] e by auto
  have "HIF_UART_SLOT_SIZE \<le> s" using e by (auto dest: dvd_imp_le)
  then have n: "0 < s div HIF_UART_SLOT_SIZE" by (simp add: div_greater_zero_iff HIF_UART_SLOT_SIZE_def)
  from register_ring [OF 2(2), unfolded s, OF refl] obtain ud dm where r: "d2 = ?d\<lparr>dma := dm, rx_dma_live := True,
      g_rx_dma := Some ud\<rparr>" "ud_mem_addr ud = a_addr (ue_rx env)" "ud_slot_addr ud = a_addr (ue_rx env)"
      "0 \<le> ud_channel ud" "nat (ud_channel ud) < length (Channel dm)" "ring_ok 0x4000A000 s ud"
      "ring_pos 0x4000A000 ud 0 (dma_chan_at (ud_channel ud) dm)"
    using e n 2(1) f(2) by auto
  have "uart_rx_state d' f ud 0"
    using r wf fifo_create_fresh [OF f(1)] f(2) ch mode e
    by (auto simp: uart_rx_state_def 2(3) live_rx_dma_Some uart_dma_mode_def)
  then show ?thesis using wf(3) fifo_create_fresh(2) [OF f(1)] ch
    by (intro exI [of _ f] exI [of _ ud]) (simp add: 2(3) r(1) HIF_UART_CHANNEL_def)
qed

lemma open_queue:
  assumes "hif_uart_open (Some nfo) env d = Some (0, d')" and "uart_dma_mode (i_uart nfo)"
    and "uart_open_env nfo env d s"
  shows "uart_rx_queue d' s []"
proof -
  obtain f ud where f: "uart_rx_state d' f ud 0" "fifo_cap f = s" "cnt f = 0" using open_state [OF assms] by blast
  then have "[] = fifo_list f @ fifo_ahead f 0" by (simp add: fifo_list_def fifo_ahead_def)
  with f(1,2) show ?thesis unfolding uart_rx_queue_def by blast
qed

subsection \<open>When opening succeeds\<close>

lemma pin_enable_ok: "fst (hif_uart_pin_enable 1 flow d) = 0"
  by (simp add: hif_uart_pin_enable_def g_hif_uart_pin_def Let_def)

lemma enable_ok:
  assumes "hif_uart_channel_valid (channel u)"
  shows "\<exists>d'. hif_uart_enable u d = (0, uart_applied u, d')"
proof -
  from enable_eq [of u d] obtain h where h: "hif_uart_enable u d = (case hif_uart_pin_enable (channel (uart_applied u))
      (hfc (uart_applied u)) (d\<lparr>hw := h\<rparr>) of (r, d1) \<Rightarrow> if r < 0 then (-1, uart_applied u, d1)
        else (0, uart_applied u, hif_uart_set_info (Some (uart_applied u)) d1))" ..
  obtain r1 d1 where p: "hif_uart_pin_enable (channel (uart_applied u)) (hfc (uart_applied u)) (d\<lparr>hw := h\<rparr>) = (r1, d1)"
    by (rule prod.exhaust)
  have "channel (uart_applied u) = 1"
    using assms by (simp add: hif_uart_channel_valid_def HIF_UART_CHANNEL_def split: if_splits)
  then have "r1 = 0" using pin_enable_ok [of "hfc (uart_applied u)" "d\<lparr>hw := h\<rparr>"] p by simp
  then show ?thesis unfolding h p by simp
qed

lemma get_first_channel: "\<not> dma_channel_enabled dm 0 \<Longrightarrow> hif_dma_get_channel True dm = 0"
  by (simp add: hif_dma_get_channel_def dma_consts upto_rec1)

lemma config_p2m_ok:
  assumes "dma_Enable dm" and "\<not> dma_channel_enabled dm 0" and "length (Channel dm) = 8" and "\<not> peri_FlowCtrl p"
    and "uint (peri_ID p) < 16"
  shows "fst (hif_dma_config_p2m 0 (Some p) tc err dm) = 0"
    and "dma_Enable (snd (hif_dma_config_p2m 0 (Some p) tc err dm))"
    and "\<not> ch_Enable (dma_chan_at 0 (snd (hif_dma_config_p2m 0 (Some p) tc err dm)))"
  using assms
  by (simp_all add: hif_dma_config_p2m_def hif_dma_config_def hif_dma_is_enabled_def hif_dma_valid_channel_def
      dma_consts dma_channel_enabled_def dma_config_src_def dma_config_dest_def Let_def dma_put_chan_def dma_chan_at_def)

lemma start_succeeds:
  assumes "dma_Enable dm" and "\<not> ch_Enable (dma_chan_at 0 dm)"
  shows "fst (hif_dma_start 0 (Some x) dm) = 0"
  using assms by (simp add: hif_dma_start_def hif_dma_is_enabled_def hif_dma_valid_channel_def dma_consts Let_def)

lemma register_ok:
  assumes "dma_Enable (dma d)" and "\<not> dma_channel_enabled (dma d) 0" and "length (Channel (dma d)) = 8"
    and "0 < unat sz div HIF_UART_SLOT_SIZE"
  shows "\<exists>d'. hif_uart_rx_dma_register (Some a) 1 mem sz d = Some (0, d') \<and> g_hif_uart d' = g_hif_uart d"
proof -
  let ?p = "\<lparr>peri_Addr = 0x4000A000, peri_ID = 6, peri_AddrInc = False, peri_FlowCtrl = False\<rparr>"
  obtain r1 dm1 where c: "hif_dma_config_p2m 0 (Some ?p) (Some RX_DMA_INTTC) (Some RX_DMA_INTERR) (dma d) = (r1, dm1)"
    by fastforce
  have c': "r1 = 0" "dma_Enable dm1" "\<not> ch_Enable (dma_chan_at 0 dm1)"
    using config_p2m_ok [OF assms(1-3), of ?p "Some RX_DMA_INTTC" "Some RX_DMA_INTERR"] c by simp_all
  have s: "\<exists>dm2. hif_dma_start 0 (Some x) dm1 = (0, dm2)" for x
    using start_succeeds [OF c'(2,3), of x] by (metis prod.collapse)
  have idx: "hsuart_peri_id ! nat 1 = 6" "hif_uart_reg_base ! nat 1 = 0x4000A000"
    by (simp_all add: hsuart_peri_id_def hif_uart_reg_base_def)
  obtain dm2 where "hif_dma_start 0 (Some (uart_rx_descs a 0x4000A000 mem (unat sz div HIF_UART_SLOT_SIZE)
      (replicate (unat sz div HIF_UART_SLOT_SIZE) dma_desc_zero) ! 0)) dm1 = (0, dm2)" using s by blast
  then show ?thesis
    unfolding hif_uart_rx_dma_register_def Let_def option.case idx peri_ok get_first_channel [OF assms(2)]
    using assms(4) c c'(1) by simp
qed

lemma open_succeeds:
  assumes "i_type nfo = HIF_TYPE_UART \<or> i_type nfo = HIF_TYPE_UART_HFC"
    and ch: "hif_uart_channel_valid (channel (i_uart nfo))" and "hif_uart_baudrate_valid (baudrate (i_uart nfo))"
    and mode: "uart_dma_mode (i_uart nfo)" and env: "uart_open_env nfo env d s"
    and "a_fifo (ue_rx env)" and m: "a_buf (ue_rx env) = Some m" and "tx_fifo_size nfo = 0" and "ue_dma env = Some a"
    and "\<not> dma_channel_enabled (dma d) 0" and big: "hfc (i_uart nfo) = UART_HFC_DISABLE \<or> 16 * 1024 \<le> s"
  shows "\<exists>d'. hif_uart_open (Some nfo) env d = Some (0, d')"
proof -
  note e = env [unfolded uart_open_env_def]
  obtain f where f: "hif_fifo_create None (int s) True (Some m) = Some f"
    using e m by (auto simp: hif_fifo_create_def)
  have s: "unat (fsize f) = s" using fifo_create_fresh(3) [OF f] e by simp
  let ?d1 = "d\<lparr>g_rx_fifo := Some f, g_rx_mem := a_addr (ue_rx env)\<rparr>"
  have c: "hif_uart_fifo_create nfo (ue_rx env) (ue_tx env) d = (0, ?d1)"
    using assms(6,8) e m f by (simp add: hif_uart_fifo_create_def)
  obtain d2 where en: "hif_uart_enable (i_uart nfo) ?d1 = (0, uart_applied (i_uart nfo), d2)"
    using enable_ok [OF ch] by blast
  then obtain h where d2: "d2 = ?d1\<lparr>hw := h, g_hif_uart := uart_applied (i_uart nfo)\<rparr>"
    using enable_result(2) [OF en] by auto
  have ch1: "channel (i_uart nfo) = 1"
    using ch by (simp add: hif_uart_channel_valid_def HIF_UART_CHANNEL_def split: if_splits)
  have "HIF_UART_SLOT_SIZE \<le> s" using e by (auto dest: dvd_imp_le)
  then have n: "0 < unat (fsize f) div HIF_UART_SLOT_SIZE" unfolding s by (simp add: div_greater_zero_iff HIF_UART_SLOT_SIZE_def)
  have "\<exists>d3. hif_uart_rx_dma_register (Some a) 1 (g_rx_mem d2) (fsize f) (d2\<lparr>dma := hif_dma_enable (dma d2)\<rparr>) =
      Some (0, d3) \<and> g_hif_uart d3 = uart_applied (i_uart nfo)"
    using register_ok [OF _ _ _ n, where d = "d2\<lparr>dma := hif_dma_enable (dma d2)\<rparr>" and a = a and mem = "g_rx_mem d2"]
      assms(10) e by (simp add: d2 dma_channel_enabled_def dma_chan_at_def)
  then obtain d3 where d3: "hif_uart_rx_dma_register (Some a) 1 (g_rx_mem d2) (fsize f)
      (d2\<lparr>dma := hif_dma_enable (dma d2)\<rparr>) = Some (0, d3)" "g_hif_uart d3 = uart_applied (i_uart nfo)" by blast
  have "hfc (i_uart nfo) = UART_HFC_DISABLE \<Longrightarrow> \<not> uart_sw_rts (d2\<lparr>dma := x\<rparr>)" for x
    by (simp add: uart_sw_rts_def d2 uart_applied_def hfc_flags_def)
  then have "hif_uart_dma_register (Some a) 1 d2 = Some (0, d3\<lparr>hw := (hw d3)\<lparr>hs_dmacr_rx := True\<rparr>\<rparr>)"
    using d3 ch1 big s
    by (auto simp: hif_uart_dma_register_def Let_def uart_rx_dma_set_def d2 HIF_UART_HFC_DMA_RX_SW_FIFO_LIMIT_def)
  then show ?thesis
    using assms(1,3,9) ch mode c en ch1 by (auto simp: hif_uart_open_def)
qed

end
