(* ===== verification/UartProps.thy ===== *)
theory UartProps
  imports UartOpen
begin

text \<open>
  What the UART driver guarantees over its whole life: the stream it receives, the limits of its
  ring, and what its changes of settings do to the receive DMA.
\<close>

subsection \<open>A concrete driver\<close>

definition demo_uart_hw :: uart_hw where
  "demo_uart_hw = \<lparr>hs_rx = [], hs_tx = [], hs_txfe = True, hs_txff = (\<lambda>i. False), hs_cfg = None,
     hs_dmacr_rx = False, hs_imsc_rx = False, hs_imsc_tx = False, hs_rts = False, hs_isr_on = False,
     hs_irq_unmasked = False, gpio_alt = 0, gpio_pullup = 0,
     gpio_uio = replicate 15 \<lparr>sel7_0 = 0xFF, sel15_8 = 0xFF, sel23_16 = 0xFF, sel31_24 = 0xFF\<rparr>, pkg_opt = 0\<rparr>"

definition demo_dmac :: "uart_isr dmac" where
  "demo_dmac = \<lparr>dma_Enable = False, AHBM1_Endian = False, AHBM2_Endian = False, dma_Sync = 0,
     IntTCStatus = 0, IntErrorStatus = 0,
     Channel = replicate 8 \<lparr>ch_desc = dma_desc_zero, ch_Enable = False, ch_SrcPeri = 0, ch_DestPeri = 0,
       ch_FlowCntrl = 0, ch_IntErr = False, ch_IntTC = False, ch_Lock = False, ch_Active = False, ch_Halt = False\<rparr>,
     inttc_isr = replicate 8 None, interr_isr = replicate 8 None, dma_isr_on = False, dma_irq_unmasked = False\<rparr>"

definition demo_uart_cfg :: "uart_hfc \<Rightarrow> bool \<Rightarrow> hif_uart" where
  "demo_uart_cfg flow irq = \<lparr>channel = 1, baudrate = 115200, data_bits = UART_DB8, stop_bits = UART_SB1,
     parity = UART_PB_NONE, hfc = flow, hfc_rx_irq = irq\<rparr>"

definition demo_uart_dev :: uart_dev where
  "demo_uart_dev = \<lparr>g_hif_uart = (demo_uart_cfg UART_HFC_DISABLE False)\<lparr>channel := -1\<rparr>, g_rx_fifo = None,
     g_tx_fifo = None, g_rx_mem = 0, g_rx_dma = None, rx_dma_live = False, dma = demo_dmac, cmd_tx = 0,
     cmd_rx = 0, cmd_rx_isr = 0, hw = demo_uart_hw, uart_events = []\<rparr>"

definition demo_uart_info :: hif_info where
  "demo_uart_info = \<lparr>i_type = HIF_TYPE_UART, i_uart = demo_uart_cfg UART_HFC_DISABLE False, i_sw_id = 0,
     i_bd_id = 0, rx_fifo_addr = None, rx_fifo_size = 256, tx_fifo_addr = None, tx_fifo_size = 0,
     i_rx_params = \<lparr>rp_addr = True, rp_size = 512, rp_cb = True\<rparr>\<rparr>"

definition demo_uart_env :: uart_env where
  "demo_uart_env = \<lparr>ue_rx = \<lparr>a_fifo = True, a_buf = Some (replicate 256 0), a_addr = 0x20000000\<rparr>,
     ue_tx = \<lparr>a_fifo = True, a_buf = None, a_addr = 0\<rparr>, ue_dma = Some 0x20001000, ue_drains = (\<lambda>ch. True)\<rparr>"

definition demo_uart_open :: uart_dev where
  "demo_uart_open = snd (the (hif_uart_open (Some demo_uart_info) demo_uart_env demo_uart_dev))"

lemma demo_uart_open_env: "uart_open_env demo_uart_info demo_uart_env demo_uart_dev 256"
  by (simp add: uart_open_env_def demo_uart_info_def demo_uart_env_def demo_uart_dev_def demo_dmac_def
      region_ok_def block_ok_def HIF_UART_SLOT_SIZE_def)

lemma demo_uart_mode: "uart_dma_mode (i_uart demo_uart_info)"
  by (simp add: uart_dma_mode_def demo_uart_info_def demo_uart_cfg_def)

lemma demo_uart_opens: "hif_uart_open (Some demo_uart_info) demo_uart_env demo_uart_dev = Some (0, demo_uart_open)"
proof -
  have "\<exists>d'. hif_uart_open (Some demo_uart_info) demo_uart_env demo_uart_dev = Some (0, d')"
    by (rule open_succeeds [OF _ _ _ demo_uart_mode demo_uart_open_env])
      (simp_all add: demo_uart_info_def demo_uart_cfg_def demo_uart_env_def demo_uart_dev_def demo_dmac_def
        hif_uart_channel_valid_def HIF_UART_CHANNEL_def hif_uart_baudrate_valid_def dma_channel_enabled_def dma_chan_at_def)
  then show ?thesis by (auto simp: demo_uart_open_def)
qed

text \<open>A controller that keeps to the documented behaviour.\<close>

definition demo_engine :: dma_engine where
  "demo_engine fetch c = (DestAddr (ch_desc c),
     if XferSize (ch_desc c) = 1 then c\<lparr>ch_desc := the (fetch (NextDesc (ch_desc c)))\<rparr>
     else c\<lparr>ch_desc := (ch_desc c)\<lparr>DestAddr := DestAddr (ch_desc c) + 1, XferSize := XferSize (ch_desc c) - 1\<rparr>\<rparr>)"

lemma demo_engine_ok: "dma_engine_ok demo_engine"
  by (auto simp: dma_engine_ok_def demo_engine_def)

subsection \<open>The pointer to the freed block\<close>

lemma unregister_dangles:
  assumes "hif_uart_dma_unregister drains d = Some d'" and "g_rx_dma d \<noteq> None"
  shows "rx_dma_live d" "g_rx_dma d' = g_rx_dma d" "\<not> rx_dma_live d'"
  using assms
  by (auto simp: hif_uart_dma_unregister_def uart_rx_dma_set_def hif_uart_rx_dma_unregister_def
      split: if_splits option.splits)

lemma stop_returns: "hif_dma_stop (\<lambda>ch. True) ch dm \<noteq> None"
  by (simp add: hif_dma_stop_def Let_def)

lemma stop_all_returns: "hif_dma_stop_all (\<lambda>ch. True) chs dm \<noteq> None"
proof (induction chs arbitrary: dm)
  case (Cons ch chs)
  then show ?case using stop_returns [of ch dm] by (auto split: option.splits)
qed simp

lemma unregister_returns:
  assumes "0 \<le> channel (g_hif_uart d)" and "channel (g_hif_uart d) < 4"
    and "g_rx_dma d = None \<or> rx_dma_live d"
  shows "hif_uart_dma_unregister (\<lambda>ch. True) d \<noteq> None"
  using assms stop_returns stop_all_returns
  by (auto simp: hif_uart_dma_unregister_def uart_rx_dma_set_def hif_uart_rx_dma_unregister_def hif_dma_disable_def
      split: option.splits)

lemma change_to_irq_ok:
  assumes "hif_uart_channel_valid (channel u)" and "hif_uart_baudrate_valid (baudrate u)"
    and "uart_dma_mode (g_hif_uart d)" and "\<not> uart_dma_mode u"
    and "channel (g_hif_uart d) = HIF_UART_CHANNEL" and "rx_dma_live d"
  shows "\<exists>d'. hif_uart_change (\<lambda>ch. True) mem1 mem2 (Some u) d = Some (0, d')"
proof -
  obtain d1 where d1: "hif_uart_dma_unregister (\<lambda>ch. True) d = Some d1"
    using unregister_returns [of d] assms(5,6) by (auto simp: HIF_UART_CHANNEL_def)
  obtain d2 where d2: "hif_uart_enable u (hif_uart_disable d1) = (0, uart_applied u, d2)"
    using enable_ok [OF assms(1)] by blast
  have "uart_change_apply mem1 u (hif_uart_disable d1) = Some (0, uart_applied u, d2)"
    using d2 assms(4) by (simp add: uart_change_apply_def)
  then show ?thesis using d1 assms(1,2,3) by (simp add: hif_uart_change_def hif_uart_get_info_def)
qed

lemma disable_frame [simp]:
  "g_rx_dma (hif_uart_disable d) = g_rx_dma d" "rx_dma_live (hif_uart_disable d) = rx_dma_live d"
  by (simp_all add: hif_uart_disable_def hif_uart_pin_disable_def Let_def)

lemma close_dangling:
  assumes "hif_uart_channel_valid (channel (g_hif_uart d))" and "g_rx_dma d \<noteq> None" and "\<not> rx_dma_live d"
  shows "hif_uart_close drains d = None"
  using assms
  by (auto simp: hif_uart_close_def hif_uart_dma_unregister_def uart_rx_dma_set_def hif_uart_rx_dma_unregister_def
      split: option.splits)

text \<open>A change that succeeds and leaves DMA mode.\<close>

lemma change_to_irq:
  assumes "hif_uart_change drains mem1 mem2 (Some u) d = Some (0, d')" and "uart_dma_mode (g_hif_uart d)"
    and "\<not> uart_dma_mode u"
  obtains d1 h where "hif_uart_channel_valid (channel u)" and "hif_uart_dma_unregister drains d = Some d1"
    and "d' = uart_emit (UartSetType (if hfc (uart_applied u) = UART_HFC_ENABLE then HIF_TYPE_UART_HFC else HIF_TYPE_UART))
      ((hif_uart_disable d1)\<lparr>hw := h, g_hif_uart := uart_applied u\<rparr>)"
proof -
  obtain d1 where d1: "hif_uart_channel_valid (channel u)" "hif_uart_dma_unregister drains d = Some d1"
      "hif_uart_baudrate_valid (baudrate u)"
    using assms(1,2) by (auto simp: hif_uart_change_def hif_uart_get_info_def split: if_splits option.splits)
  obtain d2 where d2: "hif_uart_enable u (hif_uart_disable d1) = (0, uart_applied u, d2)"
    using enable_ok [OF d1(1)] by blast
  have "uart_change_apply mem1 u (hif_uart_disable d1) = Some (0, uart_applied u, d2)"
    using d2 assms(3) by (simp add: uart_change_apply_def)
  then have "d' = uart_emit (UartSetType (if hfc (uart_applied u) = UART_HFC_ENABLE then HIF_TYPE_UART_HFC else HIF_TYPE_UART)) d2"
    using assms(1,2) d1 by (simp add: hif_uart_change_def hif_uart_get_info_def)
  moreover obtain h where "d2 = (hif_uart_disable d1)\<lparr>hw := h, g_hif_uart := uart_applied u\<rparr>"
    using enable_result(2) [OF d2] by auto
  ultimately show thesis using d1(1,2) that by blast
qed

subsection \<open>Properties\<close>

text \<open>C11: The UART receive path delivers exactly what arrives.  After a successful open in DMA mode,
  and with a DMA controller that follows the descriptors as documented, take any run of arriving bytes,
  slot interrupts and reads in which the bytes waiting stay below the size of the ring: every operation of
  the driver returns, the reads hand out what a plain queue would hand out, and together with what is
  still waiting that is all that arrived, in order, across every wrap of the ring and of the indices.\<close>
theorem uart_delivers_stream:
  assumes "hif_uart_open (Some nfo) env d = Some (0, d')" and "uart_dma_mode (i_uart nfo)"
    and "uart_open_env nfo env d s" and "dma_engine_ok eng"
    and "run_uart (line_step s) [] opers = Some (outs, q)"
  shows "\<exists>d''. run_uart (uart_step eng) d' opers = Some (outs, d'') \<and> outs @ q = arrived opers \<and>
    (\<exists>d3. hif_uart_read (replicate (length q) 0) d'' = Some (int (length q), q, d3))"
proof -
  from run_uart_refines [OF assms(4) open_queue [OF assms(1-3)] assms(5)] obtain d'' where
    r: "run_uart (uart_step eng) d' opers = Some (outs, d'')" "uart_rx_queue d'' s q" by blast
  from read_queue [OF r(2), of "length q" "replicate (length q) 0"] line_keeps [OF assms(5)] r(1)
  show ?thesis by auto
qed

lemma uart_delivers_stream_witness:
  "\<exists>d''. run_uart (uart_step demo_engine) demo_uart_open
     [Arrive (replicate 200 1), SlotIsr, ReadInto (replicate 150 0), Arrive (replicate 100 2), ReadInto (replicate 100 0)] =
     Some (replicate 200 1 @ replicate 50 2, d'')"
proof -
  have "run_uart (line_step 256) []
      [Arrive (replicate 200 1), SlotIsr, ReadInto (replicate 150 0), Arrive (replicate 100 2), ReadInto (replicate 100 0)] =
      Some (replicate 200 1 @ replicate 50 2, replicate 50 2)"
    by (simp add: line_step_def flip: replicate_add)
  from uart_delivers_stream [OF demo_uart_opens demo_uart_mode demo_uart_open_env demo_engine_ok this]
  show ?thesis by blast
qed

text \<open>A ring that fills up completely between two looks of the driver goes unseen: if exactly as many
  bytes as the ring holds arrive after the open, the hardware's address is back where the driver left it,
  \<open>_hif_uart_rx_dma_done_size\<close> gives 0, and a read returns nothing.\<close>
theorem uart_full_ring_unseen:
  assumes "hif_uart_open (Some nfo) env d = Some (0, d')" and "uart_dma_mode (i_uart nfo)"
    and "uart_open_env nfo env d s" and "dma_engine_ok eng" and "length bs = s"
  shows "\<exists>d1 d2. uart_arrive eng bs d' = Some d1 \<and> hif_uart_read buf d1 = Some (0, buf, d2)"
proof -
  obtain f ud where f: "uart_rx_state d' f ud 0" "fifo_cap f = s" "cnt f = 0" using open_state [OF assms(1-3)] by blast
  have "0 < s" using assms(3) by (simp add: uart_open_env_def)
  then obtain bs' b where bs: "bs = bs' @ [b]" using assms(5) by (cases bs rule: rev_cases) auto
  have "0 + length bs' < fifo_cap f" "unat (cnt f) + 0 + length bs' \<le> fifo_cap f" using f(2,3) assms(5) bs by simp_all
  from arrive_state [OF assms(4) f(1) this] obtain d0 f0 where
    d0: "uart_arrive eng bs' d' = Some d0" "uart_rx_state d0 f0 ud (length bs')" "cnt f0 = 0" "fifo_cap f0 = s"
    using f(2,3) by auto
  have "Suc (length bs') = fifo_cap f0" using d0(4) assms(5) bs by simp
  from store_wraps [OF assms(4) d0(2) this, of b] obtain d1 f1 where
    d1: "uart_dma_store eng b d0 = Some d1" "uart_rx_state d1 f1 ud 0" "cnt f1 = 0" using d0(3) by auto
  have a: "uart_arrive eng bs d' = Some d1"
    using uart_arrive_append [of eng bs' "[b]" d'] d0(1) d1(1) bs by simp
  have "uart_rx_queue d1 (fifo_cap f1) []"
    unfolding uart_rx_queue_def using d1(2,3)
    by (intro exI [of _ f1] exI [of _ ud] exI [of _ 0]) (simp add: fifo_ahead_def fifo_list_def)
  from read_queue [OF this refl, of buf] a show ?thesis by auto
qed

lemma uart_full_ring_unseen_witness:
  "\<exists>d1 d2. uart_arrive demo_engine (replicate 256 7) demo_uart_open = Some d1 \<and>
     hif_uart_read (replicate 100 0) d1 = Some (0, replicate 100 0, d2)"
  by (rule uart_full_ring_unseen [OF demo_uart_opens demo_uart_mode demo_uart_open_env demo_engine_ok]) simp

text \<open>Changing from DMA to interrupt reception frees the descriptors and keeps the pointer to them,
  so closing the driver afterwards uses and frees the block a second time.\<close>
theorem uart_close_frees_twice:
  assumes "hif_uart_change drains mem1 mem2 (Some u) d = Some (0, d')" and "g_rx_dma d \<noteq> None"
    and "uart_dma_mode (g_hif_uart d)" and "\<not> uart_dma_mode u"
  shows "hif_uart_close drains' d' = None"
proof -
  obtain d1 h where c: "hif_uart_channel_valid (channel u)" "hif_uart_dma_unregister drains d = Some d1"
      "d' = uart_emit (UartSetType (if hfc (uart_applied u) = UART_HFC_ENABLE then HIF_TYPE_UART_HFC else HIF_TYPE_UART))
         ((hif_uart_disable d1)\<lparr>hw := h, g_hif_uart := uart_applied u\<rparr>)"
    by (rule change_to_irq [OF assms(1,3,4)])
  from unregister_dangles [OF c(2) assms(2)] assms(2) c(1) show ?thesis
    by (intro close_dangling) (simp_all add: c(3) uart_emit_def)
qed

lemma demo_uart_open_dma: "rx_dma_live demo_uart_open" "g_rx_dma demo_uart_open \<noteq> None"
  "uart_dma_mode (g_hif_uart demo_uart_open)" "channel (g_hif_uart demo_uart_open) = HIF_UART_CHANNEL"
  using open_state [OF demo_uart_opens demo_uart_mode demo_uart_open_env]
    demo_uart_mode
  by (auto simp: uart_rx_state_def live_rx_dma_Some)

lemma uart_close_frees_twice_witness:
  "\<exists>d'. hif_uart_change (\<lambda>ch. True) None None (Some (demo_uart_cfg UART_HFC_ENABLE True)) demo_uart_open = Some (0, d') \<and>
     hif_uart_close (\<lambda>ch. True) d' = None"
proof -
  have m: "\<not> uart_dma_mode (demo_uart_cfg UART_HFC_ENABLE True)" by (simp add: uart_dma_mode_def demo_uart_cfg_def)
  then obtain d' where "hif_uart_change (\<lambda>ch. True) None None (Some (demo_uart_cfg UART_HFC_ENABLE True))
      demo_uart_open = Some (0, d')"
    using change_to_irq_ok [of "demo_uart_cfg UART_HFC_ENABLE True" demo_uart_open None None]
      demo_uart_open_dma
    by (auto simp: demo_uart_cfg_def hif_uart_channel_valid_def HIF_UART_CHANNEL_def hif_uart_baudrate_valid_def)
  with uart_close_frees_twice [OF this demo_uart_open_dma(2,3) m] show ?thesis by blast
qed

end
