(* ===== verification/UartHif.thy ===== *)
theory UartHif
  imports Hif UartProps
begin

text \<open>
  The UART driver below the host interface layer.  The UART build has one of the two types in its
  driver tables.  A state \<open>None\<close> of the driver is the system after a fault.
\<close>

subsection \<open>The driver table of the UART build\<close>

definition uart_driver :: "uart_env \<Rightarrow> uart_dev option hif_driver" where
  "uart_driver env = \<lparr>
     d_open = (\<lambda>nfo s. case s of None \<Rightarrow> (-1, None) | Some d \<Rightarrow>
       (case hif_uart_open (Some nfo) env d of None \<Rightarrow> (-1, None) | Some (r, d') \<Rightarrow> (r, Some d'))),
     d_close = (\<lambda>s. Option.bind s (hif_uart_close (ue_drains env))),
     d_read = (\<lambda>buf s. case s of None \<Rightarrow> None | Some d \<Rightarrow>
       map_option (\<lambda>(r, buf', d'). (r, buf', Some d')) (hif_uart_read buf d)),
     d_write = (\<lambda>buf s. case s of None \<Rightarrow> None | Some d \<Rightarrow>
       map_option (\<lambda>(r, d'). (r, Some d')) (hif_uart_write buf d))\<rparr>"

definition uart_build_type :: "bool \<Rightarrow> hif_type" where
  "uart_build_type hfc_build = (if hfc_build then HIF_TYPE_UART_HFC else HIF_TYPE_UART)"

definition uart_table :: "bool \<Rightarrow> uart_env \<Rightarrow> uart_dev option driver_table" where
  "uart_table hfc_build env t = (if t = uart_build_type hfc_build then Some (uart_driver env) else None)"

lemma uart_rw_driver:
  "t = HIF_TYPE_UART \<or> t = HIF_TYPE_UART_HFC \<Longrightarrow> rw_driver (uart_table b env) t = Some (uart_driver env)"
  by (cases b) (auto simp: rw_driver_def uart_table_def uart_build_type_def)

lemma uart_rw_other:
  "t = HIF_TYPE_NONE \<or> t = HIF_TYPE_HSPI \<Longrightarrow> rw_driver (uart_table b env) t = None"
  by (cases b) (auto simp: rw_driver_def uart_table_def uart_build_type_def)

subsection \<open>The driver as a reader of packets\<close>

definition uart_irq_fifo :: "uart_dev \<Rightarrow> u8 hif_fifo \<Rightarrow> bool" where
  "uart_irq_fifo d f \<longleftrightarrow> g_rx_fifo d = Some f \<and> fifo_wf f \<and> channel (g_hif_uart d) = HIF_UART_CHANNEL \<and>
     hfc (g_hif_uart d) = UART_HFC_ENABLE \<and> hfc_rx_irq (g_hif_uart d)"

definition uart_readable :: "uart_dev \<Rightarrow> bool" where
  "uart_readable d \<longleftrightarrow> (\<exists>cap q. uart_rx_queue d cap q) \<or> (\<exists>f. uart_irq_fifo d f)"

lemma irq_read:
  assumes "uart_irq_fifo d f" and n: "n = min (length buf) (length (fifo_list f))"
  shows "\<exists>d' f'. hif_uart_read buf d = Some (int n, take n (fifo_list f) @ drop n buf, d') \<and> uart_irq_fifo d' f' \<and>
    fifo_list f' = drop n (fifo_list f) \<and> fifo_cap f' = fifo_cap f \<and> hs_rx (hw d') = hs_rx (hw d)"
proof -
  have wf: "fifo_wf f" and s: "g_rx_fifo d = Some f" "\<not> channel (g_hif_uart d) < 0"
      "hfc (g_hif_uart d) = UART_HFC_ENABLE \<and> hfc_rx_irq (g_hif_uart d)"
    using assms(1) by (simp_all add: uart_irq_fifo_def HIF_UART_CHANNEL_def)
  obtain f' where f': "hif_fifo_read f True (int (length buf)) = Some (int n, take n (fifo_list f), f')"
      "fifo_wf f'" "fifo_cap f' = fifo_cap f" "fifo_list f' = drop n (fifo_list f)"
    using fifo_read_law [OF wf, of "int (length buf)" n True] n by auto
  have m: "memcpy_at buf 0 (take n (fifo_list f)) = take n (fifo_list f) @ drop n buf"
    using n by (simp add: memcpy_at_def)
  let ?d = "uart_imsc_rx True ((uart_imsc_rx False d)\<lparr>g_rx_fifo := Some f'\<rparr>)"
  let ?d' = "?d\<lparr>cmd_rx := cmd_rx ?d + of_int (int n)\<rparr>"
  have "hif_uart_read buf d = Some (int n, take n (fifo_list f) @ drop n buf, ?d')"
    unfolding hif_uart_read_def Let_def if_not_P [OF s(2)] s(1) option.case if_P [OF s(3)]
    using f'(1) m s(1) by (simp add: uart_imsc_rx_def)
  moreover have "uart_irq_fifo ?d' f'" "hs_rx (hw ?d') = hs_rx (hw d)"
    using assms(1) f'(2) by (simp_all add: uart_irq_fifo_def uart_imsc_rx_def)
  ultimately show ?thesis using f'(3,4) by blast
qed

lemma uart_read_returns:
  assumes "uart_readable d"
  shows "\<exists>r buf' d'. hif_uart_read buf d = Some (r, buf', d') \<and> 0 \<le> r \<and> r \<le> int (length buf) \<and>
    length buf' = length buf \<and> uart_readable d'"
proof (cases "\<exists>cap q. uart_rx_queue d cap q")
  case True
  then obtain cap q where "uart_rx_queue d cap q" by blast
  from read_queue [OF this refl, of buf] obtain d' where
    "hif_uart_read buf d = Some (int (min (length buf) (length q)),
       take (min (length buf) (length q)) q @ drop (min (length buf) (length q)) buf, d')" "uart_readable d'"
    unfolding uart_readable_def by blast
  then show ?thesis by simp
next
  case False
  then obtain f where "uart_irq_fifo d f" using assms by (auto simp: uart_readable_def)
  from irq_read [OF this refl, of buf] obtain d' where
    "hif_uart_read buf d = Some (int (min (length buf) (length (fifo_list f))),
       take (min (length buf) (length (fifo_list f))) (fifo_list f) @
       drop (min (length buf) (length (fifo_list f))) buf, d')" "uart_readable d'"
    unfolding uart_readable_def by blast
  then show ?thesis by simp
qed

definition uart_usable :: "uart_dev option hif \<Rightarrow> bool" where
  "uart_usable st \<longleftrightarrow> (g_hif_type st = HIF_TYPE_UART \<or> g_hif_type st = HIF_TYPE_UART_HFC \<longrightarrow>
     (\<exists>d. driver_state st = Some d \<and> uart_readable d))"

lemma uart_hif_read:
  assumes "g_hif_type st = HIF_TYPE_UART \<or> g_hif_type st = HIF_TYPE_UART_HFC" and "driver_state st = Some d"
  shows "hif_read (uart_table b env) buf st =
    map_option (\<lambda>(r, buf', d'). (r, buf', st\<lparr>driver_state := Some d'\<rparr>)) (hif_uart_read buf d)"
  using uart_rw_driver [OF assms(1), of b env] assms(2)
  by (simp add: hif_read_def hif_get_type_def uart_driver_def option.map_comp o_def case_prod_unfold)

lemma uart_hif_read_returns:
  assumes "uart_usable st"
  shows "\<exists>r buf' st'. hif_read (uart_table b env) buf st = Some (r, buf', st') \<and> 0 \<le> r \<and>
    r \<le> int (length buf) \<and> length buf' = length buf \<and> uart_usable st'"
proof (cases "g_hif_type st = HIF_TYPE_UART \<or> g_hif_type st = HIF_TYPE_UART_HFC")
  case True
  then obtain d where d: "driver_state st = Some d" "uart_readable d" using assms by (auto simp: uart_usable_def)
  from uart_read_returns [OF d(2), of buf] obtain r buf' d' where
    "hif_uart_read buf d = Some (r, buf', d')" "0 \<le> r" "r \<le> int (length buf)" "length buf' = length buf" "uart_readable d'"
    by blast
  then show ?thesis unfolding uart_hif_read [OF True d(1)] by (simp add: uart_usable_def)
next
  case False
  then have "rw_driver (uart_table b env) (g_hif_type st) = None" by (intro uart_rw_other) (cases "g_hif_type st"; simp)
  then show ?thesis using assms by (simp add: hif_read_def hif_get_type_def)
qed

interpretation uart_rd: packet_reader "hif_read (uart_table b env)" uart_usable for b env
  by unfold_locales (rule uart_hif_read_returns)

subsection \<open>Bursts through the receive task\<close>

text \<open>Before round \<open>k\<close> of the receive task the hardware stores the burst \<open>arr k\<close>.\<close>

definition uart_burst :: "dma_engine \<Rightarrow> (nat \<Rightarrow> u8 list) \<Rightarrow> nat \<Rightarrow> uart_dev option hif \<Rightarrow> uart_dev option hif" where
  "uart_burst eng arr k st = st\<lparr>driver_state := Option.bind (driver_state st) (uart_arrive eng (arr k))\<rparr>"

lemma burst_read:
  assumes "dma_engine_ok eng" and "uart_rx_queue d cap []" and "length bs < cap" and "length bs \<le> length buf"
  shows "\<exists>d1 d2. uart_arrive eng bs d = Some d1 \<and>
    hif_uart_read buf d1 = Some (int (length bs), bs @ drop (length bs) buf, d2) \<and> uart_rx_queue d2 cap []"
proof -
  obtain d1 where d1: "uart_arrive eng bs d = Some d1" "uart_rx_queue d1 cap bs"
    using arrive_queue [OF assms(1,2), of bs] assms(3) by auto
  have "length bs = min (length buf) (length bs)" using assms(4) by simp
  from read_queue [OF d1(2) this] d1(1) show ?thesis by simp
qed

lemma task_bursts:
  assumes eng: "dma_engine_ok eng" and b: "\<And>k. length (arr k) < cap \<and> length (arr k) \<le> len"
    and t: "g_hif_type st = HIF_TYPE_UART \<or> g_hif_type st = HIF_TYPE_UART_HFC"
  shows "driver_state st = Some d \<Longrightarrow> uart_rx_queue d cap [] \<Longrightarrow> length buf = len \<Longrightarrow>
    \<exists>st'. hif_rx_task (hif_read (uart_table hb env)) (\<lambda>s. snd (hif_rx_suspend 100 0 s)) (uart_burst eng arr) True
      k n buf st = Some (filter (\<lambda>c. c \<noteq> []) (map arr [k..<k + n]), st')"
  using t
proof (induction n arbitrary: k buf st d)
  case (Suc n)
  obtain d1 d2 where r: "uart_arrive eng (arr k) d = Some d1" "uart_rx_queue d2 cap []"
      "hif_uart_read buf d1 = Some (int (length (arr k)), arr k @ drop (length (arr k)) buf, d2)"
    using burst_read [OF eng Suc.prems(2), of "arr k" buf] b [of k] Suc.prems(3) by blast
  let ?st = "st\<lparr>driver_state := Some d2\<rparr>"
  let ?buf = "arr k @ drop (length (arr k)) buf"
  have rd: "hif_read (uart_table hb env) buf (uart_burst eng arr k st) = Some (int (length (arr k)), ?buf, ?st)"
    using uart_hif_read [of "uart_burst eng arr k st" d1 hb env buf] Suc.prems(1,4) r(1,3) by (simp add: uart_burst_def)
  have l: "length ?buf = len" using Suc.prems(3) b [of k] by simp
  have u: "[k..<k + Suc n] = k # [Suc k..<Suc k + n]" by (simp add: upt_rec)
  show ?case
  proof (cases "arr k = []")
    case False
    from Suc.IH [of ?st d2 ?buf "Suc k"] r(2) l Suc.prems(4) False show ?thesis unfolding u by (auto simp: rd)
  next
    case True
    let ?sus = "snd (hif_rx_suspend 100 0 ?st)"
    have "driver_state ?sus = Some d2" "g_hif_type ?sus = g_hif_type st" by (simp_all add: hif_rx_suspend_def)
    from Suc.IH [of ?sus d2 ?buf "Suc k"] this r(2) l Suc.prems(4) True show ?thesis unfolding u by (auto simp: rd)
  qed
qed auto

text \<open>Opening the interface over the UART driver.\<close>

lemma hif_open_uart:
  assumes "hif_open (uart_table hb env) ok (Some nfo) (hif_init (Some d)) = Some (0, st)"
  obtains d' where "hif_uart_open (Some (nfo\<lparr>rx_fifo_addr := None, rx_fifo_size := 65536,
      tx_fifo_addr := None, tx_fifo_size := 0\<rparr>)) env d = Some (0, d')"
    and "driver_state st = Some d'" and "g_hif_type st = uart_build_type hb"
proof -
  let ?nfo = "nfo\<lparr>rx_fifo_addr := None, rx_fifo_size := 65536, tx_fifo_addr := None, tx_fifo_size := 0\<rparr>"
  have h: "uart_table hb env HIF_TYPE_HSPI = None" by (simp add: uart_table_def uart_build_type_def)
  have t: "i_type nfo = uart_build_type hb" "uart_table hb env (i_type nfo) = Some (uart_driver env)"
    using assms by (auto simp: hif_open_def uart_table_def split: if_splits)
  obtain r x where o: "d_open (uart_driver env) ?nfo (Some d) = (r, x)" by (rule prod.exhaust)
  have "r = 0 \<and> driver_state st = x \<and> g_hif_type st = uart_build_type hb"
    using assms t o h
    by (auto simp: hif_open_def hif_init_def hif_get_type_def CONFIG_HIF_RX_FIFO_SIZE_def CONFIG_HIF_TX_FIFO_SIZE_def
        Let_def hif_rx_task_create_def hif_set_type_def hif_close_def split: if_splits)
  with o that show thesis by (auto simp: uart_driver_def split: option.splits)
qed

end
