(* ===== verification/UartHifProps.thy ===== *)
theory UartHifProps
  imports UartHif FifoSpec
begin

text \<open>
  Properties of the UART driver together with the layers above it, and of its interrupt mode, where
  the receive interrupt moves the bytes from the hardware's queue into the FIFO.
\<close>

subsection \<open>The receive interrupt\<close>

lemma isr_loop:
  assumes "fifo_wf f" and "length (fifo_list f) + n \<le> fifo_cap f" and "uart_rx_isr_loop n rx f = (i, rx', f')"
  shows "i = min n (length rx) \<and> rx' = drop i rx \<and> fifo_wf f' \<and> fifo_cap f' = fifo_cap f \<and>
    fifo_list f' = fifo_list f @ take i rx"
  using assms
proof (induction n rx f arbitrary: i rx' f' rule: uart_rx_isr_loop.induct)
  case (3 n b rx f)
  have l: "length (fifo_list f) < fifo_cap f" using "3.prems"(2) by simp
  then have m: "1 = min (nat 1) (fifo_cap f - length (fifo_list f))" by simp
  from fifo_write_law [OF "3.prems"(1) _ _ m, of "[b]"] putc_as_write [OF "3.prems"(1) l, of b]
  have p: "fifo_wf (hif_fifo_putc f b)" "fifo_cap (hif_fifo_putc f b) = fifo_cap f"
      "fifo_list (hif_fifo_putc f b) = fifo_list f @ [b]" by auto
  obtain j rx1 f1 where r: "uart_rx_isr_loop n rx (hif_fifo_putc f b) = (j, rx1, f1)" by (metis surj_pair)
  have "length (fifo_list (hif_fifo_putc f b)) + n \<le> fifo_cap (hif_fifo_putc f b)"
    using "3.prems"(2) by (simp add: p del: length_fifo_list)
  from "3.IH" [OF p(1) this r] "3.prems"(3) r show ?case by (auto simp: p simp del: length_fifo_list)
qed auto

lemma irq_isr:
  assumes "uart_irq_fifo d f"
  shows "\<exists>d' f'. hif_uart_isr True d = Some d' \<and> uart_irq_fifo d' f' \<and> fifo_cap f' = fifo_cap f \<and>
    fifo_list f' @ hs_rx (hw d') = fifo_list f @ hs_rx (hw d) \<and>
    (hs_rx (hw d') = [] \<or> length (fifo_list f') = fifo_cap f)"
proof -
  have wf: "fifo_wf f" "g_rx_fifo d = Some f" "0 < channel (g_hif_uart d)"
    using assms by (simp_all add: uart_irq_fifo_def HIF_UART_CHANNEL_def)
  have c: "cnt f \<le> fsize f" "fifo_cap f < 2 ^ 31" using wf(1) by (auto simp: fifo_wf_def fifo_geom_def fifo_cap_def)
  then have fr: "hif_fifo_free_size f = Some (fsize f - cnt f)" by (simp add: hif_fifo_free_size_def)
  have u: "unat (fsize f - cnt f) = fifo_cap f - length (fifo_list f)"
    using c(1) by (simp add: fifo_cap_def unat_sub_if' word_le_nat_alt)
  then have "nat (sint (fsize f - cnt f)) = fifo_cap f - length (fifo_list f)"
    using sint_small_u32 [of "fsize f - cnt f"] c(2) by simp
  moreover obtain i rx' f' where r: "uart_rx_isr_loop (fifo_cap f - length (fifo_list f)) (hs_rx (hw d)) f = (i, rx', f')"
    by (metis surj_pair)
  moreover have le: "length (fifo_list f) \<le> fifo_cap f" using fifo_list_le_cap [OF wf(1)] .
  ultimately show ?thesis using isr_loop [OF wf(1) _ r] assms wf fr
    by (auto simp: hif_uart_isr_def hif_uart_rx_isr_def uart_emit_def uart_irq_fifo_def min_def
        simp del: length_fifo_list)
qed

definition uart_irq_step :: "uart_dev \<Rightarrow> uart_op \<Rightarrow> (u8 list \<times> uart_dev) option" where
  "uart_irq_step d oper = (case oper of
      Arrive bs \<Rightarrow> Some ([], d\<lparr>hw := (hw d)\<lparr>hs_rx := hs_rx (hw d) @ bs\<rparr>\<rparr>)
    | SlotIsr \<Rightarrow> map_option (Pair []) (hif_uart_isr True d)
    | ReadInto buf \<Rightarrow> map_option (\<lambda>(n, buf', d'). (take (nat n) buf', d')) (hif_uart_read buf d))"

lemma irq_step:
  assumes "uart_irq_fifo d f"
  shows "\<exists>out d' f'. uart_irq_step d oper = Some (out, d') \<and> uart_irq_fifo d' f' \<and>
    out @ fifo_list f' @ hs_rx (hw d') = fifo_list f @ hs_rx (hw d) @ arrived [oper]"
proof (cases oper)
  case (Arrive bs)
  then show ?thesis using assms by (auto simp: uart_irq_step_def uart_irq_fifo_def)
next
  case SlotIsr
  then show ?thesis using irq_isr [OF assms] by (auto simp: uart_irq_step_def)
next
  case (ReadInto buf)
  let ?n = "min (length buf) (length (fifo_list f))"
  from irq_read [OF assms refl, of buf] obtain d' f' where
    "hif_uart_read buf d = Some (int ?n, take ?n (fifo_list f) @ drop ?n buf, d')" "uart_irq_fifo d' f'"
    "fifo_list f' = drop ?n (fifo_list f)" "hs_rx (hw d') = hs_rx (hw d)" by blast
  then show ?thesis using ReadInto by (auto simp: uart_irq_step_def simp del: length_fifo_list)
qed

subsection \<open>Properties\<close>

text \<open>C26: In interrupt mode no byte is lost whatever the order of events: any sequence of arriving
  bytes, receive interrupts and reads runs through, and what the reads handed out, what the FIFO holds
  and what is left in the hardware's queue is, in order, what was there and what arrived.\<close>
theorem uart_irq_mode_lossless:
  assumes "uart_irq_fifo d f"
  shows "\<exists>outs d' f'. run_uart uart_irq_step d opers = Some (outs, d') \<and> uart_irq_fifo d' f' \<and>
    outs @ fifo_list f' @ hs_rx (hw d') = fifo_list f @ hs_rx (hw d) @ arrived opers"
  using assms
proof (induction opers arbitrary: d f)
  case (Cons x xs)
  from irq_step [OF Cons.prems, of x] obtain out d1 f1 where
    s: "uart_irq_step d x = Some (out, d1)" "uart_irq_fifo d1 f1"
       "out @ fifo_list f1 @ hs_rx (hw d1) = fifo_list f @ hs_rx (hw d) @ arrived [x]" by blast
  from Cons.IH [OF s(2)] obtain outs d' f' where
    t: "run_uart uart_irq_step d1 xs = Some (outs, d')" "uart_irq_fifo d' f'"
       "outs @ fifo_list f' @ hs_rx (hw d') = fifo_list f1 @ hs_rx (hw d1) @ arrived xs" by blast
  have "arrived (x # xs) = arrived [x] @ arrived xs" by (cases x) auto
  then have "(out @ outs) @ fifo_list f' @ hs_rx (hw d') = fifo_list f @ hs_rx (hw d) @ arrived (x # xs)"
    using s(3) t(3) by simp
  with s(1) t(1,2) show ?case by auto
qed auto

definition demo_irq_dev :: uart_dev where
  "demo_irq_dev = demo_uart_dev\<lparr>g_hif_uart := demo_uart_cfg UART_HFC_ENABLE True,
     g_rx_fifo := Some \<lparr>fsize = 4, cnt = 0, push_idx = 0xFFFFFFFE, pop_idx = 0xFFFFFFFE, static_buffer = True,
       buffer = [0, 0, 0, 0], buffer_end = 4\<rparr>\<rparr>"

lemma uart_irq_mode_lossless_witness:
  "\<exists>outs d' f'. run_uart uart_irq_step demo_irq_dev
      [Arrive [1, 2, 3, 4, 5, 6], SlotIsr, ReadInto [0, 0, 0], SlotIsr, ReadInto [0]] = Some (outs, d') \<and>
    uart_irq_fifo d' f' \<and> outs @ fifo_list f' @ hs_rx (hw d') = [1, 2, 3, 4, 5, 6]"
proof -
  let ?f = "the (g_rx_fifo demo_irq_dev)"
  have "uart_irq_fifo demo_irq_dev ?f" "fifo_list ?f @ hs_rx (hw demo_irq_dev) = []"
    by (simp_all add: demo_irq_dev_def uart_irq_fifo_def demo_uart_cfg_def fifo_wf_def fifo_geom_def fifo_list_def
        HIF_UART_CHANNEL_def demo_uart_dev_def demo_uart_hw_def)
  from uart_irq_mode_lossless [OF this(1),
      of "[Arrive [1, 2, 3, 4, 5, 6], SlotIsr, ReadInto [0, 0, 0], SlotIsr, ReadInto [0]]"] this(2)
  show ?thesis by simp
qed

text \<open>C12: From the opening of the interface to the callback: over a UART in DMA mode, whenever each burst
  that arrives between two rounds of the receive task fits the task's buffer and the ring, the task hands
  the callback exactly the non-empty bursts, one call each, in order, for any number of rounds and any
  controller that follows the descriptors.\<close>
theorem uart_task_delivers_bursts:
  assumes "hif_open (uart_table hb env) ok (Some nfo) (hif_init (Some d)) = Some (0, st)"
    and "uart_dma_mode (i_uart nfo)" and "dma_engine_ok eng"
    and "uart_open_env (nfo\<lparr>rx_fifo_addr := None, rx_fifo_size := 65536, tx_fifo_addr := None,
      tx_fifo_size := 0\<rparr>) env d 65536"
    and "\<And>k. length (arr k) < 65536 \<and> length (arr k) \<le> length buf"
  shows "\<exists>st'. hif_rx_task (hif_read (uart_table hb env)) (\<lambda>s. snd (hif_rx_suspend 100 0 s))
    (uart_burst eng arr) True 0 n buf st = Some (filter (\<lambda>c. c \<noteq> []) (map arr [0..<n]), st')"
proof -
  from hif_open_uart [OF assms(1)] obtain d' where o: "hif_uart_open (Some (nfo\<lparr>rx_fifo_addr := None,
      rx_fifo_size := 65536, tx_fifo_addr := None, tx_fifo_size := 0\<rparr>)) env d = Some (0, d')"
      "driver_state st = Some d'" "g_hif_type st = uart_build_type hb" by blast
  have "uart_rx_queue d' 65536 []" using open_queue [OF o(1) _ assms(4)] assms(2) by simp
  from task_bursts [OF assms(3,5) _ o(2) this refl, where k = 0 and n = n and hb = hb and env = env] o(3) show ?thesis
    by (auto simp: uart_build_type_def)
qed

definition demo_big_env :: uart_env where
  "demo_big_env = demo_uart_env\<lparr>ue_rx := \<lparr>a_fifo = True, a_buf = Some (replicate 65536 0), a_addr = 0x20000000\<rparr>,
     ue_dma := Some 0x20100000\<rparr>"

lemma demo_big_open:
  "\<exists>st. hif_open (uart_table False demo_big_env) True (Some demo_uart_info) (hif_init (Some demo_uart_dev)) = Some (0, st)"
  "uart_open_env (demo_uart_info\<lparr>rx_fifo_addr := None, rx_fifo_size := 65536, tx_fifo_addr := None,
      tx_fifo_size := 0\<rparr>) demo_big_env demo_uart_dev 65536" (is "uart_open_env ?nfo _ _ _")
proof -
  show e: "uart_open_env ?nfo demo_big_env demo_uart_dev 65536"
    by (simp add: uart_open_env_def demo_uart_info_def demo_big_env_def demo_uart_env_def demo_uart_dev_def demo_dmac_def
        region_ok_def block_ok_def HIF_UART_SLOT_SIZE_def)
  have "\<exists>d'. hif_uart_open (Some ?nfo) demo_big_env demo_uart_dev = Some (0, d')"
    by (rule open_succeeds [OF _ _ _ _ e])
      (simp_all add: demo_uart_info_def demo_uart_cfg_def demo_big_env_def demo_uart_env_def demo_uart_dev_def
        demo_dmac_def hif_uart_channel_valid_def HIF_UART_CHANNEL_def hif_uart_baudrate_valid_def uart_dma_mode_def
        dma_channel_enabled_def dma_chan_at_def)
  then obtain d' where d': "hif_uart_open (Some ?nfo) demo_big_env demo_uart_dev = Some (0, d')" by blast
  have t: "i_type demo_uart_info = HIF_TYPE_UART" "rp_addr (i_rx_params demo_uart_info)"
      "rp_size (i_rx_params demo_uart_info) \<noteq> 0" "rp_cb (i_rx_params demo_uart_info)"
    by (simp_all add: demo_uart_info_def)
  show "\<exists>st. hif_open (uart_table False demo_big_env) True (Some demo_uart_info) (hif_init (Some demo_uart_dev)) = Some (0, st)"
    using t d' by (simp add: hif_open_def hif_valid_type_def hif_get_type_def hif_init_def uart_table_def uart_build_type_def
        CONFIG_HIF_RX_FIFO_SIZE_def CONFIG_HIF_TX_FIFO_SIZE_def Let_def uart_driver_def hif_rx_task_create_def)
qed

lemma uart_task_delivers_bursts_witness:
  "\<exists>st st'. hif_rx_task (hif_read (uart_table False demo_big_env)) (\<lambda>s. snd (hif_rx_suspend 100 0 s))
    (uart_burst demo_engine (\<lambda>k. if k = 1 then [] else [65, 84, of_nat k])) True 0 3 (replicate 512 0) st =
    Some ([[65, 84, 0], [65, 84, 2]], st')"
proof -
  obtain st where "hif_open (uart_table False demo_big_env) True (Some demo_uart_info) (hif_init (Some demo_uart_dev)) =
    Some (0, st)" using demo_big_open(1) by blast
  note o = this
  let ?arr = "\<lambda>k. if k = 1 then [] else [65, 84, of_nat k] :: u8 list"
  have "length (?arr k) < 65536 \<and> length (?arr k) \<le> length (replicate 512 (0 :: u8))" for k by simp
  from uart_task_delivers_bursts [OF o demo_uart_mode demo_engine_ok demo_big_open(2), where arr = ?arr and n = 3, OF this]
  obtain st' where "hif_rx_task (hif_read (uart_table False demo_big_env)) (\<lambda>s. snd (hif_rx_suspend 100 0 s))
    (uart_burst demo_engine ?arr) True 0 3 (replicate 512 0) st =
    Some (filter (\<lambda>c. c \<noteq> []) (map ?arr [0..<3]), st')" by blast
  note r = this
  have f: "filter (\<lambda>c. c \<noteq> []) (map (\<lambda>k. if k = 1 then [] else [65, 84, of_nat k]) [0..<3]) =
    [[65, 84, 0], [65, 84, 2 :: u8]]" by (simp add: upt_rec)
  show ?thesis using r unfolding f by (intro exI)
qed

text \<open>
  \<open>_hif_uart_change\<close> below the interface layer: on success it also calls \<open>_hif_set_type\<close>, the last
  event of the driver.
\<close>

definition uart_change_sys ::
  "uart_env \<Rightarrow> u32 option \<Rightarrow> hif_uart option \<Rightarrow> uart_dev option hif \<Rightarrow> (int \<times> uart_dev option hif) option" where
  "uart_change_sys env mem2 new st =
    (case driver_state st of None \<Rightarrow> None | Some d \<Rightarrow>
     (case hif_uart_change (ue_drains env) (ue_dma env) mem2 new d of None \<Rightarrow> None | Some (r, d') \<Rightarrow>
       Some (r, (if r = 0 then (case last (uart_events d') of
                    UartSetType t \<Rightarrow> hif_set_type t st | UartRxResume \<Rightarrow> st) else st)
                \<lparr>driver_state := Some d'\<rparr>)))"

lemma change_sets_type:
  assumes "hif_uart_change drains mem1 mem2 (Some u) d = Some (0, d')"
  shows "last (uart_events d') = UartSetType (if hfc (uart_applied u) = UART_HFC_ENABLE then HIF_TYPE_UART_HFC else HIF_TYPE_UART)"
proof -
  obtain d1 u' d2 where a: "uart_change_apply mem1 u d1 = Some (0, u', d2)"
      "d' = uart_emit (UartSetType (if hfc u' = UART_HFC_ENABLE then HIF_TYPE_UART_HFC else HIF_TYPE_UART)) d2"
    using assms by (auto simp: hif_uart_change_def Let_def split: if_splits option.splits prod.splits)
  obtain r x d3 where e: "hif_uart_enable u d1 = (r, x, d3)" by (metis surj_pair)
  have "u' = x" using a(1) e by (auto simp: uart_change_apply_def split: if_splits option.splits)
  then have "u' = uart_applied u" using enable_result(1) [OF e] by simp
  then show ?thesis by (simp add: a(2) uart_emit_def)
qed

text \<open>A change of the flow control can leave the interface without a driver: each UART build has one of
  the two types in the table of close functions, a successful \<open>_hif_uart_change\<close> selects the type from the
  new flow control, and if that is the other one the next \<open>_hif_close\<close> calls a NULL pointer.\<close>
theorem uart_change_breaks_close:
  assumes "uart_change_sys env mem2 (Some u) st = Some (0, st')"
    and "(hfc u = UART_HFC_ENABLE \<and> hfc_rx_irq u) \<noteq> hb"
  shows "hif_get_type st' \<noteq> uart_build_type hb \<and> hif_close (uart_table hb env) st' = None"
proof -
  obtain d d' where c: "hif_uart_change (ue_drains env) (ue_dma env) mem2 (Some u) d = Some (0, d')"
      "st' = (case last (uart_events d') of UartSetType t \<Rightarrow> hif_set_type t st | UartRxResume \<Rightarrow> st)\<lparr>driver_state := Some d'\<rparr>"
    using assms(1) by (auto simp: uart_change_sys_def split: option.splits if_splits)
  have t: "g_hif_type st' = (if hfc (uart_applied u) = UART_HFC_ENABLE then HIF_TYPE_UART_HFC else HIF_TYPE_UART)"
    by (simp add: c(2) change_sets_type [OF c(1)] hif_set_type_def)
  have "g_hif_type st' \<noteq> uart_build_type hb" "g_hif_type st' \<noteq> HIF_TYPE_NONE"
    using t assms(2) by (auto simp: uart_build_type_def split: if_splits)
  then show ?thesis
    by (simp add: hif_get_type_def hif_close_def hif_rx_task_delete_def uart_table_def split: option.split)
qed

lemma uart_change_breaks_close_witness:
  "\<exists>st st'. uart_change_sys demo_uart_env None (Some (demo_uart_cfg UART_HFC_ENABLE True)) st = Some (0, st') \<and>
     g_hif_type st = HIF_TYPE_UART \<and> hif_close (uart_table False demo_uart_env) st' = None"
proof -
  let ?u = "demo_uart_cfg UART_HFC_ENABLE True"
  let ?st = "(hif_init (Some demo_uart_open))\<lparr>g_hif_type := HIF_TYPE_UART\<rparr>"
  obtain d' where "hif_uart_change (\<lambda>ch. True) (ue_dma demo_uart_env) None (Some ?u) demo_uart_open = Some (0, d')"
    using change_to_irq_ok [of ?u demo_uart_open "ue_dma demo_uart_env" None] demo_uart_open_dma
    by (auto simp: demo_uart_cfg_def hif_uart_channel_valid_def HIF_UART_CHANNEL_def hif_uart_baudrate_valid_def uart_dma_mode_def)
  then have "\<exists>st'. uart_change_sys demo_uart_env None (Some ?u) ?st = Some (0, st')"
    by (simp add: uart_change_sys_def demo_uart_env_def hif_init_def)
  then obtain st' where s: "uart_change_sys demo_uart_env None (Some ?u) ?st = Some (0, st')" by blast
  have "(hfc ?u = UART_HFC_ENABLE \<and> hfc_rx_irq ?u) \<noteq> False" by (simp add: demo_uart_cfg_def)
  from uart_change_breaks_close [OF s this] s show ?thesis
    by (intro exI [of _ ?st] exI [of _ st']) simp
qed

end
