(* ===== verification/DmaProps.thy ===== *)
theory DmaProps
  imports HifDma
begin

text \<open>
  Properties of the DMA driver: the descriptors its setters build, the flow control code of a
  channel, and the choice of a channel.
\<close>

subsection \<open>Descriptors built by the setters\<close>












subsection \<open>Transfer types\<close>

text \<open>The names the code prints for the flow control codes 0 to 7.\<close>

datatype transfer_type = M2M | M2P | P2M | P2P | P2P_FC | M2P_FC | FC_P2M | FC_P2P

definition str_transfer_type :: "transfer_type list" where
  "str_transfer_type = [M2M, M2P, P2M, P2P, P2P_FC, M2P_FC, FC_P2M, FC_P2P]"

definition flow_controller :: "dma_peri option \<Rightarrow> bool" where
  "flow_controller p = (case p of Some q \<Rightarrow> peri_FlowCtrl q | None \<Rightarrow> False)"

definition transfer_of :: "dma_peri option \<Rightarrow> dma_peri option \<Rightarrow> transfer_type" where
  "transfer_of src dst =
    (if src = None then if dst = None then M2M else if flow_controller dst then M2P_FC else M2P
     else if dst = None then if flow_controller src then FC_P2M else P2M
     else if flow_controller src then FC_P2P else if flow_controller dst then P2P_FC else P2P)"

subsection \<open>Properties\<close>



text \<open>The flow control code that a successful configuration leaves in the channel's register is the one
  the transfer type's table is indexed with: which side is memory, which a peripheral, and which of
  them controls the flow.  At most one may.\<close>
theorem dma_config_transfer_type:
  assumes "hif_dma_config ch src dst tc err locked d = (0, d')" and "length (Channel d) = 8"
  shows "str_transfer_type ! unat (ch_FlowCntrl (dma_chan_at ch d')) = transfer_of src dst \<and>
    \<not> (flow_controller src \<and> flow_controller dst)"
  using assms
  by (cases src; cases dst)
    (auto simp: hif_dma_config_def dma_consts hif_dma_valid_channel_def dma_config_src_def dma_config_dest_def Let_def
      dma_put_chan_def dma_chan_at_def str_transfer_type_def transfer_of_def flow_controller_def split: if_splits)

end
