(* ===== verification/AtcmdParam.thy ===== *)
theory AtcmdParam
  imports Prelude
begin

text \<open>
  The parameter conversions of \<open>sdk/apps/atcmd/atcmd_param.c\<close>.  A C string is a list of
  characters without the terminating NUL; \<open>long\<close> has 32 bits on the target.  \<open>errno\<close> is kept as
  \<open>erange\<close>, whether it is \<open>ERANGE\<close>: the C library's \<open>strtol\<close> sets it on overflow and never
  clears it, and neither does the code.
\<close>

subsection \<open>The C library's \<open>strtol\<close> and \<open>%ld\<close>\<close>

definition LONG_MAX :: int where "LONG_MAX = 2 ^ 31 - 1"
definition LONG_MIN :: int where "LONG_MIN = - (2 ^ 31)"

definition digit_val :: "char \<Rightarrow> nat" where
  "digit_val c = of_char c - 48"

definition is_digit :: "char \<Rightarrow> bool" where
  "is_digit c \<longleftrightarrow> 48 \<le> (of_char c :: nat) \<and> (of_char c :: nat) \<le> 57"

definition is_space :: "char \<Rightarrow> bool" where
  "is_space c \<longleftrightarrow> of_char c = (32 :: nat) \<or> 9 \<le> (of_char c :: nat) \<and> (of_char c :: nat) \<le> 13"

definition dec_value :: "string \<Rightarrow> nat" where
  "dec_value ds = foldl (\<lambda>v c. 10 * v + digit_val c) 0 ds"

text \<open>
  \<open>strtol(s, &end, 10)\<close>: the value clamped to the range of \<open>long\<close>, the number of characters
  consumed and whether the value was out of range.
\<close>

definition c_strtol :: "string \<Rightarrow> int \<times> nat \<times> bool" where
  "c_strtol s =
    (let sp = takeWhile is_space s;
         r0 = dropWhile is_space s;
         neg = (case r0 of c # _ \<Rightarrow> c = CHR ''-'' | [] \<Rightarrow> False);
         r1 = (case r0 of c # cs \<Rightarrow> if c = CHR ''-'' \<or> c = CHR ''+'' then cs else r0 | [] \<Rightarrow> []);
         ds = takeWhile is_digit r1;
         v = (if neg then - int (dec_value ds) else int (dec_value ds))
     in if ds = [] then (0, 0, False)
        else (max LONG_MIN (min LONG_MAX v), length s - length (drop (length ds) r1),
              v < LONG_MIN \<or> v > LONG_MAX))"

fun dec_nat :: "nat \<Rightarrow> string" where
  "dec_nat n = (if n < 10 then [char_of (n + 48)] else dec_nat (n div 10) @ [char_of (n mod 10 + 48)])"

declare dec_nat.simps [simp del]

definition dec_int :: "int \<Rightarrow> string" where
  "dec_int v = (if v < 0 then CHR ''-'' # dec_nat (nat (- v)) else dec_nat (nat v))"

subsection \<open>Integers\<close>

text \<open>The results are the value, if accepted, and the new \<open>errno\<close>.\<close>

definition atcmd_param_to_int :: "bool \<Rightarrow> string option \<Rightarrow> int option \<times> bool" where
  "atcmd_param_to_int erange str = (case str of None \<Rightarrow> (None, erange) | Some s \<Rightarrow>
    (case c_strtol s of (ret, used, over) \<Rightarrow>
      (let e = (erange \<or> over)
       in if used \<noteq> length s then (None, e)
          else if e \<and> (ret = LONG_MIN \<or> ret = LONG_MAX) then (None, e)
          else if s \<noteq> dec_int ret then (None, e)
          else (Some ret, e))))"

definition in_range :: "int \<Rightarrow> int \<Rightarrow> int option \<times> bool \<Rightarrow> int option \<times> bool" where
  "in_range lo hi r = (case r of
      (Some v, e) \<Rightarrow> (if v < lo \<or> v > hi then None else Some v, e)
    | (None, e) \<Rightarrow> (None, e))"

definition atcmd_param_to_int8 :: "bool \<Rightarrow> string option \<Rightarrow> int option \<times> bool" where
  "atcmd_param_to_int8 erange str = in_range (-128) 127 (atcmd_param_to_int erange str)"

definition atcmd_param_to_int16 :: "bool \<Rightarrow> string option \<Rightarrow> int option \<times> bool" where
  "atcmd_param_to_int16 erange str = in_range (-32768) 32767 (atcmd_param_to_int erange str)"

definition atcmd_param_to_int32 :: "bool \<Rightarrow> string option \<Rightarrow> int option \<times> bool" where
  "atcmd_param_to_int32 erange str = atcmd_param_to_int erange str"

text \<open>
  The unsigned conversion also calls \<open>strtol\<close>; its result is stored to an \<open>unsigned long\<close>.
\<close>

definition atcmd_param_to_uint :: "bool \<Rightarrow> string option \<Rightarrow> int option \<times> bool" where
  "atcmd_param_to_uint erange str = (case str of None \<Rightarrow> (None, erange) | Some s \<Rightarrow>
    (if s \<noteq> [] \<and> hd s = CHR ''-'' then (None, erange)
     else (case c_strtol s of (l, used, over) \<Rightarrow>
      (let e = (erange \<or> over); ret = l mod 2 ^ 32
       in if used \<noteq> length s then (None, e)
          else if e \<and> ret = 2 ^ 32 - 1 then (None, e)
          else if s \<noteq> dec_nat (nat ret) then (None, e)
          else (Some ret, e)))))"

definition atcmd_param_to_uint8 :: "bool \<Rightarrow> string option \<Rightarrow> int option \<times> bool" where
  "atcmd_param_to_uint8 erange str = in_range 0 255 (atcmd_param_to_uint erange str)"

definition atcmd_param_to_uint16 :: "bool \<Rightarrow> string option \<Rightarrow> int option \<times> bool" where
  "atcmd_param_to_uint16 erange str = in_range 0 65535 (atcmd_param_to_uint erange str)"

definition atcmd_param_to_uint32 :: "bool \<Rightarrow> string option \<Rightarrow> int option \<times> bool" where
  "atcmd_param_to_uint32 erange str = atcmd_param_to_uint erange str"

subsection \<open>Hexadecimal numbers and quoted strings\<close>

definition hex_digit :: "char \<Rightarrow> u32 option" where
  "hex_digit c =
    (let n = of_char c :: nat
     in if 48 \<le> n \<and> n \<le> 57 then Some (of_nat (n - 48))
        else if 97 \<le> n \<and> n \<le> 102 then Some (of_nat (n - 97 + 10))
        else if 65 \<le> n \<and> n \<le> 70 then Some (of_nat (n - 65 + 10))
        else None)"

text \<open>The result is the status and what \<open>*val\<close> holds afterwards, \<open>None\<close> if it is not written.\<close>

fun hex_loop :: "string \<Rightarrow> u32 \<Rightarrow> int \<times> u32" where
  "hex_loop [] v = (0, v)"
| "hex_loop (c # cs) v = (case hex_digit c of
      None \<Rightarrow> (-1, v)
    | Some d \<Rightarrow> hex_loop cs (push_bit 4 v + d))"

definition atcmd_param_to_hex :: "string \<Rightarrow> int \<times> u32 option" where
  "atcmd_param_to_hex s =
    (if length s < 2 \<or> length s > 10 \<or> take 2 s \<noteq> ''0x'' then (-1, None)
     else (case hex_loop (drop 2 s) 0 of (r, v) \<Rightarrow> (r, Some v)))"

text \<open>\<open>len\<close> is the size of the destination; the result is the string stored, if any.\<close>

definition atcmd_param_to_str :: "string option \<Rightarrow> int \<Rightarrow> string option" where
  "atcmd_param_to_str param len = (case param of None \<Rightarrow> None | Some p \<Rightarrow>
    (if len = 0 then None
     else if int (length p) < 2 \<or> int (length p) - 2 > len - 1 then None
     else if p ! 0 \<noteq> CHR 0x22 \<or> p ! (length p - 1) \<noteq> CHR 0x22 then None
     else Some (take (length p - 2) (drop 1 p))))"

definition atcmd_str_to_param :: "string option \<Rightarrow> int \<Rightarrow> string option" where
  "atcmd_str_to_param str len = (case str of None \<Rightarrow> None | Some s \<Rightarrow>
    (if len = 0 then None
     else if len < int (length s) + 2 + 1 then None
     else Some (CHR 0x22 # s @ [CHR 0x22])))"

subsection \<open>Decimal notation\<close>

lemma is_digit_char_of: "(n :: nat) < 10 \<Longrightarrow> is_digit (char_of (n + 48))"
  by (simp add: is_digit_def of_char_of)

lemma digit_val_char_of: "(n :: nat) < 10 \<Longrightarrow> digit_val (char_of (n + 48)) = n"
  by (simp add: digit_val_def of_char_of)

lemma dec_nat_digits: "list_all is_digit (dec_nat n) \<and> dec_nat n \<noteq> []"
proof (induction n rule: dec_nat.induct)
  case (1 n)
  then show ?case by (subst (1 2) dec_nat.simps) (auto simp: is_digit_char_of)
qed

lemma dec_value_snoc: "dec_value (ds @ [c]) = 10 * dec_value ds + digit_val c"
  by (simp add: dec_value_def)

lemma dec_value_dec_nat [simp]: "dec_value (dec_nat n) = n"
proof (induction n rule: dec_nat.induct)
  case (1 n)
  show ?case
  proof (cases "n < 10")
    case True
    then show ?thesis by (subst dec_nat.simps) (simp add: dec_value_def digit_val_char_of)
  next
    case False
    then show ?thesis using 1 by (subst dec_nat.simps) (simp add: dec_value_snoc digit_val_char_of)
  qed
qed

lemma takeWhile_all: "list_all P xs \<Longrightarrow> takeWhile P xs = xs"
  by (induction xs) auto

lemma is_digit_not_special: "is_digit c \<Longrightarrow> \<not> is_space c \<and> c \<noteq> CHR ''-'' \<and> c \<noteq> CHR ''+''"
  by (auto simp: is_digit_def is_space_def)

text \<open>What \<open>strtol\<close> makes of canonical decimal notation.\<close>

lemma strtol_dec_nat:
  "c_strtol (dec_nat n) = (min LONG_MAX (int n), length (dec_nat n), int n > LONG_MAX)"
proof -
  have d: "list_all is_digit (dec_nat n)" "dec_nat n \<noteq> []" using dec_nat_digits by auto
  then obtain c cs where c: "dec_nat n = c # cs" "is_digit c" by (cases "dec_nat n") auto
  then have "\<not> is_space c" "c \<noteq> CHR ''-''" "c \<noteq> CHR ''+''" using is_digit_not_special by auto
  moreover have "takeWhile is_digit (c # cs) = c # cs" using d c takeWhile_all by metis
  moreover have "dec_value (c # cs) = n" using c by (metis dec_value_dec_nat)
  ultimately show ?thesis
    by (simp add: c_strtol_def c(1) Let_def LONG_MIN_def LONG_MAX_def)
qed

lemma strtol_dec_neg:
  "c_strtol (CHR ''-'' # dec_nat n) = (max LONG_MIN (- int n), Suc (length (dec_nat n)), - int n < LONG_MIN)"
proof -
  have d: "list_all is_digit (dec_nat n)" "dec_nat n \<noteq> []" using dec_nat_digits by auto
  have "\<not> is_space (CHR ''-'')" by (simp add: is_space_def)
  then show ?thesis using d(2)
    by (simp add: c_strtol_def Let_def LONG_MIN_def LONG_MAX_def takeWhile_all [OF d(1)])
qed

lemma strtol_range: "c_strtol s = (v, used, over) \<Longrightarrow> LONG_MIN \<le> v \<and> v \<le> LONG_MAX"
  by (auto simp: c_strtol_def Let_def LONG_MIN_def LONG_MAX_def split: if_splits)

lemma strtol_dec_int:
  assumes "LONG_MIN \<le> v" and "v \<le> LONG_MAX"
  shows "c_strtol (dec_int v) = (v, length (dec_int v), False)"
proof (cases "v < 0")
  case True
  then show ?thesis using strtol_dec_neg [of "nat (- v)"] assms by (simp add: dec_int_def)
next
  case False
  then show ?thesis using strtol_dec_nat [of "nat v"] assms by (simp add: dec_int_def)
qed


subsection \<open>What is accepted\<close>

lemma dec_nat_inj: "dec_nat m = dec_nat n \<Longrightarrow> m = n"
  by (metis dec_value_dec_nat)

lemma dec_nat_head: "dec_nat n \<noteq> [] \<and> hd (dec_nat n) \<noteq> CHR ''-''"
  using dec_nat_digits [of n] is_digit_not_special by (cases "dec_nat n") auto

lemma param_int_accepts:
  "fst (atcmd_param_to_int erange (Some s)) = Some v \<longleftrightarrow>
     s = dec_int v \<and> LONG_MIN \<le> v \<and> v \<le> LONG_MAX \<and> \<not> (erange \<and> (v = LONG_MIN \<or> v = LONG_MAX))"
  (is "?acc \<longleftrightarrow> ?can")
proof
  assume ?acc
  moreover obtain ret used over where st: "c_strtol s = (ret, used, over)" by (cases "c_strtol s")
  ultimately show ?can using strtol_range [OF st]
    by (auto simp: atcmd_param_to_int_def Let_def split: if_splits)
next
  assume ?can
  then show ?acc using strtol_dec_int [of v] by (auto simp: atcmd_param_to_int_def Let_def)
qed

lemma param_uint_accepts:
  "fst (atcmd_param_to_uint erange (Some s)) = Some v \<longleftrightarrow>
     s = dec_nat (nat v) \<and> 0 \<le> v \<and> v \<le> LONG_MAX"
  (is "?acc \<longleftrightarrow> ?can")
proof
  assume acc: ?acc
  obtain ret used over where st: "c_strtol s = (ret, used, over)" by (cases "c_strtol s")
  have v: "s = dec_nat (nat v)" "v = ret mod 2 ^ 32" "hd s \<noteq> CHR ''-''"
    using acc st dec_nat_head [of "nat v"] by (auto simp: atcmd_param_to_uint_def Let_def split: if_splits)
  then have "ret = min LONG_MAX (int (nat v))" using st strtol_dec_nat [of "nat v"] by simp
  moreover have "0 \<le> v" using v(2) by simp
  ultimately have "ret = min LONG_MAX v" "0 \<le> ret" by (simp_all add: LONG_MAX_def)
  moreover from this v(2) have "v = ret"
    using strtol_range [OF st] by (simp add: LONG_MAX_def)
  ultimately show ?can using v(1) \<open>0 \<le> v\<close> by simp
next
  assume can: ?can
  have "c_strtol s = (v, length s, False)" using can strtol_dec_nat [of "nat v"] by auto
  moreover have "\<not> (s \<noteq> [] \<and> hd s = CHR ''-'')" using can dec_nat_head by simp
  moreover have "v mod 2 ^ 32 = v" using can by (simp add: LONG_MAX_def)
  ultimately show ?acc using can by (simp add: atcmd_param_to_uint_def Let_def LONG_MAX_def)
qed

lemma in_range_accepts:
  "fst (in_range lo hi r) = Some v \<longleftrightarrow> fst r = Some v \<and> lo \<le> v \<and> v \<le> hi"
  by (auto simp: in_range_def split: prod.splits option.splits)

text \<open>Hexadecimal: the value of the digits, which fit 32 bits.\<close>

definition hex_value :: "string \<Rightarrow> nat" where
  "hex_value ds = foldl (\<lambda>v c. 16 * v + unat (the (hex_digit c))) 0 ds"

lemma hex_digit_bound:
  assumes "hex_digit c = Some d"
  shows "unat d < 16"
proof -
  let ?n = "of_char c :: nat"
  have "d = of_nat (?n - 48) \<and> ?n - 48 < 16 \<or> d = of_nat (?n - 97 + 10) \<and> ?n - 97 + 10 < 16 \<or>
      d = of_nat (?n - 65 + 10) \<and> ?n - 65 + 10 < 16"
    using assms unfolding hex_digit_def Let_def
    by (simp only: split: if_splits) auto
  then obtain k where "d = of_nat k" "k < 16" by blast
  then show ?thesis by simp
qed

lemma hex_loop_value:
  assumes "\<forall>c \<in> set cs. hex_digit c \<noteq> None" and "unat v < 16 ^ k" and "k + length cs \<le> 8"
  shows "\<exists>w. hex_loop cs v = (0, w) \<and> unat w = foldl (\<lambda>v c. 16 * v + unat (the (hex_digit c))) (unat v) cs"
  using assms
proof (induction cs arbitrary: v k)
  case (Cons c cs)
  then obtain d where d: "hex_digit c = Some d" by auto
  have "(16 :: nat) ^ Suc k \<le> 16 ^ 8" using Cons.prems(3) by (intro power_increasing) auto
  then have le: "16 * 16 ^ k \<le> (4294967296 :: nat)" by simp
  have s: "16 * unat v + unat d < 16 * 16 ^ k" using Cons.prems(2) hex_digit_bound [OF d] by linarith
  then have "16 * unat v + unat d < 4294967296" using le by linarith
  then have u: "unat (push_bit 4 v + d) = 16 * unat v + unat d"
    by (simp add: push_bit_eq_mult unat_word_ariths mult.commute)
  have "unat (push_bit 4 v + d) < 16 ^ Suc k" using s u by simp
  from Cons.IH [OF _ this] Cons.prems d u show ?case by auto
qed auto

lemma hex_loop_status: "fst (hex_loop cs v) = 0 \<longleftrightarrow> (\<forall>c \<in> set cs. hex_digit c \<noteq> None)"
  by (induction cs v rule: hex_loop.induct) (auto split: option.splits)

lemma param_hex_accepts:
  "(fst (atcmd_param_to_hex s) = 0 \<longleftrightarrow>
      (\<exists>ds. s = ''0x'' @ ds \<and> length ds \<le> 8 \<and> (\<forall>c \<in> set ds. hex_digit c \<noteq> None))) \<and>
   (fst (atcmd_param_to_hex s) = 0 \<longrightarrow>
      map_option unat (snd (atcmd_param_to_hex s)) = Some (hex_value (drop 2 s)))"
proof (cases "length s < 2 \<or> length s > 10 \<or> take 2 s \<noteq> ''0x''")
  case True
  then have "\<not> (\<exists>ds. s = ''0x'' @ ds \<and> length ds \<le> 8)" by auto
  then show ?thesis using True by (auto simp: atcmd_param_to_hex_def)
next
  case False
  then have s: "s = ''0x'' @ drop 2 s" "length (drop 2 s) \<le> 8" by (metis append_take_drop_id, use False in auto)
  have "fst (atcmd_param_to_hex s) = fst (hex_loop (drop 2 s) 0)"
    using False by (auto simp: atcmd_param_to_hex_def split: prod.splits)
  then have st: "fst (atcmd_param_to_hex s) = 0 \<longleftrightarrow> (\<forall>c \<in> set (drop 2 s). hex_digit c \<noteq> None)"
    by (simp add: hex_loop_status)
  moreover have "map_option unat (snd (atcmd_param_to_hex s)) = Some (hex_value (drop 2 s))"
    if "\<forall>c \<in> set (drop 2 s). hex_digit c \<noteq> None"
    using hex_loop_value [OF that, of 0 0] s(2) False
    by (auto simp: atcmd_param_to_hex_def hex_value_def)
  moreover have "(\<exists>ds. s = ''0x'' @ ds \<and> length ds \<le> 8 \<and> (\<forall>c \<in> set ds. hex_digit c \<noteq> None)) \<longleftrightarrow>
      (\<forall>c \<in> set (drop 2 s). hex_digit c \<noteq> None)"
    using s by (metis append_eq_append_conv same_append_eq)
  ultimately show ?thesis by blast
qed

subsection \<open>Properties\<close>

text \<open>The signed conversion accepts exactly the canonical decimal notation of the values of its
  type: \<open>atcmd_param_to_int8\<close> and its kin return a value if and only if the parameter is that
  value's shortest decimal notation (no sign \<open>+\<close>, blanks, leading zeros or trailing characters) and
  the value is in range, except that a stale \<open>errno\<close> makes the 32-bit extremes be refused.\<close>
theorem param_to_int_canonical:
  shows "(fst (atcmd_param_to_int8 erange (Some s)) = Some v \<longleftrightarrow> s = dec_int v \<and> -128 \<le> v \<and> v \<le> 127) \<and>
    (fst (atcmd_param_to_int16 erange (Some s)) = Some v \<longleftrightarrow> s = dec_int v \<and> -32768 \<le> v \<and> v \<le> 32767) \<and>
    (fst (atcmd_param_to_int32 erange (Some s)) = Some v \<longleftrightarrow>
       s = dec_int v \<and> - (2 ^ 31) \<le> v \<and> v \<le> 2 ^ 31 - 1 \<and>
       \<not> (erange \<and> v \<in> {- (2 ^ 31), 2 ^ 31 - 1}))"
  unfolding atcmd_param_to_int8_def atcmd_param_to_int16_def atcmd_param_to_int32_def in_range_accepts
    param_int_accepts
  by (auto simp: LONG_MIN_def LONG_MAX_def)

text \<open>The unsigned conversions accept exactly canonical decimal notation as well, but because
  they call \<open>strtol\<close> the 32-bit one stops at \<open>2 ^ 31 - 1\<close>: every value from \<open>2 ^ 31\<close> to
  \<open>2 ^ 32 - 1\<close> that the type could hold is refused.\<close>
theorem param_to_uint_canonical:
  shows "(fst (atcmd_param_to_uint8 erange (Some s)) = Some v \<longleftrightarrow> s = dec_nat (nat v) \<and> 0 \<le> v \<and> v \<le> 255) \<and>
    (fst (atcmd_param_to_uint16 erange (Some s)) = Some v \<longleftrightarrow> s = dec_nat (nat v) \<and> 0 \<le> v \<and> v \<le> 65535) \<and>
    (fst (atcmd_param_to_uint32 erange (Some s)) = Some v \<longleftrightarrow>
       s = dec_nat (nat v) \<and> 0 \<le> v \<and> v \<le> 2 ^ 31 - 1)"
  unfolding atcmd_param_to_uint8_def atcmd_param_to_uint16_def atcmd_param_to_uint32_def in_range_accepts
    param_uint_accepts
  by (auto simp: LONG_MAX_def)

text \<open>\<open>atcmd_param_to_hex\<close> accepts exactly \<open>0x\<close> followed by at most eight hexadecimal digits
  of either case and then stores their value, without overflow; the bare prefix counts as zero.\<close>
theorem param_to_hex_value:
  "(fst (atcmd_param_to_hex s) = 0 \<longleftrightarrow>
      (\<exists>ds. s = ''0x'' @ ds \<and> length ds \<le> 8 \<and> (\<forall>c \<in> set ds. hex_digit c \<noteq> None))) \<and>
   (fst (atcmd_param_to_hex s) = 0 \<longrightarrow>
      map_option unat (snd (atcmd_param_to_hex s)) = Some (hex_value (drop 2 s)))"
  by (rule param_hex_accepts)

lemma param_to_hex_value_witness:
  "map_option unat (snd (atcmd_param_to_hex ''0x1aF'')) = Some 431"
proof -
  have "fst (atcmd_param_to_hex ''0x1aF'') = 0" "hex_value (drop 2 ''0x1aF'') = 431" by code_simp+
  then show ?thesis using param_to_hex_value [of "''0x1aF''"] by simp
qed

text \<open>Quoting and unquoting are inverse: a string of any content that
  \<open>atcmd_str_to_param\<close> quotes into a buffer is what \<open>atcmd_param_to_str\<close> extracts into any buffer
  with room for the string and its NUL, and extraction never yields more than the buffer holds.\<close>
theorem param_string_roundtrip:
  shows "(int (length s) + 3 \<le> len \<and> int (length s) < len2 \<longrightarrow>
      atcmd_str_to_param (Some s) len = Some (CHR 0x22 # s @ [CHR 0x22]) \<and>
      atcmd_param_to_str (Some (CHR 0x22 # s @ [CHR 0x22])) len2 = Some s) \<and>
    (atcmd_param_to_str p len2 = Some t \<longrightarrow> int (length t) < len2 \<and> p = Some (CHR 0x22 # t @ [CHR 0x22]))"
proof (intro conjI impI)
  assume "int (length s) + 3 \<le> len \<and> int (length s) < len2"
  then show "atcmd_str_to_param (Some s) len = Some (CHR 0x22 # s @ [CHR 0x22])"
    and "atcmd_param_to_str (Some (CHR 0x22 # s @ [CHR 0x22])) len2 = Some s"
    by (auto simp: atcmd_str_to_param_def atcmd_param_to_str_def nth_append)
next
  assume t: "atcmd_param_to_str p len2 = Some t"
  then obtain q where q: "p = Some q" "2 \<le> length q" "int (length q) - 2 \<le> len2 - 1"
      "q ! 0 = CHR 0x22" "q ! (length q - 1) = CHR 0x22" "t = take (length q - 2) (drop 1 q)"
    by (auto simp: atcmd_param_to_str_def split: option.splits if_splits)
  then show "int (length t) < len2" by simp
  obtain a r where ar: "q = a # r" using q(2) by (cases q) auto
  then have "r \<noteq> []" using q(2) by auto
  with ar obtain m b where "q = a # m @ [b]" by (metis append_butlast_last_id)
  then show "p = Some (CHR 0x22 # t @ [CHR 0x22])" using q by (simp add: nth_append)
qed

lemma param_string_roundtrip_witness:
  "atcmd_param_to_str (atcmd_str_to_param (Some ''a,b'') 8) 4 = Some ''a,b''"
  using param_string_roundtrip [of "''a,b''" 8 4] by simp

end
