(* ===== verification/AtcmdRegistry.thy ===== *)
theory AtcmdRegistry
  imports Prelude
begin

text \<open>
  The command registry of \<open>sdk/apps/atcmd/atcmd_core.c\<close>: doubly linked lists of command groups and
  of the commands of each group.  The heap maps the address of a list node to its two links; a
  group or command starts with its node, so it has the node's address.  Address 0 is NULL and is a
  memory cell like any other: \<open>atcmd_list_add\<close> and \<open>atcmd_list_del\<close> write the \<open>next\<close> link of the
  node behind a NULL \<open>prev\<close>, that is, the word at address 0.
\<close>

subsection \<open>Lists\<close>

type_synonym addr = nat

record list_heap =
  lnext :: "addr \<Rightarrow> addr"
  lprev :: "addr \<Rightarrow> addr"

definition set_next :: "addr \<Rightarrow> addr \<Rightarrow> list_heap \<Rightarrow> list_heap" where
  "set_next a v h = h\<lparr>lnext := (lnext h)(a := v)\<rparr>"

definition set_prev :: "addr \<Rightarrow> addr \<Rightarrow> list_heap \<Rightarrow> list_heap" where
  "set_prev a v h = h\<lparr>lprev := (lprev h)(a := v)\<rparr>"

definition atcmd_list_init :: "addr \<Rightarrow> list_heap \<Rightarrow> list_heap" where
  "atcmd_list_init l h = set_prev l 0 (set_next l 0 h)"

definition atcmd_list_add :: "addr \<Rightarrow> addr \<Rightarrow> list_heap \<Rightarrow> list_heap" where
  "atcmd_list_add head l h =
    (let h1 = set_next l head h;
         h2 = set_prev l (lprev h1 head) h1;
         h3 = set_next (lprev h2 head) l h2
     in set_prev head l h3)"

definition atcmd_list_del :: "addr \<Rightarrow> list_heap \<Rightarrow> list_heap" where
  "atcmd_list_del l h =
    (let h1 = set_prev (lnext h l) (lprev h l) h;
         h2 = set_next (lprev h1 l) (lnext h1 l) h1
     in set_prev l 0 (set_next l 0 h2))"

text \<open>The search loops walk the \<open>prev\<close> links from \<open>a\<close> to NULL; the result 0 is NULL.\<close>

partial_function (option) list_search :: "(addr \<Rightarrow> bool) \<Rightarrow> list_heap \<Rightarrow> addr \<Rightarrow> addr option" where
  "list_search P h a =
    (if a = 0 then Some 0 else if P a then Some a else list_search P h (lprev h a))"

subsection \<open>Groups and commands\<close>

datatype atcmd_handler = ATCMD_HANDLER_RUN | ATCMD_HANDLER_GET | ATCMD_HANDLER_SET

record atcmd_group =
  g_name :: string
  g_id :: nat
  g_prefix :: string
  g_prefix_size :: nat
  g_cmd_list :: addr

record atcmd_info =
  c_group :: nat
  c_id :: nat
  c_cmd :: string
  c_handler :: "atcmd_handler \<Rightarrow> bool"

record registry =
  heap :: list_heap
  groups :: "addr \<Rightarrow> atcmd_group"
  infos :: "addr \<Rightarrow> atcmd_info"
  group_head :: addr

definition atcmd_group_search :: "nat \<Rightarrow> registry \<Rightarrow> addr option" where
  "atcmd_group_search i r =
    list_search (\<lambda>a. g_id (groups r a) = i) (heap r) (lprev (heap r) (group_head r))"

definition atcmd_group_register :: "addr \<Rightarrow> registry \<Rightarrow> (int \<times> registry) option" where
  "atcmd_group_register g r =
    (if g = 0 then Some (-1, r)
     else (case atcmd_group_search (g_id (groups r g)) r of
             None \<Rightarrow> None
           | Some a \<Rightarrow>
               if a \<noteq> 0 then Some (-1, r)
               else Some (0, r\<lparr>heap := atcmd_list_add (group_head r) g (heap r)\<rparr>)))"

definition atcmd_group_unregister :: "nat \<Rightarrow> registry \<Rightarrow> (int \<times> registry) option" where
  "atcmd_group_unregister i r =
    (case atcmd_group_search i r of
       None \<Rightarrow> None
     | Some a \<Rightarrow>
         if a = 0 then Some (-1, r) else Some (0, r\<lparr>heap := atcmd_list_del a (heap r)\<rparr>))"

definition atcmd_info_search :: "addr \<Rightarrow> nat \<Rightarrow> registry \<Rightarrow> addr option" where
  "atcmd_info_search g i r =
    (if g = 0 then Some 0
     else list_search (\<lambda>a. c_id (infos r a) = i) (heap r) (lprev (heap r) (g_cmd_list (groups r g))))"

definition atcmd_info_register :: "nat \<Rightarrow> addr \<Rightarrow> registry \<Rightarrow> (int \<times> registry) option" where
  "atcmd_info_register gid obj r =
    (case atcmd_group_search gid r of
       None \<Rightarrow> None
     | Some g \<Rightarrow>
         if g = 0 \<or> obj = 0 then Some (-1, r)
         else Some (0, r\<lparr>heap := atcmd_list_add (g_cmd_list (groups r g)) obj (heap r)\<rparr>))"

definition atcmd_info_unregister :: "nat \<Rightarrow> nat \<Rightarrow> registry \<Rightarrow> registry option" where
  "atcmd_info_unregister gid i r =
    (case atcmd_group_search gid r of
       None \<Rightarrow> None
     | Some g \<Rightarrow>
         if g = 0 then Some r
         else (case atcmd_info_search g i r of
                 None \<Rightarrow> None
               | Some a \<Rightarrow>
                   if a = 0 then Some r else Some (r\<lparr>heap := atcmd_list_del a (heap r)\<rparr>)))"

subsection \<open>Well-linked lists\<close>

text \<open>\<open>chain h p xs\<close>: from \<open>p\<close> the \<open>prev\<close> links visit \<open>xs\<close> and end in NULL, and \<open>next\<close> leads back.\<close>

fun chain :: "list_heap \<Rightarrow> addr \<Rightarrow> addr list \<Rightarrow> bool" where
  "chain h p [] \<longleftrightarrow> lprev h p = 0"
| "chain h p (x # xs) \<longleftrightarrow> lprev h p = x \<and> lnext h x = p \<and> chain h x xs"

definition linked :: "list_heap \<Rightarrow> addr \<Rightarrow> addr list \<Rightarrow> bool" where
  "linked h head xs \<longleftrightarrow> chain h head xs \<and> distinct (head # xs) \<and> 0 \<notin> set (head # xs)"

lemma heap_simps [simp]:
  "lnext (set_next a v h) = (lnext h)(a := v)" "lprev (set_next a v h) = lprev h"
  "lprev (set_prev a v h) = (lprev h)(a := v)" "lnext (set_prev a v h) = lnext h"
  by (simp_all add: set_next_def set_prev_def)

lemma chain_frame:
  assumes "chain h p xs" and "\<And>a. a \<in> set (p # xs) \<Longrightarrow> lprev h' a = lprev h a"
    and "\<And>a. a \<in> set xs \<Longrightarrow> lnext h' a = lnext h a"
  shows "chain h' p xs"
  using assms by (induction xs arbitrary: p) auto

lemma linked_frame:
  assumes "linked h p xs" and "\<And>a. a \<in> set (p # xs) \<Longrightarrow> lprev h' a = lprev h a"
    and "\<And>a. a \<in> set xs \<Longrightarrow> lnext h' a = lnext h a"
  shows "linked h' p xs"
  using assms chain_frame [of h p xs h'] by (auto simp: linked_def)

lemma list_add_links:
  assumes "l \<noteq> head"
  shows "lprev (atcmd_list_add head l h) = (lprev h)(l := lprev h head, head := l)"
    and "lnext (atcmd_list_add head l h) = (lnext h)(l := head, lprev h head := l)"
  using assms by (auto simp: atcmd_list_add_def Let_def)

lemma linked_add:
  assumes "linked h head xs" and "l \<notin> set (head # xs)" and "l \<noteq> 0"
  shows "linked (atcmd_list_add head l h) head (l # xs)"
proof -
  have ne: "l \<noteq> head" using assms by auto
  show ?thesis
  proof (cases xs)
    case Nil
    then show ?thesis using assms ne by (auto simp: linked_def list_add_links [OF ne])
  next
    case (Cons x ys)
    then have p: "lprev h head = x" and c: "chain h x ys" using assms by (auto simp: linked_def)
    have "chain (atcmd_list_add head l h) x ys"
      by (rule chain_frame [OF c]) (use assms Cons in \<open>auto simp: linked_def list_add_links [OF ne] p\<close>)
    then show ?thesis using assms ne Cons by (auto simp: linked_def list_add_links [OF ne] p)
  qed
qed

text \<open>The part of a chain before a node.\<close>

fun segm :: "list_heap \<Rightarrow> addr \<Rightarrow> addr list \<Rightarrow> bool" where
  "segm h p [] \<longleftrightarrow> True"
| "segm h p (x # xs) \<longleftrightarrow> lprev h p = x \<and> lnext h x = p \<and> segm h x xs"

lemma chain_append: "chain h p (ys @ zs) \<longleftrightarrow> segm h p ys \<and> chain h (last (p # ys)) zs"
  by (induction ys arbitrary: p) auto

lemma segm_frame:
  assumes "segm h p xs" and "\<And>a. a \<in> set (butlast (p # xs)) \<Longrightarrow> lprev h' a = lprev h a"
    and "\<And>a. a \<in> set xs \<Longrightarrow> lnext h' a = lnext h a"
  shows "segm h' p xs"
  using assms by (induction xs arbitrary: p) auto

lemma list_del_links:
  assumes "lnext h l = q" and "lprev h l = s" and "q \<noteq> l" and "s \<noteq> l"
  shows "lprev (atcmd_list_del l h) = (lprev h)(q := s, l := 0)"
    and "lnext (atcmd_list_del l h) = (lnext h)(s := q, l := 0)"
  using assms by (auto simp: atcmd_list_del_def Let_def)

lemma linked_mid:
  assumes "linked h head (ys @ l # zs)"
  shows "lnext h l = last (head # ys)" and "lprev h l = hd (zs @ [0])"
proof -
  have c: "chain h (last (head # ys)) (l # zs)" using assms by (simp only: linked_def chain_append)
  then show "lnext h l = last (head # ys)" by (auto split: if_splits)
  show "lprev h l = hd (zs @ [0])" using c by (cases zs) auto
qed

lemma linked_del:
  assumes "linked h head (ys @ l # zs)"
  shows "linked (atcmd_list_del l h) head (ys @ zs)"
proof -
  let ?q = "last (head # ys)" and ?s = "hd (zs @ [0])" and ?h = "atcmd_list_del l h"
  have d: "distinct (head # ys @ l # zs)" "0 \<notin> set (head # ys @ l # zs)"
    and sg: "segm h head ys" and c: "chain h ?q (l # zs)"
    using assms unfolding linked_def chain_append by blast+
  have q: "?q \<in> set (head # ys)" by (rule last_in_set) simp
  then have "?q \<noteq> l" using d by auto
  moreover have "?s \<noteq> l" using d by (cases zs) auto
  ultimately have links: "lprev ?h = (lprev h)(?q := ?s, l := 0)" "lnext ?h = (lnext h)(?s := ?q, l := 0)"
    using list_del_links [OF linked_mid [OF assms]] by blast+
  have bl: "a \<noteq> ?q" if "a \<in> set (butlast (head # ys))" for a
  proof -
    have "distinct (butlast (head # ys) @ [?q])" using d append_butlast_last_id [of "head # ys"] by auto
    then show ?thesis using that by auto
  qed
  have sn: "?s \<notin> set ys" using d by (cases zs) auto
  have "segm ?h head ys"
  proof (rule segm_frame [OF sg])
    fix a assume a: "a \<in> set (butlast (head # ys))"
    then have "a \<in> set (head # ys)" by (rule in_set_butlastD)
    then have "a \<noteq> l" using d by auto
    then show "lprev ?h a = lprev h a" using bl [OF a] by (simp add: links)
  next
    fix a assume "a \<in> set ys"
    then show "lnext ?h a = lnext h a" using sn d by (auto simp: links)
  qed
  moreover have "chain ?h ?q zs"
  proof (cases zs)
    case Nil
    then show ?thesis using \<open>?q \<noteq> l\<close> by (simp add: links del: last.simps)
  next
    case (Cons z zs')
    have "chain h z zs'" using c Cons by simp
    then have "chain ?h z zs'"
    proof (rule chain_frame)
      fix a assume a: "a \<in> set (z # zs')"
      then have "a \<noteq> ?q" "a \<noteq> l" using q d Cons by auto
      then show "lprev ?h a = lprev h a" by (simp add: links)
    next
      fix a assume "a \<in> set zs'"
      then have "a \<noteq> ?s" "a \<noteq> l" using d Cons by auto
      then show "lnext ?h a = lnext h a" by (simp add: links)
    qed
    then show ?thesis using Cons d \<open>?q \<noteq> l\<close> by (auto simp: links simp del: last.simps)
  qed
  ultimately have "chain ?h head (ys @ zs)" by (simp only: chain_append)
  then show ?thesis using d by (auto simp: linked_def)
qed

lemma search_chain:
  assumes "chain h p xs" and "0 \<notin> set xs"
  shows "list_search P h (lprev h p) = Some (case find P xs of Some a \<Rightarrow> a | None \<Rightarrow> 0)"
  using assms
proof (induction xs arbitrary: p)
  case Nil
  then show ?case by (subst list_search.simps) simp
next
  case (Cons x xs)
  then show ?case by (subst list_search.simps) auto
qed


subsection \<open>The abstract registry\<close>

text \<open>
  \<open>gs\<close> are the registered groups, the latest first; \<open>U\<close> are all group objects of the program and
  \<open>cs g\<close> the commands of group \<open>g\<close>, the latest first.  All nodes and list heads are different.
\<close>

definition reg_nodes :: "registry \<Rightarrow> addr list \<Rightarrow> (addr \<Rightarrow> addr list) \<Rightarrow> addr list" where
  "reg_nodes r U cs = group_head r # U @ concat (map (\<lambda>g. g_cmd_list (groups r g) # cs g) U)"

definition reg_ok :: "registry \<Rightarrow> addr list \<Rightarrow> addr list \<Rightarrow> (addr \<Rightarrow> addr list) \<Rightarrow> bool" where
  "reg_ok r U gs cs \<longleftrightarrow> distinct (reg_nodes r U cs) \<and> 0 \<notin> set (reg_nodes r U cs) \<and> set gs \<subseteq> set U \<and>
     linked (heap r) (group_head r) gs \<and>
     (\<forall>g \<in> set U. linked (heap r) (g_cmd_list (groups r g)) (cs g)) \<and>
     distinct (map (\<lambda>g. g_id (groups r g)) gs)"

definition find_addr :: "(addr \<Rightarrow> bool) \<Rightarrow> addr list \<Rightarrow> addr" where
  "find_addr P xs = (case find P xs of Some a \<Rightarrow> a | None \<Rightarrow> 0)"

lemma find_addr_zero: "0 \<notin> set xs \<Longrightarrow> find_addr P xs = 0 \<longleftrightarrow> (\<forall>a \<in> set xs. \<not> P a)"
  by (induction xs) (auto simp: find_addr_def)

lemma find_addr_in: "find_addr P xs \<noteq> 0 \<Longrightarrow> find_addr P xs \<in> set xs \<and> P (find_addr P xs)"
  by (induction xs) (auto simp: find_addr_def split: if_splits)

lemma group_search_eq:
  assumes "reg_ok r U gs cs"
  shows "atcmd_group_search i r = Some (find_addr (\<lambda>a. g_id (groups r a) = i) gs)"
  using assms search_chain [of "heap r" "group_head r" gs]
  by (auto simp: atcmd_group_search_def reg_ok_def linked_def find_addr_def)

lemma reg_group_nz:
  assumes "reg_ok r U gs cs" and "g \<in> set U"
  shows "g \<noteq> 0"
  using assms by (auto simp: reg_ok_def reg_nodes_def)

lemma info_search_eq:
  assumes "reg_ok r U gs cs" and "g \<in> set U"
  shows "atcmd_info_search g i r = Some (find_addr (\<lambda>a. c_id (infos r a) = i) (cs g))"
  using assms search_chain [of "heap r" "g_cmd_list (groups r g)" "cs g"] reg_group_nz [OF assms]
  by (auto simp: atcmd_info_search_def reg_ok_def linked_def find_addr_def)

text \<open>Changing the links of one list leaves the others alone.\<close>

lemma cmd_nodes_disjoint:
  assumes "distinct (concat (map f U))" and "g \<in> set U" and "g' \<in> set U" and "g \<noteq> g'"
  shows "set (f g) \<inter> set (f g') = {}"
  using assms
proof (induction U)
  case (Cons u U)
  have "set (f u) \<inter> set (f x) = {}" if "x \<in> set U" for x using Cons.prems(1) that by auto
  then show ?case using Cons by auto
qed simp


lemma linked_add_frame:
  assumes "linked h p xs" and "linked h head ys" and "l \<noteq> head"
    and "set (p # xs) \<inter> set (head # l # ys) = {}"
  shows "linked (atcmd_list_add head l h) p xs"
proof (rule linked_frame [OF assms(1)])
  fix a assume "a \<in> set (p # xs)"
  then show "lprev (atcmd_list_add head l h) a = lprev h a"
    using assms(4) by (auto simp: list_add_links [OF assms(3)])
next
  fix a assume a: "a \<in> set xs"
  have "lprev h head = 0 \<or> lprev h head \<in> set ys" using assms(2) by (cases ys) (auto simp: linked_def)
  moreover have "a \<noteq> 0" using assms(1) a by (metis linked_def list.set_intros(2))
  ultimately show "lnext (atcmd_list_add head l h) a = lnext h a"
    using assms(4) a by (auto simp: list_add_links [OF assms(3)])
qed

lemma linked_del_frame:
  assumes "linked h p xs" and "linked h head (ys @ l # zs)" and "set (p # xs) \<inter> set (head # ys @ l # zs) = {}"
  shows "linked (atcmd_list_del l h) p xs"
proof -
  let ?q = "last (head # ys)" and ?s = "hd (zs @ [0])"
  have q: "?q \<in> set (head # ys)" by (rule last_in_set) simp
  have d: "distinct (head # ys @ l # zs)" using assms(2) by (simp add: linked_def)
  have "?q \<noteq> l" using q d by auto
  moreover have "?s \<noteq> l" using assms(2) by (cases zs) (auto simp: linked_def)
  ultimately have links: "lprev (atcmd_list_del l h) = (lprev h)(?q := ?s, l := 0)"
      "lnext (atcmd_list_del l h) = (lnext h)(?s := ?q, l := 0)"
    using list_del_links [OF linked_mid [OF assms(2)]] by blast+
  show ?thesis
  proof (rule linked_frame [OF assms(1)])
    fix a assume "a \<in> set (p # xs)"
    then have "a \<noteq> ?q" "a \<noteq> l" using assms(3) q by auto
    then show "lprev (atcmd_list_del l h) a = lprev h a" by (simp add: links)
  next
    fix a assume a: "a \<in> set xs"
    then have "a \<noteq> 0" "a \<notin> set zs" "a \<noteq> l" using assms(1,3) by (auto simp: linked_def)
    then have "a \<noteq> ?s" by (cases zs) auto
    then show "lnext (atcmd_list_del l h) a = lnext h a" using \<open>a \<noteq> l\<close> by (simp add: links)
  qed
qed

text \<open>The nodes of different lists of a well-formed registry.\<close>

lemma reg_disjoint:
  assumes "reg_ok r U gs cs" and "g \<in> set U"
  shows "set (g_cmd_list (groups r g) # cs g) \<inter> set (group_head r # U) = {}"
    and "g' \<in> set U \<Longrightarrow> g \<noteq> g' \<Longrightarrow>
      set (g_cmd_list (groups r g) # cs g) \<inter> set (g_cmd_list (groups r g') # cs g') = {}"
proof -
  let ?f = "\<lambda>g. g_cmd_list (groups r g) # cs g"
  have d: "distinct (group_head r # U @ concat (map ?f U))" using assms(1) by (simp add: reg_ok_def reg_nodes_def)
  then have "set (group_head r # U) \<inter> set (concat (map ?f U)) = {}" by auto
  moreover have "set (?f g) \<subseteq> set (concat (map ?f U))" using assms(2) by auto
  ultimately show "set (?f g) \<inter> set (group_head r # U) = {}" by blast
  show "set (?f g) \<inter> set (?f g') = {}" if "g' \<in> set U" "g \<noteq> g'"
    using cmd_nodes_disjoint [of ?f U g g'] d assms(2) that by auto
qed

lemma group_register_refines:
  assumes ok: "reg_ok r U gs cs" and g: "g \<in> set U"
  shows "\<exists>r'. atcmd_group_register g r =
      Some (if \<exists>a \<in> set gs. g_id (groups r a) = g_id (groups r g) then -1 else 0, r') \<and>
    reg_ok r' U (if \<exists>a \<in> set gs. g_id (groups r a) = g_id (groups r g) then gs else g # gs) cs"
proof (cases "\<exists>a \<in> set gs. g_id (groups r a) = g_id (groups r g)")
  case True
  have "0 \<notin> set gs" using ok by (auto simp: reg_ok_def linked_def)
  then have "find_addr (\<lambda>a. g_id (groups r a) = g_id (groups r g)) gs \<noteq> 0"
    using True by (simp add: find_addr_zero)
  then show ?thesis using True ok reg_group_nz [OF ok g] group_search_eq [OF ok]
    by (simp add: atcmd_group_register_def)
next
  case False
  have nz: "0 \<notin> set gs" using ok by (auto simp: reg_ok_def linked_def)
  then have z: "find_addr (\<lambda>a. g_id (groups r a) = g_id (groups r g)) gs = 0"
    using False by (simp add: find_addr_zero)
  let ?r = "r\<lparr>heap := atcmd_list_add (group_head r) g (heap r)\<rparr>"
  have lg: "linked (heap r) (group_head r) gs" "set gs \<subseteq> set U" "g \<notin> set gs" "g \<noteq> group_head r"
    using ok False g by (auto simp: reg_ok_def reg_nodes_def)
  have "linked (heap ?r) (group_head r) (g # gs)"
    using linked_add [OF lg(1), of g] lg(3,4) reg_group_nz [OF ok g] by simp
  moreover have "linked (heap ?r) (g_cmd_list (groups r u)) (cs u)" if u: "u \<in> set U" for u
  proof -
    have "linked (heap r) (g_cmd_list (groups r u)) (cs u)" using ok u by (simp add: reg_ok_def)
    moreover have "set (g_cmd_list (groups r u) # cs u) \<inter> set (group_head r # g # gs) = {}"
      using reg_disjoint(1) [OF ok u] g lg(2) by auto
    ultimately show ?thesis using linked_add_frame [OF _ lg(1,4)] by simp
  qed
  ultimately have "reg_ok ?r U (g # gs) cs" using ok False g by (auto simp: reg_ok_def reg_nodes_def)
  then show ?thesis using False z reg_group_nz [OF ok g] group_search_eq [OF ok]
    by (simp add: atcmd_group_register_def)
qed

lemma find_split:
  assumes "find_addr P xs \<noteq> 0"
  obtains ys zs where "xs = ys @ find_addr P xs # zs" and "find_addr P xs \<notin> set ys"
    and "remove1 (find_addr P xs) xs = ys @ zs"
  using find_addr_in [OF assms] split_list_first [of "find_addr P xs" xs] that
  by (metis remove1.simps(2) remove1_append)

lemma group_unregister_refines:
  assumes ok: "reg_ok r U gs cs"
  shows "\<exists>r'. atcmd_group_unregister i r = Some (if \<exists>a \<in> set gs. g_id (groups r a) = i then 0 else -1, r') \<and>
    reg_ok r' U (filter (\<lambda>a. g_id (groups r a) \<noteq> i) gs) cs"
proof (cases "\<exists>a \<in> set gs. g_id (groups r a) = i")
  case False
  then have "find_addr (\<lambda>a. g_id (groups r a) = i) gs = 0"
    using ok find_addr_zero by (auto simp: reg_ok_def linked_def)
  moreover have "filter (\<lambda>a. g_id (groups r a) \<noteq> i) gs = gs" using False by (simp add: filter_id_conv)
  ultimately show ?thesis using False ok group_search_eq [OF ok] by (simp add: atcmd_group_unregister_def)
next
  case True
  let ?P = "\<lambda>a. g_id (groups r a) = i"
  define a where "a = find_addr ?P gs"
  have "0 \<notin> set gs" using ok by (auto simp: reg_ok_def linked_def)
  then have nz: "find_addr ?P gs \<noteq> 0" using True by (simp add: find_addr_zero)
  obtain ys zs where s: "gs = ys @ a # zs" using find_split [OF nz] a_def by metis
  have pa: "g_id (groups r a) = i" using find_addr_in [OF nz] by (simp add: a_def)
  have "distinct (map (\<lambda>g. g_id (groups r g)) gs)" using ok by (simp add: reg_ok_def)
  then have "\<forall>a \<in> set ys. g_id (groups r a) \<noteq> i" "\<forall>a \<in> set zs. g_id (groups r a) \<noteq> i"
    using pa by (auto simp: s) (metis image_eqI)+
  then have fl: "filter (\<lambda>a. g_id (groups r a) \<noteq> i) gs = ys @ zs"
    using pa by (simp add: s filter_True)
  let ?r = "r\<lparr>heap := atcmd_list_del a (heap r)\<rparr>"
  have lg: "linked (heap r) (group_head r) (ys @ a # zs)" "set gs \<subseteq> set U" using ok s by (auto simp: reg_ok_def)
  have "linked (heap ?r) (group_head r) (ys @ zs)" using linked_del [OF lg(1)] by simp
  moreover have "linked (heap ?r) (g_cmd_list (groups r u)) (cs u)" if u: "u \<in> set U" for u
  proof -
    have "linked (heap r) (g_cmd_list (groups r u)) (cs u)" using ok u by (simp add: reg_ok_def)
    moreover have "set (g_cmd_list (groups r u) # cs u) \<inter> set (group_head r # ys @ a # zs) = {}"
      using reg_disjoint(1) [OF ok u] lg(2) s by auto
    ultimately show ?thesis using linked_del_frame [OF _ lg(1)] by simp
  qed
  ultimately have "reg_ok ?r U (ys @ zs) cs" using ok by (auto simp: reg_ok_def reg_nodes_def s)
  then show ?thesis using True nz fl group_search_eq [OF ok]
    by (simp add: atcmd_group_unregister_def a_def)
qed


text \<open>Changing one group's commands by at most one new node keeps all nodes different.\<close>

lemma distinct_concat_update:
  assumes "distinct (concat (map f U))" and "x \<notin> set (concat (map f U))" and "distinct U"
    and "\<And>u. u \<noteq> g \<Longrightarrow> f' u = f u" and "set (f' g) \<subseteq> insert x (set (f g))" and "distinct (f' g)"
  shows "distinct (concat (map f' U)) \<and> set (concat (map f' U)) \<subseteq> insert x (set (concat (map f U)))"
  using assms(1-3)
proof (induction U)
  case (Cons u U)
  have ih: "distinct (concat (map f' U))" "set (concat (map f' U)) \<subseteq> insert x (set (concat (map f U)))"
    using Cons by auto
  have same: "map f' U = map f U" if "u = g" using Cons.prems(3) that
    by (intro map_cong [OF refl] assms(4)) auto
  show ?case
  proof (cases "u = g")
    case True
    have "set (f' u) \<inter> set (concat (map f U)) = {}"
      using Cons.prems(1,2) assms(5) True by auto
    moreover have "distinct (concat (map f U))" using Cons.prems(1) by simp
    ultimately show ?thesis
      unfolding list.map concat.simps distinct_append same [OF True] set_append using assms(5,6) True by blast
  next
    case False
    then have "f' u = f u" by (rule assms(4))
    then show ?thesis using Cons.prems ih by auto
  qed
qed simp

lemma distinct_replace:
  assumes "distinct (h # U @ A)" and "0 \<notin> set (h # U @ A)" and "distinct B"
    and "set B \<subseteq> insert x (set A)" and "x \<notin> set (h # U)" and "x \<noteq> (0 :: nat)"
  shows "distinct (h # U @ B) \<and> 0 \<notin> set (h # U @ B)"
  using assms by auto

lemma reg_ok_update:
  assumes ok: "reg_ok r U gs cs" and g: "g \<in> set U" and x: "x \<notin> set (reg_nodes r U cs)" and "x \<noteq> 0"
    and h: "linked h (group_head r) gs" "\<And>u. u \<in> set U \<Longrightarrow> linked h (g_cmd_list (groups r u)) (cs' u)"
    and cs': "\<And>u. u \<noteq> g \<Longrightarrow> cs' u = cs u" "set (cs' g) \<subseteq> insert x (set (cs g))"
  shows "reg_ok (r\<lparr>heap := h\<rparr>) U gs cs'"
proof -
  let ?f = "\<lambda>g. g_cmd_list (groups r g) # cs g" and ?f' = "\<lambda>g. g_cmd_list (groups r g) # cs' g"
  have d: "distinct (group_head r # U @ concat (map ?f U))" "0 \<notin> set (group_head r # U @ concat (map ?f U))"
    using ok by (simp_all add: reg_ok_def reg_nodes_def)
  have "distinct (?f' g)" using h(2) [OF g] by (simp add: linked_def)
  then have c: "distinct (concat (map ?f' U))" "set (concat (map ?f' U)) \<subseteq> insert x (set (concat (map ?f U)))"
    using distinct_concat_update [of ?f U x g ?f'] d x cs' by (auto simp: reg_nodes_def)
  have "x \<notin> set (group_head r # U)" using x by (simp add: reg_nodes_def)
  from distinct_replace [OF d c this \<open>x \<noteq> 0\<close>] show ?thesis
    using ok h by (simp add: reg_ok_def reg_nodes_def)
qed

lemma info_register_refines:
  assumes ok: "reg_ok r U gs cs" and x: "x \<notin> set (reg_nodes r U cs)" "x \<noteq> 0"
    and g: "g = find_addr (\<lambda>a. g_id (groups r a) = gid) gs"
  shows "\<exists>r'. atcmd_info_register gid x r = Some (if g = 0 then -1 else 0, r') \<and>
    groups r' = groups r \<and> infos r' = infos r \<and> group_head r' = group_head r \<and>
    reg_ok r' U gs (if g = 0 then cs else cs(g := x # cs g))"
proof (cases "g = 0")
  case True
  then show ?thesis using ok group_search_eq [OF ok, of gid] g by (simp add: atcmd_info_register_def)
next
  case False
  then have gin: "g \<in> set gs" "g \<in> set U" using find_addr_in [of _ gs] g ok by (auto simp: reg_ok_def)
  let ?hd = "g_cmd_list (groups r g)" and ?cs = "cs(g := x # cs g)"
  let ?h = "atcmd_list_add ?hd x (heap r)"
  have lg: "linked (heap r) ?hd (cs g)" using ok gin by (simp add: reg_ok_def)
  have xn: "x \<notin> set (?hd # cs g)" using x gin by (auto simp: reg_nodes_def)
  then have ne: "x \<noteq> ?hd" by auto
  have "linked ?h (group_head r) gs"
    using ok reg_disjoint(1) [OF ok gin(2)] x by (intro linked_add_frame [OF _ lg ne]) (auto simp: reg_ok_def reg_nodes_def)
  moreover have "linked ?h (g_cmd_list (groups r u)) (?cs u)" if u: "u \<in> set U" for u
  proof (cases "u = g")
    case True
    then show ?thesis using linked_add [OF lg xn x(2)] by simp
  next
    case False
    have "linked (heap r) (g_cmd_list (groups r u)) (cs u)" using ok u by (simp add: reg_ok_def)
    moreover have "x \<notin> set (g_cmd_list (groups r u) # cs u)" using x u by (auto simp: reg_nodes_def)
    ultimately have "linked ?h (g_cmd_list (groups r u)) (cs u)"
      using reg_disjoint(2) [OF ok u gin(2) False] by (intro linked_add_frame [OF _ lg ne]) auto
    then show ?thesis using False by simp
  qed
  ultimately have "reg_ok (r\<lparr>heap := ?h\<rparr>) U gs ?cs"
    by (intro reg_ok_update [OF ok gin(2) x]) auto
  then show ?thesis using False x(2) group_search_eq [OF ok, of gid] g by (auto simp: atcmd_info_register_def)
qed

lemma info_unregister_refines:
  assumes ok: "reg_ok r U gs cs" and g: "g = find_addr (\<lambda>a. g_id (groups r a) = gid) gs"
    and a: "a = find_addr (\<lambda>a. c_id (infos r a) = i) (cs g)"
  shows "\<exists>r'. atcmd_info_unregister gid i r = Some r' \<and>
    groups r' = groups r \<and> infos r' = infos r \<and> group_head r' = group_head r \<and>
    reg_ok r' U gs (if g = 0 then cs else cs(g := remove1 a (cs g)))"
proof (cases "g = 0")
  case True
  then show ?thesis using ok group_search_eq [OF ok, of gid] g by (simp add: atcmd_info_unregister_def)
next
  case False
  then have gin: "g \<in> set gs" "g \<in> set U" using find_addr_in [of _ gs] g ok by (auto simp: reg_ok_def)
  let ?hd = "g_cmd_list (groups r g)"
  have lg: "linked (heap r) ?hd (cs g)" using ok gin by (simp add: reg_ok_def)
  show ?thesis
  proof (cases "a = 0")
    case True
    then have "remove1 a (cs g) = cs g" using lg by (intro remove1_idem) (auto simp: linked_def)
    then show ?thesis using True False ok group_search_eq [OF ok, of gid] info_search_eq [OF ok gin(2), of i] g a
      by (auto simp: atcmd_info_unregister_def)
  next
    case nz: False
    obtain ys zs where s: "cs g = ys @ a # zs" "remove1 a (cs g) = ys @ zs"
      using find_split [of _ "cs g"] nz a by metis
    let ?h = "atcmd_list_del a (heap r)" and ?cs = "cs(g := remove1 a (cs g))"
    have lg': "linked (heap r) ?hd (ys @ a # zs)" using lg s by simp
    have "linked ?h (group_head r) gs"
      using ok reg_disjoint(1) [OF ok gin(2)] s by (intro linked_del_frame [OF _ lg']) (auto simp: reg_ok_def)
    moreover have "linked ?h (g_cmd_list (groups r u)) (?cs u)" if u: "u \<in> set U" for u
    proof (cases "u = g")
      case True
      then show ?thesis using linked_del [OF lg'] s by simp
    next
      case False
      have "linked (heap r) (g_cmd_list (groups r u)) (cs u)" using ok u by (simp add: reg_ok_def)
      then have "linked ?h (g_cmd_list (groups r u)) (cs u)"
        using reg_disjoint(2) [OF ok u gin(2) False] s by (intro linked_del_frame [OF _ lg']) auto
      then show ?thesis using False by simp
    qed
    moreover obtain x where x: "x \<notin> set (0 # reg_nodes r U cs)" by (meson ex_new_if_finite finite_set infinite_UNIV_nat)
    moreover have "set (?cs g) \<subseteq> insert x (set (cs g))" using set_remove1_subset [of a "cs g"] by auto
    ultimately have "reg_ok (r\<lparr>heap := ?h\<rparr>) U gs ?cs"
      by (intro reg_ok_update [OF ok gin(2), of x]) simp_all
    then show ?thesis using False nz group_search_eq [OF ok, of gid] info_search_eq [OF ok gin(2), of i] g a
      by (auto simp: atcmd_info_unregister_def)
  qed
qed

subsection \<open>Properties\<close>

text \<open>C31: Registering and unregistering groups refines a list of groups with unique ids: a group
  whose id is taken is refused and nothing changes, any other becomes the first of the list;
  unregistering removes exactly the group of that id or reports its absence.  Links, the commands of
  every group and the separation of all nodes are preserved, also when groups not registered at the
  moment are taken into account.\<close>
theorem group_registry_refines:
  assumes "reg_ok r U gs cs" and "g \<in> set U"
  shows "(\<exists>r'. atcmd_group_register g r =
       Some (if \<exists>a \<in> set gs. g_id (groups r a) = g_id (groups r g) then -1 else 0, r') \<and>
     reg_ok r' U (if \<exists>a \<in> set gs. g_id (groups r a) = g_id (groups r g) then gs else g # gs) cs) \<and>
   (\<exists>r'. atcmd_group_unregister i r = Some (if \<exists>a \<in> set gs. g_id (groups r a) = i then 0 else -1, r') \<and>
     reg_ok r' U (filter (\<lambda>a. g_id (groups r a) \<noteq> i) gs) cs)"
  using group_register_refines [OF assms] group_unregister_refines [OF assms(1)] by blast

text \<open>An empty registry with one group object at 10, its command list head at 20.\<close>

definition demo_registry :: registry where
  "demo_registry = \<lparr>heap = \<lparr>lnext = (\<lambda>_. 0), lprev = (\<lambda>_. 0)\<rparr>,
     groups = (\<lambda>_. \<lparr>g_name = ''BASIC'', g_id = 0, g_prefix = [], g_prefix_size = 0, g_cmd_list = 20\<rparr>),
     infos = (\<lambda>a. \<lparr>c_group = 0, c_id = a, c_cmd = ''VER'', c_handler = (\<lambda>_. True)\<rparr>), group_head = 1\<rparr>"

lemma demo_registry_ok: "reg_ok demo_registry [10] [] (\<lambda>_. [])"
  by (simp add: reg_ok_def reg_nodes_def demo_registry_def linked_def)

lemma group_registry_refines_witness:
  "\<exists>r'. atcmd_group_register 10 demo_registry = Some (0, r') \<and> reg_ok r' [10] [10] (\<lambda>_. [])"
  using group_registry_refines [OF demo_registry_ok, of 10] by simp

text \<open>C32: Registering and unregistering commands refines the group's list of commands: a new
  command becomes the first of its group, unregistering removes the first command with the id, an
  unknown group changes nothing, and no other list is disturbed.\<close>
theorem command_registry_refines:
  assumes "reg_ok r U gs cs" and "g = find_addr (\<lambda>a. g_id (groups r a) = gid) gs"
    and "x \<notin> set (reg_nodes r U cs)" and "x \<noteq> 0"
  shows "(\<exists>r'. atcmd_info_register gid x r = Some (if g = 0 then -1 else 0, r') \<and>
      reg_ok r' U gs (if g = 0 then cs else cs(g := x # cs g))) \<and>
    (\<exists>r'. atcmd_info_unregister gid i r = Some r' \<and>
      reg_ok r' U gs (if g = 0 then cs else cs(g := remove1 (find_addr (\<lambda>a. c_id (infos r a) = i) (cs g)) (cs g))))"
  using info_register_refines [OF assms(1,3,4,2)] info_unregister_refines [OF assms(1,2) refl] by blast

lemma command_registry_refines_witness:
  "\<exists>r r'. reg_ok r [10] [10] (\<lambda>_. []) \<and> atcmd_info_register 0 30 r = Some (0, r') \<and>
     reg_ok r' [10] [10] ((\<lambda>_. [])(10 := [30]))"
proof -
  obtain r where r: "atcmd_group_register 10 demo_registry = Some (0, r)" "reg_ok r [10] [10] (\<lambda>_. [])"
    using group_register_refines [OF demo_registry_ok, of 10] by auto
  then have "groups r = groups demo_registry" "group_head r = 1"
    by (auto simp: atcmd_group_register_def demo_registry_def split: option.splits if_splits)
  then have g: "find_addr (\<lambda>a. g_id (groups r a) = 0) [10] = 10" and "30 \<notin> set (reg_nodes r [10] (\<lambda>_. []))"
    by (simp_all add: find_addr_def reg_nodes_def demo_registry_def)
  from command_registry_refines [OF r(2) g [symmetric] this(2)] r(2) show ?thesis by auto
qed

end
