(* ===== verification/AtcmdParse.thy ===== *)
theory AtcmdParse
  imports AtcmdRegistry
begin

text \<open>
  The command parser \<open>atcmd_parse\<close> of \<open>sdk/apps/atcmd/atcmd_core.c\<close>.  It cuts the command in place
  by overwriting separators with NUL: the buffer is a list of characters, a pointer into it an
  index.  A read or write outside the buffer is \<open>ParseFault\<close>.
\<close>

subsection \<open>C strings in a buffer\<close>

abbreviation NUL :: char where "NUL \<equiv> CHR 0x00"
abbreviation CR :: char where "CR \<equiv> CHR 0x0D"
abbreviation LF :: char where "LF \<equiv> CHR 0x0A"

definition c_str :: "string \<Rightarrow> nat \<Rightarrow> string" where
  "c_str buf a = takeWhile (\<lambda>c. c \<noteq> NUL) (drop a buf)"

definition upper_char :: "char \<Rightarrow> char" where
  "upper_char c = (let n = of_char c :: nat in if 97 \<le> n \<and> n \<le> 122 then char_of (n - 32) else c)"

definition strupr :: "string \<Rightarrow> nat \<Rightarrow> string" where
  "strupr buf a = memcpy_at buf a (map upper_char (c_str buf a))"

subsection \<open>The parser\<close>

datatype atcmd_type =
    ATCMD_TYPE_NONE | ATCMD_TYPE_RUN | ATCMD_TYPE_GET | ATCMD_TYPE_GET_PARAM
  | ATCMD_TYPE_SET | ATCMD_TYPE_SET_HELP

definition ATCMD_MSG_PARAM_MAX :: nat where "ATCMD_MSG_PARAM_MAX = 10"

record parse_st =
  p_buf :: string
  p_argv :: "nat list"
  p_i :: nat
  p_type :: atcmd_type

text \<open>The result: the handler kind (\<open>None\<close> is \<open>ATCMD_HANDLER_NONE\<close>) and the strings \<open>argv[0..argc-1]\<close>.\<close>

datatype parse_result = ParseFault | Parsed "atcmd_handler option" "string list"

text \<open>
  The switch on one character other than a line feed.  The conditions
  \<open>type == ATCMD_TYPE_SET || ATCMD_TYPE_GET_PARAM\<close> and its like are always true in C.
\<close>

definition parse_char :: "nat \<Rightarrow> parse_st \<Rightarrow> parse_st" where
  "parse_char c s =
    (let ch = p_buf s ! c
     in if ch = CHR ''='' then
          (let s1 = (if p_i s = 0 \<and> p_type s = ATCMD_TYPE_NONE then s\<lparr>p_type := ATCMD_TYPE_SET\<rparr>
                     else if p_i s = 1 \<and> p_type s = ATCMD_TYPE_GET
                     then s\<lparr>p_i := 0, p_type := ATCMD_TYPE_GET_PARAM\<rparr>
                     else s)
           in if p_i s1 = 0 then s1\<lparr>p_buf := (p_buf s1)[c := NUL]\<rparr> else s1)
        else if ch = CHR ''?'' then
          (let s1 = (if p_i s = 0 \<and> p_type s = ATCMD_TYPE_NONE then s\<lparr>p_type := ATCMD_TYPE_GET\<rparr>
                     else if p_i s = 1 \<and> p_type s = ATCMD_TYPE_SET
                     then s\<lparr>p_i := 0, p_type := ATCMD_TYPE_SET_HELP\<rparr>
                     else s)
           in if p_i s1 = 0 then s1\<lparr>p_buf := (p_buf s1)[c := NUL]\<rparr> else s1)
        else if ch = CHR '','' then
          (if p_type s = ATCMD_TYPE_SET then s\<lparr>p_buf := (p_buf s)[c := NUL]\<rparr> else s)
        else s)"

text \<open>
  The line feed ends the command.  In front of the parsed part is the \<open>+\<close> of \<open>AT+\<close>, not a
  carriage return.
\<close>

definition parse_end :: "nat \<Rightarrow> parse_st \<Rightarrow> parse_result" where
  "parse_end c s =
    (let k = (if c > 0 \<and> p_buf s ! (c - 1) = CR then c - 1 else c);
         buf1 = (p_buf s)[k := NUL];
         ty = (if p_i s = 0 \<and> p_type s = ATCMD_TYPE_NONE then ATCMD_TYPE_RUN else p_type s);
         argc = (if p_i s \<noteq> 0 \<and> (ty = ATCMD_TYPE_GET_PARAM \<or> ty = ATCMD_TYPE_SET) \<and>
                    length (c_str buf1 (p_argv s ! 1)) > 0
                 then 1 + p_i s else 1);
         buf2 = strupr buf1 (p_argv s ! 0);
         argv = map (\<lambda>j. c_str buf2 (p_argv s ! j)) [0..<argc]
     in Parsed (case ty of
            ATCMD_TYPE_RUN \<Rightarrow> Some ATCMD_HANDLER_RUN
          | ATCMD_TYPE_GET_PARAM \<Rightarrow> (if argc = 1 then None else Some ATCMD_HANDLER_GET)
          | ATCMD_TYPE_GET \<Rightarrow> Some ATCMD_HANDLER_GET
          | ATCMD_TYPE_SET \<Rightarrow> (if argc = 1 then None else Some ATCMD_HANDLER_SET)
          | ATCMD_TYPE_SET_HELP \<Rightarrow> Some ATCMD_HANDLER_SET
          | ATCMD_TYPE_NONE \<Rightarrow> None) argv)"

lemma length_parse_char [simp]: "length (p_buf (parse_char c s)) = length (p_buf s)"
  by (simp add: parse_char_def Let_def)

function parse_loop :: "nat \<Rightarrow> parse_st \<Rightarrow> parse_result" where
  "parse_loop c s =
    (if c \<ge> length (p_buf s) then ParseFault
     else if p_buf s ! c = LF then parse_end c s
     else
       (let s1 = parse_char c s
        in if p_buf s1 ! c \<noteq> NUL then parse_loop (Suc c) s1
           else if Suc (p_i s1) \<ge> ATCMD_MSG_PARAM_MAX + 1 then Parsed None []
           else parse_loop (Suc c)
                  (s1\<lparr>p_i := Suc (p_i s1), p_argv := (p_argv s1)[Suc (p_i s1) := Suc c]\<rparr>)))"
  by pat_completeness auto
termination
  by (relation "measure (\<lambda>(c, s). length (p_buf s) - c)") auto

declare parse_loop.simps [simp del]

definition atcmd_parse :: "string \<Rightarrow> parse_result" where
  "atcmd_parse cmd = parse_loop 0 \<lparr>p_buf = cmd, p_argv = replicate 11 0, p_i = 0, p_type = ATCMD_TYPE_NONE\<rparr>"

subsection \<open>Tokens\<close>

definition plain :: "char \<Rightarrow> bool" where
  "plain c \<longleftrightarrow> c \<noteq> NUL \<and> c \<noteq> CR \<and> c \<noteq> LF \<and> c \<noteq> CHR ''='' \<and> c \<noteq> CHR ''?'' \<and> c \<noteq> CHR '',''"

text \<open>A parameter may contain an equals sign.\<close>

definition param_char :: "char \<Rightarrow> bool" where
  "param_char c \<longleftrightarrow> plain c \<or> c = CHR ''=''"

text \<open>\<open>has buf a t\<close>: the text \<open>t\<close> stands in the buffer at \<open>a\<close>.\<close>

definition has :: "string \<Rightarrow> nat \<Rightarrow> string \<Rightarrow> bool" where
  "has buf a t \<longleftrightarrow> a + length t \<le> length buf \<and> take (length t) (drop a buf) = t"

lemma has_append: "has buf a (t @ u) \<longleftrightarrow> has buf a t \<and> has buf (a + length t) u"
proof -
  have "take (length t + length u) (drop a buf) =
      take (length t) (drop a buf) @ take (length u) (drop (a + length t) buf)"
    by (simp add: take_add add.commute)
  then show ?thesis by (auto simp: has_def)
qed

lemma has_Cons: "has buf a (c # t) \<longleftrightarrow> a < length buf \<and> buf ! a = c \<and> has buf (Suc a) t"
  using has_append [of buf a "[c]" t] by (auto simp: has_def take_Suc_conv_app_nth Cons_nth_drop_Suc [symmetric])

lemma has_nth: "has buf a t \<Longrightarrow> i < length t \<Longrightarrow> buf ! (a + i) = t ! i"
  by (metis has_def nth_drop nth_take add_leD1)

lemma has_update_after: "has buf a t \<Longrightarrow> a + length t \<le> k \<Longrightarrow> has (buf[k := c]) a t"
  by (simp add: has_def drop_update_swap take_update_cancel)

lemma has_update_before: "has buf a t \<Longrightarrow> k < a \<Longrightarrow> has (buf[k := c]) a t"
  by (simp add: has_def drop_update_cancel)

lemma c_str_has:
  assumes "has buf a (t @ [NUL])" and "NUL \<notin> set t"
  shows "c_str buf a = t"
proof -
  have "take (length (t @ [NUL])) (drop a buf) = t @ [NUL]" using assms(1) by (simp add: has_def)
  then obtain r where "drop a buf = (t @ [NUL]) @ r" by (metis append_take_drop_id)
  moreover have "takeWhile (\<lambda>c. c \<noteq> NUL) (t @ NUL # r) = t" using assms(2) by (induction t) auto
  ultimately show ?thesis by (simp add: c_str_def)
qed

lemma scan_plain:
  assumes "has (p_buf s) c t" and "list_all plain t"
  shows "parse_loop c s = parse_loop (c + length t) s"
  using assms
proof (induction t arbitrary: c)
  case (Cons x t)
  then have x: "c < length (p_buf s)" "p_buf s ! c = x" "has (p_buf s) (Suc c) t" "plain x"
    by (auto simp: has_Cons)
  then have "parse_char c s = s" by (simp add: parse_char_def plain_def)
  then have "parse_loop c s = parse_loop (Suc c) s"
    using x by (subst parse_loop.simps) (simp add: plain_def Let_def)
  then show ?case using Cons x by simp
qed simp

text \<open>Within the parameters of a set command an equals sign is plain too.\<close>

lemma scan_param:
  assumes "has (p_buf s) c t" and "list_all param_char t" and "p_type s = ATCMD_TYPE_SET" and "0 < p_i s"
  shows "parse_loop c s = parse_loop (c + length t) s"
  using assms(1,2)
proof (induction t arbitrary: c)
  case (Cons x t)
  then have x: "c < length (p_buf s)" "p_buf s ! c = x" "has (p_buf s) (Suc c) t" "param_char x"
    by (auto simp: has_Cons)
  then have "parse_char c s = s" using assms(3,4) by (auto simp: parse_char_def plain_def param_char_def)
  then have "parse_loop c s = parse_loop (Suc c) s"
    using x by (subst parse_loop.simps) (auto simp: plain_def param_char_def Let_def)
  then show ?case using Cons x by simp
qed simp

text \<open>
  \<open>toks_ok\<close>: the first arguments are the given strings, each with its NUL before position \<open>c\<close>, and
  the others start behind the first one.
\<close>

definition toks_ok :: "string \<Rightarrow> nat list \<Rightarrow> string list \<Rightarrow> nat \<Rightarrow> bool" where
  "toks_ok buf argv ts c \<longleftrightarrow> (\<forall>j < length ts. has buf (argv ! j) (ts ! j @ [NUL]) \<and> NUL \<notin> set (ts ! j) \<and>
     argv ! j + length (ts ! j) < c \<and> (0 < j \<longrightarrow> argv ! 0 + length (ts ! 0) < argv ! j))"

lemma toksD:
  assumes "toks_ok buf argv ts c" and "j < length ts"
  shows "has buf (argv ! j) (ts ! j @ [NUL])" "NUL \<notin> set (ts ! j)" "argv ! j + length (ts ! j) < c"
    "0 < j \<Longrightarrow> argv ! 0 + length (ts ! 0) < argv ! j"
  using assms by (simp_all add: toks_ok_def)

lemma toks_ok_update:
  "toks_ok buf argv ts c \<Longrightarrow> c \<le> k \<Longrightarrow> toks_ok (buf[k := x]) argv ts c"
  by (auto simp: toks_ok_def intro!: has_update_after)

lemma toks_ok_mono: "toks_ok buf argv ts c \<Longrightarrow> c \<le> c' \<Longrightarrow> toks_ok buf argv ts c'"
  by (auto simp: toks_ok_def)

lemma toks_ok_argv: "toks_ok buf argv ts c \<Longrightarrow> length ts \<le> i \<Longrightarrow> toks_ok buf (argv[i := a]) ts c"
  by (cases "ts = []") (auto simp: toks_ok_def)

lemma toks_ok_snoc:
  assumes "toks_ok buf argv ts c" and "argv ! length ts = a" and "has buf a (t @ [NUL])" and "NUL \<notin> set t"
    and "c \<le> a" and "a + length t < c'"
  shows "toks_ok buf argv (ts @ [t]) c'"
proof -
  have "argv ! 0 + length (ts ! 0) < c" if "ts \<noteq> []" using assms(1) that by (auto simp: toks_ok_def)
  then show ?thesis using assms by (auto simp: toks_ok_def nth_append less_Suc_eq)
qed

lemma has_memcpy:
  "has buf a t \<Longrightarrow> b + length u \<le> a \<Longrightarrow> has (memcpy_at buf b u) a t"
  "b + length u \<le> length buf \<Longrightarrow> has (memcpy_at buf b u) b u"
  by (auto simp: has_def memcpy_at_def)

lemma upper_char_NUL: "upper_char c = NUL \<longleftrightarrow> c = NUL"
proof (cases "97 \<le> (of_char c :: nat) \<and> (of_char c :: nat) \<le> 122")
  case True
  then have u: "upper_char c = char_of (of_char c - (32::nat))" by (simp only: upper_char_def Let_def if_True simp_thms)
  have c: "c \<noteq> NUL" using True by auto
  have "upper_char c \<noteq> NUL"
  proof
    assume "upper_char c = NUL"
    then have "of_char (upper_char c) = (of_char NUL :: nat)" by (rule arg_cong)
    moreover have "(of_char c - (32::nat)) mod 256 = of_char c - 32" using True by (intro mod_less) linarith
    ultimately show False using True unfolding u of_char_of by simp
  qed
  with c show ?thesis by blast
next
  case False
  then have "upper_char c = c" by (simp only: upper_char_def Let_def if_False)
  then show ?thesis by simp
qed

lemma strupr_toks:
  assumes "toks_ok buf argv (n # ts) c" and "argv ! 0 = 0"
  shows "toks_ok (strupr buf 0) argv (map upper_char n # ts) c"
proof -
  let ?b = "strupr buf 0"
  have n: "has buf 0 (n @ [NUL])" "NUL \<notin> set n" using assms by (auto simp: toks_ok_def)
  then have b: "?b = memcpy_at buf 0 (map upper_char n)" by (simp add: strupr_def c_str_has)
  have l: "length n \<le> length buf" "has buf (length n) [NUL]"
    using n(1) has_append [of buf 0 n "[NUL]"] by (auto simp: has_def)
  have "has ?b 0 (map upper_char n @ [NUL])"
    using l has_memcpy(1) [of buf "length n" "[NUL]" 0 "map upper_char n"] has_memcpy(2) [of 0 "map upper_char n" buf]
    by (simp add: has_append b)
  moreover have "NUL \<notin> set (map upper_char n)" using n(2) upper_char_NUL by (metis (no_types, lifting) imageE list.set_map)
  moreover have "has ?b (argv ! j) t" if "has buf (argv ! j) t" "length n < argv ! j" for j t
    using that by (simp add: b has_memcpy)
  ultimately have *: "has ?b (argv ! j) ((map upper_char n # ts) ! j @ [NUL]) \<and>
      NUL \<notin> set ((map upper_char n # ts) ! j) \<and> length ((map upper_char n # ts) ! j) = length ((n # ts) ! j)"
    if "j < Suc (length ts)" for j
    using that assms(2) toksD [OF assms(1), of j] toksD [OF assms(1), of 0]
    by (cases j) simp_all
  show ?thesis unfolding toks_ok_def
  proof (intro allI impI conjI)
    fix j assume "j < length (map upper_char n # ts)"
    then have j: "j < Suc (length ts)" by simp
    show "has ?b (argv ! j) ((map upper_char n # ts) ! j @ [NUL])"
      "NUL \<notin> set ((map upper_char n # ts) ! j)"
      "argv ! j + length ((map upper_char n # ts) ! j) < c"
      using * [OF j] toksD [OF assms(1), of j] j by simp_all
    show "argv ! 0 + length ((map upper_char n # ts) ! 0) < argv ! j" if "0 < j"
      using toksD(4) [OF assms(1), of j] j that by simp
  qed
qed

lemma toks_ok_argv_strings:
  assumes "toks_ok buf argv ts c" and "k \<le> length ts"
  shows "map (\<lambda>j. c_str buf (argv ! j)) [0..<k] = take k ts"
  by (rule nth_equalityI) (use assms c_str_has in \<open>auto simp: toks_ok_def\<close>)

text \<open>The end of a command, with or without a carriage return.\<close>

lemma parse_end_toks:
  assumes t: "toks_ok (p_buf s) (p_argv s) ts a" and "length ts = p_i s" and "p_argv s ! p_i s = a"
    and h: "has (p_buf s) a (w @ eol)" and eol: "eol = [LF] \<or> eol = [CR, LF]"
    and w: "NUL \<notin> set w" "CR \<notin> set w" and a0: "p_argv s ! 0 = 0" and "p_i s = 0 \<Longrightarrow> a = 0"
    and a1: "eol = [LF] \<Longrightarrow> w = [] \<Longrightarrow> a > 0 \<Longrightarrow> p_buf s ! (a - 1) \<noteq> CR"
    and n: "ts @ [w] = n # ps"
    and ty: "ty = (if p_i s = 0 \<and> p_type s = ATCMD_TYPE_NONE then ATCMD_TYPE_RUN else p_type s)"
    and argc: "argc = (if p_i s \<noteq> 0 \<and> (ty = ATCMD_TYPE_GET_PARAM \<or> ty = ATCMD_TYPE_SET) \<and> ps ! 0 \<noteq> []
      then 1 + p_i s else 1)"
  shows "parse_end (a + length w + length eol - 1) s = Parsed (case ty of
            ATCMD_TYPE_RUN \<Rightarrow> Some ATCMD_HANDLER_RUN
          | ATCMD_TYPE_GET_PARAM \<Rightarrow> (if argc = 1 then None else Some ATCMD_HANDLER_GET)
          | ATCMD_TYPE_GET \<Rightarrow> Some ATCMD_HANDLER_GET
          | ATCMD_TYPE_SET \<Rightarrow> (if argc = 1 then None else Some ATCMD_HANDLER_SET)
          | ATCMD_TYPE_SET_HELP \<Rightarrow> Some ATCMD_HANDLER_SET
          | ATCMD_TYPE_NONE \<Rightarrow> None) (take argc (map upper_char n # ps))"
proof -
  let ?c = "a + length w + length eol - 1" and ?k = "a + length w"
  have hw: "has (p_buf s) a w" "has (p_buf s) ?k eol" using h by (simp_all add: has_append)
  have prev: "(if ?c > 0 \<and> p_buf s ! (?c - 1) = CR then ?c - 1 else ?c) = ?k"
  proof (cases "eol = [LF]")
    case True
    have "p_buf s ! (?k - 1) \<noteq> CR" if "?k > 0"
    proof (cases "w = []")
      case False
      then have "p_buf s ! (a + (length w - 1)) = w ! (length w - 1)" using has_nth [OF hw(1)] by simp
      then show ?thesis using w(2) False by (metis Nat.add_diff_assoc One_nat_def Suc_leI diff_less length_greater_0_conv nth_mem zero_less_one)
    qed (use a1 True that in auto)
    then show ?thesis using True by auto
  next
    case False
    then have "p_buf s ! ?k = CR" using eol hw(2) by (auto simp: has_Cons)
    then show ?thesis using False eol by auto
  qed
  define buf1 where "buf1 = (p_buf s)[?k := NUL]"
  have kl: "?k < length (p_buf s)" using hw(2) eol by (auto simp: has_Cons)
  have "has buf1 a (w @ [NUL])"
    using hw(1) kl by (simp add: buf1_def has_append has_Cons has_update_after) (simp add: has_def)
  then have t1: "toks_ok buf1 (p_argv s) (ts @ [w]) (Suc ?k)"
    using assms(2,3) w(1) toks_ok_update [OF t, of ?k NUL]
    by (intro toks_ok_snoc [where c = a and a = a]) (simp_all add: buf1_def)
  then have t2: "toks_ok (strupr buf1 0) (p_argv s) (map upper_char n # ps) (Suc ?k)"
    using strupr_toks [OF _ a0] n by metis
  have len: "length ps = p_i s" using n assms(2) by (metis Suc_inject length_Cons length_append_singleton)
  have "c_str buf1 (p_argv s ! 1) = ps ! 0" if "p_i s \<noteq> 0"
  proof -
    have "has buf1 (p_argv s ! 1) ((n # ps) ! 1 @ [NUL]) \<and> NUL \<notin> set ((n # ps) ! 1)"
      using t1 that len unfolding n toks_ok_def by (metis One_nat_def Suc_less_eq gr0I length_Cons)
    then show ?thesis using c_str_has by simp
  qed
  then have ac: "(if p_i s \<noteq> 0 \<and> (ty = ATCMD_TYPE_GET_PARAM \<or> ty = ATCMD_TYPE_SET) \<and>
      length (c_str buf1 (p_argv s ! 1)) > 0 then 1 + p_i s else 1) = argc"
    by (auto simp: argc)
  have "argc \<le> length (map upper_char n # ps)" using len by (auto simp: argc)
  from toks_ok_argv_strings [OF t2 this]
  show ?thesis unfolding parse_end_def Let_def prev ty [symmetric] buf1_def [symmetric] ac a0 by simp
qed

subsection \<open>Whole commands\<close>

lemma parse_loop_keep:
  assumes "c < length (p_buf s)" and "p_buf s ! c \<noteq> LF" and "p_buf s ! c \<noteq> NUL" and "parse_char c s = s"
  shows "parse_loop c s = parse_loop (Suc c) s"
  using assms by (subst parse_loop.simps) (simp add: Let_def)

lemma parse_loop_cut:
  assumes "c < length (p_buf s)" and "p_buf s ! c \<noteq> LF" and "parse_char c s = s1" and "p_buf s1 ! c = NUL"
  shows "parse_loop c s = (if Suc (p_i s1) \<ge> ATCMD_MSG_PARAM_MAX + 1 then Parsed None []
    else parse_loop (Suc c) (s1\<lparr>p_i := Suc (p_i s1), p_argv := (p_argv s1)[Suc (p_i s1) := Suc c]\<rparr>))"
  using assms by (subst parse_loop.simps) (simp add: Let_def)

definition eol_ok :: "string \<Rightarrow> bool" where
  "eol_ok e \<longleftrightarrow> e = [LF] \<or> e = [CR, LF]"

lemma parse_eol:
  assumes "has (p_buf s) k e" and "eol_ok e"
  shows "parse_loop k s = parse_end (k + length e - 1) s"
proof (cases "e = [LF]")
  case True
  then show ?thesis using assms by (subst parse_loop.simps) (simp add: has_Cons)
next
  case False
  then have e: "e = [CR, LF]" using assms by (simp add: eol_ok_def)
  then have h: "k < length (p_buf s)" "p_buf s ! k = CR" "Suc k < length (p_buf s)" "p_buf s ! Suc k = LF"
    using assms by (simp_all add: has_Cons)
  then have "parse_loop k s = parse_loop (Suc k) s" by (intro parse_loop_keep) (simp_all add: parse_char_def)
  then show ?thesis using h e by (subst (asm) parse_loop.simps [of "Suc k"]) simp
qed

text \<open>Text that neither ends the command nor cuts it, in a state where the separators have no effect.\<close>

definition text_char :: "char \<Rightarrow> bool" where
  "text_char c \<longleftrightarrow> c \<noteq> NUL \<and> c \<noteq> CR \<and> c \<noteq> LF"

lemma plain_text: "list_all plain t \<Longrightarrow> list_all text_char t"
  by (auto simp: list_all_iff plain_def text_char_def)

lemma param_text: "list_all param_char t \<Longrightarrow> list_all text_char t"
  by (auto simp: list_all_iff param_char_def plain_def text_char_def)

lemma text_no_eol: "list_all text_char t \<Longrightarrow> NUL \<notin> set t \<and> CR \<notin> set t"
  by (auto simp: list_all_iff text_char_def)

lemma scan_text:
  assumes "has (p_buf s) c t" and "list_all text_char t"
    and "p_type s = ATCMD_TYPE_GET_PARAM \<or> p_type s = ATCMD_TYPE_SET_HELP" and "0 < p_i s"
  shows "parse_loop c s = parse_loop (c + length t) s"
  using assms(1,2)
proof (induction t arbitrary: c)
  case (Cons x t)
  then have x: "c < length (p_buf s)" "p_buf s ! c = x" "has (p_buf s) (Suc c) t" "text_char x"
    by (auto simp: has_Cons)
  then have "parse_char c s = s" using assms(3,4) by (auto simp: parse_char_def text_char_def)
  then have "parse_loop c s = parse_loop (Suc c) s"
    using x by (intro parse_loop_keep) (auto simp: text_char_def)
  then show ?case using Cons x by simp
qed simp

text \<open>The parameters of a set command, separated by commas.\<close>

fun join_params :: "string list \<Rightarrow> string" where
  "join_params [] = []"
| "join_params [p] = p"
| "join_params (p # q # ps) = p @ '','' @ join_params (q # ps)"

text \<open>
  The state in front of the next token: the earlier tokens are cut off, and a NUL stands directly
  before it.
\<close>

definition at_token :: "parse_st \<Rightarrow> string list \<Rightarrow> nat \<Rightarrow> bool" where
  "at_token s ts c \<longleftrightarrow> toks_ok (p_buf s) (p_argv s) ts c \<and> length ts = p_i s \<and> p_argv s ! p_i s = c \<and>
     p_argv s ! 0 = 0 \<and> length (p_argv s) = 11 \<and> (0 < p_i s \<longrightarrow> 0 < c \<and> p_buf s ! (c - 1) = NUL) \<and>
     (p_i s = 0 \<longrightarrow> c = 0)"

lemma at_token_next:
  assumes "at_token s ts c" and "has (p_buf s) c t" and "NUL \<notin> set t" and "p_i s < 10"
    and "c + length t < length (p_buf s)"
  shows "at_token (s\<lparr>p_buf := (p_buf s)[c + length t := NUL], p_i := Suc (p_i s),
      p_argv := (p_argv s)[Suc (p_i s) := Suc (c + length t)], p_type := ty\<rparr>) (ts @ [t]) (Suc (c + length t))"
proof -
  let ?b = "(p_buf s)[c + length t := NUL]" and ?v = "(p_argv s)[Suc (p_i s) := Suc (c + length t)]"
  have a: "toks_ok (p_buf s) (p_argv s) ts c" "length ts = p_i s" "p_argv s ! p_i s = c" "p_argv s ! 0 = 0"
    "length (p_argv s) = 11" using assms(1) by (auto simp: at_token_def)
  have "toks_ok ?b ?v ts c" using a by (intro toks_ok_argv toks_ok_update) auto
  moreover have "has ?b c (t @ [NUL])"
    using assms(2,5) by (simp add: has_append has_Cons has_update_after) (simp add: has_def)
  ultimately have "toks_ok ?b ?v (ts @ [t]) (Suc (c + length t))"
    using a assms(3) by (intro toks_ok_snoc [where c = c and a = c]) simp_all
  then show ?thesis using a assms by (simp add: at_token_def)
qed

lemma parse_final:
  assumes a: "at_token s ts c" and h: "has (p_buf s) c (w @ e)" and e: "eol_ok e"
    and w: "list_all text_char w" and n: "ts @ [w] = n # ps"
    and ty: "ty = (if p_i s = 0 \<and> p_type s = ATCMD_TYPE_NONE then ATCMD_TYPE_RUN else p_type s)"
    and argc: "argc = (if p_i s \<noteq> 0 \<and> (ty = ATCMD_TYPE_GET_PARAM \<or> ty = ATCMD_TYPE_SET) \<and> ps ! 0 \<noteq> []
      then 1 + p_i s else 1)"
  shows "parse_loop (c + length w) s = Parsed (case ty of
            ATCMD_TYPE_RUN \<Rightarrow> Some ATCMD_HANDLER_RUN
          | ATCMD_TYPE_GET_PARAM \<Rightarrow> (if argc = 1 then None else Some ATCMD_HANDLER_GET)
          | ATCMD_TYPE_GET \<Rightarrow> Some ATCMD_HANDLER_GET
          | ATCMD_TYPE_SET \<Rightarrow> (if argc = 1 then None else Some ATCMD_HANDLER_SET)
          | ATCMD_TYPE_SET_HELP \<Rightarrow> Some ATCMD_HANDLER_SET
          | ATCMD_TYPE_NONE \<Rightarrow> None) (take argc (map upper_char n # ps))"
proof -
  have "parse_loop (c + length w) s = parse_end (c + length w + length e - 1) s"
    using h by (intro parse_eol e) (simp add: has_append)
  moreover have "parse_end (c + length w + length e - 1) s = Parsed (case ty of
            ATCMD_TYPE_RUN \<Rightarrow> Some ATCMD_HANDLER_RUN
          | ATCMD_TYPE_GET_PARAM \<Rightarrow> (if argc = 1 then None else Some ATCMD_HANDLER_GET)
          | ATCMD_TYPE_GET \<Rightarrow> Some ATCMD_HANDLER_GET
          | ATCMD_TYPE_SET \<Rightarrow> (if argc = 1 then None else Some ATCMD_HANDLER_SET)
          | ATCMD_TYPE_SET_HELP \<Rightarrow> Some ATCMD_HANDLER_SET
          | ATCMD_TYPE_NONE \<Rightarrow> None) (take argc (map upper_char n # ps))"
    by (rule parse_end_toks [OF _ _ _ h _ _ _ _ _ _ n ty argc])
      (use a e text_no_eol [OF w] in \<open>auto simp: at_token_def eol_ok_def\<close>)
  ultimately show ?thesis by simp
qed

lemma parse_params:
  assumes "at_token s ts c" and "p_type s = ATCMD_TYPE_SET" and "0 < p_i s"
    and "has (p_buf s) c (join_params (p # ps) @ e)" and "eol_ok e"
    and "list_all (list_all param_char) (p # ps)" and "ts = n # qs" and "hd (qs @ p # ps) \<noteq> []"
    and "length ts + length ps \<le> 10"
  shows "parse_loop c s = Parsed (Some ATCMD_HANDLER_SET) (map upper_char n # qs @ p # ps)"
  using assms
proof (induction ps arbitrary: s ts c p qs)
  case Nil
  have "has (p_buf s) c p" using Nil.prems(4) by (simp add: has_append)
  then have "parse_loop c s = parse_loop (c + length p) s" using Nil.prems by (intro scan_param) simp_all
  also have "\<dots> = Parsed (Some ATCMD_HANDLER_SET) (map upper_char n # qs @ [p])"
  proof -
    have 1: "has (p_buf s) c (p @ e)" "ts @ [p] = n # (qs @ [p])" using Nil.prems by simp_all
    have i: "p_i s = Suc (length qs)" using Nil.prems(1,7) by (simp add: at_token_def)
    have "(qs @ [p]) ! 0 \<noteq> []" using Nil.prems(8) by (simp add: hd_conv_nth)
    then show ?thesis
      using parse_final [OF Nil.prems(1) 1(1) Nil.prems(5) _ 1(2) refl refl] Nil.prems(2,6) param_text i by simp
  qed
  finally show ?case .
next
  case (Cons q ps)
  let ?k = "c + length p"
  have h: "has (p_buf s) c p" "?k < length (p_buf s)" "p_buf s ! ?k = CHR '',''"
    "has (p_buf s) (Suc ?k) (join_params (q # ps) @ e)"
    using Cons.prems(4) by (simp_all add: has_append has_Cons)
  let ?s1 = "s\<lparr>p_buf := (p_buf s)[?k := NUL]\<rparr>"
  let ?s2 = "?s1\<lparr>p_i := Suc (p_i s), p_argv := (p_argv s)[Suc (p_i s) := Suc ?k]\<rparr>"
  have pt: "list_all param_char p" "NUL \<notin> set p" using Cons.prems(6) param_text text_no_eol by auto
  have i: "p_i s < 10" "p_i s = length ts" using Cons.prems(1,9) by (auto simp: at_token_def)
  have "parse_loop c s = parse_loop ?k s" using h(1) pt Cons.prems by (intro scan_param) simp_all
  also have "\<dots> = parse_loop (Suc ?k) ?s2"
    using h(2,3) i Cons.prems(2) by (subst parse_loop_cut [of _ _ ?s1]) (simp_all add: parse_char_def ATCMD_MSG_PARAM_MAX_def)
  also have "\<dots> = Parsed (Some ATCMD_HANDLER_SET) (map upper_char n # (qs @ [p]) @ q # ps)"
  proof (rule Cons.IH)
    show "at_token ?s2 (ts @ [p]) (Suc ?k)"
      using at_token_next [OF Cons.prems(1) h(1) pt(2) i(1) h(2), of "p_type s"] by simp
    show "has (p_buf ?s2) (Suc ?k) (join_params (q # ps) @ e)" using h(4) by (simp add: has_update_before)
  qed (use Cons.prems in \<open>auto simp: append_eq_Cons_conv\<close>)
  finally show ?case by simp
qed

abbreviation parse_init :: "string \<Rightarrow> parse_st" where
  "parse_init cmd \<equiv> \<lparr>p_buf = cmd, p_argv = replicate 11 0, p_i = 0, p_type = ATCMD_TYPE_NONE\<rparr>"

lemma at_token_init: "at_token (parse_init cmd) [] 0"
  by (simp add: at_token_def toks_ok_def)

lemma has_self: "has (t @ r) 0 t"
  by (simp add: has_def)

text \<open>The state after the name and its first separator.\<close>

definition parse_one :: "string \<Rightarrow> nat \<Rightarrow> atcmd_type \<Rightarrow> parse_st" where
  "parse_one cmd k ty =
    \<lparr>p_buf = cmd[k := NUL], p_argv = (replicate 11 0)[1 := Suc k], p_i = 1, p_type = ty\<rparr>"

lemma parse_name:
  assumes "list_all plain name"
  shows "atcmd_parse (name @ r) = parse_loop (length name) (parse_init (name @ r))"
  unfolding atcmd_parse_def using scan_plain [of "parse_init (name @ r)" 0 name] assms
  by (simp add: has_self)

lemma parse_name_sep:
  assumes "list_all plain name" and "x = CHR ''='' \<and> ty = ATCMD_TYPE_SET \<or> x = CHR ''?'' \<and> ty = ATCMD_TYPE_GET"
  shows "atcmd_parse (name @ x # r) = parse_loop (Suc (length name)) (parse_one (name @ x # r) (length name) ty)"
    and "at_token (parse_one (name @ x # r) (length name) ty) [name] (Suc (length name))"
    and "has (p_buf (parse_one (name @ x # r) (length name) ty)) (Suc (length name)) r"
proof -
  let ?cmd = "name @ x # r" and ?k = "length name"
  have c: "parse_char ?k (parse_init ?cmd) = (parse_init ?cmd)\<lparr>p_buf := ?cmd[?k := NUL], p_type := ty\<rparr>"
    using assms(2) by (auto simp: parse_char_def)
  have "x \<noteq> LF" using assms(2) by auto
  then show "atcmd_parse ?cmd = parse_loop (Suc ?k) (parse_one ?cmd ?k ty)"
    unfolding parse_name [OF assms(1)]
    by (subst parse_loop_cut [OF _ _ c]) (simp_all add: ATCMD_MSG_PARAM_MAX_def parse_one_def)
  have "NUL \<notin> set name" using assms(1) plain_text text_no_eol by blast
  then show "at_token (parse_one ?cmd ?k ty) [name] (Suc ?k)"
    using at_token_next [OF at_token_init [of ?cmd], of name ty] by (simp add: has_self parse_one_def)
  show "has (p_buf (parse_one ?cmd ?k ty)) (Suc ?k) r" by (simp add: has_def parse_one_def)
qed

text \<open>A further separator directly behind the first one keeps the token index at one.\<close>

lemma parse_second_sep:
  assumes "list_all plain name" and "at_token s [name] c" and "has (p_buf s) c (t @ x # r)" and "NUL \<notin> set t"
    and "parse_loop c s = parse_loop (c + length t) s"
    and "x = CHR ''='' \<and> p_type s = ATCMD_TYPE_GET \<and> ty = ATCMD_TYPE_GET_PARAM \<or>
      x = CHR ''?'' \<and> p_type s = ATCMD_TYPE_SET \<and> ty = ATCMD_TYPE_SET_HELP"
  shows "\<exists>s'. parse_loop c s = parse_loop (Suc (c + length t)) s' \<and> at_token s' [name] (Suc (c + length t)) \<and>
    has (p_buf s') (Suc (c + length t)) r \<and> p_type s' = ty"
proof -
  let ?k = "c + length t"
  let ?s1 = "s\<lparr>p_buf := (p_buf s)[?k := NUL], p_i := 0, p_type := ty\<rparr>"
  let ?s' = "?s1\<lparr>p_i := 1, p_argv := (p_argv s)[1 := Suc ?k]\<rparr>"
  have h: "has (p_buf s) c t" "?k < length (p_buf s)" "p_buf s ! ?k = x" "has (p_buf s) (Suc ?k) r"
    using assms(3) by (simp_all add: has_append has_Cons)
  have i: "p_i s = 1" using assms(2) by (simp add: at_token_def)
  have "parse_char ?k s = ?s1" using assms(6) h(3) i by (auto simp: parse_char_def)
  then have "parse_loop c s = parse_loop (Suc ?k) ?s'"
    using h(2,3) assms(5,6) by (subst assms(5), subst parse_loop_cut [of _ _ ?s1]) (auto simp: ATCMD_MSG_PARAM_MAX_def)
  moreover have "at_token ?s' [name] (Suc ?k)"
  proof -
    have "toks_ok ((p_buf s)[?k := NUL]) ((p_argv s)[1 := Suc ?k]) [name] (Suc ?k)"
      using assms(2) by (intro toks_ok_argv toks_ok_mono [OF toks_ok_update]) (auto simp: at_token_def)
    then show ?thesis using assms(2) h(2) i by (simp add: at_token_def)
  qed
  moreover have "has (p_buf ?s') (Suc ?k) r" using h(4) by (simp add: has_update_before)
  ultimately show ?thesis by (intro exI [of _ ?s']) simp
qed

lemma join_params_head: "join_params (p # ps) = p @ (if ps = [] then [] else CHR '','' # join_params ps)"
  by (cases ps) simp_all

lemma parse_set:
  assumes "list_all plain name" and "ps \<noteq> []" and "hd ps \<noteq> []" and "length ps \<le> 10"
    and "list_all (list_all param_char) ps" and "eol_ok e"
  shows "atcmd_parse (name @ ''='' @ join_params ps @ e @ r) =
    Parsed (Some ATCMD_HANDLER_SET) (map upper_char name # ps)"
proof -
  obtain p qs where ps: "ps = p # qs" using assms(2) by (cases ps) auto
  let ?cmd = "name @ CHR ''='' # (join_params (p # qs) @ e @ r)"
  let ?s = "parse_one ?cmd (length name) ATCMD_TYPE_SET"
  note one = parse_name_sep [of name "CHR ''=''" ATCMD_TYPE_SET "join_params (p # qs) @ e @ r"]
  have h: "has (p_buf ?s) (Suc (length name)) (join_params (p # qs) @ e)"
    using one(3) assms(1) by (simp add: has_append)
  have "parse_loop (Suc (length name)) ?s = Parsed (Some ATCMD_HANDLER_SET) (map upper_char name # [] @ p # qs)"
    by (rule parse_params [OF one(2) [OF assms(1)] _ _ h])
      (use assms in \<open>simp_all add: ps parse_one_def\<close>)
  then show ?thesis using one(1) assms(1) by (simp add: ps)
qed

subsection \<open>What the parser promises\<close>

text \<open>C30: A well-formed set command \<open>name=p1,...,pn\<close> with at most ten parameters, the first not
  empty, parses to exactly its parts: the handler kind is SET and the arguments are the name in
  upper case and the parameters unchanged, whichever line end the host uses and whatever follows it
  in the buffer.\<close>

theorem parse_set_roundtrip:
  assumes "list_all plain name" and "ps \<noteq> []" and "hd ps \<noteq> []" and "length ps \<le> 10"
    and "list_all (list_all param_char) ps" and "eol_ok e"
  shows "atcmd_parse (name @ ''='' @ join_params ps @ e @ r) =
    Parsed (Some ATCMD_HANDLER_SET) (map upper_char name # ps)"
  using assms by (rule parse_set)

theorem parse_set_roundtrip_witness:
  "atcmd_parse (''stype'' @ ''='' @ join_params [''1'', [], ''a=b''] @ [CR, LF] @ ''x'') =
    Parsed (Some ATCMD_HANDLER_SET) [map upper_char ''stype'', ''1'', [], ''a=b'']"
  by (rule parse_set_roundtrip) (simp_all add: plain_def param_char_def eol_ok_def)

text \<open>The other command forms: \<open>name\<close> runs, \<open>name?\<close> reads, \<open>name?=p\<close> reads with one parameter
  (commas and question marks in it stay), \<open>name=?\<close> asks the set handler for help without any
  parameter, and a set command with no parameter is rejected.\<close>

theorem parse_query_forms:
  assumes "list_all plain name" and "eol_ok e" and "list_all text_char p" and "p \<noteq> []"
  shows "atcmd_parse (name @ e @ r) = Parsed (Some ATCMD_HANDLER_RUN) [map upper_char name] \<and>
    atcmd_parse (name @ ''?'' @ e @ r) = Parsed (Some ATCMD_HANDLER_GET) [map upper_char name] \<and>
    atcmd_parse (name @ ''?='' @ p @ e @ r) = Parsed (Some ATCMD_HANDLER_GET) [map upper_char name, p] \<and>
    atcmd_parse (name @ ''=?'' @ e @ r) = Parsed (Some ATCMD_HANDLER_SET) [map upper_char name] \<and>
    atcmd_parse (name @ ''='' @ e @ r) = Parsed None [map upper_char name]"
proof (intro conjI)
  let ?n = "length name"
  show "atcmd_parse (name @ e @ r) = Parsed (Some ATCMD_HANDLER_RUN) [map upper_char name]"
    unfolding parse_name [OF assms(1)]
    using parse_final [OF at_token_init [of "name @ e @ r"] _ assms(2) plain_text [OF assms(1)], of name "[]" ATCMD_TYPE_RUN 1]
      has_self [of "name @ e" r] by simp
  note g = parse_name_sep [OF assms(1), of "CHR ''?''" ATCMD_TYPE_GET]
  note s = parse_name_sep [OF assms(1), of "CHR ''=''" ATCMD_TYPE_SET]
  have one: "p_i (parse_one cmd k ty) = 1" "p_type (parse_one cmd k ty) = ty" for cmd k ty
    by (simp_all add: parse_one_def)
  show "atcmd_parse (name @ ''?'' @ e @ r) = Parsed (Some ATCMD_HANDLER_GET) [map upper_char name]"
    using parse_final [OF g(2) [of "e @ r"] _ assms(2), of "[]" name "[[]]" ATCMD_TYPE_GET 1] g(1,3) [of "e @ r"]
    by (simp add: has_append one)
  show "atcmd_parse (name @ ''='' @ e @ r) = Parsed None [map upper_char name]"
    using parse_final [OF s(2) [of "e @ r"] _ assms(2), of "[]" name "[[]]" ATCMD_TYPE_SET 1] s(1,3) [of "e @ r"]
    by (simp add: has_append one)
  show "atcmd_parse (name @ ''=?'' @ e @ r) = Parsed (Some ATCMD_HANDLER_SET) [map upper_char name]"
  proof -
    obtain s' where s': "parse_loop (Suc ?n) (parse_one (name @ ''=?'' @ e @ r) ?n ATCMD_TYPE_SET) = parse_loop (Suc (Suc ?n)) s'"
      "at_token s' [name] (Suc (Suc ?n))" "has (p_buf s') (Suc (Suc ?n)) (e @ r)" "p_type s' = ATCMD_TYPE_SET_HELP"
      using parse_second_sep [OF assms(1) s(2) [of "''?'' @ e @ r"], of "[]" "CHR ''?''" "e @ r" ATCMD_TYPE_SET_HELP]
        s(3) [of "''?'' @ e @ r"] by (auto simp: one)
    have i: "p_i s' = 1" using s'(2) by (simp add: at_token_def)
    show ?thesis
      using parse_final [OF s'(2) _ assms(2), of "[]" name "[[]]" ATCMD_TYPE_SET_HELP 1] s' i s(1) [of "''?'' @ e @ r"]
      by (simp add: has_append)
  qed
  show "atcmd_parse (name @ ''?='' @ p @ e @ r) = Parsed (Some ATCMD_HANDLER_GET) [map upper_char name, p]"
  proof -
    obtain s' where s': "parse_loop (Suc ?n) (parse_one (name @ ''?='' @ p @ e @ r) ?n ATCMD_TYPE_GET) = parse_loop (Suc (Suc ?n)) s'"
      "at_token s' [name] (Suc (Suc ?n))" "has (p_buf s') (Suc (Suc ?n)) (p @ e @ r)" "p_type s' = ATCMD_TYPE_GET_PARAM"
      using parse_second_sep [OF assms(1) g(2) [of "''='' @ p @ e @ r"], of "[]" "CHR ''=''" "p @ e @ r" ATCMD_TYPE_GET_PARAM]
        g(3) [of "''='' @ p @ e @ r"] by (auto simp: one)
    have i: "p_i s' = 1" using s'(2) by (simp add: at_token_def)
    have "parse_loop (Suc (Suc ?n)) s' = parse_loop (Suc (Suc ?n) + length p) s'"
      using s' assms(3) i by (intro scan_text) (simp_all add: has_append)
    then show ?thesis
      using parse_final [OF s'(2) _ assms(2,3), of name "[p]" ATCMD_TYPE_GET_PARAM 2] s' i g(1) [of "''='' @ p @ e @ r"] assms(4)
      by (simp add: has_append)
  qed
qed

theorem parse_query_forms_witness:
  "atcmd_parse (''wscan'' @ [LF] @ []) = Parsed (Some ATCMD_HANDLER_RUN) [map upper_char ''wscan''] \<and>
   atcmd_parse (''wscan'' @ ''?='' @ ''a,b?'' @ [LF] @ []) = Parsed (Some ATCMD_HANDLER_GET) [map upper_char ''wscan'', ''a,b?'']"
  using parse_query_forms [of "''wscan''" "[LF]" "''a,b?''" "[]"] by (simp add: plain_def text_char_def eol_ok_def)

lemma parse_params_overflow:
  assumes "at_token s ts c" and "p_type s = ATCMD_TYPE_SET" and "0 < p_i s"
    and "has (p_buf s) c (join_params (p # ps))"
    and "list_all (list_all param_char) (p # ps)" and "10 < length ts + length ps" and "length ts \<le> 10"
  shows "parse_loop c s = Parsed None []"
  using assms
proof (induction ps arbitrary: s ts c p)
  case (Cons q ps)
  let ?k = "c + length p"
  have h: "has (p_buf s) c p" "?k < length (p_buf s)" "p_buf s ! ?k = CHR '',''"
    "has (p_buf s) (Suc ?k) (join_params (q # ps))"
    using Cons.prems(4) by (simp_all add: has_append has_Cons)
  let ?s1 = "s\<lparr>p_buf := (p_buf s)[?k := NUL]\<rparr>"
  let ?s2 = "?s1\<lparr>p_i := Suc (p_i s), p_argv := (p_argv s)[Suc (p_i s) := Suc ?k]\<rparr>"
  have pt: "list_all param_char p" "NUL \<notin> set p" using Cons.prems(5) param_text text_no_eol by auto
  have i: "p_i s = length ts" using Cons.prems(1) by (simp add: at_token_def)
  have "parse_loop c s = parse_loop ?k s" using h(1) pt Cons.prems by (intro scan_param) simp_all
  also have "\<dots> = (if Suc (p_i s) \<ge> ATCMD_MSG_PARAM_MAX + 1 then Parsed None [] else parse_loop (Suc ?k) ?s2)"
    using h(2,3) Cons.prems(2) by (subst parse_loop_cut [of _ _ ?s1]) (simp_all add: parse_char_def)
  also have "\<dots> = Parsed None []"
  proof (cases "length ts = 10")
    case False
    have "at_token ?s2 (ts @ [p]) (Suc ?k)"
      using at_token_next [OF Cons.prems(1) h(1) pt(2) _ h(2), of "p_type s"] i False Cons.prems(7) by simp
    moreover have "has (p_buf ?s2) (Suc ?k) (join_params (q # ps))" using h(4) by (simp add: has_update_before)
    ultimately have "parse_loop (Suc ?k) ?s2 = Parsed None []"
      using Cons.prems False by (intro Cons.IH [where ts = "ts @ [p]" and p = q]) auto
    then show ?thesis by simp
  qed (simp add: i ATCMD_MSG_PARAM_MAX_def)
  finally show ?case .
qed simp

text \<open>A set command with more than ten parameters is rejected as soon as the eleventh parameter
  would start, whatever the rest of the buffer holds: no argument slot beyond \<open>argv[10]\<close> is written.\<close>

theorem parse_too_many_params:
  assumes "list_all plain name" and "10 < length ps" and "list_all (list_all param_char) ps"
  shows "atcmd_parse (name @ ''='' @ join_params ps @ r) = Parsed None []"
proof -
  obtain p qs where ps: "ps = p # qs" using assms(2) by (cases ps) auto
  note one = parse_name_sep [OF assms(1), of "CHR ''=''" ATCMD_TYPE_SET "join_params (p # qs) @ r"]
  let ?s = "parse_one (name @ CHR ''='' # (join_params (p # qs) @ r)) (length name) ATCMD_TYPE_SET"
  have h: "has (p_buf ?s) (Suc (length name)) (join_params (p # qs))"
    using one(3) by (simp add: has_append)
  have "parse_loop (Suc (length name)) ?s = Parsed None []"
    by (rule parse_params_overflow [OF one(2) _ _ h]) (use assms in \<open>simp_all add: ps parse_one_def\<close>)
  then show ?thesis using one(1) by (simp add: ps)
qed

theorem parse_too_many_params_witness:
  "atcmd_parse (''x'' @ ''='' @ join_params (replicate 11 ''1'') @ [LF]) = Parsed None []"
  by (rule parse_too_many_params) (simp_all add: plain_def param_char_def eval_nat_numeral)

text \<open>A question mark inside the first parameter of a set command turns the command into the help
  request: the set handler is called with no parameter at all, so a parameter such as an SSID
  containing a question mark is lost.\<close>

theorem parse_question_mark_loses_parameters:
  assumes "list_all plain name" and "list_all param_char u" and "list_all text_char v" and "eol_ok e"
  shows "atcmd_parse (name @ ''='' @ u @ ''?'' @ v @ e @ r) = Parsed (Some ATCMD_HANDLER_SET) [map upper_char name]"
proof -
  let ?n = "length name"
  note one = parse_name_sep [OF assms(1), of "CHR ''=''" ATCMD_TYPE_SET "u @ CHR ''?'' # v @ e @ r"]
  let ?s = "parse_one (name @ CHR ''='' # u @ CHR ''?'' # v @ e @ r) ?n ATCMD_TYPE_SET"
  have t: "p_i ?s = 1" "p_type ?s = ATCMD_TYPE_SET" by (simp_all add: parse_one_def)
  have h: "has (p_buf ?s) (Suc ?n) (u @ CHR ''?'' # v @ e @ r)" using one(3) by simp
  have "NUL \<notin> set u" using assms(2) param_text text_no_eol by blast
  moreover have "parse_loop (Suc ?n) ?s = parse_loop (Suc ?n + length u) ?s"
    using h assms(2) t by (intro scan_param) (simp_all add: has_append)
  ultimately obtain s' where s': "parse_loop (Suc ?n) ?s = parse_loop (Suc (Suc ?n + length u)) s'"
    "at_token s' [name] (Suc (Suc ?n + length u))" "has (p_buf s') (Suc (Suc ?n + length u)) (v @ e @ r)"
    "p_type s' = ATCMD_TYPE_SET_HELP"
    using parse_second_sep [OF assms(1) one(2) h, of ATCMD_TYPE_SET_HELP] t by auto
  have i: "p_i s' = 1" using s'(2) by (simp add: at_token_def)
  have "parse_loop (Suc (Suc ?n + length u)) s' = parse_loop (Suc (Suc ?n + length u) + length v) s'"
    using s' assms(3) i by (intro scan_text) (simp_all add: has_append)
  then show ?thesis
    using parse_final [OF s'(2) _ assms(4,3), of name "[v]" ATCMD_TYPE_SET_HELP 1] s' i one(1)
    by (simp add: has_append)
qed

theorem parse_question_mark_loses_parameters_witness:
  "atcmd_parse (''WCONN'' @ ''='' @ [CHR 0x22] @ ''?'' @ [CHR 0x22] @ [LF] @ []) =
    Parsed (Some ATCMD_HANDLER_SET) [map upper_char ''WCONN'']"
  by (rule parse_question_mark_loses_parameters) (simp_all add: plain_def param_char_def text_char_def eol_ok_def)

end
