(* ===== verification/AtcmdState.thy ===== *)
theory AtcmdState
  imports AtcmdParam AtcmdParse
begin

text \<open>
  The shared state of \<open>sdk/apps/atcmd/atcmd_core.c\<close> in its default build (no \<open>CONFIG_ATCMD_PROMPT\<close>,
  \<open>_HISTORY\<close> or \<open>_LOWERCASE\<close>, with \<open>_PREFIX_CHECK\<close>): the configuration bits, the prompt flag, the
  registry, the data mode block and everything written to the host interface, with the operations
  on the configuration, the prompt, the transmitter, the message printer and the data mode switch.
\<close>

subsection \<open>State\<close>

text \<open>
  \<open>ATCMD_DATA_NONE\<close> and \<open>ATCMD_DATA_SSEND\<close> are the same enumeration value.
\<close>

datatype data_type = ATCMD_DATA_SSEND | ATCMD_DATA_FWBINDL | ATCMD_DATA_SFUSER | ATCMD_DATA_OTHER

abbreviation ATCMD_DATA_NONE :: data_type where "ATCMD_DATA_NONE \<equiv> ATCMD_DATA_SSEND"

record dm_params =
  data_type :: data_type
  dm_id :: int
  dm_len :: u32
  dm_timeout :: u32
  done_event :: bool
  exit_cmd :: "string option"
  passthrough :: bool
  sfuser_offset :: u32

record data_mode =
  params :: dm_params
  dm_task :: bool
  dm_enable :: bool
  dm_idle :: bool
  dm_cnt :: u32
  send_len :: u32
  send_done :: u32
  send_drop :: u32
  send_timeout :: u32
  last_send_time :: u32

text \<open>
  \<open>g_out\<close> is what the host interface has accepted.  \<open>g_stack\<close> is the content a 129-byte stack buffer
  happens to have, \<open>g_now\<close> the value \<open>atcmd_sys_now\<close> returns, \<open>g_notified\<close> the data mode task's pending
  notification, \<open>g_resets\<close> the system resets requested.  \<open>g_env\<close> is the rest of the program: the state of
  the command handlers and of the data consumers.
\<close>

record 'e atcmd =
  g_config :: u32
  g_prompt_enter :: bool
  g_registry :: registry
  g_data_mode :: data_mode
  g_out :: string
  g_stack :: string
  g_now :: u32
  g_notified :: bool
  g_resets :: nat
  g_env :: 'e

subsection \<open>Configuration\<close>

datatype atcmd_cfg = ATCMD_CFG_ECHO | ATCMD_CFG_LINEFEED | ATCMD_CFG_PROMPT

primrec cfg_bit :: "atcmd_cfg \<Rightarrow> nat" where
  "cfg_bit ATCMD_CFG_ECHO = 0"
| "cfg_bit ATCMD_CFG_LINEFEED = 1"
| "cfg_bit ATCMD_CFG_PROMPT = 2"

definition atcmd_config_enable :: "atcmd_cfg \<Rightarrow> 'e atcmd \<Rightarrow> 'e atcmd" where
  "atcmd_config_enable c s = s\<lparr>g_config := g_config s OR push_bit (cfg_bit c) 1\<rparr>"

definition atcmd_config_disable :: "atcmd_cfg \<Rightarrow> 'e atcmd \<Rightarrow> 'e atcmd" where
  "atcmd_config_disable c s = s\<lparr>g_config := g_config s AND NOT (push_bit (cfg_bit c) 1)\<rparr>"

definition atcmd_config_status :: "atcmd_cfg \<Rightarrow> 'e atcmd \<Rightarrow> bool" where
  "atcmd_config_status c s \<longleftrightarrow> g_config s AND push_bit (cfg_bit c) 1 \<noteq> 0"

lemma cfg_bit_less: "cfg_bit c < 32"
  by (cases c) simp_all

lemma config_status_bit: "atcmd_config_status c s \<longleftrightarrow> bit (g_config s) (cfg_bit c)"
  by (simp add: atcmd_config_status_def push_bit_eq_mult and_exp_eq_0_iff_not_bit)

lemma cfg_bit_inj: "cfg_bit c = cfg_bit d \<longleftrightarrow> c = d"
  by (cases c; cases d) simp_all

lemma config_get_set [simp]:
  "atcmd_config_status c (atcmd_config_enable d s) \<longleftrightarrow> c = d \<or> atcmd_config_status c s"
  "atcmd_config_status c (atcmd_config_disable d s) \<longleftrightarrow> c \<noteq> d \<and> atcmd_config_status c s"
  using cfg_bit_less [of c]
  by (auto simp: config_status_bit atcmd_config_enable_def atcmd_config_disable_def bit_simps cfg_bit_inj)

subsection \<open>Transmitting\<close>

text \<open>
  The loop of \<open>atcmd_transmit\<close> over the return values of the successive \<open>_hif_write\<close> calls: the result
  is the bytes those calls accepted, in order; \<open>None\<close> means that the loop has not ended after these
  calls, or that it left the buffer.
\<close>

fun transmit_loop :: "string \<Rightarrow> int \<Rightarrow> int list \<Rightarrow> string option" where
  "transmit_loop buf i rs =
    (if i \<ge> int (length buf) then Some []
     else if i < 0 then None
     else (case rs of
             [] \<Rightarrow> None
           | r # rs' \<Rightarrow> map_option ((@) (take (nat r) (drop (nat i) buf))) (transmit_loop buf (i + r) rs')))"

declare transmit_loop.simps [simp del]

definition atcmd_transmit :: "string \<Rightarrow> 'e atcmd \<Rightarrow> 'e atcmd" where
  "atcmd_transmit buf s = s\<lparr>g_out := g_out s @ buf\<rparr>"

text \<open>
  The message printer.  \<open>body\<close> is the formatted text; the three \<open>snprintf\<close> calls write at the running
  offset \<open>ret\<close> with the remaining size \<open>len - ret\<close>, which as \<open>size_t\<close> is huge when negative.  A write
  beyond the buffer, or a transmission from beyond it, is \<open>None\<close>.
\<close>

definition snprintf_at :: "string \<Rightarrow> int \<Rightarrow> int \<Rightarrow> string \<Rightarrow> string option" where
  "snprintf_at buf off n text =
    (let w = (if n = 0 then []
              else if n < 0 then text @ [NUL]
              else take (nat n - 1) text @ [NUL])
     in if w \<noteq> [] \<and> off + int (length w) > int (length buf) then None
        else Some (memcpy_at buf (nat off) w))"

definition atcmd_msg_vsnprint :: "string \<Rightarrow> int \<Rightarrow> string \<Rightarrow> (int \<times> string) option" where
  "atcmd_msg_vsnprint buf len body =
    (case snprintf_at buf 0 len ''+'' of
       None \<Rightarrow> None
     | Some b1 \<Rightarrow>
         (case snprintf_at b1 1 (len - 1) body of
            None \<Rightarrow> None
          | Some b2 \<Rightarrow>
              let ret = 1 + int (length body)
              in map_option (\<lambda>b3. (ret + 2, b3)) (snprintf_at b2 ret (len - ret) [CR, LF])))"

definition atcmd_msg_print :: "string \<Rightarrow> 'e atcmd \<Rightarrow> 'e atcmd option" where
  "atcmd_msg_print body s =
    (case atcmd_msg_vsnprint (g_stack s) (int (length (g_stack s)) - 1) body of
       None \<Rightarrow> None
     | Some (len, buf) \<Rightarrow>
         if len > int (length buf) then None else Some (atcmd_transmit (take (nat len) buf) s))"

subsection \<open>Prompt\<close>

definition atcmd_prompt_reset :: "nat \<Rightarrow> 'e atcmd \<Rightarrow> 'e atcmd" where
  "atcmd_prompt_reset cmd_len s =
    (if g_prompt_enter s then
       (let prompt_len = (if atcmd_config_status ATCMD_CFG_PROMPT s then 5 else 0)
        in atcmd_transmit ([CR] @ replicate (prompt_len + cmd_len) (CHR '' '') @ [CR]) s)
     else s)"

definition atcmd_prompt_enter :: "'e atcmd \<Rightarrow> 'e atcmd" where
  "atcmd_prompt_enter s = s\<lparr>g_prompt_enter := True\<rparr>"

definition atcmd_prompt_exit :: "'e atcmd \<Rightarrow> 'e atcmd" where
  "atcmd_prompt_exit s =
    (if g_prompt_enter s then
       (let s1 = s\<lparr>g_prompt_enter := False\<rparr>
        in if atcmd_config_status ATCMD_CFG_ECHO s1 then atcmd_transmit [CR, LF] s1 else s1)
     else s)"

subsection \<open>The data mode switch\<close>

definition atcmd_data_mode_init_params :: "data_type \<Rightarrow> dm_params" where
  "atcmd_data_mode_init_params t =
    \<lparr>data_type = t, dm_id = -1, dm_len = 0, dm_timeout = 0, done_event = False, exit_cmd = None,
     passthrough = False, sfuser_offset = 0\<rparr>"

definition EINVAL :: int where "EINVAL = 22"
definition EBUSY :: int where "EBUSY = 16"

definition atcmd_data_mode_enable :: "dm_params option \<Rightarrow> 'e atcmd \<Rightarrow> int \<times> 'e atcmd" where
  "atcmd_data_mode_enable p s =
    (case p of
       None \<Rightarrow> (- EINVAL, s)
     | Some ps \<Rightarrow>
         if dm_enable (g_data_mode s) then (- EBUSY, s)
         else if data_type ps = ATCMD_DATA_OTHER then (- EINVAL, s)
         else (0, s\<lparr>g_data_mode := (g_data_mode s)\<lparr>params := ps, dm_enable := True, dm_idle := False,
                 dm_cnt := 0, send_len := dm_len ps, send_done := 0, send_drop := 0,
                 send_timeout := dm_timeout ps + 100, last_send_time := 0\<rparr>\<rparr>))"

definition atcmd_data_mode_disable :: "'e atcmd \<Rightarrow> int \<times> 'e atcmd" where
  "atcmd_data_mode_disable s =
    (if \<not> dm_enable (g_data_mode s) then (-1, s)
     else (0, s\<lparr>g_data_mode := (g_data_mode s)\<lparr>params := atcmd_data_mode_init_params ATCMD_DATA_NONE,
             dm_enable := False, dm_idle := False, dm_cnt := 0, send_len := 0, send_done := 0,
             send_drop := 0\<rparr>\<rparr>))"

definition atcmd_data_mode_task_resume :: "'e atcmd \<Rightarrow> 'e atcmd" where
  "atcmd_data_mode_task_resume s =
    (if dm_task (g_data_mode s) then s\<lparr>g_notified := True\<rparr> else s)"

definition atcmd_data_mode_continue :: "'e atcmd \<Rightarrow> 'e atcmd" where
  "atcmd_data_mode_continue s =
    (if dm_enable (g_data_mode s) then
       atcmd_data_mode_task_resume
         (s\<lparr>g_data_mode := (g_data_mode s)\<lparr>dm_idle := False, last_send_time := g_now s\<rparr>\<rparr>)
     else s)"

subsection \<open>The result of a command\<close>

definition ATCMD_NO_RETURN :: int where "ATCMD_NO_RETURN = -1"
definition ATCMD_SUCCESS :: int where "ATCMD_SUCCESS = 0"
definition ATCMD_ERROR_INVAL :: int where "ATCMD_ERROR_INVAL = 1"
definition ATCMD_ERROR_NOTSUPP :: int where "ATCMD_ERROR_NOTSUPP = 7"

definition atcmd_transmit_return :: "string option \<Rightarrow> int \<Rightarrow> 'e atcmd \<Rightarrow> 'e atcmd option" where
  "atcmd_transmit_return cmd ret s =
    (if ret = ATCMD_SUCCESS then
       Some (atcmd_data_mode_continue (atcmd_transmit (''OK'' @ [CR, LF]) s))
     else
       (case (case cmd of None \<Rightarrow> Some s | Some c \<Rightarrow> atcmd_msg_print (c @ '':'' @ dec_int ret) s) of
          None \<Rightarrow> None
        | Some s1 \<Rightarrow> Some (atcmd_transmit (''ERROR'' @ [CR, LF]) s1)))"

subsection \<open>What the transmitter and the printer do\<close>

text \<open>
  \<open>hif_returns n rs\<close>: possible return values of \<open>_hif_write\<close> calls that are offered what is left of
  \<open>n\<close> bytes; zero when the interface is closed or full.
\<close>

fun hif_returns :: "nat \<Rightarrow> int list \<Rightarrow> bool" where
  "hif_returns n [] \<longleftrightarrow> True"
| "hif_returns n (r # rs) \<longleftrightarrow> 0 \<le> r \<and> r \<le> int n \<and> hif_returns (n - nat r) rs"

lemma hif_returns_sum: "hif_returns n rs \<Longrightarrow> 0 \<le> sum_list rs \<and> sum_list rs \<le> int n"
proof (induction rs arbitrary: n)
  case (Cons r rs)
  then have "0 \<le> sum_list rs" "sum_list rs \<le> int (n - nat r)" using Cons.IH [of "n - nat r"] by simp_all
  then show ?case using Cons.prems by (auto simp: of_nat_diff nat_le_iff)
qed simp

lemma transmit_from:
  assumes "hif_returns (length buf - i) rs" and "i \<le> length buf"
  shows "transmit_loop buf (int i) rs =
    (if int (length buf - i) \<le> sum_list rs then Some (drop i buf) else None)"
  using assms
proof (induction rs arbitrary: i)
  case Nil
  then show ?case by (subst transmit_loop.simps) auto
next
  case (Cons r rs)
  show ?case
  proof (cases "i = length buf")
    case True
    then show ?thesis using hif_returns_sum [OF Cons.prems(1)] by (subst transmit_loop.simps) simp
  next
    case False
    let ?j = "i + nat r"
    have r: "0 \<le> r" "r \<le> int (length buf - i)" "hif_returns (length buf - ?j) rs"
      using Cons.prems by (auto simp: diff_diff_left)
    then have j: "?j \<le> length buf" "int ?j = int i + r" "int (length buf - ?j) = int (length buf - i) - r"
      using Cons.prems(2) by linarith+
    have "take (nat r) (drop i buf) @ drop ?j buf = drop i buf"
      by (metis add.commute append_take_drop_id drop_drop)
    then show ?thesis using Cons.IH [OF r(3) j(1)] False Cons.prems(2) j
      by (subst transmit_loop.simps) auto
  qed
qed

lemma length_snprintf_at: "snprintf_at buf off n t = Some b \<Longrightarrow> 0 \<le> off \<Longrightarrow> length b = length buf"
  by (auto simp: snprintf_at_def Let_def split: if_splits)

lemma snprintf_at_fits:
  assumes "int (length t) < n" and "0 \<le> off" and "off + int (length t) < int (length buf)"
  shows "snprintf_at buf off n t = Some (memcpy_at buf (nat off) (t @ [NUL]))"
  using assms by (simp add: snprintf_at_def Let_def)

lemma memcpy_prefix:
  assumes "off = length p" and "off + length t \<le> length buf" and "take off buf = p"
  shows "take (off + length t) (memcpy_at buf off t) = p @ t"
  using assms by (simp add: memcpy_at_def)

lemma vsnprint_fits:
  assumes "length buf = 129" and "length body \<le> 124" and "n = 128 \<or> n = 129"
  shows "\<exists>b. atcmd_msg_vsnprint buf n body = Some (int (length body) + 3, b) \<and> length b = 129 \<and>
    take (length body + 3) b = ''+'' @ body @ [CR, LF]"
proof -
  let ?L = "length body"
  define b1 where "b1 = memcpy_at buf 0 (''+'' @ [NUL])"
  define b2 where "b2 = memcpy_at b1 1 (body @ [NUL])"
  define b3 where "b3 = memcpy_at b2 (1 + ?L) ([CR, LF] @ [NUL])"
  have l: "length b1 = 129" "length b2 = 129" "length b3 = 129"
    using assms by (simp_all add: b1_def b2_def b3_def)
  have "snprintf_at buf 0 n ''+'' = Some b1" using assms snprintf_at_fits [of "''+''" n 0 buf] by (auto simp: b1_def)
  moreover have "snprintf_at b1 1 (n - 1) body = Some b2"
    using assms l snprintf_at_fits [of body "n - 1" 1 b1] by (auto simp: b2_def)
  moreover have "snprintf_at b2 (1 + int ?L) (n - (1 + int ?L)) [CR, LF] = Some b3"
    using assms l snprintf_at_fits [of "[CR, LF]" "n - (1 + int ?L)" "1 + int ?L" b2]
    by (auto simp: b3_def nat_add_distrib)
  ultimately have "atcmd_msg_vsnprint buf n body = Some (int ?L + 3, b3)"
    by (simp add: atcmd_msg_vsnprint_def Let_def add.commute)
  moreover have "take (?L + 3) b3 = ''+'' @ body @ [CR, LF]"
    using assms by (simp add: b3_def b2_def b1_def memcpy_at_def take_Cons' numeral_3_eq_3)
  ultimately show ?thesis using l by blast
qed

lemma msg_print_fits:
  assumes "length (g_stack s) = 129" and "length body \<le> 124"
  shows "atcmd_msg_print body s = Some (atcmd_transmit (''+'' @ body @ [CR, LF]) s)"
  using vsnprint_fits [OF assms, of 128] assms by (auto simp: atcmd_msg_print_def nat_add_distrib)

lemma msg_print_faults:
  assumes "length (g_stack s) = 129" and "127 \<le> length body"
  shows "atcmd_msg_print body s = None"
proof -
  let ?g = "g_stack s" and ?L = "length body"
  have "snprintf_at b2 (1 + int ?L) (127 - int ?L) [CR, LF] = None" if "length b2 = 129" "127 < ?L" for b2
    using that by (simp add: snprintf_at_def)
  then show ?thesis using assms
    by (auto simp: atcmd_msg_print_def atcmd_msg_vsnprint_def Let_def diff_diff_eq length_snprintf_at
        split: option.splits)
qed

text \<open>\<open>atcmd_transmit\<close> hands over exactly its buffer, once and in order, however the writes of the host
  interface split it, and it returns as soon as the interface has accepted everything; while the
  accepted bytes do not add up (an interface that is closed or never drained keeps answering zero)
  it does not return.\<close>

theorem transmit_delivers_exactly:
  assumes "hif_returns (length buf) rs"
  shows "transmit_loop buf 0 rs = (if int (length buf) \<le> sum_list rs then Some buf else None)"
  using transmit_from [of buf 0 rs] assms by simp

theorem transmit_delivers_exactly_witness:
  "transmit_loop ''hello'' 0 [2, 0, 3] = Some ''hello'' \<and> transmit_loop ''hello'' 0 [2, 0, 0] = None"
  using transmit_delivers_exactly [of "''hello''" "[2, 0, 3]"] transmit_delivers_exactly [of "''hello''" "[2, 0, 0]"]
  by simp

text \<open>The message printer frames a text of at most 124 characters as \<open>+text\<close> and a line end; at 125
  characters the line feed is lost (a NUL goes out in its place), and from 127 characters on it
  transmits or writes beyond its 129-byte buffer.\<close>

theorem msg_print_limits:
  assumes "length (g_stack s) = 129"
  shows "(length body \<le> 124 \<longrightarrow> atcmd_msg_print body s = Some (atcmd_transmit (''+'' @ body @ [CR, LF]) s)) \<and>
    (length body = 125 \<longrightarrow> atcmd_msg_print body s = Some (atcmd_transmit (''+'' @ body @ [CR, NUL]) s)) \<and>
    (127 \<le> length body \<longrightarrow> atcmd_msg_print body s = None)"
proof (intro conjI impI)
  assume L: "length body = 125"
  let ?g = "g_stack s"
  define b1 where "b1 = memcpy_at ?g 0 (''+'' @ [NUL])"
  define b2 where "b2 = memcpy_at b1 1 (body @ [NUL])"
  define b3 where "b3 = memcpy_at b2 126 [CR, NUL]"
  have l: "length b1 = 129" "length b2 = 129" "length b3 = 129"
    using assms L by (simp_all add: b1_def b2_def b3_def)
  have "snprintf_at ?g 0 128 ''+'' = Some b1" using assms snprintf_at_fits [of "''+''" 128 0 ?g] by (simp add: b1_def)
  moreover have "snprintf_at b1 1 127 body = Some b2" using L l snprintf_at_fits [of body 127 1 b1] by (simp add: b2_def)
  moreover have "snprintf_at b2 126 2 [CR, LF] = Some b3" using l by (simp add: snprintf_at_def b3_def)
  ultimately have "atcmd_msg_vsnprint ?g 128 body = Some (128, b3)"
    using L by (simp add: atcmd_msg_vsnprint_def)
  moreover have "take 128 b3 = ''+'' @ body @ [CR, NUL]"
    using assms L by (simp add: b3_def b2_def b1_def memcpy_at_def take_Cons')
  ultimately show "atcmd_msg_print body s = Some (atcmd_transmit (''+'' @ body @ [CR, NUL]) s)"
    using assms l by (simp add: atcmd_msg_print_def)
qed (use assms msg_print_fits msg_print_faults in auto)

definition demo_atcmd :: "registry \<Rightarrow> 'e \<Rightarrow> 'e atcmd" where
  "demo_atcmd r e = \<lparr>g_config = 2, g_prompt_enter = True, g_registry = r,
     g_data_mode = \<lparr>params = atcmd_data_mode_init_params ATCMD_DATA_NONE, dm_task = True, dm_enable = False,
       dm_idle = False, dm_cnt = 0, send_len = 0, send_done = 0, send_drop = 0, send_timeout = 0,
       last_send_time = 0\<rparr>,
     g_out = [], g_stack = replicate 129 NUL, g_now = 1000, g_notified = False, g_resets = 0, g_env = e\<rparr>"

theorem msg_print_limits_witness:
  "atcmd_msg_print ''WIPADDR:1'' (demo_atcmd demo_registry ()) =
     Some (atcmd_transmit (''+'' @ ''WIPADDR:1'' @ [CR, LF]) (demo_atcmd demo_registry ())) \<and>
   atcmd_msg_print (replicate 127 (CHR ''x'')) (demo_atcmd demo_registry ()) = None"
  using msg_print_limits [of "demo_atcmd demo_registry ()" "''WIPADDR:1''"]
    msg_print_limits [of "demo_atcmd demo_registry ()" "replicate 127 (CHR ''x'')"]
  by (simp add: demo_atcmd_def)

end
