(* ===== verification/AtcmdCommand.thy ===== *)
theory AtcmdCommand
  imports AtcmdState
begin

text \<open>
  From received characters to command handlers: the key decoder, the line editor
  \<open>atcmd_receive_command\<close>, the command processor and the dispatcher \<open>atcmd_handler\<close> of
  \<open>sdk/apps/atcmd/atcmd_core.c\<close>.  The handlers belong to other modules: \<open>H a t argv\<close> is the call of
  handler \<open>t\<close> of the command registered at \<open>a\<close>, with its result and its effect on the shared state.
\<close>

type_synonym 'e handlers = "addr \<Rightarrow> atcmd_handler \<Rightarrow> string list \<Rightarrow> 'e atcmd \<Rightarrow> int \<times> 'e atcmd"

subsection \<open>Dispatching\<close>

text \<open>\<open>strncmp\<close> and \<open>strcmp\<close> on strings without NUL, compared with zero.\<close>

definition strncmp_eq :: "string \<Rightarrow> string \<Rightarrow> nat \<Rightarrow> bool" where
  "strncmp_eq a b n \<longleftrightarrow> take n a = take n b"

text \<open>The two nested loops of \<open>atcmd_handler\<close>; the result 0 says that no command matches.\<close>

partial_function (option) find_command :: "registry \<Rightarrow> string \<Rightarrow> addr \<Rightarrow> addr option" where
  "find_command r name a =
    (if a = 0 then Some 0
     else if g_prefix_size (groups r a) = 0 \<or>
             strncmp_eq name (g_prefix (groups r a)) (g_prefix_size (groups r a)) then
       Option.bind (list_search (\<lambda>x. drop (g_prefix_size (groups r a)) name = c_cmd (infos r x)) (heap r)
                      (lprev (heap r) (g_cmd_list (groups r a))))
         (\<lambda>x. if x \<noteq> 0 then Some x else find_command r name (lprev (heap r) a))
     else find_command r name (lprev (heap r) a))"

text \<open>\<open>buf\<close> is the line buffer, \<open>off\<close> the position of the command \<open>AT+...\<close> in it.\<close>

definition atcmd_handler :: "'e handlers \<Rightarrow> string \<Rightarrow> nat \<Rightarrow> 'e atcmd \<Rightarrow> 'e atcmd option" where
  "atcmd_handler H buf off s =
    (case atcmd_parse (drop (off + 3) buf) of
       ParseFault \<Rightarrow> None
     | Parsed ty argv \<Rightarrow>
         (case (if ty = None \<or> argv = [] then Some 0
                else find_command (g_registry s) (hd argv) (lprev (heap (g_registry s)) (group_head (g_registry s)))) of
            None \<Rightarrow> None
          | Some a \<Rightarrow>
              if a = 0 then atcmd_transmit_return None ATCMD_ERROR_INVAL s
              else
                (let (ret, s1) = (if c_handler (infos (g_registry s) a) (the ty)
                                  then H a (the ty) (tl argv) s else (ATCMD_ERROR_NOTSUPP, s))
                 in if ret = ATCMD_NO_RETURN then Some s1
                    else if ret = ATCMD_ERROR_NOTSUPP then atcmd_transmit_return None ret s1
                    else atcmd_transmit_return (Some (hd argv)) ret s1)))"

subsection \<open>Processing a line\<close>

fun strstr :: "string \<Rightarrow> string \<Rightarrow> nat option" where
  "strstr [] p = (if p = [] then Some 0 else None)"
| "strstr (c # cs) p = (if take (length p) (c # cs) = p then Some 0 else map_option Suc (strstr cs p))"

definition atcmd_compare_command :: "string \<Rightarrow> nat \<Rightarrow> string \<Rightarrow> nat \<Rightarrow> bool" where
  "atcmd_compare_command buf off upr n \<longleftrightarrow> take n (drop off buf) = take n upr"

definition ATCMD_MSG_LEN_MAX :: nat where "ATCMD_MSG_LEN_MAX = 128"

text \<open>
  A store into a buffer; a store at an index the buffer does not have is None, and so is then the
  routine it belongs to.
\<close>

definition store_at :: "string \<Rightarrow> nat \<Rightarrow> char \<Rightarrow> string option" where
  "store_at b i c = (if i < length b then Some (b[i := c]) else None)"

text \<open>
  A command \<open>AT+\<close> of the full 128 characters has its NUL written at index 129, behind the 129
  characters of the array; it falls into the padding of the structure, which is allocated with it.
  \<open>ATH\<close> has no effect without \<open>CONFIG_ATCMD_HISTORY\<close>.  The first part yields the buffer, the
  position of \<open>AT\<close> in it and the length from there.
\<close>

definition atcmd_process_command :: "'e handlers \<Rightarrow> string \<Rightarrow> nat \<Rightarrow> 'e atcmd \<Rightarrow> 'e atcmd option" where
  "atcmd_process_command H buf0 len0 s =
    (case (if len0 \<ge> 2 then
             Option.bind (store_at buf0 len0 NUL)
               (\<lambda>b. case strstr (c_str b 0) ''AT'' of
                      None \<Rightarrow> Some (b, 0, 0)
                    | Some p \<Rightarrow> map_option (\<lambda>b1. (b1, p, length (c_str b p))) (store_at b (p + length (c_str b p)) LF))
           else Some (buf0, 0, len0)) of
       None \<Rightarrow> None
     | Some (buf, off, len) \<Rightarrow>
        (let is = (\<lambda>name. atcmd_compare_command buf off name (length name))
     in if len = 2 then
          atcmd_transmit_return None (if is ''AT'' then ATCMD_SUCCESS else ATCMD_ERROR_INVAL) s
        else if len = 3 then
          (if is ''ATE'' then
             atcmd_transmit_return None ATCMD_SUCCESS
               (if atcmd_config_status ATCMD_CFG_ECHO s then atcmd_config_disable ATCMD_CFG_ECHO s
                else atcmd_config_enable ATCMD_CFG_ECHO s)
           else if is ''ATH'' then atcmd_transmit_return None ATCMD_SUCCESS s
           else if is ''ATZ'' then atcmd_transmit_return None ATCMD_ERROR_INVAL (s\<lparr>g_resets := Suc (g_resets s)\<rparr>)
           else atcmd_transmit_return None ATCMD_ERROR_INVAL s)
        else if len = 4 then
          (if is ''ATE0'' then
             atcmd_transmit_return None ATCMD_SUCCESS
               (if atcmd_config_status ATCMD_CFG_ECHO s then atcmd_config_disable ATCMD_CFG_ECHO s else s)
           else if is ''ATE1'' then
             atcmd_transmit_return None ATCMD_SUCCESS
               (if atcmd_config_status ATCMD_CFG_ECHO s then s else atcmd_config_enable ATCMD_CFG_ECHO s)
           else if is ''ATH0'' \<or> is ''ATH1'' then atcmd_transmit_return None ATCMD_SUCCESS s
           else atcmd_transmit_return None ATCMD_ERROR_INVAL s)
        else if len < 2 \<or> len > ATCMD_MSG_LEN_MAX then Some s
        else if is ''AT+'' then Option.bind (store_at buf (off + len + 1) NUL) (\<lambda>b. atcmd_handler H b off s)
        else atcmd_transmit_return None ATCMD_ERROR_INVAL s))"

subsection \<open>Keys\<close>

datatype atcmd_key =
    ATCMD_KEY_RESET | ATCMD_KEY_IGNORE | ATCMD_KEY_PRINT | ATCMD_KEY_BS | ATCMD_KEY_CR | ATCMD_KEY_LF
  | ATCMD_KEY_ESC | ATCMD_KEY_UP | ATCMD_KEY_DOWN | ATCMD_KEY_RIGHT | ATCMD_KEY_LEFT | ATCMD_KEY_HOME
  | ATCMD_KEY_INS | ATCMD_KEY_DEL | ATCMD_KEY_END | ATCMD_KEY_PGUP | ATCMD_KEY_PGDN

text \<open>
  The function-local statics: the escape decoder's, the line buffer (allocated on first use; 129
  characters and three bytes of padding), its fill count and the count of carriage returns.
\<close>

record editor =
  e_esc :: bool
  e_kbuf :: string
  e_kcnt :: nat
  e_alloc :: bool
  e_cnt :: nat
  e_cmd :: string
  e_cnt_CR :: nat

definition atcmd_key_code :: "char \<Rightarrow> editor \<Rightarrow> (atcmd_key \<times> editor) option" where
  "atcmd_key_code ch ed =
    (let c = of_char ch :: nat
     in if c < 0x20 \<or> c > 0x7E then
          Some (if c = 0x08 then (ATCMD_KEY_BS, ed)
           else if c = 0x0A then (ATCMD_KEY_LF, ed)
           else if c = 0x0D then (ATCMD_KEY_CR, ed)
           else if c = 0x1B then (ATCMD_KEY_ESC, ed\<lparr>e_esc := True, e_kcnt := 0\<rparr>)
           else (ATCMD_KEY_IGNORE, ed))
        else if e_esc ed then
          map_option (\<lambda>buf.
            let n = e_kcnt ed; ed1 = ed\<lparr>e_kbuf := buf, e_kcnt := Suc n\<rparr>
            in if n = 0 then
                (if ch = CHR ''['' then (ATCMD_KEY_IGNORE, ed1)
                 else (ATCMD_KEY_RESET, ed1\<lparr>e_esc := False\<rparr>))
              else if n = 1 then
                (if of_char (CHR ''A'') \<le> c \<and> c \<le> of_char (CHR ''D'') then
                   ([ATCMD_KEY_UP, ATCMD_KEY_DOWN, ATCMD_KEY_RIGHT, ATCMD_KEY_LEFT] ! (c - of_char (CHR ''A'')),
                    ed1\<lparr>e_esc := False\<rparr>)
                 else (ATCMD_KEY_IGNORE, ed1))
              else if n = 2 then
                (let d = of_char (buf ! 1) :: nat; ed2 = ed1\<lparr>e_esc := False\<rparr>
                 in if ch = CHR ''~'' \<and> of_char (CHR ''1'') \<le> d \<and> d \<le> of_char (CHR ''6'') then
                      ([ATCMD_KEY_HOME, ATCMD_KEY_INS, ATCMD_KEY_DEL, ATCMD_KEY_END, ATCMD_KEY_PGUP, ATCMD_KEY_PGDN]
                         ! (d - of_char (CHR ''1'')), ed2)
                    else (ATCMD_KEY_RESET, ed2))
              else (ATCMD_KEY_PRINT, ed1))
            (store_at (e_kbuf ed) (e_kcnt ed) ch)
        else Some (ATCMD_KEY_PRINT, ed))"

subsection \<open>The line editor\<close>

text \<open>
  One iteration of the loop of \<open>atcmd_receive_command\<close>; the flag says that the loop returns.
\<close>

definition receive_key :: "'e handlers \<Rightarrow> atcmd_key \<Rightarrow> editor \<Rightarrow> 'e atcmd \<Rightarrow> (bool \<times> editor \<times> 'e atcmd) option" where
  "receive_key H key ed s =
    (case key of
       ATCMD_KEY_BS \<Rightarrow>
         if e_cnt ed > 0 then
           Some (False, ed\<lparr>e_cnt := e_cnt ed - 1\<rparr>,
             if atcmd_config_status ATCMD_CFG_ECHO s then atcmd_transmit [CHR 0x08, CHR '' '', CHR 0x08] s else s)
         else Some (False, ed, s)
     | ATCMD_KEY_PRINT \<Rightarrow>
         if e_cnt ed < 2 \<and> e_cmd ed ! e_cnt ed \<noteq> ''AT'' ! e_cnt ed then
           Some (False, ed\<lparr>e_cnt := 0\<rparr>, atcmd_prompt_reset (e_cnt ed) s)
         else
           Some (False, if e_cnt ed < ATCMD_MSG_LEN_MAX then ed\<lparr>e_cnt := Suc (e_cnt ed)\<rparr> else ed,
             if atcmd_config_status ATCMD_CFG_ECHO s then atcmd_transmit [e_cmd ed ! e_cnt ed] s else s)
     | ATCMD_KEY_RESET \<Rightarrow> Some (False, ed\<lparr>e_cnt := 0\<rparr>, atcmd_prompt_enter s)
     | _ \<Rightarrow>
         if key = ATCMD_KEY_LF \<or> key = ATCMD_KEY_CR \<and> \<not> atcmd_config_status ATCMD_CFG_LINEFEED s then
           (if e_cnt ed = 0 then Some (False, ed, s)
            else map_option (\<lambda>s1. (True, ed\<lparr>e_cnt := 0\<rparr>, atcmd_prompt_enter s1))
                   (atcmd_process_command H (e_cmd ed) (e_cnt ed) (atcmd_prompt_exit s)))
         else Some (False, ed, s))"

definition receive_char :: "'e handlers \<Rightarrow> char \<Rightarrow> editor \<Rightarrow> 'e atcmd \<Rightarrow> (bool \<times> editor \<times> 'e atcmd) option" where
  "receive_char H c ed s =
    (case Option.bind (store_at (e_cmd ed) (e_cnt ed) c) (\<lambda>b. atcmd_key_code c (ed\<lparr>e_cmd := b\<rparr>)) of
       None \<Rightarrow> None
     | Some (key, ed1) \<Rightarrow>
        if atcmd_config_status ATCMD_CFG_LINEFEED s then
          (if key = ATCMD_KEY_CR then
             (let ed2 = ed1\<lparr>e_cnt_CR := Suc (e_cnt_CR ed1)\<rparr>
              in if e_cnt_CR ed2 = 10
                 then map_option (\<lambda>s1. (False, ed2, s1))
                        (atcmd_msg_print ''LINEFEED:0'' (atcmd_config_disable ATCMD_CFG_LINEFEED s))
                 else Some (False, ed2, s))
           else receive_key H key (ed1\<lparr>e_cnt_CR := 0\<rparr>) s)
        else receive_key H key ed1 s)"

fun receive_loop :: "'e handlers \<Rightarrow> string \<Rightarrow> nat \<Rightarrow> editor \<Rightarrow> 'e atcmd \<Rightarrow> (nat \<times> editor \<times> 'e atcmd) option" where
  "receive_loop H [] i ed s = Some (i, ed, s)"
| "receive_loop H (c # cs) i ed s =
    (case receive_char H c ed s of
       None \<Rightarrow> None
     | Some (ret, ed1, s1) \<Rightarrow>
         if ret then Some (Suc i, ed1, s1) else receive_loop H cs (Suc i) ed1 s1)"

text \<open>\<open>mem_ok\<close>: whether an allocation of the line buffer succeeds.\<close>

definition atcmd_receive_command ::
  "'e handlers \<Rightarrow> bool \<Rightarrow> string \<Rightarrow> editor \<Rightarrow> 'e atcmd \<Rightarrow> (nat \<times> editor \<times> 'e atcmd) option" where
  "atcmd_receive_command H mem_ok buf ed s =
    (if e_alloc ed then receive_loop H buf 0 ed s
     else if \<not> mem_ok then Some (0, ed, s)
     else receive_loop H buf 0 (ed\<lparr>e_alloc := True, e_cnt := 0, e_cmd := replicate 132 NUL\<rparr>) s)"

subsection \<open>The dispatcher finds the registered command\<close>

text \<open>The command the registry's lists hold for a name, the latest group and command first.\<close>

definition group_matches :: "registry \<Rightarrow> string \<Rightarrow> addr \<Rightarrow> bool" where
  "group_matches r name g \<longleftrightarrow> g_prefix_size (groups r g) = 0 \<or>
     strncmp_eq name (g_prefix (groups r g)) (g_prefix_size (groups r g))"

definition in_group :: "registry \<Rightarrow> (addr \<Rightarrow> addr list) \<Rightarrow> string \<Rightarrow> addr \<Rightarrow> addr" where
  "in_group r cs name g =
    (if group_matches r name g
     then find_addr (\<lambda>x. drop (g_prefix_size (groups r g)) name = c_cmd (infos r x)) (cs g) else 0)"

primrec lookup_command :: "registry \<Rightarrow> (addr \<Rightarrow> addr list) \<Rightarrow> string \<Rightarrow> addr list \<Rightarrow> addr" where
  "lookup_command r cs name [] = 0"
| "lookup_command r cs name (g # gs) =
    (if in_group r cs name g \<noteq> 0 then in_group r cs name g else lookup_command r cs name gs)"

lemma find_command_chain:
  assumes "chain (heap r) p gs" and "0 \<notin> set gs"
    and "\<And>g. g \<in> set gs \<Longrightarrow> linked (heap r) (g_cmd_list (groups r g)) (cs g)"
  shows "find_command r name (lprev (heap r) p) = Some (lookup_command r cs name gs)"
  using assms
proof (induction gs arbitrary: p)
  case Nil
  then show ?case by (simp add: find_command.simps)
next
  case (Cons g gs)
  let ?P = "\<lambda>x. drop (g_prefix_size (groups r g)) name = c_cmd (infos r x)"
  have "list_search ?P (heap r) (lprev (heap r) (g_cmd_list (groups r g))) = Some (find_addr ?P (cs g))"
    using search_chain [of "heap r" "g_cmd_list (groups r g)" "cs g" ?P] Cons.prems(3) [of g]
    by (simp add: linked_def find_addr_def)
  moreover have "find_command r name (lprev (heap r) g) = Some (lookup_command r cs name gs)"
    using Cons by simp
  ultimately show ?case using Cons.prems(1,2)
    by (subst find_command.simps) (auto simp: in_group_def group_matches_def)
qed

lemma find_command_eq:
  assumes "reg_ok r U gs cs"
  shows "find_command r name (lprev (heap r) (group_head r)) = Some (lookup_command r cs name gs)"
  using assms by (intro find_command_chain) (auto simp: reg_ok_def linked_def)

lemma lookup_command_in:
  assumes "lookup_command r cs name gs \<noteq> 0"
  shows "\<exists>g \<in> set gs. lookup_command r cs name gs \<in> set (cs g) \<and> group_matches r name g \<and>
    drop (g_prefix_size (groups r g)) name = c_cmd (infos r (lookup_command r cs name gs))"
  using assms
proof (induction gs)
  case (Cons g gs)
  then show ?case
    using find_addr_in [of "\<lambda>x. drop (g_prefix_size (groups r g)) name = c_cmd (infos r x)" "cs g"]
    by (auto simp: in_group_def split: if_splits)
qed simp

text \<open>The names the registry knows are short enough for the result message.\<close>

definition registry_ok :: "registry \<Rightarrow> bool" where
  "registry_ok r \<longleftrightarrow> (\<exists>U gs cs. reg_ok r U gs cs \<and>
     (\<forall>g \<in> set gs. \<forall>x \<in> set (cs g). g_prefix_size (groups r g) + length (c_cmd (infos r x)) \<le> 100))"

lemma find_command_total:
  assumes "registry_ok r"
  shows "\<exists>a. find_command r name (lprev (heap r) (group_head r)) = Some a \<and> (a \<noteq> 0 \<longrightarrow> length name \<le> 100)"
proof -
  obtain U gs cs where ok: "reg_ok r U gs cs"
    and short: "\<forall>g \<in> set gs. \<forall>x \<in> set (cs g). g_prefix_size (groups r g) + length (c_cmd (infos r x)) \<le> 100"
    using assms by (auto simp: registry_ok_def)
  have "length name \<le> 100" if nz: "lookup_command r cs name gs \<noteq> 0"
  proof -
    let ?a = "lookup_command r cs name gs"
    obtain g where g: "g \<in> set gs" "?a \<in> set (cs g)" "drop (g_prefix_size (groups r g)) name = c_cmd (infos r ?a)"
      using lookup_command_in [OF nz] by blast
    then have "length name - g_prefix_size (groups r g) = length (c_cmd (infos r ?a))" by (metis length_drop)
    then show ?thesis using short g(1,2) by fastforce
  qed
  then show ?thesis using find_command_eq [OF ok] by simp
qed

subsection \<open>Parsing and answering never fault\<close>

lemma parse_char_keeps: "k \<noteq> c \<Longrightarrow> p_buf (parse_char c s) ! k = p_buf s ! k"
  by (simp add: parse_char_def Let_def)

lemma parse_loop_no_fault:
  assumes "c \<le> k" and "k < length (p_buf s)" and "p_buf s ! k = LF"
  shows "parse_loop c s \<noteq> ParseFault"
  using assms
proof (induction c s rule: parse_loop.induct)
  case (1 c s)
  let ?s1 = "parse_char c s"
  have keep: "p_buf ?s1 ! k = LF" if "c \<noteq> k" using parse_char_keeps [of k c s] that "1.prems" by simp
  show ?case
  proof (cases "p_buf s ! c = LF")
    case True
    then show ?thesis using "1.prems" by (subst parse_loop.simps) (simp add: parse_end_def Let_def)
  next
    case False
    then have "c < k" using "1.prems" by (cases "c = k") auto
    then show ?thesis using "1.prems" "1.IH"(1) [OF _ False refl] "1.IH"(2) [OF _ False refl] False keep
      by (subst parse_loop.simps) (simp add: Let_def)
  qed
qed

lemma dec_nat_length: "n < 10 ^ k \<Longrightarrow> 0 < k \<Longrightarrow> length (dec_nat n) \<le> k"
proof (induction k arbitrary: n)
  case (Suc k)
  show ?case
  proof (cases "n < 10")
    case False
    then have "n div 10 < 10 ^ k" "0 < k" using Suc.prems by (auto intro: Suc.prems gr0I)
    then show ?thesis using Suc.IH [of "n div 10"] False by (subst dec_nat.simps) simp
  qed (simp add: dec_nat.simps)
qed simp

lemma dec_int_length:
  assumes "- (2 ^ 31) \<le> i" and "i < 2 ^ 31"
  shows "length (dec_int i) \<le> 11"
proof -
  have "length (dec_nat (nat \<bar>i\<bar>)) \<le> 10" using assms by (intro dec_nat_length) auto
  then show ?thesis using assms by (auto simp: dec_int_def)
qed

definition shared_ok :: "'e atcmd \<Rightarrow> bool" where
  "shared_ok s \<longleftrightarrow> length (g_stack s) = 129 \<and> registry_ok (g_registry s)"

text \<open>What the command handlers promise: results are 32-bit integers and the registry stays sound.\<close>

definition handlers_ok :: "'e handlers \<Rightarrow> bool" where
  "handlers_ok H \<longleftrightarrow> (\<forall>a t argv s. shared_ok s \<longrightarrow> shared_ok (snd (H a t argv s)) \<and>
     - (2 ^ 31) \<le> fst (H a t argv s) \<and> fst (H a t argv s) < 2 ^ 31)"

lemma transmit_ok [simp]: "shared_ok (atcmd_transmit b s) = shared_ok s"
  "shared_ok (atcmd_data_mode_continue s) = shared_ok s"
  "shared_ok (atcmd_config_enable c s) = shared_ok s" "shared_ok (atcmd_config_disable c s) = shared_ok s"
  "shared_ok (atcmd_prompt_enter s) = shared_ok s" "shared_ok (atcmd_prompt_exit s) = shared_ok s"
  "shared_ok (atcmd_prompt_reset n s) = shared_ok s" "shared_ok (s\<lparr>g_resets := k\<rparr>) = shared_ok s"
  by (auto simp: shared_ok_def atcmd_transmit_def atcmd_data_mode_continue_def atcmd_data_mode_task_resume_def
      atcmd_config_enable_def atcmd_config_disable_def atcmd_prompt_enter_def atcmd_prompt_exit_def
      atcmd_prompt_reset_def Let_def)

lemma msg_print_ok:
  "shared_ok s \<Longrightarrow> length body \<le> 124 \<Longrightarrow> \<exists>s'. atcmd_msg_print body s = Some s' \<and> shared_ok s'"
  using msg_print_fits [of s body] by (simp add: shared_ok_def) (simp add: atcmd_transmit_def)

lemma transmit_return_ok:
  assumes "shared_ok s" and "\<And>n. cmd = Some n \<Longrightarrow> length n \<le> 100" and "- (2 ^ 31) \<le> ret" and "ret < 2 ^ 31"
  shows "\<exists>s'. atcmd_transmit_return cmd ret s = Some s' \<and> shared_ok s'"
proof (cases cmd)
  case (Some n)
  have "length (n @ '':'' @ dec_int ret) \<le> 124" using assms(2) [OF Some] dec_int_length [OF assms(3,4)] by simp
  then show ?thesis using msg_print_ok [OF assms(1)] Some assms(1)
    by (fastforce simp: atcmd_transmit_return_def)
qed (use assms(1) in \<open>simp add: atcmd_transmit_return_def\<close>)

lemma handler_ok:
  assumes s: "shared_ok s" and H: "handlers_ok H" and k: "off + 3 \<le> k" "k < length buf" "buf ! k = LF"
  shows "\<exists>s'. atcmd_handler H buf off s = Some s' \<and> shared_ok s'"
proof -
  have "atcmd_parse (drop (off + 3) buf) \<noteq> ParseFault"
    unfolding atcmd_parse_def by (rule parse_loop_no_fault [of _ "k - (off + 3)"]) (use k in auto)
  then obtain ty argv where p: "atcmd_parse (drop (off + 3) buf) = Parsed ty argv"
    by (cases "atcmd_parse (drop (off + 3) buf)") auto
  obtain a where a: "(if ty = None \<or> argv = [] then Some 0
      else find_command (g_registry s) (hd argv) (lprev (heap (g_registry s)) (group_head (g_registry s)))) = Some a"
    "a \<noteq> 0 \<longrightarrow> length (hd argv) \<le> 100"
  proof (cases "ty = None \<or> argv = []")
    case False
    then have n: "\<not> (ty = None \<or> argv = [])" .
    have "registry_ok (g_registry s)" using s by (simp add: shared_ok_def)
    from find_command_total [OF this, of "hd argv"] show ?thesis using that unfolding if_not_P [OF n] by blast
  qed (use that in simp)
  show ?thesis
  proof (cases "a = 0")
    case True
    then show ?thesis using p a transmit_return_ok [OF s, of None ATCMD_ERROR_INVAL]
      by (simp add: atcmd_handler_def ATCMD_ERROR_INVAL_def)
  next
    case False
    obtain ret s1 where h: "(if c_handler (infos (g_registry s) a) (the ty)
        then H a (the ty) (tl argv) s else (ATCMD_ERROR_NOTSUPP, s)) = (ret, s1)" by fastforce
    have "shared_ok (snd (H a t v s)) \<and> - (2 ^ 31) \<le> fst (H a t v s) \<and> fst (H a t v s) < 2 ^ 31" for t v
      using H s by (simp add: handlers_ok_def)
    from this [of "the ty" "tl argv"] have "shared_ok s1 \<and> - (2 ^ 31) \<le> ret \<and> ret < 2 ^ 31"
      using s h by (auto simp: ATCMD_ERROR_NOTSUPP_def split: if_splits)
    then have r: "shared_ok s1" "- (2 ^ 31) \<le> ret" "ret < 2 ^ 31" by blast+
    have "\<exists>s'. atcmd_transmit_return c ret s1 = Some s' \<and> shared_ok s'" if "c = None \<or> c = Some (hd argv)" for c
      using that a False by (intro transmit_return_ok [OF r(1) _ r(2,3)]) auto
    then show ?thesis using p a False h r by (auto simp: atcmd_handler_def)
  qed
qed

subsection \<open>The editor's invariant\<close>

definition printable :: "char \<Rightarrow> bool" where
  "printable c \<longleftrightarrow> 0x20 \<le> (of_char c :: nat) \<and> (of_char c :: nat) \<le> 0x7E"

definition e_line :: "editor \<Rightarrow> string" where
  "e_line ed = take (e_cnt ed) (e_cmd ed)"

definition line_ok :: "string \<Rightarrow> bool" where
  "line_ok l \<longleftrightarrow> length l \<le> 128 \<and> list_all printable l \<and> take 2 l = take (length l) ''AT''"

definition keys_ok :: "editor \<Rightarrow> bool" where
  "keys_ok ed \<longleftrightarrow> length (e_kbuf ed) = 3 \<and> (e_esc ed \<longrightarrow> e_kcnt ed \<le> 2)"

text \<open>The line buffer has \<open>L\<close> bytes: 129 for the array alone, 132 with the structure's padding.\<close>

definition buffer_in :: "nat \<Rightarrow> editor \<Rightarrow> bool" where
  "buffer_in L ed \<longleftrightarrow> e_alloc ed \<and> length (e_cmd ed) = L \<and> e_cnt ed \<le> 128 \<and> line_ok (e_line ed)"

abbreviation buffer_ok :: "editor \<Rightarrow> bool" where
  "buffer_ok \<equiv> buffer_in 132"

lemma buffer_ok_def:
  "buffer_ok ed \<longleftrightarrow> e_alloc ed \<and> length (e_cmd ed) = 132 \<and> e_cnt ed \<le> 128 \<and> line_ok (e_line ed)"
  by (rule buffer_in_def)

definition editor_inv :: "editor \<Rightarrow> bool" where
  "editor_inv ed \<longleftrightarrow> keys_ok ed \<and> (e_alloc ed \<longrightarrow> buffer_ok ed)"

text \<open>The key decoder touches its own statics only, and decodes only printable characters as such.\<close>

lemma key_code_frame:
  assumes "atcmd_key_code c ed = Some (k, ed')"
  shows "e_cnt ed' = e_cnt ed" "e_cmd ed' = e_cmd ed" "e_alloc ed' = e_alloc ed" "e_cnt_CR ed' = e_cnt_CR ed"
  using assms by (auto simp: atcmd_key_code_def Let_def split: if_splits)

lemma key_code_keys:
  assumes "atcmd_key_code c ed = Some (k, ed')" and "keys_ok ed"
  shows "keys_ok ed'"
  using assms by (auto simp: atcmd_key_code_def keys_ok_def store_at_def Let_def split: if_splits)

lemma key_code_print:
  assumes "atcmd_key_code c ed = Some (ATCMD_KEY_PRINT, ed')"
  shows "printable c"
  using assms by (auto simp: atcmd_key_code_def printable_def Let_def split: if_splits)

lemma key_code_LF: "atcmd_key_code LF ed = Some (ATCMD_KEY_LF, ed)"
  and key_code_CR: "atcmd_key_code CR ed = Some (ATCMD_KEY_CR, ed)"
  by (simp_all add: atcmd_key_code_def)

text \<open>The escape decoder's store stays within its three bytes.\<close>

lemma key_code_total:
  assumes "keys_ok ed"
  shows "\<exists>k ed'. atcmd_key_code c ed = Some (k, ed')"
  using assms by (auto simp: atcmd_key_code_def keys_ok_def store_at_def Let_def)

lemma key_code_ends:
  assumes "atcmd_key_code c ed = Some (k, ed')" and "keys_ok ed"
  shows "k = ATCMD_KEY_LF \<longleftrightarrow> c = LF" "k = ATCMD_KEY_CR \<longleftrightarrow> c = CR"
proof -
  have c: "(of_char c :: nat) = 0x0A \<longleftrightarrow> c = LF" "(of_char c :: nat) = 0x0D \<longleftrightarrow> c = CR"
    using of_char_eq_iff [of c LF, where 'a = nat] of_char_eq_iff [of c CR, where 'a = nat] by simp_all
  have arrow: "[ATCMD_KEY_UP, ATCMD_KEY_DOWN, ATCMD_KEY_RIGHT, ATCMD_KEY_LEFT] ! i \<notin> {ATCMD_KEY_LF, ATCMD_KEY_CR}"
    if "i \<le> 3" for i
  proof -
    have "i = 0 \<or> i = 1 \<or> i = 2 \<or> i = 3" using that by presburger
    then show ?thesis by (auto simp: numeral_3_eq_3)
  qed
  have nav: "[ATCMD_KEY_HOME, ATCMD_KEY_INS, ATCMD_KEY_DEL, ATCMD_KEY_END, ATCMD_KEY_PGUP, ATCMD_KEY_PGDN] ! i
      \<notin> {ATCMD_KEY_LF, ATCMD_KEY_CR}" if "i \<le> 5" for i
  proof -
    have "i = 0 \<or> i = 1 \<or> i = 2 \<or> i = 3 \<or> i = 4 \<or> i = 5" using that by presburger
    then show ?thesis by (auto simp: numeral_3_eq_3 eval_nat_numeral)
  qed
  show "k = ATCMD_KEY_LF \<longleftrightarrow> c = LF" "k = ATCMD_KEY_CR \<longleftrightarrow> c = CR"
    using assms arrow nav unfolding c [symmetric]
    by (auto simp: atcmd_key_code_def keys_ok_def store_at_def Let_def split: if_splits)
qed

lemma line_store [simp]: "e_line (ed\<lparr>e_cmd := (e_cmd ed)[e_cnt ed := c]\<rparr>) = e_line ed"
  by (simp add: e_line_def)

lemma e_line_frame: "e_cnt ed' = e_cnt ed \<Longrightarrow> e_cmd ed' = e_cmd ed \<Longrightarrow> e_line ed' = e_line ed"
  by (simp add: e_line_def)

lemma e_line_snoc:
  assumes "e_cnt ed < length (e_cmd ed)"
  shows "e_line (ed\<lparr>e_cnt := Suc (e_cnt ed)\<rparr>) = e_line ed @ [e_cmd ed ! e_cnt ed]"
  using assms by (simp add: e_line_def take_Suc_conv_app_nth)

lemma length_e_line: "buffer_in L ed \<Longrightarrow> 128 < L \<Longrightarrow> length (e_line ed) = e_cnt ed"
  by (simp add: buffer_in_def e_line_def)

lemma line_ok_Nil [simp]: "line_ok []"
  by (simp add: line_ok_def)

lemma line_ok_butlast: "line_ok l \<Longrightarrow> line_ok (take n l)"
proof -
  assume l: "line_ok l"
  have "take 2 (take n l) = take n (take 2 l)" by (simp add: min.commute)
  also have "\<dots> = take (length (take n l)) ''AT''" using l by (simp add: line_ok_def min.commute)
  finally show "line_ok (take n l)"
    using l by (auto simp: line_ok_def list_all_iff dest: in_set_takeD)
qed

lemma line_ok_snoc:
  "line_ok (l @ [c]) \<longleftrightarrow> line_ok l \<and> length l < 128 \<and> printable c \<and> (length l < 2 \<longrightarrow> c = ''AT'' ! length l)"
proof -
  consider "l = []" | x where "l = [x]" | x y l' where "l = x # y # l'" by (cases l rule: remdups_adj.cases) auto
  then show ?thesis by cases (auto simp: line_ok_def)
qed

subsection \<open>Processing a line that starts with AT\<close>

lemma c_str_line:
  assumes "take (length w) b = w" and "length w < length b" and "NUL \<notin> set w"
  shows "c_str (b[length w := NUL]) 0 = w"
proof (rule c_str_has)
  show "has (b[length w := NUL]) 0 (w @ [NUL])"
    using assms by (simp add: has_append has_Cons) (simp add: has_def)
qed (use assms in simp)

lemma printable_no_NUL: "list_all printable w \<Longrightarrow> NUL \<notin> set w \<and> LF \<notin> set w \<and> CR \<notin> set w"
  by (auto simp: list_all_iff printable_def)

lemma line_ok_AT: "line_ok w \<Longrightarrow> 2 \<le> length w \<Longrightarrow> take 2 w = ''AT''"
  by (simp add: line_ok_def)

lemma process_setup:
  assumes "take (length w) b = w" and "128 < length b" and "line_ok w" and "2 \<le> length w"
  shows "(if length w \<ge> 2 then
            Option.bind (store_at b (length w) NUL)
              (\<lambda>b. case strstr (c_str b 0) ''AT'' of
                     None \<Rightarrow> Some (b, 0, 0)
                   | Some p \<Rightarrow> map_option (\<lambda>b1. (b1, p, length (c_str b p))) (store_at b (p + length (c_str b p)) LF))
          else Some (b, 0, length w)) = Some (b[length w := LF], 0, length w)"
    and "n \<le> length w \<Longrightarrow> atcmd_compare_command (b[length w := LF]) 0 u n \<longleftrightarrow> take n w = take n u"
proof -
  have "length w \<le> 128" "NUL \<notin> set w" using assms(3) printable_no_NUL by (auto simp: line_ok_def)
  then have c: "c_str (b[length w := NUL]) 0 = w" using assms by (intro c_str_line) simp_all
  have st: "store_at b (length w) NUL = Some (b[length w := NUL])"
    "store_at (b[length w := NUL]) (length w) LF = Some (b[length w := LF])"
    using \<open>length w \<le> 128\<close> assms(2) by (simp_all add: store_at_def)
  obtain x y r where w: "w = x # y # r" using assms(4) by (cases w rule: remdups_adj.cases) auto
  then have "strstr w ''AT'' = Some 0" using line_ok_AT [OF assms(3,4)] by simp
  then show "(if length w \<ge> 2 then
      Option.bind (store_at b (length w) NUL)
        (\<lambda>b. case strstr (c_str b 0) ''AT'' of
               None \<Rightarrow> Some (b, 0, 0)
             | Some p \<Rightarrow> map_option (\<lambda>b1. (b1, p, length (c_str b p))) (store_at b (p + length (c_str b p)) LF))
    else Some (b, 0, length w)) = Some (b[length w := LF], 0, length w)"
    using assms(4) st c by simp
  assume "n \<le> length w"
  then have "take n (b[length w := LF]) = take n w"
    using assms(1) by (metis take_update_cancel min.absorb1 take_take)
  then show "atcmd_compare_command (b[length w := LF]) 0 u n \<longleftrightarrow> take n w = take n u"
    by (simp add: atcmd_compare_command_def)
qed

text \<open>The answer of a line that is not an extended command.\<close>

definition basic_effect :: "string \<Rightarrow> 'e atcmd \<Rightarrow> int \<times> 'e atcmd" where
  "basic_effect w s =
    (if w = ''AT'' \<or> w = ''ATH'' \<or> w = ''ATH0'' \<or> w = ''ATH1'' then (0, s)
     else if w = ''ATE'' then
       (0, if atcmd_config_status ATCMD_CFG_ECHO s then atcmd_config_disable ATCMD_CFG_ECHO s
           else atcmd_config_enable ATCMD_CFG_ECHO s)
     else if w = ''ATE0'' then (0, if atcmd_config_status ATCMD_CFG_ECHO s then atcmd_config_disable ATCMD_CFG_ECHO s else s)
     else if w = ''ATE1'' then (0, if atcmd_config_status ATCMD_CFG_ECHO s then s else atcmd_config_enable ATCMD_CFG_ECHO s)
     else if w = ''ATZ'' then (1, s\<lparr>g_resets := Suc (g_resets s)\<rparr>)
     else (1, s))"

lemma process_basic:
  assumes b: "take (length w) b = w" "128 < length b" "line_ok w" "2 \<le> length w"
    and ext: "\<not> (5 \<le> length w \<and> take 3 w = ''AT+'')"
  shows "atcmd_process_command H b (length w) s =
    atcmd_transmit_return None (fst (basic_effect w s)) (snd (basic_effect w s))"
proof -
  have l: "length w \<le> 128" using b(3) by (simp add: line_ok_def)
  have is2: "length w = 2 \<Longrightarrow> w = ''AT''" using line_ok_AT [OF b(3,4)] by simp
  note u = atcmd_process_command_def process_setup(1) [OF b] option.case prod.case Let_def add_0
  have cmp: "length u \<le> length w \<Longrightarrow> atcmd_compare_command (b[length w := LF]) 0 u (length u) \<longleftrightarrow> take (length u) w = u" for u
    using process_setup(2) [OF b, of "length u" u] by simp
  have eq: "length u = length w \<Longrightarrow> atcmd_compare_command (b[length w := LF]) 0 u (length u) \<longleftrightarrow> w = u" for u
    using cmp [of u] by simp
  have ne: "length u \<noteq> length w \<Longrightarrow> (w = u) = False" for u by auto
  consider "length w = 2" | "length w = 3" | "length w = 4" | "5 \<le> length w" using b(4) by linarith
  then show ?thesis
  proof cases
    case 1
    then show ?thesis unfolding u using is2 eq [of "''AT''"]
      by (simp add: basic_effect_def ATCMD_SUCCESS_def)
  next
    case 2
    then show ?thesis unfolding u using eq [of "''ATE''"] eq [of "''ATH''"] eq [of "''ATZ''"]
        ne [of "''AT''"] ne [of "''ATE0''"] ne [of "''ATE1''"] ne [of "''ATH0''"] ne [of "''ATH1''"]
      by (simp add: basic_effect_def ATCMD_SUCCESS_def ATCMD_ERROR_INVAL_def)
  next
    case 3
    then show ?thesis unfolding u using eq [of "''ATE0''"] eq [of "''ATE1''"] eq [of "''ATH0''"] eq [of "''ATH1''"]
        ne [of "''AT''"] ne [of "''ATE''"] ne [of "''ATH''"] ne [of "''ATZ''"]
      by (simp add: basic_effect_def ATCMD_SUCCESS_def ATCMD_ERROR_INVAL_def)
  next
    case 4
    then have nes: "\<not> w = ''AT''" "\<not> w = ''ATE''" "\<not> w = ''ATH''" "\<not> w = ''ATZ''" "\<not> w = ''ATE0''"
      "\<not> w = ''ATE1''" "\<not> w = ''ATH0''" "\<not> w = ''ATH1''" by auto
    show ?thesis unfolding u using 4 cmp [of "''AT+''"] ext l
      by (simp add: numeral_3_eq_3 basic_effect_def nes ATCMD_MSG_LEN_MAX_def ATCMD_ERROR_INVAL_def)
  qed
qed

text \<open>An extended command goes to the dispatcher, if its NUL still fits into the buffer.\<close>

lemma process_long:
  assumes b: "take (length w) b = w" "128 < length b" "line_ok w" and w: "take 3 w = ''AT+''" "5 \<le> length w"
  shows "atcmd_process_command H b (length w) s =
    (if length w + 1 < length b then atcmd_handler H (b[length w := LF, length w + 1 := NUL]) 0 s else None)"
proof -
  have l: "length w \<le> 128" "2 \<le> length w" using b(3) w by (simp_all add: line_ok_def)
  have "atcmd_compare_command (b[length w := LF]) 0 ''AT+'' (length ''AT+'')"
    using process_setup(2) [OF b l(2), of "length ''AT+''" "''AT+''"] w by (simp add: numeral_3_eq_3)
  then show ?thesis
    unfolding atcmd_process_command_def process_setup(1) [OF b l(2)] option.case prod.case Let_def add_0
    using l w(2) by (simp add: ATCMD_MSG_LEN_MAX_def store_at_def)
qed

lemma process_extended:
  assumes b: "take (length w) b = w" "length b = 132" "line_ok w" and w: "w = ''AT+'' @ t" "2 \<le> length t"
  shows "atcmd_process_command H b (length w) s =
    atcmd_handler H (b[length w := LF, length w + 1 := NUL]) 0 s"
    and "\<exists>r. drop (0 + 3) (b[length w := LF, length w + 1 := NUL]) = t @ [LF] @ r"
proof -
  have l: "length w \<le> 128" "5 \<le> length w" "take 3 w = ''AT+''" using b(3) w by (simp_all add: line_ok_def)
  show "atcmd_process_command H b (length w) s = atcmd_handler H (b[length w := LF, length w + 1 := NUL]) 0 s"
    using process_long [OF b(1) _ b(3) l(3,2), of H s] b(2) l(1) by simp
  let ?b = "b[length w := LF, length w + 1 := NUL]"
  have "take (length w) ?b = w" using b(1) by simp
  moreover have "?b ! length w = LF" using b l by simp
  moreover have "length w < length ?b" using b l by simp
  ultimately have "?b = w @ LF # drop (Suc (length w)) ?b" by (metis id_take_nth_drop)
  then have "drop 3 ?b = drop 3 (w @ LF # drop (Suc (length w)) ?b)" by (rule arg_cong)
  also have "\<dots> = t @ [LF] @ drop (Suc (length w)) ?b" using w by (simp del: drop_append drop_drop list_update.simps)
  finally have "drop 3 ?b = t @ [LF] @ drop (Suc (length w)) ?b" .
  then show "\<exists>r. drop (0 + 3) ?b = t @ [LF] @ r" by auto
qed

text \<open>
  Any line of the editor is processed and answered; only the NUL of a command \<open>AT+\<close> of the full 128
  characters needs more than the 129 characters of the array.
\<close>

definition line_full :: "string \<Rightarrow> bool" where
  "line_full w \<longleftrightarrow> length w = 128 \<and> take 3 w = ''AT+''"

lemma process_exact:
  assumes b: "take (length w) b = w" "128 < length b" "line_ok w" and s: "shared_ok s" and H: "handlers_ok H"
  shows "case atcmd_process_command H b (length w) s of
      None \<Rightarrow> length b = 129 \<and> line_full w
    | Some s' \<Rightarrow> \<not> (length b = 129 \<and> line_full w) \<and> shared_ok s'"
proof -
  have l: "length w \<le> 128" using b(3) by (simp add: line_ok_def)
  consider "length w < 2" | "2 \<le> length w" "\<not> (5 \<le> length w \<and> take 3 w = ''AT+'')" | "5 \<le> length w" "take 3 w = ''AT+''"
    by linarith
  then show ?thesis
  proof cases
    case 1
    then show ?thesis using s by (auto simp: atcmd_process_command_def Let_def line_full_def)
  next
    case 2
    have "shared_ok (snd (basic_effect w s))" "fst (basic_effect w s) \<in> {0, 1}"
      using s by (auto simp: basic_effect_def)
    then obtain s' where "atcmd_transmit_return None (fst (basic_effect w s)) (snd (basic_effect w s)) = Some s'"
      "shared_ok s'"
      using transmit_return_ok [of "snd (basic_effect w s)" None "fst (basic_effect w s)"] by auto
    then show ?thesis using process_basic [OF b 2, of H s] 2 by (auto simp: line_full_def)
  next
    case 3
    show ?thesis
    proof (cases "length w + 1 < length b")
      case True
      obtain s' where "atcmd_handler H (b[length w := LF, length w + 1 := NUL]) 0 s = Some s'" "shared_ok s'"
        using handler_ok [OF s H, where k = "length w" and off = 0 and buf = "b[length w := LF, length w + 1 := NUL]"]
          True 3 by auto
      then show ?thesis using process_long [OF b 3(2,1), of H s] True by (auto simp: line_full_def)
    next
      case False
      then show ?thesis using process_long [OF b 3(2,1), of H s] l b(2) 3 by (auto simp: line_full_def)
    qed
  qed
qed

text \<open>A stored key keeps the editor's invariant.\<close>

lemma buffer_store:
  assumes "buffer_in L ed" and "128 < L" and "e_cnt ed' = e_cnt ed" and "e_cmd ed' = (e_cmd ed)[e_cnt ed := c]"
    and "e_alloc ed' = e_alloc ed"
  shows "buffer_in L ed'" "e_line ed' = e_line ed" "e_cmd ed' ! e_cnt ed' = c"
  using assms by (auto simp: buffer_in_def e_line_def)

lemma buffer_store_at:
  "buffer_in L ed \<Longrightarrow> 128 < L \<Longrightarrow> store_at (e_cmd ed) (e_cnt ed) c = Some ((e_cmd ed)[e_cnt ed := c])"
  by (simp add: buffer_in_def store_at_def)

lemma keys_ok_frame [simp]:
  "keys_ok (ed\<lparr>e_cnt := n\<rparr>) = keys_ok ed" "keys_ok (ed\<lparr>e_cnt_CR := n\<rparr>) = keys_ok ed"
  "keys_ok (ed\<lparr>e_cmd := b\<rparr>) = keys_ok ed"
  by (simp_all add: keys_ok_def)

lemma buffer_cnt_CR [simp]: "buffer_in L (ed\<lparr>e_cnt_CR := n\<rparr>) = buffer_in L ed"
  by (simp add: buffer_in_def e_line_def)

lemma buffer_clear: "buffer_in L ed \<Longrightarrow> buffer_in L (ed\<lparr>e_cnt := 0\<rparr>)"
  by (simp add: buffer_in_def e_line_def)

lemma buffer_back: "buffer_in L ed \<Longrightarrow> buffer_in L (ed\<lparr>e_cnt := e_cnt ed - 1\<rparr>)"
proof -
  assume b: "buffer_in L ed"
  have "e_line (ed\<lparr>e_cnt := e_cnt ed - 1\<rparr>) = take (e_cnt ed - 1) (e_line ed)" by (simp add: e_line_def)
  then show ?thesis using b line_ok_butlast by (auto simp: buffer_in_def)
qed

lemma buffer_type:
  assumes "buffer_in L ed" and "128 < L" and "printable (e_cmd ed ! e_cnt ed)" and "e_cnt ed < 128"
    and "e_cnt ed < 2 \<Longrightarrow> e_cmd ed ! e_cnt ed = ''AT'' ! e_cnt ed"
  shows "buffer_in L (ed\<lparr>e_cnt := Suc (e_cnt ed)\<rparr>)"
  using assms e_line_snoc [of ed] length_e_line [OF assms(1,2)]
  by (auto simp: buffer_in_def line_ok_snoc)

text \<open>Which characters end a line, and what one key, one character and a packet do to the editor.\<close>

definition ends_line :: "char \<Rightarrow> 'e atcmd \<Rightarrow> bool" where
  "ends_line c s \<longleftrightarrow> c = LF \<or> c = CR \<and> \<not> atcmd_config_status ATCMD_CFG_LINEFEED s"

lemma receive_key_exact:
  assumes b: "buffer_in L ed" "128 < L" and k: "keys_ok ed" and s: "shared_ok s" and H: "handlers_ok H"
    and p: "key = ATCMD_KEY_PRINT \<Longrightarrow> printable (e_cmd ed ! e_cnt ed)"
  shows "case receive_key H key ed s of
      None \<Rightarrow> L = 129 \<and> line_full (e_line ed) \<and>
        (key = ATCMD_KEY_LF \<or> key = ATCMD_KEY_CR \<and> \<not> atcmd_config_status ATCMD_CFG_LINEFEED s)
    | Some (r, ed', s') \<Rightarrow> \<not> (L = 129 \<and> line_full (e_line ed) \<and>
          (key = ATCMD_KEY_LF \<or> key = ATCMD_KEY_CR \<and> \<not> atcmd_config_status ATCMD_CFG_LINEFEED s)) \<and>
        buffer_in L ed' \<and> keys_ok ed' \<and> shared_ok s' \<and> (r \<longrightarrow> e_cnt ed' = 0)"
proof (cases "key = ATCMD_KEY_LF \<or> key = ATCMD_KEY_CR \<and> \<not> atcmd_config_status ATCMD_CFG_LINEFEED s")
  case True
  have n: "length (e_line ed) = e_cnt ed" by (rule length_e_line [OF b])
  have rk: "receive_key H key ed s = (if e_cnt ed = 0 then Some (False, ed, s)
      else map_option (\<lambda>s1. (True, ed\<lparr>e_cnt := 0\<rparr>, atcmd_prompt_enter s1))
             (atcmd_process_command H (e_cmd ed) (e_cnt ed) (atcmd_prompt_exit s)))"
    using True by (auto simp: receive_key_def)
  have pr: "case atcmd_process_command H (e_cmd ed) (length (e_line ed)) (atcmd_prompt_exit s) of
      None \<Rightarrow> length (e_cmd ed) = 129 \<and> line_full (e_line ed)
    | Some s' \<Rightarrow> \<not> (length (e_cmd ed) = 129 \<and> line_full (e_line ed)) \<and> shared_ok s'"
    by (rule process_exact [OF _ _ _ _ H])
      (use b s n in \<open>auto simp: buffer_in_def e_line_def\<close>)
  have L: "length (e_cmd ed) = L" using b(1) by (simp add: buffer_in_def)
  show ?thesis
  proof (cases "e_cnt ed = 0")
    case True
    then show ?thesis using rk b k s n by (auto simp: line_full_def)
  next
    case False
    then show ?thesis using rk pr True b k buffer_clear [OF b(1)] unfolding n L by (auto split: option.splits)
  qed
next
  case False
  show ?thesis
  proof (cases key)
    case ATCMD_KEY_PRINT
    then show ?thesis using p b k s buffer_clear buffer_type [OF b]
      by (auto simp: receive_key_def ATCMD_MSG_LEN_MAX_def)
  qed (use False b(1) k s buffer_clear [OF b(1)] buffer_back [OF b(1)] in \<open>auto simp: receive_key_def\<close>)
qed

lemma receive_char_exact:
  assumes b: "buffer_in L ed" "128 < L" and k: "keys_ok ed" and s: "shared_ok s" and H: "handlers_ok H"
  shows "case receive_char H c ed s of
      None \<Rightarrow> L = 129 \<and> line_full (e_line ed) \<and> ends_line c s
    | Some (r, ed', s') \<Rightarrow> \<not> (L = 129 \<and> line_full (e_line ed) \<and> ends_line c s) \<and>
        buffer_in L ed' \<and> keys_ok ed' \<and> shared_ok s' \<and> (r \<longrightarrow> e_cnt ed' = 0)"
proof -
  let ?ed = "ed\<lparr>e_cmd := (e_cmd ed)[e_cnt ed := c]\<rparr>"
  have k0: "keys_ok ?ed" using k by simp
  obtain key ed1 where kc: "atcmd_key_code c ?ed = Some (key, ed1)" using key_code_total [OF k0] by blast
  note f = key_code_frame [OF kc, simplified]
  have b1: "buffer_in L ed1" "e_line ed1 = e_line ed" "e_cmd ed1 ! e_cnt ed1 = c" using buffer_store [OF b f(1-3)] by auto
  have k1: "keys_ok ed1" by (rule key_code_keys [OF kc k0])
  note ends = key_code_ends [OF kc k0]
  have ln: "e_line (ed1\<lparr>e_cnt_CR := 0\<rparr>) = e_line ed1" by (simp add: e_line_def)
  have key: "case receive_key H key ed2 s of
      None \<Rightarrow> L = 129 \<and> line_full (e_line ed) \<and> ends_line c s
    | Some (r, ed', s') \<Rightarrow> \<not> (L = 129 \<and> line_full (e_line ed) \<and> ends_line c s) \<and>
        buffer_in L ed' \<and> keys_ok ed' \<and> shared_ok s' \<and> (r \<longrightarrow> e_cnt ed' = 0)"
    if e2: "ed2 = ed1 \<or> ed2 = ed1\<lparr>e_cnt_CR := 0\<rparr>" for ed2
  proof -
    have "printable c" if "key = ATCMD_KEY_PRINT" using key_code_print kc that by blast
    then have e: "buffer_in L ed2" "keys_ok ed2" "key = ATCMD_KEY_PRINT \<Longrightarrow> printable (e_cmd ed2 ! e_cnt ed2)"
      "e_line ed2 = e_line ed"
      using e2 b1 k1 ln by auto
    show ?thesis using receive_key_exact [where key = key, OF e(1) b(2) e(2) s H e(3)] unfolding e(4) ends ends_line_def by simp
  qed
  have "length ''LINEFEED:0'' \<le> 124" by simp
  then obtain s1 where s1: "atcmd_msg_print ''LINEFEED:0'' (atcmd_config_disable ATCMD_CFG_LINEFEED s) = Some s1" "shared_ok s1"
    using msg_print_ok [of "atcmd_config_disable ATCMD_CFG_LINEFEED s"] s by (metis transmit_ok(4))
  show ?thesis
  proof (cases "atcmd_config_status ATCMD_CFG_LINEFEED s \<and> key = ATCMD_KEY_CR")
    case True
    then have "\<not> ends_line c s" using ends by (simp add: ends_line_def)
    then show ?thesis using True kc buffer_store_at [OF b] b1 k1 s s1 by (auto simp: receive_char_def Let_def)
  next
    case False
    then have "receive_char H c ed s =
        receive_key H key (if atcmd_config_status ATCMD_CFG_LINEFEED s then ed1\<lparr>e_cnt_CR := 0\<rparr> else ed1) s"
      using kc buffer_store_at [OF b] by (simp add: receive_char_def)
    then show ?thesis using key by simp
  qed
qed

text \<open>
  A packet leads out of the buffer only where it ends a full command line and the buffer is the
  array alone.
\<close>

definition full_line_ended ::
  "'e handlers \<Rightarrow> string \<Rightarrow> nat \<Rightarrow> editor \<Rightarrow> 'e atcmd \<Rightarrow> bool" where
  "full_line_ended H buf i ed s \<longleftrightarrow> (\<exists>k < length buf. \<exists>ed1 s1.
     receive_loop H (take k buf) i ed s = Some (i + k, ed1, s1) \<and> line_full (e_line ed1) \<and> ends_line (buf ! k) s1)"

lemma full_line_Cons:
  "full_line_ended H (c # cs) i ed s \<longleftrightarrow> line_full (e_line ed) \<and> ends_line c s \<or>
     (\<exists>k < length cs. \<exists>ed1 s1. receive_loop H (c # take k cs) i ed s = Some (Suc i + k, ed1, s1) \<and>
        line_full (e_line ed1) \<and> ends_line (cs ! k) s1)"
  unfolding full_line_ended_def by (auto simp: less_Suc_eq_0_disj simp del: receive_loop.simps(2))

lemma receive_loop_exact:
  assumes "buffer_in L ed" and L: "128 < L" and "keys_ok ed" and "shared_ok s" and H: "handlers_ok H"
  shows "case receive_loop H buf i ed s of
      None \<Rightarrow> L = 129 \<and> full_line_ended H buf i ed s
    | Some (n, ed', s') \<Rightarrow> \<not> (L = 129 \<and> full_line_ended H buf i ed s) \<and> i \<le> n \<and> n \<le> i + length buf \<and>
        (buf \<noteq> [] \<longrightarrow> i < n) \<and> buffer_in L ed' \<and> keys_ok ed' \<and> shared_ok s'"
  using assms(1,3,4)
proof (induction buf arbitrary: i ed s)
  case Nil
  then show ?case by (simp add: full_line_ended_def)
next
  case (Cons c buf)
  note ch = receive_char_exact [OF Cons.prems(1) L Cons.prems(2,3) H, of c]
  show ?case
  proof (cases "receive_char H c ed s")
    case None
    then show ?thesis using ch by (simp add: full_line_Cons)
  next
    case (Some x)
    obtain r ed1 s1 where x: "x = (r, ed1, s1)" by (cases x)
    then have st: "\<not> (L = 129 \<and> line_full (e_line ed) \<and> ends_line c s)" "buffer_in L ed1" "keys_ok ed1" "shared_ok s1"
      "r \<longrightarrow> e_cnt ed1 = 0"
      using ch Some by auto
    show ?thesis
    proof (cases r)
      case True
      then have "\<not> line_full (e_line ed1)" using st(5) by (simp add: line_full_def e_line_def)
      then show ?thesis using st Some x True by (auto simp: full_line_Cons)
    next
      case False
      have "full_line_ended H (c # buf) i ed s \<longleftrightarrow> line_full (e_line ed) \<and> ends_line c s \<or> full_line_ended H buf (Suc i) ed1 s1"
        unfolding full_line_Cons by (simp add: full_line_ended_def Some x False)
      then show ?thesis using Cons.IH [OF st(2-4), of "Suc i"] st(1) Some x False
        by (auto split: option.splits)
    qed
  qed
qed

lemma receive_loop_ok:
  assumes "buffer_ok ed" and "keys_ok ed" and "shared_ok s" and H: "handlers_ok H"
  shows "\<exists>n ed' s'. receive_loop H buf i ed s = Some (n, ed', s') \<and> n \<le> i + length buf \<and> (buf \<noteq> [] \<longrightarrow> i < n) \<and>
    i \<le> n \<and> buffer_ok ed' \<and> keys_ok ed' \<and> shared_ok s'"
  using receive_loop_exact [OF assms(1) _ assms(2-4), of buf i] by (auto split: option.splits)

lemma buffer_init: "buffer_ok (ed\<lparr>e_alloc := True, e_cnt := 0, e_cmd := replicate 132 NUL\<rparr>)"
  by (simp add: buffer_ok_def e_line_def)

subsection \<open>Typing a line\<close>

text \<open>The editor holds the text \<open>l\<close> and no escape sequence is open.\<close>

definition editing :: "editor \<Rightarrow> string \<Rightarrow> bool" where
  "editing ed l \<longleftrightarrow> buffer_ok ed \<and> keys_ok ed \<and> \<not> e_esc ed \<and> e_line ed = l"

lemma printable_key:
  "printable c \<Longrightarrow> \<not> e_esc ed \<Longrightarrow> atcmd_key_code c ed = Some (ATCMD_KEY_PRINT, ed)"
  by (auto simp: atcmd_key_code_def printable_def Let_def)

lemma type_char:
  assumes ed: "editing ed l" and l: "line_ok (l @ [c])" and echo: "\<not> atcmd_config_status ATCMD_CFG_ECHO s"
  shows "\<exists>ed'. receive_char H c ed s = Some (False, ed', s) \<and> editing ed' (l @ [c]) \<and>
    (atcmd_config_status ATCMD_CFG_LINEFEED s \<longrightarrow> e_cnt_CR ed' = 0)"
proof -
  let ?ed1 = "ed\<lparr>e_cmd := (e_cmd ed)[e_cnt ed := c]\<rparr>"
  have c: "printable c" "length l < 128" "length l < 2 \<Longrightarrow> c = ''AT'' ! length l" using l by (simp_all add: line_ok_snoc)
  have b: "buffer_ok ed" "keys_ok ed" "\<not> e_esc ed" "e_line ed = l" using ed by (simp_all add: editing_def)
  then have n: "e_cnt ed = length l" using length_e_line [OF b(1)] by simp
  have b1: "buffer_ok ?ed1" "e_cmd ?ed1 ! e_cnt ?ed1 = c" using buffer_store [OF b(1) _, of ?ed1 c] by simp_all
  define ed2 where "ed2 = (if atcmd_config_status ATCMD_CFG_LINEFEED s then ?ed1\<lparr>e_cnt_CR := 0\<rparr> else ?ed1)"
  have e2: "buffer_ok ed2" "keys_ok ed2" "\<not> e_esc ed2" "e_line ed2 = l" "e_cnt ed2 = length l" "e_cmd ed2 ! e_cnt ed2 = c"
    "atcmd_config_status ATCMD_CFG_LINEFEED s \<longrightarrow> e_cnt_CR ed2 = 0"
    using b b1 n by (auto simp: ed2_def e_line_def)
  have "atcmd_key_code c ?ed1 = Some (ATCMD_KEY_PRINT, ?ed1)" using printable_key [OF c(1)] b by simp
  then have "receive_char H c ed s = receive_key H ATCMD_KEY_PRINT ed2 s"
    using buffer_store_at [OF b(1)] by (simp add: receive_char_def ed2_def)
  also have "\<dots> = Some (False, ed2\<lparr>e_cnt := Suc (e_cnt ed2)\<rparr>, s)"
  proof -
    have "\<not> (e_cnt ed2 < 2 \<and> e_cmd ed2 ! e_cnt ed2 \<noteq> ''AT'' ! e_cnt ed2)" using c(3) e2(5,6) by auto
    then show ?thesis using c(2) e2 echo by (simp add: receive_key_def ATCMD_MSG_LEN_MAX_def if_not_P)
  qed
  finally have "receive_char H c ed s = Some (False, ed2\<lparr>e_cnt := Suc (e_cnt ed2)\<rparr>, s)" .
  moreover have "editing (ed2\<lparr>e_cnt := Suc (e_cnt ed2)\<rparr>) (l @ [c])"
    using e2 c e_line_snoc [of ed2] buffer_type [OF e2(1)] by (auto simp: editing_def buffer_ok_def)
  ultimately show ?thesis using e2(7) by auto
qed

lemma type_text:
  assumes "editing ed l" and "line_ok (l @ w)" and "\<not> atcmd_config_status ATCMD_CFG_ECHO s"
  shows "\<exists>ed'. receive_loop H (w @ r) i ed s = receive_loop H r (i + length w) ed' s \<and> editing ed' (l @ w) \<and>
    (atcmd_config_status ATCMD_CFG_LINEFEED s \<and> w \<noteq> [] \<longrightarrow> e_cnt_CR ed' = 0)"
  using assms(1,2)
proof (induction w arbitrary: ed l i)
  case (Cons c w)
  have "line_ok (take (length l + 1) (l @ c # w))" using Cons.prems(2) by (rule line_ok_butlast)
  then obtain ed1 where e1: "receive_char H c ed s = Some (False, ed1, s)" "editing ed1 (l @ [c])"
    "atcmd_config_status ATCMD_CFG_LINEFEED s \<longrightarrow> e_cnt_CR ed1 = 0"
    using type_char [OF Cons.prems(1) _ assms(3)] by fastforce
  obtain ed2 where e2: "receive_loop H (w @ r) (Suc i) ed1 s = receive_loop H r (Suc i + length w) ed2 s"
    "editing ed2 ((l @ [c]) @ w)" "atcmd_config_status ATCMD_CFG_LINEFEED s \<and> w \<noteq> [] \<longrightarrow> e_cnt_CR ed2 = 0"
    using Cons.IH [OF e1(2), of "Suc i"] Cons.prems(2) by auto
  show ?case
  proof (cases "w = []")
    case True
    then show ?thesis using e1 by auto
  qed (use e1(1) e2 in auto)
qed auto

lemma type_LF:
  assumes ed: "editing ed w" and "w \<noteq> []"
  shows "\<exists>b ed'. receive_char H LF ed s =
      map_option (\<lambda>s1. (True, ed', atcmd_prompt_enter s1)) (atcmd_process_command H b (length w) (atcmd_prompt_exit s)) \<and>
    take (length w) b = w \<and> length b = 132 \<and> editing ed' []"
proof -
  let ?b = "(e_cmd ed)[e_cnt ed := LF]"
  let ?ed1 = "ed\<lparr>e_cmd := ?b\<rparr>"
  define ed2 where "ed2 = (if atcmd_config_status ATCMD_CFG_LINEFEED s then ?ed1\<lparr>e_cnt_CR := 0\<rparr> else ?ed1)"
  have b: "buffer_ok ed" "keys_ok ed" "\<not> e_esc ed" "e_line ed = w" using ed by (simp_all add: editing_def)
  then have n: "e_cnt ed = length w" using length_e_line [OF b(1)] by simp
  have b1: "buffer_ok ?ed1" using buffer_store [OF b(1) _, of ?ed1 LF] by simp
  have e2: "buffer_ok ed2" "keys_ok ed2" "\<not> e_esc ed2" "e_cnt ed2 = length w" "e_cmd ed2 = ?b"
    using b b1 n by (auto simp: ed2_def)
  have "receive_char H LF ed s = receive_key H ATCMD_KEY_LF ed2 s"
    using buffer_store_at [OF b(1)] by (simp add: receive_char_def key_code_LF ed2_def)
  also have "\<dots> = map_option (\<lambda>s1. (True, ed2\<lparr>e_cnt := 0\<rparr>, atcmd_prompt_enter s1))
      (atcmd_process_command H ?b (length w) (atcmd_prompt_exit s))"
    using assms(2) e2 by (simp add: receive_key_def)
  moreover have "take (length w) ?b = w" using b(4) n by (simp add: e_line_def)
  moreover have "length ?b = 132" using b(1) by (simp add: buffer_ok_def)
  moreover have "editing (ed2\<lparr>e_cnt := 0\<rparr>) []"
    using buffer_clear [OF e2(1)] e2 by (simp add: editing_def e_line_def)
  ultimately show ?thesis by metis
qed

lemma type_CR:
  assumes "editing ed w" and "atcmd_config_status ATCMD_CFG_LINEFEED s" and "e_cnt_CR ed = 0"
  shows "\<exists>ed'. receive_char H CR ed s = Some (False, ed', s) \<and> editing ed' w"
proof -
  let ?ed = "ed\<lparr>e_cmd := (e_cmd ed)[e_cnt ed := CR], e_cnt_CR := Suc 0\<rparr>"
  have "buffer_ok (ed\<lparr>e_cmd := (e_cmd ed)[e_cnt ed := CR]\<rparr>)"
    using buffer_store(1) [of 132 ed "ed\<lparr>e_cmd := (e_cmd ed)[e_cnt ed := CR]\<rparr>" CR] assms(1) by (simp add: editing_def)
  then have "editing ?ed w" using assms(1) by (auto simp: editing_def keys_ok_def buffer_ok_def e_line_def)
  moreover have "receive_char H CR ed s = Some (False, ?ed, s)"
    using assms buffer_store_at [of 132 ed] by (simp add: receive_char_def key_code_CR editing_def)
  ultimately show ?thesis by blast
qed

lemma receive_line:
  assumes ed: "editing ed []" and w: "line_ok w" "w \<noteq> []" and e: "eol_ok e"
    and echo: "\<not> atcmd_config_status ATCMD_CFG_ECHO s" and lf: "atcmd_config_status ATCMD_CFG_LINEFEED s"
  shows "\<exists>b ed'. atcmd_receive_command H m (w @ e @ r) ed s =
      map_option (\<lambda>s1. (length w + length e, ed', atcmd_prompt_enter s1))
        (atcmd_process_command H b (length w) (atcmd_prompt_exit s)) \<and>
    take (length w) b = w \<and> length b = 132 \<and> editing ed' []"
proof -
  obtain ed1 where e1: "receive_loop H (w @ e @ r) 0 ed s = receive_loop H (e @ r) (length w) ed1 s"
    "editing ed1 w" "e_cnt_CR ed1 = 0"
    using type_text [OF ed _ echo, of w H "e @ r" 0] w lf by auto
  have al: "e_alloc ed" using ed by (simp add: editing_def buffer_ok_def)
  obtain k ed2 where e2: "receive_loop H (e @ r) (length w) ed1 s = receive_loop H (LF # r) k ed2 s"
    "editing ed2 w" "Suc k = length w + length e"
  proof (cases "e = [LF]")
    case True
    then show ?thesis using that [of "length w" ed1] e1 by simp
  next
    case False
    then have ee: "e = [CR, LF]" using e by (simp add: eol_ok_def)
    obtain ed2 where "receive_char H CR ed1 s = Some (False, ed2, s)" "editing ed2 w"
      using type_CR [OF e1(2) lf e1(3)] by blast
    then show ?thesis using that [of "Suc (length w)" ed2] ee by simp
  qed
  obtain b ed3 where e3: "receive_char H LF ed2 s = map_option (\<lambda>s1. (True, ed3, atcmd_prompt_enter s1))
      (atcmd_process_command H b (length w) (atcmd_prompt_exit s))"
    "take (length w) b = w" "length b = 132" "editing ed3 []"
    using type_LF [OF e2(2) w(2)] by blast
  have "receive_loop H (LF # r) k ed2 s = map_option (\<lambda>s1. (Suc k, ed3, atcmd_prompt_enter s1))
      (atcmd_process_command H b (length w) (atcmd_prompt_exit s))"
    using e3(1) by (cases "atcmd_process_command H b (length w) (atcmd_prompt_exit s)") auto
  then show ?thesis using e1(1) e2(1,3) e3 al by (auto simp: atcmd_receive_command_def)
qed

end
