(* ===== verification/AtcmdServe.thy ===== *)
theory AtcmdServe
  imports AtcmdCommand
begin

text \<open>
  What the host sees: from a received line to the answer.  The lemmas compose the editor, the
  command processor, the parser and the dispatcher; the properties at the end are about the whole
  path from the received bytes to the transmitted ones.
\<close>

subsection \<open>The answer to a command\<close>

text \<open>\<open>answer name ret\<close>: what the host reads for a handler's result.\<close>

definition answer :: "string \<Rightarrow> int \<Rightarrow> string" where
  "answer name ret =
    (if ret = 0 then ''OK'' @ [CR, LF]
     else if ret = -1 then []
     else if ret = 7 then ''ERROR'' @ [CR, LF]
     else ''+'' @ (name @ '':'' @ dec_int ret) @ [CR, LF] @ ''ERROR'' @ [CR, LF])"

lemma transmit_frame [simp]:
  "g_out (atcmd_transmit t s) = g_out s @ t" "g_env (atcmd_transmit t s) = g_env s"
  "g_registry (atcmd_transmit t s) = g_registry s" "g_config (atcmd_transmit t s) = g_config s"
  "g_out (atcmd_data_mode_continue s) = g_out s" "g_env (atcmd_data_mode_continue s) = g_env s"
  "g_registry (atcmd_data_mode_continue s) = g_registry s" "g_config (atcmd_data_mode_continue s) = g_config s"
  "g_out (atcmd_prompt_enter s) = g_out s" "g_env (atcmd_prompt_enter s) = g_env s"
  "g_registry (atcmd_prompt_enter s) = g_registry s" "g_config (atcmd_prompt_enter s) = g_config s"
  "g_env (atcmd_prompt_exit s) = g_env s" "g_registry (atcmd_prompt_exit s) = g_registry s"
  "g_config (atcmd_prompt_exit s) = g_config s"
  by (simp_all add: atcmd_transmit_def atcmd_data_mode_continue_def atcmd_data_mode_task_resume_def
      atcmd_prompt_enter_def atcmd_prompt_exit_def Let_def)

lemma prompt_exit_out: "\<not> atcmd_config_status ATCMD_CFG_ECHO s \<Longrightarrow> g_out (atcmd_prompt_exit s) = g_out s"
  by (simp add: atcmd_prompt_exit_def Let_def atcmd_config_status_def)

text \<open>The state after the answer to the result \<open>ret\<close>.\<close>

definition answered :: "string \<Rightarrow> int \<Rightarrow> 'e atcmd \<Rightarrow> 'e atcmd" where
  "answered name ret s =
    (let s1 = atcmd_transmit (answer name ret) s in if ret = 0 then atcmd_data_mode_continue s1 else s1)"

lemma answered_frame [simp]:
  "g_out (answered name ret s) = g_out s @ answer name ret" "g_env (answered name ret s) = g_env s"
  "g_registry (answered name ret s) = g_registry s" "g_config (answered name ret s) = g_config s"
  by (simp_all add: answered_def Let_def)

lemma transmit_append: "atcmd_transmit b (atcmd_transmit a s) = atcmd_transmit (a @ b) s"
  by (simp add: atcmd_transmit_def)

lemma transmit_return_answer:
  assumes "shared_ok s" and "length n \<le> 100" and "- (2 ^ 31) \<le> ret" and "ret < 2 ^ 31" and "ret \<noteq> -1"
    and "c = (if ret = 0 \<or> ret \<noteq> 7 then Some n else None)"
  shows "atcmd_transmit_return c ret s = Some (answered n ret s)"
proof (cases "ret = 0 \<or> ret = 7")
  case False
  have "length (n @ '':'' @ dec_int ret) \<le> 124" using assms(2) dec_int_length [OF assms(3,4)] by simp
  then show ?thesis using msg_print_fits [of s "n @ '':'' @ dec_int ret"] assms False
    by (simp add: shared_ok_def atcmd_transmit_return_def ATCMD_SUCCESS_def answer_def answered_def transmit_append)
qed (use assms in \<open>auto simp: atcmd_transmit_return_def ATCMD_SUCCESS_def answer_def answered_def\<close>)

lemma transmit_return_plain:
  "\<exists>s'. atcmd_transmit_return None ret s = Some s' \<and>
    g_out s' = g_out s @ (if ret = 0 then ''OK'' @ [CR, LF] else ''ERROR'' @ [CR, LF]) \<and> g_env s' = g_env s \<and>
    g_registry s' = g_registry s \<and> g_config s' = g_config s"
  by (simp add: atcmd_transmit_return_def ATCMD_SUCCESS_def)

lemma handler_answers:
  assumes p: "atcmd_parse (drop (off + 3) buf) = Parsed (Some ty) (name # args)"
    and f: "find_command (g_registry s) name (lprev (heap (g_registry s)) (group_head (g_registry s))) = Some a"
    and a: "a \<noteq> 0" "length name \<le> 100"
    and call: "(if c_handler (infos (g_registry s) a) ty then H a ty args s else (7, s)) = (ret, s1)"
    and ok: "shared_ok s1" "- (2 ^ 31) \<le> ret" "ret < 2 ^ 31"
  shows "atcmd_handler H buf off s = Some (answered name ret s1)"
proof -
  have h: "atcmd_handler H buf off s =
      (if ret = -1 then Some s1 else if ret = 7 then atcmd_transmit_return None ret s1
       else atcmd_transmit_return (Some name) ret s1)"
    using p f a call
    by (cases "c_handler (infos (g_registry s) a) ty")
      (simp_all add: atcmd_handler_def ATCMD_NO_RETURN_def ATCMD_ERROR_NOTSUPP_def)
  show ?thesis
  proof (cases "ret = -1")
    case True
    then show ?thesis using h by (simp add: answered_def answer_def atcmd_transmit_def)
  next
    case False
    then show ?thesis using h transmit_return_answer [OF ok(1) a(2) ok(2,3) False refl] by (auto split: if_splits)
  qed
qed

text \<open>Receiving an extended command that parses to \<open>name # args\<close>.\<close>

lemma serve_exact:
  assumes ed: "editing ed []" and s: "shared_ok s" and H: "handlers_ok H"
    and w: "line_ok (''AT+'' @ t)" "2 \<le> length t" and e: "eol_ok e"
    and cfg: "\<not> atcmd_config_status ATCMD_CFG_ECHO s" "atcmd_config_status ATCMD_CFG_LINEFEED s"
    and p: "\<And>r. atcmd_parse (t @ [LF] @ r) = Parsed (Some ty) (name # args)"
    and ok: "reg_ok (g_registry s) U gs cs"
    and a: "a = lookup_command (g_registry s) cs name gs" "a \<noteq> 0"
    and call: "(if c_handler (infos (g_registry s) a) ty then H a ty args (atcmd_prompt_exit s)
      else (7, atcmd_prompt_exit s)) = (ret, s1)"
  shows "\<exists>ed'. atcmd_receive_command H m (''AT+'' @ t @ e @ r) ed s =
      Some (3 + length t + length e, ed', atcmd_prompt_enter (answered name ret s1)) \<and> editing ed' []"
proof -
  let ?w = "''AT+'' @ t" and ?s = "atcmd_prompt_exit s"
  obtain b ed' where r: "atcmd_receive_command H m (?w @ e @ r) ed s =
      map_option (\<lambda>s1. (length ?w + length e, ed', atcmd_prompt_enter s1)) (atcmd_process_command H b (length ?w) ?s)"
    and b: "take (length ?w) b = ?w" "length b = 132" and ed': "editing ed' []"
    using receive_line [OF ed w(1) _ e cfg, of H m r] by auto
  have s': "shared_ok ?s" "reg_ok (g_registry ?s) U gs cs" using s ok by simp_all
  let ?b = "b[length ?w := LF, length ?w + 1 := NUL]"
  obtain z where z: "drop (0 + 3) ?b = t @ [LF] @ z" using process_extended(2) [OF b w(1) refl w(2)] by blast
  have pr: "atcmd_process_command H b (length ?w) ?s = atcmd_handler H ?b 0 ?s"
    by (rule process_extended(1) [OF b w(1) refl w(2)])
  have pz: "atcmd_parse (drop (0 + 3) ?b) = Parsed (Some ty) (name # args)" unfolding z by (rule p)
  have f: "find_command (g_registry ?s) name (lprev (heap (g_registry ?s)) (group_head (g_registry ?s))) = Some a"
    using find_command_eq [OF s'(2), of name] a by simp
  have n: "length name \<le> 100"
    using find_command_total [of "g_registry ?s" name] f a(2) s'(1) by (auto simp: shared_ok_def)
  have hk: "shared_ok s1" "- (2 ^ 31) \<le> ret" "ret < 2 ^ 31"
  proof -
    have "shared_ok s1 \<and> - (2 ^ 31) \<le> ret \<and> ret < 2 ^ 31"
    proof (cases "c_handler (infos (g_registry s) a) ty")
      case True
      then have "H a ty args ?s = (ret, s1)" using call by simp
      then show ?thesis using H s'(1) unfolding handlers_ok_def by (metis fst_conv snd_conv)
    qed (use call s'(1) in auto)
    then show "shared_ok s1" "- (2 ^ 31) \<le> ret" "ret < 2 ^ 31" by simp_all
  qed
  have call': "(if c_handler (infos (g_registry ?s) a) ty then H a ty args ?s else (7, ?s)) = (ret, s1)"
    using call by simp
  have "atcmd_handler H ?b 0 ?s = Some (answered name ret s1)"
    by (rule handler_answers [where H = H and s = ?s and a = a and ty = ty and args = args, OF pz f a(2) n call' hk])
  then show ?thesis using r ed' unfolding pr by simp
qed

lemma serve_extended:
  assumes "editing ed []" and "shared_ok s" and "handlers_ok H"
    and "line_ok (''AT+'' @ t)" "2 \<le> length t" and "eol_ok e"
    and "\<not> atcmd_config_status ATCMD_CFG_ECHO s" "atcmd_config_status ATCMD_CFG_LINEFEED s"
    and "\<And>r. atcmd_parse (t @ [LF] @ r) = Parsed (Some ty) (name # args)"
    and "reg_ok (g_registry s) U gs cs"
    and "a = lookup_command (g_registry s) cs name gs" "a \<noteq> 0"
    and "(if c_handler (infos (g_registry s) a) ty then H a ty args (atcmd_prompt_exit s)
      else (7, atcmd_prompt_exit s)) = (ret, s1)"
  shows "\<exists>ed' s'. atcmd_receive_command H m (''AT+'' @ t @ e @ r) ed s = Some (3 + length t + length e, ed', s') \<and>
    editing ed' [] \<and> g_out s' = g_out s1 @ answer name ret \<and> g_env s' = g_env s1"
  using serve_exact [where m = m and r = r, OF assms] by auto

subsection \<open>Properties\<close>

text \<open>A registry with one group and the command \<open>VER\<close>, and handlers that store their arguments.\<close>

definition demo_served :: registry where
  "demo_served = demo_registry\<lparr>heap := atcmd_list_add 20 30 (atcmd_list_add 1 10 (heap demo_registry))\<rparr>"

lemma demo_served_ok: "reg_ok demo_served [10] [10] ((\<lambda>_. [])(10 := [30]))"
  by (simp add: reg_ok_def reg_nodes_def demo_served_def demo_registry_def linked_def
      list_add_links)

lemma demo_served_registry: "registry_ok demo_served"
  unfolding registry_ok_def
  by (intro exI [of _ "[10]"] exI [of _ "[10]"] exI [of _ "(\<lambda>_. [])(10 := [30])"] conjI demo_served_ok)
    (simp add: demo_served_def demo_registry_def)

definition demo_handlers :: "string list handlers" where
  "demo_handlers a t argv s = (if argv = [] then 2 else 0, s\<lparr>g_env := argv\<rparr>)"

lemma demo_handlers_ok: "handlers_ok demo_handlers"
  by (simp add: handlers_ok_def demo_handlers_def shared_ok_def)

definition demo_editor :: editor where
  "demo_editor = \<lparr>e_esc = False, e_kbuf = replicate 3 NUL, e_kcnt = 0, e_alloc = True, e_cnt = 0,
     e_cmd = replicate 132 NUL, e_cnt_CR = 0\<rparr>"

lemma demo_editing: "editing demo_editor []"
  by (simp add: editing_def demo_editor_def buffer_ok_def keys_ok_def e_line_def)

lemma demo_shared: "shared_ok (demo_atcmd demo_served e)"
  by (simp add: shared_ok_def demo_atcmd_def demo_served_registry)

lemma demo_config: "\<not> atcmd_config_status ATCMD_CFG_ECHO (demo_atcmd r e)"
  "atcmd_config_status ATCMD_CFG_LINEFEED (demo_atcmd r e)"
  by (simp_all add: atcmd_config_status_def demo_atcmd_def)

lemma demo_VER: "lookup_command demo_served ((\<lambda>_. [])(10 := [30])) ''VER'' [10] = 30"
  by (simp add: in_group_def group_matches_def find_addr_def demo_served_def demo_registry_def)

lemma serve_set:
  assumes "editing ed []" and "shared_ok s" and "handlers_ok H" and "eol_ok e"
    and "\<not> atcmd_config_status ATCMD_CFG_ECHO s" and "atcmd_config_status ATCMD_CFG_LINEFEED s"
    and "list_all plain name" and "ps \<noteq> []" and "hd ps \<noteq> []" and "length ps \<le> 10"
    and "list_all (list_all param_char) ps" and "name \<noteq> []"
    and "list_all printable (name @ ''='' @ join_params ps)" and "length (name @ ''='' @ join_params ps) \<le> 125"
    and "reg_ok (g_registry s) U gs cs" and "a = lookup_command (g_registry s) cs (map upper_char name) gs" and "a \<noteq> 0"
    and "(if c_handler (infos (g_registry s) a) ATCMD_HANDLER_SET
          then H a ATCMD_HANDLER_SET ps (atcmd_prompt_exit s) else (7, atcmd_prompt_exit s)) = (ret, s1)"
  shows "\<exists>ed' s'. atcmd_receive_command H m (''AT+'' @ (name @ ''='' @ join_params ps) @ e @ r) ed s =
      Some (3 + length (name @ ''='' @ join_params ps) + length e, ed', s') \<and>
    editing ed' [] \<and> g_out s' = g_out s1 @ answer (map upper_char name) ret \<and> g_env s' = g_env s1"
proof (rule serve_extended [OF assms(1-3) _ _ assms(4-6) _ assms(15-18)])
  show "line_ok (''AT+'' @ (name @ ''='' @ join_params ps))" using assms(13,14) by (simp add: line_ok_def printable_def)
  show "2 \<le> length (name @ ''='' @ join_params ps)" using assms(12) by (cases name) simp_all
  show "atcmd_parse ((name @ ''='' @ join_params ps) @ [LF] @ z) =
      Parsed (Some ATCMD_HANDLER_SET) (map upper_char name # ps)" for z
    using parse_set [OF assms(7-11), of "[LF]" z] by (simp add: eol_ok_def)
qed

text \<open>A set command of a registered name, received byte by byte in one packet, calls exactly the
  registered handler with exactly the parameters sent, and the host reads what the handler
  transmitted followed by the answer to its result: OK for success, nothing for a handler that
  answers itself, ERROR for an unsupported form, otherwise the name with the error code and ERROR.
  The rest of the packet is left unread and the editor is ready for the next line.\<close>

theorem serve_set_command:
  assumes "editing ed []" and "shared_ok s" and "handlers_ok H" and "eol_ok e"
    and "\<not> atcmd_config_status ATCMD_CFG_ECHO s" and "atcmd_config_status ATCMD_CFG_LINEFEED s"
    and "list_all plain name" and "ps \<noteq> []" and "hd ps \<noteq> []" and "length ps \<le> 10"
    and "list_all (list_all param_char) ps" and "name \<noteq> []"
    and "list_all printable (name @ ''='' @ join_params ps)" and "length (name @ ''='' @ join_params ps) \<le> 125"
    and "reg_ok (g_registry s) U gs cs" and "a = lookup_command (g_registry s) cs (map upper_char name) gs" and "a \<noteq> 0"
    and "(if c_handler (infos (g_registry s) a) ATCMD_HANDLER_SET
          then H a ATCMD_HANDLER_SET ps (atcmd_prompt_exit s) else (7, atcmd_prompt_exit s)) = (ret, s1)"
  shows "\<exists>ed' s'. atcmd_receive_command H m (''AT+'' @ (name @ ''='' @ join_params ps) @ e @ r) ed s =
      Some (3 + length (name @ ''='' @ join_params ps) + length e, ed', s') \<and>
    editing ed' [] \<and> g_out s' = g_out s1 @ answer (map upper_char name) ret \<and> g_env s' = g_env s1"
  by (rule serve_set [OF assms])

theorem serve_set_command_witness:
  "\<exists>ed' s'. atcmd_receive_command demo_handlers True (''AT+ver=1,a b'' @ [CR, LF]) demo_editor (demo_atcmd demo_served []) =
     Some (14, ed', s') \<and> editing ed' [] \<and> g_out s' = ''OK'' @ [CR, LF] \<and> g_env s' = [''1'', ''a b'']"
proof -
  let ?s = "demo_atcmd demo_served []"
  have up: "map upper_char ''ver'' = ''VER''" by code_simp
  have reg: "g_registry ?s = demo_served" by (simp add: demo_atcmd_def)
  let ?t = "''ver'' @ ''='' @ join_params [''1'', ''a b'']" and ?s1 = "(atcmd_prompt_exit ?s)\<lparr>g_env := [''1'', ''a b'']\<rparr>"
  have "\<exists>ed' s'. atcmd_receive_command demo_handlers True (''AT+'' @ ?t @ [CR, LF] @ []) demo_editor ?s =
      Some (3 + length ?t + length [CR, LF], ed', s') \<and>
    editing ed' [] \<and> g_out s' = g_out ?s1 @ answer (map upper_char ''ver'') 0 \<and> g_env s' = g_env ?s1"
  proof (rule serve_set_command [where U = "[10]" and gs = "[10]" and cs = "(\<lambda>_. [])(10 := [30])" and a = 30,
        OF demo_editing demo_shared demo_handlers_ok _ demo_config])
    show "reg_ok (g_registry ?s) [10] [10] ((\<lambda>_. [])(10 := [30]))" unfolding reg by (rule demo_served_ok)
    show "30 = lookup_command (g_registry ?s) ((\<lambda>_. [])(10 := [30])) (map upper_char ''ver'') [10]"
      unfolding reg up demo_VER by (rule refl)
    have "c_handler (infos demo_served 30) ATCMD_HANDLER_SET" by (simp add: demo_served_def demo_registry_def)
    then show "(if c_handler (infos (g_registry ?s) 30) ATCMD_HANDLER_SET
        then demo_handlers 30 ATCMD_HANDLER_SET [''1'', ''a b''] (atcmd_prompt_exit ?s) else (7, atcmd_prompt_exit ?s)) = (0, ?s1)"
      by (simp add: reg demo_handlers_def)
  qed (simp_all add: eol_ok_def plain_def param_char_def printable_def)
  moreover have "g_out ?s1 = []" using prompt_exit_out [OF demo_config(1), of demo_served "[]"] by (simp add: demo_atcmd_def)
  moreover have "g_env ?s1 = [''1'', ''a b'']" by simp
  ultimately show ?thesis by (simp add: answer_def)
qed

text \<open>
  The editor before a packet: the line buffer, once allocated, has at least the 129 bytes of the
  array, its first characters are a line, and an open escape sequence has room.
\<close>

definition line_editor_ok :: "editor \<Rightarrow> bool" where
  "line_editor_ok ed \<longleftrightarrow> keys_ok ed \<and>
     (e_alloc ed \<longrightarrow> 129 \<le> length (e_cmd ed) \<and> e_cnt ed \<le> 128 \<and> line_ok (e_line ed))"

text \<open>A packet ends a command line \<open>AT+\<close> of the full 128 characters.\<close>

definition ends_full_line :: "'e handlers \<Rightarrow> bool \<Rightarrow> string \<Rightarrow> editor \<Rightarrow> 'e atcmd \<Rightarrow> bool" where
  "ends_full_line H m buf ed s \<longleftrightarrow> (\<exists>k < length buf. \<exists>ed1 s1.
     atcmd_receive_command H m (take k buf) ed s = Some (k, ed1, s1) \<and>
     length (e_line ed1) = 128 \<and> take 3 (e_line ed1) = ''AT+'' \<and> ends_line (buf ! k) s1)"

text \<open>C22: The stores of the line editor, of its escape decoder and of the command processor stay
  within their buffers for whatever bytes arrive in whatever packets (escape sequences, control
  characters and overlong lines included), with one exception that is named exactly.  In a line buffer
  of the 129 bytes that \<open>atcmd_buf_t\<close> declares for \<open>cmd\<close>, some store falls outside, if and only if the
  packet ends a command line that starts with \<open>AT+\<close> and has the full 128 characters (the NUL written
  at index 129); in any larger buffer, such as the array with the padding of the allocated structure,
  no store ever falls outside.  In every other case the call returns: a non-empty packet is consumed
  at least in part, the line held has at most 128 printable characters and starts with \<open>AT\<close>, and the
  shared state stays sound.\<close>

theorem receive_command_safe:
  assumes "line_editor_ok ed" and "shared_ok s" and "handlers_ok H" and "m \<or> e_alloc ed"
  shows "(atcmd_receive_command H m buf ed s = None \<longleftrightarrow>
      e_alloc ed \<and> length (e_cmd ed) = 129 \<and> ends_full_line H m buf ed s) \<and>
    (\<forall>n ed' s'. atcmd_receive_command H m buf ed s = Some (n, ed', s') \<longrightarrow>
      n \<le> length buf \<and> (buf \<noteq> [] \<longrightarrow> 0 < n) \<and> line_editor_ok ed' \<and> e_alloc ed' \<and>
      length (e_cmd ed') = (if e_alloc ed then length (e_cmd ed) else 132) \<and>
      e_cnt ed' \<le> 128 \<and> line_ok (e_line ed') \<and> shared_ok s')"
proof -
  define ed0 where "ed0 = (if e_alloc ed then ed else ed\<lparr>e_alloc := True, e_cnt := 0, e_cmd := replicate 132 NUL\<rparr>)"
  have rc: "atcmd_receive_command H m b ed s = receive_loop H b 0 ed0 s" for b
    using assms(4) by (auto simp: atcmd_receive_command_def ed0_def)
  have e0: "buffer_in (length (e_cmd ed0)) ed0" "128 < length (e_cmd ed0)" "keys_ok ed0" "e_alloc ed0"
    using assms(1) by (auto simp: ed0_def line_editor_ok_def buffer_in_def keys_ok_def e_line_def)
  have full: "full_line_ended H buf 0 ed0 s \<longleftrightarrow> ends_full_line H m buf ed s"
    by (simp add: full_line_ended_def ends_full_line_def rc line_full_def)
  have len: "length (e_cmd ed0) = (if e_alloc ed then length (e_cmd ed) else 132)" by (simp add: ed0_def)
  note ex = receive_loop_exact [OF e0(1-3) assms(2,3), of buf 0]
  show ?thesis
  proof (cases "receive_loop H buf 0 ed0 s")
    case None
    then show ?thesis using ex len full by (auto simp: rc split: if_splits)
  next
    case (Some x)
    obtain n ed' s' where x: "x = (n, ed', s')" by (cases x)
    then show ?thesis using ex Some len full e0(2)
      by (auto simp: rc buffer_in_def line_editor_ok_def split: if_splits)
  qed
qed

text \<open>
  With the array alone a line end behind 128 characters faults; with the allocated storage the same
  editor answers it.
\<close>

definition demo_full :: "nat \<Rightarrow> editor" where
  "demo_full L = demo_editor\<lparr>e_cmd := ''AT+'' @ replicate 125 (CHR ''A'') @ replicate (L - 128) NUL, e_cnt := 128\<rparr>"

theorem receive_command_safe_witness:
  "atcmd_receive_command demo_handlers True [LF] (demo_full 129) (demo_atcmd demo_served []) = None \<and>
   (\<exists>n ed' s'. atcmd_receive_command demo_handlers True [LF] (demo_full 132) (demo_atcmd demo_served []) =
      Some (n, ed', s') \<and> 0 < n \<and> line_ok (e_line ed'))"
proof -
  let ?s = "demo_atcmd demo_served [] :: string list atcmd"
  have line: "e_line (demo_full L) = ''AT+'' @ replicate 125 (CHR ''A'')" for L
    by (simp add: e_line_def demo_full_def)
  have ok: "line_editor_ok (demo_full L)" if "129 \<le> L" for L
    using that unfolding line_editor_ok_def line
    by (auto simp: demo_full_def demo_editor_def keys_ok_def line_ok_def printable_def list_all_iff)
  have al: "e_alloc (demo_full L)" for L by (simp add: demo_full_def demo_editor_def)
  have len: "length (e_cmd (demo_full L)) = L" if "129 \<le> L" for L using that by (simp add: demo_full_def)
  have "ends_full_line demo_handlers True [LF] (demo_full 129) ?s"
    unfolding ends_full_line_def
    by (rule exI [of _ 0], rule conjI, simp, rule exI [of _ "demo_full 129"], rule exI [of _ ?s])
      (simp add: atcmd_receive_command_def al line ends_line_def)
  then show ?thesis
    using receive_command_safe [OF ok demo_shared demo_handlers_ok, of 129 True "[LF]" "[]"]
      receive_command_safe [OF ok demo_shared demo_handlers_ok, of 132 True "[LF]" "[]"] al len
    by (auto simp: not_None_eq)
qed

text \<open>A command line that is not of the form \<open>AT+...\<close> is answered by exactly OK or ERROR: \<open>AT\<close> and the
  history switches succeed without effect, the echo switches set the echo flag, \<open>ATZ\<close> requests a
  reset, everything else is an error; no handler runs.\<close>

theorem serve_basic_command:
  assumes "editing ed []" and "eol_ok e" and "line_ok w" and "2 \<le> length w"
    and "\<not> (5 \<le> length w \<and> take 3 w = ''AT+'')"
    and "\<not> atcmd_config_status ATCMD_CFG_ECHO s" and "atcmd_config_status ATCMD_CFG_LINEFEED s"
  shows "\<exists>ed' s'. atcmd_receive_command H m (w @ e @ r) ed s = Some (length w + length e, ed', s') \<and> editing ed' [] \<and>
    g_out s' = g_out s @ (if fst (basic_effect w s) = 0 then ''OK'' @ [CR, LF] else ''ERROR'' @ [CR, LF]) \<and>
    g_config s' = g_config (snd (basic_effect w s)) \<and> g_env s' = g_env s \<and> g_registry s' = g_registry s"
proof -
  have ne: "w \<noteq> []" using assms(4) by auto
  let ?s = "atcmd_prompt_exit s"
  obtain b ed' where r: "atcmd_receive_command H m (w @ e @ r) ed s =
      map_option (\<lambda>s1. (length w + length e, ed', atcmd_prompt_enter s1)) (atcmd_process_command H b (length w) ?s)"
    and b: "take (length w) b = w" "length b = 132" and ed': "editing ed' []"
    using receive_line [OF assms(1,3) ne assms(2,6,7), of H m r] by blast
  have p: "atcmd_process_command H b (length w) ?s =
      atcmd_transmit_return None (fst (basic_effect w ?s)) (snd (basic_effect w ?s))"
    by (rule process_basic [OF b(1) _ assms(3-5)]) (simp add: b(2))
  have st: "atcmd_config_status c ?s = atcmd_config_status c s" for c by (simp add: atcmd_config_status_def)
  have eff: "fst (basic_effect w ?s) = fst (basic_effect w s)" "g_out (snd (basic_effect w ?s)) = g_out s"
    "g_config (snd (basic_effect w ?s)) = g_config (snd (basic_effect w s))" "g_env (snd (basic_effect w ?s)) = g_env s"
    "g_registry (snd (basic_effect w ?s)) = g_registry s"
    using prompt_exit_out [OF assms(6)]
    by (simp_all add: basic_effect_def st atcmd_config_enable_def atcmd_config_disable_def)
  show ?thesis
    using r ed' transmit_return_plain [of "fst (basic_effect w ?s)" "snd (basic_effect w ?s)"] unfolding p eff by auto
qed

theorem serve_basic_command_witness:
  "\<exists>ed' s'. atcmd_receive_command demo_handlers True (''ATE1'' @ [LF] @ ''AT'') demo_editor (demo_atcmd demo_served []) =
     Some (5, ed', s') \<and> g_out s' = ''OK'' @ [CR, LF] \<and> g_config s' = 3"
proof -
  let ?s = "demo_atcmd demo_served [] :: string list atcmd"
  have "line_ok ''ATE1''" by (simp add: line_ok_def printable_def)
  note serve_basic_command [where e = "[LF]" and H = demo_handlers and m = True and r = "''AT''" and s = ?s,
      OF demo_editing _ this _ _ demo_config]
  moreover have "basic_effect ''ATE1'' ?s =
      (0, atcmd_config_enable ATCMD_CFG_ECHO ?s)"
    using demo_config(1) [of demo_served "[] :: string list"] by (simp add: basic_effect_def)
  moreover have "g_out ?s = []" by (simp add: demo_atcmd_def)
  moreover have "g_config (atcmd_config_enable ATCMD_CFG_ECHO ?s) = 3"
    by (simp add: demo_atcmd_def atcmd_config_enable_def)
  ultimately show ?thesis by (simp add: eol_ok_def eval_nat_numeral) blast
qed

text \<open>An extended command that does not parse to a handler kind, or whose name no registered group
  and command matches, is answered by exactly ERROR; no handler runs and nothing else changes.\<close>

theorem serve_unknown_command:
  assumes "editing ed []" and "shared_ok s" and "line_ok (''AT+'' @ t)" and "2 \<le> length t" and "eol_ok e"
    and "\<not> atcmd_config_status ATCMD_CFG_ECHO s" and "atcmd_config_status ATCMD_CFG_LINEFEED s"
    and "\<And>z. atcmd_parse (t @ [LF] @ z) = Parsed ty argv"
    and "reg_ok (g_registry s) U gs cs"
    and "ty = None \<or> argv = [] \<or> lookup_command (g_registry s) cs (hd argv) gs = 0"
  shows "\<exists>ed' s'. atcmd_receive_command H m (''AT+'' @ t @ e @ r) ed s = Some (3 + length t + length e, ed', s') \<and>
    editing ed' [] \<and> g_out s' = g_out s @ ''ERROR'' @ [CR, LF] \<and> g_config s' = g_config s \<and>
    g_env s' = g_env s \<and> g_registry s' = g_registry s"
proof -
  let ?w = "''AT+'' @ t" and ?s = "atcmd_prompt_exit s"
  obtain b ed' where r: "atcmd_receive_command H m (?w @ e @ r) ed s =
      map_option (\<lambda>s1. (length ?w + length e, ed', atcmd_prompt_enter s1)) (atcmd_process_command H b (length ?w) ?s)"
    and b: "take (length ?w) b = ?w" "length b = 132" and ed': "editing ed' []"
    using receive_line [OF assms(1,3) _ assms(5-7), of H m r] by auto
  let ?b = "b[length ?w := LF, length ?w + 1 := NUL]"
  obtain z where z: "drop (0 + 3) ?b = t @ [LF] @ z" using process_extended(2) [OF b assms(3) refl assms(4)] by blast
  have pz: "atcmd_parse (drop (0 + 3) ?b) = Parsed ty argv" unfolding z by (rule assms(8))
  have f: "(if ty = None \<or> argv = [] then Some 0
      else find_command (g_registry ?s) (hd argv) (lprev (heap (g_registry ?s)) (group_head (g_registry ?s)))) = Some 0"
    using find_command_eq [OF assms(9), of "hd argv"] assms(10) by auto
  have "atcmd_process_command H b (length ?w) ?s = atcmd_handler H ?b 0 ?s"
    by (rule process_extended(1) [OF b assms(3) refl assms(4)])
  also have "\<dots> = atcmd_transmit_return None ATCMD_ERROR_INVAL ?s"
    unfolding atcmd_handler_def pz parse_result.case f option.case by simp
  finally have p: "atcmd_process_command H b (length ?w) ?s = atcmd_transmit_return None ATCMD_ERROR_INVAL ?s" .
  show ?thesis
    using r ed' transmit_return_plain [of ATCMD_ERROR_INVAL ?s] prompt_exit_out [OF assms(6)]
    unfolding p by (auto simp: ATCMD_ERROR_INVAL_def)
qed

theorem serve_unknown_command_witness:
  "\<exists>ed' s'. atcmd_receive_command demo_handlers True (''AT+'' @ ''X=1'' @ [LF] @ []) demo_editor (demo_atcmd demo_served []) =
     Some (7, ed', s') \<and> g_out s' = ''ERROR'' @ [CR, LF] \<and> g_env s' = []"
proof -
  let ?s = "demo_atcmd demo_served [] :: string list atcmd"
  have up: "upper_char (CHR ''X'') = CHR ''X''" by code_simp
  have l: "line_ok (''AT+'' @ ''X=1'')" by (simp add: line_ok_def printable_def)
  have p: "atcmd_parse (''X=1'' @ [LF] @ z) = Parsed (Some ATCMD_HANDLER_SET) [''X'', ''1'']" for z
    using parse_set [of "''X''" "[''1'']" "[LF]" z] by (simp add: up plain_def param_char_def eol_ok_def)
  have reg: "g_registry ?s = demo_served" by (simp add: demo_atcmd_def)
  have lk: "lookup_command demo_served ((\<lambda>_. [])(10 := [30])) ''X'' [10] = 0"
    by (simp add: in_group_def group_matches_def find_addr_def demo_served_def demo_registry_def)
  have "\<exists>ed' s'. atcmd_receive_command demo_handlers True (''AT+'' @ ''X=1'' @ [LF] @ []) demo_editor ?s =
      Some (3 + length ''X=1'' + length [LF], ed', s') \<and> editing ed' [] \<and>
    g_out s' = g_out ?s @ ''ERROR'' @ [CR, LF] \<and> g_config s' = g_config ?s \<and>
    g_env s' = g_env ?s \<and> g_registry s' = g_registry ?s"
    by (rule serve_unknown_command [where U = "[10]", OF demo_editing demo_shared l _ _ demo_config p])
      (use demo_served_ok lk in \<open>simp_all add: eol_ok_def reg del: lookup_command.simps\<close>)
  moreover have "g_out ?s = []" "g_env ?s = []" by (simp_all add: demo_atcmd_def)
  ultimately show ?thesis by (simp add: eval_nat_numeral) blast
qed

end
