(* ===== verification/ChunkLoop.thy ===== *)
theory ChunkLoop
  imports Prelude
begin

text \<open>
  The interface behind the program's consuming loops: a buffer is offered to a step that takes a part
  of it, until nothing is left.  A step may take nothing, but only finitely often in a row; the
  receiver task and the host's sender rely on this contract.
\<close>

locale chunk_loop =
  fixes step :: "'b list \<Rightarrow> 's \<Rightarrow> (nat \<times> 's) option"
    and loop :: "'b list \<Rightarrow> 's \<Rightarrow> 'r option"
    and result :: "'s \<Rightarrow> 'r"
    and inv :: "'b list \<Rightarrow> 's \<Rightarrow> bool"
    and stalls :: "'s \<Rightarrow> nat"
  assumes loop_Nil: "loop [] st = Some (result st)"
    and loop_step: "xs \<noteq> [] \<Longrightarrow> step xs st = Some (n, st') \<Longrightarrow> loop xs st = loop (drop n xs) st'"
    and step_ok: "inv xs st \<Longrightarrow> xs \<noteq> [] \<Longrightarrow> \<exists>n st'. step xs st = Some (n, st') \<and> n \<le> length xs \<and>
      inv (drop n xs) st' \<and> (n = 0 \<longrightarrow> stalls st' < stalls st)"
begin

lemma returns:
  assumes "inv xs st"
  shows "\<exists>st'. loop xs st = Some (result st') \<and> inv [] st'"
  using assms
proof (induction "(length xs, stalls st)" arbitrary: xs st
    rule: wf_induct_rule [OF wf_lex_prod [OF wf_less_than wf_less_than]])
  case (1 xs st)
  show ?case
  proof (cases "xs = []")
    case True
    then show ?thesis using "1.prems" by (auto simp: loop_Nil)
  next
    case False
    from step_ok [OF "1.prems" False] obtain n st' where
      s: "step xs st = Some (n, st')" "n \<le> length xs" "inv (drop n xs) st'" "n = 0 \<longrightarrow> stalls st' < stalls st" by blast
    have "((length (drop n xs), stalls st'), (length xs, stalls st)) \<in> less_than <*lex*> less_than"
      using s(2,4) False by (cases "n = 0") auto
    from "1.hyps" [OF this s(3)] show ?thesis unfolding loop_step [OF False s(1)] .
  qed
qed

end

end
