(* ===== verification/AtcmdDataMode.thy ===== *)
theory AtcmdDataMode
  imports AtcmdCommand ChunkLoop
begin

text \<open>
  The data mode of \<open>sdk/apps/atcmd/atcmd_core.c\<close>: bytes from the host that are payload, not commands.
  \<open>atcmd_receive_data\<close> collects them to the announced length, hands them to their consumer, reports
  drops and completions, and recognises the exit command while idle; the data mode task raises the
  idle event after a timeout; \<open>atcmd_receive\<close> routes a received packet to the data mode or to the
  line editor.  The consumers (\<open>atcmd_socket.c\<close>, \<open>atcmd_basic.c\<close>) are parameters: \<open>send\<close> takes the
  bytes and returns the number accepted, \<open>event\<close> transmits an event.
\<close>

subsection \<open>Consumers and events\<close>

datatype data_sink = SocketSend int | FirmwareDownload | SfUserWrite u32

datatype data_event =
    SendDone int u32 | SendDrop int u32 | SendExit int u32 u32 | SendIdle int u32 u32 u32 u32
  | FwDone u32 | FwDrop u32 | FwFail u32 | FwIdle u32 u32
  | SfDone u32 u32 | SfDrop u32 u32 | SfFail u32 u32 | SfIdle u32 u32 u32

record 'e consumers =
  send :: "data_sink \<Rightarrow> string \<Rightarrow> 'e atcmd \<Rightarrow> int \<times> 'e atcmd"
  event :: "data_event \<Rightarrow> 'e atcmd \<Rightarrow> 'e atcmd"

abbreviation cur_offset :: "'e atcmd \<Rightarrow> u32" where
  "cur_offset s \<equiv> sfuser_offset (params (g_data_mode s))"

text \<open>\<open>buf\<close> is the memory at the pointer passed, \<open>len\<close> the length, converted to \<open>int\<close> by the call.\<close>

definition receive_data_sink :: "'e consumers \<Rightarrow> data_type \<Rightarrow> int \<Rightarrow> string \<Rightarrow> u32 \<Rightarrow> 'e atcmd \<Rightarrow> int \<times> 'e atcmd" where
  "receive_data_sink C ty i buf len s =
    (if sint len > 0 then
       (case ty of
          ATCMD_DATA_SSEND \<Rightarrow> send C (SocketSend i) (take (unat len) buf) s
        | ATCMD_DATA_FWBINDL \<Rightarrow> send C FirmwareDownload (take (unat len) buf) s
        | ATCMD_DATA_SFUSER \<Rightarrow> send C (SfUserWrite (cur_offset s)) (take (unat len) buf) s
        | _ \<Rightarrow> (0, s))
     else (0, s))"

definition receive_data_done :: "'e consumers \<Rightarrow> data_type \<Rightarrow> int \<Rightarrow> u32 \<Rightarrow> 'e atcmd \<Rightarrow> 'e atcmd" where
  "receive_data_done C ty i n s =
    (case ty of
       ATCMD_DATA_SSEND \<Rightarrow> event C (SendDone i n) s
     | ATCMD_DATA_FWBINDL \<Rightarrow> event C (FwDone n) s
     | ATCMD_DATA_SFUSER \<Rightarrow> event C (SfDone (cur_offset s) n) s
     | _ \<Rightarrow> s)"

definition receive_data_drop :: "'e consumers \<Rightarrow> data_type \<Rightarrow> int \<Rightarrow> u32 \<Rightarrow> 'e atcmd \<Rightarrow> 'e atcmd" where
  "receive_data_drop C ty i n s =
    (case ty of
       ATCMD_DATA_SSEND \<Rightarrow> event C (SendDrop i n) s
     | ATCMD_DATA_FWBINDL \<Rightarrow> event C (FwDrop n) s
     | ATCMD_DATA_SFUSER \<Rightarrow> event C (SfDrop (cur_offset s) n) s
     | _ \<Rightarrow> s)"

definition receive_data_exit :: "'e consumers \<Rightarrow> data_type \<Rightarrow> int \<Rightarrow> u32 \<Rightarrow> u32 \<Rightarrow> u32 \<Rightarrow> 'e atcmd \<Rightarrow> 'e atcmd" where
  "receive_data_exit C ty i len dn drp s =
    (case ty of
       ATCMD_DATA_SSEND \<Rightarrow> event C (SendExit i dn drp) s
     | ATCMD_DATA_FWBINDL \<Rightarrow> event C (FwFail len) s
     | ATCMD_DATA_SFUSER \<Rightarrow> event C (SfFail (cur_offset s) len) s
     | _ \<Rightarrow> s)"

subsection \<open>The idle timer\<close>

definition atcmd_data_mode_timeout :: "'e consumers \<Rightarrow> u32 \<Rightarrow> 'e atcmd \<Rightarrow> 'e atcmd" where
  "atcmd_data_mode_timeout C time s =
    (let d = g_data_mode s; i = dm_id (params d)
     in case data_type (params d) of
          ATCMD_DATA_SSEND \<Rightarrow> event C (SendIdle i (send_done d) (send_drop d) (dm_cnt d) (time - 100)) s
        | ATCMD_DATA_FWBINDL \<Rightarrow> event C (FwIdle (send_len d) (dm_cnt d)) s
        | ATCMD_DATA_SFUSER \<Rightarrow> event C (SfIdle (cur_offset s) (send_len d) (dm_cnt d)) s
        | _ \<Rightarrow> s)"

text \<open>
  One pass of the task's loop, up to its next suspension: \<open>Some t\<close> is the suspension time in
  milliseconds, \<open>None\<close> an indefinite one.
\<close>

definition elapsed_time :: "u32 \<Rightarrow> u32 \<Rightarrow> u32" where
  "elapsed_time current send_time =
    (if current \<ge> send_time then current - send_time else (0xffffffff - send_time) + current + 1)"

definition data_mode_task_pass :: "'e consumers \<Rightarrow> 'e atcmd \<Rightarrow> u32 option \<times> 'e atcmd" where
  "data_mode_task_pass C s =
    (let d = g_data_mode s
     in if dm_enable d \<and> last_send_time d > 0 \<and> send_timeout d > 0 then
          (let e = elapsed_time (g_now s) (last_send_time d)
           in if e < send_timeout d then (Some (send_timeout d - e), s)
              else if \<not> dm_idle d then
                (let s1 = atcmd_data_mode_timeout C e s
                 in (None, s1\<lparr>g_data_mode := (g_data_mode s1)\<lparr>dm_idle := True\<rparr>\<rparr>))
              else (None, s))
        else (None, s))"

text \<open>The notification taken at the end of a suspension.\<close>

definition task_wake :: "'e atcmd \<Rightarrow> 'e atcmd" where
  "task_wake s = s\<lparr>g_notified := False\<rparr>"

definition atcmd_data_mode_task_create :: "bool \<Rightarrow> 'e atcmd \<Rightarrow> int \<times> 'e atcmd" where
  "atcmd_data_mode_task_create task_ok s =
    (let s1 = s\<lparr>g_data_mode := (g_data_mode s)\<lparr>dm_task := task_ok \<or> dm_task (g_data_mode s)\<rparr>\<rparr>
     in (if task_ok then 0 else -1, s1))"

definition atcmd_data_mode_task_delete :: "'e atcmd \<Rightarrow> 'e atcmd" where
  "atcmd_data_mode_task_delete s =
    (if dm_task (g_data_mode s) then s\<lparr>g_data_mode := (g_data_mode s)\<lparr>dm_task := False\<rparr>\<rparr> else s)"

subsection \<open>Receiving data\<close>

definition ATCMD_DATA_LEN_MAX :: nat where "ATCMD_DATA_LEN_MAX = 4096"

text \<open>The function-local statics: the collecting buffer and the matched part of the exit command.\<close>

record data_rx =
  d_buf :: string
  d_exit :: nat

text \<open>
  The loop over a packet received while idle.  The exit command is read up to its NUL; reading
  behind it is \<open>ScanFault\<close>.
\<close>

datatype exit_scan = ScanFault | ScanExit nat | ScanOther | ScanMore nat

fun scan_exit :: "string \<Rightarrow> nat \<Rightarrow> nat \<Rightarrow> string \<Rightarrow> exit_scan" where
  "scan_exit e k i [] = ScanMore k"
| "scan_exit e k i (c # cs) =
    (if k > length e then ScanFault
     else if c \<noteq> (e @ [NUL]) ! k then ScanOther
     else if Suc k = length e then ScanExit i
     else scan_exit e (Suc k) (Suc i) cs)"

definition store_data :: "string \<Rightarrow> data_rx \<Rightarrow> 'e atcmd \<Rightarrow> (data_rx \<times> 'e atcmd) option" where
  "store_data xs rx s =
    (let n = unat (dm_cnt (g_data_mode s))
     in if n + length xs > ATCMD_DATA_LEN_MAX then None
        else Some (rx\<lparr>d_buf := memcpy_at (d_buf rx) n xs\<rparr>,
               s\<lparr>g_data_mode := (g_data_mode s)\<lparr>dm_cnt := dm_cnt (g_data_mode s) + of_nat (length xs)\<rparr>\<rparr>))"

text \<open>The exit command is complete at index \<open>i\<close> of the packet.\<close>

definition leave_data_mode ::
  "'e consumers \<Rightarrow> dm_params \<Rightarrow> string \<Rightarrow> nat \<Rightarrow> string \<Rightarrow> data_rx \<Rightarrow> 'e atcmd \<Rightarrow> (nat \<times> data_rx \<times> 'e atcmd) option" where
  "leave_data_mode C p e i buf rx s =
    (let d = g_data_mode s;
         pass = (data_type p = ATCMD_DATA_SSEND \<and> passthrough p)
     in Option.bind (atcmd_transmit_return None ATCMD_SUCCESS s)
       (\<lambda>s1. Option.bind (if i \<ge> length e then store_data (take (i + 1 - length e) buf) rx s1 else Some (rx, s1))
       (\<lambda>(rx1, s2).
          let n = dm_cnt (g_data_mode s2);
              (ret, s3) = (if pass \<and> n > 0 then receive_data_sink C (data_type p) (dm_id p) (d_buf rx1) n s2
                           else (0, s2));
              n3 = dm_cnt (g_data_mode s3);
              (dn, drp) = (if pass \<and> n > 0 then (send_done d + of_int ret, send_drop d + (n3 - of_int ret))
                           else (send_done d, send_drop d));
              s4 = receive_data_exit C (data_type p) (dm_id p) (send_len d) dn drp s3
          in Some (i, rx1\<lparr>d_exit := 0\<rparr>, snd (atcmd_data_mode_disable s4)))))"

text \<open>
  Handing over \<open>slen\<close> bytes from \<open>src\<close> and finishing; \<open>len\<close> is the return value, \<open>dn\<close> and \<open>drp\<close> the
  counters read at the start.
\<close>

definition deliver_data ::
  "'e consumers \<Rightarrow> dm_params \<Rightarrow> bool \<Rightarrow> string \<Rightarrow> u32 \<Rightarrow> u32 \<Rightarrow> u32 \<Rightarrow> 'e atcmd \<Rightarrow> 'e atcmd" where
  "deliver_data C p pass src slen dn drp s =
    (let ty = data_type p; i = dm_id p;
         (ret, s1) = receive_data_sink C ty i src slen s;
         dn1 = dn + of_int ret; drp1 = drp + (slen - of_int ret);
         s2 = (if pass then s1\<lparr>g_data_mode := (g_data_mode s1)\<lparr>dm_cnt := 0, send_done := dn1, send_drop := drp1\<rparr>\<rparr> else s1);
         (dn2, drp2) = (if pass then (of_int ret, slen - of_int ret) else (dn1, drp1));
         s3 = (if drp2 > 0 then receive_data_drop C ty i drp2 s2 else s2);
         s4 = (if done_event p then receive_data_done C ty i dn2 s3 else s3)
     in if pass then atcmd_data_mode_continue s4 else snd (atcmd_data_mode_disable s4))"

definition collect_data ::
  "'e consumers \<Rightarrow> string \<Rightarrow> data_rx \<Rightarrow> 'e atcmd \<Rightarrow> (nat \<times> data_rx \<times> 'e atcmd) option" where
  "collect_data C buf rx s =
    (let d = g_data_mode s; p = params d;
         pass = (data_type p = ATCMD_DATA_SSEND \<and> passthrough p);
         n = dm_cnt d; slen = send_len d; len = of_nat (length buf) :: u32
     in if pass \<and> slen = 0 then
          Some (length buf, rx, deliver_data C p pass buf len (send_done d) (send_drop d) s)
        else if n + len < slen then
          map_option (\<lambda>(rx1, s1). (length buf, rx1, atcmd_data_mode_continue s1)) (store_data buf rx s)
        else
          (let part = (if n + len > slen then take (unat (slen - n)) buf else buf)
           in if n > 0 then
                map_option (\<lambda>(rx1, s1).
                    (length part, rx1, deliver_data C p pass (d_buf rx1) slen (send_done d) (send_drop d) s1))
                  (store_data part rx s)
              else Some (length part, rx, deliver_data C p pass part slen (send_done d) (send_drop d) s)))"

definition atcmd_receive_data ::
  "'e consumers \<Rightarrow> string \<Rightarrow> data_rx \<Rightarrow> 'e atcmd \<Rightarrow> (nat \<times> data_rx \<times> 'e atcmd) option" where
  "atcmd_receive_data C buf rx s =
    (let d = g_data_mode s
     in if \<not> dm_enable d \<or> buf = [] then Some (0, rx, s)
        else if dm_idle d then
          (let e = (case exit_cmd (params d) of None \<Rightarrow> ''AT'' @ [CR, LF] | Some x \<Rightarrow> x)
           in case scan_exit e (d_exit rx) 0 buf of
                ScanFault \<Rightarrow> None
              | ScanExit i \<Rightarrow> leave_data_mode C (params d) e i buf rx s
              | ScanMore k \<Rightarrow> Some (length buf, rx\<lparr>d_exit := k\<rparr>, s)
              | ScanOther \<Rightarrow> collect_data C buf (rx\<lparr>d_exit := 0\<rparr>) s)
        else collect_data C buf rx s)"

subsection \<open>Routing a packet\<close>

partial_function (option) receive_routed ::
  "'e handlers \<Rightarrow> 'e consumers \<Rightarrow> bool \<Rightarrow> string \<Rightarrow> editor \<times> data_rx \<times> 'e atcmd \<Rightarrow> (editor \<times> data_rx \<times> 'e atcmd) option" where
  "receive_routed H C m buf st =
    (if buf = [] then Some st
     else if dm_enable (g_data_mode (snd (snd st))) then
       Option.bind (atcmd_receive_data C buf (fst (snd st)) (snd (snd st)))
         (\<lambda>r. receive_routed H C m (drop (fst r) buf) (fst st, snd r))
     else
       Option.bind (atcmd_receive_command H m buf (fst st) (snd (snd st)))
         (\<lambda>r. receive_routed H C m (drop (fst r) buf) (fst (snd r), fst (snd st), snd (snd r))))"

definition atcmd_receive ::
  "'e handlers \<Rightarrow> 'e consumers \<Rightarrow> bool \<Rightarrow> string \<Rightarrow> editor \<times> data_rx \<times> 'e atcmd \<Rightarrow> (editor \<times> data_rx \<times> 'e atcmd) option" where
  "atcmd_receive H C m buf st = receive_routed H C m buf st"

subsection \<open>The invariant of the data mode\<close>

definition effective_pass :: "data_mode \<Rightarrow> bool" where
  "effective_pass d \<longleftrightarrow> data_type (params d) = ATCMD_DATA_SSEND \<and> passthrough (params d)"

text \<open>
  While enabled, a length is announced (or data passes through unbuffered) and not yet reached, it
  fits the collecting buffer, and an exit command is not empty.
\<close>

definition dm_ok :: "data_mode \<Rightarrow> bool" where
  "dm_ok d \<longleftrightarrow> (dm_enable d \<longrightarrow>
     (if effective_pass d \<and> send_len d = 0 then dm_cnt d = 0 else dm_cnt d < send_len d) \<and>
     unat (send_len d) \<le> ATCMD_DATA_LEN_MAX \<and> exit_cmd (params d) \<noteq> Some [])"

definition exit_text :: "data_mode \<Rightarrow> string" where
  "exit_text d = (case exit_cmd (params d) of None \<Rightarrow> ''AT'' @ [CR, LF] | Some x \<Rightarrow> x)"

text \<open>A part of the exit command is matched only while the data mode is idle.\<close>

definition rx_ok :: "data_rx \<Rightarrow> data_mode \<Rightarrow> bool" where
  "rx_ok rx d \<longleftrightarrow> length (d_buf rx) = ATCMD_DATA_LEN_MAX \<and>
     (d_exit rx \<noteq> 0 \<longrightarrow> dm_enable d \<and> dm_idle d \<and> d_exit rx < length (exit_text d))"

text \<open>What the consumers promise: they leave the data mode block and the registry alone.\<close>

definition consumers_ok :: "'e consumers \<Rightarrow> bool" where
  "consumers_ok C \<longleftrightarrow>
     (\<forall>k b s. g_data_mode (snd (send C k b s)) = g_data_mode s \<and> (shared_ok s \<longrightarrow> shared_ok (snd (send C k b s)))) \<and>
     (\<forall>e s. g_data_mode (event C e s) = g_data_mode s \<and> (shared_ok s \<longrightarrow> shared_ok (event C e s)))"

lemma exit_text_nonempty: "dm_ok d \<Longrightarrow> dm_enable d \<Longrightarrow> exit_text d \<noteq> []"
  by (auto simp: dm_ok_def exit_text_def split: option.splits)

lemma scan_exit_cases:
  assumes "k < length e"
  shows "scan_exit e k i cs \<noteq> ScanFault \<and> (\<forall>j. scan_exit e k i cs = ScanMore j \<longrightarrow> j < length e) \<and>
    (\<forall>j. scan_exit e k i cs = ScanExit j \<longrightarrow> i \<le> j \<and> j < i + length cs \<and> j - i < length e - k)"
  using assms
proof (induction cs arbitrary: k i)
  case (Cons c cs)
  show ?case
  proof (cases "c = (e @ [NUL]) ! k \<and> Suc k \<noteq> length e")
    case True
    then have k: "Suc k < length e" using Cons.prems by simp
    have st: "scan_exit e k i (c # cs) = scan_exit e (Suc k) (Suc i) cs" using True Cons.prems by simp
    show ?thesis using Cons.IH [OF k, of "Suc i"] k unfolding st by force
  qed (use Cons.prems in auto)
qed simp

lemma sink_keeps:
  assumes "consumers_ok C"
  shows "g_data_mode (snd (receive_data_sink C ty i b n s)) = g_data_mode s"
    "shared_ok s \<Longrightarrow> shared_ok (snd (receive_data_sink C ty i b n s))"
    "g_data_mode (receive_data_done C ty i n s) = g_data_mode s"
    "shared_ok s \<Longrightarrow> shared_ok (receive_data_done C ty i n s)"
    "g_data_mode (receive_data_drop C ty i n s) = g_data_mode s"
    "shared_ok s \<Longrightarrow> shared_ok (receive_data_drop C ty i n s)"
    "g_data_mode (receive_data_exit C ty i n n' n'' s) = g_data_mode s"
    "shared_ok s \<Longrightarrow> shared_ok (receive_data_exit C ty i n n' n'' s)"
    "g_data_mode (atcmd_data_mode_timeout C n s) = g_data_mode s"
    "shared_ok s \<Longrightarrow> shared_ok (atcmd_data_mode_timeout C n s)"
  using assms
  by (auto simp: consumers_ok_def receive_data_sink_def receive_data_done_def receive_data_drop_def
      receive_data_exit_def atcmd_data_mode_timeout_def Let_def split: data_type.splits)

lemma shared_ok_dm [simp]: "shared_ok (s\<lparr>g_data_mode := d\<rparr>) = shared_ok s"
  "shared_ok (s\<lparr>g_notified := b\<rparr>) = shared_ok s"
  by (simp_all add: shared_ok_def)

lemma disable_keeps: "shared_ok (snd (atcmd_data_mode_disable s)) = shared_ok s"
  "\<not> dm_enable (g_data_mode (snd (atcmd_data_mode_disable s)))"
  by (simp_all add: atcmd_data_mode_disable_def)

lemma continue_dm: "g_data_mode (atcmd_data_mode_continue s) =
    (if dm_enable (g_data_mode s) then (g_data_mode s)\<lparr>dm_idle := False, last_send_time := g_now s\<rparr> else g_data_mode s)"
  by (simp add: atcmd_data_mode_continue_def atcmd_data_mode_task_resume_def)

text \<open>After delivering, the data mode is left, or, passing through, waits for the next bytes.\<close>

lemma deliver_ok:
  assumes C: "consumers_ok C" and s: "shared_ok s" and "dm_enable (g_data_mode s)"
  shows "shared_ok (deliver_data C p pass src n dn drp s)"
    and "g_data_mode (deliver_data C p pass src n dn drp s) =
      (if pass then
         (let ret = fst (receive_data_sink C (data_type p) (dm_id p) src n s)
          in (g_data_mode s)\<lparr>dm_cnt := 0, send_done := dn + of_int ret, send_drop := drp + (n - of_int ret),
                dm_idle := False, last_send_time := g_now (deliver_data C p pass src n dn drp s)\<rparr>)
       else g_data_mode (deliver_data C p pass src n dn drp s))"
    and "\<not> pass \<Longrightarrow> \<not> dm_enable (g_data_mode (deliver_data C p pass src n dn drp s))"
proof -
  let ?ty = "data_type p" and ?i = "dm_id p"
  obtain ret s1 where r: "receive_data_sink C ?ty ?i src n s = (ret, s1)" by fastforce
  have s1: "g_data_mode s1 = g_data_mode s" "shared_ok s1"
    using sink_keeps(1) [OF C, of ?ty ?i src n s] sink_keeps(2) [OF C s, of ?ty ?i src n] r by simp_all
  have now: "g_now (atcmd_data_mode_continue t) = g_now t" for t :: "'a atcmd"
    by (simp add: atcmd_data_mode_continue_def atcmd_data_mode_task_resume_def)
  show "shared_ok (deliver_data C p pass src n dn drp s)"
    using s1 sink_keeps [OF C] r by (simp add: deliver_data_def Let_def disable_keeps)
  show "\<not> pass \<Longrightarrow> \<not> dm_enable (g_data_mode (deliver_data C p pass src n dn drp s))"
    using r by (simp add: deliver_data_def Let_def disable_keeps)
  show "g_data_mode (deliver_data C p pass src n dn drp s) =
      (if pass then
         (let ret = fst (receive_data_sink C (data_type p) (dm_id p) src n s)
          in (g_data_mode s)\<lparr>dm_cnt := 0, send_done := dn + of_int ret, send_drop := drp + (n - of_int ret),
                dm_idle := False, last_send_time := g_now (deliver_data C p pass src n dn drp s)\<rparr>)
       else g_data_mode (deliver_data C p pass src n dn drp s))"
    using r s1 sink_keeps(3,5) [OF C] assms(3)
    by (simp add: deliver_data_def Let_def continue_dm now)
qed

lemma store_fits:
  assumes "unat (dm_cnt (g_data_mode s)) + length xs \<le> ATCMD_DATA_LEN_MAX"
  shows "store_data xs rx s = Some (rx\<lparr>d_buf := memcpy_at (d_buf rx) (unat (dm_cnt (g_data_mode s))) xs\<rparr>,
    s\<lparr>g_data_mode := (g_data_mode s)\<lparr>dm_cnt := dm_cnt (g_data_mode s) + of_nat (length xs)\<rparr>\<rparr>)"
  using assms by (simp add: store_data_def)

lemma cnt_add:
  assumes "unat (n :: u32) + k < 4294967296"
  shows "unat (n + of_nat k) = unat n + k"
  using assms by (simp add: unat_word_ariths)

lemma deliver_dm_ok:
  assumes C: "consumers_ok C" and s: "shared_ok s" and d: "dm_enable (g_data_mode s)" "g_data_mode s = d0\<lparr>dm_cnt := c\<rparr>"
    and ok: "dm_ok d0" and p: "p = params d0" "pass = effective_pass d0"
  shows "dm_ok (g_data_mode (deliver_data C p pass src n dn drp s))"
    and "shared_ok (deliver_data C p pass src n dn drp s)"
    and "\<not> pass \<Longrightarrow> \<not> dm_enable (g_data_mode (deliver_data C p pass src n dn drp s))"
    and "pass \<Longrightarrow> dm_enable (g_data_mode (deliver_data C p pass src n dn drp s))"
proof -
  let ?s = "deliver_data C p pass src n dn drp s"
  note D = deliver_ok [where p = p and pass = pass and src = src and n = n and dn = dn and drp = drp, OF C s d(1)]
  show "shared_ok ?s" by (rule D(1))
  show off: "\<not> pass \<Longrightarrow> \<not> dm_enable (g_data_mode ?s)" by (rule D(3))
  have on: "pass \<Longrightarrow> \<exists>x y z w. g_data_mode ?s = d0\<lparr>dm_cnt := 0, send_done := x, send_drop := y, dm_idle := False, last_send_time := w\<rparr>"
    using D(2) d(2) by (simp add: Let_def) blast
  then show "pass \<Longrightarrow> dm_enable (g_data_mode ?s)" using d by auto
  show "dm_ok (g_data_mode ?s)"
  proof (cases pass)
    case True
    then show ?thesis using on ok p(2) d by (auto simp: dm_ok_def effective_pass_def word_gt_0)
  qed (use off in \<open>simp add: dm_ok_def\<close>)
qed

text \<open>One call outside the exit command: all bytes stored, or delivered, never nothing.\<close>

lemma collect_ok:
  assumes C: "consumers_ok C" and s: "shared_ok s" and en: "dm_enable (g_data_mode s)" and d: "dm_ok (g_data_mode s)"
    and rx: "length (d_buf rx) = ATCMD_DATA_LEN_MAX" "d_exit rx = 0" and b: "buf \<noteq> []" "length buf \<le> ATCMD_DATA_LEN_MAX"
  shows "\<exists>n rx' s'. collect_data C buf rx s = Some (n, rx', s') \<and> 0 < n \<and> n \<le> length buf \<and>
    length (d_buf rx') = ATCMD_DATA_LEN_MAX \<and> d_exit rx' = 0 \<and> dm_ok (g_data_mode s') \<and> shared_ok s'"
proof -
  define d0 where "d0 = g_data_mode s"
  define n where "n = unat (dm_cnt d0)"
  define L where "L = unat (send_len d0)"
  let ?len = "of_nat (length buf) :: u32" and ?p = "params d0" and ?pass = "effective_pass d0"
  have L: "L \<le> ATCMD_DATA_LEN_MAX" "ATCMD_DATA_LEN_MAX = 4096" using d en by (simp_all add: dm_ok_def L_def d0_def ATCMD_DATA_LEN_MAX_def)
  have len: "unat ?len = length buf" using b(2) L by simp
  have pass: "?pass = (data_type ?p = ATCMD_DATA_SSEND \<and> passthrough ?p)" by (simp add: effective_pass_def)
  show ?thesis
  proof (cases "?pass \<and> send_len d0 = 0")
    case True
    have "g_data_mode s = d0\<lparr>dm_cnt := dm_cnt d0\<rparr>" by (simp add: d0_def)
    note D = deliver_dm_ok [OF C s en this _ refl refl]
    show ?thesis using True b rx D d by (simp add: collect_data_def Let_def d0_def [symmetric] pass)
  next
    case False
    then have nL: "n < L" using d en by (simp add: dm_ok_def n_def L_def d0_def word_less_nat_alt split: if_splits)
    have sum: "unat (dm_cnt d0 + ?len) = n + length buf"
      using nL L b(2) by (simp add: cnt_add n_def)
    let ?part = "if L < n + length buf then take (L - n) buf else buf"
    have sub: "unat (send_len d0 - dm_cnt d0) = L - n"
      using nL by (simp add: n_def L_def unat_sub_if')
    have col: "collect_data C buf rx s =
      (if n + length buf < L then
         map_option (\<lambda>(rx1, s1). (length buf, rx1, atcmd_data_mode_continue s1)) (store_data buf rx s)
       else if n > 0 then
         map_option (\<lambda>(rx1, s1). (length ?part, rx1,
             deliver_data C ?p ?pass (d_buf rx1) (send_len d0) (send_done d0) (send_drop d0) s1)) (store_data ?part rx s)
       else Some (length ?part, rx, deliver_data C ?p ?pass ?part (send_len d0) (send_done d0) (send_drop d0) s))"
    proof -
      have lt: "dm_cnt d0 + ?len < send_len d0 \<longleftrightarrow> n + length buf < L" "send_len d0 < dm_cnt d0 + ?len \<longleftrightarrow> L < n + length buf"
        "0 < dm_cnt d0 \<longleftrightarrow> 0 < n"
        using sum by (simp_all add: word_less_nat_alt L_def n_def)
      show ?thesis
        unfolding collect_data_def Let_def d0_def [symmetric] pass [symmetric] if_not_P [OF False] lt sub by (rule refl)
    qed
    have part: "0 < length ?part" "length ?part \<le> length buf" "n + length ?part \<le> L" if "\<not> n + length buf < L"
      using that nL b by auto
    show ?thesis
    proof (cases "n + length buf < L")
      case True
      let ?s1 = "s\<lparr>g_data_mode := (g_data_mode s)\<lparr>dm_cnt := dm_cnt (g_data_mode s) + ?len\<rparr>\<rparr>"
      have "store_data buf rx s = Some (rx\<lparr>d_buf := memcpy_at (d_buf rx) n buf\<rparr>, ?s1)"
        using store_fits [of s buf rx] True L by (simp add: n_def d0_def)
      moreover have "dm_ok (g_data_mode (atcmd_data_mode_continue ?s1))"
        using d en sum True by (auto simp: continue_dm dm_ok_def effective_pass_def d0_def [symmetric] word_less_nat_alt L_def)
      ultimately show ?thesis using True col b rx L s by simp
    next
      case nl: False
      let ?s1 = "s\<lparr>g_data_mode := (g_data_mode s)\<lparr>dm_cnt := dm_cnt (g_data_mode s) + of_nat (length ?part)\<rparr>\<rparr>"
      have st: "store_data ?part rx s = Some (rx\<lparr>d_buf := memcpy_at (d_buf rx) n ?part\<rparr>, ?s1)"
        using store_fits [of s ?part rx] part(3) [OF nl] L unfolding n_def d0_def by linarith
      have 1: "shared_ok ?s1" "dm_enable (g_data_mode ?s1)" "g_data_mode ?s1 = d0\<lparr>dm_cnt := dm_cnt d0 + of_nat (length ?part)\<rparr>"
        and 2: "g_data_mode s = d0\<lparr>dm_cnt := dm_cnt d0\<rparr>" and d0: "dm_ok d0"
        using s en d by (simp_all add: d0_def)
      note D1 = deliver_dm_ok [OF C 1 d0 refl refl] and D2 = deliver_dm_ok [OF C s en 2 d0 refl refl]
      have l: "length (memcpy_at (d_buf rx) n ?part) = ATCMD_DATA_LEN_MAX"
        using rx part(3) [OF nl] L by (subst length_memcpy_at) auto
      show ?thesis
      proof (cases "n > 0")
        case True
        then show ?thesis using nl part(1,2) [OF nl] st l D1(1,2) rx(2) unfolding col by simp
      next
        case False
        then show ?thesis using nl part(1,2) [OF nl] D2(1,2) rx unfolding col by simp
      qed
    qed
  qed
qed

lemma transmit_return_success:
  "atcmd_transmit_return None ATCMD_SUCCESS s = Some (atcmd_data_mode_continue (atcmd_transmit (''OK'' @ [CR, LF]) s))"
  by (simp add: atcmd_transmit_return_def)

text \<open>Leaving by the exit command: the packet ended inside one exit command, so nothing is stored.\<close>

lemma leave_ok:
  assumes C: "consumers_ok C" and s: "shared_ok s" and "i < length e"
  shows "\<exists>rx' s'. leave_data_mode C p e i buf rx s = Some (i, rx', s') \<and> d_exit rx' = 0 \<and> d_buf rx' = d_buf rx \<and>
    \<not> dm_enable (g_data_mode s') \<and> shared_ok s'"
proof -
  let ?s1 = "atcmd_data_mode_continue (atcmd_transmit (''OK'' @ [CR, LF]) s)"
  have s1: "shared_ok ?s1" using s by simp
  let ?pass = "data_type p = ATCMD_DATA_SSEND \<and> passthrough p" and ?n = "dm_cnt (g_data_mode ?s1)"
  obtain ret s3 where r: "(if ?pass \<and> ?n > 0 then receive_data_sink C (data_type p) (dm_id p) (d_buf rx) ?n ?s1 else (0, ?s1)) = (ret, s3)"
    by fastforce
  have s3: "shared_ok s3" using sink_keeps(2) [OF C s1, of "data_type p" "dm_id p" "d_buf rx" ?n] r s1 by (auto split: if_splits)
  show ?thesis
    using assms(3) r s3 sink_keeps(8) [OF C]
    by (auto simp: leave_data_mode_def transmit_return_success Let_def disable_keeps split: prod.splits if_splits)
qed

lemma receive_data_ok:
  assumes C: "consumers_ok C" and s: "shared_ok s" and en: "dm_enable (g_data_mode s)" and d: "dm_ok (g_data_mode s)"
    and rx: "rx_ok rx (g_data_mode s)" and b: "buf \<noteq> []" "length buf \<le> ATCMD_DATA_LEN_MAX"
  shows "\<exists>n rx' s'. atcmd_receive_data C buf rx s = Some (n, rx', s') \<and> n \<le> length buf \<and>
    (n = 0 \<longrightarrow> \<not> dm_enable (g_data_mode s')) \<and> dm_ok (g_data_mode s') \<and> rx_ok rx' (g_data_mode s') \<and> shared_ok s'"
proof -
  have l: "length (d_buf rx) = ATCMD_DATA_LEN_MAX" using rx by (simp add: rx_ok_def)
  have collect: "\<exists>n rx' s'. collect_data C buf rx1 s = Some (n, rx', s') \<and> n \<le> length buf \<and>
    (n = 0 \<longrightarrow> \<not> dm_enable (g_data_mode s')) \<and> dm_ok (g_data_mode s') \<and> rx_ok rx' (g_data_mode s') \<and> shared_ok s'"
    if "d_exit rx1 = 0" "d_buf rx1 = d_buf rx" for rx1
    using collect_ok [OF C s en d _ that(1) b] l that(2) by (fastforce simp: rx_ok_def)
  show ?thesis
  proof (cases "dm_idle (g_data_mode s)")
    case False
    then have "d_exit rx = 0" using rx by (auto simp: rx_ok_def)
    then show ?thesis using False en b collect [of rx] by (simp add: atcmd_receive_data_def Let_def)
  next
    case True
    let ?e = "exit_text (g_data_mode s)"
    have k: "d_exit rx < length ?e" using rx exit_text_nonempty [OF d en] by (cases "d_exit rx = 0") (auto simp: rx_ok_def)
    note sc = scan_exit_cases [OF k, of 0 buf]
    have u: "atcmd_receive_data C buf rx s = (case scan_exit ?e (d_exit rx) 0 buf of
                ScanFault \<Rightarrow> None
              | ScanExit i \<Rightarrow> leave_data_mode C (params (g_data_mode s)) ?e i buf rx s
              | ScanMore k \<Rightarrow> Some (length buf, rx\<lparr>d_exit := k\<rparr>, s)
              | ScanOther \<Rightarrow> collect_data C buf (rx\<lparr>d_exit := 0\<rparr>) s)"
      using True en b unfolding atcmd_receive_data_def Let_def exit_text_def [symmetric] by simp
    show ?thesis
    proof (cases "scan_exit ?e (d_exit rx) 0 buf")
      case (ScanExit i)
      then have i: "i < length buf" "i < length ?e" using sc by auto
      obtain rx' s' where "leave_data_mode C (params (g_data_mode s)) ?e i buf rx s = Some (i, rx', s')" "d_exit rx' = 0"
        "d_buf rx' = d_buf rx" "\<not> dm_enable (g_data_mode s')" "shared_ok s'"
        using leave_ok [OF C s i(2)] by blast
      then show ?thesis using i(1) l ScanExit by (simp add: u dm_ok_def rx_ok_def)
    next
      case ScanOther
      then show ?thesis using collect [of "rx\<lparr>d_exit := 0\<rparr>"] by (simp add: u)
    next
      case (ScanMore k)
      then show ?thesis using sc b en True d l s by (simp add: u rx_ok_def)
    qed (use sc in simp)
  qed
qed

subsection \<open>Routing\<close>

text \<open>What a handler promises about the data mode: it enters it only in a sound state, not idle.\<close>

definition handlers_dm_ok :: "'e handlers \<Rightarrow> bool" where
  "handlers_dm_ok H \<longleftrightarrow> (\<forall>a t argv s. \<not> dm_enable (g_data_mode s) \<longrightarrow> dm_ok (g_data_mode (snd (H a t argv s))))"

text \<open>
  The command side leaves the data mode block alone, a handler's call and the answer apart.
\<close>

lemma dm_frame [simp]:
  "g_data_mode (atcmd_transmit t s) = g_data_mode s" "g_data_mode (atcmd_prompt_enter s) = g_data_mode s"
  "g_data_mode (atcmd_prompt_exit s) = g_data_mode s" "g_data_mode (atcmd_prompt_reset n s) = g_data_mode s"
  "g_data_mode (atcmd_config_enable c s) = g_data_mode s" "g_data_mode (atcmd_config_disable c s) = g_data_mode s"
  by (simp_all add: atcmd_transmit_def atcmd_prompt_enter_def atcmd_prompt_exit_def atcmd_prompt_reset_def
      atcmd_config_enable_def atcmd_config_disable_def Let_def)

lemma msg_print_dm: "atcmd_msg_print t s = Some s' \<Longrightarrow> g_data_mode s' = g_data_mode s"
  by (auto simp: atcmd_msg_print_def split: option.splits if_splits)

lemma dm_ok_continue: "dm_ok (g_data_mode s) \<Longrightarrow> dm_ok (g_data_mode (atcmd_data_mode_continue s))"
  by (auto simp: continue_dm dm_ok_def effective_pass_def)

lemma transmit_return_dm:
  "atcmd_transmit_return c r s = Some s' \<Longrightarrow> dm_ok (g_data_mode s) \<Longrightarrow> dm_ok (g_data_mode s')"
  by (auto simp: atcmd_transmit_return_def dm_ok_continue msg_print_dm split: if_splits option.splits)

lemma handler_dm:
  assumes "atcmd_handler H buf off s = Some s'" and "handlers_dm_ok H" and "\<not> dm_enable (g_data_mode s)"
  shows "dm_ok (g_data_mode s')"
proof -
  have "dm_ok (g_data_mode s)" using assms(3) by (simp add: dm_ok_def)
  moreover have "dm_ok (g_data_mode (snd (H a t v s)))" for a t v using assms(2,3) by (simp add: handlers_dm_ok_def)
  ultimately show ?thesis using assms(1)
    by (auto simp: atcmd_handler_def Let_def dest: transmit_return_dm
        split: parse_result.splits option.splits if_splits prod.splits) (metis snd_conv transmit_return_dm)+
qed

lemma process_dm:
  assumes "atcmd_process_command H buf n s = Some s'" and "handlers_dm_ok H" and "\<not> dm_enable (g_data_mode s)"
  shows "dm_ok (g_data_mode s')"
proof -
  have ok: "dm_ok (g_data_mode s)" using assms(3) by (simp add: dm_ok_def)
  show ?thesis using assms(1) ok unfolding atcmd_process_command_def Let_def
    by (auto intro: transmit_return_dm handler_dm [OF _ assms(2,3)] simp: bind_eq_Some_conv
        split: option.split_asm prod.splits if_splits)
qed

lemma receive_key_dm:
  assumes "receive_key H key ed s = Some (r, ed', s')" and "handlers_dm_ok H" and "\<not> dm_enable (g_data_mode s)"
  shows "if r then dm_ok (g_data_mode s') else g_data_mode s' = g_data_mode s"
proof -
  have p: "dm_ok (g_data_mode s1)" if "atcmd_process_command H b n (atcmd_prompt_exit s) = Some s1" for b n s1
    using process_dm [OF that assms(2)] assms(3) by simp
  show ?thesis using assms(1) p
    by (cases key) (auto simp: receive_key_def split: if_splits)
qed

lemma receive_char_dm:
  assumes "receive_char H c ed s = Some (r, ed', s')" and "handlers_dm_ok H" and "\<not> dm_enable (g_data_mode s)"
  shows "if r then dm_ok (g_data_mode s') else g_data_mode s' = g_data_mode s"
  using assms(1) receive_key_dm [OF _ assms(2,3)]
  by (auto simp: receive_char_def Let_def msg_print_dm split: option.split_asm prod.splits if_splits)

lemma receive_loop_dm:
  assumes "receive_loop H buf i ed s = Some (n, ed', s')" and "handlers_dm_ok H" and "\<not> dm_enable (g_data_mode s)"
  shows "dm_ok (g_data_mode s')"
  using assms(1,3)
proof (induction buf arbitrary: i ed s)
  case Nil
  then show ?case by (auto simp: dm_ok_def)
next
  case (Cons c buf)
  obtain r ed1 s1 where st: "receive_char H c ed s = Some (r, ed1, s1)" using Cons.prems(1) by (auto split: option.splits)
  note d = receive_char_dm [OF st assms(2) Cons.prems(2)]
  show ?case
  proof (cases r)
    case True
    then show ?thesis using st d Cons.prems(1) by auto
  next
    case False
    then show ?thesis using st d Cons.prems Cons.IH [of "Suc i" ed1 s1] by simp
  qed
qed

text \<open>The state of the whole receiver.\<close>

definition receiver_ok :: "editor \<times> data_rx \<times> 'e atcmd \<Rightarrow> bool" where
  "receiver_ok st \<longleftrightarrow> (case st of (ed, rx, s) \<Rightarrow>
     editor_inv ed \<and> shared_ok s \<and> dm_ok (g_data_mode s) \<and> rx_ok rx (g_data_mode s))"

lemma receive_command_routed:
  assumes "editor_inv ed" and "shared_ok s" and "handlers_ok H" and "handlers_dm_ok H" and "m \<or> e_alloc ed"
    and "\<not> dm_enable (g_data_mode s)" and "rx_ok rx (g_data_mode s)" and "buf \<noteq> []"
  shows "\<exists>n ed' s'. atcmd_receive_command H m buf ed s = Some (n, ed', s') \<and> 0 < n \<and> n \<le> length buf \<and>
    receiver_ok (ed', rx, s') \<and> (m \<or> e_alloc ed')"
proof -
  define ed0 where "ed0 = (if e_alloc ed then ed else ed\<lparr>e_alloc := True, e_cnt := 0, e_cmd := replicate 132 NUL\<rparr>)"
  have e0: "buffer_ok ed0" "keys_ok ed0"
    using assms(1) buffer_init by (auto simp: ed0_def editor_inv_def keys_ok_def)
  have eq: "atcmd_receive_command H m buf ed s = receive_loop H buf 0 ed0 s"
    using assms(5) by (auto simp: atcmd_receive_command_def ed0_def)
  obtain n ed' s' where r: "receive_loop H buf 0 ed0 s = Some (n, ed', s')" "n \<le> length buf" "0 < n"
    "buffer_ok ed'" "keys_ok ed'" "shared_ok s'"
    using receive_loop_ok [OF e0 assms(2,3), of buf 0] assms(8) by auto
  have "dm_ok (g_data_mode s')" by (rule receive_loop_dm [OF r(1) assms(4,6)])
  moreover have "rx_ok rx (g_data_mode s')" using assms(6,7) by (auto simp: rx_ok_def)
  ultimately show ?thesis using eq r by (auto simp: receiver_ok_def editor_inv_def buffer_ok_def)
qed

text \<open>One turn of the routing loop, and what holds before each: the contracts and the invariant.\<close>

definition receive_turn ::
  "'e handlers \<Rightarrow> 'e consumers \<Rightarrow> bool \<Rightarrow> string \<Rightarrow> editor \<times> data_rx \<times> 'e atcmd \<Rightarrow>
   (nat \<times> editor \<times> data_rx \<times> 'e atcmd) option" where
  "receive_turn H C m buf st =
    (if dm_enable (g_data_mode (snd (snd st))) then
       map_option (\<lambda>r. (fst r, fst st, snd r)) (atcmd_receive_data C buf (fst (snd st)) (snd (snd st)))
     else
       map_option (\<lambda>r. (fst r, fst (snd r), fst (snd st), snd (snd r)))
         (atcmd_receive_command H m buf (fst st) (snd (snd st))))"

definition routed_inv ::
  "'e handlers \<Rightarrow> 'e consumers \<Rightarrow> bool \<Rightarrow> string \<Rightarrow> editor \<times> data_rx \<times> 'e atcmd \<Rightarrow> bool" where
  "routed_inv H C m buf st \<longleftrightarrow> handlers_ok H \<and> handlers_dm_ok H \<and> consumers_ok C \<and> receiver_ok st \<and>
     (m \<or> e_alloc (fst st)) \<and> length buf \<le> ATCMD_DATA_LEN_MAX"

lemma receive_turn_ok:
  assumes "routed_inv H C m buf st" and "buf \<noteq> []"
  shows "\<exists>n st'. receive_turn H C m buf st = Some (n, st') \<and> n \<le> length buf \<and> routed_inv H C m (drop n buf) st' \<and>
    (n = 0 \<longrightarrow> dm_enable (g_data_mode (snd (snd st))) \<and> \<not> dm_enable (g_data_mode (snd (snd st'))))"
proof -
  obtain ed rx s where st: "st = (ed, rx, s)" by (cases st) auto
  have c: "handlers_ok H" "handlers_dm_ok H" "consumers_ok C" "m \<or> e_alloc ed" "length buf \<le> ATCMD_DATA_LEN_MAX"
    and ok: "editor_inv ed" "shared_ok s" "dm_ok (g_data_mode s)" "rx_ok rx (g_data_mode s)"
    using assms(1) by (simp_all add: st receiver_ok_def routed_inv_def)
  show ?thesis
  proof (cases "dm_enable (g_data_mode s)")
    case True
    obtain n rx' s' where r: "atcmd_receive_data C buf rx s = Some (n, rx', s')" "n \<le> length buf"
      "n = 0 \<longrightarrow> \<not> dm_enable (g_data_mode s')" "dm_ok (g_data_mode s')" "rx_ok rx' (g_data_mode s')" "shared_ok s'"
      using receive_data_ok [OF c(3) ok(2) True ok(3,4) assms(2) c(5)] by blast
    then show ?thesis using True c ok by (simp add: receive_turn_def routed_inv_def receiver_ok_def st)
  next
    case False
    obtain n ed' s' where r: "atcmd_receive_command H m buf ed s = Some (n, ed', s')" "0 < n" "n \<le> length buf"
      "receiver_ok (ed', rx, s')" "m \<or> e_alloc ed'"
      using receive_command_routed [OF ok(1,2) c(1,2,4) False ok(4) assms(2)] by blast
    then show ?thesis using False c by (simp add: receive_turn_def routed_inv_def st)
  qed
qed

interpretation rxp: chunk_loop "receive_turn H C m" "receive_routed H C m" "\<lambda>st. st" "routed_inv H C m"
    "\<lambda>st. if dm_enable (g_data_mode (snd (snd st))) then 1 else 0" for H C m
proof unfold_locales
  fix st :: "editor \<times> data_rx \<times> 'a atcmd"
  show "receive_routed H C m [] st = Some st" by (simp add: receive_routed.simps)
next
  fix xs n and st st' :: "editor \<times> data_rx \<times> 'a atcmd"
  assume "xs \<noteq> []" and "receive_turn H C m xs st = Some (n, st')"
  then show "receive_routed H C m xs st = receive_routed H C m (drop n xs) st'"
    by (subst receive_routed.simps) (auto simp: receive_turn_def split: if_splits)
next
  fix xs and st :: "editor \<times> data_rx \<times> 'a atcmd"
  assume "routed_inv H C m xs st" and "xs \<noteq> []"
  from receive_turn_ok [OF this] show "\<exists>n st'. receive_turn H C m xs st = Some (n, st') \<and> n \<le> length xs \<and>
      routed_inv H C m (drop n xs) st' \<and> (n = 0 \<longrightarrow> (if dm_enable (g_data_mode (snd (snd st'))) then 1 else 0) <
        (if dm_enable (g_data_mode (snd (snd st))) then 1 else (0::nat)))" by auto
qed

lemma routed_total:
  assumes "handlers_ok H" "handlers_dm_ok H" and "consumers_ok C" and "receiver_ok st"
    and "m \<or> e_alloc (fst st)" and "length buf \<le> ATCMD_DATA_LEN_MAX"
  shows "\<exists>st'. receive_routed H C m buf st = Some st' \<and> receiver_ok st'"
  using rxp.returns [of H C m buf st] assms by (auto simp: routed_inv_def)

subsection \<open>Collecting the announced length\<close>

text \<open>The parts of the state that collecting does not touch.\<close>

definition same_rest :: "'e atcmd \<Rightarrow> 'e atcmd \<Rightarrow> bool" where
  "same_rest s t \<longleftrightarrow> g_env t = g_env s \<and> g_out t = g_out s \<and> g_registry t = g_registry s \<and> g_config t = g_config s \<and>
     params (g_data_mode t) = params (g_data_mode s) \<and> send_len (g_data_mode t) = send_len (g_data_mode s) \<and>
     send_done (g_data_mode t) = send_done (g_data_mode s) \<and> send_drop (g_data_mode t) = send_drop (g_data_mode s)"

text \<open>\<open>collecting\<close>: the bytes \<open>got\<close> have been received of an announced length not yet reached.\<close>

definition collecting :: "data_rx \<Rightarrow> 'e atcmd \<Rightarrow> string \<Rightarrow> bool" where
  "collecting rx s got \<longleftrightarrow> dm_enable (g_data_mode s) \<and> \<not> dm_idle (g_data_mode s) \<and> d_exit rx = 0 \<and>
     length (d_buf rx) = ATCMD_DATA_LEN_MAX \<and> unat (dm_cnt (g_data_mode s)) = length got \<and>
     take (length got) (d_buf rx) = got \<and> length got < unat (send_len (g_data_mode s)) \<and>
     unat (send_len (g_data_mode s)) \<le> ATCMD_DATA_LEN_MAX"

fun feed_data :: "'e consumers \<Rightarrow> string list \<Rightarrow> data_rx \<Rightarrow> 'e atcmd \<Rightarrow> (data_rx \<times> 'e atcmd) option" where
  "feed_data C [] rx s = Some (rx, s)"
| "feed_data C (b # bs) rx s =
    Option.bind (atcmd_receive_data C b rx s)
      (\<lambda>r. if fst r = length b then feed_data C bs (fst (snd r)) (snd (snd r)) else None)"

lemma collect_nat:
  assumes c: "collecting rx s got" and b: "buf \<noteq> []" "length buf \<le> ATCMD_DATA_LEN_MAX"
  shows "atcmd_receive_data C buf rx s =
    (let d = g_data_mode s; L = unat (send_len d); n = length got;
         dl = (\<lambda>src. deliver_data C (params d) (effective_pass d) src (send_len d) (send_done d) (send_drop d));
         part = take (L - n) buf
     in if n + length buf < L then
          map_option (\<lambda>(rx1, s1). (length buf, rx1, atcmd_data_mode_continue s1)) (store_data buf rx s)
        else if n > 0 then map_option (\<lambda>(rx1, s1). (length part, rx1, dl (d_buf rx1) s1)) (store_data part rx s)
        else Some (length part, rx, dl part s))"
proof -
  let ?d = "g_data_mode s" and ?len = "of_nat (length buf) :: u32"
  let ?L = "unat (send_len ?d)" and ?n = "length got"
  have L: "?n < ?L" "?L \<le> 4096" "unat (dm_cnt ?d) = ?n" using c by (simp_all add: collecting_def ATCMD_DATA_LEN_MAX_def)
  have sum: "unat (dm_cnt ?d + ?len) = ?n + length buf" using L b(2) by (simp add: cnt_add ATCMD_DATA_LEN_MAX_def)
  have lt: "dm_cnt ?d + ?len < send_len ?d \<longleftrightarrow> ?n + length buf < ?L" "send_len ?d < dm_cnt ?d + ?len \<longleftrightarrow> ?L < ?n + length buf"
    "0 < dm_cnt ?d \<longleftrightarrow> 0 < ?n"
    using sum L by (simp_all add: word_less_nat_alt)
  have sub: "unat (send_len ?d - dm_cnt ?d) = ?L - ?n" using L by (simp add: unat_sub_if')
  have nz: "\<not> (effective_pass ?d \<and> send_len ?d = 0)" using L by auto
  have part: "(if ?L < ?n + length buf then take (?L - ?n) buf else buf) = take (?L - ?n) buf" by auto
  have "atcmd_receive_data C buf rx s = collect_data C buf rx s"
    using c b by (simp add: atcmd_receive_data_def Let_def collecting_def)
  then show ?thesis
    unfolding collect_data_def Let_def effective_pass_def [symmetric] if_not_P [OF nz] lt sub part .
qed

lemma collect_more:
  assumes c: "collecting rx s got" and b: "buf \<noteq> []" "length got + length buf < unat (send_len (g_data_mode s))"
  shows "\<exists>rx' s'. atcmd_receive_data C buf rx s = Some (length buf, rx', s') \<and> collecting rx' s' (got @ buf) \<and> same_rest s s'"
proof -
  let ?d = "g_data_mode s" and ?n = "length got"
  have L: "unat (send_len ?d) \<le> 4096" "unat (dm_cnt ?d) = ?n" "length (d_buf rx) = 4096" "take ?n (d_buf rx) = got"
    using c by (simp_all add: collecting_def ATCMD_DATA_LEN_MAX_def)
  let ?rx1 = "rx\<lparr>d_buf := memcpy_at (d_buf rx) ?n buf\<rparr>"
  let ?s1 = "s\<lparr>g_data_mode := ?d\<lparr>dm_cnt := dm_cnt ?d + of_nat (length buf)\<rparr>\<rparr>"
  have "store_data buf rx s = Some (?rx1, ?s1)" using store_fits [of s buf rx] L b(2) by (simp add: ATCMD_DATA_LEN_MAX_def)
  then have "atcmd_receive_data C buf rx s = Some (length buf, ?rx1, atcmd_data_mode_continue ?s1)"
    using collect_nat [OF c b(1), of C] b(2) L by (simp add: Let_def ATCMD_DATA_LEN_MAX_def)
  moreover have "collecting ?rx1 (atcmd_data_mode_continue ?s1) (got @ buf)"
  proof -
    have "unat (dm_cnt ?d + of_nat (length buf)) = ?n + length buf" using L b(2) by (simp add: cnt_add)
    moreover have "take (?n + length buf) (memcpy_at (d_buf rx) ?n buf) = got @ buf"
      using L b(2) by (intro memcpy_prefix) auto
    moreover have "length (memcpy_at (d_buf rx) ?n buf) = 4096" using L b(2) by (subst length_memcpy_at) auto
    ultimately show ?thesis using c b(2)
      by (simp add: collecting_def continue_dm ATCMD_DATA_LEN_MAX_def)
  qed
  moreover have "same_rest s (atcmd_data_mode_continue ?s1)"
    using c by (simp add: same_rest_def continue_dm collecting_def)
      (simp add: atcmd_data_mode_continue_def atcmd_data_mode_task_resume_def)
  ultimately show ?thesis by blast
qed

lemma sink_take: "receive_data_sink C ty i (take (unat n) src) n s = receive_data_sink C ty i src n s"
  by (simp add: receive_data_sink_def split: data_type.split)

lemma deliver_take: "deliver_data C p pass (take (unat n) src) n dn drp s = deliver_data C p pass src n dn drp s"
  by (simp add: deliver_data_def sink_take)

text \<open>The packet that reaches the length: exactly the announced bytes are handed over.\<close>

lemma collect_last:
  assumes c: "collecting rx s got" and b: "buf \<noteq> []" "length buf \<le> ATCMD_DATA_LEN_MAX"
    and full: "unat (send_len (g_data_mode s)) \<le> length got + length buf"
  shows "\<exists>rx' s2. atcmd_receive_data C buf rx s = Some (unat (send_len (g_data_mode s)) - length got, rx',
      deliver_data C (params (g_data_mode s)) (effective_pass (g_data_mode s))
        (take (unat (send_len (g_data_mode s))) (got @ buf)) (send_len (g_data_mode s))
        (send_done (g_data_mode s)) (send_drop (g_data_mode s)) s2) \<and> same_rest s s2"
proof -
  let ?d = "g_data_mode s" and ?n = "length got"
  let ?L = "unat (send_len ?d)"
  have L: "?L \<le> 4096" "unat (dm_cnt ?d) = ?n" "length (d_buf rx) = 4096" "take ?n (d_buf rx) = got" "?n < ?L"
    using c by (simp_all add: collecting_def ATCMD_DATA_LEN_MAX_def)
  let ?part = "take (?L - ?n) buf"
  have pl: "length ?part = ?L - ?n" using full by simp
  have stream: "take ?L (got @ buf) = got @ ?part" using L(5) by simp
  show ?thesis
  proof (cases "?n > 0")
    case True
    let ?rx1 = "rx\<lparr>d_buf := memcpy_at (d_buf rx) ?n ?part\<rparr>"
    let ?s1 = "s\<lparr>g_data_mode := ?d\<lparr>dm_cnt := dm_cnt ?d + of_nat (length ?part)\<rparr>\<rparr>"
    have "store_data ?part rx s = Some (?rx1, ?s1)"
      using store_fits [of s ?part rx] L pl by (simp add: ATCMD_DATA_LEN_MAX_def)
    then have r: "atcmd_receive_data C buf rx s = Some (?L - ?n, ?rx1,
        deliver_data C (params ?d) (effective_pass ?d) (d_buf ?rx1) (send_len ?d) (send_done ?d) (send_drop ?d) ?s1)"
      using collect_nat [OF c b, of C] full True pl by (simp add: Let_def del: length_take)
    have "take (?n + length ?part) (memcpy_at (d_buf rx) ?n ?part) = got @ ?part"
      using L pl by (intro memcpy_prefix) auto
    then have "take ?L (d_buf ?rx1) = take ?L (got @ buf)" unfolding stream pl using L(5) by simp
    then have "deliver_data C (params ?d) (effective_pass ?d) (d_buf ?rx1) (send_len ?d) (send_done ?d) (send_drop ?d) ?s1 =
        deliver_data C (params ?d) (effective_pass ?d) (take ?L (got @ buf)) (send_len ?d) (send_done ?d) (send_drop ?d) ?s1"
      by (metis deliver_take)
    moreover have "same_rest s ?s1" by (simp add: same_rest_def)
    ultimately show ?thesis using r by metis
  next
    case False
    then have "atcmd_receive_data C buf rx s = Some (?L - ?n, rx,
        deliver_data C (params ?d) (effective_pass ?d) ?part (send_len ?d) (send_done ?d) (send_drop ?d) s)"
      using collect_nat [OF c b, of C] full pl by (simp add: Let_def del: length_take)
    moreover have "?part = take ?L (got @ buf)" using False by simp
    moreover have "same_rest s s" by (simp add: same_rest_def)
    ultimately show ?thesis by metis
  qed
qed

lemma same_rest_trans: "same_rest s t \<Longrightarrow> same_rest t u \<Longrightarrow> same_rest s u"
  by (simp add: same_rest_def)

lemma feed_collects:
  assumes "collecting rx s got" and "[] \<notin> set ps"
    and "length got + length (concat ps) < unat (send_len (g_data_mode s))"
  shows "\<exists>rx' s'. feed_data C ps rx s = Some (rx', s') \<and> collecting rx' s' (got @ concat ps) \<and> same_rest s s'"
  using assms
proof (induction ps arbitrary: rx s got)
  case Nil
  then show ?case by (simp add: same_rest_def)
next
  case (Cons b ps)
  obtain rx1 s1 where st: "atcmd_receive_data C b rx s = Some (length b, rx1, s1)" "collecting rx1 s1 (got @ b)" "same_rest s s1"
    using collect_more [OF Cons.prems(1), of b C] Cons.prems(2,3) by auto
  have L: "send_len (g_data_mode s1) = send_len (g_data_mode s)" using st(3) by (simp add: same_rest_def)
  obtain rx2 s2 where "feed_data C ps rx1 s1 = Some (rx2, s2)" "collecting rx2 s2 ((got @ b) @ concat ps)" "same_rest s1 s2"
    using Cons.IH [OF st(2)] Cons.prems(2,3) L by auto
  then show ?case using st same_rest_trans by auto
qed

end
