(* ===== verification/AtcmdDataProps.thy ===== *)
theory AtcmdDataProps
  imports AtcmdServe AtcmdDataMode
begin

text \<open>
  Properties of the data mode and of the routing of received packets, over the model of
  \<open>AtcmdDataMode\<close>.
\<close>

subsection \<open>Examples\<close>

definition demo_consumers :: "string list consumers" where
  "demo_consumers = \<lparr>send = (\<lambda>k b s. (int (length b), s\<lparr>g_env := g_env s @ [b]\<rparr>)),
     event = (\<lambda>e s. atcmd_transmit ''!'' s)\<rparr>"

lemma demo_consumers_ok: "consumers_ok demo_consumers"
  by (simp add: consumers_ok_def demo_consumers_def) (simp add: shared_ok_def)

lemma demo_handlers_dm_ok: "handlers_dm_ok demo_handlers"
  by (simp add: handlers_dm_ok_def demo_handlers_def dm_ok_def)

definition demo_rx :: data_rx where
  "demo_rx = \<lparr>d_buf = replicate ATCMD_DATA_LEN_MAX NUL, d_exit = 0\<rparr>"

text \<open>The state after \<open>AT+SSEND\<close> announced five bytes.\<close>

definition demo_data :: "string list atcmd" where
  "demo_data = snd (atcmd_data_mode_enable
     (Some ((atcmd_data_mode_init_params ATCMD_DATA_SSEND)\<lparr>dm_id := 1, dm_len := 5, dm_timeout := 1000\<rparr>))
     (demo_atcmd demo_served []))"

lemma demo_data_mode: "g_data_mode demo_data =
   \<lparr>params = (atcmd_data_mode_init_params ATCMD_DATA_SSEND)\<lparr>dm_id := 1, dm_len := 5, dm_timeout := 1000\<rparr>,
    dm_task = True, dm_enable = True, dm_idle = False, dm_cnt = 0, send_len = 5, send_done = 0, send_drop = 0,
    send_timeout = 1100, last_send_time = 0\<rparr>" "g_env demo_data = []"
  by (simp_all add: demo_data_def atcmd_data_mode_enable_def demo_atcmd_def atcmd_data_mode_init_params_def)

lemma demo_collecting: "collecting demo_rx demo_data []"
  by (simp add: collecting_def demo_rx_def demo_data_mode ATCMD_DATA_LEN_MAX_def)

lemma demo_data_shared: "shared_ok demo_data"
  using demo_shared by (simp add: demo_data_def atcmd_data_mode_enable_def demo_atcmd_def shared_ok_def
      atcmd_data_mode_init_params_def)

subsection \<open>Properties\<close>

text \<open>The consumer a data mode of the parameters \<open>p\<close> is for, and the events that report the outcome.\<close>

definition announced_sink :: "dm_params \<Rightarrow> data_sink option" where
  "announced_sink p =
    (case data_type p of
       ATCMD_DATA_SSEND \<Rightarrow> Some (SocketSend (dm_id p))
     | ATCMD_DATA_FWBINDL \<Rightarrow> Some FirmwareDownload
     | ATCMD_DATA_SFUSER \<Rightarrow> Some (SfUserWrite (sfuser_offset p))
     | _ \<Rightarrow> None)"

definition report_events :: "'e consumers \<Rightarrow> dm_params \<Rightarrow> u32 \<Rightarrow> u32 \<Rightarrow> 'e atcmd \<Rightarrow> 'e atcmd" where
  "report_events C p dn drp s =
    (let s1 = (if drp > 0 then receive_data_drop C (data_type p) (dm_id p) drp s else s)
     in if done_event p then receive_data_done C (data_type p) (dm_id p) dn s1 else s1)"

lemma deliver_calls_sink:
  assumes "announced_sink p = Some k" and "params (g_data_mode s) = p" and "0 < sint n"
    and "send C k (take (unat n) src) s = (ret, s1)"
  shows "deliver_data C p pass src n dn drp s =
    (if pass then atcmd_data_mode_continue (report_events C p (of_int ret) (n - of_int ret)
       (s1\<lparr>g_data_mode := (g_data_mode s1)\<lparr>dm_cnt := 0, send_done := dn + of_int ret, send_drop := drp + (n - of_int ret)\<rparr>\<rparr>))
     else snd (atcmd_data_mode_disable (report_events C p (dn + of_int ret) (drp + (n - of_int ret)) s1)))"
proof -
  have "receive_data_sink C (data_type p) (dm_id p) src n s = (ret, s1)"
    using assms by (auto simp: receive_data_sink_def announced_sink_def split: data_type.splits)
  then show ?thesis by (simp add: deliver_data_def report_events_def Let_def)
qed

text \<open>C23: However the host splits the announced number of bytes into packets, the consumer of the data
  mode (the socket, the firmware download or the user area write) is called exactly once, with
  exactly these bytes, in order and in one piece.  While the length is not reached every packet is
  stored completely and nothing else of the shared state is touched, so no consumer runs; the packet
  that reaches the length is consumed up to the last announced byte and no further, the consumer is
  called, and from the state it leaves only the counters, the drop and done events with the number of
  bytes it refused and took, and the end of the data mode (its continuation in passthrough mode)
  follow.\<close>

theorem data_split_independent:
  assumes "collecting rx s []" and "[] \<notin> set ps" and "d = g_data_mode s" and "L = unat (send_len d)"
    and "length (concat ps) < L" and "L \<le> length (concat ps @ q)" and "length q \<le> ATCMD_DATA_LEN_MAX"
    and "announced_sink (params d) = Some k"
  shows "\<exists>rx1 s1 rx2 s2 ret s3. feed_data C ps rx s = Some (rx1, s1) \<and> same_rest s s1 \<and> same_rest s s2 \<and>
    send C k (take L (concat ps @ q)) s2 = (ret, s3) \<and>
    atcmd_receive_data C q rx1 s1 = Some (L - length (concat ps), rx2,
      if effective_pass d
      then atcmd_data_mode_continue (report_events C (params d) (of_int ret) (send_len d - of_int ret)
        (s3\<lparr>g_data_mode := (g_data_mode s3)\<lparr>dm_cnt := 0, send_done := send_done d + of_int ret,
           send_drop := send_drop d + (send_len d - of_int ret)\<rparr>\<rparr>))
      else snd (atcmd_data_mode_disable
        (report_events C (params d) (send_done d + of_int ret) (send_drop d + (send_len d - of_int ret)) s3)))"
proof -
  obtain rx1 s1 where f: "feed_data C ps rx s = Some (rx1, s1)" "collecting rx1 s1 (concat ps)" "same_rest s s1"
    using feed_collects [OF assms(1,2), of C] assms(3-5) by auto
  have e: "params (g_data_mode s1) = params d" "send_len (g_data_mode s1) = send_len d"
    "send_done (g_data_mode s1) = send_done d" "send_drop (g_data_mode s1) = send_drop d"
    using f(3) by (simp_all add: same_rest_def assms(3))
  then have p: "effective_pass (g_data_mode s1) = effective_pass d" by (simp add: effective_pass_def)
  have q: "q \<noteq> []" using assms(5,6) by auto
  obtain rx2 s2 where r: "atcmd_receive_data C q rx1 s1 = Some (L - length (concat ps), rx2,
      deliver_data C (params d) (effective_pass d) (take L (concat ps @ q))
        (send_len d) (send_done d) (send_drop d) s2)" "same_rest s1 s2"
    using collect_last [OF f(2) q assms(7), of C] assms(4,6) by (auto simp: e p)
  have rest: "same_rest s s2" using f(3) r(2) by (rule same_rest_trans)
  then have p2: "params (g_data_mode s2) = params d" by (simp add: same_rest_def assms(3))
  have "unat (send_len d) \<le> 4096" using assms(1,3) by (simp add: collecting_def ATCMD_DATA_LEN_MAX_def)
  then have pos: "0 < sint (send_len d)" using assms(4,5) sint_small_u32 [of "send_len d"] by (simp del: of_nat_unat)
  obtain ret s3 where sd: "send C k (take L (concat ps @ q)) s2 = (ret, s3)" by fastforce
  then have sd': "send C k (take (unat (send_len d)) (take L (concat ps @ q))) s2 = (ret, s3)"
    unfolding assms(4) [symmetric] take_take by simp
  show ?thesis
    using f(1,3) rest sd r(1) unfolding deliver_calls_sink [OF assms(8) p2 pos sd'] by blast
qed

theorem data_split_independent_witness:
  "\<exists>rx1 s1 rx2 s2. feed_data demo_consumers [''he'', ''l''] demo_rx demo_data = Some (rx1, s1) \<and> g_env s1 = [] \<and>
     atcmd_receive_data demo_consumers ''loAT'' rx1 s1 = Some (2, rx2, s2) \<and> g_env s2 = [''hello'']"
proof -
  have L: "5 = unat (send_len (g_data_mode demo_data))" by (simp add: demo_data_mode)
  have k: "announced_sink (params (g_data_mode demo_data)) = Some (SocketSend 1)"
    by (simp add: demo_data_mode announced_sink_def atcmd_data_mode_init_params_def)
  have np: "\<not> effective_pass (g_data_mode demo_data)"
    by (simp add: demo_data_mode effective_pass_def atcmd_data_mode_init_params_def)
  have env: "g_env (snd (atcmd_data_mode_disable (report_events demo_consumers p dn drp s))) = g_env s" for p dn drp s
    by (simp add: report_events_def demo_consumers_def receive_data_drop_def receive_data_done_def Let_def
        atcmd_data_mode_disable_def atcmd_transmit_def split: data_type.split)
  obtain rx1 s1 rx2 s2 ret s3 where w: "feed_data demo_consumers [''he'', ''l''] demo_rx demo_data = Some (rx1, s1)"
    "same_rest demo_data s1" "same_rest demo_data s2"
    "send demo_consumers (SocketSend 1) (take 5 (concat [''he'', ''l''] @ ''loAT'')) s2 = (ret, s3)"
    "\<exists>p dn drp. atcmd_receive_data demo_consumers ''loAT'' rx1 s1 = Some (5 - length (concat [''he'', ''l'']), rx2,
       snd (atcmd_data_mode_disable (report_events demo_consumers p dn drp s3)))"
    using data_split_independent [OF demo_collecting _ refl L _ _ _ k, of "[''he'', ''l'']" "''loAT''" demo_consumers] np
    by (simp add: ATCMD_DATA_LEN_MAX_def) blast
  have "g_env s1 = []" "g_env s2 = []" using w(2,3) demo_data_mode(2) by (simp_all add: same_rest_def)
  moreover from this have "g_env s3 = [''hello'']" using w(4) by (auto simp: demo_consumers_def numeral_eq_Suc)
  ultimately show ?thesis using w(1,5) env by auto
qed

text \<open>C14: Every received packet is processed to its end and the receiver stays sound, whatever its
  bytes are and however commands and data interleave in it: commands that enter the data mode, data
  that completes it, exit commands and the following commands.  The handlers and consumers keep the
  contracts stated with them, and the line buffer exists or can be allocated (otherwise
  \<open>atcmd_receive\<close> spins on a zero result).\<close>

theorem receive_returns:
  assumes "handlers_ok H" and "handlers_dm_ok H" and "consumers_ok C" and "receiver_ok st"
    and "m \<or> e_alloc (fst st)" and "length buf \<le> ATCMD_DATA_LEN_MAX"
  shows "\<exists>st'. atcmd_receive H C m buf st = Some st' \<and> receiver_ok st'"
  unfolding atcmd_receive_def by (rule routed_total [OF assms])

theorem receive_returns_witness:
  "\<exists>st'. atcmd_receive demo_handlers demo_consumers True (''hello'' @ ''AT+VER=1'' @ [LF] @ ''AT'')
      (demo_editor, demo_rx, demo_data) = Some st' \<and> receiver_ok st'"
proof -
  have "receiver_ok (demo_editor, demo_rx, demo_data)"
    using demo_editing demo_data_shared
    by (simp add: receiver_ok_def editing_def editor_inv_def dm_ok_def rx_ok_def demo_rx_def demo_data_mode
        atcmd_data_mode_init_params_def effective_pass_def ATCMD_DATA_LEN_MAX_def)
  from receive_returns [OF demo_handlers_ok demo_handlers_dm_ok demo_consumers_ok this] show ?thesis
    by (simp add: ATCMD_DATA_LEN_MAX_def)
qed

text \<open>The idle timer is exact over the wrap-around of the millisecond counter: \<open>k\<close> milliseconds after
  the last data, before the timeout, the task sleeps exactly the rest of the timeout; from the
  timeout on it raises the idle event once, with the elapsed time, and marks the mode idle.\<close>

theorem idle_timer_exact:
  assumes "dm_enable (g_data_mode s)" and "last_send_time (g_data_mode s) \<noteq> 0" and "send_timeout (g_data_mode s) \<noteq> 0"
    and "g_now s = last_send_time (g_data_mode s) + of_nat k" and "k < 2 ^ 32"
    and "s1 = atcmd_data_mode_timeout C (of_nat k) s"
  shows "data_mode_task_pass C s =
    (if k < unat (send_timeout (g_data_mode s)) then (Some (of_nat (unat (send_timeout (g_data_mode s)) - k)), s)
     else if dm_idle (g_data_mode s) then (None, s)
     else (None, s1\<lparr>g_data_mode := (g_data_mode s1)\<lparr>dm_idle := True\<rparr>\<rparr>))"
proof -
  let ?d = "g_data_mode s"
  have "(0xffffffff :: u32) = -1" by simp
  then have e: "elapsed_time (g_now s) (last_send_time ?d) = of_nat k" using assms(4) by (simp add: elapsed_time_def)
  have k: "unat (of_nat k :: u32) = k" using assms(5) by simp
  then have "of_nat (unat (send_timeout ?d) - k) = send_timeout ?d - of_nat k" if "k < unat (send_timeout ?d)"
    using that by (simp add: of_nat_diff)
  moreover have "(of_nat k :: u32) < send_timeout ?d \<longleftrightarrow> k < unat (send_timeout ?d)" using k by (simp add: word_less_nat_alt)
  moreover have "last_send_time ?d > 0" "send_timeout ?d > 0" using assms(2,3) by (simp_all add: word_gt_0)
  ultimately show ?thesis using assms(1,6) by (simp add: data_mode_task_pass_def e Let_def)
qed

theorem idle_timer_exact_witness:
  "data_mode_task_pass demo_consumers
     (demo_data\<lparr>g_now := 84, g_data_mode := (g_data_mode demo_data)\<lparr>last_send_time := 0xFFFFFFF0\<rparr>\<rparr>) =
   (Some 1000, demo_data\<lparr>g_now := 84, g_data_mode := (g_data_mode demo_data)\<lparr>last_send_time := 0xFFFFFFF0\<rparr>\<rparr>)"
proof -
  let ?s = "demo_data\<lparr>g_now := 84, g_data_mode := (g_data_mode demo_data)\<lparr>last_send_time := 0xFFFFFFF0\<rparr>\<rparr>"
  from idle_timer_exact [of ?s 100 "atcmd_data_mode_timeout demo_consumers (of_nat 100) ?s" demo_consumers]
  show ?thesis by (simp add: demo_data_mode)
qed

lemma scan_exit_match:
  "scan_exit (p @ c # e) (length p) i ((c # e) @ r) = ScanExit (i + length e)"
proof (induction e arbitrary: p c i)
  case (Cons x e)
  then show ?case using Cons.IH [of "p @ [c]" x "Suc i"] by (simp add: nth_append)
qed (simp add: nth_append)

text \<open>While the data mode is idle, a packet that is the exit command leaves it: the host reads OK, then
  the exit event with the counters of the transfer; the mode is off.  The last byte of the command is
  not consumed but left to the command editor.\<close>

theorem exit_command_leaves:
  assumes "consumers_ok C" and "shared_ok s" and "dm_enable (g_data_mode s)" and "dm_idle (g_data_mode s)"
    and "dm_ok (g_data_mode s)" and "d_exit rx = 0" and "d = g_data_mode s" and "\<not> effective_pass d"
    and "buf = exit_text d @ r"
    and "s1 = receive_data_exit C (data_type (params d)) (dm_id (params d)) (send_len d) (send_done d) (send_drop d)
      (atcmd_data_mode_continue (atcmd_transmit (''OK'' @ [CR, LF]) s))"
  shows "atcmd_receive_data C buf rx s = Some (length (exit_text d) - 1, rx, snd (atcmd_data_mode_disable s1)) \<and>
    \<not> dm_enable (g_data_mode (snd (atcmd_data_mode_disable s1)))"
proof -
  let ?e = "exit_text d"
  have ne: "?e \<noteq> []" using exit_text_nonempty assms(3,5,7) by blast
  then obtain c e where e: "?e = c # e" by (cases ?e) auto
  have "scan_exit ?e 0 0 buf = ScanExit (length ?e - 1)"
    using scan_exit_match [of "[]" c e 0 r] e assms(9) by simp
  moreover have "(case exit_cmd (params (g_data_mode s)) of None \<Rightarrow> ''AT'' @ [CR, LF] | Some x \<Rightarrow> x) = ?e"
    by (simp add: exit_text_def assms(7))
  ultimately have "atcmd_receive_data C buf rx s = leave_data_mode C (params d) ?e (length ?e - 1) buf rx s"
    using assms(3,4,6,9) ne by (simp add: atcmd_receive_data_def Let_def assms(7) [symmetric])
  also have "\<dots> = Some (length ?e - 1, rx, snd (atcmd_data_mode_disable s1))"
  proof -
    have "\<not> length ?e - 1 \<ge> length ?e" using e by simp
    moreover have "\<not> (data_type (params d) = ATCMD_DATA_SSEND \<and> passthrough (params d))"
      using assms(8) by (simp add: effective_pass_def)
    moreover have "rx\<lparr>d_exit := 0\<rparr> = rx" using assms(6) by simp
    ultimately show ?thesis
      by (cases "data_type (params d) = ATCMD_DATA_SSEND")
        (simp_all add: leave_data_mode_def transmit_return_success Let_def assms(7) [symmetric] assms(10))
  qed
  finally show ?thesis by (simp add: disable_keeps)
qed

theorem exit_command_leaves_witness:
  "\<exists>s1. atcmd_receive_data demo_consumers (''AT'' @ [CR, LF]) demo_rx
      (demo_data\<lparr>g_data_mode := (g_data_mode demo_data)\<lparr>dm_idle := True\<rparr>\<rparr>) =
    Some (3, demo_rx, snd (atcmd_data_mode_disable s1))"
proof -
  let ?s = "demo_data\<lparr>g_data_mode := (g_data_mode demo_data)\<lparr>dm_idle := True\<rparr>\<rparr>"
  have "shared_ok ?s" using demo_data_shared by simp
  moreover have "exit_text (g_data_mode ?s) = ''AT'' @ [CR, LF]"
    by (simp add: demo_data_mode exit_text_def atcmd_data_mode_init_params_def)
  moreover have "dm_ok (g_data_mode ?s)" "\<not> effective_pass (g_data_mode ?s)" "dm_enable (g_data_mode ?s)" "dm_idle (g_data_mode ?s)"
    by (simp_all add: demo_data_mode dm_ok_def effective_pass_def atcmd_data_mode_init_params_def ATCMD_DATA_LEN_MAX_def)
  ultimately show ?thesis
    using exit_command_leaves [OF demo_consumers_ok, of ?s demo_rx "g_data_mode ?s" "''AT'' @ [CR, LF]" "[]"]
    by (fastforce simp: demo_rx_def)
qed

lemma scan_exit_prefix:
  "Suc 0 \<le> length e \<Longrightarrow> scan_exit (p @ t @ e) (length p) i t = ScanMore (length p + length t)"
proof (induction t arbitrary: p i)
  case (Cons x t)
  then show ?case using Cons.IH [of "p @ [x]" "Suc i"] by (auto simp: nth_append)
qed simp

text \<open>A part of the exit command received while idle is swallowed: if the next packet does not go on
  with the exit command, it is processed as if the part had never been sent, so payload that happens
  to begin like the exit command is lost when the packet ends within that beginning.\<close>

theorem exit_prefix_is_lost:
  assumes "dm_enable (g_data_mode s)" and "dm_idle (g_data_mode s)" and "d_exit rx = 0"
    and "exit_text (g_data_mode s) = t @ x # e" and "t \<noteq> []" and "c \<noteq> x"
  shows "Option.bind (atcmd_receive_data C t rx s) (\<lambda>(n, rx1, s1). atcmd_receive_data C (c # cs) rx1 s1) =
    collect_data C (c # cs) rx s"
proof -
  have ex: "(case exit_cmd (params (g_data_mode s)) of None \<Rightarrow> ''AT'' @ [CR, LF] | Some x \<Rightarrow> x) = t @ x # e"
    using assms(4) by (simp add: exit_text_def)
  have "scan_exit (t @ x # e) 0 0 t = ScanMore (length t)" using scan_exit_prefix [of "x # e" "[]" t 0] by simp
  then have "atcmd_receive_data C t rx s = Some (length t, rx\<lparr>d_exit := length t\<rparr>, s)"
    using assms(1-3,5) ex by (simp add: atcmd_receive_data_def Let_def)
  moreover have rx: "rx\<lparr>d_exit := 0\<rparr> = rx" using assms(3) by simp
  moreover have "scan_exit (t @ x # e) (length t) 0 (c # cs) = ScanOther" using assms(6) by (simp add: nth_append)
  then have "atcmd_receive_data C (c # cs) (rx\<lparr>d_exit := length t\<rparr>) s = collect_data C (c # cs) rx s"
    using assms(1-3) ex arg_cong [OF rx, of "\<lambda>r. collect_data C (c # cs) r s"]
    by (simp add: atcmd_receive_data_def Let_def del: scan_exit.simps)
  ultimately show ?thesis by simp
qed

theorem exit_prefix_is_lost_witness:
  "Option.bind (atcmd_receive_data demo_consumers ''A'' demo_rx (demo_data\<lparr>g_data_mode := (g_data_mode demo_data)\<lparr>dm_idle := True\<rparr>\<rparr>))
     (\<lambda>(n, rx1, s1). atcmd_receive_data demo_consumers (CHR ''B'' # ''C'') rx1 s1) =
   collect_data demo_consumers (CHR ''B'' # ''C'') demo_rx (demo_data\<lparr>g_data_mode := (g_data_mode demo_data)\<lparr>dm_idle := True\<rparr>\<rparr>)"
  by (rule exit_prefix_is_lost [where x = "CHR ''T''" and e = "[CR, LF]"])
    (simp_all add: demo_data_mode exit_text_def atcmd_data_mode_init_params_def demo_rx_def)

end
