(* ===== verification/HostAtcmd.thy ===== *)
theory HostAtcmd
  imports AtcmdState ChunkLoop "HOL-Library.Monad_Syntax"
begin

text \<open>
  The host side of the AT command protocol, \<open>raspi-atcmd-cli/nrc-atcmd.c\<close>: the receiver that turns
  the bytes read from the target into results, messages, events and data blocks for the registered
  callbacks, and the sender.  The callbacks work on a state of their own, \<open>h_env\<close>; the logging and
  the hex dump are left out.  \<open>None\<close> is undefined behaviour: an access outside an array, or
  \<open>atoi\<close> of a number that is no \<open>int\<close>.
\<close>

subsection \<open>Types and state\<close>

definition HOST_MSG_LEN_MIN :: nat where "HOST_MSG_LEN_MIN = 4"
definition HOST_MSG_LEN_MAX :: nat where "HOST_MSG_LEN_MAX = 128"
definition HOST_DATA_LEN_MAX :: nat where "HOST_DATA_LEN_MAX = 4096"
definition ATCMD_IPADDR_LEN_MIN :: nat where "ATCMD_IPADDR_LEN_MIN = 3"
definition ATCMD_IPADDR_LEN_MAX :: nat where "ATCMD_IPADDR_LEN_MAX = 45"

definition ATCMD_RET_TIMEOUT :: int where "ATCMD_RET_TIMEOUT = -2"
definition ATCMD_RET_ERROR :: int where "ATCMD_RET_ERROR = -1"
definition ATCMD_RET_OK :: int where "ATCMD_RET_OK = 0"
definition ATCMD_RET_NONE :: int where "ATCMD_RET_NONE = 1"

datatype host_event =
    ATCMD_BEVENT_FWBINDL_IDLE | ATCMD_BEVENT_FWBINDL_DROP | ATCMD_BEVENT_FWBINDL_FAIL
  | ATCMD_BEVENT_FWBINDL_DONE
  | ATCMD_BEVENT_SFUSER_IDLE | ATCMD_BEVENT_SFUSER_DROP | ATCMD_BEVENT_SFUSER_FAIL
  | ATCMD_BEVENT_SFUSER_DONE
  | ATCMD_WEVENT_CONNECT_SUCCESS | ATCMD_WEVENT_DISCONNECT
  | ATCMD_WEVENT_DHCP_START | ATCMD_WEVENT_DHCP_STOP | ATCMD_WEVENT_DHCP_BUSY
  | ATCMD_WEVENT_DHCP_FAIL | ATCMD_WEVENT_DHCP_SUCCESS | ATCMD_WEVENT_DHCP_TIMEOUT
  | ATCMD_WEVENT_FOTA_VERSION | ATCMD_WEVENT_FOTA_BINARY | ATCMD_WEVENT_FOTA_DOWNLOAD
  | ATCMD_WEVENT_FOTA_UPDATE | ATCMD_WEVENT_FOTA_FAIL | ATCMD_WEVENT_DEEPSLEEP_WAKEUP
  | ATCMD_SEVENT_CONNECT | ATCMD_SEVENT_CLOSE | ATCMD_SEVENT_SEND_IDLE | ATCMD_SEVENT_SEND_DROP
  | ATCMD_SEVENT_SEND_EXIT | ATCMD_SEVENT_SEND_ERROR | ATCMD_SEVENT_RECV_READY
  | ATCMD_SEVENT_RECV_ERROR

text \<open>The name table of \<open>nrc_atcmd_recv_event\<close>, in the order of the enumeration.\<close>

definition event_names :: "(string \<times> host_event) list" where
  "event_names =
    [(''FWBINDL_IDLE'', ATCMD_BEVENT_FWBINDL_IDLE), (''FWBINDL_DROP'', ATCMD_BEVENT_FWBINDL_DROP),
     (''FWBINDL_FAIL'', ATCMD_BEVENT_FWBINDL_FAIL), (''FWBINDL_DONE'', ATCMD_BEVENT_FWBINDL_DONE),
     (''SFUSER_IDLE'', ATCMD_BEVENT_SFUSER_IDLE), (''SFUSER_DROP'', ATCMD_BEVENT_SFUSER_DROP),
     (''SFUSER_FAIL'', ATCMD_BEVENT_SFUSER_FAIL), (''SFUSER_DONE'', ATCMD_BEVENT_SFUSER_DONE),
     (''CONNECT_SUCCESS'', ATCMD_WEVENT_CONNECT_SUCCESS), (''DISCONNECT'', ATCMD_WEVENT_DISCONNECT),
     (''DHCP_START'', ATCMD_WEVENT_DHCP_START), (''DHCP_STOP'', ATCMD_WEVENT_DHCP_STOP),
     (''DHCP_BUSY'', ATCMD_WEVENT_DHCP_BUSY), (''DHCP_FAIL'', ATCMD_WEVENT_DHCP_FAIL),
     (''DHCP_SUCCESS'', ATCMD_WEVENT_DHCP_SUCCESS), (''DHCP_TIMEOUT'', ATCMD_WEVENT_DHCP_TIMEOUT),
     (''FOTA_VERSION'', ATCMD_WEVENT_FOTA_VERSION), (''FOTA_BINARY'', ATCMD_WEVENT_FOTA_BINARY),
     (''FOTA_DOWNLOAD'', ATCMD_WEVENT_FOTA_DOWNLOAD), (''FOTA_UPDATE'', ATCMD_WEVENT_FOTA_UPDATE),
     (''FOTA_FAIL'', ATCMD_WEVENT_FOTA_FAIL), (''DEEPSLEEP_WAKEUP'', ATCMD_WEVENT_DEEPSLEEP_WAKEUP),
     (''CONNECT'', ATCMD_SEVENT_CONNECT), (''CLOSE'', ATCMD_SEVENT_CLOSE),
     (''SEND_IDLE'', ATCMD_SEVENT_SEND_IDLE), (''SEND_DROP'', ATCMD_SEVENT_SEND_DROP),
     (''SEND_EXIT'', ATCMD_SEVENT_SEND_EXIT), (''SEND_ERROR'', ATCMD_SEVENT_SEND_ERROR),
     (''RECV_READY'', ATCMD_SEVENT_RECV_READY), (''RECV_ERROR'', ATCMD_SEVENT_RECV_ERROR)]"

text \<open>\<open>atcmd_rxd_t\<close>: the type tag with the member of the union it selects.\<close>

datatype rxd =
    RxdSocket (rxd_length: int) int string int bool
  | RxdSfuser (rxd_length: int) int
  | RxdSfsysuser (rxd_length: int) int

datatype msg_type =
    ATCMD_MSG_ERROR | ATCMD_MSG_OK | ATCMD_MSG_INFO | ATCMD_MSG_BOOT | ATCMD_MSG_BEVENT
  | ATCMD_MSG_WEVENT | ATCMD_MSG_SEVENT | ATCMD_MSG_DATA_SOCKET | ATCMD_MSG_DATA_SFUSER
  | ATCMD_MSG_DATA_SFSYSUSER | ATCMD_MSG_NONE

text \<open>
  \<open>ret_signals\<close> counts the signals sent on the condition variable of the return value.  \<open>m_type\<close>,
  \<open>m_cnt\<close>, \<open>m_buf\<close> are the static \<open>msg\<close> of \<open>nrc_atcmd_recv\<close>, \<open>r_rxd\<close>, \<open>r_cnt\<close>, \<open>r_buf\<close> its
  static \<open>data\<close>.  The callbacks get the number of arguments, the arguments and their state.
\<close>

record 'e host =
  h_ready :: bool
  data_send :: u32
  data_recv :: u32
  ret_val :: int
  ret_signals :: nat
  cb_boot :: "(u32 \<Rightarrow> 'e \<Rightarrow> 'e) option"
  cb_info :: "(string \<Rightarrow> nat \<Rightarrow> string list \<Rightarrow> 'e \<Rightarrow> 'e) option"
  cb_event :: "(host_event \<Rightarrow> nat \<Rightarrow> string list \<Rightarrow> 'e \<Rightarrow> 'e) option"
  cb_rxd :: "(rxd \<Rightarrow> string \<Rightarrow> 'e \<Rightarrow> 'e) option"
  m_type :: msg_type
  m_cnt :: nat
  m_buf :: string
  r_rxd :: "rxd option"
  r_cnt :: nat
  r_buf :: string
  h_env :: 'e

definition nrc_atcmd_set_ready :: "bool \<Rightarrow> 'e host \<Rightarrow> 'e host" where
  "nrc_atcmd_set_ready b h = h\<lparr>h_ready := b\<rparr>"

definition nrc_atcmd_set_return :: "int \<Rightarrow> 'e host \<Rightarrow> 'e host" where
  "nrc_atcmd_set_return v h = h\<lparr>ret_val := v, ret_signals := Suc (ret_signals h)\<rparr>"

definition nrc_atcmd_init_return :: "'e host \<Rightarrow> 'e host" where
  "nrc_atcmd_init_return h = h\<lparr>ret_val := ATCMD_RET_NONE\<rparr>"

subsection \<open>Strings\<close>

text \<open>
  \<open>nrc_atcmd_param_to_str\<close> on a memory that holds the parameter at \<open>param\<close> and the destination at
  \<open>str\<close>, the same place when it is called from \<open>nrc_atcmd_recv_event\<close>: the memory afterwards, or
  \<open>None\<close> when it refuses.  The \<open>memcpy\<close> between overlapping regions is taken to move the bytes.
\<close>

definition nrc_atcmd_param_to_str :: "string \<Rightarrow> nat option \<Rightarrow> nat option \<Rightarrow> int \<Rightarrow> string option" where
  "nrc_atcmd_param_to_str mem param str len =
    (case (param, str) of
       (Some p, Some q) \<Rightarrow>
         let n = length (c_str mem p)
         in if len = 0 then None
            else if n \<le> 2 \<or> int n - 2 > len - 1 then None
            else if mem ! p \<noteq> CHR 0x22 \<and> mem ! (p + n - 1) \<noteq> CHR 0x22 then None
            else Some (memcpy_at mem q (take (n - 2) (drop (p + 1) mem) @ [NUL]))
     | _ \<Rightarrow> None)"

definition strcpy_at :: "string \<Rightarrow> nat \<Rightarrow> string \<Rightarrow> string option" where
  "strcpy_at buf a t =
    (if a + length t \<ge> length buf then None else Some (memcpy_at buf a (t @ [NUL])))"

definition c_strstr :: "string \<Rightarrow> string \<Rightarrow> bool" where
  "c_strstr s t \<longleftrightarrow> list_ex (\<lambda>i. take (length t) (drop i s) = t) [0..<Suc (length s)]"

definition c_atoi :: "string \<Rightarrow> int option" where
  "c_atoi s = (case c_strtol s of (v, used, over) \<Rightarrow> if over then None else Some v)"

text \<open>
  The loop of \<open>nrc_atcmd_recv_info\<close> and \<open>nrc_atcmd_recv_event\<close>: \<open>n\<close> bytes from \<open>p\<close> on, every comma
  becomes the end of an argument, and the first ten arguments are noted.
\<close>

fun comma_loop :: "nat \<Rightarrow> nat \<Rightarrow> string \<Rightarrow> nat list \<Rightarrow> nat \<Rightarrow> (string \<times> nat list \<times> nat) option" where
  "comma_loop 0 p buf argv argc = Some (buf, argv, argc)"
| "comma_loop (Suc n) p buf argv argc =
    (if p \<ge> length buf then None
     else if buf ! p = CHR '','' then
       comma_loop n (Suc p) (buf[p := NUL]) (if argc < 10 then argv @ [Suc p] else argv) (Suc argc)
     else comma_loop n (Suc p) buf argv argc)"

text \<open>
  The loop of the three \<open>nrc_atcmd_recv_rxd\<close> functions, whose array has room for \<open>k\<close> arguments: an
  argument is stored before the count is checked.
\<close>

datatype rxd_args = ArgsFault | ArgsInvalid string | Args string "nat list"

function rxd_args_loop :: "nat \<Rightarrow> nat \<Rightarrow> string \<Rightarrow> nat list \<Rightarrow> rxd_args" where
  "rxd_args_loop k p buf argv =
    (if p \<ge> length buf then ArgsFault
     else if buf ! p = NUL then Args buf argv
     else if length argv > k then ArgsInvalid buf
     else if buf ! p = CHR '','' then
       (if length argv \<ge> k then ArgsFault else rxd_args_loop k (Suc p) (buf[p := NUL]) (argv @ [Suc p]))
     else rxd_args_loop k (Suc p) buf argv)"
  by pat_completeness auto

termination by (relation "measure (\<lambda>(k, p, buf, argv). length buf - p)") auto

declare rxd_args_loop.simps [simp del]

subsection \<open>The messages\<close>

text \<open>Each works on the message in \<open>m_buf\<close>, of \<open>len\<close> characters without its line end.\<close>

definition boot_reason :: "string \<Rightarrow> u32" where
  "boot_reason msg =
    (if c_strstr msg ''POR'' then 1 else 0) OR (if c_strstr msg ''WDT'' then 2 else 0) OR
    (if c_strstr msg ''PMC'' then 4 else 0) OR (if c_strstr msg ''HSPI'' then 8 else 0)"

definition nrc_atcmd_recv_boot :: "nat \<Rightarrow> 'e host \<Rightarrow> int \<times> 'e host" where
  "nrc_atcmd_recv_boot len h =
    (if len = 0 \<or> take 6 (m_buf h) \<noteq> ''+BOOT:'' then (- EINVAL, h)
     else
       (let h1 = nrc_atcmd_set_ready True (nrc_atcmd_set_return ATCMD_RET_NONE h);
            reason = boot_reason (c_str (m_buf h) 6)
        in (0, case cb_boot h1 of None \<Rightarrow> h1 | Some f \<Rightarrow> h1\<lparr>h_env := f reason (h_env h1)\<rparr>)))"

definition nrc_atcmd_recv_info :: "nat \<Rightarrow> 'e host \<Rightarrow> (int \<times> 'e host) option" where
  "nrc_atcmd_recv_info len h =
    (let msg = c_str (m_buf h) 0; p = length (takeWhile (\<lambda>c. c \<noteq> CHR '':'') msg)
     in if len = 0 \<or> p = length msg then Some (-1, h)
        else do {
          (buf, argv, argc) \<leftarrow> comma_loop (len - Suc p) (Suc p) ((m_buf h)[p := NUL]) [Suc p] 1;
          let h1 = h\<lparr>m_buf := buf\<rparr>;
          Some (0, case cb_info h1 of None \<Rightarrow> h1
                   | Some f \<Rightarrow> h1\<lparr>h_env := f (c_str buf 1) argc (map (c_str buf) argv) (h_env h1)\<rparr>)
        })"

definition nrc_atcmd_recv_event :: "nat \<Rightarrow> 'e host \<Rightarrow> (int \<times> 'e host) option" where
  "nrc_atcmd_recv_event len h =
    (if len = 0 then Some (-1, h)
     else do {
       (buf, argv, argc) \<leftarrow> comma_loop (len - 8) 8 (m_buf h) [8] 1;
       let buf1 = (case nrc_atcmd_param_to_str buf (Some 8) (Some 8) (int (length (c_str buf 8))) of
                     None \<Rightarrow> buf | Some b \<Rightarrow> b);
       buf2 \<leftarrow> (if c_str buf1 8 = ''TCP_ERROR'' then strcpy_at buf1 8 ''RECV_ERROR'' else Some buf1);
       let h1 = h\<lparr>m_buf := buf2\<rparr>;
       Some (0, case map_of event_names (c_str buf2 8) of
           None \<Rightarrow> h1
         | Some e \<Rightarrow>
             (let h2 = (if e = ATCMD_WEVENT_DEEPSLEEP_WAKEUP
                        then nrc_atcmd_set_return ATCMD_RET_NONE (nrc_atcmd_set_ready True h1) else h1)
              in case cb_event h2 of None \<Rightarrow> h2
                 | Some f \<Rightarrow> h2\<lparr>h_env := f e (argc - 1) (map (c_str buf2) (tl argv)) (h_env h2)\<rparr>))
     })"

text \<open>
  The announcements of a data block: \<open>None\<close> is undefined behaviour, \<open>Some (None, buf)\<close> a rejected
  message.  \<open>mem\<close> is whether \<open>malloc\<close> succeeds.
\<close>

definition socket_fields :: "string list \<Rightarrow> rxd option option" where
  "socket_fields a = do {
     i \<leftarrow> c_atoi (a ! 0);
     if i < 0 then Some None else do {
       l \<leftarrow> c_atoi (a ! 1);
       if l < 0 then Some None
       else if length a \<noteq> 4 then Some (Some (RxdSocket l i ''0.0.0.0'' 0 False))
       else if length (a ! 2) < ATCMD_IPADDR_LEN_MIN \<or> length (a ! 2) > ATCMD_IPADDR_LEN_MAX then Some None
       else do {
         p \<leftarrow> c_atoi (a ! 3);
         Some (if p < 0 then None else Some (RxdSocket l i (a ! 2) p True))
       }
     }
   }"

definition nrc_atcmd_recv_rxd :: "bool \<Rightarrow> string \<Rightarrow> (rxd option \<times> string) option" where
  "nrc_atcmd_recv_rxd mem buf =
    (if \<not> mem \<or> take 5 buf \<noteq> ''+RXD:'' then Some (None, buf)
     else (case rxd_args_loop 4 5 buf [5] of
             ArgsFault \<Rightarrow> None
           | ArgsInvalid b \<Rightarrow> Some (None, b)
           | Args b argv \<Rightarrow>
               if length argv \<noteq> 2 \<and> length argv \<noteq> 4 then Some (None, b)
               else map_option (\<lambda>r. (r, b)) (socket_fields (map (c_str b) argv))))"

definition offset_fields :: "(int \<Rightarrow> int \<Rightarrow> rxd) \<Rightarrow> string list \<Rightarrow> rxd option option" where
  "offset_fields R a = do {
     i \<leftarrow> c_atoi (a ! 0);
     if i < 0 then Some None else do {
       l \<leftarrow> c_atoi (a ! 1);
       Some (if l < 0 then None else Some (R l i))
     }
   }"

definition nrc_atcmd_recv_rxd_sfuser :: "bool \<Rightarrow> string \<Rightarrow> (rxd option \<times> string) option" where
  "nrc_atcmd_recv_rxd_sfuser mem buf =
    (if \<not> mem \<or> take 12 buf \<noteq> ''+RXD_SFUSER:'' then Some (None, buf)
     else (case rxd_args_loop 2 12 buf [12] of
             ArgsFault \<Rightarrow> None
           | ArgsInvalid b \<Rightarrow> Some (None, b)
           | Args b argv \<Rightarrow>
               if length argv \<noteq> 2 then Some (None, b)
               else map_option (\<lambda>r. (r, b)) (offset_fields RxdSfuser (map (c_str b) argv))))"

definition nrc_atcmd_recv_rxd_sfsysuser :: "bool \<Rightarrow> string \<Rightarrow> (rxd option \<times> string) option" where
  "nrc_atcmd_recv_rxd_sfsysuser mem buf =
    (if \<not> mem \<or> take 15 buf \<noteq> ''+RXD_SFSYSUSER:'' then Some (None, buf)
     else (case rxd_args_loop 2 15 buf [15] of
             ArgsFault \<Rightarrow> None
           | ArgsInvalid b \<Rightarrow> Some (None, b)
           | Args b argv \<Rightarrow>
               if length argv \<noteq> 2 then Some (None, b)
               else map_option (\<lambda>r. (r, b)) (offset_fields RxdSfsysuser (map (c_str b) argv))))"

subsection \<open>The receiver\<close>

text \<open>A data block is complete.\<close>

definition rxd_deliver :: "rxd \<Rightarrow> 'e host \<Rightarrow> 'e host" where
  "rxd_deliver r h =
    (let h1 = (case cb_rxd h of None \<Rightarrow> h | Some f \<Rightarrow> h\<lparr>h_env := f r (r_buf h) (h_env h)\<rparr>)
     in h1\<lparr>r_rxd := None, r_cnt := 0\<rparr>)"

definition recv_data_byte :: "rxd \<Rightarrow> char \<Rightarrow> 'e host \<Rightarrow> 'e host option" where
  "recv_data_byte r c h =
    (if r_cnt h \<ge> length (r_buf h) then None
     else
       (let h1 = h\<lparr>r_buf := (r_buf h)[r_cnt h := c], r_cnt := Suc (r_cnt h)\<rparr>
        in Some (if int (r_cnt h1) = rxd_length r
                 then rxd_deliver r (h1\<lparr>data_recv := data_recv h1 + of_nat (r_cnt h1)\<rparr>)
                 else h1)))"

text \<open>
  The message so far, its last character just stored: the first component tells whether the line end
  is looked for next, or the \<open>continue\<close> was taken.
\<close>

definition recv_classify :: "'e host \<Rightarrow> bool \<times> 'e host" where
  "recv_classify h =
    (let n = m_cnt h; m = take n (m_buf h)
     in case m_type h of
       ATCMD_MSG_NONE \<Rightarrow>
         (let h1 = (if n > 1 then h\<lparr>m_buf := (m_buf h)[0 := m_buf h ! (n - 1)], m_cnt := 1\<rparr> else h);
              c = m_buf h1 ! 0
          in (False, if c = CHR ''O'' then h1\<lparr>m_type := ATCMD_MSG_OK\<rparr>
                     else if c = CHR ''E'' then h1\<lparr>m_type := ATCMD_MSG_ERROR\<rparr>
                     else if c = CHR ''+'' then h1\<lparr>m_type := ATCMD_MSG_INFO\<rparr>
                     else h1\<lparr>m_cnt := 0\<rparr>))
     | ATCMD_MSG_OK \<Rightarrow>
         if n < 4 then (False, h)
         else if m \<noteq> ''OK'' @ [CR, LF] then (False, h\<lparr>m_type := ATCMD_MSG_NONE, m_cnt := 0\<rparr>)
         else (True, h)
     | ATCMD_MSG_ERROR \<Rightarrow>
         if n < 7 then (False, h)
         else if m \<noteq> ''ERROR'' @ [CR, LF] then (False, h\<lparr>m_type := ATCMD_MSG_NONE, m_cnt := 0\<rparr>)
         else (True, h)
     | ATCMD_MSG_INFO \<Rightarrow>
         if n = 6 \<and> m = ''+BOOT:'' then (False, h\<lparr>m_type := ATCMD_MSG_BOOT\<rparr>)
         else if n = 8 then
           (if m = ''+BEVENT:'' then (False, h\<lparr>m_type := ATCMD_MSG_BEVENT\<rparr>)
            else if m = ''+WEVENT:'' then (False, h\<lparr>m_type := ATCMD_MSG_WEVENT\<rparr>)
            else if m = ''+SEVENT:'' then (False, h\<lparr>m_type := ATCMD_MSG_SEVENT\<rparr>)
            else (True, h))
         else if n = 5 \<and> m = ''+RXD:'' then (False, h\<lparr>m_type := ATCMD_MSG_DATA_SOCKET\<rparr>)
         else if n = 12 \<and> m = ''+RXD_SFUSER:'' then (False, h\<lparr>m_type := ATCMD_MSG_DATA_SFUSER\<rparr>)
         else if n = 15 \<and> m = ''+RXD_SFSYSUSER:'' then (False, h\<lparr>m_type := ATCMD_MSG_DATA_SFSYSUSER\<rparr>)
         else (True, h)
     | _ \<Rightarrow> (True, h))"

definition recv_dispatch :: "bool \<Rightarrow> 'e host \<Rightarrow> 'e host option" where
  "recv_dispatch mem h =
    (let len = m_cnt h; rx = map_option (\<lambda>(r, b). h\<lparr>r_rxd := r, m_buf := b\<rparr>)
     in case m_type h of
       ATCMD_MSG_OK \<Rightarrow> Some (nrc_atcmd_set_return ATCMD_RET_OK h)
     | ATCMD_MSG_ERROR \<Rightarrow> Some (nrc_atcmd_set_return ATCMD_RET_ERROR h)
     | ATCMD_MSG_INFO \<Rightarrow> map_option snd (nrc_atcmd_recv_info len h)
     | ATCMD_MSG_BOOT \<Rightarrow> Some (snd (nrc_atcmd_recv_boot len h))
     | ATCMD_MSG_BEVENT \<Rightarrow> map_option snd (nrc_atcmd_recv_event len h)
     | ATCMD_MSG_WEVENT \<Rightarrow> map_option snd (nrc_atcmd_recv_event len h)
     | ATCMD_MSG_SEVENT \<Rightarrow> map_option snd (nrc_atcmd_recv_event len h)
     | ATCMD_MSG_DATA_SOCKET \<Rightarrow> rx (nrc_atcmd_recv_rxd mem (m_buf h))
     | ATCMD_MSG_DATA_SFUSER \<Rightarrow> rx (nrc_atcmd_recv_rxd_sfuser mem (m_buf h))
     | ATCMD_MSG_DATA_SFSYSUSER \<Rightarrow> rx (nrc_atcmd_recv_rxd_sfsysuser mem (m_buf h))
     | ATCMD_MSG_NONE \<Rightarrow> Some h)"

definition recv_line_end :: "bool \<Rightarrow> 'e host \<Rightarrow> 'e host option" where
  "recv_line_end mem h =
    (if m_cnt h \<ge> 2 \<and> take 2 (drop (m_cnt h - 2) (m_buf h)) = [CR, LF] then
       map_option (\<lambda>h1. h1\<lparr>m_type := ATCMD_MSG_NONE, m_cnt := 0\<rparr>)
         (recv_dispatch mem (h\<lparr>m_cnt := m_cnt h - 2, m_buf := (m_buf h)[m_cnt h - 2 := NUL]\<rparr>))
     else Some h)"

definition recv_msg_byte :: "bool \<Rightarrow> char \<Rightarrow> 'e host \<Rightarrow> 'e host option" where
  "recv_msg_byte mem c h =
    (let h1 = (if m_cnt h \<ge> HOST_MSG_LEN_MAX
               then h\<lparr>m_buf := (m_buf h)[HOST_MSG_LEN_MAX := NUL], m_type := ATCMD_MSG_NONE, m_cnt := 0\<rparr>
               else h);
         h2 = h1\<lparr>m_buf := (m_buf h1)[m_cnt h1 := c], m_cnt := Suc (m_cnt h1)\<rparr>
     in case recv_classify h2 of (check, h3) \<Rightarrow> if check then recv_line_end mem h3 else Some h3)"

definition recv_byte :: "('e \<Rightarrow> bool) \<Rightarrow> char \<Rightarrow> 'e host \<Rightarrow> 'e host option" where
  "recv_byte M c h =
    (case r_rxd h of
       None \<Rightarrow> recv_msg_byte (M (h_env h)) c h
     | Some r \<Rightarrow>
         if rxd_length r > 0 then recv_data_byte r c h
         else (let h1 = rxd_deliver r h in recv_msg_byte (M (h_env h1)) c h1))"

text \<open>\<open>M\<close> tells in which states \<open>malloc\<close> succeeds.\<close>

fun nrc_atcmd_recv :: "('e \<Rightarrow> bool) \<Rightarrow> string \<Rightarrow> 'e host \<Rightarrow> 'e host option" where
  "nrc_atcmd_recv M [] h = Some h"
| "nrc_atcmd_recv M (c # cs) h = recv_byte M c h \<bind> nrc_atcmd_recv M cs"

subsection \<open>The callbacks\<close>

text \<open>The callback type together with the function; other type values are \<open>CbOther\<close>.\<close>

datatype 'e host_callback =
    CbBoot "u32 \<Rightarrow> 'e \<Rightarrow> 'e"
  | CbInfo "string \<Rightarrow> nat \<Rightarrow> string list \<Rightarrow> 'e \<Rightarrow> 'e"
  | CbEvent "host_event \<Rightarrow> nat \<Rightarrow> string list \<Rightarrow> 'e \<Rightarrow> 'e"
  | CbRxd "rxd \<Rightarrow> string \<Rightarrow> 'e \<Rightarrow> 'e"
  | CbOther

definition nrc_atcmd_register_callback :: "'e host_callback \<Rightarrow> 'e host \<Rightarrow> int \<times> 'e host" where
  "nrc_atcmd_register_callback cb h =
    (case cb of
       CbBoot f \<Rightarrow> if cb_boot h = None then (0, h\<lparr>cb_boot := Some f\<rparr>) else (-1, h)
     | CbInfo f \<Rightarrow> if cb_info h = None then (0, h\<lparr>cb_info := Some f\<rparr>) else (-1, h)
     | CbEvent f \<Rightarrow> if cb_event h = None then (0, h\<lparr>cb_event := Some f\<rparr>) else (-1, h)
     | CbRxd f \<Rightarrow> if cb_rxd h = None then (0, h\<lparr>cb_rxd := Some f\<rparr>) else (-1, h)
     | CbOther \<Rightarrow> (-1, h))"

datatype cb_type = ATCMD_CB_BOOT | ATCMD_CB_INFO | ATCMD_CB_EVENT | ATCMD_CB_RXD | ATCMD_CB_OTHER

definition nrc_atcmd_unregister_callback :: "cb_type \<Rightarrow> 'e host \<Rightarrow> int \<times> 'e host" where
  "nrc_atcmd_unregister_callback t h =
    (case t of
       ATCMD_CB_BOOT \<Rightarrow> (0, h\<lparr>cb_boot := None\<rparr>)
     | ATCMD_CB_INFO \<Rightarrow> (0, h\<lparr>cb_info := None\<rparr>)
     | ATCMD_CB_EVENT \<Rightarrow> (0, h\<lparr>cb_event := None\<rparr>)
     | ATCMD_CB_RXD \<Rightarrow> (0, h\<lparr>cb_rxd := None\<rparr>)
     | ATCMD_CB_OTHER \<Rightarrow> (-1, h))"

definition nrc_atcmd_data_reset :: "'e host \<Rightarrow> 'e host" where
  "nrc_atcmd_data_reset h = h\<lparr>data_send := 0, data_recv := 0\<rparr>"

subsection \<open>The sender\<close>

definition EAGAIN :: int where "EAGAIN = 11"

text \<open>
  \<open>W\<close> is \<open>raspi_hif_write\<close> on a state \<open>s\<close> of the interface.  The loop works on what is left of the
  buffer; it does not end while the interface keeps answering zero or \<open>-EAGAIN\<close>.
\<close>

partial_function (option) nrc_atcmd_send_loop ::
  "(string \<Rightarrow> 's \<Rightarrow> int \<times> 's) \<Rightarrow> int \<Rightarrow> string \<Rightarrow> 's \<Rightarrow> (int \<times> 's) option" where
  "nrc_atcmd_send_loop W len buf s =
    (if buf \<noteq> [] then
       (case W buf s of
          (ret, s1) \<Rightarrow>
            if ret < 0 \<and> ret \<noteq> - EAGAIN then Some (ret, s1)
            else nrc_atcmd_send_loop W len (drop (nat ret) buf) s1)
     else Some (len, s))"

definition nrc_atcmd_send :: "(string \<Rightarrow> 's \<Rightarrow> int \<times> 's) \<Rightarrow> string \<Rightarrow> 's \<Rightarrow> (int \<times> 's) option" where
  "nrc_atcmd_send W buf s = nrc_atcmd_send_loop W (int (length buf)) buf s"

definition nrc_atcmd_send_data ::
  "(string \<Rightarrow> 's \<Rightarrow> int \<times> 's) \<Rightarrow> string \<Rightarrow> 's \<Rightarrow> 'e host \<Rightarrow> (int \<times> 's \<times> 'e host) option" where
  "nrc_atcmd_send_data W data s h =
    (case nrc_atcmd_send W data s of
       None \<Rightarrow> None
     | Some (ret, s1) \<Rightarrow>
         Some (if ret < 0 then (-1, s1, h)
               else (0, s1, h\<lparr>data_send := data_send h + of_nat (length data)\<rparr>)))"

text \<open>
  \<open>nrc_atcmd_send_cmd\<close> up to the wait for the answer; \<open>cmd\<close> is the formatted command.  \<open>Inl\<close> is an
  early return, \<open>Inr\<close> the command that went out.
\<close>

definition nrc_atcmd_send_cmd ::
  "(string \<Rightarrow> 's \<Rightarrow> int \<times> 's) \<Rightarrow> string \<Rightarrow> 's \<Rightarrow> 'e host \<Rightarrow> ((int + string) \<times> 's \<times> 'e host) option" where
  "nrc_atcmd_send_cmd W cmd s h =
    (if length cmd < HOST_MSG_LEN_MIN - 2 \<or> length cmd > HOST_MSG_LEN_MAX - 2 then Some (Inl (-1), s, h)
     else if take 2 cmd \<noteq> ''AT'' then Some (Inl (-1), s, h)
     else
       (let h1 = nrc_atcmd_init_return h
        in case nrc_atcmd_send W (cmd @ [CR, LF]) s of
             None \<Rightarrow> None
           | Some (ret, s1) \<Rightarrow> Some (if ret < 0 then Inl (-1) else Inr (cmd @ [CR, LF]), s1, h1)))"

text \<open>
  \<open>nrc_atcmd_wait_return\<close> before it blocks: the timeout in seconds, zero for none; a restart and a
  deep sleep make the target not ready.
\<close>

definition wait_setup :: "string \<Rightarrow> 'e host \<Rightarrow> nat \<times> 'e host" where
  "wait_setup cmd h =
    (if cmd = ''ATZ'' @ [CR, LF] then (5, nrc_atcmd_set_ready False h)
     else if length cmd > 8 \<and> take 8 cmd = ''AT+UART='' then (1, h)
     else if length cmd > 14 \<and> take 14 cmd = ''AT+WDEEPSLEEP='' then (0, nrc_atcmd_set_ready False h)
     else (0, h))"

subsection \<open>The sender returns\<close>

text \<open>
  What the sender relies on: \<open>W\<close> takes a part of what it is offered, appending it to what has gone
  \<open>out\<close>, and refuses (with zero or \<open>-EAGAIN\<close>) only finitely often in a row.
\<close>

definition writer_ok :: "(string \<Rightarrow> 's \<Rightarrow> int \<times> 's) \<Rightarrow> ('s \<Rightarrow> string) \<Rightarrow> ('s \<Rightarrow> nat) \<Rightarrow> bool" where
  "writer_ok W out stalls \<longleftrightarrow> (\<forall>xs s ret s'. xs \<noteq> [] \<longrightarrow> W xs s = (ret, s') \<longrightarrow>
     (ret = - EAGAIN \<or> 0 \<le> ret) \<and> ret \<le> int (length xs) \<and> out s' = out s @ take (nat ret) xs \<and>
     (ret \<le> 0 \<longrightarrow> stalls s' < stalls s))"

definition write_turn :: "(string \<Rightarrow> 's \<Rightarrow> int \<times> 's) \<Rightarrow> string \<Rightarrow> 's \<Rightarrow> (nat \<times> 's) option" where
  "write_turn W xs s = (case W xs s of (ret, s1) \<Rightarrow> if ret < 0 \<and> ret \<noteq> - EAGAIN then None else Some (nat ret, s1))"

interpretation sender: chunk_loop "write_turn W" "nrc_atcmd_send_loop W len" "\<lambda>s. (len, s)"
    "\<lambda>xs s. writer_ok W out stalls \<and> out s @ xs = total" stalls for W len out stalls total
proof unfold_locales
  fix st :: 'a
  show "nrc_atcmd_send_loop W len [] st = Some (len, st)" by (subst nrc_atcmd_send_loop.simps) simp
next
  fix xs n and st st' :: 'a
  assume "xs \<noteq> []" and "write_turn W xs st = Some (n, st')"
  then show "nrc_atcmd_send_loop W len xs st = nrc_atcmd_send_loop W len (drop n xs) st'"
    by (subst nrc_atcmd_send_loop.simps) (auto simp: write_turn_def split: prod.splits if_splits)
next
  fix xs and st :: 'a
  assume w: "writer_ok W out stalls \<and> out st @ xs = total" and "xs \<noteq> []"
  obtain ret st' where r: "W xs st = (ret, st')" by fastforce
  have c: "ret = - EAGAIN \<or> 0 \<le> ret" "ret \<le> int (length xs)" "out st' = out st @ take (nat ret) xs"
    "ret \<le> 0 \<longrightarrow> stalls st' < stalls st"
    using w \<open>xs \<noteq> []\<close> r unfolding writer_ok_def by blast+
  then show "\<exists>n st'. write_turn W xs st = Some (n, st') \<and> n \<le> length xs \<and>
      (writer_ok W out stalls \<and> out st' @ drop n xs = total) \<and> (n = 0 \<longrightarrow> stalls st' < stalls st)"
    using w r by (intro exI [of _ "nat ret"] exI [of _ st']) (auto simp: write_turn_def)
qed

lemma send_all:
  assumes "writer_ok W out stalls"
  shows "\<exists>s'. nrc_atcmd_send W buf s = Some (int (length buf), s') \<and> out s' = out s @ buf"
  using sender.returns [of W out stalls s buf "out s @ buf" "int (length buf)"] assms
  by (auto simp: nrc_atcmd_send_def)

end
