(* ===== verification/HostRecv.thy ===== *)
theory HostRecv
  imports HostAtcmd
begin

text \<open>
  How the host's receiver reads a message: the argument loops cut a text at its commas, characters
  that do not end the line are only collected, and a complete line reaches its handler.
\<close>

subsection \<open>Cutting arguments\<close>

text \<open>Text of an argument: no comma and no end of string or line.\<close>

definition arg_char :: "char \<Rightarrow> bool" where
  "arg_char c \<longleftrightarrow> c \<noteq> NUL \<and> c \<noteq> CR \<and> c \<noteq> LF \<and> c \<noteq> CHR '',''"

lemma arg_no_NUL: "list_all arg_char t \<Longrightarrow> NUL \<notin> set t"
  by (auto simp: list_all_iff arg_char_def)

lemma comma_loop_plain:
  assumes "has buf p t" and "list_all arg_char t"
  shows "comma_loop (length t + n) p buf argv argc = comma_loop n (p + length t) buf argv argc"
  using assms
proof (induction t arbitrary: p)
  case (Cons c t)
  then show ?case using Cons.IH [of "Suc p"] by (auto simp: has_Cons arg_char_def)
qed simp

text \<open>
  \<open>args_at\<close>: the arguments stand at the noted places, each with its end.
\<close>

definition args_at :: "string \<Rightarrow> nat list \<Rightarrow> string list \<Rightarrow> bool" where
  "args_at buf argv ps \<longleftrightarrow> list_all2 (\<lambda>a t. has buf a (t @ [NUL])) argv ps"

lemma args_at_strings:
  assumes "args_at buf argv ps" and "list_all (list_all arg_char) ps"
  shows "map (c_str buf) argv = ps"
  using assms unfolding args_at_def
  by (induction rule: list_all2_induct) (auto simp: c_str_has arg_no_NUL)

lemma args_at_length: "args_at buf argv ps \<Longrightarrow> length argv = length ps"
  by (simp add: args_at_def list_all2_lengthD)

text \<open>Everything before \<open>p\<close> is as it was.\<close>

definition same_before :: "nat \<Rightarrow> string \<Rightarrow> string \<Rightarrow> bool" where
  "same_before p buf buf' \<longleftrightarrow> length buf' = length buf \<and> take p buf' = take p buf"

lemma same_before_has: "same_before p buf buf' \<Longrightarrow> a + length t \<le> p \<Longrightarrow> has buf a t \<Longrightarrow> has buf' a t"
proof -
  assume s: "same_before p buf buf'" and a: "a + length t \<le> p" and h: "has buf a t"
  have "take (length t) (drop a b) = drop a (take (a + length t) (take p b))" for b :: string
    using a by (simp add: drop_take min_def)
  then show ?thesis using s h unfolding same_before_def has_def by metis
qed

lemma same_before_refl [simp]: "same_before p buf buf"
  by (simp add: same_before_def)

lemma same_before_mono: "same_before q b c \<Longrightarrow> p \<le> q \<Longrightarrow> same_before p b c"
  unfolding same_before_def by (metis min.absorb1 take_take)

lemma same_before_update: "p \<le> k \<Longrightarrow> same_before p buf (buf[k := c])"
  by (simp add: same_before_def take_update_cancel)

lemma comma_loop_join:
  assumes "has buf p (join_params (q # ps) @ [NUL])" and "list_all (list_all arg_char) (q # ps)"
    and "argc + length ps \<le> 10"
  shows "\<exists>buf' pos. comma_loop (length (join_params (q # ps))) p buf argv argc =
      Some (buf', argv @ pos, argc + length ps) \<and> args_at buf' (p # pos) (q # ps) \<and> same_before p buf buf' \<and>
      list_all (\<lambda>a. p + length q < a) pos"
  using assms
proof (induction ps arbitrary: q p buf argv argc)
  case Nil
  then show ?case using comma_loop_plain [of buf p q 0 argv argc]
    by (simp add: has_append args_at_def)
next
  case (Cons r ps)
  let ?k = "p + length q"
  have h: "has buf p q" "?k < length buf" "buf ! ?k = CHR '',''"
    and h2: "has buf (Suc ?k) (join_params (r # ps) @ [NUL])"
    using Cons.prems(1) by (simp_all add: has_append has_Cons)
  let ?b = "buf[?k := NUL]"
  have b: "has ?b p (q @ [NUL])" using h by (simp add: has_append has_Cons has_update_after) (simp add: has_def)
  have "has ?b (Suc ?k) (join_params (r # ps) @ [NUL])" using h2 by (simp add: has_update_before)
  from Cons.IH [OF this, of "Suc argc" "argv @ [Suc ?k]"] Cons.prems(2,3) obtain buf' pos where
    r: "comma_loop (length (join_params (r # ps))) (Suc ?k) ?b (argv @ [Suc ?k]) (Suc argc) =
      Some (buf', (argv @ [Suc ?k]) @ pos, Suc argc + length ps)"
      "args_at buf' (Suc ?k # pos) (r # ps)" "same_before (Suc ?k) ?b buf'"
      "list_all (\<lambda>a. Suc ?k + length r < a) pos" by auto
  have "comma_loop (length (join_params (q # r # ps))) p buf argv argc =
      comma_loop (Suc (length (join_params (r # ps)))) ?k buf argv argc"
    using comma_loop_plain [OF h(1), of "Suc (length (join_params (r # ps)))" argv argc] Cons.prems(2)
    by simp
  then have "comma_loop (length (join_params (q # r # ps))) p buf argv argc =
      Some (buf', argv @ (Suc ?k # pos), argc + length (r # ps))"
    using h r(1) Cons.prems(3) by simp
  moreover have "args_at buf' (p # Suc ?k # pos) (q # r # ps)"
    using r(2) same_before_has [OF r(3) _ b] by (simp add: args_at_def)
  moreover have "same_before p buf buf'"
    using same_before_update [of p ?k buf NUL] same_before_mono [OF r(3), of p]
    by (simp add: same_before_def)
  moreover have "list_all (\<lambda>a. p + length q < a) (Suc ?k # pos)" using r(4) by (auto simp: list_all_iff)
  ultimately show ?case by blast
qed

text \<open>The loop with the fixed array does the same as long as its arguments fit.\<close>

lemma comma_loop_argc: "comma_loop n p buf argv argc = Some (b, av, m) \<Longrightarrow> argc \<le> m"
  by (induction n p buf argv argc rule: comma_loop.induct) (auto split: if_splits)

lemma rxd_args_comma:
  assumes "has buf p (t @ [NUL])" and "NUL \<notin> set t"
    and "comma_loop (length t) p buf argv (length argv) = Some (b, av, m)" and "m \<le> k" and "k \<le> 10"
  shows "rxd_args_loop k p buf argv = Args b av"
  using assms(1-3)
proof (induction t arbitrary: p buf argv)
  case Nil
  then show ?case by (subst rxd_args_loop.simps) (auto simp: has_Cons)
next
  case (Cons c t)
  then have h: "p < length buf" "buf ! p = c" "has buf (Suc p) (t @ [NUL])" "c \<noteq> NUL" "NUL \<notin> set t"
    by (auto simp: has_Cons)
  show ?case
  proof (cases "c = CHR '',''")
    case True
    then have r: "comma_loop (length t) (Suc p) (buf[p := NUL]) (argv @ [Suc p]) (length (argv @ [Suc p])) = Some (b, av, m)
        \<or> 10 \<le> length argv" using Cons.prems(3) h by (auto split: if_splits)
    have "Suc (length argv) \<le> m"
      using Cons.prems(3) True h comma_loop_argc [of "length t" "Suc p"] by (auto split: if_splits)
    then have l: "length argv < k" "length argv < 10" using assms(4,5) by simp_all
    have "has (buf[p := NUL]) (Suc p) (t @ [NUL])" using h(3) by (simp add: has_update_before)
    from Cons.IH [OF this h(5)] r l have "rxd_args_loop k (Suc p) (buf[p := NUL]) (argv @ [Suc p]) = Args b av" by simp
    then show ?thesis using h l True by (subst rxd_args_loop.simps) simp
  next
    case False
    then have r: "comma_loop (length t) (Suc p) buf argv (length argv) = Some (b, av, m)" using Cons.prems(3) h by simp
    have "length argv \<le> k" using comma_loop_argc [OF r] assms(4) by simp
    then show ?thesis using h False Cons.IH [OF h(3,5) r] by (subst rxd_args_loop.simps) simp
  qed
qed

lemma join_params_no_NUL: "list_all (list_all arg_char) ps \<Longrightarrow> NUL \<notin> set (join_params ps)"
  by (induction ps rule: join_params.induct) (auto simp: arg_no_NUL)

lemma rxd_args_join:
  assumes "has buf p (join_params (q # ps) @ [NUL])" and "list_all (list_all arg_char) (q # ps)"
    and "Suc (length ps) \<le> k" and "k \<le> 10"
  shows "\<exists>buf' pos. rxd_args_loop k p buf [p] = Args buf' (p # pos) \<and> args_at buf' (p # pos) (q # ps) \<and>
    same_before p buf buf'"
proof -
  have "1 + length ps \<le> 10" using assms(3,4) by simp
  from comma_loop_join [OF assms(1,2) this, of "[p]"] obtain buf' pos where
    r: "comma_loop (length (join_params (q # ps))) p buf [p] (length [p]) = Some (buf', p # pos, Suc (length ps))"
      "args_at buf' (p # pos) (q # ps)" "same_before p buf buf'" by auto
  from rxd_args_comma [OF assms(1) join_params_no_NUL [OF assms(2)] r(1) assms(3,4)] r(2,3) show ?thesis by blast
qed

subsection \<open>Collecting a line\<close>

text \<open>
  \<open>receiving h t\<close>: no data block is expected and the text \<open>t\<close> of the current message is stored.
  \<open>frame\<close> is the state without the receiver's own buffers.
\<close>

definition receiving :: "'e host \<Rightarrow> string \<Rightarrow> bool" where
  "receiving h t \<longleftrightarrow> r_rxd h = None \<and> r_cnt h = 0 \<and> m_cnt h = length t \<and> has (m_buf h) 0 t \<and>
     length (m_buf h) = 129 \<and> length (r_buf h) = 4097"

definition host_idle :: "'e host \<Rightarrow> bool" where
  "host_idle h \<longleftrightarrow> receiving h [] \<and> m_type h = ATCMD_MSG_NONE"

definition frame :: "'e host \<Rightarrow> 'e host" where
  "frame h = h\<lparr>m_type := ATCMD_MSG_NONE, m_cnt := 0, m_buf := [], r_rxd := None, r_cnt := 0, r_buf := []\<rparr>"

lemma frame_updates [simp]:
  "frame (h\<lparr>m_type := t\<rparr>) = frame h" "frame (h\<lparr>m_cnt := n\<rparr>) = frame h"
  "frame (h\<lparr>m_buf := b\<rparr>) = frame h" "frame (h\<lparr>r_rxd := r\<rparr>) = frame h"
  "frame (h\<lparr>r_cnt := k\<rparr>) = frame h" "frame (h\<lparr>r_buf := c\<rparr>) = frame h"
  by (simp_all add: frame_def)

lemma frame_proj [simp]:
  "cb_boot (frame h) = cb_boot h" "cb_info (frame h) = cb_info h" "cb_event (frame h) = cb_event h"
  "cb_rxd (frame h) = cb_rxd h" "h_env (frame h) = h_env h" "ret_val (frame h) = ret_val h"
  "data_recv (frame h) = data_recv h" "ret_signals (frame h) = ret_signals h" "h_ready (frame h) = h_ready h"
  by (simp_all add: frame_def)

lemma frame_effects:
  "frame (nrc_atcmd_set_return v h) = nrc_atcmd_set_return v (frame h)"
  "frame (nrc_atcmd_set_ready b h) = nrc_atcmd_set_ready b (frame h)"
  "frame (h\<lparr>h_env := e\<rparr>) = (frame h)\<lparr>h_env := e\<rparr>"
  "frame (h\<lparr>data_recv := n\<rparr>) = (frame h)\<lparr>data_recv := n\<rparr>"
  by (simp_all add: frame_def nrc_atcmd_set_return_def nrc_atcmd_set_ready_def)

definition header_types :: "(string \<times> msg_type) list" where
  "header_types = [(''+BOOT:'', ATCMD_MSG_BOOT), (''+BEVENT:'', ATCMD_MSG_BEVENT), (''+WEVENT:'', ATCMD_MSG_WEVENT),
     (''+SEVENT:'', ATCMD_MSG_SEVENT), (''+RXD:'', ATCMD_MSG_DATA_SOCKET), (''+RXD_SFUSER:'', ATCMD_MSG_DATA_SFUSER),
     (''+RXD_SFSYSUSER:'', ATCMD_MSG_DATA_SFSYSUSER)]"

definition special_headers :: "string list" where
  "special_headers = map fst header_types"

definition ends_line :: "string \<Rightarrow> bool" where
  "ends_line m \<longleftrightarrow> 2 \<le> length m \<and> drop (length m - 2) m = [CR, LF]"

text \<open>\<open>quiet ty m\<close>: a message of type \<open>ty\<close> that has just become \<open>m\<close> is only collected.\<close>

definition quiet :: "msg_type \<Rightarrow> string \<Rightarrow> bool" where
  "quiet ty m \<longleftrightarrow> (case ty of
      ATCMD_MSG_NONE \<Rightarrow> False
    | ATCMD_MSG_OK \<Rightarrow> length m < 4
    | ATCMD_MSG_ERROR \<Rightarrow> length m < 7
    | ATCMD_MSG_INFO \<Rightarrow> m \<notin> set special_headers \<and> \<not> ends_line m
    | _ \<Rightarrow> \<not> ends_line m)"

lemma receiving_store:
  assumes "receiving h t" and "length t < 128"
  shows "receiving (h\<lparr>m_buf := (m_buf h)[m_cnt h := c], m_cnt := Suc (m_cnt h)\<rparr>) (t @ [c])"
  using assms by (auto simp: receiving_def has_append has_Cons has_update_after) (simp add: has_def)

lemma receiving_text: "receiving h t \<Longrightarrow> take (m_cnt h) (m_buf h) = t"
  by (simp add: receiving_def has_def)

lemma receiving_ends:
  assumes "receiving h t"
  shows "m_cnt h \<ge> 2 \<and> take 2 (drop (m_cnt h - 2) (m_buf h)) = [CR, LF] \<longleftrightarrow> ends_line t"
proof (cases "2 \<le> m_cnt h")
  case True
  have "take 2 (drop (m_cnt h - 2) (m_buf h)) = drop (m_cnt h - 2) (take (m_cnt h) (m_buf h))"
    using True by (simp add: drop_take)
  then show ?thesis using receiving_text [OF assms] assms by (simp add: ends_line_def receiving_def)
next
  case False
  then show ?thesis using assms by (simp add: ends_line_def receiving_def)
qed

lemma classify_quiet:
  assumes "receiving h m" and "quiet (m_type h) m"
  shows "recv_classify h = (False, h) \<or> recv_classify h = (True, h) \<and> \<not> ends_line m"
proof -
  have n: "m_cnt h = length m" and t: "take (length m) (m_buf h) = m"
    using receiving_text [OF assms(1)] assms(1) by (simp_all add: receiving_def)
  have c: "take (m_cnt h) (m_buf h) = m" using n t by simp
  show ?thesis
  proof (cases "m_type h")
    case ATCMD_MSG_INFO
    then have q: "m \<noteq> ''+BOOT:''" "m \<noteq> ''+BEVENT:''" "m \<noteq> ''+WEVENT:''" "m \<noteq> ''+SEVENT:''"
      "m \<noteq> ''+RXD:''" "m \<noteq> ''+RXD_SFUSER:''" "m \<noteq> ''+RXD_SFSYSUSER:''" "\<not> ends_line m"
      using assms(2) by (simp_all only: quiet_def special_headers_def header_types_def list.map fst_conv msg_type.case list.set insert_iff de_Morgan_disj not_False_eq_True simp_thms)
    show ?thesis unfolding recv_classify_def Let_def c using ATCMD_MSG_INFO q by simp
  next
    case ATCMD_MSG_NONE
    then show ?thesis using assms(2) by (simp add: quiet_def)
  qed (use assms(2) in \<open>simp_all add: recv_classify_def quiet_def n\<close>)
qed

lemma line_end_none:
  assumes "receiving h t" and "\<not> ends_line t"
  shows "recv_line_end mem h = Some h"
  unfolding recv_line_end_def receiving_ends [OF assms(1)] using assms(2) by simp

text \<open>One stored character, up to the classification.\<close>

lemma recv_byte_store:
  assumes "receiving h t" and "length t < 128"
  shows "\<exists>h2. receiving h2 (t @ [c]) \<and> m_type h2 = m_type h \<and> frame h2 = frame h \<and>
    recv_byte M c h = (case recv_classify h2 of (check, h3) \<Rightarrow>
      if check then recv_line_end (M (h_env h)) h3 else Some h3)"
proof -
  let ?h2 = "h\<lparr>m_buf := (m_buf h)[m_cnt h := c], m_cnt := Suc (m_cnt h)\<rparr>"
  have "m_cnt h < 128" "r_rxd h = None" using assms by (simp_all add: receiving_def)
  then have "recv_byte M c h = (case recv_classify ?h2 of (check, h3) \<Rightarrow>
      if check then recv_line_end (M (h_env h)) h3 else Some h3)"
    by (simp add: recv_byte_def recv_msg_byte_def HOST_MSG_LEN_MAX_def)
  then show ?thesis using receiving_store [OF assms, of c] by (intro exI [of _ ?h2]) simp
qed

lemma recv_quiet_byte:
  assumes "receiving h t" and "length t < 128" and "quiet (m_type h) (t @ [c])"
  shows "\<exists>h'. recv_byte M c h = Some h' \<and> receiving h' (t @ [c]) \<and> m_type h' = m_type h \<and> frame h' = frame h"
proof -
  from recv_byte_store [OF assms(1,2)] obtain h2 where
    h2: "receiving h2 (t @ [c])" "m_type h2 = m_type h" "frame h2 = frame h"
      "recv_byte M c h = (case recv_classify h2 of (check, h3) \<Rightarrow>
        if check then recv_line_end (M (h_env h)) h3 else Some h3)" by blast
  have "recv_byte M c h = Some h2"
    using classify_quiet [OF h2(1)] assms(3) line_end_none [OF h2(1)] by (auto simp: h2(2,4))
  then show ?thesis using h2 by blast
qed

lemma recv_append: "nrc_atcmd_recv M (xs @ ys) h = nrc_atcmd_recv M xs h \<bind> nrc_atcmd_recv M ys"
  by (induction xs arbitrary: h) (auto split: bind_splits)

lemma recv_quiet:
  assumes "receiving h t" and "length t + length u \<le> 128"
    and "\<And>v w. u = v @ w \<Longrightarrow> v \<noteq> [] \<Longrightarrow> quiet (m_type h) (t @ v)"
  shows "\<exists>h'. nrc_atcmd_recv M u h = Some h' \<and> receiving h' (t @ u) \<and> m_type h' = m_type h \<and> frame h' = frame h"
  using assms
proof (induction u arbitrary: h t)
  case (Cons c u)
  have "length t < 128" "quiet (m_type h) (t @ [c])" using Cons.prems(2) Cons.prems(3) [of "[c]" u] by simp_all
  from recv_quiet_byte [OF Cons.prems(1) this] obtain h1 where
    h1: "recv_byte M c h = Some h1" "receiving h1 (t @ [c])" "m_type h1 = m_type h" "frame h1 = frame h" by blast
  have "quiet (m_type h1) ((t @ [c]) @ v)" if "u = v @ w" "v \<noteq> []" for v w
    using Cons.prems(3) [of "c # v" w] that h1(3) by simp
  moreover have "length (t @ [c]) + length u \<le> 128" using Cons.prems(2) by simp
  ultimately show ?case using Cons.IH [OF h1(2)] h1 by auto
qed auto

lemma no_LF_ends: "LF \<notin> set m \<Longrightarrow> \<not> ends_line m"
proof
  assume m: "LF \<notin> set m" and "ends_line m"
  then have "LF \<in> set (drop (length m - 2) m)" by (simp add: ends_line_def)
  then show False using m in_set_dropD by metis
qed

lemma header_shape:
  assumes "v \<in> set special_headers"
  shows "\<exists>x. v = x @ '':'' \<and> CHR '':'' \<notin> set x \<and> x \<noteq> [] \<and> LF \<notin> set v"
proof -
  have "\<forall>v \<in> set special_headers. v = butlast v @ '':'' \<and> CHR '':'' \<notin> set (butlast v) \<and> butlast v \<noteq> [] \<and> LF \<notin> set v"
    by (simp add: special_headers_def header_types_def)
  then show ?thesis using assms by blast
qed

text \<open>A header can only appear up to the first colon.\<close>

lemma header_first_colon:
  assumes "v \<in> set special_headers" and "v @ w = u @ CHR '':'' # z" and "CHR '':'' \<notin> set u"
  shows "v = u @ '':''"
proof -
  from header_shape [OF assms(1)] obtain x where x: "v = x @ '':''" "CHR '':'' \<notin> set x" by blast
  have tw: "takeWhile (\<lambda>c. c \<noteq> CHR '':'') (y @ CHR '':'' # r) = y" if "CHR '':'' \<notin> set y" for y r
    using that by (induction y) auto
  have "takeWhile (\<lambda>c. c \<noteq> CHR '':'') (v @ w) = x" using tw [OF x(2), of w] x(1) by simp
  moreover have "takeWhile (\<lambda>c. c \<noteq> CHR '':'') (v @ w) = u" using tw [OF assms(3)] assms(2) by simp
  ultimately show ?thesis using x(1) by simp
qed

lemma recv_start:
  assumes "host_idle h" and "(c, ty) \<in> {(CHR ''O'', ATCMD_MSG_OK), (CHR ''E'', ATCMD_MSG_ERROR), (CHR ''+'', ATCMD_MSG_INFO)}"
  shows "\<exists>h'. recv_byte M c h = Some h' \<and> receiving h' [c] \<and> m_type h' = ty \<and> frame h' = frame h"
proof -
  from recv_byte_store [of h "[]" c M] assms(1) obtain h2 where
    h2: "receiving h2 [c]" "m_type h2 = ATCMD_MSG_NONE" "frame h2 = frame h"
      "recv_byte M c h = (case recv_classify h2 of (check, h3) \<Rightarrow>
        if check then recv_line_end (M (h_env h)) h3 else Some h3)" by (auto simp: host_idle_def)
  have "m_cnt h2 = 1" "m_buf h2 ! 0 = c" using h2(1) by (simp_all add: receiving_def has_Cons)
  then have "recv_classify h2 = (False, if c = CHR ''O'' then h2\<lparr>m_type := ATCMD_MSG_OK\<rparr>
                     else if c = CHR ''E'' then h2\<lparr>m_type := ATCMD_MSG_ERROR\<rparr>
                     else if c = CHR ''+'' then h2\<lparr>m_type := ATCMD_MSG_INFO\<rparr> else h2\<lparr>m_cnt := 0\<rparr>)"
    unfolding recv_classify_def Let_def h2(2) msg_type.case by simp
  moreover have "c = CHR ''O'' \<and> ty = ATCMD_MSG_OK \<or> c = CHR ''E'' \<and> ty = ATCMD_MSG_ERROR \<or> c = CHR ''+'' \<and> ty = ATCMD_MSG_INFO"
    using assms(2) by simp
  ultimately have "recv_classify h2 = (False, h2\<lparr>m_type := ty\<rparr>)" by (elim disjE conjE) simp_all
  then show ?thesis using h2 by (simp add: receiving_def)
qed

lemma recv_header_byte:
  assumes "receiving h t" and "m_type h = ATCMD_MSG_INFO" and "(t @ [c], ty) \<in> set header_types"
  shows "\<exists>h'. recv_byte M c h = Some h' \<and> receiving h' (t @ [c]) \<and> m_type h' = ty \<and> frame h' = frame h"
proof -
  have len: "length (t @ [c]) \<le> 15" using assms(3) by (auto simp: header_types_def)
  then have "length t < 128" by simp
  from recv_byte_store [OF assms(1) this, of c M] obtain h2 where
    h2: "receiving h2 (t @ [c])" "m_type h2 = ATCMD_MSG_INFO" "frame h2 = frame h"
      "recv_byte M c h = (case recv_classify h2 of (check, h3) \<Rightarrow>
        if check then recv_line_end (M (h_env h)) h3 else Some h3)" using assms(2) by auto
  define m where "m = t @ [c]"
  have m: "take (m_cnt h2) (m_buf h2) = m" "m_cnt h2 = length m" "(m, ty) \<in> set header_types"
    using h2(1) receiving_text [OF h2(1)] assms(3) by (simp_all add: m_def receiving_def)
  have "recv_classify h2 = (False, h2\<lparr>m_type := ty\<rparr>)"
    unfolding recv_classify_def Let_def m(1) unfolding m(2) h2(2) msg_type.case
    using m(3) [unfolded header_types_def list.set insert_iff prod.inject empty_iff simp_thms]
    by (elim disjE conjE) simp_all
  then show ?thesis using h2 by (simp add: receiving_def)
qed

text \<open>A complete line as its handler finds it.\<close>

definition line_in :: "'e host \<Rightarrow> string \<Rightarrow> bool" where
  "line_in h t \<longleftrightarrow> receiving h t \<and> has (m_buf h) 0 (t @ [NUL])"

lemma recv_line_complete:
  assumes "receiving h (t @ [CR])" and "length t \<le> 126"
    and "m_type h \<noteq> ATCMD_MSG_NONE" and "m_type h = ATCMD_MSG_OK \<Longrightarrow> t = ''OK''"
    and "m_type h = ATCMD_MSG_ERROR \<Longrightarrow> t = ''ERROR''"
  shows "\<exists>h2. line_in h2 t \<and> m_type h2 = m_type h \<and> frame h2 = frame h \<and>
    recv_byte M LF h = map_option (\<lambda>h1. h1\<lparr>m_type := ATCMD_MSG_NONE, m_cnt := 0\<rparr>) (recv_dispatch (M (h_env h)) h2)"
proof -
  have "length (t @ [CR]) < 128" using assms(2) by simp
  from recv_byte_store [OF assms(1) this, of LF M] obtain h3 where
    h3: "receiving h3 (t @ [CR, LF])" "m_type h3 = m_type h" "frame h3 = frame h"
      "recv_byte M LF h = (case recv_classify h3 of (check, h4) \<Rightarrow>
        if check then recv_line_end (M (h_env h)) h4 else Some h4)" by auto
  define m where "m = t @ [CR, LF]"
  have m: "take (m_cnt h3) (m_buf h3) = m" "m_cnt h3 = length m"
    using h3(1) receiving_text [OF h3(1)] by (simp_all add: m_def receiving_def)
  have "m \<notin> set special_headers" using header_shape [of m] by (auto simp: m_def)
  then have q: "m \<noteq> ''+BOOT:''" "m \<noteq> ''+BEVENT:''" "m \<noteq> ''+WEVENT:''" "m \<noteq> ''+SEVENT:''"
      "m \<noteq> ''+RXD:''" "m \<noteq> ''+RXD_SFUSER:''" "m \<noteq> ''+RXD_SFSYSUSER:''"
    by (simp_all only: special_headers_def header_types_def list.map fst_conv list.set insert_iff de_Morgan_disj simp_thms)
  have okm: "m_type h = ATCMD_MSG_OK \<Longrightarrow> m = ''OK'' @ [CR, LF]" "m_type h = ATCMD_MSG_ERROR \<Longrightarrow> m = ''ERROR'' @ [CR, LF]"
    using assms(4,5) by (simp_all add: m_def)
  have c: "recv_classify h3 = (True, h3)"
  proof (cases "m_type h")
    case ATCMD_MSG_INFO
    then show ?thesis unfolding recv_classify_def Let_def m(1) h3(2) using q by simp
  next
    case ATCMD_MSG_OK
    then show ?thesis unfolding recv_classify_def Let_def m(1) unfolding m(2) h3(2) okm(1) [OF ATCMD_MSG_OK] by simp
  next
    case ATCMD_MSG_ERROR
    then show ?thesis unfolding recv_classify_def Let_def m(1) unfolding m(2) h3(2) okm(2) [OF ATCMD_MSG_ERROR] by simp
  qed (use assms(3) in \<open>simp_all add: recv_classify_def h3(2)\<close>)
  let ?h2 = "h3\<lparr>m_cnt := m_cnt h3 - 2, m_buf := (m_buf h3)[m_cnt h3 - 2 := NUL]\<rparr>"
  have "ends_line (t @ [CR, LF])" by (simp add: ends_line_def)
  then have "recv_line_end mem h3 = map_option (\<lambda>h1. h1\<lparr>m_type := ATCMD_MSG_NONE, m_cnt := 0\<rparr>) (recv_dispatch mem ?h2)" for mem
    unfolding recv_line_end_def receiving_ends [OF h3(1)] by simp
  moreover have "line_in ?h2 t" using h3(1) m(2)
    by (simp add: line_in_def receiving_def has_append has_Cons has_update_after m_def) (simp add: has_def)
  ultimately show ?thesis using h3 c by (intro exI [of _ ?h2]) simp
qed

subsection \<open>Whole lines\<close>

definition line_done :: "'e host \<Rightarrow> 'e host" where
  "line_done h = h\<lparr>m_type := ATCMD_MSG_NONE, m_cnt := 0\<rparr>"

text \<open>\<open>line_read M h s ty t\<close>: the bytes \<open>s\<close> are a line that hands the text \<open>t\<close> to the handler of \<open>ty\<close>.\<close>

definition line_read :: "('e \<Rightarrow> bool) \<Rightarrow> 'e host \<Rightarrow> string \<Rightarrow> msg_type \<Rightarrow> string \<Rightarrow> bool" where
  "line_read M h s ty t \<longleftrightarrow> (\<exists>h2. line_in h2 t \<and> m_type h2 = ty \<and> frame h2 = frame h \<and>
     nrc_atcmd_recv M s h = map_option line_done (recv_dispatch (M (h_env h)) h2))"

lemma frame_env: "frame h' = frame h \<Longrightarrow> h_env h' = h_env h"
  using frame_proj(5) [of h] frame_proj(5) [of h'] by simp

lemma recv_line_dispatch:
  assumes "receiving h t" and "m_type h \<noteq> ATCMD_MSG_NONE" and "length t + length u \<le> 126"
    and "\<And>v w. u @ [CR] = v @ w \<Longrightarrow> v \<noteq> [] \<Longrightarrow> quiet (m_type h) (t @ v)"
    and "m_type h = ATCMD_MSG_OK \<Longrightarrow> t @ u = ''OK''" and "m_type h = ATCMD_MSG_ERROR \<Longrightarrow> t @ u = ''ERROR''"
  shows "line_read M h (u @ [CR, LF]) (m_type h) (t @ u)"
proof -
  have l: "length t + length (u @ [CR]) \<le> 128" using assms(3) by simp
  have "\<exists>h'. nrc_atcmd_recv M (u @ [CR]) h = Some h' \<and> receiving h' (t @ u @ [CR]) \<and> m_type h' = m_type h \<and> frame h' = frame h"
    by (rule recv_quiet [OF assms(1) l]) (rule assms(4))
  then obtain h1 where
    h1: "nrc_atcmd_recv M (u @ [CR]) h = Some h1" "receiving h1 ((t @ u) @ [CR])" "m_type h1 = m_type h" "frame h1 = frame h"
    by auto
  have l: "length (t @ u) \<le> 126" using assms(3) by simp
  from recv_line_complete [OF h1(2) l, of M] assms(2,5,6) obtain h2 where
    h2: "line_in h2 (t @ u)" "m_type h2 = m_type h1" "frame h2 = frame h1"
      "recv_byte M LF h1 = map_option (\<lambda>h1. h1\<lparr>m_type := ATCMD_MSG_NONE, m_cnt := 0\<rparr>) (recv_dispatch (M (h_env h1)) h2)"
    unfolding h1(3) by blast
  have "nrc_atcmd_recv M ((u @ [CR]) @ [LF]) h = map_option line_done (recv_dispatch (M (h_env h)) h2)"
    unfolding recv_append [of M "u @ [CR]"] h1(1) using h2(4) frame_env [OF h1(4)]
    by (cases "recv_dispatch (M (h_env h)) h2") (simp_all add: line_done_def)
  then show ?thesis unfolding line_read_def using h2 h1 by auto
qed

lemma recv_ok_line: "host_idle h \<Longrightarrow> line_read M h (''OK'' @ [CR, LF]) ATCMD_MSG_OK ''OK''"
  and recv_error_line: "host_idle h \<Longrightarrow> line_read M h (''ERROR'' @ [CR, LF]) ATCMD_MSG_ERROR ''ERROR''"
proof -
  assume h: "host_idle h"
  have *: "line_read M h (c # u @ [CR, LF]) ty (c # u)"
    if "(c, ty) \<in> {(CHR ''O'', ATCMD_MSG_OK), (CHR ''E'', ATCMD_MSG_ERROR), (CHR ''+'', ATCMD_MSG_INFO)}"
      and "c # u = (if ty = ATCMD_MSG_OK then ''OK'' else ''ERROR'')" and "ty \<noteq> ATCMD_MSG_INFO" for c u ty
  proof -
    from recv_start [OF h that(1)] obtain h1 where
      h1: "recv_byte M c h = Some h1" "receiving h1 [c]" "m_type h1 = ty" "frame h1 = frame h" by blast
    have t: "ty = ATCMD_MSG_OK \<or> ty = ATCMD_MSG_ERROR" using that(1,3) by auto
    then have l: "length u = (if ty = ATCMD_MSG_OK then 1 else 4)" using that(2) by (cases "ty = ATCMD_MSG_OK") auto
    have "length v \<le> Suc (length u)" if "u @ [CR] = v @ w" for v w
      using arg_cong [OF that, of length] by simp
    then have "quiet ty ([c] @ v)" if "u @ [CR] = v @ w" for v w
      using t l that by (fastforce simp: quiet_def)
    then have "line_read M h1 (u @ [CR, LF]) ty ([c] @ u)"
      using recv_line_dispatch [OF h1(2), of u M] h1(3) t l that(2) by auto
    then show ?thesis using h1 frame_env [OF h1(4)] by (auto simp: line_read_def)
  qed
  show "line_read M h (''OK'' @ [CR, LF]) ATCMD_MSG_OK ''OK''"
    "line_read M h (''ERROR'' @ [CR, LF]) ATCMD_MSG_ERROR ''ERROR''"
    using * [of "CHR ''O''" ATCMD_MSG_OK "''K''"] * [of "CHR ''E''" ATCMD_MSG_ERROR "''RROR''"] by simp_all
qed

text \<open>A line that starts with a plus sign and is none of the special messages.\<close>

lemma info_quiet:
  assumes "list_all text_char (u @ CHR '':'' # z)" and "CHR '':'' \<notin> set u" and "u @ '':'' \<notin> set special_headers"
    and "(u @ CHR '':'' # z) @ [CR] = v @ w"
  shows "quiet ATCMD_MSG_INFO v"
proof -
  have "LF \<notin> set ((u @ CHR '':'' # z) @ [CR])" using assms(1) by (auto simp: list_all_iff text_char_def)
  then have "LF \<notin> set v" unfolding assms(4) by simp
  moreover have "v \<notin> set special_headers"
    using header_first_colon [of v w u "z @ [CR]"] assms(2-4) by (metis append_Cons append_assoc)
  ultimately show ?thesis by (simp add: quiet_def no_LF_ends)
qed

lemma recv_info_line:
  assumes "host_idle h" and "list_all text_char (name @ CHR '':'' # z)" and "CHR '':'' \<notin> set name"
    and "CHR ''+'' # name @ '':'' \<notin> set special_headers" and "length name + length z \<le> 124"
  shows "line_read M h (CHR ''+'' # name @ CHR '':'' # z @ [CR, LF]) ATCMD_MSG_INFO (CHR ''+'' # name @ CHR '':'' # z)"
proof -
  have "(CHR ''+'', ATCMD_MSG_INFO) \<in> {(CHR ''O'', ATCMD_MSG_OK), (CHR ''E'', ATCMD_MSG_ERROR), (CHR ''+'', ATCMD_MSG_INFO)}" by simp
  from recv_start [OF assms(1) this] obtain h1 where
    h1: "recv_byte M (CHR ''+'') h = Some h1" "receiving h1 ''+''" "m_type h1 = ATCMD_MSG_INFO" "frame h1 = frame h" by blast
  let ?u = "name @ CHR '':'' # z"
  have p: "list_all text_char ((CHR ''+'' # name) @ CHR '':'' # z)" "CHR '':'' \<notin> set (CHR ''+'' # name)"
      "(CHR ''+'' # name) @ '':'' \<notin> set special_headers"
    using assms(2-4) by (simp_all add: text_char_def)
  have "quiet (m_type h1) (''+'' @ v)" if "?u @ [CR] = v @ w" for v w
    using info_quiet [OF p, of "CHR ''+'' # v" w] that h1(3) by simp
  then have "line_read M h1 (?u @ [CR, LF]) ATCMD_MSG_INFO (''+'' @ ?u)"
    using recv_line_dispatch [OF h1(2), of ?u M] h1(3) assms(5) by auto
  then show ?thesis using h1 frame_env [OF h1(4)] by (auto simp: line_read_def)
qed

lemma recv_header_line:
  assumes "host_idle h" and "(hdr, ty) \<in> set header_types" and "list_all text_char z" and "length hdr + length z \<le> 126"
  shows "line_read M h (hdr @ z @ [CR, LF]) ty (hdr @ z)"
proof -
  have hs: "hdr \<in> set special_headers" using assms(2) by (force simp: special_headers_def)
  from header_shape [OF hs] obtain x' where x': "hdr = x' @ '':''" "CHR '':'' \<notin> set x'" "x' \<noteq> []" "LF \<notin> set hdr" by blast
  have "\<forall>v \<in> set special_headers. take 1 v = ''+''" by (simp add: special_headers_def header_types_def)
  then obtain x where x: "x' = CHR ''+'' # x" using x'(1,3) hs by (cases x') auto
  have plus: "(CHR ''+'', ATCMD_MSG_INFO) \<in> {(CHR ''O'', ATCMD_MSG_OK), (CHR ''E'', ATCMD_MSG_ERROR), (CHR ''+'', ATCMD_MSG_INFO)}" by simp
  from recv_start [OF assms(1) plus] obtain h1 where
    h1: "recv_byte M (CHR ''+'') h = Some h1" "receiving h1 ''+''" "m_type h1 = ATCMD_MSG_INFO" "frame h1 = frame h" by blast
  have "quiet (m_type h1) (''+'' @ v)" if "x = v @ w" "v \<noteq> []" for v w
  proof -
    have "CHR ''+'' # v \<notin> set special_headers" using header_shape [of "CHR ''+'' # v"] that(1) x x'(2)
      by (metis Un_iff in_set_conv_decomp list.set_intros(2) set_append append_Cons list.set_intros(1))
    moreover have "LF \<notin> set (CHR ''+'' # v)" using x'(1,4) x that(1) by auto
    ultimately show ?thesis using h1(3) by (simp add: quiet_def no_LF_ends)
  qed
  moreover have "length ''+'' + length x \<le> 128" using assms(4) x x'(1) by simp
  ultimately obtain h2 where h2: "nrc_atcmd_recv M x h1 = Some h2" "receiving h2 (''+'' @ x)" "m_type h2 = ATCMD_MSG_INFO"
      "frame h2 = frame h" using recv_quiet [OF h1(2), of x M] h1(3,4) by auto
  have "((''+'' @ x) @ '':'', ty) \<in> set header_types" using assms(2) x x'(1) by simp
  from recv_header_byte [OF h2(2,3) this] obtain h3 where
    h3: "recv_byte M (CHR '':'') h2 = Some h3" "receiving h3 hdr" "m_type h3 = ty" "frame h3 = frame h"
    using x x'(1) h2(4) by auto
  have ty: "ty \<notin> {ATCMD_MSG_NONE, ATCMD_MSG_OK, ATCMD_MSG_ERROR, ATCMD_MSG_INFO}"
    using assms(2) by (auto simp: header_types_def)
  have "quiet (m_type h3) (hdr @ v)" if "z @ [CR] = v @ w" for v w
  proof -
    have "LF \<notin> set (z @ [CR])" using assms(3) by (auto simp: list_all_iff text_char_def)
    then have "LF \<notin> set (hdr @ v)" unfolding that using x'(4) by simp
    then show ?thesis using ty h3(3) by (cases ty) (simp_all add: quiet_def no_LF_ends)
  qed
  then have "line_read M h3 (z @ [CR, LF]) ty (hdr @ z)"
    using recv_line_dispatch [OF h3(2), of z M] h3(3) ty assms(4) by auto
  moreover have "nrc_atcmd_recv M (hdr @ z @ [CR, LF]) h = nrc_atcmd_recv M (z @ [CR, LF]) h3"
    using h1(1) h2(1) h3(1) by (simp add: x x'(1) recv_append)
  ultimately show ?thesis using h3(4) frame_env [OF h3(4)] by (auto simp: line_read_def)
qed

end
