(* ===== verification/HostStream.thy ===== *)
theory HostStream
  imports HostRecv
begin

text \<open>
  What the host receiver promises: the messages of the AT command protocol as a data type, their
  text, their effect on the host, and the proof that the receiver turns any sequence of them into
  exactly these effects.
\<close>

subsection \<open>Messages\<close>

text \<open>
  The result of a command, an information message with its parameters, the boot message, an event
  of one of the three classes (\<open>B\<close>, \<open>W\<close>, \<open>S\<close>), and blocks of data: of a socket without and with the
  remote address, of the user and of the system user area of the flash.
\<close>

datatype host_msg =
    HmOk
  | HmError
  | HmInfo string "string list"
  | HmBoot string
  | HmEvent char string "string list"
  | HmSocket nat string
  | HmSocketFrom nat string nat string
  | HmSfuser nat string
  | HmSfsysuser nat string

definition quoted :: "string \<Rightarrow> string" where
  "quoted s = CHR 0x22 # s @ [CHR 0x22]"

primrec encode :: "host_msg \<Rightarrow> string" where
  "encode HmOk = ''OK'' @ [CR, LF]"
| "encode HmError = ''ERROR'' @ [CR, LF]"
| "encode (HmInfo name ps) = CHR ''+'' # name @ CHR '':'' # join_params ps @ [CR, LF]"
| "encode (HmBoot z) = ''+BOOT:'' @ z @ [CR, LF]"
| "encode (HmEvent c name ps) = (CHR ''+'' # c # ''EVENT:'') @ join_params (quoted name # ps) @ [CR, LF]"
| "encode (HmSocket i d) = (''+RXD:'' @ join_params [dec_nat i, dec_nat (length d)] @ [CR, LF]) @ d"
| "encode (HmSocketFrom i a p d) =
    (''+RXD:'' @ join_params [dec_nat i, dec_nat (length d), a, dec_nat p] @ [CR, LF]) @ d"
| "encode (HmSfuser i d) = (''+RXD_SFUSER:'' @ join_params [dec_nat i, dec_nat (length d)] @ [CR, LF]) @ d"
| "encode (HmSfsysuser i d) = (''+RXD_SFSYSUSER:'' @ join_params [dec_nat i, dec_nat (length d)] @ [CR, LF]) @ d"

definition call :: "('e \<Rightarrow> 'e) option \<Rightarrow> 'e host \<Rightarrow> 'e host" where
  "call f h = (case f of None \<Rightarrow> h | Some g \<Rightarrow> h\<lparr>h_env := g (h_env h)\<rparr>)"

definition event_of :: "string \<Rightarrow> host_event option" where
  "event_of name = map_of event_names (if name = ''TCP_ERROR'' then ''RECV_ERROR'' else name)"

definition data_effect :: "rxd \<Rightarrow> string \<Rightarrow> 'e host \<Rightarrow> 'e host" where
  "data_effect r d h =
    call (map_option (\<lambda>f. f r d) (cb_rxd h)) (h\<lparr>data_recv := data_recv h + of_nat (length d)\<rparr>)"

primrec host_effect :: "host_msg \<Rightarrow> 'e host \<Rightarrow> 'e host" where
  "host_effect HmOk h = nrc_atcmd_set_return ATCMD_RET_OK h"
| "host_effect HmError h = nrc_atcmd_set_return ATCMD_RET_ERROR h"
| "host_effect (HmInfo name ps) h = call (map_option (\<lambda>f. f name (length ps) ps) (cb_info h)) h"
| "host_effect (HmBoot z) h =
    call (map_option (\<lambda>f. f (boot_reason z)) (cb_boot h))
      (nrc_atcmd_set_ready True (nrc_atcmd_set_return ATCMD_RET_NONE h))"
| "host_effect (HmEvent c name ps) h =
    (case event_of name of
       None \<Rightarrow> h
     | Some e \<Rightarrow> call (map_option (\<lambda>f. f e (length ps) ps) (cb_event h))
         (if e = ATCMD_WEVENT_DEEPSLEEP_WAKEUP
          then nrc_atcmd_set_return ATCMD_RET_NONE (nrc_atcmd_set_ready True h) else h))"
| "host_effect (HmSocket i d) h = data_effect (RxdSocket (int (length d)) (int i) ''0.0.0.0'' 0 False) d h"
| "host_effect (HmSocketFrom i a p d) h =
    data_effect (RxdSocket (int (length d)) (int i) a (int p) True) d h"
| "host_effect (HmSfuser i d) h = data_effect (RxdSfuser (int (length d)) (int i)) d h"
| "host_effect (HmSfsysuser i d) h = data_effect (RxdSfsysuser (int (length d)) (int i)) d h"

text \<open>A line is at most 128 characters long, and a block has one to 4096 bytes.\<close>

definition number_ok :: "nat \<Rightarrow> bool" where
  "number_ok n \<longleftrightarrow> int n \<le> LONG_MAX"

definition data_ok :: "string \<Rightarrow> bool" where
  "data_ok d \<longleftrightarrow> d \<noteq> [] \<and> length d \<le> HOST_DATA_LEN_MAX"

primrec host_msg_ok :: "host_msg \<Rightarrow> bool" where
  "host_msg_ok HmOk \<longleftrightarrow> True"
| "host_msg_ok HmError \<longleftrightarrow> True"
| "host_msg_ok (HmInfo name ps) \<longleftrightarrow> list_all text_char name \<and> CHR '':'' \<notin> set name \<and>
    CHR ''+'' # name @ '':'' \<notin> set special_headers \<and> ps \<noteq> [] \<and> length ps \<le> 10 \<and>
    list_all (list_all arg_char) ps \<and> length name + length (join_params ps) \<le> 124"
| "host_msg_ok (HmBoot z) \<longleftrightarrow> list_all text_char z \<and> length z \<le> 120"
| "host_msg_ok (HmEvent c name ps) \<longleftrightarrow> c \<in> set ''BWS'' \<and> name \<noteq> [] \<and> list_all arg_char name \<and>
    length ps \<le> 9 \<and> list_all (list_all arg_char) ps \<and> length (join_params (quoted name # ps)) \<le> 118"
| "host_msg_ok (HmSocket i d) \<longleftrightarrow> number_ok i \<and> data_ok d"
| "host_msg_ok (HmSocketFrom i a p d) \<longleftrightarrow> number_ok i \<and> number_ok p \<and> data_ok d \<and> list_all arg_char a \<and>
    ATCMD_IPADDR_LEN_MIN \<le> length a \<and> length a \<le> ATCMD_IPADDR_LEN_MAX"
| "host_msg_ok (HmSfuser i d) \<longleftrightarrow> number_ok i \<and> data_ok d"
| "host_msg_ok (HmSfsysuser i d) \<longleftrightarrow> number_ok i \<and> data_ok d"

subsection \<open>The handlers on a complete line\<close>

definition buffers_ok :: "'e host \<Rightarrow> bool" where
  "buffers_ok h \<longleftrightarrow> r_rxd h = None \<and> r_cnt h = 0 \<and> length (m_buf h) = 129 \<and> length (r_buf h) = 4097"

lemma idle_line_done: "buffers_ok h \<Longrightarrow> host_idle (line_done h)"
  by (simp add: buffers_ok_def host_idle_def receiving_def line_done_def has_def)

lemma line_in_buffers: "line_in h t \<Longrightarrow> buffers_ok h"
  by (simp add: line_in_def receiving_def buffers_ok_def)

lemma frame_call: "frame (call f h) = call f (frame h)"
  by (cases f) (simp_all add: call_def frame_effects)

lemma call_buffers [simp]: "buffers_ok (call f h) = buffers_ok h"
  by (cases f) (simp_all add: call_def buffers_ok_def)

lemma effect_buffers [simp]:
  "buffers_ok (nrc_atcmd_set_return v h) = buffers_ok h" "buffers_ok (nrc_atcmd_set_ready b h) = buffers_ok h"
  by (simp_all add: buffers_ok_def nrc_atcmd_set_return_def nrc_atcmd_set_ready_def)

lemma effect_proj [simp]:
  "cb_boot (nrc_atcmd_set_return v h) = cb_boot h" "cb_event (nrc_atcmd_set_return v h) = cb_event h"
  "cb_boot (nrc_atcmd_set_ready b h) = cb_boot h" "cb_event (nrc_atcmd_set_ready b h) = cb_event h"
  by (simp_all add: nrc_atcmd_set_return_def nrc_atcmd_set_ready_def)

lemma buffers_m_buf: "buffers_ok h \<Longrightarrow> length b = 129 \<Longrightarrow> buffers_ok (h\<lparr>m_buf := b\<rparr>)"
  by (simp add: buffers_ok_def)

lemma call_case: "call (map_option g f) h = (case f of None \<Rightarrow> h | Some k \<Rightarrow> h\<lparr>h_env := g k (h_env h)\<rparr>)"
  by (cases f) (simp_all add: call_def)

lemma arg_text: "list_all arg_char t \<Longrightarrow> list_all text_char t"
  by (auto simp: list_all_iff arg_char_def text_char_def)

lemma join_params_text: "list_all (list_all arg_char) ps \<Longrightarrow> list_all text_char (join_params ps)"
  by (induction ps rule: join_params.induct) (simp_all add: arg_text text_char_def)

lemma text_no_NUL: "list_all text_char t \<Longrightarrow> NUL \<notin> set t"
  by (auto simp: list_all_iff text_char_def)

lemma line_in_str:
  assumes "line_in h t" and "NUL \<notin> set t"
  shows "c_str (m_buf h) 0 = t" and "m_cnt h = length t" and "length (m_buf h) = 129"
  using assms c_str_has [of "m_buf h" 0 t] by (simp_all add: line_in_def receiving_def)

lemma recv_info_handler:
  assumes "line_in h (CHR ''+'' # name @ CHR '':'' # join_params (p # ps))" and "list_all text_char name"
    and "CHR '':'' \<notin> set name" and "list_all (list_all arg_char) (p # ps)" and "length ps < 10"
  shows "\<exists>h'. nrc_atcmd_recv_info (m_cnt h) h = Some (0, h') \<and> buffers_ok h' \<and>
    frame h' = host_effect (HmInfo name (p # ps)) (frame h)"
proof -
  let ?j = "join_params (p # ps)" and ?l = "Suc (length name)"
  let ?t = "CHR ''+'' # name @ CHR '':'' # ?j"
  have nt: "NUL \<notin> set ?t" using assms(2) join_params_no_NUL [OF assms(4)] by (auto simp: list_all_iff text_char_def)
  note s = line_in_str [OF assms(1) nt]
  have h: "has (m_buf h) 0 (?t @ [NUL])" using assms(1) by (simp add: line_in_def)
  have tw: "takeWhile (\<lambda>c. c \<noteq> CHR '':'') (y @ CHR '':'' # r) = y" if "CHR '':'' \<notin> set y" for y r
    using that by (induction y) auto
  have "takeWhile (\<lambda>c. c \<noteq> CHR '':'') ((CHR ''+'' # name) @ CHR '':'' # ?j) = CHR ''+'' # name"
    using assms(3) by (intro tw) simp
  then have p: "length (takeWhile (\<lambda>c. c \<noteq> CHR '':'') ?t) = ?l" by simp
  let ?b = "(m_buf h)[?l := NUL]"
  have parts: "has (m_buf h) 1 name" "?l < length (m_buf h)" "has (m_buf h) (Suc ?l) (?j @ [NUL])"
    using h by (simp_all add: has_Cons has_append)
  have "has ?b (Suc ?l) (?j @ [NUL])" using parts(3) by (simp add: has_update_before)
  then obtain b' pos where
    b: "comma_loop (length ?j) (Suc ?l) ?b [Suc ?l] 1 = Some (b', [Suc ?l] @ pos, 1 + length ps)"
      "args_at b' (Suc ?l # pos) (p # ps)" "same_before (Suc ?l) ?b b'"
    using comma_loop_join [OF _ assms(4), of ?b "Suc ?l" 1 "[Suc ?l]"] assms(5) by auto
  have "has ?b 1 (name @ [NUL])" using parts(1,2) by (simp add: has_append has_Cons has_update_after) (simp add: has_def)
  then have "has b' 1 (name @ [NUL])" using same_before_has [OF b(3)] by simp
  then have nm: "c_str b' 1 = name" using text_no_NUL [OF assms(2)] by (rule c_str_has)
  have "m_cnt h - Suc ?l = length ?j" by (simp add: s(2))
  then have "nrc_atcmd_recv_info (m_cnt h) h = Some (0, call (map_option (\<lambda>f. f name (length (p # ps)) (p # ps)) (cb_info h))
      (h\<lparr>m_buf := b'\<rparr>))"
    unfolding nrc_atcmd_recv_info_def Let_def s(1) p using b(1) nm args_at_strings [OF b(2) assms(4)]
    by (simp add: s(2) call_case split: option.splits)
  moreover have "buffers_ok (h\<lparr>m_buf := b'\<rparr>)"
    using b(3) s(3) line_in_buffers [OF assms(1)] by (intro buffers_m_buf) (simp_all add: same_before_def)
  ultimately show ?thesis by (simp add: frame_call)
qed

lemma recv_boot_handler:
  assumes "line_in h (''+BOOT:'' @ z)" and "list_all text_char z"
  shows "\<exists>h'. nrc_atcmd_recv_boot (m_cnt h) h = (0, h') \<and> buffers_ok h' \<and> frame h' = host_effect (HmBoot z) (frame h)"
proof -
  have "has (m_buf h) 0 (''+BOOT:'' @ z @ [NUL])" using assms(1) by (simp add: line_in_def)
  then have h: "has (m_buf h) 0 ''+BOOT:''" "has (m_buf h) 6 (z @ [NUL])"
    unfolding has_append [of "m_buf h" 0 "''+BOOT:''"] by (simp_all add: eval_nat_numeral)
  have c: "c_str (m_buf h) 6 = z" using h(2) text_no_NUL [OF assms(2)] by (rule c_str_has)
  have t: "take 6 (m_buf h) = ''+BOOT:''" using h(1) by (simp add: has_def eval_nat_numeral)
  have n: "m_cnt h \<noteq> 0" using assms(1) by (simp add: line_in_def receiving_def)
  let ?h = "nrc_atcmd_set_ready True (nrc_atcmd_set_return ATCMD_RET_NONE h)"
  have "nrc_atcmd_recv_boot (m_cnt h) h = (0, call (map_option (\<lambda>f. f (boot_reason z)) (cb_boot h)) ?h)"
    unfolding nrc_atcmd_recv_boot_def t c Let_def using n
    by (simp add: call_case)
  then show ?thesis using line_in_buffers [OF assms(1)] by (simp add: frame_call frame_effects)
qed

lemma args_at_memcpy:
  "args_at buf pos ps \<Longrightarrow> list_all (\<lambda>a. q + length u \<le> a) pos \<Longrightarrow> args_at (memcpy_at buf q u) pos ps"
  unfolding args_at_def by (induction rule: list_all2_induct) (auto intro: has_memcpy(1))

lemma unquote_in_place:
  assumes "has b p (quoted name @ [NUL])" and "NUL \<notin> set name" and "name \<noteq> []"
  shows "nrc_atcmd_param_to_str b (Some p) (Some p) (int (length (c_str b p))) = Some (memcpy_at b p (name @ [NUL]))"
proof -
  have "NUL \<notin> set (quoted name)" using assms(2) by (simp add: quoted_def)
  then have c: "c_str b p = quoted name" by (rule c_str_has [OF assms(1)])
  have "has b (Suc p) name" "b ! p = CHR 0x22"
    using assms(1) by (simp_all add: quoted_def has_Cons has_append)
  then have "take (length name) (drop (Suc p) b) = name" "b ! p = CHR 0x22" by (simp_all add: has_def)
  then show ?thesis using assms(3)
    by (simp add: nrc_atcmd_param_to_str_def c) (simp add: quoted_def)
qed

lemma recv_event_handler:
  assumes "line_in h (hdr @ join_params (quoted name # ps))" and "length hdr = 8" and "NUL \<notin> set hdr"
    and "list_all arg_char name" and "name \<noteq> []" and "list_all (list_all arg_char) ps" and "length ps \<le> 9"
  shows "\<exists>h'. nrc_atcmd_recv_event (m_cnt h) h = Some (0, h') \<and> buffers_ok h' \<and>
    frame h' = host_effect (HmEvent c name ps) (frame h)"
proof -
  let ?q = "quoted name" let ?j = "join_params (?q # ps)"
  have q: "list_all (list_all arg_char) (?q # ps)" using assms(4,6) by (simp add: quoted_def arg_char_def)
  have nt: "NUL \<notin> set (hdr @ ?j)" using assms(3) join_params_no_NUL [OF q] by simp
  note s = line_in_str [OF assms(1) nt]
  have "has (m_buf h) 0 ((hdr @ ?j) @ [NUL])" using assms(1) by (simp add: line_in_def)
  then have "has (m_buf h) 8 (?j @ [NUL])" using assms(2) by (simp add: has_append)
  then obtain b pos where
    b: "comma_loop (length ?j) 8 (m_buf h) [8] 1 = Some (b, [8] @ pos, 1 + length ps)"
      "args_at b (8 # pos) (?q # ps)" "same_before 8 (m_buf h) b" "list_all (\<lambda>a. 8 + length ?q < a) pos"
    using comma_loop_join [OF _ q, of "m_buf h" 8 1 "[8]"] assms(7) by auto
  have lb: "length b = 129" using b(3) s(3) by (simp add: same_before_def)
  have b8: "has b 8 (?q @ [NUL])" and bt: "args_at b pos ps" using b(2) by (simp_all add: args_at_def)
  let ?b1 = "memcpy_at b 8 (name @ [NUL])"
  have fits: "8 + length ?q < 129" using b8 lb by (simp add: has_def)
  then have l1: "length ?b1 = 129" using lb by (simp add: quoted_def)
  have "list_all (\<lambda>a. 8 + length (name @ [NUL]) \<le> a) pos"
    using b(4) by (fastforce simp: list_all_iff quoted_def)
  then have b1: "has ?b1 8 (name @ [NUL])" "args_at ?b1 pos ps"
    using fits lb by (simp_all add: quoted_def has_memcpy(2) args_at_memcpy [OF bt])
  have n1: "c_str ?b1 8 = name" using b1(1) arg_no_NUL [OF assms(4)] by (rule c_str_has)
  let ?nm = "if name = ''TCP_ERROR'' then ''RECV_ERROR'' else name"
  have "\<exists>b2. (if c_str ?b1 8 = ''TCP_ERROR'' then strcpy_at ?b1 8 ''RECV_ERROR'' else Some ?b1) = Some b2 \<and>
      length b2 = 129 \<and> c_str b2 8 = ?nm \<and> args_at b2 pos ps"
  proof (cases "name = ''TCP_ERROR''")
    case True
    let ?b2 = "memcpy_at ?b1 8 (''RECV_ERROR'' @ [NUL])"
    have "has ?b2 8 (''RECV_ERROR'' @ [NUL])" by (rule has_memcpy(2)) (use l1 in simp)
    then have "c_str ?b2 8 = ''RECV_ERROR''" by (rule c_str_has) simp
    moreover have "args_at ?b2 pos ps" using b(4) True
      by (intro args_at_memcpy [OF b1(2)]) (auto simp: quoted_def list_all_iff)
    ultimately show ?thesis using l1 True n1 by (simp add: strcpy_at_def)
  qed (use l1 b1 n1 in simp)
  then obtain b2 where b2: "(if c_str ?b1 8 = ''TCP_ERROR'' then strcpy_at ?b1 8 ''RECV_ERROR'' else Some ?b1) = Some b2"
      "length b2 = 129" "c_str b2 8 = ?nm" "args_at b2 pos ps" by blast
  have n: "m_cnt h \<noteq> 0" "m_cnt h - 8 = length ?j" using assms(2) s(2) by simp_all
  have un: "nrc_atcmd_param_to_str b (Some 8) (Some 8) (int (length (c_str b 8))) = Some ?b1"
    by (rule unquote_in_place [OF b8 arg_no_NUL [OF assms(4)] assms(5)])
  let ?h1 = "h\<lparr>m_buf := b2\<rparr>"
  let ?r = "case event_of name of None \<Rightarrow> ?h1
     | Some e \<Rightarrow> call (map_option (\<lambda>f. f e (length ps) ps) (cb_event h))
         (if e = ATCMD_WEVENT_DEEPSLEEP_WAKEUP
          then nrc_atcmd_set_return ATCMD_RET_NONE (nrc_atcmd_set_ready True ?h1) else ?h1)"
  have "nrc_atcmd_recv_event (m_cnt h) h = Some (0, ?r)"
    unfolding call_case
    by (simp only: nrc_atcmd_recv_event_def n b(1) if_False Option.bind_lunit prod.case Let_def un option.case b2(1)
        b2(3) event_of_def [symmetric]) (simp add: args_at_strings [OF b2(4) assms(6)] split: option.split)
  moreover have "buffers_ok ?h1" using b2(2) line_in_buffers [OF assms(1)] by (rule buffers_m_buf [rotated])
  then have "buffers_ok ?r" by (simp split: option.split)
  moreover have "frame ?r = host_effect (HmEvent c name ps) (frame h)"
    by (simp add: frame_call frame_effects split: option.split)
  ultimately show ?thesis by blast
qed

subsection \<open>Blocks of data\<close>

lemma atoi_number: "number_ok n \<Longrightarrow> c_atoi (dec_nat n) = Some (int n)"
  by (simp add: c_atoi_def strtol_dec_nat number_ok_def)

lemma dec_nat_arg: "list_all arg_char (dec_nat n)"
proof -
  have "arg_char c" if "is_digit c" for c using that by (auto simp: is_digit_def arg_char_def)
  then show ?thesis using dec_nat_digits [of n] by (auto simp: list_all_iff)
qed

text \<open>The argument loop on an announcement line.\<close>

lemma rxd_args_line:
  assumes "line_in h (hdr @ join_params (q # ps))" and "list_all (list_all arg_char) (q # ps)"
    and "Suc (length ps) \<le> k" and "k \<le> 10"
  shows "\<exists>b pos. rxd_args_loop k (length hdr) (m_buf h) [length hdr] = Args b (length hdr # pos) \<and>
    length pos = length ps \<and> map (c_str b) (length hdr # pos) = q # ps \<and> length b = 129"
proof -
  have "has (m_buf h) 0 ((hdr @ join_params (q # ps)) @ [NUL])" using assms(1) by (simp add: line_in_def)
  then have "has (m_buf h) (length hdr) (join_params (q # ps) @ [NUL])" by (simp add: has_append)
  from rxd_args_join [OF this assms(2-4)] obtain b pos where
    b: "rxd_args_loop k (length hdr) (m_buf h) [length hdr] = Args b (length hdr # pos)"
      "args_at b (length hdr # pos) (q # ps)" "same_before (length hdr) (m_buf h) b" by blast
  have "length b = 129" using b(3) line_in_buffers [OF assms(1)] by (simp add: same_before_def buffers_ok_def)
  then show ?thesis using b(1) args_at_strings [OF b(2) assms(2)] args_at_length [OF b(2)] by auto
qed

lemma line_in_header: "line_in h (hdr @ z) \<Longrightarrow> take (length hdr) (m_buf h) = hdr"
  by (simp add: line_in_def has_append) (simp add: has_def)

lemma recv_rxd_handler:
  assumes "line_in h (''+RXD:'' @ join_params [dec_nat i, dec_nat n])" and "number_ok i" and "number_ok n"
  shows "\<exists>b. nrc_atcmd_recv_rxd True (m_buf h) = Some (Some (RxdSocket (int n) (int i) ''0.0.0.0'' 0 False), b) \<and> length b = 129"
proof -
  have hd: "take 5 (m_buf h) = ''+RXD:''" using line_in_header [OF assms(1)] by (simp add: eval_nat_numeral)
  have "list_all (list_all arg_char) [dec_nat i, dec_nat n]" by (simp add: dec_nat_arg)
  from rxd_args_line [OF assms(1) this, of 4] obtain b pos where
    b: "rxd_args_loop 4 5 (m_buf h) [5] = Args b (5 # pos)" "length pos = 1"
      "map (c_str b) (5 # pos) = [dec_nat i, dec_nat n]" "length b = 129" by (auto simp: eval_nat_numeral)
  show ?thesis unfolding nrc_atcmd_recv_rxd_def hd b(1) rxd_args.case b(3)
    using b(2,4) by (simp add: socket_fields_def atoi_number assms(2,3))
qed

lemma recv_rxd_from_handler:
  assumes "line_in h (''+RXD:'' @ join_params [dec_nat i, dec_nat n, a, dec_nat p])" and "number_ok i" and "number_ok n"
    and "number_ok p" and "list_all arg_char a" and "ATCMD_IPADDR_LEN_MIN \<le> length a" and "length a \<le> ATCMD_IPADDR_LEN_MAX"
  shows "\<exists>b. nrc_atcmd_recv_rxd True (m_buf h) = Some (Some (RxdSocket (int n) (int i) a (int p) True), b) \<and> length b = 129"
proof -
  have hd: "take 5 (m_buf h) = ''+RXD:''" using line_in_header [OF assms(1)] by (simp add: eval_nat_numeral)
  have "list_all (list_all arg_char) [dec_nat i, dec_nat n, a, dec_nat p]" by (simp add: dec_nat_arg assms(5))
  from rxd_args_line [OF assms(1) this, of 4] obtain b pos where
    b: "rxd_args_loop 4 5 (m_buf h) [5] = Args b (5 # pos)" "length pos = 3"
      "map (c_str b) (5 # pos) = [dec_nat i, dec_nat n, a, dec_nat p]" "length b = 129" by (auto simp: eval_nat_numeral)
  show ?thesis unfolding nrc_atcmd_recv_rxd_def hd b(1) rxd_args.case b(3)
    using b(2,4) assms(6,7) by (simp add: socket_fields_def atoi_number assms(2-4))
qed

lemma recv_sfuser_handler:
  assumes "line_in h (''+RXD_SFUSER:'' @ join_params [dec_nat i, dec_nat n])" and "number_ok i" and "number_ok n"
  shows "\<exists>b. nrc_atcmd_recv_rxd_sfuser True (m_buf h) = Some (Some (RxdSfuser (int n) (int i)), b) \<and> length b = 129"
proof -
  have hd: "take 12 (m_buf h) = ''+RXD_SFUSER:''" using line_in_header [OF assms(1)] by (simp add: eval_nat_numeral)
  have "list_all (list_all arg_char) [dec_nat i, dec_nat n]" by (simp add: dec_nat_arg)
  from rxd_args_line [OF assms(1) this, of 2] obtain b pos where
    b: "rxd_args_loop 2 12 (m_buf h) [12] = Args b (12 # pos)" "length pos = 1"
      "map (c_str b) (12 # pos) = [dec_nat i, dec_nat n]" "length b = 129" by (auto simp: eval_nat_numeral)
  show ?thesis unfolding nrc_atcmd_recv_rxd_sfuser_def hd b(1) rxd_args.case b(3)
    using b(2,4) by (simp add: offset_fields_def atoi_number assms(2,3))
qed

lemma recv_sfsysuser_handler:
  assumes "line_in h (''+RXD_SFSYSUSER:'' @ join_params [dec_nat i, dec_nat n])" and "number_ok i" and "number_ok n"
  shows "\<exists>b. nrc_atcmd_recv_rxd_sfsysuser True (m_buf h) = Some (Some (RxdSfsysuser (int n) (int i)), b) \<and> length b = 129"
proof -
  have hd: "take 15 (m_buf h) = ''+RXD_SFSYSUSER:''" using line_in_header [OF assms(1)] by (simp add: eval_nat_numeral)
  have "list_all (list_all arg_char) [dec_nat i, dec_nat n]" by (simp add: dec_nat_arg)
  from rxd_args_line [OF assms(1) this, of 2] obtain b pos where
    b: "rxd_args_loop 2 15 (m_buf h) [15] = Args b (15 # pos)" "length pos = 1"
      "map (c_str b) (15 # pos) = [dec_nat i, dec_nat n]" "length b = 129" by (auto simp: eval_nat_numeral)
  show ?thesis unfolding nrc_atcmd_recv_rxd_sfsysuser_def hd b(1) rxd_args.case b(3)
    using b(2,4) by (simp add: offset_fields_def atoi_number assms(2,3))
qed

text \<open>The callback for data reads as many bytes as the block has.\<close>

definition rxd_local :: "'e host \<Rightarrow> bool" where
  "rxd_local h \<longleftrightarrow> (\<forall>f r buf e. cb_rxd h = Some f \<longrightarrow> f r buf e = f r (take (nat (rxd_length r)) buf) e)"

lemma recv_data:
  assumes "r_rxd h = Some r" and "rxd_length r = int (length t + length u)" and "u \<noteq> []" and "r_cnt h = length t"
    and "has (r_buf h) 0 t" and "length (r_buf h) = 4097" and "length t + length u \<le> 4096" and "rxd_local h"
  shows "\<exists>h'. nrc_atcmd_recv M u h = Some h' \<and> r_rxd h' = None \<and> r_cnt h' = 0 \<and> length (r_buf h') = 4097 \<and>
    m_type h' = m_type h \<and> m_cnt h' = m_cnt h \<and> m_buf h' = m_buf h \<and> frame h' = data_effect r (t @ u) (frame h)"
  using assms
proof (induction u arbitrary: h t)
  case (Cons c u)
  let ?h1 = "h\<lparr>r_buf := (r_buf h)[length t := c], r_cnt := Suc (length t)\<rparr>"
  have b: "has (r_buf ?h1) 0 (t @ [c])" "length (r_buf ?h1) = 4097"
    using Cons.prems(5-7) by (simp_all add: has_append has_Cons has_update_after) (simp add: has_def)
  have step: "recv_byte M c h = Some (if u = [] then rxd_deliver r (?h1\<lparr>data_recv := data_recv h + of_nat (Suc (length t))\<rparr>)
      else ?h1)"
    using Cons.prems by (simp add: recv_byte_def recv_data_byte_def)
  show ?case
  proof (cases "u = []")
    case True
    have "take (Suc (length t)) ((r_buf h)[length t := c]) = t @ [c]" using b(1) by (simp add: has_def)
    moreover have "nat (rxd_length r) = Suc (length t)" using Cons.prems(2) True by simp
    ultimately have loc: "f r ((r_buf h)[length t := c]) e = f r (t @ [c]) e" if "cb_rxd h = Some f" for f e
      using Cons.prems(8) that unfolding rxd_local_def by metis
    show ?thesis using step True b(2) loc
      by (auto simp: rxd_deliver_def Let_def data_effect_def call_def frame_effects split: option.split)
  next
    case False
    have "rxd_local ?h1" using Cons.prems(8) by (simp add: rxd_local_def)
    with Cons.IH [of ?h1 "t @ [c]"] b Cons.prems False obtain h' where
      "nrc_atcmd_recv M u ?h1 = Some h'" "r_rxd h' = None" "r_cnt h' = 0" "length (r_buf h') = 4097"
      "m_type h' = m_type h" "m_cnt h' = m_cnt h" "m_buf h' = m_buf h" "frame h' = data_effect r ((t @ [c]) @ u) (frame h)"
      by auto
    then show ?thesis using step False by auto
  qed
qed simp

subsection \<open>Streams of messages\<close>

text \<open>\<open>performs M h s E\<close>: the bytes \<open>s\<close> take an idle host to an idle host, with the effect \<open>E\<close>.\<close>

definition performs :: "('e \<Rightarrow> bool) \<Rightarrow> 'e host \<Rightarrow> string \<Rightarrow> ('e host \<Rightarrow> 'e host) \<Rightarrow> bool" where
  "performs M h s E \<longleftrightarrow> (\<exists>h'. nrc_atcmd_recv M s h = Some h' \<and> host_idle h' \<and> frame h' = E (frame h))"

lemma line_performs:
  assumes "line_read M h s ty t" and "\<And>e. M e"
    and "\<And>h2. line_in h2 t \<Longrightarrow> m_type h2 = ty \<Longrightarrow>
      \<exists>h3. recv_dispatch True h2 = Some h3 \<and> buffers_ok h3 \<and> frame h3 = E (frame h2)"
  shows "performs M h s E"
proof -
  from assms(1) obtain h2 where h2: "line_in h2 t" "m_type h2 = ty" "frame h2 = frame h"
      "nrc_atcmd_recv M s h = map_option line_done (recv_dispatch (M (h_env h)) h2)" by (auto simp: line_read_def)
  from assms(3) [OF h2(1,2)] obtain h3 where
    "recv_dispatch True h2 = Some h3" "buffers_ok h3" "frame h3 = E (frame h2)" by blast
  then show ?thesis unfolding performs_def using h2 assms(2) idle_line_done [of h3] by (simp add: line_done_def)
qed

lemma data_performs:
  fixes h :: "'e host"
  assumes "line_read M h s ty t" and "\<And>e. M e" and "rxd_local h" and "data_ok d" and "rxd_length r = int (length d)"
    and "\<And>h2 :: 'e host. line_in h2 t \<Longrightarrow> m_type h2 = ty \<Longrightarrow>
      \<exists>b. recv_dispatch True h2 = Some (h2\<lparr>r_rxd := Some r, m_buf := b\<rparr>) \<and> length b = 129"
  shows "performs M h (s @ d) (data_effect r d)"
proof -
  from assms(1) obtain h2 where h2: "line_in h2 t" "m_type h2 = ty" "frame h2 = frame h"
      "nrc_atcmd_recv M s h = map_option line_done (recv_dispatch (M (h_env h)) h2)" by (auto simp: line_read_def)
  from assms(6) [OF h2(1,2)] obtain b where
    b: "recv_dispatch True h2 = Some (h2\<lparr>r_rxd := Some r, m_buf := b\<rparr>)" "length b = 129" by blast
  let ?h3 = "line_done (h2\<lparr>r_rxd := Some r, m_buf := b\<rparr>)"
  have r: "nrc_atcmd_recv M s h = Some ?h3" using h2(4) b(1) assms(2) by simp
  have bufs: "r_cnt h2 = 0" "length (r_buf h2) = 4097" using line_in_buffers [OF h2(1)] by (simp_all add: buffers_ok_def)
  have "cb_rxd h2 = cb_rxd h" using h2(3) frame_proj(4) by metis
  then have "rxd_local ?h3" using assms(3) by (simp add: rxd_local_def line_done_def)
  then obtain h' where "nrc_atcmd_recv M d ?h3 = Some h'" "r_rxd h' = None" "r_cnt h' = 0" "length (r_buf h') = 4097"
      "m_type h' = m_type ?h3" "m_cnt h' = m_cnt ?h3" "m_buf h' = m_buf ?h3" "frame h' = data_effect r ([] @ d) (frame ?h3)"
    using recv_data [of ?h3 r "[]" d M] assms(4,5) bufs
    by (auto simp: line_done_def data_ok_def HOST_DATA_LEN_MAX_def has_def)
  then show ?thesis unfolding performs_def using r b(2) h2(3)
    by (intro exI [of _ h']) (simp add: recv_append host_idle_def receiving_def line_done_def has_def)
qed

lemma dec_nat_bound:
  assumes "number_ok n"
  shows "length (dec_nat n) \<le> 10"
proof -
  have "length (dec_nat n) \<le> Suc k" if "n < 10 ^ Suc k" for n k
    using that
  proof (induction k arbitrary: n)
    case (Suc k)
    then show ?case by (subst dec_nat.simps) auto
  qed (simp add: dec_nat.simps)
  from this [of n 9] show ?thesis using assms by (simp add: number_ok_def LONG_MAX_def)
qed

lemma data_ok_number: "data_ok d \<Longrightarrow> number_ok (length d)"
  by (simp add: data_ok_def number_ok_def HOST_DATA_LEN_MAX_def LONG_MAX_def)

lemma announce_performs:
  fixes h :: "'e host"
  assumes "host_idle h" and "\<And>e. M e" and "rxd_local h" and "data_ok d" and "rxd_length r = int (length d)"
    and "(hdr, ty) \<in> set header_types" and "list_all (list_all arg_char) ps" and "length hdr + length (join_params ps) \<le> 126"
    and "\<And>h2 :: 'e host. line_in h2 (hdr @ join_params ps) \<Longrightarrow> m_type h2 = ty \<Longrightarrow>
      \<exists>b. recv_dispatch True h2 = Some (h2\<lparr>r_rxd := Some r, m_buf := b\<rparr>) \<and> length b = 129"
  shows "performs M h ((hdr @ join_params ps @ [CR, LF]) @ d) (data_effect r d)"
  by (rule data_performs [OF recv_header_line [OF assms(1,6) join_params_text [OF assms(7)] assms(8)] assms(2-5,9)])

lemma performs_HmOk:
  fixes h :: "'e host"
  assumes "host_idle h" and "\<And>e. M e"
  shows "performs M h (encode HmOk) (host_effect HmOk)"
proof -
  show ?thesis unfolding encode.simps
    by (rule line_performs [OF recv_ok_line [OF assms(1)] assms(2)])
      (simp add: recv_dispatch_def Let_def line_in_buffers frame_effects)
qed

lemma performs_HmError:
  fixes h :: "'e host"
  assumes "host_idle h" and "\<And>e. M e"
  shows "performs M h (encode HmError) (host_effect HmError)"
proof -
  show ?thesis unfolding encode.simps
    by (rule line_performs [OF recv_error_line [OF assms(1)] assms(2)])
      (simp add: recv_dispatch_def Let_def line_in_buffers frame_effects)
qed

lemma performs_HmInfo:
  fixes h :: "'e host"
  assumes "host_idle h" and "\<And>e. M e" and "rxd_local h" and "host_msg_ok (HmInfo name ps)"
  shows "performs M h (encode (HmInfo name ps)) (host_effect (HmInfo name ps))"
proof -
  have ok: "list_all text_char name" "CHR '':'' \<notin> set name" "CHR ''+'' # name @ '':'' \<notin> set special_headers" "ps \<noteq> []"
      "length ps \<le> 10" "list_all (list_all arg_char) ps" "length name + length (join_params ps) \<le> 124"
    using assms(4) by simp_all
  then obtain p qs where ps: "ps = p # qs" by (cases ps) auto
  have t: "list_all text_char (name @ CHR '':'' # join_params ps)"
    using ok(1) join_params_text [OF ok(6)] by (simp add: text_char_def)
  show ?thesis unfolding encode.simps
  proof (rule line_performs [OF recv_info_line [OF assms(1) t ok(2,3,7)] assms(2)])
    fix h2 :: "'e host" assume l: "line_in h2 (CHR ''+'' # name @ CHR '':'' # join_params ps)" "m_type h2 = ATCMD_MSG_INFO"
    from recv_info_handler [OF l(1) [unfolded ps] ok(1,2) ok(6) [unfolded ps]] ok(5) l(2)
    show "\<exists>h3. recv_dispatch True h2 = Some h3 \<and> buffers_ok h3 \<and> frame h3 = host_effect (HmInfo name ps) (frame h2)"
      by (auto simp: recv_dispatch_def Let_def ps)
  qed
qed

lemma performs_HmBoot:
  fixes h :: "'e host"
  assumes "host_idle h" and "\<And>e. M e" and "rxd_local h" and "host_msg_ok (HmBoot z)"
  shows "performs M h (encode (HmBoot z)) (host_effect (HmBoot z))"
proof -
  have ok: "list_all text_char z" "length z \<le> 120" using assms(4) by simp_all
  have "(''+BOOT:'', ATCMD_MSG_BOOT) \<in> set header_types" by (simp add: header_types_def)
  note lr = recv_header_line [OF assms(1) this ok(1)]
  show ?thesis unfolding encode.simps
  proof (rule line_performs [OF lr assms(2)])
    fix h2 :: "'e host" assume l: "line_in h2 (''+BOOT:'' @ z)" "m_type h2 = ATCMD_MSG_BOOT"
    from recv_boot_handler [OF l(1) ok(1)] l(2)
    show "\<exists>h3. recv_dispatch True h2 = Some h3 \<and> buffers_ok h3 \<and> frame h3 = host_effect (HmBoot z) (frame h2)"
      by (auto simp: recv_dispatch_def Let_def)
  qed (use ok(2) in simp)
qed

lemma performs_HmEvent:
  fixes h :: "'e host"
  assumes "host_idle h" and "\<And>e. M e" and "rxd_local h" and "host_msg_ok (HmEvent c name ps)"
  shows "performs M h (encode (HmEvent c name ps)) (host_effect (HmEvent c name ps))"
proof -
  have ok: "c \<in> set ''BWS''" "name \<noteq> []" "list_all arg_char name" "length ps \<le> 9" "list_all (list_all arg_char) ps"
      "length (join_params (quoted name # ps)) \<le> 118"
    using assms(4) by simp_all
  let ?h = "CHR ''+'' # c # ''EVENT:''"
  have q: "list_all (list_all arg_char) (quoted name # ps)" using ok(3,5) by (simp add: quoted_def arg_char_def)
  have c: "c = CHR ''B'' \<or> c = CHR ''W'' \<or> c = CHR ''S''" using ok(1) by simp
  then obtain ty where ty: "(?h, ty) \<in> set header_types" "ty = ATCMD_MSG_BEVENT \<or> ty = ATCMD_MSG_WEVENT \<or> ty = ATCMD_MSG_SEVENT"
    by (elim disjE) (simp_all add: header_types_def)
  have nul: "NUL \<notin> set ?h" using c by (elim disjE) simp_all
  note lr = recv_header_line [OF assms(1) ty(1) join_params_text [OF q]]
  show ?thesis unfolding encode.simps
  proof (rule line_performs [OF lr assms(2)])
    fix h2 :: "'e host" assume l: "line_in h2 (?h @ join_params (quoted name # ps))" "m_type h2 = ty"
    from recv_event_handler [OF l(1) _ nul ok(3,2,5,4), of c] l(2) ty(2)
    show "\<exists>h3. recv_dispatch True h2 = Some h3 \<and> buffers_ok h3 \<and> frame h3 = host_effect (HmEvent c name ps) (frame h2)"
      by (elim disjE) (auto simp: recv_dispatch_def Let_def)
  qed (use ok(6) in simp)
qed

lemma performs_HmSocket:
  fixes h :: "'e host"
  assumes "host_idle h" and "\<And>e. M e" and "rxd_local h" and "host_msg_ok (HmSocket i d)"
  shows "performs M h (encode (HmSocket i d)) (host_effect (HmSocket i d))"
proof -
  have ok: "number_ok i" "data_ok d" using assms(4) by simp_all
  show ?thesis unfolding encode.simps host_effect.simps(6) [abs_def]
  proof (rule announce_performs [OF assms(1-3) ok(2)])
    fix h2 :: "'e host" assume l: "line_in h2 (''+RXD:'' @ join_params [dec_nat i, dec_nat (length d)])" "m_type h2 = ATCMD_MSG_DATA_SOCKET"
    from recv_rxd_handler [OF l(1) ok(1) data_ok_number [OF ok(2)]] l(2)
    show "\<exists>b. recv_dispatch True h2 = Some (h2\<lparr>r_rxd := Some (RxdSocket (int (length d)) (int i) ''0.0.0.0'' 0 False), m_buf := b\<rparr>) \<and> length b = 129"
      by (auto simp: recv_dispatch_def Let_def)
  qed (use dec_nat_bound [OF ok(1)] dec_nat_bound [OF data_ok_number [OF ok(2)]] in
      \<open>simp_all add: dec_nat_arg header_types_def\<close>)
qed

lemma performs_HmSocketFrom:
  fixes h :: "'e host"
  assumes "host_idle h" and "\<And>e. M e" and "rxd_local h" and "host_msg_ok (HmSocketFrom i a p d)"
  shows "performs M h (encode (HmSocketFrom i a p d)) (host_effect (HmSocketFrom i a p d))"
proof -
  have ok: "number_ok i" "number_ok p" "data_ok d" "list_all arg_char a" "ATCMD_IPADDR_LEN_MIN \<le> length a"
    "length a \<le> ATCMD_IPADDR_LEN_MAX" using assms(4) by simp_all
  show ?thesis unfolding encode.simps host_effect.simps(7) [abs_def]
  proof (rule announce_performs [OF assms(1-3) ok(3)])
    fix h2 :: "'e host" assume l: "line_in h2 (''+RXD:'' @ join_params [dec_nat i, dec_nat (length d), a, dec_nat p])"
      "m_type h2 = ATCMD_MSG_DATA_SOCKET"
    from recv_rxd_from_handler [OF l(1) ok(1) data_ok_number [OF ok(3)] ok(2,4,5,6)] l(2)
    show "\<exists>b. recv_dispatch True h2 = Some (h2\<lparr>r_rxd := Some (RxdSocket (int (length d)) (int i) a (int p) True), m_buf := b\<rparr>) \<and> length b = 129"
      by (auto simp: recv_dispatch_def Let_def)
  qed (use dec_nat_bound [OF ok(1)] dec_nat_bound [OF ok(2)] dec_nat_bound [OF data_ok_number [OF ok(3)]] ok(4,6) in
      \<open>simp_all add: dec_nat_arg header_types_def ATCMD_IPADDR_LEN_MAX_def\<close>)
qed

lemma performs_HmSfuser:
  fixes h :: "'e host"
  assumes "host_idle h" and "\<And>e. M e" and "rxd_local h" and "host_msg_ok (HmSfuser i d)"
  shows "performs M h (encode (HmSfuser i d)) (host_effect (HmSfuser i d))"
proof -
  have ok: "number_ok i" "data_ok d" using assms(4) by simp_all
  show ?thesis unfolding encode.simps host_effect.simps(8) [abs_def]
  proof (rule announce_performs [OF assms(1-3) ok(2)])
    fix h2 :: "'e host" assume l: "line_in h2 (''+RXD_SFUSER:'' @ join_params [dec_nat i, dec_nat (length d)])" "m_type h2 = ATCMD_MSG_DATA_SFUSER"
    from recv_sfuser_handler [OF l(1) ok(1) data_ok_number [OF ok(2)]] l(2)
    show "\<exists>b. recv_dispatch True h2 = Some (h2\<lparr>r_rxd := Some (RxdSfuser (int (length d)) (int i)), m_buf := b\<rparr>) \<and> length b = 129"
      by (auto simp: recv_dispatch_def Let_def)
  qed (use dec_nat_bound [OF ok(1)] dec_nat_bound [OF data_ok_number [OF ok(2)]] in
      \<open>simp_all add: dec_nat_arg header_types_def\<close>)
qed

lemma performs_HmSfsysuser:
  fixes h :: "'e host"
  assumes "host_idle h" and "\<And>e. M e" and "rxd_local h" and "host_msg_ok (HmSfsysuser i d)"
  shows "performs M h (encode (HmSfsysuser i d)) (host_effect (HmSfsysuser i d))"
proof -
  have ok: "number_ok i" "data_ok d" using assms(4) by simp_all
  show ?thesis unfolding encode.simps host_effect.simps(9) [abs_def]
  proof (rule announce_performs [OF assms(1-3) ok(2)])
    fix h2 :: "'e host" assume l: "line_in h2 (''+RXD_SFSYSUSER:'' @ join_params [dec_nat i, dec_nat (length d)])" "m_type h2 = ATCMD_MSG_DATA_SFSYSUSER"
    from recv_sfsysuser_handler [OF l(1) ok(1) data_ok_number [OF ok(2)]] l(2)
    show "\<exists>b. recv_dispatch True h2 = Some (h2\<lparr>r_rxd := Some (RxdSfsysuser (int (length d)) (int i)), m_buf := b\<rparr>) \<and> length b = 129"
      by (auto simp: recv_dispatch_def Let_def)
  qed (use dec_nat_bound [OF ok(1)] dec_nat_bound [OF data_ok_number [OF ok(2)]] in
      \<open>simp_all add: dec_nat_arg header_types_def\<close>)
qed

lemma msg_performs:
  assumes "host_idle h" and "\<And>e. M e" and "rxd_local h" and "host_msg_ok m"
  shows "performs M h (encode m) (host_effect m)"
  using performs_HmOk [where M = M, OF assms(1,2)] performs_HmError [where M = M, OF assms(1,2)] performs_HmInfo [where M = M, OF assms(1-3)]
    performs_HmBoot [where M = M, OF assms(1-3)] performs_HmEvent [where M = M, OF assms(1-3)] performs_HmSocket [where M = M, OF assms(1-3)]
    performs_HmSocketFrom [where M = M, OF assms(1-3)] performs_HmSfuser [where M = M, OF assms(1-3)] performs_HmSfsysuser [where M = M, OF assms(1-3)] assms(4)
  by (cases m) blast+

lemma call_cb_rxd [simp]: "cb_rxd (call f h) = cb_rxd h"
  by (cases f) (simp_all add: call_def)

lemma effect_cb_rxd: "cb_rxd (host_effect m h) = cb_rxd h"
  by (cases m) (simp_all add: data_effect_def nrc_atcmd_set_return_def nrc_atcmd_set_ready_def split: option.split)

lemma stream_performs:
  assumes "host_idle h" and "\<And>e. M e" and "rxd_local h" and "\<forall>m \<in> set ms. host_msg_ok m"
  shows "performs M h (concat (map encode ms)) (fold host_effect ms)"
  using assms
proof (induction ms arbitrary: h)
  case Nil
  then show ?case by (simp add: performs_def)
next
  case (Cons m ms)
  from msg_performs [where M = M and m = m, OF Cons.prems(1-3)] Cons.prems(4) obtain h1 where
    h1: "nrc_atcmd_recv M (encode m) h = Some h1" "host_idle h1" "frame h1 = host_effect m (frame h)"
    by (auto simp: performs_def)
  have "cb_rxd h1 = cb_rxd h" using arg_cong [OF h1(3), of cb_rxd] by (simp add: effect_cb_rxd)
  then have "rxd_local h1" using Cons.prems(3) by (simp add: rxd_local_def)
  from Cons.IH [OF h1(2) Cons.prems(2) this] Cons.prems(4) show ?case
    using h1 by (simp add: performs_def recv_append)
qed

end
