(* ===== verification/HostAtcmdProps.thy ===== *)
theory HostAtcmdProps
  imports HostStream AtcmdDataProps
begin

text \<open>
  The properties of the host side, \<open>nrc-atcmd.c\<close>: decoding of message streams, safety of the
  receiver and its limits, the sender, and a command's way from the host to the target's handler and
  back.
\<close>

subsection \<open>Safety of the receiver\<close>

text \<open>
  The invariant of the receiver's static data; \<open>rxd_inv\<close> is the part on a data block.
\<close>

definition rxd_inv :: "rxd option \<Rightarrow> nat \<Rightarrow> bool" where
  "rxd_inv r n \<longleftrightarrow> (case r of None \<Rightarrow> n = 0 | Some r \<Rightarrow> 0 \<le> rxd_length r \<and> (n = 0 \<or> int n < rxd_length r))"

definition host_inv :: "'e host \<Rightarrow> bool" where
  "host_inv h \<longleftrightarrow> length (m_buf h) = 129 \<and> length (r_buf h) = 4097 \<and> m_cnt h \<le> 128 \<and> rxd_inv (r_rxd h) (r_cnt h)"

text \<open>The two dangerous situations: an announcement line that ends, and a block longer than the buffer.\<close>

definition announcing :: "char \<Rightarrow> 'e host \<Rightarrow> bool" where
  "announcing c h \<longleftrightarrow> c = LF \<and>
     m_type h \<in> {ATCMD_MSG_DATA_SOCKET, ATCMD_MSG_DATA_SFUSER, ATCMD_MSG_DATA_SFSYSUSER}"

definition oversized :: "'e host \<Rightarrow> bool" where
  "oversized h \<longleftrightarrow> (\<exists>r. r_rxd h = Some r \<and> 4097 < rxd_length r)"

lemma comma_loop_total:
  "p + n \<le> length buf \<Longrightarrow> \<exists>b av k. comma_loop n p buf argv argc = Some (b, av, k) \<and> length b = length buf"
proof (induction n arbitrary: p buf argv argc)
  case (Suc n)
  have "\<exists>b av k. comma_loop n (Suc p) c a m = Some (b, av, k) \<and> length b = length buf" if "length c = length buf" for c a m
    using Suc.IH [of "Suc p" c a m] Suc.prems that by simp
  then show ?case using Suc.prems by simp
qed simp

lemma host_inv_call [simp]: "host_inv (call f h) = host_inv h"
  by (cases f) (simp_all add: call_def host_inv_def)

lemma host_inv_effects [simp]:
  "host_inv (nrc_atcmd_set_return v h) = host_inv h" "host_inv (nrc_atcmd_set_ready b h) = host_inv h"
  "host_inv (h\<lparr>h_env := e\<rparr>) = host_inv h" "host_inv (h\<lparr>data_recv := d\<rparr>) = host_inv h"
  "host_inv (h\<lparr>m_type := t\<rparr>) = host_inv h"
  by (simp_all add: host_inv_def nrc_atcmd_set_return_def nrc_atcmd_set_ready_def)

lemma host_inv_m_buf: "host_inv h \<Longrightarrow> length b = 129 \<Longrightarrow> host_inv (h\<lparr>m_buf := b\<rparr>)"
  "host_inv h \<Longrightarrow> n \<le> 128 \<Longrightarrow> host_inv (h\<lparr>m_cnt := n\<rparr>)"
  by (simp_all add: host_inv_def)

lemma c_str_bound: "n < length buf \<Longrightarrow> buf ! n = NUL \<Longrightarrow> length (c_str buf 0) \<le> n"
proof -
  assume a: "n < length buf" "buf ! n = NUL"
  have "takeWhile (\<lambda>c. c \<noteq> NUL) buf = takeWhile (\<lambda>c. c \<noteq> NUL) (take n buf)"
    using id_take_nth_drop [OF a(1)] a(2) takeWhile_tail [of "\<lambda>c. c \<noteq> NUL" NUL "take n buf" "drop (Suc n) buf"] by metis
  then show ?thesis using a(1) length_takeWhile_le [of "\<lambda>c. c \<noteq> NUL" "take n buf"] by (simp add: c_str_def)
qed

lemma info_safe:
  assumes "host_inv h" and "m_cnt h < length (m_buf h)" and "m_buf h ! m_cnt h = NUL"
  shows "\<exists>r h'. nrc_atcmd_recv_info (m_cnt h) h = Some (r, h') \<and> host_inv h'"
proof -
  let ?msg = "c_str (m_buf h) 0" let ?p = "length (takeWhile (\<lambda>c. c \<noteq> CHR '':'') ?msg)"
  show ?thesis
  proof (cases "m_cnt h = 0 \<or> ?p = length ?msg")
    case True
    then show ?thesis using assms(1) unfolding nrc_atcmd_recv_info_def Let_def by auto
  next
    case False
    have "?p \<le> length ?msg" by (rule length_takeWhile_le)
    then have "?p < m_cnt h" using False c_str_bound [OF assms(2,3)] by linarith
    then have "Suc ?p + (m_cnt h - Suc ?p) \<le> length ((m_buf h)[?p := NUL])" using assms(2) by simp
    from comma_loop_total [OF this, of "[Suc ?p]" 1] obtain b av k where
      b: "comma_loop (m_cnt h - Suc ?p) (Suc ?p) ((m_buf h)[?p := NUL]) [Suc ?p] 1 = Some (b, av, k)" "length b = length (m_buf h)"
      by auto
    have "host_inv (h\<lparr>m_buf := b\<rparr>)" using host_inv_m_buf(1) [OF assms(1)] b(2) assms(1) by (simp add: host_inv_def)
    then show ?thesis unfolding nrc_atcmd_recv_info_def Let_def b(1) using False by (simp split: option.split)
  qed
qed

lemma event_safe:
  assumes "host_inv h" and "m_cnt h \<le> 126"
  shows "\<exists>r h'. nrc_atcmd_recv_event (m_cnt h) h = Some (r, h') \<and> host_inv h'"
proof (cases "m_cnt h = 0")
  case True
  then show ?thesis using assms(1) by (simp add: nrc_atcmd_recv_event_def)
next
  case False
  have l: "length (m_buf h) = 129" using assms(1) by (simp add: host_inv_def)
  then have "8 + (m_cnt h - 8) \<le> length (m_buf h)" using assms(2) by simp
  from comma_loop_total [OF this, of "[8]" 1] obtain b av k where
    b: "comma_loop (m_cnt h - 8) 8 (m_buf h) [8] 1 = Some (b, av, k)" "length b = 129" using l by auto
  let ?b1 = "case nrc_atcmd_param_to_str b (Some 8) (Some 8) (int (length (c_str b 8))) of None \<Rightarrow> b | Some x \<Rightarrow> x"
  have "length (c_str b 8) \<le> 121"
    using length_takeWhile_le [of "\<lambda>c. c \<noteq> NUL" "drop 8 b"] b(2) by (simp add: c_str_def)
  then have b1: "length ?b1 = 129"
    using b(2) by (auto simp: nrc_atcmd_param_to_str_def Let_def split: option.split)
  obtain b2 where b2: "(if c_str ?b1 8 = ''TCP_ERROR'' then strcpy_at ?b1 8 ''RECV_ERROR'' else Some ?b1) = Some b2"
      "length b2 = 129"
    using b1 by (cases "c_str ?b1 8 = ''TCP_ERROR''") (auto simp: strcpy_at_def)
  have "host_inv (h\<lparr>m_buf := b2\<rparr>)" by (rule host_inv_m_buf(1) [OF assms(1) b2(2)])
  then show ?thesis unfolding nrc_atcmd_recv_event_def
    by (simp only: False if_False b(1) Option.bind_lunit prod.case Let_def b2(1)) (simp split: option.split)
qed

lemma socket_fields_len: "socket_fields a = Some (Some r) \<Longrightarrow> 0 \<le> rxd_length r"
  by (auto simp: socket_fields_def split: bind_splits if_splits)

lemma offset_fields_len:
  "offset_fields RxdSfuser a = Some (Some r) \<Longrightarrow> 0 \<le> rxd_length r"
  "offset_fields RxdSfsysuser a = Some (Some r) \<Longrightarrow> 0 \<le> rxd_length r"
  by (auto simp: offset_fields_def split: bind_splits if_splits)

lemma rxd_args_length:
  "rxd_args_loop k p buf argv = Args b av \<or> rxd_args_loop k p buf argv = ArgsInvalid b \<Longrightarrow> length b = length buf"
proof (induction k p buf argv rule: rxd_args_loop.induct)
  case (1 k p buf argv)
  then show ?case by (subst (asm) (5 6) rxd_args_loop.simps) (auto split: if_splits)
qed

lemma rxd_args_lengths:
  "rxd_args_loop k p buf argv = Args b av \<Longrightarrow> length b = length buf"
  "rxd_args_loop k p buf argv = ArgsInvalid b \<Longrightarrow> length b = length buf"
  using rxd_args_length by blast+

text \<open>What an announcement leaves is sound, if it is defined at all.\<close>

lemma rxd_handlers_inv:
  "nrc_atcmd_recv_rxd mem buf = Some (r, b) \<Longrightarrow> length b = length buf \<and> rxd_inv r 0"
  "nrc_atcmd_recv_rxd_sfuser mem buf = Some (r, b) \<Longrightarrow> length b = length buf \<and> rxd_inv r 0"
  "nrc_atcmd_recv_rxd_sfsysuser mem buf = Some (r, b) \<Longrightarrow> length b = length buf \<and> rxd_inv r 0"
  unfolding nrc_atcmd_recv_rxd_def nrc_atcmd_recv_rxd_sfuser_def nrc_atcmd_recv_rxd_sfsysuser_def rxd_inv_def
  by (auto split: if_splits rxd_args.splits option.split dest: rxd_args_lengths socket_fields_len offset_fields_len)

lemma dispatch_safe:
  assumes "host_inv h" and "r_rxd h = None" and "m_cnt h \<le> 126" and "m_buf h ! m_cnt h = NUL"
  shows "case recv_dispatch mem h of Some h' \<Rightarrow> host_inv h' | None \<Rightarrow> announcing LF h"
proof -
  have l: "length (m_buf h) = 129" "r_cnt h = 0" using assms(1,2) by (simp_all add: host_inv_def rxd_inv_def)
  obtain h1 r1 where i: "nrc_atcmd_recv_info (m_cnt h) h = Some (r1, h1)" "host_inv h1"
    using info_safe [OF assms(1) _ assms(4)] l assms(3) by auto
  obtain h2 r2 where e: "nrc_atcmd_recv_event (m_cnt h) h = Some (r2, h2)" "host_inv h2"
    using event_safe [OF assms(1,3)] by auto
  have b: "host_inv (snd (nrc_atcmd_recv_boot (m_cnt h) h))"
    using assms(1) by (simp add: nrc_atcmd_recv_boot_def Let_def split: option.split)
  have rx: "host_inv (h\<lparr>r_rxd := r, m_buf := b\<rparr>)" if "length b = length (m_buf h) \<and> rxd_inv r 0" for r b
    using that assms(1) l by (simp add: host_inv_def)
  show ?thesis
    using i e b assms(1) rx rxd_handlers_inv [of mem "m_buf h"]
    by (cases "m_type h") (auto simp: recv_dispatch_def Let_def announcing_def split: option.splits)
qed

lemma classify_inv:
  assumes "host_inv h" and "recv_classify h = (c, h')"
  shows "host_inv h' \<and> m_cnt h' \<le> m_cnt h \<and> r_rxd h' = r_rxd h \<and> (c \<longrightarrow> h' = h)"
  using assms unfolding recv_classify_def Let_def
  by (cases "m_type h") (auto simp: host_inv_def split: if_splits)

lemma line_end_safe:
  assumes "host_inv h" and "r_rxd h = None"
  shows "case recv_line_end mem h of Some h' \<Rightarrow> host_inv h' | None \<Rightarrow>
    announcing LF h \<and> m_buf h ! (m_cnt h - 1) = LF \<and> 2 \<le> m_cnt h"
proof (cases "m_cnt h \<ge> 2 \<and> take 2 (drop (m_cnt h - 2) (m_buf h)) = [CR, LF]")
  case True
  let ?h = "h\<lparr>m_cnt := m_cnt h - 2, m_buf := (m_buf h)[m_cnt h - 2 := NUL]\<rparr>"
  have n: "m_cnt h \<le> 128" "length (m_buf h) = 129" using assms(1) by (simp_all add: host_inv_def)
  have "host_inv ?h" "r_rxd ?h = None" "m_cnt ?h \<le> 126" "m_buf ?h ! m_cnt ?h = NUL"
    using assms n by (simp_all add: host_inv_def)
  note d = dispatch_safe [OF this, of mem]
  have "take 2 (drop (m_cnt h - 2) (m_buf h)) ! 1 = LF" using True by simp
  then have "m_buf h ! (m_cnt h - 1) = LF" using n True by (simp add: numeral_2_eq_2 Suc_diff_Suc)
  then show ?thesis using d True unfolding recv_line_end_def
    by (auto simp: announcing_def host_inv_def split: option.splits)
next
  case False
  then show ?thesis using assms unfolding recv_line_end_def by auto
qed

lemma msg_byte_safe:
  assumes "host_inv h" and "r_rxd h = None"
  shows "case recv_msg_byte mem c h of Some h' \<Rightarrow> host_inv h' | None \<Rightarrow> announcing c h"
proof -
  define h1 where "h1 = (if m_cnt h \<ge> HOST_MSG_LEN_MAX
               then h\<lparr>m_buf := (m_buf h)[HOST_MSG_LEN_MAX := NUL], m_type := ATCMD_MSG_NONE, m_cnt := 0\<rparr> else h)"
  define h2 where "h2 = h1\<lparr>m_buf := (m_buf h1)[m_cnt h1 := c], m_cnt := Suc (m_cnt h1)\<rparr>"
  have h1: "host_inv h1" "m_cnt h1 < 128" "r_rxd h1 = None" "m_type h1 = m_type h \<or> m_type h1 = ATCMD_MSG_NONE"
    using assms by (auto simp: h1_def host_inv_def HOST_MSG_LEN_MAX_def)
  then have h2: "host_inv h2" "r_rxd h2 = None" "m_buf h2 ! (m_cnt h2 - 1) = c" "m_type h2 = m_type h1"
    by (auto simp: h2_def host_inv_def)
  obtain k h3 where k: "recv_classify h2 = (k, h3)" by fastforce
  have b: "recv_msg_byte mem c h = (if k then recv_line_end mem h3 else Some h3)"
    using k by (simp add: recv_msg_byte_def h1_def h2_def Let_def)
  have h3: "host_inv h3" "r_rxd h3 = None" "k \<Longrightarrow> h3 = h2" using classify_inv [OF h2(1) k] h2(2) by auto
  show ?thesis
  proof (cases k)
    case True
    have "announcing c h" if "announcing LF h2" "m_buf h2 ! (m_cnt h2 - 1) = LF"
      using that h2(3,4) h1(4) by (auto simp: announcing_def)
    then show ?thesis using line_end_safe [OF h3(1,2), of mem] h3(3) True b by (auto split: option.splits)
  qed (use b h3 in simp)
qed

lemma deliver_inv: "host_inv h \<Longrightarrow> host_inv (rxd_deliver r h) \<and> r_rxd (rxd_deliver r h) = None \<and> m_type (rxd_deliver r h) = m_type h"
  by (auto simp: rxd_deliver_def Let_def host_inv_def rxd_inv_def split: option.split)

lemma byte_safe:
  assumes "host_inv h"
  shows "case recv_byte M c h of Some h' \<Rightarrow> host_inv h' | None \<Rightarrow> announcing c h \<or> oversized h"
proof (cases "r_rxd h")
  case None
  then show ?thesis using msg_byte_safe [OF assms None, where mem = "M (h_env h)" and c = c] by (auto simp: recv_byte_def split: option.splits)
next
  case (Some r)
  show ?thesis
  proof (cases "rxd_length r > 0")
    case False
    then show ?thesis using Some msg_byte_safe [where h = "rxd_deliver r h" and mem = "M (h_env (rxd_deliver r h))" and c = c] deliver_inv [OF assms, of r]
      by (auto simp: recv_byte_def Let_def announcing_def split: option.splits)
  next
    case True
    let ?h1 = "h\<lparr>r_buf := (r_buf h)[r_cnt h := c], r_cnt := Suc (r_cnt h)\<rparr>"
    have i: "length (r_buf h) = 4097" "int (r_cnt h) < rxd_length r"
      using assms True Some by (auto simp: host_inv_def rxd_inv_def)
    have d: "host_inv (rxd_deliver r (?h1\<lparr>data_recv := x\<rparr>))" for x
      using assms by (auto simp: rxd_deliver_def Let_def host_inv_def rxd_inv_def split: option.split)
    have "host_inv ?h1" if "int (Suc (r_cnt h)) \<noteq> rxd_length r" using assms Some i(2) that
      by (simp add: host_inv_def rxd_inv_def)
    moreover have "oversized h" if "4097 \<le> r_cnt h" using i(2) that Some by (auto simp: oversized_def)
    ultimately show ?thesis using Some True d i(1)
      by (auto simp: recv_byte_def recv_data_byte_def Let_def split: option.splits if_splits)
  qed
qed

lemma recv_faults_at:
  assumes "host_inv h"
  shows "case nrc_atcmd_recv M s h of
      Some h' \<Rightarrow> host_inv h'
    | None \<Rightarrow> \<exists>u c v h1. s = u @ c # v \<and> nrc_atcmd_recv M u h = Some h1 \<and> host_inv h1 \<and> (announcing c h1 \<or> oversized h1)"
  using assms
proof (induction s arbitrary: h)
  case (Cons c s)
  show ?case
  proof (cases "recv_byte M c h")
    case None
    then show ?thesis using byte_safe [OF Cons.prems, where M = M and c = c] Cons.prems
      by (auto intro!: exI [of _ "[]"])
  next
    case (Some h1)
    then have "host_inv h1" using byte_safe [OF Cons.prems, where M = M and c = c] by simp
    note ih = Cons.IH [OF this]
    show ?thesis
    proof (cases "nrc_atcmd_recv M s h1")
      case None
      then obtain u c' v h2 where "s = u @ c' # v" "nrc_atcmd_recv M u h1 = Some h2" "host_inv h2"
        "announcing c' h2 \<or> oversized h2" using ih by auto
      then have "c # s = (c # u) @ c' # v" "nrc_atcmd_recv M (c # u) h = Some h2" using Some by simp_all
      then have "\<exists>u c' v h2. c # s = u @ c' # v \<and> nrc_atcmd_recv M u h = Some h2 \<and> host_inv h2 \<and>
          (announcing c' h2 \<or> oversized h2)"
        using \<open>host_inv h2\<close> \<open>announcing c' h2 \<or> oversized h2\<close> by blast
      then show ?thesis using None Some by simp
    qed (use ih Some in simp)
  qed
qed simp

subsection \<open>Announcements that overrun the host's buffers\<close>

lemma rxd_args_plain:
  assumes "has buf p t" and "list_all arg_char t" and "length argv \<le> k"
  shows "rxd_args_loop k p buf argv = rxd_args_loop k (p + length t) buf argv"
  using assms(1,2)
proof (induction t arbitrary: p)
  case (Cons c t)
  then have h: "p < length buf" "buf ! p = c" "has buf (Suc p) t" "arg_char c" "list_all arg_char t"
    by (simp_all add: has_Cons)
  then have "rxd_args_loop k p buf argv = rxd_args_loop k (Suc p) buf argv"
    using assms(3) by (subst rxd_args_loop.simps) (simp add: arg_char_def)
  then show ?case using Cons.IH [OF h(3,5)] by simp
qed simp

lemma rxd_args_overrun:
  assumes "has buf p (join_params (q # ps))" and "list_all (list_all arg_char) (q # ps)"
    and "length argv \<le> k" and "k < length argv + length ps"
  shows "rxd_args_loop k p buf argv = ArgsFault"
  using assms
proof (induction ps arbitrary: q p buf argv)
  case (Cons r ps)
  let ?k = "p + length q"
  have h: "has buf p q" "?k < length buf" "buf ! ?k = CHR '',''" "has buf (Suc ?k) (join_params (r # ps))"
    using Cons.prems(1) by (simp_all add: has_append has_Cons)
  have "rxd_args_loop k p buf argv = rxd_args_loop k ?k buf argv"
    using rxd_args_plain [OF h(1) _ Cons.prems(3)] Cons.prems(2) by simp
  also have "\<dots> = (if length argv \<ge> k then ArgsFault else rxd_args_loop k (Suc ?k) (buf[?k := NUL]) (argv @ [Suc ?k]))"
    using h(2,3) Cons.prems(3) by (subst rxd_args_loop.simps) simp
  finally show ?case
    using Cons.IH [of "buf[?k := NUL]" "Suc ?k" r "argv @ [Suc ?k]"] h(4) Cons.prems by (simp add: has_update_before)
qed simp

lemma fifth_argument:
  assumes "host_idle h" and "\<And>e. M e" and "list_all (list_all arg_char) (p # ps)" and "4 \<le> length ps"
    and "length (join_params (p # ps)) \<le> 121"
  shows "nrc_atcmd_recv M (''+RXD:'' @ join_params (p # ps) @ [CR, LF]) h = None"
proof -
  have "(''+RXD:'', ATCMD_MSG_DATA_SOCKET) \<in> set header_types" by (simp add: header_types_def)
  from recv_header_line [OF assms(1) this join_params_text [OF assms(3)], of M] assms(5) obtain h2 where
    h2: "line_in h2 (''+RXD:'' @ join_params (p # ps))" "m_type h2 = ATCMD_MSG_DATA_SOCKET"
      "nrc_atcmd_recv M (''+RXD:'' @ join_params (p # ps) @ [CR, LF]) h =
        map_option line_done (recv_dispatch (M (h_env h)) h2)" by (auto simp: line_read_def)
  have t: "take 5 (m_buf h2) = ''+RXD:''" using line_in_header [OF h2(1)] by (simp add: eval_nat_numeral)
  have "has (m_buf h2) 0 ((''+RXD:'' @ join_params (p # ps)) @ [NUL])" using h2(1) by (simp add: line_in_def)
  then have "has (m_buf h2) 5 (join_params (p # ps))"
    unfolding append_assoc has_append [of "m_buf h2" 0 "''+RXD:''"] by (simp add: has_append eval_nat_numeral)
  from rxd_args_overrun [OF this assms(3), of "[5]" 4] assms(4)
  have "rxd_args_loop 4 5 (m_buf h2) [5] = ArgsFault" by simp
  then show ?thesis unfolding h2(3) using h2(2) assms(2) by (simp add: recv_dispatch_def nrc_atcmd_recv_rxd_def t)
qed

lemma recv_data_overrun:
  assumes "r_rxd h = Some r" and "4097 < rxd_length r" and "length (r_buf h) = 4097" and "4097 < r_cnt h + length u"
    and "r_cnt h \<le> 4097"
  shows "nrc_atcmd_recv M u h = None"
  using assms
proof (induction u arbitrary: h)
  case (Cons c u)
  show ?case
  proof (cases "r_cnt h = 4097")
    case True
    then show ?thesis using Cons.prems by (simp add: recv_byte_def recv_data_byte_def)
  next
    case False
    let ?h1 = "h\<lparr>r_buf := (r_buf h)[r_cnt h := c], r_cnt := Suc (r_cnt h)\<rparr>"
    have "int (Suc (r_cnt h)) \<noteq> rxd_length r" using Cons.prems(2,5) False by linarith
    then have "recv_byte M c h = Some ?h1"
      using Cons.prems False by (simp add: recv_byte_def recv_data_byte_def Let_def)
    moreover have "nrc_atcmd_recv M u ?h1 = None" by (rule Cons.IH) (use Cons.prems False in simp_all)
    ultimately show ?thesis by simp
  qed
qed simp

lemma long_block:
  assumes "host_idle h" and "\<And>e. M e" and "number_ok i" and "number_ok n" and "4097 < n" and "4097 < length d"
  shows "nrc_atcmd_recv M (''+RXD:'' @ join_params [dec_nat i, dec_nat n] @ [CR, LF] @ d) h = None"
proof -
  let ?l = "''+RXD:'' @ join_params [dec_nat i, dec_nat n]"
  have hd: "(''+RXD:'', ATCMD_MSG_DATA_SOCKET) \<in> set header_types" by (simp add: header_types_def)
  have "list_all text_char (join_params [dec_nat i, dec_nat n])" by (intro join_params_text) (simp add: dec_nat_arg)
  from recv_header_line [OF assms(1) hd this, of M] dec_nat_bound [OF assms(3)] dec_nat_bound [OF assms(4)] obtain h2 where
    h2: "line_in h2 ?l" "m_type h2 = ATCMD_MSG_DATA_SOCKET"
      "nrc_atcmd_recv M (?l @ [CR, LF]) h = map_option line_done (recv_dispatch (M (h_env h)) h2)"
    by (auto simp: line_read_def)
  let ?r = "RxdSocket (int n) (int i) ''0.0.0.0'' 0 False"
  from recv_rxd_handler [OF h2(1) assms(3,4)] obtain b where
    b: "nrc_atcmd_recv_rxd True (m_buf h2) = Some (Some ?r, b)" by blast
  let ?h3 = "line_done (h2\<lparr>r_rxd := Some ?r, m_buf := b\<rparr>)"
  have "nrc_atcmd_recv M (?l @ [CR, LF]) h = Some ?h3"
    using h2(2,3) b assms(2) by (simp add: recv_dispatch_def)
  moreover have "nrc_atcmd_recv M d ?h3 = None"
    using line_in_buffers [OF h2(1)] assms(5,6) by (intro recv_data_overrun [where r = ?r]) (simp_all add: line_done_def buffers_ok_def)
  ultimately show ?thesis using recv_append [of M "?l @ [CR, LF]" d h] by simp
qed

subsection \<open>The answer to a command\<close>

text \<open>The messages the target's answer consists of.\<close>

definition answer_msgs :: "string \<Rightarrow> int \<Rightarrow> host_msg list" where
  "answer_msgs name ret =
    (if ret = 0 then [HmOk] else if ret = -1 then [] else if ret = 7 then [HmError]
     else [HmInfo name [dec_int ret], HmError])"

lemma answer_encoded: "answer name ret = concat (map encode (answer_msgs name ret))"
  by (simp add: answer_def answer_msgs_def)

lemma dec_int_arg: "list_all arg_char (dec_int i)"
  by (simp add: dec_int_def dec_nat_arg) (simp add: arg_char_def)

lemma answer_msgs_ok:
  assumes "list_all text_char name" and "CHR '':'' \<notin> set name" and "CHR ''+'' # name @ '':'' \<notin> set special_headers"
    and "length name \<le> 100" and "- (2 ^ 31) \<le> ret" and "ret < 2 ^ 31"
  shows "\<forall>m \<in> set (answer_msgs name ret). host_msg_ok m"
  using assms dec_int_arg [of ret] dec_int_length [OF assms(5,6)] by (auto simp: answer_msgs_def)

lemma fold_result:
  assumes "ret \<noteq> -1"
  shows "ret_val (fold host_effect (ms @ answer_msgs name ret) h) = (if ret = 0 then ATCMD_RET_OK else ATCMD_RET_ERROR)"
  using assms by (simp add: answer_msgs_def nrc_atcmd_set_return_def)

text \<open>Whatever way the bytes of a stream are split into reads, the receiver sees the stream.\<close>

fun recv_packets :: "('e \<Rightarrow> bool) \<Rightarrow> string list \<Rightarrow> 'e host \<Rightarrow> 'e host option" where
  "recv_packets M [] h = Some h"
| "recv_packets M (p # ps) h = nrc_atcmd_recv M p h \<bind> recv_packets M ps"

lemma recv_packets_concat: "recv_packets M ps h = nrc_atcmd_recv M (concat ps) h"
proof (induction ps arbitrary: h)
  case (Cons p ps)
  then have "recv_packets M ps = nrc_atcmd_recv M (concat ps)" by auto
  then show ?case by (simp add: recv_append)
qed simp

lemma plain_upper_text: "list_all plain name \<Longrightarrow> list_all text_char (map upper_char name)"
proof -
  have "text_char (upper_char c)" if "plain c" for c
  proof (cases "upper_char c = c")
    case True
    then show ?thesis using that by (simp add: plain_def text_char_def)
  next
    case False
    then have r: "97 \<le> (of_char c :: nat)" "(of_char c :: nat) \<le> 122" "upper_char c = char_of (of_char c - 32 :: nat)"
      by (auto simp: upper_char_def Let_def split: if_splits)
    have "(of_char (upper_char c) :: nat) = of_char c - 32" using r by (simp add: r(3) of_char_of)
    then have "(of_char (upper_char c) :: nat) \<ge> 65" using r(1) by simp
    then show ?thesis by (auto simp: text_char_def)
  qed
  then show "list_all plain name \<Longrightarrow> list_all text_char (map upper_char name)" by (auto simp: list_all_iff)
qed

lemma send_cmd_sends:
  assumes "writer_ok W out stalls"
  shows "if 2 \<le> length cmd \<and> length cmd \<le> 126 \<and> take 2 cmd = ''AT''
    then \<exists>w'. nrc_atcmd_send_cmd W cmd w h = Some (Inr (cmd @ [CR, LF]), w', nrc_atcmd_init_return h) \<and>
      out w' = out w @ cmd @ [CR, LF]
    else nrc_atcmd_send_cmd W cmd w h = Some (Inl (-1), w, h)"
proof -
  obtain w' where w: "nrc_atcmd_send W (cmd @ [CR, LF]) w = Some (int (length (cmd @ [CR, LF])), w')"
    "out w' = out w @ (cmd @ [CR, LF])" using send_all [OF assms] by blast
  then show ?thesis by (auto simp: nrc_atcmd_send_cmd_def HOST_MSG_LEN_MIN_def HOST_MSG_LEN_MAX_def)
qed

subsection \<open>A host for the examples\<close>

text \<open>Its callbacks log the parameters and the data.\<close>

definition demo_host :: "string list host" where
  "demo_host = \<lparr>h_ready = True, data_send = 0, data_recv = 0, ret_val = ATCMD_RET_NONE, ret_signals = 0,
     cb_boot = None, cb_info = Some (\<lambda>name n ps e. e @ name # ps), cb_event = Some (\<lambda>v n ps e. e @ ps),
     cb_rxd = Some (\<lambda>r buf e. e @ [take (nat (rxd_length r)) buf]),
     m_type = ATCMD_MSG_NONE, m_cnt = 0, m_buf = replicate 129 NUL, r_rxd = None, r_cnt = 0,
     r_buf = replicate 4097 NUL, h_env = []\<rparr>"

lemma demo_host_idle: "host_idle demo_host" "rxd_local demo_host" "host_inv demo_host"
  by (simp_all add: demo_host_def host_idle_def receiving_def has_def rxd_local_def host_inv_def rxd_inv_def)

text \<open>A writer that takes at most four bytes at a time, and refuses the first two calls.\<close>

definition demo_writer :: "string \<Rightarrow> string \<times> nat \<Rightarrow> int \<times> string \<times> nat" where
  "demo_writer xs s = (if snd s > 0 then (- EAGAIN, fst s, snd s - 1)
     else (int (min 4 (length xs)), fst s @ take 4 xs, 0))"

lemma demo_writer_ok: "writer_ok demo_writer fst snd"
  by (auto simp: writer_ok_def demo_writer_def EAGAIN_def min_def split: if_splits)

subsection \<open>Properties\<close>

text \<open>C13: The host decodes every stream of protocol messages, whatever reads the interface splits it into:
  each result, information message, boot message, event and data block has exactly its effect on
  the return value and the callbacks, in the order of the stream, and the receiver is ready for the
  next message.\<close>

theorem host_decodes_stream:
  assumes "host_idle h" and "\<And>e. M e" and "rxd_local h" and "\<forall>m \<in> set ms. host_msg_ok m"
    and "concat packets = concat (map encode ms)"
  shows "\<exists>h'. recv_packets M packets h = Some h' \<and> host_idle h' \<and> frame h' = fold host_effect ms (frame h)"
  using stream_performs [OF assms(1-4)] unfolding recv_packets_concat assms(5) performs_def .

theorem host_decodes_stream_witness:
  "\<exists>h'. recv_packets (\<lambda>_. True) [''+VER:1,x'' @ [CR, LF] @ ''+RX'', ''D:3,5'' @ [CR], [LF] @ ''he'', ''lloOK'' @ [CR, LF]]
      demo_host = Some h' \<and> host_idle h' \<and> ret_val h' = ATCMD_RET_OK \<and> h_env h' = [''VER'', ''1'', ''x'', ''hello'']"
proof -
  let ?ms = "[HmInfo ''VER'' [''1'', ''x''], HmSocket 3 ''hello'', HmOk]"
  have ok: "\<forall>m \<in> set ?ms. host_msg_ok m"
    by (simp add: number_ok_def data_ok_def text_char_def arg_char_def special_headers_def header_types_def
        LONG_MAX_def HOST_DATA_LEN_MAX_def)
  have e: "concat [''+VER:1,x'' @ [CR, LF] @ ''+RX'', ''D:3,5'' @ [CR], [LF] @ ''he'', ''lloOK'' @ [CR, LF]] =
      concat (map encode ?ms)" by code_simp
  from host_decodes_stream [OF demo_host_idle(1) _ demo_host_idle(2) ok e, of "\<lambda>_. True"] obtain h' where
    h: "recv_packets (\<lambda>_. True) [''+VER:1,x'' @ [CR, LF] @ ''+RX'', ''D:3,5'' @ [CR], [LF] @ ''he'', ''lloOK'' @ [CR, LF]]
      demo_host = Some h'" "host_idle h'" "frame h' = fold host_effect ?ms (frame demo_host)" by auto
  have "ret_val (frame h') = ATCMD_RET_OK" "h_env (frame h') = [''VER'', ''1'', ''x'', ''hello'']"
    unfolding h(3) by (simp_all add: demo_host_def frame_def call_def data_effect_def nrc_atcmd_set_return_def)
  then show ?thesis using h(1,2) by auto
qed

text \<open>C4: A command travels from the host to the target's handler and back: \<open>nrc_atcmd_send_cmd\<close> puts out the
  line, the target calls the registered handler with exactly the parameters, and what the target
  transmits gives the host the handler's messages, in order, and a return value that is OK if and
  only if the handler succeeded.\<close>

theorem command_round_trip:
  assumes "writer_ok W out stalls" and "out w = []" and "host_idle h" and "\<And>e. M e" and "rxd_local h"
    and "editing ed []" and "shared_ok s" and "handlers_ok H" and "g_out s = []"
    and "\<not> atcmd_config_status ATCMD_CFG_ECHO s" and "atcmd_config_status ATCMD_CFG_LINEFEED s"
    and "list_all plain name" and "ps \<noteq> []" and "hd ps \<noteq> []" and "length ps \<le> 10"
    and "list_all (list_all param_char) ps" and "name \<noteq> []" and cmd: "cmd = ''AT+'' @ (name @ ''='' @ join_params ps)"
    and "list_all printable (name @ ''='' @ join_params ps)" and "length cmd \<le> 126"
    and "reg_ok (g_registry s) U gs cs" and "a = lookup_command (g_registry s) cs (map upper_char name) gs" and "a \<noteq> 0"
    and "(if c_handler (infos (g_registry s) a) ATCMD_HANDLER_SET
          then H a ATCMD_HANDLER_SET ps (atcmd_prompt_exit s) else (7, atcmd_prompt_exit s)) = (ret, s1)"
    and "g_out s1 = concat (map encode ms)" and "\<forall>m \<in> set ms. host_msg_ok m" and "ret \<noteq> -1"
    and "CHR '':'' \<notin> set (map upper_char name)" and "CHR ''+'' # map upper_char name @ '':'' \<notin> set special_headers"
  shows "\<exists>w' h1 ed' s' h2. nrc_atcmd_send_cmd W cmd w h = Some (Inr (cmd @ [CR, LF]), w', h1) \<and>
    atcmd_receive_command H m (out w') ed s = Some (length (out w'), ed', s') \<and> g_env s' = g_env s1 \<and>
    nrc_atcmd_recv M (g_out s') h1 = Some h2 \<and> host_idle h2 \<and>
    frame h2 = fold host_effect (ms @ answer_msgs (map upper_char name) ret) (frame h1) \<and>
    ret_val h2 = (if ret = 0 then ATCMD_RET_OK else ATCMD_RET_ERROR)"
proof -
  let ?N = "map upper_char name" and ?h1 = "nrc_atcmd_init_return h"
  have "2 \<le> length cmd \<and> length cmd \<le> 126 \<and> take 2 cmd = ''AT''" using assms(20) by (simp add: cmd)
  with send_cmd_sends [OF assms(1), of cmd w h] assms(2) obtain w' where
    w: "nrc_atcmd_send_cmd W cmd w h = Some (Inr (cmd @ [CR, LF]), w', ?h1)" "out w' = cmd @ [CR, LF]" by auto
  have "length (name @ ''='' @ join_params ps) \<le> 125" using assms(20) by (simp add: cmd)
  from serve_set [OF assms(6-8) _ assms(10-17,19) this assms(21-24), of "[CR, LF]" m "[]"] obtain ed' s' where
    s': "atcmd_receive_command H m (out w') ed s = Some (length (out w'), ed', s')"
      "g_out s' = g_out s1 @ answer ?N ret" "g_env s' = g_env s1"
    by (auto simp: eol_ok_def w(2) cmd)
  have "length ?N \<le> 100"
    using find_command_total [of "g_registry s" ?N] find_command_eq [OF assms(21), of ?N] assms(7,22,23)
    by (auto simp: shared_ok_def)
  moreover have "- (2 ^ 31) \<le> ret \<and> ret < 2 ^ 31"
  proof (cases "c_handler (infos (g_registry s) a) ATCMD_HANDLER_SET")
    case True
    then have "H a ATCMD_HANDLER_SET ps (atcmd_prompt_exit s) = (ret, s1)" using assms(24) by simp
    moreover have "shared_ok (atcmd_prompt_exit s)" using assms(7) by simp
    ultimately show ?thesis using assms(8) unfolding handlers_ok_def by (metis fst_conv)
  qed (use assms(24) in auto)
  ultimately have "\<forall>m \<in> set (ms @ answer_msgs ?N ret). host_msg_ok m"
    using answer_msgs_ok [OF plain_upper_text [OF assms(12)] assms(28,29)] assms(26) by (metis Un_iff set_append)
  moreover have "host_idle ?h1" "rxd_local ?h1"
    using assms(3,5) by (simp_all add: nrc_atcmd_init_return_def host_idle_def receiving_def rxd_local_def)
  ultimately obtain h2 where h2: "nrc_atcmd_recv M (g_out s') ?h1 = Some h2" "host_idle h2"
      "frame h2 = fold host_effect (ms @ answer_msgs ?N ret) (frame ?h1)"
    using stream_performs [where M = M, OF _ assms(4), of ?h1 "ms @ answer_msgs ?N ret"]
    by (auto simp: performs_def s'(2) assms(25) answer_encoded)
  have "ret_val h2 = (if ret = 0 then ATCMD_RET_OK else ATCMD_RET_ERROR)"
    using arg_cong [OF h2(3), of ret_val] unfolding fold_result [OF assms(27)] by simp
  then show ?thesis using w(1) s'(1,3) h2 by blast
qed

theorem command_round_trip_witness:
  "\<exists>w' h1 ed' s' h2. nrc_atcmd_send_cmd demo_writer ''AT+ver=1,a b'' ([], 2) demo_host =
      Some (Inr (''AT+ver=1,a b'' @ [CR, LF]), w', h1) \<and>
    atcmd_receive_command demo_handlers True (fst w') demo_editor (demo_atcmd demo_served []) = Some (length (fst w'), ed', s') \<and>
    g_env s' = [''1'', ''a b''] \<and> nrc_atcmd_recv (\<lambda>_. True) (g_out s') h1 = Some h2 \<and> ret_val h2 = ATCMD_RET_OK"
proof -
  let ?s = "demo_atcmd demo_served []" let ?ps = "[''1'', ''a b'']"
  let ?s1 = "(atcmd_prompt_exit ?s)\<lparr>g_env := ?ps\<rparr>" and ?c = "''AT+'' @ (''ver'' @ ''='' @ join_params ?ps)"
  have up: "map upper_char ''ver'' = ''VER''" by code_simp
  have reg: "g_registry ?s = demo_served" by (simp add: demo_atcmd_def)
  have out: "g_out ?s1 = []" using prompt_exit_out [OF demo_config(1), of demo_served "[]"] by (simp add: demo_atcmd_def)
  have "\<exists>w' h1 ed' s' h2. nrc_atcmd_send_cmd demo_writer ?c ([], 2) demo_host = Some (Inr (?c @ [CR, LF]), w', h1) \<and>
    atcmd_receive_command demo_handlers True (fst w') demo_editor ?s = Some (length (fst w'), ed', s') \<and> g_env s' = g_env ?s1 \<and>
    nrc_atcmd_recv (\<lambda>_. True) (g_out s') h1 = Some h2 \<and> host_idle h2 \<and>
    frame h2 = fold host_effect ([] @ answer_msgs (map upper_char ''ver'') 0) (frame h1) \<and>
    ret_val h2 = (if (0::int) = 0 then ATCMD_RET_OK else ATCMD_RET_ERROR)"
  proof (rule command_round_trip [where U = "[10]" and gs = "[10]" and cs = "(\<lambda>_. [])(10 := [30])" and a = 30,
        OF demo_writer_ok _ demo_host_idle(1) _ demo_host_idle(2) demo_editing demo_shared demo_handlers_ok _ demo_config])
    show "reg_ok (g_registry ?s) [10] [10] ((\<lambda>_. [])(10 := [30]))" unfolding reg by (rule demo_served_ok)
    show "30 = lookup_command (g_registry ?s) ((\<lambda>_. [])(10 := [30])) (map upper_char ''ver'') [10]"
      unfolding reg up demo_VER by (rule refl)
    have "c_handler (infos demo_served 30) ATCMD_HANDLER_SET" by (simp add: demo_served_def demo_registry_def)
    then show "(if c_handler (infos (g_registry ?s) 30) ATCMD_HANDLER_SET
        then demo_handlers 30 ATCMD_HANDLER_SET ?ps (atcmd_prompt_exit ?s) else (7, atcmd_prompt_exit ?s)) = (0, ?s1)"
      by (simp add: reg demo_handlers_def)
    show "g_out ?s = []" by (simp add: demo_atcmd_def)
    show "CHR '':'' \<notin> set (map upper_char ''ver'')" "CHR ''+'' # map upper_char ''ver'' @ '':'' \<notin> set special_headers"
      unfolding up by (simp_all add: special_headers_def header_types_def)
    show "g_out ?s1 = concat (map encode [])" using out by simp
  qed (simp_all add: plain_def param_char_def printable_def)
  then show ?thesis by auto
qed

text \<open>C24: The receiver never leaves its buffers and keeps its invariant whatever bytes arrive, with two
  exceptions: the end of a line that announces a data block (its argument count and numbers are not
  checked in time), and a block announced as longer than the data buffer.\<close>

theorem receiver_faults_only_on_announcements:
  assumes "host_inv h"
  shows "case nrc_atcmd_recv M s h of
      Some h' \<Rightarrow> host_inv h'
    | None \<Rightarrow> \<exists>u c v h1. s = u @ c # v \<and> nrc_atcmd_recv M u h = Some h1 \<and> host_inv h1 \<and> (announcing c h1 \<or> oversized h1)"
  by (rule recv_faults_at [OF assms])

theorem receiver_faults_only_on_announcements_witness:
  "case nrc_atcmd_recv (\<lambda>_. True) ''ERR+:,'' demo_host of Some h' \<Rightarrow> host_inv h' | None \<Rightarrow> True"
  using receiver_faults_only_on_announcements [OF demo_host_idle(3), where M = "\<lambda>_. True" and s = "''ERR+:,''"]
  by (auto split: option.split)

text \<open>The two exceptions are real: an announcement with five or more arguments is written beyond the
  four-element argument array, and a socket block announced as longer than the 4097-byte data
  buffer is written beyond it.\<close>

theorem announcement_overruns:
  assumes "host_idle h" and "\<And>e. M e"
  shows "(list_all (list_all arg_char) (p # ps) \<and> 4 \<le> length ps \<and> length (join_params (p # ps)) \<le> 121 \<longrightarrow>
      nrc_atcmd_recv M (''+RXD:'' @ join_params (p # ps) @ [CR, LF]) h = None) \<and>
    (number_ok i \<and> number_ok n \<and> 4097 < n \<and> 4097 < length d \<longrightarrow>
      nrc_atcmd_recv M (''+RXD:'' @ join_params [dec_nat i, dec_nat n] @ [CR, LF] @ d) h = None)"
  using fifth_argument [where M = M, OF assms] long_block [where M = M, OF assms] by blast

theorem announcement_overruns_witness:
  "nrc_atcmd_recv (\<lambda>_. True) (''+RXD:1,2,3,4,'' @ [CR, LF]) demo_host = None \<and>
   nrc_atcmd_recv (\<lambda>_. True) (''+RXD:'' @ join_params [dec_nat 1, dec_nat 5000] @ [CR, LF] @ replicate 5000 NUL) demo_host = None"
proof -
  have "''+RXD:'' @ join_params (''1'' # [''2'', ''3'', ''4'', []]) @ [CR, LF] = ''+RXD:1,2,3,4,'' @ [CR, LF]" by simp
  moreover have "list_all (list_all arg_char) (''1'' # [''2'', ''3'', ''4'', []])" by (simp add: arg_char_def)
  ultimately show ?thesis
    using announcement_overruns [where M = "\<lambda>_. True" and p = "''1''" and ps = "[''2'', ''3'', ''4'', []]" and i = 1 and n = 5000
        and d = "replicate 5000 NUL", OF demo_host_idle(1)]
    by (simp add: number_ok_def LONG_MAX_def)
qed

text \<open>C40: \<open>nrc_atcmd_send\<close> puts out its buffer completely, once and in order, however the interface splits
  or refuses the writes, and \<open>nrc_atcmd_send_cmd\<close> puts out exactly the command with its line end, or
  nothing at all for a command that is too short, too long or no AT command.\<close>

theorem send_puts_out_everything:
  assumes "writer_ok W out stalls"
  shows "(\<exists>w'. nrc_atcmd_send W buf w = Some (int (length buf), w') \<and> out w' = out w @ buf) \<and>
    (if 2 \<le> length cmd \<and> length cmd \<le> 126 \<and> take 2 cmd = ''AT''
     then \<exists>w'. nrc_atcmd_send_cmd W cmd w h = Some (Inr (cmd @ [CR, LF]), w', nrc_atcmd_init_return h) \<and>
       out w' = out w @ cmd @ [CR, LF]
     else nrc_atcmd_send_cmd W cmd w h = Some (Inl (-1), w, h))"
  using send_all [OF assms, of buf w] send_cmd_sends [OF assms, of cmd w h] by (intro conjI)

theorem send_puts_out_everything_witness:
  "(\<exists>w'. nrc_atcmd_send demo_writer ''hello world'' ([], 2) = Some (11, w') \<and> fst w' = ''hello world'') \<and>
   (\<exists>w'. nrc_atcmd_send_cmd demo_writer ''ATZ'' ([], 2) demo_host = Some (Inr (''ATZ'' @ [CR, LF]), w', nrc_atcmd_init_return demo_host)
      \<and> fst w' = ''ATZ'' @ [CR, LF])"
  using send_puts_out_everything [OF demo_writer_ok, of "''hello world''" "([], 2)" "''ATZ''" demo_host] by simp

end
