(* ===== verification/HostReturn.thy ===== *)
theory HostReturn
  imports HostAtcmd
begin

text \<open>
  The hand-over of a command's result between two threads of \<open>nrc-atcmd.c\<close>: \<open>nrc_atcmd_send_cmd\<close>
  clears the return value, sends, waits on the condition variable and reads the value, while the
  receiving thread stores values with \<open>nrc_atcmd_set_return\<close> and signals.  The accesses under the
  mutex are the steps; a run is their interleaving.
\<close>

subsection \<open>The steps\<close>

text \<open>
  Where the sender is: before \<open>nrc_atcmd_init_return\<close>, before and after the transmission, in
  \<open>pthread_cond_wait\<close>, after a timeout, woken, or returned.
\<close>

datatype send_pc = SendInit | Sending | Sent | Blocked | Expired | Woken | Returned int

text \<open>\<open>rc_posts\<close> are the values stored since the last \<open>nrc_atcmd_init_return\<close>, \<open>rc_got\<close> those stored
  when the value was read.\<close>

record ret_cfg =
  rc_pc :: send_pc
  rc_val :: int
  rc_posts :: "int list"
  rc_got :: "int list"

datatype ret_label = LInit | LSend | LFail | LBlock | LPost int | LExpire | LTimeout | LSpurious | LGet

text \<open>
  \<open>t\<close> is whether the wait has a timeout.  A signal is lost unless the sender is in the wait.  POSIX
  allows the wait to return without a signal, and the code does not wait again; a wait that fails
  (\<open>EPERM\<close>, \<open>EINVAL\<close>), which the code only logs, goes on in the same way and is the same step.
\<close>

inductive ret_step :: "bool \<Rightarrow> ret_cfg \<Rightarrow> ret_label \<Rightarrow> ret_cfg \<Rightarrow> bool" for t where
  init: "rc_pc c = SendInit \<Longrightarrow>
    ret_step t c LInit (c\<lparr>rc_pc := Sending, rc_val := ATCMD_RET_NONE, rc_posts := []\<rparr>)"
| send: "rc_pc c = Sending \<Longrightarrow> ret_step t c LSend (c\<lparr>rc_pc := Sent\<rparr>)"
| fail: "rc_pc c = Sending \<Longrightarrow> ret_step t c LFail (c\<lparr>rc_pc := Returned (-1), rc_got := rc_posts c\<rparr>)"
| block: "rc_pc c = Sent \<Longrightarrow> ret_step t c LBlock (c\<lparr>rc_pc := Blocked\<rparr>)"
| post: "ret_step t c (LPost v) (c\<lparr>rc_pc := (if rc_pc c = Blocked then Woken else rc_pc c), rc_val := v,
    rc_posts := rc_posts c @ [v]\<rparr>)"
| expire: "rc_pc c = Blocked \<Longrightarrow> t \<Longrightarrow> ret_step t c LExpire (c\<lparr>rc_pc := Expired\<rparr>)"
| timeout: "rc_pc c = Expired \<Longrightarrow> ret_step t c LTimeout (c\<lparr>rc_pc := Woken, rc_val := ATCMD_RET_TIMEOUT\<rparr>)"
| spurious: "rc_pc c = Blocked \<Longrightarrow> ret_step t c LSpurious (c\<lparr>rc_pc := Woken\<rparr>)"
| get: "rc_pc c = Woken \<Longrightarrow> ret_step t c LGet (c\<lparr>rc_pc := Returned (rc_val c), rc_got := rc_posts c\<rparr>)"

inductive ret_run :: "bool \<Rightarrow> ret_cfg \<Rightarrow> ret_label list \<Rightarrow> ret_cfg \<Rightarrow> bool" for t where
  empty: "ret_run t c [] c"
| more: "ret_run t c ls d \<Longrightarrow> ret_step t d l e \<Longrightarrow> ret_run t c (ls @ [l]) e"

inductive_cases ret_stepE: "ret_step t c l d"

subsection \<open>What the sender returns\<close>

text \<open>The value is the last one stored, unless the wait timed out.\<close>

definition ret_inv :: "ret_label list \<Rightarrow> ret_cfg \<Rightarrow> bool" where
  "ret_inv ls c \<longleftrightarrow>
     (case rc_pc c of
        SendInit \<Rightarrow> True
      | Returned v \<Rightarrow> LFail \<in> set ls \<and> v = -1 \<or> v = last (ATCMD_RET_NONE # rc_got c) \<and> (rc_got c \<noteq> [] \<or> LSpurious \<in> set ls)
          \<or> LExpire \<in> set ls
      | Woken \<Rightarrow> rc_val c = last (ATCMD_RET_NONE # rc_posts c) \<and> (rc_posts c \<noteq> [] \<or> LSpurious \<in> set ls) \<or> LExpire \<in> set ls
      | Expired \<Rightarrow> LExpire \<in> set ls
      | _ \<Rightarrow> rc_val c = last (ATCMD_RET_NONE # rc_posts c))"

lemma ret_step_inv: "ret_step t c l d \<Longrightarrow> ret_inv ls c \<Longrightarrow> ret_inv (ls @ [l]) d"
  by (elim ret_stepE) (auto simp: ret_inv_def split: send_pc.splits if_splits)

lemma ret_run_inv: "ret_run t c ls d \<Longrightarrow> rc_pc c = SendInit \<Longrightarrow> ret_inv ls d"
proof (induction rule: ret_run.induct)
  case empty
  then show ?case by (simp add: ret_inv_def)
qed (blast intro: ret_step_inv)

text \<open>Without a timeout in the command, no run expires.\<close>

lemma untimed_no_expire: "ret_run t c ls d \<Longrightarrow> \<not> t \<Longrightarrow> LExpire \<notin> set ls"
  by (induction rule: ret_run.induct) (auto elim: ret_stepE)

lemma blocked_steps:
  assumes "ret_step False c l d" and "rc_pc c = Blocked"
  shows "l = LSpurious \<or> (\<exists>v. l = LPost v)"
  using assms by (auto elim: ret_stepE)

subsection \<open>Properties\<close>

text \<open>C34: When \<open>nrc_atcmd_send_cmd\<close> returns, it returns the value stored last before it looked: the answer of
  the target if that came, or, when the wait ended without a signal, that there is none.  Only a
  failed transmission and a command with a timeout have other results.\<close>

theorem send_cmd_returns_last_result:
  assumes "ret_run t c ls d" and "rc_pc c = SendInit" and "rc_pc d = Returned v" and "LFail \<notin> set ls" and "\<not> t"
  shows "if LSpurious \<in> set ls then v = last (ATCMD_RET_NONE # rc_got d) else rc_got d \<noteq> [] \<and> v = last (rc_got d)"
  using ret_run_inv [OF assms(1,2)] untimed_no_expire [OF assms(1,5)] assms(3,4) by (auto simp: ret_inv_def)

definition demo_cfg :: ret_cfg where
  "demo_cfg = \<lparr>rc_pc = SendInit, rc_val = 1, rc_posts = [], rc_got = []\<rparr>"

lemma run_steps:
  "ret_step t c l d \<Longrightarrow> ret_run t c [l] d"
  "ret_run t c ls d \<Longrightarrow> ret_step t d l e \<Longrightarrow> ret_run t c (ls @ [l]) e"
  using ret_run.intros [of t] by (metis append_Nil, blast)

theorem send_cmd_returns_last_result_witness:
  "\<exists>d. ret_run False demo_cfg [LInit, LSend, LBlock, LPost 0, LGet] d \<and> rc_pc d = Returned 0 \<and> rc_got d = [0]"
proof -
  let ?c1 = "demo_cfg\<lparr>rc_pc := Sending, rc_val := ATCMD_RET_NONE, rc_posts := []\<rparr>"
  let ?c2 = "?c1\<lparr>rc_pc := Sent\<rparr>" let ?c3 = "?c2\<lparr>rc_pc := Blocked\<rparr>"
  let ?c4 = "?c3\<lparr>rc_pc := (if rc_pc ?c3 = Blocked then Woken else rc_pc ?c3), rc_val := 0, rc_posts := rc_posts ?c3 @ [0]\<rparr>"
  let ?c5 = "?c4\<lparr>rc_pc := Returned (rc_val ?c4), rc_got := rc_posts ?c4\<rparr>"
  have "ret_run False demo_cfg [LInit] ?c1" by (rule run_steps(1) [OF ret_step.init]) (simp add: demo_cfg_def)
  then have "ret_run False demo_cfg ([LInit] @ [LSend]) ?c2" by (rule run_steps(2) [OF _ ret_step.send]) simp
  then have "ret_run False demo_cfg (([LInit] @ [LSend]) @ [LBlock]) ?c3" by (rule run_steps(2) [OF _ ret_step.block]) simp
  then have "ret_run False demo_cfg ((([LInit] @ [LSend]) @ [LBlock]) @ [LPost 0]) ?c4" by (rule run_steps(2) [OF _ ret_step.post])
  then have r: "ret_run False demo_cfg (((([LInit] @ [LSend]) @ [LBlock]) @ [LPost 0]) @ [LGet]) ?c5"
    by (rule run_steps(2) [OF _ ret_step.get]) simp
  have "if LSpurious \<in> set (((([LInit] @ [LSend]) @ [LBlock]) @ [LPost 0]) @ [LGet]) then 0 = last (ATCMD_RET_NONE # rc_got ?c5)
      else rc_got ?c5 \<noteq> [] \<and> 0 = last (rc_got ?c5)"
    by (rule send_cmd_returns_last_result [OF r]) (simp_all add: demo_cfg_def)
  then show ?thesis using r by (intro exI [of _ ?c5]) simp
qed

text \<open>C35: The wait is not tied to the value: an answer that is stored between the transmission and the wait
  is lost as a signal, and the sender blocks with the result already there until another message
  or a spurious wake-up comes.\<close>

theorem early_answer_blocks:
  assumes "rc_pc c = SendInit"
  shows "\<exists>d. ret_run False c [LInit, LSend, LPost v, LBlock] d \<and> rc_pc d = Blocked \<and> rc_val d = v \<and>
    (\<forall>l e. ret_step False d l e \<longrightarrow> l = LSpurious \<or> (\<exists>v. l = LPost v))"
proof -
  let ?c1 = "c\<lparr>rc_pc := Sending, rc_val := ATCMD_RET_NONE, rc_posts := []\<rparr>" let ?c2 = "?c1\<lparr>rc_pc := Sent\<rparr>"
  let ?c3 = "?c2\<lparr>rc_pc := (if rc_pc ?c2 = Blocked then Woken else rc_pc ?c2), rc_val := v, rc_posts := rc_posts ?c2 @ [v]\<rparr>"
  let ?c4 = "?c3\<lparr>rc_pc := Blocked\<rparr>"
  have "ret_run False c [LInit] ?c1" by (rule run_steps(1) [OF ret_step.init]) (rule assms)
  then have "ret_run False c ([LInit] @ [LSend]) ?c2" by (rule run_steps(2) [OF _ ret_step.send]) simp
  then have "ret_run False c (([LInit] @ [LSend]) @ [LPost v]) ?c3" by (rule run_steps(2) [OF _ ret_step.post])
  then have "ret_run False c ((([LInit] @ [LSend]) @ [LPost v]) @ [LBlock]) ?c4"
    by (rule run_steps(2) [OF _ ret_step.block]) simp
  then show ?thesis using blocked_steps [of ?c4] by (intro exI [of _ ?c4]) auto
qed

theorem early_answer_blocks_witness:
  "\<exists>d. ret_run False demo_cfg [LInit, LSend, LPost 0, LBlock] d \<and> rc_pc d = Blocked \<and> rc_val d = 0"
  using early_answer_blocks [of demo_cfg 0] by (auto simp: demo_cfg_def)

end
