(* ===== verification/Exchange.thy ===== *)
theory Exchange
  imports HostAtcmdProps AtcmdDataProps
begin

text \<open>
  The host and the target connected: what one sends the other receives in one piece, until both rest
  again.  The host waits for an answer before the answer arrives (\<open>HostReturn\<close> has the other order).
\<close>

type_synonym 'e target = "editor \<times> data_rx \<times> 'e atcmd"

text \<open>The bytes reach the target, and everything the target transmits on them reaches the host.\<close>

definition deliver ::
  "'e handlers \<Rightarrow> 'e consumers \<Rightarrow> ('h \<Rightarrow> bool) \<Rightarrow> string \<Rightarrow> 'e target \<times> 'h host \<Rightarrow> ('e target \<times> 'h host) option"
where
  "deliver H C M bytes x =
    do {
      (ed, rx, s) \<leftarrow> atcmd_receive H C True bytes (fst x);
      h \<leftarrow> nrc_atcmd_recv M (g_out s) (snd x);
      Some ((ed, rx, s\<lparr>g_out := []\<rparr>), h)
    }"

text \<open>An interface that accepts everything at once and keeps it.\<close>

definition accept_all :: "string \<Rightarrow> string \<Rightarrow> int \<times> string" where
  "accept_all xs s = (int (length xs), s @ xs)"

text \<open>\<open>nrc_atcmd_send_cmd\<close> with its wait; \<open>None\<close> if no result arrives.\<close>

definition exchange_cmd ::
  "'e handlers \<Rightarrow> 'e consumers \<Rightarrow> ('h \<Rightarrow> bool) \<Rightarrow> string \<Rightarrow> 'e target \<times> 'h host \<Rightarrow> (int \<times> 'e target \<times> 'h host) option"
where
  "exchange_cmd H C M cmd x =
    (case nrc_atcmd_send_cmd accept_all cmd [] (snd x) of
       None \<Rightarrow> None
     | Some (Inl ret, bytes, h) \<Rightarrow> Some (ret, fst x, h)
     | Some (Inr line, bytes, h) \<Rightarrow>
         do {
           y \<leftarrow> deliver H C M bytes (fst x, snd (wait_setup line h));
           (if ret_val (snd y) = ATCMD_RET_NONE then None else Some (ret_val (snd y), y))
         })"

definition exchange_data ::
  "'e handlers \<Rightarrow> 'e consumers \<Rightarrow> ('h \<Rightarrow> bool) \<Rightarrow> string \<Rightarrow> 'e target \<times> 'h host \<Rightarrow> (int \<times> 'e target \<times> 'h host) option"
where
  "exchange_data H C M data x =
    (case nrc_atcmd_send_data accept_all data [] (snd x) of
       None \<Rightarrow> None
     | Some (ret, bytes, h) \<Rightarrow> map_option (\<lambda>y. (ret, y)) (deliver H C M bytes (fst x, h)))"

subsection \<open>Both sides at rest\<close>

definition host_rest :: "'h host \<Rightarrow> bool" where
  "host_rest h \<longleftrightarrow> host_idle h \<and> rxd_local h"

text \<open>
  Everything of the target but the module states: \<open>U\<close>, \<open>gs\<close>, \<open>cs\<close> describe the registry.
\<close>

definition target_rest :: "addr list \<Rightarrow> addr list \<Rightarrow> (addr \<Rightarrow> addr list) \<Rightarrow> 'e target \<Rightarrow> bool" where
  "target_rest U gs cs t \<longleftrightarrow> (case t of (ed, rx, s) \<Rightarrow>
     editing ed [] \<and> length (d_buf rx) = ATCMD_DATA_LEN_MAX \<and> d_exit rx = 0 \<and> shared_ok s \<and>
     reg_ok (g_registry s) U gs cs \<and> \<not> atcmd_config_status ATCMD_CFG_ECHO s \<and>
     atcmd_config_status ATCMD_CFG_LINEFEED s \<and> g_out s = [])"

lemma accept_all_ok: "writer_ok accept_all (\<lambda>s. s) (\<lambda>_. 0)"
  by (auto simp: writer_ok_def accept_all_def)

lemma exchange_send:
  assumes "2 \<le> length cmd" and "length cmd \<le> 126" and "take 2 cmd = ''AT''"
  shows "nrc_atcmd_send_cmd accept_all cmd [] h = Some (Inr (cmd @ [CR, LF]), cmd @ [CR, LF], nrc_atcmd_init_return h)"
  using send_cmd_sends [OF accept_all_ok, of cmd "[]" h] assms by auto

lemma exchange_send_data:
  "nrc_atcmd_send_data accept_all d [] h = Some (0, d, h\<lparr>data_send := data_send h + of_nat (length d)\<rparr>)"
  using send_all [OF accept_all_ok, of d "[]"] by (auto simp: nrc_atcmd_send_data_def)

lemma host_rest_updates [simp]:
  "host_rest (nrc_atcmd_init_return h) = host_rest h" "host_rest (h\<lparr>data_send := n\<rparr>) = host_rest h"
  by (simp_all add: host_rest_def nrc_atcmd_init_return_def host_idle_def receiving_def rxd_local_def)

lemma prompt_exit_silent:
  assumes "\<not> atcmd_config_status ATCMD_CFG_ECHO s"
  shows "atcmd_prompt_exit s = s\<lparr>g_prompt_enter := False\<rparr>"
  using assms by (auto simp: atcmd_prompt_exit_def Let_def atcmd_config_status_def)

lemma shared_ok_frame [simp]:
  "shared_ok (s\<lparr>g_out := t\<rparr>) = shared_ok s" "shared_ok (s\<lparr>g_prompt_enter := b\<rparr>) = shared_ok s"
  "shared_ok (s\<lparr>g_env := e\<rparr>) = shared_ok s" "shared_ok (answered name ret s) = shared_ok s"
  by (simp_all add: shared_ok_def answered_def Let_def atcmd_transmit_def atcmd_data_mode_continue_def
      atcmd_data_mode_task_resume_def)

text \<open>What the messages of the target do to the host.\<close>

lemma host_hears:
  assumes "host_rest h" and "\<And>e. M e" and "\<forall>m \<in> set ms. host_msg_ok m"
  shows "\<exists>h'. nrc_atcmd_recv M (concat (map encode ms)) h = Some h' \<and> host_rest h' \<and> frame h' = fold host_effect ms (frame h)"
proof -
  have h: "host_idle h" "rxd_local h" using assms(1) by (simp_all add: host_rest_def)
  from stream_performs [where M = M, OF h(1) assms(2) h(2) assms(3)] obtain h' where
    h': "nrc_atcmd_recv M (concat (map encode ms)) h = Some h'" "host_idle h'" "frame h' = fold host_effect ms (frame h)"
    by (auto simp: performs_def)
  have "cb_rxd (fold host_effect ms k) = cb_rxd k" for k :: "'a host"
    by (induction ms arbitrary: k) (simp_all add: effect_cb_rxd)
  then have "cb_rxd h' = cb_rxd h" using arg_cong [OF h'(3), of cb_rxd] by simp
  then have "rxd_local h'" using h(2) by (simp add: rxd_local_def)
  then show ?thesis using h' by (auto simp: host_rest_def)
qed

subsection \<open>A command and its answer\<close>

text \<open>
  Whatever form the command has, once it parses to a registered name and its arguments.  \<open>ms\<close> is what the
  handler itself prints, a result among it when the handler returns \<open>ATCMD_NO_RETURN\<close>.
\<close>

lemma exchange_served:
  assumes t: "target_rest U gs cs (ed, rx, s)" and dm: "\<not> dm_enable (g_data_mode s)" and H: "handlers_ok H"
    and h: "host_rest h" and M: "\<And>e. M e"
    and w: "line_ok (''AT+'' @ c)" "2 \<le> length c" "length c \<le> 123"
    and p: "\<And>r. atcmd_parse (c @ [LF] @ r) = Parsed (Some ty) (name # args)"
    and wait: "snd (wait_setup ((''AT+'' @ c) @ [CR, LF]) (nrc_atcmd_init_return h)) = nrc_atcmd_init_return h"
    and a: "lookup_command (g_registry s) cs name gs = a" "a \<noteq> 0" "c_handler (infos (g_registry s) a) ty"
    and call: "H a ty args (s\<lparr>g_prompt_enter := False\<rparr>) = (ret, s1)"
    and out: "g_out s1 = concat (map encode ms)" "\<forall>m \<in> set ms. host_msg_ok m"
    and ans: "\<forall>m \<in> set (answer_msgs name ret). host_msg_ok m"
    and keep: "g_registry s1 = g_registry s" "g_config s1 = g_config s"
    and rv: "ret_val (fold host_effect (ms @ answer_msgs name ret) (frame (nrc_atcmd_init_return h))) = v" "v \<noteq> ATCMD_RET_NONE"
  shows "\<exists>ed' h'. exchange_cmd H C M (''AT+'' @ c) ((ed, rx, s), h) =
      Some (v, (ed', rx, (atcmd_prompt_enter (answered name ret s1))\<lparr>g_out := []\<rparr>), h') \<and>
    target_rest U gs cs (ed', rx, (atcmd_prompt_enter (answered name ret s1))\<lparr>g_out := []\<rparr>) \<and> host_rest h' \<and>
    frame h' = fold host_effect (ms @ answer_msgs name ret) (frame (nrc_atcmd_init_return h))"
proof -
  let ?cmd = "''AT+'' @ c" and ?h1 = "nrc_atcmd_init_return h" and ?s' = "atcmd_prompt_enter (answered name ret s1)"
  have T: "editing ed []" "shared_ok s" "reg_ok (g_registry s) U gs cs" "\<not> atcmd_config_status ATCMD_CFG_ECHO s"
      "atcmd_config_status ATCMD_CFG_LINEFEED s" "g_out s = []" "length (d_buf rx) = ATCMD_DATA_LEN_MAX" "d_exit rx = 0"
    using t by (simp_all add: target_rest_def)
  have snd: "nrc_atcmd_send_cmd accept_all ?cmd [] h = Some (Inr (?cmd @ [CR, LF]), ?cmd @ [CR, LF], ?h1)"
    using w by (intro exchange_send) simp_all
  have call': "(if c_handler (infos (g_registry s) a) ty then H a ty args (atcmd_prompt_exit s) else (7, atcmd_prompt_exit s)) = (ret, s1)"
    using a(3) call prompt_exit_silent [OF T(4)] by simp
  obtain ed' where r: "atcmd_receive_command H True (?cmd @ [CR, LF] @ []) ed s = Some (3 + length c + 2, ed', ?s')" "editing ed' []"
    using serve_exact [where m = True and r = "[]", OF T(1,2) H w(1,2) _ T(4,5) p T(3) a(1) [symmetric] a(2) call', of "[CR, LF]"]
    by (auto simp: eol_ok_def)
  have rec: "atcmd_receive H C True (?cmd @ [CR, LF]) (ed, rx, s) = Some (ed', rx, ?s')"
    using r(1) dm unfolding atcmd_receive_def by (subst receive_routed.simps, simp) (subst receive_routed.simps, simp)
  have out': "g_out ?s' = concat (map encode (ms @ answer_msgs name ret))"
    by (simp add: out(1) answer_encoded)
  have ok: "\<forall>m \<in> set (ms @ answer_msgs name ret). host_msg_ok m" using out(2) ans by auto
  obtain h' where h': "nrc_atcmd_recv M (g_out ?s') ?h1 = Some h'" "host_rest h'"
    "frame h' = fold host_effect (ms @ answer_msgs name ret) (frame ?h1)"
    using host_hears [where M = M, OF _ M ok, of ?h1] h unfolding out' by auto
  have rv': "ret_val h' = v" using arg_cong [OF h'(3), of ret_val] rv(1) by simp
  have "exchange_cmd H C M ?cmd ((ed, rx, s), h) = Some (ret_val h', (ed', rx, ?s'\<lparr>g_out := []\<rparr>), h')"
    using snd rec h'(1) rv(2) rv' wait by (simp add: exchange_cmd_def deliver_def)
  moreover have "shared_ok s1"
    using H T(2) call unfolding handlers_ok_def by (metis shared_ok_frame(2) snd_conv)
  ultimately show ?thesis using rv' h' r(2) T keep
    by (simp add: target_rest_def atcmd_config_status_def)
qed

lemma exchange_command:
  assumes t: "target_rest U gs cs (ed, rx, s)" and dm: "\<not> dm_enable (g_data_mode s)" and H: "handlers_ok H"
    and h: "host_rest h" and M: "\<And>e. M e"
    and w: "line_ok (''AT+'' @ c)" "2 \<le> length c" "length c \<le> 123"
    and p: "\<And>r. atcmd_parse (c @ [LF] @ r) = Parsed (Some ty) (name # args)"
    and wait: "snd (wait_setup ((''AT+'' @ c) @ [CR, LF]) (nrc_atcmd_init_return h)) = nrc_atcmd_init_return h"
    and a: "lookup_command (g_registry s) cs name gs = a" "a \<noteq> 0" "c_handler (infos (g_registry s) a) ty"
    and call: "H a ty args (s\<lparr>g_prompt_enter := False\<rparr>) = (ret, s1)"
    and out: "g_out s1 = concat (map encode ms)" "\<forall>m \<in> set ms. host_msg_ok m"
    and ret: "ret \<noteq> -1" and ans: "\<forall>m \<in> set (answer_msgs name ret). host_msg_ok m"
    and keep: "g_registry s1 = g_registry s" "g_config s1 = g_config s"
  shows "\<exists>ed' h'. exchange_cmd H C M (''AT+'' @ c) ((ed, rx, s), h) =
      Some (if ret = 0 then ATCMD_RET_OK else ATCMD_RET_ERROR,
            (ed', rx, (atcmd_prompt_enter (answered name ret s1))\<lparr>g_out := []\<rparr>), h') \<and>
    target_rest U gs cs (ed', rx, (atcmd_prompt_enter (answered name ret s1))\<lparr>g_out := []\<rparr>) \<and> host_rest h' \<and>
    frame h' = fold host_effect (ms @ answer_msgs name ret) (frame (nrc_atcmd_init_return h))"
  by (rule exchange_served [OF t dm H h M w p wait a call out ans keep])
    (simp_all only: fold_result [OF ret], simp add: ATCMD_RET_OK_def ATCMD_RET_ERROR_def ATCMD_RET_NONE_def)

end
