(* ===== verification/AtcmdBasic.thy ===== *)
theory AtcmdBasic
  imports AtcmdDataMode
begin

text \<open>
  The flash commands of \<open>sdk/apps/atcmd/atcmd_basic.c\<close>: firmware update (\<open>AT+FWUPDATE\<close>, \<open>AT+FWBINDL\<close>),
  the user area (\<open>AT+SFUSER\<close>), the factory area (\<open>AT+SFSYSUSER\<close>) and the command timeouts, with the
  consumers of the data mode that belong to them.  The flash functions of the modem library are the
  parameter \<open>A\<close>, on a state \<open>'f\<close>; log output is left out.  The module's variables are the record
  \<open>basic_env\<close>, which other modules can extend.
\<close>

subsection \<open>State and environment\<close>

definition ATCMD_ERROR_BUSY :: int where "ATCMD_ERROR_BUSY = 2"
definition ATCMD_ERROR_FAIL :: int where "ATCMD_ERROR_FAIL = 3"
definition SF_SECTOR_SIZE :: nat where "SF_SECTOR_SIZE = 4096"
definition ATCMD_TIMEOUT_CMD_LEN_MAX :: int where "ATCMD_TIMEOUT_CMD_LEN_MAX = 20"

text \<open>
  The functions \<open>util_fota_...\<close> on offsets in the area of the new firmware, \<open>nrc_..._user_data\<close> on
  offsets in the user area and \<open>nrc_get_user_factory\<close>.  The integers are their status codes, 0 for
  success; \<open>fota_cal_crc n\<close> is the checksum of the first \<open>n\<close> bytes of the firmware area.
\<close>

record 'f flash_api =
  fota_max_fw_size :: "'f \<Rightarrow> u32"
  fota_write :: "u32 \<Rightarrow> string \<Rightarrow> 'f \<Rightarrow> int \<times> 'f"
  fota_read :: "u32 \<Rightarrow> nat \<Rightarrow> 'f \<Rightarrow> int \<times> string"
  fota_erase :: "u32 \<Rightarrow> u32 \<Rightarrow> 'f \<Rightarrow> int \<times> 'f"
  fota_erase_info :: "'f \<Rightarrow> 'f"
  fota_cal_crc :: "u32 \<Rightarrow> 'f \<Rightarrow> u32"
  fota_set_info :: "u32 \<Rightarrow> u32 \<Rightarrow> 'f \<Rightarrow> 'f"
  fota_set_ready :: "bool \<Rightarrow> 'f \<Rightarrow> 'f"
  flash_size :: "'f \<Rightarrow> u32"
  user_addr :: "'f \<Rightarrow> u32"
  user_size :: "'f \<Rightarrow> u32"
  user_read :: "u32 \<Rightarrow> u32 \<Rightarrow> 'f \<Rightarrow> int \<times> string"
  user_write :: "u32 \<Rightarrow> string \<Rightarrow> 'f \<Rightarrow> int \<times> 'f"
  user_erase :: "'f \<Rightarrow> int \<times> 'f"
  factory_info :: "'f \<Rightarrow> int \<times> u32 \<times> u32"
  factory_read :: "u16 \<Rightarrow> 'f \<Rightarrow> int \<times> string"

type_synonym timeouts = "(string \<times> u32) list"

text \<open>
  \<open>be_errno\<close> is whether \<open>errno\<close> holds \<open>ERANGE\<close>, \<open>be_mem\<close> whether an allocation succeeds.
\<close>

record 'f basic_env =
  fw_size :: u32
  fw_crc32 :: u32
  fw_download :: u32
  fw_verify :: int
  timeout_wifi :: timeouts
  timeout_socket :: timeouts
  be_errno :: bool
  be_mem :: bool
  be_flash :: 'f

type_synonym ('f, 'z) basic = "('f, 'z) basic_env_scheme atcmd"

definition set_flash :: "'f \<Rightarrow> ('f, 'z) basic \<Rightarrow> ('f, 'z) basic" where
  "set_flash f s = s\<lparr>g_env := (g_env s)\<lparr>be_flash := f\<rparr>\<rparr>"

definition set_errno :: "bool \<Rightarrow> ('f, 'z) basic \<Rightarrow> ('f, 'z) basic" where
  "set_errno e s = s\<lparr>g_env := (g_env s)\<lparr>be_errno := e\<rparr>\<rparr>"

subsection \<open>Printing\<close>

definition hex_char :: "nat \<Rightarrow> char" where
  "hex_char d = char_of (if d < 10 then d + 48 else d + 55)"

fun hex_nat :: "nat \<Rightarrow> string" where
  "hex_nat n = (if n < 16 then [hex_char n] else hex_nat (n div 16) @ [hex_char (n mod 16)])"

declare hex_nat.simps [simp del]

text \<open>
  \<open>ATCMD_MSG_INFO\<close>, \<open>_HELP\<close> and \<open>_BEVENT\<close>.  The texts of this module are short enough for the message
  buffer (\<open>msg_put_prints\<close>), so that the faulty case does not arise.
\<close>

definition msg_put :: "string \<Rightarrow> 'e atcmd \<Rightarrow> 'e atcmd" where
  "msg_put body s = (case atcmd_msg_print body s of None \<Rightarrow> s | Some s1 \<Rightarrow> s1)"

definition fmt_u :: "u32 \<Rightarrow> string" where "fmt_u w = dec_nat (unat w)"
definition fmt_d :: "u32 \<Rightarrow> string" where "fmt_d w = dec_int (sint w)"
definition fmt_X :: "u32 \<Rightarrow> string" where "fmt_X w = ''0x'' @ hex_nat (unat w)"

text \<open>The C library's \<open>atoi\<close>: \<open>strtol\<close> with its effect on \<open>errno\<close>.\<close>

definition t_atoi :: "bool \<Rightarrow> string \<Rightarrow> int \<times> bool" where
  "t_atoi erange str = (case c_strtol str of (v, used, over) \<Rightarrow> (v, erange \<or> over))"

subsection \<open>Events\<close>

definition basic_event_text :: "data_event \<Rightarrow> string option" where
  "basic_event_text e =
    (case e of
       FwIdle len cnt \<Rightarrow> Some (''BEVENT:\"FWBINDL_IDLE\",'' @ fmt_u len @ '','' @ fmt_u cnt)
     | FwDrop len \<Rightarrow> Some (''BEVENT:\"FWBINDL_DROP\",'' @ fmt_u len)
     | FwFail len \<Rightarrow> Some (''BEVENT:\"FWBINDL_FAIL\",'' @ fmt_u len)
     | FwDone len \<Rightarrow> Some (''BEVENT:\"FWBINDL_DONE\",'' @ fmt_u len)
     | SfIdle off len cnt \<Rightarrow> Some (''BEVENT:\"SFUSER_IDLE\",'' @ fmt_u off @ '','' @ fmt_u len @ '','' @ fmt_u cnt)
     | SfDrop off len \<Rightarrow> Some (''BEVENT:\"SFUSER_DROP\",'' @ fmt_u off @ '','' @ fmt_u len)
     | SfFail off len \<Rightarrow> Some (''BEVENT:\"SFUSER_FAIL\",'' @ fmt_u off @ '','' @ fmt_u len)
     | SfDone off len \<Rightarrow> Some (''BEVENT:\"SFUSER_DONE\",'' @ fmt_u off @ '','' @ fmt_u len)
     | _ \<Rightarrow> None)"

definition atcmd_basic_event_handler :: "data_event \<Rightarrow> 'e atcmd \<Rightarrow> int \<times> 'e atcmd" where
  "atcmd_basic_event_handler e s =
    (case basic_event_text e of None \<Rightarrow> (-1, s) | Some t \<Rightarrow> (0, msg_put t s))"

subsection \<open>Firmware update\<close>

definition atcmd_firmware_verify :: "'f flash_api \<Rightarrow> u32 \<Rightarrow> string \<Rightarrow> 'f \<Rightarrow> int" where
  "atcmd_firmware_verify A offset buf f =
    (case fota_read A offset (length buf) f of (ret, read_buf) \<Rightarrow>
       if ret \<noteq> 0 then ret else if take (length buf) read_buf = buf then 0 else 1)"

text \<open>One pass of the loop of \<open>_atcmd_firmware_download\<close> up to the test of \<open>ret\<close>.\<close>

definition firmware_write :: "'f flash_api \<Rightarrow> int \<Rightarrow> u32 \<Rightarrow> string \<Rightarrow> 'f \<Rightarrow> int \<times> 'f" where
  "firmware_write A verify offset buf f =
    (case fota_write A offset buf f of (ret, f1) \<Rightarrow>
       (if ret \<noteq> 0 then ret else if verify > 0 then atcmd_firmware_verify A offset buf f1 else ret, f1))"

definition atcmd_firmware_download :: "'f flash_api \<Rightarrow> string \<Rightarrow> ('f, 'z) basic \<Rightarrow> int \<times> ('f, 'z) basic" where
  "atcmd_firmware_download A buf s =
    (let e = g_env s; offset = fw_download e; len = length buf;
         (ret, f) = (case firmware_write A (fw_verify e) offset buf (be_flash e) of (ret, f1) \<Rightarrow>
            if ret = 0 then (ret, f1)
            else (case fota_erase A offset (of_nat len) f1 of (ret2, f2) \<Rightarrow>
              if ret2 \<noteq> 0 then (ret2, f2) else firmware_write A (fw_verify e) offset buf f2));
         len1 = (if ret \<noteq> 0 then 0 else len)
     in (int len1, s\<lparr>g_env := e\<lparr>be_flash := f, fw_download := offset + of_nat len1\<rparr>\<rparr>))"

definition atcmd_basic_firmware_update_run :: "'f flash_api \<Rightarrow> ('f, 'z) basic \<Rightarrow> int \<times> ('f, 'z) basic" where
  "atcmd_basic_firmware_update_run A s =
    (let e = g_env s; f = be_flash e; sz = fw_size e; crc = fw_crc32 e
     in if sz = 0 \<or> sz > fota_max_fw_size A f \<or> crc = 0 then (ATCMD_ERROR_INVAL, s)
        else if fota_cal_crc A sz f \<noteq> crc then (ATCMD_ERROR_FAIL, s)
        else (ATCMD_SUCCESS, set_flash (fota_set_ready A True (fota_set_info A sz crc f)) s))"

definition atcmd_basic_firmware_update_get :: "string list \<Rightarrow> ('f, 'z) basic \<Rightarrow> int \<times> ('f, 'z) basic" where
  "atcmd_basic_firmware_update_get argv s =
    (if argv \<noteq> [] then (ATCMD_ERROR_INVAL, s)
     else (ATCMD_SUCCESS, msg_put (''FWUPDATE:'' @ fmt_u (fw_size (g_env s)) @ '','' @ fmt_X (fw_crc32 (g_env s)) @ '','' @
             dec_int (fw_verify (g_env s))) s))"

text \<open>
  The fallthrough of the switch: \<open>verify\<close>, \<open>crc32\<close> and \<open>size\<close> of one, two or three parameters, with the
  new \<open>errno\<close>; \<open>None\<close> is a refused parameter.
\<close>

definition fw_update_params :: "string list \<Rightarrow> bool \<Rightarrow> (u32 \<times> u32 \<times> int) option \<times> bool" where
  "fw_update_params argv err =
    (let n = length argv
     in if n = 0 \<or> n > 3 then (None, err)
        else
          (case (if n = 3 then t_atoi err (argv ! 2) else (0, err)) of (verify, err1) \<Rightarrow>
            if verify < 0 \<or> verify > 2 then (None, err1)
            else
              (case (if n \<ge> 2 then atcmd_param_to_hex (argv ! 1) else (0, Some 0)) of (st, crc) \<Rightarrow>
                if st \<noteq> 0 \<or> (n \<ge> 2 \<and> the crc = 0) then (None, err1)
                else
                  (case atcmd_param_to_uint32 err1 (Some (argv ! 0)) of
                     (None, err2) \<Rightarrow> (None, err2)
                   | (Some sz, err2) \<Rightarrow> (Some (of_int sz, the crc, verify), err2)))))"

text \<open>What follows the switch; the help request gets here, too.\<close>

definition fw_update_apply :: "'f flash_api \<Rightarrow> u32 \<times> u32 \<times> int \<Rightarrow> ('f, 'z) basic \<Rightarrow> int \<times> ('f, 'z) basic" where
  "fw_update_apply A p s =
    (case p of (sz, crc, verify) \<Rightarrow>
      (let e = (g_env s)\<lparr>fw_size := sz, fw_crc32 := crc, fw_download := 0, fw_verify := verify\<rparr>;
           f1 = (if sz > 0 then snd (fota_erase A 0 sz (be_flash e)) else be_flash e)
       in (ATCMD_SUCCESS, s\<lparr>g_env := e\<lparr>be_flash := fota_erase_info A f1\<rparr>\<rparr>)))"

definition atcmd_basic_firmware_update_set ::
  "'f flash_api \<Rightarrow> string list \<Rightarrow> ('f, 'z) basic \<Rightarrow> int \<times> ('f, 'z) basic" where
  "atcmd_basic_firmware_update_set A argv s =
    (if argv = [] then
       fw_update_apply A (0, 0, 0) (msg_put ''AT+FWUPDATE=<binary_size>,<crc32>[,<verify>]'' s)
     else
       (case fw_update_params argv (be_errno (g_env s)) of
          (None, err) \<Rightarrow> (ATCMD_ERROR_INVAL, set_errno err s)
        | (Some (sz, crc, verify), err) \<Rightarrow>
            (let s1 = set_errno err s; e = g_env s
             in if sz = 0 \<and> crc = 0 then fw_update_apply A (sz, crc, verify) s1
                else if sz > 0 \<and> crc > 0 \<and> sz \<le> fota_max_fw_size A (be_flash e) then
                  (if fw_size e = 0 \<and> fw_crc32 e = 0 then fw_update_apply A (sz, crc, verify) s1
                   else (ATCMD_ERROR_BUSY, s1))
                else (ATCMD_ERROR_INVAL, s1))))"

subsection \<open>Timeouts\<close>

definition timeout_basic :: timeouts where "timeout_basic = [(''FWBINDL'', 1)]"

definition timeout_wifi_init :: timeouts where
  "timeout_wifi_init = [(''WSCAN'', 0), (''WCONN'', 60), (''WDISCONN'', 60), (''WDHCP'', 60), (''WSOFTAP'', 60)]"

definition timeout_socket_init :: timeouts where
  "timeout_socket_init = [(''SOPEN'', 30), (''SSEND'', 0), (''SRECV'', 0)]"

text \<open>\<open>timeout_table\<close>: the table a command name selects by its first character (\<open>NUL\<close> of an empty one).\<close>

definition timeout_table :: "string \<Rightarrow> ('f, 'z) basic_env_scheme \<Rightarrow> timeouts" where
  "timeout_table cmd e =
    (if take 1 cmd = ''W'' then timeout_wifi e else if take 1 cmd = ''S'' then timeout_socket e else timeout_basic)"

definition atcmd_timeout_value :: "string \<Rightarrow> ('f, 'z) basic_env_scheme \<Rightarrow> u32" where
  "atcmd_timeout_value cmd e = (case map_of (timeout_table cmd e) cmd of None \<Rightarrow> 0 | Some sec \<Rightarrow> sec * 1000)"

fun timeout_infos :: "timeouts \<Rightarrow> 'e atcmd \<Rightarrow> 'e atcmd" where
  "timeout_infos [] s = s"
| "timeout_infos ((cmd, sec) # ts) s =
    timeout_infos ts
      (if sec = 0 then s
       else if take 1 cmd = ''W'' then msg_put (''WTIMEOUT:\"'' @ cmd @ ''\",'' @ fmt_d sec) s
       else if take 1 cmd = ''S'' then msg_put (''STIMEOUT:\"'' @ cmd @ ''\",'' @ fmt_d sec) s
       else s)"

definition atcmd_basic_timeout_get :: "string list \<Rightarrow> ('f, 'z) basic \<Rightarrow> int \<times> ('f, 'z) basic" where
  "atcmd_basic_timeout_get argv s =
    (if length argv = 1 then
       (case t_atoi (be_errno (g_env s)) (argv ! 0) of (i, err) \<Rightarrow>
         (let s1 = set_errno err s
          in if i = 0 then (ATCMD_SUCCESS, timeout_infos (timeout_wifi (g_env s)) s1)
             else if i = 1 then (ATCMD_SUCCESS, timeout_infos (timeout_socket (g_env s)) s1)
             else (ATCMD_ERROR_INVAL, s1)))
     else if argv = [] then
       (ATCMD_SUCCESS, timeout_infos (timeout_socket (g_env s)) (timeout_infos (timeout_wifi (g_env s)) s))
     else (ATCMD_ERROR_INVAL, s))"

text \<open>Only the first entry of a name is looked at.\<close>

fun timeout_put :: "string \<Rightarrow> u32 \<Rightarrow> timeouts \<Rightarrow> timeouts" where
  "timeout_put cmd sec [] = []"
| "timeout_put cmd sec (t # ts) = (if fst t = cmd then (cmd, sec) # ts else t # timeout_put cmd sec ts)"

definition atcmd_basic_timeout_set :: "string list \<Rightarrow> ('f, 'z) basic \<Rightarrow> int \<times> ('f, 'z) basic" where
  "atcmd_basic_timeout_set argv s =
    (if argv = [] then (ATCMD_SUCCESS, msg_put ''AT+TIMEOUT=\"<command>\",<time>'' s)
     else if length argv \<noteq> 2 then (ATCMD_ERROR_INVAL, s)
     else
       (case atcmd_param_to_str (Some (argv ! 0)) (ATCMD_TIMEOUT_CMD_LEN_MAX + 1) of
          None \<Rightarrow> (ATCMD_ERROR_FAIL, s)
        | Some cmd \<Rightarrow>
            (let w = take 1 cmd = ''W''; ts = (if w then timeout_wifi (g_env s) else timeout_socket (g_env s))
             in if \<not> w \<and> take 1 cmd \<noteq> ''S'' then (ATCMD_ERROR_INVAL, s)
                else if map_of ts cmd = None then (ATCMD_ERROR_INVAL, s)
                else
                  (case t_atoi (be_errno (g_env s)) (argv ! 1) of (sec, err) \<Rightarrow>
                    (let s1 = set_errno err s
                     in if sec < 0 then (ATCMD_ERROR_INVAL, s1)
                        else (ATCMD_SUCCESS,
                          s1\<lparr>g_env := (if w then (g_env s1)\<lparr>timeout_wifi := timeout_put cmd (of_int sec) ts\<rparr>
                                       else (g_env s1)\<lparr>timeout_socket := timeout_put cmd (of_int sec) ts\<rparr>)\<rparr>))))))"

subsection \<open>Firmware download\<close>

definition atcmd_basic_firmware_download_get :: "string list \<Rightarrow> ('f, 'z) basic \<Rightarrow> int \<times> ('f, 'z) basic" where
  "atcmd_basic_firmware_download_get argv s =
    (if argv \<noteq> [] then (ATCMD_ERROR_INVAL, s)
     else (ATCMD_SUCCESS, msg_put (''FWBINDL:'' @ fmt_u (fw_size (g_env s)) @ '','' @ fmt_u (fw_download (g_env s))) s))"

text \<open>The offset and length of the two-parameter form, with the new \<open>errno\<close>.\<close>

definition two_uint32 :: "bool \<Rightarrow> string \<Rightarrow> string \<Rightarrow> (u32 \<times> u32) option \<times> bool" where
  "two_uint32 err a b =
    (case atcmd_param_to_uint32 err (Some a) of
       (None, err1) \<Rightarrow> (None, err1)
     | (Some x, err1) \<Rightarrow>
         (case atcmd_param_to_uint32 err1 (Some b) of
            (None, err2) \<Rightarrow> (None, err2)
          | (Some y, err2) \<Rightarrow> (Some (of_int x, of_int y), err2)))"

definition atcmd_basic_firmware_download_set :: "string list \<Rightarrow> ('f, 'z) basic \<Rightarrow> int \<times> ('f, 'z) basic" where
  "atcmd_basic_firmware_download_set argv s =
    (if argv = [] then (ATCMD_SUCCESS, msg_put ''AT+FWBINDL=<offset>,<length>'' s)
     else if length argv \<noteq> 2 then (ATCMD_ERROR_INVAL, s)
     else
       (case two_uint32 (be_errno (g_env s)) (argv ! 0) (argv ! 1) of
          (None, err) \<Rightarrow> (ATCMD_ERROR_INVAL, set_errno err s)
        | (Some (offset, len), err) \<Rightarrow>
            (let s1 = set_errno err s
             in if len = 0 \<or> unat len > ATCMD_DATA_LEN_MAX then (ATCMD_ERROR_INVAL, s1)
                else if offset \<noteq> fw_download (g_env s) then (ATCMD_ERROR_INVAL, s1)
                else
                  (let t = atcmd_timeout_value ''FWBINDL'' (g_env s);
                       p = (atcmd_data_mode_init_params ATCMD_DATA_FWBINDL)
                             \<lparr>dm_len := len, dm_timeout := (if t = 0 then 1000 else t), done_event := True\<rparr>
                   in case atcmd_data_mode_enable (Some p) s1 of (ret, s2) \<Rightarrow>
                        (if ret \<noteq> 0 then ATCMD_ERROR_FAIL else ATCMD_SUCCESS, s2)))))"

subsection \<open>The user area\<close>

definition SF_USER_READ :: int where "SF_USER_READ = 0"
definition SF_USER_WRITE :: int where "SF_USER_WRITE = 1"
definition SF_USER_ERASE :: int where "SF_USER_ERASE = 2"

definition atcmd_sf_user_support :: "'f flash_api \<Rightarrow> 'f \<Rightarrow> bool" where
  "atcmd_sf_user_support A f =
    (let mb = flash_size A f div (1024 * 1024); addr = user_addr A f; sz = user_size A f
     in if mb = 2 then addr = 0x1E6000 \<and> sz = 100 * 1024 \<or> addr = 0x1F4000 \<and> sz = 8 * 1024
        else if mb = 4 then addr = 0x3DA000 \<and> sz = 100 * 1024
        else False)"

text \<open>
  The comparisons are unsigned, with \<open>sf_user_area_size\<close> converted back from \<open>int\<close>.
\<close>

definition atcmd_sf_user_valid_params :: "'f flash_api \<Rightarrow> int \<Rightarrow> u32 \<Rightarrow> u32 \<Rightarrow> 'f \<Rightarrow> bool" where
  "atcmd_sf_user_valid_params A mode offset len f =
    (let area = user_size A f;
         length_max = (if mode = SF_USER_READ \<or> mode = SF_USER_WRITE then Some (of_nat ATCMD_DATA_LEN_MAX)
                       else if mode = SF_USER_ERASE then Some area else None)
     in case length_max of None \<Rightarrow> False | Some lm \<Rightarrow>
       if offset \<ge> area then False
       else if len = 0 \<or> len > lm then False
       else if offset + len > area then False
       else True)"

definition atcmd_sf_user_write :: "'f flash_api \<Rightarrow> u32 \<Rightarrow> string \<Rightarrow> ('f, 'z) basic \<Rightarrow> int \<times> ('f, 'z) basic" where
  "atcmd_sf_user_write A offset data s =
    (case user_write A offset data (be_flash (g_env s)) of (ret, f) \<Rightarrow>
      (if ret \<noteq> 0 then 0 else int (length data), set_flash f s))"

definition atcmd_basic_sf_user_get :: "'f flash_api \<Rightarrow> string list \<Rightarrow> ('f, 'z) basic \<Rightarrow> int \<times> ('f, 'z) basic" where
  "atcmd_basic_sf_user_get A argv s =
    (if argv \<noteq> [] then (ATCMD_ERROR_INVAL, s)
     else (let f = be_flash (g_env s)
           in (ATCMD_SUCCESS, msg_put (''SFUSER:'' @ fmt_X (user_addr A f) @ '','' @ fmt_u (user_size A f div 1024)) s)))"

text \<open>
  An announcement line in a local 128-byte buffer, its transmission and the block behind it.
\<close>

definition msg_line :: "string \<Rightarrow> 'e atcmd \<Rightarrow> 'e atcmd" where
  "msg_line body s =
    (case atcmd_msg_vsnprint (take 128 (g_stack s)) 128 body of
       None \<Rightarrow> s
     | Some (len, msg) \<Rightarrow> atcmd_transmit (take (nat len) msg) s)"

definition msg_ok :: "'e atcmd \<Rightarrow> 'e atcmd" where
  "msg_ok s = (case atcmd_transmit_return (Some ''SFUSER'') ATCMD_SUCCESS s of None \<Rightarrow> s | Some s1 \<Rightarrow> s1)"

definition sf_user_read :: "'f flash_api \<Rightarrow> u32 \<Rightarrow> u32 \<Rightarrow> ('f, 'z) basic \<Rightarrow> int \<times> ('f, 'z) basic" where
  "sf_user_read A offset len s =
    (if \<not> be_mem (g_env s) then (ATCMD_ERROR_FAIL, s)
     else
       (case user_read A offset len (be_flash (g_env s)) of (ret, data) \<Rightarrow>
         if ret \<noteq> 0 then (ATCMD_ERROR_FAIL, s)
         else
           (let buffer = memcpy_at (replicate ATCMD_DATA_LEN_MAX NUL) 0 data;
                s1 = msg_line (''RXD_SFUSER:'' @ fmt_d offset @ '','' @ fmt_d len) (msg_ok s)
            in (ATCMD_NO_RETURN, atcmd_transmit (take (unat len) buffer) s1))))"

text \<open>Erasing a range: sector-sized pieces of \<open>0xff\<close>, until one fails.\<close>

function sf_erase_loop :: "'f flash_api \<Rightarrow> u32 \<Rightarrow> nat \<Rightarrow> nat \<Rightarrow> 'f \<Rightarrow> int \<times> 'f" where
  "sf_erase_loop A offset i len f =
    (if i \<ge> len then (ATCMD_SUCCESS, f)
     else
       (let len_erase = (if len - i > SF_SECTOR_SIZE then SF_SECTOR_SIZE else len - i)
        in case user_write A (offset + of_nat i) (replicate len_erase (CHR 0xff)) f of (ret, f1) \<Rightarrow>
             if ret \<noteq> 0 then (ATCMD_ERROR_FAIL, f1) else sf_erase_loop A offset (i + len_erase) len f1))"
  by pat_completeness auto

termination by (relation "measure (\<lambda>(A, offset, i, len, f). len - i)") (auto simp: SF_SECTOR_SIZE_def)

declare sf_erase_loop.simps [simp del]

definition sf_user_erase :: "'f flash_api \<Rightarrow> bool \<Rightarrow> u32 \<Rightarrow> u32 \<Rightarrow> ('f, 'z) basic \<Rightarrow> int \<times> ('f, 'z) basic" where
  "sf_user_erase A whole offset len s =
    (if whole then
       (case user_erase A (be_flash (g_env s)) of (ret, f) \<Rightarrow>
         (if ret \<noteq> 0 then ATCMD_ERROR_FAIL else ATCMD_SUCCESS, set_flash f s))
     else if \<not> be_mem (g_env s) then (ATCMD_ERROR_FAIL, s)
     else (case sf_erase_loop A offset 0 (unat len) (be_flash (g_env s)) of (ret, f) \<Rightarrow> (ret, set_flash f s)))"

definition sf_user_run ::
  "'f flash_api \<Rightarrow> bool \<Rightarrow> int \<Rightarrow> u32 \<Rightarrow> u32 \<Rightarrow> ('f, 'z) basic \<Rightarrow> int \<times> ('f, 'z) basic" where
  "sf_user_run A one mode offset len s =
    (if \<not> atcmd_sf_user_valid_params A mode offset len (be_flash (g_env s)) then (ATCMD_ERROR_INVAL, s)
     else if mode = SF_USER_READ then sf_user_read A offset len s
     else if mode = SF_USER_WRITE then
       (let p = (atcmd_data_mode_init_params ATCMD_DATA_SFUSER)
                  \<lparr>dm_len := len, dm_timeout := 1000, done_event := True, sfuser_offset := offset\<rparr>
        in case atcmd_data_mode_enable (Some p) s of (ret, s1) \<Rightarrow>
             (if ret \<noteq> 0 then ATCMD_ERROR_FAIL else ATCMD_SUCCESS, s1))
     else sf_user_erase A one offset len s)"

definition atcmd_basic_sf_user_set :: "'f flash_api \<Rightarrow> string list \<Rightarrow> ('f, 'z) basic \<Rightarrow> int \<times> ('f, 'z) basic" where
  "atcmd_basic_sf_user_set A argv s =
    (let f = be_flash (g_env s); err = be_errno (g_env s)
     in if \<not> atcmd_sf_user_support A f then (ATCMD_ERROR_NOTSUPP, s)
        else if argv = [] then (ATCMD_SUCCESS, msg_put ''AT+SFUSER=<mode>[,<offset>,<length>]'' s)
        else if length argv = 3 then
          (case two_uint32 err (argv ! 1) (argv ! 2) of
             (None, err1) \<Rightarrow> (ATCMD_ERROR_INVAL, set_errno err1 s)
           | (Some (offset, len), err1) \<Rightarrow>
               (case t_atoi err1 (argv ! 0) of (mode, err2) \<Rightarrow> sf_user_run A False mode offset len (set_errno err2 s)))
        else if length argv = 1 then
          (case t_atoi err (argv ! 0) of (mode, err1) \<Rightarrow>
             (if mode = SF_USER_ERASE then sf_user_run A True mode 0 (user_size A f) (set_errno err1 s)
              else sf_user_run A True mode (NOT 0) (NOT 0) (set_errno err1 s)))
        else (ATCMD_ERROR_INVAL, s))"

subsection \<open>The factory area\<close>

definition atcmd_basic_sf_sys_user_get :: "'f flash_api \<Rightarrow> string list \<Rightarrow> ('f, 'z) basic \<Rightarrow> int \<times> ('f, 'z) basic" where
  "atcmd_basic_sf_sys_user_get A argv s =
    (if argv \<noteq> [] then (ATCMD_ERROR_INVAL, s)
     else (case factory_info A (be_flash (g_env s)) of (ret, addr, sz) \<Rightarrow>
       if ret \<noteq> 0 then (ATCMD_ERROR_NOTSUPP, s)
       else (ATCMD_SUCCESS, msg_put (''SFSYSUSER:'' @ fmt_X addr @ '','' @ fmt_u sz) s)))"

text \<open>The size is passed on as \<open>uint16_t\<close>; the block leaves the buffer that was read at \<open>offset\<close>.\<close>

definition sf_sys_user_read :: "'f flash_api \<Rightarrow> u32 \<Rightarrow> u32 \<Rightarrow> u32 \<Rightarrow> ('f, 'z) basic \<Rightarrow> int \<times> ('f, 'z) basic" where
  "sf_sys_user_read A sz offset len s =
    (if \<not> be_mem (g_env s) then (ATCMD_ERROR_FAIL, s)
     else
       (case factory_read A (ucast sz) (be_flash (g_env s)) of (ret, buf) \<Rightarrow>
         if ret \<noteq> 0 then (ATCMD_ERROR_FAIL, s)
         else
           (let s1 = msg_line (''RXD_SFSYSUSER:'' @ fmt_u offset @ '','' @ fmt_u len) (msg_ok s)
            in (ATCMD_NO_RETURN, atcmd_transmit (take (unat len) (drop (unat offset) buf)) s1))))"

definition atcmd_basic_sf_sys_user_set :: "'f flash_api \<Rightarrow> string list \<Rightarrow> ('f, 'z) basic \<Rightarrow> int \<times> ('f, 'z) basic" where
  "atcmd_basic_sf_sys_user_set A argv s =
    (case factory_info A (be_flash (g_env s)) of (ret, addr, sz0) \<Rightarrow>
      (let sz = (if ret = 0 then sz0 else 0); n = length argv
       in if sz = 0 then (ATCMD_ERROR_NOTSUPP, s)
          else if n = 0 then (ATCMD_SUCCESS, msg_put ''AT+SFSYSUSER=<offset>,<length>'' s)
          else if n > 2 then (ATCMD_ERROR_INVAL, s)
          else
            (case (if n = 2 then atcmd_param_to_uint32 (be_errno (g_env s)) (Some (argv ! 1))
                   else (Some 1, be_errno (g_env s))) of
               (None, err) \<Rightarrow> (ATCMD_ERROR_INVAL, set_errno err s)
             | (Some l, err) \<Rightarrow>
                 if n = 2 \<and> (of_int l = (0 :: u32) \<or> of_int l > sz) then (ATCMD_ERROR_INVAL, set_errno err s)
                 else
                   (case atcmd_param_to_uint32 err (Some (argv ! 0)) of
                      (None, err1) \<Rightarrow> (ATCMD_ERROR_INVAL, set_errno err1 s)
                    | (Some off, err1) \<Rightarrow>
                        (let s1 = set_errno err1 s; offset = of_int off :: u32;
                             len = (if n = 1 then sz - offset else of_int l)
                         in if offset \<ge> sz then (ATCMD_ERROR_INVAL, s1)
                            else if offset + len \<le> sz then sf_sys_user_read A sz offset len s1
                            else (ATCMD_ERROR_INVAL, s1))))))"

subsection \<open>The module as a set of handlers and consumers\<close>

text \<open>The addresses of the \<open>atcmd_info_t\<close> objects of the commands.\<close>

record basic_ids =
  ai_fw_update :: addr
  ai_fw_download :: addr
  ai_sf_user :: addr
  ai_sf_sys_user :: addr

text \<open>\<open>H\<close> are the handlers of the other commands.  A NULL handler is not called by the dispatcher.\<close>

definition basic_handlers ::
  "'f flash_api \<Rightarrow> basic_ids \<Rightarrow> ('f, 'z) basic_env_scheme handlers \<Rightarrow> ('f, 'z) basic_env_scheme handlers" where
  "basic_handlers A ids H a t argv s =
    (if a = ai_fw_update ids then
       (case t of ATCMD_HANDLER_RUN \<Rightarrow> atcmd_basic_firmware_update_run A s
        | ATCMD_HANDLER_GET \<Rightarrow> atcmd_basic_firmware_update_get argv s
        | ATCMD_HANDLER_SET \<Rightarrow> atcmd_basic_firmware_update_set A argv s)
     else if a = ai_fw_download ids then
       (case t of ATCMD_HANDLER_RUN \<Rightarrow> (ATCMD_ERROR_NOTSUPP, s)
        | ATCMD_HANDLER_GET \<Rightarrow> atcmd_basic_firmware_download_get argv s
        | ATCMD_HANDLER_SET \<Rightarrow> atcmd_basic_firmware_download_set argv s)
     else if a = ai_sf_user ids then
       (case t of ATCMD_HANDLER_RUN \<Rightarrow> (ATCMD_ERROR_NOTSUPP, s)
        | ATCMD_HANDLER_GET \<Rightarrow> atcmd_basic_sf_user_get A argv s
        | ATCMD_HANDLER_SET \<Rightarrow> atcmd_basic_sf_user_set A argv s)
     else if a = ai_sf_sys_user ids then
       (case t of ATCMD_HANDLER_RUN \<Rightarrow> (ATCMD_ERROR_NOTSUPP, s)
        | ATCMD_HANDLER_GET \<Rightarrow> atcmd_basic_sf_sys_user_get A argv s
        | ATCMD_HANDLER_SET \<Rightarrow> atcmd_basic_sf_sys_user_set A argv s)
     else H a t argv s)"

text \<open>\<open>C\<close> are the consumers of socket data.\<close>

definition basic_consumers ::
  "'f flash_api \<Rightarrow> ('f, 'z) basic_env_scheme consumers \<Rightarrow> ('f, 'z) basic_env_scheme consumers" where
  "basic_consumers A C =
    \<lparr>send = (\<lambda>k buf s. case k of
        SocketSend i \<Rightarrow> send C k buf s
      | FirmwareDownload \<Rightarrow> atcmd_firmware_download A buf s
      | SfUserWrite offset \<Rightarrow> atcmd_sf_user_write A offset buf s),
     event = (\<lambda>e s. if basic_event_text e = None then event C e s else snd (atcmd_basic_event_handler e s))\<rparr>"

subsection \<open>Registering the commands\<close>

text \<open>The loops over the array of the group's commands.\<close>

fun info_register_all :: "nat \<Rightarrow> addr list \<Rightarrow> registry \<Rightarrow> (int \<times> registry) option" where
  "info_register_all gid [] r = Some (0, r)"
| "info_register_all gid (x # xs) r =
    (case atcmd_info_register gid x r of
       None \<Rightarrow> None
     | Some (ret, r1) \<Rightarrow> if ret \<noteq> 0 then Some (-1, r1) else info_register_all gid xs r1)"

definition atcmd_basic_enable :: "addr \<Rightarrow> addr list \<Rightarrow> registry \<Rightarrow> (int \<times> registry) option" where
  "atcmd_basic_enable g xs r =
    (case atcmd_group_register g r of
       None \<Rightarrow> None
     | Some (ret, r1) \<Rightarrow> if ret \<noteq> 0 then Some (-1, r1) else info_register_all 0 xs r1)"

fun info_unregister_all :: "nat \<Rightarrow> addr list \<Rightarrow> registry \<Rightarrow> registry option" where
  "info_unregister_all gid [] r = Some r"
| "info_unregister_all gid (x # xs) r =
    Option.bind (atcmd_info_unregister gid (c_id (infos r x)) r) (info_unregister_all gid xs)"

definition atcmd_basic_disable :: "addr list \<Rightarrow> registry \<Rightarrow> registry option" where
  "atcmd_basic_disable xs r =
    Option.bind (info_unregister_all 0 xs r) (\<lambda>r1. map_option snd (atcmd_group_unregister 0 r1))"

end
