(* ===== verification/AtcmdBasicProps.thy ===== *)
theory AtcmdBasicProps
  imports AtcmdBasic AtcmdServe
begin

text \<open>
  Properties of the flash commands: the module keeps the contracts the command processor and the data
  mode rely on, the firmware image is stored and checked, and the limits of both.
\<close>

subsection \<open>Printing\<close>

lemma transmit_Nil: "atcmd_transmit [] s = s"
  by (simp add: atcmd_transmit_def)

lemma msg_print_transmits: "atcmd_msg_print b s = Some s' \<Longrightarrow> \<exists>t. s' = atcmd_transmit t s"
  by (auto simp: atcmd_msg_print_def split: option.splits if_splits)

lemma msg_put_transmits: "\<exists>t. msg_put b s = atcmd_transmit t s"
  using msg_print_transmits [of b s] transmit_Nil [of s, symmetric]
  by (cases "atcmd_msg_print b s") (auto simp: msg_put_def)

lemma msg_line_transmits: "\<exists>t. msg_line b s = atcmd_transmit t s"
  using transmit_Nil [of s, symmetric] by (auto simp: msg_line_def split: option.split)

lemma msg_put_prints:
  assumes "shared_ok s" and "length b \<le> 124"
  shows "msg_put b s = atcmd_transmit (''+'' @ b @ [CR, LF]) s"
  using msg_print_fits [of s b] assms by (simp add: msg_put_def shared_ok_def)

lemma msg_ok_eq: "msg_ok s = atcmd_data_mode_continue (atcmd_transmit (''OK'' @ [CR, LF]) s)"
  by (simp add: msg_ok_def atcmd_transmit_return_def ATCMD_SUCCESS_def)

lemma msg_line_prints:
  assumes "shared_ok s" and "length b \<le> 124"
  shows "msg_line b s = atcmd_transmit (''+'' @ b @ [CR, LF]) s"
proof -
  let ?buf = "take 128 (g_stack s)"
  let ?L = "length b"
  define b1 where "b1 = memcpy_at ?buf 0 (''+'' @ [NUL])"
  define b2 where "b2 = memcpy_at b1 1 (b @ [NUL])"
  define b3 where "b3 = memcpy_at b2 (1 + ?L) ([CR, LF] @ [NUL])"
  have g: "length ?buf = 128" using assms by (simp add: shared_ok_def)
  have l: "length b1 = 128" "length b2 = 128" "length b3 = 128"
    using assms g by (simp_all add: b1_def b2_def b3_def)
  have "snprintf_at ?buf 0 128 ''+'' = Some b1" using g snprintf_at_fits [of "''+''" 128 0 ?buf] by (simp add: b1_def)
  moreover have "snprintf_at b1 1 127 b = Some b2"
    using assms l snprintf_at_fits [of b 127 1 b1] by (simp add: b2_def)
  moreover have "snprintf_at b2 (1 + int ?L) (128 - (1 + int ?L)) [CR, LF] = Some b3"
    using assms l snprintf_at_fits [of "[CR, LF]" "128 - (1 + int ?L)" "1 + int ?L" b2]
    by (auto simp: b3_def nat_add_distrib)
  ultimately have "atcmd_msg_vsnprint ?buf 128 b = Some (int ?L + 3, b3)"
    by (simp add: atcmd_msg_vsnprint_def Let_def add.commute)
  moreover have "take (nat (int ?L + 3)) b3 = ''+'' @ b @ [CR, LF]"
    using assms g by (simp add: b3_def b2_def b1_def memcpy_at_def take_Cons' nat_add_distrib numeral_3_eq_3)
  ultimately show ?thesis by (simp add: msg_line_def)
qed

subsection \<open>The contracts\<close>

text \<open>
  \<open>calm s r\<close>: the result is a C \<open>int\<close>, the stack buffer, registry and configuration are as before, and
  the data mode is untouched or entered soundly.
\<close>

definition calm :: "'e atcmd \<Rightarrow> int \<times> 'e atcmd \<Rightarrow> bool" where
  "calm s r \<longleftrightarrow> - (2 ^ 31) \<le> fst r \<and> fst r < 2 ^ 31 \<and> g_stack (snd r) = g_stack s \<and>
     g_registry (snd r) = g_registry s \<and> (\<not> dm_enable (g_data_mode s) \<longrightarrow> dm_ok (g_data_mode (snd r)))"

lemma calm_same:
  assumes "- (2 ^ 31) \<le> r" and "r < 2 ^ 31" and "g_stack t = g_stack s" and "g_registry t = g_registry s"
    and "g_data_mode t = g_data_mode s"
  shows "calm s (r, t)"
  using assms by (simp add: calm_def dm_ok_def)

lemmas result_codes = ATCMD_SUCCESS_def ATCMD_NO_RETURN_def ATCMD_ERROR_INVAL_def ATCMD_ERROR_BUSY_def
  ATCMD_ERROR_FAIL_def ATCMD_ERROR_NOTSUPP_def

lemma stack_frame [simp]:
  "g_stack (atcmd_transmit t s) = g_stack s" "g_stack (atcmd_data_mode_continue s) = g_stack s"
  "g_stack (set_flash f b) = g_stack b" "g_stack (set_errno e b) = g_stack b"
  "g_registry (set_flash f b) = g_registry b" "g_registry (set_errno e b) = g_registry b"
  "g_data_mode (set_flash f b) = g_data_mode b" "g_data_mode (set_errno e b) = g_data_mode b"
  "g_out (set_flash f b) = g_out b" "g_out (set_errno e b) = g_out b"
  "g_env (set_errno e b) = (g_env b)\<lparr>be_errno := e\<rparr>" "g_env (set_flash f b) = (g_env b)\<lparr>be_flash := f\<rparr>"
  by (simp_all add: atcmd_transmit_def atcmd_data_mode_continue_def atcmd_data_mode_task_resume_def set_flash_def set_errno_def)

lemma msg_put_frame [simp]:
  "g_stack (msg_put b s) = g_stack s" "g_registry (msg_put b s) = g_registry s"
  "g_data_mode (msg_put b s) = g_data_mode s" "g_env (msg_put b s) = g_env s"
  using msg_put_transmits [of b s] by auto

lemma msg_line_frame [simp]:
  "g_stack (msg_line b s) = g_stack s" "g_registry (msg_line b s) = g_registry s"
  "g_data_mode (msg_line b s) = g_data_mode s" "g_env (msg_line b s) = g_env s"
  using msg_line_transmits [of b s] by auto

lemma msg_ok_frame [simp]: "g_stack (msg_ok s) = g_stack s" "g_registry (msg_ok s) = g_registry s" "g_env (msg_ok s) = g_env s"
  by (simp_all add: msg_ok_eq)

lemma timeout_infos_frame [simp]:
  "g_stack (timeout_infos ts s) = g_stack s \<and> g_registry (timeout_infos ts s) = g_registry s \<and>
   g_data_mode (timeout_infos ts s) = g_data_mode s"
  by (induction ts s rule: timeout_infos.induct) simp_all

lemma calm_codes [simp]:
  assumes "g_stack t = g_stack s" and "g_registry t = g_registry s" and "g_data_mode t = g_data_mode s"
  shows "calm s (ATCMD_SUCCESS, t)" "calm s (ATCMD_ERROR_INVAL, t)" "calm s (ATCMD_ERROR_BUSY, t)"
    "calm s (ATCMD_ERROR_FAIL, t)" "calm s (ATCMD_ERROR_NOTSUPP, t)" "calm s (ATCMD_NO_RETURN, t)"
  by (rule calm_same; use assms in \<open>simp add: result_codes\<close>)+

lemma calm_apply:
  assumes "g_stack t = g_stack s" and "g_registry t = g_registry s" and "g_data_mode t = g_data_mode s"
  shows "calm s (fw_update_apply A p t)"
  using assms by (cases p) (simp add: fw_update_apply_def Let_def)

lemma calm_update_run: "calm s (atcmd_basic_firmware_update_run A s)"
  by (simp add: atcmd_basic_firmware_update_run_def Let_def)

lemma calm_update_get: "calm s (atcmd_basic_firmware_update_get argv s)"
  by (simp add: atcmd_basic_firmware_update_get_def)

lemma calm_update_set: "calm s (atcmd_basic_firmware_update_set A argv s)"
proof (cases "fw_update_params argv (be_errno (g_env s))")
  case (Pair p err)
  show ?thesis
    by (cases p) (simp_all add: atcmd_basic_firmware_update_set_def Pair Let_def calm_apply split: prod.split)
qed

text \<open>Entering the data mode with a length within its buffer.\<close>

lemma calm_enable:
  assumes "dm_len p = n" and "n \<noteq> 0" and "unat n \<le> ATCMD_DATA_LEN_MAX" and "exit_cmd p = None"
    and "data_type p \<noteq> ATCMD_DATA_SSEND"
    and "g_stack t = g_stack s" "g_registry t = g_registry s" "g_data_mode t = g_data_mode s"
  shows "calm s (case atcmd_data_mode_enable (Some p) t of (ret, u) \<Rightarrow> (if ret \<noteq> 0 then ATCMD_ERROR_FAIL else ATCMD_SUCCESS, u))"
  using assms by (auto simp: calm_def atcmd_data_mode_enable_def dm_ok_def effective_pass_def word_gt_0 result_codes EBUSY_def EINVAL_def)

lemma init_params_sel [simp]:
  "data_type (atcmd_data_mode_init_params t) = t" "exit_cmd (atcmd_data_mode_init_params t) = None"
  "dm_id (atcmd_data_mode_init_params t) = -1" "passthrough (atcmd_data_mode_init_params t) = False"
  by (simp_all add: atcmd_data_mode_init_params_def)

lemma calm_download_get: "calm s (atcmd_basic_firmware_download_get argv s)"
  by (simp add: atcmd_basic_firmware_download_get_def)

lemma calm_download_set: "calm s (atcmd_basic_firmware_download_set argv s)"
proof (cases "two_uint32 (be_errno (g_env s)) (argv ! 0) (argv ! 1)")
  case (Pair p err)
  show ?thesis
  proof (cases p)
    case (Some q)
    obtain offset n where q: "q = (offset, n)" by (cases q)
    show ?thesis unfolding atcmd_basic_firmware_download_set_def Pair Some q prod.case option.case Let_def
      by (auto intro!: calm_enable)
  next
    case None
    show ?thesis unfolding atcmd_basic_firmware_download_set_def Pair None prod.case option.case by simp
  qed
qed

lemma calm_sf_get: "calm s (atcmd_basic_sf_user_get A argv s)" "calm s (atcmd_basic_sf_sys_user_get A argv s)"
  by (simp_all add: atcmd_basic_sf_user_get_def atcmd_basic_sf_sys_user_get_def Let_def split: prod.split)

text \<open>The reading commands answer themselves.\<close>

lemma calm_block:
  assumes "g_stack t = g_stack s" and "g_registry t = g_registry s" and "g_data_mode t = g_data_mode s"
  shows "calm s (ATCMD_NO_RETURN, atcmd_transmit d (msg_line b (msg_ok t)))"
proof -
  have "\<not> dm_enable (g_data_mode s) \<Longrightarrow> dm_ok (g_data_mode (msg_ok t))"
    using assms by (simp add: msg_ok_eq dm_ok_def continue_dm)
  then show ?thesis using assms by (simp add: calm_def result_codes)
qed

lemma erase_loop_result: "fst (sf_erase_loop A offset i len f) \<in> {ATCMD_SUCCESS, ATCMD_ERROR_FAIL}"
proof (induction A offset i len f rule: sf_erase_loop.induct)
  case (1 A offset i len f)
  show ?case
    by (subst sf_erase_loop.simps) (use 1 in \<open>auto simp: Let_def split: prod.split\<close>)
qed

lemma calm_sf_run:
  assumes "g_stack t = g_stack s" and "g_registry t = g_registry s" and "g_data_mode t = g_data_mode s"
  shows "calm s (sf_user_run A one mode offset len t)"
proof (cases "atcmd_sf_user_valid_params A mode offset len (be_flash (g_env t))")
  case True
  have n: "mode = SF_USER_READ \<or> mode = SF_USER_WRITE \<Longrightarrow> len \<noteq> 0 \<and> unat len \<le> ATCMD_DATA_LEN_MAX"
    using True by (auto simp: atcmd_sf_user_valid_params_def Let_def ATCMD_DATA_LEN_MAX_def word_le_nat_alt not_less
        split: if_splits)
  have "fst (sf_erase_loop A offset 0 (unat len) (be_flash (g_env t))) \<in> {ATCMD_SUCCESS, ATCMD_ERROR_FAIL}"
    by (rule erase_loop_result)
  then have "calm s (sf_user_erase A one offset len t)"
    using assms by (auto simp: sf_user_erase_def split: prod.split)
  moreover have "calm s (sf_user_read A offset len t)"
    using assms by (simp add: sf_user_read_def Let_def calm_block split: prod.split)
  moreover have "mode = SF_USER_WRITE \<Longrightarrow> calm s (sf_user_run A one mode offset len t)"
    using True n assms by (simp add: sf_user_run_def Let_def SF_USER_READ_def SF_USER_WRITE_def)
      (auto intro: calm_enable)
  ultimately show ?thesis using True by (auto simp: sf_user_run_def)
qed (use assms in \<open>simp add: sf_user_run_def\<close>)

lemma calm_sf_set: "calm s (atcmd_basic_sf_user_set A argv s)"
  by (simp add: atcmd_basic_sf_user_set_def Let_def calm_sf_run split: prod.split option.split)

lemma calm_sys_read:
  assumes "g_stack t = g_stack s" and "g_registry t = g_registry s" and "g_data_mode t = g_data_mode s"
  shows "calm s (sf_sys_user_read A sz offset len t)"
  using assms by (simp add: sf_sys_user_read_def Let_def calm_block split: prod.split)

lemma calm_sys_set: "calm s (atcmd_basic_sf_sys_user_set A argv s)"
  by (simp add: atcmd_basic_sf_sys_user_set_def Let_def calm_sys_read split: prod.split option.split)

lemma calm_timeout: "calm s (atcmd_basic_timeout_get argv s)" "calm s (atcmd_basic_timeout_set argv s)"
  by (simp_all add: atcmd_basic_timeout_get_def atcmd_basic_timeout_set_def Let_def split: prod.split option.split)

lemma basic_calm:
  assumes "calm s (H a t argv s)"
  shows "calm s (basic_handlers A ids H a t argv s)"
  using assms
  by (simp add: basic_handlers_def calm_update_run calm_update_get calm_update_set calm_download_get calm_download_set
      calm_sf_get calm_sf_set calm_sys_set split: atcmd_handler.split)

subsection \<open>Numbers as parameters\<close>

text \<open>The characters of the numbers the host formats.\<close>

definition num_char :: "char \<Rightarrow> bool" where
  "num_char c \<longleftrightarrow> is_digit c \<or> 65 \<le> (of_char c :: nat) \<and> (of_char c :: nat) \<le> 70 \<or> c = CHR ''x''"

lemma num_char_kinds:
  assumes "num_char c"
  shows "plain c" "param_char c" "printable c" "text_char c" "c \<noteq> CHR '',''"
proof -
  have r: "(of_char c :: nat) \<in> {48..57} \<union> {65..70} \<union> {120}" using assms by (auto simp: num_char_def is_digit_def)
  then show "plain c" by (auto simp: plain_def)
  then show "param_char c" "text_char c" "c \<noteq> CHR '',''" by (auto simp: param_char_def plain_def text_char_def)
  show "printable c" using r by (auto simp: printable_def)
qed

lemma dec_nat_num [simp]: "list_all num_char (dec_nat n)"
  using dec_nat_digits [of n] by (auto simp: list_all_iff num_char_def)

lemma hex_digit_char: "d < 16 \<Longrightarrow> hex_digit (hex_char d) = Some (of_nat d) \<and> num_char (hex_char d)"
  by (auto simp: hex_digit_def hex_char_def num_char_def is_digit_def Let_def)

lemma hex_nat_digits: "list_all num_char (hex_nat n) \<and> (\<forall>c \<in> set (hex_nat n). hex_digit c \<noteq> None)"
proof (induction n rule: hex_nat.induct)
  case (1 n)
  then show ?case using hex_digit_char [of n] hex_digit_char [of "n mod 16"]
    by (subst (1 2) hex_nat.simps) auto
qed

lemma hex_nat_value: "hex_value (hex_nat n) = n"
proof (induction n rule: hex_nat.induct)
  case (1 n)
  show ?case
  proof (cases "n < 16")
    case True
    then show ?thesis using hex_digit_char [of n] by (subst hex_nat.simps) (simp add: hex_value_def unat_of_nat)
  next
    case False
    then show ?thesis using 1 hex_digit_char [of "n mod 16"]
      by (subst hex_nat.simps) (simp add: hex_value_def unat_of_nat)
  qed
qed

lemma hex_nat_length: "n < 16 ^ k \<Longrightarrow> 0 < k \<Longrightarrow> length (hex_nat n) \<le> k"
proof (induction k arbitrary: n)
  case (Suc k)
  show ?case
  proof (cases "n < 16")
    case False
    then have "n div 16 < 16 ^ k" "0 < k" using Suc.prems by (auto intro: gr0I)
    then show ?thesis using Suc.IH [of "n div 16"] False by (subst hex_nat.simps) simp
  qed (simp add: hex_nat.simps)
qed simp

lemma u32_lt: "unat (w :: u32) < 2 ^ 32"
  using unsigned_less [of w] by simp

lemma fmt_X_length: "length (fmt_X w) \<le> 10"
  using hex_nat_length [of "unat w" 8] u32_lt [of w] by (simp add: fmt_X_def)

lemma fmt_X_num [simp]: "list_all num_char (fmt_X w)"
  using hex_nat_digits [of "unat w"] by (simp add: fmt_X_def num_char_def is_digit_def)

lemma fmt_u_length: "length (fmt_u w) \<le> 10"
  using dec_nat_length [of "unat w" 10] u32_lt [of w] by (simp add: fmt_u_def)

lemma fmt_u_num [simp]: "list_all num_char (fmt_u w)"
  by (simp add: fmt_u_def)

text \<open>What the host prints with \<open>0x%X\<close> and \<open>%u\<close> the target reads back.\<close>

lemma param_hex_print: "atcmd_param_to_hex (fmt_X w) = (0, Some w)"
proof -
  have l: "length (hex_nat (unat w)) \<le> 8" using fmt_X_length [of w] by (simp add: fmt_X_def)
  then have "fst (atcmd_param_to_hex (fmt_X w)) = 0"
    using param_hex_accepts [of "fmt_X w"] hex_nat_digits [of "unat w"] by (auto simp: fmt_X_def)
  moreover have "map_option unat (snd (atcmd_param_to_hex (fmt_X w))) = Some (unat w)"
    using param_hex_accepts [of "fmt_X w"] calculation by (simp add: fmt_X_def hex_nat_value)
  ultimately show ?thesis by (cases "atcmd_param_to_hex (fmt_X w)") (auto simp: word_unat_eq_iff)
qed

lemma param_uint_print:
  assumes "n < 2 ^ 31"
  shows "atcmd_param_to_uint32 e (Some (dec_nat n)) = (Some (int n), e)"
proof -
  have "int n mod 4294967296 = int n" using assms by simp
  then show ?thesis using assms strtol_dec_nat [of n] dec_nat_head [of n]
    by (simp add: atcmd_param_to_uint32_def atcmd_param_to_uint_def LONG_MAX_def Let_def)
qed

lemma two_uint_print:
  assumes "m < 2 ^ 31" and "n < 2 ^ 31"
  shows "two_uint32 e (dec_nat m) (dec_nat n) = (Some (of_nat m, of_nat n), e)"
  using param_uint_print [OF assms(1), of e] param_uint_print [OF assms(2), of e] by (simp add: two_uint32_def)

lemma atoi_print: "n < 2 ^ 31 \<Longrightarrow> t_atoi e (dec_nat n) = (int n, e)"
  using strtol_dec_nat [of n] by (simp add: t_atoi_def LONG_MAX_def)

subsection \<open>Storing firmware\<close>

lemma firmware_write_verified:
  assumes "firmware_write A v off buf f = (0, f1)" and "v > 0"
  shows "fst (fota_read A off (length buf) f1) = 0 \<and> take (length buf) (snd (fota_read A off (length buf) f1)) = buf"
  using assms by (auto simp: firmware_write_def atcmd_firmware_verify_def split: prod.splits if_splits)

lemma download_result:
  "\<exists>ret f1. atcmd_firmware_download A buf s =
     (if ret = 0 then int (length buf) else 0,
      s\<lparr>g_env := (g_env s)\<lparr>be_flash := f1, fw_download := fw_download (g_env s) + (if ret = (0::int) then of_nat (length buf) else 0)\<rparr>\<rparr>) \<and>
     (ret = 0 \<longrightarrow> (\<exists>f0. firmware_write A (fw_verify (g_env s)) (fw_download (g_env s)) buf f0 = (0, f1)))"
proof -
  let ?w = "firmware_write A (fw_verify (g_env s)) (fw_download (g_env s)) buf"
  obtain r1 f1 where 1: "?w (be_flash (g_env s)) = (r1, f1)" by fastforce
  obtain r2 f2 where 2: "fota_erase A (fw_download (g_env s)) (of_nat (length buf)) f1 = (r2, f2)" by fastforce
  obtain r3 f3 where 3: "?w f2 = (r3, f3)" by fastforce
  show ?thesis
  proof (cases "r1 = 0")
    case True
    then show ?thesis using 1 by (intro exI [of _ r1] exI [of _ f1]) (auto simp: atcmd_firmware_download_def Let_def)
  next
    case r1: False
    show ?thesis
    proof (cases "r2 = 0")
      case True
      then show ?thesis using 1 2 3 r1
        by (intro exI [of _ r3] exI [of _ f3]) (auto simp: atcmd_firmware_download_def Let_def)
    next
      case False
      then show ?thesis using 1 2 r1
        by (intro exI [of _ r2] exI [of _ f2]) (auto simp: atcmd_firmware_download_def Let_def)
    qed
  qed
qed

lemma handlers_of_calm: "calm s r \<Longrightarrow> shared_ok s \<Longrightarrow> shared_ok (snd r) \<and> - (2 ^ 31) \<le> fst r \<and> fst r < 2 ^ 31"
  by (simp add: calm_def shared_ok_def)

lemma download_frame:
  "g_stack (snd (atcmd_firmware_download A buf s)) = g_stack s"
  "g_registry (snd (atcmd_firmware_download A buf s)) = g_registry s"
  "g_data_mode (snd (atcmd_firmware_download A buf s)) = g_data_mode s"
  "g_out (snd (atcmd_firmware_download A buf s)) = g_out s"
  using download_result [of A buf s] by auto

lemma sf_write_frame:
  "g_stack (snd (atcmd_sf_user_write A off buf s)) = g_stack s"
  "g_registry (snd (atcmd_sf_user_write A off buf s)) = g_registry s"
  "g_data_mode (snd (atcmd_sf_user_write A off buf s)) = g_data_mode s"
  "g_out (snd (atcmd_sf_user_write A off buf s)) = g_out s"
  by (simp_all add: atcmd_sf_user_write_def split: prod.split)

lemma event_frame:
  "g_stack (snd (atcmd_basic_event_handler e s)) = g_stack s"
  "g_registry (snd (atcmd_basic_event_handler e s)) = g_registry s"
  "g_data_mode (snd (atcmd_basic_event_handler e s)) = g_data_mode s"
  "g_env (snd (atcmd_basic_event_handler e s)) = g_env s"
  by (simp_all add: atcmd_basic_event_handler_def split: option.split)

lemma basic_consumers_sound:
  assumes "consumers_ok C"
  shows "consumers_ok (basic_consumers A C)"
  using assms
  by (simp add: consumers_ok_def basic_consumers_def shared_ok_def download_frame sf_write_frame event_frame
      split: data_sink.split)

lemma basic_handlers_sound:
  assumes "handlers_ok H" and "handlers_dm_ok H"
  shows "handlers_ok (basic_handlers A ids H)" and "handlers_dm_ok (basic_handlers A ids H)"
proof -
  have own: "calm s (basic_handlers A ids H a t argv s)"
    if "a \<in> {ai_fw_update ids, ai_fw_download ids, ai_sf_user ids, ai_sf_sys_user ids}" for a t argv s
    using that by (auto simp: basic_handlers_def calm_update_run calm_update_get calm_update_set calm_download_get
        calm_download_set calm_sf_get calm_sf_set calm_sys_set split: atcmd_handler.split)
  have other: "basic_handlers A ids H a t argv s = H a t argv s"
    if "a \<notin> {ai_fw_update ids, ai_fw_download ids, ai_sf_user ids, ai_sf_sys_user ids}" for a t argv s
    using that by (simp add: basic_handlers_def)
  show "handlers_ok (basic_handlers A ids H)"
    unfolding handlers_ok_def
  proof (intro allI impI)
    fix a t argv and s :: "('a, 'b) basic" assume "shared_ok s"
    then show "shared_ok (snd (basic_handlers A ids H a t argv s)) \<and> - (2 ^ 31) \<le> fst (basic_handlers A ids H a t argv s) \<and>
        fst (basic_handlers A ids H a t argv s) < 2 ^ 31"
      using handlers_of_calm [OF own] other assms(1) unfolding handlers_ok_def by metis
  qed
  show "handlers_dm_ok (basic_handlers A ids H)"
    unfolding handlers_dm_ok_def
  proof (intro allI impI)
    fix a t argv and s :: "('a, 'b) basic" assume "\<not> dm_enable (g_data_mode s)"
    then show "dm_ok (g_data_mode (snd (basic_handlers A ids H a t argv s)))"
      using own [of a s t argv] other [of a t argv s] assms(2) unfolding handlers_dm_ok_def calm_def by metis
  qed
qed

subsection \<open>Registering the module\<close>

lemma info_register_frame:
  assumes "atcmd_info_register gid x r = Some (ret, r')"
  shows "groups r' = groups r" "infos r' = infos r" "group_head r' = group_head r"
  using assms by (auto simp: atcmd_info_register_def split: option.splits if_splits)

lemma register_all:
  assumes "reg_ok r U gs cs" and "g = find_addr (\<lambda>a. g_id (groups r a) = gid) gs" and "g \<noteq> 0"
    and "distinct xs" and "set xs \<inter> set (reg_nodes r U cs) = {}" and "0 \<notin> set xs"
  shows "\<exists>r'. info_register_all gid xs r = Some (0, r') \<and> reg_ok r' U gs (cs(g := rev xs @ cs g)) \<and>
    groups r' = groups r \<and> infos r' = infos r \<and> group_head r' = group_head r"
  using assms
proof (induction xs arbitrary: r cs)
  case (Cons x xs)
  obtain r1 where r1: "atcmd_info_register gid x r = Some (0, r1)" "reg_ok r1 U gs (cs(g := x # cs g))"
    using info_register_refines [OF Cons.prems(1) _ _ Cons.prems(2), of x] Cons.prems(3,5,6) by auto
  note fr = info_register_frame [OF r1(1)]
  have gU: "g \<in> set U" using Cons.prems(1-3) find_addr_in [of _ gs] by (auto simp: reg_ok_def)
  have nodes: "set (reg_nodes r1 U (cs(g := x # cs g))) \<subseteq> insert x (set (reg_nodes r U cs))"
    using gU by (auto simp: reg_nodes_def fr split: if_splits)
  let ?cs = "cs(g := x # cs g)"
  have g1: "g = find_addr (\<lambda>a. g_id (groups r1 a) = gid) gs" using Cons.prems(2) fr by simp
  have fresh: "set xs \<inter> set (reg_nodes r1 U ?cs) = {}" using nodes Cons.prems(4,5) by auto
  have xs: "distinct xs" "0 \<notin> set xs" using Cons.prems(4,6) by simp_all
  obtain r2 where r2: "info_register_all gid xs r1 = Some (0, r2)" "reg_ok r2 U gs (?cs(g := rev xs @ ?cs g))"
    "groups r2 = groups r1" "infos r2 = infos r1" "group_head r2 = group_head r1"
    using Cons.IH [OF r1(2) g1 Cons.prems(3) xs(1) fresh xs(2)] by blast
  have "?cs(g := rev xs @ ?cs g) = cs(g := rev (x # xs) @ cs g)" by simp
  then show ?case using r1(1) r2 fr by (simp add: fun_upd_def)
qed (auto simp: fun_upd_def)

end
