(* ===== verification/HostFirmware.thy ===== *)
theory HostFirmware
  imports Exchange AtcmdBasicProps
begin

text \<open>
  The firmware update over the AT commands: \<open>nrc_atcmd_firmware_download\<close> of
  \<open>raspi-atcmd-cli/nrc-atcmd.c\<close> on the host, \<open>AT+FWUPDATE\<close> and \<open>AT+FWBINDL\<close> of \<open>atcmd_basic.c\<close> on the
  target, and what the two together do.
\<close>

subsection \<open>The host's download\<close>

text \<open>The union of event flags; the callback ignores other events.\<close>

record dl_flags =
  dl_idle :: bool
  dl_drop :: bool
  dl_fail :: bool
  dl_done :: bool

definition no_flags :: dl_flags where
  "no_flags = \<lparr>dl_idle = False, dl_drop = False, dl_fail = False, dl_done = False\<rparr>"

definition firmware_download_event_callback :: "host_event \<Rightarrow> nat \<Rightarrow> string list \<Rightarrow> dl_flags \<Rightarrow> dl_flags" where
  "firmware_download_event_callback e n argv fl =
    (case e of
       ATCMD_BEVENT_FWBINDL_IDLE \<Rightarrow> fl\<lparr>dl_idle := True\<rparr>
     | ATCMD_BEVENT_FWBINDL_DROP \<Rightarrow> fl\<lparr>dl_drop := True\<rparr>
     | ATCMD_BEVENT_FWBINDL_FAIL \<Rightarrow> fl\<lparr>dl_fail := True\<rparr>
     | ATCMD_BEVENT_FWBINDL_DONE \<Rightarrow> fl\<lparr>dl_done := True\<rparr>
     | _ \<Rightarrow> fl)"

text \<open>
  What the download calls: \<open>nrc_atcmd_send_cmd\<close> and \<open>nrc_atcmd_send_data\<close>, and what happens in the
  other thread during one \<open>usleep\<close>.  \<open>'w\<close> is everything but the host's own variables.
\<close>

record 'w peer =
  p_cmd :: "string \<Rightarrow> 'w \<times> dl_flags host \<Rightarrow> (int \<times> 'w \<times> dl_flags host) option"
  p_data :: "string \<Rightarrow> 'w \<times> dl_flags host \<Rightarrow> (int \<times> 'w \<times> dl_flags host) option"
  p_sleep :: "'w \<times> dl_flags host \<Rightarrow> 'w \<times> dl_flags host"

partial_function (option) wait_event :: "'w peer \<Rightarrow> 'w \<times> dl_flags host \<Rightarrow> ('w \<times> dl_flags host) option" where
  "wait_event P x = (if h_env (snd x) \<noteq> no_flags then Some x else wait_event P (p_sleep P x))"

fun cmds_ok :: "'w peer \<Rightarrow> string list \<Rightarrow> 'w \<times> dl_flags host \<Rightarrow> (bool \<times> 'w \<times> dl_flags host) option" where
  "cmds_ok P [] x = Some (True, x)"
| "cmds_ok P (c # cs) x = do {
     (ret, y) \<leftarrow> p_cmd P c x;
     (if ret \<noteq> ATCMD_RET_OK then Some (False, y) else cmds_ok P cs y)
   }"

text \<open>One block; the result tells whether to go on.\<close>

definition download_block :: "'w peer \<Rightarrow> string \<Rightarrow> nat \<Rightarrow> nat \<Rightarrow> 'w \<times> dl_flags host \<Rightarrow> (bool \<times> 'w \<times> dl_flags host) option" where
  "download_block P bin offset len x = do {
     (ret, x1) \<leftarrow> p_cmd P (''AT+FWBINDL='' @ dec_nat offset @ '','' @ dec_nat len) (fst x, (snd x)\<lparr>h_env := no_flags\<rparr>);
     (if ret \<noteq> ATCMD_RET_OK then Some (False, x1)
      else do {
        (ret, x2) \<leftarrow> p_data P (take len (drop offset bin)) x1;
        (if ret \<noteq> 0 then Some (False, x2)
         else do {
           x3 \<leftarrow> wait_event P x2;
           (if dl_done (h_env (snd x3)) then Some (True, x3)
            else map_option (\<lambda>(ret, x4). (False, x4)) (p_cmd P ''AT'' x3))
         })
      })
   }"

function download_blocks :: "'w peer \<Rightarrow> string \<Rightarrow> nat \<Rightarrow> 'w \<times> dl_flags host \<Rightarrow> (bool \<times> 'w \<times> dl_flags host) option" where
  "download_blocks P bin offset x =
    (if offset \<ge> length bin then Some (True, x)
     else
       (let len = (if length bin - offset \<ge> 4096 then 4096 else length bin - offset)
        in do {
          (go, y) \<leftarrow> download_block P bin offset len x;
          (if go then download_blocks P bin (offset + len) y else Some (False, y))
        }))"
  by pat_completeness auto

termination by (relation "measure (\<lambda>(P, bin, offset, x). length bin - offset)") auto

declare download_blocks.simps [simp del]

definition nrc_atcmd_firmware_download ::
  "'w peer \<Rightarrow> string \<Rightarrow> u32 \<Rightarrow> nat \<Rightarrow> 'w \<times> dl_flags host \<Rightarrow> (int \<times> 'w \<times> dl_flags host) option" where
  "nrc_atcmd_firmware_download P bin crc verify x =
    (case nrc_atcmd_register_callback (CbEvent firmware_download_event_callback) (snd x) of (r, h) \<Rightarrow>
      if r \<noteq> 0 then Some (-1, x)
      else do {
        (ok, x1) \<leftarrow> cmds_ok P [''AT+FWUPDATE=0'',
            ''AT+FWUPDATE='' @ dec_nat (length bin) @ '','' @ fmt_X crc @ '','' @ dec_nat verify,
            ''AT+FWUPDATE?'', ''AT+FWBINDL?''] (fst x, h);
        (ok, x2) \<leftarrow> (if ok then download_blocks P bin 0 x1 else Some (False, x1));
        (ok, x3) \<leftarrow> (if ok then cmds_ok P [''AT+FWBINDL?'', ''AT+FWUPDATE?''] x2 else Some (False, x2));
        Some (if ok then 0 else -1, fst x3, snd (nrc_atcmd_unregister_callback ATCMD_CB_EVENT (snd x3)))
      })"

subsection \<open>The flash\<close>

text \<open>
  What the download relies on: an area \<open>img\<close> of \<open>fota_max_fw_size\<close> bytes, in which erased bytes read as
  \<open>0xff\<close> and a write of an erased range stores its bytes and nothing else.
\<close>

definition flash_ok :: "'f flash_api \<Rightarrow> ('f \<Rightarrow> nat \<Rightarrow> char) \<Rightarrow> bool" where
  "flash_ok A img \<longleftrightarrow>
    (\<forall>f off buf. unat off + length buf \<le> unat (fota_max_fw_size A f) \<longrightarrow>
       (\<forall>i < length buf. img f (unat off + i) = CHR 0xff) \<longrightarrow>
       (\<exists>f'. fota_write A off buf f = (0, f') \<and> fota_max_fw_size A f' = fota_max_fw_size A f \<and>
          (\<forall>j. img f' j = (if unat off \<le> j \<and> j < unat off + length buf then buf ! (j - unat off) else img f j)))) \<and>
    (\<forall>f off n. unat off + n \<le> unat (fota_max_fw_size A f) \<longrightarrow>
       fota_read A off n f = (0, map (img f) [unat off..<unat off + n])) \<and>
    (\<forall>f n. unat n \<le> unat (fota_max_fw_size A f) \<longrightarrow>
       (\<exists>f'. fota_erase A 0 n f = (0, f') \<and> fota_max_fw_size A f' = fota_max_fw_size A f \<and>
          (\<forall>i < unat n. img f' i = CHR 0xff))) \<and>
    (\<forall>f. fota_max_fw_size A (fota_erase_info A f) = fota_max_fw_size A f \<and> img (fota_erase_info A f) = img f)"

subsection \<open>The system\<close>

definition link_peer :: "'e handlers \<Rightarrow> 'e consumers \<Rightarrow> (dl_flags \<Rightarrow> bool) \<Rightarrow> 'e target peer" where
  "link_peer H C M = \<lparr>p_cmd = exchange_cmd H C M, p_data = exchange_data H C M, p_sleep = (\<lambda>x. x)\<rparr>"

definition fw_registered :: "basic_ids \<Rightarrow> addr list \<Rightarrow> (addr \<Rightarrow> addr list) \<Rightarrow> registry \<Rightarrow> bool" where
  "fw_registered ids gs cs r \<longleftrightarrow>
     lookup_command r cs ''FWUPDATE'' gs = ai_fw_update ids \<and> lookup_command r cs ''FWBINDL'' gs = ai_fw_download ids \<and>
     ai_fw_update ids \<noteq> 0 \<and> ai_fw_download ids \<noteq> 0 \<and> ai_fw_update ids \<noteq> ai_fw_download ids \<and>
     (\<forall>t. c_handler (infos r (ai_fw_update ids)) t) \<and>
     (\<forall>t. c_handler (infos r (ai_fw_download ids)) t \<longleftrightarrow> t \<noteq> ATCMD_HANDLER_RUN)"

text \<open>The target at rest, outside the data mode, with the module's variables \<open>e\<close>.\<close>

definition fw_rest ::
  "basic_ids \<Rightarrow> addr list \<Rightarrow> addr list \<Rightarrow> (addr \<Rightarrow> addr list) \<Rightarrow> ('f, 'z) basic_env_scheme target \<Rightarrow> ('f, 'z) basic_env_scheme \<Rightarrow> bool"
where
  "fw_rest ids U gs cs t e \<longleftrightarrow> target_rest U gs cs t \<and> \<not> dm_enable (g_data_mode (snd (snd t))) \<and>
     fw_registered ids gs cs (g_registry (snd (snd t))) \<and> g_env (snd (snd t)) = e"

lemma effect_cb_event: "cb_event (host_effect m h) = cb_event h"
  by (cases m) (simp_all add: data_effect_def call_def nrc_atcmd_set_return_def nrc_atcmd_set_ready_def split: option.split)

lemma effects_cb_event: "cb_event (fold host_effect ms h) = cb_event h"
  by (induction ms arbitrary: h) (simp_all add: effect_cb_event)

lemma init_return_cb [simp]: "cb_event (nrc_atcmd_init_return h) = cb_event h" "h_env (nrc_atcmd_init_return h) = h_env h"
  by (simp_all add: nrc_atcmd_init_return_def)

lemma continue_off: "\<not> dm_enable (g_data_mode s) \<Longrightarrow> atcmd_data_mode_continue s = s"
  by (simp add: atcmd_data_mode_continue_def)

lemma set_params_ok:
  assumes "ps \<noteq> []" and "length ps \<le> 10" and "\<forall>p \<in> set ps. p \<noteq> [] \<and> list_all num_char p"
    and "list_all plain name" and "list_all printable name" and "map upper_char name = name"
    and "length (name @ ''='' @ join_params ps) \<le> 123"
  shows "line_ok (''AT+'' @ name @ ''='' @ join_params ps)"
    and "atcmd_parse ((name @ ''='' @ join_params ps) @ [LF] @ z) = Parsed (Some ATCMD_HANDLER_SET) (name # ps)"
proof -
  have pc: "list_all (list_all param_char) ps" and pr: "list_all (list_all printable) ps"
    using assms(3) by (auto simp: list_all_iff dest: num_char_kinds)
  have "list_all printable (join_params ps)"
    using pr by (induction ps rule: join_params.induct) (auto simp: printable_def)
  then show "line_ok (''AT+'' @ name @ ''='' @ join_params ps)"
    using assms(5,7) by (simp add: line_ok_def) (simp add: printable_def)
  show "atcmd_parse ((name @ ''='' @ join_params ps) @ [LF] @ z) = Parsed (Some ATCMD_HANDLER_SET) (name # ps)"
    using parse_set [OF assms(4,1) _ assms(2) pc, of "[LF]" z] assms(1,3,6) by (simp add: eol_ok_def)
qed

text \<open>A command of the module that leaves the data mode alone and prints the messages \<open>ms\<close>.\<close>

lemma fw_exchange:
  assumes t: "fw_rest ids U gs cs (ed, rx, s) e" and h: "host_rest h" and M: "\<And>e. M e"
    and H: "handlers_ok (basic_handlers A ids H)"
    and w: "line_ok (''AT+'' @ c)" "2 \<le> length c" "length c \<le> 123"
    and p: "\<And>r. atcmd_parse (c @ [LF] @ r) = Parsed (Some ty) (name # args)"
    and name: "name = ''FWUPDATE'' \<and> a = ai_fw_update ids \<or> name = ''FWBINDL'' \<and> a = ai_fw_download ids \<and> ty \<noteq> ATCMD_HANDLER_RUN"
    and c: "take 2 c = ''FW''"
    and call: "basic_handlers A ids H a ty args (s\<lparr>g_prompt_enter := False\<rparr>) = (0, s1)"
    and out: "g_out s1 = concat (map encode ms)" "\<forall>m \<in> set ms. host_msg_ok m"
    and keep: "g_registry s1 = g_registry s" "g_config s1 = g_config s"
  shows "\<exists>ed' h'. exchange_cmd (basic_handlers A ids H) C M (''AT+'' @ c) ((ed, rx, s), h) =
      Some (ATCMD_RET_OK, (ed', rx, (atcmd_prompt_enter (answered name 0 s1))\<lparr>g_out := []\<rparr>), h') \<and>
    target_rest U gs cs (ed', rx, (atcmd_prompt_enter (answered name 0 s1))\<lparr>g_out := []\<rparr>) \<and> host_rest h' \<and>
    cb_event h' = cb_event h \<and> (ms = [] \<longrightarrow> h_env h' = h_env h)"
proof -
  have T: "target_rest U gs cs (ed, rx, s)" "\<not> dm_enable (g_data_mode s)" "fw_registered ids gs cs (g_registry s)"
    using t by (simp_all add: fw_rest_def)
  obtain c' where c': "c = ''FW'' @ c'" using c by (metis append_take_drop_id)
  have wait: "snd (wait_setup ((''AT+'' @ c) @ [CR, LF]) (nrc_atcmd_init_return h)) = nrc_atcmd_init_return h"
    by (simp add: wait_setup_def c')
  have reg: "lookup_command (g_registry s) cs name gs = a" "a \<noteq> 0" "c_handler (infos (g_registry s) a) ty"
    using T(3) name by (auto simp: fw_registered_def)
  have ans: "\<forall>m \<in> set (answer_msgs name 0). host_msg_ok m" by (simp add: answer_msgs_def)
  obtain ed' h' where r: "exchange_cmd (basic_handlers A ids H) C M (''AT+'' @ c) ((ed, rx, s), h) =
      Some (ATCMD_RET_OK, (ed', rx, (atcmd_prompt_enter (answered name 0 s1))\<lparr>g_out := []\<rparr>), h')"
    "target_rest U gs cs (ed', rx, (atcmd_prompt_enter (answered name 0 s1))\<lparr>g_out := []\<rparr>)" "host_rest h'"
    "frame h' = fold host_effect (ms @ answer_msgs name 0) (frame (nrc_atcmd_init_return h))"
    using exchange_command [where C = C and M = M, OF T(1,2) H h M w p wait reg call out _ ans keep] by auto
  have "cb_event h' = cb_event h" using arg_cong [OF r(4), of cb_event] by (simp add: effects_cb_event)
  moreover have "h_env h' = h_env h" if "ms = []"
    using arg_cong [OF r(4), of h_env] by (simp add: that answer_msgs_def nrc_atcmd_set_return_def)
  ultimately show ?thesis using r by blast
qed

lemma fw_simple:
  assumes t: "fw_rest ids U gs cs (ed, rx, s) e" and h: "host_rest h" and M: "\<And>e. M e"
    and H: "handlers_ok (basic_handlers A ids H)"
    and w: "line_ok (''AT+'' @ c)" "2 \<le> length c" "length c \<le> 123"
    and p: "\<And>r. atcmd_parse (c @ [LF] @ r) = Parsed (Some ty) (name # args)"
    and name: "name = ''FWUPDATE'' \<and> a = ai_fw_update ids \<or> name = ''FWBINDL'' \<and> a = ai_fw_download ids \<and> ty \<noteq> ATCMD_HANDLER_RUN"
    and c: "take 2 c = ''FW''"
    and call: "basic_handlers A ids H a ty args (s\<lparr>g_prompt_enter := False\<rparr>) = (0, s1)"
    and out: "g_out s1 = concat (map encode ms)" "\<forall>m \<in> set ms. host_msg_ok m"
    and keep: "g_registry s1 = g_registry s" "g_config s1 = g_config s" "g_data_mode s1 = g_data_mode s"
  shows "\<exists>t' h'. exchange_cmd (basic_handlers A ids H) C M (''AT+'' @ c) ((ed, rx, s), h) = Some (ATCMD_RET_OK, t', h') \<and>
    fw_rest ids U gs cs t' (g_env s1) \<and> host_rest h' \<and> cb_event h' = cb_event h"
proof -
  let ?s' = "(atcmd_prompt_enter (answered name 0 s1))\<lparr>g_out := []\<rparr>"
  from fw_exchange [where C = C and M = M, OF t h M H w p name c call out keep(1,2)] obtain ed' h' where
    r: "exchange_cmd (basic_handlers A ids H) C M (''AT+'' @ c) ((ed, rx, s), h) = Some (ATCMD_RET_OK, (ed', rx, ?s'), h')"
      "target_rest U gs cs (ed', rx, ?s')" "host_rest h'" "cb_event h' = cb_event h" by blast
  have "\<not> dm_enable (g_data_mode s1)" using t keep(3) by (simp add: fw_rest_def)
  then have "g_data_mode ?s' = g_data_mode s" using keep(3) by (simp add: answered_def Let_def continue_dm)
  moreover have "g_registry ?s' = g_registry s" "g_env ?s' = g_env s1" using keep by simp_all
  ultimately have "fw_rest ids U gs cs (ed', rx, ?s') (g_env s1)" using t r(2) by (simp add: fw_rest_def)
  then show ?thesis using r by blast
qed

lemma upper_names: "map upper_char ''FWUPDATE'' = ''FWUPDATE''" "map upper_char ''FWBINDL'' = ''FWBINDL''"
  by code_simp+

lemma fw_reset:
  assumes t: "fw_rest ids U gs cs t e" and h: "host_rest h" and M: "\<And>e. M e"
    and H: "handlers_ok (basic_handlers A ids H)"
  shows "\<exists>t' h'. exchange_cmd (basic_handlers A ids H) C M ''AT+FWUPDATE=0'' (t, h) = Some (ATCMD_RET_OK, t', h') \<and>
    fw_rest ids U gs cs t' (e\<lparr>fw_size := 0, fw_crc32 := 0, fw_download := 0, fw_verify := 0,
      be_flash := fota_erase_info A (be_flash e)\<rparr>) \<and> host_rest h' \<and> cb_event h' = cb_event h"
proof -
  obtain ed rx s where st: "t = (ed, rx, s)" by (cases t)
  have e: "g_env s = e" using t by (simp add: fw_rest_def st)
  let ?s1 = "s\<lparr>g_prompt_enter := False, g_env := e\<lparr>fw_size := 0, fw_crc32 := 0, fw_download := 0, fw_verify := 0,
      be_flash := fota_erase_info A (be_flash e)\<rparr>\<rparr>"
  have ps: "line_ok (''AT+'' @ ''FWUPDATE=0'')"
    "\<And>r. atcmd_parse (''FWUPDATE=0'' @ [LF] @ r) = Parsed (Some ATCMD_HANDLER_SET) (''FWUPDATE'' # [''0''])"
    using set_params_ok [where ps = "[''0'']", OF _ _ _ _ _ upper_names(1)]
    by (simp_all add: num_char_def is_digit_def plain_def printable_def)
  have d0: "dec_nat 0 = ''0''" by code_simp
  have "fw_update_params [''0''] err = (Some (0, 0, 0), err)" for err
    using param_uint_print [of 0 err] by (simp add: fw_update_params_def Let_def d0)
  then have call: "basic_handlers A ids H (ai_fw_update ids) ATCMD_HANDLER_SET [''0''] (s\<lparr>g_prompt_enter := False\<rparr>) = (0, ?s1)"
    by (simp add: basic_handlers_def atcmd_basic_firmware_update_set_def fw_update_apply_def Let_def e set_errno_def result_codes)
  have "g_out ?s1 = concat (map encode [])" using t by (simp add: fw_rest_def target_rest_def st)
  from fw_simple [where C = C and M = M and a = "ai_fw_update ids" and ms = "[]", OF t [unfolded st] h M H ps(1) _ _ ps(2) _ _ call this] show ?thesis
    by (simp add: st)
qed

lemma fw_announce:
  assumes t: "fw_rest ids U gs cs t e" and h: "host_rest h" and M: "\<And>e. M e"
    and H: "handlers_ok (basic_handlers A ids H)"
    and e: "fw_size e = 0" "fw_crc32 e = 0" and n: "0 < n" "n \<le> unat (fota_max_fw_size A (be_flash e))" "n < 2 ^ 31"
    and crc: "crc \<noteq> 0" and v: "v \<le> 2"
  shows "\<exists>t' h'. exchange_cmd (basic_handlers A ids H) C M (''AT+FWUPDATE='' @ dec_nat n @ '','' @ fmt_X crc @ '','' @ dec_nat v) (t, h) =
      Some (ATCMD_RET_OK, t', h') \<and>
    fw_rest ids U gs cs t' (e\<lparr>fw_size := of_nat n, fw_crc32 := crc, fw_download := 0, fw_verify := int v,
      be_flash := fota_erase_info A (snd (fota_erase A 0 (of_nat n) (be_flash e)))\<rparr>) \<and> host_rest h' \<and> cb_event h' = cb_event h"
proof -
  obtain ed rx s where st: "t = (ed, rx, s)" by (cases t)
  have se: "g_env s = e" using t by (simp add: fw_rest_def st)
  let ?ps = "[dec_nat n, fmt_X crc, dec_nat v]"
  let ?c = "''FWUPDATE'' @ ''='' @ join_params ?ps"
  let ?s1 = "s\<lparr>g_prompt_enter := False, g_env := e\<lparr>fw_size := of_nat n, fw_crc32 := crc, fw_download := 0, fw_verify := int v,
      be_flash := fota_erase_info A (snd (fota_erase A 0 (of_nat n) (be_flash e)))\<rparr>\<rparr>"
  have u: "unat (of_nat n :: u32) = n" using n(3) by (simp add: unat_of_nat)
  have l: "length (dec_nat n) \<le> 10" "length (dec_nat v) \<le> 1"
    using dec_nat_length [of n 10] dec_nat_length [of v 1] n(3) v by simp_all
  have len: "length ?c \<le> 123" using l fmt_X_length [of crc] by simp
  have ne: "dec_nat n \<noteq> []" "dec_nat v \<noteq> []" "fmt_X crc \<noteq> []" using dec_nat_head by (auto simp: fmt_X_def)
  have ps: "line_ok (''AT+'' @ ?c)" "\<And>r. atcmd_parse (?c @ [LF] @ r) = Parsed (Some ATCMD_HANDLER_SET) (''FWUPDATE'' # ?ps)"
    using set_params_ok [where ps = ?ps, OF _ _ _ _ _ upper_names(1) len] ne
    by (simp_all add: plain_def printable_def)
  have up: "fw_update_params ?ps err = (Some (of_nat n, crc, int v), err)" for err
  proof -
    have "v < 2 ^ 31" using v by simp
    from atoi_print [OF this, of err] param_uint_print [OF n(3), of err] show ?thesis
      unfolding fw_update_params_def Let_def using v crc by (simp add: param_hex_print nth_Cons')
  qed
  have nz: "of_nat n \<noteq> (0 :: u32)" "of_nat n \<le> fota_max_fw_size A (be_flash e)"
    using u n(1,2) by (auto simp: word_le_nat_alt)
  then have call: "basic_handlers A ids H (ai_fw_update ids) ATCMD_HANDLER_SET ?ps (s\<lparr>g_prompt_enter := False\<rparr>) = (0, ?s1)"
    unfolding basic_handlers_def atcmd_basic_firmware_update_set_def up
    using e crc by (simp add: fw_update_apply_def Let_def se set_errno_def result_codes word_gt_0)
  have out: "g_out ?s1 = concat (map encode [])" using t by (simp add: fw_rest_def target_rest_def st)
  have c: "''AT+'' @ ?c = ''AT+FWUPDATE='' @ dec_nat n @ '','' @ fmt_X crc @ '','' @ dec_nat v" by simp
  from fw_simple [where C = C and M = M and a = "ai_fw_update ids" and ms = "[]", OF t [unfolded st] h M H ps(1) _ len ps(2) _ _ call out, unfolded c]
  show ?thesis by (simp add: st)
qed

text \<open>The queries: they answer with an information message and change nothing.\<close>

lemma query_ok:
  assumes "name = ''FWUPDATE'' \<or> name = ''FWBINDL''"
  shows "line_ok (''AT+'' @ name @ ''?'')"
    and "atcmd_parse ((name @ ''?'') @ [LF] @ r) = Parsed (Some ATCMD_HANDLER_GET) [name]"
    and "take 2 (name @ ''?'') = ''FW''" and "length (name @ ''?'') \<le> 9" and "2 \<le> length (name @ ''?'')"
  using assms parse_query_forms [of name "[LF]" "''x''" r] upper_names
  by (auto simp: line_ok_def printable_def plain_def eol_ok_def text_char_def)

lemma num_arg: "list_all num_char p \<Longrightarrow> list_all arg_char p"
  by (induction p) (auto simp: arg_char_def num_char_def is_digit_def)

lemma numbers_message_ok:
  assumes "ps \<noteq> []" and "length ps \<le> 3" and "\<forall>p \<in> set ps. list_all num_char p \<and> length p \<le> 11"
    and "name = ''FWUPDATE'' \<or> name = ''FWBINDL''"
  shows "host_msg_ok (HmInfo name ps)" and "length (name @ CHR '':'' # join_params ps) \<le> 124"
proof -
  have a: "list_all (list_all arg_char) ps"
    using assms(3) num_arg by (auto simp: list_all_iff)
  have "length (join_params qs) \<le> 12 * length qs" if "\<forall>p \<in> set qs. length p \<le> 11" for qs
    using that by (induction qs rule: join_params.induct) auto
  from this [of ps] have l: "length (join_params ps) \<le> 36" using assms(2,3) by auto
  then show "host_msg_ok (HmInfo name ps)" using assms a
    by (auto simp: text_char_def special_headers_def header_types_def)
  show "length (name @ CHR '':'' # join_params ps) \<le> 124" using l assms(4) by auto
qed

lemma fw_query:
  assumes t: "fw_rest ids U gs cs t e" and h: "host_rest h" and M: "\<And>e. M e"
    and H: "handlers_ok (basic_handlers A ids H)" and v: "fw_verify e = int v" "v \<le> 2"
    and name: "name = ''FWUPDATE'' \<or> name = ''FWBINDL''"
  shows "\<exists>t' h'. exchange_cmd (basic_handlers A ids H) C M (''AT+'' @ name @ ''?'') (t, h) = Some (ATCMD_RET_OK, t', h') \<and>
    fw_rest ids U gs cs t' e \<and> host_rest h' \<and> cb_event h' = cb_event h"
proof -
  obtain ed rx s where st: "t = (ed, rx, s)" by (cases t)
  have e: "g_env s = e" and so: "shared_ok s" "g_out s = []" using t by (simp_all add: fw_rest_def target_rest_def st)
  define ps where "ps = (if name = ''FWUPDATE'' then [fmt_u (fw_size e), fmt_X (fw_crc32 e), dec_nat v]
    else [fmt_u (fw_size e), fmt_u (fw_download e)])"
  define a where "a = (if name = ''FWUPDATE'' then ai_fw_update ids else ai_fw_download ids)"
  have lv: "length (dec_nat v) \<le> 11" using dec_nat_length [of v 1] v(2) by simp
  have ps: "ps \<noteq> []" "length ps \<le> 3" "\<forall>p \<in> set ps. list_all num_char p \<and> length p \<le> 11"
    using lv fmt_X_length [of "fw_crc32 e"] fmt_u_length [of "fw_size e"] fmt_u_length [of "fw_download e"]
    by (auto simp: ps_def)
  note N = numbers_message_ok [OF ps name]
  let ?s0 = "s\<lparr>g_prompt_enter := False\<rparr>"
  let ?s1 = "atcmd_transmit (''+'' @ (name @ CHR '':'' # join_params ps) @ [CR, LF]) ?s0"
  have p: "msg_put (name @ CHR '':'' # join_params ps) ?s0 = ?s1" by (rule msg_put_prints) (use so N in simp_all)
  have neq: "ai_fw_update ids \<noteq> ai_fw_download ids" using t by (simp add: fw_rest_def fw_registered_def)
  have call: "basic_handlers A ids H a ATCMD_HANDLER_GET [] ?s0 = (0, ?s1)"
    using name p neq v(1) e
    by (auto simp: basic_handlers_def a_def ps_def atcmd_basic_firmware_update_get_def dec_int_def
        atcmd_basic_firmware_download_get_def result_codes)
  have out: "g_out ?s1 = concat (map encode [HmInfo name ps])" using so(2) by (simp add: atcmd_transmit_def)
  have nm: "name = ''FWUPDATE'' \<and> a = ai_fw_update ids \<or> name = ''FWBINDL'' \<and> a = ai_fw_download ids \<and> ATCMD_HANDLER_GET \<noteq> ATCMD_HANDLER_RUN"
    using name by (auto simp: a_def)
  have l: "length (name @ ''?'') \<le> 123" using query_ok(4) [OF name] by simp
  from fw_simple [where C = C and M = M, OF t [unfolded st] h M H query_ok(1) [OF name] query_ok(5) [OF name] l query_ok(2) [OF name] nm
      query_ok(3) [OF name] call out] N(1) show ?thesis using e st by simp
qed

subsection \<open>A block\<close>

text \<open>In the data mode, with \<open>n\<close> bytes of the firmware announced and none received.\<close>

definition fw_data ::
  "basic_ids \<Rightarrow> addr list \<Rightarrow> addr list \<Rightarrow> (addr \<Rightarrow> addr list) \<Rightarrow> nat \<Rightarrow> ('f, 'z) basic_env_scheme target \<Rightarrow> ('f, 'z) basic_env_scheme \<Rightarrow> bool"
where
  "fw_data ids U gs cs n t e \<longleftrightarrow> target_rest U gs cs t \<and> fw_registered ids gs cs (g_registry (snd (snd t))) \<and>
     g_env (snd (snd t)) = e \<and>
     (let d = g_data_mode (snd (snd t))
      in dm_enable d \<and> \<not> dm_idle d \<and> dm_cnt d = 0 \<and> send_len d = of_nat n \<and> send_done d = 0 \<and> send_drop d = 0 \<and>
         data_type (params d) = ATCMD_DATA_FWBINDL \<and> done_event (params d))"

lemma fw_open:
  assumes t: "fw_rest ids U gs cs t e" and h: "host_rest h" and M: "\<And>e. M e"
    and H: "handlers_ok (basic_handlers A ids H)"
    and o: "fw_download e = of_nat k" "k < 2 ^ 31" and n: "0 < n" "n \<le> 4096"
  shows "\<exists>t' h'. exchange_cmd (basic_handlers A ids H) C M (''AT+FWBINDL='' @ dec_nat k @ '','' @ dec_nat n) (t, h) =
      Some (ATCMD_RET_OK, t', h') \<and>
    fw_data ids U gs cs n t' e \<and> host_rest h' \<and> cb_event h' = cb_event h \<and> h_env h' = h_env h"
proof -
  obtain ed rx s where st: "t = (ed, rx, s)" by (cases t)
  have se: "g_env s = e" "\<not> dm_enable (g_data_mode s)" "g_out s = []" and neq: "ai_fw_update ids \<noteq> ai_fw_download ids"
    using t by (simp_all add: fw_rest_def fw_registered_def target_rest_def st)
  let ?ps = "[dec_nat k, dec_nat n]"
  let ?c = "''FWBINDL'' @ ''='' @ join_params ?ps"
  have l: "length (dec_nat k) \<le> 10" "length (dec_nat n) \<le> 4"
    using dec_nat_length [of k 10] dec_nat_length [of n 4] o(2) n by simp_all
  have len: "length ?c \<le> 123" using l by simp
  have ne: "dec_nat k \<noteq> []" "dec_nat n \<noteq> []" using dec_nat_head by auto
  have ps: "line_ok (''AT+'' @ ?c)" "\<And>r. atcmd_parse (?c @ [LF] @ r) = Parsed (Some ATCMD_HANDLER_SET) (''FWBINDL'' # ?ps)"
    using set_params_ok [where ps = ?ps, OF _ _ _ _ _ upper_names(2) len] ne
    by (simp_all add: plain_def printable_def)
  have two: "two_uint32 err (dec_nat k) (dec_nat n) = (Some (of_nat k, of_nat n), err)" for err
    using n o(2) by (intro two_uint_print) simp_all
  have un: "unat (of_nat n :: u32) = n" using n by (simp add: unat_of_nat)
  then have nz: "of_nat n \<noteq> (0 :: u32)" using n(1) by (metis less_irrefl unat_0)
  define v where "v = (if atcmd_timeout_value ''FWBINDL'' e = 0 then 1000 else atcmd_timeout_value ''FWBINDL'' e)"
  let ?p = "(atcmd_data_mode_init_params ATCMD_DATA_FWBINDL)\<lparr>dm_len := of_nat n, dm_timeout := v, done_event := True\<rparr>"
  let ?s0 = "s\<lparr>g_prompt_enter := False\<rparr>"
  define s1 where "s1 = snd (atcmd_data_mode_enable (Some ?p) ?s0)"
  have en: "atcmd_data_mode_enable (Some ?p) ?s0 = (0, s1)" using se by (simp add: atcmd_data_mode_enable_def s1_def)
  have se0: "set_errno (be_errno e) ?s0 = ?s0" using se by (simp add: set_errno_def)
  have call: "basic_handlers A ids H (ai_fw_download ids) ATCMD_HANDLER_SET ?ps ?s0 = (0, s1)"
  proof -
    have "atcmd_basic_firmware_download_set ?ps ?s0 = (0, s1)"
      unfolding atcmd_basic_firmware_download_set_def
      using se o(1) n nz un two [of "be_errno e"] en se0 by (simp add: Let_def result_codes ATCMD_DATA_LEN_MAX_def v_def [symmetric])
    then show ?thesis using neq by (simp add: basic_handlers_def)
  qed
  have s1k: "g_registry s1 = g_registry s" "g_config s1 = g_config s" "g_env s1 = e" "g_out s1 = concat (map encode [])"
    using se by (simp_all add: atcmd_data_mode_enable_def s1_def)
  let ?s' = "(atcmd_prompt_enter (answered ''FWBINDL'' 0 s1))\<lparr>g_out := []\<rparr>"
  have nm: "''FWBINDL'' = ''FWUPDATE'' \<and> ai_fw_download ids = ai_fw_update ids \<or>
      ''FWBINDL'' = ''FWBINDL'' \<and> ai_fw_download ids = ai_fw_download ids \<and> ATCMD_HANDLER_SET \<noteq> ATCMD_HANDLER_RUN" by simp
  have c: "''AT+'' @ ?c = ''AT+FWBINDL='' @ dec_nat k @ '','' @ dec_nat n" by simp
  from fw_exchange [where C = C and M = M and ms = "[]", OF t [unfolded st] h M H ps(1) _ len ps(2) nm _ call s1k(4) _ s1k(1,2), unfolded c]
  obtain ed' h' where r: "exchange_cmd (basic_handlers A ids H) C M (''AT+FWBINDL='' @ dec_nat k @ '','' @ dec_nat n) ((ed, rx, s), h) =
      Some (ATCMD_RET_OK, (ed', rx, ?s'), h')"
    "target_rest U gs cs (ed', rx, ?s')" "host_rest h'" "cb_event h' = cb_event h" "h_env h' = h_env h" by auto
  have d1: "g_data_mode s1 = (g_data_mode s)\<lparr>params := ?p, dm_enable := True, dm_idle := False,
      dm_cnt := 0, send_len := of_nat n, send_done := 0, send_drop := 0, send_timeout := dm_timeout ?p + 100, last_send_time := 0\<rparr>"
    using se by (simp add: atcmd_data_mode_enable_def s1_def)
  have "fw_data ids U gs cs n (ed', rx, ?s') e"
    using t r(2) s1k unfolding fw_data_def fw_rest_def st
    by (simp add: answered_def Let_def continue_dm d1)
  then show ?thesis using r unfolding st by blast
qed

lemma fw_event:
  assumes "basic_event_text ev = Some (''BEVENT:'' @ quoted name @ '','' @ fmt_u w)" and "name \<in> {''FWBINDL_DONE'', ''FWBINDL_DROP''}"
    and "shared_ok s"
  shows "event (basic_consumers A C) ev s = atcmd_transmit (encode (HmEvent CHR ''B'' name [fmt_u w])) s"
proof -
  have l: "length (''BEVENT:'' @ quoted name @ '','' @ fmt_u w) \<le> 124"
    using fmt_u_length [of w] assms(2) by (auto simp: quoted_def)
  show ?thesis using msg_put_prints [OF assms(3) l] by (simp add: basic_consumers_def assms(1) atcmd_basic_event_handler_def)
qed

lemma fw_event_ok:
  assumes "name \<in> {''FWBINDL_DONE'', ''FWBINDL_DROP''}"
  shows "host_msg_ok (HmEvent CHR ''B'' name [fmt_u w])"
  using fmt_u_length [of w] num_arg [OF fmt_u_num, of w] assms by (auto simp: arg_char_def quoted_def)

text \<open>
  The data: the block goes to the flash, and the host hears of the result, of a failed write both
  the drop and the completion.
\<close>

definition fw_events :: "bool \<Rightarrow> nat \<Rightarrow> host_msg list" where
  "fw_events ok n =
    (if ok then [HmEvent CHR ''B'' ''FWBINDL_DONE'' [fmt_u (of_nat n)]]
     else [HmEvent CHR ''B'' ''FWBINDL_DROP'' [fmt_u (of_nat n)], HmEvent CHR ''B'' ''FWBINDL_DONE'' [fmt_u 0]])"

lemma fw_deliver:
  assumes t: "fw_data ids U gs cs n (ed, rx, s) e" and n: "0 < n" "n \<le> 4096" "length d = n"
  shows "\<exists>s'. deliver_data (basic_consumers A C) (params (g_data_mode s)) False d (of_nat n) 0 0 s = s' \<and>
    \<not> dm_enable (g_data_mode s') \<and> g_env s' = g_env (snd (atcmd_firmware_download A d s)) \<and>
    shared_ok s' \<and> g_registry s' = g_registry s \<and> g_config s' = g_config s \<and>
    g_out s' = concat (map encode (fw_events (fst (atcmd_firmware_download A d s) = int n) n))"
proof -
  have T: "dm_enable (g_data_mode s)" "data_type (params (g_data_mode s)) = ATCMD_DATA_FWBINDL"
    "done_event (params (g_data_mode s))" "shared_ok s" "g_out s = []"
    using t by (simp_all add: fw_data_def target_rest_def Let_def)
  have un: "unat (of_nat n :: u32) = n" using n by (simp add: unat_of_nat)
  then have sn: "sint (of_nat n :: u32) = int n" using sint_small_u32 [of "of_nat n"] n by simp
  obtain r :: int and f k where D: "atcmd_firmware_download A d s = (if r = 0 then int n else 0,
      s\<lparr>g_env := (g_env s)\<lparr>be_flash := f, fw_download := k\<rparr>\<rparr>)"
    using download_result [of A d s] unfolding n(3) by blast
  let ?s1 = "s\<lparr>g_env := (g_env s)\<lparr>be_flash := f, fw_download := k\<rparr>\<rparr>"
  have s1: "shared_ok ?s1" using T by (simp add: shared_ok_def)
  have nz: "0 < (of_nat n :: u32)" using un(1) n(1) by (simp add: word_less_nat_alt)
  have done_ev: "event (basic_consumers A C) (FwDone w) u = atcmd_transmit (encode (HmEvent CHR ''B'' ''FWBINDL_DONE'' [fmt_u w])) u"
    if "shared_ok u" for w u
    by (rule fw_event) (use that in \<open>simp_all add: basic_event_text_def quoted_def\<close>)
  have drop_ev: "event (basic_consumers A C) (FwDrop w) u = atcmd_transmit (encode (HmEvent CHR ''B'' ''FWBINDL_DROP'' [fmt_u w])) u"
    if "shared_ok u" for w u
    by (rule fw_event) (use that in \<open>simp_all add: basic_event_text_def quoted_def\<close>)
  have sink: "receive_data_sink (basic_consumers A C) ATCMD_DATA_FWBINDL i d (of_nat n) s = (if r = 0 then int n else 0, ?s1)" for i
    using D n un sn by (simp add: receive_data_sink_def basic_consumers_def)
  show ?thesis
  proof (cases "r = 0")
    case True
    then show ?thesis using T nz s1 sink D n
      by (simp add: deliver_data_def Let_def receive_data_done_def done_ev atcmd_data_mode_disable_def fw_events_def
          atcmd_transmit_def shared_ok_def)
  next
    case False
    then show ?thesis using T nz s1 sink D n
      by (simp add: deliver_data_def Let_def receive_data_done_def receive_data_drop_def done_ev drop_ev
          atcmd_data_mode_disable_def fw_events_def atcmd_transmit_def shared_ok_def)
  qed
qed

lemma fw_block_data:
  assumes t: "fw_data ids U gs cs n (ed, rx, s) e" and h: "host_rest h" and M: "\<And>e. M e"
    and cb: "cb_event h = Some firmware_download_event_callback" and n: "0 < n" "n \<le> 4096" "length d = n"
  shows "\<exists>t' h'. exchange_data (basic_handlers A ids H) (basic_consumers A C) M d ((ed, rx, s), h) = Some (0, t', h') \<and>
    fw_rest ids U gs cs t' (g_env (snd (atcmd_firmware_download A d s))) \<and> host_rest h' \<and> cb_event h' = cb_event h \<and>
    h_env h' = (h_env h)\<lparr>dl_done := True, dl_drop := dl_drop (h_env h) \<or> fst (atcmd_firmware_download A d s) \<noteq> int n\<rparr>"
proof -
  let ?ok = "fst (atcmd_firmware_download A d s) = int n"
  let ?s' = "deliver_data (basic_consumers A C) (params (g_data_mode s)) False d (of_nat n) 0 0 s"
  let ?h1 = "h\<lparr>data_send := data_send h + of_nat (length d)\<rparr>"
  have T: "dm_enable (g_data_mode s)" "\<not> effective_pass (g_data_mode s)" "send_len (g_data_mode s) = of_nat n"
    "send_done (g_data_mode s) = 0" "send_drop (g_data_mode s) = 0" "d_exit rx = 0" "length (d_buf rx) = ATCMD_DATA_LEN_MAX"
    "\<not> dm_idle (g_data_mode s)" "dm_cnt (g_data_mode s) = 0"
    using t by (simp_all add: fw_data_def target_rest_def Let_def effective_pass_def)
  have un: "unat (of_nat n :: u32) = n" using n by (simp add: unat_of_nat)
  have c: "collecting rx s []" using T n un by (simp add: collecting_def ATCMD_DATA_LEN_MAX_def)
  have d: "d \<noteq> []" "length d \<le> ATCMD_DATA_LEN_MAX" using n by (auto simp: ATCMD_DATA_LEN_MAX_def)
  have one: "atcmd_receive_data (basic_consumers A C) d rx s = Some (n, rx, ?s')"
    unfolding collect_nat [OF c d] Let_def using T un n by simp
  obtain s' where s': "?s' = s'" "\<not> dm_enable (g_data_mode s')" "g_env s' = g_env (snd (atcmd_firmware_download A d s))"
    "shared_ok s'" "g_registry s' = g_registry s" "g_config s' = g_config s" "g_out s' = concat (map encode (fw_events ?ok n))"
    using fw_deliver [OF t n] by blast
  have rec: "atcmd_receive (basic_handlers A ids H) (basic_consumers A C) True d (ed, rx, s) = Some (ed, rx, s')"
    using one d(1) T(1) n(3) s'(1) unfolding atcmd_receive_def
    by (subst receive_routed.simps, simp) (subst receive_routed.simps, simp)
  have ok: "\<forall>m \<in> set (fw_events ?ok n). host_msg_ok m" by (auto simp: fw_events_def simp del: host_msg_ok.simps intro!: fw_event_ok)
  obtain h' where h': "nrc_atcmd_recv M (concat (map encode (fw_events ?ok n))) ?h1 = Some h'" "host_rest h'"
      "frame h' = fold host_effect (fw_events ?ok n) (frame ?h1)"
    using host_hears [where M = M, OF _ M ok, of ?h1] h by auto
  have "cb_event h' = cb_event h" using arg_cong [OF h'(3), of cb_event] by (simp add: effects_cb_event)
  moreover have "h_env h' = (h_env h)\<lparr>dl_done := True, dl_drop := dl_drop (h_env h) \<or> \<not> ?ok\<rparr>"
    using arg_cong [OF h'(3), of h_env] cb
    by (cases ?ok) (simp_all add: fw_events_def event_of_def event_names_def call_def firmware_download_event_callback_def)
  moreover have "exchange_data (basic_handlers A ids H) (basic_consumers A C) M d ((ed, rx, s), h) =
      Some (0, (ed, rx, s'\<lparr>g_out := []\<rparr>), h')"
    using rec h'(1) s'(7) by (simp add: exchange_data_def exchange_send_data deliver_def)
  moreover have "fw_rest ids U gs cs (ed, rx, s'\<lparr>g_out := []\<rparr>) (g_env (snd (atcmd_firmware_download A d s)))"
    using t s' by (simp add: fw_rest_def fw_data_def target_rest_def atcmd_config_status_def)
  ultimately show ?thesis using h'(2) by blast
qed

lemma fw_block:
  assumes t: "fw_rest ids U gs cs t e" and h: "host_rest h" and M: "\<And>e. M e"
    and H: "handlers_ok (basic_handlers A ids H)" and cb: "cb_event h = Some firmware_download_event_callback"
    and o: "fw_download e = of_nat k" "k < 2 ^ 31" and n: "0 < n" "n \<le> 4096" "k + n \<le> length bin"
  shows "\<exists>t' h' s. download_block (link_peer (basic_handlers A ids H) (basic_consumers A C) M) bin k n (t, h) = Some (True, t', h') \<and>
    g_env s = e \<and> fw_rest ids U gs cs t' (g_env (snd (atcmd_firmware_download A (take n (drop k bin)) s))) \<and>
    host_rest h' \<and> cb_event h' = cb_event h"
proof -
  let ?P = "link_peer (basic_handlers A ids H) (basic_consumers A C) M" and ?d = "take n (drop k bin)"
  have h0: "host_rest (h\<lparr>h_env := no_flags\<rparr>)" using h by (simp add: host_rest_def host_idle_def receiving_def rxd_local_def)
  from fw_open [where C = "basic_consumers A C" and M = M, OF t h0 M H o n(1,2)] obtain t1 h1 where
    1: "p_cmd ?P (''AT+FWBINDL='' @ dec_nat k @ '','' @ dec_nat n) (t, h\<lparr>h_env := no_flags\<rparr>) = Some (ATCMD_RET_OK, t1, h1)"
      "fw_data ids U gs cs n t1 e" "host_rest h1" "cb_event h1 = cb_event h" "h_env h1 = no_flags"
    by (auto simp: link_peer_def)
  obtain ed rx s where t1: "t1 = (ed, rx, s)" by (cases t1)
  have ld: "length ?d = n" using n by simp
  have cb1: "cb_event h1 = Some firmware_download_event_callback" using 1(4) cb by simp
  from fw_block_data [where A = A and C = C and M = M and ids = ids and H = H, OF 1(2) [unfolded t1] 1(3) M cb1 n(1,2) ld] obtain t2 h2 where
    2: "p_data ?P ?d (t1, h1) = Some (0, t2, h2)" "fw_rest ids U gs cs t2 (g_env (snd (atcmd_firmware_download A ?d s)))"
      "host_rest h2" "cb_event h2 = cb_event h1" "dl_done (h_env h2)"
    by (auto simp: link_peer_def t1)
  have "wait_event ?P (t2, h2) = Some (t2, h2)" using 2(5) by (subst wait_event.simps) (auto simp: no_flags_def)
  then have "download_block ?P bin k n (t, h) = Some (True, t2, h2)"
    using 1(1) 2(1,5) by (simp add: download_block_def)
  moreover have "g_env s = e" using 1(2) by (simp add: fw_data_def t1)
  moreover have "cb_event h2 = cb_event h" using 2(4) 1(4) by simp
  ultimately show ?thesis using 2(2,3) by blast
qed

subsection \<open>The image in the flash\<close>

lemma flash_okD:
  assumes "flash_ok A img" and "unat off + length buf \<le> unat (fota_max_fw_size A f)"
  shows "\<forall>i < length buf. img f (unat off + i) = CHR 0xff \<Longrightarrow>
      \<exists>f'. fota_write A off buf f = (0, f') \<and> fota_max_fw_size A f' = fota_max_fw_size A f \<and>
        (\<forall>j. img f' j = (if unat off \<le> j \<and> j < unat off + length buf then buf ! (j - unat off) else img f j))"
    and "fota_read A off (length buf) f = (0, map (img f) [unat off..<unat off + length buf])"
  using assms unfolding flash_ok_def by blast+

text \<open>Writing to an erased range succeeds, verification included.\<close>

lemma download_stores:
  assumes A: "flash_ok A img" and k: "fw_download (g_env s) = of_nat k" "k < 2 ^ 31"
    and b: "k + length buf \<le> unat (fota_max_fw_size A (be_flash (g_env s)))"
    and er: "\<forall>i < length buf. img (be_flash (g_env s)) (k + i) = CHR 0xff"
  shows "\<exists>f. atcmd_firmware_download A buf s =
      (int (length buf), s\<lparr>g_env := (g_env s)\<lparr>be_flash := f, fw_download := of_nat (k + length buf)\<rparr>\<rparr>) \<and>
    fota_max_fw_size A f = fota_max_fw_size A (be_flash (g_env s)) \<and>
    (\<forall>j. img f j = (if k \<le> j \<and> j < k + length buf then buf ! (j - k) else img (be_flash (g_env s)) j))"
proof -
  let ?f = "be_flash (g_env s)"
  have u: "unat (of_nat k :: u32) = k" using k(2) by (simp add: unat_of_nat)
  have b': "unat (of_nat k :: u32) + length buf \<le> unat (fota_max_fw_size A ?f)" using b u by simp
  from flash_okD(1) [OF A b'] er obtain f' where f': "fota_write A (of_nat k) buf ?f = (0, f')"
    "fota_max_fw_size A f' = fota_max_fw_size A ?f"
    "\<forall>j. img f' j = (if k \<le> j \<and> j < k + length buf then buf ! (j - k) else img ?f j)"
    unfolding u by blast
  have b2: "unat (of_nat k :: u32) + length buf \<le> unat (fota_max_fw_size A f')" using b' f'(2) by simp
  have "map (img f') [k..<k + length buf] = buf" using f'(3) by (intro nth_equalityI) auto
  then have rd: "fota_read A (of_nat k) (length buf) f' = (0, buf)"
    using flash_okD(2) [OF A b2] unfolding u by simp
  have "firmware_write A (fw_verify (g_env s)) (of_nat k) buf ?f = (0, f')"
    using f'(1) rd by (simp add: firmware_write_def atcmd_firmware_verify_def)
  then have "atcmd_firmware_download A buf s =
      (int (length buf), s\<lparr>g_env := (g_env s)\<lparr>be_flash := f', fw_download := of_nat (k + length buf)\<rparr>\<rparr>)"
    using k by (simp add: atcmd_firmware_download_def Let_def)
  then show ?thesis using f' by blast
qed

text \<open>The first \<open>k\<close> bytes of \<open>bin\<close> are stored, the rest of its area is erased.\<close>

definition fw_stored :: "'f flash_api \<Rightarrow> ('f \<Rightarrow> nat \<Rightarrow> char) \<Rightarrow> string \<Rightarrow> u32 \<times> u32 \<times> nat \<Rightarrow> nat \<Rightarrow> ('f, 'z) basic_env_scheme \<Rightarrow> bool" where
  "fw_stored A img bin p k e \<longleftrightarrow> (case p of (sz, crc, v) \<Rightarrow>
     fw_download e = of_nat k \<and> fw_size e = sz \<and> fw_crc32 e = crc \<and> fw_verify e = int v \<and>
     length bin \<le> unat (fota_max_fw_size A (be_flash e)) \<and>
     (\<forall>i < length bin. img (be_flash e) i = (if i < k then bin ! i else CHR 0xff)))"

lemma stored_step:
  assumes A: "flash_ok A img" and e: "fw_stored A img bin p k (g_env s)" and n: "k + n \<le> length bin" "length bin < 2 ^ 31"
  shows "fw_stored A img bin p (k + n) (g_env (snd (atcmd_firmware_download A (take n (drop k bin)) s)))"
proof -
  obtain sz crc v where p: "p = (sz, crc, v)" by (metis prod_cases3)
  have E: "fw_download (g_env s) = of_nat k" "length bin \<le> unat (fota_max_fw_size A (be_flash (g_env s)))"
    "\<forall>i < length bin. img (be_flash (g_env s)) i = (if i < k then bin ! i else CHR 0xff)"
    using e by (simp_all add: fw_stored_def p)
  have l: "length (take n (drop k bin)) = n" using n(1) by simp
  have k: "k < 2 ^ 31" "k + length (take n (drop k bin)) \<le> unat (fota_max_fw_size A (be_flash (g_env s)))" using n E(2) l by simp_all
  have er: "\<forall>i < length (take n (drop k bin)). img (be_flash (g_env s)) (k + i) = CHR 0xff" using E(3) n(1) l by simp
  from download_stores [OF A E(1) k er] show ?thesis
    using e E n(1) l by (auto simp: fw_stored_def p)
qed

lemma fw_blocks:
  assumes "fw_rest ids U gs cs t e" and "host_rest h" and M: "\<And>e. M e"
    and H: "handlers_ok (basic_handlers A ids H)" and "cb_event h = Some firmware_download_event_callback"
    and A: "flash_ok A img" and "fw_stored A img bin p k e" and "k \<le> length bin" and n: "length bin < 2 ^ 31"
  shows "\<exists>t' h' e'. download_blocks (link_peer (basic_handlers A ids H) (basic_consumers A C) M) bin k (t, h) = Some (True, t', h') \<and>
    fw_rest ids U gs cs t' e' \<and> host_rest h' \<and> fw_stored A img bin p (length bin) e'"
  using assms(1,2,5,7,8)
proof (induction "length bin - k" arbitrary: k t h e rule: less_induct)
  case less
  show ?case
  proof (cases "length bin \<le> k")
    case True
    then have "k = length bin" using less.prems(5) by simp
    then show ?thesis using less.prems by (subst download_blocks.simps) auto
  next
    case False
    define m where "m = (if length bin - k \<ge> 4096 then 4096 else length bin - k)"
    have m: "0 < m" "m \<le> 4096" "k + m \<le> length bin" using False by (auto simp: m_def)
    have k: "fw_download e = of_nat k" "k < 2 ^ 31" using less.prems(4,5) n by (simp_all add: fw_stored_def split: prod.splits)
    from fw_block [where A = A and C = C and M = M and H = H, OF less.prems(1,2) M H less.prems(3) k m] obtain t1 h1 s where
      1: "download_block (link_peer (basic_handlers A ids H) (basic_consumers A C) M) bin k m (t, h) = Some (True, t1, h1)"
        "g_env s = e" "fw_rest ids U gs cs t1 (g_env (snd (atcmd_firmware_download A (take m (drop k bin)) s)))"
        "host_rest h1" "cb_event h1 = cb_event h" by blast
    have st: "fw_stored A img bin p (k + m) (g_env (snd (atcmd_firmware_download A (take m (drop k bin)) s)))"
      using stored_step [OF A _ m(3) n] less.prems(4) 1(2) by blast
    have "length bin - (k + m) < length bin - k" using m False by simp
    from less.hyps [OF this 1(3,4) _ st m(3)] 1(5) less.prems(3) show ?thesis
      using False 1(1) by (subst download_blocks.simps) (simp add: m_def [symmetric])
  qed
qed

subsection \<open>The whole download\<close>

text \<open>The announcement and the queries before the first block.\<close>

lemma fw_start:
  assumes t: "fw_rest ids U gs cs t e" and h: "host_rest h" and M: "\<And>e. M e"
    and H: "handlers_ok (basic_handlers A ids H)"
    and mx: "\<And>f. fota_max_fw_size A (fota_erase_info A f) = fota_max_fw_size A f"
    and n: "0 < n" "n \<le> unat (fota_max_fw_size A (be_flash e))" "n < 2 ^ 31" and crc: "crc \<noteq> 0" and v: "v \<le> 2"
  shows "\<exists>t' h'. cmds_ok (link_peer (basic_handlers A ids H) C M) [''AT+FWUPDATE=0'',
        ''AT+FWUPDATE='' @ dec_nat n @ '','' @ fmt_X crc @ '','' @ dec_nat v, ''AT+FWUPDATE?'', ''AT+FWBINDL?''] (t, h) =
      Some (True, t', h') \<and>
    fw_rest ids U gs cs t' (e\<lparr>fw_size := of_nat n, fw_crc32 := crc, fw_download := 0, fw_verify := int v,
      be_flash := fota_erase_info A (snd (fota_erase A 0 (of_nat n) (fota_erase_info A (be_flash e))))\<rparr>) \<and>
    host_rest h' \<and> cb_event h' = cb_event h"
proof -
  let ?P = "link_peer (basic_handlers A ids H) C M"
  let ?e0 = "e\<lparr>fw_size := 0, fw_crc32 := 0, fw_download := 0, fw_verify := 0, be_flash := fota_erase_info A (be_flash e)\<rparr>"
  from fw_reset [where C = C and M = M, OF t h M H] obtain t0 h0 where
    0: "p_cmd ?P ''AT+FWUPDATE=0'' (t, h) = Some (ATCMD_RET_OK, t0, h0)" "fw_rest ids U gs cs t0 ?e0" "host_rest h0" "cb_event h0 = cb_event h"
    by (auto simp: link_peer_def)
  have n0: "n \<le> unat (fota_max_fw_size A (be_flash ?e0))" using n(2) mx by simp
  let ?e1 = "e\<lparr>fw_size := of_nat n, fw_crc32 := crc, fw_download := 0, fw_verify := int v,
      be_flash := fota_erase_info A (snd (fota_erase A 0 (of_nat n) (fota_erase_info A (be_flash e))))\<rparr>"
  from fw_announce [where C = C and M = M, OF 0(2,3) M H _ _ n(1) n0 n(3) crc v] obtain t1 h1 where
    1: "p_cmd ?P (''AT+FWUPDATE='' @ dec_nat n @ '','' @ fmt_X crc @ '','' @ dec_nat v) (t0, h0) = Some (ATCMD_RET_OK, t1, h1)"
      "fw_rest ids U gs cs t1 ?e1" "host_rest h1" "cb_event h1 = cb_event h0"
    by (auto simp: link_peer_def)
  have v1: "fw_verify ?e1 = int v" by simp
  from fw_query [where C = C and M = M and name = "''FWUPDATE''", OF 1(2,3) M H v1 v] obtain t2 h2 where
    2: "p_cmd ?P ''AT+FWUPDATE?'' (t1, h1) = Some (ATCMD_RET_OK, t2, h2)" "fw_rest ids U gs cs t2 ?e1" "host_rest h2" "cb_event h2 = cb_event h1"
    by (auto simp: link_peer_def)
  from fw_query [where C = C and M = M and name = "''FWBINDL''", OF 2(2,3) M H v1 v] obtain t3 h3 where
    3: "p_cmd ?P ''AT+FWBINDL?'' (t2, h2) = Some (ATCMD_RET_OK, t3, h3)" "fw_rest ids U gs cs t3 ?e1" "host_rest h3" "cb_event h3 = cb_event h2"
    by (auto simp: link_peer_def)
  show ?thesis using 0(1,4) 1(1,4) 2(1,4) 3 by simp
qed

lemma fw_finish:
  assumes t: "fw_rest ids U gs cs t e" and h: "host_rest h" and M: "\<And>e. M e"
    and H: "handlers_ok (basic_handlers A ids H)" and v: "fw_verify e = int v" "v \<le> 2"
  shows "\<exists>t' h'. cmds_ok (link_peer (basic_handlers A ids H) C M) [''AT+FWBINDL?'', ''AT+FWUPDATE?''] (t, h) = Some (True, t', h') \<and>
    fw_rest ids U gs cs t' e \<and> host_rest h'"
proof -
  let ?P = "link_peer (basic_handlers A ids H) C M"
  from fw_query [where C = C and M = M and name = "''FWBINDL''", OF t h M H v] obtain t2 h2 where
    2: "p_cmd ?P ''AT+FWBINDL?'' (t, h) = Some (ATCMD_RET_OK, t2, h2)" "fw_rest ids U gs cs t2 e" "host_rest h2"
    by (auto simp: link_peer_def)
  from fw_query [where C = C and M = M and name = "''FWUPDATE''", OF 2(2,3) M H v] obtain t3 h3 where
    3: "p_cmd ?P ''AT+FWUPDATE?'' (t2, h2) = Some (ATCMD_RET_OK, t3, h3)" "fw_rest ids U gs cs t3 e" "host_rest h3"
    by (auto simp: link_peer_def)
  show ?thesis using 2(1) 3 by simp
qed

lemma fw_register:
  assumes "host_rest h" and "cb_event h = None"
  shows "nrc_atcmd_register_callback (CbEvent f) h = (0, h\<lparr>cb_event := Some f\<rparr>)" and "host_rest (h\<lparr>cb_event := Some f\<rparr>)"
    and "cb_event (snd (nrc_atcmd_unregister_callback ATCMD_CB_EVENT h')) = None"
    and "host_rest (snd (nrc_atcmd_unregister_callback ATCMD_CB_EVENT h')) = host_rest h'"
  using assms by (simp_all add: nrc_atcmd_register_callback_def nrc_atcmd_unregister_callback_def host_rest_def host_idle_def
      receiving_def rxd_local_def)

text \<open>The two phases put together.\<close>

lemma fw_download_run:
  assumes t: "fw_rest ids U gs cs t e" and h: "host_rest h" "cb_event h = None" and M: "\<And>e. M e"
    and H: "handlers_ok (basic_handlers A ids H)"
    and mx: "\<And>f. fota_max_fw_size A (fota_erase_info A f) = fota_max_fw_size A f"
    and n: "bin \<noteq> []" "length bin \<le> unat (fota_max_fw_size A (be_flash e))" "length bin < 2 ^ 31" and crc: "crc \<noteq> 0" and v: "v \<le> 2"
    and e1: "e1 = e\<lparr>fw_size := of_nat (length bin), fw_crc32 := crc, fw_download := 0, fw_verify := int v,
      be_flash := fota_erase_info A (snd (fota_erase A 0 (of_nat (length bin)) (fota_erase_info A (be_flash e))))\<rparr>"
    and blocks: "\<And>t1 h1. fw_rest ids U gs cs t1 e1 \<Longrightarrow> host_rest h1 \<Longrightarrow> cb_event h1 = Some firmware_download_event_callback \<Longrightarrow>
      \<exists>t2 h2 e2. download_blocks (link_peer (basic_handlers A ids H) C M) bin 0 (t1, h1) = Some (True, t2, h2) \<and>
        fw_rest ids U gs cs t2 e2 \<and> host_rest h2 \<and> Q e2"
    and Q: "\<And>e2. Q e2 \<Longrightarrow> fw_verify e2 = int v"
  shows "\<exists>t' h' e'. nrc_atcmd_firmware_download (link_peer (basic_handlers A ids H) C M) bin crc v (t, h) = Some (0, t', h') \<and>
    fw_rest ids U gs cs t' e' \<and> host_rest h' \<and> Q e' \<and> cb_event h' = None"
proof -
  let ?P = "link_peer (basic_handlers A ids H) C M" and ?h = "h\<lparr>cb_event := Some firmware_download_event_callback\<rparr>"
  note R = fw_register(1,2) [where f = firmware_download_event_callback, OF h] fw_register(3,4) [OF h]
  have n0: "0 < length bin" using n(1) by simp
  from fw_start [where C = C and M = M, OF t R(2) M H mx n0 n(2,3) crc v, folded e1] obtain t1 h1 where
    1: "cmds_ok ?P [''AT+FWUPDATE=0'', ''AT+FWUPDATE='' @ dec_nat (length bin) @ '','' @ fmt_X crc @ '','' @ dec_nat v,
        ''AT+FWUPDATE?'', ''AT+FWBINDL?''] (t, ?h) = Some (True, t1, h1)"
      "fw_rest ids U gs cs t1 e1" "host_rest h1" "cb_event h1 = Some firmware_download_event_callback" by auto
  from blocks [OF 1(2-4)] obtain t2 h2 e2 where
    2: "download_blocks ?P bin 0 (t1, h1) = Some (True, t2, h2)" "fw_rest ids U gs cs t2 e2" "host_rest h2" "Q e2" by blast
  from fw_finish [where C = C and M = M, OF 2(2,3) M H Q [OF 2(4)] v] obtain t3 h3 where
    3: "cmds_ok ?P [''AT+FWBINDL?'', ''AT+FWUPDATE?''] (t2, h2) = Some (True, t3, h3)" "fw_rest ids U gs cs t3 e2" "host_rest h3" by blast
  have "nrc_atcmd_firmware_download ?P bin crc v (t, h) =
      Some (0, t3, snd (nrc_atcmd_unregister_callback ATCMD_CB_EVENT h3))"
    unfolding nrc_atcmd_firmware_download_def snd_conv fst_conv R(1) prod.case
    using 1(1) 2(1) 3(1) by (simp del: cmds_ok.simps)
  moreover have "host_rest (snd (nrc_atcmd_unregister_callback ATCMD_CB_EVENT h3))" using 3(3) by (simp add: R(4))
  ultimately show ?thesis using 3(2) 2(4) R(3) by blast
qed

end
