(* ===== verification/FlashProps.thy ===== *)
theory FlashProps
  imports AtcmdBasicProps AtcmdDataProps
begin

text \<open>
  Properties of the flash commands on the target alone: what they promise for every flash, the guards
  of a firmware block, and the ranges of the user area.
\<close>

subsection \<open>The user area\<close>

text \<open>
  What erasing a range relies on: a write inside the area succeeds, and stores its bytes and nothing
  else.
\<close>

definition user_flash_ok :: "'f flash_api \<Rightarrow> ('f \<Rightarrow> nat \<Rightarrow> char) \<Rightarrow> bool" where
  "user_flash_ok A img \<longleftrightarrow>
    (\<forall>f off buf. unat off + length buf \<le> unat (user_size A f) \<longrightarrow>
       (\<exists>f'. user_write A off buf f = (0, f') \<and> user_size A f' = user_size A f \<and>
          (\<forall>j. img f' j = (if unat off \<le> j \<and> j < unat off + length buf then buf ! (j - unat off) else img f j))))"

lemma user_flash_okD:
  assumes "user_flash_ok A img" and "unat off + length buf \<le> unat (user_size A f)"
  shows "\<exists>f'. user_write A off buf f = (0, f') \<and> user_size A f' = user_size A f \<and>
     (\<forall>j. img f' j = (if unat off \<le> j \<and> j < unat off + length buf then buf ! (j - unat off) else img f j))"
  using assms unfolding user_flash_ok_def by blast

lemma erase_loop_exact:
  assumes A: "user_flash_ok A img" and "unat off + n \<le> unat (user_size A f)" and "i \<le> n"
  shows "\<exists>f'. sf_erase_loop A off i n f = (0, f') \<and> user_size A f' = user_size A f \<and>
    (\<forall>j. img f' j = (if unat off + i \<le> j \<and> j < unat off + n then CHR 0xff else img f j))"
  using assms(2,3)
proof (induction "n - i" arbitrary: i f rule: less_induct)
  case less
  show ?case
  proof (cases "n \<le> i")
    case True
    then show ?thesis using less.prems by (subst sf_erase_loop.simps) (auto simp: result_codes)
  next
    case False
    define m where "m = (if n - i > SF_SECTOR_SIZE then SF_SECTOR_SIZE else n - i)"
    have m: "0 < m" "i + m \<le> n" using False by (auto simp: m_def SF_SECTOR_SIZE_def)
    have i: "unat off + i < 4294967296" using less.prems False unat_less_u32 [of "user_size A f"] by linarith
    have u: "unat (off + of_nat i) = unat off + i" using i by (simp add: cnt_add)
    have "unat (off + of_nat i) + length (replicate m (CHR 0xff)) \<le> unat (user_size A f)"
      using m less.prems by (simp add: u)
    from user_flash_okD [OF A this] obtain f1 where f1: "user_write A (off + of_nat i) (replicate m (CHR 0xff)) f = (0, f1)"
      "user_size A f1 = user_size A f" and img: "\<forall>j. img f1 j = (if unat off + i \<le> j \<and> j < unat off + i + m
        then replicate m (CHR 0xff) ! (j - (unat off + i)) else img f j)"
      unfolding u length_replicate by blast
    have img1: "img f1 j = (if unat off + i \<le> j \<and> j < unat off + i + m then CHR 0xff else img f j)" for j
      using img by (auto simp: less_diff_conv2)
    have "n - (i + m) < n - i" "unat off + n \<le> unat (user_size A f1)" using m False less.prems f1(2) by simp_all
    from less.hyps [OF this m(2)] obtain f2 where f2: "sf_erase_loop A off (i + m) n f1 = (0, f2)"
      "user_size A f2 = user_size A f1"
      "\<And>j. img f2 j = (if unat off + (i + m) \<le> j \<and> j < unat off + n then CHR 0xff else img f1 j)" by blast
    have "sf_erase_loop A off i n f = (0, f2)"
      using False f1(1) f2(1) by (subst sf_erase_loop.simps) (simp add: m_def [symmetric] Let_def)
    moreover have "img f2 j = (if unat off + i \<le> j \<and> j < unat off + n then CHR 0xff else img f j)" for j
      using f2(3) img1 m by auto
    ultimately show ?thesis using f1(2) f2(2) by auto
  qed
qed

lemma valid_params_exact:
  assumes "unat (user_size A f) < 2 ^ 31"
  shows "atcmd_sf_user_valid_params A mode off n f \<longleftrightarrow>
    mode \<in> {SF_USER_READ, SF_USER_WRITE, SF_USER_ERASE} \<and> 0 < unat n \<and> unat off + unat n \<le> unat (user_size A f) \<and>
    (mode \<noteq> SF_USER_ERASE \<longrightarrow> unat n \<le> 4096)"
proof -
  have s: "unat (off + n) = unat off + unat n" if "unat off + unat n < 4294967296" using that by (simp add: unat_word_ariths)
  have k: "unat (of_nat ATCMD_DATA_LEN_MAX :: u32) = 4096" by (simp add: ATCMD_DATA_LEN_MAX_def)
  have z: "n = 0 \<longleftrightarrow> unat n = 0" by (simp add: unat_eq_0)
  show ?thesis
    unfolding atcmd_sf_user_valid_params_def Let_def z word_le_nat_alt word_less_nat_alt
    using assms s k by (auto simp: SF_USER_READ_def SF_USER_WRITE_def SF_USER_ERASE_def)
qed

subsection \<open>The guards of a block\<close>

definition fwbindl_params :: "u32 \<Rightarrow> u32 \<Rightarrow> dm_params" where
  "fwbindl_params len t = (atcmd_data_mode_init_params ATCMD_DATA_FWBINDL)
     \<lparr>dm_len := len, dm_timeout := (if t = 0 then 1000 else t), done_event := True\<rparr>"

lemma download_set_exact:
  assumes "k < 2 ^ 31" and "n < 2 ^ 31"
  shows "atcmd_basic_firmware_download_set [dec_nat k, dec_nat n] s =
    (if n = 0 \<or> 4096 < n \<or> of_nat k \<noteq> fw_download (g_env s) then (ATCMD_ERROR_INVAL, s)
     else if dm_enable (g_data_mode s) then (ATCMD_ERROR_FAIL, s)
     else (ATCMD_SUCCESS, snd (atcmd_data_mode_enable
       (Some (fwbindl_params (of_nat n) (atcmd_timeout_value ''FWBINDL'' (g_env s)))) s)))"
proof -
  have two: "two_uint32 err (dec_nat k) (dec_nat n) = (Some (of_nat k, of_nat n), err)" for err
    using assms by (intro two_uint_print) simp_all
  have un: "unat (of_nat n :: u32) = n" using assms by (simp add: unat_of_nat)
  have nz: "(of_nat n :: u32) = 0 \<longleftrightarrow> n = 0" by (simp only: unat_eq_0 [symmetric] un)
  have e: "set_errno (be_errno (g_env s)) s = s" by (simp add: set_errno_def)
  define p where "p = fwbindl_params (of_nat n) (atcmd_timeout_value ''FWBINDL'' (g_env s))"
  have en: "atcmd_data_mode_enable (Some p) s =
      (if dm_enable (g_data_mode s) then - EBUSY else 0, snd (atcmd_data_mode_enable (Some p) s))"
    "dm_enable (g_data_mode s) \<Longrightarrow> snd (atcmd_data_mode_enable (Some p) s) = s"
    by (simp_all add: atcmd_data_mode_enable_def p_def fwbindl_params_def)
  have "atcmd_basic_firmware_download_set [dec_nat k, dec_nat n] s =
    (if of_nat n = (0 :: u32) \<or> 4096 < unat (of_nat n :: u32) then (ATCMD_ERROR_INVAL, s)
     else if of_nat k \<noteq> fw_download (g_env s) then (ATCMD_ERROR_INVAL, s)
     else (case atcmd_data_mode_enable (Some p) s of (ret, s2) \<Rightarrow> (if ret \<noteq> 0 then ATCMD_ERROR_FAIL else ATCMD_SUCCESS, s2)))"
    unfolding atcmd_basic_firmware_download_set_def p_def fwbindl_params_def
    using two [of "be_errno (g_env s)"] e by (simp add: Let_def ATCMD_DATA_LEN_MAX_def)
  moreover have "(case atcmd_data_mode_enable (Some p) s of (ret, s2) \<Rightarrow> (if ret \<noteq> 0 then ATCMD_ERROR_FAIL else ATCMD_SUCCESS, s2)) =
      (if dm_enable (g_data_mode s) then (ATCMD_ERROR_FAIL, s) else (ATCMD_SUCCESS, snd (atcmd_data_mode_enable (Some p) s)))"
    by (subst en(1)) (simp add: en(2) EBUSY_def)
  ultimately show ?thesis unfolding nz un p_def [symmetric] by auto
qed

subsection \<open>Properties\<close>

text \<open>A flash whose functions all fail, and the state of the module at the start.\<close>

definition broken_flash :: "unit flash_api" where
  "broken_flash = \<lparr>fota_max_fw_size = (\<lambda>f. 8192), fota_write = (\<lambda>off b f. (-1, f)), fota_read = (\<lambda>off n f. (-1, [])),
     fota_erase = (\<lambda>off n f. (-1, f)), fota_erase_info = (\<lambda>f. f), fota_cal_crc = (\<lambda>n f. 0), fota_set_info = (\<lambda>n c f. f),
     fota_set_ready = (\<lambda>b f. f), flash_size = (\<lambda>f. 0x400000), user_addr = (\<lambda>f. 0x3DA000), user_size = (\<lambda>f. 102400),
     user_read = (\<lambda>off n f. (-1, [])), user_write = (\<lambda>off b f. (-1, f)), user_erase = (\<lambda>f. (-1, f)),
     factory_info = (\<lambda>f. (-1, 0, 0)), factory_read = (\<lambda>n f. (-1, []))\<rparr>"

definition basic_start :: "'f \<Rightarrow> 'f basic_env" where
  "basic_start f = \<lparr>fw_size = 0, fw_crc32 = 0, fw_download = 0, fw_verify = 0, timeout_wifi = timeout_wifi_init,
     timeout_socket = timeout_socket_init, be_errno = False, be_mem = True, be_flash = f\<rparr>"

definition flash_ids :: basic_ids where
  "flash_ids = \<lparr>ai_fw_update = 30, ai_fw_download = 40, ai_sf_user = 50, ai_sf_sys_user = 60\<rparr>"

definition refuse :: "'e handlers" where "refuse a t argv s = (7, s)"

definition swallow :: "'e consumers" where "swallow = \<lparr>send = (\<lambda>k b s. (0, s)), event = (\<lambda>e s. s)\<rparr>"

lemma refuse_ok: "handlers_ok refuse" "handlers_dm_ok refuse" "consumers_ok swallow"
  by (simp_all add: handlers_ok_def handlers_dm_ok_def consumers_ok_def refuse_def swallow_def dm_ok_def)

lemma demo_atcmd_sel: "g_env (demo_atcmd r e) = e" "dm_enable (g_data_mode (demo_atcmd r e)) = False"
  by (simp_all add: demo_atcmd_def)

text \<open>C16: With the flash commands registered, whatever the flash functions return, every packet is
  received to its end and the receiver stays sound: no parameters, no interleaving of commands and
  firmware or user data and no flash failure makes it stop or lose the invariants of its buffers, of
  the data mode and of the registry.\<close>

theorem flash_commands_serve_any_packet:
  assumes "handlers_ok H" and "handlers_dm_ok H" and "consumers_ok C" and "receiver_ok st"
    and "m \<or> e_alloc (fst st)" and "length buf \<le> ATCMD_DATA_LEN_MAX"
  shows "\<exists>st'. atcmd_receive (basic_handlers A ids H) (basic_consumers A C) m buf st = Some st' \<and> receiver_ok st'"
  unfolding atcmd_receive_def
  by (rule routed_total [OF basic_handlers_sound [OF assms(1,2)] basic_consumers_sound [OF assms(3)] assms(4-6)])

theorem flash_commands_serve_any_packet_witness:
  "\<exists>st'. atcmd_receive (basic_handlers broken_flash flash_ids refuse) (basic_consumers broken_flash swallow) True
      (''AT+FWUPDATE=9,0x1'' @ [LF] @ ''AT+FWBINDL=0,9'' @ [LF] @ ''firmware!'')
      (demo_editor, demo_rx, demo_atcmd demo_served (basic_start ())) = Some st' \<and> receiver_ok st'"
proof -
  have "receiver_ok (demo_editor, demo_rx, demo_atcmd demo_served (basic_start ()))"
    using demo_editing demo_shared
    by (simp add: receiver_ok_def editing_def editor_inv_def dm_ok_def rx_ok_def demo_rx_def) (simp add: demo_atcmd_def)
  from flash_commands_serve_any_packet [OF refuse_ok this] show ?thesis by (simp add: ATCMD_DATA_LEN_MAX_def)
qed

text \<open>A block of the firmware is counted only when it is in the flash: \<open>atcmd_firmware_download\<close> either
  accepts all bytes and advances the offset past them, and with verification on reading them back
  from the flash gives exactly these bytes, or accepts none and leaves the offset.  Nothing but the
  flash and the offset changes.\<close>

theorem firmware_block_all_or_nothing:
  assumes "atcmd_firmware_download A buf s = (n, s')"
  shows "(\<exists>f k. s' = s\<lparr>g_env := (g_env s)\<lparr>be_flash := f, fw_download := k\<rparr>\<rparr>) \<and>
    (n = 0 \<and> fw_download (g_env s') = fw_download (g_env s) \<or>
     n = int (length buf) \<and> fw_download (g_env s') = fw_download (g_env s) + of_nat (length buf) \<and>
     (fw_verify (g_env s) > 0 \<longrightarrow>
        fst (fota_read A (fw_download (g_env s)) (length buf) (be_flash (g_env s'))) = 0 \<and>
        take (length buf) (snd (fota_read A (fw_download (g_env s)) (length buf) (be_flash (g_env s')))) = buf))"
proof -
  from download_result [of A buf s, unfolded assms prod.inject] obtain ret :: int and f1 where
    r: "n = (if ret = 0 then int (length buf) else 0)"
      "s' = s\<lparr>g_env := (g_env s)\<lparr>be_flash := f1, fw_download := fw_download (g_env s) + (if ret = 0 then of_nat (length buf) else 0)\<rparr>\<rparr>"
      "ret = 0 \<Longrightarrow> \<exists>f0. firmware_write A (fw_verify (g_env s)) (fw_download (g_env s)) buf f0 = (0, f1)" by blast
  have "\<exists>f k. s' = s\<lparr>g_env := (g_env s)\<lparr>be_flash := f, fw_download := k\<rparr>\<rparr>" using r(2) by blast
  moreover have "fst (fota_read A (fw_download (g_env s)) (length buf) f1) = 0 \<and>
      take (length buf) (snd (fota_read A (fw_download (g_env s)) (length buf) f1)) = buf"
    if "ret = 0" "fw_verify (g_env s) > 0"
    using r(3) [OF that(1)] that(2) by (auto dest: firmware_write_verified)
  moreover have "be_flash (g_env s') = f1" "fw_download (g_env s') = fw_download (g_env s) + (if ret = 0 then of_nat (length buf) else 0)"
    by (simp_all add: r(2))
  ultimately show ?thesis unfolding r(1) by (cases "ret = 0") simp_all
qed

theorem firmware_block_all_or_nothing_witness:
  "\<exists>f k. snd (atcmd_firmware_download broken_flash ''abc'' (demo_atcmd demo_served ((basic_start ())\<lparr>fw_verify := 1\<rparr>))) =
     (demo_atcmd demo_served ((basic_start ())\<lparr>fw_verify := 1\<rparr>))\<lparr>g_env := (basic_start ())\<lparr>fw_verify := 1, be_flash := f, fw_download := k\<rparr>\<rparr>"
  using firmware_block_all_or_nothing [OF surjective_pairing,
      of broken_flash "''abc''" "demo_atcmd demo_served ((basic_start ())\<lparr>fw_verify := 1\<rparr>)"]
  by (auto simp: demo_atcmd_def)

text \<open>The guards of a firmware block are exactly these: one to 4096 bytes, an offset equal to the
  number of bytes stored so far, and no data mode in progress; otherwise the command is refused with
  \<open>INVAL\<close> or \<open>FAIL\<close> and changes nothing.  The announced size of the firmware is not among them: blocks are
  accepted beyond it and without any announcement.\<close>

theorem firmware_block_guards:
  assumes "k < 2 ^ 31" and "n < 2 ^ 31"
  shows "atcmd_basic_firmware_download_set [dec_nat k, dec_nat n] s =
    (if n = 0 \<or> 4096 < n \<or> of_nat k \<noteq> fw_download (g_env s) then (ATCMD_ERROR_INVAL, s)
     else if dm_enable (g_data_mode s) then (ATCMD_ERROR_FAIL, s)
     else (ATCMD_SUCCESS, snd (atcmd_data_mode_enable
       (Some (fwbindl_params (of_nat n) (atcmd_timeout_value ''FWBINDL'' (g_env s)))) s)))"
  using assms by (rule download_set_exact)

theorem firmware_block_guards_witness:
  "fst (atcmd_basic_firmware_download_set [dec_nat 0, dec_nat 4096] (demo_atcmd demo_served (basic_start ()))) = ATCMD_SUCCESS \<and>
   fst (atcmd_basic_firmware_download_set [dec_nat 0, dec_nat 4097] (demo_atcmd demo_served (basic_start ()))) = ATCMD_ERROR_INVAL"
  using firmware_block_guards [of 0 4096 "demo_atcmd demo_served (basic_start ())"]
    firmware_block_guards [of 0 4097 "demo_atcmd demo_served (basic_start ())"]
  by (simp add: basic_start_def demo_atcmd_def)

text \<open>Asking for the usage of \<open>AT+FWUPDATE\<close> abandons the update in progress: \<open>AT+FWUPDATE=?\<close> falls
  through to the code that announces a firmware of size 0, so that the announcement, the count of
  stored bytes and the stored firmware information are gone, and the next block, at the offset
  reached before, is refused.\<close>

theorem usage_resets_update:
  assumes "shared_ok s" and "fw_download (g_env s) = of_nat k" and "0 < k" and "k < 2 ^ 31" and "n < 2 ^ 31"
    and "s' = snd (atcmd_basic_firmware_update_set A [] s)"
  shows "fst (atcmd_basic_firmware_update_set A [] s) = ATCMD_SUCCESS \<and>
    g_env s' = (g_env s)\<lparr>fw_size := 0, fw_crc32 := 0, fw_download := 0, fw_verify := 0,
       be_flash := fota_erase_info A (be_flash (g_env s))\<rparr> \<and>
    g_out s' = g_out s @ ''+AT+FWUPDATE=<binary_size>,<crc32>[,<verify>]'' @ [CR, LF] \<and>
    atcmd_basic_firmware_download_set [dec_nat k, dec_nat n] s' = (ATCMD_ERROR_INVAL, s')"
proof -
  have p: "msg_put ''AT+FWUPDATE=<binary_size>,<crc32>[,<verify>]'' s =
      atcmd_transmit (''+'' @ ''AT+FWUPDATE=<binary_size>,<crc32>[,<verify>]'' @ [CR, LF]) s"
    by (rule msg_put_prints [OF assms(1)]) simp
  have e: "g_env s' = (g_env s)\<lparr>fw_size := 0, fw_crc32 := 0, fw_download := 0, fw_verify := 0,
       be_flash := fota_erase_info A (be_flash (g_env s))\<rparr>"
    unfolding assms(6) atcmd_basic_firmware_update_set_def p by (simp add: fw_update_apply_def Let_def)
  have "unat (of_nat k :: u32) \<noteq> 0" using assms(3,4) by (simp add: unat_of_nat)
  then have "of_nat k \<noteq> (0 :: u32)" by (simp only: unat_eq_0 simp_thms)
  then have "atcmd_basic_firmware_download_set [dec_nat k, dec_nat n] s' = (ATCMD_ERROR_INVAL, s')"
    unfolding download_set_exact [OF assms(4,5)] by (simp add: e)
  moreover have "fst (atcmd_basic_firmware_update_set A [] s) = ATCMD_SUCCESS"
    "g_out s' = g_out s @ ''+AT+FWUPDATE=<binary_size>,<crc32>[,<verify>]'' @ [CR, LF]"
    unfolding assms(6) atcmd_basic_firmware_update_set_def p by (simp_all add: fw_update_apply_def Let_def atcmd_transmit_def)
  ultimately show ?thesis using e by blast
qed

theorem usage_resets_update_witness:
  "fw_download (g_env (snd (atcmd_basic_firmware_update_set broken_flash []
     (demo_atcmd demo_served ((basic_start ())\<lparr>fw_download := 4096\<rparr>))))) = 0"
  using usage_resets_update [of "demo_atcmd demo_served ((basic_start ())\<lparr>fw_download := 4096\<rparr>)" 4096 1 _ broken_flash]
  by (simp add: demo_atcmd_sel demo_shared)

text \<open>The parameters \<open>AT+SFUSER\<close> accepts are exactly the ranges inside the user area: a known mode, at
  least one byte, at most 4096 for reading and writing, and an end that does not exceed the area.  The
  unsigned sum of the check does not wrap for an area below 2 GiB.\<close>

theorem sf_user_range_exact:
  assumes "unat (user_size A f) < 2 ^ 31"
  shows "atcmd_sf_user_valid_params A mode off n f \<longleftrightarrow>
    mode \<in> {SF_USER_READ, SF_USER_WRITE, SF_USER_ERASE} \<and> 0 < unat n \<and> unat off + unat n \<le> unat (user_size A f) \<and>
    (mode \<noteq> SF_USER_ERASE \<longrightarrow> unat n \<le> 4096)"
  using assms by (rule valid_params_exact)

theorem sf_user_range_exact_witness:
  "atcmd_sf_user_valid_params broken_flash 0 102300 100 () \<and> \<not> atcmd_sf_user_valid_params broken_flash 0 102300 0xffffff9c ()"
  using sf_user_range_exact [of broken_flash "()" 0 102300 100] sf_user_range_exact [of broken_flash "()" 0 102300 "0xffffff9c"]
  by (simp add: broken_flash_def SF_USER_READ_def)

text \<open>Erasing a range of the user area erases exactly this range, whatever its alignment and length:
  the sector-sized writes of \<open>0xff\<close> stay inside the area and cover the range, every other byte keeps its
  value, and the command succeeds.\<close>

theorem sf_user_erases_range:
  assumes "user_flash_ok A img" and "be_mem (g_env s)" and "unat (user_size A (be_flash (g_env s))) < 2 ^ 31"
    and "atcmd_sf_user_valid_params A SF_USER_ERASE off n (be_flash (g_env s))"
  shows "\<exists>f. sf_user_run A False SF_USER_ERASE off n s = (ATCMD_SUCCESS, set_flash f s) \<and>
    (\<forall>j. img f j = (if unat off \<le> j \<and> j < unat off + unat n then CHR 0xff else img (be_flash (g_env s)) j))"
proof -
  have "unat off + unat n \<le> unat (user_size A (be_flash (g_env s)))"
    using assms(4) unfolding valid_params_exact [OF assms(3)] by simp
  from erase_loop_exact [OF assms(1) this, of 0] obtain f where
    "sf_erase_loop A off 0 (unat n) (be_flash (g_env s)) = (0, f)"
    "\<forall>j. img f j = (if unat off \<le> j \<and> j < unat off + unat n then CHR 0xff else img (be_flash (g_env s)) j)" by auto
  then show ?thesis using assms(2,4)
    by (auto simp: sf_user_run_def sf_user_erase_def SF_USER_ERASE_def SF_USER_READ_def SF_USER_WRITE_def result_codes)
qed

definition user_demo :: "(nat \<Rightarrow> char) flash_api" where
  "user_demo = \<lparr>fota_max_fw_size = (\<lambda>f. 8192), fota_write = (\<lambda>off b f. (-1, f)), fota_read = (\<lambda>off n f. (-1, [])),
     fota_erase = (\<lambda>off n f. (-1, f)), fota_erase_info = (\<lambda>f. f), fota_cal_crc = (\<lambda>n f. 0), fota_set_info = (\<lambda>n c f. f),
     fota_set_ready = (\<lambda>b f. f), flash_size = (\<lambda>f. 0x400000), user_addr = (\<lambda>f. 0x3DA000), user_size = (\<lambda>f. 102400),
     user_read = (\<lambda>off n f. (0, map f [unat off..<unat off + unat n])),
     user_write = (\<lambda>off b f. (0, \<lambda>j. if unat off \<le> j \<and> j < unat off + length b then b ! (j - unat off) else f j)),
     user_erase = (\<lambda>f. (0, \<lambda>j. CHR 0xff)), factory_info = (\<lambda>f. (-1, 0, 0)), factory_read = (\<lambda>n f. (-1, []))\<rparr>"

lemma user_demo_ok: "user_flash_ok user_demo (\<lambda>f. f)"
  unfolding user_flash_ok_def by (intro allI impI) (simp add: user_demo_def)

theorem sf_user_erases_range_witness:
  "\<exists>f. sf_user_run user_demo False SF_USER_ERASE 100 5000 (demo_atcmd demo_served (basic_start (\<lambda>_. CHR ''x''))) =
      (ATCMD_SUCCESS, set_flash f (demo_atcmd demo_served (basic_start (\<lambda>_. CHR ''x'')))) \<and>
    f 99 = CHR ''x'' \<and> f 4999 = CHR 0xff \<and> f 5100 = CHR ''x''"
proof -
  let ?s = "demo_atcmd demo_served (basic_start (\<lambda>_. CHR ''x''))"
  have v: "unat (user_size user_demo (be_flash (g_env ?s))) < 2 ^ 31" by (simp add: user_demo_def)
  have "atcmd_sf_user_valid_params user_demo SF_USER_ERASE 100 5000 (be_flash (g_env ?s))"
    unfolding valid_params_exact [OF v] by (simp add: user_demo_def)
  from sf_user_erases_range [OF user_demo_ok _ v this] obtain f where
    f: "sf_user_run user_demo False SF_USER_ERASE 100 5000 ?s = (ATCMD_SUCCESS, set_flash f ?s)"
    "\<forall>j. f j = (if 100 \<le> j \<and> j < 5100 then CHR 0xff else CHR ''x'')"
    by (auto simp: demo_atcmd_sel basic_start_def)
  show ?thesis by (intro exI [of _ f]) (simp add: f(1), simp add: f(2))
qed

end
