(* ===== verification/HostFirmwareProps.thy ===== *)
theory HostFirmwareProps
  imports HostFirmware FlashProps
begin

text \<open>
  The properties of the firmware update: what a download leaves in the flash and reports to the host,
  end to end, and the properties of the target's commands behind it.
\<close>

subsection \<open>Examples\<close>

text \<open>A flash of 8192 bytes without faults, and one that does not accept writes.\<close>

definition demo_flash :: "(nat \<Rightarrow> char) flash_api" where
  "demo_flash = \<lparr>fota_max_fw_size = (\<lambda>f. 8192),
     fota_write = (\<lambda>off b f. (0, \<lambda>j. if unat off \<le> j \<and> j < unat off + length b then b ! (j - unat off) else f j)),
     fota_read = (\<lambda>off n f. (0, map f [unat off..<unat off + n])),
     fota_erase = (\<lambda>off n f. (0, \<lambda>j. if unat off \<le> j \<and> j < unat off + unat n then CHR 0xff else f j)),
     fota_erase_info = (\<lambda>f. f), fota_cal_crc = (\<lambda>n f. of_char (f 0)), fota_set_info = (\<lambda>n c f. f(9000 := CHR ''i'')),
     fota_set_ready = (\<lambda>b f. f(9001 := CHR ''r'')), flash_size = (\<lambda>f. 0x400000), user_addr = (\<lambda>f. 0x3DA000),
     user_size = (\<lambda>f. 102400), user_read = (\<lambda>off n f. (0, map f [10000 + unat off..<10000 + unat off + unat n])),
     user_write = (\<lambda>off b f. (0, \<lambda>j. if 10000 + unat off \<le> j \<and> j < 10000 + unat off + length b
        then b ! (j - (10000 + unat off)) else f j)),
     user_erase = (\<lambda>f. (0, \<lambda>j. if 10000 \<le> j \<and> j < 112400 then CHR 0xff else f j)),
     factory_info = (\<lambda>f. (0, 0x3D9000, 512)), factory_read = (\<lambda>n f. (0, replicate (unat n) (CHR ''F'')))\<rparr>"

definition stuck_flash :: "(nat \<Rightarrow> char) flash_api" where
  "stuck_flash = demo_flash\<lparr>fota_write := (\<lambda>off b f. (-1, f))\<rparr>"

lemma demo_flash_ok: "flash_ok demo_flash (\<lambda>f. f)"
  unfolding flash_ok_def by (intro conjI allI impI) (simp_all add: demo_flash_def)

definition basic_info :: "string \<Rightarrow> bool \<Rightarrow> atcmd_info" where
  "basic_info name run = \<lparr>c_group = 0, c_id = 0, c_cmd = name, c_handler = (\<lambda>t. run \<or> t \<noteq> ATCMD_HANDLER_RUN)\<rparr>"

definition demo_basic :: registry where
  "demo_basic = demo_registry\<lparr>infos := (infos demo_registry)(30 := basic_info ''FWUPDATE'' True, 40 := basic_info ''FWBINDL'' False),
     heap := atcmd_list_add 20 30 (atcmd_list_add 20 40 (atcmd_list_add 1 10 (heap demo_registry)))\<rparr>"

abbreviation demo_cmds :: "addr \<Rightarrow> addr list" where "demo_cmds \<equiv> (\<lambda>_. [])(10 := [30, 40])"

lemma demo_basic_ok: "reg_ok demo_basic [10] [10] demo_cmds"
  by (simp add: reg_ok_def reg_nodes_def demo_basic_def demo_registry_def linked_def list_add_links)

lemma demo_basic_commands: "fw_registered flash_ids [10] demo_cmds demo_basic"
  by (simp add: fw_registered_def flash_ids_def in_group_def group_matches_def find_addr_def demo_basic_def demo_registry_def
      basic_info_def)

abbreviation demo_env :: "(nat \<Rightarrow> char) basic_env" where "demo_env \<equiv> basic_start (\<lambda>_. CHR ''?'')"

definition demo_target :: "'e \<Rightarrow> 'e target" where
  "demo_target e = (demo_editor, demo_rx, demo_atcmd demo_basic e)"

lemma demo_target_rest: "fw_rest flash_ids [10] [10] demo_cmds (demo_target e) e"
proof -
  have "registry_ok demo_basic" unfolding registry_ok_def
    by (intro exI [of _ "[10]"] exI [of _ "[10]"] exI [of _ demo_cmds] conjI demo_basic_ok)
      (simp add: demo_basic_def demo_registry_def basic_info_def)
  then have "shared_ok (demo_atcmd demo_basic e)" by (simp add: shared_ok_def demo_atcmd_def)
  moreover have "g_registry (demo_atcmd demo_basic e) = demo_basic" "g_env (demo_atcmd demo_basic e) = e"
    "\<not> dm_enable (g_data_mode (demo_atcmd demo_basic e))" "g_out (demo_atcmd demo_basic e) = []"
    by (simp_all add: demo_atcmd_def)
  ultimately show ?thesis using demo_editing demo_basic_ok demo_basic_commands
    by (simp add: fw_rest_def target_rest_def demo_target_def demo_rx_def demo_config)
qed

definition demo_fw_host :: "dl_flags host" where
  "demo_fw_host = \<lparr>h_ready = True, data_send = 0, data_recv = 0, ret_val = ATCMD_RET_NONE, ret_signals = 0,
     cb_boot = None, cb_info = None, cb_event = None, cb_rxd = None,
     m_type = ATCMD_MSG_NONE, m_cnt = 0, m_buf = replicate 129 NUL, r_rxd = None, r_cnt = 0,
     r_buf = replicate 4097 NUL, h_env = no_flags\<rparr>"

lemma demo_fw_host_rest: "host_rest demo_fw_host" "cb_event demo_fw_host = None"
  by (simp_all add: host_rest_def demo_fw_host_def host_idle_def receiving_def has_def rxd_local_def)

subsection \<open>Properties\<close>

text \<open>C5: The host's firmware download is correct end to end: from rest, with a flash that works, an
  image that fits, and a checksum other than zero, \<open>nrc_atcmd_firmware_download\<close> on the host, talking to the
  command parser, dispatcher, data mode and flash commands of the target, returns 0; then exactly
  the image is in the target's flash, its length, checksum and verification mode are recorded, all of
  its bytes are counted, both sides are at rest again and the host's event callback is unregistered.\<close>

theorem firmware_download_stores_image:
  assumes "fw_rest ids U gs cs t e" and "host_rest h" and "cb_event h = None" and "\<And>f. M f"
    and "handlers_ok H" and "handlers_dm_ok H" and "flash_ok A img"
    and "bin \<noteq> []" and "length bin \<le> unat (fota_max_fw_size A (be_flash e))" and "length bin < 2 ^ 31"
    and "crc \<noteq> 0" and "v \<le> 2"
  shows "\<exists>t' h' e'. nrc_atcmd_firmware_download (link_peer (basic_handlers A ids H) (basic_consumers A C) M) bin crc v (t, h) =
      Some (0, t', h') \<and>
    fw_rest ids U gs cs t' e' \<and> host_rest h' \<and> cb_event h' = None \<and>
    map (img (be_flash e')) [0..<length bin] = bin \<and> fw_download e' = of_nat (length bin) \<and>
    fw_size e' = of_nat (length bin) \<and> fw_crc32 e' = crc \<and> fw_verify e' = int v"
proof -
  let ?n = "length bin" and ?f0 = "fota_erase_info A (be_flash e)"
  have n: "unat (of_nat ?n :: u32) = ?n" using assms(10) by (simp add: unat_of_nat)
  have mx: "fota_max_fw_size A (fota_erase_info A f) = fota_max_fw_size A f" "img (fota_erase_info A f) = img f" for f
    using assms(7) by (simp_all add: flash_ok_def)
  have "unat (of_nat ?n :: u32) \<le> unat (fota_max_fw_size A ?f0)" using assms(9) mx n by simp
  then obtain f where f: "fota_erase A 0 (of_nat ?n) ?f0 = (0, f)" "fota_max_fw_size A f = fota_max_fw_size A ?f0"
    "\<forall>i < unat (of_nat ?n :: u32). img f i = CHR 0xff"
    using assms(7) unfolding flash_ok_def by blast
  define e1 where "e1 = e\<lparr>fw_size := of_nat ?n, fw_crc32 := crc, fw_download := 0, fw_verify := int v,
      be_flash := fota_erase_info A (snd (fota_erase A 0 (of_nat ?n) ?f0))\<rparr>"
  let ?p = "(of_nat ?n, crc, v)"
  have st: "fw_stored A img bin ?p 0 e1" using assms(9) f mx n by (simp add: fw_stored_def e1_def)
  note H = basic_handlers_sound(1) [OF assms(5,6), where A = A and ids = ids]
  have run: "\<exists>t' h' e'. nrc_atcmd_firmware_download (link_peer (basic_handlers A ids H) (basic_consumers A C) M) bin crc v (t, h) =
      Some (0, t', h') \<and> fw_rest ids U gs cs t' e' \<and> host_rest h' \<and> fw_stored A img bin ?p ?n e' \<and> cb_event h' = None"
    by (rule fw_download_run [OF assms(1-4) H mx(1) assms(8-12) e1_def])
      (use fw_blocks [where A = A and C = C and M = M and H = H and p = ?p, OF _ _ assms(4) H _ assms(7) st _ assms(10)]
        in \<open>auto simp: fw_stored_def\<close>)
  have "map (img (be_flash e')) [0..<?n] = bin" if "fw_stored A img bin ?p ?n e'" for e' :: "('a, 'b) basic_env_scheme"
    using that by (intro nth_equalityI) (auto simp: fw_stored_def)
  then show ?thesis using run by (fastforce simp: fw_stored_def)
qed

theorem firmware_download_stores_image_witness:
  "\<exists>t' h' e'. nrc_atcmd_firmware_download
      (link_peer (basic_handlers demo_flash flash_ids refuse) (basic_consumers demo_flash swallow) (\<lambda>_. True))
      (concat (replicate 1000 ''hello'')) 7 1 (demo_target demo_env, demo_fw_host) = Some (0, t', h') \<and>
    map (be_flash e') [0..<5000] = concat (replicate 1000 ''hello'') \<and> g_env (snd (snd t')) = e'"
proof -
  have l: "length (concat (replicate 1000 ''hello'')) = 5000" by (simp add: length_concat sum_list_replicate)
  have "\<exists>t' h' e'. nrc_atcmd_firmware_download
      (link_peer (basic_handlers demo_flash flash_ids refuse) (basic_consumers demo_flash swallow) (\<lambda>_. True))
      (concat (replicate 1000 ''hello'')) 7 1 (demo_target demo_env, demo_fw_host) = Some (0, t', h') \<and>
    fw_rest flash_ids [10] [10] demo_cmds t' e' \<and> host_rest h' \<and> cb_event h' = None \<and>
    map (be_flash e') [0..<length (concat (replicate 1000 ''hello''))] = concat (replicate 1000 ''hello'') \<and>
    fw_download e' = of_nat (length (concat (replicate 1000 ''hello''))) \<and>
    fw_size e' = of_nat (length (concat (replicate 1000 ''hello''))) \<and> fw_crc32 e' = 7 \<and> fw_verify e' = int 1"
    by (rule firmware_download_stores_image [OF demo_target_rest demo_fw_host_rest _ refuse_ok(1,2) demo_flash_ok])
      (simp_all only: l, simp_all add: demo_flash_def replicate_eq_replicate)
  then show ?thesis unfolding l by (auto simp: fw_rest_def)
qed

text \<open>C27: The host does not see that its last block was lost: when the flash refuses an image of one
  block, the target answers the data with the events \<open>FWBINDL_DROP\<close> and \<open>FWBINDL_DONE\<close>, and the download,
  which looks for \<open>FWBINDL_DONE\<close> only, returns 0 although not a byte is in the flash.\<close>

theorem firmware_download_hides_failure:
  assumes "fw_rest ids U gs cs t e" and "host_rest h" and "cb_event h = None" and "\<And>f. M f"
    and "handlers_ok H" and "handlers_dm_ok H"
    and "\<And>f. fota_max_fw_size A (fota_erase_info A f) = fota_max_fw_size A f"
    and "\<And>off f. fst (fota_write A off bin f) \<noteq> 0"
    and "bin \<noteq> []" and "length bin \<le> unat (fota_max_fw_size A (be_flash e))" and "length bin \<le> 4096"
    and "crc \<noteq> 0" and "v \<le> 2"
  shows "\<exists>t' h' e'. nrc_atcmd_firmware_download (link_peer (basic_handlers A ids H) (basic_consumers A C) M) bin crc v (t, h) =
      Some (0, t', h') \<and> fw_rest ids U gs cs t' e' \<and> fw_download e' = 0"
proof -
  let ?n = "length bin" and ?P = "link_peer (basic_handlers A ids H) (basic_consumers A C) M"
  have n: "0 < ?n" "?n < 2 ^ 31" using assms(9,11) by simp_all
  define e1 where "e1 = e\<lparr>fw_size := of_nat ?n, fw_crc32 := crc, fw_download := 0, fw_verify := int v,
      be_flash := fota_erase_info A (snd (fota_erase A 0 (of_nat ?n) (fota_erase_info A (be_flash e))))\<rparr>"
  note H = basic_handlers_sound(1) [OF assms(5,6), where A = A and ids = ids]
  have w: "firmware_write A w off bin f0 \<noteq> (0, f1)" for w off f0 f1
    using assms(8) [of off f0] by (cases "fota_write A off bin f0") (simp add: firmware_write_def)
  have none: "fw_download (g_env (snd (atcmd_firmware_download A bin s))) = fw_download (g_env s) \<and>
      fw_verify (g_env (snd (atcmd_firmware_download A bin s))) = fw_verify (g_env s)" for s :: "('a, 'b) basic"
    using download_result [of A bin s] w by auto
  have block: "\<exists>t2 h2 e2. download_blocks ?P bin 0 (t1, h1) = Some (True, t2, h2) \<and>
      fw_rest ids U gs cs t2 e2 \<and> host_rest h2 \<and> fw_download e2 = 0 \<and> fw_verify e2 = int v"
    if r: "fw_rest ids U gs cs t1 e1" "host_rest h1" "cb_event h1 = Some firmware_download_event_callback" for t1 h1
  proof -
    have d: "fw_download e1 = of_nat 0" "(0 :: nat) < 2 ^ 31" "fw_verify e1 = int v" by (simp_all add: e1_def)
    have k: "0 + ?n \<le> ?n" by simp
    from fw_block [where A = A and C = C and M = M and H = H, OF r(1,2) assms(4) H r(3) d(1,2) n(1) assms(11) k] obtain t2 h2 s where
      b: "download_block ?P bin 0 ?n (t1, h1) = Some (True, t2, h2)" "g_env s = e1"
        "fw_rest ids U gs cs t2 (g_env (snd (atcmd_firmware_download A bin s)))" "host_rest h2" by auto
    have "download_blocks ?P bin 0 (t1, h1) = Some (True, t2, h2)"
      using b(1) n(1) assms(11) by (subst download_blocks.simps) (subst download_blocks.simps, auto simp: Let_def)
    then show ?thesis using b none [of s] d by auto
  qed
  have "\<exists>t' h' e'. nrc_atcmd_firmware_download ?P bin crc v (t, h) = Some (0, t', h') \<and> fw_rest ids U gs cs t' e' \<and> host_rest h' \<and>
      (fw_download e' = 0 \<and> fw_verify e' = int v) \<and> cb_event h' = None"
    by (rule fw_download_run [OF assms(1-4) H assms(7,9,10) n(2) assms(12,13) e1_def]) (use block in auto)
  then show ?thesis by blast
qed

theorem firmware_download_hides_failure_witness:
  "\<exists>t' h' e'. nrc_atcmd_firmware_download
      (link_peer (basic_handlers stuck_flash flash_ids refuse) (basic_consumers stuck_flash swallow) (\<lambda>_. True))
      ''hello'' 7 0 (demo_target demo_env, demo_fw_host) = Some (0, t', h') \<and>
    fw_rest flash_ids [10] [10] demo_cmds t' e' \<and> fw_download e' = 0"
  by (rule firmware_download_hides_failure [OF demo_target_rest demo_fw_host_rest _ refuse_ok(1,2)])
    (simp_all add: stuck_flash_def demo_flash_def)

text \<open>C17: \<open>AT+FWUPDATE\<close> activates exactly the announced firmware, end to end: with a size and a checksum
  announced, the host's command returns OK, and the target records the size and the checksum and marks the
  firmware ready, when the checksum of the stored bytes is the announced one; otherwise the host's
  command returns an error and the flash is as before.\<close>

theorem firmware_update_activates:
  assumes "fw_rest ids U gs cs t e" and "host_rest h" and "\<And>f. M f" and "handlers_ok H" and "handlers_dm_ok H"
    and "fw_size e \<noteq> 0" and "fw_size e \<le> fota_max_fw_size A (be_flash e)" and "fw_crc32 e \<noteq> 0"
    and "ok \<longleftrightarrow> fota_cal_crc A (fw_size e) (be_flash e) = fw_crc32 e"
    and "e' = (if ok then e\<lparr>be_flash := fota_set_ready A True (fota_set_info A (fw_size e) (fw_crc32 e) (be_flash e))\<rparr> else e)"
  shows "\<exists>t' h'. exchange_cmd (basic_handlers A ids H) C M ''AT+FWUPDATE'' (t, h) =
      Some (if ok then ATCMD_RET_OK else ATCMD_RET_ERROR, t', h') \<and>
    fw_rest ids U gs cs t' e' \<and> host_rest h'"
proof -
  obtain ed rx s where st: "t = (ed, rx, s)" by (cases t)
  have T: "target_rest U gs cs (ed, rx, s)" "\<not> dm_enable (g_data_mode s)" "fw_registered ids gs cs (g_registry s)" "g_env s = e"
    "g_out s = []"
    using assms(1) by (simp_all add: fw_rest_def st target_rest_def)
  define ret :: int where "ret = (if ok then 0 else 3)"
  have ret: "ret \<noteq> -1" "ret = 0 \<longleftrightarrow> ok" "- (2 ^ 31) \<le> ret" "ret < 2 ^ 31" by (simp_all add: ret_def)
  let ?s0 = "s\<lparr>g_prompt_enter := False\<rparr>" and ?s1 = "(s\<lparr>g_prompt_enter := False\<rparr>)\<lparr>g_env := e'\<rparr>"
  have reg: "lookup_command (g_registry s) cs ''FWUPDATE'' gs = ai_fw_update ids" "ai_fw_update ids \<noteq> 0"
    "c_handler (infos (g_registry s) (ai_fw_update ids)) ATCMD_HANDLER_RUN"
    using T(3) by (simp_all add: fw_registered_def)
  have p: "atcmd_parse (''FWUPDATE'' @ [LF] @ r) = Parsed (Some ATCMD_HANDLER_RUN) (''FWUPDATE'' # [])" for r
    using parse_query_forms [of "''FWUPDATE''" "[LF]" "''x''" r] upper_names(1) by (simp add: plain_def eol_ok_def text_char_def)
  have call: "basic_handlers A ids H (ai_fw_update ids) ATCMD_HANDLER_RUN [] ?s0 = (ret, ?s1)"
    using assms(6-10) T(4) by (auto simp: ret_def basic_handlers_def atcmd_basic_firmware_update_run_def Let_def result_codes set_flash_def)
  have w: "line_ok (''AT+'' @ ''FWUPDATE'')" by (simp add: line_ok_def printable_def)
  have wait: "snd (wait_setup ((''AT+'' @ ''FWUPDATE'') @ [CR, LF]) (nrc_atcmd_init_return h)) = nrc_atcmd_init_return h"
    by (simp add: wait_setup_def)
  have ans: "\<forall>m \<in> set (answer_msgs ''FWUPDATE'' ret). host_msg_ok m"
    using answer_msgs_ok [of "''FWUPDATE''" ret] upper_names ret
    by (simp add: text_char_def special_headers_def header_types_def)
  note H = basic_handlers_sound(1) [OF assms(4,5), where A = A and ids = ids]
  obtain ed' h' where r: "exchange_cmd (basic_handlers A ids H) C M (''AT+'' @ ''FWUPDATE'') ((ed, rx, s), h) =
      Some (if ok then ATCMD_RET_OK else ATCMD_RET_ERROR,
        (ed', rx, (atcmd_prompt_enter (answered ''FWUPDATE'' ret ?s1))\<lparr>g_out := []\<rparr>), h')"
    "target_rest U gs cs (ed', rx, (atcmd_prompt_enter (answered ''FWUPDATE'' ret ?s1))\<lparr>g_out := []\<rparr>)" "host_rest h'"
    using exchange_command [where C = C and M = M and ms = "[]", OF T(1,2) H assms(2,3) w _ _ p wait reg call _ _ ret(1) ans] T(5)
    unfolding ret(2) by auto
  have "fw_rest ids U gs cs (ed', rx, (atcmd_prompt_enter (answered ''FWUPDATE'' ret ?s1))\<lparr>g_out := []\<rparr>) e'"
    using r(2) T(2,3) by (simp add: fw_rest_def answered_def Let_def continue_dm)
  then show ?thesis using r(1,3) st by auto
qed

theorem firmware_update_activates_witness:
  "\<exists>t' h'. exchange_cmd (basic_handlers demo_flash flash_ids refuse) swallow (\<lambda>_. True) ''AT+FWUPDATE''
      (demo_target (demo_env\<lparr>fw_size := 10, fw_crc32 := 63\<rparr>), demo_fw_host) = Some (ATCMD_RET_OK, t', h') \<and>
    be_flash (g_env (snd (snd t'))) 9001 = CHR ''r''"
proof -
  let ?e = "demo_env\<lparr>fw_size := 10, fw_crc32 := 63\<rparr>"
  have "\<exists>t' h'. exchange_cmd (basic_handlers demo_flash flash_ids refuse) swallow (\<lambda>_. True) ''AT+FWUPDATE'' (demo_target ?e, demo_fw_host) =
      Some (if True then ATCMD_RET_OK else ATCMD_RET_ERROR, t', h') \<and>
    fw_rest flash_ids [10] [10] demo_cmds t'
      (?e\<lparr>be_flash := fota_set_ready demo_flash True (fota_set_info demo_flash (fw_size ?e) (fw_crc32 ?e) (be_flash ?e))\<rparr>) \<and> host_rest h'"
    by (rule firmware_update_activates [OF demo_target_rest demo_fw_host_rest(1) _ refuse_ok(1,2)])
      (simp_all add: demo_flash_def basic_start_def)
  then show ?thesis by (auto simp: fw_rest_def demo_flash_def)
qed

end
