(* ===== verification/HostUserArea.thy ===== *)
theory HostUserArea
  imports HostFirmware FlashProps
begin

text \<open>
  The user area over the AT commands: \<open>AT+SFUSER\<close> writes a block through the data mode and reads it back
  as a block announced to the host.
\<close>

definition sf_registered :: "basic_ids \<Rightarrow> addr list \<Rightarrow> (addr \<Rightarrow> addr list) \<Rightarrow> registry \<Rightarrow> bool" where
  "sf_registered ids gs cs r \<longleftrightarrow>
     lookup_command r cs ''SFUSER'' gs = ai_sf_user ids \<and> ai_sf_user ids \<noteq> 0 \<and>
     ai_sf_user ids \<noteq> ai_fw_update ids \<and> ai_sf_user ids \<noteq> ai_fw_download ids \<and>
     c_handler (infos r (ai_sf_user ids)) ATCMD_HANDLER_SET"

definition sf_rest ::
  "basic_ids \<Rightarrow> addr list \<Rightarrow> addr list \<Rightarrow> (addr \<Rightarrow> addr list) \<Rightarrow> ('f, 'z) basic_env_scheme target \<Rightarrow> ('f, 'z) basic_env_scheme \<Rightarrow> bool"
where
  "sf_rest ids U gs cs t e \<longleftrightarrow> target_rest U gs cs t \<and> \<not> dm_enable (g_data_mode (snd (snd t))) \<and>
     sf_registered ids gs cs (g_registry (snd (snd t))) \<and> g_env (snd (snd t)) = e"

text \<open>The area, its support and the reading of it; writing is \<open>user_flash_ok\<close>.\<close>

definition user_area_ok :: "'f flash_api \<Rightarrow> ('f \<Rightarrow> nat \<Rightarrow> char) \<Rightarrow> bool" where
  "user_area_ok A img \<longleftrightarrow> user_flash_ok A img \<and>
    (\<forall>f off n. unat off + unat n \<le> unat (user_size A f) \<longrightarrow>
       user_read A off n f = (0, map (img f) [unat off..<unat off + unat n])) \<and>
    (\<forall>f off b. atcmd_sf_user_support A (snd (user_write A off b f)) = atcmd_sf_user_support A f)"

definition sf_line :: "nat \<Rightarrow> nat \<Rightarrow> nat \<Rightarrow> string" where
  "sf_line mode k n = ''SFUSER='' @ join_params [dec_nat mode, dec_nat k, dec_nat n]"

lemma upper_sfuser: "map upper_char ''SFUSER'' = ''SFUSER''" by code_simp

lemma sf_line_ok:
  assumes "mode \<le> 2" and "k < 2 ^ 31" and "n \<le> 4096"
  shows "line_ok (''AT+'' @ sf_line mode k n)" and "2 \<le> length (sf_line mode k n)" and "length (sf_line mode k n) \<le> 123"
    and "atcmd_parse (sf_line mode k n @ [LF] @ z) = Parsed (Some ATCMD_HANDLER_SET) (''SFUSER'' # [dec_nat mode, dec_nat k, dec_nat n])"
    and "snd (wait_setup ((''AT+'' @ sf_line mode k n) @ [CR, LF]) h) = h"
proof -
  let ?ps = "[dec_nat mode, dec_nat k, dec_nat n]"
  have l: "length (dec_nat mode) \<le> 1" "length (dec_nat k) \<le> 10" "length (dec_nat n) \<le> 4"
    using dec_nat_length [of mode 1] dec_nat_length [of k 10] dec_nat_length [of n 4] assms by simp_all
  have len: "length (''SFUSER'' @ ''='' @ join_params ?ps) \<le> 123" using l by simp
  have e: "sf_line mode k n = ''SFUSER'' @ ''='' @ join_params ?ps" by (simp add: sf_line_def)
  have ne: "dec_nat mode \<noteq> []" "dec_nat k \<noteq> []" "dec_nat n \<noteq> []" using dec_nat_head by auto
  show "2 \<le> length (sf_line mode k n)" "length (sf_line mode k n) \<le> 123" using len by (simp_all add: e)
  show "line_ok (''AT+'' @ sf_line mode k n)"
    "atcmd_parse (sf_line mode k n @ [LF] @ z) = Parsed (Some ATCMD_HANDLER_SET) (''SFUSER'' # ?ps)"
    unfolding e using set_params_ok(1) [where ps = ?ps, OF _ _ _ _ _ upper_sfuser len] ne
      set_params_ok(2) [where ps = ?ps and z = z, OF _ _ _ _ _ upper_sfuser len]
    by (simp_all add: plain_def printable_def)
  show "snd (wait_setup ((''AT+'' @ sf_line mode k n) @ [CR, LF]) h) = h"
    by (simp add: wait_setup_def sf_line_def)
qed

lemma sf_set_runs:
  assumes "atcmd_sf_user_support A (be_flash (g_env s))" and "mode \<le> 2" and "k < 2 ^ 31" and "n \<le> 4096"
  shows "atcmd_basic_sf_user_set A [dec_nat mode, dec_nat k, dec_nat n] s = sf_user_run A False (int mode) (of_nat k) (of_nat n) s"
proof -
  have two: "two_uint32 err (dec_nat k) (dec_nat n) = (Some (of_nat k, of_nat n), err)" for err
    using assms by (intro two_uint_print) simp_all
  have m: "t_atoi err (dec_nat mode) = (int mode, err)" for err using atoi_print [of mode err] assms(2) by simp
  have e: "set_errno (be_errno (g_env s)) s = s" by (simp add: set_errno_def)
  show ?thesis unfolding atcmd_basic_sf_user_set_def Let_def
    using assms(1) two [of "be_errno (g_env s)"] m e by simp
qed

subsection \<open>Writing\<close>

definition sfuser_params :: "nat \<Rightarrow> nat \<Rightarrow> dm_params" where
  "sfuser_params k n = (atcmd_data_mode_init_params ATCMD_DATA_SFUSER)
     \<lparr>dm_len := of_nat n, dm_timeout := 1000, done_event := True, sfuser_offset := of_nat k\<rparr>"

text \<open>In the data mode, with \<open>n\<close> bytes for offset \<open>k\<close> announced and none received.\<close>

definition sf_data ::
  "basic_ids \<Rightarrow> addr list \<Rightarrow> addr list \<Rightarrow> (addr \<Rightarrow> addr list) \<Rightarrow> nat \<Rightarrow> nat \<Rightarrow> ('f, 'z) basic_env_scheme target \<Rightarrow>
   ('f, 'z) basic_env_scheme \<Rightarrow> bool"
where
  "sf_data ids U gs cs k n t e \<longleftrightarrow> target_rest U gs cs t \<and> sf_registered ids gs cs (g_registry (snd (snd t))) \<and>
     g_env (snd (snd t)) = e \<and>
     (let d = g_data_mode (snd (snd t))
      in dm_enable d \<and> \<not> dm_idle d \<and> dm_cnt d = 0 \<and> send_len d = of_nat n \<and> send_done d = 0 \<and> send_drop d = 0 \<and>
         params d = sfuser_params k n)"

lemma sf_open:
  assumes t: "sf_rest ids U gs cs t e" and h: "host_rest h" and M: "\<And>e. M e"
    and H: "handlers_ok (basic_handlers A ids H)"
    and sup: "atcmd_sf_user_support A (be_flash e)" and sz: "unat (user_size A (be_flash e)) < 2 ^ 31"
    and n: "0 < n" "n \<le> 4096" "k + n \<le> unat (user_size A (be_flash e))"
  shows "\<exists>t' h'. exchange_cmd (basic_handlers A ids H) C M (''AT+'' @ sf_line 1 k n) (t, h) = Some (ATCMD_RET_OK, t', h') \<and>
    sf_data ids U gs cs k n t' e \<and> host_rest h' \<and> frame h' = frame (nrc_atcmd_set_return ATCMD_RET_OK (nrc_atcmd_init_return h))"
proof -
  obtain ed rx s where st: "t = (ed, rx, s)" by (cases t)
  have T: "target_rest U gs cs (ed, rx, s)" "\<not> dm_enable (g_data_mode s)" "sf_registered ids gs cs (g_registry s)" "g_env s = e"
    "g_out s = []"
    using t by (simp_all add: sf_rest_def st target_rest_def)
  have reg: "lookup_command (g_registry s) cs ''SFUSER'' gs = ai_sf_user ids" "ai_sf_user ids \<noteq> 0"
    "c_handler (infos (g_registry s) (ai_sf_user ids)) ATCMD_HANDLER_SET"
    and neq: "ai_sf_user ids \<noteq> ai_fw_update ids" "ai_sf_user ids \<noteq> ai_fw_download ids"
    using T(3) by (simp_all add: sf_registered_def)
  have k: "k < 2 ^ 31" using n(3) sz by simp
  let ?s0 = "s\<lparr>g_prompt_enter := False\<rparr>" and ?ps = "[dec_nat 1, dec_nat k, dec_nat n]"
  define s1 where "s1 = snd (atcmd_data_mode_enable (Some (sfuser_params k n)) ?s0)"
  have en: "atcmd_data_mode_enable (Some (sfuser_params k n)) ?s0 = (0, s1)"
    using T(2) by (simp add: atcmd_data_mode_enable_def s1_def sfuser_params_def)
  have u: "unat (of_nat k :: u32) = k" "unat (of_nat n :: u32) = n" using k n by (simp_all add: unat_of_nat)
  have valid: "atcmd_sf_user_valid_params A (int 1) (of_nat k) (of_nat n) (be_flash e)"
    unfolding valid_params_exact [OF sz] u using n by (simp add: SF_USER_WRITE_def SF_USER_ERASE_def)
  have "sf_user_run A False (int 1) (of_nat k) (of_nat n) ?s0 = (0, s1)"
    using valid en T(4) by (simp add: sf_user_run_def SF_USER_READ_def SF_USER_WRITE_def sfuser_params_def result_codes)
  then have call: "basic_handlers A ids H (ai_sf_user ids) ATCMD_HANDLER_SET ?ps ?s0 = (0, s1)"
    using sf_set_runs [of A ?s0 1 k n] sup k n(2) T(4) neq by (simp add: basic_handlers_def)
  have d1: "g_data_mode s1 = (g_data_mode s)\<lparr>params := sfuser_params k n, dm_enable := True, dm_idle := False, dm_cnt := 0,
      send_len := of_nat n, send_done := 0, send_drop := 0, send_timeout := 1100, last_send_time := 0\<rparr>"
    and s1k: "g_registry s1 = g_registry s" "g_config s1 = g_config s" "g_env s1 = e" "g_out s1 = concat (map encode [])"
    using T by (simp_all add: atcmd_data_mode_enable_def s1_def sfuser_params_def)
  note L = sf_line_ok [of 1 k n, OF _ k n(2)]
  have ans: "\<forall>m \<in> set (answer_msgs ''SFUSER'' 0). host_msg_ok m" by (simp add: answer_msgs_def)
  let ?s' = "(atcmd_prompt_enter (answered ''SFUSER'' 0 s1))\<lparr>g_out := []\<rparr>"
  obtain ed' h' where r: "exchange_cmd (basic_handlers A ids H) C M (''AT+'' @ sf_line 1 k n) ((ed, rx, s), h) =
      Some (ATCMD_RET_OK, (ed', rx, ?s'), h')" "target_rest U gs cs (ed', rx, ?s')" "host_rest h'"
    "frame h' = fold host_effect ([] @ answer_msgs ''SFUSER'' 0) (frame (nrc_atcmd_init_return h))"
    using exchange_command [where C = C and M = M and ms = "[]", OF T(1,2) H h M L(1-3) L(4) L(5) reg call s1k(4) _ _ ans s1k(1,2)]
    by auto
  have "sf_data ids U gs cs k n (ed', rx, ?s') e"
    using r(2) T(3) s1k by (simp add: sf_data_def answered_def Let_def continue_dm d1)
  moreover have "frame h' = frame (nrc_atcmd_set_return ATCMD_RET_OK (nrc_atcmd_init_return h))"
    using r(4) by (simp add: answer_msgs_def nrc_atcmd_set_return_def frame_def)
  ultimately show ?thesis using r(1,3) st by blast
qed

definition sf_done_msg :: "nat \<Rightarrow> nat \<Rightarrow> host_msg" where
  "sf_done_msg k n = HmEvent CHR ''B'' ''SFUSER_DONE'' [fmt_u (of_nat k), fmt_u (of_nat n)]"

lemma sf_done_event:
  assumes "shared_ok s"
  shows "event (basic_consumers A C) (SfDone (of_nat k) (of_nat n)) s = atcmd_transmit (encode (sf_done_msg k n)) s"
    and "host_msg_ok (sf_done_msg k n)"
proof -
  let ?b = "''BEVENT:'' @ quoted ''SFUSER_DONE'' @ '','' @ fmt_u (of_nat k) @ '','' @ fmt_u (of_nat n)"
  have l: "length ?b \<le> 124" using fmt_u_length [of "of_nat k"] fmt_u_length [of "of_nat n"] by (simp add: quoted_def)
  have e: "basic_event_text (SfDone (of_nat k) (of_nat n)) = Some ?b" by (simp add: basic_event_text_def quoted_def)
  show "event (basic_consumers A C) (SfDone (of_nat k) (of_nat n)) s = atcmd_transmit (encode (sf_done_msg k n)) s"
    using msg_put_prints [OF assms l] by (simp add: basic_consumers_def e atcmd_basic_event_handler_def sf_done_msg_def)
  show "host_msg_ok (sf_done_msg k n)"
    using fmt_u_length [of "of_nat k"] fmt_u_length [of "of_nat n"] num_arg [OF fmt_u_num]
    by (simp add: sf_done_msg_def arg_char_def quoted_def)
qed

lemma sf_deliver:
  assumes t: "sf_data ids U gs cs k n (ed, rx, s) e" and n: "0 < n" "n \<le> 4096" "length d = n"
    and w: "user_write A (of_nat k) d (be_flash e) = (0, f)"
  shows "\<exists>s'. deliver_data (basic_consumers A C) (params (g_data_mode s)) False d (of_nat n) 0 0 s = s' \<and>
    \<not> dm_enable (g_data_mode s') \<and> g_env s' = e\<lparr>be_flash := f\<rparr> \<and> shared_ok s' \<and> g_registry s' = g_registry s \<and>
    g_config s' = g_config s \<and> g_out s' = encode (sf_done_msg k n)"
proof -
  have T: "dm_enable (g_data_mode s)" "params (g_data_mode s) = sfuser_params k n" "shared_ok s" "g_out s = []" "g_env s = e"
    using t by (simp_all add: sf_data_def target_rest_def Let_def)
  have un: "unat (of_nat n :: u32) = n" using n by (simp add: unat_of_nat)
  then have sn: "sint (of_nat n :: u32) = int n" using sint_small_u32 [of "of_nat n"] n by simp
  have p: "data_type (sfuser_params k n) = ATCMD_DATA_SFUSER" "done_event (sfuser_params k n)" "sfuser_offset (sfuser_params k n) = of_nat k"
    by (simp_all add: sfuser_params_def)
  let ?s1 = "s\<lparr>g_env := e\<lparr>be_flash := f\<rparr>\<rparr>"
  have sink: "receive_data_sink (basic_consumers A C) ATCMD_DATA_SFUSER i d (of_nat n) s = (int n, ?s1)" for i
    using n un sn T w by (simp add: receive_data_sink_def basic_consumers_def atcmd_sf_user_write_def set_flash_def p)
  have s1: "shared_ok ?s1" using T by simp
  show ?thesis using T n p sink sf_done_event(1) [where A = A and C = C, OF s1]
    by (simp add: deliver_data_def Let_def receive_data_done_def atcmd_data_mode_disable_def atcmd_transmit_def shared_ok_def)
qed

lemma sf_block_data:
  assumes t: "sf_data ids U gs cs k n (ed, rx, s) e" and h: "host_rest h" and M: "\<And>e. M e"
    and n: "0 < n" "n \<le> 4096" "length d = n" and w: "user_write A (of_nat k) d (be_flash e) = (0, f)"
  shows "\<exists>t' h'. exchange_data (basic_handlers A ids H) (basic_consumers A C) M d ((ed, rx, s), h) = Some (0, t', h') \<and>
    sf_rest ids U gs cs t' (e\<lparr>be_flash := f\<rparr>) \<and> host_rest h' \<and>
    frame h' = host_effect (sf_done_msg k n) (frame (h\<lparr>data_send := data_send h + of_nat n\<rparr>))"
proof -
  let ?s' = "deliver_data (basic_consumers A C) (params (g_data_mode s)) False d (of_nat n) 0 0 s"
  let ?h1 = "h\<lparr>data_send := data_send h + of_nat n\<rparr>"
  have T: "dm_enable (g_data_mode s)" "\<not> effective_pass (g_data_mode s)" "send_len (g_data_mode s) = of_nat n"
    "send_done (g_data_mode s) = 0" "send_drop (g_data_mode s) = 0" "d_exit rx = 0" "length (d_buf rx) = ATCMD_DATA_LEN_MAX"
    "\<not> dm_idle (g_data_mode s)" "dm_cnt (g_data_mode s) = 0"
    using t by (simp_all add: sf_data_def target_rest_def Let_def effective_pass_def sfuser_params_def)
  have un: "unat (of_nat n :: u32) = n" using n by (simp add: unat_of_nat)
  have c: "collecting rx s []" using T n un by (simp add: collecting_def ATCMD_DATA_LEN_MAX_def)
  have d: "d \<noteq> []" "length d \<le> ATCMD_DATA_LEN_MAX" using n by (auto simp: ATCMD_DATA_LEN_MAX_def)
  have one: "atcmd_receive_data (basic_consumers A C) d rx s = Some (n, rx, ?s')"
    unfolding collect_nat [OF c d] Let_def using T un n by simp
  obtain s' where s': "?s' = s'" "\<not> dm_enable (g_data_mode s')" "g_env s' = e\<lparr>be_flash := f\<rparr>"
    "shared_ok s'" "g_registry s' = g_registry s" "g_config s' = g_config s" "g_out s' = encode (sf_done_msg k n)"
    using sf_deliver [OF t n w] by blast
  have rec: "atcmd_receive (basic_handlers A ids H) (basic_consumers A C) True d (ed, rx, s) = Some (ed, rx, s')"
    using one d(1) T(1) n(3) s'(1) unfolding atcmd_receive_def
    by (subst receive_routed.simps, simp) (subst receive_routed.simps, simp)
  have so: "shared_ok s" using t by (simp add: sf_data_def target_rest_def)
  have ok: "\<forall>m \<in> set [sf_done_msg k n]. host_msg_ok m" using sf_done_event(2) [OF so] by simp
  obtain h' where h': "nrc_atcmd_recv M (encode (sf_done_msg k n)) ?h1 = Some h'" "host_rest h'"
      "frame h' = host_effect (sf_done_msg k n) (frame ?h1)"
    using host_hears [where M = M, OF _ M ok, of ?h1] h by auto
  have "exchange_data (basic_handlers A ids H) (basic_consumers A C) M d ((ed, rx, s), h) = Some (0, (ed, rx, s'\<lparr>g_out := []\<rparr>), h')"
    using rec h'(1) s'(7) n(3) by (simp add: exchange_data_def exchange_send_data deliver_def)
  moreover have "sf_rest ids U gs cs (ed, rx, s'\<lparr>g_out := []\<rparr>) (e\<lparr>be_flash := f\<rparr>)"
    using t s' by (simp add: sf_rest_def sf_data_def target_rest_def atcmd_config_status_def)
  ultimately show ?thesis using h'(2,3) by blast
qed

subsection \<open>Reading\<close>

lemma sf_read_prints:
  assumes s: "shared_ok s" and mem: "be_mem (g_env s)" and k: "k < 2 ^ 31" and n: "0 < n" "n \<le> 4096"
    and rd: "user_read A (of_nat k) (of_nat n) (be_flash (g_env s)) = (0, d)" and d: "length d = n"
  shows "\<exists>s1. sf_user_read A (of_nat k) (of_nat n) s = (ATCMD_NO_RETURN, s1) \<and> g_env s1 = g_env s \<and>
    g_registry s1 = g_registry s \<and> g_config s1 = g_config s \<and>
    g_data_mode s1 = g_data_mode (atcmd_data_mode_continue s) \<and>
    g_out s1 = g_out s @ concat (map encode [HmOk, HmSfuser k d])"
proof -
  have u: "unat (of_nat k :: u32) = k" "unat (of_nat n :: u32) = n" using k n by (simp_all add: unat_of_nat)
  have fk: "fmt_d (of_nat k) = dec_nat k" and fn: "fmt_d (of_nat n) = dec_nat n"
    using sint_small_u32 [of "of_nat k"] sint_small_u32 [of "of_nat n"] k n u by (simp_all add: fmt_d_def dec_int_def)
  let ?b = "''RXD_SFUSER:'' @ dec_nat k @ '','' @ dec_nat n"
  have l: "length ?b \<le> 124" using dec_nat_length [of k 10] dec_nat_length [of n 4] k n by simp
  have so: "shared_ok (msg_ok s)" using s by (simp add: msg_ok_eq)
  have line: "msg_line ?b (msg_ok s) = atcmd_transmit (''+'' @ ?b @ [CR, LF]) (msg_ok s)" by (rule msg_line_prints [OF so l])
  have buf: "take n (memcpy_at (replicate ATCMD_DATA_LEN_MAX NUL) 0 d) = d"
    using d by (simp add: memcpy_at_def)
  show ?thesis
    unfolding sf_user_read_def rd prod.case Let_def u buf fk fn line
    using mem d by (simp add: msg_ok_eq) (simp add: atcmd_data_mode_continue_def atcmd_data_mode_task_resume_def atcmd_transmit_def)
qed

lemma sf_read:
  assumes t: "sf_rest ids U gs cs t e" and h: "host_rest h" and M: "\<And>e. M e"
    and H: "handlers_ok (basic_handlers A ids H)"
    and sup: "atcmd_sf_user_support A (be_flash e)" and sz: "unat (user_size A (be_flash e)) < 2 ^ 31" and mem: "be_mem e"
    and n: "0 < n" "n \<le> 4096" "k + n \<le> unat (user_size A (be_flash e))"
    and rd: "user_read A (of_nat k) (of_nat n) (be_flash e) = (0, d)" "length d = n"
  shows "\<exists>t' h'. exchange_cmd (basic_handlers A ids H) C M (''AT+'' @ sf_line 0 k n) (t, h) = Some (ATCMD_RET_OK, t', h') \<and>
    sf_rest ids U gs cs t' e \<and> host_rest h' \<and>
    frame h' = fold host_effect [HmOk, HmSfuser k d] (frame (nrc_atcmd_init_return h))"
proof -
  obtain ed rx s where st: "t = (ed, rx, s)" by (cases t)
  have T: "target_rest U gs cs (ed, rx, s)" "\<not> dm_enable (g_data_mode s)" "sf_registered ids gs cs (g_registry s)" "g_env s = e"
    "g_out s = []" "shared_ok s"
    using t by (simp_all add: sf_rest_def st target_rest_def)
  have reg: "lookup_command (g_registry s) cs ''SFUSER'' gs = ai_sf_user ids" "ai_sf_user ids \<noteq> 0"
    "c_handler (infos (g_registry s) (ai_sf_user ids)) ATCMD_HANDLER_SET"
    and neq: "ai_sf_user ids \<noteq> ai_fw_update ids" "ai_sf_user ids \<noteq> ai_fw_download ids"
    using T(3) by (simp_all add: sf_registered_def)
  have k: "k < 2 ^ 31" using n(3) sz by simp
  let ?s0 = "s\<lparr>g_prompt_enter := False\<rparr>" and ?ps = "[dec_nat 0, dec_nat k, dec_nat n]" and ?ms = "[HmOk, HmSfuser k d]"
  have s0: "shared_ok ?s0" "be_mem (g_env ?s0)" "user_read A (of_nat k) (of_nat n) (be_flash (g_env ?s0)) = (0, d)"
    using T mem rd by simp_all
  obtain s1 where s1: "sf_user_read A (of_nat k) (of_nat n) ?s0 = (ATCMD_NO_RETURN, s1)" "g_env s1 = e"
    "g_registry s1 = g_registry s" "g_config s1 = g_config s" "g_data_mode s1 = g_data_mode s" "g_out s1 = concat (map encode ?ms)"
    using sf_read_prints [OF s0(1,2) k n(1,2) s0(3) rd(2)] T by (auto simp: continue_dm)
  have u: "unat (of_nat k :: u32) = k" "unat (of_nat n :: u32) = n" using k n by (simp_all add: unat_of_nat)
  have valid: "atcmd_sf_user_valid_params A (int 0) (of_nat k) (of_nat n) (be_flash e)"
    unfolding valid_params_exact [OF sz] u using n by (simp add: SF_USER_READ_def SF_USER_ERASE_def)
  have "sf_user_run A False (int 0) (of_nat k) (of_nat n) ?s0 = (-1, s1)"
    using valid s1(1) T(4) by (simp add: sf_user_run_def SF_USER_READ_def ATCMD_NO_RETURN_def)
  then have call: "basic_handlers A ids H (ai_sf_user ids) ATCMD_HANDLER_SET ?ps ?s0 = (-1, s1)"
    using sf_set_runs [of A ?s0 0 k n] sup k n(2) T(4) neq by (simp add: basic_handlers_def)
  note L = sf_line_ok [of 0 k n, OF _ k n(2)]
  have ms: "\<forall>m \<in> set ?ms. host_msg_ok m"
    using n rd(2) k by (auto simp: number_ok_def data_ok_def LONG_MAX_def HOST_DATA_LEN_MAX_def)
  have ans: "\<forall>m \<in> set (answer_msgs ''SFUSER'' (-1)). host_msg_ok m" by (simp add: answer_msgs_def)
  let ?s' = "(atcmd_prompt_enter (answered ''SFUSER'' (-1) s1))\<lparr>g_out := []\<rparr>"
  have rv: "ret_val (fold host_effect (?ms @ answer_msgs ''SFUSER'' (-1)) (frame (nrc_atcmd_init_return h))) = ATCMD_RET_OK"
    by (simp add: answer_msgs_def data_effect_def call_def nrc_atcmd_set_return_def split: option.split)
  have ne: "ATCMD_RET_OK \<noteq> ATCMD_RET_NONE" by (simp add: ATCMD_RET_OK_def ATCMD_RET_NONE_def)
  obtain ed' h' where r: "exchange_cmd (basic_handlers A ids H) C M (''AT+'' @ sf_line 0 k n) ((ed, rx, s), h) =
      Some (ATCMD_RET_OK, (ed', rx, ?s'), h')" "target_rest U gs cs (ed', rx, ?s')" "host_rest h'"
    "frame h' = fold host_effect (?ms @ answer_msgs ''SFUSER'' (-1)) (frame (nrc_atcmd_init_return h))"
    using exchange_served [where C = C and M = M, OF T(1,2) H h M L(1-3) L(4) L(5) reg call s1(6) ms ans s1(3,4) rv ne]
    by auto
  have "sf_rest ids U gs cs (ed', rx, ?s') e"
    using r(2) T(2,3) s1 by (simp add: sf_rest_def answered_def Let_def)
  moreover have "frame h' = fold host_effect ?ms (frame (nrc_atcmd_init_return h))" using r(4) by (simp add: answer_msgs_def)
  ultimately show ?thesis using r(1,3) st by blast
qed

subsection \<open>Properties\<close>

text \<open>C10: What the host writes to the user area it reads back, end to end: from rest, for a range inside
  the area of at most 4096 bytes, \<open>AT+SFUSER=1,<offset>,<length>\<close> and the data are accepted, they
  are then in the flash at that offset and nothing else of it has changed, and a following
  \<open>AT+SFUSER=0,<offset>,<length>\<close> returns OK with these bytes handed to the host's receive callback as a block
  of user data with this length and offset.\<close>

theorem user_area_round_trip:
  assumes "sf_rest ids U gs cs t e" and "host_rest h" and "cb_event h = None" and "cb_rxd h = Some cb" and "\<And>f. M f"
    and "handlers_ok H" and "handlers_dm_ok H" and "user_area_ok A img"
    and "atcmd_sf_user_support A (be_flash e)" and "unat (user_size A (be_flash e)) < 2 ^ 31" and "be_mem e"
    and "d \<noteq> []" and "length d \<le> 4096" and "k + length d \<le> unat (user_size A (be_flash e))"
  shows "\<exists>x1 x2 t' h' f'.
    exchange_cmd (basic_handlers A ids H) (basic_consumers A C) M (''AT+'' @ sf_line 1 k (length d)) (t, h) = Some (ATCMD_RET_OK, x1) \<and>
    exchange_data (basic_handlers A ids H) (basic_consumers A C) M d x1 = Some (0, x2) \<and>
    exchange_cmd (basic_handlers A ids H) (basic_consumers A C) M (''AT+'' @ sf_line 0 k (length d)) x2 = Some (ATCMD_RET_OK, t', h') \<and>
    sf_rest ids U gs cs t' (e\<lparr>be_flash := f'\<rparr>) \<and> host_rest h' \<and>
    (\<forall>j. img f' j = (if k \<le> j \<and> j < k + length d then d ! (j - k) else img (be_flash e) j)) \<and>
    h_env h' = cb (RxdSfuser (int (length d)) (int k)) d (h_env h)"
proof -
  let ?n = "length d" and ?f = "be_flash e"
  have n: "0 < ?n" "?n \<le> 4096" "k + ?n \<le> unat (user_size A ?f)" and k: "k < 2 ^ 31" using assms(10,12-14) by simp_all
  note H = basic_handlers_sound(1) [OF assms(6,7), where A = A and ids = ids]
  have u: "unat (of_nat k :: u32) = k" "unat (of_nat ?n :: u32) = ?n" using k n by (simp_all add: unat_of_nat)
  have uf: "user_flash_ok A img" and rdok: "\<And>f off n. unat off + unat n \<le> unat (user_size A f) \<Longrightarrow>
      user_read A off n f = (0, map (img f) [unat off..<unat off + unat n])"
    and sup: "\<And>f off b. atcmd_sf_user_support A (snd (user_write A off b f)) = atcmd_sf_user_support A f"
    using assms(8) unfolding user_area_ok_def by blast+
  from n(3) have "unat (of_nat k :: u32) + length d \<le> unat (user_size A ?f)" using u by simp
  from user_flash_okD [OF uf this] obtain f' where f': "user_write A (of_nat k) d ?f = (0, f')" "user_size A f' = user_size A ?f"
    "\<forall>j. img f' j = (if k \<le> j \<and> j < k + ?n then d ! (j - k) else img ?f j)"
    unfolding u by blast
  let ?e1 = "e\<lparr>be_flash := f'\<rparr>"
  from sf_open [where C = "basic_consumers A C" and M = M, OF assms(1,2,5) H assms(9,10) n] obtain t1 h1 where
    1: "exchange_cmd (basic_handlers A ids H) (basic_consumers A C) M (''AT+'' @ sf_line 1 k ?n) (t, h) = Some (ATCMD_RET_OK, t1, h1)"
      "sf_data ids U gs cs k ?n t1 e" "host_rest h1" "frame h1 = frame (nrc_atcmd_set_return ATCMD_RET_OK (nrc_atcmd_init_return h))" by blast
  obtain ed rx s where t1: "t1 = (ed, rx, s)" by (cases t1)
  from sf_block_data [where A = A and C = C and M = M and H = H and ids = ids, OF 1(2) [unfolded t1] 1(3) assms(5) n(1,2) refl f'(1)] obtain t2 h2 where
    2: "exchange_data (basic_handlers A ids H) (basic_consumers A C) M d (t1, h1) = Some (0, t2, h2)" "sf_rest ids U gs cs t2 ?e1" "host_rest h2"
      "frame h2 = host_effect (sf_done_msg k ?n) (frame (h1\<lparr>data_send := data_send h1 + of_nat ?n\<rparr>))"
    unfolding t1 by blast
  have sup1: "atcmd_sf_user_support A (be_flash ?e1)" using sup [of "of_nat k" d ?f] f'(1) assms(9) by simp
  have sz1: "unat (user_size A (be_flash ?e1)) < 2 ^ 31" "k + ?n \<le> unat (user_size A (be_flash ?e1))" "be_mem ?e1"
    using f'(2) assms(10,11) n(3) by simp_all
  have "map (img f') [k..<k + ?n] = d" using f'(3) by (intro nth_equalityI) auto
  then have rd: "user_read A (of_nat k) (of_nat ?n) (be_flash ?e1) = (0, d)"
    using rdok [of "of_nat k" "of_nat ?n" f'] u n(3) f'(2) by simp
  from sf_read [where C = "basic_consumers A C" and M = M, OF 2(2,3) assms(5) H sup1 sz1(1,3) n(1,2) sz1(2) rd refl] obtain t3 h3 where
    3: "exchange_cmd (basic_handlers A ids H) (basic_consumers A C) M (''AT+'' @ sf_line 0 k ?n) (t2, h2) = Some (ATCMD_RET_OK, t3, h3)"
      "sf_rest ids U gs cs t3 ?e1" "host_rest h3" "frame h3 = fold host_effect [HmOk, HmSfuser k d] (frame (nrc_atcmd_init_return h2))" by blast
  have e1: "cb_event h1 = None" "cb_rxd h1 = Some cb" "h_env h1 = h_env h"
    using arg_cong [OF 1(4), of cb_event] arg_cong [OF 1(4), of cb_rxd] arg_cong [OF 1(4), of h_env] assms(3,4)
    by (simp_all add: nrc_atcmd_set_return_def nrc_atcmd_init_return_def)
  have e2: "cb_rxd h2 = Some cb" "h_env h2 = h_env h"
    using arg_cong [OF 2(4), of cb_rxd] arg_cong [OF 2(4), of h_env] e1
    by (simp_all add: sf_done_msg_def event_of_def event_names_def call_def)
  have e3: "h_env h3 = cb (RxdSfuser (int ?n) (int k)) d (h_env h)"
    using arg_cong [OF 3(4), of h_env] e2
    by (simp add: data_effect_def call_def nrc_atcmd_set_return_def nrc_atcmd_init_return_def)
  show ?thesis using 1(1) 2(1) 3 f'(3) e3 by blast
qed

text \<open>A registry with the command \<open>SFUSER\<close>.\<close>

definition demo_sf :: registry where
  "demo_sf = demo_registry\<lparr>infos := (infos demo_registry)(50 := \<lparr>c_group = 0, c_id = 0, c_cmd = ''SFUSER'', c_handler = (\<lambda>t. t \<noteq> ATCMD_HANDLER_RUN)\<rparr>),
     heap := atcmd_list_add 20 50 (atcmd_list_add 1 10 (heap demo_registry))\<rparr>"

lemma demo_sf_ok: "reg_ok demo_sf [10] [10] ((\<lambda>_. [])(10 := [50]))"
  by (simp add: reg_ok_def reg_nodes_def demo_sf_def demo_registry_def linked_def list_add_links)

lemma demo_sf_rest:
  "sf_rest flash_ids [10] [10] ((\<lambda>_. [])(10 := [50])) (demo_editor, demo_rx, demo_atcmd demo_sf e) e"
proof -
  have "registry_ok demo_sf" unfolding registry_ok_def
    by (intro exI [of _ "[10]"] exI [of _ "[10]"] exI [of _ "(\<lambda>_. [])(10 := [50])"] conjI demo_sf_ok)
      (simp add: demo_sf_def demo_registry_def)
  then have "shared_ok (demo_atcmd demo_sf e)" by (simp add: shared_ok_def demo_atcmd_def)
  moreover have "g_registry (demo_atcmd demo_sf e) = demo_sf" "g_out (demo_atcmd demo_sf e) = []"
    by (simp_all add: demo_atcmd_def)
  moreover have "sf_registered flash_ids [10] ((\<lambda>_. [])(10 := [50])) demo_sf"
    by (simp add: sf_registered_def flash_ids_def in_group_def group_matches_def find_addr_def demo_sf_def demo_registry_def)
  ultimately show ?thesis using demo_editing demo_sf_ok
    by (simp add: sf_rest_def target_rest_def demo_rx_def demo_config demo_atcmd_sel)
qed

lemma user_demo_area: "user_area_ok user_demo (\<lambda>f. f)"
  unfolding user_area_ok_def using user_demo_ok by (simp add: user_demo_def atcmd_sf_user_support_def)

theorem user_area_round_trip_witness:
  "\<exists>x1 x2 t' h'.
    exchange_cmd (basic_handlers user_demo flash_ids refuse) (basic_consumers user_demo swallow) (\<lambda>_. True) (''AT+'' @ sf_line 1 100 (length ''user data''))
      ((demo_editor, demo_rx, demo_atcmd demo_sf (basic_start (\<lambda>_. CHR ''x''))), demo_host\<lparr>cb_event := None\<rparr>) = Some (ATCMD_RET_OK, x1) \<and>
    exchange_data (basic_handlers user_demo flash_ids refuse) (basic_consumers user_demo swallow) (\<lambda>_. True) ''user data'' x1 = Some (0, x2) \<and>
    exchange_cmd (basic_handlers user_demo flash_ids refuse) (basic_consumers user_demo swallow) (\<lambda>_. True) (''AT+'' @ sf_line 0 100 (length ''user data'')) x2 =
      Some (ATCMD_RET_OK, t', h') \<and> h_env h' = [''user data'']"
proof -
  let ?e = "basic_start (\<lambda>_. CHR ''x'') :: (nat \<Rightarrow> char) basic_env" and ?cb = "\<lambda>r buf e. e @ [take (nat (rxd_length r)) buf]"
  have r: "host_rest (demo_host\<lparr>cb_event := None\<rparr>)" "cb_rxd (demo_host\<lparr>cb_event := None\<rparr>) = Some ?cb"
    using demo_host_idle by (simp_all add: host_rest_def host_idle_def receiving_def rxd_local_def demo_host_def)
  have c: "cb_event (demo_host\<lparr>cb_event := None\<rparr>) = None" by simp
  have a: "atcmd_sf_user_support user_demo (be_flash ?e)" by (simp add: user_demo_def atcmd_sf_user_support_def)
  have z: "unat (user_size user_demo (be_flash ?e)) < 2 ^ 31" "be_mem ?e" "''user data'' \<noteq> []" "length ''user data'' \<le> 4096"
    "100 + length ''user data'' \<le> unat (user_size user_demo (be_flash ?e))"
    by (simp_all add: user_demo_def basic_start_def)
  have e: "?cb (RxdSfuser (int (length ''user data'')) (int 100)) ''user data'' (h_env (demo_host\<lparr>cb_event := None\<rparr>)) = [''user data'']"
    by (simp add: demo_host_def)
  from user_area_round_trip [where M = "\<lambda>_. True" and C = swallow, OF demo_sf_rest r(1) c r(2) TrueI refuse_ok(1,2) user_demo_area a z,
      unfolded e]
  show ?thesis by blast
qed

end
