(* ===== verification/LwipIp4.thy ===== *)
theory LwipIp4
  imports AtcmdParam
begin

text \<open>
  IPv4 addresses as text: \<open>ip4addr_aton\<close> and \<open>ip4addr_ntoa_r\<close> of \<open>lib/lwip/lwip/src/core/ipv4/ip4_addr.c\<close>,
  with the byte order conversion of \<open>def.h\<close>.  In the build without IPv6 they are \<open>ipaddr_aton\<close> and
  \<open>ipaddr_ntoa\<close>.  An address is the \<open>u32_t\<close> of \<open>ip4_addr_t\<close>, in network order on a little-endian machine; the end
  of a list stands for the terminating NUL.
\<close>

subsection \<open>Byte order\<close>

definition PP_HTONL :: "u32 \<Rightarrow> u32" where
  "PP_HTONL x = push_bit 24 (x AND 0x000000ff) OR push_bit 8 (x AND 0x0000ff00) OR
     drop_bit 8 (x AND 0x00ff0000) OR drop_bit 24 (x AND 0xff000000)"

definition IPADDR_ANY :: u32 where "IPADDR_ANY = 0"
definition IPADDR_BROADCAST :: u32 where "IPADDR_BROADCAST = 0xffffffff"

definition ip4_addr_ismulticast :: "u32 \<Rightarrow> bool" where
  "ip4_addr_ismulticast a \<longleftrightarrow> a AND PP_HTONL 0xf0000000 = PP_HTONL 0xe0000000"

subsection \<open>Reading\<close>

definition lwip_islower :: "char \<Rightarrow> bool" where
  "lwip_islower c \<longleftrightarrow> 97 \<le> (of_char c :: nat) \<and> (of_char c :: nat) \<le> 122"

definition lwip_isxdigit :: "char \<Rightarrow> bool" where
  "lwip_isxdigit c \<longleftrightarrow> is_digit c \<or> 97 \<le> (of_char c :: nat) \<and> (of_char c :: nat) \<le> 102 \<or>
     65 \<le> (of_char c :: nat) \<and> (of_char c :: nat) \<le> 70"

text \<open>The inner loop: the value collected and what follows the digits.  The value wraps.\<close>

fun aton_digits :: "u32 \<Rightarrow> u32 \<Rightarrow> string \<Rightarrow> u32 \<times> string" where
  "aton_digits base val [] = (val, [])"
| "aton_digits base val (c # cp) =
    (if is_digit c then
       (if base = 8 \<and> digit_val c \<ge> 8 then (val, c # cp)
        else aton_digits base (val * base + of_nat (digit_val c)) cp)
     else if base = 16 \<and> lwip_isxdigit c then
       aton_digits base (push_bit 4 val OR of_nat (of_char c + 10 - (if lwip_islower c then 97 else 65))) cp
     else (val, c # cp))"

definition aton_number :: "string \<Rightarrow> (u32 \<times> string) option" where
  "aton_number cp =
    (case cp of
       [] \<Rightarrow> None
     | c # r \<Rightarrow>
         if \<not> is_digit c then None
         else if c = CHR ''0'' then
           (case r of
              [] \<Rightarrow> Some (0, [])
            | x # r1 \<Rightarrow> if x = CHR ''x'' \<or> x = CHR ''X'' then Some (aton_digits 16 0 r1) else Some (aton_digits 8 0 r))
         else Some (aton_digits 10 0 cp))"

text \<open>The outer loop; \<open>n\<close> more parts are allowed.  The result: the parts and what follows the last one.\<close>

fun aton_parts :: "nat \<Rightarrow> string \<Rightarrow> (u32 list \<times> string) option" where
  "aton_parts n cp =
    (case aton_number cp of
       None \<Rightarrow> None
     | Some (val, r) \<Rightarrow>
         (case r of
            [] \<Rightarrow> Some ([val], r)
          | c # r1 \<Rightarrow>
              if c = CHR ''.'' then
                (case n of 0 \<Rightarrow> None | Suc m \<Rightarrow> map_option (\<lambda>(vs, e). (val # vs, e)) (aton_parts m r1))
              else Some ([val], r)))"

declare aton_parts.simps [simp del]

definition concoct :: "u32 list \<Rightarrow> u32 option" where
  "concoct ps =
    (case ps of
       [v] \<Rightarrow> Some v
     | [p0, v] \<Rightarrow> if v > 0xffffff \<or> p0 > 0xff then None else Some (v OR push_bit 24 p0)
     | [p0, p1, v] \<Rightarrow>
         if v > 0xffff \<or> p0 > 0xff \<or> p1 > 0xff then None else Some (v OR (push_bit 24 p0 OR push_bit 16 p1))
     | [p0, p1, p2, v] \<Rightarrow>
         if v > 0xff \<or> p0 > 0xff \<or> p1 > 0xff \<or> p2 > 0xff then None
         else Some (v OR (push_bit 24 p0 OR push_bit 16 p1 OR push_bit 8 p2))
     | _ \<Rightarrow> None)"

definition ip4addr_aton :: "string \<Rightarrow> u32 option" where
  "ip4addr_aton cp =
    (case aton_parts 3 cp of
       None \<Rightarrow> None
     | Some (ps, r) \<Rightarrow>
         if r \<noteq> [] \<and> \<not> is_space (hd r) then None else map_option PP_HTONL (concoct ps))"

subsection \<open>Writing\<close>

text \<open>The digits of a byte, the last one first, as the array \<open>inv\<close> gets them.\<close>

fun ntoa_inv :: "nat \<Rightarrow> string" where
  "ntoa_inv ap = char_of (48 + ap mod 10) # (if ap div 10 = 0 then [] else ntoa_inv (ap div 10))"

declare ntoa_inv.simps [simp del]

text \<open>The bytes of an address in the order of memory.\<close>

definition addr_bytes :: "u32 \<Rightarrow> nat list" where
  "addr_bytes a = map (\<lambda>n. unat (drop_bit (8 * n) a AND 0xff)) [0, 1, 2, 3]"

text \<open>\<open>None\<close> is the result NULL; the last dot is overwritten by the NUL.\<close>

definition ip4addr_ntoa_r :: "u32 \<Rightarrow> nat \<Rightarrow> string option" where
  "ip4addr_ntoa_r a buflen =
    (let t = concat (map (\<lambda>ap. rev (ntoa_inv ap) @ ''.'') (addr_bytes a))
     in if length t > buflen then None else Some (butlast t))"

definition IP4ADDR_STRLEN_MAX :: nat where "IP4ADDR_STRLEN_MAX = 16"

definition ip4addr_ntoa :: "u32 \<Rightarrow> string" where
  "ip4addr_ntoa a = (case ip4addr_ntoa_r a IP4ADDR_STRLEN_MAX of None \<Rightarrow> [] | Some t \<Rightarrow> t)"

subsection \<open>What is printed\<close>

lemma ntoa_inv_dec: "rev (ntoa_inv n) = dec_nat n"
proof (induction n rule: ntoa_inv.induct)
  case (1 n)
  then show ?case by (subst ntoa_inv.simps, subst dec_nat.simps) (auto simp: add.commute)
qed

lemma dec_nat_byte_length: "n < 256 \<Longrightarrow> 1 \<le> length (dec_nat n) \<and> length (dec_nat n) \<le> 3"
proof -
  assume n: "n < 256"
  have "length (dec_nat n) = (if n < 10 then 1 else if n < 100 then 2 else 3)"
    using n by (subst dec_nat.simps, subst dec_nat.simps, subst dec_nat.simps) auto
  then show ?thesis by simp
qed

lemma addr_bytes_eq:
  "addr_bytes a = [unat (a AND 0xff), unat (drop_bit 8 a AND 0xff), unat (drop_bit 16 a AND 0xff), unat (drop_bit 24 a AND 0xff)]"
  by (simp add: addr_bytes_def)

lemma unat_and_ff: "unat (x AND 0xff :: u32) < 256"
proof -
  have "x AND 0xff \<le> (0xff :: u32)" by (rule word_and_le1)
  then show ?thesis by (simp add: word_le_nat_alt)
qed

lemma ntoa_eq:
  obtains p q r s where "p < 256" "q < 256" "r < 256" "s < 256" "addr_bytes a = [p, q, r, s]"
    "ip4addr_ntoa a = dec_nat p @ ''.'' @ dec_nat q @ ''.'' @ dec_nat r @ ''.'' @ dec_nat s"
proof -
  let ?p = "unat (a AND 0xff)" and ?q = "unat (drop_bit 8 a AND 0xff)" and ?r = "unat (drop_bit 16 a AND 0xff)"
    and ?s = "unat (drop_bit 24 a AND 0xff)"
  have b: "?p < 256" "?q < 256" "?r < 256" "?s < 256" by (simp_all add: unat_and_ff)
  have t: "concat (map (\<lambda>ap. rev (ntoa_inv ap) @ ''.'') (addr_bytes a)) =
      (dec_nat ?p @ ''.'' @ dec_nat ?q @ ''.'' @ dec_nat ?r @ ''.'' @ dec_nat ?s) @ ''.''"
    by (simp add: addr_bytes_eq ntoa_inv_dec)
  have "length ((dec_nat ?p @ ''.'' @ dec_nat ?q @ ''.'' @ dec_nat ?r @ ''.'' @ dec_nat ?s) @ ''.'') \<le> 16"
    using dec_nat_byte_length [OF b(1)] dec_nat_byte_length [OF b(2)] dec_nat_byte_length [OF b(3)]
      dec_nat_byte_length [OF b(4)] by simp
  moreover define t where "t = dec_nat ?p @ ''.'' @ dec_nat ?q @ ''.'' @ dec_nat ?r @ ''.'' @ dec_nat ?s"
  ultimately have "ip4addr_ntoa a = t"
    unfolding ip4addr_ntoa_def ip4addr_ntoa_r_def Let_def IP4ADDR_STRLEN_MAX_def t t_def [symmetric]
    by (simp del: length_append)
  then show thesis using that [OF b] by (simp add: addr_bytes_eq t_def)
qed

subsection \<open>Printed addresses are read back\<close>

lemma aton_digits_dec:
  assumes "list_all is_digit ds" and "r = [] \<or> hd r = CHR ''.''"
  shows "aton_digits 10 (of_nat v) (ds @ r) = (of_nat (foldl (\<lambda>v c. 10 * v + digit_val c) v ds), r)"
  using assms(1)
proof (induction ds arbitrary: v)
  case Nil
  then show ?case using assms(2) by (cases r) (auto simp: is_digit_def)
next
  case (Cons d ds)
  have "of_nat v * 10 + of_nat (digit_val d) = (of_nat (10 * v + digit_val d) :: u32)" by simp
  then show ?case using Cons by (simp del: of_nat_add of_nat_mult)
qed

lemma dec_nat_pos_hd: "0 < n \<Longrightarrow> \<exists>c cs. dec_nat n = c # cs \<and> c \<noteq> CHR ''0'' \<and> is_digit c"
proof (induction n rule: dec_nat.induct)
  case (1 n)
  show ?case
  proof (cases "n < 10")
    case True
    then have "of_char (char_of (n + 48) :: char) = n + 48" by (simp add: of_char_of)
    moreover have "of_char (CHR ''0'') = (48 :: nat)" by simp
    ultimately have "char_of (n + 48) \<noteq> CHR ''0''" using 1(2) by (metis add_cancel_left_left less_irrefl)
    then show ?thesis using True by (subst dec_nat.simps) (simp add: is_digit_char_of)
  next
    case False
    then have "0 < n div 10" by simp
    then show ?thesis using 1(1) False by (subst dec_nat.simps) auto
  qed
qed

lemma aton_number_dec:
  assumes "r = [] \<or> hd r = CHR ''.''"
  shows "aton_number (dec_nat n @ r) = Some (of_nat n, r)"
proof (cases "n = 0")
  case True
  have "aton_digits 8 0 r = (0, r)" using assms by (cases r) (auto simp: is_digit_def)
  moreover have "dec_nat 0 = ''0''" by code_simp
  ultimately show ?thesis using True assms by (cases r) (auto simp: aton_number_def is_digit_def)
next
  case False
  then obtain c cs where c: "dec_nat n = c # cs" "c \<noteq> CHR ''0''" "is_digit c" using dec_nat_pos_hd by blast
  have "aton_digits 10 (of_nat 0) (dec_nat n @ r) = (of_nat n, r)"
    using aton_digits_dec [OF conjunct1 [OF dec_nat_digits] assms, of 0 n] dec_value_dec_nat [of n]
    by (simp add: dec_value_def)
  then show ?thesis using c by (simp add: aton_number_def)
qed

lemma aton_parts_dot: "aton_parts (Suc m) (dec_nat n @ ''.'' @ r) = map_option (\<lambda>(vs, e). (of_nat n # vs, e)) (aton_parts m r)"
  using aton_number_dec [of "''.'' @ r" n] by (subst aton_parts.simps) simp

lemma aton_parts_end: "aton_parts m (dec_nat n) = Some ([of_nat n], [])"
  using aton_number_dec [of "[]" n] by (subst aton_parts.simps) simp

lemma byte_word: "of_nat (unat (x AND 0xff)) = (x AND 0xff :: u32)"
  by simp

lemma masks:
  "(0xff :: u32) = mask 8" "(0x0000ff00 :: u32) = push_bit 8 (mask 8)" "(0x00ff0000 :: u32) = push_bit 16 (mask 8)"
  "(0xff000000 :: u32) = push_bit 24 (mask 8)"
  by (simp_all add: mask_eq_exp_minus_1 push_bit_eq_mult)

lemma concoct_bytes:
  fixes a :: u32
  shows "map_option PP_HTONL (concoct [a AND 0xff, drop_bit 8 a AND 0xff, drop_bit 16 a AND 0xff, drop_bit 24 a AND 0xff]) = Some a"
proof -
  have le: "x AND 0xff \<le> (0xff :: u32)" for x by (rule word_and_le1)
  have "concoct [a AND 0xff, drop_bit 8 a AND 0xff, drop_bit 16 a AND 0xff, drop_bit 24 a AND 0xff] =
      Some ((drop_bit 24 a AND 0xff) OR (push_bit 24 (a AND 0xff) OR push_bit 16 (drop_bit 8 a AND 0xff) OR
        push_bit 8 (drop_bit 16 a AND 0xff)))"
    using le by (simp add: concoct_def not_less)
  moreover have "PP_HTONL ((drop_bit 24 a AND 0xff) OR (push_bit 24 (a AND 0xff) OR push_bit 16 (drop_bit 8 a AND 0xff) OR
        push_bit 8 (drop_bit 16 a AND 0xff))) = a"
    unfolding PP_HTONL_def masks
  proof (rule bit_word_eqI)
    fix n assume n: "n < LENGTH(32)"
    consider "n < 8" | "8 \<le> n" "n < 16" | "16 \<le> n" "n < 24" | "24 \<le> n" "n < 32" using n by fastforce
    then show "bit (push_bit 24 ((drop_bit 24 a AND mask 8 OR (push_bit 24 (a AND mask 8) OR push_bit 16 (drop_bit 8 a AND mask 8) OR
          push_bit 8 (drop_bit 16 a AND mask 8))) AND mask 8) OR
        push_bit 8 ((drop_bit 24 a AND mask 8 OR (push_bit 24 (a AND mask 8) OR push_bit 16 (drop_bit 8 a AND mask 8) OR
          push_bit 8 (drop_bit 16 a AND mask 8))) AND push_bit 8 (mask 8)) OR
        drop_bit 8 ((drop_bit 24 a AND mask 8 OR (push_bit 24 (a AND mask 8) OR push_bit 16 (drop_bit 8 a AND mask 8) OR
          push_bit 8 (drop_bit 16 a AND mask 8))) AND push_bit 16 (mask 8)) OR
        drop_bit 24 ((drop_bit 24 a AND mask 8 OR (push_bit 24 (a AND mask 8) OR push_bit 16 (drop_bit 8 a AND mask 8) OR
          push_bit 8 (drop_bit 16 a AND mask 8))) AND push_bit 24 (mask 8))) n = bit a n"
      by cases (simp add: bit_simps less_diff_conv; fail | simp add: bit_simps less_diff_conv; arith)+
  qed
  ultimately show ?thesis by simp
qed

text \<open>C39: Reading back a printed IPv4 address gives the address: \<open>ipaddr_aton\<close> inverts \<open>ipaddr_ntoa\<close>, whose text has
  7 to 15 characters, the bounds the socket commands put on an address.\<close>

theorem ip4_text_roundtrip:
  "ip4addr_aton (ip4addr_ntoa a) = Some a \<and> 7 \<le> length (ip4addr_ntoa a) \<and> length (ip4addr_ntoa a) \<le> 15"
proof -
  obtain p q r s where b: "p < 256" "q < 256" "r < 256" "s < 256" and e: "addr_bytes a = [p, q, r, s]"
    and t: "ip4addr_ntoa a = dec_nat p @ ''.'' @ dec_nat q @ ''.'' @ dec_nat r @ ''.'' @ dec_nat s" by (rule ntoa_eq)
  have w: "of_nat p = (a AND 0xff)" "of_nat q = (drop_bit 8 a AND 0xff)" "of_nat r = (drop_bit 16 a AND 0xff)"
      "of_nat s = (drop_bit 24 a AND 0xff)"
    using e byte_word by (auto simp: addr_bytes_eq)
  have "aton_parts 3 (ip4addr_ntoa a) = Some ([of_nat p, of_nat q, of_nat r, of_nat s], [])"
    unfolding t by (simp only: numeral_3_eq_3 aton_parts_dot aton_parts_end) simp
  then have "ip4addr_aton (ip4addr_ntoa a) = Some a"
    using concoct_bytes [of a] by (simp add: ip4addr_aton_def w)
  then show ?thesis
    using dec_nat_byte_length [OF b(1)] dec_nat_byte_length [OF b(2)] dec_nat_byte_length [OF b(3)]
      dec_nat_byte_length [OF b(4)] by (simp add: t)
qed

end
