(* ===== verification/LwipSocket.thy ===== *)
theory LwipSocket
  imports LwipIp4 AtcmdState
begin

text \<open>
  \<open>sdk/apps/atcmd/lwip_socket.c\<close>: the glue between the socket commands and the BSD sockets of lwIP, in the build
  without IPv6.  The calls of the sockets API are the parameter \<open>N\<close>, on a state \<open>'n\<close> of the network; a negative
  result stands for \<open>-1\<close> with that \<open>errno\<close>.  Log output, the command line and the mutex around the descriptor sets
  are left out; the task and its callbacks are in \<open>AtcmdSocket\<close>.
\<close>

subsection \<open>Error numbers\<close>

text \<open>The values of the C library (newlib); \<open>EINVAL\<close> and \<open>EBUSY\<close> are in \<open>AtcmdState\<close>.\<close>

definition EPERM :: int where "EPERM = 1"
definition EBADF :: int where "EBADF = 9"
definition EAGAIN :: int where "EAGAIN = 11"
definition ENOMEM :: int where "ENOMEM = 12"
definition ECONNRESET :: int where "ECONNRESET = 104"
definition ENOBUFS :: int where "ENOBUFS = 105"
definition EPROTOTYPE :: int where "EPROTOTYPE = 107"
definition ENOTSOCK :: int where "ENOTSOCK = 108"
definition ECONNABORTED :: int where "ECONNABORTED = 113"
definition ETIMEDOUT :: int where "ETIMEDOUT = 116"
definition EHOSTUNREACH :: int where "EHOSTUNREACH = 118"
definition EINPROGRESS :: int where "EINPROGRESS = 119"
definition ENOTCONN :: int where "ENOTCONN = 128"
definition ENOTSUP :: int where "ENOTSUP = 134"

abbreviation EWOULDBLOCK :: int where "EWOULDBLOCK \<equiv> EAGAIN"

lemmas errno_defs = EPERM_def EBADF_def EAGAIN_def ENOMEM_def EBUSY_def EINVAL_def ECONNRESET_def ENOBUFS_def
  EPROTOTYPE_def ENOTSOCK_def ECONNABORTED_def ETIMEDOUT_def EHOSTUNREACH_def EINPROGRESS_def ENOTCONN_def ENOTSUP_def

subsection \<open>The sockets API\<close>

definition SOCK_STREAM :: int where "SOCK_STREAM = 1"
definition SOCK_DGRAM :: int where "SOCK_DGRAM = 2"

datatype sockopt =
    SO_TYPE | SO_ERROR | SO_REUSEADDR | SO_KEEPALIVE | SO_BROADCAST
  | TCP_KEEPIDLE | TCP_KEEPCNT | TCP_KEEPINTVL | TCP_NODELAY
  | IP_MULTICAST_LOOP | IP_MULTICAST_TTL

text \<open>
  \<open>n_connect\<close>, \<open>n_sendto\<close> and the like take the address and port in host terms.  \<open>n_writable fd ms\<close> is the
  \<open>select\<close> for writing of \<open>_lwip_socket_connect\<close>, \<open>n_select\<close> the one of the task: the result and the ready
  descriptors for reading and writing.  \<open>n_sendto\<close> has a flag for \<open>sendto_if\<close> on the Wi-Fi interface;
  \<open>n_bcast_if\<close> is whether that interface exists and has no address.  \<open>n_hostbyname\<close> and \<open>n_addrinfo\<close> give a status
  and the address as text.  \<open>n_delay ms\<close> is the network after a pause.

  The remaining fields are what else the program depends on: \<open>strerror\<close>, what an uninitialised address and an
  uninitialised integer on the stack happen to hold, whether the host interface is a UART built without support
  for passing data through, the number of passes the socket task makes while a
  command waits for it, and the number of turns after which the model gives up a loop that may not end.
\<close>

record 'n net_api =
  n_socket :: "int \<Rightarrow> 'n \<Rightarrow> int \<times> 'n"
  n_bind :: "int \<Rightarrow> u16 \<Rightarrow> 'n \<Rightarrow> int \<times> 'n"
  n_listen :: "int \<Rightarrow> 'n \<Rightarrow> int \<times> 'n"
  n_accept :: "int \<Rightarrow> 'n \<Rightarrow> (int \<times> u32 \<times> u16) \<times> 'n"
  n_connect :: "int \<Rightarrow> u32 \<Rightarrow> u16 \<Rightarrow> 'n \<Rightarrow> int \<times> 'n"
  n_writable :: "int \<Rightarrow> int \<Rightarrow> 'n \<Rightarrow> (int \<times> bool) \<times> 'n"
  n_select :: "nat \<Rightarrow> int set \<Rightarrow> int set \<Rightarrow> 'n \<Rightarrow> (int \<times> int set \<times> int set) \<times> 'n"
  n_getopt :: "int \<Rightarrow> sockopt \<Rightarrow> 'n \<Rightarrow> (int \<times> int) \<times> 'n"
  n_setopt :: "int \<Rightarrow> sockopt \<Rightarrow> int \<Rightarrow> 'n \<Rightarrow> int \<times> 'n"
  n_membership :: "int \<Rightarrow> bool \<Rightarrow> u32 \<Rightarrow> 'n \<Rightarrow> int \<times> 'n"
  n_nonblock :: "int \<Rightarrow> bool \<Rightarrow> 'n \<Rightarrow> int \<times> 'n"
  n_fionread :: "int \<Rightarrow> 'n \<Rightarrow> (int \<times> int) \<times> 'n"
  n_sockname :: "int \<Rightarrow> 'n \<Rightarrow> (int \<times> u16) \<times> 'n"
  n_close :: "int \<Rightarrow> 'n \<Rightarrow> int \<times> 'n"
  n_send :: "int \<Rightarrow> string \<Rightarrow> 'n \<Rightarrow> int \<times> 'n"
  n_sendto :: "int \<Rightarrow> bool \<Rightarrow> u32 \<Rightarrow> u16 \<Rightarrow> string \<Rightarrow> 'n \<Rightarrow> int \<times> 'n"
  n_recv :: "int \<Rightarrow> nat \<Rightarrow> 'n \<Rightarrow> (int \<times> string) \<times> 'n"
  n_recvfrom :: "int \<Rightarrow> nat \<Rightarrow> 'n \<Rightarrow> (int \<times> string \<times> u32 \<times> u16) \<times> 'n"
  n_hostbyname :: "string \<Rightarrow> 'n \<Rightarrow> (int \<times> string) \<times> 'n"
  n_addrinfo :: "string \<Rightarrow> string \<Rightarrow> 'n \<Rightarrow> (int \<times> string) \<times> 'n"
  n_bcast_if :: "'n \<Rightarrow> bool"
  n_delay :: "nat \<Rightarrow> 'n \<Rightarrow> 'n"
  n_strerror :: "int \<Rightarrow> string"
  n_stack_addr :: u32
  n_stack_int :: int
  n_no_passthrough :: bool
  n_passes :: nat
  n_turns :: nat

subsection \<open>State\<close>

text \<open>
  \<open>g_lwip_socket_info\<close>: \<open>li_on\<close> is whether it is allocated, \<open>li_events\<close> the bits of \<open>send_done_event\<close>.
  \<open>li_erange\<close> is whether \<open>errno\<close> holds \<open>ERANGE\<close>, which no network call sets.
\<close>

record 'n lwip =
  li_on :: bool
  fds_read :: "int set"
  fds_write :: "int set"
  fds_listen :: "int set"
  li_events :: "int set"
  li_name :: string
  li_addr :: string
  li_erange :: bool
  li_net :: 'n

text \<open>A call of the API: a failure sets \<open>errno\<close>, which \<open>_lwip_socket_error(errno)\<close> leaves as it is.\<close>

definition net_call :: "('n \<Rightarrow> int \<times> 'n) \<Rightarrow> 'n lwip \<Rightarrow> int \<times> 'n lwip" where
  "net_call f w = (case f (li_net w) of (r, n) \<Rightarrow> (r, w\<lparr>li_net := n, li_erange := (li_erange w \<and> 0 \<le> r)\<rparr>))"

definition net_query :: "('n \<Rightarrow> (int \<times> 'a) \<times> 'n) \<Rightarrow> 'n lwip \<Rightarrow> (int \<times> 'a) \<times> 'n lwip" where
  "net_query f w = (case f (li_net w) of ((r, x), n) \<Rightarrow> ((r, x), w\<lparr>li_net := n, li_erange := (li_erange w \<and> 0 \<le> r)\<rparr>))"

definition lwip_socket_error :: "int \<Rightarrow> 'n lwip \<Rightarrow> int \<times> 'n lwip" where
  "lwip_socket_error e w = (- e, w\<lparr>li_erange := False\<rparr>)"

text \<open>\<open>if (ret < 0) return _lwip_socket_error(errno);\<close> and on with \<open>g\<close>.\<close>

definition seq_ok :: "int \<times> 'n lwip \<Rightarrow> ('n lwip \<Rightarrow> int \<times> 'n lwip) \<Rightarrow> int \<times> 'n lwip" where
  "seq_ok x g = (if fst x < 0 then x else g (snd x))"

subsection \<open>Options\<close>

definition lwip_socket_get_type :: "'n net_api \<Rightarrow> int \<Rightarrow> 'n lwip \<Rightarrow> (int \<times> int) \<times> 'n lwip" where
  "lwip_socket_get_type N fd = net_query (n_getopt N fd SO_TYPE)"

definition lwip_socket_get_local :: "'n net_api \<Rightarrow> int \<Rightarrow> 'n lwip \<Rightarrow> (int \<times> u16) \<times> 'n lwip" where
  "lwip_socket_get_local N fd = net_query (n_sockname N fd)"

definition lwip_socket_recv_len :: "'n net_api \<Rightarrow> int \<Rightarrow> 'n lwip \<Rightarrow> int \<times> 'n lwip" where
  "lwip_socket_recv_len N fd w =
    (case net_query (n_fionread N fd) w of ((ret, len), w1) \<Rightarrow> (if ret < 0 then ret else len, w1))"

definition lwip_socket_set_reuse_addr :: "'n net_api \<Rightarrow> int \<Rightarrow> bool \<Rightarrow> 'n lwip \<Rightarrow> int \<times> 'n lwip" where
  "lwip_socket_set_reuse_addr N fd enable w =
    seq_ok (net_call (n_setopt N fd SO_REUSEADDR (if enable then 1 else 0)) w) (\<lambda>w1. (0, w1))"

text \<open>The values are those of the pointer arguments that are set on success.\<close>

definition lwip_socket_tcp_get_keepalive ::
  "'n net_api \<Rightarrow> int \<Rightarrow> 'n lwip \<Rightarrow> (int \<times> int \<times> int \<times> int \<times> int) \<times> 'n lwip" where
  "lwip_socket_tcp_get_keepalive N fd w =
    (if fd < 0 then ((- EINVAL, 0, 0, 0, 0), w\<lparr>li_erange := False\<rparr>)
     else
       (case net_query (n_getopt N fd SO_KEEPALIVE) w of ((r1, alive), w1) \<Rightarrow>
        if r1 < 0 then ((r1, 0, 0, 0, 0), w1) else
       (case net_query (n_getopt N fd TCP_KEEPIDLE) w1 of ((r2, idle), w2) \<Rightarrow>
        if r2 < 0 then ((r2, 0, 0, 0, 0), w2) else
       (case net_query (n_getopt N fd TCP_KEEPCNT) w2 of ((r3, cnt), w3) \<Rightarrow>
        if r3 < 0 then ((r3, 0, 0, 0, 0), w3) else
       (case net_query (n_getopt N fd TCP_KEEPINTVL) w3 of ((r4, intvl), w4) \<Rightarrow>
        if r4 < 0 then ((r4, 0, 0, 0, 0), w4)
        else ((0, if alive \<noteq> 0 then 1 else 0, idle, cnt, intvl), w4))))))"

definition lwip_socket_tcp_set_keepalive ::
  "'n net_api \<Rightarrow> int \<Rightarrow> int \<Rightarrow> int \<Rightarrow> int \<Rightarrow> int \<Rightarrow> 'n lwip \<Rightarrow> int \<times> 'n lwip" where
  "lwip_socket_tcp_set_keepalive N fd alive idle cnt intvl w =
    seq_ok (net_call (n_setopt N fd TCP_KEEPIDLE idle) w) (\<lambda>w1.
    seq_ok (net_call (n_setopt N fd TCP_KEEPCNT cnt) w1) (\<lambda>w2.
    seq_ok (net_call (n_setopt N fd TCP_KEEPINTVL intvl) w2) (\<lambda>w3.
    seq_ok (net_call (n_setopt N fd SO_KEEPALIVE alive) w3) (\<lambda>w4. (0, w4)))))"

definition lwip_socket_tcp_get_nodelay :: "'n net_api \<Rightarrow> int \<Rightarrow> 'n lwip \<Rightarrow> (int \<times> bool) \<times> 'n lwip" where
  "lwip_socket_tcp_get_nodelay N fd w =
    (case net_query (n_getopt N fd TCP_NODELAY) w of ((r, v), w1) \<Rightarrow> ((if r < 0 then r else 0, v \<noteq> 0), w1))"

definition lwip_socket_tcp_set_nodelay :: "'n net_api \<Rightarrow> int \<Rightarrow> bool \<Rightarrow> 'n lwip \<Rightarrow> int \<times> 'n lwip" where
  "lwip_socket_tcp_set_nodelay N fd enable w =
    seq_ok (net_call (n_setopt N fd TCP_NODELAY (if enable then 1 else 0)) w) (\<lambda>w1. (0, w1))"

definition lwip_socket_udp_get_broadcast :: "'n net_api \<Rightarrow> int \<Rightarrow> 'n lwip \<Rightarrow> (int \<times> bool) \<times> 'n lwip" where
  "lwip_socket_udp_get_broadcast N fd w =
    (case net_query (n_getopt N fd SO_BROADCAST) w of ((r, v), w1) \<Rightarrow> if r < 0 then ((r, False), w1) else ((0, v \<noteq> 0), w1))"

definition lwip_socket_udp_set_broadcast :: "'n net_api \<Rightarrow> int \<Rightarrow> bool \<Rightarrow> 'n lwip \<Rightarrow> int \<times> 'n lwip" where
  "lwip_socket_udp_set_broadcast N fd enable w =
    seq_ok (net_call (n_setopt N fd SO_BROADCAST (if enable then 1 else 0)) w) (\<lambda>w1. (0, w1))"

definition lwip_socket_udp_add_multicast_group :: "'n net_api \<Rightarrow> int \<Rightarrow> u32 \<Rightarrow> 'n lwip \<Rightarrow> int \<times> 'n lwip" where
  "lwip_socket_udp_add_multicast_group N fd addr w =
    seq_ok (net_call (n_membership N fd True addr) w) (\<lambda>w1. (0, w1))"

definition lwip_socket_udp_drop_multicast_group :: "'n net_api \<Rightarrow> int \<Rightarrow> u32 \<Rightarrow> 'n lwip \<Rightarrow> int \<times> 'n lwip" where
  "lwip_socket_udp_drop_multicast_group N fd addr w =
    seq_ok (net_call (n_membership N fd False addr) w) (\<lambda>w1. (0, w1))"

definition lwip_socket_udp_get_multicast_loopback :: "'n net_api \<Rightarrow> int \<Rightarrow> 'n lwip \<Rightarrow> (int \<times> bool) \<times> 'n lwip" where
  "lwip_socket_udp_get_multicast_loopback N fd w =
    (case net_query (n_getopt N fd IP_MULTICAST_LOOP) w of ((r, v), w1) \<Rightarrow> if r < 0 then ((r, False), w1) else ((0, v \<noteq> 0), w1))"

definition lwip_socket_udp_get_multicast_ttl :: "'n net_api \<Rightarrow> int \<Rightarrow> 'n lwip \<Rightarrow> (int \<times> u8) \<times> 'n lwip" where
  "lwip_socket_udp_get_multicast_ttl N fd w =
    (case net_query (n_getopt N fd IP_MULTICAST_TTL) w of ((r, v), w1) \<Rightarrow> if r < 0 then ((r, 0), w1) else ((0, of_int v), w1))"

definition lwip_socket_udp_set_multicast_ttl :: "'n net_api \<Rightarrow> int \<Rightarrow> u8 \<Rightarrow> 'n lwip \<Rightarrow> int \<times> 'n lwip" where
  "lwip_socket_udp_set_multicast_ttl N fd ttl w =
    seq_ok (net_call (n_setopt N fd IP_MULTICAST_TTL (uint ttl)) w) (\<lambda>w1. (0, w1))"

subsection \<open>Binding, listening, accepting, connecting\<close>

definition lwip_socket_bind :: "'n net_api \<Rightarrow> int \<Rightarrow> u16 \<Rightarrow> 'n lwip \<Rightarrow> int \<times> 'n lwip" where
  "lwip_socket_bind N fd port w = seq_ok (net_call (n_bind N fd port) w) (\<lambda>w1. (0, w1))"

definition lwip_socket_listen :: "'n net_api \<Rightarrow> int \<Rightarrow> 'n lwip \<Rightarrow> int \<times> 'n lwip" where
  "lwip_socket_listen N fd w = seq_ok (net_call (n_listen N fd) w) (\<lambda>w1. (0, w1))"

definition lwip_socket_accept :: "'n net_api \<Rightarrow> int \<Rightarrow> 'n lwip \<Rightarrow> (int \<times> u32 \<times> u16) \<times> 'n lwip" where
  "lwip_socket_accept N fd w =
    (case lwip_socket_get_type N fd w of ((r, ty), w1) \<Rightarrow>
      if r \<noteq> 0 then ((r, 0, 0), w1)
      else if ty \<noteq> SOCK_STREAM then ((- EPROTOTYPE, 0, 0), w1\<lparr>li_erange := False\<rparr>)
      else net_query (n_accept N fd) w1)"

definition lwip_socket_connect :: "'n net_api \<Rightarrow> int \<Rightarrow> u32 \<Rightarrow> u16 \<Rightarrow> int \<Rightarrow> 'n lwip \<Rightarrow> int \<times> 'n lwip" where
  "lwip_socket_connect N fd addr port timeout_msec w =
    seq_ok (net_call (n_nonblock N fd True) w) (\<lambda>w1.
      (case net_call (n_connect N fd addr port) w1 of (r, w2) \<Rightarrow>
        if r = 0 then (0, w2)
        else
          seq_ok (net_call (n_nonblock N fd False) w2) (\<lambda>w3.
            if - r \<noteq> EINPROGRESS then (r, w3)
            else
              (case net_query (n_writable N fd (if timeout_msec \<le> 0 then 10000 else timeout_msec)) w3 of ((rs, ready), w4) \<Rightarrow>
                if rs < 0 then (rs, w4)
                else if rs > 0 then
                  (if ready then
                     (case net_query (n_getopt N fd SO_ERROR) w4 of ((re, err), w5) \<Rightarrow>
                       if re \<noteq> 0 then (re, w5) else lwip_socket_error err w5)
                   else lwip_socket_error EAGAIN w4)
                else lwip_socket_error ETIMEDOUT w4))))"

subsection \<open>The descriptor sets\<close>

definition FD_SETSIZE :: int where "FD_SETSIZE = 64"

text \<open>The bound for \<open>select\<close> and the two sets, which contain descriptors below \<open>FD_SETSIZE\<close> only.\<close>

definition lwip_socket_fds_get :: "'n lwip \<Rightarrow> nat \<times> int set \<times> int set" where
  "lwip_socket_fds_get w =
    (fold (\<lambda>fd nfds. if fd \<in> fds_read w \<or> fd \<in> fds_write w then nat (fd + 1) else nfds) [0..FD_SETSIZE - 1] 0,
     fds_read w, fds_write w)"

definition lwip_socket_fds_set :: "int \<Rightarrow> bool \<Rightarrow> 'n lwip \<Rightarrow> 'n lwip" where
  "lwip_socket_fds_set fd listen w =
    w\<lparr>fds_read := insert fd (fds_read w), fds_write := fds_write w - {fd},
      fds_listen := (if listen then insert fd (fds_listen w) else fds_listen w)\<rparr>"

definition lwip_socket_fds_clear :: "int \<Rightarrow> 'n lwip \<Rightarrow> 'n lwip" where
  "lwip_socket_fds_clear fd w =
    w\<lparr>fds_read := fds_read w - {fd}, fds_write := fds_write w - {fd}, fds_listen := fds_listen w - {fd}\<rparr>"

subsection \<open>Starting and stopping\<close>

text \<open>
  \<open>_lwip_socket_init\<close> with its four allocations: the structure, the event group, the mutex and the task.  \<open>None\<close> is
  the access through the NULL pointer at the label of the failures.
\<close>

definition lwip_socket_init :: "bool \<Rightarrow> bool \<Rightarrow> bool \<Rightarrow> bool \<Rightarrow> 'n lwip \<Rightarrow> (int \<times> 'n lwip) option" where
  "lwip_socket_init mem_ok event_ok mutex_ok task_ok w =
    (if li_on w then Some (lwip_socket_error EBUSY w)
     else if \<not> mem_ok then None
     else if event_ok \<and> mutex_ok \<and> task_ok then
       Some (0, w\<lparr>li_on := True, fds_read := {}, fds_write := {}, fds_listen := {}, li_events := {}, li_name := [], li_addr := []\<rparr>)
     else Some (lwip_socket_error ENOMEM w))"

definition lwip_socket_deinit :: "'n lwip \<Rightarrow> int \<times> 'n lwip" where
  "lwip_socket_deinit w = (if \<not> li_on w then lwip_socket_error EPERM w else (0, w\<lparr>li_on := False\<rparr>))"

subsection \<open>Opening and closing\<close>

text \<open>What follows the opening \<open>switch\<close>: the descriptor joins the sets, or it is closed.\<close>

definition open_finish :: "'n net_api \<Rightarrow> int \<Rightarrow> int \<Rightarrow> bool \<Rightarrow> 'n lwip \<Rightarrow> (int \<times> int) \<times> 'n lwip" where
  "open_finish N ret fd listen w =
    (if ret = 0 \<or> ret = - EINPROGRESS then ((ret, fd), lwip_socket_fds_set fd listen w)
     else ((ret, -1), snd (net_call (n_close N fd) w)))"

text \<open>The options of a datagram socket, after its \<open>bind\<close>.\<close>

definition open_udp_options :: "'n net_api \<Rightarrow> int \<Rightarrow> u8 \<Rightarrow> 'n lwip \<Rightarrow> int \<times> 'n lwip" where
  "open_udp_options N fd ttl w =
    (case lwip_socket_udp_set_broadcast N fd True w of (r1, w1) \<Rightarrow>
      (case (if r1 = 0 \<and> ttl > 0 then lwip_socket_udp_set_multicast_ttl N fd ttl w1 else (r1, w1)) of (r2, w2) \<Rightarrow>
        if r2 \<noteq> 0 then (r2, w2)
        else
          (case lwip_socket_udp_get_broadcast N fd w2 of ((r3, broadcast), w3) \<Rightarrow>
            if r3 \<noteq> 0 then (r3, w3)
            else
              (case lwip_socket_udp_get_multicast_loopback N fd w3 of ((r4, loopback), w4) \<Rightarrow>
                if r4 \<noteq> 0 then (r4, w4) else (0, snd (lwip_socket_udp_get_multicast_ttl N fd w4))))))"

text \<open>
  The first result is the return value, the second what \<open>*fd\<close> holds afterwards: a failure of
  \<open>_lwip_socket_set_reuse_addr\<close> leaves the descriptor there.
\<close>

definition lwip_socket_open_udp :: "'n net_api \<Rightarrow> u16 \<Rightarrow> u8 \<Rightarrow> 'n lwip \<Rightarrow> (int \<times> int) \<times> 'n lwip" where
  "lwip_socket_open_udp N local_port ttl w =
    (if \<not> li_on w then ((- EPERM, -1), w\<lparr>li_erange := False\<rparr>)
     else if local_port = 0 then ((- EINVAL, -1), w\<lparr>li_erange := False\<rparr>)
     else
       (case net_call (n_socket N SOCK_DGRAM) w of (fd, w1) \<Rightarrow>
         if fd < 0 then ((fd, -1), w1)
         else
           (case lwip_socket_set_reuse_addr N fd True w1 of (r2, w2) \<Rightarrow>
             if r2 < 0 then ((r2, fd), w2)
             else
               (case lwip_socket_bind N fd local_port w2 of (r3, w3) \<Rightarrow>
                 (case (if r3 = 0 then open_udp_options N fd ttl w3 else (r3, w3)) of (r4, w4) \<Rightarrow>
                   open_finish N r4 fd False w4)))))"

definition lwip_socket_open_tcp_server :: "'n net_api \<Rightarrow> u16 \<Rightarrow> 'n lwip \<Rightarrow> (int \<times> int) \<times> 'n lwip" where
  "lwip_socket_open_tcp_server N local_port w =
    (if \<not> li_on w then ((- EPERM, -1), w\<lparr>li_erange := False\<rparr>)
     else
       (case net_call (n_socket N SOCK_STREAM) w of (fd, w1) \<Rightarrow>
         if fd < 0 then ((fd, -1), w1)
         else
           (case lwip_socket_set_reuse_addr N fd True w1 of (r2, w2) \<Rightarrow>
             if r2 < 0 then ((r2, fd), w2)
             else
               (case lwip_socket_bind N fd local_port w2 of (r3, w3) \<Rightarrow>
                 (case (if r3 = 0 then lwip_socket_listen N fd w3 else (r3, w3)) of (r4, w4) \<Rightarrow>
                   open_finish N r4 fd (r4 = 0) w4)))))"

definition lwip_socket_open_tcp_client ::
  "'n net_api \<Rightarrow> u32 \<Rightarrow> u16 \<Rightarrow> int \<Rightarrow> 'n lwip \<Rightarrow> (int \<times> int) \<times> 'n lwip" where
  "lwip_socket_open_tcp_client N remote_addr remote_port timeout_msec w =
    (if \<not> li_on w then ((- EPERM, -1), w\<lparr>li_erange := False\<rparr>)
     else
       (case net_call (n_socket N SOCK_STREAM) w of (fd, w1) \<Rightarrow>
         if fd < 0 then ((fd, -1), w1)
         else (case lwip_socket_connect N fd remote_addr remote_port timeout_msec w1 of (r2, w2) \<Rightarrow>
           open_finish N r2 fd False w2)))"

definition lwip_socket_close :: "'n net_api \<Rightarrow> int \<Rightarrow> 'n lwip \<Rightarrow> int \<times> 'n lwip" where
  "lwip_socket_close N fd w =
    (if \<not> li_on w then lwip_socket_error EPERM w
     else seq_ok (net_call (n_close N fd) (lwip_socket_fds_clear fd w)) (\<lambda>w1. (0, w1)))"

subsection \<open>Sending\<close>

text \<open>
  \<open>_lwip_socket_send_request\<close> up to its wait for the event, with the result if it does not wait, and what
  follows the wait, which takes the event if it is there.
\<close>

definition send_request_begin :: "int \<Rightarrow> 'n lwip \<Rightarrow> int option \<times> 'n lwip" where
  "send_request_begin fd w =
    (if \<not> li_on w then (Some (- EPERM), w\<lparr>li_erange := False\<rparr>)
     else if fd \<in> fds_write w then (Some (- EBUSY), w)
     else (None, w\<lparr>fds_write := insert fd (fds_write w)\<rparr>))"

definition send_request_end :: "int \<Rightarrow> 'n lwip \<Rightarrow> int \<times> 'n lwip" where
  "send_request_end fd w =
    (if fd \<in> li_events w then (0, w\<lparr>li_events := li_events w - {fd}\<rparr>)
     else (- EBUSY, w\<lparr>fds_write := fds_write w - {fd}\<rparr>))"

definition lwip_socket_send_done :: "int \<Rightarrow> 'n lwip \<Rightarrow> int \<times> 'n lwip" where
  "lwip_socket_send_done fd w =
    (if \<not> li_on w then lwip_socket_error EPERM w
     else (0, if fd \<in> fds_write w then w\<lparr>fds_write := fds_write w - {fd}, li_events := insert fd (li_events w)\<rparr> else w))"

text \<open>The loop over the datagrams of at most 1470 bytes; \<open>i\<close> bytes are sent.\<close>

definition UDP_MAX_LEN :: nat where "UDP_MAX_LEN = 1470"

function send_udp_loop :: "'n net_api \<Rightarrow> int \<Rightarrow> bool \<Rightarrow> u32 \<Rightarrow> u16 \<Rightarrow> string \<Rightarrow> nat \<Rightarrow> 'n lwip \<Rightarrow> int \<times> 'n lwip" where
  "send_udp_loop N fd via addr port data i w =
    (if i \<ge> length data then (if i = length data then int (length data) else 0, w)
     else
       (case net_call (n_sendto N fd via addr port (take (min (length data - i) UDP_MAX_LEN) (drop i data))) w of (ret, w1) \<Rightarrow>
         if ret > 0 then send_udp_loop N fd via addr port data (i + nat ret) w1
         else if ret = 0 then (int i, w1)
         else (ret, w1)))"
  by pat_completeness auto

termination by (relation "measure (\<lambda>(N, fd, via, addr, port, data, i, w). length data - i)") auto

declare send_udp_loop.simps [simp del]

definition lwip_socket_send_udp ::
  "'n net_api \<Rightarrow> int \<Rightarrow> u32 \<Rightarrow> u16 \<Rightarrow> string \<Rightarrow> bool \<Rightarrow> 'n lwip \<Rightarrow> int \<times> 'n lwip" where
  "lwip_socket_send_udp N fd addr port data via w =
    (if \<not> li_on w then lwip_socket_error EPERM w
     else if data = [] then lwip_socket_error EINVAL w
     else
       (case lwip_socket_get_type N fd w of ((r, ty), w1) \<Rightarrow>
         if r \<noteq> 0 then (r, w1)
         else if ty = SOCK_STREAM then net_call (n_send N fd data) w1
         else if ty = SOCK_DGRAM then
           (if port = 0 then lwip_socket_error EINVAL w1 else send_udp_loop N fd via addr port data 0 w1)
         else lwip_socket_error EINVAL w1))"

definition lwip_socket_send_tcp :: "'n net_api \<Rightarrow> int \<Rightarrow> string \<Rightarrow> 'n lwip \<Rightarrow> int \<times> 'n lwip" where
  "lwip_socket_send_tcp N fd data w =
    (if \<not> li_on w then lwip_socket_error EPERM w
     else if data = [] then lwip_socket_error EINVAL w
     else
       (case lwip_socket_get_type N fd w of ((r, ty), w1) \<Rightarrow>
         if r \<noteq> 0 then (r, w1)
         else if ty = SOCK_STREAM then net_call (n_send N fd data) w1
         else lwip_socket_error EINVAL w1))"

subsection \<open>Receiving\<close>

definition lwip_socket_recv_request :: "int \<Rightarrow> 'n lwip \<Rightarrow> int \<times> 'n lwip" where
  "lwip_socket_recv_request fd w =
    (if \<not> li_on w then lwip_socket_error EPERM w else (0, w\<lparr>fds_read := insert fd (fds_read w)\<rparr>))"

definition lwip_socket_recv_done :: "int \<Rightarrow> 'n lwip \<Rightarrow> int \<times> 'n lwip" where
  "lwip_socket_recv_done fd w =
    (if \<not> li_on w then lwip_socket_error EPERM w else (0, w\<lparr>fds_read := fds_read w - {fd}\<rparr>))"

text \<open>
  The results are the count or error, the bytes, and the peer of a datagram, if one came.
  \<open>_lwip_socket_recv_tcp\<close> passes no place for a peer and the length 0 for its address, so none is stored.
\<close>

definition lwip_socket_recv_udp ::
  "'n net_api \<Rightarrow> int \<Rightarrow> nat \<Rightarrow> 'n lwip \<Rightarrow> (int \<times> string \<times> (u32 \<times> u16) option) \<times> 'n lwip" where
  "lwip_socket_recv_udp N fd len w =
    (if \<not> li_on w then ((- EPERM, [], None), w\<lparr>li_erange := False\<rparr>)
     else
       (case lwip_socket_get_type N fd w of ((r, ty), w1) \<Rightarrow>
         if r \<noteq> 0 then ((r, [], None), w1)
         else if ty = SOCK_STREAM then
           (case net_query (n_recv N fd len) w1 of ((ret, d), w2) \<Rightarrow> ((ret, d, None), w2))
         else if ty = SOCK_DGRAM then
           (case net_query (n_recvfrom N fd len) w1 of ((ret, d, peer), w2) \<Rightarrow>
             ((ret, d, if ret > 0 then Some peer else None), w2))
         else ((- EPROTOTYPE, [], None), w1\<lparr>li_erange := False\<rparr>)))"

definition lwip_socket_recv_tcp :: "'n net_api \<Rightarrow> int \<Rightarrow> nat \<Rightarrow> 'n lwip \<Rightarrow> (int \<times> string) \<times> 'n lwip" where
  "lwip_socket_recv_tcp N fd len w =
    (if \<not> li_on w then ((- EPERM, []), w\<lparr>li_erange := False\<rparr>)
     else
       (case lwip_socket_get_type N fd w of ((r, ty), w1) \<Rightarrow>
         if r \<noteq> 0 then ((r, []), w1)
         else if ty = SOCK_STREAM then net_query (n_recv N fd len) w1
         else if ty = SOCK_DGRAM then
           (case net_query (n_recvfrom N fd len) w1 of ((ret, d, peer), w2) \<Rightarrow> ((ret, d), w2))
         else ((- EPROTOTYPE, []), w1\<lparr>li_erange := False\<rparr>)))"

subsection \<open>Host names\<close>

definition EAI_SERVICE :: int where "EAI_SERVICE = 201"
definition EAI_NONAME :: int where "EAI_NONAME = 200"
definition EAI_MEMORY :: int where "EAI_MEMORY = 203"

text \<open>
  The address entered for a name on the command line is tried first.  The texts come from \<open>inet_ntop\<close>, which
  cannot fail on an IPv4 address and a buffer of \<open>IP4ADDR_STRLEN_MAX\<close>.
\<close>

definition lwip_socket_addr_info_1 :: "'n net_api \<Rightarrow> string \<Rightarrow> nat \<Rightarrow> 'n lwip \<Rightarrow> (int \<times> string) \<times> 'n lwip" where
  "lwip_socket_addr_info_1 N host addrlen w =
    (if addrlen < IP4ADDR_STRLEN_MAX then ((- EINVAL, []), w\<lparr>li_erange := False\<rparr>)
     else if host = li_name w then ((0, li_addr w), w)
     else
       (case n_hostbyname N host (li_net w) of ((ret, addr), n) \<Rightarrow>
         if ret \<noteq> 0 then ((- EPERM, []), w\<lparr>li_net := n, li_erange := False\<rparr>) else ((0, addr), w\<lparr>li_net := n\<rparr>)))"

definition lwip_socket_addr_info_2 ::
  "'n net_api \<Rightarrow> string \<Rightarrow> string \<Rightarrow> nat \<Rightarrow> 'n lwip \<Rightarrow> (int \<times> string) \<times> 'n lwip" where
  "lwip_socket_addr_info_2 N host port addrlen w =
    (if addrlen < IP4ADDR_STRLEN_MAX then ((- EINVAL, []), w\<lparr>li_erange := False\<rparr>)
     else if host = li_name w then ((0, li_addr w), w)
     else
       (case n_addrinfo N host port (li_net w) of ((ecode, addr), n) \<Rightarrow>
         (let w1 = w\<lparr>li_net := n\<rparr>; w2 = w1\<lparr>li_erange := False\<rparr>
          in if ecode = 0 then ((0, addr), w1)
             else if ecode = EAI_NONAME \<or> ecode = EAI_SERVICE then ((- EINVAL, []), w2)
             else if ecode = EAI_MEMORY then ((- ENOMEM, []), w2)
             else ((- EPERM, []), w2))))"

end
