(* ===== verification/AtcmdSocketRxd.thy ===== *)
theory AtcmdSocketRxd
  imports HostAtcmdProps
begin

text \<open>
  The downlink of \<open>sdk/apps/atcmd/atcmd_socket.c\<close>: \<open>_atcmd_socket_recv_data\<close>, which puts the
  announcement in front of the received data and transmits both at once, and how the host reads it.
\<close>

subsection \<open>The target's side\<close>

text \<open>
  The parts of \<open>atcmd_socket_rxd_t\<close> the function uses.  \<open>rx_msg\<close> and \<open>rx_data\<close> are adjacent in
  memory; \<open>rx_addr\<close> is the text \<open>ipaddr_ntoa\<close> makes of the remote address.
\<close>

record socket_rxd =
  rx_id :: int
  rx_addr :: string
  rx_port :: nat
  rx_len_data :: nat
  rx_msg :: string
  rx_data :: string

definition rxd_body :: "bool \<Rightarrow> socket_rxd \<Rightarrow> string" where
  "rxd_body verbose rxd =
    (if verbose then ''RXD:'' @ dec_int (rx_id rxd) @ '','' @ dec_int (int (rx_len_data rxd)) @ '','' @ CHR 0x22 # rx_addr rxd @
       CHR 0x22 # '','' @ dec_nat (rx_port rxd)
     else ''RXD:'' @ dec_int (rx_id rxd) @ '','' @ dec_int (int (rx_len_data rxd)))"

text \<open>\<open>None\<close>: an access outside the stack buffer or the structure.\<close>

definition atcmd_socket_recv_data :: "bool \<Rightarrow> socket_rxd \<Rightarrow> 'e atcmd \<Rightarrow> (socket_rxd \<times> 'e atcmd) option" where
  "atcmd_socket_recv_data verbose rxd s =
    (let size = int (length (g_stack s)) - (if verbose then 0 else 1)
     in case atcmd_msg_vsnprint (g_stack s) size (rxd_body verbose rxd) of
          None \<Rightarrow> None
        | Some (len, msg) \<Rightarrow>
            let off = int (length (rx_msg rxd)) - len;
                mem = memcpy_at (rx_msg rxd @ rx_data rxd) (nat off) (take (nat len) msg)
            in if off < 0 \<or> len > int (length msg) \<or> rx_len_data rxd > length (rx_data rxd) then None
               else Some (rxd\<lparr>rx_msg := take (length (rx_msg rxd)) mem\<rparr>,
                 atcmd_transmit (take (nat len + rx_len_data rxd) (drop (nat off) mem)) s))"

subsection \<open>What goes out\<close>

text \<open>The message as the host's protocol has it; the address keeps its quotation marks.\<close>

definition socket_msg :: "bool \<Rightarrow> socket_rxd \<Rightarrow> host_msg" where
  "socket_msg verbose rxd =
    (let d = take (rx_len_data rxd) (rx_data rxd)
     in if verbose then HmSocketFrom (nat (rx_id rxd)) (quoted (rx_addr rxd)) (rx_port rxd) d
        else HmSocket (nat (rx_id rxd)) d)"

definition socket_rxd_ok :: "socket_rxd \<Rightarrow> bool" where
  "socket_rxd_ok rxd \<longleftrightarrow> 0 \<le> rx_id rxd \<and> number_ok (nat (rx_id rxd)) \<and> length (rx_msg rxd) = 128 \<and> length (rx_data rxd) = 4096 \<and>
     0 < rx_len_data rxd \<and> rx_len_data rxd \<le> 4096 \<and> list_all arg_char (rx_addr rxd) \<and> 1 \<le> length (rx_addr rxd) \<and>
     length (rx_addr rxd) \<le> 43 \<and> number_ok (rx_port rxd)"

lemma dec_int_nonneg: "0 \<le> i \<Longrightarrow> dec_int i = dec_nat (nat i)"
  by (simp add: dec_int_def)

lemma rxd_body_encodes:
  assumes "socket_rxd_ok rxd"
  shows "(''+'' @ rxd_body verbose rxd @ [CR, LF]) @ take (rx_len_data rxd) (rx_data rxd) = encode (socket_msg verbose rxd)"
    and "length (rxd_body verbose rxd) \<le> 124"
proof -
  let ?d = "take (rx_len_data rxd) (rx_data rxd)"
  have n: "length ?d = rx_len_data rxd" "0 \<le> rx_id rxd" "dec_int (int (rx_len_data rxd)) = dec_nat (rx_len_data rxd)"
    using assms by (simp_all add: socket_rxd_ok_def dec_int_nonneg)
  show "(''+'' @ rxd_body verbose rxd @ [CR, LF]) @ ?d = encode (socket_msg verbose rxd)"
    using n by (simp add: rxd_body_def socket_msg_def Let_def quoted_def dec_int_nonneg)
  have "number_ok (rx_len_data rxd)" using assms by (simp add: socket_rxd_ok_def number_ok_def LONG_MAX_def)
  from dec_nat_bound [OF this] show "length (rxd_body verbose rxd) \<le> 124"
    using assms dec_nat_bound [of "nat (rx_id rxd)"] dec_nat_bound [of "rx_port rxd"] n
    by (simp add: rxd_body_def socket_rxd_ok_def dec_int_nonneg)
qed

lemma socket_msg_ok: "socket_rxd_ok rxd \<Longrightarrow> host_msg_ok (socket_msg verbose rxd)"
  by (auto simp: socket_msg_def socket_rxd_ok_def data_ok_def HOST_DATA_LEN_MAX_def quoted_def arg_char_def
      ATCMD_IPADDR_LEN_MIN_def ATCMD_IPADDR_LEN_MAX_def Let_def)

lemma recv_data_sends:
  assumes "length (g_stack s) = 129" and "socket_rxd_ok rxd"
  shows "\<exists>rxd'. atcmd_socket_recv_data verbose rxd s = Some (rxd', atcmd_transmit (encode (socket_msg verbose rxd)) s) \<and>
    rx_data rxd' = rx_data rxd"
proof -
  let ?b = "rxd_body verbose rxd" let ?n = "length ?b + 3" and ?size = "129 - (if verbose then 0 else 1 :: int)"
  have L: "length ?b \<le> 124" by (rule rxd_body_encodes(2) [OF assms(2)])
  have r: "length (rx_msg rxd) = 128" "length (rx_data rxd) = 4096" "rx_len_data rxd \<le> 4096"
    using assms(2) by (simp_all add: socket_rxd_ok_def)
  have sz: "?size = 128 \<or> ?size = 129" by simp
  obtain m where m: "atcmd_msg_vsnprint (g_stack s) ?size ?b = Some (int (length ?b) + 3, m)" "length m = 129"
      "take ?n m = ''+'' @ ?b @ [CR, LF]"
    using vsnprint_fits [OF assms(1) L sz] by blast
  let ?mem = "memcpy_at (rx_msg rxd @ rx_data rxd) (128 - ?n) (take ?n m)"
  have mem: "?mem = take (128 - ?n) (rx_msg rxd) @ take ?n m @ rx_data rxd"
    using r L m(2) by (simp add: memcpy_at_def)
  have "take (?n + rx_len_data rxd) (drop (128 - ?n) ?mem) = take ?n m @ take (rx_len_data rxd) (rx_data rxd)"
    unfolding mem using r L m(2) by simp
  then have t: "take (?n + rx_len_data rxd) (drop (128 - ?n) ?mem) = encode (socket_msg verbose rxd)"
    unfolding m(3) using rxd_body_encodes(1) [OF assms(2), of verbose] by simp
  have nn: "nat (128 - (int (length ?b) + 3)) = 128 - ?n" "nat (int (length ?b) + 3) = ?n" "nat (125 - int (length ?b)) = 125 - length ?b"
    using L by linarith+
  show ?thesis unfolding atcmd_socket_recv_data_def Let_def
    using m(1,2) r L t by (simp add: assms(1) nn)
qed

text \<open>C25: Every block of received socket data, of one to 4096 bytes, goes out with its announcement as one
  transmission, and the host hands its callback the same socket and the same bytes; with the verbose
  announcement the remote address arrives in quotation marks.\<close>

theorem socket_data_reaches_host:
  assumes "length (g_stack s) = 129" and "socket_rxd_ok rxd" and "g_out s = []"
    and "host_idle h" and "\<And>e. M e" and "rxd_local h"
  shows "\<exists>rxd' s' h'. atcmd_socket_recv_data verbose rxd s = Some (rxd', s') \<and> nrc_atcmd_recv M (g_out s') h = Some h' \<and>
    host_idle h' \<and> frame h' = (let d = take (rx_len_data rxd) (rx_data rxd) in
      data_effect (if verbose then RxdSocket (int (length d)) (rx_id rxd) (quoted (rx_addr rxd)) (int (rx_port rxd)) True
                   else RxdSocket (int (length d)) (rx_id rxd) ''0.0.0.0'' 0 False) d (frame h))"
proof -
  obtain rxd' where a: "atcmd_socket_recv_data verbose rxd s = Some (rxd', atcmd_transmit (encode (socket_msg verbose rxd)) s)"
    using recv_data_sends [OF assms(1,2)] by blast
  from msg_performs [where M = M, OF assms(4-6) socket_msg_ok [OF assms(2), of verbose]] obtain h' where
    h: "nrc_atcmd_recv M (encode (socket_msg verbose rxd)) h = Some h'" "host_idle h'"
      "frame h' = host_effect (socket_msg verbose rxd) (frame h)" by (auto simp: performs_def)
  have "0 \<le> rx_id rxd" using assms(2) by (simp add: socket_rxd_ok_def)
  then show ?thesis using a h assms(3) by (auto simp: atcmd_transmit_def socket_msg_def Let_def)
qed

definition demo_rxd :: socket_rxd where
  "demo_rxd = \<lparr>rx_id = 2, rx_addr = ''10.0.0.1'', rx_port = 5001, rx_len_data = 5, rx_msg = replicate 128 NUL,
     rx_data = ''hello'' @ replicate 4091 NUL\<rparr>"

theorem socket_data_reaches_host_witness:
  "\<exists>rxd' s' h'. atcmd_socket_recv_data True demo_rxd (demo_atcmd demo_served ()) = Some (rxd', s') \<and>
    nrc_atcmd_recv (\<lambda>_. True) (g_out s') demo_host = Some h' \<and> h_env h' = [''hello''] \<and> data_recv h' = 5"
proof -
  have ok: "socket_rxd_ok demo_rxd"
    by (simp add: socket_rxd_ok_def demo_rxd_def number_ok_def LONG_MAX_def arg_char_def)
  have st: "length (g_stack (demo_atcmd demo_served ())) = 129" "g_out (demo_atcmd demo_served ()) = []"
    by (simp_all add: demo_atcmd_def)
  from socket_data_reaches_host [where M = "\<lambda>_. True" and verbose = True, OF st(1) ok st(2) demo_host_idle(1) _ demo_host_idle(2)]
  obtain rxd' s' h' where h: "atcmd_socket_recv_data True demo_rxd (demo_atcmd demo_served ()) = Some (rxd', s')"
      "nrc_atcmd_recv (\<lambda>_. True) (g_out s') demo_host = Some h'"
      "frame h' = data_effect (RxdSocket 5 2 (quoted ''10.0.0.1'') 5001 True) ''hello'' (frame demo_host)"
    by (auto simp: Let_def demo_rxd_def)
  have "h_env (frame h') = [''hello'']" "data_recv (frame h') = 5"
    unfolding h(3) by (simp_all add: data_effect_def call_def demo_host_def frame_def)
  then show ?thesis using h(1,2) by auto
qed

end
