(* ===== verification/AtcmdSocket.thy ===== *)
theory AtcmdSocket
  imports LwipSocket AtcmdSocketRxd AtcmdBasic
begin

text \<open>
  The sockets of \<open>sdk/apps/atcmd/atcmd_socket.c\<close>: the table, opening and closing, sending, receiving, the
  callbacks of \<open>lwip_socket.c\<close> and the task that calls them.  The commands are in \<open>AtcmdSocketCmd\<close>.  The module's
  variables extend those of \<open>AtcmdBasic\<close>, whose timeouts it reads; pointers into the table are indices.
\<close>

subsection \<open>State\<close>

definition ATCMD_SOCKET_NUM_MAX :: nat where "ATCMD_SOCKET_NUM_MAX = 10"
definition ATCMD_SOCKET_MULTICAST_GROUP_MAX :: nat where "ATCMD_SOCKET_MULTICAST_GROUP_MAX = 3"

datatype socket_proto = PROTO_NONE | PROTO_UDP | PROTO_TCP

record atcmd_socket =
  sk_id :: int
  sk_protocol :: socket_proto
  sk_local_port :: u16
  sk_remote_port :: u16
  sk_remote_addr :: u32
  mc_group :: u8
  mc_ttl :: u8
  mc_addr :: "u32 list"

text \<open>\<open>g_atcmd_socket_event_send\<close>.\<close>

record send_req =
  rq_socket :: "nat option"
  rq_data :: string
  rq_ret :: int
  rq_done :: int

text \<open>
  \<open>so_fault\<close> becomes true with an access outside an object or to an uninitialised one, \<open>so_stuck\<close> when a loop or a
  wait does not end; both stay.
\<close>

record ('f, 'n) sock_env = "'f basic_env" +
  so_table :: "atcmd_socket list"
  so_lwip :: "'n lwip"
  so_event_send :: bool
  so_done_event :: bool
  so_verbose :: bool
  so_passive :: bool
  so_ready_event :: bool
  so_ready :: u16
  so_exit :: string
  so_req :: send_req
  so_sending :: bool
  so_send_cnt :: u32
  so_send_len :: u32
  so_recv_cnt :: u32
  so_recv_len :: u32
  so_rxd :: socket_rxd
  so_fault :: bool
  so_stuck :: bool

type_synonym ('f, 'n, 'z) sock = "('f, 'n, 'z) sock_env_scheme atcmd"

abbreviation table :: "('f, 'n, 'z) sock \<Rightarrow> atcmd_socket list" where "table s \<equiv> so_table (g_env s)"
abbreviation lwip_of :: "('f, 'n, 'z) sock \<Rightarrow> 'n lwip" where "lwip_of s \<equiv> so_lwip (g_env s)"

definition on_env :: "(('f, 'n, 'z) sock_env_scheme \<Rightarrow> ('f, 'n, 'z) sock_env_scheme) \<Rightarrow> ('f, 'n, 'z) sock \<Rightarrow> ('f, 'n, 'z) sock" where
  "on_env f s = s\<lparr>g_env := f (g_env s)\<rparr>"

text \<open>An operation of \<open>lwip_socket.c\<close>; there is one \<open>errno\<close>.\<close>

definition on_lwip :: "('n lwip \<Rightarrow> 'a \<times> 'n lwip) \<Rightarrow> ('f, 'n, 'z) sock \<Rightarrow> 'a \<times> ('f, 'n, 'z) sock" where
  "on_lwip f s =
    (case f ((lwip_of s)\<lparr>li_erange := be_errno (g_env s)\<rparr>) of (r, w) \<Rightarrow>
      (r, on_env (\<lambda>e. e\<lparr>so_lwip := w, be_errno := li_erange w\<rparr>) s))"

definition set_entry :: "nat \<Rightarrow> atcmd_socket \<Rightarrow> ('f, 'n, 'z) sock \<Rightarrow> ('f, 'n, 'z) sock" where
  "set_entry k x = on_env (\<lambda>e. e\<lparr>so_table := (so_table e)[k := x]\<rparr>)"

definition set_fault :: "('f, 'n, 'z) sock \<Rightarrow> ('f, 'n, 'z) sock" where
  "set_fault = on_env (\<lambda>e. e\<lparr>so_fault := True\<rparr>)"

definition set_stuck :: "('f, 'n, 'z) sock \<Rightarrow> ('f, 'n, 'z) sock" where
  "set_stuck = on_env (\<lambda>e. e\<lparr>so_stuck := True\<rparr>)"

definition net_pause :: "'n net_api \<Rightarrow> nat \<Rightarrow> ('f, 'n, 'z) sock \<Rightarrow> ('f, 'n, 'z) sock" where
  "net_pause N ms = on_env (\<lambda>e. e\<lparr>so_lwip := (so_lwip e)\<lparr>li_net := n_delay N ms (li_net (so_lwip e))\<rparr>\<rparr>)"

subsection \<open>The table\<close>

definition atcmd_socket_reset :: atcmd_socket where
  "atcmd_socket_reset = \<lparr>sk_id = -1, sk_protocol = PROTO_NONE, sk_local_port = 0, sk_remote_port = 0,
     sk_remote_addr = 0, mc_group = 0, mc_ttl = 0, mc_addr = replicate ATCMD_SOCKET_MULTICAST_GROUP_MAX 0\<rparr>"

definition atcmd_socket_valid_port :: "int \<Rightarrow> bool" where
  "atcmd_socket_valid_port port \<longleftrightarrow> port > 0 \<and> port \<le> 0xffff"

text \<open>The index of the first entry that matches; a negative id, no protocol and the port 0 match all.\<close>

definition socket_matches :: "int \<Rightarrow> socket_proto \<Rightarrow> u16 \<Rightarrow> atcmd_socket \<Rightarrow> bool" where
  "socket_matches i proto port x \<longleftrightarrow> 0 \<le> sk_id x \<and> (0 \<le> i \<longrightarrow> i = sk_id x) \<and>
     (proto \<noteq> PROTO_NONE \<longrightarrow> proto = sk_protocol x) \<and> (port > 0 \<longrightarrow> port = sk_local_port x)"

fun find_index :: "('a \<Rightarrow> bool) \<Rightarrow> 'a list \<Rightarrow> nat option" where
  "find_index P [] = None"
| "find_index P (x # xs) = (if P x then Some 0 else map_option Suc (find_index P xs))"

definition atcmd_socket_search :: "int \<Rightarrow> socket_proto \<Rightarrow> u16 \<Rightarrow> ('f, 'n, 'z) sock \<Rightarrow> nat option" where
  "atcmd_socket_search i proto port s = find_index (socket_matches i proto port) (table s)"

abbreviation search_id :: "int \<Rightarrow> ('f, 'n, 'z) sock \<Rightarrow> nat option" where
  "search_id i \<equiv> atcmd_socket_search i PROTO_NONE 0"

subsection \<open>Events\<close>

datatype socket_event =
    EvConnect int u32 u16 u16
  | EvClose int int
  | EvSendDone int u32
  | EvSendIdle int u32 u32 u32
  | EvSendDrop int u32
  | EvSendExit int u32 u32
  | EvSendError int int
  | EvRecvReady int int
  | EvRecvError int int

definition fmt_port :: "u16 \<Rightarrow> string" where "fmt_port p = dec_nat (unat p)"

definition quote :: "string \<Rightarrow> string" where "quote t = CHR 0x22 # t @ [CHR 0x22]"

text \<open>The error of an event is printed without its sign.\<close>

definition event_text :: "(int \<Rightarrow> string) \<Rightarrow> socket_event \<Rightarrow> string" where
  "event_text strerror e =
    (case e of
       EvConnect i addr rport lport \<Rightarrow>
         ''\"CONNECT\",'' @ dec_int i @ '','' @ quote (ip4addr_ntoa addr) @ '','' @ fmt_port rport @ '','' @ fmt_port lport
     | EvClose i err \<Rightarrow> ''\"CLOSE\",'' @ dec_int i @ '','' @ dec_int (- err) @ '','' @ quote (strerror (- err))
     | EvSendDone i dn \<Rightarrow> ''\"SEND_DONE\",'' @ dec_int i @ '','' @ fmt_u dn
     | EvSendIdle i dn dr wt \<Rightarrow> ''\"SEND_IDLE\",'' @ dec_int i @ '','' @ fmt_u dn @ '','' @ fmt_u dr @ '','' @ fmt_u wt
     | EvSendDrop i dr \<Rightarrow> ''\"SEND_DROP\",'' @ dec_int i @ '','' @ fmt_u dr
     | EvSendExit i dn dr \<Rightarrow> ''\"SEND_EXIT\",'' @ dec_int i @ '','' @ fmt_u dn @ '','' @ fmt_u dr
     | EvSendError i err \<Rightarrow> ''\"SEND_ERROR\",'' @ dec_int i @ '','' @ dec_int (- err) @ '','' @ quote (strerror (- err))
     | EvRecvReady i len \<Rightarrow> ''\"RECV_READY\",'' @ dec_int i @ '','' @ dec_int len
     | EvRecvError i err \<Rightarrow> ''\"RECV_ERROR\",'' @ dec_int i @ '','' @ dec_int (- err) @ '','' @ quote (strerror (- err)))"

definition atcmd_socket_event_handler :: "'n net_api \<Rightarrow> socket_event \<Rightarrow> ('f, 'n, 'z) sock \<Rightarrow> ('f, 'n, 'z) sock" where
  "atcmd_socket_event_handler N e = msg_put (''SEVENT:'' @ event_text (n_strerror N) e)"

subsection \<open>Closing\<close>

definition ready_bit :: "int \<Rightarrow> u16" where "ready_bit i = push_bit (nat i) 1"

text \<open>One pass of the loop of \<open>_atcmd_socket_close\<close>, for the entry at \<open>k\<close>.\<close>

definition close_entry :: "'n net_api \<Rightarrow> int \<Rightarrow> int \<Rightarrow> nat \<Rightarrow> ('f, 'n, 'z) sock \<Rightarrow> ('f, 'n, 'z) sock" where
  "close_entry N i err k s =
    (let fd = sk_id (table s ! k)
     in if fd < 0 then s
        else if i < 0 \<or> i = fd then
          (let s1 = snd (on_lwip (lwip_socket_send_done fd) s);
               s2 = snd (on_lwip (lwip_socket_close N fd) s1);
               s3 = (if err < 0 then atcmd_socket_event_handler N (EvClose fd err) s2
                     else msg_put (''SCLOSE:'' @ dec_int fd) s2);
               s4 = (if so_passive (g_env s3) then on_env (\<lambda>e. e\<lparr>so_ready := so_ready e AND NOT (ready_bit fd)\<rparr>) s3 else s3)
           in set_entry k atcmd_socket_reset s4)
        else s)"

definition atcmd_socket_close :: "'n net_api \<Rightarrow> int \<Rightarrow> int \<Rightarrow> ('f, 'n, 'z) sock \<Rightarrow> int \<times> ('f, 'n, 'z) sock" where
  "atcmd_socket_close N i err s = (0, fold (close_entry N i err) [0..<length (table s)] s)"

text \<open>The errors after which a socket is closed.\<close>

definition closing_error :: "int \<Rightarrow> bool" where
  "closing_error r \<longleftrightarrow> r \<in> {- EBADF, - ENOTCONN, - ECONNRESET, - ECONNABORTED, - EHOSTUNREACH}"

subsection \<open>Sending\<close>

definition SEND_RETRY_MAX :: nat where "SEND_RETRY_MAX = 6000"

definition send_piece ::
  "'n net_api \<Rightarrow> atcmd_socket \<Rightarrow> bool \<Rightarrow> string \<Rightarrow> ('f, 'n, 'z) sock \<Rightarrow> int \<times> ('f, 'n, 'z) sock" where
  "send_piece N sk via d =
    on_lwip (if sk_protocol sk = PROTO_TCP then lwip_socket_send_tcp N (sk_id sk) d
             else lwip_socket_send_udp N (sk_id sk) (sk_remote_addr sk) (sk_remote_port sk) d via)"

text \<open>The loop of \<open>__atcmd_socket_send_data\<close>: \<open>i\<close> bytes are sent, \<open>retry\<close> pauses are made.\<close>

function send_loop ::
  "'n net_api \<Rightarrow> nat \<Rightarrow> bool \<Rightarrow> string \<Rightarrow> nat \<Rightarrow> nat \<Rightarrow> ('f, 'n, 'z) sock \<Rightarrow> int \<times> nat \<times> ('f, 'n, 'z) sock" where
  "send_loop N k via data i retry s =
    (if i \<ge> length data then (0, i, s)
     else
       (case send_piece N (table s ! k) via (drop i data) s of (ret, s1) \<Rightarrow>
         if ret > 0 then send_loop N k via data (i + nat ret) retry s1
         else
           (let ret1 = (if ret = 0 then - ENOTCONN else ret)
            in if closing_error ret1 then (ret1, i, snd (atcmd_socket_close N (sk_id (table s1 ! k)) ret1 s1))
               else if (ret1 = - ENOMEM \<or> ret1 = - ENOBUFS \<or> ret1 = - EWOULDBLOCK) \<and> Suc retry < SEND_RETRY_MAX then
                 send_loop N k via data i (Suc retry) (net_pause N 10 s1)
               else (ret1, i, s1))))"
  by pat_completeness auto

termination
  by (relation "measures [\<lambda>(N, k, via, data, i, retry, s). length data - i, \<lambda>(N, k, via, data, i, retry, s). SEND_RETRY_MAX - retry]") auto

declare send_loop.simps [simp del]

text \<open>A broadcast leaves through the Wi-Fi interface as long as that has no address.\<close>

definition send_via_netif :: "'n net_api \<Rightarrow> atcmd_socket \<Rightarrow> ('f, 'n, 'z) sock \<Rightarrow> bool" where
  "send_via_netif N sk s \<longleftrightarrow>
     sk_protocol sk = PROTO_UDP \<and> sk_remote_addr sk = IPADDR_BROADCAST \<and> n_bcast_if N (li_net (lwip_of s))"

text \<open>\<open>__atcmd_socket_send_data\<close>: the result and \<open>*done\<close>.\<close>

definition send_data_direct ::
  "'n net_api \<Rightarrow> nat \<Rightarrow> string \<Rightarrow> ('f, 'n, 'z) sock \<Rightarrow> (int \<times> int) \<times> ('f, 'n, 'z) sock" where
  "send_data_direct N k data s =
    (case send_loop N k (send_via_netif N (table s ! k) s) data 0 0 s of (ret, i, s1) \<Rightarrow>
      ((ret, int i),
       if i > 0 then on_env (\<lambda>e. e\<lparr>so_send_cnt := so_send_cnt e + 1, so_send_len := so_send_len e + of_nat i\<rparr>) s1 else s1))"

definition no_request :: send_req where
  "no_request = \<lparr>rq_socket = None, rq_data = [], rq_ret = 0, rq_done = 0\<rparr>"

definition set_req :: "send_req \<Rightarrow> ('f, 'n, 'z) sock \<Rightarrow> ('f, 'n, 'z) sock" where
  "set_req r = on_env (\<lambda>e. e\<lparr>so_req := r\<rparr>)"

definition atcmd_socket_send_handler :: "'n net_api \<Rightarrow> int \<Rightarrow> ('f, 'n, 'z) sock \<Rightarrow> ('f, 'n, 'z) sock" where
  "atcmd_socket_send_handler N i s =
    (case rq_socket (so_req (g_env s)) of
       None \<Rightarrow> s
     | Some k \<Rightarrow>
         (let s1 =
            (if i \<noteq> sk_id (table s ! k) then s
             else
               (case send_data_direct N k (rq_data (so_req (g_env s))) s of ((ret, dn), t) \<Rightarrow>
                 set_req \<lparr>rq_socket = None, rq_data = [], rq_ret = ret, rq_done = dn\<rparr> t))
          in snd (on_lwip (lwip_socket_send_done i) s1)))"

subsection \<open>Receiving\<close>

text \<open>The copy of the table's entry and the buffer of the data, as \<open>_atcmd_socket_recv_data\<close> finds them.\<close>

definition store_rxd :: "atcmd_socket \<Rightarrow> (u32 \<times> u16) option \<Rightarrow> string \<Rightarrow> socket_rxd \<Rightarrow> socket_rxd" where
  "store_rxd sk peer d rxd =
    (case (case peer of None \<Rightarrow> (sk_remote_addr sk, sk_remote_port sk) | Some p \<Rightarrow> p) of (addr, port) \<Rightarrow>
      rxd\<lparr>rx_id := sk_id sk, rx_addr := ip4addr_ntoa addr, rx_port := unat port, rx_len_data := length d,
          rx_data := memcpy_at (rx_data rxd) 0 d\<rparr>)"

definition deliver_rxd :: "('f, 'n, 'z) sock \<Rightarrow> ('f, 'n, 'z) sock" where
  "deliver_rxd s =
    (case atcmd_socket_recv_data (so_verbose (g_env s)) (so_rxd (g_env s)) s of
       None \<Rightarrow> set_fault s
     | Some (rxd, s1) \<Rightarrow> on_env (\<lambda>e. e\<lparr>so_rxd := rxd\<rparr>) s1)"

text \<open>The call into \<open>lwip_socket.c\<close> for the protocol of the entry.\<close>

definition recv_piece ::
  "'n net_api \<Rightarrow> int \<Rightarrow> atcmd_socket \<Rightarrow> nat \<Rightarrow> ('f, 'n, 'z) sock \<Rightarrow> (int \<times> string \<times> (u32 \<times> u16) option) \<times> ('f, 'n, 'z) sock" where
  "recv_piece N i sk len s =
    (case sk_protocol sk of
       PROTO_UDP \<Rightarrow> on_lwip (lwip_socket_recv_udp N i len) s
     | PROTO_TCP \<Rightarrow> (case on_lwip (lwip_socket_recv_tcp N i len) s of ((ret, d), s1) \<Rightarrow> ((ret, d, None), s1))
     | PROTO_NONE \<Rightarrow> ((- EPROTOTYPE, [], None), s))"

definition recv_one :: "'n net_api \<Rightarrow> int \<Rightarrow> int \<Rightarrow> bool \<Rightarrow> ('f, 'n, 'z) sock \<Rightarrow> int \<times> ('f, 'n, 'z) sock" where
  "recv_one N i len passive s =
    (case search_id i s of
       None \<Rightarrow> (- EINVAL, s)
     | Some k \<Rightarrow>
         if len < 0 then (- EINVAL, s)
         else
           (case recv_piece N i (table s ! k) (min (nat len) ATCMD_DATA_LEN_MAX) s of ((ret, d, peer), s1) \<Rightarrow>
             if ret > 0 then
               (let s2 = on_env (\<lambda>e. e\<lparr>so_recv_cnt := so_recv_cnt e + 1, so_recv_len := so_recv_len e + of_int ret,
                            so_rxd := store_rxd (table s ! k) peer (take (nat ret) d) (so_rxd e)\<rparr>) s1;
                    s3 = (if passive then msg_ok s2 else s2)
                in (ret, deliver_rxd s3))
             else if ret < 0 \<and> search_id i s1 \<noteq> None then
               (if ret = - LwipSocket.EAGAIN then (0, s1)
                else if closing_error ret then (ret, snd (atcmd_socket_close N i ret s1))
                else (ret, atcmd_socket_event_handler N (EvRecvError i ret) s1))
             else (ret, s1)))"

text \<open>\<open>for (i = 0 ; i < len ; i += ret)\<close>, at most \<open>n\<close> turns.\<close>

fun recv_loop :: "'n net_api \<Rightarrow> nat \<Rightarrow> int \<Rightarrow> int \<Rightarrow> int \<Rightarrow> ('f, 'n, 'z) sock \<Rightarrow> ('f, 'n, 'z) sock" where
  "recv_loop N 0 fd len i s = (if i \<ge> len then s else set_stuck s)"
| "recv_loop N (Suc n) fd len i s =
    (if i \<ge> len then s
     else
       (case recv_one N fd (if len - i \<ge> int ATCMD_DATA_LEN_MAX then int ATCMD_DATA_LEN_MAX else len - i) False s of (ret, s1) \<Rightarrow>
         if ret < 0 then s1 else recv_loop N n fd len (i + ret) s1))"

definition atcmd_socket_recv_handler :: "'n net_api \<Rightarrow> int \<Rightarrow> ('f, 'n, 'z) sock \<Rightarrow> ('f, 'n, 'z) sock" where
  "atcmd_socket_recv_handler N i s =
    (if i < 0 \<or> i \<ge> int ATCMD_SOCKET_NUM_MAX then s
     else
       (case on_lwip (lwip_socket_recv_len N i) s of (len, s1) \<Rightarrow>
         if len = 0 then snd (recv_one N i 0 False s1)
         else if len > 0 then
           (if so_passive (g_env s1) then
              (let s2 = snd (on_lwip (lwip_socket_recv_done i) s1)
               in if so_ready (g_env s2) AND ready_bit i = 0 then
                    (let s3 = on_env (\<lambda>e. e\<lparr>so_ready := so_ready e OR ready_bit i\<rparr>) s2
                     in if so_ready_event (g_env s3) then atcmd_socket_event_handler N (EvRecvReady i len) s3 else s3)
                  else s2)
            else recv_loop N (n_turns N) i len 0 s1)
         else s1))"

definition free_entry :: "('f, 'n, 'z) sock \<Rightarrow> nat option" where
  "free_entry s = find_index (\<lambda>x. sk_id x < 0) (table s)"

definition atcmd_socket_tcp_connect_handler ::
  "'n net_api \<Rightarrow> int \<Rightarrow> u32 \<Rightarrow> u16 \<Rightarrow> ('f, 'n, 'z) sock \<Rightarrow> ('f, 'n, 'z) sock" where
  "atcmd_socket_tcp_connect_handler N i addr port s =
    (if i < 0 \<or> port = 0 then s
     else
       (case on_lwip (lwip_socket_get_local N i) s of ((r, lport), s1) \<Rightarrow>
         (let local_port = (if r \<noteq> 0 then 0 else lport)
          in case free_entry s1 of
               None \<Rightarrow> s1
             | Some k \<Rightarrow>
                 atcmd_socket_event_handler N (EvConnect i addr port local_port)
                   (set_entry k ((table s1 ! k)\<lparr>sk_id := i, sk_protocol := PROTO_TCP, sk_local_port := local_port,
                      sk_remote_port := port, sk_remote_addr := addr\<rparr>) s1))))"

subsection \<open>The socket task\<close>

text \<open>What is done with a descriptor that is ready for reading.\<close>

definition fd_readable :: "'n net_api \<Rightarrow> int \<Rightarrow> ('f, 'n, 'z) sock \<Rightarrow> ('f, 'n, 'z) sock" where
  "fd_readable N fd s =
    (if fd \<in> fds_listen (lwip_of s) then
       (case on_lwip (lwip_socket_accept N fd) s of ((new, addr, port), s1) \<Rightarrow>
         if new < 0 then s1
         else atcmd_socket_tcp_connect_handler N new addr port
                (snd (on_lwip (\<lambda>w. ((), lwip_socket_fds_set new False w)) s1)))
     else atcmd_socket_recv_handler N fd s)"

text \<open>The loop over the descriptors, while \<open>ret\<close> ready ones are left.\<close>

fun task_fds :: "'n net_api \<Rightarrow> int set \<Rightarrow> int set \<Rightarrow> int \<Rightarrow> int list \<Rightarrow> ('f, 'n, 'z) sock \<Rightarrow> ('f, 'n, 'z) sock" where
  "task_fds N rd wr ret [] s = s"
| "task_fds N rd wr ret (fd # fds) s =
    (if ret > 0 then
       (let s1 = (if fd \<in> rd then fd_readable N fd s else s);
            s2 = (if fd \<in> wr then atcmd_socket_send_handler N fd s1 else s1)
        in task_fds N rd wr (ret - (if fd \<in> rd then 1 else 0) - (if fd \<in> wr then 1 else 0)) fds s2)
     else s)"

text \<open>One turn of the task's endless loop.  \<open>select\<close> gets a set only if its first word is not zero.\<close>

definition fd_word :: "int set \<Rightarrow> int set" where "fd_word A = {fd \<in> A. 0 \<le> fd \<and> fd < 32}"

definition lwip_socket_task :: "'n net_api \<Rightarrow> ('f, 'n, 'z) sock \<Rightarrow> ('f, 'n, 'z) sock" where
  "lwip_socket_task N s =
    (if \<not> li_on (lwip_of s) then s
     else
       (case lwip_socket_fds_get (lwip_of s) of (nfds, rd, wr) \<Rightarrow>
         if nfds = 0 then net_pause N 10 s
         else
           (let r = (if fd_word rd = {} then {} else rd); w = (if fd_word wr = {} then {} else wr)
            in case on_lwip (net_query (n_select N nfds r w)) s of ((ret, rd1, wr1), s1) \<Rightarrow>
                 net_pause N 1
                   (task_fds N (if fd_word rd = {} then rd else rd1) (if fd_word wr = {} then wr else wr1) ret
                     [0..int nfds - 1] s1))))"

subsection \<open>Sending on request of a command\<close>

text \<open>
  While \<open>_lwip_socket_send_request\<close> waits, the socket task runs, until the event of the descriptor is there, at
  most \<open>n\<close> times.
\<close>

fun wait_event :: "'n net_api \<Rightarrow> int \<Rightarrow> nat \<Rightarrow> ('f, 'n, 'z) sock \<Rightarrow> ('f, 'n, 'z) sock" where
  "wait_event N fd 0 s = s"
| "wait_event N fd (Suc n) s = (if fd \<in> li_events (lwip_of s) then s else wait_event N fd n (lwip_socket_task N s))"

definition lwip_socket_send_request :: "'n net_api \<Rightarrow> int \<Rightarrow> u32 \<Rightarrow> ('f, 'n, 'z) sock \<Rightarrow> int \<times> ('f, 'n, 'z) sock" where
  "lwip_socket_send_request N fd timeout_ms s =
    (case on_lwip (send_request_begin fd) s of
       (Some ret, s1) \<Rightarrow> (ret, s1)
     | (None, s1) \<Rightarrow>
         (let s2 = wait_event N fd (n_passes N) s1;
              s3 = (if fd \<notin> li_events (lwip_of s2) \<and> timeout_ms = 0 then set_stuck s2 else s2)
          in on_lwip (send_request_end fd) s3))"

definition atcmd_socket_send_request ::
  "'n net_api \<Rightarrow> nat \<Rightarrow> string \<Rightarrow> ('f, 'n, 'z) sock \<Rightarrow> (int \<times> int) \<times> ('f, 'n, 'z) sock" where
  "atcmd_socket_send_request N k data s =
    (if rq_socket (so_req (g_env s)) \<noteq> None then ((- EBUSY, 0), s)
     else
       (let timeout_ms = atcmd_timeout_value ''SSEND'' (g_env s);
            s1 = set_req \<lparr>rq_socket = Some k, rq_data = data, rq_ret = 0, rq_done = 0\<rparr> s
        in case lwip_socket_send_request N (sk_id (table s ! k)) timeout_ms s1 of (ret, s2) \<Rightarrow>
             (if ret = 0 then (rq_ret (so_req (g_env s2)), rq_done (so_req (g_env s2))) else (ret, 0),
              set_req no_request s2)))"

text \<open>\<open>_atcmd_socket_send_data\<close> on an entry of the table: the result and \<open>*done\<close>.\<close>

definition send_data_entry ::
  "'n net_api \<Rightarrow> nat \<Rightarrow> string \<Rightarrow> ('f, 'n, 'z) sock \<Rightarrow> (int \<times> int) \<times> ('f, 'n, 'z) sock" where
  "send_data_entry N k data s =
    (let sk = table s ! k
     in if data = [] then ((- EINVAL, 0), s)
        else if sk_protocol sk = PROTO_NONE then ((- EPROTOTYPE, 0), s)
        else
          (case search_id (sk_id sk) s of
             None \<Rightarrow> ((- ENOTSOCK, 0), s)
           | Some j \<Rightarrow>
               (let x = table s ! j;
                    sk1 = sk\<lparr>sk_protocol := sk_protocol x, sk_local_port := sk_local_port x\<rparr>;
                    sk2 = (if sk_remote_port sk1 = 0 \<and> sk_remote_port x > 0
                           then sk1\<lparr>sk_remote_port := sk_remote_port x, sk_remote_addr := sk_remote_addr x\<rparr> else sk1);
                    s1 = on_env (\<lambda>e. e\<lparr>so_sending := True\<rparr>) (set_entry k sk2 s)
                in case (if so_event_send (g_env s1) then atcmd_socket_send_request N k data s1
                         else send_data_direct N k data s1) of (r, s2) \<Rightarrow>
                     (r, on_env (\<lambda>e. e\<lparr>so_sending := False\<rparr>) s2))))"

definition atcmd_socket_send_data :: "'n net_api \<Rightarrow> int \<Rightarrow> string \<Rightarrow> ('f, 'n, 'z) sock \<Rightarrow> int \<times> ('f, 'n, 'z) sock" where
  "atcmd_socket_send_data N i data s =
    (case search_id i s of
       None \<Rightarrow> (0, s)
     | Some k \<Rightarrow> (case send_data_entry N k data s of ((ret, dn), s1) \<Rightarrow> (dn, s1)))"

subsection \<open>Opening\<close>

text \<open>The first result is the return value; the second is what \<open>socket->id\<close> holds if an entry was made.\<close>

definition open_conflict :: "atcmd_socket \<Rightarrow> ('f, 'n, 'z) sock \<Rightarrow> bool" where
  "open_conflict sk s \<longleftrightarrow> (\<exists>x \<in> set (table s). 0 \<le> sk_id x \<and> sk_protocol sk = sk_protocol x \<and>
     sk_local_port sk \<noteq> 0 \<and> sk_local_port sk = sk_local_port x)"

definition open_call :: "'n net_api \<Rightarrow> atcmd_socket \<Rightarrow> ('f, 'n, 'z) sock \<Rightarrow> (int \<times> int \<times> u16) \<times> ('f, 'n, 'z) sock" where
  "open_call N sk s =
    (if sk_protocol sk = PROTO_UDP then
       (case on_lwip (lwip_socket_open_udp N (sk_local_port sk) (mc_ttl sk)) s of ((ret, fd), s1) \<Rightarrow> ((ret, fd, sk_local_port sk), s1))
     else if sk_local_port sk > 0 \<and> sk_remote_port sk = 0 then
       (case on_lwip (lwip_socket_open_tcp_server N (sk_local_port sk)) s of ((ret, fd), s1) \<Rightarrow> ((ret, fd, sk_local_port sk), s1))
     else if sk_local_port sk = 0 \<and> sk_remote_port sk > 0 then
       (let t = atcmd_timeout_value ''SOPEN'' (g_env s)
        in case on_lwip (lwip_socket_open_tcp_client N (sk_remote_addr sk) (sk_remote_port sk)
                  (sint (if t = 0 then 30000 else t))) s of ((ret, fd), s1) \<Rightarrow>
             if ret = 0 then
               (case on_lwip (lwip_socket_get_local N fd) s1 of ((r, lport), s2) \<Rightarrow> ((ret, fd, if r \<noteq> 0 then 0 else lport), s2))
             else ((ret, fd, sk_local_port sk), s1))
     else ((- EINVAL, -1, sk_local_port sk), s))"

definition atcmd_socket_open :: "'n net_api \<Rightarrow> atcmd_socket \<Rightarrow> ('f, 'n, 'z) sock \<Rightarrow> int \<times> ('f, 'n, 'z) sock" where
  "atcmd_socket_open N sk s =
    (if open_conflict sk s then (- EINVAL, s)
     else
       (case free_entry s of
          None \<Rightarrow> (- EPERM, s)
        | Some k \<Rightarrow>
            (case open_call N sk s of ((ret, fd, lport), s1) \<Rightarrow>
              if fd < 0 then (ret, s1)
              else (0, msg_put (''SOPEN:'' @ dec_int fd) (set_entry k (sk\<lparr>sk_id := fd, sk_local_port := lport\<rparr>) s1)))))"

subsection \<open>Starting and stopping the module\<close>

text \<open>The result of \<open>_lwip_socket_init\<close>; \<open>None\<close> is its access through the NULL pointer.\<close>

definition atcmd_socket_init ::
  "bool \<Rightarrow> bool \<Rightarrow> bool \<Rightarrow> bool \<Rightarrow> ('f, 'n, 'z) sock \<Rightarrow> (int \<times> ('f, 'n, 'z) sock) option" where
  "atcmd_socket_init mem_ok event_ok mutex_ok task_ok s =
    (let s1 = on_env (\<lambda>e. e\<lparr>so_table := map (\<lambda>_. atcmd_socket_reset) (so_table e)\<rparr>) s
     in map_option (\<lambda>(r, w). (r, on_env (\<lambda>e. e\<lparr>so_lwip := w, be_errno := li_erange w\<rparr>) s1))
          (lwip_socket_init mem_ok event_ok mutex_ok task_ok ((lwip_of s1)\<lparr>li_erange := be_errno (g_env s1)\<rparr>)))"

text \<open>
  \<open>atcmd_socket_enable\<close>: the two allocations, the initialisation, whose result is not looked at, and the
  registration of the group \<open>g\<close> with the commands \<open>xs\<close>.
\<close>

definition ATCMD_GROUP_SOCKET :: nat where "ATCMD_GROUP_SOCKET = 2"

definition atcmd_socket_enable ::
  "bool \<Rightarrow> bool \<Rightarrow> bool \<Rightarrow> bool \<Rightarrow> bool \<Rightarrow> addr \<Rightarrow> addr list \<Rightarrow> ('f, 'n, 'z) sock \<Rightarrow> (int \<times> ('f, 'n, 'z) sock) option" where
  "atcmd_socket_enable table_ok mem_ok event_ok mutex_ok task_ok g xs s =
    (if \<not> table_ok then Some (-1, s)
     else
       (case atcmd_socket_init mem_ok event_ok mutex_ok task_ok
               (on_env (\<lambda>e. e\<lparr>so_table := replicate ATCMD_SOCKET_NUM_MAX atcmd_socket_reset\<rparr>) s) of
          None \<Rightarrow> None
        | Some (ret, s1) \<Rightarrow>
            (case atcmd_group_register g (g_registry s1) of
               None \<Rightarrow> None
             | Some (r1, reg1) \<Rightarrow>
                 if r1 \<noteq> 0 then Some (-1, s1\<lparr>g_registry := reg1\<rparr>)
                 else
                   (case info_register_all ATCMD_GROUP_SOCKET xs reg1 of
                      None \<Rightarrow> None
                    | Some (r2, reg2) \<Rightarrow> Some (r2, s1\<lparr>g_registry := reg2\<rparr>)))))"

subsection \<open>The data mode's consumer\<close>

definition socket_data_event :: "data_event \<Rightarrow> socket_event option" where
  "socket_data_event e =
    (case e of
       SendDone i n \<Rightarrow> Some (EvSendDone i n)
     | SendDrop i n \<Rightarrow> Some (EvSendDrop i n)
     | SendExit i dn dr \<Rightarrow> Some (EvSendExit i dn dr)
     | SendIdle i dn dr wt tm \<Rightarrow> Some (EvSendIdle i dn dr wt)
     | _ \<Rightarrow> None)"

text \<open>No idle event is sent while data is being sent.\<close>

definition socket_event_consumer :: "'n net_api \<Rightarrow> data_event \<Rightarrow> ('f, 'n, 'z) sock \<Rightarrow> ('f, 'n, 'z) sock" where
  "socket_event_consumer N e s =
    (case socket_data_event e of
       None \<Rightarrow> s
     | Some v \<Rightarrow>
         (case v of
            EvSendIdle i dn dr wt \<Rightarrow> if so_sending (g_env s) then s else atcmd_socket_event_handler N v s
          | _ \<Rightarrow> atcmd_socket_event_handler N v s))"

definition socket_consumers :: "'n net_api \<Rightarrow> ('f, 'n, 'z) sock_env_scheme consumers" where
  "socket_consumers N =
    \<lparr>send = (\<lambda>k buf s. case k of SocketSend i \<Rightarrow> atcmd_socket_send_data N i buf s | _ \<Rightarrow> (0, s)),
     event = socket_event_consumer N\<rparr>"

end
