(* ===== verification/AtcmdSocketCmd.thy ===== *)
theory AtcmdSocketCmd
  imports AtcmdSocket
begin

text \<open>
  The commands of \<open>sdk/apps/atcmd/atcmd_socket.c\<close>, \<open>AT+SOPEN\<close> to \<open>AT+STIMEOUT\<close>, in the build without IPv6, and the
  module as a set of command handlers.
\<close>

definition ATCMD_ERROR_TIMEOUT :: int where "ATCMD_ERROR_TIMEOUT = 4"
definition ATCMD_ERROR_NOMEM :: int where "ATCMD_ERROR_NOMEM = 5"

type_synonym ('f, 'n, 'z) result = "int \<times> ('f, 'n, 'z) sock"

text \<open>\<open>atoi\<close> of a parameter, with its effect on \<open>errno\<close>; \<open>x\<close> from there on.\<close>

definition atoi_of :: "string \<Rightarrow> ('f, 'n, 'z) sock \<Rightarrow> int \<times> ('f, 'n, 'z) sock" where
  "atoi_of p s = (case t_atoi (be_errno (g_env s)) p of (v, e) \<Rightarrow> (v, set_errno e s))"

definition IPADDR_SIZE :: int where "IPADDR_SIZE = 16"

subsection \<open>AT+SOPEN\<close>

definition open_udp_set :: "'n net_api \<Rightarrow> string list \<Rightarrow> ('f, 'n, 'z) sock \<Rightarrow> ('f, 'n, 'z) result" where
  "open_udp_set N a s =
    (case atoi_of (a ! 0) s of (local_port, s1) \<Rightarrow>
      if \<not> atcmd_socket_valid_port local_port then (- EINVAL, s1)
      else
        (let sk = atcmd_socket_reset\<lparr>sk_protocol := PROTO_UDP, sk_local_port := of_int local_port, mc_group := 0, mc_ttl := 255\<rparr>
         in if length a = 2 then
              (case atoi_of (a ! 1) s1 of (ttl, s2) \<Rightarrow>
                if ttl < 0 \<or> ttl > 255 then (- EINVAL, s2) else atcmd_socket_open N (sk\<lparr>mc_ttl := of_int ttl\<rparr>) s2)
            else atcmd_socket_open N sk s1))"

definition open_tcp_server_set :: "'n net_api \<Rightarrow> string list \<Rightarrow> ('f, 'n, 'z) sock \<Rightarrow> ('f, 'n, 'z) result" where
  "open_tcp_server_set N a s =
    (case atoi_of (a ! 0) s of (local_port, s1) \<Rightarrow>
      if \<not> atcmd_socket_valid_port local_port then (- EINVAL, s1)
      else atcmd_socket_open N (atcmd_socket_reset\<lparr>sk_protocol := PROTO_TCP, sk_local_port := of_int local_port\<rparr>) s1)"

text \<open>The server's address, if it is one, or else the one its name has.\<close>

definition server_address ::
  "'n net_api \<Rightarrow> string \<Rightarrow> string \<Rightarrow> ('f, 'n, 'z) sock \<Rightarrow> (int \<times> u32) \<times> ('f, 'n, 'z) sock" where
  "server_address N addr port s =
    (case atcmd_param_to_str (Some addr) IPADDR_SIZE of
       None \<Rightarrow> ((- EINVAL, 0), s)
     | Some host \<Rightarrow>
         (case ip4addr_aton host of
            Some ip \<Rightarrow> ((0, ip), s)
          | None \<Rightarrow>
              (case on_lwip (lwip_socket_addr_info_2 N host port (nat IPADDR_SIZE)) s of ((ret, txt), s1) \<Rightarrow>
                if ret \<noteq> 0 then ((ret, 0), s1)
                else (case ip4addr_aton txt of None \<Rightarrow> ((- EINVAL, 0), s1) | Some ip \<Rightarrow> ((0, ip), s1)))))"

definition open_tcp_client_set :: "'n net_api \<Rightarrow> string list \<Rightarrow> ('f, 'n, 'z) sock \<Rightarrow> ('f, 'n, 'z) result" where
  "open_tcp_client_set N a s =
    (case atoi_of (a ! 1) s of (port, s1) \<Rightarrow>
      if \<not> atcmd_socket_valid_port port then (- EINVAL, s1)
      else
        (case server_address N (a ! 0) (a ! 1) s1 of ((ret, ip), s2) \<Rightarrow>
          if ret \<noteq> 0 then (ret, s2)
          else atcmd_socket_open N
            (atcmd_socket_reset\<lparr>sk_protocol := PROTO_TCP, sk_remote_port := of_int port, sk_remote_addr := ip\<rparr>) s2))"

definition open_result :: "int \<Rightarrow> int" where
  "open_result ret =
    (if ret = 0 then ATCMD_SUCCESS
     else if ret = - ENOTSUP then ATCMD_ERROR_NOTSUPP
     else if ret = - EINVAL then ATCMD_ERROR_INVAL
     else if ret = - EINPROGRESS then ATCMD_ERROR_BUSY
     else ATCMD_ERROR_FAIL)"

definition atcmd_socket_open_set :: "'n net_api \<Rightarrow> string list \<Rightarrow> ('f, 'n, 'z) sock \<Rightarrow> ('f, 'n, 'z) result" where
  "atcmd_socket_open_set N argv s =
    (if argv = [] then
       (ATCMD_SUCCESS,
        msg_put ''AT+SOPEN=\"TCP\",\"<server_address>\",<server_port>''
          (msg_put ''AT+SOPEN=\"TCP\",<local_port>'' (msg_put ''AT+SOPEN=\"UDP\",<local_port>[,<multicast_ttl>]'' s)))
     else if length argv \<noteq> 2 \<and> length argv \<noteq> 3 then (ATCMD_ERROR_INVAL, s)
     else
       (case atcmd_param_to_str (Some (argv ! 0)) 4 of
          None \<Rightarrow> (ATCMD_ERROR_INVAL, s)
        | Some p \<Rightarrow>
            (let run = (\<lambda>f. case f N (tl argv) s of (ret, s1) \<Rightarrow> (open_result ret, s1))
             in if p = ''udp'' \<or> p = ''UDP'' then run open_udp_set
                else if p = ''tcp'' \<or> p = ''TCP'' then
                  (if length argv = 2 then run open_tcp_server_set else run open_tcp_client_set)
                else (ATCMD_ERROR_INVAL, s))))"

subsection \<open>AT+SCLOSE and AT+SLIST\<close>

definition atcmd_socket_close_run :: "'n net_api \<Rightarrow> ('f, 'n, 'z) sock \<Rightarrow> ('f, 'n, 'z) result" where
  "atcmd_socket_close_run N = atcmd_socket_close N (-1) 0"

definition atcmd_socket_close_set :: "'n net_api \<Rightarrow> string list \<Rightarrow> ('f, 'n, 'z) sock \<Rightarrow> ('f, 'n, 'z) result" where
  "atcmd_socket_close_set N argv s =
    (if argv = [] then (ATCMD_SUCCESS, msg_put ''AT+SCLOSE=<socket_ID>'' s)
     else if length argv \<noteq> 1 then (ATCMD_ERROR_INVAL, s)
     else
       (case atoi_of (argv ! 0) s of (i, s1) \<Rightarrow>
         if 0 \<le> i \<and> i < int ATCMD_SOCKET_NUM_MAX then atcmd_socket_close N i 0 s1 else (ATCMD_ERROR_INVAL, s1)))"

definition fmt_u8 :: "u8 \<Rightarrow> string" where "fmt_u8 w = dec_nat (unat w)"

text \<open>One entry of the list; for a datagram socket the time-to-live is brought up to date first.\<close>

definition list_entry :: "'n net_api \<Rightarrow> nat \<Rightarrow> ('f, 'n, 'z) sock \<Rightarrow> ('f, 'n, 'z) sock" where
  "list_entry N k s =
    (let sk = table s ! k
     in if sk_id sk < 0 then s
        else if sk_protocol sk = PROTO_UDP then
          (case on_lwip (lwip_socket_udp_get_multicast_ttl N (sk_id sk)) s of ((r, ttl), s1) \<Rightarrow>
            (let sk1 = (if r = 0 then sk\<lparr>mc_ttl := ttl\<rparr> else sk)
             in msg_put (''SLIST:'' @ dec_int (sk_id sk1) @ '',\"UDP\",\"0.0.0.0\",0,'' @ fmt_port (sk_local_port sk1) @ '','' @
                  fmt_u8 (mc_ttl sk1) @ '','' @ fmt_u8 (mc_group sk1)) (set_entry k sk1 s1)))
        else msg_put (''SLIST:'' @ dec_int (sk_id sk) @ '',\"TCP\",'' @ quote (ip4addr_ntoa (sk_remote_addr sk)) @ '','' @
               fmt_port (sk_remote_port sk) @ '','' @ fmt_port (sk_local_port sk)) s)"

definition atcmd_socket_list_get :: "'n net_api \<Rightarrow> string list \<Rightarrow> ('f, 'n, 'z) sock \<Rightarrow> ('f, 'n, 'z) result" where
  "atcmd_socket_list_get N argv s =
    (if argv \<noteq> [] then (ATCMD_ERROR_INVAL, s) else (ATCMD_SUCCESS, fold (list_entry N) [0..<length (table s)] s))"

subsection \<open>AT+SSEND\<close>

text \<open>\<open>abs\<close> of the smallest integer is that integer.\<close>

definition c_abs :: "int \<Rightarrow> int" where "c_abs v = (if v = - (2 ^ 31) then v else \<bar>v\<bar>)"

text \<open>The three optional parameters by the number of parameters: length, remote address and port, done event.\<close>

definition ssend_len :: "string list \<Rightarrow> string option" where
  "ssend_len argv = (if length argv \<ge> 4 then Some (argv ! 3) else if length argv \<ge> 2 then Some (argv ! 1) else None)"

definition ssend_done :: "string list \<Rightarrow> string option" where
  "ssend_done argv = (if length argv = 5 then Some (argv ! 4) else if length argv = 3 then Some (argv ! 2) else None)"

text \<open>
  The remote address.  The result: a refusal, or the length and done event parameters that are left.  A text that
  is no address leaves \<open>remote_ip\<close> uninitialised.
\<close>

definition ssend_remote ::
  "'n net_api \<Rightarrow> nat \<Rightarrow> string list \<Rightarrow> ('f, 'n, 'z) sock \<Rightarrow>
    (string option \<times> string option) option \<times> ('f, 'n, 'z) sock" where
  "ssend_remote N k argv s =
    (let n = length argv; keep = Some (ssend_len argv, ssend_done argv)
     in if n < 3 then (keep, s)
        else
          (case atcmd_param_to_str (Some (argv ! 1)) IPADDR_SIZE of
             None \<Rightarrow> (if n > 3 then None else keep, s)
           | Some ip \<Rightarrow>
               if length ip < 7 \<or> length ip > 15 then (None, s)
               else
                 (case atoi_of (argv ! 2) s of (port, s1) \<Rightarrow>
                   if \<not> atcmd_socket_valid_port port then (None, s1)
                   else
                     (let addr = (case ip4addr_aton ip of Some a \<Rightarrow> a | None \<Rightarrow> n_stack_addr N)
                      in (if n = 3 then Some (None, None) else keep,
                          set_entry k ((table s1 ! k)\<lparr>sk_remote_addr := addr, sk_remote_port := of_int port\<rparr>) s1)))))"

definition ssend_enable :: "'n net_api \<Rightarrow> nat \<Rightarrow> int \<Rightarrow> bool \<Rightarrow> ('f, 'n, 'z) sock \<Rightarrow> ('f, 'n, 'z) result" where
  "ssend_enable N k len dn s =
    (if len \<le> 0 \<and> n_no_passthrough N then (ATCMD_ERROR_NOTSUPP, s)
     else
       (let p = (atcmd_data_mode_init_params ATCMD_DATA_SSEND)
                  \<lparr>dm_id := sk_id (table s ! k), dm_len := of_int (c_abs len), dm_timeout := 1000, done_event := dn,
                    exit_cmd := (if so_exit (g_env s) = [] then None else Some (so_exit (g_env s))), passthrough := len \<le> 0\<rparr>
        in case atcmd_data_mode_enable (Some p) s of (ret, s1) \<Rightarrow> (if ret \<noteq> 0 then ATCMD_ERROR_FAIL else ATCMD_SUCCESS, s1)))"

definition atcmd_socket_send_set :: "'n net_api \<Rightarrow> string list \<Rightarrow> ('f, 'n, 'z) sock \<Rightarrow> ('f, 'n, 'z) result" where
  "atcmd_socket_send_set N argv s =
    (if argv = [] then
       (ATCMD_SUCCESS,
        msg_put ''AT+SSEND=<socket_ID>,\"<remote_ip>\",<remote_port>[,<length>[,<done_event]]''
          (msg_put ''AT+SSEND=<socket_ID>[,<length>[,<done_event>]]'' s))
     else if length argv > 5 then (ATCMD_ERROR_INVAL, s)
     else
       (case atoi_of (argv ! 0) s of (i, s1) \<Rightarrow>
         (case search_id i s1 of
            None \<Rightarrow> (ATCMD_ERROR_INVAL, s1)
          | Some k \<Rightarrow>
              (case ssend_remote N k argv s1 of
                 (None, s2) \<Rightarrow> (ATCMD_ERROR_INVAL, s2)
               | (Some (plen, pdone), s2) \<Rightarrow>
                   (case (case plen of None \<Rightarrow> (0, s2) | Some p \<Rightarrow> atoi_of p s2) of (len, s3) \<Rightarrow>
                     if c_abs len > int ATCMD_DATA_LEN_MAX then (ATCMD_ERROR_INVAL, s3)
                     else
                       (case (case pdone of None \<Rightarrow> (if so_done_event (g_env s3) then 1 else 0, s3) | Some p \<Rightarrow> atoi_of p s3) of
                          (dn, s4) \<Rightarrow>
                            if dn \<noteq> 0 \<and> dn \<noteq> 1 then (ATCMD_ERROR_INVAL, s4) else ssend_enable N k len (dn = 1) s4))))))"

subsection \<open>AT+SSENDEXIT\<close>

definition SEND_EXIT_SIZE :: nat where "SEND_EXIT_SIZE = 33"

definition atcmd_socket_send_exit_get :: "string list \<Rightarrow> ('f, 'n, 'z) sock \<Rightarrow> ('f, 'n, 'z) result" where
  "atcmd_socket_send_exit_get argv s =
    (let x = so_exit (g_env s)
     in if argv \<noteq> [] then (ATCMD_ERROR_INVAL, s)
        else if x = ''AT'' @ [CR, LF] then (ATCMD_SUCCESS, msg_put ''SSENDEXIT:\"\"'' s)
        else if take 3 x = ''AT+'' then
          (let len = length x - 3
           in (ATCMD_SUCCESS, on_env (\<lambda>e. e\<lparr>so_exit := (so_exit e)[3 + (len - 2) := CR]\<rparr>)
                (msg_put (''SSENDEXIT:'' @ quote (take (len - 2) (drop 3 x))) s)))
        else (ATCMD_ERROR_INVAL, s))"

text \<open>The text is written with its prefix, its line end and its NUL, whatever the size of the variable.\<close>

definition put_exit :: "string \<Rightarrow> ('f, 'n, 'z) sock \<Rightarrow> ('f, 'n, 'z) sock" where
  "put_exit x s =
    (let s1 = on_env (\<lambda>e. e\<lparr>so_exit := x\<rparr>) s in if length x + 1 > SEND_EXIT_SIZE then set_fault s1 else s1)"

definition atcmd_socket_send_exit_set :: "string list \<Rightarrow> ('f, 'n, 'z) sock \<Rightarrow> ('f, 'n, 'z) result" where
  "atcmd_socket_send_exit_set argv s =
    (if argv = [] then (ATCMD_SUCCESS, msg_put ''AT+SSENDEXIT=\"<cmd>\"'' s)
     else if length argv \<noteq> 1 then (ATCMD_ERROR_INVAL, s)
     else if argv ! 0 = ''\"\"'' then (ATCMD_SUCCESS, put_exit (''AT'' @ [CR, LF]) s)
     else
       (case atcmd_param_to_str (Some (argv ! 0)) (int SEND_EXIT_SIZE) of
          None \<Rightarrow> (ATCMD_ERROR_INVAL, s)
        | Some x \<Rightarrow>
            if length x > 0 \<and> length x \<le> 32 then (ATCMD_SUCCESS, put_exit (''AT+'' @ x @ [CR, LF]) s)
            else (ATCMD_ERROR_INVAL, s)))"

subsection \<open>AT+SRECV and its settings\<close>

text \<open>The lengths of the sockets in the order of the table; \<open>None\<close> when one cannot be told.\<close>

fun recv_lens :: "'n net_api \<Rightarrow> atcmd_socket list \<Rightarrow> int list \<Rightarrow> ('f, 'n, 'z) sock \<Rightarrow> int list option \<times> ('f, 'n, 'z) sock" where
  "recv_lens N [] lens s = (Some lens, s)"
| "recv_lens N (x # xs) lens s =
    (if sk_id x < 0 then recv_lens N xs lens s
     else
       (case on_lwip (lwip_socket_recv_len N (sk_id x)) s of (ret, s1) \<Rightarrow>
         if ret < 0 then (None, s1)
         else recv_lens N xs (if sk_id x < int ATCMD_SOCKET_NUM_MAX then lens[nat (sk_id x) := ret] else lens) s1))"

text \<open>The form with an identifier reads the parameter behind the last one.\<close>

definition atcmd_socket_recv_get :: "'n net_api \<Rightarrow> string list \<Rightarrow> ('f, 'n, 'z) sock \<Rightarrow> ('f, 'n, 'z) result" where
  "atcmd_socket_recv_get N argv s =
    (if \<not> so_passive (g_env s) then (ATCMD_ERROR_NOTSUPP, s)
     else if length argv = 1 then
       (let i = n_stack_int N; s1 = set_fault s
        in if i < 0 \<or> search_id i s1 = None then (ATCMD_ERROR_INVAL, s1)
           else
             (case on_lwip (lwip_socket_recv_len N i) s1 of (len, s2) \<Rightarrow>
               if len < 0 then (ATCMD_ERROR_FAIL, s2)
               else (ATCMD_SUCCESS, msg_put (''SRECV:'' @ dec_int i @ '','' @ dec_int len) s2)))
     else if argv = [] then
       (case recv_lens N (table s) (replicate ATCMD_SOCKET_NUM_MAX 0) s of
          (None, s1) \<Rightarrow> (ATCMD_ERROR_FAIL, s1)
        | (Some lens, s1) \<Rightarrow>
            (ATCMD_SUCCESS,
             fold (\<lambda>i t. if lens ! i > 0 then msg_put (''SRECV:'' @ dec_nat i @ '','' @ dec_int (lens ! i)) t else t)
               [0..<ATCMD_SOCKET_NUM_MAX] s1))
     else (ATCMD_ERROR_INVAL, s))"

text \<open>Waiting for data, from the millisecond \<open>t\<close> on; 0 when there is some.\<close>

function srecv_wait :: "'n net_api \<Rightarrow> int \<Rightarrow> nat \<Rightarrow> nat \<Rightarrow> ('f, 'n, 'z) sock \<Rightarrow> ('f, 'n, 'z) result" where
  "srecv_wait N i t timeout_ms s =
    (if t \<ge> timeout_ms then (ATCMD_ERROR_TIMEOUT, s)
     else
       (case on_lwip (lwip_socket_recv_len N i) s of (ret, s1) \<Rightarrow>
         if ret > 0 then (0, s1)
         else if ret < 0 then (ATCMD_ERROR_FAIL, s1)
         else srecv_wait N i (Suc t) timeout_ms (net_pause N 1 s1)))"
  by pat_completeness auto

termination by (relation "measure (\<lambda>(N, i, t, timeout_ms, s). timeout_ms - t)") auto

declare srecv_wait.simps [simp del]

text \<open>Reading, and asking for more if the socket was announced as ready.\<close>

definition srecv_read :: "'n net_api \<Rightarrow> int \<Rightarrow> int \<Rightarrow> ('f, 'n, 'z) sock \<Rightarrow> ('f, 'n, 'z) result" where
  "srecv_read N i len s =
    (case recv_one N i len True s of (ret, s1) \<Rightarrow>
      (let s2 = (if so_ready (g_env s1) AND ready_bit i \<noteq> 0
                 then snd (on_lwip (lwip_socket_recv_request i)
                        (on_env (\<lambda>e. e\<lparr>so_ready := so_ready e AND NOT (ready_bit i)\<rparr>) s1))
                 else s1)
       in (if ret \<ge> 0 then ATCMD_NO_RETURN else ATCMD_ERROR_FAIL, s2)))"

definition atcmd_socket_recv_set :: "'n net_api \<Rightarrow> string list \<Rightarrow> ('f, 'n, 'z) sock \<Rightarrow> ('f, 'n, 'z) result" where
  "atcmd_socket_recv_set N argv s =
    (if \<not> so_passive (g_env s) then (ATCMD_ERROR_NOTSUPP, s)
     else if argv = [] then (ATCMD_SUCCESS, msg_put ''AT+SRECV=<socket_ID>[,<length>]'' s)
     else if length argv > 2 then (ATCMD_ERROR_INVAL, s)
     else
       (case atoi_of (argv ! 0) s of (i, s1) \<Rightarrow>
         if \<not> (0 \<le> i \<and> i < int ATCMD_SOCKET_NUM_MAX) then (ATCMD_ERROR_INVAL, s1)
         else
           (case (if length argv = 2 then atoi_of (argv ! 1) s1 else (int ATCMD_DATA_LEN_MAX, s1)) of (len, s2) \<Rightarrow>
             if len \<le> 0 then (ATCMD_ERROR_INVAL, s2)
             else
               (case on_lwip (lwip_socket_recv_len N i) s2 of (ret, s3) \<Rightarrow>
                 if ret < 0 then (ATCMD_ERROR_FAIL, s3)
                 else if ret > 0 then srecv_read N i len s3
                 else if length argv = 2 then (ATCMD_ERROR_FAIL, s3)
                 else
                   (let t = atcmd_timeout_value ''SRECV'' (g_env s3)
                    in case srecv_wait N i 0 (if t = 0 then unat (NOT 0 :: u32) else unat t) s3 of (r, s4) \<Rightarrow>
                         if r \<noteq> 0 then (r, s4) else srecv_read N i len s4)))))"

definition fmt_bool :: "bool \<Rightarrow> string" where "fmt_bool b = (if b then ''1'' else ''0'')"

definition atcmd_socket_recv_mode_get :: "string list \<Rightarrow> ('f, 'n, 'z) sock \<Rightarrow> ('f, 'n, 'z) result" where
  "atcmd_socket_recv_mode_get argv s =
    (if argv \<noteq> [] then (ATCMD_ERROR_INVAL, s)
     else (ATCMD_SUCCESS, msg_put (''SRECVMODE:'' @ fmt_bool (so_passive (g_env s)) @ '','' @ fmt_bool (so_ready_event (g_env s))) s))"

definition atcmd_socket_recv_mode_set :: "string list \<Rightarrow> ('f, 'n, 'z) sock \<Rightarrow> ('f, 'n, 'z) result" where
  "atcmd_socket_recv_mode_set argv s =
    (if argv = [] then (ATCMD_SUCCESS, msg_put ''AT+SRECVMODE=<mode>[,<ready_event>]'' s)
     else if length argv > 2 then (ATCMD_ERROR_INVAL, s)
     else
       (case atoi_of (argv ! 0) s of (mode, s1) \<Rightarrow>
         (case (if length argv = 2 then atoi_of (argv ! 1) s1 else (0, s1)) of (ev, s2) \<Rightarrow>
           if (mode = 0 \<or> mode = 1) \<and> (ev = 0 \<or> ev = 1) then
             (ATCMD_SUCCESS, on_env (\<lambda>e. e\<lparr>so_passive := mode = 1, so_ready_event := ev = 1, so_ready := 0\<rparr>) s2)
           else (ATCMD_ERROR_INVAL, s2))))"

definition atcmd_socket_recv_info_get :: "string list \<Rightarrow> ('f, 'n, 'z) sock \<Rightarrow> ('f, 'n, 'z) result" where
  "atcmd_socket_recv_info_get argv s =
    (if argv \<noteq> [] then (ATCMD_ERROR_INVAL, s) else (ATCMD_SUCCESS, msg_put (''SRECVINFO:'' @ fmt_bool (so_verbose (g_env s))) s))"

definition atcmd_socket_recv_info_set :: "string list \<Rightarrow> ('f, 'n, 'z) sock \<Rightarrow> ('f, 'n, 'z) result" where
  "atcmd_socket_recv_info_set argv s =
    (if argv = [] then (ATCMD_SUCCESS, msg_put ''AT+SRECVINFO={0|1}'' s)
     else if length argv \<noteq> 1 then (ATCMD_ERROR_INVAL, s)
     else
       (case atoi_of (argv ! 0) s of (mode, s1) \<Rightarrow>
         if mode = 0 \<or> mode = 1 then (ATCMD_SUCCESS, on_env (\<lambda>e. e\<lparr>so_verbose := mode = 1\<rparr>) s1)
         else (ATCMD_ERROR_INVAL, s1)))"

definition atcmd_socket_recv_log_get :: "string list \<Rightarrow> ('f, 'n, 'z) sock \<Rightarrow> ('f, 'n, 'z) result" where
  "atcmd_socket_recv_log_get argv s =
    (if argv \<noteq> [] then (ATCMD_ERROR_INVAL, s) else (ATCMD_SUCCESS, msg_put (''SRXLOGLEVEL:'' @ fmt_bool (so_verbose (g_env s))) s))"

definition atcmd_socket_recv_log_set :: "string list \<Rightarrow> ('f, 'n, 'z) sock \<Rightarrow> ('f, 'n, 'z) result" where
  "atcmd_socket_recv_log_set argv s =
    (if argv = [] then (ATCMD_SUCCESS, msg_put ''AT+SRXLOGLEVEL=<mode>'' s)
     else if length argv = 1 then atcmd_socket_recv_info_set argv s
     else (ATCMD_ERROR_INVAL, s))"

subsection \<open>AT+SADDRINFO\<close>

definition addr_info_result :: "(int \<times> string) \<times> ('f, 'n, 'z) sock \<Rightarrow> ('f, 'n, 'z) result" where
  "addr_info_result x =
    (case x of ((ret, addr), s) \<Rightarrow>
      if ret \<noteq> 0 then (ATCMD_ERROR_FAIL, s) else (ATCMD_SUCCESS, msg_put (''SADDRINFO:'' @ quote addr) s))"

definition atcmd_socket_addr_info_set :: "'n net_api \<Rightarrow> string list \<Rightarrow> ('f, 'n, 'z) sock \<Rightarrow> ('f, 'n, 'z) result" where
  "atcmd_socket_addr_info_set N argv s =
    (if argv = [] then (ATCMD_SUCCESS, msg_put ''AT+SADDRINFO=\"<domain_name>\"'' s)
     else if length argv > 2 then (ATCMD_ERROR_INVAL, s)
     else
       (case atcmd_param_to_str (Some (argv ! 0)) 128 of
          None \<Rightarrow> (ATCMD_ERROR_INVAL, s)
        | Some name \<Rightarrow>
            if length argv = 1 then addr_info_result (on_lwip (lwip_socket_addr_info_1 N name (nat IPADDR_SIZE)) s)
            else
              (case atcmd_param_to_uint16 (be_errno (g_env s)) (Some (argv ! 1)) of
                 (None, e) \<Rightarrow> (ATCMD_ERROR_INVAL, set_errno e s)
               | (Some port, e) \<Rightarrow>
                   if \<not> atcmd_socket_valid_port port then (ATCMD_ERROR_INVAL, set_errno e s)
                   else addr_info_result (on_lwip (lwip_socket_addr_info_2 N name (argv ! 1) (nat IPADDR_SIZE)) (set_errno e s)))))"

subsection \<open>AT+STCPKEEPALIVE and AT+STCPNODELAY\<close>

definition tcp_client :: "atcmd_socket \<Rightarrow> bool" where
  "tcp_client x \<longleftrightarrow> sk_protocol x = PROTO_TCP \<and> sk_remote_port x \<noteq> 0"

definition keepalive_text :: "int \<Rightarrow> int \<times> int \<times> int \<times> int \<Rightarrow> string" where
  "keepalive_text i v =
    (case v of (alive, idle, cnt, intvl) \<Rightarrow>
      ''STCPKEEPALIVE:'' @ dec_int i @ '','' @ dec_int alive @ '','' @ dec_int idle @ '','' @ dec_int cnt @ '','' @ dec_int intvl)"

text \<open>
  The loop over the table: \<open>v\<close> are the four variables, \<open>None\<close> as long as they are uninitialised; they are printed
  whether the call has succeeded or not.
\<close>

fun keepalive_list ::
  "'n net_api \<Rightarrow> atcmd_socket list \<Rightarrow> (int \<times> int \<times> int \<times> int) option \<Rightarrow> ('f, 'n, 'z) sock \<Rightarrow> ('f, 'n, 'z) sock" where
  "keepalive_list N [] v s = s"
| "keepalive_list N (x # xs) v s =
    (if sk_id x < 0 \<or> \<not> tcp_client x then keepalive_list N xs v s
     else
       (case on_lwip (lwip_socket_tcp_get_keepalive N (sk_id x)) s of ((ret, vs), s1) \<Rightarrow>
         (let v1 = (if ret = 0 then Some vs else v); u = n_stack_int N
          in keepalive_list N xs v1
               (case v1 of
                  Some y \<Rightarrow> msg_put (keepalive_text (sk_id x) y) s1
                | None \<Rightarrow> msg_put (keepalive_text (sk_id x) (u, u, u, u)) (set_fault s1)))))"

definition atcmd_socket_tcp_keepalive_get :: "'n net_api \<Rightarrow> string list \<Rightarrow> ('f, 'n, 'z) sock \<Rightarrow> ('f, 'n, 'z) result" where
  "atcmd_socket_tcp_keepalive_get N argv s =
    (if argv = [] then (ATCMD_SUCCESS, keepalive_list N (table s) None s)
     else if length argv \<noteq> 1 then (ATCMD_ERROR_INVAL, s)
     else
       (case atoi_of (argv ! 0) s of (i, s1) \<Rightarrow>
         (case (if i < 0 then None else search_id i s1) of
            None \<Rightarrow> (ATCMD_ERROR_INVAL, s1)
          | Some k \<Rightarrow>
              if \<not> tcp_client (table s1 ! k) then (ATCMD_ERROR_INVAL, s1)
              else
                (case on_lwip (lwip_socket_tcp_get_keepalive N i) s1 of ((ret, vs), s2) \<Rightarrow>
                  if ret \<noteq> 0 then (ATCMD_ERROR_FAIL, s2) else (ATCMD_SUCCESS, msg_put (keepalive_text i vs) s2)))))"

text \<open>The three intervals of the long form; \<open>None\<close> is a refusal.\<close>

definition keepalive_params :: "bool \<Rightarrow> string list \<Rightarrow> (int \<times> int \<times> int) option \<times> bool" where
  "keepalive_params err argv =
    (if length argv \<noteq> 5 then (Some (-1, -1, -1), err)
     else
       (case atcmd_param_to_int32 err (Some (argv ! 2)) of (a, e1) \<Rightarrow>
         if a = None \<or> the a < 0 then (None, e1) else
       (case atcmd_param_to_int32 e1 (Some (argv ! 3)) of (b, e2) \<Rightarrow>
         if b = None \<or> the b < 0 then (None, e2) else
       (case atcmd_param_to_int32 e2 (Some (argv ! 4)) of (c, e3) \<Rightarrow>
         if c = None \<or> the c < 0 then (None, e3) else (Some (the a, the b, the c), e3)))))"

definition atcmd_socket_tcp_keepalive_set :: "'n net_api \<Rightarrow> string list \<Rightarrow> ('f, 'n, 'z) sock \<Rightarrow> ('f, 'n, 'z) result" where
  "atcmd_socket_tcp_keepalive_set N argv s =
    (if argv = [] then (ATCMD_SUCCESS, msg_put ''AT+STCPKEEPALIVE=<socket_ID>,{0|1}[,<keepidle>,<keepcnt>,<keepintvl>]'' s)
     else if length argv \<noteq> 2 \<and> length argv \<noteq> 5 then (ATCMD_ERROR_INVAL, s)
     else
       (case keepalive_params (be_errno (g_env s)) argv of
          (None, e) \<Rightarrow> (ATCMD_ERROR_INVAL, set_errno e s)
        | (Some (a, b, c), e) \<Rightarrow>
            (case atoi_of (argv ! 0) (set_errno e s) of (i, s1) \<Rightarrow>
              (case atoi_of (argv ! 1) s1 of (alive, s2) \<Rightarrow>
                if i < 0 \<or> (alive \<noteq> 0 \<and> alive \<noteq> 1) then (ATCMD_ERROR_INVAL, s2)
                else
                  (case search_id i s2 of
                     None \<Rightarrow> (ATCMD_ERROR_INVAL, s2)
                   | Some k \<Rightarrow>
                       if \<not> tcp_client (table s2 ! k) then (ATCMD_ERROR_INVAL, s2)
                       else
                         (case on_lwip (lwip_socket_tcp_get_keepalive N i) s2 of ((ret, _, idle, cnt, intvl), s3) \<Rightarrow>
                           if ret \<noteq> 0 then (ATCMD_ERROR_FAIL, s3)
                           else
                             (case on_lwip (lwip_socket_tcp_set_keepalive N i alive (if a \<ge> 0 then a else idle)
                                     (if b \<ge> 0 then b else cnt) (if c \<ge> 0 then c else intvl)) s3 of (r, s4) \<Rightarrow>
                               (if r \<noteq> 0 then ATCMD_ERROR_FAIL else ATCMD_SUCCESS, s4))))))))"

fun nodelay_list :: "'n net_api \<Rightarrow> atcmd_socket list \<Rightarrow> ('f, 'n, 'z) sock \<Rightarrow> ('f, 'n, 'z) sock" where
  "nodelay_list N [] s = s"
| "nodelay_list N (x # xs) s =
    (if sk_id x < 0 \<or> \<not> tcp_client x then nodelay_list N xs s
     else
       (case on_lwip (lwip_socket_tcp_get_nodelay N (sk_id x)) s of ((ret, on), s1) \<Rightarrow>
         nodelay_list N xs
           (msg_put (''STCPNODELAY:'' @ dec_int (sk_id x) @ '','' @ (if ret = 0 then fmt_bool on else ''?'')) s1)))"

definition atcmd_socket_tcp_nodelay_get :: "'n net_api \<Rightarrow> string list \<Rightarrow> ('f, 'n, 'z) sock \<Rightarrow> ('f, 'n, 'z) result" where
  "atcmd_socket_tcp_nodelay_get N argv s =
    (if argv = [] then (ATCMD_SUCCESS, nodelay_list N (table s) s)
     else if length argv \<noteq> 1 then (ATCMD_ERROR_INVAL, s)
     else
       (case atoi_of (argv ! 0) s of (i, s1) \<Rightarrow>
         (case (if i < 0 then None else search_id i s1) of
            None \<Rightarrow> (ATCMD_ERROR_INVAL, s1)
          | Some k \<Rightarrow>
              if \<not> tcp_client (table s1 ! k) then (ATCMD_ERROR_INVAL, s1)
              else
                (case on_lwip (lwip_socket_tcp_get_nodelay N (sk_id (table s1 ! k))) s1 of ((ret, on), s2) \<Rightarrow>
                  if ret \<noteq> 0 then (ATCMD_ERROR_FAIL, s2)
                  else (ATCMD_SUCCESS, msg_put (''STCPNODELAY:'' @ dec_int i @ '','' @ fmt_bool on) s2)))))"

definition atcmd_socket_tcp_nodelay_set :: "'n net_api \<Rightarrow> string list \<Rightarrow> ('f, 'n, 'z) sock \<Rightarrow> ('f, 'n, 'z) result" where
  "atcmd_socket_tcp_nodelay_set N argv s =
    (if argv = [] then (ATCMD_SUCCESS, msg_put ''AT+STCPNODELAY=<socket_ID>,{0|1}'' s)
     else if length argv \<noteq> 2 then (ATCMD_ERROR_INVAL, s)
     else
       (case atoi_of (argv ! 0) s of (i, s1) \<Rightarrow>
         (case (if i < 0 then None else search_id i s1) of
            None \<Rightarrow> (ATCMD_ERROR_INVAL, s1)
          | Some k \<Rightarrow>
              if \<not> tcp_client (table s1 ! k) then (ATCMD_ERROR_INVAL, s1)
              else
                (case atoi_of (argv ! 1) s1 of (enable, s2) \<Rightarrow>
                  if enable \<noteq> 0 \<and> enable \<noteq> 1 then (ATCMD_ERROR_INVAL, s2)
                  else
                    (case on_lwip (lwip_socket_tcp_set_nodelay N (sk_id (table s2 ! k)) (enable = 1)) s2 of (ret, s3) \<Rightarrow>
                      (if ret \<noteq> 0 then ATCMD_ERROR_FAIL else ATCMD_SUCCESS, s3))))))"

subsection \<open>AT+SMCAST\<close>

definition multicast_add :: "'n net_api \<Rightarrow> nat \<Rightarrow> u32 \<Rightarrow> ('f, 'n, 'z) sock \<Rightarrow> ('f, 'n, 'z) result" where
  "multicast_add N k addr s =
    (let sk = table s ! k
     in if \<not> ip4_addr_ismulticast addr then (ATCMD_ERROR_INVAL, s)
        else if addr \<in> set (mc_addr sk) then (ATCMD_ERROR_INVAL, s)
        else
          (case find_index (\<lambda>a. a = IPADDR_ANY) (mc_addr sk) of
             None \<Rightarrow> (ATCMD_ERROR_NOMEM, s)
           | Some j \<Rightarrow>
               (case on_lwip (lwip_socket_udp_add_multicast_group N (sk_id sk) addr) s of (ret, s1) \<Rightarrow>
                 if ret \<noteq> 0 then (ATCMD_ERROR_FAIL, s1)
                 else (ATCMD_SUCCESS, set_entry k (sk\<lparr>mc_addr := (mc_addr sk)[j := addr], mc_group := mc_group sk + 1\<rparr>) s1))))"

definition multicast_drop :: "'n net_api \<Rightarrow> nat \<Rightarrow> u32 \<Rightarrow> ('f, 'n, 'z) sock \<Rightarrow> ('f, 'n, 'z) result" where
  "multicast_drop N k addr s =
    (let sk = table s ! k
     in if addr = IPADDR_ANY then
          (let s1 = fold (\<lambda>a t. if a \<noteq> IPADDR_ANY
                           then snd (on_lwip (lwip_socket_udp_drop_multicast_group N (sk_id sk) a) t) else t) (mc_addr sk) s
           in (ATCMD_SUCCESS, set_entry k (sk\<lparr>mc_addr := map (\<lambda>_. IPADDR_ANY) (mc_addr sk), mc_group := 0\<rparr>) s1))
        else if \<not> ip4_addr_ismulticast addr then (ATCMD_ERROR_INVAL, s)
        else
          (case find_index (\<lambda>a. addr = a) (mc_addr sk) of
             None \<Rightarrow> (ATCMD_ERROR_INVAL, s)
           | Some j \<Rightarrow>
               (case on_lwip (lwip_socket_udp_drop_multicast_group N (sk_id sk) addr) s of (ret, s1) \<Rightarrow>
                 if ret \<noteq> 0 then (ATCMD_ERROR_FAIL, s1)
                 else (ATCMD_SUCCESS,
                   set_entry k (sk\<lparr>mc_addr := (mc_addr sk)[j := IPADDR_ANY], mc_group := mc_group sk - 1\<rparr>) s1))))"

definition multicast_entry :: "atcmd_socket \<Rightarrow> ('f, 'n, 'z) sock \<Rightarrow> ('f, 'n, 'z) sock" where
  "multicast_entry x s =
    (if sk_id x < 0 \<or> sk_protocol x = PROTO_TCP \<or> mc_group x = 0 then s
     else fold (\<lambda>a t. if a = IPADDR_ANY then t
                       else msg_put (''SMCAST:'' @ dec_int (sk_id x) @ '','' @ quote (ip4addr_ntoa a)) t) (mc_addr x) s)"

definition atcmd_socket_udp_multicast_get :: "string list \<Rightarrow> ('f, 'n, 'z) sock \<Rightarrow> ('f, 'n, 'z) result" where
  "atcmd_socket_udp_multicast_get argv s =
    (if argv \<noteq> [] then (ATCMD_ERROR_INVAL, s) else (ATCMD_SUCCESS, fold multicast_entry (table s) s))"

text \<open>1 to add, 2 to drop, 0 for any other text.\<close>

definition multicast_mode :: "string \<Rightarrow> int" where
  "multicast_mode p =
    (case atcmd_param_to_str (Some p) 5 of
       None \<Rightarrow> 0
     | Some m \<Rightarrow> if m = ''add'' \<or> m = ''ADD'' then 1 else if m = ''drop'' \<or> m = ''DROP'' then 2 else 0)"

definition atcmd_socket_udp_multicast_set :: "'n net_api \<Rightarrow> string list \<Rightarrow> ('f, 'n, 'z) sock \<Rightarrow> ('f, 'n, 'z) result" where
  "atcmd_socket_udp_multicast_set N argv s =
    (if argv = [] then (ATCMD_SUCCESS, msg_put ''AT+SMCAST=<socket_ID>,\"{add|drop}\",\"<group_addr>\"'' s)
     else if length argv \<noteq> 3 then (ATCMD_ERROR_INVAL, s)
     else
       (case atoi_of (argv ! 0) s of (i, s1) \<Rightarrow>
         (case (if i < 0 \<or> i \<ge> int ATCMD_SOCKET_NUM_MAX then None else search_id i s1) of
            None \<Rightarrow> (ATCMD_ERROR_INVAL, s1)
          | Some k \<Rightarrow>
              (let mode = multicast_mode (argv ! 1)
               in if sk_protocol (table s1 ! k) = PROTO_TCP \<or> mode = 0 then (ATCMD_ERROR_INVAL, s1)
                  else
                    (case atcmd_param_to_str (Some (argv ! 2)) IPADDR_SIZE of
                       None \<Rightarrow> (ATCMD_ERROR_INVAL, s1)
                     | Some txt \<Rightarrow>
                         (case ip4addr_aton (if mode = 2 \<and> txt = [] then ''0.0.0.0'' else txt) of
                            None \<Rightarrow> (ATCMD_ERROR_INVAL, s1)
                          | Some addr \<Rightarrow> if mode = 1 then multicast_add N k addr s1 else multicast_drop N k addr s1))))))"

subsection \<open>AT+STIMEOUT\<close>

definition atcmd_socket_timeout_get :: "string list \<Rightarrow> ('f, 'n, 'z) sock \<Rightarrow> ('f, 'n, 'z) result" where
  "atcmd_socket_timeout_get argv s =
    (if argv \<noteq> [] then (ATCMD_ERROR_INVAL, s) else atcmd_basic_timeout_get [''1''] s)"

definition atcmd_socket_timeout_set :: "string list \<Rightarrow> ('f, 'n, 'z) sock \<Rightarrow> ('f, 'n, 'z) result" where
  "atcmd_socket_timeout_set argv s =
    (if argv = [] then (ATCMD_SUCCESS, msg_put ''AT+STIMEOUT=\"<command>\",<time>'' s)
     else if length argv = 2 then atcmd_basic_timeout_set argv s
     else (ATCMD_ERROR_INVAL, s))"

subsection \<open>The module as a set of handlers\<close>

datatype socket_cmd =
    ATCMD_SOCKET_OPEN | ATCMD_SOCKET_CLOSE | ATCMD_SOCKET_LIST | ATCMD_SOCKET_SEND | ATCMD_SOCKET_SEND_EXIT
  | ATCMD_SOCKET_RECV | ATCMD_SOCKET_RECV_MODE | ATCMD_SOCKET_RECV_INFO | ATCMD_SOCKET_RECV_LOG
  | ATCMD_SOCKET_ADDR_INFO | ATCMD_SOCKET_TCP_KEEPALIVE | ATCMD_SOCKET_TCP_NODELAY | ATCMD_SOCKET_UDP_MULTICAST
  | ATCMD_SOCKET_TIMEOUT

text \<open>The fields \<open>handler\<close> of the \<open>atcmd_info_t\<close> objects; \<open>None\<close> is NULL.\<close>

definition run_handler :: "'n net_api \<Rightarrow> socket_cmd \<Rightarrow> (('f, 'n, 'z) sock \<Rightarrow> ('f, 'n, 'z) result) option" where
  "run_handler N c = (case c of ATCMD_SOCKET_CLOSE \<Rightarrow> Some (atcmd_socket_close_run N) | _ \<Rightarrow> None)"

definition get_handler ::
  "'n net_api \<Rightarrow> socket_cmd \<Rightarrow> (string list \<Rightarrow> ('f, 'n, 'z) sock \<Rightarrow> ('f, 'n, 'z) result) option" where
  "get_handler N c =
    (case c of
       ATCMD_SOCKET_LIST \<Rightarrow> Some (atcmd_socket_list_get N)
     | ATCMD_SOCKET_SEND_EXIT \<Rightarrow> Some atcmd_socket_send_exit_get
     | ATCMD_SOCKET_RECV \<Rightarrow> Some (atcmd_socket_recv_get N)
     | ATCMD_SOCKET_RECV_MODE \<Rightarrow> Some atcmd_socket_recv_mode_get
     | ATCMD_SOCKET_RECV_INFO \<Rightarrow> Some atcmd_socket_recv_info_get
     | ATCMD_SOCKET_RECV_LOG \<Rightarrow> Some atcmd_socket_recv_log_get
     | ATCMD_SOCKET_TCP_KEEPALIVE \<Rightarrow> Some (atcmd_socket_tcp_keepalive_get N)
     | ATCMD_SOCKET_TCP_NODELAY \<Rightarrow> Some (atcmd_socket_tcp_nodelay_get N)
     | ATCMD_SOCKET_UDP_MULTICAST \<Rightarrow> Some atcmd_socket_udp_multicast_get
     | ATCMD_SOCKET_TIMEOUT \<Rightarrow> Some atcmd_socket_timeout_get
     | _ \<Rightarrow> None)"

definition set_handler ::
  "'n net_api \<Rightarrow> socket_cmd \<Rightarrow> (string list \<Rightarrow> ('f, 'n, 'z) sock \<Rightarrow> ('f, 'n, 'z) result) option" where
  "set_handler N c =
    (case c of
       ATCMD_SOCKET_OPEN \<Rightarrow> Some (atcmd_socket_open_set N)
     | ATCMD_SOCKET_CLOSE \<Rightarrow> Some (atcmd_socket_close_set N)
     | ATCMD_SOCKET_LIST \<Rightarrow> None
     | ATCMD_SOCKET_SEND \<Rightarrow> Some (atcmd_socket_send_set N)
     | ATCMD_SOCKET_SEND_EXIT \<Rightarrow> Some atcmd_socket_send_exit_set
     | ATCMD_SOCKET_RECV \<Rightarrow> Some (atcmd_socket_recv_set N)
     | ATCMD_SOCKET_RECV_MODE \<Rightarrow> Some atcmd_socket_recv_mode_set
     | ATCMD_SOCKET_RECV_INFO \<Rightarrow> Some atcmd_socket_recv_info_set
     | ATCMD_SOCKET_RECV_LOG \<Rightarrow> Some atcmd_socket_recv_log_set
     | ATCMD_SOCKET_ADDR_INFO \<Rightarrow> Some (atcmd_socket_addr_info_set N)
     | ATCMD_SOCKET_TCP_KEEPALIVE \<Rightarrow> Some (atcmd_socket_tcp_keepalive_set N)
     | ATCMD_SOCKET_TCP_NODELAY \<Rightarrow> Some (atcmd_socket_tcp_nodelay_set N)
     | ATCMD_SOCKET_UDP_MULTICAST \<Rightarrow> Some (atcmd_socket_udp_multicast_set N)
     | ATCMD_SOCKET_TIMEOUT \<Rightarrow> Some atcmd_socket_timeout_set)"

text \<open>
  \<open>ids\<close> is the command whose \<open>atcmd_info_t\<close> is at an address; \<open>H\<close> are the handlers of the other modules.  A NULL
  handler is not called by the dispatcher.
\<close>

definition socket_handlers ::
  "'n net_api \<Rightarrow> (addr \<Rightarrow> socket_cmd option) \<Rightarrow> ('f, 'n, 'z) sock_env_scheme handlers \<Rightarrow> ('f, 'n, 'z) sock_env_scheme handlers"
where
  "socket_handlers N ids H a t argv s =
    (case ids a of
       None \<Rightarrow> H a t argv s
     | Some c \<Rightarrow>
         (case t of
            ATCMD_HANDLER_RUN \<Rightarrow> (case run_handler N c of None \<Rightarrow> (ATCMD_ERROR_NOTSUPP, s) | Some h \<Rightarrow> h s)
          | ATCMD_HANDLER_GET \<Rightarrow> (case get_handler N c of None \<Rightarrow> (ATCMD_ERROR_NOTSUPP, s) | Some h \<Rightarrow> h argv s)
          | ATCMD_HANDLER_SET \<Rightarrow> (case set_handler N c of None \<Rightarrow> (ATCMD_ERROR_NOTSUPP, s) | Some h \<Rightarrow> h argv s)))"

end
