(* ===== verification/AtcmdSocketFrame.thy ===== *)
theory AtcmdSocketFrame
  imports AtcmdSocketCmd AtcmdBasicProps
begin

text \<open>
  What the operations of the socket module leave alone: everything outside the module's variables but the bytes
  transmitted, and for most of them most of the module's variables, too.
\<close>

subsection \<open>Outside the module\<close>

text \<open>All but \<open>g_out\<close> and \<open>g_env\<close>.\<close>

definition shell :: "'e atcmd \<Rightarrow> u32 \<times> bool \<times> registry \<times> data_mode \<times> string \<times> u32 \<times> bool \<times> nat" where
  "shell s = (g_config s, g_prompt_enter s, g_registry s, g_data_mode s, g_stack s, g_now s, g_notified s, g_resets s)"

lemma shellD:
  assumes "shell t = shell s"
  shows "g_config t = g_config s" "g_registry t = g_registry s" "g_data_mode t = g_data_mode s" "g_stack t = g_stack s"
    "g_prompt_enter t = g_prompt_enter s" "g_now t = g_now s"
  using assms by (simp_all add: shell_def)

lemma on_env_sel [simp]: "g_env (on_env f s) = f (g_env s)" "g_out (on_env f s) = g_out s" "shell (on_env f s) = shell s"
  by (simp_all add: on_env_def shell_def)

lemma shell_simps [simp]:
  "shell (atcmd_transmit t s) = shell s" "shell (set_errno e b) = shell b"
  by (simp_all add: shell_def atcmd_transmit_def set_errno_def)

lemma shell_msg_put [simp]: "shell (msg_put t s) = shell s"
  using msg_put_transmits [of t s] by auto

lemma on_lwip_shell [simp]: "shell (snd (on_lwip f s)) = shell s" "g_out (snd (on_lwip f s)) = g_out s"
  by (simp_all add: on_lwip_def case_prod_beta)

lemma on_lwip_env:
  "g_env (snd (on_lwip f s)) =
    (g_env s)\<lparr>so_lwip := snd (f ((lwip_of s)\<lparr>li_erange := be_errno (g_env s)\<rparr>)),
      be_errno := li_erange (snd (f ((lwip_of s)\<lparr>li_erange := be_errno (g_env s)\<rparr>)))\<rparr>"
  by (simp add: on_lwip_def case_prod_beta)

lemma on_lwip_fst: "fst (on_lwip f s) = fst (f ((lwip_of s)\<lparr>li_erange := be_errno (g_env s)\<rparr>))"
  by (simp add: on_lwip_def case_prod_beta)

lemma setters_shell [simp]:
  "shell (set_entry k x s) = shell s" "shell (set_fault s) = shell s" "shell (set_stuck s) = shell s"
  "shell (net_pause N ms s) = shell s" "shell (set_req r s) = shell s" "shell (put_exit t s) = shell s"
  by (simp_all add: set_entry_def set_fault_def set_stuck_def net_pause_def set_req_def put_exit_def Let_def)

lemma event_shell [simp]: "shell (atcmd_socket_event_handler N e s) = shell s"
  by (simp add: atcmd_socket_event_handler_def)

lemma close_entry_shell [simp]: "shell (close_entry N i err k s) = shell s"
  by (simp add: close_entry_def Let_def)

lemma fold_shell: "(\<And>x t. x \<in> set xs \<Longrightarrow> shell (f x t) = shell t) \<Longrightarrow> shell (fold f xs s) = shell s"
  by (induction xs arbitrary: s) simp_all

lemma close_shell [simp]: "shell (snd (atcmd_socket_close N i err s)) = shell s"
  by (simp add: atcmd_socket_close_def fold_shell)

lemma send_piece_shell [simp]: "shell (snd (send_piece N sk via d s)) = shell s"
  by (simp add: send_piece_def)

lemma send_loop_shell [simp]: "shell (snd (snd (send_loop N k via data i retry s))) = shell s"
proof (induction N k via data i retry s rule: send_loop.induct)
  case (1 N k via data i retry s)
  obtain ret s1 where p: "send_piece N (table s ! k) via (drop i data) s = (ret, s1)" by fastforce
  have s1: "shell s1 = shell s" using send_piece_shell [of N "table s ! k" via "drop i data" s] p by simp
  show ?case
    using 1(1) [OF _ p [symmetric]] 1(2) [OF _ p [symmetric]] s1 p
    by (subst send_loop.simps) (auto simp: Let_def)
qed

lemma send_direct_shell [simp]: "shell (snd (send_data_direct N k data s)) = shell s"
  using send_loop_shell [of N k "send_via_netif N (table s ! k) s" data 0 0 s]
  by (simp add: send_data_direct_def case_prod_beta)

lemma send_handler_shell [simp]: "shell (atcmd_socket_send_handler N i s) = shell s"
  by (simp add: atcmd_socket_send_handler_def case_prod_beta Let_def split: option.split)

lemma recv_data_shell: "atcmd_socket_recv_data v rxd s = Some (r, t) \<Longrightarrow> shell t = shell s \<and> g_env t = g_env s"
  by (auto simp: atcmd_socket_recv_data_def Let_def split: option.splits if_splits)

lemma deliver_shell [simp]: "shell (deliver_rxd s) = shell s"
  by (auto simp: deliver_rxd_def dest: recv_data_shell split: option.split)

lemma recv_piece_shell [simp]: "shell (snd (recv_piece N i sk len s)) = shell s"
  by (simp add: recv_piece_def case_prod_beta split: socket_proto.split)

lemma recv_one_shell [simp]: "shell (snd (recv_one N i len False s)) = shell s"
  by (simp add: recv_one_def case_prod_beta Let_def split: option.split)

lemma recv_loop_shell [simp]: "shell (recv_loop N n fd len i s) = shell s"
  by (induction n arbitrary: i s) (simp_all add: case_prod_beta)

lemma recv_handler_shell [simp]: "shell (atcmd_socket_recv_handler N i s) = shell s"
  by (simp add: atcmd_socket_recv_handler_def case_prod_beta Let_def)

lemma connect_handler_shell [simp]: "shell (atcmd_socket_tcp_connect_handler N i addr port s) = shell s"
  by (simp add: atcmd_socket_tcp_connect_handler_def case_prod_beta Let_def split: option.split)

lemma fd_readable_shell [simp]: "shell (fd_readable N fd s) = shell s"
  by (simp add: fd_readable_def case_prod_beta)

lemma task_fds_shell [simp]: "shell (task_fds N rd wr ret fds s) = shell s"
  by (induction fds arbitrary: ret s) (simp_all add: Let_def)

lemma task_shell [simp]: "shell (lwip_socket_task N s) = shell s"
  by (simp add: lwip_socket_task_def case_prod_beta Let_def)

lemma wait_shell [simp]: "shell (wait_event N fd n s) = shell s"
  by (induction n arbitrary: s) simp_all

lemma send_request_shell [simp]:
  "shell (snd (lwip_socket_send_request N fd t s)) = shell s"
proof -
  obtain r s1 where b: "on_lwip (send_request_begin fd) s = (r, s1)" by fastforce
  have "shell s1 = shell s" using on_lwip_shell(1) [of "send_request_begin fd" s] b by simp
  then show ?thesis by (cases r) (simp_all add: lwip_socket_send_request_def b Let_def)
qed

lemma atcmd_send_request_shell [simp]: "shell (snd (atcmd_socket_send_request N k data s)) = shell s"
  by (simp add: atcmd_socket_send_request_def case_prod_beta Let_def)

lemma send_entry_shell [simp]: "shell (snd (send_data_entry N k data s)) = shell s"
  by (simp add: send_data_entry_def case_prod_beta Let_def split: option.split)

lemma send_data_shell [simp]: "shell (snd (atcmd_socket_send_data N i data s)) = shell s"
  by (simp add: atcmd_socket_send_data_def case_prod_beta split: option.split)

lemma socket_event_shell [simp]: "shell (socket_event_consumer N e s) = shell s"
  by (simp add: socket_event_consumer_def split: option.split socket_event.split)

lemma consumer_shell:
  "shell (snd (send (socket_consumers N) k b s)) = shell s" "shell (event (socket_consumers N) e s) = shell s"
  by (simp_all add: socket_consumers_def split: data_sink.split)

lemma socket_consumers_sound: "consumers_ok (socket_consumers N)"
  by (simp add: consumers_ok_def shared_ok_def shellD(2-4) [OF consumer_shell(1)] shellD(2-4) [OF consumer_shell(2)])

subsection \<open>The command handlers\<close>

text \<open>Handlers may enter the data mode and wake its task; their results are the codes of \<open>atcmd.h\<close>.\<close>

definition core :: "'e atcmd \<Rightarrow> u32 \<times> registry \<times> string" where
  "core s = (g_config s, g_registry s, g_stack s)"

definition tame :: "'e atcmd \<Rightarrow> int \<times> 'e atcmd \<Rightarrow> bool" where
  "tame s r \<longleftrightarrow> core (snd r) = core s \<and> -1 \<le> fst r \<and> fst r \<le> 7"

lemma coreI: "shell t = shell s \<Longrightarrow> core t = core s"
  by (simp add: shell_def core_def)

lemma core_simps [simp]:
  "core (on_env f u) = core u" "core (snd (on_lwip g u)) = core u" "core (msg_put t s) = core s"
  "core (set_errno e b) = core b" "core (set_entry k x u) = core u" "core (set_fault u) = core u" "core (set_stuck u) = core u"
  "core (net_pause N ms u) = core u" "core (put_exit t u) = core u" "core (atcmd_socket_event_handler N ev u) = core u"
  "core (snd (atcmd_socket_close N i err u)) = core u" "core (snd (recv_piece N i sk len u)) = core u"
  "core (deliver_rxd u) = core u"
  by (rule coreI, simp)+

lemma core_msg_ok [simp]: "core (msg_ok s) = core s"
  by (simp add: msg_ok_eq core_def)

lemma core_enable [simp]: "core (snd (atcmd_data_mode_enable p s)) = core s"
  by (simp add: core_def atcmd_data_mode_enable_def split: option.split)

lemma core_recv_one [simp]: "core (snd (recv_one N i len passive s)) = core s"
  by (simp add: recv_one_def case_prod_beta Let_def split: option.split)

lemma core_atoi [simp]: "core (snd (atoi_of p s)) = core s"
  by (simp add: atoi_of_def case_prod_beta)

lemmas codes = result_codes ATCMD_ERROR_TIMEOUT_def ATCMD_ERROR_NOMEM_def

lemma tame_codes [simp]:
  assumes "core t = core s"
  shows "tame s (ATCMD_SUCCESS, t)" "tame s (ATCMD_ERROR_INVAL, t)" "tame s (ATCMD_ERROR_BUSY, t)" "tame s (ATCMD_ERROR_FAIL, t)"
    "tame s (ATCMD_ERROR_NOTSUPP, t)" "tame s (ATCMD_NO_RETURN, t)" "tame s (ATCMD_ERROR_NOMEM, t)" "tame s (ATCMD_ERROR_TIMEOUT, t)"
    "tame s (0, t)"
  using assms by (simp_all add: tame_def codes)

lemma fold_core: "(\<And>x t. x \<in> set xs \<Longrightarrow> core (f x t) = core t) \<Longrightarrow> core (fold f xs s) = core s"
  by (induction xs arbitrary: s) simp_all

lemma core_open_call [simp]: "core (snd (open_call N sk s)) = core s"
  by (simp add: open_call_def case_prod_beta Let_def)

lemma core_open [simp]: "core (snd (atcmd_socket_open N sk s)) = core s"
  by (simp add: atcmd_socket_open_def case_prod_beta split: option.split)

lemma core_server_address [simp]: "core (snd (server_address N addr port s)) = core s"
  by (simp add: server_address_def case_prod_beta split: option.split)

lemma core_open_sets [simp]:
  "core (snd (open_udp_set N a s)) = core s" "core (snd (open_tcp_server_set N a s)) = core s"
  "core (snd (open_tcp_client_set N a s)) = core s"
  by (simp_all add: open_udp_set_def open_tcp_server_set_def open_tcp_client_set_def case_prod_beta Let_def)

lemma tame_open_result [simp]: "core t = core s \<Longrightarrow> tame s (open_result r, t)"
  by (simp add: open_result_def)

lemma tame_open_set: "tame s (atcmd_socket_open_set N argv s)"
  by (simp add: atcmd_socket_open_set_def case_prod_beta Let_def split: option.split)

lemma tame_close_call [simp]: "core u = core s \<Longrightarrow> tame s (atcmd_socket_close N i err u)"
  by (simp add: tame_def) (simp add: atcmd_socket_close_def)

lemma tame_close: "tame s (atcmd_socket_close_run N s)" "tame s (atcmd_socket_close_set N argv s)"
  by (simp_all add: atcmd_socket_close_run_def atcmd_socket_close_set_def case_prod_beta)

lemma tame_list: "tame s (atcmd_socket_list_get N argv s)"
  by (simp add: atcmd_socket_list_get_def fold_core list_entry_def case_prod_beta Let_def)

lemma core_ssend_remote [simp]: "core (snd (ssend_remote N k argv s)) = core s"
  by (simp add: ssend_remote_def case_prod_beta Let_def split: option.split)

lemma tame_ssend_enable: "core u = core s \<Longrightarrow> tame s (ssend_enable N k len dn u)"
  by (simp add: ssend_enable_def case_prod_beta Let_def)

lemma core_opt_atoi [simp]: "core (snd (case p of None \<Rightarrow> (v, u) | Some q \<Rightarrow> atoi_of q u)) = core u"
  by (cases p) simp_all

lemma tame_send_set: "tame s (atcmd_socket_send_set N argv s)"
proof (cases "search_id (fst (atoi_of (argv ! 0) s)) (snd (atoi_of (argv ! 0) s))")
  case None
  then show ?thesis by (simp add: atcmd_socket_send_set_def case_prod_beta)
next
  case (Some k)
  show ?thesis
    by (cases "fst (ssend_remote N k argv (snd (atoi_of (argv ! 0) s)))")
      (simp_all add: atcmd_socket_send_set_def case_prod_beta Some tame_ssend_enable)
qed

lemma tame_send_exit: "tame s (atcmd_socket_send_exit_get argv s)" "tame s (atcmd_socket_send_exit_set argv s)"
  by (simp_all add: atcmd_socket_send_exit_get_def atcmd_socket_send_exit_set_def Let_def split: option.split)

lemma core_recv_lens [simp]: "core (snd (recv_lens N xs lens s)) = core s"
  by (induction xs arbitrary: lens s) (simp_all add: case_prod_beta)

lemma core_fold_put [simp]: "core (fold (\<lambda>i t. if P i then msg_put (f i) t else t) xs u) = core u"
  by (rule fold_core) simp

lemma tame_recv_get: "tame s (atcmd_socket_recv_get N argv s)"
  by (simp add: atcmd_socket_recv_get_def case_prod_beta Let_def split: option.split)

lemma srecv_wait_tame: "core (snd (srecv_wait N i t n s)) = core s \<and> fst (srecv_wait N i t n s) \<in> {0, 3, 4}"
proof (induction N i t n s rule: srecv_wait.induct)
  case (1 N i t n s)
  obtain ret s1 where r: "on_lwip (lwip_socket_recv_len N i) s = (ret, s1)" by fastforce
  have "core s1 = core s" using core_simps(2) [of "lwip_socket_recv_len N i" s] r by simp
  then show ?case using 1 [OF _ r [symmetric]] by (subst (1 2) srecv_wait.simps) (auto simp: r codes)
qed

lemma tame_srecv_read: "core u = core s \<Longrightarrow> tame s (srecv_read N i len u)"
  by (simp add: srecv_read_def case_prod_beta Let_def)

lemma srecv_wait_simps [simp]:
  "core (snd (srecv_wait N i t n s)) = core s"
  "core u = core s \<Longrightarrow> tame s (srecv_wait N i t n u)"
  using srecv_wait_tame [of N i t n s] srecv_wait_tame [of N i t n u] by (auto simp: tame_def)

lemma tame_recv_set: "tame s (atcmd_socket_recv_set N argv s)"
  unfolding atcmd_socket_recv_set_def case_prod_beta Let_def
  by (auto simp: tame_srecv_read)

lemma tame_recv_modes:
  "tame s (atcmd_socket_recv_mode_get argv s)" "tame s (atcmd_socket_recv_mode_set argv s)"
  "tame s (atcmd_socket_recv_info_get argv s)" "tame s (atcmd_socket_recv_info_set argv s)"
  "tame s (atcmd_socket_recv_log_get argv s)" "tame s (atcmd_socket_recv_log_set argv s)"
  by (simp_all add: atcmd_socket_recv_mode_get_def atcmd_socket_recv_mode_set_def atcmd_socket_recv_info_get_def
      atcmd_socket_recv_info_set_def atcmd_socket_recv_log_get_def atcmd_socket_recv_log_set_def case_prod_beta)

lemma tame_addr_info: "tame s (atcmd_socket_addr_info_set N argv s)"
  by (simp add: atcmd_socket_addr_info_set_def addr_info_result_def case_prod_beta split: option.split)

lemma core_keepalive_list [simp]: "core (keepalive_list N xs v s) = core s"
  by (induction xs arbitrary: v s) (simp_all add: case_prod_beta Let_def split: option.split)

lemma core_nodelay_list [simp]: "core (nodelay_list N xs s) = core s"
  by (induction xs arbitrary: s) (simp_all add: case_prod_beta)

lemma tame_keepalive: "tame s (atcmd_socket_tcp_keepalive_get N argv s)" "tame s (atcmd_socket_tcp_keepalive_set N argv s)"
  by (simp_all add: atcmd_socket_tcp_keepalive_get_def atcmd_socket_tcp_keepalive_set_def case_prod_beta split: option.split)

lemma tame_nodelay: "tame s (atcmd_socket_tcp_nodelay_get N argv s)" "tame s (atcmd_socket_tcp_nodelay_set N argv s)"
  by (simp_all add: atcmd_socket_tcp_nodelay_get_def atcmd_socket_tcp_nodelay_set_def case_prod_beta split: option.split)

lemma core_multicast_entry [simp]: "core (multicast_entry x s) = core s"
  by (simp add: multicast_entry_def fold_core)

lemma tame_multicast_add: "core u = core s \<Longrightarrow> tame s (multicast_add N k addr u)"
  by (simp add: multicast_add_def case_prod_beta Let_def split: option.split)

lemma tame_multicast_drop: "core u = core s \<Longrightarrow> tame s (multicast_drop N k addr u)"
  by (simp add: multicast_drop_def case_prod_beta Let_def fold_core split: option.split)

lemma tame_multicast: "tame s (atcmd_socket_udp_multicast_get argv s)" "tame s (atcmd_socket_udp_multicast_set N argv s)"
  by (simp_all add: atcmd_socket_udp_multicast_get_def atcmd_socket_udp_multicast_set_def case_prod_beta Let_def fold_core
      tame_multicast_add tame_multicast_drop split: option.split)

lemma core_timeout_infos [simp]: "core (timeout_infos ts s) = core s"
  by (induction ts s rule: timeout_infos.induct) simp_all

lemma tame_timeout: "tame s (atcmd_socket_timeout_get argv s)" "tame s (atcmd_socket_timeout_set argv s)"
proof -
  have e: "core (u\<lparr>g_env := x\<rparr>) = core u" for u x by (simp add: core_def)
  show "tame s (atcmd_socket_timeout_get argv s)"
    by (simp add: atcmd_socket_timeout_get_def atcmd_basic_timeout_get_def case_prod_beta Let_def)
  show "tame s (atcmd_socket_timeout_set argv s)"
    by (simp add: atcmd_socket_timeout_set_def atcmd_basic_timeout_set_def case_prod_beta Let_def e split: option.split)
qed

text \<open>Whatever the command, form, parameters and network: the dispatcher's expectations are met.\<close>

lemma socket_tame: "ids a = Some c \<Longrightarrow> tame s (socket_handlers N ids H a t argv s)"
  by (cases t; cases c)
    (simp_all add: socket_handlers_def run_handler_def get_handler_def set_handler_def tame_open_set tame_close tame_list
      tame_send_set tame_send_exit tame_recv_get tame_recv_set tame_recv_modes tame_addr_info tame_keepalive tame_nodelay
      tame_multicast tame_timeout)

lemma socket_handlers_sound:
  fixes H :: "('f, 'n, 'z) sock_env_scheme handlers"
  assumes "handlers_ok H"
  shows "handlers_ok (socket_handlers N ids H)"
  unfolding handlers_ok_def
proof (intro allI impI)
  fix a t argv and s :: "('f, 'n, 'z) sock" assume s: "shared_ok s"
  show "shared_ok (snd (socket_handlers N ids H a t argv s)) \<and> - (2 ^ 31) \<le> fst (socket_handlers N ids H a t argv s) \<and>
      fst (socket_handlers N ids H a t argv s) < 2 ^ 31"
  proof (cases "ids a")
    case None
    then show ?thesis using assms s by (simp add: socket_handlers_def handlers_ok_def)
  next
    case (Some c)
    then have "tame s (socket_handlers N ids H a t argv s)" by (rule socket_tame)
    then show ?thesis using s by (auto simp: tame_def core_def shared_ok_def)
  qed
qed

subsection \<open>Calls that only use the network\<close>

text \<open>Everything but the network and \<open>errno\<close>, of the glue and of the module.\<close>

definition glue :: "'n lwip \<Rightarrow> 'n lwip" where
  "glue w = w\<lparr>li_net := undefined, li_erange := False\<rparr>"

definition netless :: "('f, 'n, 'z) sock \<Rightarrow> ('f, 'n, 'z) sock_env_scheme" where
  "netless s = (g_env s)\<lparr>so_lwip := glue (lwip_of s), be_errno := False\<rparr>"

lemma glueD:
  assumes "glue v = glue w"
  shows "li_on v = li_on w" "fds_read v = fds_read w" "fds_write v = fds_write w" "fds_listen v = fds_listen w"
    "li_events v = li_events w"
proof -
  note assms [unfolded glue_def]
  then show "li_on v = li_on w" "fds_read v = fds_read w" "fds_write v = fds_write w" "fds_listen v = fds_listen w"
    "li_events v = li_events w" by (cases v; cases w; simp)+
qed

lemma netlessD:
  assumes "netless t = netless s"
  shows "glue (lwip_of t) = glue (lwip_of s)" "table t = table s" "so_req (g_env t) = so_req (g_env s)"
    "so_passive (g_env t) = so_passive (g_env s)" "so_ready (g_env t) = so_ready (g_env s)"
    "so_verbose (g_env t) = so_verbose (g_env s)" "so_rxd (g_env t) = so_rxd (g_env s)"
    "so_fault (g_env t) = so_fault (g_env s)" "so_stuck (g_env t) = so_stuck (g_env s)"
    "so_event_send (g_env t) = so_event_send (g_env s)" "timeout_socket (g_env t) = timeout_socket (g_env s)"
  using assms unfolding netless_def by (cases "g_env t"; cases "g_env s"; simp)+

lemma glue_updates [simp]:
  "glue (w\<lparr>li_net := n\<rparr>) = glue w" "glue (w\<lparr>li_erange := b\<rparr>) = glue w" "glue (w\<lparr>li_net := n, li_erange := b\<rparr>) = glue w"
  by (simp_all add: glue_def)

lemma glue_calls [simp]:
  "glue (snd (net_call f w)) = glue w" "glue (snd (net_query g w)) = glue w" "glue (snd (lwip_socket_error e w)) = glue w"
  by (simp_all add: net_call_def net_query_def lwip_socket_error_def case_prod_beta)

lemma glue_seq_ok: "glue (snd x) = glue w \<Longrightarrow> (\<And>v. glue (snd (g v)) = glue v) \<Longrightarrow> glue (snd (seq_ok x g)) = glue w"
  by (simp add: seq_ok_def)

lemma glue_on [simp]: "li_on (snd (net_query g w)) = li_on w" "li_on (snd (net_call f w)) = li_on w"
  by (simp_all add: net_call_def net_query_def case_prod_beta)

lemma glue_send_loop [simp]: "glue (snd (send_udp_loop N fd via addr port data i w)) = glue w"
proof (induction N fd via addr port data i w rule: send_udp_loop.induct)
  case (1 N fd via addr port data i w)
  let ?f = "n_sendto N fd via addr port (take (min (length data - i) UDP_MAX_LEN) (drop i data))"
  obtain ret w1 where r: "net_call ?f w = (ret, w1)" by fastforce
  have "glue w1 = glue w" using glue_calls(1) [of ?f w] r by simp
  then show ?case using 1 [OF _ r [symmetric]] by (subst send_udp_loop.simps) (auto simp: r)
qed

lemma glue_ops [simp]:
  "glue (snd (lwip_socket_get_local N fd w)) = glue w" "glue (snd (lwip_socket_recv_len N fd w)) = glue w"
  "glue (snd (lwip_socket_accept N fd w)) = glue w"
  "glue (snd (lwip_socket_send_tcp N fd d w)) = glue w" "glue (snd (lwip_socket_send_udp N fd addr port d via w)) = glue w"
  "glue (snd (lwip_socket_recv_tcp N fd len w)) = glue w" "glue (snd (lwip_socket_recv_udp N fd len w)) = glue w"
  by (simp_all add: lwip_socket_get_local_def lwip_socket_recv_len_def lwip_socket_accept_def lwip_socket_get_type_def
      lwip_socket_send_tcp_def lwip_socket_send_udp_def lwip_socket_recv_tcp_def lwip_socket_recv_udp_def case_prod_beta)

lemma netless_on_lwip [simp]:
  assumes "\<And>w. glue (snd (f w)) = glue w"
  shows "netless (snd (on_lwip f s)) = netless s"
  using assms by (simp add: netless_def on_lwip_env)

lemma netless_put [simp]: "netless (msg_put t s) = netless s" "netless (atcmd_socket_event_handler N e s) = netless s"
  "netless (atcmd_transmit t s) = netless s" "netless (net_pause N ms s) = netless s" "netless (msg_ok s) = netless s"
  by (simp_all add: netless_def atcmd_socket_event_handler_def net_pause_def)

lemma netless_send_piece [simp]: "netless (snd (send_piece N sk via d s)) = netless s"
  by (simp add: send_piece_def)

lemma netless_recv_piece [simp]: "netless (snd (recv_piece N i sk len s)) = netless s"
  by (simp add: recv_piece_def case_prod_beta split: socket_proto.split)

end
