(* ===== verification/AtcmdSocketProps.thy ===== *)
theory AtcmdSocketProps
  imports AtcmdSocketFrame AtcmdDataProps
begin

text \<open>
  Properties of the socket commands one by one: the limits of the parameters, the settings, opening, closing,
  the multicast groups.  The composition of commands, task and host is in \<open>AtcmdSocketSend\<close>, \<open>AtcmdSocketHost\<close>,
  \<open>AtcmdSocketRecv\<close> and \<open>AtcmdSocketDgram\<close>, the invariant of the table in \<open>AtcmdSocketInv\<close>.
\<close>

subsection \<open>An example network\<close>

text \<open>
  The state is what was handed to the network for each descriptor; it takes at most 1000 bytes at a time.  New
  descriptors are 3; every descriptor is a connected stream.
\<close>

definition demo_net :: "(int \<Rightarrow> string) net_api" where
  "demo_net = \<lparr>n_socket = \<lambda>ty n. (3, n), n_bind = \<lambda>fd p n. (0, n), n_listen = \<lambda>fd n. (0, n),
     n_accept = \<lambda>fd n. ((- LwipSocket.EAGAIN, 0, 0), n), n_connect = \<lambda>fd a p n. (0, n), n_writable = \<lambda>fd t n. ((1, True), n),
     n_select = \<lambda>k rd wr n. ((1, {}, wr), n),
     n_getopt = \<lambda>fd opt n. ((0, if opt = SO_TYPE then SOCK_STREAM else 1), n), n_setopt = \<lambda>fd opt v n. (0, n),
     n_membership = \<lambda>fd b a n. (0, n), n_nonblock = \<lambda>fd b n. (0, n), n_fionread = \<lambda>fd n. ((0, 0), n),
     n_sockname = \<lambda>fd n. ((0, 5000), n), n_close = \<lambda>fd n. (0, n),
     n_send = \<lambda>fd d n. (int (length (take 1000 d)), n(fd := n fd @ take 1000 d)),
     n_sendto = \<lambda>fd via a p d n. (int (length d), n(fd := n fd @ d)),
     n_recv = \<lambda>fd len n. ((- LwipSocket.EAGAIN, []), n), n_recvfrom = \<lambda>fd len n. ((- LwipSocket.EAGAIN, [], 0, 0), n),
     n_hostbyname = \<lambda>h n. ((-1, []), n), n_addrinfo = \<lambda>h p n. ((200, []), n), n_bcast_if = \<lambda>n. False, n_delay = \<lambda>ms n. n,
     n_strerror = \<lambda>e. ''error'', n_stack_addr = 7, n_stack_int = 0, n_no_passthrough = False, n_passes = 5, n_turns = 10\<rparr>"

definition demo_lwip :: "'n \<Rightarrow> 'n lwip" where
  "demo_lwip n = \<lparr>li_on = True, fds_read = {3}, fds_write = {}, fds_listen = {}, li_events = {}, li_name = [], li_addr = [],
     li_erange = False, li_net = n\<rparr>"

definition demo_entry :: atcmd_socket where
  "demo_entry = atcmd_socket_reset\<lparr>sk_id := 3, sk_protocol := PROTO_TCP, sk_local_port := 5000, sk_remote_port := 80,
     sk_remote_addr := 0x0100000a\<rparr>"

definition demo_sock_env :: "'n \<Rightarrow> (unit, 'n) sock_env" where
  "demo_sock_env n = \<lparr>fw_size = 0, fw_crc32 = 0, fw_download = 0, fw_verify = 0, timeout_wifi = timeout_wifi_init,
     timeout_socket = timeout_socket_init, be_errno = False, be_mem = True, be_flash = (),
     so_table = demo_entry # replicate 9 atcmd_socket_reset, so_lwip = demo_lwip n, so_event_send = True, so_done_event = False,
     so_verbose = False, so_passive = False, so_ready_event = True, so_ready = 0, so_exit = ''AT'' @ [CR, LF],
     so_req = no_request, so_sending = False, so_send_cnt = 0, so_send_len = 0, so_recv_cnt = 0, so_recv_len = 0,
     so_rxd = demo_rxd, so_fault = False, so_stuck = False\<rparr>"

definition demo_sock :: "'n \<Rightarrow> (unit, 'n, unit) sock" where
  "demo_sock n = demo_atcmd demo_served (demo_sock_env n)"

lemma demo_sock_sel [simp]:
  "g_env (demo_sock n) = demo_sock_env n" "dm_enable (g_data_mode (demo_sock n)) = False"
  "g_out (demo_sock n) = []" "g_registry (demo_sock n) = demo_served"
  by (simp_all add: demo_sock_def demo_atcmd_def)

lemma demo_sock_shared: "shared_ok (demo_sock n)"
  unfolding demo_sock_def by (rule demo_shared)

lemma demo_search: "search_id 3 (demo_sock n) = Some 0"
  by (simp add: atcmd_socket_search_def demo_sock_env_def socket_matches_def demo_entry_def)

subsection \<open>Looking up\<close>

lemma find_index_Some: "find_index P xs = Some k \<Longrightarrow> k < length xs \<and> P (xs ! k) \<and> (\<forall>j < k. \<not> P (xs ! j))"
proof (induction xs arbitrary: k)
  case (Cons x xs)
  then show ?case by (auto simp: less_Suc_eq_0_disj split: if_splits)
qed simp

lemma find_index_None: "find_index P xs = None \<longleftrightarrow> (\<forall>x \<in> set xs. \<not> P x)"
  by (induction xs) auto

lemma search_table: "table t = table s \<Longrightarrow> atcmd_socket_search i p q t = atcmd_socket_search i p q s"
  by (simp add: atcmd_socket_search_def)

lemma atoi_of_dec:
  assumes "- (2 ^ 31) \<le> v" and "v < 2 ^ 31"
  shows "atoi_of (dec_int v) s = (v, set_errno (be_errno (g_env s)) s)"
  using strtol_dec_int [of v] assms by (simp add: atoi_of_def t_atoi_def LONG_MIN_def LONG_MAX_def)

lemma set_errno_same [simp]: "set_errno (be_errno (g_env s)) s = s"
  by (simp add: set_errno_def)

lemma atoi_of_table [simp]: "table (snd (atoi_of p s)) = table s" "so_exit (g_env (snd (atoi_of p s))) = so_exit (g_env s)"
  by (simp_all add: atoi_of_def case_prod_beta)

lemma dec_examples: "dec_int 3 = ''3''" "dec_int (-4097) = ''-4097''" "dec_int (- (2 ^ 31)) = ''-2147483648''"
  by (simp_all add: dec_int_def dec_nat.simps char_of_def bit_Suc_0_iff)

subsection \<open>The length of AT+SSEND\<close>

text \<open>What entering the data mode sets.\<close>

definition ssend_params :: "int \<Rightarrow> int \<Rightarrow> bool \<Rightarrow> ('f, 'n, 'z) sock \<Rightarrow> dm_params" where
  "ssend_params i len dn s = (atcmd_data_mode_init_params ATCMD_DATA_SSEND)
     \<lparr>dm_id := i, dm_len := of_int (c_abs len), dm_timeout := 1000, done_event := dn,
       exit_cmd := (if so_exit (g_env s) = [] then None else Some (so_exit (g_env s))), passthrough := len \<le> 0\<rparr>"

definition data_entered :: "dm_params \<Rightarrow> 'e atcmd \<Rightarrow> 'e atcmd" where
  "data_entered p s = s\<lparr>g_data_mode := (g_data_mode s)\<lparr>params := p, dm_enable := True, dm_idle := False, dm_cnt := 0,
     send_len := dm_len p, send_done := 0, send_drop := 0, send_timeout := dm_timeout p + 100, last_send_time := 0\<rparr>\<rparr>"

lemma ssend_enable_eq:
  assumes "\<not> n_no_passthrough N \<or> 0 < len" and "\<not> dm_enable (g_data_mode s)"
  shows "ssend_enable N k len dn s = (ATCMD_SUCCESS, data_entered (ssend_params (sk_id (table s ! k)) len dn s) s)"
  using assms
  by (auto simp: ssend_enable_def Let_def atcmd_data_mode_enable_def data_entered_def ssend_params_def)

lemma ssend_two:
  assumes i: "0 \<le> i" "i < 2 ^ 31" and k: "search_id i s = Some k" and n: "- (2 ^ 31) \<le> n" "n < 2 ^ 31"
  shows "atcmd_socket_send_set N [dec_int i, dec_int n] s =
    (if c_abs n > 4096 then (ATCMD_ERROR_INVAL, s) else ssend_enable N k n (so_done_event (g_env s)) s)"
  using atoi_of_dec [of i s] atoi_of_dec [of n s] i n k
  by (simp add: atcmd_socket_send_set_def ssend_remote_def Let_def ssend_len_def ssend_done_def ATCMD_DATA_LEN_MAX_def)

text \<open>C36: \<open>AT+SSEND=<id>,<length>\<close> on an open socket, for every length a C \<open>int\<close> can have: a magnitude above
  4096 is refused and nothing changes, any other length enters the data mode with its magnitude, passing through when
  it is not positive, and the data mode's bound on its buffer holds then.  The one exception is the
  smallest integer, whose absolute value is negative: it is accepted with an announced length of 2 GB.\<close>

theorem ssend_length_exact:
  fixes s :: "('f, 'n, 'z) sock"
  assumes "0 \<le> i" and "i < 2 ^ 31" and "search_id i s = Some k" and "- (2 ^ 31) \<le> n" and "n < 2 ^ 31"
    and "\<not> dm_enable (g_data_mode s)" and "\<not> n_no_passthrough N"
  shows "\<exists>ret t. atcmd_socket_send_set N [dec_int i, dec_int n] s = (ret, t) \<and>
    (if n \<noteq> - (2 ^ 31) \<and> \<bar>n\<bar> > 4096 then ret = ATCMD_ERROR_INVAL \<and> t = s
     else ret = ATCMD_SUCCESS \<and> dm_enable (g_data_mode t) \<and> int (unat (send_len (g_data_mode t))) = \<bar>n\<bar> \<and>
       dm_id (params (g_data_mode t)) = sk_id (table s ! k) \<and> (effective_pass (g_data_mode t) \<longleftrightarrow> n \<le> 0) \<and>
       (dm_ok (g_data_mode t) \<longleftrightarrow> n \<noteq> - (2 ^ 31)))"
proof (cases "c_abs n > 4096")
  case True
  then show ?thesis using ssend_two [where N = N, OF assms(1-5)] by (auto simp: c_abs_def split: if_splits)
next
  case False
  let ?p = "ssend_params (sk_id (table s ! k)) n (so_done_event (g_env s)) s"
  have e: "atcmd_socket_send_set N [dec_int i, dec_int n] s = (ATCMD_SUCCESS, data_entered ?p s)"
    using ssend_two [where N = N, OF assms(1-5)] ssend_enable_eq [where N = N and len = n, OF disjI1 [OF assms(7)] assms(6)] False by simp
  have l: "int (unat (of_int (c_abs n) :: u32)) = \<bar>n\<bar>"
  proof (cases "n = - (2 ^ 31)")
    case True
    then show ?thesis by (simp add: c_abs_def)
  next
    case nmin: False
    then have c: "c_abs n = \<bar>n\<bar>" by (simp add: c_abs_def)
    then have "uint (of_int \<bar>n\<bar> :: u32) = \<bar>n\<bar>" using False by (simp add: uint_word_of_int)
    then show ?thesis by (simp add: c)
  qed
  define u where "u = (of_int (c_abs n) :: u32)"
  have u: "int (unat u) = \<bar>n\<bar>" "dm_len ?p = u" using l by (simp_all add: u_def ssend_params_def)
  have z: "u = 0 \<longleftrightarrow> n = 0" "0 < u \<longleftrightarrow> n \<noteq> 0"
  proof -
    have "u = 0 \<longleftrightarrow> unat u = 0" by (simp add: word_unat_eq_iff)
    also have "\<dots> \<longleftrightarrow> n = 0" using u(1) by linarith
    finally show "u = 0 \<longleftrightarrow> n = 0" .
    then show "0 < u \<longleftrightarrow> n \<noteq> 0" by (simp add: word_gt_0)
  qed
  have "unat u = nat \<bar>n\<bar>" using u(1) by linarith
  then have b: "unat u \<le> 4096 \<longleftrightarrow> n \<noteq> - (2 ^ 31)" using False assms(4) by (auto simp: c_abs_def split: if_splits)
  have x: "exit_cmd ?p \<noteq> Some []" "effective_pass (g_data_mode (data_entered ?p s)) \<longleftrightarrow> n \<le> 0"
    "dm_id ?p = sk_id (table s ! k)" by (simp_all add: ssend_params_def effective_pass_def data_entered_def)
  have d: "g_data_mode (data_entered ?p s) = (g_data_mode s)\<lparr>params := ?p, dm_enable := True, dm_idle := False, dm_cnt := 0,
     send_len := u, send_done := 0, send_drop := 0, send_timeout := dm_timeout ?p + 100, last_send_time := 0\<rparr>"
    by (simp add: data_entered_def u)
  have ok: "dm_ok (g_data_mode (data_entered ?p s)) \<longleftrightarrow> n \<noteq> - (2 ^ 31)"
    using z b x(1) x(2) [unfolded d] unfolding dm_ok_def d by (auto simp: ATCMD_DATA_LEN_MAX_def)
  have "\<not> (n \<noteq> - (2 ^ 31) \<and> \<bar>n\<bar> > 4096)" using False by (auto simp: c_abs_def)
  then show ?thesis using e u x ok by (auto simp: d)
qed

theorem ssend_length_exact_witness:
  "(\<exists>ret t. atcmd_socket_send_set demo_net [''3'', ''-4097''] (demo_sock (\<lambda>_. [])) = (ret, t) \<and>
      ret = ATCMD_ERROR_INVAL \<and> t = demo_sock (\<lambda>_. [])) \<and>
   (\<exists>ret t. atcmd_socket_send_set demo_net [''3'', ''-2147483648''] (demo_sock (\<lambda>_. [])) = (ret, t) \<and>
      ret = ATCMD_SUCCESS \<and> \<not> dm_ok (g_data_mode t))"
proof (rule conjI)
  let ?s = "demo_sock (\<lambda>_ :: int. [] :: string)"
  have n: "\<not> n_no_passthrough demo_net" by (simp add: demo_net_def)
  have e: "\<not> dm_enable (g_data_mode ?s)" by simp
  obtain ret t where "atcmd_socket_send_set demo_net [dec_int 3, dec_int (-4097)] ?s = (ret, t)" "ret = ATCMD_ERROR_INVAL \<and> t = ?s"
    using ssend_length_exact [where n = "-4097" and i = 3, OF _ _ demo_search _ _ e n] by auto
  then show "\<exists>ret t. atcmd_socket_send_set demo_net [''3'', ''-4097''] ?s = (ret, t) \<and> ret = ATCMD_ERROR_INVAL \<and> t = ?s"
    unfolding dec_examples by blast
  obtain ret t where "atcmd_socket_send_set demo_net [dec_int 3, dec_int (- (2 ^ 31))] ?s = (ret, t)"
      "ret = ATCMD_SUCCESS \<and> \<not> dm_ok (g_data_mode t)"
    using ssend_length_exact [where n = "- (2 ^ 31)" and i = 3, OF _ _ demo_search _ _ e n] by auto
  then show "\<exists>ret t. atcmd_socket_send_set demo_net [''3'', ''-2147483648''] ?s = (ret, t) \<and> ret = ATCMD_SUCCESS \<and> \<not> dm_ok (g_data_mode t)"
    unfolding dec_examples by blast
qed

text \<open>After \<open>AT+SSEND=<id>,-2147483648\<close>, which is accepted, the data that follows is collected without the
  limit of the buffer: 4096 bytes are stored, and the next byte is written behind the buffer's end.\<close>

theorem ssend_minimum_overruns:
  fixes s :: "('f, 'n, 'z) sock"
  assumes "0 \<le> i" and "i < 2 ^ 31" and "search_id i s = Some k" and "\<not> dm_enable (g_data_mode s)" and "\<not> n_no_passthrough N"
    and "length d = 4096" and "d' \<noteq> []" and "length d' \<le> 4096"
  shows "\<exists>t rx1 s1. atcmd_socket_send_set N [dec_int i, ''-2147483648''] s = (ATCMD_SUCCESS, t) \<and>
    atcmd_receive_data C d rx t = Some (4096, rx1, s1) \<and> atcmd_receive_data C d' rx1 s1 = None"
proof -
  let ?p = "ssend_params (sk_id (table s ! k)) (- (2 ^ 31)) (so_done_event (g_env s)) s"
  let ?t = "data_entered ?p s"
  have "atcmd_socket_send_set N [dec_int i, dec_int (- (2 ^ 31))] s = ssend_enable N k (- (2 ^ 31)) (so_done_event (g_env s)) s"
    using ssend_two [where N = N and n = "- (2 ^ 31)", OF assms(1-3)] by (simp add: c_abs_def)
  then have e: "atcmd_socket_send_set N [dec_int i, ''-2147483648''] s = (ATCMD_SUCCESS, ?t)"
    unfolding dec_examples ssend_enable_eq [where N = N and len = "- (2 ^ 31)", OF disjI1 [OF assms(5)] assms(4)] .
  have len: "unat (of_nat (length d) :: u32) = 4096" "unat (of_nat (length d') :: u32) = length d'" using assms(6,8) by simp_all
  let ?rx = "rx\<lparr>d_buf := memcpy_at (d_buf rx) 0 d\<rparr>"
  let ?u = "?t\<lparr>g_data_mode := (g_data_mode ?t)\<lparr>dm_cnt := 4096\<rparr>\<rparr>"
  have sl: "send_len (g_data_mode ?t) = 0x80000000" "dm_cnt (g_data_mode ?t) = 0" "dm_idle (g_data_mode ?t) = False"
      "dm_enable (g_data_mode ?t)"
    by (simp_all add: data_entered_def ssend_params_def c_abs_def)
  have st: "store_data d rx ?t = Some (?rx, ?u)"
    using assms(6) sl by (simp add: store_data_def ATCMD_DATA_LEN_MAX_def)
  have lt: "(of_nat (length d) :: u32) < 0x80000000" using assms(6) by simp
  have "atcmd_receive_data C d rx ?t = Some (4096, ?rx, atcmd_data_mode_continue ?u)"
    using sl lt st assms(6) by (auto simp: atcmd_receive_data_def collect_data_def Let_def)
  moreover have "atcmd_receive_data C d' ?rx (atcmd_data_mode_continue ?u) = None"
  proof -
    let ?v = "atcmd_data_mode_continue ?u"
    have v: "send_len (g_data_mode ?v) = 0x80000000" "dm_cnt (g_data_mode ?v) = 4096" "dm_idle (g_data_mode ?v) = False"
        "dm_enable (g_data_mode ?v)" using sl by (simp_all add: continue_dm)
    have "unat (4096 + of_nat (length d') :: u32) = 4096 + length d'"
      using cnt_add [of "4096 :: u32" "length d'"] assms(8) by simp
    then have "(4096 + of_nat (length d') :: u32) < 0x80000000" using assms(8) by (simp add: word_less_nat_alt)
    moreover have "store_data d' ?rx ?v = None" using assms(7) v(2) by (cases d') (simp_all add: store_data_def ATCMD_DATA_LEN_MAX_def)
    ultimately show ?thesis using v assms(7) by (simp add: atcmd_receive_data_def collect_data_def Let_def)
  qed
  ultimately show ?thesis using e by blast
qed

theorem ssend_minimum_overruns_witness:
  "\<exists>t rx1 s1. atcmd_socket_send_set demo_net [''3'', ''-2147483648''] (demo_sock (\<lambda>_. [])) = (ATCMD_SUCCESS, t) \<and>
    atcmd_receive_data (socket_consumers demo_net) (replicate 4096 (CHR ''a'')) demo_rx t = Some (4096, rx1, s1) \<and>
    atcmd_receive_data (socket_consumers demo_net) ''b'' rx1 s1 = None"
proof -
  have n: "\<not> n_no_passthrough demo_net" by (simp add: demo_net_def)
  have e: "\<not> dm_enable (g_data_mode (demo_sock (\<lambda>_ :: int. [] :: string)))" by simp
  show ?thesis
    using ssend_minimum_overruns [where i = 3 and C = "socket_consumers demo_net" and rx = demo_rx
        and d = "replicate 4096 (CHR ''a'')" and d' = "''b''", OF _ _ demo_search e n] unfolding dec_examples by simp
qed

subsection \<open>The exit command of AT+SSENDEXIT\<close>

text \<open>C37: \<open>AT+SSENDEXIT=\<close> with a text of 1 to 32 characters in quotation marks is accepted whatever its length, and the
  exit command becomes \<open>AT+\<close>, the text and a line end; but with more than 27 characters the NUL at the latest is
  written behind the 33 bytes of the variable.  Up to 27 characters \<open>AT+SSENDEXIT?\<close> prints the text back and
  leaves the exit command as it is.\<close>

theorem ssend_exit_exact:
  fixes s :: "('f, 'n, 'z) sock"
  assumes "1 \<le> length x" and "length x \<le> 32"
  shows "\<exists>t. atcmd_socket_send_exit_set [quote x] s = (ATCMD_SUCCESS, t) \<and> so_exit (g_env t) = ''AT+'' @ x @ [CR, LF] \<and>
    (so_fault (g_env t) \<longleftrightarrow> so_fault (g_env s) \<or> 27 < length x) \<and>
    (\<exists>u. atcmd_socket_send_exit_get [] t = (ATCMD_SUCCESS, u) \<and> u = msg_put (''SSENDEXIT:'' @ quote x) t)"
proof -
  have q: "atcmd_param_to_str (Some (quote x)) (int SEND_EXIT_SIZE) = Some x" "quote x \<noteq> ''\"\"''"
    using assms by (auto simp: quote_def atcmd_param_to_str_def SEND_EXIT_SIZE_def nth_append)
  let ?x = "''AT+'' @ x @ [CR, LF]"
  have set: "atcmd_socket_send_exit_set [quote x] s = (ATCMD_SUCCESS, put_exit ?x s)"
    using q assms by (cases x) (simp_all add: atcmd_socket_send_exit_set_def)
  have e: "so_exit (g_env (put_exit ?x s)) = ?x"
    by (simp add: put_exit_def Let_def set_fault_def)
  have f: "so_fault (g_env (put_exit ?x s)) \<longleftrightarrow> so_fault (g_env s) \<or> 27 < length x"
    by (auto simp: put_exit_def Let_def set_fault_def SEND_EXIT_SIZE_def)
  have "(''AT+'' @ x @ [CR, LF])[3 + (length ?x - 3 - 2) := CR] = ?x"
    by (rule nth_equalityI) (auto simp: nth_list_update nth_append nth_Cons' split: if_splits)
  moreover have "take (length ?x - 3 - 2) (drop 3 ?x) = x" by simp
  ultimately have "atcmd_socket_send_exit_get [] (put_exit ?x s) =
      (ATCMD_SUCCESS, on_env (\<lambda>e. e\<lparr>so_exit := so_exit e\<rparr>) (msg_put (''SSENDEXIT:'' @ quote x) (put_exit ?x s)))"
    using e by (simp add: atcmd_socket_send_exit_get_def Let_def on_env_def)
  then show ?thesis using set e f by (auto simp: on_env_def)
qed

theorem ssend_exit_exact_witness:
  "\<exists>t. atcmd_socket_send_exit_set [quote (replicate 28 (CHR ''x''))] (demo_sock ()) = (ATCMD_SUCCESS, t) \<and> so_fault (g_env t)"
  using ssend_exit_exact [of "replicate 28 (CHR ''x'')" "demo_sock ()"] by auto

subsection \<open>Opening\<close>

text \<open>What \<open>_lwip_socket_open\<close> leaves in \<open>*fd\<close> when the option for the reuse of addresses cannot be set.\<close>

lemma open_udp_reuse_fails:
  assumes "li_on w" and "port \<noteq> 0" and "n_socket N SOCK_DGRAM (li_net w) = (fd, n1)" and "0 \<le> fd"
    and "n_setopt N fd SO_REUSEADDR 1 n1 = (r, n2)" and "r < 0"
  shows "lwip_socket_open_udp N port ttl w = ((r, fd), w\<lparr>li_net := n2, li_erange := False\<rparr>)"
  using assms by (simp add: lwip_socket_open_udp_def net_call_def lwip_socket_set_reuse_addr_def seq_ok_def)

text \<open>C38: When the option for the reuse of addresses cannot be set on a new datagram socket, \<open>_lwip_socket_open\<close> reports
  the error but neither closes the descriptor nor enters it for reading; \<open>_atcmd_socket_open\<close> looks at
  the descriptor only, so \<open>AT+SOPEN\<close> succeeds and keeps an entry for a
  socket that has no bound port and is not among those the task reads.\<close>

theorem open_hides_failure:
  fixes s :: "('f, 'n, 'z) sock"
  assumes "\<not> open_conflict sk s" and "free_entry s = Some k" and "sk_protocol sk = PROTO_UDP" and "sk_local_port sk \<noteq> 0"
    and "li_on (lwip_of s)" and "n_socket N SOCK_DGRAM (li_net (lwip_of s)) = (fd, n1)" and "0 \<le> fd"
    and "n_setopt N fd SO_REUSEADDR 1 n1 = (r, n2)" and "r < 0"
  shows "\<exists>t. atcmd_socket_open N sk s = (0, t) \<and> table t = (table s)[k := sk\<lparr>sk_id := fd\<rparr>] \<and> li_net (lwip_of t) = n2 \<and>
    fds_read (lwip_of t) = fds_read (lwip_of s)"
proof -
  let ?w = "(lwip_of s)\<lparr>li_erange := be_errno (g_env s)\<rparr>"
  have "lwip_socket_open_udp N (sk_local_port sk) (mc_ttl sk) ?w = ((r, fd), ?w\<lparr>li_net := n2, li_erange := False\<rparr>)"
    using assms by (intro open_udp_reuse_fails) simp_all
  then have "on_lwip (lwip_socket_open_udp N (sk_local_port sk) (mc_ttl sk)) s =
      ((r, fd), on_env (\<lambda>e. e\<lparr>so_lwip := (lwip_of s)\<lparr>li_net := n2, li_erange := False\<rparr>, be_errno := False\<rparr>) s)"
    by (simp add: on_lwip_def)
  then have "atcmd_socket_open N sk s =
     (0, msg_put (''SOPEN:'' @ dec_int fd) (set_entry k (sk\<lparr>sk_id := fd, sk_local_port := sk_local_port sk\<rparr>)
       (on_env (\<lambda>e. e\<lparr>so_lwip := (lwip_of s)\<lparr>li_net := n2, li_erange := False\<rparr>, be_errno := False\<rparr>) s)))"
    using assms by (simp add: atcmd_socket_open_def open_call_def)
  then show ?thesis by (simp add: set_entry_def)
qed

definition demo_refused :: "(int \<Rightarrow> string) net_api" where
  "demo_refused = demo_net\<lparr>n_setopt := \<lambda>fd opt v n. (- ENOMEM, n)\<rparr>"

definition demo_udp :: atcmd_socket where
  "demo_udp = atcmd_socket_reset\<lparr>sk_protocol := PROTO_UDP, sk_local_port := 7000, mc_ttl := 255\<rparr>"

theorem open_hides_failure_witness:
  "\<exists>t. atcmd_socket_open demo_refused demo_udp (demo_sock (\<lambda>_. [])) = (0, t) \<and>
    table t = (table (demo_sock (\<lambda>_ :: int. [] :: string)))[1 := demo_udp\<lparr>sk_id := 3\<rparr>]"
proof -
  let ?s = "demo_sock (\<lambda>_ :: int. [] :: string)"
  have "\<not> open_conflict demo_udp ?s"
    by (simp add: open_conflict_def demo_sock_env_def demo_udp_def demo_entry_def atcmd_socket_reset_def)
  moreover have "free_entry ?s = Some 1"
    by (simp add: free_entry_def demo_sock_env_def demo_entry_def atcmd_socket_reset_def numeral_eq_Suc)
  moreover have "sk_protocol demo_udp = PROTO_UDP" "sk_local_port demo_udp \<noteq> 0" "li_on (lwip_of ?s)"
    by (simp_all add: demo_udp_def demo_sock_env_def demo_lwip_def)
  moreover have "n_socket demo_refused SOCK_DGRAM (li_net (lwip_of ?s)) = (3, li_net (lwip_of ?s))"
    "n_setopt demo_refused 3 SO_REUSEADDR 1 (li_net (lwip_of ?s)) = (- ENOMEM, li_net (lwip_of ?s))" "- ENOMEM < 0"
    by (simp_all add: demo_refused_def demo_net_def ENOMEM_def)
  ultimately show ?thesis
    using open_hides_failure [of demo_udp ?s 1 demo_refused 3 "li_net (lwip_of ?s)" "- ENOMEM" "li_net (lwip_of ?s)"] by auto
qed

subsection \<open>Closing\<close>

definition chosen :: "int \<Rightarrow> atcmd_socket \<Rightarrow> bool" where
  "chosen i x \<longleftrightarrow> 0 \<le> sk_id x \<and> (i < 0 \<or> i = sk_id x)"

definition closed_table :: "int \<Rightarrow> atcmd_socket list \<Rightarrow> atcmd_socket list" where
  "closed_table i xs = map (\<lambda>x. if chosen i x then atcmd_socket_reset else x) xs"

definition chosen_ids :: "int \<Rightarrow> atcmd_socket list \<Rightarrow> int list" where
  "chosen_ids i xs = map sk_id (filter (chosen i) xs)"

text \<open>The part of the glue's state that closing changes.\<close>

definition glue_fds :: "'n lwip \<Rightarrow> int set \<times> int set \<times> int set" where
  "glue_fds w = (fds_read w, fds_write w, fds_listen w)"

lemma lwip_close_sel:
  assumes "li_on w"
  shows "li_net (snd (lwip_socket_close N fd w)) = snd (n_close N fd (li_net w))"
    "glue_fds (snd (lwip_socket_close N fd w)) = (fds_read w - {fd}, fds_write w - {fd}, fds_listen w - {fd})"
    "li_on (snd (lwip_socket_close N fd w))" "li_events (snd (lwip_socket_close N fd w)) = li_events w"
  using assms
  by (simp_all add: lwip_socket_close_def seq_ok_def net_call_def lwip_socket_fds_clear_def glue_fds_def case_prod_beta)

lemma send_done_sel:
  assumes "li_on w"
  shows "li_net (snd (lwip_socket_send_done fd w)) = li_net w" "li_on (snd (lwip_socket_send_done fd w))"
    "fds_read (snd (lwip_socket_send_done fd w)) = fds_read w" "fds_listen (snd (lwip_socket_send_done fd w)) = fds_listen w"
    "fds_write (snd (lwip_socket_send_done fd w)) = fds_write w - {fd}"
    "li_events (snd (lwip_socket_send_done fd w)) = (if fd \<in> fds_write w then insert fd (li_events w) else li_events w)"
  using assms by (auto simp: lwip_socket_send_done_def)

text \<open>The module's variables with the table, the glue and \<open>errno\<close> masked: closing changes nothing else.\<close>

definition masked :: "('f, 'n, 'z) sock_env_scheme \<Rightarrow> ('f, 'n, 'z) sock_env_scheme" where
  "masked e = e\<lparr>so_table := [], so_lwip := undefined, be_errno := False, so_ready := 0\<rparr>"

lemma close_entry_skip: "\<not> chosen i (table s ! k) \<Longrightarrow> close_entry N i err k s = s"
  by (auto simp: close_entry_def chosen_def Let_def)

lemma close_entry_env:
  assumes "chosen i (table s ! k)" and "li_on (lwip_of s)"
  shows "table (close_entry N i err k s) = (table s)[k := atcmd_socket_reset]"
    "li_on (lwip_of (close_entry N i err k s))"
    "li_net (lwip_of (close_entry N i err k s)) = snd (n_close N (sk_id (table s ! k)) (li_net (lwip_of s)))"
    "glue_fds (lwip_of (close_entry N i err k s)) = (fds_read (lwip_of s) - {sk_id (table s ! k)},
       fds_write (lwip_of s) - {sk_id (table s ! k)}, fds_listen (lwip_of s) - {sk_id (table s ! k)})"
    "li_events (lwip_of (close_entry N i err k s)) =
       (if sk_id (table s ! k) \<in> fds_write (lwip_of s) then insert (sk_id (table s ! k)) (li_events (lwip_of s))
        else li_events (lwip_of s))"
    "masked (g_env (close_entry N i err k s)) = masked (g_env s)"
proof -
  let ?fd = "sk_id (table s ! k)" and ?w = "(lwip_of s)\<lparr>li_erange := be_errno (g_env s)\<rparr>"
  define s1 where "s1 = snd (on_lwip (lwip_socket_send_done ?fd) s)"
  define s2 where "s2 = snd (on_lwip (lwip_socket_close N ?fd) s1)"
  have on: "li_on ?w" using assms(2) by simp
  have w1: "lwip_of s1 = snd (lwip_socket_send_done ?fd ?w)" "table s1 = table s" "masked (g_env s1) = masked (g_env s)"
    by (simp_all add: s1_def on_lwip_env masked_def)
  note d = send_done_sel [OF on, of ?fd]
  let ?w1 = "(lwip_of s1)\<lparr>li_erange := be_errno (g_env s1)\<rparr>"
  have on1: "li_on ?w1" using d w1 by simp
  have w2: "lwip_of s2 = snd (lwip_socket_close N ?fd ?w1)" "table s2 = table s1" "masked (g_env s2) = masked (g_env s1)"
    by (simp_all add: s2_def on_lwip_env masked_def)
  note c = lwip_close_sel [OF on1, of N ?fd]
  have e: "\<exists>r. close_entry N i err k s = set_entry k atcmd_socket_reset (on_env (\<lambda>e. e\<lparr>so_ready := r e\<rparr>)
      (if err < 0 then atcmd_socket_event_handler N (EvClose ?fd err) s2 else msg_put (''SCLOSE:'' @ dec_int ?fd) s2))"
  proof -
    have "on_env (\<lambda>e. e\<lparr>so_ready := so_ready e\<rparr>) u = u" for u :: "('a, 'b, 'c) sock" by (simp add: on_env_def)
    then show ?thesis using assms(1)
      unfolding close_entry_def chosen_def Let_def s1_def [symmetric] s2_def [symmetric]
      by (auto intro: exI [of _ so_ready] exI [of _ "\<lambda>e. so_ready e AND NOT (ready_bit ?fd)"])
  qed
  have env: "g_env (if err < 0 then atcmd_socket_event_handler N (EvClose ?fd err) s2 else msg_put (''SCLOSE:'' @ dec_int ?fd) s2)
      = g_env s2" by (simp add: atcmd_socket_event_handler_def)
  obtain r where r: "g_env (close_entry N i err k s) =
      (g_env s2)\<lparr>so_ready := r, so_table := (table s2)[k := atcmd_socket_reset]\<rparr>"
    using e env by (auto simp: set_entry_def)
  show "table (close_entry N i err k s) = (table s)[k := atcmd_socket_reset]" using r w1 w2 by simp
  show "li_on (lwip_of (close_entry N i err k s))"
    "li_net (lwip_of (close_entry N i err k s)) = snd (n_close N ?fd (li_net (lwip_of s)))"
    using r c d w1 w2 by simp_all
  show "glue_fds (lwip_of (close_entry N i err k s)) = (fds_read (lwip_of s) - {?fd}, fds_write (lwip_of s) - {?fd}, fds_listen (lwip_of s) - {?fd})"
    using r c(2) d w1 w2 by (simp add: glue_fds_def)
  show "li_events (lwip_of (close_entry N i err k s)) =
       (if ?fd \<in> fds_write (lwip_of s) then insert ?fd (li_events (lwip_of s)) else li_events (lwip_of s))"
    using r c(4) d w1 w2 by simp
  show "masked (g_env (close_entry N i err k s)) = masked (g_env s)"
    using r w1(3) w2(3) by (simp add: masked_def)
qed

definition net_close_all :: "'n net_api \<Rightarrow> int list \<Rightarrow> 'n \<Rightarrow> 'n" where
  "net_close_all N fds n = fold (\<lambda>fd m. snd (n_close N fd m)) fds n"

lemma close_prefix:
  fixes N :: "'n net_api" and s :: "('f, 'n, 'z) sock" and i err :: int
  assumes "li_on (lwip_of s)" and "j \<le> length (table s)"
  defines "t \<equiv> fold (close_entry N i err) [0..<j] s" and "ids \<equiv> chosen_ids i (take j (table s))"
  shows "table t = closed_table i (take j (table s)) @ drop j (table s) \<and> li_on (lwip_of t) \<and>
    li_net (lwip_of t) = net_close_all N ids (li_net (lwip_of s)) \<and>
    glue_fds (lwip_of t) = (fds_read (lwip_of s) - set ids, fds_write (lwip_of s) - set ids, fds_listen (lwip_of s) - set ids) \<and>
    li_events (lwip_of t) = li_events (lwip_of s) \<union> (fds_write (lwip_of s) \<inter> set ids) \<and> masked (g_env t) = masked (g_env s)"
  using assms(2) unfolding t_def ids_def
proof (induction j)
  case 0
  then show ?case using assms(1) by (simp add: closed_table_def chosen_ids_def net_close_all_def glue_fds_def)
next
  case (Suc j)
  let ?u = "fold (close_entry N i err) [0..<j] s" and ?x = "table s ! j" and ?ids = "chosen_ids i (take j (table s))"
  have j: "j < length (table s)" "j \<le> length (table s)" using Suc.prems by simp_all
  note IH = Suc.IH [OF j(2)]
  have l: "length (closed_table i (take j (table s))) = j" using j by (simp add: closed_table_def)
  have x: "table ?u ! j = ?x" using IH l j by (simp add: nth_append)
  have tk: "take (Suc j) (table s) = take j (table s) @ [?x]" "drop j (table s) = ?x # drop (Suc j) (table s)"
    using j by (simp_all add: take_Suc_conv_app_nth Cons_nth_drop_Suc)
  have st: "fold (close_entry N i err) [0..<Suc j] s = close_entry N i err j ?u" by simp
  show ?case
  proof (cases "chosen i ?x")
    case False
    then have "close_entry N i err j ?u = ?u" using x by (intro close_entry_skip) simp
    then show ?thesis using IH False unfolding st tk by (simp add: closed_table_def chosen_ids_def)
  next
    case True
    have c: "chosen i (table ?u ! j)" "li_on (lwip_of ?u)" using True x IH by simp_all
    note E = close_entry_env [where N = N and err = err, OF c, unfolded x]
    have ids: "chosen_ids i (take j (table s) @ [?x]) = ?ids @ [sk_id ?x]" using True by (simp add: chosen_ids_def)
    have tab: "(table ?u)[j := atcmd_socket_reset] = closed_table i (take (Suc j) (table s)) @ drop (Suc j) (table s)"
      using IH l True unfolding tk by (simp add: list_update_append closed_table_def)
    have g: "fds_read (lwip_of ?u) = fds_read (lwip_of s) - set ?ids" "fds_write (lwip_of ?u) = fds_write (lwip_of s) - set ?ids"
      "fds_listen (lwip_of ?u) = fds_listen (lwip_of s) - set ?ids" using IH by (simp_all add: glue_fds_def)
    have fin: "glue_fds (lwip_of (close_entry N i err j ?u)) =
        (fds_read (lwip_of s) - set (?ids @ [sk_id ?x]), fds_write (lwip_of s) - set (?ids @ [sk_id ?x]),
         fds_listen (lwip_of s) - set (?ids @ [sk_id ?x]))" unfolding E(4) g by auto
    have ev: "li_events (lwip_of (close_entry N i err j ?u)) =
        li_events (lwip_of s) \<union> (fds_write (lwip_of s) \<inter> set (?ids @ [sk_id ?x]))" using E(5) IH g by auto
    have net: "li_net (lwip_of (close_entry N i err j ?u)) = net_close_all N (?ids @ [sk_id ?x]) (li_net (lwip_of s))"
      using E(3) IH by (simp add: net_close_all_def)
    show ?thesis unfolding st unfolding tk(1) ids using E(1,2,6) IH tab fin ev net tk(1) by simp
  qed
qed

lemma close_effect:
  fixes N :: "'n net_api" and s :: "('f, 'n, 'z) sock" and i err :: int
  assumes "li_on (lwip_of s)"
  defines "t \<equiv> snd (atcmd_socket_close N i err s)" and "ids \<equiv> chosen_ids i (table s)"
  shows "table t = closed_table i (table s)" "li_on (lwip_of t)"
    "li_net (lwip_of t) = net_close_all N ids (li_net (lwip_of s))"
    "glue_fds (lwip_of t) = (fds_read (lwip_of s) - set ids, fds_write (lwip_of s) - set ids, fds_listen (lwip_of s) - set ids)"
    "li_events (lwip_of t) = li_events (lwip_of s) \<union> (fds_write (lwip_of s) \<inter> set ids)" "masked (g_env t) = masked (g_env s)"
  using close_prefix [where N = N and i = i and err = err, OF assms(1) order_refl] by (simp_all add: t_def ids_def atcmd_socket_close_def)

text \<open>
  What closing the descriptors \<open>ids\<close> does, field by field: the module's variables, the glue's state and the
  transmitted lines; nothing else is different.  The table afterwards is \<open>tab\<close>.
\<close>

definition closed_as ::
  "'n net_api \<Rightarrow> int list \<Rightarrow> atcmd_socket list \<Rightarrow> ('f, 'n, 'z) sock \<Rightarrow> ('f, 'n, 'z) sock \<Rightarrow> bool" where
  "closed_as N ids tab s t \<longleftrightarrow>
     t = s\<lparr>g_env := g_env t, g_out := g_out s @ concat (map (\<lambda>fd. ''+SCLOSE:'' @ dec_int fd @ [CR, LF]) ids)\<rparr> \<and>
     g_env t = (g_env s)\<lparr>so_table := tab, so_lwip := lwip_of t, be_errno := be_errno (g_env t),
       so_ready := (if so_passive (g_env s) then fold (\<lambda>fd r. r AND NOT (ready_bit fd)) ids (so_ready (g_env s))
                    else so_ready (g_env s))\<rparr> \<and>
     lwip_of t = (lwip_of s)\<lparr>li_net := fold (\<lambda>fd n. snd (n_close N fd n)) ids (li_net (lwip_of s)),
       fds_read := fds_read (lwip_of s) - set ids, fds_write := fds_write (lwip_of s) - set ids,
       fds_listen := fds_listen (lwip_of s) - set ids,
       li_events := li_events (lwip_of s) \<union> (fds_write (lwip_of s) \<inter> set ids), li_erange := li_erange (lwip_of t)\<rparr>"

lemma shell_frame: "shell t = shell s \<Longrightarrow> t = s\<lparr>g_env := g_env t, g_out := g_out t\<rparr>"
  by (cases s; cases t) (simp add: shell_def)

lemma shell_shared: "shell t = shell s \<Longrightarrow> shared_ok t = shared_ok s"
  by (cases s; cases t) (simp add: shell_def shared_ok_def)

lemma close_entry_exact:
  fixes N :: "'n net_api" and u :: "('f, 'n, 'z) sock" and i :: int and k :: nat
  assumes "chosen i (table u ! k)" and "li_on (lwip_of u)" and "shared_ok u" and "sk_id (table u ! k) < 2 ^ 31"
  defines "fd \<equiv> sk_id (table u ! k)" and "v \<equiv> close_entry N i 0 k u"
  shows "g_env v = (g_env u)\<lparr>so_table := (table u)[k := atcmd_socket_reset], so_lwip := lwip_of v, be_errno := be_errno (g_env v),
       so_ready := (if so_passive (g_env u) then so_ready (g_env u) AND NOT (ready_bit fd) else so_ready (g_env u))\<rparr>"
    and "lwip_of v = (lwip_of u)\<lparr>li_net := snd (n_close N fd (li_net (lwip_of u))), fds_read := fds_read (lwip_of u) - {fd},
       fds_write := fds_write (lwip_of u) - {fd}, fds_listen := fds_listen (lwip_of u) - {fd},
       li_events := li_events (lwip_of u) \<union> (fds_write (lwip_of u) \<inter> {fd}), li_erange := li_erange (lwip_of v)\<rparr>"
    and "g_out v = g_out u @ ''+SCLOSE:'' @ dec_int fd @ [CR, LF]" and "shell v = shell u"
proof -
  define s1 where "s1 = snd (on_lwip (lwip_socket_send_done fd) u)"
  define s2 where "s2 = snd (on_lwip (lwip_socket_close N fd) s1)"
  have fd: "0 \<le> fd" "i < 0 \<or> i = fd" using assms(1) by (auto simp: chosen_def fd_def)
  have sh: "shell s2 = shell u" by (simp add: s2_def s1_def)
  have out: "g_out s2 = g_out u" by (simp add: s2_def s1_def)
  have "length (dec_int fd) \<le> 11" using fd(1) assms(4) by (intro dec_int_length) (auto simp: fd_def)
  then have put: "msg_put (''SCLOSE:'' @ dec_int fd) s2 = atcmd_transmit (''+SCLOSE:'' @ dec_int fd @ [CR, LF]) s2"
    using msg_put_prints [of s2 "''SCLOSE:'' @ dec_int fd"] shell_shared [OF sh] assms(3) by simp
  have v: "v = set_entry k atcmd_socket_reset
      (let s3 = atcmd_transmit (''+SCLOSE:'' @ dec_int fd @ [CR, LF]) s2
       in if so_passive (g_env s3) then on_env (\<lambda>e. e\<lparr>so_ready := so_ready e AND NOT (ready_bit fd)\<rparr>) s3 else s3)"
    using fd put unfolding v_def close_entry_def fd_def [symmetric] Let_def s1_def [symmetric] s2_def [symmetric] by simp
  define W where "W = lwip_of s2"
  define E where "E = be_errno (g_env s2)"
  have e: "g_env s2 = (g_env u)\<lparr>so_lwip := W, be_errno := E\<rparr>" by (simp add: W_def E_def s2_def s1_def on_lwip_env)
  have W: "W = (lwip_of u)\<lparr>li_net := snd (n_close N fd (li_net (lwip_of u))), fds_read := fds_read (lwip_of u) - {fd},
      fds_write := fds_write (lwip_of u) - {fd}, fds_listen := fds_listen (lwip_of u) - {fd},
      li_events := li_events (lwip_of u) \<union> (fds_write (lwip_of u) \<inter> {fd}), li_erange := li_erange W\<rparr>"
    using assms(2)
    by (simp add: W_def s2_def s1_def on_lwip_env lwip_socket_send_done_def lwip_socket_close_def seq_ok_def net_call_def
        lwip_socket_fds_clear_def case_prod_beta)
  have ve: "g_env v = (g_env u)\<lparr>so_table := (table u)[k := atcmd_socket_reset], so_lwip := W, be_errno := E,
       so_ready := (if so_passive (g_env u) then so_ready (g_env u) AND NOT (ready_bit fd) else so_ready (g_env u))\<rparr>"
    unfolding v Let_def by (simp add: set_entry_def e)
  show "g_env v = (g_env u)\<lparr>so_table := (table u)[k := atcmd_socket_reset], so_lwip := lwip_of v, be_errno := be_errno (g_env v),
       so_ready := (if so_passive (g_env u) then so_ready (g_env u) AND NOT (ready_bit fd) else so_ready (g_env u))\<rparr>"
    using ve by simp
  have "lwip_of v = W" using ve by simp
  then show "lwip_of v = (lwip_of u)\<lparr>li_net := snd (n_close N fd (li_net (lwip_of u))), fds_read := fds_read (lwip_of u) - {fd},
       fds_write := fds_write (lwip_of u) - {fd}, fds_listen := fds_listen (lwip_of u) - {fd},
       li_events := li_events (lwip_of u) \<union> (fds_write (lwip_of u) \<inter> {fd}), li_erange := li_erange (lwip_of v)\<rparr>"
    using W by simp
  show "g_out v = g_out u @ ''+SCLOSE:'' @ dec_int fd @ [CR, LF]" "shell v = shell u"
    unfolding v Let_def using out sh by (simp_all add: set_entry_def)
qed

lemma closed_as_step:
  fixes s u :: "('f, 'n, 'z) sock"
  assumes C: "closed_as N ids tab s u" and c: "chosen i (tab ! k)" and on: "li_on (lwip_of s)" and s: "shared_ok s"
    and fd: "sk_id (tab ! k) < 2 ^ 31"
  shows "closed_as N (ids @ [sk_id (tab ! k)]) (tab[k := atcmd_socket_reset]) s (close_entry N i 0 k u)"
proof -
  let ?v = "close_entry N i 0 k u" and ?fd = "sk_id (tab ! k)"
  have su: "u = s\<lparr>g_env := g_env u, g_out := g_out s @ concat (map (\<lambda>fd. ''+SCLOSE:'' @ dec_int fd @ [CR, LF]) ids)\<rparr>"
    and eu: "g_env u = (g_env s)\<lparr>so_table := tab, so_lwip := lwip_of u, be_errno := be_errno (g_env u),
       so_ready := (if so_passive (g_env s) then fold (\<lambda>fd r. r AND NOT (ready_bit fd)) ids (so_ready (g_env s))
                    else so_ready (g_env s))\<rparr>"
    and wu: "lwip_of u = (lwip_of s)\<lparr>li_net := fold (\<lambda>fd n. snd (n_close N fd n)) ids (li_net (lwip_of s)),
       fds_read := fds_read (lwip_of s) - set ids, fds_write := fds_write (lwip_of s) - set ids,
       fds_listen := fds_listen (lwip_of s) - set ids,
       li_events := li_events (lwip_of s) \<union> (fds_write (lwip_of s) \<inter> set ids), li_erange := li_erange (lwip_of u)\<rparr>"
    using C unfolding closed_as_def by blast+
  have t: "table u = tab" by (subst eu) simp
  have p: "so_passive (g_env u) = so_passive (g_env s)" by (subst eu) simp
  have r: "so_ready (g_env u) = (if so_passive (g_env s) then fold (\<lambda>fd r. r AND NOT (ready_bit fd)) ids (so_ready (g_env s))
                    else so_ready (g_env s))" by (subst eu) simp
  have o: "g_out u = g_out s @ concat (map (\<lambda>fd. ''+SCLOSE:'' @ dec_int fd @ [CR, LF]) ids)" by (subst su) simp
  have sh: "shell u = shell s" by (subst su) (simp add: shell_def)
  have onu: "li_on (lwip_of u)" by (subst wu) (simp add: on)
  have w: "fds_read (lwip_of u) = fds_read (lwip_of s) - set ids" "fds_write (lwip_of u) = fds_write (lwip_of s) - set ids"
    "fds_listen (lwip_of u) = fds_listen (lwip_of s) - set ids"
    "li_events (lwip_of u) = li_events (lwip_of s) \<union> (fds_write (lwip_of s) \<inter> set ids)"
    "li_net (lwip_of u) = fold (\<lambda>fd n. snd (n_close N fd n)) ids (li_net (lwip_of s))" by (subst wu, simp)+
  have cu: "chosen i (table u ! k)" "sk_id (table u ! k) < 2 ^ 31" using c fd t by simp_all
  have shu: "shared_ok u" using s shell_shared [OF sh] by simp
  note E = close_entry_exact [OF cu(1) onu shu cu(2), of N, unfolded t]
  have out: "g_out ?v = g_out s @ concat (map (\<lambda>fd. ''+SCLOSE:'' @ dec_int fd @ [CR, LF]) (ids @ [?fd]))"
    using E(3) o by simp
  have vs: "?v = s\<lparr>g_env := g_env ?v, g_out := g_out ?v\<rparr>" using E(4) sh by (intro shell_frame) simp
  have env: "g_env ?v = (g_env s)\<lparr>so_table := tab[k := atcmd_socket_reset], so_lwip := lwip_of ?v, be_errno := be_errno (g_env ?v),
       so_ready := (if so_passive (g_env s) then fold (\<lambda>fd r. r AND NOT (ready_bit fd)) (ids @ [?fd]) (so_ready (g_env s))
                    else so_ready (g_env s))\<rparr>"
  proof -
    have rv: "(if so_passive (g_env s) then so_ready (g_env u) AND NOT (ready_bit ?fd) else so_ready (g_env u)) =
      (if so_passive (g_env s) then fold (\<lambda>fd r. r AND NOT (ready_bit fd)) (ids @ [?fd]) (so_ready (g_env s))
       else so_ready (g_env s))" using r by simp
    have "g_env ?v = (g_env u)\<lparr>so_table := tab[k := atcmd_socket_reset], so_lwip := lwip_of ?v, be_errno := be_errno (g_env ?v),
       so_ready := (if so_passive (g_env s) then fold (\<lambda>fd r. r AND NOT (ready_bit fd)) (ids @ [?fd]) (so_ready (g_env s))
                    else so_ready (g_env s))\<rparr>" using E(1) unfolding p rv .
    moreover have "(g_env u)\<lparr>so_table := X, so_lwip := W, be_errno := B, so_ready := R\<rparr> =
      (g_env s)\<lparr>so_table := X, so_lwip := W, be_errno := B, so_ready := R\<rparr>" for X W B R by (subst eu) simp
    ultimately show ?thesis by simp
  qed
  have lw: "lwip_of ?v = (lwip_of s)\<lparr>li_net := fold (\<lambda>fd n. snd (n_close N fd n)) (ids @ [?fd]) (li_net (lwip_of s)),
       fds_read := fds_read (lwip_of s) - set (ids @ [?fd]), fds_write := fds_write (lwip_of s) - set (ids @ [?fd]),
       fds_listen := fds_listen (lwip_of s) - set (ids @ [?fd]),
       li_events := li_events (lwip_of s) \<union> (fds_write (lwip_of s) \<inter> set (ids @ [?fd])), li_erange := li_erange (lwip_of ?v)\<rparr>"
  proof -
    have sets: "X - set (ids @ [?fd]) = X - set ids - {?fd}"
      "Y \<union> (X \<inter> set (ids @ [?fd])) = (Y \<union> (X \<inter> set ids)) \<union> ((X - set ids) \<inter> {?fd})" for X Y by auto
    have over: "(lwip_of u)\<lparr>li_net := n, fds_read := A, fds_write := B, fds_listen := D, li_events := V, li_erange := R\<rparr> =
      (lwip_of s)\<lparr>li_net := n, fds_read := A, fds_write := B, fds_listen := D, li_events := V, li_erange := R\<rparr>" for n A B D V R
      by (subst wu) simp
    have "lwip_of ?v = (lwip_of u)\<lparr>li_net := fold (\<lambda>fd n. snd (n_close N fd n)) (ids @ [?fd]) (li_net (lwip_of s)),
       fds_read := fds_read (lwip_of s) - set (ids @ [?fd]), fds_write := fds_write (lwip_of s) - set (ids @ [?fd]),
       fds_listen := fds_listen (lwip_of s) - set (ids @ [?fd]),
       li_events := li_events (lwip_of s) \<union> (fds_write (lwip_of s) \<inter> set (ids @ [?fd])), li_erange := li_erange (lwip_of ?v)\<rparr>"
      using E(2) unfolding sets w by simp
    then show ?thesis unfolding over .
  qed
  show ?thesis unfolding closed_as_def using vs out env lw by (intro conjI) simp_all
qed

lemma closed_prefix:
  fixes N :: "'n net_api" and s :: "('f, 'n, 'z) sock" and i :: int
  assumes "li_on (lwip_of s)" and "shared_ok s" and "\<And>x. x \<in> set (table s) \<Longrightarrow> sk_id x < 2 ^ 31"
    and "j \<le> length (table s)"
  shows "closed_as N (chosen_ids i (take j (table s))) (closed_table i (take j (table s)) @ drop j (table s)) s
    (fold (close_entry N i 0) [0..<j] s)"
  using assms(4)
proof (induction j)
  case 0
  have "s = s\<lparr>g_env := g_env s, g_out := g_out s\<rparr>" by simp
  then show ?case by (simp add: closed_as_def chosen_ids_def closed_table_def)
next
  case (Suc j)
  let ?u = "fold (close_entry N i 0) [0..<j] s" and ?x = "table s ! j" and ?ids = "chosen_ids i (take j (table s))"
  let ?tab = "closed_table i (take j (table s)) @ drop j (table s)"
  have j: "j < length (table s)" "j \<le> length (table s)" using Suc.prems by simp_all
  note IH = Suc.IH [OF j(2)]
  have l: "length (closed_table i (take j (table s))) = j" using j by (simp add: closed_table_def)
  have x: "?tab ! j = ?x" using l j by (simp add: nth_append)
  have tu: "table ?u = ?tab" using IH unfolding closed_as_def
    by (elim conjE) (drule arg_cong [where f = so_table and x = "g_env ?u"], simp)
  have tk: "take (Suc j) (table s) = take j (table s) @ [?x]" "drop j (table s) = ?x # drop (Suc j) (table s)"
    using j by (simp_all add: take_Suc_conv_app_nth Cons_nth_drop_Suc)
  have st: "fold (close_entry N i 0) [0..<Suc j] s = close_entry N i 0 j ?u" by simp
  show ?case
  proof (cases "chosen i ?x")
    case False
    then have "close_entry N i 0 j ?u = ?u" using x tu by (intro close_entry_skip) simp
    moreover have "chosen_ids i (take (Suc j) (table s)) = ?ids"
      "closed_table i (take (Suc j) (table s)) @ drop (Suc j) (table s) = ?tab"
      using False unfolding tk by (simp_all add: chosen_ids_def closed_table_def)
    ultimately show ?thesis using IH unfolding st by simp
  next
    case True
    have c: "chosen i (?tab ! j)" using True x by simp
    have "?x \<in> set (table s)" using j by simp
    then have fd: "sk_id (?tab ! j) < 2 ^ 31" using assms(3) x by metis
    have ids: "chosen_ids i (take (Suc j) (table s)) = ?ids @ [sk_id ?x]"
      using True unfolding tk by (simp add: chosen_ids_def)
    have tab: "?tab[j := atcmd_socket_reset] = closed_table i (take (Suc j) (table s)) @ drop (Suc j) (table s)"
      using l True unfolding tk by (simp add: list_update_append closed_table_def)
    show ?thesis using closed_as_step [OF IH c assms(1,2) fd] unfolding st ids tab x .
  qed
qed

lemma closed_all:
  fixes N :: "'n net_api" and s :: "('f, 'n, 'z) sock" and i :: int
  assumes "li_on (lwip_of s)" and "shared_ok s" and "\<And>x. x \<in> set (table s) \<Longrightarrow> sk_id x < 2 ^ 31"
  shows "closed_as N (chosen_ids i (table s)) (closed_table i (table s)) s (snd (atcmd_socket_close N i 0 s))"
  using closed_prefix [where N = N and i = i, OF assms order_refl] by (simp add: atcmd_socket_close_def)

text \<open>C18: \<open>AT+SCLOSE=<id>\<close> and \<open>AT+SCLOSE\<close>, with the socket layer started: exactly the open entries with that descriptor, or all open
  entries, are reset; their descriptors are closed in the order of the table, once each, with a line
  \<open>+SCLOSE:<id>\<close> for each; they are in none of the task's sets for reading, writing and listening afterwards, a
  waiting sender of theirs is woken, and with passive reception their ready bits are cleared.  Every other
  entry, set element, setting and variable stays as it is (\<open>errno\<close> apart); so closing a server socket leaves the
  entries and descriptors of the connections accepted through it open, which the command guide says close
  with it.  The answer is OK even if no socket has that descriptor; then nothing changes at all.\<close>

theorem close_exact:
  fixes s :: "('f, 'n, 'z) sock"
  assumes "li_on (lwip_of s)" and "shared_ok s" and "\<forall>x \<in> set (table s). sk_id x < 2 ^ 31" and "0 \<le> i" and "i < 10"
  shows "(\<exists>t. atcmd_socket_close_set N [dec_int i] s = (ATCMD_SUCCESS, t) \<and>
      closed_as N (filter (\<lambda>fd. fd = i) (map sk_id (table s)))
        (map (\<lambda>x. if sk_id x = i then atcmd_socket_reset else x) (table s)) s t \<and>
      (i \<notin> sk_id ` set (table s) \<longrightarrow> t = s)) \<and>
    (\<exists>u. atcmd_socket_close_run N s = (ATCMD_SUCCESS, u) \<and>
      closed_as N (filter (\<lambda>fd. 0 \<le> fd) (map sk_id (table s)))
        (map (\<lambda>x. if 0 \<le> sk_id x then atcmd_socket_reset else x) (table s)) s u)"
proof -
  have r: "atcmd_socket_close_set N [dec_int i] s = (ATCMD_SUCCESS, snd (atcmd_socket_close N i 0 s))"
    "atcmd_socket_close_run N s = (ATCMD_SUCCESS, snd (atcmd_socket_close N (-1) 0 s))"
    using assms atoi_of_dec [of i s]
    by (simp_all add: atcmd_socket_close_set_def atcmd_socket_close_run_def atcmd_socket_close_def ATCMD_SUCCESS_def ATCMD_SOCKET_NUM_MAX_def)
  have c: "chosen i = (\<lambda>x. sk_id x = i)" "chosen (-1) = (\<lambda>x. 0 \<le> sk_id x)" using assms(4) by (auto simp: chosen_def fun_eq_iff)
  have ids: "chosen_ids i (table s) = filter (\<lambda>fd. fd = i) (map sk_id (table s))"
    "chosen_ids (-1) (table s) = filter (\<lambda>fd. 0 \<le> fd) (map sk_id (table s))"
    by (simp_all add: chosen_ids_def c filter_map comp_def)
  have bound: "\<And>x. x \<in> set (table s) \<Longrightarrow> sk_id x < 2 ^ 31" using assms(3) by blast
  have none: "snd (atcmd_socket_close N i 0 s) = s" if "i \<notin> sk_id ` set (table s)"
  proof -
    have "fold (close_entry N i 0) [0..<j] s = s" if "j \<le> length (table s)" for j
      using that
    proof (induction j)
      case (Suc j)
      then have "\<not> chosen i (table s ! j)" using \<open>i \<notin> sk_id ` set (table s)\<close> c by auto
      then show ?case using Suc by (simp add: close_entry_skip)
    qed simp
    then show ?thesis by (simp add: atcmd_socket_close_def)
  qed
  show ?thesis
    using r none closed_all [where N = N and i = i, OF assms(1,2) bound] closed_all [where N = N and i = "-1", OF assms(1,2) bound]
    by (simp add: ids closed_table_def c)
qed

theorem close_exact_witness:
  "\<exists>t. atcmd_socket_close_set demo_net [''3''] (demo_sock (\<lambda>_ :: int. [] :: string)) = (ATCMD_SUCCESS, t) \<and>
    table t = replicate 10 atcmd_socket_reset \<and> fds_read (lwip_of t) = {} \<and> g_out t = ''+SCLOSE:3'' @ [CR, LF]"
proof -
  let ?s = "demo_sock (\<lambda>_ :: int. [] :: string)"
  have on: "li_on (lwip_of ?s)" by (simp add: demo_sock_env_def demo_lwip_def)
  have tab: "table ?s = demo_entry # replicate 9 atcmd_socket_reset" by (simp add: demo_sock_env_def)
  have ids: "map sk_id (table ?s) = 3 # replicate 9 (-1)"
    unfolding tab by (simp add: demo_entry_def atcmd_socket_reset_def)
  have b: "\<forall>x \<in> set (table ?s). sk_id x < 2 ^ 31" unfolding tab by (simp add: demo_entry_def atcmd_socket_reset_def)
  obtain t where t: "atcmd_socket_close_set demo_net [dec_int 3] ?s = (ATCMD_SUCCESS, t)"
    "closed_as demo_net (filter (\<lambda>fd. fd = 3) (map sk_id (table ?s)))
      (map (\<lambda>x. if sk_id x = 3 then atcmd_socket_reset else x) (table ?s)) ?s t"
    using close_exact [where N = demo_net and i = 3, OF on demo_sock_shared b] by auto
  have f: "filter (\<lambda>fd. fd = 3) (map sk_id (table ?s)) = [3]" unfolding ids by simp
  have m: "map (\<lambda>x. if sk_id x = 3 then atcmd_socket_reset else x) (table ?s) = replicate 10 atcmd_socket_reset"
    unfolding tab by (simp add: demo_entry_def numeral_eq_Suc)
  note C = t(2) [unfolded f m closed_as_def]
  have "table t = replicate 10 atcmd_socket_reset"
    using C by (elim conjE) (drule arg_cong [where f = so_table and x = "g_env t"], simp)
  moreover have "fds_read (lwip_of t) = {}"
    using C by (elim conjE) (drule arg_cong [where f = fds_read and x = "lwip_of t"], simp add: demo_sock_env_def demo_lwip_def)
  moreover have "g_out t = ''+SCLOSE:3'' @ [CR, LF]"
    using C by (elim conjE) (drule arg_cong [where f = g_out and x = t], simp add: dec_examples demo_atcmd_def)
  ultimately show ?thesis using t(1) unfolding dec_examples by blast
qed

subsection \<open>Multicast groups\<close>

definition mc_groups :: "atcmd_socket \<Rightarrow> u32 set" where
  "mc_groups x = set (mc_addr x) - {IPADDR_ANY}"

definition mc_ok :: "atcmd_socket \<Rightarrow> bool" where
  "mc_ok x \<longleftrightarrow> length (mc_addr x) = 3 \<and> distinct (filter (\<lambda>a. a \<noteq> IPADDR_ANY) (mc_addr x)) \<and>
     unat (mc_group x) = length (filter (\<lambda>a. a \<noteq> IPADDR_ANY) (mc_addr x))"

lemma multicast_not_any: "ip4_addr_ismulticast a \<Longrightarrow> a \<noteq> IPADDR_ANY"
proof -
  have "PP_HTONL 0xe0000000 \<noteq> 0" by code_simp
  then show "ip4_addr_ismulticast a \<Longrightarrow> a \<noteq> IPADDR_ANY" by (auto simp: ip4_addr_ismulticast_def IPADDR_ANY_def)
qed

lemma mc_groups_card: "mc_ok x \<Longrightarrow> card (mc_groups x) = unat (mc_group x)"
proof -
  assume ok: "mc_ok x"
  have "mc_groups x = set (filter (\<lambda>a. a \<noteq> IPADDR_ANY) (mc_addr x))" by (auto simp: mc_groups_def)
  moreover have "card (set (filter (\<lambda>a. a \<noteq> IPADDR_ANY) (mc_addr x))) = length (filter (\<lambda>a. a \<noteq> IPADDR_ANY) (mc_addr x))"
    using ok unfolding mc_ok_def by (intro distinct_card) blast
  ultimately show ?thesis using ok unfolding mc_ok_def by argo
qed

lemma three: "length xs = 3 \<Longrightarrow> \<exists>a b c. xs = [a, b, c]"
  by (auto simp: numeral_3_eq_3 length_Suc_conv)

lemma mc_put:
  assumes "mc_ok x" and "find_index (\<lambda>a. a = IPADDR_ANY) (mc_addr x) = Some j" and "a \<noteq> IPADDR_ANY" and "a \<notin> set (mc_addr x)"
  defines "y \<equiv> x\<lparr>mc_addr := (mc_addr x)[j := a], mc_group := mc_group x + 1\<rparr>"
  shows "mc_ok y" and "mc_groups y = insert a (mc_groups x)" and "card (mc_groups x) < 3"
proof -
  obtain p q r where m: "mc_addr x = [p, q, r]" using three [of "mc_addr x"] assms(1) unfolding mc_ok_def by blast
  have g: "unat (mc_group x) = length (filter (\<lambda>a. a \<noteq> IPADDR_ANY) [p, q, r])" "unat (mc_group x) < 3"
    using assms(1,2) by (auto simp: mc_ok_def m split: if_splits)
  then have u: "unat (mc_group x + 1) = Suc (unat (mc_group x))" by (simp add: unat_word_ariths)
  have j: "p = IPADDR_ANY \<and> j = 0 \<or> p \<noteq> IPADDR_ANY \<and> q = IPADDR_ANY \<and> j = 1 \<or>
      p \<noteq> IPADDR_ANY \<and> q \<noteq> IPADDR_ANY \<and> r = IPADDR_ANY \<and> j = 2" using assms(2) by (auto simp: m split: if_splits)
  show "mc_ok y" using j assms(1,3,4) g(1) u by (elim disjE; clarsimp simp: mc_ok_def y_def m numeral_2_eq_2; auto)
  show "mc_groups y = insert a (mc_groups x)" using j by (elim disjE; clarsimp simp: y_def m mc_groups_def numeral_2_eq_2; insert assms(3); auto)
  show "card (mc_groups x) < 3" using g mc_groups_card [OF assms(1)] by simp
qed

lemma mc_take:
  assumes "mc_ok x" and "find_index (\<lambda>b. a = b) (mc_addr x) = Some j" and "a \<noteq> IPADDR_ANY"
  defines "y \<equiv> x\<lparr>mc_addr := (mc_addr x)[j := IPADDR_ANY], mc_group := mc_group x - 1\<rparr>"
  shows "mc_ok y" and "mc_groups y = mc_groups x - {a}"
proof -
  obtain p q r where m: "mc_addr x = [p, q, r]" using three [of "mc_addr x"] assms(1) unfolding mc_ok_def by blast
  have g: "unat (mc_group x) = length (filter (\<lambda>a. a \<noteq> IPADDR_ANY) [p, q, r])" "0 < unat (mc_group x)"
    using assms(1-3) by (auto simp: mc_ok_def m split: if_splits)
  have "1 \<le> mc_group x" using g(2) by (simp add: word_le_nat_alt)
  then have u: "unat (mc_group x - 1) = unat (mc_group x) - 1" by (simp add: unat_sub)
  have j: "p = a \<and> j = 0 \<or> p \<noteq> a \<and> q = a \<and> j = 1 \<or> p \<noteq> a \<and> q \<noteq> a \<and> r = a \<and> j = 2"
    using assms(2) by (auto simp: m split: if_splits)
  show "mc_ok y" using j assms(1,3) g(1) u by (elim disjE; clarsimp simp: mc_ok_def y_def m numeral_2_eq_2; auto)
  show "mc_groups y = mc_groups x - {a}"
    using j assms(1,3) by (elim disjE; clarsimp simp: mc_ok_def y_def m mc_groups_def numeral_2_eq_2; auto split: if_splits)
qed

text \<open>The multicast groups of a socket as an abstract set of at most three addresses.\<close>

definition mc_add_spec :: "u32 \<Rightarrow> bool \<Rightarrow> u32 set \<Rightarrow> int \<times> u32 set" where
  "mc_add_spec a accepted G =
    (if \<not> ip4_addr_ismulticast a \<or> a \<in> G then (ATCMD_ERROR_INVAL, G)
     else if card G \<ge> 3 then (ATCMD_ERROR_NOMEM, G)
     else if accepted then (ATCMD_SUCCESS, insert a G) else (ATCMD_ERROR_FAIL, G))"

definition mc_drop_spec :: "u32 \<Rightarrow> bool \<Rightarrow> u32 set \<Rightarrow> int \<times> u32 set" where
  "mc_drop_spec a accepted G =
    (if a = IPADDR_ANY then (ATCMD_SUCCESS, {})
     else if \<not> ip4_addr_ismulticast a \<or> a \<notin> G then (ATCMD_ERROR_INVAL, G)
     else if accepted then (ATCMD_SUCCESS, G - {a}) else (ATCMD_ERROR_FAIL, G))"

lemma on_lwip_table [simp]: "table (snd (on_lwip f s)) = table s"
  by (simp add: on_lwip_env)

lemma set_entry_table [simp]: "table (set_entry k x s) = (table s)[k := x]"
  by (simp add: set_entry_def)

lemma fold_table: "(\<And>a t. table (f a t) = table t) \<Longrightarrow> table (fold f xs s) = table s"
  by (induction xs arbitrary: s) simp_all

text \<open>What the network answers to joining or leaving a group decides the result.\<close>

lemma membership_call:
  "fst (on_lwip (lwip_socket_udp_add_multicast_group N fd a) s) = 0 \<longleftrightarrow> 0 \<le> fst (n_membership N fd True a (li_net (lwip_of s)))"
  "li_net (lwip_of (snd (on_lwip (lwip_socket_udp_add_multicast_group N fd a) s))) =
     snd (n_membership N fd True a (li_net (lwip_of s)))"
  "fst (on_lwip (lwip_socket_udp_drop_multicast_group N fd a) s) = 0 \<longleftrightarrow> 0 \<le> fst (n_membership N fd False a (li_net (lwip_of s)))"
  "li_net (lwip_of (snd (on_lwip (lwip_socket_udp_drop_multicast_group N fd a) s))) =
     snd (n_membership N fd False a (li_net (lwip_of s)))"
  by (auto simp: on_lwip_env on_lwip_fst lwip_socket_udp_add_multicast_group_def lwip_socket_udp_drop_multicast_group_def
      seq_ok_def net_call_def case_prod_beta)

lemma drop_all_net:
  "li_net (lwip_of (fold (\<lambda>b t. if b \<noteq> IPADDR_ANY then snd (on_lwip (lwip_socket_udp_drop_multicast_group N fd b) t) else t) xs s)) =
   fold (\<lambda>b n. snd (n_membership N fd False b n)) (filter (\<lambda>b. b \<noteq> IPADDR_ANY) xs) (li_net (lwip_of s))"
  by (induction xs arbitrary: s) (simp_all add: membership_call)

text \<open>The outcome \<open>(r, t)\<close> of an operation on the entry \<open>k\<close> has the result and the groups \<open>spec\<close> and the network \<open>net\<close>.\<close>

definition mc_refines ::
  "nat \<Rightarrow> ('f, 'n, 'z) sock \<Rightarrow> int \<times> u32 set \<Rightarrow> 'n \<Rightarrow> ('f, 'n, 'z) result \<Rightarrow> bool" where
  "mc_refines k s spec net = (\<lambda>(r, t). (r, mc_groups (table t ! k)) = spec \<and> mc_ok (table t ! k) \<and>
     unat (mc_group (table t ! k)) = card (mc_groups (table t ! k)) \<and> table t = (table s)[k := table t ! k] \<and>
     li_net (lwip_of t) = net)"

lemma mc_refines_same:
  "mc_ok (table s ! k) \<Longrightarrow> table t = table s \<Longrightarrow> li_net (lwip_of t) = net \<Longrightarrow> mc_refines k s (r, mc_groups (table s ! k)) net (r, t)"
  by (simp add: mc_refines_def mc_groups_card)

lemma mc_refines_set:
  "mc_ok y \<Longrightarrow> k < length (table s) \<Longrightarrow> table t = table s \<Longrightarrow> li_net (lwip_of t) = net \<Longrightarrow> G = mc_groups y \<Longrightarrow>
   mc_refines k s (r, G) net (r, set_entry k y t)"
  by (simp add: mc_refines_def mc_groups_card set_entry_def)

text \<open>The network after a request, which is made only if the set allows the operation.\<close>

definition mc_asked :: "int \<times> u32 set \<Rightarrow> 'n \<Rightarrow> 'n \<Rightarrow> 'n" where
  "mc_asked spec n' n = (if fst spec = ATCMD_SUCCESS \<or> fst spec = ATCMD_ERROR_FAIL then n' else n)"

lemmas mc_codes = mc_asked_def ATCMD_SUCCESS_def ATCMD_ERROR_FAIL_def ATCMD_ERROR_INVAL_def ATCMD_ERROR_NOMEM_def

lemma mc_add_refines:
  fixes s :: "('f, 'n, 'z) sock"
  assumes "k < length (table s)" and "mc_ok (table s ! k)"
    and "fd = sk_id (table s ! k)" and "n = li_net (lwip_of s)" and "G = mc_groups (table s ! k)"
    and "joined = n_membership N fd True a n"
  shows "mc_refines k s (mc_add_spec a (0 \<le> fst joined) G) (mc_asked (mc_add_spec a (0 \<le> fst joined) G) (snd joined) n)
      (multicast_add N k a s)"
proof -
  let ?x = "table s ! k"
  obtain ret s1 where o: "on_lwip (lwip_socket_udp_add_multicast_group N (sk_id ?x) a) s = (ret, s1)" by fastforce
  have acc: "0 \<le> fst joined \<longleftrightarrow> ret = 0" and t1: "table s1 = table s" "li_net (lwip_of s1) = snd joined"
    using o membership_call(1,2) [of N fd a s] on_lwip_table [of "lwip_socket_udp_add_multicast_group N (sk_id ?x) a" s]
    unfolding assms(3,4,6) by simp_all
  have mem: "a \<in> set (mc_addr ?x) \<longleftrightarrow> a \<in> G" if "ip4_addr_ismulticast a"
    using multicast_not_any [OF that] by (simp add: mc_groups_def assms(5))
  show "mc_refines k s (mc_add_spec a (0 \<le> fst joined) G) (mc_asked (mc_add_spec a (0 \<le> fst joined) G) (snd joined) n)
      (multicast_add N k a s)"
  proof (cases "\<not> ip4_addr_ismulticast a \<or> a \<in> set (mc_addr ?x)")
    case True
    then have "multicast_add N k a s = (ATCMD_ERROR_INVAL, s)"
      unfolding multicast_add_def Let_def by (elim disjE) (simp_all del: not_not)
    moreover have "mc_add_spec a (0 \<le> fst joined) G = (ATCMD_ERROR_INVAL, G)" using True mem by (auto simp: mc_add_spec_def)
    ultimately show ?thesis using mc_refines_same [OF assms(2) refl] assms(4,5) by (simp add: mc_codes)
  next
    case False
    then have a: "ip4_addr_ismulticast a" "a \<notin> set (mc_addr ?x)" "a \<notin> G" "a \<noteq> IPADDR_ANY"
      using mem multicast_not_any by auto
    show ?thesis
    proof (cases "find_index (\<lambda>b. b = IPADDR_ANY) (mc_addr ?x)")
      case None
      then have "filter (\<lambda>b. b \<noteq> IPADDR_ANY) (mc_addr ?x) = mc_addr ?x" by (auto simp: find_index_None filter_id_conv)
      then have "card G = 3" using assms(2) mc_groups_card [OF assms(2)] by (simp add: mc_ok_def assms(5))
      then have "mc_add_spec a (0 \<le> fst joined) G = (ATCMD_ERROR_NOMEM, G)" using a by (simp add: mc_add_spec_def)
      moreover have "multicast_add N k a s = (ATCMD_ERROR_NOMEM, s)" using None a by (simp add: multicast_add_def)
      ultimately show ?thesis using mc_refines_same [OF assms(2) refl] assms(4,5) by (simp add: mc_codes)
    next
      case (Some j)
      note P = mc_put [OF assms(2) Some a(4,2)]
      have sp: "mc_add_spec a (0 \<le> fst joined) G = (if ret = 0 then (ATCMD_SUCCESS, insert a G) else (ATCMD_ERROR_FAIL, G))"
        using a P(3) acc by (simp add: mc_add_spec_def assms(5))
      have ad: "multicast_add N k a s = (if ret \<noteq> 0 then (ATCMD_ERROR_FAIL, s1) else (ATCMD_SUCCESS,
          set_entry k (?x\<lparr>mc_addr := (mc_addr ?x)[j := a], mc_group := mc_group ?x + 1\<rparr>) s1))"
        using Some a o by (simp add: multicast_add_def Let_def)
      show ?thesis
      proof (cases "ret = 0")
        case True
        then show ?thesis unfolding sp ad using mc_refines_set [OF P(1) assms(1) t1(1,2)] P(2) assms(5)
          by (simp add: mc_asked_def)
      next
        case False
        then show ?thesis unfolding sp ad using mc_refines_same [OF assms(2) t1(1,2)] assms(5)
          by (simp add: mc_asked_def)
      qed
    qed
  qed
qed

lemma mc_drop_refines:
  fixes s :: "('f, 'n, 'z) sock"
  assumes "k < length (table s)" and "mc_ok (table s ! k)"
    and "fd = sk_id (table s ! k)" and "n = li_net (lwip_of s)" and "G = mc_groups (table s ! k)"
    and "left = n_membership N fd False a n"
  shows "mc_refines k s (mc_drop_spec a (0 \<le> fst left) G)
      (if a = IPADDR_ANY
       then fold (\<lambda>b n. snd (n_membership N fd False b n)) (filter (\<lambda>b. b \<noteq> IPADDR_ANY) (mc_addr (table s ! k))) n
       else mc_asked (mc_drop_spec a (0 \<le> fst left) G) (snd left) n)
      (multicast_drop N k a s)"
proof -
  let ?x = "table s ! k"
  obtain ret s1 where o: "on_lwip (lwip_socket_udp_drop_multicast_group N (sk_id ?x) a) s = (ret, s1)" by fastforce
  have acc: "0 \<le> fst left \<longleftrightarrow> ret = 0" and t1: "table s1 = table s" "li_net (lwip_of s1) = snd left"
    using o membership_call(3,4) [of N fd a s] on_lwip_table [of "lwip_socket_udp_drop_multicast_group N (sk_id ?x) a" s]
    unfolding assms(3,4,6) by simp_all
  show "mc_refines k s (mc_drop_spec a (0 \<le> fst left) G)
      (if a = IPADDR_ANY
       then fold (\<lambda>b n. snd (n_membership N fd False b n)) (filter (\<lambda>b. b \<noteq> IPADDR_ANY) (mc_addr ?x)) n
       else mc_asked (mc_drop_spec a (0 \<le> fst left) G) (snd left) n)
      (multicast_drop N k a s)"
  proof (cases "a = IPADDR_ANY")
    case True
    let ?y = "?x\<lparr>mc_addr := map (\<lambda>_. IPADDR_ANY) (mc_addr ?x), mc_group := 0\<rparr>"
    let ?t = "fold (\<lambda>b t. if b \<noteq> IPADDR_ANY then snd (on_lwip (lwip_socket_udp_drop_multicast_group N fd b) t) else t) (mc_addr ?x) s"
    have t: "table ?t = table s" by (rule fold_table) simp
    have y: "mc_ok ?y" "{} = mc_groups ?y" using assms(2) by (auto simp: mc_ok_def mc_groups_def)
    have "multicast_drop N k a s = (ATCMD_SUCCESS, set_entry k ?y ?t)"
      using True unfolding assms(3) by (simp add: multicast_drop_def Let_def)
    moreover have "mc_drop_spec a (0 \<le> fst left) G = (ATCMD_SUCCESS, {})" using True by (simp add: mc_drop_spec_def)
    ultimately show ?thesis using mc_refines_set [OF y(1) assms(1) t drop_all_net y(2), of ATCMD_SUCCESS] True
      by (simp add: assms(4))
  next
    case False
    show ?thesis
    proof (cases "\<not> ip4_addr_ismulticast a \<or> find_index (\<lambda>b. a = b) (mc_addr ?x) = None")
      case True
      then have "\<not> ip4_addr_ismulticast a \<or> a \<notin> G" by (auto simp: find_index_None mc_groups_def assms(5))
      then have "mc_drop_spec a (0 \<le> fst left) G = (ATCMD_ERROR_INVAL, G)" using False by (auto simp: mc_drop_spec_def)
      moreover have "multicast_drop N k a s = (ATCMD_ERROR_INVAL, s)"
        using True False unfolding multicast_drop_def Let_def by (elim disjE) simp_all
      ultimately show ?thesis using mc_refines_same [OF assms(2) refl] assms(4,5) False by (simp add: mc_codes)
    next
      case mem: False
      then obtain j where j: "find_index (\<lambda>b. a = b) (mc_addr ?x) = Some j" by auto
      note P = mc_take [OF assms(2) j False]
      have "a \<in> G" using find_index_Some [OF j] False by (auto simp: mc_groups_def assms(5))
      then have sp: "mc_drop_spec a (0 \<le> fst left) G = (if ret = 0 then (ATCMD_SUCCESS, G - {a}) else (ATCMD_ERROR_FAIL, G))"
        using mem False acc by (simp add: mc_drop_spec_def)
      have dr: "multicast_drop N k a s = (if ret \<noteq> 0 then (ATCMD_ERROR_FAIL, s1) else (ATCMD_SUCCESS,
          set_entry k (?x\<lparr>mc_addr := (mc_addr ?x)[j := IPADDR_ANY], mc_group := mc_group ?x - 1\<rparr>) s1))"
        using mem False j o by (simp add: multicast_drop_def Let_def)
      show ?thesis
      proof (cases "ret = 0")
        case True
        then show ?thesis unfolding sp dr if_not_P [OF False] using mc_refines_set [OF P(1) assms(1) t1(1,2)] P(2) assms(5)
          by (simp add: mc_asked_def)
      next
        case nz: False
        then show ?thesis unfolding sp dr if_not_P [OF False] using mc_refines_same [OF assms(2) t1(1,2)] assms(5)
          by (simp add: mc_asked_def)
      qed
    qed
  qed
qed

text \<open>C19: \<open>AT+SMCAST\<close> keeps a set of at most three groups per socket: adding and dropping refine the operations
  on the set, result codes included, and the answer of the network to the request decides: it is asked, once and
  for exactly the group, only if the set allows the operation; the set changes exactly when it agrees, and a refusal
  is reported and leaves the set as it is.  Dropping the address \<open>0.0.0.0\<close> leaves each group of the set in turn and
  empties it whatever the network answers.  The slots and the count stay consistent and no other socket is touched.\<close>

theorem multicast_refines_set:
  fixes s :: "('f, 'n, 'z) sock"
  assumes "k < length (table s)" and "mc_ok (table s ! k)"
    and "fd = sk_id (table s ! k)" and "n = li_net (lwip_of s)" and "G = mc_groups (table s ! k)"
    and "joined = n_membership N fd True a n" and "left = n_membership N fd False a n"
  shows "mc_refines k s (mc_add_spec a (0 \<le> fst joined) G) (mc_asked (mc_add_spec a (0 \<le> fst joined) G) (snd joined) n)
      (multicast_add N k a s) \<and>
    mc_refines k s (mc_drop_spec a (0 \<le> fst left) G)
      (if a = IPADDR_ANY
       then fold (\<lambda>b n. snd (n_membership N fd False b n)) (filter (\<lambda>b. b \<noteq> IPADDR_ANY) (mc_addr (table s ! k))) n
       else mc_asked (mc_drop_spec a (0 \<le> fst left) G) (snd left) n)
      (multicast_drop N k a s)"
  using mc_add_refines [OF assms(1-6)] mc_drop_refines [OF assms(1-5,7)] by (rule conjI)

text \<open>A network that accepts puts the group into the set; one that refuses it leaves the set empty.\<close>

theorem multicast_refines_set_witness:
  "(\<lambda>(r, t). r = ATCMD_SUCCESS \<and> mc_groups (table t ! 0) = {0x010000e0})
     (multicast_add demo_net 0 0x010000e0 (demo_sock (\<lambda>_ :: int. [] :: string))) \<and>
   (\<lambda>(r, t). r = ATCMD_ERROR_FAIL \<and> mc_groups (table t ! 0) = {})
     (multicast_add (demo_net\<lparr>n_membership := \<lambda>fd b a n. (- ENOMEM, n)\<rparr>) 0 0x010000e0 (demo_sock (\<lambda>_. [])))"
proof -
  let ?s = "demo_sock (\<lambda>_ :: int. [] :: string)" and ?M = "demo_net\<lparr>n_membership := \<lambda>fd b a n. (- ENOMEM, n)\<rparr>"
  have x: "table ?s ! 0 = demo_entry" by (simp add: demo_sock_env_def)
  have ok: "mc_ok (table ?s ! 0)" unfolding x
    by (simp add: mc_ok_def demo_entry_def atcmd_socket_reset_def ATCMD_SOCKET_MULTICAST_GROUP_MAX_def IPADDR_ANY_def numeral_3_eq_3)
  have g: "mc_groups (table ?s ! 0) = {}" unfolding x
    by (auto simp: mc_groups_def demo_entry_def atcmd_socket_reset_def IPADDR_ANY_def)
  have k: "0 < length (table ?s)" by (simp add: demo_sock_env_def)
  have m: "ip4_addr_ismulticast 0x010000e0" by code_simp
  have "mc_add_spec 0x010000e0 True {} = (ATCMD_SUCCESS, {0x010000e0})" "mc_add_spec 0x010000e0 False {} = (ATCMD_ERROR_FAIL, {})"
    using m by (simp_all add: mc_add_spec_def)
  moreover have "\<not> 0 \<le> - ENOMEM" by (simp add: ENOMEM_def)
  moreover have "n_membership demo_net fd b c v = (0, v)" for fd b c v by (simp add: demo_net_def)
  moreover note multicast_refines_set [where N = demo_net and a = "0x010000e0", OF k ok refl refl g [symmetric] refl refl]
    multicast_refines_set [where N = ?M and a = "0x010000e0", OF k ok refl refl g [symmetric] refl refl]
  ultimately show ?thesis unfolding mc_refines_def by (auto split: prod.splits)
qed

end
