(* ===== verification/AtcmdSocketSend.thy ===== *)
theory AtcmdSocketSend
  imports AtcmdSocketProps
begin

text \<open>
  Sending over a connected stream socket: what the network gets, in what order and what the caller is told,
  through the send loop, the socket task and the wait of the command for it.
\<close>

subsection \<open>The send loop\<close>

text \<open>
  What the sockets API promises for a stream: \<open>send\<close> takes a beginning of the data and reports its length, or fails and
  takes nothing, and no other call adds to the stream.  \<open>out n\<close> are the bytes the stream has taken so far.
\<close>

definition stream_law :: "'n net_api \<Rightarrow> int \<Rightarrow> ('n \<Rightarrow> string) \<Rightarrow> bool" where
  "stream_law N fd out \<longleftrightarrow>
     (\<forall>d n. fst (n_send N fd d n) \<le> int (length d) \<and> out (snd (n_send N fd d n)) = out n @ take (nat (fst (n_send N fd d n))) d) \<and>
     (\<forall>f opt n. fst (fst (n_getopt N f opt n)) \<le> 0 \<and> out (snd (n_getopt N f opt n)) = out n) \<and> (\<forall>f n. out (snd (n_close N f n)) = out n) \<and>
     (\<forall>ms n. out (n_delay N ms n) = out n)"

text \<open>A network that takes at least one byte at a time.\<close>

definition steady :: "'n net_api \<Rightarrow> int \<Rightarrow> bool" where
  "steady N fd \<longleftrightarrow> (\<forall>d n. d \<noteq> [] \<longrightarrow> 0 < fst (n_send N fd d n)) \<and> (\<forall>n. fst (n_getopt N fd SO_TYPE n) = (0, SOCK_STREAM))"

abbreviation taken :: "('n \<Rightarrow> string) \<Rightarrow> ('f, 'n, 'z) sock \<Rightarrow> string" where
  "taken out s \<equiv> out (li_net (lwip_of s))"

lemma send_tcp_takes:
  assumes "stream_law N fd out"
  shows "fst (lwip_socket_send_tcp N fd d w) \<le> int (length d) \<and>
    out (li_net (snd (lwip_socket_send_tcp N fd d w))) = out (li_net w) @ take (nat (fst (lwip_socket_send_tcp N fd d w))) d"
proof -
  obtain r ty n1 where g: "n_getopt N fd SO_TYPE (li_net w) = ((r, ty), n1)" by (metis surj_pair)
  have o: "out n1 = out (li_net w)" "r \<le> 0" using assms g unfolding stream_law_def by (metis fst_conv snd_conv)+
  show ?thesis
  proof (cases "li_on w \<and> d \<noteq> [] \<and> r = 0 \<and> ty = SOCK_STREAM")
    case True
    have "fst (n_send N fd d n1) \<le> int (length d) \<and> out (snd (n_send N fd d n1)) = out n1 @ take (nat (fst (n_send N fd d n1))) d"
      using assms unfolding stream_law_def by blast
    then show ?thesis using True g o
      by (simp add: lwip_socket_send_tcp_def lwip_socket_get_type_def net_query_def net_call_def case_prod_beta)
  next
    case False
    have "fst (lwip_socket_send_tcp N fd d w) \<le> 0 \<and> out (li_net (snd (lwip_socket_send_tcp N fd d w))) = out (li_net w)"
      using False g o by (auto simp: lwip_socket_send_tcp_def lwip_socket_get_type_def net_query_def lwip_socket_error_def
          EPERM_def EINVAL_def)
    then show ?thesis by simp
  qed
qed

lemma steady_sends: "steady N fd \<Longrightarrow> li_on w \<Longrightarrow> d \<noteq> [] \<Longrightarrow> 0 < fst (lwip_socket_send_tcp N fd d w)"
  by (simp add: steady_def lwip_socket_send_tcp_def lwip_socket_get_type_def net_query_def net_call_def case_prod_beta)

lemma lwip_net_errno [simp]: "li_net ((w\<lparr>li_erange := b\<rparr>)) = li_net w" by simp

lemma send_piece_takes:
  assumes "stream_law N fd out" and "sk_protocol sk = PROTO_TCP" and "sk_id sk = fd" and "send_piece N sk via d s = (r, t)"
  shows "r \<le> int (length d)" "taken out t = taken out s @ take (nat r) d" "netless t = netless s"
    "g_out t = g_out s" "steady N fd \<Longrightarrow> li_on (lwip_of s) \<Longrightarrow> d \<noteq> [] \<Longrightarrow> 0 < r"
proof -
  have r: "r = fst (send_piece N sk via d s)" "t = snd (send_piece N sk via d s)" using assms(4) by simp_all
  let ?w = "(lwip_of s)\<lparr>li_erange := be_errno (g_env s)\<rparr>"
  have p: "send_piece N sk via d s = on_lwip (lwip_socket_send_tcp N fd d) s" using assms(2,3) by (simp add: send_piece_def)
  show "netless t = netless s" "g_out t = g_out s" unfolding r by (simp_all add: p)
  show "steady N fd \<Longrightarrow> li_on (lwip_of s) \<Longrightarrow> d \<noteq> [] \<Longrightarrow> 0 < r" using steady_sends [of N fd ?w d] unfolding r p by (simp add: on_lwip_fst)
  show "r \<le> int (length d)" "taken out t = taken out s @ take (nat r) d"
    using send_tcp_takes [OF assms(1), of d ?w] unfolding r p by (simp_all add: on_lwip_env on_lwip_fst)
qed

lemma net_close_all_out: "stream_law N fd out \<Longrightarrow> out (net_close_all N fds n) = out n"
  unfolding net_close_all_def by (induction fds arbitrary: n) (simp_all add: stream_law_def)

lemma pause_out: "stream_law N fd out \<Longrightarrow> taken out (net_pause N ms s) = taken out s"
  by (simp add: net_pause_def stream_law_def)

text \<open>
  What the loop leaves: the network has a prefix; the entry is as before, or, after an error that ends the
  connection, reset and its event set.
\<close>

definition send_outcome :: "'n net_api \<Rightarrow> int \<Rightarrow> nat \<Rightarrow> int \<Rightarrow> ('f, 'n, 'z) sock \<Rightarrow> ('f, 'n, 'z) sock \<Rightarrow> bool" where
  "send_outcome N fd k ret s t \<longleftrightarrow> (\<not> closing_error ret \<longrightarrow> g_out t = g_out s) \<and> (steady N fd \<longrightarrow> ret = 0) \<and> fds_read (lwip_of t) \<subseteq> fds_read (lwip_of s) \<and> li_on (lwip_of t) \<and> so_req (g_env t) = so_req (g_env s) \<and> so_stuck (g_env t) = so_stuck (g_env s) \<and>
     so_fault (g_env t) = so_fault (g_env s) \<and> so_event_send (g_env t) = so_event_send (g_env s) \<and>
     (if closing_error ret
      then table t = closed_table fd (table s) \<and> fds_write (lwip_of t) = fds_write (lwip_of s) - {fd} \<and>
        (fd \<in> fds_write (lwip_of s) \<longrightarrow> fd \<in> li_events (lwip_of t))
      else table t = table s \<and> fds_write (lwip_of t) = fds_write (lwip_of s) \<and> li_events (lwip_of t) = li_events (lwip_of s))"

lemma maskedD:
  assumes "masked e = masked f"
  shows "so_req e = so_req f" "so_stuck e = so_stuck f" "so_fault e = so_fault f" "so_event_send e = so_event_send f"
    "timeout_socket e = timeout_socket f" "so_passive e = so_passive f" "so_verbose e = so_verbose f" "so_rxd e = so_rxd f"
  using assms unfolding masked_def by (cases e; cases f; simp)+

lemma send_loop_outcome:
  assumes L: "stream_law N fd out"
  shows "k < length (table s) \<Longrightarrow> sk_id (table s ! k) = fd \<Longrightarrow> sk_protocol (table s ! k) = PROTO_TCP \<Longrightarrow> 0 \<le> fd \<Longrightarrow>
    li_on (lwip_of s) \<Longrightarrow> i \<le> length data \<Longrightarrow>
    \<exists>ret j t. send_loop N k via data i retry s = (ret, j, t) \<and> i \<le> j \<and> j \<le> length data \<and> ret \<le> 0 \<and>
      (ret = 0 \<longleftrightarrow> j = length data) \<and> taken out t = taken out s @ take (j - i) (drop i data) \<and> send_outcome N fd k ret s t"
  using L
proof (induction N k via data i retry s rule: send_loop.induct)
  case (1 N k via data i retry s)
  note L = 1(9)
  show ?case
  proof (cases "i \<ge> length data")
    case True
    then show ?thesis using 1(3-8)
      by (subst send_loop.simps) (simp add: send_outcome_def closing_error_def errno_defs)
  next
    case False
    obtain r s1 where p: "send_piece N (table s ! k) via (drop i data) s = (r, s1)" by fastforce
    note S = send_piece_takes [OF L 1(5,4) p]
    have n: "table s1 = table s" "g_out s1 = g_out s" "li_on (lwip_of s1)" "so_req (g_env s1) = so_req (g_env s)" "so_stuck (g_env s1) = so_stuck (g_env s)"
        "so_fault (g_env s1) = so_fault (g_env s)" "so_event_send (g_env s1) = so_event_send (g_env s)"
        "fds_read (lwip_of s1) = fds_read (lwip_of s)" "fds_write (lwip_of s1) = fds_write (lwip_of s)" "li_events (lwip_of s1) = li_events (lwip_of s)"
      using netlessD [OF S(3)] glueD [OF netlessD(1) [OF S(3)]] 1(7) S(4) by simp_all
    have carry: "send_outcome N fd k ret s2 t \<Longrightarrow> table s2 = table s \<Longrightarrow> g_out s2 = g_out s \<Longrightarrow> so_req (g_env s2) = so_req (g_env s) \<Longrightarrow>
        so_stuck (g_env s2) = so_stuck (g_env s) \<Longrightarrow> so_fault (g_env s2) = so_fault (g_env s) \<Longrightarrow>
        so_event_send (g_env s2) = so_event_send (g_env s) \<Longrightarrow> fds_write (lwip_of s2) = fds_write (lwip_of s) \<Longrightarrow>
        fds_read (lwip_of s2) = fds_read (lwip_of s) \<Longrightarrow>
        li_events (lwip_of s2) = li_events (lwip_of s) \<Longrightarrow> send_outcome N fd k ret s t" for ret s2 t
      by (simp add: send_outcome_def)
    show ?thesis
    proof (cases "r > 0")
      case True
      have le: "i + nat r \<le> length data" using S(1) True False by simp
      obtain ret j t where t: "send_loop N k via data (i + nat r) retry s1 = (ret, j, t)" "i + nat r \<le> j" "j \<le> length data" "ret \<le> 0"
          "ret = 0 \<longleftrightarrow> j = length data" "taken out t = taken out s1 @ take (j - (i + nat r)) (drop (i + nat r) data)" "send_outcome N fd k ret s1 t"
        using 1(1) [OF False p [symmetric] True] 1(3-7) n le L by auto
      have "take (nat r) (drop i data) @ take (j - (i + nat r)) (drop (i + nat r) data) = take (j - i) (drop i data)"
        using t(2) take_add [of "nat r" "j - (i + nat r)" "drop i data"] by (simp add: add.commute)
      moreover have "send_loop N k via data i retry s = (ret, j, t)" using False p True t(1) by (subst send_loop.simps) simp
      ultimately show ?thesis using t S(2) carry [OF t(7)] n by auto
    next
      case r0: False
      have ns: "\<not> steady N fd" using S(5) r0 1(7) False by auto
      define ret where "ret = (if r = 0 then - ENOTCONN else r)"
      have ret: "ret < 0" using r0 by (auto simp: ret_def ENOTCONN_def)
      have o1: "taken out s1 = taken out s" using S(2) r0 by simp
      have st: "send_loop N k via data i retry s =
        (if closing_error ret then (ret, i, snd (atcmd_socket_close N (sk_id (table s1 ! k)) ret s1))
         else if (ret = - ENOMEM \<or> ret = - ENOBUFS \<or> ret = - EWOULDBLOCK) \<and> Suc retry < SEND_RETRY_MAX then
           send_loop N k via data i (Suc retry) (net_pause N 10 s1)
         else (ret, i, s1))" using False p r0 by (subst send_loop.simps) (simp add: ret_def Let_def)
      consider "closing_error ret" | "\<not> closing_error ret"
          "(ret = - ENOMEM \<or> ret = - ENOBUFS \<or> ret = - EWOULDBLOCK) \<and> Suc retry < SEND_RETRY_MAX"
        | "\<not> closing_error ret" "\<not> ((ret = - ENOMEM \<or> ret = - ENOBUFS \<or> ret = - EWOULDBLOCK) \<and> Suc retry < SEND_RETRY_MAX)" by blast
      then show ?thesis
      proof cases
        case 1
        let ?t = "snd (atcmd_socket_close N fd ret s1)"
        note C = close_effect [where N = N and i = fd and err = ret, OF n(3)]
        have ids: "set (chosen_ids fd (table s1)) = {fd}"
          using \<open>k < length (table s)\<close> \<open>sk_id (table s ! k) = fd\<close> \<open>0 \<le> fd\<close> n(1)
          by (force simp: chosen_ids_def chosen_def in_set_conv_nth)
        have "send_outcome N fd k ret s ?t" unfolding send_outcome_def using 1 C(1,2,5) C(4) maskedD [OF C(6)] n ids ns
          by (auto simp: glue_fds_def)
        moreover have "taken out ?t = taken out s" using C(3) net_close_all_out [OF L] o1 by simp
        moreover have "send_loop N k via data i retry s = (ret, i, ?t)" using st 1 n(1) \<open>sk_id (table s ! k) = fd\<close> by simp
        ultimately show ?thesis using ret False by auto
      next
        case 2
        let ?s2 = "net_pause N 10 s1"
        have n2: "table ?s2 = table s" "g_out ?s2 = g_out s" "li_on (lwip_of ?s2)" "so_req (g_env ?s2) = so_req (g_env s)" "so_stuck (g_env ?s2) = so_stuck (g_env s)"
          "so_fault (g_env ?s2) = so_fault (g_env s)" "so_event_send (g_env ?s2) = so_event_send (g_env s)"
          "fds_read (lwip_of ?s2) = fds_read (lwip_of s)" "fds_write (lwip_of ?s2) = fds_write (lwip_of s)" "li_events (lwip_of ?s2) = li_events (lwip_of s)"
          using n by (simp_all add: net_pause_def)
        obtain ret' j t where t: "send_loop N k via data i (Suc retry) ?s2 = (ret', j, t)" "i \<le> j" "j \<le> length data" "ret' \<le> 0"
          "ret' = 0 \<longleftrightarrow> j = length data" "taken out t = taken out ?s2 @ take (j - i) (drop i data)" "send_outcome N fd k ret' ?s2 t"
          using "1.IH"(2) [OF False p [symmetric] r0 ret_def 2(1) 2(2)] "1.prems" n2 L by auto
        show ?thesis using t st 2 carry [OF t(7)] n2 pause_out [OF L, of 10 s1] o1 by auto
      next
        case 3
        have "send_outcome N fd k ret s s1" using 3 n ns by (simp add: send_outcome_def)
        then show ?thesis using st 3 ret False o1 by auto
      qed
    qed
  qed
qed

subsection \<open>The socket task when only the sender's descriptor is ready\<close>

definition only_writable :: "'n net_api \<Rightarrow> int \<Rightarrow> ('n \<Rightarrow> string) \<Rightarrow> bool" where
  "only_writable N fd out \<longleftrightarrow>
     (\<forall>k rd n. fst (n_select N k rd {fd} n) = (1, {}, {fd}) \<and> out (snd (n_select N k rd {fd} n)) = out n)"

lemma fold_last_ge:
  "c \<le> m \<Longrightarrow> \<forall>x \<in> set xs. c \<le> nat (x + 1) \<Longrightarrow> c \<le> fold (\<lambda>x m. if Q x then nat (x + 1) else m) xs m"
  by (induction xs arbitrary: m) auto

lemma fds_get_covers:
  assumes "fd \<in> fds_read w \<or> fd \<in> fds_write w" and "0 \<le> fd" and "fd < 64"
  shows "\<exists>m. lwip_socket_fds_get w = (m, fds_read w, fds_write w) \<and> nat (fd + 1) \<le> m"
proof -
  have "fd \<in> set [0..FD_SETSIZE - 1]" using assms by (simp add: FD_SETSIZE_def)
  then obtain ys zs where s: "[0..FD_SETSIZE - 1] = ys @ fd # zs" by (meson split_list)
  have "sorted (ys @ fd # zs)" using s [symmetric] by simp
  then have "\<forall>x \<in> set zs. nat (fd + 1) \<le> nat (x + 1)" by (auto simp: sorted_append)
  then have "nat (fd + 1) \<le> fold (\<lambda>x m. if x \<in> fds_read w \<or> x \<in> fds_write w then nat (x + 1) else m) zs (nat (fd + 1))"
    by (intro fold_last_ge) simp_all
  then show ?thesis using assms(1) by (simp add: lwip_socket_fds_get_def s)
qed

lemma task_fds_none: "ret \<le> 0 \<Longrightarrow> task_fds N rd wr ret fds s = s"
  by (cases fds) simp_all

lemma task_fds_only:
  "fd \<in> set fds \<Longrightarrow> task_fds N {} {fd} 1 fds s = atcmd_socket_send_handler N fd s"
  by (induction fds) (auto simp: task_fds_none)

lemma task_only:
  assumes O: "only_writable N fd out" and on: "li_on (lwip_of s)" and w: "fds_write (lwip_of s) = {fd}"
    and fd: "0 \<le> fd" "fd < 32" and rd: "fds_read (lwip_of s) \<subseteq> {0..<32}"
  shows "\<exists>s1. lwip_socket_task N s = net_pause N 1 (atcmd_socket_send_handler N fd s1) \<and> netless s1 = netless s \<and>
    taken out s1 = taken out s \<and> g_out s1 = g_out s"
proof -
  obtain m where m: "lwip_socket_fds_get (lwip_of s) = (m, fds_read (lwip_of s), {fd})" "nat (fd + 1) \<le> m"
    using fds_get_covers [of fd "lwip_of s"] w fd by auto
  have wr: "fd_word {fd} = {fd}" using fd by (auto simp: fd_word_def)
  have rd': "fds_read (lwip_of s) = {}" if "fd_word (fds_read (lwip_of s)) = {}"
    using that rd by (force simp: fd_word_def)
  have r: "(if fd_word (fds_read (lwip_of s)) = {} then {} else fds_read (lwip_of s)) = fds_read (lwip_of s)"
    "(if fd_word (fds_read (lwip_of s)) = {} then fds_read (lwip_of s) else {}) = {}" using rd' by auto
  let ?q = "on_lwip (net_query (n_select N m (fds_read (lwip_of s)) {fd})) s"
  have q1: "fst ?q = (1, {}, {fd})"
    using O by (simp add: on_lwip_fst net_query_def case_prod_beta only_writable_def)
  have q3: "taken out (snd ?q) = taken out s"
    using O by (simp add: on_lwip_env net_query_def case_prod_beta only_writable_def)
  obtain s1 where q: "?q = ((1, {}, {fd}), s1)" using q1 by (metis prod.collapse)
  have mem: "fd \<in> set [0..int m - 1]" "m \<noteq> 0" using m(2) fd by auto
  have "lwip_socket_task N s = net_pause N 1 (task_fds N {} {fd} 1 [0..int m - 1] s1)"
    unfolding lwip_socket_task_def m(1) prod.case Let_def wr r if_not_P [OF mem(2)]
    by (simp add: q on r wr)
  also have "\<dots> = net_pause N 1 (atcmd_socket_send_handler N fd s1)" unfolding task_fds_only [OF mem(1)] ..
  finally have "lwip_socket_task N s = net_pause N 1 (atcmd_socket_send_handler N fd s1)" .
  moreover have "netless s1 = netless s" using netless_on_lwip [of "net_query (n_select N m (fds_read (lwip_of s)) {fd})" s] q by simp
  moreover have "g_out s1 = g_out s" using on_lwip_shell(2) [of "net_query (n_select N m (fds_read (lwip_of s)) {fd})" s] q by simp
  ultimately show ?thesis using q3 q by auto
qed

subsection \<open>A command that sends\<close>

lemma direct_outcome:
  assumes "stream_law N fd out" and "k < length (table s)" and "sk_id (table s ! k) = fd" and "sk_protocol (table s ! k) = PROTO_TCP"
    and "0 \<le> fd" and "li_on (lwip_of s)"
  shows "\<exists>ret j t. send_data_direct N k data s = ((ret, int j), t) \<and> j \<le> length data \<and> ret \<le> 0 \<and>
      (ret = 0 \<longleftrightarrow> j = length data) \<and> taken out t = taken out s @ take j data \<and> send_outcome N fd k ret s t"
proof -
  obtain ret j t where t: "send_loop N k (send_via_netif N (table s ! k) s) data 0 0 s = (ret, j, t)" "j \<le> length data" "ret \<le> 0"
      "ret = 0 \<longleftrightarrow> j = length data" "taken out t = taken out s @ take j data" "send_outcome N fd k ret s t"
    using send_loop_outcome [where N = N and k = k and i = 0 and data = data and retry = 0 and via = "send_via_netif N (table s ! k) s",
        OF assms(1-6)] by auto
  then show ?thesis by (auto simp: send_data_direct_def send_outcome_def)
qed

text \<open>The handler of a pending request: the outcome is in \<open>g_atcmd_socket_event_send\<close>, the event is set.\<close>

lemma handler_outcome:
  assumes L: "stream_law N fd out" and k: "k < length (table s)" "sk_id (table s ! k) = fd" "sk_protocol (table s ! k) = PROTO_TCP"
    and fd: "0 \<le> fd" and on: "li_on (lwip_of s)" and r: "rq_socket (so_req (g_env s)) = Some k" and w: "fd \<in> fds_write (lwip_of s)"
  defines "t \<equiv> atcmd_socket_send_handler N fd s" and "data \<equiv> rq_data (so_req (g_env s))"
  shows "\<exists>ret j. rq_ret (so_req (g_env t)) = ret \<and> rq_done (so_req (g_env t)) = int j \<and> j \<le> length data \<and> ret \<le> 0 \<and>
    (ret = 0 \<longleftrightarrow> j = length data) \<and> taken out t = taken out s @ take j data \<and> fd \<in> li_events (lwip_of t) \<and>
    li_on (lwip_of t) \<and> fds_write (lwip_of t) = fds_write (lwip_of s) - {fd} \<and> so_stuck (g_env t) = so_stuck (g_env s) \<and>
    so_fault (g_env t) = so_fault (g_env s) \<and>
    (steady N fd \<longrightarrow> ret = 0) \<and> (\<not> closing_error ret \<longrightarrow> g_out t = g_out s) \<and>
    so_event_send (g_env t) = so_event_send (g_env s) \<and> fds_read (lwip_of t) \<subseteq> fds_read (lwip_of s) \<and>
    table t = (if closing_error ret then closed_table fd (table s) else table s)"
proof -
  obtain ret j u where u: "send_data_direct N k data s = ((ret, int j), u)" "j \<le> length data" "ret \<le> 0"
      "ret = 0 \<longleftrightarrow> j = length data" "taken out u = taken out s @ take j data" "send_outcome N fd k ret s u"
    using direct_outcome [where data = data, OF L k fd on] by blast
  let ?v = "set_req \<lparr>rq_socket = None, rq_data = [], rq_ret = ret, rq_done = int j\<rparr> u"
  have t: "t = snd (on_lwip (lwip_socket_send_done fd) ?v)"
    using r k(2) u(1) by (simp add: t_def data_def atcmd_socket_send_handler_def Let_def)
  have on2: "li_on ((lwip_of ?v)\<lparr>li_erange := be_errno (g_env ?v)\<rparr>)" using u(6) by (simp add: send_outcome_def set_req_def)
  note D = send_done_sel [OF on2, of fd]
  have e: "lwip_of t = snd (lwip_socket_send_done fd ((lwip_of ?v)\<lparr>li_erange := be_errno (g_env ?v)\<rparr>))" "so_req (g_env t) = so_req (g_env ?v)"
    "table t = table u" "so_stuck (g_env t) = so_stuck (g_env u)" "so_fault (g_env t) = so_fault (g_env u)"
    "so_event_send (g_env t) = so_event_send (g_env u)"
    unfolding t by (simp_all add: on_lwip_env set_req_def)
  have v: "lwip_of ?v = lwip_of u" "so_req (g_env ?v) = \<lparr>rq_socket = None, rq_data = [], rq_ret = ret, rq_done = int j\<rparr>"
    by (simp_all add: set_req_def)
  have x: "fd \<in> li_events (lwip_of t)" "fds_write (lwip_of t) = fds_write (lwip_of s) - {fd}"
    using D e(1) v u(6) w by (auto simp: send_outcome_def split: if_splits)
  have y: "taken out t = taken out u" "li_on (lwip_of t)" using D e(1) v by simp_all
  have z: "table t = (if closing_error ret then closed_table fd (table s) else table s)" "so_stuck (g_env t) = so_stuck (g_env s)"
    "so_fault (g_env t) = so_fault (g_env s)" "steady N fd \<longrightarrow> ret = 0" "so_event_send (g_env t) = so_event_send (g_env s)"
    using u(6) e by (simp_all add: send_outcome_def)
  have z3: "fds_read (lwip_of t) \<subseteq> fds_read (lwip_of s)" using D e(1) v u(6) by (simp add: send_outcome_def)
  have "g_out t = g_out u" unfolding t by (simp add: set_req_def)
  then have z2: "\<not> closing_error ret \<longrightarrow> g_out t = g_out s" using u(6) by (simp add: send_outcome_def)
  show ?thesis using u(2-5) x y z z2 z3 e(2) v(2) by auto
qed


text \<open>What the sender needs: an open stream entry, and, when the task does the sending, a task that gets to it.\<close>

definition sender_ready :: "'n net_api \<Rightarrow> int \<Rightarrow> ('n \<Rightarrow> string) \<Rightarrow> nat \<Rightarrow> ('f, 'n, 'z) sock \<Rightarrow> bool" where
  "sender_ready N fd out k s \<longleftrightarrow> stream_law N fd out \<and> 0 \<le> fd \<and> search_id fd s = Some k \<and>
     sk_protocol (table s ! k) = PROTO_TCP \<and> li_on (lwip_of s) \<and>
     (so_event_send (g_env s) \<longrightarrow> only_writable N fd out \<and> 0 < n_passes N \<and> rq_socket (so_req (g_env s)) = None \<and> fd < 32 \<and>
        fds_write (lwip_of s) = {} \<and> fd \<notin> li_events (lwip_of s) \<and> fds_read (lwip_of s) \<subseteq> {0..<32})"

lemma search_entry:
  assumes "search_id fd s = Some k" and "0 \<le> fd"
  shows "k < length (table s)" "sk_id (table s ! k) = fd"
  using find_index_Some [OF assms(1) [unfolded atcmd_socket_search_def]] assms(2) by (auto simp: socket_matches_def)

lemma wait_event_here: "fd \<in> li_events (lwip_of s) \<Longrightarrow> wait_event N fd n s = s"
  by (cases n) simp_all

lemma on_env_env [simp]: "g_env (net_pause N ms s) = (g_env s)\<lparr>so_lwip := (lwip_of s)\<lparr>li_net := n_delay N ms (li_net (lwip_of s))\<rparr>\<rparr>"
  by (simp add: net_pause_def)

text \<open>The wait for the task: one turn of it serves the request.\<close>

lemma lwip_request_outcome:
  assumes L: "stream_law N fd out" and O: "only_writable N fd out" "0 < n_passes N"
    and k: "k < length (table s)" "sk_id (table s ! k) = fd" "sk_protocol (table s ! k) = PROTO_TCP"
    and fd: "0 \<le> fd" "fd < 32" and on: "li_on (lwip_of s)" and r: "rq_socket (so_req (g_env s)) = Some k"
    and w: "fds_write (lwip_of s) = {}" "fd \<notin> li_events (lwip_of s)" "fds_read (lwip_of s) \<subseteq> {0..<32}"
  shows "\<exists>t ret j. lwip_socket_send_request N fd tm s = (0, t) \<and> rq_ret (so_req (g_env t)) = ret \<and> rq_done (so_req (g_env t)) = int j \<and>
    j \<le> length (rq_data (so_req (g_env s))) \<and> (ret = 0 \<longleftrightarrow> j = length (rq_data (so_req (g_env s)))) \<and> ret \<le> 0 \<and>
    taken out t = taken out s @ take j (rq_data (so_req (g_env s))) \<and> fds_write (lwip_of t) = {} \<and> fd \<notin> li_events (lwip_of t) \<and>
    li_on (lwip_of t) \<and> so_stuck (g_env t) = so_stuck (g_env s) \<and> so_fault (g_env t) = so_fault (g_env s) \<and>
    (steady N fd \<longrightarrow> ret = 0) \<and> (\<not> closing_error ret \<longrightarrow> g_out t = g_out s) \<and>
    so_event_send (g_env t) = so_event_send (g_env s) \<and> fds_read (lwip_of t) \<subseteq> fds_read (lwip_of s) \<and>
    table t = (if closing_error ret then closed_table fd (table s) else table s)"
proof -
  let ?data = "rq_data (so_req (g_env s))"
  obtain s1 where b: "on_lwip (send_request_begin fd) s = (None, s1)"
    and s1: "lwip_of s1 = (lwip_of s)\<lparr>li_erange := be_errno (g_env s), fds_write := {fd}\<rparr>" "table s1 = table s" "so_req (g_env s1) = so_req (g_env s)"
      "so_stuck (g_env s1) = so_stuck (g_env s)" "so_fault (g_env s1) = so_fault (g_env s)" "g_out s1 = g_out s"
      "so_event_send (g_env s1) = so_event_send (g_env s)"
    using on w(1) by (simp add: on_lwip_def send_request_begin_def on_env_def)
  obtain s2 where t2: "lwip_socket_task N s1 = net_pause N 1 (atcmd_socket_send_handler N fd s2)"
    and n2: "netless s2 = netless s1" "taken out s2 = taken out s1" "g_out s2 = g_out s1"
    using task_only [OF O(1), of s1] on fd w(3) s1(1) by auto
  note g = netlessD [OF n2(1)] and gl = glueD [OF netlessD(1) [OF n2(1)]]
  let ?t2 = "atcmd_socket_send_handler N fd s2"
  have k2: "k < length (table s2)" "sk_id (table s2 ! k) = fd" "sk_protocol (table s2 ! k) = PROTO_TCP" "li_on (lwip_of s2)"
    "rq_socket (so_req (g_env s2)) = Some k" "fd \<in> fds_write (lwip_of s2)"
    using k on r s1 g(2,3) gl(1,3) by simp_all
  have c: "rq_data (so_req (g_env s2)) = ?data" "fds_write (lwip_of s2) - {fd} = {}" "so_stuck (g_env s2) = so_stuck (g_env s)"
    "so_fault (g_env s2) = so_fault (g_env s)" "table s2 = table s" "g_out s2 = g_out s"
    "so_event_send (g_env s2) = so_event_send (g_env s)" "fds_read (lwip_of s2) = fds_read (lwip_of s)"
    using s1 g(2,3,8,9,10) gl(2,3) n2(3) by simp_all
  obtain ret j where h: "rq_ret (so_req (g_env ?t2)) = ret" "rq_done (so_req (g_env ?t2)) = int j" "j \<le> length ?data" "ret \<le> 0"
      "ret = 0 \<longleftrightarrow> j = length ?data" "taken out ?t2 = taken out s2 @ take j ?data" "fd \<in> li_events (lwip_of ?t2)" "li_on (lwip_of ?t2)"
      "fds_write (lwip_of ?t2) = {}" "so_stuck (g_env ?t2) = so_stuck (g_env s)" "so_fault (g_env ?t2) = so_fault (g_env s)"
      "steady N fd \<longrightarrow> ret = 0" "\<not> closing_error ret \<longrightarrow> g_out ?t2 = g_out s"
      "so_event_send (g_env ?t2) = so_event_send (g_env s)" "fds_read (lwip_of ?t2) \<subseteq> fds_read (lwip_of s)"
      "table ?t2 = (if closing_error ret then closed_table fd (table s) else table s)"
    using handler_outcome [OF L k2(1-3) fd(1) k2(4-6)] unfolding c by blast
  let ?t3 = "net_pause N 1 ?t2" and ?t = "snd (on_lwip (send_request_end fd) (net_pause N 1 ?t2))"
  obtain p where p: "n_passes N = Suc p" using O(2) gr0_implies_Suc by blast
  have wait: "wait_event N fd (n_passes N) s1 = ?t3" using t2 h(7) s1(1) w(2) by (simp add: p wait_event_here)
  have e: "lwip_socket_send_request N fd tm s = (0, ?t)"
    using h(7) by (simp add: lwip_socket_send_request_def b wait Let_def prod_eq_iff on_lwip_fst send_request_end_def)
  have t: "fds_write (lwip_of ?t) = {}" "fd \<notin> li_events (lwip_of ?t)" "li_on (lwip_of ?t)" "taken out ?t = taken out ?t2"
    "fds_read (lwip_of ?t) = fds_read (lwip_of ?t2)"
    using h(7-9) pause_out [OF L, of 1 ?t2] by (simp_all add: on_lwip_env send_request_end_def)
  have u: "table ?t = table ?t2" "so_req (g_env ?t) = so_req (g_env ?t2)" "so_stuck (g_env ?t) = so_stuck (g_env ?t2)"
    "so_fault (g_env ?t) = so_fault (g_env ?t2)" "g_out ?t = g_out ?t2" "so_event_send (g_env ?t) = so_event_send (g_env ?t2)"
    by (simp_all add: on_lwip_env net_pause_def)
  show ?thesis using e h t u n2(2) s1(1) by auto
qed


text \<open>Looking up the entry again before sending leaves it as it is.\<close>

lemma same_entry: "search_id fd s = Some k \<Longrightarrow> 0 \<le> fd \<Longrightarrow> set_entry k (table s ! k) s = s"
  by (simp add: set_entry_def on_env_def)

lemma set_req_out [simp]: "g_out (set_req q s) = g_out s"
  by (simp add: set_req_def)

lemma closing_nonzero: "closing_error r \<Longrightarrow> r \<noteq> 0"
  by (auto simp: closing_error_def errno_defs)

lemma send_entry_same:
  assumes "search_id fd s = Some k" and "0 \<le> fd" and "data \<noteq> []" and "sk_protocol (table s ! k) \<noteq> PROTO_NONE"
  shows "send_data_entry N k data s =
    (case (if so_event_send (g_env (on_env (\<lambda>e. e\<lparr>so_sending := True\<rparr>) s))
           then atcmd_socket_send_request N k data (on_env (\<lambda>e. e\<lparr>so_sending := True\<rparr>) s)
           else send_data_direct N k data (on_env (\<lambda>e. e\<lparr>so_sending := True\<rparr>) s)) of (r, s2) \<Rightarrow>
       (r, on_env (\<lambda>e. e\<lparr>so_sending := False\<rparr>) s2))"
proof -
  have n: "\<not> (sk_remote_port x = 0 \<and> sk_remote_port x > 0)" for x :: atcmd_socket by simp
  have x: "(y\<lparr>sk_protocol := sk_protocol y, sk_local_port := sk_local_port y\<rparr>) = y" for y :: atcmd_socket by simp
  show ?thesis
    unfolding send_data_entry_def Let_def search_entry(2) [OF assms(1,2)] assms(1) option.case x if_not_P [OF n]
      same_entry [OF assms(1,2)] if_not_P [OF assms(3)] if_not_P [OF assms(4)] by simp
qed

lemma ready_again:
  assumes "sender_ready N fd out k s" and "table t = table s" and "li_on (lwip_of t)" and "so_event_send (g_env t) = so_event_send (g_env s)"
    and "so_event_send (g_env s) \<Longrightarrow> rq_socket (so_req (g_env t)) = None \<and> fds_write (lwip_of t) = {} \<and> fd \<notin> li_events (lwip_of t) \<and>
      fds_read (lwip_of t) \<subseteq> fds_read (lwip_of s)"
  shows "sender_ready N fd out k t"
  using assms by (auto simp: sender_ready_def atcmd_socket_search_def)

lemma send_data_outcome:
  fixes s :: "('f, 'n, 'z) sock"
  assumes "sender_ready N fd out k s" and "data \<noteq> []"
  shows "\<exists>m t. atcmd_socket_send_data N fd data s = (int m, t) \<and> m \<le> length data \<and> taken out t = taken out s @ take m data \<and>
    (steady N fd \<longrightarrow> m = length data) \<and>
    (table t = table s \<and> g_out t = g_out s \<or> m < length data \<and> table t = map (\<lambda>x. if sk_id x = fd then atcmd_socket_reset else x) (table s)) \<and>
    rq_socket (so_req (g_env t)) = rq_socket (so_req (g_env s)) \<and> \<not> so_sending (g_env t) \<and>
    (so_event_send (g_env s) \<longrightarrow> fds_write (lwip_of t) = {} \<and> fd \<notin> li_events (lwip_of t)) \<and>
    (table t = table s \<longrightarrow> sender_ready N fd out k t) \<and>
    so_stuck (g_env t) = so_stuck (g_env s) \<and> so_fault (g_env t) = so_fault (g_env s)"
proof -
  have A: "stream_law N fd out" "0 \<le> fd" "search_id fd s = Some k" "sk_protocol (table s ! k) = PROTO_TCP" "li_on (lwip_of s)"
    using assms(1) by (simp_all add: sender_ready_def)
  note E = search_entry [OF A(3,2)]
  let ?s1 = "on_env (\<lambda>e. e\<lparr>so_sending := True\<rparr>) s"
  have c: "closed_table fd (table s) = map (\<lambda>x. if sk_id x = fd then atcmd_socket_reset else x) (table s)"
    using A(2) by (auto simp: closed_table_def chosen_def)
  obtain r t where r: "(if so_event_send (g_env ?s1) then atcmd_socket_send_request N k data ?s1 else send_data_direct N k data ?s1) = (r, t)"
    by fastforce
  have e: "atcmd_socket_send_data N fd data s = (snd r, on_env (\<lambda>e. e\<lparr>so_sending := False\<rparr>) t)"
    using send_entry_same [where N = N, OF A(3,2) assms(2)] A(3,4) r by (simp add: atcmd_socket_send_data_def case_prod_beta)
  show ?thesis
  proof (cases "so_event_send (g_env s)")
    case False
    obtain ret j where d: "send_data_direct N k data ?s1 = ((ret, int j), t)" "j \<le> length data" "ret = 0 \<longleftrightarrow> j = length data"
        "taken out t = taken out s @ take j data" "send_outcome N fd k ret ?s1 t"
      using direct_outcome [where N = N and s = ?s1 and k = k and data = data, OF A(1)] E A False r by auto
    have "table t = table s \<and> g_out t = g_out s \<or> j < length data \<and> table t = closed_table fd (table s)"
      using d(2,3,5) closing_nonzero [of ret] by (cases "closing_error ret") (auto simp: send_outcome_def)
    moreover have "steady N fd \<longrightarrow> j = length data" using d(3,5) by (simp add: send_outcome_def)
    moreover have "table t = table s \<longrightarrow> sender_ready N fd out k (on_env (\<lambda>e. e\<lparr>so_sending := False\<rparr>) t)"
      using ready_again [OF assms(1), of "on_env (\<lambda>e. e\<lparr>so_sending := False\<rparr>) t"] d(5) False by (simp add: send_outcome_def)
    moreover have "rq_socket (so_req (g_env t)) = rq_socket (so_req (g_env s))" "so_stuck (g_env t) = so_stuck (g_env s)"
      "so_fault (g_env t) = so_fault (g_env s)" "snd r = int j" using d(1,5) r False by (auto simp: send_outcome_def)
    ultimately show ?thesis using e d(2,4) False unfolding c by auto
  next
    case True
    let ?q = "\<lparr>rq_socket = Some k, rq_data = data, rq_ret = 0, rq_done = 0\<rparr>" and ?tm = "atcmd_timeout_value ''SSEND'' (g_env ?s1)"
    have B: "only_writable N fd out" "0 < n_passes N" "rq_socket (so_req (g_env s)) = None" "fd < 32" "fds_write (lwip_of s) = {}"
      "fd \<notin> li_events (lwip_of s)" "fds_read (lwip_of s) \<subseteq> {0..<32}" using assms(1) True by (simp_all add: sender_ready_def)
    let ?s2 = "set_req ?q ?s1"
    have s2: "so_req (g_env ?s2) = ?q" "table ?s2 = table s" "lwip_of ?s2 = lwip_of s" "so_stuck (g_env ?s2) = so_stuck (g_env s)"
      "so_fault (g_env ?s2) = so_fault (g_env s)" "g_out ?s2 = g_out s" "so_event_send (g_env ?s2) = so_event_send (g_env s)"
      by (simp_all add: set_req_def)
    obtain u ret j where u: "lwip_socket_send_request N fd ?tm ?s2 = (0, u)" "rq_ret (so_req (g_env u)) = ret"
        "rq_done (so_req (g_env u)) = int j" "j \<le> length data" "ret = 0 \<longleftrightarrow> j = length data" "taken out u = taken out s @ take j data"
        "fds_write (lwip_of u) = {}" "fd \<notin> li_events (lwip_of u)" "so_stuck (g_env u) = so_stuck (g_env s)"
        "so_fault (g_env u) = so_fault (g_env s)" "steady N fd \<longrightarrow> ret = 0" "\<not> closing_error ret \<longrightarrow> g_out u = g_out s"
        "so_event_send (g_env u) = so_event_send (g_env s)" "fds_read (lwip_of u) \<subseteq> fds_read (lwip_of s)" "li_on (lwip_of u)"
        "table u = (if closing_error ret then closed_table fd (table s) else table s)"
      using lwip_request_outcome [where s = ?s2 and k = k and tm = ?tm, OF A(1) B(1,2), unfolded s2 send_req.simps,
        OF E A(4,2) B(4) A(5) refl B(5-7)] by blast
    have q: "r = (ret, int j)" "t = set_req no_request u"
      using r True u B(3) E by (simp_all add: atcmd_socket_send_request_def Let_def)
    have "table t = table s \<and> g_out t = g_out s \<or> j < length data \<and> table t = closed_table fd (table s)"
      using u(4,5,12,16) q(2) closing_nonzero [of ret] by (cases "closing_error ret") (auto simp: set_req_def)
    moreover have "steady N fd \<longrightarrow> j = length data" using u(5,11) by blast
    moreover have "rq_socket (so_req (g_env t)) = None" "fds_write (lwip_of t) = {}" "fd \<notin> li_events (lwip_of t)"
      "taken out t = taken out s @ take j data" "so_stuck (g_env t) = so_stuck (g_env s)" "so_fault (g_env t) = so_fault (g_env s)"
      using u(6-10) q(2) by (simp_all add: set_req_def no_request_def)
    moreover have "table t = table s \<longrightarrow> sender_ready N fd out k (on_env (\<lambda>e. e\<lparr>so_sending := False\<rparr>) t)"
      using ready_again [OF assms(1), of "on_env (\<lambda>e. e\<lparr>so_sending := False\<rparr>) t"] u(7,8,13-15) q(2)
      by (simp add: set_req_def no_request_def)
    ultimately show ?thesis using e q(1) u(4) B(3) unfolding c by auto
  qed
qed

text \<open>C15: Data for a connected stream socket, from the command or the data mode, in both modes of sending: the count that
  the caller gets is exactly the number of leading bytes that the network took, after whatever it had, each byte once
  and in order.  If the network takes at least a byte at a time, that is all of them; otherwise an error may stop it, which
  leaves the table as it is or resets the socket's entry and no other.  Only in the latter case is anything printed.  No
  request is left pending, its event is consumed and the sender does not hang.\<close>

theorem send_data_delivers:
  fixes s :: "('f, 'n, 'z) sock"
  assumes "sender_ready N fd out k s" and "data \<noteq> []"
  shows "\<exists>m t. atcmd_socket_send_data N fd data s = (int m, t) \<and> m \<le> length data \<and> taken out t = taken out s @ take m data \<and>
    (steady N fd \<longrightarrow> m = length data) \<and>
    (table t = table s \<and> g_out t = g_out s \<or> m < length data \<and> table t = map (\<lambda>x. if sk_id x = fd then atcmd_socket_reset else x) (table s)) \<and>
    rq_socket (so_req (g_env t)) = rq_socket (so_req (g_env s)) \<and> \<not> so_sending (g_env t) \<and>
    (so_event_send (g_env s) \<longrightarrow> fds_write (lwip_of t) = {} \<and> fd \<notin> li_events (lwip_of t)) \<and>
    (table t = table s \<longrightarrow> sender_ready N fd out k t) \<and>
    so_stuck (g_env t) = so_stuck (g_env s) \<and> so_fault (g_env t) = so_fault (g_env s)"
  by (rule send_data_outcome [OF assms])

lemma demo_stream: "stream_law demo_net 3 (\<lambda>n. n 3)" "only_writable demo_net 3 (\<lambda>n. n 3)"
  by (auto simp: stream_law_def only_writable_def demo_net_def min_def)

lemma demo_ready: "sender_ready demo_net 3 (\<lambda>n. n 3) 0 (demo_sock n)"
  using demo_stream demo_search
  by (simp add: sender_ready_def demo_sock_env_def demo_lwip_def demo_entry_def demo_net_def no_request_def)

theorem send_data_delivers_witness:
  "\<exists>m t. atcmd_socket_send_data demo_net 3 ''hello'' (demo_sock (\<lambda>_. ''old '')) = (int m, t) \<and> m \<le> 5 \<and>
    taken (\<lambda>n. n 3) t = ''old '' @ take m ''hello'' \<and> \<not> so_stuck (g_env t)"
  using send_data_delivers [OF demo_ready, of "''hello''" "\<lambda>_. ''old ''"]
  by (fastforce simp: demo_sock_env_def demo_lwip_def)

end
