(* ===== verification/AtcmdSocketHost.thy ===== *)
theory AtcmdSocketHost
  imports AtcmdSocketSend HostFirmware FlashProps
begin

text \<open>
  A host that sends over a socket of the target: the command line, the data mode, the sending and the network put
  together, with the host's library and the target's AT command server connected as in \<open>Exchange\<close>.
\<close>

subsection \<open>The command\<close>

text \<open>At rest, with \<open>AT+SSEND\<close> registered.\<close>

definition send_registered :: "(addr \<Rightarrow> socket_cmd option) \<Rightarrow> addr list \<Rightarrow> (addr \<Rightarrow> addr list) \<Rightarrow> registry \<Rightarrow> bool" where
  "send_registered ids gs cs R \<longleftrightarrow>
     (let a = lookup_command R cs ''SSEND'' gs
      in a \<noteq> 0 \<and> ids a = Some ATCMD_SOCKET_SEND \<and> c_handler (infos R a) ATCMD_HANDLER_SET)"

definition send_rest ::
  "(addr \<Rightarrow> socket_cmd option) \<Rightarrow> addr list \<Rightarrow> addr list \<Rightarrow> (addr \<Rightarrow> addr list) \<Rightarrow> ('f, 'n, 'z) sock_env_scheme target \<Rightarrow> bool"
where
  "send_rest ids U gs cs t \<longleftrightarrow> target_rest U gs cs t \<and> \<not> dm_enable (g_data_mode (snd (snd t))) \<and>
     send_registered ids gs cs (g_registry (snd (snd t)))"

definition ssend_line :: "nat \<Rightarrow> nat \<Rightarrow> string" where
  "ssend_line i n = ''SSEND='' @ dec_nat i @ '','' @ dec_nat n"

lemma ssend_line_ok:
  assumes "i < 2 ^ 31" and "n \<le> 4096"
  shows "line_ok (''AT+'' @ ssend_line i n)" "2 \<le> length (ssend_line i n)" "length (ssend_line i n) \<le> 123"
    "atcmd_parse (ssend_line i n @ [LF] @ r) = Parsed (Some ATCMD_HANDLER_SET) (''SSEND'' # [dec_nat i, dec_nat n])"
    "snd (wait_setup ((''AT+'' @ ssend_line i n) @ [CR, LF]) h) = h"
proof -
  let ?ps = "[dec_nat i, dec_nat n]"
  have l: "length (dec_nat i) \<le> 10" "length (dec_nat n) \<le> 4"
    using dec_nat_length [of i 10] dec_nat_length [of n 4] assms by simp_all
  have len: "length (''SSEND'' @ ''='' @ join_params ?ps) \<le> 123" using l by simp
  have ne: "dec_nat i \<noteq> []" "dec_nat n \<noteq> []" using dec_nat_head by auto
  have up: "map upper_char ''SSEND'' = ''SSEND''" by (simp add: upper_char_def)
  have c: "ssend_line i n = ''SSEND'' @ ''='' @ join_params ?ps" by (simp add: ssend_line_def)
  show "line_ok (''AT+'' @ ssend_line i n)"
    "atcmd_parse (ssend_line i n @ [LF] @ r) = Parsed (Some ATCMD_HANDLER_SET) (''SSEND'' # ?ps)"
    using set_params_ok [where ps = ?ps, OF _ _ _ _ _ up len] ne unfolding c by (simp_all add: plain_def printable_def)
  show "2 \<le> length (ssend_line i n)" "length (ssend_line i n) \<le> 123" using len unfolding c by simp_all
  show "snd (wait_setup ((''AT+'' @ ssend_line i n) @ [CR, LF]) h) = h" by (simp add: wait_setup_def ssend_line_def)
qed

text \<open>The target after the command: in the data mode, for the socket \<open>i\<close> and \<open>n\<close> bytes, none of them received.\<close>

definition send_announced :: "nat \<Rightarrow> nat \<Rightarrow> ('f, 'n, 'z) sock \<Rightarrow> bool" where
  "send_announced i n s \<longleftrightarrow> (let d = g_data_mode s in dm_enable d \<and> \<not> dm_idle d \<and> dm_cnt d = 0 \<and> send_len d = of_nat n \<and>
     send_done d = 0 \<and> send_drop d = 0 \<and> params d = ssend_params (int i) (int n) (so_done_event (g_env s)) s)"

lemma ssend_params_env: "g_env t = g_env s \<Longrightarrow> ssend_params i n d t = ssend_params i n d s"
  by (simp add: ssend_params_def)

lemma send_open:
  fixes s :: "('f, 'n, 'z) sock"
  assumes t: "send_rest ids U gs cs (ed, rx, s)" and h: "host_rest h" and M: "\<And>e. M e"
    and H: "handlers_ok (socket_handlers N ids H)" and k: "search_id (int i) s = Some k" and i: "i < 2 ^ 31" and n: "0 < n" "n \<le> 4096"
  shows "\<exists>ed' s' h'. exchange_cmd (socket_handlers N ids H) C M (''AT+'' @ ssend_line i n) ((ed, rx, s), h) =
      Some (ATCMD_RET_OK, (ed', rx, s'), h') \<and> target_rest U gs cs (ed', rx, s') \<and> g_env s' = g_env s \<and> g_registry s' = g_registry s \<and>
    send_announced i n s' \<and> host_rest h' \<and> frame h' = frame (nrc_atcmd_set_return ATCMD_RET_OK (nrc_atcmd_init_return h))"
proof -
  have T: "target_rest U gs cs (ed, rx, s)" "\<not> dm_enable (g_data_mode s)" "g_out s = []" "send_registered ids gs cs (g_registry s)"
    using t by (simp_all add: send_rest_def target_rest_def)
  define a where "a = lookup_command (g_registry s) cs ''SSEND'' gs"
  have reg: "lookup_command (g_registry s) cs ''SSEND'' gs = a" "a \<noteq> 0" "c_handler (infos (g_registry s) a) ATCMD_HANDLER_SET"
    and ida: "ids a = Some ATCMD_SOCKET_SEND"
    using T(4) by (simp_all add: send_registered_def a_def Let_def)
  let ?s0 = "s\<lparr>g_prompt_enter := False\<rparr>" and ?p = "ssend_params (int i) (int n) (so_done_event (g_env s)) s"
  let ?s1 = "data_entered ?p ?s0"
  have k0: "search_id (int i) ?s0 = Some k" using k by (simp add: atcmd_socket_search_def)
  have id: "sk_id (table ?s0 ! k) = int i" using search_entry(2) [OF k0] by simp
  have c: "c_abs (int n) = int n" using n by (simp add: c_abs_def)
  have b: "- (2 ^ 31) \<le> int n" "int n < 2 ^ 31" "0 \<le> int i" "int i < 2 ^ 31" using n i by simp_all
  have d: "dec_int (int i) = dec_nat i" "dec_int (int n) = dec_nat n" by (simp_all add: dec_int_def)
  have dm0: "\<not> dm_enable (g_data_mode ?s0)" using T(2) by simp
  have pos: "\<not> n_no_passthrough N \<or> 0 < int n" using n by simp
  have "atcmd_socket_send_set N [dec_nat i, dec_nat n] ?s0 = ssend_enable N k (int n) (so_done_event (g_env ?s0)) ?s0"
    using ssend_two [where N = N, OF b(3,4) k0 b(1,2)] n unfolding c d by simp
  also have "\<dots> = (ATCMD_SUCCESS, ?s1)"
    using ssend_enable_eq [where N = N and k = k and dn = "so_done_event (g_env ?s0)", OF pos dm0] id by (simp add: ssend_params_def)
  finally have call: "socket_handlers N ids H a ATCMD_HANDLER_SET [dec_nat i, dec_nat n] ?s0 = (0, ?s1)"
    by (simp add: socket_handlers_def ida set_handler_def ATCMD_SUCCESS_def)
  have k1: "g_registry ?s1 = g_registry s" "g_config ?s1 = g_config s" "g_env ?s1 = g_env s" "g_out ?s1 = concat (map encode [])"
    using T(3) by (simp_all add: data_entered_def)
  have d1: "g_data_mode ?s1 = (g_data_mode s)\<lparr>params := ?p, dm_enable := True, dm_idle := False,
      dm_cnt := 0, send_len := of_nat n, send_done := 0, send_drop := 0, send_timeout := 1100, last_send_time := 0\<rparr>"
    by (simp add: data_entered_def ssend_params_def c)
  have ans: "\<forall>m \<in> set (answer_msgs ''SSEND'' 0). host_msg_ok m" by (simp add: answer_msgs_def)
  note L = ssend_line_ok [OF i n(2)]
  let ?s' = "(atcmd_prompt_enter (answered ''SSEND'' 0 ?s1))\<lparr>g_out := []\<rparr>"
  obtain ed' h' where r: "exchange_cmd (socket_handlers N ids H) C M (''AT+'' @ ssend_line i n) ((ed, rx, s), h) =
      Some (ATCMD_RET_OK, (ed', rx, ?s'), h')" "target_rest U gs cs (ed', rx, ?s')" "host_rest h'"
    and r4: "frame h' = fold host_effect ([] @ answer_msgs ''SSEND'' 0) (frame (nrc_atcmd_init_return h))"
    using exchange_command [where C = C and M = M and ms = "[]", OF T(1,2) H h M L(1-3) L(4) L(5) reg call k1(4) _ _ ans k1(1,2)]
    by auto
  have e: "g_env ?s' = g_env s" using k1 by (simp add: answered_def Let_def)
  have "g_registry ?s' = g_registry s" using k1 by (simp add: answered_def Let_def)
  moreover have "send_announced i n ?s'"
    unfolding send_announced_def e ssend_params_env [OF e] by (simp add: answered_def Let_def continue_dm d1)
  moreover note e
  moreover have "frame h' = frame (nrc_atcmd_set_return ATCMD_RET_OK (nrc_atcmd_init_return h))"
    using r4 by (simp add: answer_msgs_def nrc_atcmd_set_return_def frame_def)
  ultimately show ?thesis using r(1-3) by (intro exI conjI)
qed

subsection \<open>The data\<close>

lemma sender_ready_env: "g_env t = g_env s \<Longrightarrow> sender_ready N fd out k t = sender_ready N fd out k s"
  by (simp add: sender_ready_def atcmd_socket_search_def)

lemma sender_ready_frame [simp]:
  "sender_ready N fd out k (s\<lparr>g_out := x\<rparr>) = sender_ready N fd out k s"
  "sender_ready N fd out k (s\<lparr>g_data_mode := m\<rparr>) = sender_ready N fd out k s"
  by (rule sender_ready_env, simp)+

definition send_done_msg :: "nat \<Rightarrow> nat \<Rightarrow> host_msg" where
  "send_done_msg i n = HmEvent CHR ''S'' ''SEND_DONE'' [dec_nat i, fmt_u (of_nat n)]"

lemma send_done_event:
  assumes "shared_ok s" and "i < 2 ^ 31"
  shows "event (socket_consumers N) (SendDone (int i) (of_nat n)) s = atcmd_transmit (encode (send_done_msg i n)) s"
    and "host_msg_ok (send_done_msg i n)"
proof -
  have l: "length (dec_nat i) \<le> 10" "length (fmt_u (of_nat n)) \<le> 10" using dec_nat_length [of i 10] assms(2) fmt_u_length by simp_all
  let ?b = "''SEVENT:'' @ ''\"SEND_DONE\",'' @ dec_nat i @ '','' @ fmt_u (of_nat n)"
  have b: "length ?b \<le> 124" using l by simp
  show "event (socket_consumers N) (SendDone (int i) (of_nat n)) s = atcmd_transmit (encode (send_done_msg i n)) s"
    using msg_put_prints [OF assms(1) b]
    by (simp add: socket_consumers_def socket_event_consumer_def socket_data_event_def atcmd_socket_event_handler_def event_text_def
        send_done_msg_def quoted_def dec_int_def)
  show "host_msg_ok (send_done_msg i n)"
    using l num_arg [OF fmt_u_num] num_arg [OF dec_nat_num] by (simp add: send_done_msg_def arg_char_def quoted_def)
qed

definition send_msgs :: "bool \<Rightarrow> nat \<Rightarrow> nat \<Rightarrow> host_msg list" where
  "send_msgs dn i n = (if dn then [send_done_msg i n] else [])"

lemma send_deliver:
  fixes s :: "('f, 'n, 'z) sock"
  assumes t: "target_rest U gs cs (ed, rx, s)" "send_announced i n s" and S: "sender_ready N (int i) out k s" "steady N (int i)"
    and i: "i < 2 ^ 31" and n: "0 < n" "n \<le> 4096" "length d = n"
  shows "\<exists>u. deliver_data (socket_consumers N) (params (g_data_mode s)) False d (of_nat n) 0 0 s = u \<and>
    \<not> dm_enable (g_data_mode u) \<and> table u = table s \<and> taken out u = taken out s @ d \<and> shared_ok u \<and>
    g_registry u = g_registry s \<and> g_config u = g_config s \<and> so_stuck (g_env u) = so_stuck (g_env s) \<and>
    sender_ready N (int i) out k u \<and>
    g_out u = concat (map encode (send_msgs (so_done_event (g_env s)) i n))"
proof -
  let ?p = "ssend_params (int i) (int n) (so_done_event (g_env s)) s"
  have T: "params (g_data_mode s) = ?p" "shared_ok s" "g_out s = []" "dm_enable (g_data_mode s)"
    using t by (simp_all add: target_rest_def send_announced_def Let_def)
  have p: "data_type ?p = ATCMD_DATA_SSEND" "dm_id ?p = int i" "done_event ?p = so_done_event (g_env s)"
    by (simp_all add: ssend_params_def)
  have un: "unat (of_nat n :: u32) = n" using n by (simp add: unat_of_nat)
  then have sn: "sint (of_nat n :: u32) = int n" using sint_small_u32 [of "of_nat n"] n by simp
  have ne: "d \<noteq> []" using n by auto
  obtain m u where m: "atcmd_socket_send_data N (int i) d s = (int m, u)" "steady N (int i) \<longrightarrow> m = length d" "taken out u = taken out s @ take m d"
      "table u = table s \<and> g_out u = g_out s \<or> m < length d" "so_stuck (g_env u) = so_stuck (g_env s)"
      "table u = table s \<longrightarrow> sender_ready N (int i) out k u"
    using send_data_outcome [OF S(1) ne] by blast
  then have u: "atcmd_socket_send_data N (int i) d s = (int n, u)" "taken out u = taken out s @ d" "table u = table s" "g_out u = []"
    "so_stuck (g_env u) = so_stuck (g_env s)" "sender_ready N (int i) out k u"
    using S(2) n(3) T(3) by auto
  have "shell u = shell s" using send_data_shell [of N "int i" d s] u(1) by simp
  note sh = shellD [OF this]
  have so: "shared_ok u" using T(2) sh by (simp add: shared_ok_def)
  have sink: "receive_data_sink (socket_consumers N) ATCMD_DATA_SSEND (int i) d (of_nat n) s = (int n, u)"
    using n un sn u(1) by (simp add: receive_data_sink_def socket_consumers_def)
  show ?thesis unfolding T(1) using n so u sh sink p T(4) send_done_event(1) [where N = N and n = n, OF so i]
    by (simp add: deliver_data_def Let_def receive_data_done_def atcmd_data_mode_disable_def send_msgs_def atcmd_transmit_def
        shared_ok_def)
qed

lemma send_block:
  fixes s :: "('f, 'n, 'z) sock"
  assumes t: "target_rest U gs cs (ed, rx, s)" "send_announced i n s" "send_registered ids gs cs (g_registry s)"
    and S: "sender_ready N (int i) out k s" "steady N (int i)"
    and h: "host_rest h" and M: "\<And>e. M e" and i: "i < 2 ^ 31" and n: "0 < n" "n \<le> 4096" "length d = n"
  shows "\<exists>u h'. exchange_data H (socket_consumers N) M d ((ed, rx, s), h) = Some (0, (ed, rx, u), h') \<and>
    send_rest ids U gs cs (ed, rx, u) \<and> table u = table s \<and> taken out u = taken out s @ d \<and> so_stuck (g_env u) = so_stuck (g_env s) \<and>
    sender_ready N (int i) out k u \<and> host_rest h' \<and> frame h' = fold host_effect (send_msgs (so_done_event (g_env s)) i n) (frame (h\<lparr>data_send := data_send h + of_nat n\<rparr>))"
proof -
  let ?C = "socket_consumers N" and ?ms = "send_msgs (so_done_event (g_env s)) i n"
  let ?h1 = "h\<lparr>data_send := data_send h + of_nat n\<rparr>"
  have T: "dm_enable (g_data_mode s)" "\<not> effective_pass (g_data_mode s)" "send_len (g_data_mode s) = of_nat n"
    "send_done (g_data_mode s) = 0" "send_drop (g_data_mode s) = 0" "d_exit rx = 0" "length (d_buf rx) = ATCMD_DATA_LEN_MAX"
    "\<not> dm_idle (g_data_mode s)" "dm_cnt (g_data_mode s) = 0"
    using t n(1) by (simp_all add: send_announced_def target_rest_def Let_def effective_pass_def ssend_params_def)
  have un: "unat (of_nat n :: u32) = n" using n by (simp add: unat_of_nat)
  have c: "collecting rx s []" using T n un by (simp add: collecting_def ATCMD_DATA_LEN_MAX_def)
  have d: "d \<noteq> []" "length d \<le> ATCMD_DATA_LEN_MAX" using n by (auto simp: ATCMD_DATA_LEN_MAX_def)
  obtain u where u: "deliver_data ?C (params (g_data_mode s)) False d (of_nat n) 0 0 s = u" "\<not> dm_enable (g_data_mode u)"
    "table u = table s" "taken out u = taken out s @ d" "shared_ok u" "g_registry u = g_registry s" "g_config u = g_config s"
    "so_stuck (g_env u) = so_stuck (g_env s)" "sender_ready N (int i) out k u" "g_out u = concat (map encode ?ms)"
    using send_deliver [OF t(1,2) S i n] by blast
  have one: "atcmd_receive_data ?C d rx s = Some (n, rx, u)"
    unfolding collect_nat [OF c d] Let_def using T un n u(1) by simp
  have rec: "atcmd_receive H ?C True d (ed, rx, s) = Some (ed, rx, u)"
    using one d(1) T(1) n(3) unfolding atcmd_receive_def
    by (subst receive_routed.simps, simp) (subst receive_routed.simps, simp)
  have so: "shared_ok s" using t by (simp add: target_rest_def)
  have ok: "\<forall>m \<in> set ?ms. host_msg_ok m" using send_done_event(2) [OF so i] by (simp add: send_msgs_def)
  obtain h' where h': "nrc_atcmd_recv M (g_out u) ?h1 = Some h'" "host_rest h'" "frame h' = fold host_effect ?ms (frame ?h1)"
    using host_hears [where M = M, OF _ M ok, of ?h1] h unfolding u(10) by auto
  have "exchange_data H ?C M d ((ed, rx, s), h) = Some (0, (ed, rx, u\<lparr>g_out := []\<rparr>), h')"
    using rec h'(1) n(3) by (simp add: exchange_data_def exchange_send_data deliver_def)
  moreover have "send_rest ids U gs cs (ed, rx, u\<lparr>g_out := []\<rparr>)"
    using t u by (simp add: send_rest_def target_rest_def atcmd_config_status_def)
  moreover have "table (u\<lparr>g_out := []\<rparr>) = table s" "taken out (u\<lparr>g_out := []\<rparr>) = taken out s @ d"
    "so_stuck (g_env (u\<lparr>g_out := []\<rparr>)) = so_stuck (g_env s)" "sender_ready N (int i) out k (u\<lparr>g_out := []\<rparr>)"
    using u by simp_all
  ultimately show ?thesis using h'(2,3) by blast
qed

subsection \<open>Block after block\<close>

text \<open>A host program that sends the blocks one after the other and stops at the first that is refused.\<close>

fun send_blocks ::
  "'e handlers \<Rightarrow> 'e consumers \<Rightarrow> ('h \<Rightarrow> bool) \<Rightarrow> nat \<Rightarrow> string list \<Rightarrow> 'e target \<times> 'h host \<Rightarrow> (bool \<times> 'e target \<times> 'h host) option" where
  "send_blocks H C M i [] x = Some (True, x)"
| "send_blocks H C M i (d # ds) x =
    do {
      (r, y) \<leftarrow> exchange_cmd H C M (''AT+'' @ ssend_line i (length d)) x;
      (if r \<noteq> ATCMD_RET_OK then Some (False, y)
       else do {
         (q, z) \<leftarrow> exchange_data H C M d y;
         (if q \<noteq> 0 then Some (False, z) else send_blocks H C M i ds z)
       })
    }"

definition block_ok :: "string \<Rightarrow> bool" where
  "block_ok d \<longleftrightarrow> d \<noteq> [] \<and> length d \<le> 4096"

lemma send_one:
  fixes s :: "('f, 'n, 'z) sock"
  assumes t: "send_rest ids U gs cs (ed, rx, s)" and S: "sender_ready N (int i) out k s" "steady N (int i)" and h: "host_rest h"
    and M: "\<And>e. M e" and H: "handlers_ok (socket_handlers N ids H)" and i: "i < 2 ^ 31" and d: "block_ok d"
  shows "\<exists>y ed' u h'. exchange_cmd (socket_handlers N ids H) (socket_consumers N) M (''AT+'' @ ssend_line i (length d)) ((ed, rx, s), h) =
      Some (ATCMD_RET_OK, y) \<and> exchange_data (socket_handlers N ids H) (socket_consumers N) M d y = Some (0, (ed', rx, u), h') \<and>
    send_rest ids U gs cs (ed', rx, u) \<and> sender_ready N (int i) out k u \<and> table u = table s \<and> taken out u = taken out s @ d \<and>
    so_stuck (g_env u) = so_stuck (g_env s) \<and> host_rest h' \<and> h_env h' = h_env h"
proof -
  have n: "0 < length d" "length d \<le> 4096" using d by (simp_all add: block_ok_def)
  have k: "search_id (int i) s = Some k" using S(1) by (simp add: sender_ready_def)
  obtain ed' s' h1 where 1: "exchange_cmd (socket_handlers N ids H) (socket_consumers N) M (''AT+'' @ ssend_line i (length d)) ((ed, rx, s), h) =
      Some (ATCMD_RET_OK, (ed', rx, s'), h1)" "target_rest U gs cs (ed', rx, s')" "g_env s' = g_env s" "g_registry s' = g_registry s"
      "send_announced i (length d) s'" "host_rest h1" "frame h1 = frame (nrc_atcmd_set_return ATCMD_RET_OK (nrc_atcmd_init_return h))"
    using send_open [where M = M and C = "socket_consumers N", OF t h M H k i n] by blast
  have reg: "send_registered ids gs cs (g_registry s')" using t 1(4) by (simp add: send_rest_def)
  have S': "sender_ready N (int i) out k s'" using S(1) 1(3) by (simp add: sender_ready_env [of s' s])
  obtain u h2 where 2: "exchange_data (socket_handlers N ids H) (socket_consumers N) M d ((ed', rx, s'), h1) = Some (0, (ed', rx, u), h2)"
    "send_rest ids U gs cs (ed', rx, u)" "table u = table s'" "taken out u = taken out s' @ d" "so_stuck (g_env u) = so_stuck (g_env s')"
    "sender_ready N (int i) out k u" "host_rest h2"
    "frame h2 = fold host_effect (send_msgs (so_done_event (g_env s')) i (length d)) (frame (h1\<lparr>data_send := data_send h1 + of_nat (length d)\<rparr>))"
    using send_block [where M = M and H = "socket_handlers N ids H", OF 1(2,5) reg S' S(2) 1(6) M i n refl] by blast
  have e: "h_env h2 = h_env h1" using arg_cong [OF 2(8), of h_env]
    by (simp add: send_msgs_def send_done_msg_def event_of_def event_names_def split: if_splits)
  have e1: "h_env h1 = h_env h" using arg_cong [OF 1(7), of h_env] by (simp add: nrc_atcmd_set_return_def nrc_atcmd_init_return_def)
  show ?thesis using 1(1) 2 e e1 1(3) by metis
qed

lemma send_all_blocks:
  fixes s :: "('f, 'n, 'z) sock"
  assumes "steady N (int i)" and "\<And>e. M e" and "handlers_ok (socket_handlers N ids H)" and "i < 2 ^ 31"
  shows "list_all block_ok ds \<Longrightarrow> send_rest ids U gs cs (ed, rx, s) \<Longrightarrow> sender_ready N (int i) out k s \<Longrightarrow> host_rest h \<Longrightarrow>
    \<exists>ed' u h'. send_blocks (socket_handlers N ids H) (socket_consumers N) M i ds ((ed, rx, s), h) = Some (True, (ed', rx, u), h') \<and>
      taken out u = taken out s @ concat ds \<and> table u = table s \<and> so_stuck (g_env u) = so_stuck (g_env s) \<and>
      send_rest ids U gs cs (ed', rx, u) \<and> sender_ready N (int i) out k u \<and> host_rest h' \<and> h_env h' = h_env h"
proof (induction ds arbitrary: ed s h)
  case (Cons d ds)
  have d: "block_ok d" "list_all block_ok ds" using Cons.prems(1) by simp_all
  obtain y ed1 u1 h1 where 1: "exchange_cmd (socket_handlers N ids H) (socket_consumers N) M (''AT+'' @ ssend_line i (length d)) ((ed, rx, s), h) =
      Some (ATCMD_RET_OK, y)" "exchange_data (socket_handlers N ids H) (socket_consumers N) M d y = Some (0, (ed1, rx, u1), h1)"
      "send_rest ids U gs cs (ed1, rx, u1)" "sender_ready N (int i) out k u1" "table u1 = table s" "taken out u1 = taken out s @ d"
      "so_stuck (g_env u1) = so_stuck (g_env s)" "host_rest h1" "h_env h1 = h_env h"
    using send_one [where M = M, OF Cons.prems(2,3) assms(1) Cons.prems(4) assms(2-4) d(1)] by blast
  show ?case using Cons.IH [OF d(2) 1(3,4,8)] 1 by auto
qed auto

text \<open>C6: A host that sends any sequence of blocks of one to 4096 bytes over a connected stream socket of the target, each
  with \<open>AT+SSEND=<id>,<length>\<close> and the data, gets OK for every command, and the network gets exactly the
  concatenation of the blocks, however the network divides what it takes and in both modes of sending.  Afterwards the
  target and the host are at rest again, the table is unchanged, the sender is ready for more; and no callback of the host has
  run, not even when the target reports every block with a \<open>SEND_DONE\<close> event, which the host's library does not know.\<close>

theorem host_stream_reaches_network:
  fixes s :: "('f, 'n, 'z) sock"
  assumes "send_rest ids U gs cs (ed, rx, s)" and "sender_ready N (int i) out k s" and "steady N (int i)" and "host_rest h"
    and "\<And>e. M e" and "handlers_ok H" and "i < 2 ^ 31" and "list_all block_ok ds"
  shows "\<exists>ed' u h'. send_blocks (socket_handlers N ids H) (socket_consumers N) M i ds ((ed, rx, s), h) = Some (True, (ed', rx, u), h') \<and>
    taken out u = taken out s @ concat ds \<and> table u = table s \<and> so_stuck (g_env u) = so_stuck (g_env s) \<and>
    send_rest ids U gs cs (ed', rx, u) \<and> sender_ready N (int i) out k u \<and> host_rest h' \<and> h_env h' = h_env h"
  by (rule send_all_blocks [OF assms(3,5) socket_handlers_sound [OF assms(6)] assms(7,8,1,2,4)])

text \<open>A registry with the command \<open>SSEND\<close>.\<close>

definition demo_ssend :: registry where
  "demo_ssend = demo_registry\<lparr>infos := (infos demo_registry)(50 := \<lparr>c_group = 0, c_id = 0, c_cmd = ''SSEND'', c_handler = (\<lambda>t. t = ATCMD_HANDLER_SET)\<rparr>),
     heap := atcmd_list_add 20 50 (atcmd_list_add 1 10 (heap demo_registry))\<rparr>"

lemma demo_ssend_ok: "reg_ok demo_ssend [10] [10] ((\<lambda>_. [])(10 := [50]))"
  by (simp add: reg_ok_def reg_nodes_def demo_ssend_def demo_registry_def linked_def list_add_links)

definition demo_cmds :: "addr \<Rightarrow> socket_cmd option" where "demo_cmds = [50 \<mapsto> ATCMD_SOCKET_SEND]"

lemma demo_send_rest:
  "send_rest demo_cmds [10] [10] ((\<lambda>_. [])(10 := [50])) (demo_editor, demo_rx, demo_atcmd demo_ssend (demo_sock_env n))"
proof -
  have "registry_ok demo_ssend" unfolding registry_ok_def
    by (intro exI [of _ "[10]"] exI [of _ "[10]"] exI [of _ "(\<lambda>_. [])(10 := [50])"] conjI demo_ssend_ok)
      (simp add: demo_ssend_def demo_registry_def)
  then have "shared_ok (demo_atcmd demo_ssend (demo_sock_env n))" by (simp add: shared_ok_def demo_atcmd_def)
  moreover have "g_registry (demo_atcmd demo_ssend (demo_sock_env n)) = demo_ssend" "g_out (demo_atcmd demo_ssend (demo_sock_env n)) = []"
    by (simp_all add: demo_atcmd_def)
  moreover have "send_registered demo_cmds [10] ((\<lambda>_. [])(10 := [50])) demo_ssend"
    by (simp add: send_registered_def demo_cmds_def in_group_def group_matches_def find_addr_def demo_ssend_def demo_registry_def)
  ultimately show ?thesis using demo_editing demo_ssend_ok
    by (simp add: send_rest_def target_rest_def demo_rx_def demo_config demo_atcmd_sel)
qed

lemma demo_steady: "steady demo_net fd"
  by (simp add: steady_def demo_net_def)

theorem host_stream_reaches_network_witness:
  "\<exists>ed' u h'. send_blocks (socket_handlers demo_net demo_cmds refuse) (socket_consumers demo_net) (\<lambda>_. True) 3 [''first '', ''second'']
      ((demo_editor, demo_rx, demo_atcmd demo_ssend (demo_sock_env (\<lambda>_. []))), demo_host) = Some (True, (ed', demo_rx, u), h') \<and>
    taken (\<lambda>n. n 3) u = ''first second'' \<and> \<not> so_stuck (g_env u) \<and> h_env h' = h_env demo_host"
proof -
  let ?s = "demo_atcmd demo_ssend (demo_sock_env (\<lambda>_ :: int. [] :: string))"
  have e: "g_env ?s = g_env (demo_sock (\<lambda>_ :: int. [] :: string))" by (simp add: demo_atcmd_def demo_sock_def)
  have r: "sender_ready demo_net (int 3) (\<lambda>n. n 3) 0 ?s" using demo_ready sender_ready_env [OF e] by simp
  have h: "host_rest demo_host" using demo_host_idle by (simp add: host_rest_def)
  have b: "list_all block_ok [''first '', ''second'']" by (simp add: block_ok_def)
  show ?thesis
    using host_stream_reaches_network [where M = "\<lambda>_. True", OF demo_send_rest r demo_steady h TrueI refuse_ok(1) _ b]
    by (fastforce simp: demo_atcmd_def demo_sock_env_def demo_lwip_def)
qed

end
