(* ===== verification/AtcmdSocketRecv.thy ===== *)
theory AtcmdSocketRecv
  imports AtcmdSocketHost
begin

text \<open>
  Receiving from a connected stream socket: one turn of the socket task takes everything that has arrived, and the host
  gets exactly these bytes, block by block.
\<close>

subsection \<open>What has arrived\<close>

text \<open>
  \<open>inp n\<close> are the bytes that have arrived and wait: \<open>FIONREAD\<close> counts them and \<open>recv\<close> takes some of them off the front.
\<close>

definition input_law :: "'n net_api \<Rightarrow> int \<Rightarrow> ('n \<Rightarrow> string) \<Rightarrow> bool" where
  "input_law N fd inp \<longleftrightarrow>
     (\<forall>n. fst (n_fionread N fd n) = (0, int (length (inp n))) \<and> inp (snd (n_fionread N fd n)) = inp n) \<and>
     (\<forall>n. fst (n_getopt N fd SO_TYPE n) = (0, SOCK_STREAM) \<and> inp (snd (n_getopt N fd SO_TYPE n)) = inp n) \<and>
     (\<forall>len n. 0 < len \<longrightarrow> inp n \<noteq> [] \<longrightarrow>
        (\<exists>m. 0 < m \<and> m \<le> len \<and> m \<le> length (inp n) \<and> fst (n_recv N fd len n) = (int m, take m (inp n)) \<and>
           inp (snd (n_recv N fd len n)) = drop m (inp n)))"

abbreviation waiting :: "('n \<Rightarrow> 'a) \<Rightarrow> ('f, 'n, 'z) sock \<Rightarrow> 'a" where
  "waiting inp s \<equiv> inp (li_net (lwip_of s))"

definition receiver_ready :: "'n net_api \<Rightarrow> int \<Rightarrow> ('n \<Rightarrow> string) \<Rightarrow> nat \<Rightarrow> ('f, 'n, 'z) sock \<Rightarrow> bool" where
  "receiver_ready N fd inp k s \<longleftrightarrow> input_law N fd inp \<and> 0 \<le> fd \<and> fd < int ATCMD_SOCKET_NUM_MAX \<and> search_id fd s = Some k \<and>
     sk_protocol (table s ! k) = PROTO_TCP \<and> li_on (lwip_of s) \<and> \<not> so_passive (g_env s) \<and> length (g_stack s) = 129 \<and>
     length (rx_msg (so_rxd (g_env s))) = 128 \<and> length (rx_data (so_rxd (g_env s))) = 4096"

text \<open>The message for a block, and what receiving leaves alone.\<close>

definition data_msg :: "bool \<Rightarrow> atcmd_socket \<Rightarrow> string \<Rightarrow> host_msg" where
  "data_msg verbose sk d =
    (if verbose then HmSocketFrom (nat (sk_id sk)) (quoted (ip4addr_ntoa (sk_remote_addr sk))) (unat (sk_remote_port sk)) d
     else HmSocket (nat (sk_id sk)) d)"

definition kept :: "('f, 'n, 'z) sock \<Rightarrow> ('f, 'n, 'z) sock \<Rightarrow> bool" where
  "kept s t \<longleftrightarrow> table t = table s \<and> so_verbose (g_env t) = so_verbose (g_env s) \<and> so_fault (g_env t) = so_fault (g_env s) \<and>
     so_stuck (g_env t) = so_stuck (g_env s) \<and> glue (lwip_of t) = glue (lwip_of s) \<and> shell t = shell s"

lemma kept_trans: "kept s t \<Longrightarrow> kept t u \<Longrightarrow> kept s u"
  by (simp add: kept_def)

lemma netless_kept: "netless t = netless s \<Longrightarrow> shell t = shell s \<Longrightarrow> kept s t"
  using netlessD [of t s] by (simp add: kept_def)

lemma recv_piece_takes:
  fixes s :: "('f, 'n, 'z) sock"
  assumes L: "input_law N fd inp" and on: "li_on (lwip_of s)" and sk: "sk_protocol sk = PROTO_TCP" and w: "0 < len" "waiting inp s \<noteq> []"
  shows "\<exists>m t. recv_piece N fd sk len s = ((int m, take m (waiting inp s), None), t) \<and> 0 < m \<and> m \<le> len \<and> m \<le> length (waiting inp s) \<and>
    waiting inp t = drop m (waiting inp s) \<and> netless t = netless s \<and> shell t = shell s \<and> g_out t = g_out s"
proof -
  let ?v = "(lwip_of s)\<lparr>li_erange := be_errno (g_env s)\<rparr>"
  let ?t = "snd (on_lwip (lwip_socket_recv_tcp N fd len) s)"
  obtain n1 where g: "n_getopt N fd SO_TYPE (li_net (lwip_of s)) = ((0, SOCK_STREAM), n1)" "inp n1 = waiting inp s"
    using L unfolding input_law_def by (metis prod.collapse)
  have ne: "inp n1 \<noteq> []" using g(2) w(2) by simp
  obtain m where m: "0 < m" "m \<le> len" "m \<le> length (inp n1)" "fst (n_recv N fd len n1) = (int m, take m (inp n1))"
    "inp (snd (n_recv N fd len n1)) = drop m (inp n1)"
    using L w(1) ne unfolding input_law_def by blast
  have r: "fst (lwip_socket_recv_tcp N fd len ?v) = (int m, take m (inp n1))"
    "inp (li_net (snd (lwip_socket_recv_tcp N fd len ?v))) = drop m (inp n1)"
    using on g(1) m(4,5) by (simp_all add: lwip_socket_recv_tcp_def lwip_socket_get_type_def net_query_def case_prod_beta)
  have "recv_piece N fd sk len s = ((int m, take m (inp n1), None), ?t)"
    using r(1) sk by (simp add: recv_piece_def case_prod_beta on_lwip_fst)
  moreover have "waiting inp ?t = drop m (inp n1)" using r(2) by (simp add: on_lwip_env)
  ultimately show ?thesis using m(1-3) g(2) by auto
qed

subsection \<open>One call\<close>

lemma ntoa_text: "list_all arg_char (ip4addr_ntoa a) \<and> 1 \<le> length (ip4addr_ntoa a) \<and> length (ip4addr_ntoa a) \<le> 43"
proof -
  obtain p q r s where b: "p < 256" "q < 256" "r < 256" "s < 256"
    and t: "ip4addr_ntoa a = dec_nat p @ ''.'' @ dec_nat q @ ''.'' @ dec_nat r @ ''.'' @ dec_nat s" by (rule ntoa_eq)
  have "list_all arg_char (dec_nat n)" for n using dec_int_arg [of "int n"] by (simp add: dec_int_def)
  then have "list_all arg_char (ip4addr_ntoa a)" by (simp add: t arg_char_def text_char_def)
  moreover have "1 \<le> length (dec_nat n) \<and> length (dec_nat n) \<le> 3" if "n < 256" for n using that by (rule dec_nat_byte_length)
  from this [OF b(1)] this [OF b(2)] this [OF b(3)] this [OF b(4)]
  have "1 \<le> length (ip4addr_ntoa a) \<and> length (ip4addr_ntoa a) \<le> 43" unfolding t length_append list.size by linarith
  ultimately show ?thesis by blast
qed

lemma memcpy_long: "length xs \<le> length (memcpy_at xs off ys)"
  by (simp add: memcpy_at_def)

lemma recv_data_rxd:
  assumes "atcmd_socket_recv_data v rxd s = Some (rxd', t)"
  shows "length (rx_msg rxd') = length (rx_msg rxd)" "rx_data rxd' = rx_data rxd"
proof -
  obtain off ys where "rxd' = rxd\<lparr>rx_msg := take (length (rx_msg rxd)) (memcpy_at (rx_msg rxd @ rx_data rxd) off ys)\<rparr>"
    using assms by (fastforce simp: atcmd_socket_recv_data_def Let_def split: option.splits if_splits)
  then show "length (rx_msg rxd') = length (rx_msg rxd)" "rx_data rxd' = rx_data rxd"
    using memcpy_long [of "rx_msg rxd @ rx_data rxd" off ys] by simp_all
qed

lemma store_rxd_ok:
  assumes "length (rx_msg rxd) = 128" and "length (rx_data rxd) = 4096" and "0 \<le> sk_id sk" and "number_ok (nat (sk_id sk))"
    and "d \<noteq> []" and "length d \<le> 4096"
  shows "socket_rxd_ok (store_rxd sk None d rxd)" "socket_msg v (store_rxd sk None d rxd) = data_msg v sk d"
    "length (rx_msg (store_rxd sk None d rxd)) = 128" "length (rx_data (store_rxd sk None d rxd)) = 4096"
proof -
  have p: "uint (sk_remote_port sk) < 2 ^ 16" using uint_lt2p [of "sk_remote_port sk"] by simp
  show "socket_rxd_ok (store_rxd sk None d rxd)"
    using assms ntoa_text [of "sk_remote_addr sk"] p
    by (simp add: socket_rxd_ok_def store_rxd_def memcpy_at_def number_ok_def LONG_MAX_def)
  show "socket_msg v (store_rxd sk None d rxd) = data_msg v sk d"
    using assms(2,6) by (simp add: socket_msg_def data_msg_def store_rxd_def memcpy_at_def Let_def)
  show "length (rx_msg (store_rxd sk None d rxd)) = 128" "length (rx_data (store_rxd sk None d rxd)) = 4096"
    using assms(1,2,6) by (simp_all add: store_rxd_def memcpy_at_def)
qed

lemma deliver_rxd_sends:
  fixes s :: "('f, 'n, 'z) sock"
  assumes "length (g_stack s) = 129" and "socket_rxd_ok (so_rxd (g_env s))"
  shows "\<exists>rxd'. deliver_rxd s = on_env (\<lambda>e. e\<lparr>so_rxd := rxd'\<rparr>)
      (atcmd_transmit (encode (socket_msg (so_verbose (g_env s)) (so_rxd (g_env s)))) s) \<and>
    length (rx_msg rxd') = 128 \<and> length (rx_data rxd') = 4096"
proof -
  obtain rxd' where r: "atcmd_socket_recv_data (so_verbose (g_env s)) (so_rxd (g_env s)) s =
      Some (rxd', atcmd_transmit (encode (socket_msg (so_verbose (g_env s)) (so_rxd (g_env s)))) s)"
    using recv_data_sends [OF assms] by blast
  have "length (rx_msg (so_rxd (g_env s))) = 128" "length (rx_data (so_rxd (g_env s))) = 4096"
    using assms(2) by (simp_all add: socket_rxd_ok_def)
  then show ?thesis using recv_data_rxd [OF r] by (intro exI [of _ rxd']) (simp add: deliver_rxd_def r)
qed

lemma recv_one_takes:
  fixes s :: "('f, 'n, 'z) sock"
  assumes R: "receiver_ready N fd inp k s" and w: "waiting inp s \<noteq> []" "0 < len"
  shows "\<exists>m t. recv_one N fd (int len) False s = (int m, t) \<and> 0 < m \<and> m \<le> len \<and> m \<le> 4096 \<and> m \<le> length (waiting inp s) \<and>
    waiting inp t = drop m (waiting inp s) \<and> g_out t = g_out s @ encode (data_msg (so_verbose (g_env s)) (table s ! k) (take m (waiting inp s))) \<and>
    receiver_ready N fd inp k t \<and> kept s t"
proof -
  have A: "input_law N fd inp" "0 \<le> fd" "fd < 10" "search_id fd s = Some k" "sk_protocol (table s ! k) = PROTO_TCP" "li_on (lwip_of s)"
    "\<not> so_passive (g_env s)" "length (g_stack s) = 129" "length (rx_msg (so_rxd (g_env s))) = 128" "length (rx_data (so_rxd (g_env s))) = 4096"
    using R by (simp_all add: receiver_ready_def ATCMD_SOCKET_NUM_MAX_def)
  let ?len = "min len ATCMD_DATA_LEN_MAX" and ?sk = "table s ! k"
  have pos: "0 < ?len" using w(2) by (simp add: ATCMD_DATA_LEN_MAX_def)
  obtain m s1 where p: "recv_piece N fd ?sk ?len s = ((int m, take m (waiting inp s), None), s1)" "0 < m" "m \<le> ?len"
    "m \<le> length (waiting inp s)" "waiting inp s1 = drop m (waiting inp s)" "netless s1 = netless s" "shell s1 = shell s" "g_out s1 = g_out s"
    using recv_piece_takes [OF A(1,6,5) pos w(1)] by blast
  let ?d = "take m (waiting inp s)" and ?rx = "\<lambda>e. store_rxd ?sk None (take m (waiting inp s)) (so_rxd e)"
  let ?s2 = "on_env (\<lambda>e. e\<lparr>so_recv_cnt := so_recv_cnt e + 1, so_recv_len := so_recv_len e + of_int (int m), so_rxd := ?rx e\<rparr>) s1"
  note g = netlessD [OF p(6)] and gl = glueD [OF netlessD(1) [OF p(6)]]
  have id: "sk_id ?sk = fd" by (rule search_entry(2) [OF A(4,2)])
  have d: "?d \<noteq> []" "length ?d \<le> 4096" using p(2-4) by (auto simp: ATCMD_DATA_LEN_MAX_def)
  have rx: "so_rxd (g_env ?s2) = store_rxd ?sk None ?d (so_rxd (g_env s))" using g(7) by simp
  have num: "0 \<le> sk_id ?sk" "number_ok (nat (sk_id ?sk))" using id A(2,3) by (simp_all add: number_ok_def LONG_MAX_def)
  note ok = store_rxd_ok [OF A(9,10) num d]
  have st: "length (g_stack ?s2) = 129" using A(8) shellD(4) [OF p(7)] by (simp add: on_env_def)
  obtain rxd' where t: "deliver_rxd ?s2 = on_env (\<lambda>e. e\<lparr>so_rxd := rxd'\<rparr>)
      (atcmd_transmit (encode (data_msg (so_verbose (g_env s)) ?sk ?d)) ?s2)" "length (rx_msg rxd') = 128" "length (rx_data rxd') = 4096"
    using deliver_rxd_sends [OF st, unfolded rx, OF ok(1)] g(6) unfolding ok(2) by auto
  let ?t = "deliver_rxd ?s2"
  have e: "recv_one N fd (int len) False s = (int m, ?t)"
    using A(4) p(1,2) by (simp add: recv_one_def Let_def)
  have env: "g_env ?t = (g_env ?s2)\<lparr>so_rxd := rxd'\<rparr>" "shell ?t = shell s" "g_out ?t = g_out s @ encode (data_msg (so_verbose (g_env s)) ?sk ?d)"
    using p(7,8) unfolding t(1) by (simp_all add: atcmd_transmit_def) (simp add: shell_def on_env_def)
  have k: "kept s ?t" using g env p(6) by (simp add: kept_def)
  have "receiver_ready N fd inp k ?t"
    using A t(2,3) env(1) g(2,4) gl(1) shellD(4) [OF env(2)]
    by (simp add: receiver_ready_def ATCMD_SOCKET_NUM_MAX_def atcmd_socket_search_def)
  moreover have "waiting inp ?t = drop m (waiting inp s)" using p(5) env(1) by simp
  ultimately show ?thesis using e p(2-4) env(3) k by (auto simp: ATCMD_DATA_LEN_MAX_def)
qed

subsection \<open>All that has arrived\<close>

lemma kept_ready:
  assumes "kept s t" shows "so_verbose (g_env t) = so_verbose (g_env s)" "table t = table s"
  using assms by (simp_all add: kept_def)

lemma recv_loop_takes:
  fixes s :: "('f, 'n, 'z) sock"
  shows "receiver_ready N fd inp k s \<Longrightarrow> len - i = int (length (waiting inp s)) \<Longrightarrow> length (waiting inp s) \<le> n \<Longrightarrow>
    \<exists>bs t. recv_loop N n fd len i s = t \<and> concat bs = waiting inp s \<and> list_all block_ok bs \<and> waiting inp t = [] \<and>
      g_out t = g_out s @ concat (map (encode \<circ> data_msg (so_verbose (g_env s)) (table s ! k)) bs) \<and> receiver_ready N fd inp k t \<and> kept s t"
proof (induction n arbitrary: i s)
  case 0
  then show ?case by (intro exI [of _ "[]"]) (simp add: kept_def)
next
  case (Suc n)
  show ?case
  proof (cases "waiting inp s = []")
    case True
    then show ?thesis using Suc.prems by (intro exI [of _ "[]"]) (simp add: kept_def)
  next
    case False
    define l where "l = min (length (waiting inp s)) ATCMD_DATA_LEN_MAX"
    have l: "(if len - i \<ge> int ATCMD_DATA_LEN_MAX then int ATCMD_DATA_LEN_MAX else len - i) = int l" "0 < l"
      using Suc.prems(2) False by (auto simp: l_def ATCMD_DATA_LEN_MAX_def)
    obtain m t1 where 1: "recv_one N fd (int l) False s = (int m, t1)" "0 < m" "m \<le> 4096" "m \<le> length (waiting inp s)"
      "waiting inp t1 = drop m (waiting inp s)"
      "g_out t1 = g_out s @ encode (data_msg (so_verbose (g_env s)) (table s ! k) (take m (waiting inp s)))"
      "receiver_ready N fd inp k t1" "kept s t1"
      using recv_one_takes [OF Suc.prems(1) False l(2)] by blast
    have p: "len - (i + int m) = int (length (waiting inp t1))" "length (waiting inp t1) \<le> n"
      using Suc.prems(2,3) 1(2,4,5) by simp_all
    obtain bs t where 2: "recv_loop N n fd len (i + int m) t1 = t" "concat bs = waiting inp t1" "list_all block_ok bs" "waiting inp t = []"
      "g_out t = g_out t1 @ concat (map (encode \<circ> data_msg (so_verbose (g_env t1)) (table t1 ! k)) bs)" "receiver_ready N fd inp k t" "kept t1 t"
      using Suc.IH [OF 1(7) p] by blast
    have lt: "\<not> len \<le> i" using Suc.prems(2) False by (cases "waiting inp s") simp_all
    have "recv_loop N (Suc n) fd len i s = t" using lt 1(1) 2(1) by (simp add: l(1))
    moreover have "concat (take m (waiting inp s) # bs) = waiting inp s" using 2(2) 1(5) by simp
    moreover have "list_all block_ok (take m (waiting inp s) # bs)" using 2(3) 1(2-4) by (auto simp: block_ok_def)
    moreover have "g_out t = g_out s @ concat (map (encode \<circ> data_msg (so_verbose (g_env s)) (table s ! k)) (take m (waiting inp s) # bs))"
      using 2(5) 1(6) by (simp add: kept_ready [OF 1(8)])
    ultimately show ?thesis using 2(4,6) kept_trans [OF 1(8) 2(7)] by blast
  qed
qed

lemma recv_handler_takes:
  fixes s :: "('f, 'n, 'z) sock"
  assumes R: "receiver_ready N fd inp k s" and w: "waiting inp s \<noteq> []" and n: "length (waiting inp s) \<le> n_turns N"
  shows "\<exists>bs t. atcmd_socket_recv_handler N fd s = t \<and> concat bs = waiting inp s \<and> list_all block_ok bs \<and> waiting inp t = [] \<and>
      g_out t = g_out s @ concat (map (encode \<circ> data_msg (so_verbose (g_env s)) (table s ! k)) bs) \<and> receiver_ready N fd inp k t \<and> kept s t"
proof -
  let ?f = "lwip_socket_recv_len N fd" and ?v = "(lwip_of s)\<lparr>li_erange := be_errno (g_env s)\<rparr>"
  have A: "input_law N fd inp" "0 \<le> fd" "fd < int ATCMD_SOCKET_NUM_MAX" "\<not> so_passive (g_env s)"
    using R by (simp_all add: receiver_ready_def)
  obtain nn where q: "n_fionread N fd (li_net (lwip_of s)) = ((0, int (length (waiting inp s))), nn)" "inp nn = waiting inp s"
    using A(1) unfolding input_law_def by (metis prod.collapse)
  define s1 where "s1 = snd (on_lwip ?f s)"
  have f: "on_lwip ?f s = (int (length (waiting inp s)), s1)" unfolding s1_def
    by (intro prod_eqI) (simp_all add: on_lwip_fst lwip_socket_recv_len_def net_query_def q(1))
  have s1: "netless s1 = netless s" "shell s1 = shell s" "g_out s1 = g_out s" unfolding s1_def by simp_all
  have wt: "waiting inp s1 = waiting inp s" unfolding s1_def using q by (simp add: on_lwip_env lwip_socket_recv_len_def net_query_def)
  note g = netlessD [OF s1(1)] and gl = glueD [OF netlessD(1) [OF s1(1)]]
  have R1: "receiver_ready N fd inp k s1"
    using R g gl shellD(4) [OF s1(2)] by (simp add: receiver_ready_def atcmd_socket_search_def)
  have K: "kept s s1" by (rule netless_kept [OF s1(1,2)])
  have p: "int (length (waiting inp s)) - 0 = int (length (waiting inp s1))" "length (waiting inp s1) \<le> n_turns N"
    using wt n by simp_all
  obtain bs t where 2: "recv_loop N (n_turns N) fd (int (length (waiting inp s))) 0 s1 = t" "concat bs = waiting inp s1"
    "list_all block_ok bs" "waiting inp t = []"
    "g_out t = g_out s1 @ concat (map (encode \<circ> data_msg (so_verbose (g_env s1)) (table s1 ! k)) bs)" "receiver_ready N fd inp k t" "kept s1 t"
    using recv_loop_takes [OF R1 p] by blast
  have "atcmd_socket_recv_handler N fd s = t"
    using A(2-4) w 2(1) g(4) by (simp add: atcmd_socket_recv_handler_def f)
  moreover have "g_out t = g_out s @ concat (map (encode \<circ> data_msg (so_verbose (g_env s)) (table s ! k)) bs)"
    using 2(5) unfolding s1(3) kept_ready [OF K] .
  moreover have "concat bs = waiting inp s" using 2(2) wt by (rule trans)
  ultimately show ?thesis using 2(3,4,6) kept_trans [OF K 2(7)] by blast
qed

subsection \<open>The socket task when only the receiver's descriptor is ready\<close>

definition only_readable :: "'n net_api \<Rightarrow> int \<Rightarrow> ('n \<Rightarrow> 'a) \<Rightarrow> bool" where
  "only_readable N fd inp \<longleftrightarrow>
     (\<forall>k rd wr n. fd \<in> rd \<longrightarrow> fst (n_select N k rd wr n) = (1, {fd}, {}) \<and> inp (snd (n_select N k rd wr n)) = inp n) \<and>
     (\<forall>ms n. inp (n_delay N ms n) = inp n)"

lemma task_fds_read:
  "fd \<in> set fds \<Longrightarrow> distinct fds \<Longrightarrow> task_fds N {fd} {} 1 fds s = fd_readable N fd s"
  by (induction fds arbitrary: s) (auto simp: task_fds_none)

lemma task_reads:
  fixes s :: "('f, 'n, 'z) sock"
  assumes O: "only_readable N fd inp" and on: "li_on (lwip_of s)" and fds: "fd \<in> fds_read (lwip_of s)" "fds_write (lwip_of s) = {}"
    "fd \<notin> fds_listen (lwip_of s)" and fd: "0 \<le> fd" "fd < 32"
  shows "\<exists>s1. lwip_socket_task N s = net_pause N 1 (atcmd_socket_recv_handler N fd s1) \<and> netless s1 = netless s \<and> shell s1 = shell s \<and>
    waiting inp s1 = waiting inp s \<and> g_out s1 = g_out s"
proof -
  obtain m where m: "lwip_socket_fds_get (lwip_of s) = (m, fds_read (lwip_of s), {})" "nat (fd + 1) \<le> m"
    using fds_get_covers [of fd "lwip_of s"] fds fd by auto
  have w: "fd_word {} = {}" "fd_word (fds_read (lwip_of s)) \<noteq> {}" using fds(1) fd by (auto simp: fd_word_def)
  let ?q = "on_lwip (net_query (n_select N m (fds_read (lwip_of s)) {})) s"
  have q1: "fst ?q = (1, {fd}, {})" using O fds(1) by (simp add: on_lwip_fst net_query_def case_prod_beta only_readable_def)
  have q3: "waiting inp (snd ?q) = waiting inp s" using O fds(1) by (simp add: on_lwip_env net_query_def case_prod_beta only_readable_def)
  obtain s1 where q: "?q = ((1, {fd}, {}), s1)" using q1 by (metis prod.collapse)
  have mem: "fd \<in> set [0..int m - 1]" "distinct [0..int m - 1]" "m \<noteq> 0" using m(2) fd by auto
  have "netless (snd ?q) = netless s" "shell (snd ?q) = shell s" "g_out (snd ?q) = g_out s" by simp_all
  then have s1: "netless s1 = netless s" "shell s1 = shell s" "g_out s1 = g_out s" "waiting inp s1 = waiting inp s" using q q3 by simp_all
  have "fds_listen (lwip_of s1) = fds_listen (lwip_of s)" using glueD(4) [OF netlessD(1) [OF s1(1)]] .
  then have "fd_readable N fd s1 = atcmd_socket_recv_handler N fd s1" using fds(3) by (simp add: fd_readable_def)
  moreover have "lwip_socket_task N s = net_pause N 1 (task_fds N {fd} {} 1 [0..int m - 1] s1)"
    unfolding lwip_socket_task_def m(1) prod.case Let_def w(1) if_not_P [OF w(2)] if_not_P [OF mem(3)] by (simp add: q on)
  ultimately show ?thesis using s1 unfolding task_fds_read [OF mem(1,2)] by auto
qed

subsection \<open>At the host\<close>

lemma data_msg_ok:
  assumes "0 \<le> sk_id sk" and "number_ok (nat (sk_id sk))" and "block_ok d"
  shows "host_msg_ok (data_msg v sk d)"
proof -
  have p: "uint (sk_remote_port sk) < 2 ^ 16" using uint_lt2p [of "sk_remote_port sk"] by simp
  show ?thesis using assms ntoa_text [of "sk_remote_addr sk"] p
    by (auto simp: data_msg_def block_ok_def data_ok_def HOST_DATA_LEN_MAX_def number_ok_def LONG_MAX_def quoted_def arg_char_def text_char_def
        ATCMD_IPADDR_LEN_MIN_def ATCMD_IPADDR_LEN_MAX_def)
qed

text \<open>What the host's callback is told of a block.\<close>

definition block_rxd :: "bool \<Rightarrow> atcmd_socket \<Rightarrow> string \<Rightarrow> rxd" where
  "block_rxd v sk d = (if v then RxdSocket (int (length d)) (sk_id sk) (quoted (ip4addr_ntoa (sk_remote_addr sk))) (uint (sk_remote_port sk)) True
     else RxdSocket (int (length d)) (sk_id sk) ''0.0.0.0'' 0 False)"

lemma blocks_effect:
  assumes "0 \<le> sk_id sk" and "cb_rxd h = Some f"
  shows "h_env (fold host_effect (map (data_msg v sk) bs) h) = fold (\<lambda>b. f (block_rxd v sk b) b) bs (h_env h)"
  using assms(2)
proof (induction bs arbitrary: h)
  case (Cons b bs)
  have "cb_rxd (host_effect (data_msg v sk b) h) = Some f" using Cons.prems by (simp add: effect_cb_rxd)
  moreover have "h_env (host_effect (data_msg v sk b) h) = f (block_rxd v sk b) b (h_env h)"
    using Cons.prems assms(1) by (simp add: data_msg_def block_rxd_def data_effect_def call_def)
  ultimately show ?case using Cons.IH by simp
qed simp

text \<open>C7: What has arrived on a connected stream socket reaches the host: one turn of the socket task takes all of it off the
  network and transmits it, and the host's callback is run for blocks of one to 4096 bytes that put together are exactly
  these bytes, in order, each with the id of the socket, its length and, when the verbose announcement is on, the address
  and port of the peer.  The task returns, nothing stays behind, the socket stays in the task's set and the
  module and the host are ready for more.\<close>

theorem network_stream_reaches_host:
  fixes s :: "('f, 'n, 'z) sock"
  assumes "receiver_ready N fd inp k s" and "only_readable N fd inp" and "fd \<in> fds_read (lwip_of s)" and "fds_write (lwip_of s) = {}"
    and "fd \<notin> fds_listen (lwip_of s)" and "waiting inp s \<noteq> []" and "length (waiting inp s) \<le> n_turns N" and "g_out s = []"
    and "host_rest h" and "\<And>e. M e" and "cb_rxd h = Some f"
  shows "\<exists>bs h'. (\<lambda>t. concat bs = waiting inp s \<and> list_all block_ok bs \<and> waiting inp t = [] \<and>
      nrc_atcmd_recv M (g_out t) h = Some h' \<and> host_rest h' \<and>
      h_env h' = fold (\<lambda>b. f (block_rxd (so_verbose (g_env s)) (table s ! k) b) b) bs (h_env h) \<and>
      receiver_ready N fd inp k t \<and> fd \<in> fds_read (lwip_of t) \<and> table t = table s \<and> so_stuck (g_env t) = so_stuck (g_env s) \<and>
      so_fault (g_env t) = so_fault (g_env s)) (lwip_socket_task N s)"
proof -
  let ?sk = "table s ! k" and ?v = "so_verbose (g_env s)"
  have A: "0 \<le> fd" "fd < 10" "li_on (lwip_of s)" "search_id fd s = Some k"
    using assms(1) by (simp_all add: receiver_ready_def ATCMD_SOCKET_NUM_MAX_def)
  have fd: "fd < 32" using A(2) by simp
  obtain s1 where 1: "lwip_socket_task N s = net_pause N 1 (atcmd_socket_recv_handler N fd s1)" "netless s1 = netless s" "shell s1 = shell s"
    "waiting inp s1 = waiting inp s" "g_out s1 = g_out s"
    using task_reads [OF assms(2) A(3) assms(3-5) A(1) fd] by blast
  note g = netlessD [OF 1(2)] and gl = glueD [OF netlessD(1) [OF 1(2)]]
  have K: "kept s s1" by (rule netless_kept [OF 1(2,3)])
  have R1: "receiver_ready N fd inp k s1"
    using assms(1) g gl shellD(4) [OF 1(3)] by (simp add: receiver_ready_def atcmd_socket_search_def)
  have w: "waiting inp s1 \<noteq> []" "length (waiting inp s1) \<le> n_turns N" using 1(4) assms(6,7) by simp_all
  obtain bs u where 2: "atcmd_socket_recv_handler N fd s1 = u" "concat bs = waiting inp s1" "list_all block_ok bs" "waiting inp u = []"
    "g_out u = g_out s1 @ concat (map (encode \<circ> data_msg (so_verbose (g_env s1)) (table s1 ! k)) bs)" "receiver_ready N fd inp k u" "kept s1 u"
    using recv_handler_takes [OF R1 w] by blast
  let ?t = "net_pause N 1 u"
  have out: "g_out ?t = concat (map encode (map (data_msg ?v ?sk) bs))"
    using 2(5) unfolding 1(5) assms(8) kept_ready [OF K] by (simp add: net_pause_def)
  have id: "sk_id ?sk = fd" by (rule search_entry(2) [OF A(4,1)])
  then have num: "0 \<le> sk_id ?sk" "number_ok (nat (sk_id ?sk))" using A(1,2) by (simp_all add: number_ok_def LONG_MAX_def)
  have ok: "\<forall>m \<in> set (map (data_msg ?v ?sk) bs). host_msg_ok m"
    using 2(3) data_msg_ok [OF num] by (auto simp: list_all_iff)
  obtain h' where h': "nrc_atcmd_recv M (g_out ?t) h = Some h'" "host_rest h'" "frame h' = fold host_effect (map (data_msg ?v ?sk) bs) (frame h)"
    using host_hears [where M = M, OF assms(9,10) ok] unfolding out by blast
  have cb: "cb_rxd (frame h) = Some f" using assms(11) by simp
  have env: "h_env h' = fold (\<lambda>b. f (block_rxd ?v ?sk b) b) bs (h_env h)"
    using arg_cong [OF h'(3), of h_env] blocks_effect [OF num(1) cb, of ?v bs] by simp
  have "kept s ?t" using kept_trans [OF K 2(7)] by (simp add: kept_def net_pause_def)
  then have k: "table ?t = table s" "so_stuck (g_env ?t) = so_stuck (g_env s)" "so_fault (g_env ?t) = so_fault (g_env s)"
      "fds_read (lwip_of ?t) = fds_read (lwip_of s)"
    using glueD(2) by (auto simp: kept_def)
  have "waiting inp ?t = []" using 2(4) assms(2) by (simp add: only_readable_def)
  moreover have "receiver_ready N fd inp k ?t"
    using 2(6) shellD(4) [of ?t u] by (simp add: receiver_ready_def atcmd_socket_search_def)
  ultimately show ?thesis using 2(2,3) h'(1,2) env k assms(3) unfolding 1(1) 2(1) 1(4) by blast
qed

definition demo_in_net :: "(int \<Rightarrow> string) net_api" where
  "demo_in_net = demo_net\<lparr>n_select := \<lambda>k rd wr n. ((1, rd \<inter> {3}, {}), n), n_fionread := \<lambda>fd n. ((0, int (length (n fd))), n),
     n_recv := \<lambda>fd len n. ((int (length (take (min len 3) (n fd))), take (min len 3) (n fd)), n(fd := drop (min len 3) (n fd)))\<rparr>"

lemma demo_input: "input_law demo_in_net 3 (\<lambda>n. n 3)" "only_readable demo_in_net 3 (\<lambda>n. n 3)"
proof -
  have "\<exists>m. 0 < m \<and> m \<le> len \<and> m \<le> length xs \<and> length (take (min len 3) xs) = m \<and> take (min len 3) xs = take m xs \<and> drop (min len 3) xs = drop m xs"
    if "0 < len" "xs \<noteq> []" for len :: nat and xs :: string
    using that by (intro exI [of _ "min (length xs) (min len 3)"]) (auto simp: min_def)
  then show "input_law demo_in_net 3 (\<lambda>n. n 3)"
    unfolding input_law_def by (simp add: demo_in_net_def demo_net_def)
  show "only_readable demo_in_net 3 (\<lambda>n. n 3)"
    by (auto simp: only_readable_def demo_in_net_def demo_net_def)
qed

theorem network_stream_reaches_host_witness:
  "\<exists>h'. nrc_atcmd_recv (\<lambda>_. True) (g_out (lwip_socket_task demo_in_net (demo_sock (\<lambda>_. ''hello'')))) demo_host = Some h' \<and>
    concat (h_env h') = ''hello'' \<and> waiting (\<lambda>n. n 3) (lwip_socket_task demo_in_net (demo_sock (\<lambda>_. ''hello''))) = []"
proof -
  let ?s = "demo_sock (\<lambda>_ :: int. ''hello'')" and ?cb = "\<lambda>r buf e. e @ [take (nat (rxd_length r)) buf]"
  have r: "receiver_ready demo_in_net 3 (\<lambda>n. n 3) 0 ?s"
    using demo_input(1) demo_search
    by (simp add: receiver_ready_def ATCMD_SOCKET_NUM_MAX_def demo_sock_env_def demo_lwip_def demo_entry_def demo_rxd_def)
      (simp add: demo_sock_def demo_atcmd_def)
  have l: "3 \<in> fds_read (lwip_of ?s)" "fds_write (lwip_of ?s) = {}" "3 \<notin> fds_listen (lwip_of ?s)" "waiting (\<lambda>n. n 3) ?s = ''hello''"
    by (simp_all add: demo_sock_env_def demo_lwip_def)
  have w: "waiting (\<lambda>n. n 3) ?s \<noteq> []" "length (waiting (\<lambda>n. n 3) ?s) \<le> n_turns demo_in_net" using l(4) by (simp_all add: demo_in_net_def demo_net_def)
  have h: "host_rest demo_host" "cb_rxd demo_host = Some ?cb" "h_env demo_host = []" using demo_host_idle by (simp_all add: host_rest_def demo_host_def)
  have f: "fold (\<lambda>b. ?cb (block_rxd v sk b) b) bs e = e @ bs" for v sk bs e
    by (induction bs arbitrary: e) (simp_all add: block_rxd_def)
  show ?thesis
    using network_stream_reaches_host [where M = "\<lambda>_. True", OF r demo_input(2) l(1-3) w _ h(1) TrueI h(2)]
    unfolding f h(3) l(4) by auto
qed

end
