(* ===== verification/AtcmdSocketDgram.thy ===== *)
theory AtcmdSocketDgram
  imports AtcmdSocketRecv
begin

text \<open>
  Datagrams on their way from the network to the host, and the receive loop that does not end after a datagram
  longer than the buffer.
\<close>

subsection \<open>A queue of datagrams\<close>

text \<open>
  The queue of a datagram socket: the bytes of each with the address and port of its sender.  \<open>FIONREAD\<close> counts the
  bytes of all of them (\<open>LWIP_FIONREAD_LINUXMODE\<close> is 0), a read takes the first one and cuts it at the length of the
  buffer, and \<open>MSG_DONTWAIT\<close> on an empty queue gives \<open>EAGAIN\<close>.
\<close>

type_synonym dgram = "string \<times> u32 \<times> u16"

abbreviation amount :: "dgram list \<Rightarrow> nat" where "amount ds \<equiv> sum_list (map (\<lambda>x. length (fst x)) ds)"

definition dgram_law :: "'n net_api \<Rightarrow> int \<Rightarrow> ('n \<Rightarrow> dgram list) \<Rightarrow> bool" where
  "dgram_law N fd inp \<longleftrightarrow>
     (\<forall>n. fst (n_fionread N fd n) = (0, int (amount (inp n))) \<and> inp (snd (n_fionread N fd n)) = inp n) \<and>
     (\<forall>n. fst (n_getopt N fd SO_TYPE n) = (0, SOCK_DGRAM) \<and> inp (snd (n_getopt N fd SO_TYPE n)) = inp n) \<and>
     (\<forall>len n. 0 < len \<longrightarrow>
        (inp n = [] \<longrightarrow> fst (fst (n_recvfrom N fd len n)) = - LwipSocket.EAGAIN \<and> inp (snd (n_recvfrom N fd len n)) = []) \<and>
        (\<forall>d p q. inp n = (d, p) # q \<longrightarrow>
           fst (n_recvfrom N fd len n) = (int (length (take len d)), take len d, p) \<and> inp (snd (n_recvfrom N fd len n)) = q))"

text \<open>The entry as the message shows it: with the sender for the remote address.\<close>

definition peer_of :: "atcmd_socket \<Rightarrow> u32 \<times> u16 \<Rightarrow> atcmd_socket" where
  "peer_of sk p = sk\<lparr>sk_remote_addr := fst p, sk_remote_port := snd p\<rparr>"

lemma peer_of_id [simp]: "sk_id (peer_of sk p) = sk_id sk"
  by (simp add: peer_of_def)

lemma store_rxd_peer: "store_rxd sk (Some p) d rxd = store_rxd (peer_of sk p) None d rxd"
  by (simp add: store_rxd_def peer_of_def case_prod_beta)

definition dgram_ready :: "'n net_api \<Rightarrow> int \<Rightarrow> ('n \<Rightarrow> dgram list) \<Rightarrow> nat \<Rightarrow> ('f, 'n, 'z) sock \<Rightarrow> bool" where
  "dgram_ready N fd inp k s \<longleftrightarrow> dgram_law N fd inp \<and> 0 \<le> fd \<and> fd < int ATCMD_SOCKET_NUM_MAX \<and> search_id fd s = Some k \<and>
     sk_protocol (table s ! k) = PROTO_UDP \<and> li_on (lwip_of s) \<and> \<not> so_passive (g_env s) \<and> length (g_stack s) = 129 \<and>
     length (rx_msg (so_rxd (g_env s))) = 128 \<and> length (rx_data (so_rxd (g_env s))) = 4096"

lemma dgram_ready_kept:
  fixes s t :: "('f, 'n, 'z) sock"
  assumes "dgram_ready N fd inp k s" and "netless t = netless s" and "shell t = shell s"
  shows "dgram_ready N fd inp k t"
  using assms(1) netlessD [OF assms(2)] glueD [OF netlessD(1) [OF assms(2)]] shellD(4) [OF assms(3)]
  by (simp add: dgram_ready_def atcmd_socket_search_def)

lemma dgram_law_read:
  assumes "dgram_law N fd inp" and "0 < len"
  shows "inp n = [] \<Longrightarrow> fst (fst (n_recvfrom N fd len n)) = - LwipSocket.EAGAIN \<and> inp (snd (n_recvfrom N fd len n)) = []"
    "inp n = (d, p) # q \<Longrightarrow> fst (n_recvfrom N fd len n) = (int (length (take len d)), take len d, p) \<and> inp (snd (n_recvfrom N fd len n)) = q"
  using assms unfolding dgram_law_def by blast+

lemma recv_piece_udp:
  fixes s :: "('f, 'n, 'z) sock"
  assumes L: "dgram_law N fd inp" and on: "li_on (lwip_of s)" and sk: "sk_protocol sk = PROTO_UDP" and len: "0 < len"
  shows "waiting inp s = [] \<Longrightarrow> fst (fst (recv_piece N fd sk len s)) = - LwipSocket.EAGAIN \<and> waiting inp (snd (recv_piece N fd sk len s)) = []"
    "waiting inp s = (d, p) # q \<Longrightarrow> d \<noteq> [] \<Longrightarrow>
      fst (recv_piece N fd sk len s) = (int (length (take len d)), take len d, Some p) \<and> waiting inp (snd (recv_piece N fd sk len s)) = q"
proof -
  let ?v = "(lwip_of s)\<lparr>li_erange := be_errno (g_env s)\<rparr>"
  obtain n1 where g: "n_getopt N fd SO_TYPE (li_net (lwip_of s)) = ((0, SOCK_DGRAM), n1)" "inp n1 = waiting inp s"
    using L unfolding dgram_law_def by (metis prod.collapse)
  have p: "recv_piece N fd sk len s = on_lwip (lwip_socket_recv_udp N fd len) s" using sk by (simp add: recv_piece_def)
  have dg: "SOCK_DGRAM \<noteq> SOCK_STREAM" by (simp add: SOCK_DGRAM_def SOCK_STREAM_def)
  have r: "lwip_socket_recv_udp N fd len ?v = (let x = n_recvfrom N fd len n1; ret = fst (fst x) in
      ((ret, fst (snd (fst x)), if ret > 0 then Some (snd (snd (fst x))) else None), ?v\<lparr>li_net := snd x, li_erange := be_errno (g_env s) \<and> 0 \<le> ret\<rparr>))"
    using on g(1) dg by (simp add: lwip_socket_recv_udp_def lwip_socket_get_type_def net_query_def case_prod_beta Let_def)
  show "fst (fst (recv_piece N fd sk len s)) = - LwipSocket.EAGAIN \<and> waiting inp (snd (recv_piece N fd sk len s)) = []" if "waiting inp s = []"
    using dgram_law_read(1) [OF L len, of n1] g(2) that unfolding p by (simp add: on_lwip_fst on_lwip_env r Let_def)
  show "fst (recv_piece N fd sk len s) = (int (length (take len d)), take len d, Some p) \<and> waiting inp (snd (recv_piece N fd sk len s)) = q"
    if "waiting inp s = (d, p) # q" "d \<noteq> []"
    using dgram_law_read(2) [OF L len, of n1 d p q] g(2) that len unfolding p by (simp add: on_lwip_fst on_lwip_env r Let_def)
qed

subsection \<open>One call\<close>

definition dgram_msg :: "bool \<Rightarrow> atcmd_socket \<Rightarrow> dgram \<Rightarrow> host_msg" where
  "dgram_msg v sk x = data_msg v (peer_of sk (snd x)) (fst x)"

lemma recv_piece_out [simp]: "g_out (snd (recv_piece N i sk len s)) = g_out s"
  by (simp add: recv_piece_def case_prod_beta split: socket_proto.split)

lemma recv_one_dgram:
  fixes s :: "('f, 'n, 'z) sock"
  assumes R: "dgram_ready N fd inp k s" and w: "waiting inp s = (d, p) # q" "d \<noteq> []" "0 < len"
  defines "x \<equiv> take (min len 4096) d"
  shows "\<exists>t. recv_one N fd (int len) False s = (int (length x), t) \<and> waiting inp t = q \<and>
    g_out t = g_out s @ encode (dgram_msg (so_verbose (g_env s)) (table s ! k) (x, p)) \<and> dgram_ready N fd inp k t \<and> kept s t"
proof -
  have A: "dgram_law N fd inp" "0 \<le> fd" "fd < 10" "search_id fd s = Some k" "sk_protocol (table s ! k) = PROTO_UDP" "li_on (lwip_of s)"
    "length (g_stack s) = 129" "length (rx_msg (so_rxd (g_env s))) = 128" "length (rx_data (so_rxd (g_env s))) = 4096"
    using R by (simp_all add: dgram_ready_def ATCMD_SOCKET_NUM_MAX_def)
  let ?sk = "table s ! k" and ?v = "so_verbose (g_env s)"
  have pos: "0 < min len 4096" using w(3) by simp
  define s1 where "s1 = snd (recv_piece N fd ?sk (min len 4096) s)"
  have p: "recv_piece N fd ?sk (min len 4096) s = ((int (length x), x, Some p), s1)" "waiting inp s1 = q"
    using recv_piece_udp(2) [OF A(1,6,5) pos w(1,2)] unfolding s1_def x_def by (metis prod.collapse)+
  have n1: "netless s1 = netless s" "shell s1 = shell s" "g_out s1 = g_out s" unfolding s1_def by simp_all
  have x: "x \<noteq> []" "length x \<le> 4096" using w(2,3) by (simp_all add: x_def)
  define s2 where "s2 = on_env (\<lambda>e. e\<lparr>so_recv_cnt := so_recv_cnt e + 1, so_recv_len := so_recv_len e + of_int (int (length x)),
      so_rxd := store_rxd ?sk (Some p) x (so_rxd e)\<rparr>) s1"
  note g = netlessD [OF n1(1)]
  have rx: "so_rxd (g_env s2) = store_rxd (peer_of ?sk p) None x (so_rxd (g_env s))" using g(7) by (simp add: s2_def store_rxd_peer)
  have id: "sk_id ?sk = fd" by (rule search_entry(2) [OF A(4,2)])
  have num: "0 \<le> sk_id (peer_of ?sk p)" "number_ok (nat (sk_id (peer_of ?sk p)))"
    using id A(2,3) by (simp_all add: number_ok_def LONG_MAX_def)
  note ok = store_rxd_ok [OF A(8,9) num x]
  have st: "length (g_stack s2) = 129" using A(7) shellD(4) [OF n1(2)] by (simp add: s2_def on_env_def)
  obtain rxd' where t: "deliver_rxd s2 = on_env (\<lambda>e. e\<lparr>so_rxd := rxd'\<rparr>)
      (atcmd_transmit (encode (dgram_msg ?v ?sk (x, p))) s2)" "length (rx_msg rxd') = 128" "length (rx_data rxd') = 4096"
    using deliver_rxd_sends [OF st, unfolded rx, OF ok(1)] g(6) unfolding ok(2) by (auto simp: s2_def dgram_msg_def)
  have e: "recv_one N fd (int len) False s = (int (length x), deliver_rxd s2)"
    using A(4) p(1) x(1) by (simp add: recv_one_def Let_def ATCMD_DATA_LEN_MAX_def s2_def)
  have env: "g_env (deliver_rxd s2) = (g_env s2)\<lparr>so_rxd := rxd'\<rparr>" "shell (deliver_rxd s2) = shell s"
    "g_out (deliver_rxd s2) = g_out s @ encode (dgram_msg ?v ?sk (x, p))"
    using n1(2,3) unfolding t(1) by (simp_all add: atcmd_transmit_def s2_def) (simp add: shell_def on_env_def)
  have k: "kept s (deliver_rxd s2)" using g env by (simp add: kept_def s2_def)
  have "dgram_ready N fd inp k (deliver_rxd s2)"
    using R t(2,3) env(1) g(2,4) glueD(1) [OF g(1)] shellD(4) [OF env(2)]
    by (simp add: dgram_ready_def atcmd_socket_search_def s2_def)
  moreover have "waiting inp (deliver_rxd s2) = q" using p(2) env(1) by (simp add: s2_def)
  ultimately show ?thesis using e env(3) k by blast
qed

lemma recv_one_again:
  fixes s :: "('f, 'n, 'z) sock"
  assumes R: "dgram_ready N fd inp k s" and w: "waiting inp s = []" "0 < len"
  shows "\<exists>t. recv_one N fd (int len) False s = (0, t) \<and> waiting inp t = [] \<and> dgram_ready N fd inp k t"
proof -
  have A: "dgram_law N fd inp" "search_id fd s = Some k" "sk_protocol (table s ! k) = PROTO_UDP" "li_on (lwip_of s)"
    using R by (simp_all add: dgram_ready_def)
  have pos: "0 < min len 4096" using w(2) by simp
  define s1 where "s1 = snd (recv_piece N fd (table s ! k) (min len 4096) s)"
  obtain x peer where p: "recv_piece N fd (table s ! k) (min len 4096) s = ((- LwipSocket.EAGAIN, x, peer), s1)" "waiting inp s1 = []"
    using recv_piece_udp(1) [OF A(1,4,3) pos w(1)] unfolding s1_def by (metis prod.collapse)
  have n1: "netless s1 = netless s" "shell s1 = shell s" unfolding s1_def by simp_all
  have R1: "dgram_ready N fd inp k s1" by (rule dgram_ready_kept [OF R n1])
  then have "search_id fd s1 = Some k" by (simp add: dgram_ready_def)
  then have "recv_one N fd (int len) False s = (0, s1)"
    using A(2) p(1) by (simp add: recv_one_def ATCMD_DATA_LEN_MAX_def LwipSocket.EAGAIN_def)
  then show ?thesis using p(2) R1 by blast
qed

subsection \<open>The receive loop\<close>

text \<open>The size of the next read: the whole of a datagram of at most 4096 bytes is among what is still to come.\<close>

lemma next_read:
  assumes "len - i = int n" and "0 < n"
  shows "(if len - i \<ge> int ATCMD_DATA_LEN_MAX then int ATCMD_DATA_LEN_MAX else len - i) = int (min n 4096)"
  using assms by (simp add: ATCMD_DATA_LEN_MAX_def min_def)

text \<open>Nothing in the queue, but the count not reached: the loop goes on for ever.\<close>

lemma recv_loop_spins:
  fixes s :: "('f, 'n, 'z) sock"
  shows "dgram_ready N fd inp k s \<Longrightarrow> waiting inp s = [] \<Longrightarrow> i < len \<Longrightarrow> so_stuck (g_env (recv_loop N n fd len i s))"
proof (induction n arbitrary: s)
  case 0
  then show ?case by (simp add: set_stuck_def)
next
  case (Suc n)
  have l: "len - i = int (nat (len - i))" "0 < nat (len - i)" using Suc.prems(3) by simp_all
  have pos: "0 < min (nat (len - i)) 4096" using l(2) by simp
  obtain t where t: "recv_one N fd (int (min (nat (len - i)) 4096)) False s = (0, t)" "waiting inp t = []" "dgram_ready N fd inp k t"
    using recv_one_again [OF Suc.prems(1,2) pos] by blast
  have e: "recv_loop N (Suc n) fd len i s = recv_loop N n fd len i t"
    using Suc.prems(3) t(1) unfolding recv_loop.simps next_read [OF l] by simp
  show ?case unfolding e by (rule Suc.IH [OF t(3,2) Suc.prems(3)])
qed

text \<open>One datagram of the queue in the loop.\<close>

lemma recv_loop_dgram:
  fixes s :: "('f, 'n, 'z) sock"
  assumes R: "dgram_ready N fd inp k s" and w: "waiting inp s = (d, p) # q" "d \<noteq> []" and l: "int (amount (waiting inp s)) \<le> len - i"
  shows "\<exists>x t. recv_loop N (Suc n) fd len i s = recv_loop N n fd len (i + int (length x)) t \<and> x = take 4096 d \<and> waiting inp t = q \<and>
    g_out t = g_out s @ encode (dgram_msg (so_verbose (g_env s)) (table s ! k) (x, p)) \<and> dgram_ready N fd inp k t \<and> kept s t"
proof -
  have dl: "int (length d) \<le> len - i" "0 < length d" using w l by simp_all
  have n: "len - i = int (nat (len - i))" "0 < nat (len - i)" using dl by linarith+
  have m: "take (min (min (nat (len - i)) 4096) 4096) d = take 4096 d"
  proof -
    have "length d \<le> nat (len - i)" using dl(1) by linarith
    then show ?thesis by (simp add: min_def)
  qed
  have pos: "0 < min (nat (len - i)) 4096" using n(2) by simp
  obtain t where t: "recv_one N fd (int (min (nat (len - i)) 4096)) False s = (int (length (take 4096 d)), t)" "waiting inp t = q"
    "g_out t = g_out s @ encode (dgram_msg (so_verbose (g_env s)) (table s ! k) (take 4096 d, p))" "dgram_ready N fd inp k t" "kept s t"
    using recv_one_dgram [OF R w pos] unfolding m by blast
  have "\<not> len \<le> i" using n(2) by simp
  then have "recv_loop N (Suc n) fd len i s = recv_loop N n fd len (i + int (length (take 4096 d))) t"
    using t(1) unfolding recv_loop.simps next_read [OF n] by simp
  then show ?thesis using t(2-5) by blast
qed

lemma recv_loop_short:
  fixes s :: "('f, 'n, 'z) sock"
  shows "dgram_ready N fd inp k s \<Longrightarrow> \<forall>x \<in> set (waiting inp s). fst x \<noteq> [] \<Longrightarrow> int (amount (waiting inp s)) < len - i \<Longrightarrow>
    so_stuck (g_env (recv_loop N n fd len i s))"
proof (induction n arbitrary: i s)
  case 0
  then show ?case by (simp add: set_stuck_def)
next
  case (Suc n)
  show ?case
  proof (cases "waiting inp s")
    case Nil
    have "i < len" using Nil Suc.prems(3) by simp
    then show ?thesis by (rule recv_loop_spins [OF Suc.prems(1) Nil])
  next
    case (Cons y q)
    obtain d p where y: "waiting inp s = (d, p) # q" using Cons by (cases y) simp
    have d: "d \<noteq> []" "int (amount (waiting inp s)) \<le> len - i" using Suc.prems(2,3) y by simp_all
    obtain x t where t: "recv_loop N (Suc n) fd len i s = recv_loop N n fd len (i + int (length x)) t" "x = take 4096 d" "waiting inp t = q"
      "dgram_ready N fd inp k t"
      using recv_loop_dgram [OF Suc.prems(1) y d] by blast
    have "\<forall>x \<in> set (waiting inp t). fst x \<noteq> []" "int (amount (waiting inp t)) < len - (i + int (length x))"
      using Suc.prems(2,3) y t(2,3) by (simp_all add: min_def)
    then show ?thesis unfolding t(1) by (rule Suc.IH [OF t(4)])
  qed
qed

lemma recv_loop_oversized:
  fixes s :: "('f, 'n, 'z) sock"
  shows "dgram_ready N fd inp k s \<Longrightarrow> \<forall>x \<in> set (waiting inp s). fst x \<noteq> [] \<Longrightarrow> int (amount (waiting inp s)) = len - i \<Longrightarrow>
    \<exists>x \<in> set (waiting inp s). 4096 < length (fst x) \<Longrightarrow> so_stuck (g_env (recv_loop N n fd len i s))"
proof (induction n arbitrary: i s)
  case 0
  then obtain x where "x \<in> set (waiting inp s)" "4096 < length (fst x)" by blast
  then have "4096 < amount (waiting inp s)" using member_le_sum_list [of "length (fst x)" "map (\<lambda>x. length (fst x)) (waiting inp s)"] by simp
  then show ?case using 0 by (simp add: set_stuck_def)
next
  case (Suc n)
  obtain d p q where y: "waiting inp s = (d, p) # q" using Suc.prems(4) by (cases "waiting inp s") auto
  have d: "d \<noteq> []" "int (amount (waiting inp s)) \<le> len - i" using Suc.prems(2,3) y by simp_all
  obtain x t where t: "recv_loop N (Suc n) fd len i s = recv_loop N n fd len (i + int (length x)) t" "x = take 4096 d" "waiting inp t = q"
    "dgram_ready N fd inp k t"
    using recv_loop_dgram [OF Suc.prems(1) y d] by blast
  have ne: "\<forall>x \<in> set (waiting inp t). fst x \<noteq> []" using Suc.prems(2) y t(3) by simp
  show ?case
  proof (cases "4096 < length d")
    case True
    then have "int (amount (waiting inp t)) < len - (i + int (length x))" using Suc.prems(3) y t(2,3) by (simp add: min_def)
    then show ?thesis unfolding t(1) by (rule recv_loop_short [OF t(4) ne])
  next
    case False
    then have "int (amount (waiting inp t)) = len - (i + int (length x))" "\<exists>x \<in> set (waiting inp t). 4096 < length (fst x)"
      using Suc.prems(3,4) y t(2,3) by (simp_all add: min_def)
    then show ?thesis unfolding t(1) by (rule Suc.IH [OF t(4) ne])
  qed
qed

lemma recv_loop_dgrams:
  fixes s :: "('f, 'n, 'z) sock"
  shows "dgram_ready N fd inp k s \<Longrightarrow> \<forall>x \<in> set (waiting inp s). block_ok (fst x) \<Longrightarrow> int (amount (waiting inp s)) = len - i \<Longrightarrow>
    length (waiting inp s) \<le> n \<Longrightarrow> (\<lambda>t. waiting inp t = [] \<and>
      g_out t = g_out s @ concat (map (encode \<circ> dgram_msg (so_verbose (g_env s)) (table s ! k)) (waiting inp s)) \<and> dgram_ready N fd inp k t \<and> kept s t)
      (recv_loop N n fd len i s)"
proof (induction n arbitrary: i s)
  case 0
  then show ?case by (simp add: kept_def)
next
  case (Suc n)
  show ?case
  proof (cases "waiting inp s")
    case Nil
    then show ?thesis using Suc.prems by (simp add: kept_def)
  next
    case (Cons y q)
    obtain d p where y: "waiting inp s = (d, p) # q" using Cons by (cases y) simp
    have d: "d \<noteq> []" "int (amount (waiting inp s)) \<le> len - i" "take 4096 d = d" using Suc.prems(2,3) y by (simp_all add: block_ok_def)
    obtain t where t: "recv_loop N (Suc n) fd len i s = recv_loop N n fd len (i + int (length d)) t" "waiting inp t = q"
      "g_out t = g_out s @ encode (dgram_msg (so_verbose (g_env s)) (table s ! k) (d, p))" "dgram_ready N fd inp k t" "kept s t"
      using recv_loop_dgram [OF Suc.prems(1) y d(1,2)] unfolding d(3) by blast
    have r: "\<forall>x \<in> set (waiting inp t). block_ok (fst x)" "int (amount (waiting inp t)) = len - (i + int (length d))" "length (waiting inp t) \<le> n"
      using Suc.prems(2-4) y t(2) by simp_all
    note I = Suc.IH [OF t(4) r]
    have k: "kept s (recv_loop N n fd len (i + int (length d)) t)" using I by (blast intro: kept_trans [OF t(5)])
    show ?thesis using I k unfolding t(1) by (simp add: kept_ready [OF t(5)] t(2,3) y)
  qed
qed

subsection \<open>A turn of the task\<close>

lemma recv_handler_loops:
  fixes s :: "('f, 'n, 'z) sock"
  assumes R: "dgram_ready N fd inp k s" and w: "0 < amount (waiting inp s)"
  shows "\<exists>t. atcmd_socket_recv_handler N fd s = recv_loop N (n_turns N) fd (int (amount (waiting inp s))) 0 t \<and>
    dgram_ready N fd inp k t \<and> kept s t \<and> waiting inp t = waiting inp s \<and> g_out t = g_out s"
proof -
  let ?f = "lwip_socket_recv_len N fd"
  have A: "dgram_law N fd inp" "0 \<le> fd" "fd < int ATCMD_SOCKET_NUM_MAX" "\<not> so_passive (g_env s)"
    using R by (simp_all add: dgram_ready_def)
  obtain nn where q: "n_fionread N fd (li_net (lwip_of s)) = ((0, int (amount (waiting inp s))), nn)" "inp nn = waiting inp s"
    using A(1) unfolding dgram_law_def by (metis prod.collapse)
  define s1 where "s1 = snd (on_lwip ?f s)"
  define len where "len = int (amount (waiting inp s))"
  have len: "0 < len" using w by (simp add: len_def)
  have f: "on_lwip ?f s = (len, s1)" unfolding s1_def
    by (intro prod_eqI) (simp_all add: on_lwip_fst lwip_socket_recv_len_def net_query_def q(1) len_def)
  have n1: "netless s1 = netless s" "shell s1 = shell s" "g_out s1 = g_out s" unfolding s1_def by simp_all
  have "waiting inp s1 = waiting inp s" unfolding s1_def using q by (simp add: on_lwip_env lwip_socket_recv_len_def net_query_def)
  moreover have "atcmd_socket_recv_handler N fd s = recv_loop N (n_turns N) fd len 0 s1"
    using A(2-4) len netlessD(4) [OF n1(1)] by (simp add: atcmd_socket_recv_handler_def f)
  ultimately show ?thesis using dgram_ready_kept [OF R n1(1,2)] netless_kept [OF n1(1,2)] n1(3) unfolding len_def by blast
qed

lemma task_reads_dgrams:
  fixes s :: "('f, 'n, 'z) sock"
  assumes R: "dgram_ready N fd inp k s" and O: "only_readable N fd inp" and fds: "fd \<in> fds_read (lwip_of s)" "fds_write (lwip_of s) = {}"
    "fd \<notin> fds_listen (lwip_of s)" and w: "0 < amount (waiting inp s)"
  shows "\<exists>t. lwip_socket_task N s = net_pause N 1 (recv_loop N (n_turns N) fd (int (amount (waiting inp s))) 0 t) \<and>
    dgram_ready N fd inp k t \<and> kept s t \<and> waiting inp t = waiting inp s \<and> g_out t = g_out s"
proof -
  have A: "0 \<le> fd" "fd < 32" "li_on (lwip_of s)" using R by (simp_all add: dgram_ready_def ATCMD_SOCKET_NUM_MAX_def)
  obtain s1 where 1: "lwip_socket_task N s = net_pause N 1 (atcmd_socket_recv_handler N fd s1)" "netless s1 = netless s" "shell s1 = shell s"
    "waiting inp s1 = waiting inp s" "g_out s1 = g_out s"
    using task_reads [OF O A(3) fds A(1,2)] by blast
  have w1: "0 < amount (waiting inp s1)" using w 1(4) by simp
  obtain t where 2: "atcmd_socket_recv_handler N fd s1 = recv_loop N (n_turns N) fd (int (amount (waiting inp s1))) 0 t"
    "dgram_ready N fd inp k t" "kept s1 t" "waiting inp t = waiting inp s1" "g_out t = g_out s1"
    using recv_handler_loops [OF dgram_ready_kept [OF R 1(2,3)] w1] by blast
  show ?thesis
    using 2(2,4,5) kept_trans [OF netless_kept [OF 1(2,3)] 2(3)] unfolding 1(1) 2(1) 1(4,5) by blast
qed

subsection \<open>To the host, or for ever\<close>

lemma amount_pos: "ds \<noteq> [] \<Longrightarrow> \<forall>x \<in> set ds. fst x \<noteq> [] \<Longrightarrow> 0 < amount ds"
  by (cases ds) auto

lemma dgrams_effect:
  assumes "0 \<le> sk_id sk" and "cb_rxd h = Some f"
  shows "h_env (fold host_effect (map (dgram_msg v sk) ds) h) = fold (\<lambda>(d, p). f (block_rxd v (peer_of sk p) d) d) ds (h_env h)"
  using assms(2)
proof (induction ds arbitrary: h)
  case (Cons x ds)
  have "cb_rxd (host_effect (dgram_msg v sk x) h) = Some f" using Cons.prems by (simp add: effect_cb_rxd)
  moreover have "h_env (host_effect (dgram_msg v sk x) h) = f (block_rxd v (peer_of sk (snd x)) (fst x)) (fst x) (h_env h)"
    using Cons.prems assms(1) by (simp add: dgram_msg_def data_msg_def block_rxd_def data_effect_def call_def)
  ultimately show ?case using Cons.IH by (simp add: case_prod_beta)
qed simp

text \<open>C8: Datagrams of one to 4096 bytes that have arrived for a UDP socket reach the host: when the task is not in passive
  mode and the socket is the only one with something to do, one turn of the task takes all of them from the queue, and the
  host's callback is run once for each, in order, with exactly its bytes.  The address and port of its sender are passed on
  when the verbose announcement is on, and only then.  The task returns (the loop has a turn for each datagram) and the
  module and the host are ready for more.  The bound is that of the receive buffer; for what a longer datagram does see
  \<open>oversized_datagram_stops_task\<close>.\<close>

theorem datagrams_reach_host:
  fixes s :: "('f, 'n, 'z) sock"
  assumes "dgram_ready N fd inp k s" and "only_readable N fd inp" and "fd \<in> fds_read (lwip_of s)" and "fds_write (lwip_of s) = {}"
    and "fd \<notin> fds_listen (lwip_of s)" and "waiting inp s \<noteq> []" and "\<forall>x \<in> set (waiting inp s). block_ok (fst x)"
    and "length (waiting inp s) \<le> n_turns N" and "g_out s = []" and "host_rest h" and "\<And>e. M e" and "cb_rxd h = Some f"
  shows "\<exists>h'. (\<lambda>t. nrc_atcmd_recv M (g_out t) h = Some h' \<and> host_rest h' \<and>
      h_env h' = fold (\<lambda>(d, p). f (block_rxd (so_verbose (g_env s)) (peer_of (table s ! k) p) d) d) (waiting inp s) (h_env h) \<and>
      waiting inp t = [] \<and> dgram_ready N fd inp k t \<and> fd \<in> fds_read (lwip_of t) \<and> table t = table s \<and>
      so_stuck (g_env t) = so_stuck (g_env s) \<and> so_fault (g_env t) = so_fault (g_env s)) (lwip_socket_task N s)"
proof -
  let ?sk = "table s ! k" and ?v = "so_verbose (g_env s)" and ?ds = "waiting inp s"
  have A: "0 \<le> fd" "fd < 10" "search_id fd s = Some k" using assms(1) by (simp_all add: dgram_ready_def ATCMD_SOCKET_NUM_MAX_def)
  have pos: "0 < amount ?ds" using assms(6,7) by (intro amount_pos) (auto simp: block_ok_def)
  obtain t1 where 1: "lwip_socket_task N s = net_pause N 1 (recv_loop N (n_turns N) fd (int (amount ?ds)) 0 t1)"
    "dgram_ready N fd inp k t1" "kept s t1" "waiting inp t1 = ?ds" "g_out t1 = g_out s"
    using task_reads_dgrams [OF assms(1-5) pos] by blast
  have r: "\<forall>x \<in> set (waiting inp t1). block_ok (fst x)" "int (amount (waiting inp t1)) = int (amount ?ds) - 0" "length (waiting inp t1) \<le> n_turns N"
    unfolding 1(4) using assms(7,8) by simp_all
  define u where "u = recv_loop N (n_turns N) fd (int (amount ?ds)) 0 t1"
  have U: "waiting inp u = []" "g_out u = concat (map encode (map (dgram_msg ?v ?sk) ?ds))" "dgram_ready N fd inp k u" "kept t1 u"
    using recv_loop_dgrams [OF 1(2) r] unfolding u_def [symmetric] 1(4,5) kept_ready [OF 1(3)] assms(9) by simp_all
  have id: "sk_id ?sk = fd" by (rule search_entry(2) [OF A(3,1)])
  have num: "0 \<le> sk_id ?sk" "\<And>p. 0 \<le> sk_id (peer_of ?sk p)" "\<And>p. number_ok (nat (sk_id (peer_of ?sk p)))"
    using id A(1,2) by (simp_all add: number_ok_def LONG_MAX_def)
  have ok: "\<forall>m \<in> set (map (dgram_msg ?v ?sk) ?ds). host_msg_ok m"
    using assms(7) data_msg_ok [OF num(2,3)] by (auto simp: dgram_msg_def)
  obtain h' where h': "nrc_atcmd_recv M (g_out u) h = Some h'" "host_rest h'" "frame h' = fold host_effect (map (dgram_msg ?v ?sk) ?ds) (frame h)"
    using host_hears [where M = M, OF assms(10,11) ok] unfolding U(2) by blast
  have cb: "cb_rxd (frame h) = Some f" using assms(12) by simp
  have env: "h_env h' = fold (\<lambda>(d, p). f (block_rxd ?v (peer_of ?sk p) d) d) ?ds (h_env h)"
    using arg_cong [OF h'(3), of h_env] dgrams_effect [OF num(1) cb, of ?v ?ds] by simp
  let ?t = "net_pause N 1 u"
  have "kept s ?t" using kept_trans [OF 1(3) U(4)] by (simp add: kept_def net_pause_def)
  then have k: "table ?t = table s" "so_stuck (g_env ?t) = so_stuck (g_env s)" "so_fault (g_env ?t) = so_fault (g_env s)"
      "fds_read (lwip_of ?t) = fds_read (lwip_of s)"
    using glueD(2) by (auto simp: kept_def)
  have "waiting inp ?t = []" using U(1) assms(2) by (simp add: only_readable_def)
  moreover have "dgram_ready N fd inp k ?t"
    using U(3) shellD(4) [of ?t u] by (simp add: dgram_ready_def atcmd_socket_search_def)
  moreover have "g_out ?t = g_out u" by (simp add: net_pause_def)
  ultimately show ?thesis using h'(1,2) env k assms(3) unfolding 1(1) u_def [symmetric] by (intro exI [of _ h']) simp
qed

text \<open>C20: One datagram of more than 4096 bytes stops the module: the read cuts it, so the bytes read never add up to what
  \<open>FIONREAD\<close> counted, the loop of \<open>_atcmd_socket_recv_handler\<close> takes \<open>EAGAIN\<close> for a read of no bytes and goes on, and the turn of the
  socket task does not end, however many turns the loop is given.\<close>

theorem oversized_datagram_stops_task:
  fixes s :: "('f, 'n, 'z) sock"
  assumes "dgram_ready N fd inp k s" and "only_readable N fd inp" and "fd \<in> fds_read (lwip_of s)" and "fds_write (lwip_of s) = {}"
    and "fd \<notin> fds_listen (lwip_of s)" and "\<forall>x \<in> set (waiting inp s). fst x \<noteq> []" and "\<exists>x \<in> set (waiting inp s). 4096 < length (fst x)"
  shows "so_stuck (g_env (lwip_socket_task (N\<lparr>n_turns := turns\<rparr>) s))"
proof -
  let ?N = "N\<lparr>n_turns := turns\<rparr>" and ?ds = "waiting inp s"
  have "dgram_law ?N fd inp = dgram_law N fd inp" by (simp add: dgram_law_def)
  then have R: "dgram_ready ?N fd inp k s" "only_readable ?N fd inp"
    using assms(1,2) by (simp_all add: dgram_ready_def only_readable_def)
  have pos: "0 < amount ?ds" using assms(6,7) by (intro amount_pos) auto
  obtain t where t: "lwip_socket_task ?N s = net_pause ?N 1 (recv_loop ?N (n_turns ?N) fd (int (amount ?ds)) 0 t)"
    "dgram_ready ?N fd inp k t" "waiting inp t = ?ds"
    using task_reads_dgrams [OF R assms(3-5) pos] by blast
  have "so_stuck (g_env (recv_loop ?N (n_turns ?N) fd (int (amount ?ds)) 0 t))"
    by (rule recv_loop_oversized [OF t(2)]) (use assms(6,7) t(3) in simp_all)
  then show ?thesis unfolding t(1) by (simp add: net_pause_def)
qed

subsection \<open>An example\<close>

definition demo_dgram_net :: "dgram list net_api" where
  "demo_dgram_net = \<lparr>n_socket = \<lambda>ty n. (3, n), n_bind = \<lambda>fd p n. (0, n), n_listen = \<lambda>fd n. (0, n),
     n_accept = \<lambda>fd n. ((- LwipSocket.EAGAIN, 0, 0), n), n_connect = \<lambda>fd a p n. (0, n), n_writable = \<lambda>fd t n. ((1, True), n),
     n_select = \<lambda>k rd wr n. ((1, rd \<inter> {3}, {}), n),
     n_getopt = \<lambda>fd opt n. ((0, if opt = SO_TYPE then SOCK_DGRAM else 1), n), n_setopt = \<lambda>fd opt v n. (0, n),
     n_membership = \<lambda>fd b a n. (0, n), n_nonblock = \<lambda>fd b n. (0, n), n_fionread = \<lambda>fd n. ((0, int (amount n)), n),
     n_sockname = \<lambda>fd n. ((0, 5000), n), n_close = \<lambda>fd n. (0, n), n_send = \<lambda>fd d n. (int (length d), n),
     n_sendto = \<lambda>fd via a p d n. (int (length d), n), n_recv = \<lambda>fd len n. ((- LwipSocket.EAGAIN, []), n),
     n_recvfrom = \<lambda>fd len n. (case n of [] \<Rightarrow> ((- LwipSocket.EAGAIN, [], 0, 0), [])
        | (d, p) # q \<Rightarrow> ((int (length (take len d)), take len d, p), q)),
     n_hostbyname = \<lambda>h n. ((-1, []), n), n_addrinfo = \<lambda>h p n. ((200, []), n), n_bcast_if = \<lambda>n. False, n_delay = \<lambda>ms n. n,
     n_strerror = \<lambda>e. ''error'', n_stack_addr = 7, n_stack_int = 0, n_no_passthrough = False, n_passes = 5, n_turns = 10\<rparr>"

definition demo_dgram_sock :: "dgram list \<Rightarrow> (unit, dgram list, unit) sock" where
  "demo_dgram_sock ds = demo_atcmd demo_served
     ((demo_sock_env ds)\<lparr>so_table := demo_entry\<lparr>sk_protocol := PROTO_UDP\<rparr> # replicate 9 atcmd_socket_reset\<rparr>)"

lemma demo_dgram_only: "only_readable demo_dgram_net 3 (\<lambda>n. n)"
  by (auto simp: only_readable_def demo_dgram_net_def)

lemma demo_dgram_ready:
  "dgram_ready demo_dgram_net 3 (\<lambda>n. n) 0 (demo_dgram_sock ds)"
  "3 \<in> fds_read (lwip_of (demo_dgram_sock ds))" "fds_write (lwip_of (demo_dgram_sock ds)) = {}"
  "3 \<notin> fds_listen (lwip_of (demo_dgram_sock ds))" "waiting (\<lambda>n. n) (demo_dgram_sock ds) = ds" "g_out (demo_dgram_sock ds) = []"
proof -
  have "dgram_law demo_dgram_net 3 (\<lambda>n. n)" by (simp add: dgram_law_def demo_dgram_net_def)
  moreover have "search_id 3 (demo_dgram_sock ds) = Some 0"
    by (simp add: demo_dgram_sock_def demo_atcmd_def atcmd_socket_search_def socket_matches_def demo_entry_def)
  ultimately show "dgram_ready demo_dgram_net 3 (\<lambda>n. n) 0 (demo_dgram_sock ds)"
    by (simp add: dgram_ready_def ATCMD_SOCKET_NUM_MAX_def)
      (simp add: demo_dgram_sock_def demo_atcmd_def demo_sock_env_def demo_lwip_def demo_rxd_def)
qed (simp_all add: demo_dgram_sock_def demo_atcmd_def demo_sock_env_def demo_lwip_def)

theorem datagrams_reach_host_witness:
  "\<exists>h'. nrc_atcmd_recv (\<lambda>_. True) (g_out (lwip_socket_task demo_dgram_net (demo_dgram_sock [(''ab'', 1, 2), (''c'', 3, 4)]))) demo_host = Some h' \<and>
    h_env h' = [''ab'', ''c'']"
proof -
  let ?ds = "[(''ab'', 1, 2), (''c'', 3, 4)] :: dgram list" and ?cb = "\<lambda>r buf e. e @ [take (nat (rxd_length r)) buf]"
  note l = demo_dgram_ready [of ?ds]
  have w: "waiting (\<lambda>n. n) (demo_dgram_sock ?ds) \<noteq> []" "\<forall>x \<in> set (waiting (\<lambda>n. n) (demo_dgram_sock ?ds)). block_ok (fst x)"
    "length (waiting (\<lambda>n. n) (demo_dgram_sock ?ds)) \<le> n_turns demo_dgram_net"
    unfolding l(5) by (simp_all add: block_ok_def demo_dgram_net_def)
  have h: "host_rest demo_host" "cb_rxd demo_host = Some ?cb" "h_env demo_host = []" using demo_host_idle by (simp_all add: host_rest_def demo_host_def)
  have f: "fold (\<lambda>(d, p). ?cb (block_rxd v (peer_of sk p) d) d) ds e = e @ map fst ds" for v sk ds e
    by (induction ds arbitrary: e) (auto simp: block_rxd_def)
  show ?thesis
    using datagrams_reach_host [where M = "\<lambda>_. True", OF l(1) demo_dgram_only l(2-4) w l(6) h(1) TrueI h(2)]
    unfolding f h(3) l(5) by auto
qed

theorem oversized_datagram_stops_task_witness:
  "so_stuck (g_env (lwip_socket_task (demo_dgram_net\<lparr>n_turns := 1000000\<rparr>) (demo_dgram_sock [(replicate 5000 CHR ''x'', 1, 2)])))"
proof -
  note l = demo_dgram_ready [of "[(replicate 5000 CHR ''x'', 1, 2)]"]
  show ?thesis
    by (rule oversized_datagram_stops_task [OF l(1) demo_dgram_only l(2-4)]) (simp_all add: l(5))
qed

end
