(* ===== verification/AtcmdSocketInv.thy ===== *)
theory AtcmdSocketInv
  imports AtcmdSocketProps
begin

text \<open>
  The invariant of the socket module that every command, the socket task and the data mode keep: the table, the
  task's descriptor sets and the ready bits contain open descriptors only, and no descriptor is in the table twice.
\<close>

subsection \<open>The descriptors of the network\<close>

text \<open>
  \<open>live n\<close> are the descriptors that are open: \<open>socket\<close> and \<open>accept\<close> return a new one, \<open>close\<close> may close the one it is
  given, and no other call changes them.  \<open>getsockopt\<close> has the result 0 or less, and
  \<open>select\<close> reports descriptors it was given.
\<close>

definition opens :: "('n \<Rightarrow> int set) \<Rightarrow> int \<Rightarrow> 'n \<Rightarrow> 'n \<Rightarrow> bool" where
  "opens live r n n' \<longleftrightarrow> (if r < 0 then live n' = live n else r \<notin> live n \<and> live n' = insert r (live n))"

definition net_ok :: "'n net_api \<Rightarrow> ('n \<Rightarrow> int set) \<Rightarrow> bool" where
  "net_ok N live \<longleftrightarrow>
     (\<forall>ty n. opens live (fst (n_socket N ty n)) n (snd (n_socket N ty n))) \<and>
     (\<forall>fd n. opens live (fst (fst (n_accept N fd n))) n (snd (n_accept N fd n))) \<and>
     (\<forall>fd n. live n - {fd} \<subseteq> live (snd (n_close N fd n)) \<and> live (snd (n_close N fd n)) \<subseteq> live n) \<and>
     (\<forall>fd p n. live (snd (n_bind N fd p n)) = live n) \<and> (\<forall>fd n. live (snd (n_listen N fd n)) = live n) \<and>
     (\<forall>fd a p n. live (snd (n_connect N fd a p n)) = live n) \<and> (\<forall>fd ms n. live (snd (n_writable N fd ms n)) = live n) \<and>
     (\<forall>k r w n. live (snd (n_select N k r w n)) = live n) \<and> (\<forall>fd x n. live (snd (n_getopt N fd x n)) = live n) \<and>
     (\<forall>fd x v n. live (snd (n_setopt N fd x v n)) = live n) \<and> (\<forall>fd b a n. live (snd (n_membership N fd b a n)) = live n) \<and>
     (\<forall>fd b n. live (snd (n_nonblock N fd b n)) = live n) \<and> (\<forall>fd n. live (snd (n_fionread N fd n)) = live n) \<and>
     (\<forall>fd n. live (snd (n_sockname N fd n)) = live n) \<and> (\<forall>fd d n. live (snd (n_send N fd d n)) = live n) \<and>
     (\<forall>fd v a p d n. live (snd (n_sendto N fd v a p d n)) = live n) \<and> (\<forall>fd l n. live (snd (n_recv N fd l n)) = live n) \<and>
     (\<forall>fd l n. live (snd (n_recvfrom N fd l n)) = live n) \<and> (\<forall>h n. live (snd (n_hostbyname N h n)) = live n) \<and>
     (\<forall>h p n. live (snd (n_addrinfo N h p n)) = live n) \<and> (\<forall>ms n. live (n_delay N ms n) = live n) \<and>
     (\<forall>fd x n. fst (fst (n_getopt N fd x n)) \<le> 0) \<and>
     (\<forall>k r w n. fst (snd (fst (n_select N k r w n))) \<subseteq> r)"

lemma net_okD:
  assumes "net_ok N live"
  shows "live (snd (n_bind N fd p n)) = live n" "live (snd (n_listen N fd n)) = live n" "live (snd (n_connect N fd a p n)) = live n"
    "live (snd (n_writable N fd i n)) = live n" "live (snd (n_select N k r w n)) = live n" "live (snd (n_getopt N fd x n)) = live n"
    "live (snd (n_setopt N fd x v n)) = live n" "live (snd (n_membership N fd b a n)) = live n" "live (snd (n_nonblock N fd b n)) = live n"
    "live (snd (n_fionread N fd n)) = live n" "live (snd (n_sockname N fd n)) = live n" "live (snd (n_send N fd d n)) = live n"
    "live (snd (n_sendto N fd b a p d n)) = live n" "live (snd (n_recv N fd k n)) = live n" "live (snd (n_recvfrom N fd k n)) = live n"
    "live (snd (n_hostbyname N d n)) = live n" "live (snd (n_addrinfo N d e n)) = live n" "live (n_delay N k n) = live n"
  using assms unfolding net_ok_def by simp_all

lemma net_ok_open:
  assumes "net_ok N live"
  shows "opens live (fst (n_socket N ty n)) n (snd (n_socket N ty n))" "opens live (fst (fst (n_accept N fd n))) n (snd (n_accept N fd n))"
    "live n - {fd} \<subseteq> live (snd (n_close N fd n))" "live (snd (n_close N fd n)) \<subseteq> live n" "fst (fst (n_getopt N fd x n)) \<le> 0"
    "fst (snd (fst (n_select N k r w n))) \<subseteq> r"
  using assms unfolding net_ok_def by simp_all

subsection \<open>The glue\<close>

text \<open>With \<open>I\<close> the descriptors of the table.\<close>

definition lwip_inv :: "('n \<Rightarrow> int set) \<Rightarrow> int set \<Rightarrow> 'n lwip \<Rightarrow> bool" where
  "lwip_inv live I w \<longleftrightarrow> I \<union> fds_read w \<union> fds_write w \<union> fds_listen w \<subseteq> live (li_net w)"

definition quiet :: "('n \<Rightarrow> int set) \<Rightarrow> ('n lwip \<Rightarrow> 'a \<times> 'n lwip) \<Rightarrow> bool" where
  "quiet live f \<longleftrightarrow> (\<forall>w. glue (snd (f w)) = glue w \<and> live (li_net (snd (f w))) = live (li_net w))"

lemma quiet_inv: "quiet live f \<Longrightarrow> lwip_inv live I (snd (f w)) = lwip_inv live I w"
  unfolding quiet_def lwip_inv_def using glueD by metis

lemma quiet_live: "quiet live f \<Longrightarrow> live (li_net (snd (f w))) = live (li_net w)"
  by (simp add: quiet_def)

lemma quiet_call: "(\<And>n. live (snd (f n)) = live n) \<Longrightarrow> quiet live (net_call f)"
  by (simp add: quiet_def) (simp add: net_call_def case_prod_beta)

lemma quiet_query: "(\<And>n. live (snd (f n)) = live n) \<Longrightarrow> quiet live (net_query f)"
  by (simp add: quiet_def) (simp add: net_query_def case_prod_beta)

lemma quiet_error: "quiet live (lwip_socket_error e)"
  by (simp add: quiet_def lwip_socket_error_def)

text \<open>Everything but opening, closing and the sets leaves the descriptors alone.\<close>

lemma quiet_send_loop:
  "net_ok N live \<Longrightarrow> live (li_net (snd (send_udp_loop N fd via addr port data i w))) = live (li_net w)"
proof (induction N fd via addr port data i w rule: send_udp_loop.induct)
  case (1 N fd via addr port data i w)
  let ?f = "n_sendto N fd via addr port (take (min (length data - i) UDP_MAX_LEN) (drop i data))"
  obtain ret w1 where r: "net_call ?f w = (ret, w1)" by fastforce
  have "live (li_net w1) = live (li_net w)" using quiet_live [OF quiet_call, of live ?f w] net_okD(13) [OF 1(2)] r by simp
  then show ?case using 1(1) [OF _ r [symmetric]] 1(2) by (subst send_udp_loop.simps) (auto simp: r)
qed

lemmas glue_ops_defs = lwip_socket_get_type_def lwip_socket_get_local_def lwip_socket_recv_len_def lwip_socket_set_reuse_addr_def
  lwip_socket_tcp_get_keepalive_def lwip_socket_tcp_set_keepalive_def lwip_socket_tcp_get_nodelay_def lwip_socket_tcp_set_nodelay_def
  lwip_socket_udp_get_broadcast_def lwip_socket_udp_set_broadcast_def lwip_socket_udp_add_multicast_group_def
  lwip_socket_udp_drop_multicast_group_def lwip_socket_udp_get_multicast_loopback_def lwip_socket_udp_get_multicast_ttl_def
  lwip_socket_udp_set_multicast_ttl_def lwip_socket_bind_def lwip_socket_listen_def lwip_socket_send_udp_def lwip_socket_send_tcp_def
  lwip_socket_recv_udp_def lwip_socket_recv_tcp_def lwip_socket_addr_info_1_def lwip_socket_addr_info_2_def

lemma quiet_simps:
  assumes "net_ok N live"
  shows "quiet live (lwip_socket_get_local N fd)" "quiet live (lwip_socket_recv_len N fd)" "quiet live (lwip_socket_set_reuse_addr N fd b)"
    "quiet live (lwip_socket_tcp_get_keepalive N fd)" "quiet live (lwip_socket_tcp_set_keepalive N fd i j k l)"
    "quiet live (lwip_socket_tcp_get_nodelay N fd)" "quiet live (lwip_socket_tcp_set_nodelay N fd b)"
    "quiet live (lwip_socket_udp_set_broadcast N fd b)" "quiet live (lwip_socket_udp_get_broadcast N fd)"
    "quiet live (lwip_socket_udp_get_multicast_loopback N fd)"
    "quiet live (lwip_socket_udp_add_multicast_group N fd a)" "quiet live (lwip_socket_udp_drop_multicast_group N fd a)"
    "quiet live (lwip_socket_udp_get_multicast_ttl N fd)" "quiet live (lwip_socket_udp_set_multicast_ttl N fd u)"
    "quiet live (lwip_socket_bind N fd p)" "quiet live (lwip_socket_listen N fd)"
    "quiet live (lwip_socket_send_udp N fd a p d v)" "quiet live (lwip_socket_send_tcp N fd d)"
    "quiet live (lwip_socket_recv_udp N fd n)" "quiet live (lwip_socket_recv_tcp N fd n)"
    "quiet live (lwip_socket_addr_info_1 N d n)" "quiet live (lwip_socket_addr_info_2 N d e n)"
  by (simp_all add: quiet_def glue_ops_defs seq_ok_def net_query_def net_call_def lwip_socket_error_def case_prod_beta Let_def
      quiet_send_loop [OF assms] net_okD [OF assms])

lemma quiet_connect: "net_ok N live \<Longrightarrow> quiet live (lwip_socket_connect N fd a p t)"
  by (simp add: quiet_def lwip_socket_connect_def seq_ok_def net_query_def net_call_def lwip_socket_error_def case_prod_beta Let_def net_okD)

lemma quiet_udp_options: "net_ok N live \<Longrightarrow> quiet live (open_udp_options N fd u)"
  using quiet_simps [of N live]
  by (simp add: open_udp_options_def quiet_def case_prod_beta)

lemma lwip_inv_updates [simp]: "lwip_inv live I (w\<lparr>li_erange := b\<rparr>) = lwip_inv live I w"
  by (simp add: lwip_inv_def)

lemma lwip_inv_mono: "lwip_inv live I w \<Longrightarrow> J \<subseteq> I \<Longrightarrow> lwip_inv live J w"
  by (auto simp: lwip_inv_def)

text \<open>Opening: the result is a new descriptor for the table, or nothing is left over there.\<close>

definition opened :: "('n \<Rightarrow> int set) \<Rightarrow> int set \<Rightarrow> 'n lwip \<Rightarrow> (int \<times> int) \<times> 'n lwip \<Rightarrow> bool" where
  "opened live I w r \<longleftrightarrow> live (li_net w) \<subseteq> live (li_net (snd r)) \<and>
    (if snd (fst r) < 0 then lwip_inv live I (snd r)
     else snd (fst r) \<notin> live (li_net w) \<and> lwip_inv live (insert (snd (fst r)) I) (snd r))"

text \<open>After \<open>socket\<close>: \<open>fd\<close> is new, and nothing else has changed.\<close>

definition fresh :: "('n \<Rightarrow> int set) \<Rightarrow> int set \<Rightarrow> int \<Rightarrow> 'n lwip \<Rightarrow> 'n lwip \<Rightarrow> bool" where
  "fresh live I fd w v \<longleftrightarrow> 0 \<le> fd \<and> fd \<notin> live (li_net w) \<and> live (li_net v) = insert fd (live (li_net w)) \<and> glue v = glue w \<and> lwip_inv live I w"

lemma fresh_quiet: "fresh live I fd w v \<Longrightarrow> quiet live f \<Longrightarrow> fresh live I fd w (snd (f v))"
  by (simp add: fresh_def quiet_def)

lemma fresh_socket:
  assumes "net_ok N live" and "lwip_inv live I w" and "0 \<le> fst (net_call (n_socket N ty) w)"
  shows "fresh live I (fst (net_call (n_socket N ty) w)) w (snd (net_call (n_socket N ty) w))"
  using net_ok_open(1) [OF assms(1), of ty "li_net w"] assms(2,3)
  by (simp add: fresh_def opens_def) (simp add: net_call_def case_prod_beta)

lemma failed_socket:
  assumes "net_ok N live" and "lwip_inv live I w" and "fst (net_call (n_socket N ty) w) < 0"
  shows "opened live I w ((r, -1), snd (net_call (n_socket N ty) w))"
  using net_ok_open(1) [OF assms(1), of ty "li_net w"] assms(2,3)
  by (simp add: opened_def opens_def lwip_inv_def net_call_def case_prod_beta)

lemma opened_refused: "lwip_inv live I w \<Longrightarrow> opened live I w ((r, -1), w\<lparr>li_erange := b\<rparr>)"
  by (simp add: opened_def)

lemma opened_leak: "fresh live I fd w v \<Longrightarrow> opened live I w ((r, fd), v)"
  using glueD [of v w] by (auto simp: opened_def fresh_def lwip_inv_def)

lemma opened_finish:
  assumes "net_ok N live" and "fresh live I fd w v"
  shows "opened live I w (open_finish N r fd l v)"
proof -
  note g = glueD [of v w]
  have L: "live (li_net v) - {fd} \<subseteq> live (snd (n_close N fd (li_net v)))" "live (snd (n_close N fd (li_net v))) \<subseteq> live (li_net v)"
    using net_ok_open(3,4) [OF assms(1)] by blast+
  then show ?thesis using assms(2) g
    by (auto simp: open_finish_def opened_def fresh_def lwip_inv_def lwip_socket_fds_set_def net_call_def case_prod_beta)
qed

lemma open_calls:
  assumes N: "net_ok N live" and w: "lwip_inv live I w"
  shows "opened live I w (lwip_socket_open_udp N p u w)" "opened live I w (lwip_socket_open_tcp_server N p w)"
    "opened live I w (lwip_socket_open_tcp_client N a p t w)"
proof -
  note Q = quiet_simps [OF N] quiet_connect [OF N] quiet_udp_options [OF N]
  have sock: "opened live I w (case net_call (n_socket N ty) w of (fd, w1) \<Rightarrow> if fd < 0 then ((fd, -1), w1) else k fd w1)"
    if "\<And>fd v. fresh live I fd w v \<Longrightarrow> opened live I w (k fd v)" for ty k
    using that failed_socket [OF N w] fresh_socket [OF N w] by (simp add: case_prod_beta)
  have reuse: "opened live I w (case lwip_socket_set_reuse_addr N fd True v of (r2, w2) \<Rightarrow> if r2 < 0 then ((r2, fd), w2) else k w2)"
    if "fresh live I fd w v" "\<And>v. fresh live I fd w v \<Longrightarrow> opened live I w (k v)" for fd v k
    using that(2) fresh_quiet [OF that(1) Q(3)] by (auto intro: opened_leak simp: case_prod_beta)
  have finish: "opened live I w (case f v of (r3, w3) \<Rightarrow> (case (if r3 = 0 then g w3 else (r3, w3)) of (r4, w4) \<Rightarrow> open_finish N r4 fd (b r4) w4))"
    if "fresh live I fd w v" "quiet live f" "quiet live g" for fd v f g b
    using fresh_quiet [OF that(1,2)] fresh_quiet [OF fresh_quiet [OF that(1,2)] that(3)]
    by (auto intro: opened_finish [OF N] simp: case_prod_beta)
  show "opened live I w (lwip_socket_open_udp N p u w)"
    unfolding lwip_socket_open_udp_def
    by (cases "li_on w"; cases "p = 0"; simp add: opened_refused [OF w]) (intro sock reuse finish Q)
  show "opened live I w (lwip_socket_open_tcp_server N p w)"
    unfolding lwip_socket_open_tcp_server_def
    by (cases "li_on w"; simp add: opened_refused [OF w]) (intro sock reuse finish Q)
  have "opened live I w (case lwip_socket_connect N fd a p t v of (r2, w2) \<Rightarrow> open_finish N r2 fd False w2)"
    if "fresh live I fd w v" for fd v
    using opened_finish [OF N fresh_quiet [OF that Q(23)]] by (simp add: case_prod_beta)
  then show "opened live I w (lwip_socket_open_tcp_client N a p t w)"
    unfolding lwip_socket_open_tcp_client_def
    by (cases "li_on w"; simp add: opened_refused [OF w]) (rule sock)
qed

text \<open>Closing, and the operations on the sets.\<close>

lemma close_glue:
  fixes fd :: int
  assumes N: "net_ok N live" and w: "lwip_inv live I w"
  defines "v \<equiv> snd (lwip_socket_close N fd w)"
  shows "live (li_net w) - {fd} \<subseteq> live (li_net v)" "live (li_net v) \<subseteq> live (li_net w)" "lwip_inv live (I - {fd}) v"
proof -
  have L: "live n - {fd} \<subseteq> live (snd (n_close N fd n))" "live (snd (n_close N fd n)) \<subseteq> live n" for n
    using net_ok_open(3,4) [OF N] by blast+
  show "live (li_net w) - {fd} \<subseteq> live (li_net v)" "live (li_net v) \<subseteq> live (li_net w)" "lwip_inv live (I - {fd}) v"
    using L [of "li_net w"] w unfolding v_def
    by (auto simp: lwip_socket_close_def seq_ok_def net_call_def lwip_socket_error_def lwip_socket_fds_clear_def lwip_inv_def case_prod_beta
        split: if_splits)
qed

lemma set_ops:
  assumes "lwip_inv live I w"
  shows "lwip_inv live I (snd (lwip_socket_send_done fd w))" "lwip_inv live I (snd (send_request_end fd w))"
    "lwip_inv live I (snd (lwip_socket_recv_done fd w))"
    "fd \<in> live (li_net w) \<Longrightarrow> lwip_inv live I (snd (send_request_begin fd w))"
    "fd \<in> live (li_net w) \<Longrightarrow> lwip_inv live I (snd (lwip_socket_recv_request fd w))"
    "fd \<in> live (li_net w) \<Longrightarrow> lwip_inv live I (lwip_socket_fds_set fd b w)"
  using assms
  by (auto simp: lwip_inv_def lwip_socket_send_done_def send_request_end_def lwip_socket_recv_done_def send_request_begin_def
      lwip_socket_recv_request_def lwip_socket_fds_set_def lwip_socket_error_def)

lemma set_ops_live [simp]:
  "li_net (snd (lwip_socket_send_done fd w)) = li_net w" "li_net (snd (send_request_end fd w)) = li_net w"
  "li_net (snd (lwip_socket_recv_done fd w)) = li_net w" "li_net (snd (send_request_begin fd w)) = li_net w"
  "li_net (snd (lwip_socket_recv_request fd w)) = li_net w" "li_net (lwip_socket_fds_set fd b w) = li_net w"
  by (simp_all add: lwip_socket_send_done_def send_request_end_def lwip_socket_recv_done_def send_request_begin_def
      lwip_socket_recv_request_def lwip_socket_fds_set_def lwip_socket_error_def)

lemma accept_glue:
  fixes fd :: int
  assumes N: "net_ok N live" and w: "lwip_inv live I w"
  defines "r \<equiv> lwip_socket_accept N fd w"
  shows "live (li_net w) \<subseteq> live (li_net (snd r))" "lwip_inv live I (snd r)"
    "0 \<le> fst (fst r) \<Longrightarrow> fst (fst r) \<notin> live (li_net w) \<and> fst (fst r) \<in> live (li_net (snd r))"
proof -
  have o: "opens live (fst (fst (n_accept N fd n))) n (snd (n_accept N fd n))" for n using net_ok_open(2) [OF N] .
  have t: "live (snd (n_getopt N fd SO_TYPE n)) = live n" for n using net_okD(6) [OF N] .
  obtain r1 ty n1 where g: "n_getopt N fd SO_TYPE (li_net w) = ((r1, ty), n1)" by (metis surj_pair)
  have l: "live n1 = live (li_net w)" "r1 \<le> 0" using t [of "li_net w"] net_ok_open(5) [OF N, of fd SO_TYPE "li_net w"] g by simp_all
  show "live (li_net w) \<subseteq> live (li_net (snd r))" "lwip_inv live I (snd r)"
    "0 \<le> fst (fst r) \<Longrightarrow> fst (fst r) \<notin> live (li_net w) \<and> fst (fst r) \<in> live (li_net (snd r))"
    using o [of n1] w l unfolding r_def
    by (auto simp: lwip_socket_accept_def lwip_socket_get_type_def net_query_def g case_prod_beta opens_def lwip_inv_def
        EPROTOTYPE_def split: if_splits)
qed

subsection \<open>The module\<close>

definition open_ids :: "atcmd_socket list \<Rightarrow> int list" where
  "open_ids xs = filter (\<lambda>i. 0 \<le> i) (map sk_id xs)"

text \<open>The ready bits \<open>r\<close> are used in the passive mode \<open>p\<close> only.\<close>

definition ready_ok :: "int set \<Rightarrow> bool \<Rightarrow> u16 \<Rightarrow> bool" where
  "ready_ok L p r \<longleftrightarrow> (\<not> p \<longrightarrow> r = 0) \<and> (\<forall>i. 0 \<le> i \<longrightarrow> i < int ATCMD_SOCKET_NUM_MAX \<longrightarrow> r AND ready_bit i \<noteq> 0 \<longrightarrow> i \<in> L)"

definition table_inv :: "('n \<Rightarrow> int set) \<Rightarrow> ('f, 'n, 'z) sock \<Rightarrow> bool" where
  "table_inv live s \<longleftrightarrow> distinct (open_ids (table s)) \<and> lwip_inv live (set (open_ids (table s))) (lwip_of s) \<and>
     ready_ok (live (li_net (lwip_of s))) (so_passive (g_env s)) (so_ready (g_env s))"

lemma table_inv_env:
  assumes "table t = table s" and "lwip_of t = lwip_of s" and "so_passive (g_env t) = so_passive (g_env s)" and "so_ready (g_env t) = so_ready (g_env s)"
  shows "table_inv live t = table_inv live s"
  using assms by (simp add: table_inv_def)

lemma table_inv_put [simp]:
  "table_inv live (msg_put x s) = table_inv live s" "table_inv live (msg_ok s) = table_inv live s"
  "table_inv live (atcmd_transmit x s) = table_inv live s" "table_inv live (atcmd_socket_event_handler N e s) = table_inv live s"
  "table_inv live (set_errno b s) = table_inv live s" "table_inv live (set_fault s) = table_inv live s"
  "table_inv live (set_stuck s) = table_inv live s" "table_inv live (set_req q s) = table_inv live s"
  "table_inv live (put_exit x s) = table_inv live s"
  by (rule table_inv_env; simp add: atcmd_socket_event_handler_def set_errno_def set_fault_def set_stuck_def set_req_def put_exit_def Let_def)+

lemma table_inv_on_env:
  assumes "\<And>e. so_table (f e) = so_table e" and "\<And>e. so_lwip (f e) = so_lwip e" and "\<And>e. so_passive (f e) = so_passive e" and "\<And>e. so_ready (f e) = so_ready e"
  shows "table_inv live (on_env f s) = table_inv live s"
  by (rule table_inv_env) (simp_all add: assms)

lemma table_inv_atoi [simp]: "table_inv live (snd (atoi_of p s)) = table_inv live s"
  by (simp add: atoi_of_def case_prod_beta)

lemma table_inv_quiet [simp]: "quiet live f \<Longrightarrow> table_inv live (snd (on_lwip f s)) = table_inv live s"
  by (simp add: table_inv_def on_lwip_env quiet_inv quiet_live)

lemma table_inv_pause [simp]: "net_ok N live \<Longrightarrow> table_inv live (net_pause N ms s) = table_inv live s"
  by (simp add: table_inv_def net_pause_def net_okD lwip_inv_def)

lemma table_inv_sets:
  assumes "table_inv live s"
  shows "table_inv live (snd (on_lwip (lwip_socket_send_done fd) s))" "table_inv live (snd (on_lwip (send_request_end fd) s))"
    "table_inv live (snd (on_lwip (lwip_socket_recv_done fd) s))"
    "fd \<in> live (li_net (lwip_of s)) \<Longrightarrow> table_inv live (snd (on_lwip (send_request_begin fd) s))"
    "fd \<in> live (li_net (lwip_of s)) \<Longrightarrow> table_inv live (snd (on_lwip (lwip_socket_recv_request fd) s))"
    "fd \<in> live (li_net (lwip_of s)) \<Longrightarrow> table_inv live (snd (on_lwip (\<lambda>w. ((), lwip_socket_fds_set fd b w)) s))"
  using assms by (simp_all add: table_inv_def on_lwip_env set_ops)

text \<open>Entries of the table.\<close>

lemma open_ids_keep: "sk_id x = sk_id (xs ! k) \<Longrightarrow> open_ids (xs[k := x]) = open_ids xs"
proof -
  assume "sk_id x = sk_id (xs ! k)"
  then have "sk_id (xs[k := x] ! i) = sk_id (xs ! i)" if "i < length xs" for i using that by (cases "k = i") simp_all
  then have "map sk_id (xs[k := x]) = map sk_id xs" by (intro nth_equalityI) simp_all
  then show ?thesis by (simp add: open_ids_def)
qed

lemma table_inv_entry: "sk_id x = sk_id (table s ! k) \<Longrightarrow> table_inv live (set_entry k x s) = table_inv live s"
  by (simp add: table_inv_def set_entry_def open_ids_keep)

lemma open_ids_split: "k < length xs \<Longrightarrow> open_ids (xs[k := x]) = open_ids (take k xs) @ (if 0 \<le> sk_id x then [sk_id x] else []) @ open_ids (drop (Suc k) xs)"
  by (simp add: open_ids_def upd_conv_take_nth_drop take_map drop_map)

lemma open_ids_here: "k < length xs \<Longrightarrow> open_ids xs = open_ids (take k xs) @ (if 0 \<le> sk_id (xs ! k) then [sk_id (xs ! k)] else []) @ open_ids (drop (Suc k) xs)"
  using open_ids_split [of k xs "xs ! k"] by simp

lemma open_ids_nth: "k < length xs \<Longrightarrow> 0 \<le> sk_id (xs ! k) \<Longrightarrow> sk_id (xs ! k) \<in> set (open_ids xs)"
  by (auto simp: open_ids_def)

lemma table_live: "table_inv live s \<Longrightarrow> i \<in> set (open_ids (table s)) \<Longrightarrow> i \<in> live (li_net (lwip_of s))"
  by (auto simp: table_inv_def lwip_inv_def)

lemma search_live:
  assumes "table_inv live s" and "atcmd_socket_search i p q s = Some k"
  shows "sk_id (table s ! k) \<in> live (li_net (lwip_of s))" "0 \<le> sk_id (table s ! k)" "k < length (table s)" "0 \<le> i \<Longrightarrow> sk_id (table s ! k) = i"
  using find_index_Some [OF assms(2) [unfolded atcmd_socket_search_def]] table_live [OF assms(1) open_ids_nth]
  by (auto simp: socket_matches_def)

subsection \<open>Closing and opening\<close>

lemma ready_clear:
  assumes "ready_ok L p r" and "L - {fd} \<subseteq> L'" and "0 \<le> fd"
  shows "ready_ok L' p (if p then r AND NOT (ready_bit fd) else r)"
proof (cases p)
  case True
  have "i \<in> L'" if i: "0 \<le> i" "i < int ATCMD_SOCKET_NUM_MAX" "(r AND NOT (ready_bit fd)) AND ready_bit i \<noteq> 0" for i
  proof -
    have "(r AND NOT (ready_bit fd)) AND ready_bit fd = 0" by (simp add: bit_eq_iff bit_simps)
    then have "i \<noteq> fd" using i(3) by auto
    moreover have "r AND ready_bit i \<noteq> 0" using i(3) by (auto simp: bit_eq_iff bit_simps)
    then have "i \<in> L" using assms(1) i(1,2) unfolding ready_ok_def by blast
    ultimately show ?thesis using assms(2) by blast
  qed
  then show ?thesis using True by (simp add: ready_ok_def)
next
  case False
  then show ?thesis using assms(1) by (simp add: ready_ok_def)
qed

lemma table_inv_reset:
  assumes "distinct (open_ids xs)" and "k < length xs" and "0 \<le> sk_id (xs ! k)"
  shows "distinct (open_ids (xs[k := atcmd_socket_reset]))"
    "set (open_ids (xs[k := atcmd_socket_reset])) = set (open_ids xs) - {sk_id (xs ! k)}"
  using assms open_ids_here [OF assms(2)] open_ids_split [OF assms(2), of atcmd_socket_reset]
  by (auto simp: atcmd_socket_reset_def)

lemma table_inv_close_entry:
  fixes s :: "('f, 'n, 'z) sock"
  assumes N: "net_ok N live" and s: "table_inv live s" and k: "k < length (table s)"
  shows "table_inv live (close_entry N i err k s)"
proof (cases "0 \<le> sk_id (table s ! k) \<and> (i < 0 \<or> i = sk_id (table s ! k))")
  case False
  then show ?thesis using s by (auto simp: close_entry_def Let_def)
next
  case True
  let ?fd = "sk_id (table s ! k)" and ?I = "set (open_ids (table s))"
  let ?w0 = "(lwip_of s)\<lparr>li_erange := be_errno (g_env s)\<rparr>"
  let ?w1 = "snd (lwip_socket_send_done ?fd ?w0)"
  let ?s1 = "snd (on_lwip (lwip_socket_send_done ?fd) s)"
  let ?w2 = "snd (lwip_socket_close N ?fd ((lwip_of ?s1)\<lparr>li_erange := be_errno (g_env ?s1)\<rparr>))"
  let ?s2 = "snd (on_lwip (lwip_socket_close N ?fd) ?s1)"
  let ?s3 = "if err < 0 then atcmd_socket_event_handler N (EvClose ?fd err) ?s2 else msg_put (''SCLOSE:'' @ dec_int ?fd) ?s2"
  have S: "distinct (open_ids (table s))" "lwip_inv live ?I (lwip_of s)" "ready_ok (live (li_net (lwip_of s))) (so_passive (g_env s)) (so_ready (g_env s))"
    using s by (simp_all add: table_inv_def)
  have w1: "lwip_inv live ?I ((lwip_of ?s1)\<lparr>li_erange := be_errno (g_env ?s1)\<rparr>)" "li_net (lwip_of ?s1) = li_net (lwip_of s)"
    using set_ops(1) [of live ?I ?w0 ?fd] S(2) by (simp_all add: on_lwip_env)
  note C = close_glue [OF N w1(1), of ?fd]
  have w2: "lwip_of ?s2 = ?w2" "table ?s2 = table s" "so_passive (g_env ?s2) = so_passive (g_env s)" "so_ready (g_env ?s2) = so_ready (g_env s)"
    by (simp_all add: on_lwip_env)
  have e3: "g_env ?s3 = g_env ?s2" by (simp add: atcmd_socket_event_handler_def)
  let ?s4 = "if so_passive (g_env ?s3) then on_env (\<lambda>e. e\<lparr>so_ready := so_ready e AND NOT (ready_bit ?fd)\<rparr>) ?s3 else ?s3"
  have e: "close_entry N i err k s = set_entry k atcmd_socket_reset ?s4" using True by (auto simp: close_entry_def Let_def)
  have s4: "table ?s4 = table s" "lwip_of ?s4 = ?w2" "so_passive (g_env ?s4) = so_passive (g_env s)"
    "so_ready (g_env ?s4) = (if so_passive (g_env s) then so_ready (g_env s) AND NOT (ready_bit ?fd) else so_ready (g_env s))"
    using e3 w2 by simp_all
  have R: "ready_ok (live (li_net ?w2)) (so_passive (g_env s)) (if so_passive (g_env s) then so_ready (g_env s) AND NOT (ready_bit ?fd) else so_ready (g_env s))"
    using ready_clear [OF S(3)] C(1) w1(2) True by simp
  note T = table_inv_reset [OF S(1) k] 
  show ?thesis unfolding e using T True C(3) R s4 by (simp add: table_inv_def set_entry_def)
qed

lemma table_length_close [simp]: "length (table (close_entry N i err k s)) = length (table s)"
  using close_entry_shell by (simp add: close_entry_def Let_def set_entry_def atcmd_socket_event_handler_def on_lwip_env)

lemma table_inv_close:
  fixes s :: "('f, 'n, 'z) sock"
  assumes N: "net_ok N live" and "table_inv live s"
  shows "table_inv live (snd (atcmd_socket_close N i err s))"
proof -
  have "(\<forall>k \<in> set ks. k < length (table t)) \<Longrightarrow> table_inv live t \<Longrightarrow> table_inv live (fold (close_entry N i err) ks t)" for ks and t :: "('f, 'n, 'z) sock"
    by (induction ks arbitrary: t) (simp_all add: table_inv_close_entry [OF N])
  then show ?thesis using assms(2) by (simp add: atcmd_socket_close_def)
qed

text \<open>A new entry.\<close>

lemma table_inv_enter:
  fixes s :: "('f, 'n, 'z) sock"
  assumes "distinct (open_ids (table s))" and "k < length (table s)" and "sk_id (table s ! k) < 0" and "sk_id x \<notin> set (open_ids (table s))"
    and "lwip_inv live (insert (sk_id x) (set (open_ids (table s)))) (lwip_of s)" and "0 \<le> sk_id x"
    and "ready_ok (live (li_net (lwip_of s))) (so_passive (g_env s)) (so_ready (g_env s))"
  shows "table_inv live (set_entry k x s)"
proof -
  have d: "distinct (open_ids ((table s)[k := x]))" "set (open_ids ((table s)[k := x])) = insert (sk_id x) (set (open_ids (table s)))"
    using assms(1,3,4,6) open_ids_here [OF assms(2)] open_ids_split [OF assms(2), of x] by auto
  show ?thesis using d assms(5,7) by (simp add: table_inv_def set_entry_def)
qed

lemma ready_mono: "ready_ok L p r \<Longrightarrow> L \<subseteq> L' \<Longrightarrow> ready_ok L' p r"
  by (auto simp: ready_ok_def)

lemma free_entry_at: "free_entry s = Some k \<Longrightarrow> k < length (table s) \<and> sk_id (table s ! k) < 0"
  by (auto simp: free_entry_def dest!: find_index_Some)

text \<open>What \<open>open_call\<close> leaves: the table, and a new descriptor or none.\<close>

definition opened_sock :: "('n \<Rightarrow> int set) \<Rightarrow> ('f, 'n, 'z) sock \<Rightarrow> int \<Rightarrow> ('f, 'n, 'z) sock \<Rightarrow> bool" where
  "opened_sock live s fd t \<longleftrightarrow> table t = table s \<and> so_passive (g_env t) = so_passive (g_env s) \<and> so_ready (g_env t) = so_ready (g_env s) \<and>
     live (li_net (lwip_of s)) \<subseteq> live (li_net (lwip_of t)) \<and>
     (if fd < 0 then lwip_inv live (set (open_ids (table s))) (lwip_of t)
      else fd \<notin> live (li_net (lwip_of s)) \<and> lwip_inv live (insert fd (set (open_ids (table s)))) (lwip_of t))"

lemma opened_on_lwip:
  assumes "\<And>I w. lwip_inv live I w \<Longrightarrow> opened live I w (f w)" and "table_inv live s"
  shows "opened_sock live s (snd (fst (on_lwip f s))) (snd (on_lwip f s))"
  using assms(1) [of "set (open_ids (table s))" "(lwip_of s)\<lparr>li_erange := be_errno (g_env s)\<rparr>"] assms(2)
  by (auto simp: opened_def opened_sock_def on_lwip_fst on_lwip_env table_inv_def split: if_splits)

lemma opened_quiet: "opened_sock live s fd t \<Longrightarrow> quiet live f \<Longrightarrow> opened_sock live s fd (snd (on_lwip f t))"
  by (simp add: opened_sock_def on_lwip_env quiet_inv quiet_live)

lemma opened_none: "table_inv live s \<Longrightarrow> opened_sock live s (-1) s"
  by (simp add: opened_sock_def table_inv_def)

lemma opened_call:
  assumes N: "net_ok N live" and s: "table_inv live s"
  shows "opened_sock live s (fst (snd (fst (open_call N sk s)))) (snd (open_call N sk s))"
proof -
  have O: "opened_sock live s (snd (fst (on_lwip (lwip_socket_open_udp N p u) s))) (snd (on_lwip (lwip_socket_open_udp N p u) s))"
    "opened_sock live s (snd (fst (on_lwip (lwip_socket_open_tcp_server N p) s))) (snd (on_lwip (lwip_socket_open_tcp_server N p) s))"
    "opened_sock live s (snd (fst (on_lwip (lwip_socket_open_tcp_client N a p t) s))) (snd (on_lwip (lwip_socket_open_tcp_client N a p t) s))"
    for p u a t
    using s open_calls [OF N] by (auto intro: opened_on_lwip)
  show ?thesis
    using O opened_quiet [OF O(3) quiet_simps(1) [OF N]] opened_none [OF s]
    by (simp add: open_call_def case_prod_beta Let_def)
qed

lemma table_inv_open:
  assumes N: "net_ok N live" and s: "table_inv live s"
  shows "table_inv live (snd (atcmd_socket_open N sk s))"
proof (cases "open_conflict sk s \<or> free_entry s = None")
  case True
  then show ?thesis using s by (auto simp: atcmd_socket_open_def)
next
  case False
  then obtain k where k: "free_entry s = Some k" "\<not> open_conflict sk s" by auto
  obtain ret fd lport t where c: "open_call N sk s = ((ret, fd, lport), t)" by (metis surj_pair)
  have o: "opened_sock live s fd t" using opened_call [OF N s, of sk] c by simp
  have S: "distinct (open_ids (table s))" "ready_ok (live (li_net (lwip_of s))) (so_passive (g_env s)) (so_ready (g_env s))"
    using s by (simp_all add: table_inv_def)
  show ?thesis
  proof (cases "fd < 0")
    case True
    then show ?thesis using k c o S ready_mono [OF S(2)] by (simp add: atcmd_socket_open_def opened_sock_def table_inv_def)
  next
    case fd: False
    have "fd \<notin> set (open_ids (table s))" using o fd table_live [OF s] by (auto simp: opened_sock_def)
    then have "table_inv live (set_entry k (sk\<lparr>sk_id := fd, sk_local_port := lport\<rparr>) t)"
      using o fd S free_entry_at [OF k(1)] ready_mono [OF S(2)] by (intro table_inv_enter) (simp_all add: opened_sock_def)
    then show ?thesis using k c fd by (simp add: atcmd_socket_open_def)
  qed
qed

lemma table_inv_connect:
  fixes s :: "('f, 'n, 'z) sock"
  assumes N: "net_ok N live" and s: "table_inv live s" and i: "i \<in> live (li_net (lwip_of s))" "i \<notin> set (open_ids (table s))"
  shows "table_inv live (atcmd_socket_tcp_connect_handler N i addr port s)"
proof (cases "i < 0 \<or> port = 0")
  case True
  then show ?thesis using s by (auto simp: atcmd_socket_tcp_connect_handler_def)
next
  case False
  let ?s1 = "snd (on_lwip (lwip_socket_get_local N i) s)"
  have q: "quiet live (lwip_socket_get_local N i)" by (rule quiet_simps(1) [OF N])
  have s1: "table_inv live ?s1" "table ?s1 = table s" "i \<in> live (li_net (lwip_of ?s1))"
    using s i(1) q by (simp_all add: on_lwip_env quiet_live)
  show ?thesis
  proof (cases "free_entry ?s1")
    case None
    then show ?thesis using False s1 by (simp add: atcmd_socket_tcp_connect_handler_def case_prod_beta)
  next
    case (Some k)
    have "table_inv live (set_entry k ((table ?s1 ! k)\<lparr>sk_id := i, sk_protocol := PROTO_TCP, sk_local_port := lp, sk_remote_port := port, sk_remote_addr := addr\<rparr>) ?s1)" for lp
      using s1 i(2) False free_entry_at [OF Some] by (intro table_inv_enter) (auto simp: table_inv_def lwip_inv_def)
    then show ?thesis using Some False by (simp add: atcmd_socket_tcp_connect_handler_def case_prod_beta Let_def)
  qed
qed

subsection \<open>Sending\<close>

lemma table_inv_piece: "net_ok N live \<Longrightarrow> table_inv live (snd (send_piece N sk via d s)) = table_inv live s"
  using quiet_simps(17,18) [of N live] by (simp add: send_piece_def)

lemma table_inv_send_loop:
  "net_ok N live \<Longrightarrow> table_inv live s \<Longrightarrow> table_inv live (snd (snd (send_loop N k via data i retry s)))"
proof (induction N k via data i retry s rule: send_loop.induct)
  case (1 N k via data i retry s)
  obtain ret s1 where p: "send_piece N (table s ! k) via (drop i data) s = (ret, s1)" by fastforce
  have s1: "table_inv live s1" using table_inv_piece [OF 1(3), of "table s ! k" via "drop i data" s] 1(4) p by simp
  have c: "table_inv live (snd (atcmd_socket_close N j r s1))" for j r by (rule table_inv_close [OF 1(3) s1])
  show ?case
    using 1(1) [OF _ p [symmetric] _ 1(3) s1] 1(2) [OF _ p [symmetric] _ refl _ _ 1(3)] s1 c p 1(3,4)
    by (subst send_loop.simps) (auto simp: Let_def)
qed

lemma table_inv_direct: "net_ok N live \<Longrightarrow> table_inv live s \<Longrightarrow> table_inv live (snd (send_data_direct N k data s))"
  using table_inv_send_loop [of N live s k "send_via_netif N (table s ! k) s" data 0 0]
  by (simp add: send_data_direct_def case_prod_beta table_inv_on_env)

lemma table_inv_send_handler: "net_ok N live \<Longrightarrow> table_inv live s \<Longrightarrow> table_inv live (atcmd_socket_send_handler N i s)"
  by (simp add: atcmd_socket_send_handler_def case_prod_beta Let_def table_inv_sets table_inv_direct split: option.split)

subsection \<open>Receiving\<close>

lemma recv_data_env: "atcmd_socket_recv_data v rxd s = Some (r, t) \<Longrightarrow> g_env t = g_env s"
  using recv_data_shell by blast

lemma table_inv_genv: "g_env t = g_env s \<Longrightarrow> table_inv live t = table_inv live s"
  by (simp add: table_inv_def)

lemma table_inv_deliver [simp]: "table_inv live (deliver_rxd s) = table_inv live s"
proof (cases "atcmd_socket_recv_data (so_verbose (g_env s)) (so_rxd (g_env s)) s")
  case (Some p)
  then have "g_env (snd p) = g_env s" using recv_data_env by (metis prod.collapse)
  note table_inv_genv [OF this, of live]
  then show ?thesis by (simp add: deliver_rxd_def Some case_prod_beta table_inv_on_env)
qed (simp add: deliver_rxd_def)

lemma table_inv_recv_piece: "net_ok N live \<Longrightarrow> table_inv live (snd (recv_piece N i sk len s)) = table_inv live s"
  using quiet_simps(19,20) [of N live] by (simp add: recv_piece_def case_prod_beta split: socket_proto.split)

lemma table_inv_recv_one: "net_ok N live \<Longrightarrow> table_inv live s \<Longrightarrow> table_inv live (snd (recv_one N i len p s))"
  by (auto simp: recv_one_def case_prod_beta Let_def table_inv_recv_piece table_inv_on_env table_inv_close split: option.split)

lemma table_inv_recv_loop: "net_ok N live \<Longrightarrow> table_inv live s \<Longrightarrow> table_inv live (recv_loop N n fd len i s)"
  by (induction n arbitrary: i s) (simp_all add: case_prod_beta table_inv_recv_one)

lemma ready_set: "ready_ok L True r \<Longrightarrow> i \<in> L \<Longrightarrow> 0 \<le> i \<Longrightarrow> ready_ok L True (r OR ready_bit i)"
proof -
  assume r: "ready_ok L True r" and i: "i \<in> L" "0 \<le> i"
  have "j \<in> L" if j: "0 \<le> j" "j < int ATCMD_SOCKET_NUM_MAX" "(r OR ready_bit i) AND ready_bit j \<noteq> 0" for j
  proof (cases "r AND ready_bit j = 0")
    case True
    then have "ready_bit i AND ready_bit j \<noteq> 0" using j(3) by (simp add: bit.conj_disj_distrib2)
    then have "i = j" using i j(1,2) by (auto simp: ready_bit_def bit_eq_iff bit_simps)
    then show ?thesis using i by simp
  next
    case False
    then show ?thesis using r j(1,2) unfolding ready_ok_def by blast
  qed
  then show ?thesis by (simp add: ready_ok_def)
qed

lemma table_inv_recv_handler:
  fixes s :: "('f, 'n, 'z) sock"
  assumes N: "net_ok N live" and s: "table_inv live s" and i: "i \<in> live (li_net (lwip_of s))"
  shows "table_inv live (atcmd_socket_recv_handler N i s)"
proof (cases "i < 0 \<or> i \<ge> int ATCMD_SOCKET_NUM_MAX")
  case True
  then show ?thesis using s by (auto simp: atcmd_socket_recv_handler_def)
next
  case False
  let ?s1 = "snd (on_lwip (lwip_socket_recv_len N i) s)" and ?len = "fst (on_lwip (lwip_socket_recv_len N i) s)"
  have s1: "table_inv live ?s1" "i \<in> live (li_net (lwip_of ?s1))"
    using s i quiet_simps(2) [OF N] by (simp_all add: on_lwip_env quiet_live)
  let ?s2 = "snd (on_lwip (lwip_socket_recv_done i) ?s1)"
  have s2: "table_inv live ?s2" "i \<in> live (li_net (lwip_of ?s2))" "so_passive (g_env ?s2) = so_passive (g_env ?s1)"
    using table_inv_sets(3) [OF s1(1)] s1(2) by (simp_all add: on_lwip_env)
  have p: "table_inv live (on_env (\<lambda>e. e\<lparr>so_ready := so_ready e OR ready_bit i\<rparr>) ?s2)" if "so_passive (g_env ?s1)"
    using s2 that ready_set [of _ _ i] False by (simp add: table_inv_def)
  show ?thesis
    using False s1 s2(1) p table_inv_recv_one [OF N s1(1)] table_inv_recv_loop [OF N s1(1)]
    by (simp add: atcmd_socket_recv_handler_def case_prod_beta Let_def)
qed

subsection \<open>The task\<close>

lemma table_inv_readable:
  fixes s :: "('f, 'n, 'z) sock"
  assumes N: "net_ok N live" and s: "table_inv live s" and fd: "fd \<in> fds_listen (lwip_of s) \<or> fd \<in> live (li_net (lwip_of s))"
  shows "table_inv live (fd_readable N fd s)"
proof (cases "fd \<in> fds_listen (lwip_of s)")
  case False
  then show ?thesis using fd table_inv_recv_handler [OF N s] by (simp add: fd_readable_def)
next
  case True
  let ?I = "set (open_ids (table s))" and ?w = "(lwip_of s)\<lparr>li_erange := be_errno (g_env s)\<rparr>"
  let ?r = "lwip_socket_accept N fd ?w" and ?s1 = "snd (on_lwip (lwip_socket_accept N fd) s)"
  have S: "distinct (open_ids (table s))" "lwip_inv live ?I ?w" "ready_ok (live (li_net (lwip_of s))) (so_passive (g_env s)) (so_ready (g_env s))"
    using s by (simp_all add: table_inv_def)
  note A = accept_glue [OF N S(2), of fd]
  have s1: "table ?s1 = table s" "lwip_of ?s1 = snd ?r" "so_passive (g_env ?s1) = so_passive (g_env s)" "so_ready (g_env ?s1) = so_ready (g_env s)"
    by (simp_all add: on_lwip_env)
  have inv: "table_inv live ?s1" using S A(1,2) s1 ready_mono [OF S(3)] by (simp add: table_inv_def)
  have f: "fst (on_lwip (lwip_socket_accept N fd) s) = fst ?r" by (simp add: on_lwip_fst)
  show ?thesis
  proof (cases "fst (fst ?r) < 0")
    case True
    then show ?thesis using inv f \<open>fd \<in> fds_listen (lwip_of s)\<close> by (simp add: fd_readable_def case_prod_beta)
  next
    case False
    let ?n = "fst (fst ?r)" and ?s2 = "snd (on_lwip (\<lambda>w. ((), lwip_socket_fds_set (fst (fst ?r)) False w)) ?s1)"
    have n: "?n \<notin> live (li_net (lwip_of s))" "?n \<in> live (li_net (lwip_of ?s1))" using A(3) False s1(2) by simp_all
    have "table_inv live ?s2" using table_inv_sets(6) [OF inv n(2)] .
    moreover have "?n \<in> live (li_net (lwip_of ?s2))" using n(2) by (simp add: on_lwip_env)
    moreover have "?n \<notin> set (open_ids (table ?s2))" using n(1) table_live [OF s] s1(1) by (auto simp: on_lwip_env)
    ultimately have "table_inv live (atcmd_socket_tcp_connect_handler N ?n a p ?s2)" for a p by (rule table_inv_connect [OF N])
    then show ?thesis
      using False \<open>fd \<in> fds_listen (lwip_of s)\<close> by (simp add: fd_readable_def case_prod_beta f)
  qed
qed

text \<open>Handling one descriptor closes no other.\<close>

definition loses :: "('n \<Rightarrow> int set) \<Rightarrow> int \<Rightarrow> ('f, 'n, 'z) sock \<Rightarrow> ('f, 'n, 'z) sock \<Rightarrow> bool" where
  "loses live fd s t \<longleftrightarrow> live (li_net (lwip_of s)) - {fd} \<subseteq> live (li_net (lwip_of t))"

lemma loses_trans: "loses live fd s t \<Longrightarrow> loses live fd t u \<Longrightarrow> loses live fd s u"
  by (auto simp: loses_def)

lemma loses_env: "lwip_of t = lwip_of s \<Longrightarrow> loses live fd s t"
  by (simp add: loses_def)

lemma loses_quiet: "quiet live f \<Longrightarrow> loses live fd s (snd (on_lwip f s))"
  by (simp add: loses_def on_lwip_env quiet_live)

lemma loses_close_entry:
  fixes s :: "('f, 'n, 'z) sock"
  assumes N: "net_ok N live" and i: "0 \<le> i"
  shows "loses live i s (close_entry N i err k s)"
proof (cases "sk_id (table s ! k) = i")
  case False
  then show ?thesis using i by (auto simp: close_entry_def Let_def loses_def)
next
  case True
  let ?w = "(lwip_of (snd (on_lwip (lwip_socket_send_done i) s)))\<lparr>li_erange := be_errno (g_env (snd (on_lwip (lwip_socket_send_done i) s)))\<rparr>"
  have "live n - {i} \<subseteq> live (snd (n_close N i n))" for n using net_ok_open(3) [OF N] .
  then have "live (li_net ?w) - {i} \<subseteq> live (li_net (snd (lwip_socket_close N i ?w)))"
    by (auto simp: lwip_socket_close_def seq_ok_def net_call_def lwip_socket_error_def lwip_socket_fds_clear_def case_prod_beta)
  moreover have "li_net ?w = li_net (lwip_of s)" by (simp add: on_lwip_env)
  ultimately have l: "loses live i s (snd (on_lwip (lwip_socket_close N i) (snd (on_lwip (lwip_socket_send_done i) s))))"
    by (simp add: loses_def on_lwip_env)
  show ?thesis by (rule loses_trans [OF l], rule loses_env) (use True i in \<open>simp add: close_entry_def Let_def set_entry_def atcmd_socket_event_handler_def\<close>)
qed

lemma loses_close:
  fixes s :: "('f, 'n, 'z) sock"
  assumes N: "net_ok N live" and i: "0 \<le> i"
  shows "loses live i s (snd (atcmd_socket_close N i err s))"
proof -
  have "loses live i t (fold (close_entry N i err) ks t)" for ks and t :: "('f, 'n, 'z) sock"
  proof (induction ks arbitrary: t)
    case (Cons k ks)
    show ?case using loses_trans [OF loses_close_entry [OF N i] Cons.IH] by simp
  qed (simp add: loses_env)
  then show ?thesis by (simp add: atcmd_socket_close_def)
qed

lemma loses_send_loop:
  fixes s :: "('f, 'n, 'z) sock"
  shows "net_ok N live \<Longrightarrow> sk_id (table s ! k) = fd \<Longrightarrow> 0 \<le> fd \<Longrightarrow> loses live fd s (snd (snd (send_loop N k via data i retry s)))"
proof (induction N k via data i retry s rule: send_loop.induct)
  case (1 N k via data i retry s)
  obtain ret s1 where p: "send_piece N (table s ! k) via (drop i data) s = (ret, s1)" by fastforce
  have "snd (send_piece N (table s ! k) via (drop i data) s) = s1" using p by simp
  then have s1: "loses live fd s s1" "table s1 = table s"
    using loses_quiet [of live "lwip_socket_send_tcp N (sk_id (table s ! k)) (drop i data)" fd s]
      loses_quiet [of live "lwip_socket_send_udp N (sk_id (table s ! k)) (sk_remote_addr (table s ! k)) (sk_remote_port (table s ! k)) (drop i data) via" fd s]
      quiet_simps(17,18) [OF 1(3)] netlessD(2) [OF netless_send_piece, of N "table s ! k" via "drop i data" s]
    by (auto simp: send_piece_def split: if_splits)
  note tr = loses_trans [OF s1(1)]
  have c: "loses live fd s (snd (atcmd_socket_close N fd r s1))" for r by (rule tr [OF loses_close [OF 1(3,5)]])
  have pz: "loses live fd s1 (net_pause N 10 s1)" "table (net_pause N 10 s1) = table s"
    using net_okD(18) [OF 1(3)] s1(2) by (simp_all add: loses_def net_pause_def)
  have a: "loses live fd s (snd (snd (send_loop N k via data (i + nat ret) retry s1)))" if "\<not> length data \<le> i" "ret > 0"
    using tr [OF 1(1) [OF that(1) p [symmetric] that(2) 1(3) _ 1(5)]] s1(2) 1(4) by simp
  have b: "loses live fd s (snd (snd (send_loop N k via data i (Suc retry) (net_pause N 10 s1))))"
    if "\<not> length data \<le> i" "\<not> ret > 0" "r = (if ret = 0 then - ENOTCONN else ret)" "\<not> closing_error r"
      "(r = - ENOMEM \<or> r = - ENOBUFS \<or> r = - EWOULDBLOCK) \<and> Suc retry < SEND_RETRY_MAX" for r
    using tr [OF loses_trans [OF pz(1) 1(2) [OF that(1) p [symmetric] that(2-5) 1(3) _ 1(5)]]] pz(2) 1(4) by simp
  show ?case
    using a b c s1 p 1(4) by (subst send_loop.simps) (auto simp: Let_def loses_env)
qed

lemma loses_direct:
  fixes s :: "('f, 'n, 'z) sock"
  assumes "net_ok N live" and "sk_id (table s ! k) = fd" and "0 \<le> fd"
  shows "loses live fd s (snd (send_data_direct N k data s))"
  using loses_send_loop [OF assms, of "send_via_netif N (table s ! k) s" data 0 0]
  by (simp add: send_data_direct_def case_prod_beta loses_def)

lemma loses_send_handler:
  fixes s :: "('f, 'n, 'z) sock"
  assumes N: "net_ok N live" and fd: "0 \<le> fd"
  shows "loses live fd s (atcmd_socket_send_handler N fd s)"
proof -
  have l: "loses live fd t (snd (on_lwip (lwip_socket_send_done fd) t))" for t :: "('f, 'n, 'z) sock" by (simp add: loses_def on_lwip_env)
  have r: "loses live fd t (set_req q t)" for t :: "('f, 'n, 'z) sock" and q by (simp add: loses_def set_req_def)
  show ?thesis
    using l loses_trans [OF loses_trans [OF loses_direct [OF N _ fd] r] l]
    by (auto simp: atcmd_socket_send_handler_def case_prod_beta Let_def loses_env split: option.split)
qed

lemma loses_recv_one:
  fixes s :: "('f, 'n, 'z) sock"
  assumes N: "net_ok N live" and fd: "0 \<le> fd"
  shows "loses live fd s (snd (recv_one N fd len p s))"
proof (cases "search_id fd s")
  case None
  then show ?thesis by (simp add: recv_one_def loses_env)
next
  case (Some k)
  obtain ret d peer s1 where r: "recv_piece N fd (table s ! k) (min (nat len) ATCMD_DATA_LEN_MAX) s = ((ret, d, peer), s1)" by (metis surj_pair)
  have q: "loses live fd s (snd (recv_piece N fd sk n s))" for sk n
    using quiet_simps(19,20) [OF N] by (simp add: recv_piece_def case_prod_beta loses_quiet loses_env split: socket_proto.split)
  have s1: "loses live fd s s1" using q [of "table s ! k" "min (nat len) ATCMD_DATA_LEN_MAX"] r by simp
  have dl: "g_env (deliver_rxd u) = g_env u \<or> (\<exists>x. g_env (deliver_rxd u) = (g_env u)\<lparr>so_rxd := x\<rparr>) \<or> g_env (deliver_rxd u) = (g_env u)\<lparr>so_fault := True\<rparr>"
    for u :: "('f, 'n, 'z) sock"
    using recv_data_env by (fastforce simp: deliver_rxd_def set_fault_def split: option.split)
  have dn: "lwip_of (deliver_rxd u) = lwip_of u" for u :: "('f, 'n, 'z) sock" using dl [of u] by auto
  have up: "loses live fd s t" if "lwip_of t = lwip_of s1" for t :: "('f, 'n, 'z) sock" by (rule loses_trans [OF s1 loses_env [OF that]])
  have c: "loses live fd s (snd (atcmd_socket_close N fd e s1))" for e by (rule loses_trans [OF s1 loses_close [OF N fd]])
  show ?thesis
    using s1 c by (auto simp: recv_one_def Some r Let_def loses_env dn atcmd_socket_event_handler_def intro!: up)
qed

lemma loses_recv_loop:
  fixes s :: "('f, 'n, 'z) sock"
  assumes N: "net_ok N live" and fd: "0 \<le> fd"
  shows "loses live fd s (recv_loop N n fd len i s)"
proof (induction n arbitrary: i s)
  case 0
  then show ?case by (simp add: loses_env set_stuck_def)
next
  case (Suc n)
  show ?case using loses_trans [OF loses_recv_one [OF N fd] Suc.IH] by (simp add: case_prod_beta loses_env loses_recv_one [OF N fd])
qed

lemma loses_recv_handler:
  fixes s :: "('f, 'n, 'z) sock"
  assumes N: "net_ok N live"
  shows "loses live fd s (atcmd_socket_recv_handler N fd s)"
proof (cases "fd < 0")
  case False
  let ?s1 = "snd (on_lwip (lwip_socket_recv_len N fd) s)" and ?s2 = "snd (on_lwip (lwip_socket_recv_done fd) (snd (on_lwip (lwip_socket_recv_len N fd) s)))"
  have s1: "loses live fd s ?s1" by (rule loses_quiet [OF quiet_simps(2) [OF N]])
  have s2: "loses live fd s ?s2" by (rule loses_trans [OF s1]) (simp add: loses_def on_lwip_env)
  have up: "loses live fd s t" if "lwip_of t = lwip_of ?s2" for t :: "('f, 'n, 'z) sock" by (rule loses_trans [OF s2 loses_env [OF that]])
  have fd: "0 \<le> fd" using False by simp
  show ?thesis
    using s1 s2 loses_trans [OF s1 loses_recv_one [OF N fd]] loses_trans [OF s1 loses_recv_loop [OF N fd]]
    by (simp add: atcmd_socket_recv_handler_def case_prod_beta Let_def loses_env up atcmd_socket_event_handler_def)
qed (simp add: atcmd_socket_recv_handler_def loses_env)

lemma loses_readable:
  fixes s :: "('f, 'n, 'z) sock"
  assumes N: "net_ok N live" and s: "table_inv live s"
  shows "loses live fd s (fd_readable N fd s)"
proof -
  let ?w = "(lwip_of s)\<lparr>li_erange := be_errno (g_env s)\<rparr>" and ?s1 = "snd (on_lwip (lwip_socket_accept N fd) s)"
  have w: "lwip_inv live (set (open_ids (table s))) ?w" using s by (simp add: table_inv_def)
  have s1: "loses live fd s ?s1" using accept_glue(1) [OF N w, of fd] by (auto simp: loses_def on_lwip_env)
  have f: "loses live fd t (snd (on_lwip (\<lambda>w. ((), lwip_socket_fds_set n False w)) t))" for n and t :: "('f, 'n, 'z) sock"
    by (simp add: loses_def on_lwip_env)
  have c: "loses live fd t (atcmd_socket_tcp_connect_handler N i a p t)" for i a p and t :: "('f, 'n, 'z) sock"
    using loses_quiet [OF quiet_simps(1) [OF N], of fd t i]
    by (auto simp: atcmd_socket_tcp_connect_handler_def case_prod_beta Let_def loses_env loses_def set_entry_def atcmd_socket_event_handler_def
        split: option.split)
  show ?thesis
    using s1 loses_trans [OF loses_trans [OF s1 f] c] by (simp add: fd_readable_def case_prod_beta loses_recv_handler [OF N])
qed

lemma table_inv_task_fds:
  fixes s :: "('f, 'n, 'z) sock"
  assumes N: "net_ok N live"
  shows "table_inv live s \<Longrightarrow> \<forall>fd \<in> set fds. 0 \<le> fd \<and> (fd \<in> rd \<longrightarrow> fd \<in> live (li_net (lwip_of s))) \<Longrightarrow> distinct fds \<Longrightarrow>
    table_inv live (task_fds N rd wr ret fds s)"
proof (induction fds arbitrary: ret s)
  case (Cons fd fds)
  define s1 where "s1 = (if fd \<in> rd then fd_readable N fd s else s)"
  define s2 where "s2 = (if fd \<in> wr then atcmd_socket_send_handler N fd s1 else s1)"
  have fd: "0 \<le> fd" "fd \<in> rd \<Longrightarrow> fd \<in> live (li_net (lwip_of s))" using Cons.prems(2) by simp_all
  have i1: "table_inv live s1" using Cons.prems(1) table_inv_readable [OF N Cons.prems(1)] fd(2) by (simp add: s1_def)
  have i2: "table_inv live s2" using i1 table_inv_send_handler [OF N i1] by (simp add: s2_def)
  have "loses live fd s s1" by (simp add: s1_def loses_env loses_readable [OF N Cons.prems(1)])
  moreover have "loses live fd s1 s2" by (simp add: s2_def loses_env loses_send_handler [OF N fd(1)])
  ultimately have "loses live fd s s2" by (rule loses_trans)
  then have "\<forall>x \<in> set fds. 0 \<le> x \<and> (x \<in> rd \<longrightarrow> x \<in> live (li_net (lwip_of s2)))"
    using Cons.prems(2,3) unfolding loses_def by auto
  from Cons.IH [OF i2 this] Cons.prems(1,3) show ?case by (simp add: Let_def s1_def [symmetric] s2_def [symmetric])
qed simp

lemma table_inv_task:
  fixes s :: "('f, 'n, 'z) sock"
  assumes N: "net_ok N live" and s: "table_inv live s"
  shows "table_inv live (lwip_socket_task N s)"
proof (cases "li_on (lwip_of s)")
  case False
  then show ?thesis using s by (simp add: lwip_socket_task_def)
next
  case True
  obtain m where m: "lwip_socket_fds_get (lwip_of s) = (m, fds_read (lwip_of s), fds_write (lwip_of s))"
    by (simp add: lwip_socket_fds_get_def)
  define r where "r = (if fd_word (fds_read (lwip_of s)) = {} then {} else fds_read (lwip_of s))"
  define w where "w = (if fd_word (fds_write (lwip_of s)) = {} then {} else fds_write (lwip_of s))"
  obtain ret rd1 wr1 s1 where q: "on_lwip (net_query (n_select N m r w)) s = ((ret, rd1, wr1), s1)" by (metis surj_pair)
  have quiet: "quiet live (net_query (n_select N m r w))" by (rule quiet_query) (rule net_okD(5) [OF N])
  have s1: "s1 = snd (on_lwip (net_query (n_select N m r w)) s)" using q by simp
  have i1: "table_inv live s1" "live (li_net (lwip_of s1)) = live (li_net (lwip_of s))"
    unfolding s1 using s quiet by (simp_all add: on_lwip_env quiet_live)
  have "fst (on_lwip (net_query (n_select N m r w)) s) = (ret, rd1, wr1)" using q by simp
  then have "rd1 \<subseteq> r" using net_ok_open(6) [OF N, of m r w "li_net (lwip_of s)"] by (auto simp: on_lwip_fst net_query_def case_prod_beta)
  then have rd: "(if fd_word (fds_read (lwip_of s)) = {} then fds_read (lwip_of s) else rd1) \<subseteq> live (li_net (lwip_of s1))"
    using s i1(2) by (auto simp: r_def table_inv_def lwip_inv_def split: if_splits)
  have "table_inv live (task_fds N (if fd_word (fds_read (lwip_of s)) = {} then fds_read (lwip_of s) else rd1)
      (if fd_word (fds_write (lwip_of s)) = {} then fds_write (lwip_of s) else wr1) ret [0..int m - 1] s1)"
    by (rule table_inv_task_fds [OF N i1(1)]) (use subsetD [OF rd] in auto)
  then show ?thesis using True s N
    by (simp add: lwip_socket_task_def m Let_def r_def [symmetric] w_def [symmetric] q)
qed

subsection \<open>Sending on request, and the data mode\<close>

lemma table_inv_wait: "net_ok N live \<Longrightarrow> table_inv live s \<Longrightarrow> table_inv live (wait_event N fd n s)"
  by (induction n arbitrary: s) (simp_all add: table_inv_task)

lemma table_inv_lwip_request:
  fixes s :: "('f, 'n, 'z) sock"
  assumes N: "net_ok N live" and s: "table_inv live s" and fd: "fd \<in> live (li_net (lwip_of s))"
  shows "table_inv live (snd (lwip_socket_send_request N fd t s))"
proof -
  obtain r s1 where b: "on_lwip (send_request_begin fd) s = (r, s1)" by fastforce
  have s1: "table_inv live s1" using table_inv_sets(4) [OF s fd] b by simp
  show ?thesis
    using s1 table_inv_wait [OF N s1] by (cases r) (auto simp: lwip_socket_send_request_def b Let_def intro!: table_inv_sets(2))
qed

lemma table_inv_request:
  fixes s :: "('f, 'n, 'z) sock"
  assumes N: "net_ok N live" and s: "table_inv live s" and k: "sk_id (table s ! k) \<in> live (li_net (lwip_of s))"
  shows "table_inv live (snd (atcmd_socket_send_request N k data s))"
proof -
  have e: "lwip_of (set_req q s) = lwip_of s" for q by (simp add: set_req_def)
  show ?thesis using s k by (simp add: atcmd_socket_send_request_def case_prod_beta Let_def e table_inv_lwip_request [OF N])
qed

lemma table_inv_send_entry:
  fixes s :: "('f, 'n, 'z) sock"
  assumes N: "net_ok N live" and s: "table_inv live s" and k: "sk_id (table s ! k) \<in> live (li_net (lwip_of s))" "k < length (table s)"
  shows "table_inv live (snd (send_data_entry N k data s))"
proof (cases "search_id (sk_id (table s ! k)) s")
  case None
  then show ?thesis using s by (simp add: send_data_entry_def Let_def)
next
  case (Some j)
  have e: "table_inv live (on_env (\<lambda>e. e\<lparr>so_sending := b\<rparr>) t) = table_inv live t" for b and t :: "('f, 'n, 'z) sock"
    by (rule table_inv_on_env) simp_all
  let ?t = "\<lambda>x. on_env (\<lambda>e. e\<lparr>so_sending := True\<rparr>) (set_entry k x s)"
  have t: "table_inv live (?t x)" "sk_id (table (?t x) ! k) \<in> live (li_net (lwip_of (?t x)))" if "sk_id x = sk_id (table s ! k)" for x
    using that s k table_inv_entry [of x s k live] by (simp_all add: e set_entry_def)
  define x where "x = (let sk = table s ! k; x = table s ! j;
      sk1 = sk\<lparr>sk_protocol := sk_protocol x, sk_local_port := sk_local_port x\<rparr>
    in if sk_remote_port sk1 = 0 \<and> sk_remote_port x > 0
       then sk1\<lparr>sk_remote_port := sk_remote_port x, sk_remote_addr := sk_remote_addr x\<rparr> else sk1)"
  have x: "sk_id x = sk_id (table s ! k)" by (simp add: x_def Let_def)
  have "send_data_entry N k data s = (if data = [] then ((- EINVAL, 0), s) else if sk_protocol (table s ! k) = PROTO_NONE then ((- EPROTOTYPE, 0), s)
      else case (if so_event_send (g_env (?t x)) then atcmd_socket_send_request N k data (?t x) else send_data_direct N k data (?t x)) of
        (r, s2) \<Rightarrow> (r, on_env (\<lambda>e. e\<lparr>so_sending := False\<rparr>) s2))"
    by (simp only: send_data_entry_def Let_def Some option.case x_def)
  then show ?thesis
    using s e table_inv_request [OF N t [OF x]] table_inv_direct [OF N t(1) [OF x]] by (simp add: case_prod_beta)
qed

lemma table_inv_send_data:
  assumes N: "net_ok N live" and s: "table_inv live s"
  shows "table_inv live (snd (atcmd_socket_send_data N i data s))"
proof (cases "search_id i s")
  case (Some k)
  note L = search_live [OF s Some]
  show ?thesis using table_inv_send_entry [OF N s L(1,3)] by (simp add: atcmd_socket_send_data_def Some case_prod_beta)
qed (simp add: atcmd_socket_send_data_def s)

lemma table_inv_consumers:
  assumes "net_ok N live" and "table_inv live s"
  shows "table_inv live (snd (send (socket_consumers N) k b s))" "table_inv live (event (socket_consumers N) e s)"
  using assms table_inv_send_data [OF assms]
  by (simp_all add: socket_consumers_def socket_event_consumer_def split: data_sink.split option.split socket_event.split)

subsection \<open>The commands\<close>

lemma table_inv_enable [simp]: "table_inv live (snd (atcmd_data_mode_enable p s)) = table_inv live s"
  by (rule table_inv_genv) (simp add: atcmd_data_mode_enable_def split: option.split)

lemma table_inv_fold: "(\<And>x t. table_inv live t \<Longrightarrow> table_inv live (f x t)) \<Longrightarrow> table_inv live s \<Longrightarrow> table_inv live (fold f xs s)"
  by (induction xs arbitrary: s) simp_all

lemma table_inv_server_address: "net_ok N live \<Longrightarrow> table_inv live (snd (server_address N a p s)) = table_inv live s"
  using quiet_simps(22) [of N live] by (simp add: server_address_def case_prod_beta split: option.split)

lemma table_inv_open_sets:
  assumes "net_ok N live" and "table_inv live s"
  shows "table_inv live (snd (open_udp_set N a s))" "table_inv live (snd (open_tcp_server_set N a s))"
    "table_inv live (snd (open_tcp_client_set N a s))"
  using assms
  by (simp_all add: open_udp_set_def open_tcp_server_set_def open_tcp_client_set_def case_prod_beta Let_def table_inv_open
      table_inv_server_address)

lemma table_inv_open_set:
  assumes "net_ok N live" and "table_inv live s"
  shows "table_inv live (snd (atcmd_socket_open_set N argv s))"
  using assms by (simp add: atcmd_socket_open_set_def case_prod_beta Let_def table_inv_open_sets split: option.split)

lemma table_inv_close_cmds:
  assumes "net_ok N live" and "table_inv live s"
  shows "table_inv live (snd (atcmd_socket_close_run N s))" "table_inv live (snd (atcmd_socket_close_set N argv s))"
  using assms by (simp_all add: atcmd_socket_close_run_def atcmd_socket_close_set_def case_prod_beta table_inv_close)

lemma table_inv_list_entry:
  assumes N: "net_ok N live" and s: "table_inv live s"
  shows "table_inv live (list_entry N k s)"
proof -
  have q: "quiet live (lwip_socket_udp_get_multicast_ttl N fd)" for fd using quiet_simps(13) [OF N] .
  have e: "table (snd (on_lwip f s)) = table s" for f :: "'a lwip \<Rightarrow> 'x \<times> 'a lwip" by simp
  show ?thesis using s q by (auto simp: list_entry_def case_prod_beta Let_def table_inv_entry)
qed

lemma table_inv_list: "net_ok N live \<Longrightarrow> table_inv live s \<Longrightarrow> table_inv live (snd (atcmd_socket_list_get N argv s))"
  by (simp add: atcmd_socket_list_get_def table_inv_fold table_inv_list_entry)

lemma table_inv_ssend_remote: "table_inv live t \<Longrightarrow> table_inv live (snd (ssend_remote N k argv t))"
  by (simp add: ssend_remote_def case_prod_beta Let_def table_inv_entry split: option.split)

lemma table_inv_ssend_enable [simp]: "table_inv live (snd (ssend_enable N k len dn t)) = table_inv live t"
  by (simp add: ssend_enable_def case_prod_beta Let_def)

lemma table_inv_opt_atoi [simp]: "table_inv live (snd (case p of None \<Rightarrow> (v, t) | Some q \<Rightarrow> atoi_of q t)) = table_inv live t"
  by (cases p) simp_all

lemma table_inv_send_cmds:
  assumes "table_inv live s"
  shows "table_inv live (snd (atcmd_socket_send_set N argv s))" "table_inv live (snd (atcmd_socket_send_exit_get argv s))"
    "table_inv live (snd (atcmd_socket_send_exit_set argv s))"
proof -
  show "table_inv live (snd (atcmd_socket_send_set N argv s))"
  proof (cases "search_id (fst (atoi_of (argv ! 0) s)) (snd (atoi_of (argv ! 0) s))")
    case None
    then show ?thesis using assms by (simp add: atcmd_socket_send_set_def case_prod_beta)
  next
    case (Some k)
    have r1: "table_inv live (snd (ssend_remote N k argv (snd (atoi_of (argv ! 0) s))))" using assms by (simp add: table_inv_ssend_remote)
    show ?thesis
      by (cases "fst (ssend_remote N k argv (snd (atoi_of (argv ! 0) s)))")
        (use assms r1 in \<open>simp_all add: atcmd_socket_send_set_def case_prod_beta Some\<close>)
  qed
  show "table_inv live (snd (atcmd_socket_send_exit_get argv s))" "table_inv live (snd (atcmd_socket_send_exit_set argv s))"
    using assms by (simp_all add: atcmd_socket_send_exit_get_def atcmd_socket_send_exit_set_def Let_def table_inv_on_env split: option.split)
qed

lemma table_inv_recv_lens: "net_ok N live \<Longrightarrow> table_inv live (snd (recv_lens N xs lens s)) = table_inv live s"
  using quiet_simps(2) [of N live] by (induction xs arbitrary: lens s) (simp_all add: case_prod_beta)

lemma table_inv_puts: "table_inv live (fold (\<lambda>i t. if P i then msg_put (f i) t else t) xs u) = table_inv live u"
  by (induction xs arbitrary: u) simp_all

lemma table_inv_recv_get: "net_ok N live \<Longrightarrow> table_inv live s \<Longrightarrow> table_inv live (snd (atcmd_socket_recv_get N argv s))"
  using quiet_simps(2) [of N live]
  by (simp add: atcmd_socket_recv_get_def case_prod_beta Let_def table_inv_recv_lens table_inv_puts split: option.split)

lemma table_inv_srecv_wait: "net_ok N live \<Longrightarrow> table_inv live (snd (srecv_wait N i t n s)) = table_inv live s"
proof (induction N i t n s rule: srecv_wait.induct)
  case (1 N i t n s)
  obtain ret s1 where r: "on_lwip (lwip_socket_recv_len N i) s = (ret, s1)" by fastforce
  have "table_inv live s1 = table_inv live s" using table_inv_quiet [OF quiet_simps(2) [OF 1(2)], of i s] r by simp
  then show ?case using 1(1) [OF _ r [symmetric]] 1(2) by (subst srecv_wait.simps) (auto simp: r)
qed

lemma ready_andnot: "ready_ok L p r \<Longrightarrow> ready_ok L p (r AND NOT b)"
  unfolding ready_ok_def by (auto simp: bit_eq_iff bit_simps)

lemma table_inv_srecv_read:
  fixes s :: "('f, 'n, 'z) sock"
  assumes N: "net_ok N live" and s: "table_inv live s" and i: "0 \<le> i" "i < int ATCMD_SOCKET_NUM_MAX"
  shows "table_inv live (snd (srecv_read N i len s))"
proof -
  let ?s1 = "snd (recv_one N i len True s)"
  let ?s2 = "on_env (\<lambda>e. e\<lparr>so_ready := so_ready e AND NOT (ready_bit i)\<rparr>) ?s1"
  have s1: "table_inv live ?s1" by (rule table_inv_recv_one [OF N s])
  have s2: "table_inv live ?s2" using s1 by (simp add: table_inv_def ready_andnot)
  have "i \<in> live (li_net (lwip_of ?s2))" if "so_ready (g_env ?s1) AND ready_bit i \<noteq> 0"
    using s1 i that by (simp add: table_inv_def ready_ok_def)
  then show ?thesis using s1 table_inv_sets(5) [OF s2] by (simp add: srecv_read_def case_prod_beta Let_def)
qed

lemma table_inv_recv_set:
  fixes s :: "('f, 'n, 'z) sock"
  assumes N: "net_ok N live" and s: "table_inv live s"
  shows "table_inv live (snd (atcmd_socket_recv_set N argv s))"
  using s quiet_simps(2) [OF N]
  by (simp add: atcmd_socket_recv_set_def case_prod_beta Let_def table_inv_srecv_read [OF N] table_inv_srecv_wait [OF N])

lemma ready_none: "ready_ok L p 0"
  by (simp add: ready_ok_def)

lemma table_inv_recv_modes:
  assumes "table_inv live s"
  shows "table_inv live (snd (atcmd_socket_recv_mode_get argv s))" "table_inv live (snd (atcmd_socket_recv_mode_set argv s))"
    "table_inv live (snd (atcmd_socket_recv_info_get argv s))" "table_inv live (snd (atcmd_socket_recv_info_set argv s))"
    "table_inv live (snd (atcmd_socket_recv_log_get argv s))" "table_inv live (snd (atcmd_socket_recv_log_set argv s))"
proof -
  have m: "table_inv live (on_env (\<lambda>e. e\<lparr>so_passive := p, so_ready_event := r, so_ready := 0\<rparr>) t)" if "table_inv live t" for p r t
    using that by (simp add: table_inv_def ready_none)
  show "table_inv live (snd (atcmd_socket_recv_mode_set argv s))"
    using assms by (auto simp: atcmd_socket_recv_mode_set_def case_prod_beta intro!: m)
  show "table_inv live (snd (atcmd_socket_recv_mode_get argv s))"
    "table_inv live (snd (atcmd_socket_recv_info_get argv s))" "table_inv live (snd (atcmd_socket_recv_info_set argv s))"
    "table_inv live (snd (atcmd_socket_recv_log_get argv s))" "table_inv live (snd (atcmd_socket_recv_log_set argv s))"
    using assms
    by (simp_all add: atcmd_socket_recv_mode_get_def atcmd_socket_recv_info_get_def atcmd_socket_recv_info_set_def
        atcmd_socket_recv_log_get_def atcmd_socket_recv_log_set_def case_prod_beta table_inv_on_env)
qed

lemma table_inv_addr_info: "net_ok N live \<Longrightarrow> table_inv live s \<Longrightarrow> table_inv live (snd (atcmd_socket_addr_info_set N argv s))"
  using quiet_simps(21,22) [of N live]
  by (simp add: atcmd_socket_addr_info_set_def addr_info_result_def case_prod_beta split: option.split)

lemma table_inv_keepalive_list: "net_ok N live \<Longrightarrow> table_inv live (keepalive_list N xs v s) = table_inv live s"
  using quiet_simps(4) [of N live] by (induction xs arbitrary: v s) (simp_all add: case_prod_beta Let_def split: option.split)

lemma table_inv_nodelay_list: "net_ok N live \<Longrightarrow> table_inv live (nodelay_list N xs s) = table_inv live s"
  using quiet_simps(6) [of N live] by (induction xs arbitrary: s) (simp_all add: case_prod_beta)

lemma table_inv_tcp_cmds:
  assumes "net_ok N live" and "table_inv live s"
  shows "table_inv live (snd (atcmd_socket_tcp_keepalive_get N argv s))" "table_inv live (snd (atcmd_socket_tcp_keepalive_set N argv s))"
    "table_inv live (snd (atcmd_socket_tcp_nodelay_get N argv s))" "table_inv live (snd (atcmd_socket_tcp_nodelay_set N argv s))"
  using assms(2) quiet_simps(4-7) [OF assms(1)]
  by (simp_all add: atcmd_socket_tcp_keepalive_get_def atcmd_socket_tcp_keepalive_set_def atcmd_socket_tcp_nodelay_get_def
      atcmd_socket_tcp_nodelay_set_def case_prod_beta table_inv_keepalive_list [OF assms(1)] table_inv_nodelay_list [OF assms(1)]
      split: option.split)

lemma table_inv_multicast_add: "net_ok N live \<Longrightarrow> table_inv live s \<Longrightarrow> table_inv live (snd (multicast_add N k a s))"
  using quiet_simps(11) [of N live]
  by (simp add: multicast_add_def case_prod_beta Let_def table_inv_entry split: option.split)

lemma table_inv_multicast_drop:
  fixes s :: "('f, 'n, 'z) sock"
  assumes N: "net_ok N live" and s: "table_inv live s"
  shows "table_inv live (snd (multicast_drop N k a s))"
proof -
  let ?f = "\<lambda>a t. if a \<noteq> IPADDR_ANY then snd (on_lwip (lwip_socket_udp_drop_multicast_group N (sk_id (table s ! k)) a) t) else t"
  have q: "quiet live (lwip_socket_udp_drop_multicast_group N fd b)" for fd b using quiet_simps(12) [OF N] .
  have i: "table_inv live (fold ?f xs t)" if "table_inv live t" for xs and t :: "('f, 'n, 'z) sock"
    using that q by (intro table_inv_fold) simp_all
  have t: "table (fold ?f xs t) = table t" for xs and t :: "('f, 'n, 'z) sock" by (rule fold_table) simp
  show ?thesis using s q i [OF s] t [of "mc_addr (table s ! k)" s]
    by (simp add: multicast_drop_def case_prod_beta Let_def table_inv_entry split: option.split)
qed

lemma table_inv_multicast_entry: "table_inv live (multicast_entry x s) = table_inv live s"
proof -
  have "table_inv live (fold (\<lambda>a t. if a = IPADDR_ANY then t else msg_put (f a) t) xs s) = table_inv live s" for f xs
    by (induction xs arbitrary: s) simp_all
  then show ?thesis by (simp add: multicast_entry_def)
qed

lemma table_inv_multicast:
  assumes "net_ok N live" and "table_inv live s"
  shows "table_inv live (snd (atcmd_socket_udp_multicast_get argv s))" "table_inv live (snd (atcmd_socket_udp_multicast_set N argv s))"
proof -
  show "table_inv live (snd (atcmd_socket_udp_multicast_get argv s))"
    using assms(2) by (simp add: atcmd_socket_udp_multicast_get_def table_inv_fold table_inv_multicast_entry)
  show "table_inv live (snd (atcmd_socket_udp_multicast_set N argv s))"
    using assms(2)
    by (simp add: atcmd_socket_udp_multicast_set_def case_prod_beta Let_def table_inv_multicast_add [OF assms(1)]
        table_inv_multicast_drop [OF assms(1)] split: option.split)
qed

lemma table_inv_timeout_infos [simp]: "table_inv live (timeout_infos ts s) = table_inv live s"
  by (induction ts s rule: timeout_infos.induct) simp_all

lemma table_inv_times:
  "table_inv live (t\<lparr>g_env := (g_env s)\<lparr>be_errno := b, timeout_wifi := x\<rparr>\<rparr>) = table_inv live s"
  "table_inv live (t\<lparr>g_env := (g_env s)\<lparr>be_errno := b, timeout_socket := x\<rparr>\<rparr>) = table_inv live s"
  by (simp_all add: table_inv_def)

lemma table_inv_timeouts:
  assumes "table_inv live s"
  shows "table_inv live (snd (atcmd_socket_timeout_get argv s))" "table_inv live (snd (atcmd_socket_timeout_set argv s))"
proof -
  show "table_inv live (snd (atcmd_socket_timeout_get argv s))"
    using assms by (simp add: atcmd_socket_timeout_get_def atcmd_basic_timeout_get_def case_prod_beta Let_def)
  show "table_inv live (snd (atcmd_socket_timeout_set argv s))"
    using assms by (simp add: atcmd_socket_timeout_set_def atcmd_basic_timeout_set_def case_prod_beta Let_def table_inv_times split: option.split)
qed

text \<open>Every handler of the module.\<close>

lemma table_inv_handlers:
  assumes "net_ok N live" and "table_inv live s" and "ids a = Some c"
  shows "table_inv live (snd (socket_handlers N ids H a t argv s))"
  using assms
  by (cases t; cases c)
    (simp_all add: socket_handlers_def run_handler_def get_handler_def set_handler_def table_inv_open_set table_inv_close_cmds
      table_inv_list table_inv_send_cmds table_inv_recv_get table_inv_recv_set table_inv_recv_modes table_inv_addr_info
      table_inv_tcp_cmds table_inv_multicast table_inv_timeouts)

subsection \<open>Everything that can happen\<close>

text \<open>
  A step of the module: a command, a turn of the socket task, data for a socket, an event of the data mode, or anything
  outside that leaves the module's variables alone.
\<close>

inductive socket_step ::
  "'n net_api \<Rightarrow> (addr \<Rightarrow> socket_cmd option) \<Rightarrow> ('f, 'n, 'z) sock_env_scheme handlers \<Rightarrow> ('f, 'n, 'z) sock \<Rightarrow> ('f, 'n, 'z) sock \<Rightarrow> bool"
  for N ids H
where
  command: "ids a = Some c \<Longrightarrow> socket_handlers N ids H a t argv s = (r, s') \<Longrightarrow> socket_step N ids H s s'"
| task: "socket_step N ids H s (lwip_socket_task N s)"
| data: "send (socket_consumers N) k b s = (r, s') \<Longrightarrow> socket_step N ids H s s'"
| notice: "socket_step N ids H s (event (socket_consumers N) e s)"
| outside: "g_env s' = g_env s \<Longrightarrow> socket_step N ids H s s'"

lemma table_inv_step:
  assumes "net_ok N live" and "socket_step N ids H s s'" and "table_inv live s"
  shows "table_inv live s'"
  using assms(2)
proof cases
  case (command a c t argv r)
  then show ?thesis using table_inv_handlers [where H = H and t = t and argv = argv and ids = ids and a = a, OF assms(1,3) command(1)] by simp
next
  case (data k b r)
  then show ?thesis using table_inv_consumers(1) [OF assms(1,3), of k b] by simp
next
  case outside
  then show ?thesis using assms(3) table_inv_genv by blast
qed (use table_inv_task [OF assms(1,3)] table_inv_consumers(2) [OF assms(1,3)] in simp_all)

text \<open>A module as \<open>_atcmd_socket_init\<close> leaves it.\<close>

definition socket_fresh :: "('f, 'n, 'z) sock \<Rightarrow> bool" where
  "socket_fresh s \<longleftrightarrow> (\<forall>x \<in> set (table s). x = atcmd_socket_reset) \<and> fds_read (lwip_of s) = {} \<and> fds_write (lwip_of s) = {} \<and>
     fds_listen (lwip_of s) = {} \<and> so_ready (g_env s) = 0"

lemma table_inv_fresh: "socket_fresh s \<Longrightarrow> table_inv live s"
proof -
  assume f: "socket_fresh s"
  then have "open_ids (table s) = []" by (auto simp: open_ids_def socket_fresh_def atcmd_socket_reset_def filter_empty_conv)
  then show ?thesis using f by (simp add: table_inv_def socket_fresh_def lwip_inv_def ready_none)
qed

text \<open>C9: Whatever commands, data, events and turns of the task follow on the start of the socket module, in any order, and
  whatever the network answers: no descriptor is in the table twice, every descriptor in the table, in the three sets of the
  task and among the ready bits is open.\<close>

theorem socket_table_invariant:
  assumes "net_ok N live" and "(socket_step N ids H)\<^sup>*\<^sup>* s t" and "socket_fresh s"
  shows "distinct (filter (\<lambda>i. 0 \<le> i) (map sk_id (table t))) \<and>
    (\<forall>x \<in> set (table t). sk_id x < 0 \<or> sk_id x \<in> live (li_net (lwip_of t))) \<and>
    fds_read (lwip_of t) \<union> fds_write (lwip_of t) \<union> fds_listen (lwip_of t) \<subseteq> live (li_net (lwip_of t)) \<and>
    (\<forall>i. 0 \<le> i \<longrightarrow> i < 10 \<longrightarrow> so_ready (g_env t) AND ready_bit i \<noteq> 0 \<longrightarrow> i \<in> live (li_net (lwip_of t)))"
proof -
  have "table_inv live t" using assms(2)
    by (induction rule: rtranclp_induct) (use table_inv_fresh [OF assms(3)] table_inv_step [OF assms(1)] in auto)
  then show ?thesis
    by (auto simp: table_inv_def lwip_inv_def open_ids_def ready_ok_def ATCMD_SOCKET_NUM_MAX_def)
qed

text \<open>A network that gives out the numbers from 0 on as descriptors.\<close>

definition count_net :: "nat net_api" where
  "count_net = \<lparr>n_socket = \<lambda>ty n. (int n, Suc n), n_bind = \<lambda>fd p n. (0, n), n_listen = \<lambda>fd n. (0, n),
     n_accept = \<lambda>fd n. ((int n, 0x0100000a, 4000), Suc n), n_connect = \<lambda>fd a p n. (0, n), n_writable = \<lambda>fd t n. ((1, True), n),
     n_select = \<lambda>k rd wr n. ((1, rd, wr), n), n_getopt = \<lambda>fd opt n. ((0, if opt = SO_TYPE then SOCK_STREAM else 1), n),
     n_setopt = \<lambda>fd opt v n. (0, n), n_membership = \<lambda>fd b a n. (0, n), n_nonblock = \<lambda>fd b n. (0, n), n_fionread = \<lambda>fd n. ((0, 0), n),
     n_sockname = \<lambda>fd n. ((0, 5000), n), n_close = \<lambda>fd n. (0, n), n_send = \<lambda>fd d n. (int (length d), n),
     n_sendto = \<lambda>fd via a p d n. (int (length d), n), n_recv = \<lambda>fd len n. ((- LwipSocket.EAGAIN, []), n),
     n_recvfrom = \<lambda>fd len n. ((- LwipSocket.EAGAIN, [], 0, 0), n), n_hostbyname = \<lambda>h n. ((-1, []), n), n_addrinfo = \<lambda>h p n. ((200, []), n),
     n_bcast_if = \<lambda>n. False, n_delay = \<lambda>ms n. n, n_strerror = \<lambda>e. ''error'', n_stack_addr = 7, n_stack_int = 0,
     n_no_passthrough = False, n_passes = 5, n_turns = 10\<rparr>"

lemma count_net_ok: "net_ok count_net (\<lambda>n. {0..<int n})"
  by (auto simp: net_ok_def count_net_def opens_def)

definition fresh_sock :: "(unit, nat, unit) sock" where
  "fresh_sock = demo_atcmd demo_served ((demo_sock_env 0)\<lparr>so_table := replicate 10 atcmd_socket_reset,
     so_lwip := (demo_lwip 0)\<lparr>fds_read := {}\<rparr>\<rparr>)"

lemma fresh_sock_fresh: "socket_fresh fresh_sock"
  by (simp add: socket_fresh_def fresh_sock_def demo_atcmd_def demo_sock_env_def demo_lwip_def)

definition open_cmd :: "addr \<Rightarrow> socket_cmd option" where "open_cmd = [50 \<mapsto> ATCMD_SOCKET_OPEN]"

theorem socket_table_invariant_witness:
  "(\<lambda>t. distinct (filter (\<lambda>i. 0 \<le> i) (map sk_id (table t))) \<and> fds_listen (lwip_of t) \<subseteq> {0..<int (li_net (lwip_of t))})
    (lwip_socket_task count_net (snd (socket_handlers count_net open_cmd (\<lambda>a t argv s. (7, s)) 50 ATCMD_HANDLER_SET [''\"TCP\"'', ''5000''] fresh_sock)))"
proof -
  let ?H = "\<lambda>a t argv s. (7, s) :: int \<times> (unit, nat, unit) sock"
  obtain r u where u: "socket_handlers count_net open_cmd ?H 50 ATCMD_HANDLER_SET [''\"TCP\"'', ''5000''] fresh_sock = (r, u)" by fastforce
  have "socket_step count_net open_cmd ?H fresh_sock u"
    by (rule socket_step.command [OF _ u]) (simp add: open_cmd_def)
  moreover have "socket_step count_net open_cmd ?H u (lwip_socket_task count_net u)" by (rule socket_step.task)
  ultimately have "(socket_step count_net open_cmd ?H)\<^sup>*\<^sup>* fresh_sock (lwip_socket_task count_net u)" by (meson converse_rtranclp_into_rtranclp r_into_rtranclp)
  from socket_table_invariant [OF count_net_ok this fresh_sock_fresh] show ?thesis by (simp add: u)
qed

end
