(* ===== verification/AtcmdSocketMode.thy ===== *)
theory AtcmdSocketMode
  imports AtcmdSocketInv
begin

text \<open>
  A change of the receive mode while data waits: the socket with the data is not read any more.
\<close>

subsection \<open>The task's set for reading\<close>

text \<open>Handling a descriptor takes descriptors out of the set, and only an accepted connection joins it.\<close>

definition reads_only :: "('f, 'n, 'z) sock \<Rightarrow> ('f, 'n, 'z) sock \<Rightarrow> bool" where
  "reads_only s t \<longleftrightarrow> fds_read (lwip_of t) \<subseteq> fds_read (lwip_of s) \<and> so_passive (g_env t) = so_passive (g_env s) \<and>
     so_req (g_env t) = so_req (g_env s) \<and> (\<not> so_passive (g_env s) \<longrightarrow> so_ready (g_env t) = so_ready (g_env s))"

lemma reads_trans: "reads_only s t \<Longrightarrow> reads_only t u \<Longrightarrow> reads_only s u"
  by (auto simp: reads_only_def)

lemma reads_netless: "netless t = netless s \<Longrightarrow> reads_only s t"
proof -
  assume n: "netless t = netless s"
  show "reads_only s t"
    unfolding reads_only_def using netlessD(3-5) [OF n] glueD(2) [OF netlessD(1) [OF n]] by simp
qed

lemma reads_close_entry: "reads_only s (close_entry N i err k s)"
proof (cases "0 \<le> sk_id (table s ! k) \<and> (i < 0 \<or> i = sk_id (table s ! k))")
  case True
  then show ?thesis
    by (auto simp: close_entry_def Let_def reads_only_def on_lwip_env set_entry_def atcmd_socket_event_handler_def
        lwip_socket_send_done_def lwip_socket_error_def lwip_socket_close_def seq_ok_def net_call_def lwip_socket_fds_clear_def case_prod_beta)
qed (auto simp: close_entry_def Let_def reads_only_def)

lemma reads_close: "reads_only s (snd (atcmd_socket_close N i err s))"
proof -
  have "reads_only t (fold (close_entry N i err) ks t)" for ks t
  proof (induction ks arbitrary: t)
    case (Cons k ks)
    show ?case using reads_trans [OF reads_close_entry Cons.IH] by simp
  qed (simp add: reads_only_def)
  then show ?thesis by (simp add: atcmd_socket_close_def)
qed

lemma deliver_env: "g_env (deliver_rxd s) = g_env s \<or> (\<exists>x. g_env (deliver_rxd s) = (g_env s)\<lparr>so_rxd := x\<rparr>) \<or>
    g_env (deliver_rxd s) = (g_env s)\<lparr>so_fault := True\<rparr>"
  using recv_data_env by (fastforce simp: deliver_rxd_def set_fault_def split: option.split)

lemma reads_deliver: "reads_only s (deliver_rxd s)"
  using deliver_env [of s] by (auto simp: reads_only_def)

lemma reads_received [simp]:
  "reads_only s (on_env (\<lambda>e. e\<lparr>so_recv_cnt := f e, so_recv_len := g e, so_rxd := x e\<rparr>) s)" "reads_only s (msg_ok t) = reads_only s t"
  "reads_only s (atcmd_socket_event_handler N ev t) = reads_only s t" "reads_only s s"
  by (simp_all add: reads_only_def on_env_def atcmd_socket_event_handler_def)

lemma reads_recv_one: "reads_only s (snd (recv_one N i len p s))"
proof (cases "search_id i s")
  case None
  then show ?thesis by (simp add: recv_one_def)
next
  case (Some k)
  obtain ret d peer s1 where r: "recv_piece N i (table s ! k) (min (nat len) ATCMD_DATA_LEN_MAX) s = ((ret, d, peer), s1)" by (metis surj_pair)
  have "netless (snd (recv_piece N i (table s ! k) (min (nat len) ATCMD_DATA_LEN_MAX) s)) = netless s" by simp
  then have s1: "reads_only s s1" unfolding r snd_conv by (rule reads_netless)
  have up: "reads_only s (deliver_rxd t)" if "reads_only s1 t" for t
    by (rule reads_trans [OF s1 reads_trans [OF that reads_deliver]])
  have c: "reads_only s (snd (atcmd_socket_close N i e s1))" for e by (rule reads_trans [OF s1 reads_close])
  show ?thesis using s1 c by (simp add: recv_one_def Some r Let_def up)
qed

lemma reads_recv_loop: "reads_only s (recv_loop N n fd len i s)"
proof (induction n arbitrary: i s)
  case 0
  then show ?case by (simp add: reads_only_def set_stuck_def)
next
  case (Suc n)
  have z: "reads_only s s" by (simp add: reads_only_def)
  show ?case by (simp add: case_prod_beta z reads_recv_one reads_trans [OF reads_recv_one Suc.IH])
qed

lemma reads_recv_handler:
  assumes "\<not> so_passive (g_env s)"
  shows "reads_only s (atcmd_socket_recv_handler N i s)"
proof -
  let ?s1 = "snd (on_lwip (lwip_socket_recv_len N i) s)"
  have s1: "reads_only s ?s1" by (rule reads_netless) simp
  then have p: "\<not> so_passive (g_env ?s1)" using assms by (simp add: reads_only_def)
  have z: "reads_only s s" by (simp add: reads_only_def)
  show ?thesis
    using p s1 by (simp add: atcmd_socket_recv_handler_def case_prod_beta Let_def z reads_trans [OF s1 reads_recv_one] reads_trans [OF s1 reads_recv_loop])
qed

text \<open>A descriptor outside the task's set.\<close>

definition deaf :: "('n \<Rightarrow> int set) \<Rightarrow> int \<Rightarrow> ('f, 'n, 'z) sock \<Rightarrow> bool" where
  "deaf live fd s \<longleftrightarrow> fd \<notin> fds_read (lwip_of s) \<and> fd \<in> live (li_net (lwip_of s)) \<and> rq_socket (so_req (g_env s)) = None \<and>
     \<not> so_passive (g_env s) \<and> so_ready (g_env s) = 0"

lemma deaf_step: "deaf live fd s \<Longrightarrow> reads_only s t \<Longrightarrow> loses live i s t \<Longrightarrow> i \<noteq> fd \<Longrightarrow> deaf live fd t"
  unfolding deaf_def reads_only_def loses_def by auto

lemma deaf_readable:
  fixes s :: "('f, 'n, 'z) sock"
  assumes N: "net_ok N live" and s: "table_inv live s" and d: "deaf live fd s" and i: "i \<noteq> fd"
  shows "deaf live fd (fd_readable N i s)"
proof (cases "i \<in> fds_listen (lwip_of s)")
  case False
  have "\<not> so_passive (g_env s)" using d by (simp add: deaf_def)
  then have "deaf live fd (atcmd_socket_recv_handler N i s)"
    by (rule deaf_step [OF d reads_recv_handler loses_recv_handler [OF N] i])
  then show ?thesis using False by (simp add: fd_readable_def)
next
  case True
  let ?w = "(lwip_of s)\<lparr>li_erange := be_errno (g_env s)\<rparr>"
  let ?r = "lwip_socket_accept N i ?w" and ?s1 = "snd (on_lwip (lwip_socket_accept N i) s)"
  have w: "lwip_inv live (set (open_ids (table s))) ?w" using s by (simp add: table_inv_def)
  note A = accept_glue [OF N w, of i]
  have f: "fst (on_lwip (lwip_socket_accept N i) s) = fst ?r" by (simp add: on_lwip_fst)
  have "netless ?s1 = netless s" by simp
  then have s1: "deaf live fd ?s1"
    using d reads_netless [of ?s1 s] A(1) by (auto simp: deaf_def reads_only_def on_lwip_env)
  show ?thesis
  proof (cases "fst (fst ?r) < 0")
    case True
    then show ?thesis using s1 \<open>i \<in> fds_listen (lwip_of s)\<close> by (simp add: fd_readable_def case_prod_beta f)
  next
    case False
    then have n: "fst (fst ?r) \<noteq> fd" using A(3) d by (auto simp: deaf_def)
    let ?s2 = "snd (on_lwip (\<lambda>w. ((), lwip_socket_fds_set (fst (fst ?r)) False w)) ?s1)"
    have s2: "deaf live fd ?s2" using s1 n by (simp add: deaf_def on_lwip_env) (simp add: lwip_socket_fds_set_def)
    have c: "deaf live fd (atcmd_socket_tcp_connect_handler N j a p t)" if "deaf live fd t" for j a p and t :: "('f, 'n, 'z) sock"
    proof -
      let ?t = "snd (on_lwip (lwip_socket_get_local N j) t)"
      have "netless ?t = netless t" by simp
      then have "deaf live fd ?t"
        using that reads_netless [of ?t t] loses_quiet [OF quiet_simps(1) [OF N], of "fd + 1" t j]
        by (auto simp: deaf_def reads_only_def loses_def)
      then show ?thesis using that
        by (auto simp: atcmd_socket_tcp_connect_handler_def case_prod_beta Let_def deaf_def set_entry_def atcmd_socket_event_handler_def
            split: option.split)
    qed
    show ?thesis using False c [OF s2] \<open>i \<in> fds_listen (lwip_of s)\<close> by (simp add: fd_readable_def case_prod_beta f)
  qed
qed

lemma deaf_env: "g_env t = g_env s \<Longrightarrow> deaf live fd t = deaf live fd s"
  by (simp add: deaf_def)

lemma deaf_pause [simp]: "net_ok N live \<Longrightarrow> deaf live fd (net_pause N ms s) = deaf live fd s"
  by (simp add: deaf_def net_pause_def net_okD)

lemma deaf_send_handler: "deaf live fd s \<Longrightarrow> atcmd_socket_send_handler N i s = s"
  by (simp add: deaf_def atcmd_socket_send_handler_def)

lemma deaf_task_fds:
  fixes s :: "('f, 'n, 'z) sock"
  assumes N: "net_ok N live" and rd: "fd \<notin> rd"
  shows "table_inv live s \<Longrightarrow> deaf live fd s \<Longrightarrow> \<forall>i \<in> set fds. 0 \<le> i \<and> (i \<in> rd \<longrightarrow> i \<in> live (li_net (lwip_of s))) \<Longrightarrow> distinct fds \<Longrightarrow>
    deaf live fd (task_fds N rd wr ret fds s)"
proof (induction fds arbitrary: ret s)
  case (Cons i fds)
  define s1 where "s1 = (if i \<in> rd then fd_readable N i s else s)"
  have i: "0 \<le> i" "i \<in> rd \<Longrightarrow> i \<in> live (li_net (lwip_of s))" "i \<in> rd \<Longrightarrow> i \<noteq> fd" using Cons.prems(3) rd by auto
  have s1: "table_inv live s1" "deaf live fd s1" "loses live i s s1"
    using Cons.prems(1,2) table_inv_readable [OF N Cons.prems(1)] deaf_readable [OF N Cons.prems(1,2)] loses_readable [OF N Cons.prems(1)] i
    by (simp_all add: s1_def loses_env)
  have "\<forall>x \<in> set fds. 0 \<le> x \<and> (x \<in> rd \<longrightarrow> x \<in> live (li_net (lwip_of s1)))"
    using Cons.prems(3,4) s1(3) unfolding loses_def by auto
  then have "deaf live fd (task_fds N rd wr r fds s1)" for r using Cons.IH [OF s1(1,2)] Cons.prems(4) by simp
  then show ?case using Cons.prems(2) by (simp add: Let_def s1_def [symmetric] deaf_send_handler [OF s1(2)])
qed simp

lemma deaf_task:
  fixes s :: "('f, 'n, 'z) sock"
  assumes N: "net_ok N live" and s: "table_inv live s" and d: "deaf live fd s"
  shows "deaf live fd (lwip_socket_task N s)"
proof (cases "li_on (lwip_of s)")
  case False
  then show ?thesis using d by (simp add: lwip_socket_task_def)
next
  case True
  obtain m where m: "lwip_socket_fds_get (lwip_of s) = (m, fds_read (lwip_of s), fds_write (lwip_of s))"
    by (simp add: lwip_socket_fds_get_def)
  define r where "r = (if fd_word (fds_read (lwip_of s)) = {} then {} else fds_read (lwip_of s))"
  define w where "w = (if fd_word (fds_write (lwip_of s)) = {} then {} else fds_write (lwip_of s))"
  obtain ret rd1 wr1 s1 where q: "on_lwip (net_query (n_select N m r w)) s = ((ret, rd1, wr1), s1)" by (metis surj_pair)
  have quiet: "quiet live (net_query (n_select N m r w))" by (rule quiet_query) (rule net_okD(5) [OF N])
  have s1: "s1 = snd (on_lwip (net_query (n_select N m r w)) s)" using q by simp
  have "netless s1 = netless s" unfolding s1 by simp
  note g = netlessD [OF this] and gl = glueD [OF netlessD(1) [OF this]]
  have i1: "table_inv live s1" "live (li_net (lwip_of s1)) = live (li_net (lwip_of s))"
    unfolding s1 using s quiet by (simp_all add: on_lwip_env quiet_live)
  have d1: "deaf live fd s1" using d g(3-5) gl(2) i1(2) by (simp add: deaf_def)
  have "fst (on_lwip (net_query (n_select N m r w)) s) = (ret, rd1, wr1)" using q by simp
  then have "rd1 \<subseteq> r" using net_ok_open(6) [OF N, of m r w "li_net (lwip_of s)"] by (auto simp: on_lwip_fst net_query_def case_prod_beta)
  then have rd: "(if fd_word (fds_read (lwip_of s)) = {} then fds_read (lwip_of s) else rd1) \<subseteq> fds_read (lwip_of s)"
    by (auto simp: r_def split: if_splits)
  have lv: "fds_read (lwip_of s) \<subseteq> live (li_net (lwip_of s1))" using s i1(2) by (simp add: table_inv_def lwip_inv_def)
  have n: "fd \<notin> (if fd_word (fds_read (lwip_of s)) = {} then fds_read (lwip_of s) else rd1)" using rd d unfolding deaf_def by blast
  have "deaf live fd (task_fds N (if fd_word (fds_read (lwip_of s)) = {} then fds_read (lwip_of s) else rd1)
      (if fd_word (fds_write (lwip_of s)) = {} then fds_write (lwip_of s) else wr1) ret [0..int m - 1] s1)"
    by (rule deaf_task_fds [OF N n i1(1) d1]) (use subsetD [OF subset_trans [OF rd lv]] in auto)
  then show ?thesis using True d N
    by (simp add: lwip_socket_task_def m Let_def r_def [symmetric] w_def [symmetric] q)
qed

lemma deaf_turns:
  fixes s :: "('f, 'n, 'z) sock"
  assumes N: "net_ok N live"
  shows "table_inv live s \<Longrightarrow> deaf live fd s \<Longrightarrow> deaf live fd ((lwip_socket_task N ^^ n) s)"
proof (induction n arbitrary: s)
  case (Suc n)
  from Suc.IH [OF table_inv_task [OF N Suc.prems(1)] deaf_task [OF N Suc.prems]] show ?case by (simp add: funpow_swap1)
qed simp

text \<open>C21: \<open>AT+SRECVMODE=0\<close> while a socket's data has been announced to the host and not been fetched: the ready bits are cleared,
  but the socket is not put back among those the task reads.  Whatever the network does, no turn of the task ever reads it again,
  and \<open>AT+SRECV\<close> is refused now, so that the data cannot be had in either way.\<close>

theorem mode_change_deafens:
  fixes s :: "('f, 'n, 'z) sock"
  assumes "net_ok N live" and "table_inv live s" and "0 \<le> fd" and "fd < 10" and "so_ready (g_env s) AND ready_bit fd \<noteq> 0"
    and "fd \<notin> fds_read (lwip_of s)" and "rq_socket (so_req (g_env s)) = None"
  shows "\<exists>t. atcmd_socket_recv_mode_set [dec_int 0] s = (ATCMD_SUCCESS, t) \<and>
    (\<forall>n. (\<lambda>u. fd \<notin> fds_read (lwip_of u) \<and> atcmd_socket_recv_set N argv u = (ATCMD_ERROR_NOTSUPP, u)) ((lwip_socket_task N ^^ n) t))"
proof -
  let ?t = "on_env (\<lambda>e. e\<lparr>so_passive := False, so_ready_event := False, so_ready := 0\<rparr>) s"
  have e: "atcmd_socket_recv_mode_set [dec_int 0] s = (ATCMD_SUCCESS, ?t)"
    by (simp add: atcmd_socket_recv_mode_set_def atoi_of_dec set_errno_same)
  have "fd \<in> live (li_net (lwip_of s))" using assms(2-5) by (simp add: table_inv_def ready_ok_def ATCMD_SOCKET_NUM_MAX_def)
  then have d: "deaf live fd ?t" using assms(6,7) by (simp add: deaf_def)
  have "table_inv live ?t" using assms(2) by (simp add: table_inv_def ready_none)
  then have n: "deaf live fd ((lwip_socket_task N ^^ n) ?t)" for n by (rule deaf_turns [OF assms(1) _ d])
  have "fd \<notin> fds_read (lwip_of ((lwip_socket_task N ^^ n) ?t)) \<and>
      atcmd_socket_recv_set N argv ((lwip_socket_task N ^^ n) ?t) = (ATCMD_ERROR_NOTSUPP, (lwip_socket_task N ^^ n) ?t)" for n
    using n [of n] by (simp add: deaf_def atcmd_socket_recv_set_def)
  then show ?thesis using e by blast
qed

definition waiting_sock :: "(unit, nat, unit) sock" where
  "waiting_sock = demo_atcmd demo_served ((demo_sock_env 5)\<lparr>so_lwip := (demo_lwip 5)\<lparr>fds_read := {}\<rparr>, so_passive := True, so_ready := 8\<rparr>)"

theorem mode_change_deafens_witness:
  "so_ready (g_env waiting_sock) AND ready_bit 3 \<noteq> 0 \<and>
    (\<exists>t. atcmd_socket_recv_mode_set [dec_int 0] waiting_sock = (ATCMD_SUCCESS, t) \<and>
      3 \<notin> fds_read (lwip_of ((lwip_socket_task count_net ^^ 7) t)))"
proof -
  have b: "so_ready (g_env waiting_sock) = ready_bit 3" by (simp add: waiting_sock_def demo_atcmd_def ready_bit_def push_bit_eq_mult)
  have r: "ready_ok {0..<int (5 :: nat)} True (8 :: u16)"
  proof -
    have "i < 5" if "0 \<le> i" "i < 10" "(8 :: u16) AND ready_bit i \<noteq> 0" for i
    proof -
      have "i = 0 \<or> i = 1 \<or> i = 2 \<or> i = 3 \<or> i = 4 \<or> i = 5 \<or> i = 6 \<or> i = 7 \<or> i = 8 \<or> i = 9" using that(1,2) by presburger
      then show ?thesis using that(3) by (auto simp: ready_bit_def push_bit_eq_mult)
    qed
    then show ?thesis by (auto simp: ready_ok_def ATCMD_SOCKET_NUM_MAX_def)
  qed
  have i: "table_inv (\<lambda>n. {0..<int n}) waiting_sock"
    using r by (simp add: table_inv_def waiting_sock_def demo_atcmd_def demo_sock_env_def demo_lwip_def open_ids_def demo_entry_def
        lwip_inv_def atcmd_socket_reset_def)
  have q: "0 \<le> (3 :: int)" "(3 :: int) < 10" "so_ready (g_env waiting_sock) AND ready_bit 3 \<noteq> 0" "3 \<notin> fds_read (lwip_of waiting_sock)"
    "rq_socket (so_req (g_env waiting_sock)) = None"
    unfolding b by (simp_all add: ready_bit_def) (simp_all add: waiting_sock_def demo_atcmd_def demo_sock_env_def no_request_def)
  show ?thesis using mode_change_deafens [OF count_net_ok i q] q(3) by blast
qed

end
