(* ===== verification/Spec2Isabelle.thy ===== *)
theory Spec2Isabelle
  imports HspiProps FifoSpec UartHifProps DmaProps AtcmdParam AtcmdServe AtcmdDataProps HostAtcmdProps HostReturn
    HostFirmwareProps HostUserArea AtcmdSocketDgram AtcmdSocketMode
begin

text \<open>
  Verification library of the AT command system of the NRC7394 standalone SDK.

  \<^bold>\<open>The program.\<close>  A Wi-Fi module runs the AT command firmware \<open>package/sdk/apps/atcmd\<close>.  A host (a
  Raspberry Pi with the command line tool \<open>package/atcmd/host/raspi-atcmd-cli\<close>) sends it command lines and
  data and reads results, messages, events and received data.  Between them is a host interface:
  the SPI interface HSPI, where the host writes and reads fixed 512-byte slots through two queues whose
  counters the hardware keeps, or a UART whose receive side is a ring of DMA descriptors or an interrupt.  From the host's command to its result the bytes pass
  \<open>nrc_atcmd_send_cmd\<close>, \<open>hspi_write\<close>, the slots, \<open>_hif_hspi_read\<close> (or \<open>_hif_uart_read\<close>) with its ring buffer, the receive task
  of \<open>hif.c\<close>, \<open>atcmd_receive\<close> with the line editor, the parser, the dispatcher and the data mode, the
  command's handler, \<open>atcmd_transmit\<close>, \<open>_hif_hspi_write\<close>, the slots back, \<open>hspi_read\<close> and
  \<open>nrc_atcmd_recv\<close> with the callbacks of the tool.

  \<^bold>\<open>The theories.\<close>  Definitions carry the names of the C functions, without a leading underscore; a C
  structure is a record, an enumeration a datatype, a C integer a word where its width matters.  A
  pointer into a buffer is an index, \<open>None\<close> is undefined behaviour (an access outside an array, a call of
  a null pointer) or, where it says so, a loop that does not end.

  \<^item> \<open>Prelude\<close>: word types, \<open>memcpy_at\<close>, generic facts.  \<open>ChunkLoop\<close>: the locale of consuming loops, with
    the proof that they return; interpreted in \<open>AtcmdDataMode\<close> and \<open>HostAtcmd\<close>.
  \<^item> \<open>HifFifo\<close> (\<open>hif_fifo.c\<close>): the ring buffer with its free-running 32-bit indices; the locale \<open>byte_queue\<close>,
    its interpretation by the ring buffer.  \<open>FifoSpec\<close>: every run refines a bounded queue.
  \<^item> \<open>HifInfo\<close> (\<open>hif.h\<close>, \<open>hal_uart.h\<close>): settings and types the drivers share.
  \<^item> \<open>HifHspi\<close>, \<open>HifHspiCtl\<close> (\<open>hif_hspi.c\<close>): registers, slot framing, receive and transmit path; open, close,
    sleep.  \<open>HspiProps\<close>: their properties.
  \<^item> \<open>HostHspi\<close> (\<open>nrc-hspi.c\<close>): the host's side, commands with CRC, retries, slots, status, opening.
    \<open>HspiLink\<close>: the two sides composed, messages in both directions.
  \<^item> \<open>Hif\<close> (\<open>hif.c\<close>): the interface layer over a table of drivers, with the HSPI driver as its instance, the
    receive task, and the locale \<open>packet_reader\<close> it is verified against.
  \<^item> \<open>HifDma\<close> (\<open>hif_dma.c\<close>): the DMA controller's registers, channels, interrupts and descriptors.
    \<open>DmaProps\<close>: the descriptors its setters build, the flow control codes.
  \<^item> \<open>HifUart\<close> (\<open>hif_uart.c\<close>): the UART driver with its DMA ring, interrupt, pins, opening, closing and changing.
    \<open>UartRing\<close>: the ring of descriptors and the hardware following it (\<open>ring_step\<close>).  \<open>UartStream\<close>: the ring's
    invariant, and runs as runs of a byte queue.  \<open>UartOpen\<close>: opening establishes the invariant.
    \<open>UartProps\<close>: the driver's properties.  \<open>UartHif\<close>, \<open>UartHifProps\<close>: the UART driver as a second instance of
    \<open>packet_reader\<close>, the receive task over it, and the interrupt mode.
  \<^item> \<open>AtcmdParam\<close> (\<open>atcmd_param.c\<close>): integer, hexadecimal and string parameters.  \<open>AtcmdRegistry\<close>
    (\<open>atcmd_core.c\<close>): command groups and commands in doubly linked lists over an explicit heap, refining
    abstract lists.  \<open>AtcmdParse\<close>: \<open>atcmd_parse\<close>, which cuts the command in place.
  \<^item> \<open>AtcmdState\<close>: the record \<open>atcmd\<close> of the shared state, configuration, prompt, transmitter, message
    printer, data mode switch.  \<open>AtcmdCommand\<close>: dispatcher, command processor, key decoder, line editor.
    \<open>AtcmdServe\<close>: from the received bytes of a line to its effect and answer.
  \<^item> \<open>AtcmdDataMode\<close>, \<open>AtcmdDataProps\<close>: collecting and delivering data, exit command, idle timer, routing of
    a packet between command and data.
  \<^item> \<open>LwipIp4\<close> (\<open>ip4_addr.c\<close> of lwIP): IPv4 addresses as text.  \<open>LwipSocket\<close> (\<open>lwip_socket.c\<close>): the glue over the
    BSD sockets, opening, options, sending and receiving.
  \<^item> \<open>AtcmdSocketRxd\<close> (\<open>atcmd_socket.c\<close>): received socket data on its way to the host.  \<open>AtcmdSocket\<close>: the socket
    table, closing, sending, the callbacks and turns of the socket task, opening, events.  \<open>AtcmdSocketCmd\<close>: the commands
    \<open>AT+SOPEN\<close> to \<open>AT+STIMEOUT\<close>.
  \<^item> \<open>AtcmdSocketFrame\<close>: what each socket operation leaves alone.  \<open>AtcmdSocketProps\<close>: limits of the commands, closing,
    multicast groups.  \<open>AtcmdSocketSend\<close>: data on its way to the network, directly or through the task.
    \<open>AtcmdSocketHost\<close>, \<open>AtcmdSocketRecv\<close>: host and network end to end, in both directions.  \<open>AtcmdSocketDgram\<close>: the
    same for datagrams, and the one that is too long.  \<open>AtcmdSocketInv\<close>: the descriptors of the table and of the task, over all
    commands, data, events and turns (\<open>socket_step\<close>).  \<open>AtcmdSocketMode\<close>: a change of the receive mode while data waits.
  \<^item> \<open>AtcmdBasic\<close> (\<open>atcmd_basic.c\<close>): the commands over the flash (firmware update, user area, factory area) and
    the timeouts, as handlers and data consumers over the flash services.  \<open>AtcmdBasicProps\<close>: their contracts
    and printed numbers, \<open>FlashProps\<close>: their properties.
  \<^item> \<open>HostAtcmd\<close> (\<open>nrc-atcmd.c\<close>): the host's receiver, byte by byte, the message handlers, callbacks and
    sender.  \<open>HostRecv\<close>: how a line is collected and its arguments cut.  \<open>HostStream\<close>: the protocol's messages
    as a data type with their text and effect, and the refinement of streams.  \<open>HostAtcmdProps\<close>: safety, limits,
    sending, and a command's round trip between host and target.  \<open>HostReturn\<close>: the hand-over of a result
    between the two host threads as a step relation.
  \<^item> \<open>Exchange\<close>: host and target connected, a command with its answer.  \<open>HostFirmware\<close>: the firmware download
    of \<open>nrc-atcmd.c\<close> over it, \<open>HostFirmwareProps\<close>: what it leaves in the flash.  \<open>HostUserArea\<close>: writing the
    user area and reading it back.

  \<^bold>\<open>What is shown.\<close>  Ring buffer: refinement of a queue over index wrap-around.  Link: what one side writes the
  other reads, reads and writes return within their buffers whatever the slots hold, opening establishes
  the invariants, and where a reopening breaks them.  UART: from opening on, arriving bytes, interrupts and
  reads in any order refine a byte queue, up to the receive task's callback; a full ring, a change of the
  settings and the double release of the descriptors are the limits.  DMA: every descriptor the setters
  build is legal.  Interface layer: a life-cycle invariant over all
  operations and notifications.  Registry: refinement of lists of groups and commands.  Parser: round trip
  of set commands, all other forms, error cases.  Receiver of the target: its stores stay in its buffers (one,
  exactly characterised, only thanks to padding), it always returns, independent of the packets' boundaries, exact answers.  Host: every stream of well-formed
  messages has exactly its effects; arbitrary bytes are harmless except in the two named situations.
  Both together: a command and its answer, the firmware image in the flash after a download, the user area read
  back as written.  Flash: the handlers keep the receiver's contracts for every flash, blocks and
  ranges are exact.  Sockets: blocks the host sends reach the network as one stream, what arrives from the network reaches
  the host's callback, and the descriptors in the table and in the task's sets are open and distinct whatever happens.
  Several properties state a limit or a defect of the code precisely: what happens from which length on.

  \<^bold>\<open>Bounds and loops.\<close>  Loops over a buffer recurse on what is left of it.  Loops that need not end are partial
  functions, and where they return this is proved: the slot loops and the receive task, the routing loop of
  \<open>atcmd_receive\<close> and the sender of the host (\<open>chunk_loop\<close>).  \<open>transmit_loop\<close> runs over the list of the results of the
  successive interface writes, so that it returns exactly if these add up to the buffer.  The line buffer
  that \<open>atcmd_receive_command\<close> allocates has 132 bytes, the 129 of the C array and the padding of its structure, and
  each store into it and into the escape decoder's buffer is checked (\<open>store_at\<close>).  The one store that needs
  the padding, the NUL behind a command \<open>AT+\<close> of the full 128 characters, is pinned down by
  \<open>receive_command_safe\<close>, which covers the array alone as well; the other properties of the target's
  receiver are about the allocated buffer.  Stack buffers have
  arbitrary contents, \<open>g_stack\<close>.  The loops of the socket module over the answers of the network, which need not end, have a
  number of turns as fuel (\<open>n_turns\<close>, \<open>n_passes\<close>) and set \<open>so_stuck\<close> when it runs out; where they return, enough fuel is the
  number of bytes that wait, and that \<open>so_stuck\<close> stays off is part of the property.  \<open>so_fault\<close> is set by an access outside an object.

  \<^bold>\<open>Parameters.\<close> Code outside the repository, and code reached through function pointers, is an
  argument: the command handlers and the consumers of data (with the contracts \<open>handlers_ok\<close>,
  \<open>handlers_dm_ok\<close>, \<open>consumers_ok\<close>), the flash services of the modem library
  (\<open>flash_api\<close>; \<open>flash_ok\<close>, \<open>user_flash_ok\<close> and \<open>user_area_ok\<close>
  state a flash that works), the driver table, the SPI bus of the host, the DMA controller behind its registers
  (\<open>dma_engine_ok\<close>), the \<open>nrc_hsuart_\<close> and \<open>nrc_gpio_\<close> functions of the binary
  modem library (only their arguments are kept), the allocators, the host's callbacks and its interface
  (\<open>writer_ok\<close>), the sockets API of lwIP with the network behind it (\<open>net_api\<close>;
  \<open>net_ok\<close>: which descriptors are open, \<open>stream_law\<close>: a connected stream socket takes or
  gives leading bytes, \<open>steady\<close>: it goes on taking them; \<open>input_law\<close>,
  \<open>dgram_law\<close>: what \<open>FIONREAD\<close> and the reads give of a stream or a queue of datagrams). Each
  property with such a contract has an example that meets it.

  \<^bold>\<open>The build.\<close>  NRC7394, the interface HSPI (\<open>HifHspi\<close>) or UART (\<open>HifUart\<close>); \<open>CONFIG_ATCMD_PREFIX_CHECK\<close> on, \<open>CONFIG_ATCMD_HISTORY\<close>, \<open>_LOWERCASE\<close>, \<open>_PROMPT\<close> off,
  as in \<open>atcmd.h\<close>; the data types of the firmware update and the user area of the flash are kept.

  \<^bold>\<open>Not modelled.\<close>  Log output, mutexes (but for \<open>HostReturn\<close>, each operation runs to its end; the race between
  the data mode task and the receive task is not modelled; the socket task runs while a command waits for it and
  between commands, not within their pauses), data that arrives while the receive loop runs, GPIO and register dumps, the command
  history, start and stop of the AT command task, \<open>atcmd_param_to_float\<close>, the console commands of the drivers, the
  commands of \<open>atcmd_basic.c\<close> over registers and version strings, the IPv6 forms of the socket commands
  (\<open>CONFIG_ATCMD_IPV6\<close> is off), the command handlers of \<open>atcmd_wifi.c\<close>
  and \<open>atcmd_fota.c\<close> with the Wi-Fi API below them; on the host the command
  line, iperf and the kernel device glue.  The libraries of the repository (hostap, lwIP but for the addresses, mbedTLS, FreeRTOS, JSON, XML, HTTP, MQTT, flash storage,
  sensor and display drivers), the modem headers, the sample applications, tools and documents are third-party
  code, interfaces of binaries or examples.
\<close>

end
